(* ===== verification/Py_Prelude.thy ===== *)
theory Py_Prelude
  imports Main "HOL-Library.AList"
begin

text \<open>
  Shared vocabulary of the development. The Python programs under \<open>skills/\<close> keep their
  state in dictionaries and lists, raise exceptions and loop over sequences; this theory
  fixes how each of these is written in HOL and proves the facts every component uses.

  \<^item> A \<open>dict\<close> is an association list in insertion order, as CPython keeps it:
    \<open>py_get\<close> is \<open>d.get(k)\<close>, \<open>py_set\<close> is \<open>d[k] = v\<close> (an existing key keeps its place),
    \<open>py_del\<close> is \<open>del d[k]\<close>. The locale \<open>dict_store\<close> states the laws a client needs, and
    is interpreted on these three operations.
  \<^item> A call that may raise returns \<open>error + 'a\<close>, \<open>Inl\<close> carrying the exception.
  \<^item> The locale \<open>invariant_machine\<close> is the contract of a component whose operations all
    keep an invariant; \<open>progress_machine\<close> adds a quantity no operation decreases. Every
    component with state interprets one of them on its own step function.
\<close>

named_theorems dict_simps "rewriting dictionary operations"

section \<open>Dictionaries in insertion order\<close>

type_synonym ('k, 'v) py_dict = "('k \<times> 'v) list"

definition py_get :: "('k, 'v) py_dict \<Rightarrow> 'k \<Rightarrow> 'v option" where
  "py_get d k = map_of d k"

definition py_set :: "('k, 'v) py_dict \<Rightarrow> 'k \<Rightarrow> 'v \<Rightarrow> ('k, 'v) py_dict" where
  "py_set d k v = AList.update k v d"

definition py_del :: "('k, 'v) py_dict \<Rightarrow> 'k \<Rightarrow> ('k, 'v) py_dict" where
  "py_del d k = filter (\<lambda>(k', _). k' \<noteq> k) d"

abbreviation py_keys :: "('k, 'v) py_dict \<Rightarrow> 'k list" where
  "py_keys d \<equiv> map fst d"

abbreviation py_values :: "('k, 'v) py_dict \<Rightarrow> 'v list" where
  "py_values d \<equiv> map snd d"

text \<open>A dictionary never holds a key twice.\<close>

definition dict_ok :: "('k, 'v) py_dict \<Rightarrow> bool" where
  "dict_ok d \<longleftrightarrow> distinct (py_keys d)"

lemma dict_ok_Nil [simp, intro]: "dict_ok []"
  by (simp add: dict_ok_def)

lemma py_get_Nil [simp]: "py_get [] k = None"
  by (simp add: py_get_def)

lemma py_get_set [dict_simps]:
  "py_get (py_set d k v) k' = (if k' = k then Some v else py_get d k')"
  by (simp add: py_get_def py_set_def update_conv')

lemma py_get_del [dict_simps]:
  "py_get (py_del d k) k' = (if k' = k then None else py_get d k')"
  by (induction d) (auto simp: py_get_def py_del_def split: if_splits)

lemma py_keys_set: "py_keys (py_set d k v) =
    (if k \<in> set (py_keys d) then py_keys d else py_keys d @ [k])"
  by (simp add: py_set_def update_keys)

lemma dict_ok_set [simp, intro]: "dict_ok d \<Longrightarrow> dict_ok (py_set d k v)"
  by (simp add: dict_ok_def py_set_def distinct_update)

lemma dict_ok_del [simp, intro]: "dict_ok d \<Longrightarrow> dict_ok (py_del d k)"
  by (induction d) (auto simp: dict_ok_def py_del_def)

lemma dict_ok_filter [simp, intro]: "dict_ok d \<Longrightarrow> dict_ok (filter P d)"
  by (induction d) (auto simp: dict_ok_def)

lemma py_get_iff: "dict_ok d \<Longrightarrow> py_get d k = Some v \<longleftrightarrow> (k, v) \<in> set d"
  by (simp add: dict_ok_def py_get_def)

lemma py_get_SomeD: "py_get d k = Some v \<Longrightarrow> (k, v) \<in> set d"
  by (simp add: py_get_def map_of_SomeD)

lemma py_get_NoneD: "py_get d k = None \<Longrightarrow> (k, v) \<notin> set d"
  by (auto simp: py_get_def map_of_eq_None_iff image_iff)

lemma py_get_None_iff: "py_get d k = None \<longleftrightarrow> k \<notin> set (py_keys d)"
  by (simp add: py_get_def map_of_eq_None_iff)

lemma set_py_set: "dict_ok d \<Longrightarrow> set (py_set d k v) = {p \<in> set d. fst p \<noteq> k} \<union> {(k, v)}"
  by (induction d) (auto simp: dict_ok_def py_set_def rev_image_eqI)

lemma set_py_del [simp]: "set (py_del d k) = {p \<in> set d. fst p \<noteq> k}"
  by (auto simp: py_del_def)

lemma length_py_set: "length (py_set d k v) =
    (if py_get d k = None then Suc (length d) else length d)"
  by (induction d) (auto simp: py_get_def py_set_def)

lemma length_py_del_le: "length (py_del d k) \<le> length d"
  by (simp add: py_del_def)

lemma length_py_del_less: "py_get d k \<noteq> None \<Longrightarrow> length (py_del d k) < length d"
proof -
  assume "py_get d k \<noteq> None"
  then obtain v where "(k, v) \<in> set d" by (auto dest: py_get_SomeD)
  then show ?thesis
    unfolding py_del_def by (intro length_filter_less) auto
qed

lemma length_py_del: "dict_ok d \<Longrightarrow> (k, v) \<in> set d \<Longrightarrow> Suc (length (py_del d k)) = length d"
proof (induction d)
  case Nil
  then show ?case by simp
next
  case (Cons p d)
  show ?case
  proof (cases "fst p = k")
    case True
    with Cons.prems have "k \<notin> set (py_keys d)" by (auto simp: dict_ok_def)
    then have "py_del d k = d" by (auto simp: py_del_def filter_id_conv image_iff)
    moreover have "py_del (p # d) k = py_del d k" using True by (auto simp: py_del_def)
    ultimately show ?thesis by simp
  next
    case False
    with Cons show ?thesis by (auto simp: py_del_def dict_ok_def split: prod.splits)
  qed
qed

lemma py_set_get_id: "py_get d k = Some v \<Longrightarrow> py_set d k v = d"
  by (simp add: py_get_def py_set_def update_triv)

text \<open>The interface of a dictionary, as its clients use it.\<close>

locale dict_store =
  fixes get :: "'d \<Rightarrow> 'k \<Rightarrow> 'v option"
    and put :: "'d \<Rightarrow> 'k \<Rightarrow> 'v \<Rightarrow> 'd"
    and del :: "'d \<Rightarrow> 'k \<Rightarrow> 'd"
    and ok :: "'d \<Rightarrow> bool"
  assumes get_put: "get (put d k v) k' = (if k' = k then Some v else get d k')"
    and get_del: "get (del d k) k' = (if k' = k then None else get d k')"
    and ok_put: "ok d \<Longrightarrow> ok (put d k v)"
    and ok_del: "ok d \<Longrightarrow> ok (del d k)"
begin

text \<open>Insert-if-absent, the primitive behind every claim of a key in the programs.\<close>

definition claim :: "'d \<Rightarrow> 'k \<Rightarrow> 'v \<Rightarrow> bool \<times> 'd" where
  "claim d k v = (case get d k of None \<Rightarrow> (True, put d k v) | Some _ \<Rightarrow> (False, d))"

lemma claim_once: "fst (claim (snd (claim d k v)) k w) = False"
  by (auto simp: claim_def get_put split: option.splits)

lemma claim_keeps: "get d k = Some u \<Longrightarrow> get (snd (claim d k' v)) k = Some u"
  by (auto simp: claim_def get_put split: option.splits)

lemma claim_after_del: "fst (claim (del d k) k v) = True"
  by (simp add: claim_def get_del)

lemma claim_ok: "ok d \<Longrightarrow> ok (snd (claim d k v))"
  by (auto simp: claim_def ok_put split: option.splits)

text \<open>A predicate on all bindings survives writing a binding that satisfies it.\<close>

lemma all_put:
  "(\<And>k v. get d k = Some v \<Longrightarrow> P k v) \<Longrightarrow> P k' v' \<Longrightarrow> get (put d k' v') k = Some v \<Longrightarrow> P k v"
  by (auto simp: get_put split: if_splits)

lemma all_del:
  "(\<And>k v. get d k = Some v \<Longrightarrow> P k v) \<Longrightarrow> get (del d k') k = Some v \<Longrightarrow> P k v"
  by (auto simp: get_del split: if_splits)

end

interpretation dict: dict_store py_get py_set py_del dict_ok
  by unfold_locales (auto simp: dict_simps)

section \<open>Components as machines\<close>

text \<open>
  A component offers events; each takes the state to the next one. The laws: every event
  keeps the invariant. What follows for whole runs is proved once, here.
\<close>

locale invariant_machine =
  fixes step :: "'e \<Rightarrow> 's \<Rightarrow> 's"
    and inv :: "'s \<Rightarrow> bool"
  assumes step_inv: "inv s \<Longrightarrow> inv (step e s)"
begin

lemma run_inv: "inv s \<Longrightarrow> inv (fold step es s)"
  by (induction es arbitrary: s) (auto intro: step_inv)

lemma run_inv_prefix: "inv s \<Longrightarrow> inv (fold step (take n es) s)"
  by (rule run_inv)

end

text \<open>
  A machine that keeps its invariant as long as the events satisfy a condition, such as that
  the outside party they talk to behaves. A machine with no condition is one of these.
\<close>

locale guarded_machine =
  fixes step :: "'e \<Rightarrow> 's \<Rightarrow> 's"
    and allowed :: "'e \<Rightarrow> bool"
    and inv :: "'s \<Rightarrow> bool"
  assumes step_guarded: "allowed e \<Longrightarrow> inv s \<Longrightarrow> inv (step e s)"
begin

lemma run_guarded: "list_all allowed es \<Longrightarrow> inv s \<Longrightarrow> inv (fold step es s)"
  by (induction es arbitrary: s) (auto intro: step_guarded)

end

sublocale invariant_machine \<subseteq> guarded: guarded_machine step "\<lambda>_. True" inv
  by unfold_locales (rule step_inv)

text \<open>
  A machine whose events only ever move it forward in some order (a version that never
  decreases, a log that only grows, an entry that is never lost).
\<close>

locale progress_machine = invariant_machine step inv
  for step :: "'e \<Rightarrow> 's \<Rightarrow> 's" and inv :: "'s \<Rightarrow> bool" +
  fixes le :: "'s \<Rightarrow> 's \<Rightarrow> bool"
  assumes le_refl: "le s s"
    and le_trans: "le s t \<Longrightarrow> le t u \<Longrightarrow> le s u"
    and step_le: "inv s \<Longrightarrow> le s (step e s)"
begin

lemma run_le: "inv s \<Longrightarrow> le s (fold step es s)"
proof (induction es arbitrary: s)
  case Nil
  show ?case by (simp add: le_refl)
next
  case (Cons e es)
  have "le (step e s) (fold step es (step e s))" by (rule Cons.IH[OF step_inv[OF Cons.prems]])
  with step_le[OF Cons.prems] show ?case by (auto intro: le_trans)
qed

end

section \<open>Lists and results\<close>

lemma length_filter_less_if: "x \<in> set xs \<Longrightarrow> \<not> P x \<Longrightarrow> length (filter P xs) < length xs"
  by (rule length_filter_less)

lemma find_SomeD: "find P xs = Some x \<Longrightarrow> x \<in> set xs \<and> P x"
  by (induction xs) (auto split: if_splits)

lemma sorted_key_ConsD: "sorted (map f (x # xs)) \<Longrightarrow> \<forall>y\<in>set xs. f x \<le> f y"
  by simp

text \<open>First failure of a check over a list, in order, as a validating \<open>for\<close> loop raises it.\<close>

fun first_error :: "('a \<Rightarrow> 'e option) \<Rightarrow> 'a list \<Rightarrow> 'e option" where
  "first_error chk [] = None"
| "first_error chk (x # xs) =
     (case chk x of Some e \<Rightarrow> Some e | None \<Rightarrow> first_error chk xs)"

lemma first_error_cong [fundef_cong]:
  "xs = ys \<Longrightarrow> (\<And>x. x \<in> set ys \<Longrightarrow> f x = g x) \<Longrightarrow> first_error f xs = first_error g ys"
  by (induction xs arbitrary: ys) (force split: option.splits)+

lemma first_error_None: "first_error chk xs = None \<longleftrightarrow> (\<forall>x\<in>set xs. chk x = None)"
  by (induction xs) (auto split: option.splits)

lemma first_error_SomeD: "first_error chk xs = Some e \<Longrightarrow> \<exists>x\<in>set xs. chk x = Some e"
  by (induction xs) (auto split: option.splits)

text \<open>\<open>n.bit_length()\<close> of a non-negative integer.\<close>

function bit_length :: "int \<Rightarrow> nat" where
  "bit_length n = (if n \<le> 0 then 0 else Suc (bit_length (n div 2)))"
  by pat_completeness auto
termination by (relation "measure nat") auto

declare bit_length.simps [simp del]

end
