(* ===== verification/Gap_Detector.thy ===== *)
theory Gap_Detector
  imports Py_Prelude "HOL-Library.Product_Lexorder"
begin

text \<open>
  Model of \<open>skills/sequence-number-gap-detection-for-feeds/scripts/gap_detector.py\<close>: one
  detector tracks many independent sequence spaces, releases a frame only when every
  sequence number before it has been delivered, holds frames that are ahead behind an open
  gap, and refuses to authorise trading on a stream with anything outstanding.

  \<^item> The opaque payload is a type variable. Python's run-time type checks (\<open>isinstance\<close>) are
    discharged by HOL's typing; every check on values is a branch here.
  \<^item> The human-readable \<open>message\<close> of a result and the log calls are not modelled; they do
    not influence any field that is.
  \<^item> The object \<open>_StreamState\<close> is mutated in place in Python; here each operation returns
    the new one, and the detector writes it back under its key.
\<close>

section \<open>Data model\<close>

datatype feed_sync_state = SYNCED | DIRTY_SYNC_PENDING | RECOVERING | RESET_REQUIRED

definition trading_authorized_states :: "feed_sync_state set" where
  "trading_authorized_states = {SYNCED}"

datatype frame_disposition =
    PROCESSED | PARTIAL_OVERLAP | BUFFERED | DUPLICATE
  | DROPPED_BUFFER_FULL | RESET_SUSPECTED | DROPPED_RESET_REQUIRED

datatype feed_error =
    Empty_Stream_Name | Negative_Sequence | Inverted_Range | Bad_Limit
  | Unknown_Stream | Foreign_Frame | Feed_Reset_Required | Stream_KeyError

record 'p feed_frame =
  stream :: string
  sequence_id :: int
  payload :: 'p
  last_sequence_id :: "int option"

definition validate_sequence :: "int \<Rightarrow> feed_error option" where
  "validate_sequence n = (if n < 0 then Some Negative_Sequence else None)"

text \<open>\<open>FeedFrame(...)\<close> with its \<open>__post_init__\<close> checks, in their order.\<close>

definition make_feed_frame ::
    "string \<Rightarrow> int \<Rightarrow> 'p \<Rightarrow> int option \<Rightarrow> feed_error + 'p feed_frame" where
  "make_feed_frame s n p l =
     (if s = [] then Inl Empty_Stream_Name
      else case validate_sequence n of
        Some e \<Rightarrow> Inl e
      | None \<Rightarrow>
         (case l of
            None \<Rightarrow> Inr \<lparr>stream = s, sequence_id = n, payload = p, last_sequence_id = None\<rparr>
          | Some m \<Rightarrow>
             (case validate_sequence m of
                Some e \<Rightarrow> Inl e
              | None \<Rightarrow>
                 (if m < n then Inl Inverted_Range
                  else Inr \<lparr>stream = s, sequence_id = n, payload = p, last_sequence_id = Some m\<rparr>))))"

definition final_sequence_id :: "'p feed_frame \<Rightarrow> int" where
  "final_sequence_id f = (case last_sequence_id f of None \<Rightarrow> sequence_id f | Some m \<Rightarrow> m)"

definition sequence_span :: "'p feed_frame \<Rightarrow> int" where
  "sequence_span f = final_sequence_id f - sequence_id f + 1"

type_synonym ranges = "(int \<times> int) list"

definition range_count :: "ranges \<Rightarrow> int" where
  "range_count rs = sum_list (map (\<lambda>(a, b). b - a + 1) rs)"

record 'p gap_result =
  res_stream :: string
  res_state :: feed_sync_state
  disposition :: frame_disposition
  is_gap_detected :: bool
  missing_ranges :: ranges
  processed_frames :: "'p feed_frame list"

definition result_authorized :: "'p gap_result \<Rightarrow> bool" where
  "result_authorized r \<longleftrightarrow> res_state r \<in> trading_authorized_states"

record 'p reconciliation_result =
  rec_stream :: string
  rec_state :: feed_sync_state
  rec_processed :: "'p feed_frame list"
  applied_count :: nat
  duplicate_count :: nat
  remaining_ranges :: ranges
  is_synced :: bool

record stream_stats =
  st_stream :: string
  st_state :: feed_sync_state
  st_expected_sequence :: int
  st_buffered_frames :: nat
  st_outstanding_missing_count :: int
  st_frames_processed :: nat
  st_gaps_detected :: nat
  st_duplicates_suppressed :: nat
  st_frames_dropped_buffer_full :: nat
  st_resets_suspected :: nat

record 'p stream_state =
  expected :: int
  sync_state :: feed_sync_state
  buffer :: "(int, 'p feed_frame) py_dict"
  high_water :: int
  frames_processed :: nat
  gaps_detected :: nat
  duplicates_suppressed :: nat
  frames_dropped_buffer_full :: nat
  resets_suspected :: nat

text \<open>\<open>_StreamState(expected=n, high_water=n)\<close>: the other fields at their defaults.\<close>

definition new_stream_state :: "int \<Rightarrow> 'p stream_state" where
  "new_stream_state n =
     \<lparr>expected = n, sync_state = SYNCED, buffer = [], high_water = n, frames_processed = 0,
      gaps_detected = 0, duplicates_suppressed = 0, frames_dropped_buffer_full = 0,
      resets_suspected = 0\<rparr>"

record 'p detector =
  max_buffer_size :: nat
  sequence_reset_threshold :: int
  streams :: "(string, 'p stream_state) py_dict"

text \<open>\<open>__init__\<close>: both limits must be at least one.\<close>

definition make_detector :: "int \<Rightarrow> int \<Rightarrow> feed_error + 'p detector" where
  "make_detector m t =
     (case validate_sequence m of
        Some e \<Rightarrow> Inl e
      | None \<Rightarrow>
         (if m < 1 then Inl Bad_Limit
          else case validate_sequence t of
            Some e \<Rightarrow> Inl e
          | None \<Rightarrow>
             (if t < 1 then Inl Bad_Limit
              else Inr \<lparr>max_buffer_size = nat m, sequence_reset_threshold = t, streams = []\<rparr>)))"

section \<open>Internals: draining, missing runs, settling\<close>

text \<open>The scan of \<open>_pop_straddling\<close> runs in the dictionary's order and removes the first hit.\<close>

definition pop_straddling :: "'p stream_state \<Rightarrow> 'p feed_frame option \<times> 'p stream_state" where
  "pop_straddling st =
     (case find (\<lambda>(k, f). sequence_id f \<le> expected st \<and> expected st \<le> final_sequence_id f)
             (buffer st) of
        None \<Rightarrow> (None, st)
      | Some (k, f) \<Rightarrow> (Some f, st\<lparr>buffer := py_del (buffer st) k\<rparr>))"

text \<open>One turn of the \<open>while st.buffer\<close> loop: the frame to release, if any.\<close>

definition pop_next :: "'p stream_state \<Rightarrow> 'p feed_frame option \<times> 'p stream_state" where
  "pop_next st =
     (case py_get (buffer st) (expected st) of
        Some f \<Rightarrow> (Some f, st\<lparr>buffer := py_del (buffer st) (expected st)\<rparr>)
      | None \<Rightarrow> pop_straddling st)"

lemma pop_next_shrinks:
  "pop_next st = (Some f, st') \<Longrightarrow> length (buffer st') < length (buffer st)"
proof (cases "py_get (buffer st) (expected st)")
  case (Some g)
  moreover assume "pop_next st = (Some f, st')"
  ultimately show ?thesis
    by (auto simp: pop_next_def length_py_del_less)
next
  case None
  assume "pop_next st = (Some f, st')"
  with None obtain k where hit: "find (\<lambda>(k, f). sequence_id f \<le> expected st \<and>
      expected st \<le> final_sequence_id f) (buffer st) = Some (k, f)"
    and st': "st' = st\<lparr>buffer := py_del (buffer st) k\<rparr>"
    by (auto simp: pop_next_def pop_straddling_def split: option.splits prod.splits)
  from hit have "(k, f) \<in> set (buffer st)" by (auto simp: find_Some_iff set_conv_nth)
  then have "py_get (buffer st) k \<noteq> None" by (meson py_get_NoneD)
  then show ?thesis by (simp add: st' length_py_del_less)
qed

function drain_loop :: "'p stream_state \<Rightarrow> 'p feed_frame list \<times> 'p stream_state" where
  "drain_loop st =
     (if buffer st = [] then ([], st)
      else case pop_next st of
        (None, st') \<Rightarrow> ([], st')
      | (Some f, st') \<Rightarrow>
         (let (released, st'') = drain_loop (st'\<lparr>expected := final_sequence_id f + 1\<rparr>)
          in (f # released, st'')))"
  by pat_completeness auto
termination
  by (relation "measure (\<lambda>st. length (buffer st))") (auto dest: pop_next_shrinks[OF sym])

declare drain_loop.simps [simp del]

definition purge_stale :: "'p stream_state \<Rightarrow> 'p stream_state" where
  "purge_stale st =
     (let stale = filter (\<lambda>(k, f). final_sequence_id f < expected st) (buffer st)
      in st\<lparr>buffer := filter (\<lambda>(k, f). \<not> final_sequence_id f < expected st) (buffer st),
            duplicates_suppressed := duplicates_suppressed st + length stale\<rparr>)"

definition drain :: "'p stream_state \<Rightarrow> 'p feed_frame list \<times> 'p stream_state" where
  "drain st = (let (released, st') = drain_loop st in (released, purge_stale st'))"

text \<open>The loop of \<open>_missing_ranges\<close> with its \<open>continue\<close>, \<open>break\<close> and early \<open>return\<close>.\<close>

fun missing_loop :: "int \<Rightarrow> int \<Rightarrow> 'p feed_frame list \<Rightarrow> ranges" where
  "missing_loop hi cursor [] = [(cursor, hi)]"
| "missing_loop hi cursor (f # fs) =
     (if final_sequence_id f < cursor then missing_loop hi cursor fs
      else if sequence_id f > hi then [(cursor, hi)]
      else
        (let gap = (if sequence_id f > cursor then [(cursor, sequence_id f - 1)] else []);
             cursor' = final_sequence_id f + 1
         in if cursor' > hi then gap else gap @ missing_loop hi cursor' fs))"

definition missing_upto :: "'p stream_state \<Rightarrow> int \<Rightarrow> ranges" where
  "missing_upto st hi =
     (if hi < expected st then []
      else missing_loop hi (expected st) (sort_key sequence_id (py_values (buffer st))))"

definition highest_buffered :: "'p stream_state \<Rightarrow> int" where
  "highest_buffered st =
     (case py_values (buffer st) of
        [] \<Rightarrow> expected st - 1
      | f # fs \<Rightarrow> fold max (map final_sequence_id fs) (final_sequence_id f))"

definition outstanding_ranges :: "'p stream_state \<Rightarrow> ranges" where
  "outstanding_ranges st = missing_upto st (max (highest_buffered st) (high_water st - 1))"

definition settle_state :: "'p stream_state \<Rightarrow> feed_sync_state" where
  "settle_state st =
     (if outstanding_ranges st = [] then SYNCED
      else if sync_state st = RECOVERING then RECOVERING
      else DIRTY_SYNC_PENDING)"

definition gap_result_of ::
    "string \<Rightarrow> 'p stream_state \<Rightarrow> frame_disposition \<Rightarrow> 'p feed_frame list \<Rightarrow> ranges \<Rightarrow>
     'p gap_result" where
  "gap_result_of s st disp processed missing =
     \<lparr>res_stream = s, res_state = sync_state st, disposition = disp,
      is_gap_detected = (missing \<noteq> []), missing_ranges = missing, processed_frames = processed\<rparr>"

section \<open>Ingest\<close>

text \<open>Case 1 of \<open>ingest_frame\<close>: the frame covers the expected sequence number.\<close>

definition ingest_contiguous ::
    "'p stream_state \<Rightarrow> 'p feed_frame \<Rightarrow> 'p gap_result \<times> 'p stream_state" where
  "ingest_contiguous st f =
     (let disp = (if sequence_id f = expected st then PROCESSED else PARTIAL_OVERLAP);
          (released, st2) = drain (st\<lparr>expected := final_sequence_id f + 1\<rparr>);
          processed = f # released;
          st3 = st2\<lparr>frames_processed := frames_processed st2 + length processed\<rparr>;
          st4 = st3\<lparr>sync_state := settle_state st3\<rparr>
      in (gap_result_of (stream f) st4 disp processed [], st4))"

text \<open>Case 2: the frame is entirely behind the stream.\<close>

definition ingest_behind ::
    "int \<Rightarrow> 'p stream_state \<Rightarrow> 'p feed_frame \<Rightarrow> 'p gap_result \<times> 'p stream_state" where
  "ingest_behind threshold st f =
     (if expected st - final_sequence_id f \<ge> threshold then
        (let st' = st\<lparr>resets_suspected := resets_suspected st + 1, sync_state := RESET_REQUIRED\<rparr>
         in (gap_result_of (stream f) st' RESET_SUSPECTED [] [], st'))
      else
        (let st' = st\<lparr>duplicates_suppressed := duplicates_suppressed st + 1\<rparr>
         in (gap_result_of (stream f) st' DUPLICATE [] [], st')))"

text \<open>Case 3: the frame is ahead of the stream. A frame that is kept goes into the buffer.\<close>

definition store_ahead ::
    "bool \<Rightarrow> 'p stream_state \<Rightarrow> 'p feed_frame \<Rightarrow> 'p gap_result \<times> 'p stream_state" where
  "store_ahead was_clean st f =
     (let st1 = st\<lparr>buffer := py_set (buffer st) (sequence_id f) f\<rparr>;
          st2 = st1\<lparr>sync_state := settle_state st1\<rparr>;
          st3 = (if was_clean then st2\<lparr>gaps_detected := gaps_detected st2 + 1\<rparr> else st2);
          missing = missing_upto st3 (sequence_id f - 1)
      in (gap_result_of (stream f) st3 BUFFERED [] missing, st3))"

definition ingest_ahead ::
    "nat \<Rightarrow> bool \<Rightarrow> 'p stream_state \<Rightarrow> 'p feed_frame \<Rightarrow> 'p gap_result \<times> 'p stream_state" where
  "ingest_ahead max_buffer was_clean st f =
     (let held = py_get (buffer st) (sequence_id f)
      in case held of
           Some b \<Rightarrow>
             (if final_sequence_id b \<ge> final_sequence_id f then
                (let st' = st\<lparr>duplicates_suppressed := duplicates_suppressed st + 1\<rparr>
                 in (gap_result_of (stream f) st' DUPLICATE [] [], st'))
              else store_ahead was_clean st f)
         | None \<Rightarrow>
             (if length (buffer st) \<ge> max_buffer then
                (let st' = st\<lparr>frames_dropped_buffer_full := frames_dropped_buffer_full st + 1,
                              sync_state := RESET_REQUIRED\<rparr>
                 in (gap_result_of (stream f) st' DROPPED_BUFFER_FULL [] [], st'))
              else store_ahead was_clean st f))"

text \<open>\<open>ingest_frame\<close> on a stream already tracked.\<close>

definition ingest_known ::
    "nat \<Rightarrow> int \<Rightarrow> 'p stream_state \<Rightarrow> 'p feed_frame \<Rightarrow> 'p gap_result \<times> 'p stream_state" where
  "ingest_known max_buffer threshold st f =
     (if sync_state st = RESET_REQUIRED then
        (gap_result_of (stream f) st DROPPED_RESET_REQUIRED [] [], st)
      else
        (let first = sequence_id f; last = final_sequence_id f; exp = expected st;
             was_clean = (outstanding_ranges st = []);
             st1 = st\<lparr>high_water := max (high_water st) (last + 1)\<rparr>
         in if first \<le> exp \<and> exp \<le> last then ingest_contiguous st1 f
            else if last < exp then ingest_behind threshold st1 f
            else ingest_ahead max_buffer was_clean st1 f))"

text \<open>First sight of a stream adopts the frame as the baseline.\<close>

definition ingest_baseline :: "'p feed_frame \<Rightarrow> 'p gap_result \<times> 'p stream_state" where
  "ingest_baseline f =
     (let st = (new_stream_state (final_sequence_id f + 1))\<lparr>frames_processed := 1\<rparr>
      in (gap_result_of (stream f) st PROCESSED [f] [], st))"

definition ingest_frame ::
    "'p detector \<Rightarrow> 'p feed_frame \<Rightarrow> 'p gap_result \<times> 'p detector" where
  "ingest_frame d f =
     (let (r, st') =
        (case py_get (streams d) (stream f) of
           None \<Rightarrow> ingest_baseline f
         | Some st \<Rightarrow> ingest_known (max_buffer_size d) (sequence_reset_threshold d) st f)
      in (r, d\<lparr>streams := py_set (streams d) (stream f) st'\<rparr>))"

section \<open>Heartbeat, reconciliation, resynchronisation\<close>

definition heartbeat_known ::
    "int \<Rightarrow> string \<Rightarrow> 'p stream_state \<Rightarrow> int \<Rightarrow> 'p gap_result \<times> 'p stream_state" where
  "heartbeat_known threshold s st next =
     (if sync_state st = RESET_REQUIRED then
        (gap_result_of s st DROPPED_RESET_REQUIRED [] [], st)
      else if next = expected st then (gap_result_of s st PROCESSED [] [], st)
      else if next < expected st then
        (if expected st - next \<ge> threshold then
           (let st' = st\<lparr>resets_suspected := resets_suspected st + 1, sync_state := RESET_REQUIRED\<rparr>
            in (gap_result_of s st' RESET_SUSPECTED [] [], st'))
         else (gap_result_of s st DUPLICATE [] [], st))
      else
        (let was_clean = (outstanding_ranges st = []);
             st1 = st\<lparr>high_water := max (high_water st) next\<rparr>;
             missing = missing_upto st1 (next - 1)
         in if missing \<noteq> [] then
              (let st2 = (if was_clean then st1\<lparr>gaps_detected := gaps_detected st1 + 1\<rparr> else st1);
                   st3 = st2\<lparr>sync_state := settle_state st2\<rparr>
               in (gap_result_of s st3 BUFFERED [] missing, st3))
            else (gap_result_of s st1 PROCESSED [] [], st1)))"

definition observe_heartbeat ::
    "'p detector \<Rightarrow> string \<Rightarrow> int \<Rightarrow> feed_error + ('p gap_result \<times> 'p detector)" where
  "observe_heartbeat d s next =
     (if s = [] then Inl Empty_Stream_Name
      else case validate_sequence next of
        Some e \<Rightarrow> Inl e
      | None \<Rightarrow>
         (let (r, st') =
            (case py_get (streams d) s of
               None \<Rightarrow> (let st = new_stream_state next in (gap_result_of s st PROCESSED [] [], st))
             | Some st \<Rightarrow> heartbeat_known (sequence_reset_threshold d) s st next)
          in Inr (r, d\<lparr>streams := py_set (streams d) s st'\<rparr>)))"

text \<open>
  The backfill loop: \<open>(processed, applied, duplicates)\<close> so far, with the \<open>break\<close> once the
  stream is latched. The loop reads the stream's state through the shared object; here it
  is looked up in the detector.
\<close>

definition stream_of :: "'p detector \<Rightarrow> string \<Rightarrow> 'p stream_state" where
  "stream_of d s = (case py_get (streams d) s of Some st \<Rightarrow> st | None \<Rightarrow> new_stream_state 0)"

fun reconcile_loop ::
    "string \<Rightarrow> 'p feed_frame list \<Rightarrow> 'p detector \<Rightarrow> 'p feed_frame list \<Rightarrow> nat \<Rightarrow> nat \<Rightarrow>
     'p detector \<times> 'p feed_frame list \<times> nat \<times> nat" where
  "reconcile_loop s [] d processed applied dups = (d, processed, applied, dups)"
| "reconcile_loop s (mf # mfs) d processed applied dups =
     (let (r, d') = ingest_frame d mf;
          processed' = processed @ processed_frames r;
          applied' = (if disposition r \<in> {PROCESSED, PARTIAL_OVERLAP, BUFFERED}
                      then applied + 1 else applied);
          dups' = (if disposition r = DUPLICATE then dups + 1 else dups)
      in if sync_state (stream_of d' s) = RESET_REQUIRED then (d', processed', applied', dups')
         else reconcile_loop s mfs d' processed' applied' dups')"

definition set_sync_state :: "'p detector \<Rightarrow> string \<Rightarrow> feed_sync_state \<Rightarrow> 'p detector" where
  "set_sync_state d s x =
     d\<lparr>streams := py_set (streams d) s ((stream_of d s)\<lparr>sync_state := x\<rparr>)\<rparr>"

definition backfill_order :: "'p feed_frame list \<Rightarrow> 'p feed_frame list" where
  "backfill_order = sort_key (\<lambda>f. (sequence_id f, final_sequence_id f))"

definition reconcile_missing_frames ::
    "'p detector \<Rightarrow> string \<Rightarrow> 'p feed_frame list \<Rightarrow>
     feed_error + ('p reconciliation_result \<times> 'p detector)" where
  "reconcile_missing_frames d s frames =
     (if s = [] then Inl Empty_Stream_Name
      else case py_get (streams d) s of
        None \<Rightarrow> Inl Unknown_Stream
      | Some st \<Rightarrow>
         (if sync_state st = RESET_REQUIRED then Inl Feed_Reset_Required
          else case first_error (\<lambda>f. if stream f \<noteq> s then Some Foreign_Frame else None) frames of
            Some e \<Rightarrow> Inl e
          | None \<Rightarrow>
             (let (d1, processed, applied, dups) =
                    reconcile_loop s (backfill_order frames) (set_sync_state d s RECOVERING) [] 0 0;
                  st1 = stream_of d1 s;
                  remaining = outstanding_ranges st1
              in if sync_state st1 = RESET_REQUIRED then
                   Inr (\<lparr>rec_stream = s, rec_state = RESET_REQUIRED, rec_processed = processed,
                         applied_count = applied, duplicate_count = dups,
                         remaining_ranges = remaining, is_synced = False\<rparr>, d1)
                 else
                   (let settled = settle_state st1
                    in Inr (\<lparr>rec_stream = s, rec_state = settled, rec_processed = processed,
                             applied_count = applied, duplicate_count = dups,
                             remaining_ranges = remaining, is_synced = (settled = SYNCED)\<rparr>,
                            set_sync_state d1 s settled)))))"

definition resynchronize :: "'p detector \<Rightarrow> string \<Rightarrow> int \<Rightarrow> feed_error + 'p detector" where
  "resynchronize d s next =
     (if s = [] then Inl Empty_Stream_Name
      else case validate_sequence next of
        Some e \<Rightarrow> Inl e
      | None \<Rightarrow>
         (let st' = (case py_get (streams d) s of
              None \<Rightarrow> new_stream_state next
            | Some st \<Rightarrow> st\<lparr>buffer := [], expected := next, high_water := next,
                            sync_state := SYNCED\<rparr>)
          in Inr (d\<lparr>streams := py_set (streams d) s st'\<rparr>)))"

section \<open>Introspection\<close>

definition get_state :: "'p detector \<Rightarrow> string \<Rightarrow> feed_sync_state option" where
  "get_state d s = map_option sync_state (py_get (streams d) s)"

definition is_trading_authorized :: "'p detector \<Rightarrow> string \<Rightarrow> bool" where
  "is_trading_authorized d s =
     (case py_get (streams d) s of None \<Rightarrow> False
      | Some st \<Rightarrow> sync_state st \<in> trading_authorized_states)"

definition stats :: "'p detector \<Rightarrow> string \<Rightarrow> feed_error + stream_stats" where
  "stats d s =
     (case py_get (streams d) s of
        None \<Rightarrow> Inl Stream_KeyError
      | Some st \<Rightarrow>
          Inr \<lparr>st_stream = s, st_state = sync_state st, st_expected_sequence = expected st,
               st_buffered_frames = length (buffer st),
               st_outstanding_missing_count = range_count (outstanding_ranges st),
               st_frames_processed = frames_processed st,
               st_gaps_detected = gaps_detected st,
               st_duplicates_suppressed = duplicates_suppressed st,
               st_frames_dropped_buffer_full = frames_dropped_buffer_full st,
               st_resets_suspected = resets_suspected st\<rparr>)"

definition tracked_streams :: "'p detector \<Rightarrow> string list" where
  "tracked_streams d = py_keys (streams d)"

section \<open>The detector as a machine\<close>

text \<open>
  Every call of the public interface that changes state. An event carries the constructor's
  arguments, so only frames that \<open>FeedFrame.__post_init__\<close> accepts ever reach the detector;
  a call that raises leaves the state as it was.
\<close>

type_synonym 'p frame_args = "string \<times> int \<times> 'p \<times> int option"

datatype 'p feed_event =
    Ev_Frame "'p frame_args"
  | Ev_Heartbeat string int
  | Ev_Reconcile string "'p frame_args list"
  | Ev_Resync string int

definition frame_of_args :: "'p frame_args \<Rightarrow> feed_error + 'p feed_frame" where
  "frame_of_args a = (case a of (s, n, p, l) \<Rightarrow> make_feed_frame s n p l)"

fun frames_of_args :: "'p frame_args list \<Rightarrow> feed_error + 'p feed_frame list" where
  "frames_of_args [] = Inr []"
| "frames_of_args (a # as) =
     (case frame_of_args a of
        Inl e \<Rightarrow> Inl e
      | Inr f \<Rightarrow> (case frames_of_args as of Inl e \<Rightarrow> Inl e | Inr fs \<Rightarrow> Inr (f # fs)))"

fun detector_step :: "'p feed_event \<Rightarrow> 'p detector \<Rightarrow> 'p detector" where
  "detector_step (Ev_Frame a) d =
     (case frame_of_args a of Inl _ \<Rightarrow> d | Inr f \<Rightarrow> snd (ingest_frame d f))"
| "detector_step (Ev_Heartbeat s n) d =
     (case observe_heartbeat d s n of Inl _ \<Rightarrow> d | Inr (_, d') \<Rightarrow> d')"
| "detector_step (Ev_Reconcile s as) d =
     (case frames_of_args as of
        Inl _ \<Rightarrow> d
      | Inr fs \<Rightarrow> (case reconcile_missing_frames d s fs of Inl _ \<Rightarrow> d | Inr (_, d') \<Rightarrow> d'))"
| "detector_step (Ev_Resync s n) d =
     (case resynchronize d s n of Inl _ \<Rightarrow> d | Inr d' \<Rightarrow> d')"

end
