(* ===== verification/Gap_Continuity.thy ===== *)
theory Gap_Continuity
  imports Gap_Detector
begin

text \<open>
  What the gap detector promises. The structural invariant \<open>stream_ok\<close> says every held
  frame lies strictly ahead of the expected sequence number and below the high-water mark;
  from it follow the exact meaning of the missing ranges, in-order delivery over whole runs,
  the trading gate, the latch and the completeness of a backfill.
\<close>

section \<open>Spans and chains\<close>

definition frame_ok :: "'p feed_frame \<Rightarrow> bool" where
  "frame_ok f \<longleftrightarrow> stream f \<noteq> [] \<and> 0 \<le> sequence_id f \<and> sequence_id f \<le> final_sequence_id f"

definition span :: "'p feed_frame \<Rightarrow> int set" where
  "span f = {sequence_id f..final_sequence_id f}"

definition range_set :: "ranges \<Rightarrow> int set" where
  "range_set rs = (\<Union>(a, b)\<in>set rs. {a..b})"

text \<open>
  \<open>chain e fs e'\<close>: delivering \<open>fs\<close> in order from expected number \<open>e\<close> leaves no number out
  and ends at \<open>e'\<close>; each frame covers the number expected when it is delivered.
\<close>

fun chain :: "int \<Rightarrow> 'p feed_frame list \<Rightarrow> int \<Rightarrow> bool" where
  "chain e [] e' \<longleftrightarrow> e = e'"
| "chain e (f # fs) e' \<longleftrightarrow> e \<in> span f \<and> chain (final_sequence_id f + 1) fs e'"

lemma chain_append: "chain e (fs @ gs) e'' \<longleftrightarrow> (\<exists>e'. chain e fs e' \<and> chain e' gs e'')"
  by (induction fs arbitrary: e) auto

lemma chain_mono: "chain e fs e' \<Longrightarrow> e \<le> e'"
  by (induction fs arbitrary: e) (force simp: span_def)+

lemma chain_covers: "chain e fs e' \<Longrightarrow> {e..<e'} \<subseteq> (\<Union>f\<in>set fs. span f)"
proof (induction fs arbitrary: e)
  case Nil
  then show ?case by simp
next
  case (Cons f fs)
  then have "{final_sequence_id f + 1..<e'} \<subseteq> (\<Union>g\<in>set fs. span g)" and "e \<in> span f"
    by auto
  moreover have "{e..<e'} \<subseteq> span f \<union> {final_sequence_id f + 1..<e'}"
    using \<open>e \<in> span f\<close> by (auto simp: span_def)
  ultimately show ?case by auto
qed

text \<open>On a point-sequenced feed a chain is exactly the numbers from \<open>e\<close> up to \<open>e'\<close>, once each.\<close>

lemma chain_point:
  "chain e fs e' \<Longrightarrow> \<forall>f\<in>set fs. last_sequence_id f = None \<Longrightarrow> map sequence_id fs = [e..e' - 1]"
proof (induction fs arbitrary: e)
  case Nil
  then show ?case by simp
next
  case (Cons f fs)
  then have f: "sequence_id f = e" "final_sequence_id f = e"
    by (auto simp: span_def final_sequence_id_def)
  with Cons have "map sequence_id fs = [e + 1..e' - 1]" and "e + 1 \<le> e'"
    by (auto dest: chain_mono)
  with f show ?case by (simp add: upto_rec1)
qed

section \<open>The missing ranges are exact\<close>

lemma missing_loop_exact:
  assumes "sorted (map sequence_id fs)" "\<forall>f\<in>set fs. sequence_id f \<le> final_sequence_id f" "c \<le> hi"
  shows "range_set (missing_loop hi c fs) = {c..hi} - (\<Union>f\<in>set fs. span f)"
  using assms
proof (induction hi c fs rule: missing_loop.induct)
  case (1 hi cursor)
  then show ?case by (simp add: range_set_def)
next
  case (2 hi cursor f fs)
  let ?l = "final_sequence_id f" and ?s = "sequence_id f"
  have tail: "\<And>g. g \<in> set fs \<Longrightarrow> ?s \<le> sequence_id g" using "2.prems" by simp
  consider (behind) "?l < cursor" | (beyond) "\<not> ?l < cursor" "hi < ?s"
    | (last) "\<not> ?l < cursor" "?s \<le> hi" "hi < ?l + 1"
    | (mid) "\<not> ?l < cursor" "?s \<le> hi" "?l + 1 \<le> hi" by linarith
  then show ?case
  proof cases
    case behind
    with 2 show ?thesis by (auto simp: span_def)
  next
    case beyond
    then have "\<And>g. g \<in> insert f (set fs) \<Longrightarrow> hi < sequence_id g" using tail by fastforce
    with beyond show ?thesis by (fastforce simp: range_set_def span_def)
  next
    case last
    then have "range_set (missing_loop hi cursor (f # fs)) = {cursor..?s - 1}"
      by (auto simp: range_set_def)
    also have "\<dots> = {cursor..hi} - (span f \<union> (\<Union>g\<in>set fs. span g))"
      using last tail by (fastforce simp: span_def)
    finally show ?thesis by simp
  next
    case mid
    have gap: "range_set (if cursor < ?s then [(cursor, ?s - 1)] else []) = {cursor..?s - 1}"
      by (simp add: range_set_def)
    have "range_set (missing_loop hi (?l + 1) fs) = {?l + 1..hi} - (\<Union>g\<in>set fs. span g)"
      using mid 2 by simp
    moreover have "{cursor..hi} - (span f \<union> (\<Union>g\<in>set fs. span g)) =
        {cursor..?s - 1} \<union> ({?l + 1..hi} - (\<Union>g\<in>set fs. span g))"
      using mid tail "2.prems" by (fastforce simp: span_def)
    ultimately show ?thesis using mid gap by (simp add: range_set_def Let_def)
  qed
qed

lemma missing_loop_nonempty:
  "c \<le> hi \<Longrightarrow> \<forall>f\<in>set fs. c < sequence_id f \<and> sequence_id f \<le> final_sequence_id f \<Longrightarrow>
    missing_loop hi c fs \<noteq> []"
  by (cases fs) (auto simp: Let_def)

text \<open>Each range is non-empty, and the ranges are in order and separated.\<close>

lemma missing_loop_bounds:
  "c \<le> hi \<Longrightarrow> (a, b) \<in> set (missing_loop hi c fs) \<Longrightarrow> c \<le> a \<and> a \<le> b \<and> b \<le> hi"
proof (induction hi c fs rule: missing_loop.induct)
  case (1 hi cursor)
  then show ?case by simp
next
  case (2 hi cursor f fs)
  let ?c = "final_sequence_id f + 1"
  have "\<not> final_sequence_id f < cursor \<Longrightarrow> sequence_id f \<le> hi \<Longrightarrow> ?c \<le> hi \<Longrightarrow>
      (a, b) \<in> set (missing_loop hi ?c fs) \<Longrightarrow> cursor \<le> a \<and> a \<le> b \<and> b \<le> hi"
    using "2.IH"(2)[OF _ _ refl refl] by force
  with 2 show ?case by (auto simp: Let_def split: if_splits)
qed

lemma missing_loop_separated:
  "c \<le> hi \<Longrightarrow> \<forall>f\<in>set fs. sequence_id f \<le> final_sequence_id f \<Longrightarrow>
    sorted_wrt (\<lambda>r r'. snd r < fst r') (missing_loop hi c fs)"
proof (induction hi c fs rule: missing_loop.induct)
  case (1 hi cursor)
  then show ?case by simp
next
  case (2 hi cursor f fs)
  have "sequence_id f - 1 < a" if "final_sequence_id f + 1 \<le> hi"
      "(a, b) \<in> set (missing_loop hi (final_sequence_id f + 1) fs)" for a b
    using missing_loop_bounds[OF that] 2 by fastforce
  with 2 show ?case by (auto simp: Let_def)
qed

section \<open>The structural invariant\<close>

definition held_ok :: "string \<Rightarrow> int \<Rightarrow> int \<Rightarrow> int \<times> 'p feed_frame \<Rightarrow> bool" where
  "held_ok s e h = (\<lambda>(k, f). k = sequence_id f \<and> stream f = s \<and> e < sequence_id f \<and>
     sequence_id f \<le> final_sequence_id f \<and> final_sequence_id f < h)"

definition stream_ok :: "string \<Rightarrow> nat \<Rightarrow> 'p stream_state \<Rightarrow> bool" where
  "stream_ok s m st \<longleftrightarrow> dict_ok (buffer st) \<and> length (buffer st) \<le> m \<and>
     0 \<le> expected st \<and> expected st \<le> high_water st \<and>
     (\<forall>p\<in>set (buffer st). held_ok s (expected st) (high_water st) p)"

text \<open>Unless the stream is latched, it is \<open>SYNCED\<close> exactly when nothing is outstanding.\<close>

definition settled :: "'p stream_state \<Rightarrow> bool" where
  "settled st \<longleftrightarrow> sync_state st = RESET_REQUIRED \<or>
     (sync_state st = SYNCED \<longleftrightarrow> expected st = high_water st)"

definition held_numbers :: "'p stream_state \<Rightarrow> int set" where
  "held_numbers st = (\<Union>f\<in>set (py_values (buffer st)). span f)"

lemma stream_okD:
  assumes "stream_ok s m st"
  shows "dict_ok (buffer st)" "length (buffer st) \<le> m" "0 \<le> expected st"
    "expected st \<le> high_water st"
    "\<And>k f. (k, f) \<in> set (buffer st) \<Longrightarrow> k = sequence_id f \<and> stream f = s \<and>
       expected st < sequence_id f \<and> sequence_id f \<le> final_sequence_id f \<and>
       final_sequence_id f < high_water st"
  using assms by (auto simp: stream_ok_def held_ok_def)

lemma stream_ok_values:
  "stream_ok s m st \<Longrightarrow> f \<in> set (py_values (buffer st)) \<Longrightarrow>
    expected st < sequence_id f \<and> sequence_id f \<le> final_sequence_id f \<and>
    final_sequence_id f < high_water st"
  using stream_okD(5) by fastforce

lemma fold_max_bound: "(x::int) \<le> b \<Longrightarrow> \<forall>y\<in>set ys. y \<le> b \<Longrightarrow> fold max ys x \<le> b"
  by (induction ys arbitrary: x) auto

lemma highest_buffered_bound:
  "stream_ok s m st \<Longrightarrow> highest_buffered st \<le> high_water st - 1"
proof (cases "py_values (buffer st)")
  case Nil
  moreover assume "stream_ok s m st"
  ultimately show ?thesis using stream_okD(4) by (fastforce simp: highest_buffered_def)
next
  case (Cons f fs)
  assume ok: "stream_ok s m st"
  have "\<forall>g\<in>set (f # fs). final_sequence_id g \<le> high_water st - 1"
    using stream_ok_values[OF ok] Cons by fastforce
  then have "fold max (map final_sequence_id fs) (final_sequence_id f) \<le> high_water st - 1"
    by (intro fold_max_bound) auto
  with Cons show ?thesis by (simp only: highest_buffered_def list.case)
qed

lemma outstanding_eq:
  "stream_ok s m st \<Longrightarrow> outstanding_ranges st = missing_upto st (high_water st - 1)"
  using highest_buffered_bound[of s m st] by (simp add: outstanding_ranges_def max_def)

lemma missing_upto_exact:
  assumes "stream_ok s m st"
  shows "range_set (missing_upto st hi) = {expected st..hi} - held_numbers st"
proof (cases "hi < expected st")
  case True
  then show ?thesis by (simp add: missing_upto_def range_set_def)
next
  case False
  have "\<forall>f\<in>set (sort_key sequence_id (py_values (buffer st))). sequence_id f \<le> final_sequence_id f"
    using stream_ok_values[OF assms] by simp
  from missing_loop_exact[OF sorted_sort_key this] False
  show ?thesis by (simp add: missing_upto_def held_numbers_def)
qed

lemma outstanding_set:
  assumes "stream_ok s m st"
  shows "range_set (outstanding_ranges st) = {expected st..<high_water st} - held_numbers st"
proof -
  have "{expected st..high_water st - 1} = {expected st..<high_water st}" by auto
  then show ?thesis
    using missing_upto_exact[OF assms, of "high_water st - 1"] by (simp add: outstanding_eq[OF assms])
qed

lemma missing_upto_Nil_iff:
  assumes "stream_ok s m st"
  shows "missing_upto st hi = [] \<longleftrightarrow> hi < expected st"
proof -
  have "\<forall>f\<in>set (sort_key sequence_id (py_values (buffer st))).
      expected st < sequence_id f \<and> sequence_id f \<le> final_sequence_id f"
    using stream_ok_values[OF assms] by simp
  from missing_loop_nonempty[OF _ this] show ?thesis
    by (auto simp: missing_upto_def not_less)
qed

lemma outstanding_Nil_iff:
  "stream_ok s m st \<Longrightarrow> outstanding_ranges st = [] \<longleftrightarrow> expected st = high_water st"
  by (auto simp: outstanding_eq missing_upto_Nil_iff dest: stream_okD(4))

lemma settle_not_reset [simp]: "settle_state st \<noteq> RESET_REQUIRED"
  by (simp add: settle_state_def)

lemma settle_settled:
  "stream_ok s m st \<Longrightarrow> settled (st\<lparr>sync_state := settle_state st\<rparr>)"
  by (auto simp: settled_def settle_state_def outstanding_Nil_iff)

lemma stream_ok_frame [simp]:
  "stream_ok s m (st\<lparr>sync_state := x\<rparr>) = stream_ok s m st"
  "stream_ok s m (st\<lparr>frames_processed := n\<rparr>) = stream_ok s m st"
  "stream_ok s m (st\<lparr>gaps_detected := n\<rparr>) = stream_ok s m st"
  "stream_ok s m (st\<lparr>duplicates_suppressed := n\<rparr>) = stream_ok s m st"
  "stream_ok s m (st\<lparr>frames_dropped_buffer_full := n\<rparr>) = stream_ok s m st"
  "stream_ok s m (st\<lparr>resets_suspected := n\<rparr>) = stream_ok s m st"
  by (simp_all add: stream_ok_def)

lemma outstanding_sync_state [simp]:
  "outstanding_ranges (st\<lparr>sync_state := x\<rparr>) = outstanding_ranges st"
  by (cases "buffer st") (simp_all add: outstanding_ranges_def missing_upto_def highest_buffered_def)

lemma stream_ok_new [simp]: "0 \<le> n \<Longrightarrow> stream_ok s m (new_stream_state n)"
  by (simp add: stream_ok_def new_stream_state_def)

lemma stream_ok_raise:
  "stream_ok s m st \<Longrightarrow> stream_ok s m (st\<lparr>high_water := max (high_water st) h\<rparr>)"
  by (fastforce simp: stream_ok_def held_ok_def)

section \<open>Draining\<close>

text \<open>The weaker invariant inside the loop: a held frame may already cover the expected number.\<close>

definition drain_inv :: "string \<Rightarrow> 'p stream_state \<Rightarrow> bool" where
  "drain_inv s st \<longleftrightarrow> dict_ok (buffer st) \<and> 0 \<le> expected st \<and> expected st \<le> high_water st \<and>
     (\<forall>(k, f)\<in>set (buffer st). k = sequence_id f \<and> stream f = s \<and>
        sequence_id f \<le> final_sequence_id f \<and> final_sequence_id f < high_water st)"

lemma pop_next_Some:
  assumes "drain_inv s st" "pop_next st = (Some f, st')"
  shows "expected st \<in> span f" "(sequence_id f, f) \<in> set (buffer st)"
    "st' = st\<lparr>buffer := py_del (buffer st) (sequence_id f)\<rparr>"
proof -
  obtain k where k: "(k, f) \<in> set (buffer st)" "st' = st\<lparr>buffer := py_del (buffer st) k\<rparr>"
    and hit: "sequence_id f \<le> expected st \<and> expected st \<le> final_sequence_id f"
  proof (cases "py_get (buffer st) (expected st)")
    case (Some g)
    with assms have "g = f" by (simp add: pop_next_def)
    moreover from Some have "(expected st, g) \<in> set (buffer st)" by (rule py_get_SomeD)
    ultimately show ?thesis
      using assms Some that by (fastforce simp: pop_next_def drain_inv_def)
  next
    case None
    with assms(2) obtain k where "find (\<lambda>(k, f). sequence_id f \<le> expected st \<and>
        expected st \<le> final_sequence_id f) (buffer st) = Some (k, f)"
      and "st' = st\<lparr>buffer := py_del (buffer st) k\<rparr>"
      by (auto simp: pop_next_def pop_straddling_def split: option.splits prod.splits)
    then show ?thesis using that by (auto dest!: find_SomeD)
  qed
  with assms(1) have "k = sequence_id f" by (auto simp: drain_inv_def)
  with k hit show "expected st \<in> span f" "(sequence_id f, f) \<in> set (buffer st)"
    "st' = st\<lparr>buffer := py_del (buffer st) (sequence_id f)\<rparr>"
    by (auto simp: span_def)
qed

lemma pop_next_None:
  assumes "pop_next st = (None, st')"
  shows "st' = st" "(k, f) \<in> set (buffer st) \<Longrightarrow> expected st \<notin> span f"
  using assms
  by (auto simp: pop_next_def pop_straddling_def find_None_iff span_def
      split: option.splits prod.splits)

lemma drain_inv_pop:
  assumes "drain_inv s st" "pop_next st = (Some f, st')"
  shows "drain_inv s (st'\<lparr>expected := final_sequence_id f + 1\<rparr>)"
proof -
  note pop = pop_next_Some[OF assms]
  have "final_sequence_id f < high_water st" using pop(2) assms(1) by (auto simp: drain_inv_def)
  moreover have "expected st \<le> final_sequence_id f" using pop(1) by (simp add: span_def)
  ultimately show ?thesis using assms(1) by (auto simp: pop(3) drain_inv_def)
qed

text \<open>What the loop does: it releases a chain and stops when no held frame covers the number.\<close>

lemma drain_loop_correct:
  assumes "drain_inv s st" "drain_loop st = (rel, st')"
  shows "drain_inv s st' \<and> chain (expected st) rel (expected st') \<and>
    set rel \<union> set (py_values (buffer st')) \<subseteq> set (py_values (buffer st)) \<and>
    set (buffer st') \<subseteq> set (buffer st) \<and>
    length (buffer st') + length rel = length (buffer st) \<and>
    (\<forall>(k, f)\<in>set (buffer st'). expected st' \<notin> span f) \<and>
    st' = st\<lparr>expected := expected st', buffer := buffer st'\<rparr>"
  using assms
proof (induction st arbitrary: rel st' rule: drain_loop.induct)
  case (1 st)
  show ?case
  proof (cases "buffer st = []")
    case True
    with 1 show ?thesis by (simp add: drain_loop.simps)
  next
    case False
    obtain fo st1 where pop: "pop_next st = (fo, st1)" by fastforce
    show ?thesis
    proof (cases fo)
      case None
      with pop_next_None[of st st1] pop have "st1 = st"
        and "\<And>k f. (k, f) \<in> set (buffer st) \<Longrightarrow> expected st \<notin> span f" by auto
      then show ?thesis using "1.prems" False None pop by (auto simp: drain_loop.simps[of st])
    next
      case (Some f)
      with pop have p: "pop_next st = (Some f, st1)" by simp
      let ?st2 = "st1\<lparr>expected := final_sequence_id f + 1\<rparr>"
      obtain rel' st'' where rec: "drain_loop ?st2 = (rel', st'')" by fastforce
      have res: "rel = f # rel'" "st' = st''"
        using "1.prems"(2) False p rec by (simp_all add: drain_loop.simps[of st])
      note pf = pop_next_Some[OF "1.prems"(1) p]
      note ih = "1.IH"[OF False p[symmetric] refl drain_inv_pop[OF "1.prems"(1) p] rec]
      have "dict_ok (buffer st)" using "1.prems"(1) by (simp add: drain_inv_def)
      then have len: "Suc (length (buffer st1)) = length (buffer st)"
        using pf(2) by (simp add: pf(3) length_py_del)
      have sub: "set (buffer st1) \<subseteq> set (buffer st)" by (auto simp: pf(3))
      show ?thesis using ih res pf len sub by (auto simp: rev_image_eqI)
    qed
  qed
qed

lemma drain_correct:
  assumes "drain_inv s st" "length (buffer st) \<le> m" "drain st = (rel, st')"
  shows "stream_ok s m st'" "chain (expected st) rel (expected st')"
    "set rel \<union> set (py_values (buffer st')) \<subseteq> set (py_values (buffer st))"
    "sync_state st' = sync_state st" "high_water st' = high_water st"
    "frames_processed st' = frames_processed st"
proof -
  obtain st1 where loop: "drain_loop st = (rel, st1)" and st': "st' = purge_stale st1"
    using assms(3) by (auto simp: drain_def split: prod.splits)
  note c = drain_loop_correct[OF assms(1) loop]
  then show "chain (expected st) rel (expected st')" by (simp add: st' purge_stale_def)
  from c have other: "st1 = st\<lparr>expected := expected st1, buffer := buffer st1\<rparr>" by blast
  then have "sync_state st1 = sync_state st" "high_water st1 = high_water st"
    "frames_processed st1 = frames_processed st"
    by (metis stream_state.select_convs stream_state.surjective stream_state.update_convs)+
  then show "sync_state st' = sync_state st" "high_water st' = high_water st"
    "frames_processed st' = frames_processed st"
    by (simp_all add: st' purge_stale_def)
  show "set rel \<union> set (py_values (buffer st')) \<subseteq> set (py_values (buffer st))"
    using c by (auto simp: st' purge_stale_def)
  from c have inv: "drain_inv s st1" and free: "\<forall>(k, f)\<in>set (buffer st1). expected st1 \<notin> span f"
    and len: "length (buffer st1) \<le> m" using assms(2) by auto
  have "length (buffer st') \<le> m"
    using len by (auto simp: st' purge_stale_def intro: le_trans[OF length_filter_le])
  moreover have "held_ok s (expected st1) (high_water st1) p"
    if "p \<in> set (buffer st')" for p
    using that inv free by (fastforce simp: st' purge_stale_def held_ok_def drain_inv_def span_def)
  ultimately show "stream_ok s m st'"
    using inv by (simp add: stream_ok_def st' purge_stale_def drain_inv_def)
qed

section \<open>One stream: every operation keeps the invariant\<close>

lemma stream_ok_contiguous_inv:
  assumes "stream_ok s m st" "stream f = s" "expected st \<in> span f"
  shows "drain_inv s (st\<lparr>high_water := max (high_water st) (final_sequence_id f + 1),
    expected := final_sequence_id f + 1\<rparr>)"
  using assms stream_okD[OF assms(1)] by (fastforce simp: drain_inv_def span_def)

lemma ingest_contiguous_ok:
  assumes "stream_ok s m st" "stream f = s" "expected st \<in> span f"
    "ingest_contiguous (st\<lparr>high_water := max (high_water st) (final_sequence_id f + 1)\<rparr>) f = (r, st')"
  shows "stream_ok s m st' \<and> settled st' \<and> chain (expected st) (processed_frames r) (expected st') \<and>
    set (processed_frames r) \<union> set (py_values (buffer st')) \<subseteq> insert f (set (py_values (buffer st))) \<and>
    res_state r = sync_state st' \<and> sync_state st' \<noteq> RESET_REQUIRED \<and>
    frames_processed st' = frames_processed st + length (processed_frames r) \<and>
    high_water st' = max (high_water st) (final_sequence_id f + 1)"
proof -
  let ?st0 = "st\<lparr>high_water := max (high_water st) (final_sequence_id f + 1)\<rparr>"
  let ?st1 = "?st0\<lparr>expected := final_sequence_id f + 1\<rparr>"
  obtain rel st2 where dr: "drain ?st1 = (rel, st2)" by fastforce
  have inv: "drain_inv s ?st1" using stream_ok_contiguous_inv[OF assms(1-3)] by simp
  have len: "length (buffer ?st1) \<le> m" using stream_okD(2)[OF assms(1)] by simp
  note d = drain_correct[OF inv len dr]
  let ?st3 = "st2\<lparr>frames_processed := frames_processed st2 + Suc (length rel)\<rparr>"
  have r: "processed_frames r = f # rel" "st' = ?st3\<lparr>sync_state := settle_state ?st3\<rparr>"
    "res_state r = sync_state st'"
    using assms(4) dr by (auto simp: ingest_contiguous_def gap_result_of_def Let_def)
  have "stream_ok s m ?st3" using d(1) by simp
  from settle_settled[OF this] this show ?thesis
    using d r assms(3) by (auto simp: settle_state_def)
qed

lemma stream_ok_store:
  assumes "stream_ok s m st" "stream f = s" "expected st < sequence_id f"
    "sequence_id f \<le> final_sequence_id f"
    "py_get (buffer st) (sequence_id f) \<noteq> None \<or> length (buffer st) < m"
  shows "stream_ok s m (st\<lparr>high_water := max (high_water st) (final_sequence_id f + 1),
    buffer := py_set (buffer st) (sequence_id f) f\<rparr>)"
proof -
  let ?h = "max (high_water st) (final_sequence_id f + 1)"
  have "held_ok s (expected st) ?h p" if "p \<in> set (py_set (buffer st) (sequence_id f) f)" for p
  proof -
    from that have "p \<in> set (buffer st) \<or> p = (sequence_id f, f)"
      using stream_okD(1)[OF assms(1)] by (auto simp: set_py_set)
    then show ?thesis
    proof
      assume "p \<in> set (buffer st)"
      then have "held_ok s (expected st) (high_water st) p"
        using assms(1) by (simp add: stream_ok_def)
      then show ?thesis by (auto simp: held_ok_def)
    qed (use assms in \<open>simp add: held_ok_def\<close>)
  qed
  moreover have "length (py_set (buffer st) (sequence_id f) f) \<le> m"
    using assms(5) stream_okD(2)[OF assms(1)] by (auto simp: length_py_set)
  ultimately show ?thesis
    using stream_okD[OF assms(1)] by (simp add: stream_ok_def)
qed

lemma store_ahead_ok:
  assumes "stream_ok s m st" "stream f = s" "expected st < sequence_id f"
    "sequence_id f \<le> final_sequence_id f"
    "py_get (buffer st) (sequence_id f) \<noteq> None \<or> length (buffer st) < m"
    "store_ahead c (st\<lparr>high_water := max (high_water st) (final_sequence_id f + 1)\<rparr>) f = (r, st')"
  shows "stream_ok s m st' \<and> settled st' \<and> expected st' = expected st \<and> processed_frames r = [] \<and>
    set (py_values (buffer st')) \<subseteq> insert f (set (py_values (buffer st))) \<and>
    res_state r = sync_state st' \<and> sync_state st' \<noteq> RESET_REQUIRED \<and>
    frames_processed st' = frames_processed st \<and>
    high_water st' = max (high_water st) (final_sequence_id f + 1)"
proof -
  let ?st1 = "st\<lparr>high_water := max (high_water st) (final_sequence_id f + 1),
    buffer := py_set (buffer st) (sequence_id f) f\<rparr>"
  have ok: "stream_ok s m ?st1" by (rule stream_ok_store[OF assms(1-5)])
  have st': "st' = ?st1\<lparr>sync_state := settle_state ?st1,
      gaps_detected := (if c then gaps_detected st + 1 else gaps_detected st)\<rparr>"
    and r: "processed_frames r = []" "res_state r = sync_state st'"
    using assms(6) by (auto simp: store_ahead_def gap_result_of_def Let_def)
  have vals: "set (py_values (py_set (buffer st) (sequence_id f) f))
      \<subseteq> insert f (set (py_values (buffer st)))"
    using stream_okD(1)[OF assms(1)] by (auto simp: set_py_set)
  have "settled st'" using settle_settled[OF ok] by (simp add: st' settled_def)
  moreover have "stream_ok s m st'" using ok by (simp add: st')
  ultimately show ?thesis using r vals by (auto simp: st' settle_state_def)
qed

text \<open>What one accepted frame may do to a stream.\<close>

definition delivers ::
    "string \<Rightarrow> nat \<Rightarrow> 'p feed_frame \<Rightarrow> 'p stream_state \<Rightarrow> 'p feed_frame list \<Rightarrow> 'p stream_state \<Rightarrow> bool" where
  "delivers s m f st out st' \<longleftrightarrow> stream_ok s m st' \<and> (settled st \<longrightarrow> settled st') \<and>
     chain (expected st) out (expected st') \<and>
     set out \<union> set (py_values (buffer st')) \<subseteq> insert f (set (py_values (buffer st))) \<and>
     frames_processed st' = frames_processed st + length out \<and>
     high_water st \<le> high_water st' \<and>
     (sync_state st = RESET_REQUIRED \<longrightarrow> st' = st)"

lemma delivers_subset:
  "delivers s m f st out st' \<Longrightarrow>
    set out \<union> set (py_values (buffer st')) \<subseteq> insert f (set (py_values (buffer st)))"
  by (simp add: delivers_def)

lemma ingest_known_delivers:
  assumes "stream_ok s m st" "frame_ok f" "stream f = s" "ingest_known m thr st f = (r, st')"
  shows "delivers s m f st (processed_frames r) st' \<and> res_state r = sync_state st'"
proof (cases "sync_state st = RESET_REQUIRED")
  case True
  with assms show ?thesis
    by (auto simp: ingest_known_def gap_result_of_def delivers_def)
next
  case open_stream: False
  let ?st1 = "st\<lparr>high_water := max (high_water st) (final_sequence_id f + 1)\<rparr>"
  have v: "sequence_id f \<le> final_sequence_id f" using assms(2) by (simp add: frame_ok_def)
  have ok1: "stream_ok s m ?st1" by (rule stream_ok_raise[OF assms(1)])
  consider (now) "expected st \<in> span f" | (behind) "final_sequence_id f < expected st"
    | (ahead) "expected st < sequence_id f" by (force simp: span_def)
  then show ?thesis
  proof cases
    case now
    then have "ingest_contiguous ?st1 f = (r, st')"
      using assms(4) open_stream by (simp add: ingest_known_def span_def)
    from ingest_contiguous_ok[OF assms(1,3) now this] open_stream show ?thesis
      by (auto simp: delivers_def)
  next
    case behind
    then have eq: "ingest_behind thr ?st1 f = (r, st')"
      using assms(4) open_stream v by (simp add: ingest_known_def)
    have "final_sequence_id f + 1 \<le> high_water st" using behind stream_okD(4)[OF assms(1)] by simp
    then have "?st1 = st" by simp
    with eq show ?thesis using assms(1) open_stream
      by (auto simp: ingest_behind_def gap_result_of_def delivers_def settled_def Let_def
          split: if_splits)
  next
    case ahead
    define c where "c \<longleftrightarrow> outstanding_ranges st = []"
    have eq: "ingest_ahead m c ?st1 f = (r, st')"
      using ahead assms(4) open_stream v by (simp add: ingest_known_def c_def)
    show ?thesis
    proof (cases "py_get (buffer st) (sequence_id f)")
      case (Some b)
      then have "(sequence_id f, b) \<in> set (buffer st)" by (rule py_get_SomeD)
      then have "final_sequence_id b < high_water st" using stream_okD(5)[OF assms(1)] by blast
      show ?thesis
      proof (cases "final_sequence_id f \<le> final_sequence_id b")
        case True
        with \<open>final_sequence_id b < high_water st\<close> have "?st1 = st" by simp
        with eq Some True show ?thesis using assms(1) open_stream
          by (auto simp: ingest_ahead_def gap_result_of_def delivers_def settled_def Let_def)
      next
        case False
        with eq Some have "store_ahead c ?st1 f = (r, st')" by (simp add: ingest_ahead_def Let_def)
        from store_ahead_ok[OF assms(1,3) ahead v _ this] Some open_stream show ?thesis
          by (auto simp: delivers_def)
      qed
    next
      case None
      show ?thesis
      proof (cases "m \<le> length (buffer st)")
        case True
        with eq None show ?thesis using ok1 open_stream
          by (auto simp: ingest_ahead_def gap_result_of_def delivers_def settled_def Let_def)
      next
        case False
        with eq None have "store_ahead c ?st1 f = (r, st')" by (simp add: ingest_ahead_def Let_def)
        from store_ahead_ok[OF assms(1,3) ahead v _ this] False open_stream show ?thesis
          by (auto simp: delivers_def)
      qed
    qed
  qed
qed

lemma ingest_baseline_ok:
  assumes "frame_ok f" "ingest_baseline f = (r, st)"
  shows "stream_ok (stream f) m st \<and> settled st \<and> processed_frames r = [f] \<and>
    expected st = final_sequence_id f + 1 \<and> buffer st = [] \<and> res_state r = sync_state st"
  using assms
  by (auto simp: ingest_baseline_def new_stream_state_def gap_result_of_def stream_ok_def
      settled_def frame_ok_def)

lemma heartbeat_known_ok:
  assumes "stream_ok s m st" "heartbeat_known thr s st n = (r, st')"
  shows "stream_ok s m st' \<and> (settled st \<longrightarrow> settled st') \<and> expected st' = expected st \<and>
    buffer st' = buffer st \<and> processed_frames r = [] \<and> res_state r = sync_state st' \<and>
    (sync_state st = RESET_REQUIRED \<longrightarrow> st' = st)"
proof -
  consider (latched) "sync_state st = RESET_REQUIRED" | (le) "sync_state st \<noteq> RESET_REQUIRED" "n \<le> expected st"
    | (gt) "sync_state st \<noteq> RESET_REQUIRED" "expected st < n" by linarith
  then show ?thesis
  proof cases
    case gt
    let ?st1 = "st\<lparr>high_water := max (high_water st) n\<rparr>"
    have ok: "stream_ok s m ?st1" by (rule stream_ok_raise[OF assms(1)])
    then have missing: "missing_upto ?st1 (n - 1) \<noteq> []" using gt by (simp add: missing_upto_Nil_iff)
    define st2 where "st2 = (if outstanding_ranges st = []
      then ?st1\<lparr>gaps_detected := gaps_detected ?st1 + 1\<rparr> else ?st1)"
    have st': "st' = st2\<lparr>sync_state := settle_state st2\<rparr>"
      and r: "processed_frames r = []" "res_state r = sync_state st'"
      using assms(2) gt missing
      by (auto simp: heartbeat_known_def gap_result_of_def st2_def Let_def)
    have st2: "stream_ok s m st2" "expected st2 = expected st" "buffer st2 = buffer st"
      using ok by (simp_all add: st2_def)
    from st2 settle_settled[OF st2(1)] show ?thesis using gt r by (simp add: st')
  qed (use assms in \<open>auto simp: heartbeat_known_def gap_result_of_def settled_def Let_def
      split: if_splits\<close>)
qed

section \<open>The detector: every event keeps the invariant\<close>

text \<open>
  \<open>det_inv loose d\<close>: every tracked stream satisfies \<open>stream_ok\<close> and is settled, except that a
  stream in \<open>loose\<close> need not be settled (the one a reconciliation is working on).
\<close>

definition det_inv :: "(string \<Rightarrow> bool) \<Rightarrow> 'p detector \<Rightarrow> bool" where
  "det_inv loose d \<longleftrightarrow> dict_ok (streams d) \<and>
     (\<forall>s st. py_get (streams d) s = Some st \<longrightarrow>
        s \<noteq> [] \<and> stream_ok s (max_buffer_size d) st \<and> (loose s \<or> settled st))"

definition detector_ok :: "'p detector \<Rightarrow> bool" where
  "detector_ok d \<longleftrightarrow> det_inv (\<lambda>_. False) d"

lemma det_invD:
  assumes "det_inv loose d" "py_get (streams d) s = Some st"
  shows "s \<noteq> []" "stream_ok s (max_buffer_size d) st" "loose s \<or> settled st"
  using assms by (auto simp: det_inv_def)

lemma detector_okD:
  assumes "detector_ok d" "py_get (streams d) s = Some st"
  shows "s \<noteq> []" "stream_ok s (max_buffer_size d) st" "settled st"
  using assms by (auto simp: detector_ok_def det_inv_def)

lemma det_inv_put:
  assumes "det_inv loose d" "s \<noteq> []" "stream_ok s (max_buffer_size d) st" "loose' s \<or> settled st"
    "\<And>t. loose t \<Longrightarrow> t \<noteq> s \<Longrightarrow> loose' t"
  shows "det_inv loose' (d\<lparr>streams := py_set (streams d) s st\<rparr>)"
  using assms by (auto simp: det_inv_def dict_simps)

lemma stream_of_simps [simp]:
  "py_get (streams d) s = Some st \<Longrightarrow> stream_of d s = st"
  "stream_of (d\<lparr>streams := py_set (streams d) s st\<rparr>) s = st"
  "t \<noteq> s \<Longrightarrow> stream_of (d\<lparr>streams := py_set (streams d) s st\<rparr>) t = stream_of d t"
  by (simp_all add: stream_of_def dict_simps)

lemma make_feed_frame_ok: "make_feed_frame s n p l = Inr f \<Longrightarrow> frame_ok f \<and> stream f = s"
  by (auto simp: make_feed_frame_def frame_ok_def final_sequence_id_def validate_sequence_def
      split: if_splits option.splits)

lemma frames_of_args_ok: "frames_of_args as = Inr fs \<Longrightarrow> \<forall>f\<in>set fs. frame_ok f"
  by (induction as arbitrary: fs)
     (auto simp: frame_of_args_def dest: make_feed_frame_ok split: sum.splits prod.splits)

text \<open>One frame, at the level of the detector.\<close>

lemma ingest_frame_known:
  assumes "det_inv loose d" "frame_ok f" "py_get (streams d) (stream f) = Some st"
    "ingest_frame d f = (r, d')"
  obtains st' where "d' = d\<lparr>streams := py_set (streams d) (stream f) st'\<rparr>"
    "delivers (stream f) (max_buffer_size d) f st (processed_frames r) st'"
    "res_state r = sync_state st'"
    "ingest_known (max_buffer_size d) (sequence_reset_threshold d) st f = (r, st')"
proof -
  obtain st' where k: "ingest_known (max_buffer_size d) (sequence_reset_threshold d) st f = (r, st')"
    and d': "d' = d\<lparr>streams := py_set (streams d) (stream f) st'\<rparr>"
    using assms(3,4) by (auto simp: ingest_frame_def split: prod.splits)
  show ?thesis
    using that[OF d' _ _ k] ingest_known_delivers[OF det_invD(2)[OF assms(1,3)] assms(2) refl k]
    by blast
qed

lemma ingest_frame_inv:
  assumes "det_inv loose d" "frame_ok f" "ingest_frame d f = (r, d')"
  shows "det_inv loose d'"
proof (cases "py_get (streams d) (stream f)")
  case None
  then obtain st where b: "ingest_baseline f = (r, st)"
    and d': "d' = d\<lparr>streams := py_set (streams d) (stream f) st\<rparr>"
    using assms(3) by (auto simp: ingest_frame_def split: prod.splits)
  show ?thesis unfolding d'
    using ingest_baseline_ok[OF assms(2) b] assms
    by (intro det_inv_put[OF assms(1)]) (auto simp: frame_ok_def)
next
  case (Some st)
  note st = det_invD[OF assms(1) Some]
  obtain st' where d': "d' = d\<lparr>streams := py_set (streams d) (stream f) st'\<rparr>"
    and del: "delivers (stream f) (max_buffer_size d) f st (processed_frames r) st'"
    using ingest_frame_known[OF assms(1,2) Some assms(3)] .
  show ?thesis unfolding d'
    using del st by (intro det_inv_put[OF assms(1)]) (auto simp: delivers_def)
qed

lemma observe_heartbeat_inv:
  assumes "det_inv loose d" "observe_heartbeat d s n = Inr (r, d')"
  shows "det_inv loose d'"
proof (cases "py_get (streams d) s")
  case None
  then have "s \<noteq> []" "0 \<le> n" "d' = d\<lparr>streams := py_set (streams d) s (new_stream_state n)\<rparr>"
    using assms(2) by (auto simp: observe_heartbeat_def validate_sequence_def Let_def split: if_splits)
  then show ?thesis using assms(1)
    by (auto intro!: det_inv_put simp: settled_def new_stream_state_def[of n] stream_ok_def)
next
  case (Some st)
  then obtain st' where "s \<noteq> []" and h: "heartbeat_known (sequence_reset_threshold d) s st n = (r, st')"
    and d': "d' = d\<lparr>streams := py_set (streams d) s st'\<rparr>"
    using assms(2) by (auto simp: observe_heartbeat_def validate_sequence_def split: if_splits prod.splits)
  show ?thesis unfolding d'
    using heartbeat_known_ok[OF det_invD(2)[OF assms(1) Some] h] det_invD[OF assms(1) Some]
    by (intro det_inv_put[OF assms(1)]) auto
qed

lemma resynchronize_inv:
  assumes "det_inv loose d" "resynchronize d s n = Inr d'"
  shows "det_inv loose d'"
proof -
  have sn: "s \<noteq> []" "0 \<le> n"
    using assms(2) by (auto simp: resynchronize_def validate_sequence_def split: if_splits)
  then obtain st' where d': "d' = d\<lparr>streams := py_set (streams d) s st'\<rparr>"
    and st': "expected st' = n" "high_water st' = n" "buffer st' = []" "sync_state st' = SYNCED"
    using assms(2)
    by (auto simp: resynchronize_def validate_sequence_def new_stream_state_def split: option.splits)
  then show ?thesis unfolding d'
    using sn by (intro det_inv_put[OF assms(1)]) (auto simp: stream_ok_def settled_def)
qed

section \<open>Reconciliation\<close>

abbreviation tracks :: "'p detector \<Rightarrow> string \<Rightarrow> bool" where
  "tracks d s \<equiv> py_get (streams d) s \<noteq> None"

lemma ingest_frame_others:
  assumes "ingest_frame d f = (r, d')"
  shows "t \<noteq> stream f \<Longrightarrow> py_get (streams d') t = py_get (streams d) t"
    "tracks d' (stream f)" "max_buffer_size d' = max_buffer_size d"
    "sequence_reset_threshold d' = sequence_reset_threshold d"
  using assms by (auto simp: ingest_frame_def dict_simps split: prod.splits)

lemma reconcile_loop_correct:
  assumes "det_inv (\<lambda>t. t = s) d" "tracks d s" "\<forall>f\<in>set fs. frame_ok f \<and> stream f = s"
    "reconcile_loop s fs d proc a b = (d', proc', a', b')"
  shows "det_inv (\<lambda>t. t = s) d' \<and> tracks d' s \<and> max_buffer_size d' = max_buffer_size d \<and>
    (\<forall>t. t \<noteq> s \<longrightarrow> py_get (streams d') t = py_get (streams d) t) \<and>
    (\<exists>out. proc' = proc @ out \<and> chain (expected (stream_of d s)) out (expected (stream_of d' s)) \<and>
       set out \<union> set (py_values (buffer (stream_of d' s)))
         \<subseteq> set fs \<union> set (py_values (buffer (stream_of d s))) \<and>
       frames_processed (stream_of d' s) = frames_processed (stream_of d s) + length out)"
  using assms
proof (induction fs arbitrary: d proc a b)
  case Nil
  then show ?case by auto
next
  case (Cons f fs)
  obtain r d1 where ing: "ingest_frame d f = (r, d1)" by fastforce
  obtain st where st: "py_get (streams d) s = Some st" using Cons.prems(2) by blast
  have f: "frame_ok f" "stream f = s" using Cons.prems(3) by auto
  obtain st1 where d1: "d1 = d\<lparr>streams := py_set (streams d) (stream f) st1\<rparr>"
    and del: "delivers (stream f) (max_buffer_size d) f st (processed_frames r) st1"
    using ingest_frame_known[OF Cons.prems(1) f(1) _ ing] st f(2) by metis
  have inv1: "det_inv (\<lambda>t. t = s) d1" by (rule ingest_frame_inv[OF Cons.prems(1) f(1) ing])
  have so: "stream_of d s = st" "stream_of d1 s = st1" using st d1 f(2) by simp_all
  note others = ingest_frame_others[OF ing]
  show ?case
  proof (cases "sync_state (stream_of d1 s) = RESET_REQUIRED")
    case True
    then have "d' = d1" "proc' = proc @ processed_frames r"
      using Cons.prems(4) ing by (auto simp: Let_def)
    moreover from del have "chain (expected st) (processed_frames r) (expected st1)"
      "set (processed_frames r) \<union> set (py_values (buffer st1)) \<subseteq> set (f # fs) \<union> set (py_values (buffer st))"
      "frames_processed st1 = frames_processed st + length (processed_frames r)"
      by (auto simp: delivers_def)
    ultimately show ?thesis using inv1 others f(2) so by (intro conjI exI[of _ "processed_frames r"]) simp_all
  next
    case False
    then obtain a1 b1 where rest: "reconcile_loop s fs d1 (proc @ processed_frames r) a1 b1 = (d', proc', a', b')"
      using Cons.prems(4) ing by (auto simp: Let_def)
    have "tracks d1 s" using others(2) f(2) by simp
    from Cons.IH[OF inv1 this _ rest] Cons.prems(3) obtain out where
      ih: "det_inv (\<lambda>t. t = s) d'" "tracks d' s" "max_buffer_size d' = max_buffer_size d1"
        "\<forall>t. t \<noteq> s \<longrightarrow> py_get (streams d') t = py_get (streams d1) t"
      and out: "proc' = (proc @ processed_frames r) @ out"
        "chain (expected st1) out (expected (stream_of d' s))"
        "set out \<union> set (py_values (buffer (stream_of d' s))) \<subseteq> set fs \<union> set (py_values (buffer st1))"
        "frames_processed (stream_of d' s) = frames_processed st1 + length out"
      using so by auto
    have "chain (expected st) (processed_frames r @ out) (expected (stream_of d' s))"
      using del out(2) by (auto simp: delivers_def chain_append)
    moreover have "set (processed_frames r @ out) \<union> set (py_values (buffer (stream_of d' s)))
        \<subseteq> set (f # fs) \<union> set (py_values (buffer st))"
      using delivers_subset[OF del] out(3) unfolding set_append list.set by blast
    moreover have "frames_processed (stream_of d' s) = frames_processed st + length (processed_frames r @ out)"
      using del out(4) by (simp add: delivers_def)
    ultimately show ?thesis using ih out(1) others f(2) so
      by (intro conjI exI[of _ "processed_frames r @ out"]) simp_all
  qed
qed

lemma set_sync_state_inv:
  assumes "det_inv loose d" "tracks d s" "\<And>t. loose t \<Longrightarrow> t \<noteq> s \<Longrightarrow> loose' t"
    "loose' s \<or> settled ((stream_of d s)\<lparr>sync_state := x\<rparr>)"
  shows "det_inv loose' (set_sync_state d s x)"
proof -
  obtain st where "py_get (streams d) s = Some st" using assms(2) by blast
  then show ?thesis unfolding set_sync_state_def
    using det_invD[OF assms(1)] assms by (intro det_inv_put[OF assms(1)]) auto
qed

text \<open>What a reconciliation that does not raise delivers.\<close>

lemma reconcile_correct:
  assumes "detector_ok d" "\<forall>f\<in>set fs. frame_ok f" "reconcile_missing_frames d s fs = Inr (r, d')"
  shows "detector_ok d'" "\<forall>t. t \<noteq> s \<longrightarrow> py_get (streams d') t = py_get (streams d) t"
    "tracks d s" "tracks d' s" "sync_state (stream_of d s) \<noteq> RESET_REQUIRED"
    "chain (expected (stream_of d s)) (rec_processed r) (expected (stream_of d' s))"
    "set (rec_processed r) \<union> set (py_values (buffer (stream_of d' s)))
       \<subseteq> set fs \<union> set (py_values (buffer (stream_of d s)))"
    "rec_state r = sync_state (stream_of d' s)"
    "is_synced r \<longleftrightarrow> sync_state (stream_of d' s) = SYNCED"
    "remaining_ranges r = outstanding_ranges (stream_of d' s)"
proof -
  obtain st where st: "py_get (streams d) s = Some st" and s: "s \<noteq> []"
    and open_stream: "sync_state st \<noteq> RESET_REQUIRED"
    and own: "first_error (\<lambda>f. if stream f \<noteq> s then Some Foreign_Frame else None) fs = None"
    using assms(3)
    by (auto simp: reconcile_missing_frames_def split: if_splits option.splits)
  let ?d0 = "set_sync_state d s RECOVERING"
  obtain d1 proc a b where loop: "reconcile_loop s (backfill_order fs) ?d0 [] 0 0 = (d1, proc, a, b)"
    by (metis prod_cases4)
  have inv0: "det_inv (\<lambda>t. t = s) ?d0"
    using assms(1) st by (intro set_sync_state_inv) (auto simp: detector_ok_def)
  have tr0: "tracks ?d0 s" by (simp add: set_sync_state_def dict_simps)
  have fs0: "\<forall>f\<in>set (backfill_order fs). frame_ok f \<and> stream f = s"
    using own assms(2) by (auto simp: backfill_order_def first_error_None split: if_splits)
  have st0: "stream_of ?d0 s = st\<lparr>sync_state := RECOVERING\<rparr>" using st by (simp add: set_sync_state_def)
  note lc = reconcile_loop_correct[OF inv0 tr0 fs0 loop]
  then have inv1: "det_inv (\<lambda>t. t = s) d1" and tr1: "tracks d1 s" by blast+
  then obtain st1 where st1: "py_get (streams d1) s = Some st1" by blast
  have ok1: "stream_ok s (max_buffer_size d1) st1" by (rule det_invD(2)[OF inv1 st1])
  let ?x = "if sync_state st1 = RESET_REQUIRED then RESET_REQUIRED else settle_state st1"
  have r: "rec_processed r = proc" "rec_state r = ?x" "is_synced r \<longleftrightarrow> ?x = SYNCED"
    "remaining_ranges r = outstanding_ranges st1"
    and d': "d' = (if sync_state st1 = RESET_REQUIRED then d1 else set_sync_state d1 s (settle_state st1))"
    using assms(3) st s open_stream own loop st1
    by (auto simp: reconcile_missing_frames_def Let_def split: if_splits)
  have so': "stream_of d' s = st1\<lparr>sync_state := ?x\<rparr>"
    using st1 by (simp add: d' set_sync_state_def)
  show "detector_ok d'"
  proof (cases "sync_state st1 = RESET_REQUIRED")
    case True
    then have "settled st1" by (simp add: settled_def)
    with inv1 st1 have "det_inv (\<lambda>_. False) d1"
      unfolding det_inv_def by (metis option.inject)
    with True show ?thesis by (simp add: d' detector_ok_def)
  next
    case False
    with inv1 st1 settle_settled[OF ok1] show ?thesis
      unfolding detector_ok_def d' by (auto intro!: set_sync_state_inv)
  qed
  show "\<forall>t. t \<noteq> s \<longrightarrow> py_get (streams d') t = py_get (streams d) t"
    using lc by (simp add: d' set_sync_state_def dict_simps)
  show "tracks d s" "tracks d' s" "sync_state (stream_of d s) \<noteq> RESET_REQUIRED"
    using st open_stream tr1 by (simp_all add: d' set_sync_state_def dict_simps)
  show "chain (expected (stream_of d s)) (rec_processed r) (expected (stream_of d' s))"
    using lc st st0 st1 so' r(1) by auto
  show "set (rec_processed r) \<union> set (py_values (buffer (stream_of d' s)))
       \<subseteq> set fs \<union> set (py_values (buffer (stream_of d s)))"
    using lc st st0 st1 so' r(1) by (auto simp: backfill_order_def)
  show "rec_state r = sync_state (stream_of d' s)" "is_synced r \<longleftrightarrow> sync_state (stream_of d' s) = SYNCED"
    using r so' by simp_all
  show "remaining_ranges r = outstanding_ranges (stream_of d' s)"
    using r(4) by (simp add: so')
qed

end
