(* ===== verification/Gap_Properties.thy ===== *)
theory Gap_Properties
  imports Gap_Continuity
begin

text \<open>
  The guarantees of the gap detector over whole runs of its public interface: in-order,
  gap-free delivery, exactly-once delivery on a point-sequenced feed, the soundness of the
  trading gate, the latch, and the completeness of a backfill.
\<close>

section \<open>Runs\<close>

lemma detector_step_ok: "detector_ok d \<Longrightarrow> detector_ok (detector_step e d)"
proof (cases e)
  case (Ev_Frame a)
  assume "detector_ok d"
  then show ?thesis using Ev_Frame
    by (auto simp: frame_of_args_def detector_ok_def split: sum.splits prod.splits
        dest: make_feed_frame_ok
        intro!: ingest_frame_inv[of "\<lambda>_. False", OF _ _ surjective_pairing])
next
  case (Ev_Heartbeat s n)
  assume "detector_ok d"
  then show ?thesis using Ev_Heartbeat
    by (auto simp: detector_ok_def split: sum.splits intro: observe_heartbeat_inv)
next
  case (Ev_Reconcile s as)
  assume "detector_ok d"
  then show ?thesis using Ev_Reconcile
    by (auto split: sum.splits dest!: frames_of_args_ok intro: reconcile_correct(1))
next
  case (Ev_Resync s n)
  assume "detector_ok d"
  then show ?thesis using Ev_Resync
    by (auto simp: detector_ok_def split: sum.splits intro: resynchronize_inv)
qed

interpretation gap: invariant_machine detector_step detector_ok
  by unfold_locales (rule detector_step_ok)

lemma fresh_detector_ok: "make_detector m t = Inr d \<Longrightarrow> detector_ok d"
  by (auto simp: make_detector_def detector_ok_def det_inv_def split: option.splits if_splits)

text \<open>The frames an event brings, and those it releases for a stream.\<close>

fun event_frames :: "'p feed_event \<Rightarrow> 'p feed_frame list" where
  "event_frames (Ev_Frame a) = (case frame_of_args a of Inl _ \<Rightarrow> [] | Inr f \<Rightarrow> [f])"
| "event_frames (Ev_Reconcile s as) = (case frames_of_args as of Inl _ \<Rightarrow> [] | Inr fs \<Rightarrow> fs)"
| "event_frames _ = []"

fun released :: "string \<Rightarrow> 'p feed_event \<Rightarrow> 'p detector \<Rightarrow> 'p feed_frame list" where
  "released s (Ev_Frame a) d =
     (case frame_of_args a of Inl _ \<Rightarrow> []
      | Inr f \<Rightarrow> if stream f = s then processed_frames (fst (ingest_frame d f)) else [])"
| "released s (Ev_Reconcile t as) d =
     (if t \<noteq> s then []
      else case frames_of_args as of Inl _ \<Rightarrow> []
      | Inr fs \<Rightarrow> (case reconcile_missing_frames d t fs of Inl _ \<Rightarrow> [] | Inr (r, _) \<Rightarrow> rec_processed r))"
| "released s _ d = []"

fun delivery_log :: "string \<Rightarrow> 'p feed_event list \<Rightarrow> 'p detector \<Rightarrow> 'p feed_frame list" where
  "delivery_log s [] d = []"
| "delivery_log s (e # es) d = released s e d @ delivery_log s es (detector_step e d)"

fun resyncs :: "string \<Rightarrow> 'p feed_event \<Rightarrow> bool" where
  "resyncs s (Ev_Resync t n) \<longleftrightarrow> t = s"
| "resyncs s _ \<longleftrightarrow> False"

text \<open>One event that is not a resynchronisation of the stream.\<close>

definition advances ::
    "string \<Rightarrow> 'p feed_frame set \<Rightarrow> 'p detector \<Rightarrow> 'p feed_frame list \<Rightarrow> 'p detector \<Rightarrow> bool" where
  "advances s new d out d' \<longleftrightarrow> tracks d' s \<and>
     chain (expected (stream_of d s)) out (expected (stream_of d' s)) \<and>
     set out \<union> set (py_values (buffer (stream_of d' s)))
       \<subseteq> {f \<in> new. stream f = s} \<union> set (py_values (buffer (stream_of d s))) \<and>
     (sync_state (stream_of d s) = RESET_REQUIRED \<longrightarrow> stream_of d' s = stream_of d s)"

lemma advances_refl: "tracks d s \<Longrightarrow> advances s A d [] d"
  by (auto simp: advances_def)

lemma advances_trans:
  assumes "advances s A d out d1" "advances s B d1 out' d2"
  shows "advances s (A \<union> B) d (out @ out') d2"
proof -
  have "set (out @ out') \<union> set (py_values (buffer (stream_of d2 s)))
      \<subseteq> {f \<in> A \<union> B. stream f = s} \<union> set (py_values (buffer (stream_of d s)))"
    using assms unfolding advances_def set_append by blast
  moreover have "chain (expected (stream_of d s)) (out @ out') (expected (stream_of d2 s))"
    using assms unfolding advances_def chain_append by blast
  moreover have "tracks d2 s" "sync_state (stream_of d s) = RESET_REQUIRED \<longrightarrow> stream_of d2 s = stream_of d s"
    using assms unfolding advances_def by simp_all
  ultimately show ?thesis unfolding advances_def by (intro conjI)
qed

lemma ingest_advances:
  assumes "detector_ok d" "tracks d s" "frame_ok f" "ingest_frame d f = (r, d')"
  shows "advances s {f} d (if stream f = s then processed_frames r else []) d'"
proof (cases "stream f = s")
  case True
  from assms(2) obtain st where st: "py_get (streams d) (stream f) = Some st" using True by blast
  obtain st' where d': "d' = d\<lparr>streams := py_set (streams d) (stream f) st'\<rparr>"
    and del: "delivers (stream f) (max_buffer_size d) f st (processed_frames r) st'"
    using ingest_frame_known[OF assms(1)[unfolded detector_ok_def] assms(3) st assms(4)] .
  have "stream_of d s = st" "stream_of d' s = st'" "tracks d' s"
    using st d' True by (simp_all add: dict_simps)
  then show ?thesis using True del by (auto simp: advances_def delivers_def)
next
  case False
  with ingest_frame_others(1)[OF assms(4), of s] assms(2) show ?thesis
    by (auto simp: advances_def stream_of_def)
qed

lemma heartbeat_advances:
  assumes "detector_ok d" "tracks d s" "observe_heartbeat d t n = Inr (r, d')"
  shows "advances s {} d [] d'"
proof (cases "t = s")
  case True
  from assms(2) obtain st where st: "py_get (streams d) s = Some st" by blast
  then obtain st' where h: "heartbeat_known (sequence_reset_threshold d) s st n = (r, st')"
    and d': "d' = d\<lparr>streams := py_set (streams d) s st'\<rparr>"
    using assms(3) True
    by (auto simp: observe_heartbeat_def validate_sequence_def split: if_splits prod.splits)
  have "stream_of d s = st" "stream_of d' s = st'" "tracks d' s"
    using st d' by (simp_all add: dict_simps)
  then show ?thesis
    using heartbeat_known_ok[OF detector_okD(2)[OF assms(1) st] h] by (simp add: advances_def)
next
  case False
  then have "py_get (streams d') s = py_get (streams d) s"
    using assms(3) by (auto simp: observe_heartbeat_def dict_simps split: if_splits option.splits prod.splits)
  with assms(2) show ?thesis by (auto simp: advances_def stream_of_def)
qed

lemma reconcile_advances:
  assumes "detector_ok d" "tracks d s" "\<forall>f\<in>set fs. frame_ok f"
    "reconcile_missing_frames d t fs = Inr (r, d')"
  shows "advances s (set fs) d (if t = s then rec_processed r else []) d'"
proof (cases "t = s")
  case True
  have "\<forall>f\<in>set fs. stream f = s" using assms(4) True
    by (auto simp: reconcile_missing_frames_def first_error_None split: if_splits option.splits)
       (meson first_error_None option.distinct(1))?
  then show ?thesis
    using True reconcile_correct(4-7)[OF assms(1,3,4)] by (auto simp: advances_def)
next
  case False
  with reconcile_correct(2)[OF assms(1,3,4)] assms(2) show ?thesis
    by (auto simp: advances_def stream_of_def)
qed

lemma resync_other_advances:
  assumes "tracks d s" "resynchronize d t n = Inr d'" "t \<noteq> s"
  shows "advances s {} d [] d'"
proof -
  have "py_get (streams d') s = py_get (streams d) s"
    using assms by (auto simp: resynchronize_def dict_simps split: if_splits option.splits)
  with assms(1) show ?thesis by (auto simp: advances_def stream_of_def)
qed

lemma step_advances:
  assumes "detector_ok d" "tracks d s" "\<not> resyncs s e"
  shows "advances s (set (event_frames e)) d (released s e d) (detector_step e d)"
proof (cases e)
  case (Ev_Frame a)
  show ?thesis
  proof (cases "frame_of_args a")
    case (Inl b)
    then show ?thesis using Ev_Frame advances_refl[OF assms(2)] by simp
  next
    case (Inr f)
    then have "frame_ok f" by (auto simp: frame_of_args_def split: prod.splits dest: make_feed_frame_ok)
    from ingest_advances[OF assms(1,2) this surjective_pairing] show ?thesis
      using Ev_Frame Inr by simp
  qed
next
  case (Ev_Heartbeat t n)
  then show ?thesis using advances_refl[OF assms(2)] heartbeat_advances[OF assms(1,2)]
    by (auto split: sum.splits)
next
  case (Ev_Reconcile t as)
  show ?thesis
  proof (cases "frames_of_args as")
    case (Inl b)
    then show ?thesis using Ev_Reconcile advances_refl[OF assms(2)] by simp
  next
    case (Inr fs)
    show ?thesis
    proof (cases "reconcile_missing_frames d t fs")
      case (Inl b)
      then show ?thesis using Ev_Reconcile \<open>frames_of_args as = Inr fs\<close> advances_refl[OF assms(2)]
        by (cases "t = s") auto
    next
      case rec: (Inr p)
      obtain r d' where p: "p = (r, d')" by fastforce
      with rec have "reconcile_missing_frames d t fs = Inr (r, d')" by simp
      from reconcile_advances[OF assms(1,2) frames_of_args_ok[OF Inr] this]
      show ?thesis using Ev_Reconcile Inr rec p by (cases "t = s") auto
    qed
  qed
next
  case (Ev_Resync t n)
  then show ?thesis using assms advances_refl[OF assms(2)] resync_other_advances[OF assms(2)]
    by (auto split: sum.splits)
qed

lemma run_advances:
  assumes "detector_ok d" "tracks d s" "\<forall>e\<in>set es. \<not> resyncs s e"
  shows "advances s (\<Union>e\<in>set es. set (event_frames e)) d (delivery_log s es d) (fold detector_step es d)"
  using assms
proof (induction es arbitrary: d)
  case Nil
  then show ?case by (auto intro: advances_refl)
next
  case (Cons e es)
  let ?d1 = "detector_step e d"
  have one: "advances s (set (event_frames e)) d (released s e d) ?d1"
    by (rule step_advances) (use Cons.prems in auto)
  then have "tracks ?d1 s" by (simp add: advances_def)
  then have rest: "advances s (\<Union>e\<in>set es. set (event_frames e)) ?d1 (delivery_log s es ?d1)
      (fold detector_step es ?d1)"
    by (intro Cons.IH) (use Cons.prems detector_step_ok in auto)
  from advances_trans[OF one rest] show ?case by (simp add: Un_commute)
qed

section \<open>The properties\<close>

text \<open>C2. In-order delivery without gaps. Over any run of frames, heartbeats, backfills and
  other streams' resynchronisations, the frames released for a tracked stream, taken in order
  of release, form a chain: each covers the sequence number expected when it is released, and
  the stream's expected number has moved from the start of the chain to its end. No sequence
  number between the two is left out, and every released frame was handed in during the run or
  was held at its start.\<close>

theorem delivery_in_order_without_gaps:
  assumes "detector_ok d" "tracks d s" "\<forall>e\<in>set es. \<not> resyncs s e"
  shows "chain (expected (stream_of d s)) (delivery_log s es d)
      (expected (stream_of (fold detector_step es d) s)) \<and>
    {expected (stream_of d s)..<expected (stream_of (fold detector_step es d) s)}
      \<subseteq> (\<Union>f\<in>set (delivery_log s es d). span f) \<and>
    set (delivery_log s es d) \<subseteq> (\<Union>e\<in>set es. set (event_frames e)) \<union> set (py_values (buffer (stream_of d s)))"
proof -
  have adv: "advances s (\<Union>e\<in>set es. set (event_frames e)) d (delivery_log s es d)
      (fold detector_step es d)" by (rule run_advances[OF assms])
  then have c: "chain (expected (stream_of d s)) (delivery_log s es d)
      (expected (stream_of (fold detector_step es d) s))" by (simp add: advances_def)
  from adv have "set (delivery_log s es d)
      \<subseteq> (\<Union>e\<in>set es. set (event_frames e)) \<union> set (py_values (buffer (stream_of d s)))"
    unfolding advances_def by blast
  with c chain_covers[OF c] show ?thesis by blast
qed

lemma resynced_detector:
  assumes "make_detector m t = Inr d0" "resynchronize d0 s n = Inr d"
  shows "detector_ok d" "tracks d s" "stream_of d s = new_stream_state n"
proof -
  have "streams d0 = []" using assms(1) by (auto simp: make_detector_def split: option.splits if_splits)
  with assms(2) show "tracks d s" "stream_of d s = new_stream_state n"
    by (auto simp: resynchronize_def dict_simps split: if_splits option.splits)
  show "detector_ok d"
    using fresh_detector_ok[OF assms(1)] resynchronize_inv[OF _ assms(2)]
    by (simp add: detector_ok_def)
qed

text \<open>A publisher that numbers single frames and never changes one: \<open>pub n\<close> is frame \<open>n\<close>.\<close>

definition genuine :: "string \<Rightarrow> (int \<Rightarrow> 'p) \<Rightarrow> 'p feed_event \<Rightarrow> bool" where
  "genuine s pub e \<longleftrightarrow> (\<forall>f\<in>set (event_frames e). stream f = s \<longrightarrow>
     last_sequence_id f = None \<and> payload f = pub (sequence_id f))"

text \<open>C39. Exactly-once delivery. On a point-sequenced stream seeded from a snapshot, whatever
  order, duplicates, losses and backfills the publisher's frames arrive with, the payloads
  released so far are exactly the publisher's payloads from the seed up to the expected
  number, in order and once each.\<close>

theorem point_feed_exactly_once:
  assumes "make_detector m t = Inr d0" "resynchronize d0 s n = Inr d"
    "\<forall>e\<in>set es. \<not> resyncs s e \<and> genuine s pub e"
  shows "map payload (delivery_log s es d) =
    map pub [n..expected (stream_of (fold detector_step es d) s) - 1]"
proof -
  note d = resynced_detector[OF assms(1,2)]
  let ?log = "delivery_log s es d"
  have adv: "advances s (\<Union>e\<in>set es. set (event_frames e)) d ?log (fold detector_step es d)"
    using run_advances[OF d(1,2)] assms(3) by blast
  have all: "\<forall>f\<in>set ?log. last_sequence_id f = None \<and> payload f = pub (sequence_id f)"
    using adv assms(3) d(3) by (fastforce simp: advances_def genuine_def new_stream_state_def)
  have "map sequence_id ?log = [n..expected (stream_of (fold detector_step es d) s) - 1]"
    using adv all d(3) by (intro chain_point) (auto simp: advances_def new_stream_state_def)
  moreover have "map payload ?log = map pub (map sequence_id ?log)" using all by simp
  ultimately show ?thesis by simp
qed

text \<open>The missing ranges are exact: the ranges reported as outstanding cover precisely the
  sequence numbers between the expected one and the highest the publisher has claimed that no
  held frame carries, and they are non-empty, in order and separated.\<close>

theorem outstanding_ranges_exact:
  assumes "detector_ok d" "py_get (streams d) s = Some st"
  shows "range_set (outstanding_ranges st) = {expected st..<high_water st} - held_numbers st \<and>
    (\<forall>(a, b)\<in>set (outstanding_ranges st). a \<le> b) \<and>
    sorted_wrt (\<lambda>r r'. snd r < fst r') (outstanding_ranges st)"
proof -
  note ok = detector_okD(2)[OF assms]
  have "\<forall>f\<in>set (sort_key sequence_id (py_values (buffer st))).
      sequence_id f \<le> final_sequence_id f" using stream_ok_values[OF ok] by simp
  then have "sorted_wrt (\<lambda>r r'. snd r < fst r') (missing_upto st (high_water st - 1))"
    by (auto simp: missing_upto_def intro!: missing_loop_separated)
  moreover have "\<forall>(a, b)\<in>set (missing_upto st (high_water st - 1)). a \<le> b"
    by (auto simp: missing_upto_def dest: missing_loop_bounds[rotated])
  ultimately show ?thesis
    using outstanding_set[OF ok] by (simp add: outstanding_eq[OF ok])
qed

text \<open>The trading gate is sound. After any run of the public interface from a new
  detector, a stream on which trading is authorised has delivered every sequence number the
  publisher has claimed: nothing is outstanding and nothing is held back.\<close>

theorem trading_gate_sound:
  assumes "make_detector m t = Inr d0" "is_trading_authorized (fold detector_step es d0) s"
  shows "let st = stream_of (fold detector_step es d0) s in
    outstanding_ranges st = [] \<and> expected st = high_water st \<and> buffer st = []"
proof -
  let ?d = "fold detector_step es d0"
  have ok: "detector_ok ?d" by (rule gap.run_inv[OF fresh_detector_ok[OF assms(1)]])
  obtain st where st: "py_get (streams ?d) s = Some st" "sync_state st = SYNCED"
    using assms(2) by (auto simp: is_trading_authorized_def trading_authorized_states_def split: option.splits)
  note sok = detector_okD[OF ok st(1)]
  then have eq: "expected st = high_water st" using st(2) by (simp add: settled_def)
  have "buffer st = []"
  proof (cases "buffer st")
    case (Cons p ps)
    then show ?thesis using stream_okD(5)[OF sok(2), of "fst p" "snd p"] eq by force
  qed simp
  then show ?thesis using st(1) eq outstanding_Nil_iff[OF sok(2)] by simp
qed

text \<open>The latch. A stream latched \<open>RESET_REQUIRED\<close> stays exactly as it is, delivers nothing
  and authorises no trading under every run that does not resynchronise that stream.\<close>

theorem latch_until_resync:
  assumes "detector_ok d" "get_state d s = Some RESET_REQUIRED" "\<forall>e\<in>set es. \<not> resyncs s e"
  shows "stream_of (fold detector_step es d) s = stream_of d s \<and>
    get_state (fold detector_step es d) s = Some RESET_REQUIRED \<and>
    \<not> is_trading_authorized (fold detector_step es d) s"
proof -
  have tr: "tracks d s" and st: "sync_state (stream_of d s) = RESET_REQUIRED"
    using assms(2) by (auto simp: get_state_def)
  have "advances s (\<Union>e\<in>set es. set (event_frames e)) d (delivery_log s es d) (fold detector_step es d)"
    by (rule run_advances[OF assms(1) tr assms(3)])
  with st have "tracks (fold detector_step es d) s" "stream_of (fold detector_step es d) s = stream_of d s"
    by (auto simp: advances_def)
  with st show ?thesis
    by (auto simp: get_state_def is_trading_authorized_def trading_authorized_states_def)
qed

section \<open>Completeness of a backfill\<close>

text \<open>A held frame the drain removes is entirely behind the new expected number.\<close>

lemma drain_loop_keeps:
  assumes "drain_inv s st" "drain_loop st = (rel, st')" "g \<in> set (py_values (buffer st))"
  shows "g \<in> set (py_values (buffer st')) \<or> final_sequence_id g < expected st'"
  using assms
proof (induction st arbitrary: rel st' rule: drain_loop.induct)
  case (1 st)
  obtain fo st1 where pop: "pop_next st = (fo, st1)" by fastforce
  have ne: "buffer st \<noteq> []" using "1.prems"(3) by auto
  show ?case
  proof (cases fo)
    case None
    then have "st' = st" using "1.prems"(2) ne pop pop_next_None(1)[of st st1]
      by (simp add: drain_loop.simps[of st])
    with "1.prems"(3) show ?thesis by simp
  next
    case (Some f)
    with pop have p: "pop_next st = (Some f, st1)" by simp
    let ?st2 = "st1\<lparr>expected := final_sequence_id f + 1\<rparr>"
    obtain rel' where rec: "drain_loop ?st2 = (rel', st')"
      using "1.prems"(2) ne p by (auto simp: drain_loop.simps[of st] Let_def split: prod.splits)
    note pf = pop_next_Some[OF "1.prems"(1) p] and inv2 = drain_inv_pop[OF "1.prems"(1) p]
    show ?thesis
    proof (cases "g \<in> set (py_values (buffer ?st2))")
      case True
      from "1.IH"[OF ne p[symmetric] refl inv2 rec this] show ?thesis by simp
    next
      case False
      have ok: "dict_ok (buffer st)" using "1.prems"(1) by (simp add: drain_inv_def)
      from "1.prems"(3) obtain k where k: "(k, g) \<in> set (buffer st)" by auto
      have "k = sequence_id f"
      proof (rule ccontr)
        assume "k \<noteq> sequence_id f"
        with k have "(k, g) \<in> set (buffer ?st2)" by (simp add: pf(3))
        with False show False by force
      qed
      with k pf(2) have "g = f" using py_get_iff[OF ok] by (metis option.inject)
      moreover have "final_sequence_id f + 1 \<le> expected st'"
        using drain_loop_correct[OF inv2 rec] chain_mono by fastforce
      ultimately show ?thesis by simp
    qed
  qed
qed

text \<open>What a contiguous point frame leaves outstanding: exactly its own number is gone.\<close>

definition missing_numbers :: "'p stream_state \<Rightarrow> int set" where
  "missing_numbers st = {expected st..<high_water st} - held_numbers st"

lemma drain_held:
  assumes "drain_inv s st" "drain st = (rel, st')"
  shows "{expected st'..} \<inter> held_numbers st' = {expected st'..} \<inter> held_numbers st"
    "{expected st..<expected st'} \<subseteq> held_numbers st"
proof -
  obtain st1 where loop: "drain_loop st = (rel, st1)" and st': "st' = purge_stale st1"
    using assms(2) by (auto simp: drain_def split: prod.splits)
  note c = drain_loop_correct[OF assms(1) loop]
  have e: "expected st' = expected st1" by (simp add: st' purge_stale_def)
  have sub: "set (py_values (buffer st')) \<subseteq> set (py_values (buffer st))"
    using c by (auto simp: st' purge_stale_def)
  have keep: "g \<in> set (py_values (buffer st')) \<or> final_sequence_id g < expected st'"
    if "g \<in> set (py_values (buffer st))" for g
    using drain_loop_keeps[OF assms(1) loop that]
    by (force simp: st' purge_stale_def image_iff)
  show "{expected st'..} \<inter> held_numbers st' = {expected st'..} \<inter> held_numbers st"
  proof (intro equalityI subsetI)
    fix x assume "x \<in> {expected st'..} \<inter> held_numbers st'"
    with sub show "x \<in> {expected st'..} \<inter> held_numbers st" unfolding held_numbers_def by blast
  next
    fix x assume "x \<in> {expected st'..} \<inter> held_numbers st"
    then obtain g where g: "g \<in> set (py_values (buffer st))" "x \<in> span g" "expected st' \<le> x"
      by (auto simp: held_numbers_def)
    with keep[OF g(1)] have "g \<in> set (py_values (buffer st'))" by (auto simp: span_def)
    with g show "x \<in> {expected st'..} \<inter> held_numbers st'" unfolding held_numbers_def by blast
  qed
  have "chain (expected st) rel (expected st')" "set rel \<subseteq> set (py_values (buffer st))"
    using c e by auto
  then show "{expected st..<expected st'} \<subseteq> held_numbers st"
    using chain_covers[of "expected st" rel "expected st'"] unfolding held_numbers_def by blast
qed

lemma ingest_point_closes:
  assumes "stream_ok s m st" "frame_ok f" "stream f = s" "last_sequence_id f = None"
    "sync_state st \<noteq> RESET_REQUIRED" "sequence_id f = expected st" "expected st < high_water st"
    "ingest_known m thr st f = (r, st')"
  shows "missing_numbers st' = missing_numbers st - {sequence_id f}" "disposition r = PROCESSED"
    "sync_state st' \<noteq> RESET_REQUIRED"
proof -
  have fin: "final_sequence_id f = expected st" using assms(4,6) by (simp add: final_sequence_id_def)
  have hw: "max (high_water st) (expected st + 1) = high_water st" using assms(7) by simp
  have now: "expected st \<in> span f" using assms(6) fin by (simp add: span_def)
  have "st\<lparr>high_water := high_water st\<rparr> = st" by simp
  then have ing: "ingest_contiguous st f = (r, st')"
    using assms(5,6,8) fin hw by (simp add: ingest_known_def Let_def)
  let ?st1 = "st\<lparr>expected := expected st + 1\<rparr>"
  have inv: "drain_inv s ?st1"
    using stream_ok_contiguous_inv[OF assms(1,3) now] hw by (simp add: fin)
  obtain rel st2 where dr: "drain ?st1 = (rel, st2)" by fastforce
  have st': "expected st' = expected st2" "high_water st' = high_water st2" "buffer st' = buffer st2"
      "disposition r = PROCESSED"
    using ing dr fin assms(6) by (auto simp: ingest_contiguous_def gap_result_of_def Let_def)
  then show "disposition r = PROCESSED" by simp
  show "sync_state st' \<noteq> RESET_REQUIRED"
    using ing dr by (auto simp: ingest_contiguous_def Let_def split: prod.splits)
  have len: "length (buffer ?st1) \<le> m" using stream_okD(2)[OF assms(1)] by simp
  have h: "held_numbers st2 = held_numbers st'" "held_numbers ?st1 = held_numbers st"
    using st' by (simp_all add: held_numbers_def)
  have hw2: "high_water st' = high_water st" using st' drain_correct(5)[OF inv len dr] by simp
  have "expected st \<notin> held_numbers st"
    using stream_ok_values[OF assms(1)] by (fastforce simp: held_numbers_def span_def)
  moreover have "expected st + 1 \<le> expected st'"
    using st' drain_correct(2)[OF inv len dr] by (auto dest: chain_mono)
  moreover have "\<forall>x\<ge>expected st'. x \<in> held_numbers st' \<longleftrightarrow> x \<in> held_numbers st"
    "\<forall>x. expected st + 1 \<le> x \<and> x < expected st' \<longrightarrow> x \<in> held_numbers st"
    using drain_held[OF inv dr] st'(1) h by auto
  ultimately show "missing_numbers st' = missing_numbers st - {sequence_id f}"
    unfolding missing_numbers_def hw2 assms(6) set_eq_iff by (smt (verit) DiffD1 DiffD2 DiffI
      atLeastLessThan_iff singletonD singletonI)
qed

lemma backfill_loop_closes:
  assumes "det_inv (\<lambda>t. t = s) d" "tracks d s" "sync_state (stream_of d s) \<noteq> RESET_REQUIRED"
    "sorted_wrt (<) (map sequence_id fs)"
    "\<forall>f\<in>set fs. frame_ok f \<and> stream f = s \<and> last_sequence_id f = None"
    "missing_numbers (stream_of d s) = set (map sequence_id fs)"
    "reconcile_loop s fs d proc a b = (d', proc', a', b')"
  shows "missing_numbers (stream_of d' s) = {} \<and> sync_state (stream_of d' s) \<noteq> RESET_REQUIRED \<and>
    a' = a + length fs \<and> b' = b"
  using assms
proof (induction fs arbitrary: d proc a b)
  case Nil
  then show ?case by simp
next
  case (Cons f fs)
  obtain st where st: "py_get (streams d) s = Some st" using Cons.prems(2) by blast
  then have so: "stream_of d s = st" by simp
  have f: "frame_ok f" "stream f = s" "last_sequence_id f = None" using Cons.prems(5) by auto
  note sok = det_invD(2)[OF Cons.prems(1) st]
  have miss: "missing_numbers st = set (map sequence_id (f # fs))" using Cons.prems(6) so by simp
  then have fm: "sequence_id f \<in> missing_numbers st" by simp
  have e: "expected st < high_water st" using fm by (auto simp: missing_numbers_def)
  have "expected st \<in> missing_numbers st"
    using e stream_ok_values[OF sok] by (fastforce simp: missing_numbers_def held_numbers_def span_def)
  then have "sequence_id f \<le> expected st" using miss Cons.prems(4) by auto
  moreover have "expected st \<le> sequence_id f" using fm by (simp add: missing_numbers_def)
  ultimately have seq: "sequence_id f = expected st" by simp
  obtain r d1 where ing: "ingest_frame d f = (r, d1)" by fastforce
  obtain st1 where d1: "d1 = d\<lparr>streams := py_set (streams d) (stream f) st1\<rparr>"
    and k: "ingest_known (max_buffer_size d) (sequence_reset_threshold d) st f = (r, st1)"
    using ingest_frame_known[OF Cons.prems(1) f(1) _ ing] st f(2) by metis
  have open_stream: "sync_state st \<noteq> RESET_REQUIRED" using Cons.prems(3) so by simp
  note cl = ingest_point_closes[OF sok f open_stream seq e k]
  have so1: "stream_of d1 s = st1" and tr1: "tracks d1 s"
    using d1 f(2) by (simp_all add: dict_simps)
  have inv1: "det_inv (\<lambda>t. t = s) d1" by (rule ingest_frame_inv[OF Cons.prems(1) f(1) ing])
  have rest: "reconcile_loop s fs d1 (proc @ processed_frames r) (Suc a) b = (d', proc', a', b')"
    using Cons.prems(7) ing cl so1 by (simp add: Let_def)
  have "missing_numbers (stream_of d1 s) = set (map sequence_id fs)"
    using cl(1) miss so1 Cons.prems(4) by auto
  then show ?case
    using Cons.IH[OF inv1 tr1 _ _ _ _ rest] cl so1 Cons.prems(4,5) by simp
qed

lemma backfill_order_strict:
  assumes "distinct (map sequence_id fs)"
  shows "sorted_wrt (<) (map sequence_id (backfill_order fs))"
proof -
  have "sorted (map (\<lambda>f. (sequence_id f, final_sequence_id f)) (backfill_order fs))"
    by (simp add: backfill_order_def)
  then have "sorted (map sequence_id (backfill_order fs))"
    by (auto simp: sorted_wrt_map elim!: sorted_wrt_mono_rel[rotated])
  moreover have "distinct (map sequence_id (backfill_order fs))"
    using assms by (simp add: backfill_order_def distinct_map)
  ultimately show ?thesis by (simp add: strict_sorted_iff)
qed

text \<open>A complete backfill closes the gap. If the stream is not latched and the frames handed
  in are point frames for exactly the outstanding sequence numbers, in any order, then the
  reconciliation applies every one of them, counts no duplicate, reports nothing remaining and
  leaves the stream \<open>SYNCED\<close> and authorised for trading.\<close>

theorem complete_backfill_synchronises:
  assumes "detector_ok d" "py_get (streams d) s = Some st" "sync_state st \<noteq> RESET_REQUIRED"
    "\<forall>f\<in>set fs. frame_ok f \<and> stream f = s \<and> last_sequence_id f = None"
    "distinct (map sequence_id fs)"
    "set (map sequence_id fs) = range_set (outstanding_ranges st)"
  shows "\<exists>r d'. reconcile_missing_frames d s fs = Inr (r, d') \<and> is_synced r \<and>
    remaining_ranges r = [] \<and> applied_count r = length fs \<and> duplicate_count r = 0 \<and>
    is_trading_authorized d' s"
proof -
  note sok = detector_okD[OF assms(1,2)]
  let ?d0 = "set_sync_state d s RECOVERING"
  obtain d1 proc a b where loop: "reconcile_loop s (backfill_order fs) ?d0 [] 0 0 = (d1, proc, a, b)"
    by (metis prod_cases4)
  have inv0: "det_inv (\<lambda>t. t = s) ?d0"
    using assms(1,2) by (intro set_sync_state_inv) (auto simp: detector_ok_def)
  have st0: "tracks ?d0 s" "stream_of ?d0 s = st\<lparr>sync_state := RECOVERING\<rparr>"
    using assms(2) by (simp_all add: set_sync_state_def dict_simps)
  have fs0: "\<forall>f\<in>set (backfill_order fs). frame_ok f \<and> stream f = s \<and> last_sequence_id f = None"
    and len: "length (backfill_order fs) = length fs"
    using assms(4) by (simp_all add: backfill_order_def)
  have "missing_numbers st = range_set (outstanding_ranges st)"
    by (simp add: missing_numbers_def outstanding_set[OF sok(2)])
  then have "missing_numbers (stream_of ?d0 s) = set (map sequence_id (backfill_order fs))"
    using assms(6) st0 by (simp add: missing_numbers_def held_numbers_def backfill_order_def)
  from backfill_loop_closes[OF inv0 st0(1) _ backfill_order_strict[OF assms(5)] fs0 this loop]
  have res: "missing_numbers (stream_of d1 s) = {}" "sync_state (stream_of d1 s) \<noteq> RESET_REQUIRED"
    "a = length fs" "b = 0" using st0 len by simp_all
  from reconcile_loop_correct[OF inv0 st0(1) _ loop] fs0
  have inv1: "det_inv (\<lambda>t. t = s) d1" and "tracks d1 s" by auto
  then obtain st1 where st1: "py_get (streams d1) s = Some st1" by blast
  note ok1 = det_invD(2)[OF inv1 st1]
  have "expected st1 = high_water st1"
  proof (rule ccontr)
    assume "expected st1 \<noteq> high_water st1"
    then have "expected st1 < high_water st1" using stream_okD(4)[OF ok1] by simp
    then have "expected st1 \<in> missing_numbers st1"
      using stream_ok_values[OF ok1] by (fastforce simp: missing_numbers_def held_numbers_def span_def)
    with res(1) st1 show False by simp
  qed
  then have out: "outstanding_ranges st1 = []" by (simp add: outstanding_Nil_iff[OF ok1])
  have own: "first_error (\<lambda>f. if stream f \<noteq> s then Some Foreign_Frame else None) fs = None"
    using assms(4) by (simp add: first_error_None)
  show ?thesis
    using assms(2,3) sok(1) own loop st1 res out
    by (simp add: reconcile_missing_frames_def settle_state_def set_sync_state_def
        is_trading_authorized_def trading_authorized_states_def dict_simps)
qed

text \<open>A heartbeat ahead of the stream always reveals a loss: the missing ranges it reports are
  never empty, so the branch that treats it as covered by held frames is never taken.\<close>

theorem heartbeat_ahead_reveals_gap:
  assumes "detector_ok d" "py_get (streams d) s = Some st" "sync_state st \<noteq> RESET_REQUIRED"
    "expected st < n"
  shows "\<exists>r d'. observe_heartbeat d s n = Inr (r, d') \<and> is_gap_detected r \<and>
    disposition r = BUFFERED \<and> expected st \<in> range_set (missing_ranges r) \<and>
    \<not> is_trading_authorized d' s"
proof -
  note sok = detector_okD[OF assms(1,2)]
  let ?st1 = "st\<lparr>high_water := max (high_water st) n\<rparr>"
  have ok1: "stream_ok s (max_buffer_size d) ?st1" by (rule stream_ok_raise[OF sok(2)])
  then have ne: "missing_upto ?st1 (n - 1) \<noteq> []" using assms(4) by (simp add: missing_upto_Nil_iff)
  have "expected st \<in> range_set (missing_upto ?st1 (n - 1))"
    using missing_upto_exact[OF ok1, of "n - 1"] assms(4) stream_ok_values[OF ok1]
    by (fastforce simp: held_numbers_def span_def)
  moreover have "settle_state (?st1\<lparr>gaps_detected := g\<rparr>) \<noteq> SYNCED" for g
    using outstanding_Nil_iff[of s "max_buffer_size d" "?st1\<lparr>gaps_detected := g\<rparr>"] ok1 assms(4)
    by (auto simp: settle_state_def)
  moreover have "settle_state ?st1 \<noteq> SYNCED"
    using outstanding_Nil_iff[OF ok1] assms(4) by (auto simp: settle_state_def)
  moreover have "0 \<le> n" using stream_okD(3)[OF sok(2)] assms(4) by simp
  ultimately show ?thesis
    using assms ne sok(1)
    by (auto simp: observe_heartbeat_def validate_sequence_def heartbeat_known_def Let_def
        gap_result_of_def is_trading_authorized_def trading_authorized_states_def dict_simps)
qed

section \<open>The properties at concrete inputs\<close>

text \<open>
  A detector seeded at 5 on stream A; frames 7 and 6 arrive before 5, then 5, then 7 again,
  and in a second run frame 5 is lost.
\<close>

definition demo_detector :: "int detector" where
  "demo_detector = \<lparr>max_buffer_size = 4, sequence_reset_threshold = 1000,
     streams = [(''A'', new_stream_state 5)]\<rparr>"

definition demo_frame :: "int \<Rightarrow> int feed_frame" where
  "demo_frame n = \<lparr>stream = ''A'', sequence_id = n, payload = 10 * n, last_sequence_id = None\<rparr>"

definition demo_run :: "int feed_event list" where
  "demo_run = [Ev_Frame (''A'', 7, 70, None), Ev_Frame (''A'', 6, 60, None),
     Ev_Frame (''A'', 5, 50, None), Ev_Frame (''A'', 7, 70, None)]"

definition demo_gap :: "int detector" where
  "demo_gap = fold detector_step [Ev_Frame (''A'', 7, 70, None), Ev_Heartbeat ''A'' 9] demo_detector"

definition demo_latched :: "int detector" where
  "demo_latched = fold detector_step [Ev_Resync ''A'' 5000, Ev_Frame (''A'', 7, 70, None)] demo_detector"

lemma demo_seed: "make_detector 4 1000 = Inr \<lparr>max_buffer_size = 4, sequence_reset_threshold = 1000, streams = []\<rparr>"
  "resynchronize \<lparr>max_buffer_size = 4, sequence_reset_threshold = 1000, streams = []\<rparr> ''A'' 5 = Inr demo_detector"
  by (simp_all add: make_detector_def validate_sequence_def resynchronize_def demo_detector_def py_set_def)

lemma demo_ok: "detector_ok demo_detector" "detector_ok demo_gap" "detector_ok demo_latched"
  unfolding demo_gap_def demo_latched_def
  by (intro gap.run_inv resynced_detector(1)[OF demo_seed])+

lemma demo_eval:
  "tracks demo_detector ''A''" "\<forall>e\<in>set demo_run. \<not> resyncs ''A'' e"
  "expected (stream_of demo_detector ''A'') = 5"
  "expected (stream_of (fold detector_step demo_run demo_detector) ''A'') = 8"
  "is_trading_authorized (fold detector_step (Ev_Resync ''A'' 5 # demo_run)
     \<lparr>max_buffer_size = 4, sequence_reset_threshold = 1000, streams = []\<rparr>) ''A''"
  "get_state demo_latched ''A'' = Some RESET_REQUIRED"
  "map_option sync_state (py_get (streams demo_gap) ''A'') = Some DIRTY_SYNC_PENDING"
  "map_option expected (py_get (streams demo_gap) ''A'') = Some 5"
  "map_option high_water (py_get (streams demo_gap) ''A'') = Some 9"
  "map_option outstanding_ranges (py_get (streams demo_gap) ''A'') = Some [(5, 6), (8, 8)]"
  by code_simp+

lemma demo_gap_stream:
  obtains st where "py_get (streams demo_gap) ''A'' = Some st"
    "sync_state st = DIRTY_SYNC_PENDING" "expected st = 5" "high_water st = 9"
    "outstanding_ranges st = [(5, 6), (8, 8)]"
  using demo_eval(7-10) by auto

theorem delivery_in_order_without_gaps_witness:
  "chain 5 (delivery_log ''A'' demo_run demo_detector) 8 \<and>
   {5..<8} \<subseteq> (\<Union>f\<in>set (delivery_log ''A'' demo_run demo_detector). span f)"
  using delivery_in_order_without_gaps[OF demo_ok(1) demo_eval(1,2)] by (simp add: demo_eval)

theorem point_feed_exactly_once_witness:
  "map payload (delivery_log ''A'' demo_run demo_detector) = [50, 60, 70]"
proof -
  have "\<forall>e\<in>set demo_run. \<not> resyncs ''A'' e \<and> genuine ''A'' (\<lambda>n. 10 * n) e"
    by (simp add: demo_run_def genuine_def frame_of_args_def make_feed_frame_def validate_sequence_def)
  from point_feed_exactly_once[OF demo_seed this]
  show ?thesis by (simp add: demo_eval upto_rec1)
qed

theorem outstanding_ranges_exact_witness:
  "\<exists>st. py_get (streams demo_gap) ''A'' = Some st \<and>
     range_set (outstanding_ranges st) = {5..<9} - held_numbers st \<and>
     outstanding_ranges st = [(5, 6), (8, 8)]"
proof -
  obtain st where st: "py_get (streams demo_gap) ''A'' = Some st" "expected st = 5"
    "high_water st = 9" "outstanding_ranges st = [(5, 6), (8, 8)]" by (rule demo_gap_stream)
  from outstanding_ranges_exact[OF demo_ok(2) st(1)] st show ?thesis by auto
qed

theorem trading_gate_sound_witness:
  "buffer (stream_of (fold detector_step (Ev_Resync ''A'' 5 # demo_run)
     (\<lparr>max_buffer_size = 4, sequence_reset_threshold = 1000, streams = []\<rparr> :: int detector)) ''A'') = []"
  using trading_gate_sound[OF demo_seed(1) demo_eval(5)] unfolding Let_def by (elim conjE)

theorem latch_until_resync_witness:
  "get_state (fold detector_step demo_run demo_latched) ''A'' = Some RESET_REQUIRED \<and>
   \<not> is_trading_authorized (fold detector_step demo_run demo_latched) ''A''"
  using latch_until_resync[OF demo_ok(3) demo_eval(6,2)] by (elim conjE) (intro conjI)

theorem complete_backfill_synchronises_witness:
  "\<exists>r d'. reconcile_missing_frames demo_gap ''A'' (map demo_frame [8, 5, 6]) = Inr (r, d') \<and>
     is_synced r \<and> applied_count r = 3 \<and> is_trading_authorized d' ''A''"
proof -
  obtain st where st: "py_get (streams demo_gap) ''A'' = Some st" "sync_state st = DIRTY_SYNC_PENDING"
    "outstanding_ranges st = [(5, 6), (8, 8)]" by (rule demo_gap_stream)
  have 1: "sync_state st \<noteq> RESET_REQUIRED" using st(2) by simp
  have 2: "\<forall>f\<in>set (map demo_frame [8, 5, 6]).
      frame_ok f \<and> stream f = ''A'' \<and> last_sequence_id f = None"
    by (simp add: demo_frame_def frame_ok_def final_sequence_id_def)
  have 3: "distinct (map sequence_id (map demo_frame [8, 5, 6]))" by (simp add: demo_frame_def)
  have 4: "set (map sequence_id (map demo_frame [8, 5, 6])) = range_set (outstanding_ranges st)"
    by (auto simp: st(3) range_set_def demo_frame_def)
  from complete_backfill_synchronises[OF demo_ok(2) st(1) 1 2 3 4] show ?thesis by auto
qed

theorem heartbeat_ahead_reveals_gap_witness:
  "\<exists>r d'. observe_heartbeat demo_gap ''A'' 12 = Inr (r, d') \<and> is_gap_detected r \<and>
     5 \<in> range_set (missing_ranges r) \<and> \<not> is_trading_authorized d' ''A''"
proof -
  obtain st where st: "py_get (streams demo_gap) ''A'' = Some st" "sync_state st = DIRTY_SYNC_PENDING"
    "expected st = 5" by (rule demo_gap_stream)
  have "sync_state st \<noteq> RESET_REQUIRED" "expected st < 12" using st by simp_all
  from heartbeat_ahead_reveals_gap[OF demo_ok(2) st(1) this] st(3) show ?thesis by auto
qed

end
