(* ===== verification/Prime_Field.thy ===== *)
theory Prime_Field
  imports Py_Prelude
begin

text \<open>
  Arithmetic modulo a prime, as the secret-sharing engine uses it: the extended Euclidean
  algorithm behind \<open>pow(a, -1, p)\<close>, polynomials over the integers read modulo \<open>p\<close>, the bound on
  their roots, Lagrange interpolation, and Fermat's little theorem for the primality test.
  Polynomials are coefficient lists, constant term first.
\<close>

section \<open>Primes and inverses\<close>

definition is_prime :: "int \<Rightarrow> bool" where
  "is_prime p \<longleftrightarrow> 2 \<le> p \<and> (\<forall>d. 0 < d \<longrightarrow> d dvd p \<longrightarrow> d = 1 \<or> d = p)"

lemma is_prime_ge2: "is_prime p \<Longrightarrow> 2 \<le> p"
  by (simp add: is_prime_def)

lemma prime_coprime: "is_prime p \<Longrightarrow> \<not> p dvd a \<Longrightarrow> coprime a p"
proof -
  assume p: "is_prime p" and na: "\<not> p dvd a"
  have "0 < gcd a p" using is_prime_ge2[OF p] by (simp add: gcd_pos_int)
  then have "gcd a p = 1 \<or> gcd a p = p" using p by (simp add: is_prime_def)
  then have "gcd a p = 1" using na by (metis gcd_dvd1)
  then show ?thesis by (simp add: coprime_iff_gcd_eq_1)
qed

lemma prime_dvd_mult: "is_prime p \<Longrightarrow> p dvd a * b \<Longrightarrow> p dvd a \<or> p dvd b"
  by (metis prime_coprime coprime_commute coprime_dvd_mult_right_iff)

lemma is_prime_check:
  "2 \<le> p \<Longrightarrow> \<forall>d\<in>{2..<p}. \<not> d dvd p \<Longrightarrow> is_prime p"
  unfolding is_prime_def using zdvd_imp_le by fastforce

text \<open>Extended Euclid on non-negative integers: \<open>(g, u, v)\<close> with \<open>u * a + v * b = g\<close>.\<close>

function egcd :: "int \<Rightarrow> int \<Rightarrow> int \<times> int \<times> int" where
  "egcd a b =
     (if b \<le> 0 then (a, 1, 0)
      else let (g, u, v) = egcd b (a mod b) in (g, v, u - (a div b) * v))"
  by pat_completeness auto
termination
  by (relation "measure (\<lambda>(a, b). nat b)") auto

declare egcd.simps [simp del]

lemma egcd_correct:
  "0 \<le> a \<Longrightarrow> 0 \<le> b \<Longrightarrow> egcd a b = (g, u, v) \<Longrightarrow> u * a + v * b = g \<and> g = gcd a b"
proof (induction a b arbitrary: g u v rule: egcd.induct)
  case (1 a b)
  show ?case
  proof (cases "b \<le> 0")
    case True
    with "1.prems" show ?thesis by (simp add: egcd.simps[of a 0])
  next
    case False
    obtain g' u' v' where rec: "egcd b (a mod b) = (g', u', v')" by (metis prod_cases3)
    with False "1.prems" have guv: "g = g'" "u = v'" "v = u' - (a div b) * v'"
      by (auto simp: egcd.simps[of a b])
    have ih: "u' * b + v' * (a mod b) = g'" "g' = gcd b (a mod b)"
      using "1.IH"[OF False _ _ rec] False "1.prems" by simp_all
    have "u * a + v * b = v' * (b * (a div b) + a mod b) + (u' - (a div b) * v') * b"
      by (simp add: guv)
    also have "\<dots> = u' * b + v' * (a mod b)" by (simp only: distrib_left left_diff_distrib) simp
    also have "\<dots> = g'" by (rule ih(1))
    finally show ?thesis using ih(2) guv by (simp add: gcd_red_int[symmetric])
  qed
qed

text \<open>\<open>pow(a % p, -1, p)\<close>: the inverse in \<open>[0, p)\<close>, or a \<open>ValueError\<close>.\<close>

definition py_inverse :: "int \<Rightarrow> int \<Rightarrow> int option" where
  "py_inverse a p =
     (let (g, u, v) = egcd (a mod p) p in if g = 1 then Some (u mod p) else None)"

lemma py_inverse_Some:
  assumes "0 < p" "py_inverse a p = Some x"
  shows "0 \<le> x" "x < p" "(a * x) mod p = 1 mod p"
proof -
  obtain g u v where e: "egcd (a mod p) p = (g, u, v)" by (metis prod_cases3)
  with assms(2) have x: "g = 1" "x = u mod p" by (auto simp: py_inverse_def split: if_splits)
  then show "0 \<le> x" "x < p" using assms(1) by simp_all
  have "u * (a mod p) + v * p = 1" using egcd_correct[OF _ _ e] assms(1) x by simp
  then have "(u * (a mod p)) mod p = 1 mod p" by (metis mod_mult_self1)
  then show "(a * x) mod p = 1 mod p" by (simp add: x mult.commute mod_mult_eq mod_mult_right_eq)
qed

lemma py_inverse_total:
  assumes "is_prime p" "\<not> p dvd a"
  shows "py_inverse a p \<noteq> None"
proof -
  obtain g u v where e: "egcd (a mod p) p = (g, u, v)" by (metis prod_cases3)
  have "g = gcd (a mod p) p" using egcd_correct[OF _ _ e] is_prime_ge2[OF assms(1)] by simp
  also have "\<dots> = gcd a p" by (simp add: gcd.commute flip: gcd_red_int)
  also have "\<dots> = 1" using prime_coprime[OF assms] by (simp add: coprime_iff_gcd_eq_1)
  finally show ?thesis by (simp add: py_inverse_def e)
qed

section \<open>Polynomials over the integers\<close>

fun ieval :: "int list \<Rightarrow> int \<Rightarrow> int" where
  "ieval [] x = 0"
| "ieval (c # cs) x = c + x * ieval cs x"

definition polyfun :: "nat \<Rightarrow> (int \<Rightarrow> int) \<Rightarrow> bool" where
  "polyfun k f \<longleftrightarrow> (\<exists>cs. length cs = k \<and> (\<forall>x. f x = ieval cs x))"

lemma polyfun_ieval: "polyfun (length cs) (ieval cs)"
  by (auto simp: polyfun_def)

lemma ieval_add:
  "length as = length bs \<Longrightarrow> ieval (map2 (+) as bs) x = ieval as x + ieval bs x"
  by (induction as bs rule: list_induct2) (simp_all add: algebra_simps)

lemma ieval_scale: "ieval (map ((*) c) as) x = c * ieval as x"
  by (induction as) (simp_all add: algebra_simps)

lemma ieval_snoc0: "ieval (as @ [0]) x = ieval as x"
  by (induction as) simp_all

lemma polyfun_add: "polyfun k f \<Longrightarrow> polyfun k g \<Longrightarrow> polyfun k (\<lambda>x. f x + g x)"
proof -
  assume "polyfun k f" "polyfun k g"
  then obtain as bs where "length as = k" "length bs = k" "\<And>x. f x = ieval as x" "\<And>x. g x = ieval bs x"
    by (auto simp: polyfun_def)
  then show ?thesis unfolding polyfun_def
    by (intro exI[of _ "map2 (+) as bs"]) (simp add: ieval_add)
qed

lemma polyfun_scale: "polyfun k f \<Longrightarrow> polyfun k (\<lambda>x. c * f x)"
proof -
  assume "polyfun k f"
  then obtain as where "length as = k" "\<And>x. f x = ieval as x" by (auto simp: polyfun_def)
  then show ?thesis unfolding polyfun_def
    by (intro exI[of _ "map ((*) c) as"]) (simp add: ieval_scale)
qed

lemma polyfun_zero: "polyfun k (\<lambda>x. 0)"
proof -
  have "ieval (replicate k 0) x = 0" for x by (induction k) simp_all
  then show ?thesis unfolding polyfun_def by (intro exI[of _ "replicate k 0"]) simp
qed

lemma polyfun_const: "0 < k \<Longrightarrow> polyfun k (\<lambda>x. c)"
proof -
  assume "0 < k"
  have "ieval (replicate n 0) x = 0" for n x by (induction n) simp_all
  with \<open>0 < k\<close> show ?thesis unfolding polyfun_def
    by (intro exI[of _ "c # replicate (k - 1) 0"]) simp
qed

lemma polyfun_linear: "polyfun k f \<Longrightarrow> polyfun (Suc k) (\<lambda>x. f x * (x - a))"
proof -
  assume "polyfun k f"
  then obtain as where as: "length as = k" "\<And>x. f x = ieval as x" by (auto simp: polyfun_def)
  have "ieval (map2 (+) (0 # as) (map ((*) (- a)) (as @ [0]))) x = f x * (x - a)" for x
    using as by (simp add: ieval_add ieval_scale ieval_snoc0 algebra_simps del: ieval.simps map_append)
      (simp add: algebra_simps)
  with as(1) show ?thesis unfolding polyfun_def
    by (intro exI[of _ "map2 (+) (0 # as) (map ((*) (- a)) (as @ [0]))"]) simp
qed

text \<open>Dividing by \<open>x - r\<close>.\<close>

lemma synthetic_division:
  "\<exists>qs. length qs = length cs - 1 \<and> (\<forall>x. ieval cs x - ieval cs r = (x - r) * ieval qs x)"
proof (induction cs)
  case Nil
  then show ?case by simp
next
  case (Cons c cs)
  then obtain qs where qs: "length qs = length cs - 1"
    "\<And>x. ieval cs x - ieval cs r = (x - r) * ieval qs x" by blast
  show ?case
  proof (cases cs)
    case Nil
    then show ?thesis by simp
  next
    case (Cons d ds)
    let ?q = "map2 (+) cs (map ((*) r) (qs @ [0]))"
    have len: "length cs = length (map ((*) r) (qs @ [0]))" using qs(1) Cons by simp
    have "ieval (c # cs) x - ieval (c # cs) r = (x - r) * ieval ?q x" for x
    proof -
      have "ieval ?q x = ieval cs x + r * ieval qs x"
        by (simp only: ieval_add[OF len] ieval_scale ieval_snoc0)
      then have "(x - r) * ieval ?q x = (x - r) * ieval cs x + r * ((x - r) * ieval qs x)"
        by (simp only: distrib_left mult.left_commute)
      also have "\<dots> = (x - r) * ieval cs x + r * (ieval cs x - ieval cs r)" by (simp only: qs(2))
      also have "\<dots> = ieval (c # cs) x - ieval (c # cs) r" by (simp add: algebra_simps)
      finally show ?thesis by simp
    qed
    moreover have "length ?q = length cs" using len by simp
    ultimately show ?thesis by (intro exI[of _ ?q]) simp
  qed
qed

text \<open>A polynomial with as many roots modulo \<open>p\<close> as coefficients vanishes modulo \<open>p\<close>.\<close>

lemma too_many_roots:
  assumes "is_prime p" "finite R" "card R = length cs"
    "\<forall>r\<in>R. p dvd ieval cs r" "\<forall>r\<in>R. \<forall>s\<in>R. p dvd r - s \<longrightarrow> r = s"
  shows "p dvd ieval cs x"
  using assms(2-)
proof (induction "length cs" arbitrary: cs R x)
  case 0
  then show ?case by simp
next
  case (Suc n)
  then obtain r where r: "r \<in> R" by fastforce
  obtain qs where qs: "length qs = length cs - 1" "\<And>x. ieval cs x - ieval cs r = (x - r) * ieval qs x"
    using synthetic_division by blast
  have "p dvd ieval qs s" if s: "s \<in> R - {r}" for s
  proof -
    have "p dvd (s - r) * ieval qs s" using Suc.prems(3) s r qs(2)[of s] by (metis DiffD1 dvd_diff)
    moreover have "\<not> p dvd s - r" using Suc.prems(4) s r by blast
    ultimately show ?thesis using prime_dvd_mult[OF assms(1)] by blast
  qed
  then have "p dvd ieval qs x"
    using Suc.prems(1,2,4) Suc.hyps(2) qs(1) r by (intro Suc.hyps(1)[of qs "R - {r}"]) auto
  then have "p dvd ieval cs x - ieval cs r" by (simp add: qs(2))
  then show ?case using Suc.prems(3) r by (metis dvd_add diff_add_cancel)
qed

lemma polyfun_too_many_roots:
  assumes "is_prime p" "finite R" "card R = k" "polyfun k f"
    "\<forall>r\<in>R. p dvd f r" "\<forall>r\<in>R. \<forall>s\<in>R. p dvd r - s \<longrightarrow> r = s"
  shows "p dvd f x"
  using assms too_many_roots unfolding polyfun_def by metis

lemma polyfun_agree:
  assumes "is_prime p" "finite R" "card R = k" "polyfun k f" "polyfun k g"
    "\<forall>r\<in>R. f r mod p = g r mod p" "\<forall>r\<in>R. \<forall>s\<in>R. p dvd r - s \<longrightarrow> r = s"
  shows "f x mod p = g x mod p"
proof -
  have "polyfun k (\<lambda>x. f x + (-1) * g x)" by (intro polyfun_add polyfun_scale assms)
  moreover have "\<forall>r\<in>R. p dvd f r + (-1) * g r" using assms(6) by (simp add: mod_eq_dvd_iff)
  ultimately have "p dvd f x + (-1) * g x"
    using polyfun_too_many_roots[OF assms(1-3)] assms(7) by blast
  then show ?thesis by (simp add: mod_eq_dvd_iff)
qed

text \<open>The quotient keeps the leading coefficient, so as many roots as coefficients kill it.\<close>

lemma synthetic_division_last:
  "2 \<le> length cs \<Longrightarrow>
   \<exists>qs. length qs = length cs - 1 \<and> last qs = last cs \<and>
     (\<forall>x. ieval cs x - ieval cs r = (x - r) * ieval qs x)"
proof (induction cs)
  case Nil
  then show ?case by simp
next
  case (Cons c cs)
  show ?case
  proof (cases "length cs = 1")
    case True
    then obtain d where "cs = [d]" by (auto simp: length_Suc_conv)
    then show ?thesis by (intro exI[of _ "[d]"]) (simp add: algebra_simps)
  next
    case False
    with Cons.prems have two: "2 \<le> length cs" by simp
    then obtain qs where qs: "length qs = length cs - 1" "last qs = last cs"
      "\<And>x. ieval cs x - ieval cs r = (x - r) * ieval qs x" using Cons.IH by blast
    let ?q = "map2 (+) cs (map ((*) r) (qs @ [0]))"
    have len: "length cs = length (map ((*) r) (qs @ [0]))" using qs(1) two by simp
    have "ieval (c # cs) x - ieval (c # cs) r = (x - r) * ieval ?q x" for x
    proof -
      have "ieval ?q x = ieval cs x + r * ieval qs x"
        by (simp only: ieval_add[OF len] ieval_scale ieval_snoc0)
      then have "(x - r) * ieval ?q x = (x - r) * ieval cs x + r * ((x - r) * ieval qs x)"
        by (simp only: distrib_left mult.left_commute)
      also have "\<dots> = (x - r) * ieval cs x + r * (ieval cs x - ieval cs r)" by (simp only: qs(3))
      also have "\<dots> = ieval (c # cs) x - ieval (c # cs) r" by (simp add: algebra_simps)
      finally show ?thesis by simp
    qed
    moreover have "last ?q = last (c # cs)"
    proof -
      obtain bs b where "cs = bs @ [b]" using two by (cases cs rule: rev_cases) auto
      then show ?thesis using len by simp
    qed
    moreover have "length ?q = length cs" using len by simp
    ultimately show ?thesis by (intro exI[of _ ?q]) simp
  qed
qed

lemma too_many_roots_last:
  assumes "is_prime p" "finite R" "card R = length cs" "cs \<noteq> []"
    "\<forall>r\<in>R. p dvd ieval cs r" "\<forall>r\<in>R. \<forall>s\<in>R. p dvd r - s \<longrightarrow> r = s"
  shows "p dvd last cs"
  using assms(2-)
proof (induction "length cs" arbitrary: cs R)
  case 0
  then show ?case by simp
next
  case (Suc n)
  then obtain r where r: "r \<in> R" by fastforce
  show ?case
  proof (cases "n = 0")
    case True
    with Suc.hyps(2) obtain c where "cs = [c]" by (metis length_0_conv length_Suc_conv)
    then show ?thesis using Suc.prems(4) r by auto
  next
    case False
    then have two: "2 \<le> length cs" using Suc.hyps(2) by simp
    obtain qs where qs: "length qs = length cs - 1" "last qs = last cs"
      "\<And>x. ieval cs x - ieval cs r = (x - r) * ieval qs x"
      using synthetic_division_last[OF two] by blast
    have "p dvd ieval qs s" if s: "s \<in> R - {r}" for s
    proof -
      have "p dvd (s - r) * ieval qs s" using Suc.prems(4) s r qs(3)[of s] by (metis DiffD1 dvd_diff)
      moreover have "\<not> p dvd s - r" using Suc.prems(5) s r by blast
      ultimately show ?thesis using prime_dvd_mult[OF assms(1)] by blast
    qed
    moreover have "qs \<noteq> []" using qs(1) two by auto
    ultimately have "p dvd last qs"
      using Suc.prems(1,2,5) Suc.hyps(2) qs(1) r by (intro Suc.hyps(1)[of qs "R - {r}"]) auto
    then show ?thesis by (simp add: qs(2))
  qed
qed

text \<open>The monic polynomial with given roots.\<close>

lemma monic_with_roots:
  "\<exists>cs. length cs = Suc (length rs) \<and> last cs = 1 \<and> (\<forall>x. ieval cs x = prod_list (map (\<lambda>r. x - r) rs))"
proof (induction rs)
  case Nil
  show ?case by (intro exI[of _ "[1]"]) simp
next
  case (Cons r rs)
  then obtain cs where cs: "length cs = Suc (length rs)" "last cs = 1"
    "\<And>x. ieval cs x = prod_list (map (\<lambda>r. x - r) rs)" by blast
  let ?q = "map2 (+) (0 # cs) (map ((*) (- r)) (cs @ [0]))"
  have len: "length (0 # cs) = length (map ((*) (- r)) (cs @ [0]))" by simp
  have "ieval ?q x = (x - r) * ieval cs x" for x
    by (simp only: ieval_add[OF len] ieval_scale ieval_snoc0) (simp add: algebra_simps)
  moreover have "last ?q = 1"
  proof -
    obtain bs b where "cs = bs @ [b]" using cs(1) by (cases cs rule: rev_cases) auto
    then have "?q = map2 (+) (0 # bs) (map ((*) (- r)) (bs @ [b])) @ [b + 0]"
      using zip_append[of "0 # bs" "map ((*) (- r)) (bs @ [b])" "[b]" "[0]"] by simp
    then show ?thesis using cs(2) \<open>cs = bs @ [b]\<close> by (metis add_0_right last_snoc)
  qed
  ultimately show ?case using cs(1,3) by (intro exI[of _ ?q]) simp
qed

section \<open>Fermat's little theorem\<close>

lemma prime_dvd_prod:
  "is_prime p \<Longrightarrow> finite A \<Longrightarrow> p dvd prod f A \<Longrightarrow> \<exists>a\<in>A. p dvd f a"
proof (induction A rule: infinite_finite_induct)
  case (insert x F)
  then show ?case using prime_dvd_mult[of p "f x" "prod f F"] by auto
qed (use is_prime_ge2 in fastforce)+

lemma small_not_dvd: "0 < (i::int) \<Longrightarrow> i < p \<Longrightarrow> \<not> p dvd i"
  using zdvd_imp_le by fastforce

theorem fermat_little:
  assumes p: "is_prime p" and a: "\<not> p dvd a"
  shows "a ^ nat (p - 1) mod p = 1"
proof -
  note p2 = is_prime_ge2[OF p]
  let ?f = "\<lambda>i. (a * i) mod p" and ?A = "{1..<p}"
  have nz: "i \<in> ?A \<Longrightarrow> ?f i \<in> ?A" for i
  proof -
    assume i: "i \<in> ?A"
    then have "\<not> p dvd a * i" using prime_dvd_mult[OF p] a small_not_dvd[of i p] by auto
    then have "?f i \<noteq> 0" by (simp add: dvd_eq_mod_eq_0)
    then have "0 < ?f i" "?f i < p"
      using p2 pos_mod_bound[of p "a * i"] pos_mod_sign[of p "a * i"] by linarith+
    then show "?f i \<in> ?A" by simp
  qed
  have "inj_on ?f ?A"
  proof (rule inj_onI)
    fix i j assume ij: "i \<in> ?A" "j \<in> ?A" "?f i = ?f j"
    then have "p dvd a * i - a * j" by (simp add: mod_eq_dvd_iff)
    then have "p dvd a * (i - j)" by (simp add: right_diff_distrib)
    then have d: "p dvd i - j" using prime_dvd_mult[OF p] a by blast
    show "i = j"
    proof (rule ccontr)
      assume "i \<noteq> j"
      then have "\<bar>p\<bar> \<le> \<bar>i - j\<bar>" using d by (intro dvd_imp_le_int) auto
      then show False using ij(1,2) by auto
    qed
  qed
  then have img: "?f ` ?A = ?A" using nz by (intro endo_inj_surj) auto
  have "prod (\<lambda>i. i) ?A = prod (\<lambda>i. i) (?f ` ?A)" by (simp only: img)
  also have "\<dots> = prod ?f ?A" using \<open>inj_on ?f ?A\<close> by (simp add: prod.reindex)
  finally have "prod (\<lambda>i. i) ?A mod p = prod (\<lambda>i. a * i) ?A mod p" by (simp add: mod_prod_eq)
  also have "prod (\<lambda>i. a * i) ?A = a ^ nat (p - 1) * prod (\<lambda>i. i) ?A"
    using p2 by (simp add: prod.distrib)
  finally have "p dvd a ^ nat (p - 1) * prod (\<lambda>i. i) ?A - prod (\<lambda>i. i) ?A"
    by (simp add: mod_eq_dvd_iff dvd_diff_commute)
  then have "p dvd (a ^ nat (p - 1) - 1) * prod (\<lambda>i. i) ?A" by (simp add: left_diff_distrib)
  moreover have "\<not> p dvd prod (\<lambda>i. i) ?A"
    using prime_dvd_prod[OF p, of ?A "\<lambda>i. i"] small_not_dvd by auto
  ultimately have "p dvd a ^ nat (p - 1) - 1" using prime_dvd_mult[OF p] by blast
  then show ?thesis using p2 mod_eq_dvd_iff[of "a ^ nat (p - 1)" p 1] by simp
qed

lemma square_root_of_one:
  assumes "is_prime p" "x\<^sup>2 mod p = 1"
  shows "x mod p = 1 \<or> x mod p = p - 1"
proof -
  note p2 = is_prime_ge2[OF assms(1)]
  have "p dvd x\<^sup>2 - 1" using assms(2) p2 mod_eq_dvd_iff[of "x\<^sup>2" p 1] by simp
  moreover have "x\<^sup>2 - 1 = (x - 1) * (x + 1)" by (simp add: power2_eq_square algebra_simps)
  ultimately have "p dvd x - 1 \<or> p dvd x + 1"
    using prime_dvd_mult[OF assms(1), of "x - 1" "x + 1"] by simp
  moreover have "p dvd x - (p - 1)" if "p dvd x + 1"
    using dvd_diff[OF that dvd_refl] by (simp add: algebra_simps)
  ultimately have "p dvd x - 1 \<or> p dvd x - (p - 1)" by blast
  then have "x mod p = 1 mod p \<or> x mod p = (p - 1) mod p" by (simp only: mod_eq_dvd_iff)
  moreover have "1 mod p = 1" using p2 by simp
  moreover have "(p - 1) mod p = p - 1"
    by (rule mod_pos_pos_trivial) (use p2 in auto)
  ultimately show ?thesis by simp
qed

end
