(* ===== verification/Shamir.thy ===== *)
theory Shamir
  imports Prime_Field "HOL-Library.Word"
begin

text \<open>
  Model of \<open>skills/shamir-secret-sharing-for-key-backup/scripts/
  shamir_secret_sharing_for_key_backup.py\<close>: an engine over \<open>GF(p)\<close> that splits a secret into
  \<open>n\<close> points of a random polynomial of degree \<open>k - 1\<close> and rebuilds it by Lagrange
  interpolation at zero.

  \<^item> An engine is its modulus, the only state it keeps.
  \<^item> The operating system's generator (\<open>secrets.randbelow\<close>) is a parameter \<open>rnd\<close>: the \<open>i\<close>-th
    number drawn in the call. Its documented range is a hypothesis where a property needs it.
  \<^item> Bytes are \<open>8 word\<close>s. The logging calls are left out; the \<open>isinstance\<close> checks are
    discharged by HOL's typing.
\<close>

section \<open>Data model\<close>

definition MERSENNE_M127 :: int where "MERSENNE_M127 = 2 ^ 127 - 1"
definition MERSENNE_M521 :: int where "MERSENNE_M521 = 2 ^ 521 - 1"
definition PRIME_FIELD_MODULUS :: int where "PRIME_FIELD_MODULUS = MERSENNE_M521"

definition known_prime_moduli :: "int list" where
  "known_prime_moduli = [MERSENNE_M127, MERSENNE_M521]"

definition MIN_THRESHOLD :: int where "MIN_THRESHOLD = 2"
definition LENGTH_TAG :: "8 word" where "LENGTH_TAG = 1"
definition PRIMALITY_ROUNDS :: nat where "PRIMALITY_ROUNDS = 32"

datatype share_error =
    Modulus_Too_Small | Modulus_Not_Prime | Not_Invertible
  | No_Shares | Index_Out_Of_Range | Share_Outside_Field | Foreign_Field | Duplicate_Index
  | Conflicting_Thresholds | Threshold_Too_Small | Threshold_Above_Total | Too_Many_Shares
  | Secret_Out_Of_Range | Secret_Empty | Secret_Too_Long
  | Insufficient_Shares | Inconsistent_Shares | Threshold_Unknown | Bad_Threshold
  | No_Surplus_Share | Missing_Tag

record secret_share =
  share_index :: int
  share_value :: int
  share_threshold :: "int option"
  share_modulus :: "int option"

record sss_result =
  sss_threshold :: int
  sss_total :: int
  sss_shares :: "secret_share list"
  sss_modulus :: int
  sss_length :: "nat option"

section \<open>Primality test and engine construction\<close>

definition small_primes :: "int list" where
  "small_primes = [2, 3, 5, 7, 11, 13, 17, 19, 23, 29, 31, 37]"

text \<open>The loop over the small primes: \<open>Some\<close> the early return, or \<open>None\<close> to go on.\<close>

fun trial_division :: "int list \<Rightarrow> int \<Rightarrow> bool option" where
  "trial_division [] n = None"
| "trial_division (q # qs) n =
     (if n = q then Some True else if n mod q = 0 then Some False else trial_division qs n)"

text \<open>\<open>while d % 2 == 0\<close>: the odd part and the number of halvings.\<close>

function odd_part :: "int \<Rightarrow> nat \<Rightarrow> int \<times> nat" where
  "odd_part d r = (if d mod 2 = 0 \<and> 0 < d then odd_part (d div 2) (r + 1) else (d, r))"
  by pat_completeness auto
termination by (relation "measure (\<lambda>(d, r). nat d)") auto

declare odd_part.simps [simp del]

definition py_pow_mod :: "int \<Rightarrow> int \<Rightarrow> int \<Rightarrow> int" where
  "py_pow_mod a d n = a ^ nat d mod n"

text \<open>The inner \<open>for ... else\<close>: whether one of the squarings reaches \<open>n - 1\<close>.\<close>

fun squarings_reach :: "nat \<Rightarrow> int \<Rightarrow> int \<Rightarrow> bool" where
  "squarings_reach 0 x n = False"
| "squarings_reach (Suc i) x n =
     (let x' = py_pow_mod x 2 n in if x' = n - 1 then True else squarings_reach i x' n)"

definition round_passes :: "int \<Rightarrow> int \<Rightarrow> nat \<Rightarrow> int \<Rightarrow> bool" where
  "round_passes n d r a =
     (let x = py_pow_mod a d n in
      if x = 1 \<or> x = n - 1 then True else squarings_reach (r - 1) x n)"

definition is_probable_prime :: "(nat \<Rightarrow> int) \<Rightarrow> int \<Rightarrow> nat \<Rightarrow> bool" where
  "is_probable_prime rnd n rounds =
     (if n < 2 then False
      else case trial_division small_primes n of
        Some b \<Rightarrow> b
      | None \<Rightarrow>
         (let (d, r) = odd_part (n - 1) 0
          in list_all (\<lambda>i. round_passes n d r (2 + rnd i)) [0..<rounds]))"

definition make_engine :: "(nat \<Rightarrow> int) \<Rightarrow> int \<Rightarrow> share_error + int" where
  "make_engine rnd modulus =
     (if modulus < 5 then Inl Modulus_Too_Small
      else if modulus \<notin> set known_prime_moduli \<and> \<not> is_probable_prime rnd modulus PRIMALITY_ROUNDS
        then Inl Modulus_Not_Prime
      else Inr modulus)"

definition max_secret_int :: "int \<Rightarrow> int" where
  "max_secret_int p = p - 1"

definition max_secret_bytes :: "int \<Rightarrow> int" where
  "max_secret_bytes p = (int (bit_length p) - 2) div 8"

section \<open>Polynomial evaluation and interpolation\<close>

definition eval_poly :: "int \<Rightarrow> int list \<Rightarrow> int \<Rightarrow> int" where
  "eval_poly p poly x = fold (\<lambda>coeff result. (result * x + coeff) mod p) (rev poly) 0"

definition mod_inverse :: "int \<Rightarrow> int \<Rightarrow> share_error + int" where
  "mod_inverse p a = (case py_inverse a p of None \<Rightarrow> Inl Not_Invertible | Some x \<Rightarrow> Inr x)"

text \<open>The loop over \<open>m\<close>: numerator and denominator of the \<open>j\<close>-th basis polynomial.\<close>

fun basis_loop :: "int \<Rightarrow> int list \<Rightarrow> int \<Rightarrow> nat \<Rightarrow> int \<Rightarrow> nat \<Rightarrow> int \<times> int \<Rightarrow> int \<times> int" where
  "basis_loop p [] x_target j x_j m (num, den) = (num, den)"
| "basis_loop p (x_m # xs) x_target j x_j m (num, den) =
     (if m = j then basis_loop p xs x_target j x_j (Suc m) (num, den)
      else basis_loop p xs x_target j x_j (Suc m)
        ((num * (x_target - x_m)) mod p, (den * (x_j - x_m)) mod p))"

text \<open>The loop over \<open>j\<close>; an inverse that does not exist raises.\<close>

fun interpolate_loop ::
    "int \<Rightarrow> secret_share list \<Rightarrow> int \<Rightarrow> nat \<Rightarrow> secret_share list \<Rightarrow> int \<Rightarrow> share_error + int" where
  "interpolate_loop p shares x_target j [] acc = Inr acc"
| "interpolate_loop p shares x_target j (s # ss) acc =
     (let x_j = share_index s; y_j = share_value s;
          (num, den) = basis_loop p (map share_index shares) x_target j x_j 0 (1, 1)
      in case mod_inverse p den of
           Inl e \<Rightarrow> Inl e
         | Inr den_inv \<Rightarrow>
             (let basis = (num * den_inv) mod p
              in interpolate_loop p shares x_target (Suc j) ss ((acc + y_j * basis) mod p)))"

definition interpolate_at :: "int \<Rightarrow> secret_share list \<Rightarrow> int \<Rightarrow> share_error + int" where
  "interpolate_at p shares x_target = interpolate_loop p shares x_target 0 shares 0"

section \<open>Validation\<close>

fun validate_loop :: "int \<Rightarrow> int list \<Rightarrow> secret_share list \<Rightarrow> share_error option" where
  "validate_loop p seen [] = None"
| "validate_loop p seen (s # ss) =
     (if \<not> (1 \<le> share_index s \<and> share_index s < p) then Some Index_Out_Of_Range
      else if \<not> (0 \<le> share_value s \<and> share_value s < p) then Some Share_Outside_Field
      else if share_modulus s \<noteq> None \<and> share_modulus s \<noteq> Some p then Some Foreign_Field
      else if share_index s \<in> set seen then Some Duplicate_Index
      else validate_loop p (share_index s # seen) ss)"

definition validate_shares :: "int \<Rightarrow> secret_share list \<Rightarrow> share_error + secret_share list" where
  "validate_shares p shares =
     (if shares = [] then Inl No_Shares
      else case validate_loop p [] shares of Some e \<Rightarrow> Inl e | None \<Rightarrow> Inr shares)"

text \<open>The set of declared thresholds, kept without duplicates in first-seen order.\<close>

definition declared_thresholds :: "secret_share list \<Rightarrow> int list" where
  "declared_thresholds shares = remdups (List.map_filter share_threshold shares)"

definition resolve_threshold :: "secret_share list \<Rightarrow> share_error + int option" where
  "resolve_threshold shares =
     (case declared_thresholds shares of
        [] \<Rightarrow> Inr None
      | [k] \<Rightarrow> Inr (Some k)
      | _ \<Rightarrow> Inl Conflicting_Thresholds)"

section \<open>Splitting\<close>

text \<open>
  \<open>while coefficients[-1] == 0\<close>: redraw until the leading coefficient is not zero. The loop
  returns only if the generator eventually yields a non-zero number.
\<close>

partial_function (option) resample :: "(nat \<Rightarrow> int) \<Rightarrow> nat \<Rightarrow> int \<Rightarrow> int option" where
  "resample rnd i c = (if c = 0 then resample rnd (i + 1) (rnd i) else Some c)"

declare resample.simps [code]

definition draw_coefficients :: "(nat \<Rightarrow> int) \<Rightarrow> int \<Rightarrow> nat \<Rightarrow> int list option" where
  "draw_coefficients rnd secret k =
     (let coefficients = secret # map rnd [0..<k - 1]
      in case resample rnd (k - 1) (last coefficients) of
           None \<Rightarrow> None
         | Some c \<Rightarrow> Some (butlast coefficients @ [c]))"

definition make_share :: "int \<Rightarrow> int \<Rightarrow> int list \<Rightarrow> int \<Rightarrow> secret_share" where
  "make_share p k coefficients x =
     \<lparr>share_index = x, share_value = eval_poly p coefficients x,
      share_threshold = Some k, share_modulus = Some p\<rparr>"

text \<open>\<open>None\<close> is a call that does not return; \<open>Some (Inl e)\<close> one that raises.\<close>

definition split_secret ::
    "(nat \<Rightarrow> int) \<Rightarrow> int \<Rightarrow> int \<Rightarrow> int \<Rightarrow> int \<Rightarrow> (share_error + sss_result) option" where
  "split_secret rnd p secret k n =
     (if k < MIN_THRESHOLD then Some (Inl Threshold_Too_Small)
      else if k > n then Some (Inl Threshold_Above_Total)
      else if n \<ge> p then Some (Inl Too_Many_Shares)
      else if \<not> (0 \<le> secret \<and> secret \<le> max_secret_int p) then Some (Inl Secret_Out_Of_Range)
      else case draw_coefficients rnd secret (nat k) of
        None \<Rightarrow> None
      | Some coefficients \<Rightarrow>
          Some (Inr \<lparr>sss_threshold = k, sss_total = n,
                     sss_shares = map (make_share p k coefficients) [1..n],
                     sss_modulus = p, sss_length = None\<rparr>))"

definition from_bytes_be :: "8 word list \<Rightarrow> int" where
  "from_bytes_be bs = fold (\<lambda>b acc. acc * 256 + uint b) bs 0"

definition split_secret_bytes ::
    "(nat \<Rightarrow> int) \<Rightarrow> int \<Rightarrow> 8 word list \<Rightarrow> int \<Rightarrow> int \<Rightarrow> (share_error + sss_result) option" where
  "split_secret_bytes rnd p secret k n =
     (if secret = [] then Some (Inl Secret_Empty)
      else if int (length secret) > max_secret_bytes p then Some (Inl Secret_Too_Long)
      else case split_secret rnd p (from_bytes_be (LENGTH_TAG # secret)) k n of
        None \<Rightarrow> None
      | Some (Inl e) \<Rightarrow> Some (Inl e)
      | Some (Inr r) \<Rightarrow> Some (Inr (r\<lparr>sss_length := Some (length secret)\<rparr>)))"

section \<open>Consistency and reconstruction\<close>

fun surplus_agree :: "int \<Rightarrow> secret_share list \<Rightarrow> secret_share list \<Rightarrow> share_error + bool" where
  "surplus_agree p basis [] = Inr True"
| "surplus_agree p basis (extra # es) =
     (case interpolate_at p basis (share_index extra) of
        Inl e \<Rightarrow> Inl e
      | Inr y \<Rightarrow> (if y \<noteq> share_value extra then Inr False else surplus_agree p basis es))"

definition verify_shares_consistent ::
    "int \<Rightarrow> secret_share list \<Rightarrow> int option \<Rightarrow> share_error + bool" where
  "verify_shares_consistent p shares threshold_k =
     (case validate_shares p shares of
        Inl e \<Rightarrow> Inl e
      | Inr validated \<Rightarrow>
          (case (case threshold_k of Some k \<Rightarrow> Inr (Some k) | None \<Rightarrow> resolve_threshold validated) of
             Inl e \<Rightarrow> Inl e
           | Inr None \<Rightarrow> Inl Threshold_Unknown
           | Inr (Some k) \<Rightarrow>
               (if k < MIN_THRESHOLD then Inl Bad_Threshold
                else if int (length validated) \<le> k then Inl No_Surplus_Share
                else surplus_agree p (take (nat k) validated) (drop (nat k) validated))))"

definition reconstruct_secret :: "int \<Rightarrow> secret_share list \<Rightarrow> share_error + int" where
  "reconstruct_secret p shares =
     (case validate_shares p shares of
        Inl e \<Rightarrow> Inl e
      | Inr validated \<Rightarrow>
          (case resolve_threshold validated of
             Inl e \<Rightarrow> Inl e
           | Inr None \<Rightarrow> interpolate_at p validated 0
           | Inr (Some k) \<Rightarrow>
               (if int (length validated) < k then Inl Insufficient_Shares
                else if int (length validated) = k then interpolate_at p (take (nat k) validated) 0
                else case verify_shares_consistent p validated (Some k) of
                  Inl e \<Rightarrow> Inl e
                | Inr ok \<Rightarrow>
                    (if \<not> ok then Inl Inconsistent_Shares
                     else interpolate_at p (take (nat k) validated) 0))))"

definition to_bytes_be :: "int \<Rightarrow> nat \<Rightarrow> 8 word list" where
  "to_bytes_be n len = map (\<lambda>i. word_of_int (n div 256 ^ (len - 1 - i))) [0..<len]"

definition reconstruct_secret_bytes :: "int \<Rightarrow> secret_share list \<Rightarrow> share_error + 8 word list" where
  "reconstruct_secret_bytes p shares =
     (case reconstruct_secret p shares of
        Inl e \<Rightarrow> Inl e
      | Inr n \<Rightarrow>
          (let raw = to_bytes_be n ((bit_length n + 7) div 8)
           in case raw of
                [] \<Rightarrow> Inl Missing_Tag
              | b # bs \<Rightarrow> (if b \<noteq> LENGTH_TAG then Inl Missing_Tag else Inr bs)))"

end
