(* ===== verification/Shamir_Lagrange.thy ===== *)
theory Shamir_Lagrange
  imports Shamir
begin

text \<open>
  What the engine's arithmetic computes: Horner evaluation is evaluation modulo \<open>p\<close>, the
  interpolation loops return the value of the one polynomial of degree below the number of
  shares through all of them, and validation admits exactly the well-formed share lists.
\<close>

section \<open>Evaluation\<close>

lemma eval_poly_ieval: "0 < p \<Longrightarrow> eval_poly p cs x = ieval cs x mod p"
proof (induction cs)
  case Nil
  then show ?case by (simp add: eval_poly_def)
next
  case (Cons c cs)
  have "eval_poly p (c # cs) x = (eval_poly p cs x * x + c) mod p" by (simp add: eval_poly_def)
  also have "\<dots> = ((ieval cs x mod p) * x + c) mod p" using Cons by simp
  also have "\<dots> = (c + x * ieval cs x) mod p"
    by (metis add.commute mod_add_left_eq mod_mult_left_eq mult.commute)
  finally show ?case by simp
qed

section \<open>The basis polynomials\<close>

fun skip_nth :: "nat \<Rightarrow> nat \<Rightarrow> 'a list \<Rightarrow> 'a list" where
  "skip_nth j m [] = []"
| "skip_nth j m (x # xs) = (if m = j then skip_nth j (Suc m) xs else x # skip_nth j (Suc m) xs)"

lemma in_skip_nth: "y \<in> set (skip_nth j m xs) \<longleftrightarrow> (\<exists>i<length xs. m + i \<noteq> j \<and> y = xs ! i)"
  by (induction xs arbitrary: m) (auto simp: Ex_less_Suc2)

lemma set_skip_nth: "set (skip_nth j m xs) = {xs ! i |i. i < length xs \<and> m + i \<noteq> j}"
  by (auto simp: in_skip_nth)

lemma length_skip_nth:
  "length (skip_nth j m xs) = (if m \<le> j \<and> j < m + length xs then length xs - 1 else length xs)"
  by (induction xs arbitrary: m) auto

abbreviation root_prod :: "int list \<Rightarrow> int \<Rightarrow> int" where
  "root_prod rs x \<equiv> prod_list (map (\<lambda>r. x - r) rs)"

lemma polyfun_root_prod: "polyfun (Suc (length rs)) (root_prod rs)"
  using monic_with_roots[of rs] by (auto simp: polyfun_def)

lemma basis_loop_prod:
  "0 < p \<Longrightarrow> num mod p = num \<Longrightarrow> den mod p = den \<Longrightarrow>
   basis_loop p xs xt j xj m (num, den) =
     ((num * root_prod (skip_nth j m xs) xt) mod p, (den * root_prod (skip_nth j m xs) xj) mod p)"
proof (induction xs arbitrary: m num den)
  case (Cons x xs)
  note prems = Cons.prems
  show ?case
  proof (cases "m = j")
    case True
    then show ?thesis using Cons.IH[OF prems] by simp
  next
    case False
    then have "basis_loop p (x # xs) xt j xj m (num, den) =
      ((num * (xt - x)) mod p * root_prod (skip_nth j (Suc m) xs) xt mod p,
       (den * (xj - x)) mod p * root_prod (skip_nth j (Suc m) xs) xj mod p)"
      using Cons.IH[OF prems(1), of "(num * (xt - x)) mod p" "(den * (xj - x)) mod p"] by simp
    then show ?thesis using False by (simp add: mod_mult_left_eq mult.assoc)
  qed
qed simp

lemma root_prod_zero: "x \<in> set rs \<Longrightarrow> root_prod rs x = 0"
  by (induction rs) auto

lemma root_prod_nonzero:
  "is_prime p \<Longrightarrow> \<forall>r\<in>set rs. \<not> p dvd x - r \<Longrightarrow> \<not> p dvd root_prod rs x"
proof (induction rs)
  case Nil
  then show ?case using is_prime_ge2[of p] zdvd_imp_le[of p 1] by auto
next
  case (Cons r rs)
  then show ?case using prime_dvd_mult[of p "x - r" "root_prod rs x"] by auto
qed

section \<open>Interpolation\<close>

text \<open>Distinct field elements, as share indices have to be.\<close>

definition spread :: "int \<Rightarrow> int list \<Rightarrow> bool" where
  "spread p xs \<longleftrightarrow> (\<forall>i<length xs. \<forall>j<length xs. p dvd xs ! i - xs ! j \<longrightarrow> i = j)"

lemma spread_range: "distinct xs \<Longrightarrow> \<forall>x\<in>set xs. 0 \<le> x \<and> x < p \<Longrightarrow> spread p xs"
proof -
  assume d: "distinct xs" and r: "\<forall>x\<in>set xs. 0 \<le> x \<and> x < p"
  have "i = j" if "i < length xs" "j < length xs" "p dvd xs ! i - xs ! j" for i j
  proof -
    have "0 \<le> xs ! i" "xs ! i < p" "0 \<le> xs ! j" "xs ! j < p" using r that(1,2) by simp_all
    then have "xs ! i = xs ! j" using that(3) by (metis mod_eq_dvd_iff mod_pos_pos_trivial)
    then show ?thesis using d that(1,2) by (simp add: nth_eq_iff_index_eq)
  qed
  then show ?thesis by (auto simp: spread_def)
qed

lemma spread_skip:
  "spread p xs \<Longrightarrow> j < length xs \<Longrightarrow> \<forall>r\<in>set (skip_nth j 0 xs). \<not> p dvd xs ! j - r"
  by (auto simp: set_skip_nth spread_def)

definition basis_inverse :: "int \<Rightarrow> int list \<Rightarrow> nat \<Rightarrow> int" where
  "basis_inverse p xs j = (case py_inverse (root_prod (skip_nth j 0 xs) (xs ! j)) p of Some v \<Rightarrow> v | None \<Rightarrow> 0)"

definition lagrange :: "int \<Rightarrow> secret_share list \<Rightarrow> nat \<Rightarrow> int \<Rightarrow> int" where
  "lagrange p ss j x =
     share_value (ss ! j) *
       (basis_inverse p (map share_index ss) j * root_prod (skip_nth j 0 (map share_index ss)) x)"

lemma mod_inverse_basis:
  assumes "is_prime p" "spread p xs" "j < length xs"
  shows "mod_inverse p (root_prod (skip_nth j 0 xs) (xs ! j) mod p) = Inr (basis_inverse p xs j)"
    "(root_prod (skip_nth j 0 xs) (xs ! j) * basis_inverse p xs j) mod p = 1 mod p"
proof -
  let ?d = "root_prod (skip_nth j 0 xs) (xs ! j)"
  have "\<not> p dvd ?d" by (rule root_prod_nonzero[OF assms(1) spread_skip[OF assms(2,3)]])
  then obtain v where v: "py_inverse ?d p = Some v" using py_inverse_total[OF assms(1)] by blast
  have "py_inverse (?d mod p) p = py_inverse ?d p" by (simp add: py_inverse_def)
  then show "mod_inverse p (?d mod p) = Inr (basis_inverse p xs j)"
    by (simp add: mod_inverse_def basis_inverse_def v)
  show "(?d * basis_inverse p xs j) mod p = 1 mod p"
    using py_inverse_Some(3)[OF _ v] is_prime_ge2[OF assms(1)] by (simp add: basis_inverse_def v)
qed

lemma interpolate_loop_sum:
  assumes p: "is_prime p" and sp: "spread p (map share_index ss)"
  shows "ss = pre @ post \<Longrightarrow> acc mod p = acc \<Longrightarrow>
    interpolate_loop p ss x (length pre) post acc =
      Inr ((acc + (\<Sum>j\<in>{length pre..<length ss}. lagrange p ss j x)) mod p)"
proof (induction post arbitrary: pre acc)
  case (Cons s post)
  let ?xs = "map share_index ss" and ?j = "length pre"
  have j: "?j < length ss" "ss ! ?j = s" using Cons.prems by auto
  then have xj: "?xs ! ?j = share_index s" by simp
  note p2 = is_prime_ge2[OF p]
  have b: "basis_loop p ?xs x ?j (share_index s) 0 (1, 1) =
    (root_prod (skip_nth ?j 0 ?xs) x mod p, root_prod (skip_nth ?j 0 ?xs) (?xs ! ?j) mod p)"
    using p2 by (simp only: xj) (simp add: basis_loop_prod)
  have inv: "mod_inverse p (root_prod (skip_nth ?j 0 ?xs) (?xs ! ?j) mod p) = Inr (basis_inverse p ?xs ?j)"
    by (rule mod_inverse_basis(1)[OF p sp]) (use j in simp)
  let ?acc = "(acc + share_value s *
    ((root_prod (skip_nth ?j 0 ?xs) x mod p * basis_inverse p ?xs ?j) mod p)) mod p"
  have acc: "?acc = (acc + lagrange p ss ?j x) mod p"
  proof -
    let ?b = "root_prod (skip_nth ?j 0 ?xs) x * basis_inverse p ?xs ?j"
    have "?acc = (acc + share_value s * (?b mod p)) mod p" by (simp only: mod_mult_left_eq)
    also have "\<dots> = (acc + share_value s * ?b) mod p" by (metis mod_add_right_eq mod_mult_right_eq)
    finally show ?thesis by (simp add: lagrange_def j(2) mult.commute)
  qed
  have "interpolate_loop p ss x ?j (s # post) acc = interpolate_loop p ss x (length (pre @ [s])) post ?acc"
    by (simp add: b inv del: map_map)
  also have "\<dots> = Inr ((?acc + (\<Sum>j\<in>{Suc ?j..<length ss}. lagrange p ss j x)) mod p)"
    using Cons.IH[of "pre @ [s]" ?acc] Cons.prems(1) by simp
  also have "\<dots> = Inr ((acc + lagrange p ss ?j x + (\<Sum>j\<in>{Suc ?j..<length ss}. lagrange p ss j x)) mod p)"
    by (simp only: acc mod_add_left_eq)
  also have "lagrange p ss ?j x + (\<Sum>j\<in>{Suc ?j..<length ss}. lagrange p ss j x) =
      (\<Sum>j\<in>{?j..<length ss}. lagrange p ss j x)"
    using j(1) by (simp add: sum.atLeast_Suc_lessThan)
  then have "acc + lagrange p ss ?j x + (\<Sum>j\<in>{Suc ?j..<length ss}. lagrange p ss j x) =
      acc + (\<Sum>j\<in>{?j..<length ss}. lagrange p ss j x)" by simp
  finally show ?case .
qed simp

lemma polyfun_sum:
  "finite A \<Longrightarrow> \<forall>j\<in>A. polyfun k (f j) \<Longrightarrow> polyfun k (\<lambda>x. \<Sum>j\<in>A. f j x)"
  by (induction A rule: finite_induct) (simp_all add: polyfun_zero polyfun_add)

lemma polyfun_lagrange: "j < length ss \<Longrightarrow> polyfun (length ss) (lagrange p ss j)"
proof -
  assume j: "j < length ss"
  let ?rs = "skip_nth j 0 (map share_index ss)"
  have "Suc (length ?rs) = length ss" using j by (simp add: length_skip_nth)
  then have "polyfun (length ss) (root_prod ?rs)" using polyfun_root_prod[of ?rs] by simp
  then have "polyfun (length ss) (\<lambda>x. share_value (ss ! j) *
      (basis_inverse p (map share_index ss) j * root_prod ?rs x))" by (intro polyfun_scale)
  then show ?thesis by (simp add: lagrange_def[abs_def])
qed

lemma lagrange_at:
  assumes "is_prime p" "spread p (map share_index ss)" "i < length ss" "j < length ss"
  shows "lagrange p ss j (share_index (ss ! i)) mod p = (if i = j then share_value (ss ! j) mod p else 0)"
proof (cases "i = j")
  case True
  let ?xs = "map share_index ss"
  have "lagrange p ss j (share_index (ss ! j)) =
      share_value (ss ! j) * (root_prod (skip_nth j 0 ?xs) (?xs ! j) * basis_inverse p ?xs j)"
    using assms(4) by (simp add: lagrange_def mult.commute)
  also have "\<dots> mod p = (share_value (ss ! j) * (1 mod p)) mod p"
    using mod_inverse_basis(2)[OF assms(1,2), of j] assms(4) by (metis length_map mod_mult_right_eq)
  finally show ?thesis using True by (simp add: mod_mult_right_eq)
next
  case False
  then have "share_index (ss ! i) \<in> set (skip_nth j 0 (map share_index ss))"
    using assms(3) by (force simp: set_skip_nth)
  then show ?thesis using False by (simp add: lagrange_def root_prod_zero)
qed

text \<open>
  The summary the properties rest on: interpolation never raises on distinct points and
  computes one function, a polynomial with as many coefficients as shares, through them all.
\<close>

lemma interpolate_at_spec:
  assumes "is_prime p" "spread p (map share_index ss)"
  obtains f where "polyfun (length ss) f" "\<And>x. interpolate_at p ss x = Inr (f x mod p)"
    "\<And>s. s \<in> set ss \<Longrightarrow> f (share_index s) mod p = share_value s mod p"
proof -
  let ?f = "\<lambda>x. \<Sum>j\<in>{0..<length ss}. lagrange p ss j x"
  have "polyfun (length ss) ?f" by (intro polyfun_sum) (auto intro: polyfun_lagrange)
  moreover have "interpolate_at p ss x = Inr (?f x mod p)" for x
    using interpolate_loop_sum[OF assms, of "[]" ss 0 x] by (simp add: interpolate_at_def)
  moreover have "?f (share_index s) mod p = share_value s mod p" if "s \<in> set ss" for s
  proof -
    from that obtain i where i: "i < length ss" "ss ! i = s" by (auto simp: in_set_conv_nth)
    have "?f (share_index s) mod p = (\<Sum>j\<in>{0..<length ss}. lagrange p ss j (share_index s) mod p) mod p"
      by (rule mod_sum_eq[symmetric])
    also have "(\<Sum>j\<in>{0..<length ss}. lagrange p ss j (share_index s) mod p) =
        (\<Sum>j\<in>{0..<length ss}. if i = j then share_value (ss ! j) mod p else 0)"
      using i lagrange_at[OF assms i(1)] by (intro sum.cong) auto
    also have "\<dots> = share_value s mod p" using i by (simp add: sum.delta)
    finally show ?thesis by simp
  qed
  ultimately show ?thesis by (rule that)
qed

section \<open>Validation\<close>

definition share_wf :: "int \<Rightarrow> secret_share \<Rightarrow> bool" where
  "share_wf p s \<longleftrightarrow> 1 \<le> share_index s \<and> share_index s < p \<and> 0 \<le> share_value s \<and> share_value s < p \<and>
     (share_modulus s = None \<or> share_modulus s = Some p)"

lemma validate_loop_None:
  "validate_loop p seen ss = None \<longleftrightarrow>
     (\<forall>s\<in>set ss. share_wf p s) \<and> distinct (map share_index ss) \<and>
     share_index ` set ss \<inter> set seen = {}"
  by (induction ss arbitrary: seen) (auto simp: share_wf_def)

lemma validate_shares_Inr:
  "validate_shares p ss = Inr vs \<longleftrightarrow>
     vs = ss \<and> ss \<noteq> [] \<and> (\<forall>s\<in>set ss. share_wf p s) \<and> distinct (map share_index ss)"
  using validate_loop_None[of p "[]" ss] by (auto simp: validate_shares_def split: option.splits)

lemma wf_spread:
  "\<forall>s\<in>set ss. share_wf p s \<Longrightarrow> distinct (map share_index ss) \<Longrightarrow> spread p (map share_index ss)"
  by (rule spread_range) (auto simp: share_wf_def)

lemma set_distinct_points:
  assumes "\<forall>s\<in>set ss. share_wf p s" "distinct (map share_index ss)"
  shows "finite (share_index ` set ss)" "card (share_index ` set ss) = length ss"
    "\<forall>r\<in>share_index ` set ss. \<forall>t\<in>share_index ` set ss. p dvd r - t \<longrightarrow> r = t"
proof -
  show "finite (share_index ` set ss)" by simp
  show "card (share_index ` set ss) = length ss"
    using assms(2) by (metis distinct_card length_map list.set_map)
  have "r = t" if "r \<in> share_index ` set ss" "t \<in> share_index ` set ss" "p dvd r - t" for r t
  proof -
    have "0 \<le> r" "r < p" "0 \<le> t" "t < p" using that(1,2) assms(1) by (auto simp: share_wf_def)
    then show "r = t" using that(3) by (metis mod_eq_dvd_iff mod_pos_pos_trivial)
  qed
  then show "\<forall>r\<in>share_index ` set ss. \<forall>t\<in>share_index ` set ss. p dvd r - t \<longrightarrow> r = t" by blast
qed

text \<open>Two polynomials of at most \<open>k\<close> coefficients through \<open>k\<close> shares are the same.\<close>

lemma polyfun_pad: "polyfun k f \<Longrightarrow> k \<le> l \<Longrightarrow> polyfun l f"
proof -
  assume "polyfun k f" "k \<le> l"
  then obtain cs where cs: "length cs = k" "\<And>x. f x = ieval cs x" by (auto simp: polyfun_def)
  have z: "ieval (cs @ replicate n 0) x = ieval cs x" for n x
    by (induction cs) (simp_all, induction n, simp_all)
  show ?thesis unfolding polyfun_def
    by (intro exI[of _ "cs @ replicate (l - k) 0"]) (use cs z \<open>k \<le> l\<close> in simp)
qed

lemma shares_determine:
  assumes "is_prime p" "\<forall>s\<in>set ss. share_wf p s" "distinct (map share_index ss)" "k \<le> length ss"
    "polyfun k f" "polyfun k g"
    "\<forall>s\<in>set ss. f (share_index s) mod p = g (share_index s) mod p"
  shows "f x mod p = g x mod p"
proof -
  note pts = set_distinct_points[OF assms(2,3)]
  have "polyfun (length ss) f" "polyfun (length ss) g" using assms(4-6) by (auto intro: polyfun_pad)
  then show ?thesis
    by (rule polyfun_agree[OF assms(1) pts(1,2) _ _ _ pts(3)]) (use assms(7) in blast)
qed

end
