(* ===== verification/Shamir_Properties.thy ===== *)
theory Shamir_Properties
  imports Shamir_Lagrange
begin

text \<open>
  The properties of the secret-sharing engine: any \<open>k\<close> shares rebuild the secret, fewer are
  refused, a wrong share among a surplus is detected, bytes survive the round trip, what
  \<open>k - 1\<close> shares disclose, when a split raises or returns, and that every prime is accepted.
\<close>

section \<open>What a split hands out\<close>

lemma resample_Some:
  assumes "resample rnd i c = Some y"
  shows "y \<noteq> 0 \<and> (y = c \<or> (\<exists>j. y = rnd j))"
proof (rule resample.raw_induct[where P = "\<lambda>rnd i c y. y \<noteq> 0 \<and> (y = c \<or> (\<exists>j. y = rnd j))", OF _ assms])
  fix res :: "(nat \<Rightarrow> int) \<Rightarrow> nat \<Rightarrow> int \<Rightarrow> int option" and rnd i c y
  assume "\<And>rnd i c y. res rnd i c = Some y \<Longrightarrow> y \<noteq> 0 \<and> (y = c \<or> (\<exists>j. y = rnd j))"
    and "(if c = 0 then res rnd (i + 1) (rnd i) else Some c) = Some y"
  then show "y \<noteq> 0 \<and> (y = c \<or> (\<exists>j. y = rnd j))" by (cases "c = 0") fastforce+
qed

lemma resample_total: "rnd (i + n) \<noteq> 0 \<Longrightarrow> \<exists>y. resample rnd i c = Some y"
proof (induction n arbitrary: i c)
  case 0
  then have "resample rnd (Suc i) (rnd i) = Some (rnd i)" by (subst resample.simps) simp
  then show ?case by (subst resample.simps) simp
next
  case (Suc n)
  then show ?case using Suc.IH[of "i + 1" "rnd i"] by (subst resample.simps) simp
qed

lemma resample_id: "c \<noteq> 0 \<Longrightarrow> resample rnd i c = Some c"
  by (simp add: resample.simps)

lemma draw_coefficients_Some:
  assumes "draw_coefficients rnd secret k = Some cs" "2 \<le> k"
  shows "length cs = k" "ieval cs 0 = secret" "last cs \<noteq> 0" "cs \<noteq> []"
    "\<forall>i. 0 \<le> rnd i \<and> rnd i < p \<Longrightarrow> 0 \<le> last cs \<and> last cs < p"
proof -
  let ?cs = "secret # map rnd [0..<k - 1]"
  obtain c where c: "resample rnd (k - 1) (last ?cs) = Some c" "cs = butlast ?cs @ [c]"
    using assms(1) by (auto simp: draw_coefficients_def Let_def split: option.splits)
  obtain m where k: "k = Suc (Suc m)" using assms(2) by (metis add_2_eq_Suc le_Suc_ex)
  show "length cs = k" "ieval cs 0 = secret" "cs \<noteq> []" using c(2) k by simp_all
  have c': "c \<noteq> 0" "c = last ?cs \<or> (\<exists>j. c = rnd j)" using resample_Some[OF c(1)] by auto
  show "last cs \<noteq> 0" using c'(1) c(2) by simp
  assume "\<forall>i. 0 \<le> rnd i \<and> rnd i < p"
  moreover have "last ?cs = rnd m" using k by simp
  ultimately show "0 \<le> last cs \<and> last cs < p" using c'(2) c(2) by auto
qed

lemma split_secret_Inr:
  assumes "split_secret rnd p secret k n = Some (Inr r)"
  obtains cs where "draw_coefficients rnd secret (nat k) = Some cs" "2 \<le> nat k" "2 \<le> k" "k \<le> n" "n < p"
    "0 \<le> secret" "secret < p" "sss_shares r = map (make_share p k cs) [1..n]"
    "sss_threshold r = k"
proof -
  have g: "\<not> k < MIN_THRESHOLD" "\<not> k > n" "\<not> n \<ge> p" "0 \<le> secret \<and> secret \<le> max_secret_int p"
    using assms by (auto simp: split_secret_def split: if_splits)
  with assms obtain cs where "draw_coefficients rnd secret (nat k) = Some cs"
    "sss_shares r = map (make_share p k cs) [1..n]" "sss_threshold r = k"
    by (auto simp: split_secret_def split: if_splits option.splits)
  with g show ?thesis by (intro that[of cs]) (auto simp: MIN_THRESHOLD_def max_secret_int_def)
qed

lemma split_shares_wf:
  assumes "split_secret rnd p secret k n = Some (Inr r)" "set S \<subseteq> set (sss_shares r)"
  obtains cs where "length cs = nat k" "ieval cs 0 = secret" "last cs \<noteq> 0" "cs \<noteq> []"
    "\<forall>s\<in>set S. share_wf p s" "\<forall>s\<in>set S. share_threshold s = Some k"
    "\<forall>s\<in>set S. ieval cs (share_index s) mod p = share_value s mod p"
    "\<forall>s\<in>set S. share_value s mod p = share_value s"
    "\<forall>i. 0 \<le> rnd i \<and> rnd i < p \<Longrightarrow> 0 \<le> last cs \<and> last cs < p"
    "inj_on share_index (set S)" "0 \<le> secret" "secret < p" "2 \<le> k" "k \<le> n" "n < p"
    "sss_shares r = map (make_share p k cs) [1..n]"
proof -
  obtain cs where cs: "draw_coefficients rnd secret (nat k) = Some cs" "2 \<le> nat k" "2 \<le> k" "k \<le> n" "n < p"
    "0 \<le> secret" "secret < p" "sss_shares r = map (make_share p k cs) [1..n]"
    using split_secret_Inr[OF assms(1)] by blast
  have S: "\<exists>x. 1 \<le> x \<and> x < p \<and> s = make_share p k cs x" if "s \<in> set S" for s
  proof -
    have "s \<in> make_share p k cs ` {1..n}" using that assms(2) cs(8) by auto
    then show ?thesis using cs(5) by auto
  qed
  have p0: "0 < p" using cs(6,7) by simp
  have 1: "\<forall>s\<in>set S. ieval cs (share_index s) mod p = share_value s"
    using S by (fastforce simp: make_share_def eval_poly_ieval[OF p0])
  then have 2: "\<forall>s\<in>set S. share_value s mod p = share_value s" by (metis mod_mod_trivial)
  have 3: "\<forall>s\<in>set S. share_wf p s"
    using S p0 by (fastforce simp: make_share_def eval_poly_ieval[OF p0] share_wf_def)
  have 4: "\<forall>s\<in>set S. share_threshold s = Some k" using S by (fastforce simp: make_share_def)
  have 5: "inj_on share_index (set S)"
    by (rule inj_onI) (metis S make_share_def secret_share.select_convs(1))
  note dc = draw_coefficients_Some[OF cs(1,2)]
  show ?thesis
  proof (rule that[of cs])
    show "length cs = nat k" "ieval cs 0 = secret" "last cs \<noteq> 0" "cs \<noteq> []" by (rule dc)+
    show "\<forall>s\<in>set S. ieval cs (share_index s) mod p = share_value s mod p" using 1 2 by simp
    show "\<forall>i. 0 \<le> rnd i \<and> rnd i < p \<Longrightarrow> 0 \<le> last cs \<and> last cs < p" by (rule dc(5))
  qed (fact 2 3 4 5 cs)+
qed

lemma resolve_uniform:
  "S \<noteq> [] \<Longrightarrow> \<forall>s\<in>set S. share_threshold s = Some k \<Longrightarrow> resolve_threshold S = Inr (Some k)"
proof -
  assume ne: "S \<noteq> []" and all: "\<forall>s\<in>set S. share_threshold s = Some k"
  have "List.map_filter share_threshold S = replicate (length S) k"
    using all by (induction S) (simp_all add: map_filter_simps)
  moreover have "remdups (replicate (Suc m) k) = [k]" for m by (induction m) simp_all
  moreover have "length S = Suc (length S - 1)" using ne by simp
  ultimately have "declared_thresholds S = [k]" unfolding declared_thresholds_def by metis
  then show ?thesis by (simp add: resolve_threshold_def)
qed

section \<open>The consistency check\<close>

lemma surplus_agree_spec:
  assumes "\<And>x. interpolate_at p basis x = Inr (f x mod p)"
  shows "surplus_agree p basis es = Inr (\<forall>s\<in>set es. f (share_index s) mod p = share_value s)"
  by (induction es) (simp_all add: assms)

definition on_polynomial :: "int \<Rightarrow> nat \<Rightarrow> secret_share list \<Rightarrow> bool" where
  "on_polynomial p k ss \<longleftrightarrow>
     (\<exists>cs. length cs = k \<and> (\<forall>s\<in>set ss. ieval cs (share_index s) mod p = share_value s))"

lemma wf_value_mod: "share_wf p s \<Longrightarrow> share_value s mod p = share_value s"
  by (simp add: share_wf_def)

text \<open>The function through the first \<open>k\<close> of a valid share list.\<close>

lemma basis_function:
  assumes "is_prime p" "\<forall>s\<in>set ss. share_wf p s" "distinct (map share_index ss)" "k \<le> length ss"
  obtains f where "polyfun k f" "\<And>x. interpolate_at p (take k ss) x = Inr (f x mod p)"
    "\<forall>s\<in>set (take k ss). f (share_index s) mod p = share_value s"
proof -
  have wf: "\<forall>s\<in>set (take k ss). share_wf p s" using assms(2) by (meson in_set_takeD)
  have "distinct (map share_index (take k ss))" using assms(3) by (simp flip: take_map)
  with wf have "spread p (map share_index (take k ss))" by (rule wf_spread)
  from interpolate_at_spec[OF assms(1) this] obtain f where
    f: "polyfun (length (take k ss)) f" "\<And>x. interpolate_at p (take k ss) x = Inr (f x mod p)"
      "\<And>s. s \<in> set (take k ss) \<Longrightarrow> f (share_index s) mod p = share_value s mod p" by blast
  show ?thesis
    by (rule that[of f]) (use f assms(4) wf wf_value_mod in \<open>auto simp: min_absorb2\<close>)
qed

lemma basis_agrees:
  assumes "is_prime p" "\<forall>s\<in>set ss. share_wf p s" "distinct (map share_index ss)" "k \<le> length ss"
    "polyfun k f" "\<forall>s\<in>set (take k ss). f (share_index s) mod p = share_value s"
    "polyfun k g" "\<forall>s\<in>set (take k ss). g (share_index s) mod p = share_value s"
  shows "f x mod p = g x mod p"
proof (rule shares_determine[OF assms(1), of "take k ss" k f g])
  show "\<forall>s\<in>set (take k ss). share_wf p s" using assms(2) by (meson in_set_takeD)
  show "distinct (map share_index (take k ss))" using assms(3) by (simp flip: take_map)
qed (use assms(4-8) in auto)

lemma surplus_agree_iff:
  assumes "is_prime p" "\<forall>s\<in>set ss. share_wf p s" "distinct (map share_index ss)" "k \<le> length ss"
  shows "surplus_agree p (take k ss) (drop k ss) = Inr (on_polynomial p k ss)"
proof -
  obtain f where f: "polyfun k f" "\<And>x. interpolate_at p (take k ss) x = Inr (f x mod p)"
    "\<forall>s\<in>set (take k ss). f (share_index s) mod p = share_value s"
    using basis_function[OF assms] by blast
  have split_set: "set ss = set (take k ss) \<union> set (drop k ss)"
    by (metis append_take_drop_id set_append)
  have "(\<forall>s\<in>set (drop k ss). f (share_index s) mod p = share_value s) \<longleftrightarrow> on_polynomial p k ss"
  proof
    assume "\<forall>s\<in>set (drop k ss). f (share_index s) mod p = share_value s"
    with f(3) have "\<forall>s\<in>set ss. f (share_index s) mod p = share_value s" using split_set by blast
    then show "on_polynomial p k ss" using f(1) by (auto simp: polyfun_def on_polynomial_def)
  next
    assume "on_polynomial p k ss"
    then obtain cs where cs: "length cs = k" "\<forall>s\<in>set ss. ieval cs (share_index s) mod p = share_value s"
      by (auto simp: on_polynomial_def)
    have "polyfun k (ieval cs)" using polyfun_ieval[of cs] cs(1) by simp
    then have "f x mod p = ieval cs x mod p" for x
      by (rule basis_agrees[OF assms f(1,3)]) (use cs(2) split_set in blast)
    then show "\<forall>s\<in>set (drop k ss). f (share_index s) mod p = share_value s"
      using cs(2) split_set by simp
  qed
  then show ?thesis by (simp add: surplus_agree_spec[OF f(2)])
qed

section \<open>Reconstruction\<close>

lemma reconstruct_valid:
  assumes "S \<noteq> []" "\<forall>s\<in>set S. share_wf p s" "distinct (map share_index S)"
    "\<forall>s\<in>set S. share_threshold s = Some k"
  shows "reconstruct_secret p S =
    (if int (length S) < k then Inl Insufficient_Shares
     else if int (length S) = k then interpolate_at p (take (nat k) S) 0
     else case verify_shares_consistent p S (Some k) of
       Inl e \<Rightarrow> Inl e
     | Inr ok \<Rightarrow> if \<not> ok then Inl Inconsistent_Shares else interpolate_at p (take (nat k) S) 0)"
proof -
  have "validate_shares p S = Inr S" using assms(1-3) by (simp add: validate_shares_Inr)
  then show ?thesis
    by (simp add: reconstruct_secret_def resolve_uniform[OF assms(1,4)] cong: sum.case_cong if_cong)
qed

lemma verify_valid:
  assumes "is_prime p" "S \<noteq> []" "\<forall>s\<in>set S. share_wf p s" "distinct (map share_index S)"
    "2 \<le> k" "k < int (length S)"
  shows "verify_shares_consistent p S (Some k) = Inr (on_polynomial p (nat k) S)"
proof -
  have "validate_shares p S = Inr S" using assms(2-4) by (simp add: validate_shares_Inr)
  moreover have "surplus_agree p (take (nat k) S) (drop (nat k) S) = Inr (on_polynomial p (nat k) S)"
    by (rule surplus_agree_iff[OF assms(1,3,4)]) (use assms(6) in linarith)
  ultimately show ?thesis using assms(5,6)
    by (simp add: verify_shares_consistent_def MIN_THRESHOLD_def)
qed

lemma reconstruct_on_polynomial:
  assumes "is_prime p" "S \<noteq> []" "\<forall>s\<in>set S. share_wf p s" "distinct (map share_index S)"
    "\<forall>s\<in>set S. share_threshold s = Some k" "2 \<le> k" "k \<le> int (length S)"
    "length cs = nat k" "\<forall>s\<in>set S. ieval cs (share_index s) mod p = share_value s"
  shows "reconstruct_secret p S = Inr (ieval cs 0 mod p)"
proof -
  have len: "nat k \<le> length S" using assms(7) by linarith
  obtain f where f: "polyfun (nat k) f" "\<And>x. interpolate_at p (take (nat k) S) x = Inr (f x mod p)"
    "\<forall>s\<in>set (take (nat k) S). f (share_index s) mod p = share_value s"
    using basis_function[OF assms(1,3,4) len] by blast
  have "polyfun (nat k) (ieval cs)" using polyfun_ieval[of cs] assms(8) by simp
  then have "f 0 mod p = ieval cs 0 mod p"
    by (rule basis_agrees[OF assms(1,3,4) len f(1,3)]) (use assms(9) in \<open>meson in_set_takeD\<close>)
  moreover have "on_polynomial p (nat k) S" using assms(8,9) by (auto simp: on_polynomial_def)
  moreover have "interpolate_at p (take (nat k) S) 0 = Inr (f 0 mod p)" by (rule f(2))
  ultimately show ?thesis
    using assms(7) verify_valid[OF assms(1-4,6)] unfolding reconstruct_valid[OF assms(2-5)] by auto
qed

lemma split_shares_distinct:
  "inj_on share_index (set S) \<Longrightarrow> distinct S \<Longrightarrow> distinct (map share_index S)"
  by (simp add: distinct_map)

lemma split_reconstruct:
  assumes "is_prime p" "split_secret rnd p secret k n = Some (Inr r)"
    "set S \<subseteq> set (sss_shares r)" "distinct S" "k \<le> int (length S)"
  shows "reconstruct_secret p S = Inr secret"
proof -
  obtain cs where cs: "length cs = nat k" "ieval cs 0 = secret" "\<forall>s\<in>set S. share_wf p s"
    "\<forall>s\<in>set S. share_threshold s = Some k" "inj_on share_index (set S)"
    "\<forall>s\<in>set S. ieval cs (share_index s) mod p = share_value s mod p"
    "\<forall>s\<in>set S. share_value s mod p = share_value s" "0 \<le> secret" "secret < p" "2 \<le> k"
    using split_shares_wf[OF assms(2,3)] by metis
  have "reconstruct_secret p S = Inr (ieval cs 0 mod p)"
    using cs assms(5) by (intro reconstruct_on_polynomial[OF assms(1) _ cs(3)
      split_shares_distinct[OF cs(5) assms(4)] cs(4,10) assms(5) cs(1)]) auto
  then show ?thesis using cs(2,8,9) by simp
qed

text \<open>C12. Any \<open>k\<close> shares rebuild the secret. Whatever numbers the generator produced, every list of at
  least \<open>k\<close> different shares of a split, in any order, reconstructs exactly the secret.\<close>

theorem threshold_shares_reconstruct:
  assumes "is_prime p" "split_secret rnd p secret k n = Some (Inr r)"
    "set S \<subseteq> set (sss_shares r)" "distinct S" "k \<le> int (length S)"
  shows "reconstruct_secret p S = Inr secret"
  by (rule split_reconstruct[OF assms])

text \<open>Too few shares are refused. A non-empty list of fewer than \<open>k\<close> different shares of a split
  raises instead of returning an unrelated number.\<close>

theorem insufficient_shares_refused:
  assumes "split_secret rnd p secret k n = Some (Inr r)" "set S \<subseteq> set (sss_shares r)"
    "distinct S" "S \<noteq> []" "int (length S) < k"
  shows "reconstruct_secret p S = Inl Insufficient_Shares"
proof -
  obtain cs where cs: "\<forall>s\<in>set S. share_wf p s" "\<forall>s\<in>set S. share_threshold s = Some k"
    "inj_on share_index (set S)"
    using split_shares_wf[OF assms(1,2)] by metis
  show ?thesis
    using assms(5) by (simp add: reconstruct_valid[OF assms(4) cs(1) split_shares_distinct[OF cs(3) assms(3)] cs(2)])
qed

text \<open>The consistency check is exact. On valid shares with a surplus it never raises, and it
  answers yes exactly when one polynomial of degree below \<open>k\<close> passes through all of them.\<close>

theorem consistency_check_exact:
  assumes "is_prime p" "validate_shares p S = Inr V" "2 \<le> k" "k < int (length S)"
  shows "verify_shares_consistent p S (Some k) =
    Inr (\<exists>cs. length cs = nat k \<and> (\<forall>s\<in>set S. ieval cs (share_index s) mod p = share_value s))"
  using verify_valid[OF assms(1) _ _ _ assms(3,4)] assms(2)
  by (simp add: validate_shares_Inr on_polynomial_def)

text \<open>A wrong share is detected. If at least \<open>k\<close> of the valid shares handed in come from the split and
  at least one lies off its polynomial, reconstruction raises rather than return a wrong secret.\<close>

theorem corrupt_share_detected:
  assumes "is_prime p" "split_secret rnd p secret k n = Some (Inr r)"
    "validate_shares p S = Inr S" "\<forall>s\<in>set S. share_threshold s = Some k"
    "k \<le> int (length (filter (\<lambda>s. s \<in> set (sss_shares r)) S))"
    "bad \<in> set S" "good \<in> set (sss_shares r)" "share_index bad = share_index good" "bad \<notin> set (sss_shares r)"
    "share_value bad \<noteq> share_value good"
  shows "reconstruct_secret p S = Inl Inconsistent_Shares"
proof -
  let ?G = "filter (\<lambda>s. s \<in> set (sss_shares r)) S"
  have S: "S \<noteq> []" "\<forall>s\<in>set S. share_wf p s" "distinct (map share_index S)"
    using assms(3) by (simp_all add: validate_shares_Inr)
  obtain cs where cs: "length cs = nat k" "2 \<le> k"
    "\<forall>s\<in>set (sss_shares r). ieval cs (share_index s) mod p = share_value s mod p"
    "\<forall>s\<in>set (sss_shares r). share_value s mod p = share_value s"
    using split_shares_wf[OF assms(2) order_refl] by metis
  have "length ?G < length S"
    using length_filter_less[OF assms(6), of "\<lambda>s. s \<in> set (sss_shares r)"] assms(9) by blast
  then have len: "k < int (length S)" using assms(5) by linarith
  have "\<not> on_polynomial p (nat k) S"
  proof
    assume "on_polynomial p (nat k) S"
    then obtain ds where ds: "length ds = nat k" "\<forall>s\<in>set S. ieval ds (share_index s) mod p = share_value s"
      by (auto simp: on_polynomial_def)
    have pf: "polyfun (nat k) (ieval ds)" "polyfun (nat k) (ieval cs)"
      using polyfun_ieval ds(1) cs(1) by metis+
    have G: "\<forall>s\<in>set ?G. share_wf p s" "distinct (map share_index ?G)" "nat k \<le> length ?G"
      using S(2,3) assms(5) by (simp_all add: distinct_map_filter)
    have "ieval ds (share_index bad) mod p = ieval cs (share_index bad) mod p"
      by (rule shares_determine[OF assms(1) G pf]) (use ds(2) cs(3,4) in simp)
    then have "share_value bad = share_value good"
      using ds(2) assms(6,7,8) cs(3,4) by metis
    then show False using assms(10) by contradiction
  qed
  then show ?thesis using len
    by (simp add: reconstruct_valid[OF S assms(4)] verify_valid[OF assms(1) S cs(2) len])
qed

section \<open>What fewer shares disclose\<close>

text \<open>The secrets that some run of the generator could have split into shares including \<open>S\<close>.\<close>

definition consistent_secrets :: "int \<Rightarrow> int \<Rightarrow> int \<Rightarrow> secret_share list \<Rightarrow> int set" where
  "consistent_secrets p k n S =
     {secret. \<exists>rnd r. (\<forall>i. 0 \<le> rnd i \<and> rnd i < p) \<and>
        split_secret rnd p secret k n = Some (Inr r) \<and> set S \<subseteq> set (sss_shares r)}"

text \<open>
  A polynomial of \<open>k\<close> coefficients whose leading one is not zero differs at zero from the
  polynomial of \<open>k - 1\<close> coefficients that agrees with it at \<open>k - 1\<close> other points.
\<close>

lemma leading_coefficient_separates:
  assumes "is_prime p" "length cs = Suc m" "0 < last cs" "last cs < p" "polyfun m f"
    "finite X" "card X = m" "\<forall>x\<in>X. 1 \<le> x \<and> x < p" "\<forall>x\<in>X. ieval cs x mod p = f x mod p"
  shows "ieval cs 0 mod p \<noteq> f 0 mod p"
proof
  assume eq0: "ieval cs 0 mod p = f 0 mod p"
  obtain fs where fs: "length fs = m" "\<And>x. f x = ieval fs x" using assms(5) by (auto simp: polyfun_def)
  let ?d = "map2 (+) cs (map ((*) (- 1)) (fs @ [0]))"
  have len: "length cs = length (map ((*) (- 1)) (fs @ [0]))" using assms(2) fs(1) by simp
  have ev: "ieval ?d x = ieval cs x + (- 1) * f x" for x
    by (simp only: ieval_add[OF len] ieval_scale ieval_snoc0 fs(2))
  have "p dvd last ?d"
  proof (rule too_many_roots_last[OF assms(1), of "insert 0 X"])
    have "0 \<notin> X" using assms(8) by force
    then show "finite (insert 0 X)" "card (insert 0 X) = length ?d"
      using assms(2,6,7) fs(1) by simp_all
    show "?d \<noteq> []" using len assms(2) by auto
    show "\<forall>r\<in>insert 0 X. p dvd ieval ?d r"
      unfolding ev using eq0 assms(9) by (auto simp: mod_eq_dvd_iff)
    have "r = s" if "r \<in> insert 0 X" "s \<in> insert 0 X" "p dvd r - s" for r s
    proof -
      have "0 \<le> r" "r < p" "0 \<le> s" "s < p" using that(1,2) assms(3,4,8) by auto
      then show "r = s" using that(3) by (metis mod_eq_dvd_iff mod_pos_pos_trivial)
    qed
    then show "\<forall>r\<in>insert 0 X. \<forall>s\<in>insert 0 X. p dvd r - s \<longrightarrow> r = s" by blast
  qed
  moreover have "last ?d = last cs"
  proof -
    obtain bs b where "cs = bs @ [b]" using assms(2) by (cases cs rule: rev_cases) auto
    then show ?thesis using len by simp
  qed
  ultimately show False using small_not_dvd[OF assms(3,4)] by simp
qed

text \<open>Every other value at zero is reached by adding a multiple of the polynomial with roots \<open>X\<close>.\<close>

lemma polynomial_with_secret:
  assumes "is_prime p" "polyfun m f" "distinct xs" "length xs = m"
    "\<forall>x\<in>set xs. 1 \<le> x \<and> x < p" "0 \<le> secret" "secret < p" "secret \<noteq> f 0 mod p"
  obtains cs where "length cs = Suc m" "ieval cs 0 = secret" "last cs \<noteq> 0"
    "\<forall>c\<in>set cs. 0 \<le> c \<and> c < p" "\<forall>x\<in>set xs. ieval cs x mod p = f x mod p"
proof -
  obtain fs where fs: "length fs = m" "\<And>x. f x = ieval fs x" using assms(2) by (auto simp: polyfun_def)
  obtain ms where ms: "length ms = Suc m" "last ms = 1" "\<And>x. ieval ms x = root_prod xs x"
    using monic_with_roots[of xs] assms(4) by auto
  have "\<forall>r\<in>set xs. \<not> p dvd 0 - r" using assms(5) small_not_dvd by force
  then have "\<not> p dvd root_prod xs 0" by (rule root_prod_nonzero[OF assms(1)])
  then obtain v where v: "py_inverse (root_prod xs 0) p = Some v" using py_inverse_total[OF assms(1)] by blast
  have p0: "0 < p" using assms(6,7) by simp
  define c where "c = (secret - f 0) * v"
  define ds where "ds = map2 (+) (fs @ [0]) (map ((*) c) ms)"
  define cs where "cs = map (\<lambda>d. d mod p) ds"
  have len: "length (fs @ [0]) = length (map ((*) c) ms)" using fs(1) ms(1) by simp
  have ds: "ieval ds x = f x + c * root_prod xs x" for x
    unfolding ds_def ieval_add[OF len] ieval_scale ieval_snoc0 by (simp add: fs(2) ms(3))
  have "ieval (map (\<lambda>d. d mod p) as) x mod p = ieval as x mod p" for as x
  proof (induction as)
    case (Cons a as)
    have "(a mod p + x * ieval (map (\<lambda>d. d mod p) as) x) mod p = (a + x * (ieval (map (\<lambda>d. d mod p) as) x mod p)) mod p"
      by (metis mod_add_left_eq mod_add_right_eq mod_mult_right_eq)
    then show ?case using Cons by (metis ieval.simps(2) list.simps(9) mod_add_right_eq mod_mult_right_eq)
  qed simp
  then have cs: "ieval cs x mod p = (f x + c * root_prod xs x) mod p" for x by (simp add: cs_def ds)
  have len_cs: "length cs = Suc m" using len fs(1) by (simp add: cs_def ds_def)
  have c_eq: "(c * root_prod xs 0) mod p = (secret - f 0) mod p"
  proof -
    have "c * root_prod xs 0 = (secret - f 0) * (root_prod xs 0 * v)" by (simp add: c_def)
    also have "\<dots> mod p = ((secret - f 0) * (1 mod p)) mod p"
      using py_inverse_Some(3)[OF p0 v] by (metis mod_mult_right_eq)
    finally show ?thesis by (simp add: mod_mult_right_eq)
  qed
  show ?thesis
  proof (rule that[OF len_cs])
    obtain e es where e: "cs = e # es" using len_cs by (cases cs) auto
    have range: "\<forall>d\<in>set cs. 0 \<le> d \<and> d < p" using p0 by (auto simp: cs_def)
    then show "\<forall>d\<in>set cs. 0 \<le> d \<and> d < p" .
    have "ieval cs 0 mod p = (f 0 + (secret - f 0)) mod p" by (metis cs c_eq mod_add_right_eq)
    then show "ieval cs 0 = secret" using e range assms(6,7) by simp
    show "\<forall>x\<in>set xs. ieval cs x mod p = f x mod p" by (simp add: cs root_prod_zero)
    have "last ds = c"
    proof -
      obtain bs b where "ms = bs @ [b]" using ms(1) by (cases ms rule: rev_cases) auto
      then show ?thesis using ms(1,2) fs(1) by (simp add: ds_def)
    qed
    moreover have "ds \<noteq> []" using len_cs by (auto simp: cs_def)
    ultimately have "last cs = c mod p" by (simp add: cs_def last_map)
    moreover have "\<not> p dvd c"
    proof
      assume "p dvd c"
      then have "(c * root_prod xs 0) mod p = 0" by (simp add: mod_eq_0_iff_dvd)
      then have "p dvd secret - f 0" using c_eq by (simp add: mod_eq_0_iff_dvd)
      then show False using assms(6-8) by (metis mod_eq_dvd_iff mod_pos_pos_trivial)
    qed
    ultimately show "last cs \<noteq> 0" by (simp add: dvd_eq_mod_eq_0)
  qed
qed

lemma split_with_coefficients:
  assumes "length cs = nat k" "ieval cs 0 = secret" "last cs \<noteq> 0" "2 \<le> k" "k \<le> n" "n < p"
    "0 \<le> secret" "secret < p"
  shows "\<exists>r. split_secret (\<lambda>i. if i < nat k - 1 then cs ! Suc i else 0) p secret k n = Some (Inr r) \<and>
    sss_shares r = map (make_share p k cs) [1..n]"
proof -
  let ?rnd = "\<lambda>i. if i < nat k - 1 then cs ! Suc i else 0"
  obtain e es where e: "cs = e # es" "es \<noteq> []" using assms(1,4) by (cases cs; cases "tl cs") auto
  have cs: "secret # map ?rnd [0..<nat k - 1] = cs"
    using assms(1,2) e by (intro nth_equalityI) (auto simp: nth_Cons split: nat.splits)
  have "draw_coefficients ?rnd secret (nat k) = Some cs"
    unfolding draw_coefficients_def Let_def cs resample_id[OF assms(3)] using e(1) by auto
  then show ?thesis using assms(4-8)
    by (simp add: split_secret_def MIN_THRESHOLD_def max_secret_int_def)
qed

lemma consistent_avoids_interpolated:
  assumes "is_prime p" "\<forall>s\<in>set S. share_wf p s" "distinct (map share_index S)" "nat k = Suc (length S)"
    and "polyfun (length S) f" "\<And>s. s \<in> set S \<Longrightarrow> f (share_index s) mod p = share_value s mod p"
  shows "consistent_secrets p k n S \<subseteq> {0..<p} - {f 0 mod p}"
proof
  note pts = set_distinct_points[OF assms(2,3)]
  fix x assume "x \<in> consistent_secrets p k n S"
  then obtain rnd' r' where x: "\<forall>i. 0 \<le> rnd' i \<and> rnd' i < p"
    "split_secret rnd' p x k n = Some (Inr r')" "set S \<subseteq> set (sss_shares r')"
    by (auto simp: consistent_secrets_def)
  obtain cs where cs: "length cs = nat k" "ieval cs 0 = x" "last cs \<noteq> 0" "0 \<le> last cs" "last cs < p"
    "\<forall>s\<in>set S. ieval cs (share_index s) mod p = share_value s mod p" "0 \<le> x" "x < p"
    using split_shares_wf[OF x(2,3)] x(1) by metis
  have "ieval cs 0 mod p \<noteq> f 0 mod p"
    by (rule leading_coefficient_separates[OF assms(1) _ _ cs(5) assms(5) pts(1,2)])
      (use cs(1,3,4,6) assms(4,2,6) in \<open>auto simp: share_wf_def\<close>)
  then show "x \<in> {0..<p} - {f 0 mod p}" using cs(2,7,8) by simp
qed

lemma other_secrets_consistent:
  assumes "is_prime p" "\<forall>s\<in>set S. share_wf p s" "distinct (map share_index S)" "nat k = Suc (length S)"
    and "polyfun (length S) f" "\<And>s. s \<in> set S \<Longrightarrow> f (share_index s) mod p = share_value s mod p"
    and "2 \<le> k" "k \<le> n" "n < p" "set S \<subseteq> make_share p k cs0 ` {1..n}" "x \<in> {0..<p} - {f 0 mod p}"
  shows "x \<in> consistent_secrets p k n S"
proof -
  obtain cs where cs: "length cs = Suc (length S)" "ieval cs 0 = x" "last cs \<noteq> 0"
    "\<forall>c\<in>set cs. 0 \<le> c \<and> c < p"
    "\<forall>y\<in>set (map share_index S). ieval cs y mod p = f y mod p"
    by (rule polynomial_with_secret[OF assms(1,5,3), of x]) (use assms(11,2) in \<open>auto simp: share_wf_def\<close>)
  let ?rnd = "\<lambda>i. if i < nat k - 1 then cs ! Suc i else 0"
  obtain r' where r': "split_secret ?rnd p x k n = Some (Inr r')"
    "sss_shares r' = map (make_share p k cs) [1..n]"
    using split_with_coefficients[of cs k x n p] cs(1-3) assms(7-9,4,11) by auto
  have "\<forall>i. 0 \<le> ?rnd i \<and> ?rnd i < p" using cs(1,4) assms(4) is_prime_ge2[OF assms(1)] by auto
  moreover have "s \<in> set (sss_shares r')" if s: "s \<in> set S" for s
  proof -
    obtain y where y: "1 \<le> y" "y \<le> n" "s = make_share p k cs0 y" using subsetD[OF assms(10) s] by auto
    have "eval_poly p cs y = share_value s"
      using cs(5) s assms(6)[OF s] assms(2) y(3) is_prime_ge2[OF assms(1)]
      by (auto simp: eval_poly_ieval make_share_def wf_value_mod)
    then have "s = make_share p k cs y" using y(3) by (simp add: make_share_def)
    then show ?thesis using y(1,2) r'(2) by simp
  qed
  ultimately show ?thesis
    using r'(1) unfolding consistent_secrets_def by (intro CollectI exI[of _ ?rnd] exI[of _ r']) auto
qed

text \<open>C40. What \<open>k - 1\<close> shares disclose. Against \<open>k - 1\<close> shares of a split every secret of the field
  remains possible except exactly one: the value that interpolating those shares at zero gives.
  (Redrawing a zero leading coefficient is what rules that one out.)\<close>

theorem fewer_shares_exclude_exactly_one:
  assumes "is_prime p" "split_secret rnd p secret k n = Some (Inr r)"
    "set S \<subseteq> set (sss_shares r)" "distinct S" "int (length S) = k - 1"
  shows "\<exists>v. interpolate_at p S 0 = Inr v \<and> 0 \<le> v \<and> v < p \<and>
    consistent_secrets p k n S = {0..<p} - {v}"
proof -
  obtain cs0 where cs0: "\<forall>s\<in>set S. share_wf p s" "\<forall>s\<in>set S. share_threshold s = Some k"
    "inj_on share_index (set S)" "2 \<le> k" "k \<le> n" "n < p" "sss_shares r = map (make_share p k cs0) [1..n]"
    using split_shares_wf[OF assms(2,3)] by metis
  note d = split_shares_distinct[OF cs0(3) assms(4)]
  obtain f where f: "polyfun (length S) f" "\<And>x. interpolate_at p S x = Inr (f x mod p)"
    "\<And>s. s \<in> set S \<Longrightarrow> f (share_index s) mod p = share_value s mod p"
    using interpolate_at_spec[OF assms(1) wf_spread[OF cs0(1) d]] by metis
  have k: "nat k = Suc (length S)" using assms(5) by simp
  have "set S \<subseteq> make_share p k cs0 ` {1..n}" using assms(3) cs0(7) by auto
  then have "consistent_secrets p k n S = {0..<p} - {f 0 mod p}"
    using consistent_avoids_interpolated[OF assms(1) cs0(1) d k f(1,3)]
      other_secrets_consistent[OF assms(1) cs0(1) d k f(1,3) cs0(4-6)] by blast
  then show ?thesis using f(2)[of 0] is_prime_ge2[OF assms(1)] by (intro exI[of _ "f 0 mod p"]) simp
qed

end
