(* ===== verification/Shamir_Bytes.thy ===== *)
theory Shamir_Bytes
  imports Shamir_Properties
begin

text \<open>
  The bytes interface of the secret-sharing engine (big-endian conversion, the length tag, the
  capacity of a field), the outcomes of a split, and the primality test behind the constructor.
\<close>

section \<open>Big-endian bytes\<close>

lemma from_bytes_snoc: "from_bytes_be (bs @ [b]) = from_bytes_be bs * 256 + uint b"
  by (simp add: from_bytes_be_def)

lemma uint_byte_bounds: "0 \<le> uint (b :: 8 word)" "uint (b :: 8 word) < 256"
  using uint_bounded[of b] by simp_all

lemma from_bytes_bounds:
  "256 ^ length bs \<le> from_bytes_be (LENGTH_TAG # bs) \<and>
   from_bytes_be (LENGTH_TAG # bs) < 2 * 256 ^ length bs"
proof (induction bs rule: rev_induct)
  case Nil
  show ?case by (simp add: from_bytes_be_def LENGTH_TAG_def)
next
  case (snoc b bs)
  have "from_bytes_be (LENGTH_TAG # bs @ [b]) = from_bytes_be (LENGTH_TAG # bs) * 256 + uint b"
    using from_bytes_snoc[of "LENGTH_TAG # bs" b] by simp
  moreover have "(256 :: int) ^ length (bs @ [b]) = 256 * 256 ^ length bs" by simp
  ultimately show ?case using snoc uint_byte_bounds[of b] by (intro conjI) linarith+
qed

lemma to_bytes_Suc:
  "0 \<le> n \<Longrightarrow> to_bytes_be n (Suc l) = to_bytes_be (n div 256) l @ [word_of_int n]"
proof -
  assume "0 \<le> n"
  have "word_of_int (n div 256 ^ (l - i)) = (word_of_int (n div 256 div 256 ^ (l - 1 - i)) :: 8 word)"
    if "i < l" for i
  proof -
    have "l - i = Suc (l - 1 - i)" using that by simp
    then have "(256 :: int) ^ (l - i) = 256 * 256 ^ (l - 1 - i)" by (metis power_Suc)
    then show ?thesis by (simp add: zdiv_zmult2_eq)
  qed
  then show ?thesis by (simp add: to_bytes_be_def)
qed

lemma to_bytes_from_bytes: "to_bytes_be (from_bytes_be bs) (length bs) = bs"
proof (induction bs rule: rev_induct)
  case Nil
  show ?case by (simp add: to_bytes_be_def)
next
  case (snoc b bs)
  have pos: "0 \<le> from_bytes_be xs" for xs
    by (induction xs rule: rev_induct) (simp_all add: from_bytes_snoc, simp add: from_bytes_be_def)
  have div: "(from_bytes_be bs * 256 + uint b) div 256 = from_bytes_be bs"
    using uint_byte_bounds[of b] by simp
  have "(word_of_int (from_bytes_be bs * 256 + uint b) :: 8 word) = word_of_int (uint b)"
  proof -
    have z: "(256 :: 8 word) = 0" by simp
    show ?thesis by (simp add: of_int_add of_int_mult z del: mult_numeral_left)
  qed
  then show ?case
    using pos[of "bs @ [b]"] snoc by (simp add: from_bytes_snoc to_bytes_Suc div)
qed

lemma bit_length_eq: "2 ^ m \<le> n \<Longrightarrow> n < 2 ^ Suc m \<Longrightarrow> bit_length n = Suc m"
proof (induction m arbitrary: n)
  case 0
  then have "n = 1" by simp
  then show ?case by (simp add: bit_length.simps)
next
  case (Suc m)
  have "2 ^ m \<le> n div 2" "n div 2 < 2 ^ Suc m"
    using Suc.prems unfolding power_Suc by linarith+
  moreover have "0 < n" using Suc.prems(1) by (smt (verit) zero_less_power)
  ultimately show ?case using Suc.IH[of "n div 2"] by (simp add: bit_length.simps[of n])
qed

lemma bit_length_lower: "0 < n \<Longrightarrow> 2 ^ (bit_length n - 1) \<le> n"
proof (induction n rule: bit_length.induct)
  case (1 n)
  show ?case
  proof (cases "n = 1")
    case True
    then show ?thesis by (simp add: bit_length.simps)
  next
    case False
    with 1 have ih: "2 ^ (bit_length (n div 2) - 1) \<le> n div 2" "0 < n div 2" by simp_all
    then obtain m where m: "bit_length (n div 2) = Suc m" by (metis bit_length.simps not_less)
    then have "bit_length n = Suc (Suc m)" using 1(2) by (simp add: bit_length.simps[of n])
    then show ?thesis using ih m by simp
  qed
qed

lemma tagged_bytes_round_trip:
  "to_bytes_be (from_bytes_be (LENGTH_TAG # bs)) ((bit_length (from_bytes_be (LENGTH_TAG # bs)) + 7) div 8)
     = LENGTH_TAG # bs"
proof -
  have "(256 :: int) ^ length bs = 2 ^ (8 * length bs)" by (simp add: power_mult)
  then have "bit_length (from_bytes_be (LENGTH_TAG # bs)) = Suc (8 * length bs)"
    using from_bytes_bounds[of bs] by (intro bit_length_eq) simp_all
  then show ?thesis using to_bytes_from_bytes[of "LENGTH_TAG # bs"] by simp
qed

text \<open>The advertised capacity is safe: a byte string that fits is a secret of the field.\<close>

lemma capacity_sound:
  assumes "5 \<le> p" "int (length bs) \<le> max_secret_bytes p"
  shows "0 \<le> from_bytes_be (LENGTH_TAG # bs)" "from_bytes_be (LENGTH_TAG # bs) \<le> max_secret_int p"
proof -
  have "8 * int (length bs) \<le> int (bit_length p) - 2"
    using assms(2) unfolding max_secret_bytes_def by linarith
  then have "8 * length bs + 1 \<le> bit_length p - 1" by linarith
  then have "(2 :: int) ^ (8 * length bs + 1) \<le> 2 ^ (bit_length p - 1)" by (rule power_increasing) simp
  also have "\<dots> \<le> p" using assms(1) by (intro bit_length_lower) simp
  finally have "2 * 256 ^ length bs \<le> p" by (simp add: power_mult)
  then show "from_bytes_be (LENGTH_TAG # bs) \<le> max_secret_int p"
    using from_bytes_bounds[of bs] by (simp add: max_secret_int_def)
  show "0 \<le> from_bytes_be (LENGTH_TAG # bs)"
    using from_bytes_bounds[of bs] by (smt (verit) zero_less_power)
qed

section \<open>The outcomes of a split\<close>

lemma draw_coefficients_total:
  assumes "2 \<le> k" "rnd (i + (k - 2)) \<noteq> 0"
  shows "\<exists>cs. draw_coefficients rnd secret k = Some cs"
proof -
  obtain m where k: "k = Suc (Suc m)" using assms(1) by (metis add_2_eq_Suc le_Suc_ex)
  have "\<exists>c. resample rnd (Suc m) (rnd m) = Some c"
  proof (cases i)
    case 0
    then show ?thesis using assms(2) k by (simp add: resample_id)
  next
    case (Suc i')
    then show ?thesis using assms(2) k by (intro resample_total[of rnd "Suc m" i']) (simp add: add.commute)
  qed
  then show ?thesis using k by (auto simp: draw_coefficients_def)
qed

lemma split_secret_total:
  assumes "2 \<le> k" "k \<le> n" "n < p" "0 \<le> secret" "secret < p" "rnd (i + (nat k - 2)) \<noteq> 0"
  shows "\<exists>r. split_secret rnd p secret k n = Some (Inr r)"
proof -
  have "2 \<le> nat k" using assms(1) by simp
  then obtain cs where "draw_coefficients rnd secret (nat k) = Some cs"
    using draw_coefficients_total assms(6) by blast
  then show ?thesis
    using assms(1-5) by (simp add: split_secret_def MIN_THRESHOLD_def max_secret_int_def)
qed

text \<open>A split raises exactly on bad arguments and otherwise returns, as soon as the generator yields one
  non-zero number for the leading coefficient: \<open>n\<close> shares with the indices \<open>1\<close> to \<open>n\<close>, which
  pass the engine's own validation and carry the threshold.\<close>

theorem split_outcome:
  assumes "rnd (i + (nat k - 2)) \<noteq> 0"
  shows "if 2 \<le> k \<and> k \<le> n \<and> n < p \<and> 0 \<le> secret \<and> secret < p
    then \<exists>r. split_secret rnd p secret k n = Some (Inr r) \<and>
      map share_index (sss_shares r) = [1..n] \<and>
      validate_shares p (sss_shares r) = Inr (sss_shares r) \<and>
      resolve_threshold (sss_shares r) = Inr (Some k)
    else \<exists>e. split_secret rnd p secret k n = Some (Inl e)"
proof (cases "2 \<le> k \<and> k \<le> n \<and> n < p \<and> 0 \<le> secret \<and> secret < p")
  case True
  then obtain r where r: "split_secret rnd p secret k n = Some (Inr r)"
    using split_secret_total[of k n p secret rnd i] assms by blast
  obtain cs where cs: "\<forall>s\<in>set (sss_shares r). share_wf p s"
    "\<forall>s\<in>set (sss_shares r). share_threshold s = Some k" "sss_shares r = map (make_share p k cs) [1..n]"
    using split_shares_wf[OF r order_refl] by metis
  have idx: "map share_index (sss_shares r) = [1..n]"
    by (simp add: cs(3) make_share_def comp_def)
  then have "sss_shares r \<noteq> []" using True by auto
  with r idx cs(1,2) True show ?thesis by (simp add: validate_shares_Inr resolve_uniform)
next
  case False
  then show ?thesis
    by (auto simp: split_secret_def MIN_THRESHOLD_def max_secret_int_def)
qed

text \<open>Bytes survive. A non-empty byte string within the field's advertised capacity splits without
  raising, and any \<open>k\<close> of its shares rebuild exactly those bytes, leading zeros included.\<close>

theorem bytes_round_trip:
  assumes "is_prime p" "5 \<le> p" "2 \<le> k" "k \<le> n" "n < p" "rnd (i + (nat k - 2)) \<noteq> 0"
    "secret \<noteq> []" "int (length secret) \<le> max_secret_bytes p"
  shows "\<exists>r. split_secret_bytes rnd p secret k n = Some (Inr r) \<and> sss_length r = Some (length secret) \<and>
    (\<forall>S. set S \<subseteq> set (sss_shares r) \<longrightarrow> distinct S \<longrightarrow> k \<le> int (length S) \<longrightarrow>
      reconstruct_secret_bytes p S = Inr secret)"
proof -
  let ?n = "from_bytes_be (LENGTH_TAG # secret)"
  note cap = capacity_sound[OF assms(2,8)]
  obtain r where r: "split_secret rnd p ?n k n = Some (Inr r)"
    using split_secret_total[of k n p ?n rnd i] assms(3-6) cap by (auto simp: max_secret_int_def)
  have "reconstruct_secret_bytes p S = Inr secret"
    if S: "set S \<subseteq> set (sss_shares r)" "distinct S" "k \<le> int (length S)" for S
    by (simp add: reconstruct_secret_bytes_def split_reconstruct[OF assms(1) r S]
        tagged_bytes_round_trip del: fold.simps)
  then show ?thesis using assms(7,8) r
    by (intro exI[of _ "r\<lparr>sss_length := Some (length secret)\<rparr>"]) (simp add: split_secret_bytes_def)
qed

section \<open>The primality test accepts primes\<close>

lemma trial_division_prime:
  "is_prime n \<Longrightarrow> \<forall>q\<in>set qs. 1 < q \<Longrightarrow>
   trial_division qs n = Some True \<or> trial_division qs n = None \<and> n \<notin> set qs \<and> (\<forall>q\<in>set qs. n mod q \<noteq> 0)"
proof (induction qs)
  case (Cons q qs)
  have "n mod q = 0 \<Longrightarrow> n = q"
  proof -
    assume "n mod q = 0"
    then have "q dvd n" by (simp add: dvd_eq_mod_eq_0)
    then show "n = q" using Cons.prems unfolding is_prime_def by force
  qed
  then show ?case using Cons by auto
qed simp

lemma odd_part_spec:
  "0 < d \<Longrightarrow> odd_part d r = (d', r') \<Longrightarrow>
   0 < d' \<and> r \<le> r' \<and> d' * 2 ^ (r' - r) = d \<and> (d mod 2 = 0 \<longrightarrow> r < r')"
proof (induction d r arbitrary: d' r' rule: odd_part.induct)
  case (1 d r)
  show ?case
  proof (cases "d mod 2 = 0")
    case True
    then have "odd_part (d div 2) (r + 1) = (d', r')" using 1(2,3) by (simp add: odd_part.simps[of d r])
    moreover have "0 < d div 2" using True 1(2) by (auto elim!: evenE simp: even_iff_mod_2_eq_zero[symmetric])
    ultimately have ih: "0 < d'" "r + 1 \<le> r'" "d' * 2 ^ (r' - (r + 1)) = d div 2"
      using 1(1)[of d' r'] True 1(2) by simp_all
    have "r' - r = Suc (r' - (r + 1))" using ih(2) by simp
    then have "d' * 2 ^ (r' - r) = 2 * (d div 2)" using ih(3) by (metis mult.left_commute power_Suc)
    then show ?thesis using ih True by auto
  next
    case False
    then show ?thesis using 1(2,3) by (simp add: odd_part.simps[of d r])
  qed
qed

lemma squarings_reach_prime:
  "is_prime n \<Longrightarrow> 0 \<le> x \<Longrightarrow> x < n \<Longrightarrow> x \<noteq> 1 \<Longrightarrow> x \<noteq> n - 1 \<Longrightarrow> x ^ (2 ^ Suc m) mod n = 1 \<Longrightarrow>
   squarings_reach m x n"
proof (induction m arbitrary: x)
  case 0
  then have "x\<^sup>2 mod n = 1" by simp
  then have "x mod n = 1 \<or> x mod n = n - 1" by (rule square_root_of_one[OF 0(1)])
  then show ?case using 0 by simp
next
  case (Suc m)
  let ?x = "x\<^sup>2 mod n"
  have n2: "2 \<le> n" by (rule is_prime_ge2[OF Suc.prems(1)])
  have "?x \<noteq> 1"
  proof
    assume "?x = 1"
    then have "x mod n = 1 \<or> x mod n = n - 1" by (rule square_root_of_one[OF Suc.prems(1)])
    then show False using Suc.prems(2-5) by simp
  qed
  moreover have "?x ^ (2 ^ Suc m) mod n = x ^ (2 ^ Suc (Suc m)) mod n"
    by (simp add: power_mod flip: power_mult)
  ultimately have "squarings_reach m ?x n" if "?x \<noteq> n - 1"
    using Suc.IH[of ?x] Suc.prems(1,6) that n2 by simp
  then show ?case by (auto simp: py_pow_mod_def Let_def)
qed

lemma round_passes_prime:
  assumes "is_prime n" "2 \<le> a" "a < n" "0 < d" "0 < r" "d * 2 ^ r = n - 1"
  shows "round_passes n d r a"
proof -
  have n2: "2 \<le> n" by (rule is_prime_ge2[OF assms(1)])
  let ?x = "a ^ nat d mod n"
  have "a ^ nat (n - 1) mod n = 1" using assms(2,3) by (intro fermat_little[OF assms(1)] small_not_dvd) auto
  moreover have "nat (n - 1) = nat d * 2 ^ r"
    using assms(4) by (simp add: nat_mult_distrib nat_power_eq flip: assms(6))
  ultimately have "?x ^ (2 ^ r) mod n = 1" by (simp add: power_mod power_mult)
  then have "?x ^ (2 ^ Suc (r - 1)) mod n = 1" using assms(5) by simp
  then have "squarings_reach (r - 1) ?x n" if "?x \<noteq> 1" "?x \<noteq> n - 1"
    using that n2 by (intro squarings_reach_prime[OF assms(1)]) simp_all
  then show ?thesis by (auto simp: round_passes_def py_pow_mod_def Let_def)
qed

text \<open>Every prime of at least 5 is accepted: whatever bases the generator draws in its range, the
  Miller-Rabin test never turns a prime modulus away, and a modulus with a small factor never passes.\<close>

theorem prime_modulus_accepted:
  assumes "5 \<le> p" "\<forall>i. 0 \<le> rnd i \<and> rnd i < p - 3"
  shows "(is_prime p \<longrightarrow> make_engine rnd p = Inr p) \<and>
    (\<forall>q\<in>set small_primes. p \<notin> set known_prime_moduli \<longrightarrow> q dvd p \<longrightarrow> p \<noteq> q \<longrightarrow>
       p \<notin> set small_primes \<longrightarrow> make_engine rnd p = Inl Modulus_Not_Prime)"
proof (intro conjI impI ballI)
  assume prime: "is_prime p"
  have "is_probable_prime rnd p rounds" for rounds
  proof (cases "trial_division small_primes p")
    case None
    then have "p mod 2 \<noteq> 0" using trial_division_prime[OF prime, of small_primes] by (simp add: small_primes_def)
    then have even: "(p - 1) mod 2 = 0" by presburger
    obtain d r where dr: "odd_part (p - 1) 0 = (d, r)" by fastforce
    then have "0 < d" "0 < r" "d * 2 ^ r = p - 1"
      using odd_part_spec[OF _ dr] assms(1) even by auto
    then have "round_passes p d r (2 + rnd i)" for i
      using assms(2)[rule_format, of i] by (intro round_passes_prime[OF prime]) auto
    then show ?thesis using assms(1) None dr by (simp add: is_probable_prime_def list_all_iff)
  next
    case (Some b)
    then show ?thesis using trial_division_prime[OF prime, of small_primes] assms(1)
      by (auto simp: is_probable_prime_def small_primes_def)
  qed
  then show "make_engine rnd p = Inr p" using assms(1) by (simp add: make_engine_def)
next
  fix q assume q: "q \<in> set small_primes" "q dvd p" "p \<noteq> q"
    and p: "p \<notin> set known_prime_moduli" "p \<notin> set small_primes"
  have "trial_division qs p = Some False" if "q \<in> set qs" "p \<notin> set qs" for qs
    using that q(2,3) by (induction qs) (auto simp: dvd_eq_mod_eq_0)
  then have "trial_division small_primes p = Some False" using q(1) p(2) by blast
  then show "make_engine rnd p = Inl Modulus_Not_Prime"
    using assms(1) p(1) by (simp add: make_engine_def is_probable_prime_def)
qed

section \<open>Concrete runs\<close>

lemma is_prime_7: "is_prime 7"
  by (rule is_prime_check) (simp, code_simp)

lemma is_prime_521: "is_prime 521"
  by (rule is_prime_check) (simp, code_simp)

text \<open>The secret 5 in three shares of the line \<open>5 + 3 x\<close> modulo 7, two of which rebuild it.\<close>

definition demo_share :: "int \<Rightarrow> int \<Rightarrow> secret_share" where
  "demo_share x y = \<lparr>share_index = x, share_value = y, share_threshold = Some 2, share_modulus = Some 7\<rparr>"

definition demo_split :: sss_result where
  "demo_split = \<lparr>sss_threshold = 2, sss_total = 3,
     sss_shares = [demo_share 1 1, demo_share 2 4, demo_share 3 0], sss_modulus = 7, sss_length = None\<rparr>"

lemma demo_split_run: "split_secret (\<lambda>i. 3) 7 5 2 3 = Some (Inr demo_split)"
  by code_simp

lemma demo_shares:
  "sss_shares demo_split = [demo_share 1 1, demo_share 2 4, demo_share 3 0]"
  "demo_share x y = demo_share x' y' \<longleftrightarrow> x = x' \<and> y = y'"
  by (auto simp: demo_split_def demo_share_def)

theorem threshold_shares_reconstruct_witness:
  "reconstruct_secret 7 [demo_share 3 0, demo_share 1 1] = Inr 5"
  by (rule threshold_shares_reconstruct[OF is_prime_7 demo_split_run]) (simp_all add: demo_shares)

theorem insufficient_shares_refused_witness:
  "reconstruct_secret 7 [demo_share 2 4] = Inl Insufficient_Shares"
  by (rule insufficient_shares_refused[OF demo_split_run]) (simp_all add: demo_shares)

theorem consistency_check_exact_witness:
  "verify_shares_consistent 7 [demo_share 1 1, demo_share 2 4, demo_share 3 1] (Some 2) =
     Inr (\<exists>cs. length cs = nat 2 \<and> (\<forall>s\<in>set [demo_share 1 1, demo_share 2 4, demo_share 3 1].
       ieval cs (share_index s) mod 7 = share_value s)) \<and>
   verify_shares_consistent 7 [demo_share 1 1, demo_share 2 4, demo_share 3 1] (Some 2) = Inr False"
  by (rule conjI, rule consistency_check_exact[OF is_prime_7]) code_simp+

theorem corrupt_share_detected_witness:
  "reconstruct_secret 7 [demo_share 1 1, demo_share 3 6, demo_share 2 4] = Inl Inconsistent_Shares"
  by (rule corrupt_share_detected[OF is_prime_7 demo_split_run, where bad = "demo_share 3 6" and good = "demo_share 3 0"])
    code_simp+

theorem fewer_shares_exclude_exactly_one_witness:
  "consistent_secrets 7 2 3 [demo_share 2 4] = {0..<7} - {4}"
proof -
  have "interpolate_at 7 [demo_share 2 4] 0 = Inr 4" by code_simp
  then show ?thesis
    using fewer_shares_exclude_exactly_one[OF is_prime_7 demo_split_run, of "[demo_share 2 4]"]
    by (simp add: demo_shares)
qed

theorem split_outcome_witness:
  "\<exists>r. split_secret (\<lambda>i. if i = 0 then 0 else 3) 7 5 2 3 = Some (Inr r) \<and>
     map share_index (sss_shares r) = [1, 2, 3]"
  using split_outcome[of "\<lambda>i. if i = 0 then 0 else 3" 1 2 3 7 5] by (auto simp: upto.simps)

theorem bytes_round_trip_witness:
  "\<exists>r. split_secret_bytes (\<lambda>i. 3) 521 [0] 2 3 = Some (Inr r) \<and>
     (length (sss_shares r) = 3 \<longrightarrow> distinct (sss_shares r) \<longrightarrow> reconstruct_secret_bytes 521 (sss_shares r) = Inr [0])"
proof -
  have "int (length [0 :: 8 word]) \<le> max_secret_bytes 521" by code_simp
  then show ?thesis
    using bytes_round_trip[OF is_prime_521, of 2 3 "\<lambda>i. 3" 0 "[0]"] by force
qed

theorem prime_modulus_accepted_witness: "make_engine (\<lambda>i. 0) 7 = Inr 7"
  using prime_modulus_accepted[of 7 "\<lambda>i. 0"] is_prime_7 by simp

end
