(* ===== verification/Py_Text.thy ===== *)
theory Py_Text
  imports Py_Prelude "HOL-Library.Char_ord" "HOL-Library.List_Lexorder"
begin

text \<open>
  The parts of Python's text handling the components use: \<open>str.strip\<close>, \<open>str.upper\<close>,
  \<open>str.lower\<close>, \<open>str.casefold\<close>, decimal and ISO-8601 formatting, the UTF-8 length, JSON values and the
  canonical form of \<open>json.dumps\<close>. A character is a code point below 256; the few of them
  whose case mapping leaves that range (the micro sign, y with diaeresis) map to themselves.
\<close>

section \<open>Strings\<close>

definition is_space :: "char \<Rightarrow> bool" where
  "is_space c \<longleftrightarrow> (let n = (of_char c :: int) in
     9 \<le> n \<and> n \<le> 13 \<or> 28 \<le> n \<and> n \<le> 32 \<or> n = 133 \<or> n = 160)"

definition py_strip :: "string \<Rightarrow> string" where
  "py_strip s = rev (dropWhile is_space (rev (dropWhile is_space s)))"

definition upper_char :: "char \<Rightarrow> string" where
  "upper_char c = (let n = (of_char c :: int) in
     if 97 \<le> n \<and> n \<le> 122 \<or> 224 \<le> n \<and> n \<le> 254 \<and> n \<noteq> 247 then [char_of (n - 32)]
     else if n = 223 then ''SS'' else [c])"

definition py_upper :: "string \<Rightarrow> string" where
  "py_upper s = concat (map upper_char s)"

definition fold_char :: "char \<Rightarrow> string" where
  "fold_char c = (let n = (of_char c :: int) in
     if 65 \<le> n \<and> n \<le> 90 \<or> 192 \<le> n \<and> n \<le> 222 \<and> n \<noteq> 215 then [char_of (n + 32)]
     else if n = 223 then ''ss'' else [c])"

definition py_casefold :: "string \<Rightarrow> string" where
  "py_casefold s = concat (map fold_char s)"

definition lower_char :: "char \<Rightarrow> char" where
  "lower_char c = (let n = (of_char c :: int) in
     if 65 \<le> n \<and> n \<le> 90 \<or> 192 \<le> n \<and> n \<le> 222 \<and> n \<noteq> 215 then char_of (n + 32) else c)"

definition py_lower :: "string \<Rightarrow> string" where
  "py_lower s = map lower_char s"

definition utf8_length :: "string \<Rightarrow> nat" where
  "utf8_length s = sum_list (map (\<lambda>c. if (of_char c :: int) < 128 then 1 else 2) s)"

lemma dropWhile_idem [simp]: "dropWhile P (dropWhile P xs) = dropWhile P xs"
  by (induction xs) auto

lemma py_strip_strip [simp]: "py_strip (py_strip s) = py_strip s"
proof -
  have "dropWhile is_space (py_strip s) = py_strip s"
  proof (cases "py_strip s")
    case (Cons c cs)
    let ?t = "dropWhile is_space s"
    have "\<exists>u. ?t = py_strip s @ u"
      unfolding py_strip_def by (metis dropWhile_dropWhile2 rev_append rev_rev_ident takeWhile_dropWhile_id)
    then have "hd ?t = c" "?t \<noteq> []" using Cons by (auto simp del: dropWhile_eq_Nil_conv)
    then have "\<not> is_space c" using hd_dropWhile by metis
    then show ?thesis using Cons by simp
  qed simp
  then show ?thesis by (simp add: py_strip_def)
qed

lemma py_strip_Nil [simp]: "py_strip [] = []"
  by (simp add: py_strip_def)

lemma strip_solid: "list_all (\<lambda>c. \<not> is_space c) s \<Longrightarrow> py_strip s = s"
proof -
  assume s: "list_all (\<lambda>c. \<not> is_space c) s"
  have solid: "list_all (\<lambda>c. \<not> is_space c) t \<Longrightarrow> dropWhile is_space t = t" for t by (cases t) auto
  have "list_all (\<lambda>c. \<not> is_space c) (rev s)" using s by (simp add: list_all_iff)
  then show ?thesis using s by (simp add: py_strip_def solid)
qed

text \<open>\<open>str(n)\<close> of an integer.\<close>

function dec_digits :: "int \<Rightarrow> string" where
  "dec_digits n = (if n < 10 then [char_of (48 + n)] else dec_digits (n div 10) @ [char_of (48 + n mod 10)])"
  by pat_completeness auto
termination by (relation "measure nat") auto

declare dec_digits.simps [simp del]

definition dec_int :: "int \<Rightarrow> string" where
  "dec_int n = (if n < 0 then ''-'' @ dec_digits (- n) else dec_digits n)"

definition dec_nat :: "nat \<Rightarrow> string" where
  "dec_nat n = dec_int (int n)"

fun pad_left :: "nat \<Rightarrow> string \<Rightarrow> string" where
  "pad_left w s = replicate (w - length s) CHR ''0'' @ s"

text \<open>
  \<open>datetime.isoformat()\<close> in UTC of an instant in microseconds since 1970, by the usual
  conversion of a day count into a proleptic Gregorian date.
\<close>

definition civil_date :: "int \<Rightarrow> int \<times> int \<times> int" where
  "civil_date days =
     (let z = days + 719468;
          era = z div 146097;
          doe = z mod 146097;
          yoe = (doe - doe div 1460 + doe div 36524 - doe div 146096) div 365;
          doy = doe - (365 * yoe + yoe div 4 - yoe div 100);
          mp = (5 * doy + 2) div 153;
          d = doy - (153 * mp + 2) div 5 + 1;
          m = (if mp < 10 then mp + 3 else mp - 9);
          y = yoe + era * 400 + (if m \<le> 2 then 1 else 0)
      in (y, m, d))"

definition isoformat :: "int \<Rightarrow> string" where
  "isoformat t =
     (let (y, m, d) = civil_date (t div 86400000000);
          us = t mod 86400000000;
          s = us div 1000000;
          frac = us mod 1000000;
          two = (\<lambda>n. pad_left 2 (dec_int n))
      in pad_left 4 (dec_int y) @ ''-'' @ two m @ ''-'' @ two d @ ''T'' @
         two (s div 3600) @ '':'' @ two (s div 60 mod 60) @ '':'' @ two (s mod 60) @
         (if frac = 0 then '''' else ''.'' @ pad_left 6 (dec_int frac)) @ ''+00:00'')"

lemma isoformat_example: "isoformat 1709210096000001 = ''2024-02-29T12:34:56.000001+00:00''"
  by code_simp

section \<open>JSON values\<close>

text \<open>
  A Python value handed in as configuration. \<open>J_float\<close> carries the shortest decimal text that
  \<open>repr\<close> gives a finite float, \<open>J_nonfinite\<close> is a NaN or an infinity, \<open>J_other\<close> anything that is
  not JSON-native, and \<open>K_other\<close> a key that is not a string.
\<close>

datatype json_key = K_str string | K_other

datatype json =
    J_null | J_bool bool | J_int int | J_float string | J_nonfinite | J_str string
  | J_list "json list" | J_dict "(json_key \<times> json) list" | J_other

fun key_text :: "json_key \<Rightarrow> string" where
  "key_text (K_str s) = s"
| "key_text K_other = ''''"

text \<open>\<open>sort_keys=True\<close> at every level.\<close>

fun sort_keys :: "json \<Rightarrow> json" where
  "sort_keys (J_list xs) = J_list (map sort_keys xs)"
| "sort_keys (J_dict kvs) = J_dict (sort_key (\<lambda>kv. key_text (fst kv)) (map (\<lambda>(k, v). (k, sort_keys v)) kvs))"
| "sort_keys j = j"

text \<open>Whether \<open>allow_nan=False\<close> makes \<open>json.dumps\<close> raise.\<close>

fun has_nonfinite :: "json \<Rightarrow> bool" where
  "has_nonfinite J_nonfinite \<longleftrightarrow> True"
| "has_nonfinite (J_list xs) \<longleftrightarrow> list_ex has_nonfinite xs"
| "has_nonfinite (J_dict kvs) \<longleftrightarrow> list_ex (\<lambda>(k, v). has_nonfinite v) kvs"
| "has_nonfinite j \<longleftrightarrow> False"

definition hex_digit :: "int \<Rightarrow> char" where
  "hex_digit n = (if n < 10 then char_of (48 + n) else char_of (87 + n))"

text \<open>\<open>ensure_ascii=False\<close>: only quotes, backslashes and control characters are escaped.\<close>

definition escape_char :: "char \<Rightarrow> string" where
  "escape_char c = (let n = (of_char c :: int); bs = char_of (92 :: int) in
     if n = 34 then [bs, c]
     else if n = 92 then [bs, c]
     else if n = 10 then [bs, CHR ''n'']
     else if n = 13 then [bs, CHR ''r'']
     else if n = 9 then [bs, CHR ''t'']
     else if n = 12 then [bs, CHR ''f'']
     else if n = 8 then [bs, CHR ''b'']
     else if n < 32 then [bs, CHR ''u'', CHR ''0'', CHR ''0'', hex_digit (n div 16), hex_digit (n mod 16)]
     else [c])"

definition dumps_str :: "string \<Rightarrow> string" where
  "dumps_str s = [char_of (34 :: int)] @ concat (map escape_char s) @ [char_of (34 :: int)]"

fun join :: "string \<Rightarrow> string list \<Rightarrow> string" where
  "join sep [] = ''''"
| "join sep [s] = s"
| "join sep (s # t # ts) = s @ sep @ join sep (t # ts)"

text \<open>\<open>json.dumps(..., separators=(",", ":"))\<close> of a JSON-native value, in the order it has.\<close>

fun dumps_ordered :: "json \<Rightarrow> string" where
  "dumps_ordered J_null = ''null''"
| "dumps_ordered (J_bool b) = (if b then ''true'' else ''false'')"
| "dumps_ordered (J_int n) = dec_int n"
| "dumps_ordered (J_float r) = r"
| "dumps_ordered (J_str s) = dumps_str s"
| "dumps_ordered (J_list xs) = ''['' @ join '','' (map dumps_ordered xs) @ '']''"
| "dumps_ordered (J_dict kvs) =
     ''{'' @ join '','' (map (\<lambda>(k, v). dumps_str (key_text k) @ '':'' @ dumps_ordered v) kvs) @ ''}''"
| "dumps_ordered J_nonfinite = ''NaN''"
| "dumps_ordered J_other = ''''"

definition json_dumps :: "json \<Rightarrow> string" where
  "json_dumps j = dumps_ordered (sort_keys j)"

lemma json_dumps_example:
  "json_dumps (J_dict [(K_str ''b'', J_list [J_int (- 2), J_bool True]), (K_str ''a'', J_str ''x'')]) =
   ''{'' @ dumps_str ''a'' @ '':'' @ dumps_str ''x'' @ '','' @ dumps_str ''b'' @ '':[-2,true]}''"
  by code_simp

end
