(* ===== verification/Risk_Approval.thy ===== *)
theory Risk_Approval
  imports Py_Text
begin

text \<open>
  Model of \<open>skills/risk-control-configuration-change-approval-workflow/scripts/
  risk_config_approval_workflow.py\<close>: the maker-checker workflow for versioned risk
  configurations, and the in-memory compare-and-set store behind its storage protocol.

  \<^item> Every operation returns its result and the new state also when it raises: an expired
    request is retired, and logged, by a call that then fails.
  \<^item> The canonical JSON text of a configuration stands as its canonical tree; \<open>json.loads\<close> of
    it is the tree, and \<open>dumps_ordered\<close> is the text that is hashed and measured.
  \<^item> SHA-256, the risk-domain validator and the policy are the environment a workflow is built
    with, and so are the operations of its store (the protocol \<open>VersionedConfigStore\<close>).
  \<^item> An instant is a number of microseconds; a naive timestamp is \<open>Naive\<close>, and an omitted
    one is the reading of the clock. Error messages and log calls are left out; the locks
    make each operation one step.
\<close>

section \<open>Data model\<close>

datatype wf_error =
    Validation_Error | Authorization_Error | State_Transition_Error
  | Integrity_Error | Version_Conflict

datatype change_state = PENDING | APPROVED | REJECTED | CANCELLED | EXPIRED | APPLIED

fun state_text :: "change_state \<Rightarrow> string" where
  "state_text PENDING = ''PENDING''"
| "state_text APPROVED = ''APPROVED''"
| "state_text REJECTED = ''REJECTED''"
| "state_text CANCELLED = ''CANCELLED''"
| "state_text EXPIRED = ''EXPIRED''"
| "state_text APPLIED = ''APPLIED''"

datatype instant = Aware int | Naive

definition utc :: "instant \<Rightarrow> wf_error + int" where
  "utc i = (case i of Aware t \<Rightarrow> Inr t | Naive \<Rightarrow> Inl Validation_Error)"

definition required_text :: "string \<Rightarrow> wf_error + string" where
  "required_text s = (if py_strip s = [] then Inl Validation_Error else Inr (py_strip s))"

record actor =
  actor_id :: string
  roles :: "string list"

definition make_actor :: "string \<Rightarrow> string list \<Rightarrow> wf_error + actor" where
  "make_actor i rs =
     (if py_strip i = [] then Inl Validation_Error
      else if rs = [] \<or> list_ex (\<lambda>r. py_strip r = []) rs then Inl Validation_Error
      else Inr \<lparr>actor_id = i, roles = rs\<rparr>)"

definition max_supported_depth :: int where "max_supported_depth = 64"
definition default_max_depth :: int where "default_max_depth = 32"

record policy =
  policy_version :: string
  submitter_roles :: "string list"
  approver_roles :: "string list"
  deployer_roles :: "string list"
  required_approvals :: int
  request_ttl :: int
  require_independent_applier :: bool
  max_payload_bytes :: int
  max_payload_depth :: int
  forbidden_key_names :: "string list"

definition default_policy :: policy where
  "default_policy =
     \<lparr>policy_version = ''risk-config-approval-v1'', submitter_roles = [''RISK_CONFIG_REQUESTER''],
      approver_roles = [''RISK_MANAGER''], deployer_roles = [''RISK_CONFIG_DEPLOYER''],
      required_approvals = 1, request_ttl = 86400000000, require_independent_applier = False,
      max_payload_bytes = 262144, max_payload_depth = default_max_depth,
      forbidden_key_names = [''access_token'', ''api_key'', ''api_secret'', ''client_secret'',
        ''password'', ''private_key'', ''refresh_token'', ''secret_key'']\<rparr>"

text \<open>\<open>ApprovalPolicy.__post_init__\<close>.\<close>

definition make_policy :: "policy \<Rightarrow> wf_error + policy" where
  "make_policy P =
     (if py_strip (policy_version P) = [] then Inl Validation_Error
      else if submitter_roles P = [] \<or> approver_roles P = [] \<or> deployer_roles P = []
        then Inl Validation_Error
      else if required_approvals P < 1 then Inl Validation_Error
      else if request_ttl P \<le> 0 then Inl Validation_Error
      else if max_payload_bytes P < 1 then Inl Validation_Error
      else if \<not> (1 \<le> max_payload_depth P \<and> max_payload_depth P \<le> max_supported_depth)
        then Inl Validation_Error
      else Inr P)"

record approval_record =
  approver_id :: string
  approver_role :: string
  approved_at :: int
  approved_digest :: string

record mutable_request =
  rq_id :: string
  rq_environment :: string
  rq_base_version :: int
  rq_submitter :: string
  rq_reason :: string
  rq_ticket :: string
  rq_policy_version :: string
  rq_created_at :: int
  rq_expires_at :: int
  rq_config :: json
  rq_digest :: string
  rq_state :: change_state
  rq_approvals :: "approval_record list"
  rq_rejection :: "string option"
  rq_applied_version :: "int option"

record change_request =
  cr_id :: string
  cr_environment :: string
  cr_base_version :: int
  cr_submitter :: string
  cr_reason :: string
  cr_ticket :: string
  cr_policy_version :: string
  cr_created_at :: int
  cr_expires_at :: int
  cr_config :: json
  cr_digest :: string
  cr_state :: change_state
  cr_approvals :: "approval_record list"
  cr_rejection :: "string option"
  cr_applied_version :: "int option"

record versioned_config =
  vc_environment :: string
  vc_version :: int
  vc_config :: json
  vc_digest :: string

record audit_event =
  ae_sequence :: int
  ae_type :: string
  ae_request :: string
  ae_actor :: string
  ae_occurred_at :: int
  ae_details :: "(string \<times> json) list"
  ae_previous :: string
  ae_hash :: string

section \<open>Canonical configurations\<close>

text \<open>\<open>_assert_json_native\<close>: the first offending node in the walk's order.\<close>

fun assert_json_native :: "int \<Rightarrow> int \<Rightarrow> json \<Rightarrow> wf_error option" where
  "assert_json_native m depth (J_dict kvs) =
     (if depth > m then Some Validation_Error
      else first_error (\<lambda>(k, v). case k of K_other \<Rightarrow> Some Validation_Error
                                  | K_str _ \<Rightarrow> assert_json_native m (depth + 1) v) kvs)"
| "assert_json_native m depth (J_list xs) =
     (if depth > m then Some Validation_Error
      else first_error (assert_json_native m (depth + 1)) xs)"
| "assert_json_native m depth J_other = Some Validation_Error"
| "assert_json_native m depth j = None"

definition canonical_config :: "int \<Rightarrow> json \<Rightarrow> wf_error + json" where
  "canonical_config m j =
     (case j of
        J_dict (kv # kvs) \<Rightarrow>
          (case assert_json_native m 1 j of
             Some e \<Rightarrow> Inl e
           | None \<Rightarrow> (if has_nonfinite j then Inl Validation_Error else Inr (sort_keys j)))
      | _ \<Rightarrow> Inl Validation_Error)"

text \<open>\<open>_find_forbidden_key\<close>: the path of the first forbidden key, a key before what is under it.\<close>

fun find_forbidden_key :: "string list \<Rightarrow> string \<Rightarrow> json \<Rightarrow> string option"
  and find_forbidden_pairs :: "string list \<Rightarrow> string \<Rightarrow> (json_key \<times> json) list \<Rightarrow> string option"
  and find_forbidden_items :: "string list \<Rightarrow> string \<Rightarrow> nat \<Rightarrow> json list \<Rightarrow> string option" where
  "find_forbidden_key forbidden path (J_dict kvs) = find_forbidden_pairs forbidden path kvs"
| "find_forbidden_key forbidden path (J_list xs) = find_forbidden_items forbidden path 0 xs"
| "find_forbidden_key forbidden path j = None"
| "find_forbidden_pairs forbidden path [] = None"
| "find_forbidden_pairs forbidden path ((k, v) # kvs) =
     (let child = path @ ''.'' @ key_text k in
      if py_casefold (key_text k) \<in> set forbidden then Some child
      else case find_forbidden_key forbidden child v of
        Some p \<Rightarrow> Some p
      | None \<Rightarrow> find_forbidden_pairs forbidden path kvs)"
| "find_forbidden_items forbidden path i [] = None"
| "find_forbidden_items forbidden path i (x # xs) =
     (case find_forbidden_key forbidden (path @ ''['' @ dec_nat i @ '']'') x of
        Some p \<Rightarrow> Some p
      | None \<Rightarrow> find_forbidden_items forbidden path (Suc i) xs)"

section \<open>The storage protocol and the environment\<close>

record apply_args =
  ap_request_id :: string
  ap_environment :: string
  ap_expected_version :: int
  ap_config :: json
  ap_request_digest :: string
  ap_config_digest :: string

text \<open>The three methods of \<open>VersionedConfigStore\<close>.\<close>

record 's store_iface =
  st_read :: "'s \<Rightarrow> string \<Rightarrow> wf_error + versioned_config"
  st_apply :: "apply_args \<Rightarrow> 's \<Rightarrow> (wf_error + versioned_config) \<times> 's"
  st_applied :: "'s \<Rightarrow> string \<Rightarrow> string \<Rightarrow> wf_error + int option"

text \<open>What the injected validator does: return, raise a workflow error, raise another exception.\<close>

datatype validator_outcome = V_ok | V_workflow_error wf_error | V_exception

record 's environment =
  en_sha256 :: "string \<Rightarrow> string"
  en_validate :: "json \<Rightarrow> validator_outcome"
  en_policy :: policy
  en_store :: "'s store_iface"

definition run_validator :: "'s environment \<Rightarrow> json \<Rightarrow> wf_error option" where
  "run_validator E j =
     (case en_validate E j of V_ok \<Rightarrow> None | V_workflow_error e \<Rightarrow> Some e
      | V_exception \<Rightarrow> Some Validation_Error)"

section \<open>The in-memory store\<close>

record memory_store =
  ms_configs :: "(string, int \<times> json \<times> string) py_dict"
  ms_applications :: "(string, string \<times> string \<times> int) py_dict"

fun load_configs ::
    "(string \<Rightarrow> string) \<Rightarrow> (string \<times> json) list \<Rightarrow> memory_store \<Rightarrow> wf_error + memory_store" where
  "load_configs sha [] st = Inr st"
| "load_configs sha ((env, config) # rest) st =
     (case required_text env of
        Inl e \<Rightarrow> Inl e
      | Inr env' \<Rightarrow>
          (case canonical_config default_max_depth config of
             Inl e \<Rightarrow> Inl e
           | Inr j \<Rightarrow> load_configs sha rest
               (st\<lparr>ms_configs := py_set (ms_configs st) env' (1, j, sha (dumps_ordered j))\<rparr>)))"

definition make_memory_store ::
    "(string \<Rightarrow> string) \<Rightarrow> (string \<times> json) list \<Rightarrow> wf_error + memory_store" where
  "make_memory_store sha initial =
     (if initial = [] then Inl Validation_Error
      else load_configs sha initial \<lparr>ms_configs = [], ms_applications = []\<rparr>)"

definition memory_read :: "memory_store \<Rightarrow> string \<Rightarrow> wf_error + versioned_config" where
  "memory_read st env =
     (case py_get (ms_configs st) env of
        None \<Rightarrow> Inl Validation_Error
      | Some (version, config, digest) \<Rightarrow>
          Inr \<lparr>vc_environment = env, vc_version = version, vc_config = config, vc_digest = digest\<rparr>)"

definition memory_apply ::
    "(string \<Rightarrow> string) \<Rightarrow> apply_args \<Rightarrow> memory_store \<Rightarrow> (wf_error + versioned_config) \<times> memory_store" where
  "memory_apply sha a st =
     (if sha (dumps_ordered (ap_config a)) \<noteq> ap_config_digest a then (Inl Integrity_Error, st)
      else case py_get (ms_applications st) (ap_request_id a) of
        Some (prior_request, prior_config, prior_version) \<Rightarrow>
          (if prior_request \<noteq> ap_request_digest a \<or> prior_config \<noteq> ap_config_digest a
             then (Inl Integrity_Error, st)
           else case memory_read st (ap_environment a) of
             Inl e \<Rightarrow> (Inl e, st)
           | Inr current \<Rightarrow>
               (if vc_version current < prior_version then (Inl Integrity_Error, st)
                else (Inr \<lparr>vc_environment = ap_environment a, vc_version = prior_version,
                           vc_config = ap_config a, vc_digest = ap_config_digest a\<rparr>, st)))
      | None \<Rightarrow>
          (case memory_read st (ap_environment a) of
             Inl e \<Rightarrow> (Inl e, st)
           | Inr current \<Rightarrow>
               (if vc_version current \<noteq> ap_expected_version a then (Inl Version_Conflict, st)
                else
                  (let v = vc_version current + 1
                   in (Inr \<lparr>vc_environment = ap_environment a, vc_version = v,
                            vc_config = ap_config a, vc_digest = ap_config_digest a\<rparr>,
                       st\<lparr>ms_configs := py_set (ms_configs st) (ap_environment a)
                              (v, ap_config a, ap_config_digest a),
                          ms_applications := py_set (ms_applications st) (ap_request_id a)
                              (ap_request_digest a, ap_config_digest a, v)\<rparr>)))))"

definition memory_applied_version ::
    "memory_store \<Rightarrow> string \<Rightarrow> string \<Rightarrow> wf_error + int option" where
  "memory_applied_version st rid digest =
     (case py_get (ms_applications st) rid of
        None \<Rightarrow> Inr None
      | Some (prior_request, _, version) \<Rightarrow>
          (if prior_request \<noteq> digest then Inl Integrity_Error else Inr (Some version)))"

definition memory_iface :: "(string \<Rightarrow> string) \<Rightarrow> memory_store store_iface" where
  "memory_iface sha =
     \<lparr>st_read = memory_read, st_apply = memory_apply sha, st_applied = memory_applied_version\<rparr>"

section \<open>The workflow\<close>

record 's workflow =
  wf_store :: 's
  wf_requests :: "(string, mutable_request) py_dict"
  wf_events :: "audit_event list"

definition new_workflow :: "'s \<Rightarrow> 's workflow" where
  "new_workflow st = \<lparr>wf_store = st, wf_requests = [], wf_events = []\<rparr>"

definition snapshot :: "mutable_request \<Rightarrow> change_request" where
  "snapshot r =
     \<lparr>cr_id = rq_id r, cr_environment = rq_environment r, cr_base_version = rq_base_version r,
      cr_submitter = rq_submitter r, cr_reason = rq_reason r, cr_ticket = rq_ticket r,
      cr_policy_version = rq_policy_version r, cr_created_at = rq_created_at r,
      cr_expires_at = rq_expires_at r, cr_config = rq_config r, cr_digest = rq_digest r,
      cr_state = rq_state r, cr_approvals = rq_approvals r, cr_rejection = rq_rejection r,
      cr_applied_version = rq_applied_version r\<rparr>"

definition request_digest ::
    "(string \<Rightarrow> string) \<Rightarrow> string \<Rightarrow> string \<Rightarrow> int \<Rightarrow> string \<Rightarrow> string \<Rightarrow> string \<Rightarrow> string \<Rightarrow> json \<Rightarrow> string" where
  "request_digest sha rid env base submitter reason ticket pv config =
     sha (json_dumps (J_dict
       [(K_str ''request_id'', J_str rid), (K_str ''environment'', J_str env),
        (K_str ''base_version'', J_int base), (K_str ''submitter_id'', J_str submitter),
        (K_str ''reason'', J_str reason), (K_str ''ticket_id'', J_str ticket),
        (K_str ''policy_version'', J_str pv), (K_str ''proposed_config'', config)]))"

section \<open>The audit log\<close>

definition genesis_hash :: string where
  "genesis_hash = replicate 64 CHR ''0''"

definition previous_hash :: "audit_event list \<Rightarrow> string" where
  "previous_hash evs = (if evs = [] then genesis_hash else ae_hash (last evs))"

definition event_body ::
    "int \<Rightarrow> string \<Rightarrow> string \<Rightarrow> string \<Rightarrow> int \<Rightarrow> (string \<times> json) list \<Rightarrow> string \<Rightarrow> string" where
  "event_body sequence typ rid who occurred_at details prev =
     json_dumps (J_dict
       [(K_str ''sequence'', J_int sequence), (K_str ''event_type'', J_str typ),
        (K_str ''request_id'', J_str rid), (K_str ''actor_id'', J_str who),
        (K_str ''occurred_at'', J_str (isoformat occurred_at)),
        (K_str ''details'', J_dict (map (\<lambda>(k, v). (K_str k, v)) details)),
        (K_str ''previous_hash'', J_str prev)])"

definition event_details :: "mutable_request \<Rightarrow> (string \<times> json) list \<Rightarrow> (string \<times> json) list" where
  "event_details r extra =
     [(''environment'', J_str (rq_environment r)), (''base_version'', J_int (rq_base_version r)),
      (''config_digest'', J_str (rq_digest r)), (''policy_version'', J_str (rq_policy_version r)),
      (''state'', J_str (state_text (rq_state r)))] @ extra"

definition record_event ::
    "'s environment \<Rightarrow> string \<Rightarrow> mutable_request \<Rightarrow> string \<Rightarrow> int \<Rightarrow> (string \<times> json) list \<Rightarrow>
     's workflow \<Rightarrow> 's workflow" where
  "record_event E typ r who occurred_at extra w =
     (let sequence = int (length (wf_events w)) + 1;
          prev = previous_hash (wf_events w);
          details = event_details r extra;
          body = event_body sequence typ (rq_id r) who occurred_at details prev
      in w\<lparr>wf_events := wf_events w @
           [\<lparr>ae_sequence = sequence, ae_type = typ, ae_request = rq_id r, ae_actor = who,
             ae_occurred_at = occurred_at, ae_details = details, ae_previous = prev,
             ae_hash = en_sha256 E body\<rparr>]\<rparr>)"

text \<open>A mutation of the request object, followed by its audit event.\<close>

definition update_request ::
    "'s environment \<Rightarrow> string \<Rightarrow> mutable_request \<Rightarrow> string \<Rightarrow> int \<Rightarrow> (string \<times> json) list \<Rightarrow>
     's workflow \<Rightarrow> 's workflow" where
  "update_request E typ r who occurred_at extra w =
     record_event E typ r who occurred_at extra
       (w\<lparr>wf_requests := py_set (wf_requests w) (rq_id r) r\<rparr>)"

section \<open>Guards shared by the operations\<close>

definition open_states :: "change_state list" where
  "open_states = [PENDING, APPROVED]"

definition expire_if_needed ::
    "'s environment \<Rightarrow> mutable_request \<Rightarrow> int \<Rightarrow> 's workflow \<Rightarrow> mutable_request \<times> 's workflow" where
  "expire_if_needed E r t w =
     (if rq_state r \<in> set open_states \<and> t \<ge> rq_expires_at r then
        (let r' = r\<lparr>rq_state := EXPIRED\<rparr>
         in (r', update_request E ''CHANGE_EXPIRED'' r' ''SYSTEM'' t [] w))
      else (r, w))"

definition digest_matches :: "mutable_request \<Rightarrow> string \<Rightarrow> bool" where
  "digest_matches r d \<longleftrightarrow> d \<noteq> [] \<and> d = rq_digest r"

definition eligible_roles :: "actor \<Rightarrow> string list \<Rightarrow> string list" where
  "eligible_roles a rs = filter (\<lambda>r. r \<in> set rs) (roles a)"

section \<open>Submission\<close>

record submit_args =
  sa_request_id :: string
  sa_environment :: string
  sa_base_version :: int
  sa_config :: json
  sa_reason :: string
  sa_ticket :: string

text \<open>
  Everything \<open>submit_change\<close> does before it looks at the state: authorisation, text fields,
  payload checks, the domain validator, and the request digest. The result is the request
  that would be created.
\<close>

definition submit_checks ::
    "'s environment \<Rightarrow> submit_args \<Rightarrow> actor \<Rightarrow> instant \<Rightarrow> wf_error + mutable_request" where
  "submit_checks E a who now =
     (let P = en_policy E in
      case utc now of Inl e \<Rightarrow> Inl e | Inr t \<Rightarrow>
      if eligible_roles who (submitter_roles P) = [] then Inl Authorization_Error else
      case required_text (sa_request_id a) of Inl e \<Rightarrow> Inl e | Inr rid \<Rightarrow>
      case required_text (sa_environment a) of Inl e \<Rightarrow> Inl e | Inr env \<Rightarrow>
      case required_text (sa_reason a) of Inl e \<Rightarrow> Inl e | Inr reason \<Rightarrow>
      case required_text (sa_ticket a) of Inl e \<Rightarrow> Inl e | Inr ticket \<Rightarrow>
      if sa_base_version a < 1 then Inl Validation_Error else
      case canonical_config (max_payload_depth P) (sa_config a) of Inl e \<Rightarrow> Inl e | Inr config \<Rightarrow>
      if int (utf8_length (dumps_ordered config)) > max_payload_bytes P then Inl Validation_Error else
      if find_forbidden_key (forbidden_key_names P) ''$'' config \<noteq> None then Inl Validation_Error else
      case run_validator E config of Some e \<Rightarrow> Inl e | None \<Rightarrow>
      Inr \<lparr>rq_id = rid, rq_environment = env, rq_base_version = sa_base_version a,
           rq_submitter = actor_id who, rq_reason = reason, rq_ticket = ticket,
           rq_policy_version = policy_version P, rq_created_at = t,
           rq_expires_at = t + request_ttl P, rq_config = config,
           rq_digest = request_digest (en_sha256 E) rid env (sa_base_version a) (actor_id who)
             reason ticket (policy_version P) config,
           rq_state = PENDING, rq_approvals = [], rq_rejection = None, rq_applied_version = None\<rparr>)"

text \<open>A request already known under the id: the identical retry, or a clash.\<close>

definition existing_request :: "'s workflow \<Rightarrow> mutable_request \<Rightarrow> (wf_error + change_request) option" where
  "existing_request w r =
     (case py_get (wf_requests w) (rq_id r) of
        None \<Rightarrow> None
      | Some old \<Rightarrow>
          (if rq_digest old \<noteq> rq_digest r \<or> rq_submitter old \<noteq> rq_submitter r
           then Some (Inl Integrity_Error) else Some (Inr (snapshot old))))"

text \<open>The second locked section: look again, then register the request and log it.\<close>

definition submit_commit ::
    "'s environment \<Rightarrow> mutable_request \<Rightarrow> 's workflow \<Rightarrow> (wf_error + change_request) \<times> 's workflow" where
  "submit_commit E r w =
     (case existing_request w r of
        Some res \<Rightarrow> (res, w)
      | None \<Rightarrow> (Inr (snapshot r),
                update_request E ''CHANGE_SUBMITTED'' r (rq_submitter r) (rq_created_at r) [] w))"

definition submit_change ::
    "'s environment \<Rightarrow> submit_args \<Rightarrow> actor \<Rightarrow> instant \<Rightarrow> 's workflow \<Rightarrow>
     (wf_error + change_request) \<times> 's workflow" where
  "submit_change E a who now w =
     (case submit_checks E a who now of
        Inl e \<Rightarrow> (Inl e, w)
      | Inr r \<Rightarrow>
          (case existing_request w r of
             Some res \<Rightarrow> (res, w)
           | None \<Rightarrow>
               (case st_read (en_store E) (wf_store w) (rq_environment r) of
                  Inl e \<Rightarrow> (Inl e, w)
                | Inr current \<Rightarrow>
                    (if vc_version current \<noteq> rq_base_version r then (Inl Version_Conflict, w)
                     else if vc_digest current = en_sha256 E (dumps_ordered (rq_config r))
                       then (Inl Validation_Error, w)
                     else submit_commit E r w))))"

section \<open>Review\<close>

definition approve ::
    "'s environment \<Rightarrow> string \<Rightarrow> actor \<Rightarrow> string \<Rightarrow> instant \<Rightarrow> 's workflow \<Rightarrow>
     (wf_error + change_request) \<times> 's workflow" where
  "approve E rid approver digest now w =
     (case utc now of Inl e \<Rightarrow> (Inl e, w) | Inr t \<Rightarrow>
      let eligible = eligible_roles approver (approver_roles (en_policy E)) in
      if eligible = [] then (Inl Authorization_Error, w) else
      case py_get (wf_requests w) rid of None \<Rightarrow> (Inl Validation_Error, w) | Some r0 \<Rightarrow>
      let (r, w1) = expire_if_needed E r0 t w in
      if \<not> digest_matches r digest then (Inl Integrity_Error, w1)
      else if rq_state r = EXPIRED then (Inl State_Transition_Error, w1)
      else if rq_state r \<notin> set open_states then (Inl State_Transition_Error, w1)
      else if actor_id approver = rq_submitter r then (Inl Authorization_Error, w1)
      else if list_ex (\<lambda>a. approver_id a = actor_id approver) (rq_approvals r)
        then (Inr (snapshot r), w1)
      else
        (let record = \<lparr>approver_id = actor_id approver, approver_role = hd (sort eligible),
                       approved_at = t, approved_digest = rq_digest r\<rparr>;
             r1 = r\<lparr>rq_approvals := rq_approvals r @ [record]\<rparr>;
             r2 = (if int (length (rq_approvals r1)) \<ge> required_approvals (en_policy E)
                   then r1\<lparr>rq_state := APPROVED\<rparr> else r1)
         in (Inr (snapshot r2), update_request E ''CHANGE_APPROVED'' r2 (actor_id approver) t [] w1)))"

definition reject ::
    "'s environment \<Rightarrow> string \<Rightarrow> actor \<Rightarrow> string \<Rightarrow> string \<Rightarrow> instant \<Rightarrow> 's workflow \<Rightarrow>
     (wf_error + change_request) \<times> 's workflow" where
  "reject E rid reviewer digest reason0 now w =
     (case utc now of Inl e \<Rightarrow> (Inl e, w) | Inr t \<Rightarrow>
      case required_text reason0 of Inl e \<Rightarrow> (Inl e, w) | Inr reason \<Rightarrow>
      if eligible_roles reviewer (approver_roles (en_policy E)) = [] then (Inl Authorization_Error, w) else
      case py_get (wf_requests w) rid of None \<Rightarrow> (Inl Validation_Error, w) | Some r0 \<Rightarrow>
      let (r, w1) = expire_if_needed E r0 t w in
      if \<not> digest_matches r digest then (Inl Integrity_Error, w1)
      else if rq_state r \<notin> set open_states then (Inl State_Transition_Error, w1)
      else if actor_id reviewer = rq_submitter r then (Inl Authorization_Error, w1)
      else
        (let r1 = r\<lparr>rq_state := REJECTED, rq_rejection := Some reason\<rparr>
         in (Inr (snapshot r1),
             update_request E ''CHANGE_REJECTED'' r1 (actor_id reviewer) t [(''reason'', J_str reason)] w1)))"

definition cancel ::
    "'s environment \<Rightarrow> string \<Rightarrow> actor \<Rightarrow> string \<Rightarrow> instant \<Rightarrow> 's workflow \<Rightarrow>
     (wf_error + change_request) \<times> 's workflow" where
  "cancel E rid submitter digest now w =
     (case utc now of Inl e \<Rightarrow> (Inl e, w) | Inr t \<Rightarrow>
      if eligible_roles submitter (submitter_roles (en_policy E)) = [] then (Inl Authorization_Error, w) else
      case py_get (wf_requests w) rid of None \<Rightarrow> (Inl Validation_Error, w) | Some r0 \<Rightarrow>
      let (r, w1) = expire_if_needed E r0 t w in
      if \<not> digest_matches r digest then (Inl Integrity_Error, w1)
      else if actor_id submitter \<noteq> rq_submitter r then (Inl Authorization_Error, w1)
      else if rq_state r \<notin> set open_states then (Inl State_Transition_Error, w1)
      else
        (let r1 = r\<lparr>rq_state := CANCELLED\<rparr>
         in (Inr (snapshot r1), update_request E ''CHANGE_CANCELLED'' r1 (actor_id submitter) t [] w1)))"

section \<open>Application and reconciliation\<close>

definition apply_args_of :: "'s environment \<Rightarrow> mutable_request \<Rightarrow> apply_args" where
  "apply_args_of E r =
     \<lparr>ap_request_id = rq_id r, ap_environment = rq_environment r,
      ap_expected_version = rq_base_version r, ap_config = rq_config r,
      ap_request_digest = rq_digest r,
      ap_config_digest = en_sha256 E (dumps_ordered (rq_config r))\<rparr>"

text \<open>From the store's compare-and-set on: the state after a failed apply is the store's.\<close>

definition commit_apply ::
    "'s environment \<Rightarrow> mutable_request \<Rightarrow> actor \<Rightarrow> int \<Rightarrow> 's workflow \<Rightarrow>
     (wf_error + change_request) \<times> 's workflow" where
  "commit_apply E r deployer t w =
     (case st_apply (en_store E) (apply_args_of E r) (wf_store w) of
        (Inl e, st') \<Rightarrow> (Inl e, w\<lparr>wf_store := st'\<rparr>)
      | (Inr applied, st') \<Rightarrow>
          (let r1 = r\<lparr>rq_applied_version := Some (vc_version applied), rq_state := APPLIED\<rparr>
           in (Inr (snapshot r1),
               update_request E ''CHANGE_APPLIED'' r1 (actor_id deployer) t
                 [(''applied_version'', J_int (vc_version applied))] (w\<lparr>wf_store := st'\<rparr>))))"

definition apply_change ::
    "'s environment \<Rightarrow> string \<Rightarrow> actor \<Rightarrow> string \<Rightarrow> instant \<Rightarrow> 's workflow \<Rightarrow>
     (wf_error + change_request) \<times> 's workflow" where
  "apply_change E rid deployer digest now w =
     (case utc now of Inl e \<Rightarrow> (Inl e, w) | Inr t \<Rightarrow>
      if eligible_roles deployer (deployer_roles (en_policy E)) = [] then (Inl Authorization_Error, w) else
      case py_get (wf_requests w) rid of None \<Rightarrow> (Inl Validation_Error, w) | Some r0 \<Rightarrow>
      if \<not> digest_matches r0 digest then (Inl Integrity_Error, w)
      else if require_independent_applier (en_policy E) \<and>
              (actor_id deployer = rq_submitter r0 \<or>
               list_ex (\<lambda>a. approver_id a = actor_id deployer) (rq_approvals r0))
        then (Inl Authorization_Error, w)
      else if rq_state r0 = APPLIED then (Inr (snapshot r0), w)
      else
        (let (r, w1) = expire_if_needed E r0 t w in
         if rq_state r = EXPIRED then (Inl State_Transition_Error, w1)
         else if rq_state r \<noteq> APPROVED then (Inl State_Transition_Error, w1)
         else if int (length (rq_approvals r)) < required_approvals (en_policy E)
           then (Inl Integrity_Error, w1)
         else if list_ex (\<lambda>a. approved_digest a \<noteq> rq_digest r) (rq_approvals r)
           then (Inl Integrity_Error, w1)
         else case run_validator E (rq_config r) of
           Some e \<Rightarrow> (Inl e, w1)
         | None \<Rightarrow> commit_apply E r deployer t w1))"

definition reconcile ::
    "'s environment \<Rightarrow> string \<Rightarrow> instant \<Rightarrow> 's workflow \<Rightarrow> (wf_error + change_request) \<times> 's workflow" where
  "reconcile E rid now w =
     (case utc now of Inl e \<Rightarrow> (Inl e, w) | Inr t \<Rightarrow>
      case py_get (wf_requests w) rid of None \<Rightarrow> (Inl Validation_Error, w) | Some r \<Rightarrow>
      case st_applied (en_store E) (wf_store w) (rq_id r) (rq_digest r) of
        Inl e \<Rightarrow> (Inl e, w)
      | Inr (Some v) \<Rightarrow>
          (if rq_state r \<noteq> APPLIED then
             (let r1 = r\<lparr>rq_state := APPLIED, rq_applied_version := Some v\<rparr>
              in (Inr (snapshot r1),
                  update_request E ''CHANGE_RECONCILED'' r1 ''SYSTEM'' t
                    [(''applied_version'', J_int v)] w))
           else (Inr (snapshot r), w))
      | Inr None \<Rightarrow> (let (r1, w1) = expire_if_needed E r t w in (Inr (snapshot r1), w1)))"

definition get_request :: "'s workflow \<Rightarrow> string \<Rightarrow> wf_error + change_request" where
  "get_request w rid =
     (case py_get (wf_requests w) rid of None \<Rightarrow> Inl Validation_Error | Some r \<Rightarrow> Inr (snapshot r))"

definition audit_events :: "'s workflow \<Rightarrow> audit_event list" where
  "audit_events w = wf_events w"

section \<open>The workflow as a machine\<close>

text \<open>Every public call that changes state; an actor that cannot be constructed calls nothing.\<close>

datatype wf_call =
    Call_Submit submit_args
  | Call_Approve string string
  | Call_Reject string string string
  | Call_Cancel string string
  | Call_Apply string string

datatype wf_event =
    Wf_Event wf_call string "string list" instant
  | Wf_Reconcile string instant

fun run_call ::
    "'s environment \<Rightarrow> wf_call \<Rightarrow> actor \<Rightarrow> instant \<Rightarrow> 's workflow \<Rightarrow> (wf_error + change_request) \<times> 's workflow" where
  "run_call E (Call_Submit a) who now w = submit_change E a who now w"
| "run_call E (Call_Approve rid d) who now w = approve E rid who d now w"
| "run_call E (Call_Reject rid d reason) who now w = reject E rid who d reason now w"
| "run_call E (Call_Cancel rid d) who now w = cancel E rid who d now w"
| "run_call E (Call_Apply rid d) who now w = apply_change E rid who d now w"

fun workflow_step :: "'s environment \<Rightarrow> wf_event \<Rightarrow> 's workflow \<Rightarrow> 's workflow" where
  "workflow_step E (Wf_Event c i rs now) w =
     (case make_actor i rs of Inl _ \<Rightarrow> w | Inr who \<Rightarrow> snd (run_call E c who now w))"
| "workflow_step E (Wf_Reconcile rid now) w = snd (reconcile E rid now w)"

end
