(* ===== verification/Approval_Lifecycle.thy ===== *)
theory Approval_Lifecycle
  imports Risk_Approval "HOL-Library.Sublist"
begin

text \<open>
  The approval workflow against its specification. The storage protocol is a locale whose laws
  are what an adapter promises (atomic compare-and-set, at most one application per request
  id); the in-memory store is shown to keep them. The specification of the workflow is the
  step relation \<open>wf_move\<close>: the handlers, with all their guards and error paths, are shown
  to take only its steps, and the invariant is proved over it, once, for every store.
\<close>

section \<open>The store's contract\<close>

locale versioned_store =
  fixes I :: "'s store_iface"
    and ok :: "'s \<Rightarrow> bool"
    and ledger :: "'s \<Rightarrow> string \<Rightarrow> (string \<times> int) option"
  assumes apply_keeps: "ok st \<Longrightarrow> ok (snd (st_apply I a st))"
    and apply_fails: "st_apply I a st = (Inl e, st') \<Longrightarrow> st' = st"
    and apply_again:
      "ledger st (ap_request_id a) = Some (d, v) \<Longrightarrow> st_apply I a st = (Inr vc, st') \<Longrightarrow>
       st' = st \<and> d = ap_request_digest a \<and> vc_version vc = v"
    and apply_new:
      "ledger st (ap_request_id a) = None \<Longrightarrow> st_apply I a st = (Inr vc, st') \<Longrightarrow>
       (\<exists>cur. st_read I st (ap_environment a) = Inr cur \<and> vc_version cur = ap_expected_version a) \<and>
       vc_version vc = ap_expected_version a + 1 \<and> vc_config vc = ap_config a \<and>
       st_read I st' = (st_read I st)(ap_environment a := Inr vc) \<and>
       ledger st' = (ledger st)(ap_request_id a \<mapsto> (ap_request_digest a, vc_version vc))"
    and applied_ledger:
      "st_applied I st rid d =
       (case ledger st rid of None \<Rightarrow> Inr None
        | Some (d', v) \<Rightarrow> if d' \<noteq> d then Inl Integrity_Error else Inr (Some v))"
begin

lemma apply_ledger_grows:
  "st_apply I a st = (r, st') \<Longrightarrow> ledger st rid = Some x \<Longrightarrow> ledger st' rid = Some x"
proof (cases r)
  case (Inl e)
  assume "st_apply I a st = (r, st')" "ledger st rid = Some x"
  then show ?thesis using apply_fails[of a st e st'] Inl by simp
next
  case (Inr vc)
  assume a: "st_apply I a st = (r, st')" "ledger st rid = Some x"
  show ?thesis
  proof (cases "ledger st (ap_request_id a)")
    case None
    then show ?thesis using apply_new[OF None] a Inr by auto
  next
    case (Some y)
    then show ?thesis using apply_again[of st a "fst y" "snd y"] a Inr by auto
  qed
qed

lemma apply_same_result:
  "st_apply I a st = (Inr vc, st') \<Longrightarrow> st_apply I a st' = (Inr vc', st'') \<Longrightarrow>
   st'' = st' \<and> vc_version vc' = vc_version vc"
proof (cases "ledger st (ap_request_id a)")
  case None
  assume "st_apply I a st = (Inr vc, st')" "st_apply I a st' = (Inr vc', st'')"
  then show ?thesis using apply_new[OF None] apply_again[of st' a] by fastforce
next
  case (Some y)
  assume *: "st_apply I a st = (Inr vc, st')" "st_apply I a st' = (Inr vc', st'')"
  then have "st' = st" using apply_again[of st a "fst y" "snd y"] Some by simp
  then show ?thesis using * by auto
qed

end

text \<open>The in-memory store keeps the contract.\<close>

definition memory_ok :: "memory_store \<Rightarrow> bool" where
  "memory_ok st \<longleftrightarrow> dict_ok (ms_configs st) \<and> dict_ok (ms_applications st)"

definition memory_ledger :: "memory_store \<Rightarrow> string \<Rightarrow> (string \<times> int) option" where
  "memory_ledger st rid = map_option (\<lambda>(rd, cd, v). (rd, v)) (py_get (ms_applications st) rid)"

lemma memory_read_set:
  "memory_read (st\<lparr>ms_configs := py_set (ms_configs st) env (v, c, d), ms_applications := x\<rparr>) =
   (memory_read st)(env := Inr \<lparr>vc_environment = env, vc_version = v, vc_config = c, vc_digest = d\<rparr>)"
  by (auto simp: memory_read_def dict_simps fun_eq_iff)

lemma memory_ledger_set:
  "memory_ledger (st\<lparr>ms_configs := x, ms_applications := py_set (ms_applications st) rid (rd, cd, v)\<rparr>) =
   (memory_ledger st)(rid \<mapsto> (rd, v))"
  by (auto simp: memory_ledger_def dict_simps fun_eq_iff)

lemma memory_apply_keeps: "memory_ok st \<Longrightarrow> memory_ok (snd (memory_apply sha a st))"
  by (auto simp: memory_apply_def memory_ok_def Let_def dict_simps split: option.splits sum.splits prod.splits)

lemma memory_apply_fails: "memory_apply sha a st = (Inl e, st') \<Longrightarrow> st' = st"
  by (auto simp: memory_apply_def Let_def split: option.splits sum.splits prod.splits if_splits)

lemma memory_apply_again:
  "memory_ledger st (ap_request_id a) = Some (d, v) \<Longrightarrow> memory_apply sha a st = (Inr vc, st') \<Longrightarrow>
   st' = st \<and> d = ap_request_digest a \<and> vc_version vc = v"
  by (auto simp: memory_apply_def memory_ledger_def Let_def split: option.splits sum.splits prod.splits if_splits)

lemma memory_apply_new:
  assumes "memory_ledger st (ap_request_id a) = None" "memory_apply sha a st = (Inr vc, st')"
  obtains cur where "memory_read st (ap_environment a) = Inr cur" "vc_version cur = ap_expected_version a"
    "vc = \<lparr>vc_environment = ap_environment a, vc_version = ap_expected_version a + 1,
      vc_config = ap_config a, vc_digest = ap_config_digest a\<rparr>"
    "st' = st\<lparr>ms_configs := py_set (ms_configs st) (ap_environment a)
        (ap_expected_version a + 1, ap_config a, ap_config_digest a),
      ms_applications := py_set (ms_applications st) (ap_request_id a)
        (ap_request_digest a, ap_config_digest a, ap_expected_version a + 1)\<rparr>"
proof -
  have "py_get (ms_applications st) (ap_request_id a) = None"
    using assms(1) by (simp add: memory_ledger_def)
  moreover have "sha (dumps_ordered (ap_config a)) = ap_config_digest a"
    using assms(2) by (simp add: memory_apply_def split: if_splits)
  moreover from calculation obtain cur where cur: "memory_read st (ap_environment a) = Inr cur"
    using assms(2) by (cases "memory_read st (ap_environment a)") (simp_all add: memory_apply_def)
  moreover have v: "vc_version cur = ap_expected_version a"
    using assms(2) calculation by (simp add: memory_apply_def split: if_splits)
  ultimately show ?thesis
    using assms(2) by (intro that[OF cur v]) (simp_all add: memory_apply_def Let_def)
qed

interpretation mem: versioned_store "memory_iface sha" memory_ok memory_ledger for sha
proof
  show "memory_ok st \<Longrightarrow> memory_ok (snd (st_apply (memory_iface sha) a st))" for st a
    by (simp add: memory_iface_def memory_apply_keeps)
  show "st_apply (memory_iface sha) a st = (Inl e, st') \<Longrightarrow> st' = st" for a st e st'
    by (simp add: memory_iface_def memory_apply_fails)
  show "memory_ledger st (ap_request_id a) = Some (d, v) \<Longrightarrow>
      st_apply (memory_iface sha) a st = (Inr vc, st') \<Longrightarrow>
      st' = st \<and> d = ap_request_digest a \<and> vc_version vc = v" for st a d v vc st'
    by (simp add: memory_iface_def memory_apply_again)
  show "st_applied (memory_iface sha) st rid d =
      (case memory_ledger st rid of None \<Rightarrow> Inr None
       | Some (d', v) \<Rightarrow> if d' \<noteq> d then Inl Integrity_Error else Inr (Some v))" for st rid d
    by (auto simp: memory_iface_def memory_applied_version_def memory_ledger_def split: option.splits)
next
  fix st a vc st'
  assume "memory_ledger st (ap_request_id a) = None" "st_apply (memory_iface sha) a st = (Inr vc, st')"
  then have "memory_ledger st (ap_request_id a) = None" "memory_apply sha a st = (Inr vc, st')"
    by (simp_all add: memory_iface_def)
  then obtain cur where m: "memory_read st (ap_environment a) = Inr cur" "vc_version cur = ap_expected_version a"
    "vc = \<lparr>vc_environment = ap_environment a, vc_version = ap_expected_version a + 1,
      vc_config = ap_config a, vc_digest = ap_config_digest a\<rparr>"
    "st' = st\<lparr>ms_configs := py_set (ms_configs st) (ap_environment a)
        (ap_expected_version a + 1, ap_config a, ap_config_digest a),
      ms_applications := py_set (ms_applications st) (ap_request_id a)
        (ap_request_digest a, ap_config_digest a, ap_expected_version a + 1)\<rparr>"
    by (rule memory_apply_new)
  show "(\<exists>cur. st_read (memory_iface sha) st (ap_environment a) = Inr cur \<and> vc_version cur = ap_expected_version a) \<and>
     vc_version vc = ap_expected_version a + 1 \<and> vc_config vc = ap_config a \<and>
     st_read (memory_iface sha) st' = (st_read (memory_iface sha) st)(ap_environment a := Inr vc) \<and>
     memory_ledger st' = (memory_ledger st)(ap_request_id a \<mapsto> (ap_request_digest a, vc_version vc))"
    unfolding m(4) using m(1-3) by (simp add: memory_iface_def memory_read_set memory_ledger_set)
qed

section \<open>The specification: what one step may do\<close>

definition eligible :: "'s environment \<Rightarrow> actor \<Rightarrow> (policy \<Rightarrow> string list) \<Rightarrow> bool" where
  "eligible E who field \<longleftrightarrow> set (roles who) \<inter> set (field (en_policy E)) \<noteq> {}"

definition add_approval :: "policy \<Rightarrow> mutable_request \<Rightarrow> approval_record \<Rightarrow> mutable_request" where
  "add_approval P r a =
     (let r1 = r\<lparr>rq_approvals := rq_approvals r @ [a]\<rparr>
      in if int (length (rq_approvals r1)) \<ge> required_approvals P then r1\<lparr>rq_state := APPROVED\<rparr> else r1)"

lemma add_approval_simps [simp]:
  "rq_id (add_approval P r a) = rq_id r" "rq_environment (add_approval P r a) = rq_environment r"
  "rq_base_version (add_approval P r a) = rq_base_version r" "rq_submitter (add_approval P r a) = rq_submitter r"
  "rq_config (add_approval P r a) = rq_config r" "rq_digest (add_approval P r a) = rq_digest r"
  "rq_created_at (add_approval P r a) = rq_created_at r" "rq_expires_at (add_approval P r a) = rq_expires_at r"
  "rq_approvals (add_approval P r a) = rq_approvals r @ [a]"
  "rq_applied_version (add_approval P r a) = rq_applied_version r"
  "rq_rejection (add_approval P r a) = rq_rejection r"
  "rq_reason (add_approval P r a) = rq_reason r" "rq_ticket (add_approval P r a) = rq_ticket r"
  "rq_policy_version (add_approval P r a) = rq_policy_version r"
  "rq_state (add_approval P r a) =
    (if required_approvals P \<le> int (length (rq_approvals r)) + 1 then APPROVED else rq_state r)"
  by (simp_all add: add_approval_def Let_def)

inductive wf_move :: "'s environment \<Rightarrow> 's workflow \<Rightarrow> 's workflow \<Rightarrow> bool" for E where
  submitted:
    "submit_checks E a (who :: actor) now = Inr r \<Longrightarrow> py_get (wf_requests w) (rq_id r) = None \<Longrightarrow>
     st_read (en_store E) (wf_store w) (rq_environment r) = Inr cur \<Longrightarrow>
     vc_version cur = rq_base_version r \<Longrightarrow>
     wf_move E w (update_request E ''CHANGE_SUBMITTED'' r (rq_submitter r) (rq_created_at r) [] w)"
| expired:
    "py_get (wf_requests w) (rq_id r) = Some r \<Longrightarrow> rq_state r \<in> set open_states \<Longrightarrow>
     rq_expires_at r \<le> t \<Longrightarrow>
     wf_move E w (update_request E ''CHANGE_EXPIRED'' (r\<lparr>rq_state := EXPIRED\<rparr>) ''SYSTEM'' t [] w)"
| approved:
    "py_get (wf_requests w) (rq_id r) = Some r \<Longrightarrow> rq_state r \<in> set open_states \<Longrightarrow>
     t < rq_expires_at r \<Longrightarrow> eligible E (who :: actor) approver_roles \<Longrightarrow> actor_id who \<noteq> rq_submitter r \<Longrightarrow>
     actor_id who \<notin> approver_id ` set (rq_approvals r) \<Longrightarrow>
     approver_id (a :: approval_record) = actor_id who \<Longrightarrow> approver_role a \<in> set (approver_roles (en_policy E)) \<Longrightarrow>
     approved_at a = t \<Longrightarrow> approved_digest a = rq_digest r \<Longrightarrow>
     wf_move E w (update_request E ''CHANGE_APPROVED'' (add_approval (en_policy E) r a) (actor_id who) t [] w)"
| rejected:
    "py_get (wf_requests w) (rq_id r) = Some r \<Longrightarrow> rq_state r \<in> set open_states \<Longrightarrow>
     t < rq_expires_at r \<Longrightarrow> eligible E (who :: actor) approver_roles \<Longrightarrow> actor_id who \<noteq> rq_submitter r \<Longrightarrow>
     wf_move E w (update_request E ''CHANGE_REJECTED''
       (r\<lparr>rq_state := REJECTED, rq_rejection := Some reason\<rparr>) (actor_id who) t [(''reason'', J_str reason)] w)"
| cancelled:
    "py_get (wf_requests w) (rq_id r) = Some r \<Longrightarrow> rq_state r \<in> set open_states \<Longrightarrow>
     t < rq_expires_at r \<Longrightarrow> actor_id (who :: actor) = rq_submitter r \<Longrightarrow>
     wf_move E w (update_request E ''CHANGE_CANCELLED'' (r\<lparr>rq_state := CANCELLED\<rparr>) (actor_id who) t [] w)"
| applied:
    "py_get (wf_requests w) (rq_id r) = Some r \<Longrightarrow> rq_state r = APPROVED \<Longrightarrow>
     t < rq_expires_at r \<Longrightarrow> eligible E (who :: actor) deployer_roles \<Longrightarrow>
     required_approvals (en_policy E) \<le> int (length (rq_approvals r)) \<Longrightarrow>
     \<forall>a\<in>set (rq_approvals r). approved_digest a = rq_digest r \<Longrightarrow>
     run_validator E (rq_config r) = None \<Longrightarrow>
     st_apply (en_store E) (apply_args_of E r) (wf_store w) = (Inr vc, st') \<Longrightarrow>
     wf_move E w (update_request E ''CHANGE_APPLIED''
       (r\<lparr>rq_applied_version := Some (vc_version vc), rq_state := APPLIED\<rparr>) (actor_id who) t
       [(''applied_version'', J_int (vc_version vc))] (w\<lparr>wf_store := st'\<rparr>))"
| apply_failed:
    "st_apply (en_store E) (apply_args_of E r) (wf_store w) = (Inl e, st') \<Longrightarrow>
     wf_move E w (w\<lparr>wf_store := st'\<rparr>)"
| reconciled:
    "py_get (wf_requests w) (rq_id r) = Some r \<Longrightarrow> rq_state r \<noteq> APPLIED \<Longrightarrow>
     st_applied (en_store E) (wf_store w) (rq_id r) (rq_digest r) = Inr (Some v) \<Longrightarrow>
     wf_move E w (update_request E ''CHANGE_RECONCILED''
       (r\<lparr>rq_state := APPLIED, rq_applied_version := Some v\<rparr>) ''SYSTEM'' t
       [(''applied_version'', J_int v)] w)"

definition keyed :: "'s workflow \<Rightarrow> bool" where
  "keyed w \<longleftrightarrow> (\<forall>rid r. py_get (wf_requests w) rid = Some r \<longrightarrow> rq_id r = rid)"

lemma update_request_simps [simp]:
  "wf_store (update_request E typ r who t x w) = wf_store w"
  "wf_requests (update_request E typ r who t x w) = py_set (wf_requests w) (rq_id r) r"
  by (simp_all add: update_request_def record_event_def Let_def)

lemma expire_moves:
  assumes "py_get (wf_requests w) rid = Some r0" "rq_id r0 = rid" "expire_if_needed E r0 t w = (r, w1)"
  shows "(wf_move E)\<^sup>*\<^sup>* w w1" "py_get (wf_requests w1) (rq_id r) = Some r" "rq_id r = rid"
    "rq_state r \<in> set open_states \<Longrightarrow> t < rq_expires_at r \<and> r = r0 \<and> w1 = w"
proof -
  show "(wf_move E)\<^sup>*\<^sup>* w w1"
  proof (cases "rq_state r0 \<in> set open_states \<and> rq_expires_at r0 \<le> t")
    case True
    then have "wf_move E w (update_request E ''CHANGE_EXPIRED'' (r0\<lparr>rq_state := EXPIRED\<rparr>) ''SYSTEM'' t [] w)"
      using assms(1,2) by (intro wf_move.expired) auto
    then show ?thesis using True assms(3) by (auto simp: expire_if_needed_def Let_def)
  next
    case False
    then show ?thesis using assms(3) by (auto simp: expire_if_needed_def)
  qed
  show "py_get (wf_requests w1) (rq_id r) = Some r" "rq_id r = rid"
    using assms by (auto simp: expire_if_needed_def Let_def dict_simps split: if_splits)
  show "rq_state r \<in> set open_states \<Longrightarrow> t < rq_expires_at r \<and> r = r0 \<and> w1 = w"
    using assms(3) by (auto simp: expire_if_needed_def Let_def open_states_def split: if_splits)
qed

lemma eligible_roles_iff: "eligible_roles who rs = [] \<longleftrightarrow> set (roles who) \<inter> set rs = {}"
  by (auto simp: eligible_roles_def filter_empty_conv)

lemma submit_checks_fields:
  "submit_checks E a who now = Inr r \<Longrightarrow>
   rq_state r = PENDING \<and> rq_approvals r = [] \<and> rq_applied_version r = None \<and>
   rq_submitter r = actor_id who \<and> rq_base_version r = sa_base_version a \<and>
   rq_expires_at r = rq_created_at r + request_ttl (en_policy E)"
  by (auto simp: submit_checks_def Let_def split: sum.splits if_splits option.splits)

lemma submit_refines: "(wf_move E)\<^sup>*\<^sup>* w (snd (submit_change E a who now w))"
proof (cases "submit_checks E a who now")
  case (Inr r)
  have "wf_move E w (update_request E ''CHANGE_SUBMITTED'' r (rq_submitter r) (rq_created_at r) [] w)"
    if "existing_request w r = None" "st_read (en_store E) (wf_store w) (rq_environment r) = Inr cur"
      "vc_version cur = rq_base_version r" for cur
    using that by (intro wf_move.submitted[OF Inr]) (auto simp: existing_request_def split: option.splits if_splits)
  then show ?thesis
    by (auto simp: submit_change_def submit_commit_def Inr split: option.splits sum.splits)
qed (simp add: submit_change_def)

text \<open>The operations that look a request up share this shape.\<close>

lemma reviewed_refines:
  assumes "keyed w" "py_get (wf_requests w) rid = Some r0" "expire_if_needed E r0 t w = (r, w1)"
    "w2 = w1 \<or> (rq_state r \<in> set open_states \<and> wf_move E w1 w2)"
  shows "(wf_move E)\<^sup>*\<^sup>* w w2"
  using expire_moves(1)[OF assms(2) _ assms(3)] assms(1,2,4)
  by (auto simp: keyed_def intro: rtranclp.rtrancl_into_rtrancl)

lemma approve_refines: "keyed w \<Longrightarrow> (wf_move E)\<^sup>*\<^sup>* w (snd (approve E rid who digest now w))"
proof -
  assume k: "keyed w"
  let ?el = "eligible_roles who (approver_roles (en_policy E))"
  show ?thesis
  proof (cases "\<exists>t r0. utc now = Inr t \<and> py_get (wf_requests w) rid = Some r0 \<and> ?el \<noteq> []")
    case True
    then obtain t r0 where t: "utc now = Inr t" and r0: "py_get (wf_requests w) rid = Some r0" and el: "?el \<noteq> []"
      by blast
    obtain r w1 where ex: "expire_if_needed E r0 t w = (r, w1)" by fastforce
    have id: "rq_id r0 = rid" using k r0 by (simp add: keyed_def)
    note em = expire_moves[OF r0 id ex]
    have role: "hd (sort ?el) \<in> set (approver_roles (en_policy E))"
    proof -
      have "hd (sort ?el) \<in> set (sort ?el)" using el by (metis hd_in_set set_empty set_sort)
      then show ?thesis by (simp add: eligible_roles_def)
    qed
    let ?a = "\<lparr>approver_id = actor_id who, approver_role = hd (sort ?el), approved_at = t, approved_digest = rq_digest r\<rparr>"
    let ?w2 = "snd (approve E rid who digest now w)"
    have "?w2 = w1 \<or> (rq_state r \<in> set open_states \<and> wf_move E w1 ?w2)"
    proof (cases "digest_matches r digest \<and> rq_state r \<in> set open_states \<and> actor_id who \<noteq> rq_submitter r \<and>
        \<not> list_ex (\<lambda>a. approver_id a = actor_id who) (rq_approvals r)")
      case True
      then have "?w2 = update_request E ''CHANGE_APPROVED'' (add_approval (en_policy E) r ?a) (actor_id who) t [] w1"
        using t r0 el ex by (auto simp: approve_def add_approval_def Let_def open_states_def)
      moreover have "wf_move E w1 (update_request E ''CHANGE_APPROVED'' (add_approval (en_policy E) r ?a) (actor_id who) t [] w1)"
        using True em(2,4) role el
        by (intro wf_move.approved) (auto simp: eligible_def eligible_roles_iff list_ex_iff)
      ultimately show ?thesis using True by simp
    next
      case False
      then show ?thesis using t r0 el ex by (auto simp: approve_def Let_def)
    qed
    then show ?thesis by (rule reviewed_refines[OF k r0 ex])
  next
    case False
    then show ?thesis by (auto simp: approve_def Let_def split: sum.splits option.splits)
  qed
qed

lemma reject_refines: "keyed w \<Longrightarrow> (wf_move E)\<^sup>*\<^sup>* w (snd (reject E rid who digest reason now w))"
proof -
  assume k: "keyed w"
  let ?el = "eligible_roles who (approver_roles (en_policy E))"
  let ?w2 = "snd (reject E rid who digest reason now w)"
  show ?thesis
  proof (cases "\<exists>t r0 s. utc now = Inr t \<and> required_text reason = Inr s \<and> py_get (wf_requests w) rid = Some r0 \<and> ?el \<noteq> []")
    case True
    then obtain t r0 s where t: "utc now = Inr t" "required_text reason = Inr s"
      and r0: "py_get (wf_requests w) rid = Some r0" and el: "?el \<noteq> []" by blast
    obtain r w1 where ex: "expire_if_needed E r0 t w = (r, w1)" by fastforce
    have id: "rq_id r0 = rid" using k r0 by (simp add: keyed_def)
    note em = expire_moves[OF r0 id ex]
    have "?w2 = w1 \<or> (rq_state r \<in> set open_states \<and> wf_move E w1 ?w2)"
    proof (cases "digest_matches r digest \<and> rq_state r \<in> set open_states \<and> actor_id who \<noteq> rq_submitter r")
      case True
      then have "?w2 = update_request E ''CHANGE_REJECTED'' (r\<lparr>rq_state := REJECTED, rq_rejection := Some s\<rparr>)
          (actor_id who) t [(''reason'', J_str s)] w1"
        using t r0 el ex by (auto simp: reject_def Let_def)
      moreover have "wf_move E w1 (update_request E ''CHANGE_REJECTED''
          (r\<lparr>rq_state := REJECTED, rq_rejection := Some s\<rparr>) (actor_id who) t [(''reason'', J_str s)] w1)"
        using True em(2,4) el by (intro wf_move.rejected) (auto simp: eligible_def eligible_roles_iff)
      ultimately show ?thesis using True by simp
    next
      case False
      then show ?thesis using t r0 el ex by (auto simp: reject_def Let_def)
    qed
    then show ?thesis by (rule reviewed_refines[OF k r0 ex])
  next
    case False
    then show ?thesis by (auto simp: reject_def Let_def split: sum.splits option.splits)
  qed
qed

lemma cancel_refines: "keyed w \<Longrightarrow> (wf_move E)\<^sup>*\<^sup>* w (snd (cancel E rid who digest now w))"
proof -
  assume k: "keyed w"
  let ?el = "eligible_roles who (submitter_roles (en_policy E))"
  let ?w2 = "snd (cancel E rid who digest now w)"
  show ?thesis
  proof (cases "\<exists>t r0. utc now = Inr t \<and> py_get (wf_requests w) rid = Some r0 \<and> ?el \<noteq> []")
    case True
    then obtain t r0 where t: "utc now = Inr t" and r0: "py_get (wf_requests w) rid = Some r0" and el: "?el \<noteq> []"
      by blast
    obtain r w1 where ex: "expire_if_needed E r0 t w = (r, w1)" by fastforce
    have id: "rq_id r0 = rid" using k r0 by (simp add: keyed_def)
    note em = expire_moves[OF r0 id ex]
    have "?w2 = w1 \<or> (rq_state r \<in> set open_states \<and> wf_move E w1 ?w2)"
    proof (cases "digest_matches r digest \<and> actor_id who = rq_submitter r \<and> rq_state r \<in> set open_states")
      case True
      then have "?w2 = update_request E ''CHANGE_CANCELLED'' (r\<lparr>rq_state := CANCELLED\<rparr>) (actor_id who) t [] w1"
        using t r0 el ex by (auto simp: cancel_def Let_def)
      moreover have "wf_move E w1 (update_request E ''CHANGE_CANCELLED'' (r\<lparr>rq_state := CANCELLED\<rparr>) (actor_id who) t [] w1)"
        using True em(2,4) by (intro wf_move.cancelled) auto
      ultimately show ?thesis using True by simp
    next
      case False
      then show ?thesis using t r0 el ex by (auto simp: cancel_def Let_def)
    qed
    then show ?thesis by (rule reviewed_refines[OF k r0 ex])
  next
    case False
    then show ?thesis by (auto simp: cancel_def Let_def split: sum.splits option.splits)
  qed
qed

lemma commit_refines:
  assumes "py_get (wf_requests w) (rq_id r) = Some r" "rq_state r = APPROVED" "t < rq_expires_at r"
    "eligible E who deployer_roles" "required_approvals (en_policy E) \<le> int (length (rq_approvals r))"
    "\<forall>a\<in>set (rq_approvals r). approved_digest a = rq_digest r" "run_validator E (rq_config r) = None"
  shows "wf_move E w (snd (commit_apply E r who t w))"
proof (cases "st_apply (en_store E) (apply_args_of E r) (wf_store w)")
  case (Pair res st')
  then show ?thesis
    using wf_move.apply_failed[of E r w _ st'] wf_move.applied[OF assms, of _ st']
    by (cases res) (simp_all add: commit_apply_def Let_def)
qed

lemma apply_refines: "keyed w \<Longrightarrow> (wf_move E)\<^sup>*\<^sup>* w (snd (apply_change E rid who digest now w))"
proof -
  assume k: "keyed w"
  let ?el = "eligible_roles who (deployer_roles (en_policy E))"
  let ?w2 = "snd (apply_change E rid who digest now w)"
  let ?dep = "\<lambda>r. require_independent_applier (en_policy E) \<and>
    (actor_id who = rq_submitter r \<or> list_ex (\<lambda>a. approver_id a = actor_id who) (rq_approvals r))"
  show ?thesis
  proof (cases "\<exists>t r0. utc now = Inr t \<and> py_get (wf_requests w) rid = Some r0 \<and> ?el \<noteq> [] \<and>
      digest_matches r0 digest \<and> \<not> ?dep r0 \<and> rq_state r0 \<noteq> APPLIED")
    case True
    then obtain t r0 where t: "utc now = Inr t" and r0: "py_get (wf_requests w) rid = Some r0"
      and g: "?el \<noteq> []" "digest_matches r0 digest" "\<not> ?dep r0" "rq_state r0 \<noteq> APPLIED" by blast
    obtain r w1 where ex: "expire_if_needed E r0 t w = (r, w1)" by fastforce
    have id: "rq_id r0 = rid" using k r0 by (simp add: keyed_def)
    note em = expire_moves[OF r0 id ex]
    have w2: "?w2 = (if rq_state r = APPROVED \<and> required_approvals (en_policy E) \<le> int (length (rq_approvals r)) \<and>
        (\<forall>a\<in>set (rq_approvals r). approved_digest a = rq_digest r) \<and> run_validator E (rq_config r) = None
      then snd (commit_apply E r who t w1) else w1)"
      using t r0 g ex by (auto simp: apply_change_def Let_def list_ex_iff split: option.splits)
    have "?w2 = w1 \<or> (rq_state r \<in> set open_states \<and> wf_move E w1 ?w2)"
    proof (cases "?w2 = w1")
      case False
      then have c: "rq_state r = APPROVED" "required_approvals (en_policy E) \<le> int (length (rq_approvals r))"
        "\<forall>a\<in>set (rq_approvals r). approved_digest a = rq_digest r" "run_validator E (rq_config r) = None"
        "?w2 = snd (commit_apply E r who t w1)"
        unfolding w2 by (simp_all split: if_splits)
      moreover have "rq_state r \<in> set open_states" using c(1) by (simp add: open_states_def)
      ultimately show ?thesis
        using em(2,4) g(1)
        by (auto simp: eligible_def eligible_roles_iff intro!: commit_refines)
    qed simp
    then show ?thesis by (rule reviewed_refines[OF k r0 ex])
  next
    case False
    then have "?w2 = w"
      by (auto simp: apply_change_def Let_def split: sum.splits option.splits)
    then show ?thesis by simp
  qed
qed

lemma reconcile_refines: "keyed w \<Longrightarrow> (wf_move E)\<^sup>*\<^sup>* w (snd (reconcile E rid now w))"
proof -
  assume k: "keyed w"
  show ?thesis
  proof (cases "\<exists>t r x. utc now = Inr t \<and> py_get (wf_requests w) rid = Some r \<and>
      st_applied (en_store E) (wf_store w) (rq_id r) (rq_digest r) = Inr x")
    case True
    then obtain t r x where t: "utc now = Inr t" "py_get (wf_requests w) rid = Some r"
      "st_applied (en_store E) (wf_store w) (rq_id r) (rq_digest r) = Inr x" by blast
    have id: "rq_id r = rid" using k t(2) by (simp add: keyed_def)
    show ?thesis
    proof (cases x)
      case None
      obtain r1 w1 where ex: "expire_if_needed E r t w = (r1, w1)" by fastforce
      then show ?thesis using expire_moves(1)[OF t(2) id ex] t None by (simp add: reconcile_def)
    next
      case (Some v)
      then show ?thesis
        using t id wf_move.reconciled[of w r E v t] by (auto simp: reconcile_def Let_def)
    qed
  next
    case False
    then have "snd (reconcile E rid now w) = w"
      by (auto simp: reconcile_def split: sum.splits option.splits)
    then show ?thesis by simp
  qed
qed

lemma step_refines: "keyed w \<Longrightarrow> (wf_move E)\<^sup>*\<^sup>* w (workflow_step E ev w)"
proof (cases ev)
  case (Wf_Event c i rs now)
  moreover assume "keyed w"
  ultimately show ?thesis
    by (cases c) (auto split: sum.splits intro: submit_refines approve_refines reject_refines
      cancel_refines apply_refines)
qed (simp add: reconcile_refines)

section \<open>The invariant\<close>

text \<open>Four eyes: who signed a request off, and for what.\<close>

definition signed_off :: "policy \<Rightarrow> mutable_request \<Rightarrow> bool" where
  "signed_off P r \<longleftrightarrow>
     distinct (map approver_id (rq_approvals r)) \<and>
     required_approvals P \<le> int (length (rq_approvals r)) \<and>
     (\<forall>a\<in>set (rq_approvals r). approver_id a \<noteq> rq_submitter r \<and> approved_digest a = rq_digest r \<and>
        approver_role a \<in> set (approver_roles P) \<and> approved_at a < rq_expires_at r)"

definition request_ok :: "policy \<Rightarrow> mutable_request \<Rightarrow> bool" where
  "request_ok P r \<longleftrightarrow>
     distinct (map approver_id (rq_approvals r)) \<and>
     (\<forall>a\<in>set (rq_approvals r). approver_id a \<noteq> rq_submitter r \<and> approved_digest a = rq_digest r \<and>
        approver_role a \<in> set (approver_roles P) \<and> approved_at a < rq_expires_at r) \<and>
     (rq_state r \<in> {APPROVED, APPLIED} \<longrightarrow> required_approvals P \<le> int (length (rq_approvals r))) \<and>
     (rq_state r = PENDING \<longrightarrow> int (length (rq_approvals r)) < required_approvals P)"

definition body_of :: "audit_event \<Rightarrow> string" where
  "body_of e = event_body (ae_sequence e) (ae_type e) (ae_request e) (ae_actor e)
     (ae_occurred_at e) (ae_details e) (ae_previous e)"

definition chain_ok :: "(string \<Rightarrow> string) \<Rightarrow> audit_event list \<Rightarrow> bool" where
  "chain_ok sha evs \<longleftrightarrow>
     (\<forall>i<length evs. ae_sequence (evs ! i) = int i + 1 \<and>
        ae_previous (evs ! i) = previous_hash (take i evs) \<and> ae_hash (evs ! i) = sha (body_of (evs ! i)))"

definition ledger_agrees :: "(string \<Rightarrow> (string \<times> int) option) \<Rightarrow> 's workflow \<Rightarrow> bool" where
  "ledger_agrees L w \<longleftrightarrow>
     (\<forall>rid d v. L rid = Some (d, v) \<longleftrightarrow>
        (\<exists>r. py_get (wf_requests w) rid = Some r \<and> rq_state r = APPLIED \<and> rq_digest r = d \<and>
             rq_applied_version r = Some v)) \<and>
     (\<forall>rid r. py_get (wf_requests w) rid = Some r \<longrightarrow>
        (rq_state r = APPLIED \<longleftrightarrow> rq_applied_version r \<noteq> None))"

definition wf_inv ::
    "('s \<Rightarrow> bool) \<Rightarrow> ('s \<Rightarrow> string \<Rightarrow> (string \<times> int) option) \<Rightarrow> 's environment \<Rightarrow> 's workflow \<Rightarrow> bool" where
  "wf_inv ok ledger E w \<longleftrightarrow>
     ok (wf_store w) \<and> keyed w \<and> dict_ok (wf_requests w) \<and>
     (\<forall>rid r. py_get (wf_requests w) rid = Some r \<longrightarrow> request_ok (en_policy E) r) \<and>
     ledger_agrees (ledger (wf_store w)) w \<and> chain_ok (en_sha256 E) (wf_events w)"

lemma keyed_update: "keyed w \<Longrightarrow> keyed (update_request E typ r who t x w)"
  by (simp add: keyed_def dict_simps)

lemma chain_ok_snoc:
  "chain_ok sha evs \<Longrightarrow> ae_sequence e = int (length evs) + 1 \<Longrightarrow> ae_previous e = previous_hash evs \<Longrightarrow>
   ae_hash e = sha (body_of e) \<Longrightarrow> chain_ok sha (evs @ [e])"
  by (auto simp: chain_ok_def nth_append less_Suc_eq)

lemma chain_update:
  "chain_ok (en_sha256 E) (wf_events w) \<Longrightarrow>
   chain_ok (en_sha256 E) (wf_events (update_request E typ r who t x w))"
  by (auto simp: update_request_def record_event_def Let_def body_of_def intro!: chain_ok_snoc)

lemma chain_store: "wf_events (w\<lparr>wf_store := st\<rparr>) = wf_events w"
  by simp

text \<open>A request that is not in the ledger is rewritten without becoming \<open>APPLIED\<close>.\<close>

lemma ledger_agrees_set:
  assumes "ledger_agrees L w" "wf_requests w' = py_set (wf_requests w) (rq_id r') r'"
    "rq_state r' \<noteq> APPLIED" "rq_applied_version r' = None"
    "\<And>r. py_get (wf_requests w) (rq_id r') = Some r \<Longrightarrow> rq_state r \<noteq> APPLIED"
  shows "ledger_agrees L w'"
proof -
  have "L (rq_id r') = None"
    using assms(1,5) unfolding ledger_agrees_def by (metis not_None_eq surj_pair)
  moreover have "\<And>r. py_get (wf_requests w) (rq_id r') = Some r \<Longrightarrow> rq_applied_version r = None"
    using assms(1,5) unfolding ledger_agrees_def by blast
  ultimately show ?thesis using assms(1-5) by (fastforce simp: ledger_agrees_def dict_simps)
qed

lemma ledger_agrees_apply:
  assumes "ledger_agrees L w" "wf_requests w' = py_set (wf_requests w) (rq_id r') r'"
    "rq_state r' = APPLIED" "rq_applied_version r' = Some v"
    "L' = L(rq_id r' \<mapsto> (rq_digest r', v))"
  shows "ledger_agrees L' w'"
  using assms by (auto simp: ledger_agrees_def dict_simps)

lemma ledger_none:
  "ledger_agrees L w \<Longrightarrow> py_get (wf_requests w) rid = Some r \<Longrightarrow> rq_state r \<noteq> APPLIED \<Longrightarrow> L rid = None"
  unfolding ledger_agrees_def by (metis not_None_eq option.inject surj_pair)

lemma ledger_open:
  "ledger_agrees L w \<Longrightarrow> py_get (wf_requests w) rid = Some r \<Longrightarrow> rq_state r \<in> set open_states \<Longrightarrow>
   rq_applied_version r = None"
  unfolding ledger_agrees_def open_states_def by fastforce

lemma open_not_applied: "rq_state r \<in> set open_states \<Longrightarrow> rq_state r \<noteq> APPLIED"
  by (auto simp: open_states_def)

lemma request_ok_closed:
  "request_ok P r \<Longrightarrow> x \<notin> {PENDING, APPROVED, APPLIED} \<Longrightarrow> request_ok P (r\<lparr>rq_state := x\<rparr>)"
  by (auto simp: request_ok_def)

lemma request_ok_fresh:
  "1 \<le> required_approvals P \<Longrightarrow> rq_state r = PENDING \<Longrightarrow> rq_approvals r = [] \<Longrightarrow> request_ok P r"
  by (simp add: request_ok_def)

lemma request_ok_add:
  assumes "request_ok P r" "rq_state r \<in> set open_states" "t < rq_expires_at r" "who \<noteq> rq_submitter r"
    "who \<notin> approver_id ` set (rq_approvals r)" "approver_id a = who" "approver_role a \<in> set (approver_roles P)"
    "approved_at a = t" "approved_digest a = rq_digest r"
  shows "request_ok P (add_approval P r a)"
  using assms by (auto simp: request_ok_def add_approval_def Let_def open_states_def)

context versioned_store
begin

text \<open>Every step of the specification keeps the invariant, for every store of the contract.\<close>

lemma move_inv:
  assumes "wf_move E w w'" "en_store E = I" "1 \<le> required_approvals (en_policy E)" "wf_inv ok ledger E w"
  shows "wf_inv ok ledger E w'"
  using assms(1,4)
proof (induction)
  case (submitted a who now r w cur)
  note f = submit_checks_fields[OF submitted(1)]
  have "ledger_agrees (ledger (wf_store w)) (update_request E ''CHANGE_SUBMITTED'' r (rq_submitter r) (rq_created_at r) [] w)"
    by (rule ledger_agrees_set[where r' = r]) (use submitted f in \<open>auto simp: wf_inv_def\<close>)
  then show ?case using submitted(5) f request_ok_fresh[OF assms(3)]
    by (auto simp: wf_inv_def keyed_update chain_update dict_simps)
next
  case (expired w r t)
  have "ledger_agrees (ledger (wf_store w)) (update_request E ''CHANGE_EXPIRED'' (r\<lparr>rq_state := EXPIRED\<rparr>) ''SYSTEM'' t [] w)"
    by (rule ledger_agrees_set[where r' = "r\<lparr>rq_state := EXPIRED\<rparr>"])
      (use expired in \<open>auto simp: wf_inv_def intro: ledger_open dest: open_not_applied\<close>)
  then show ?case using expired(1,4)
    by (auto simp: wf_inv_def keyed_update chain_update dict_simps request_ok_closed)
next
  case (approved w r t who a)
  have "ledger_agrees (ledger (wf_store w)) (update_request E ''CHANGE_APPROVED'' (add_approval (en_policy E) r a) (actor_id who) t [] w)"
    by (rule ledger_agrees_set[where r' = "add_approval (en_policy E) r a"])
      (use approved in \<open>auto simp: wf_inv_def intro: ledger_open dest: open_not_applied\<close>)
  then show ?case using approved request_ok_add[of "en_policy E" r t "actor_id who" a]
    by (auto simp: wf_inv_def keyed_update chain_update dict_simps)
next
  case (rejected w r t who reason)
  let ?r = "r\<lparr>rq_state := REJECTED, rq_rejection := Some reason\<rparr>"
  have "ledger_agrees (ledger (wf_store w)) (update_request E ''CHANGE_REJECTED'' ?r (actor_id who) t [(''reason'', J_str reason)] w)"
    by (rule ledger_agrees_set[where r' = ?r]) (use rejected in \<open>auto simp: wf_inv_def intro: ledger_open dest: open_not_applied\<close>)
  moreover have "request_ok (en_policy E) ?r"
    using rejected(1,6) by (auto simp: wf_inv_def request_ok_def)
  ultimately show ?case using rejected(6)
    by (auto simp: wf_inv_def keyed_update chain_update dict_simps)
next
  case (cancelled w r t who)
  have "ledger_agrees (ledger (wf_store w)) (update_request E ''CHANGE_CANCELLED'' (r\<lparr>rq_state := CANCELLED\<rparr>) (actor_id who) t [] w)"
    by (rule ledger_agrees_set[where r' = "r\<lparr>rq_state := CANCELLED\<rparr>"])
      (use cancelled in \<open>auto simp: wf_inv_def intro: ledger_open dest: open_not_applied\<close>)
  then show ?case using cancelled(1,5)
    by (auto simp: wf_inv_def keyed_update chain_update dict_simps request_ok_closed)
next
  case (applied w r t who vc st')
  let ?r = "r\<lparr>rq_applied_version := Some (vc_version vc), rq_state := APPLIED\<rparr>"
  have none: "ledger (wf_store w) (rq_id r) = None"
    using applied(1,2,9) by (auto simp: wf_inv_def intro: ledger_none)
  have st': "st_apply I (apply_args_of E r) (wf_store w) = (Inr vc, st')" using applied(8) assms(2) by simp
  then have L: "ledger st' = (ledger (wf_store w))(rq_id r \<mapsto> (rq_digest r, vc_version vc))"
    using apply_new[of "wf_store w" "apply_args_of E r"] none by (simp add: apply_args_of_def)
  have "ledger_agrees (ledger st') (update_request E ''CHANGE_APPLIED'' ?r (actor_id who) t
      [(''applied_version'', J_int (vc_version vc))] (w\<lparr>wf_store := st'\<rparr>))"
    by (rule ledger_agrees_apply[where r' = ?r and L = "ledger (wf_store w)" and w = w])
      (use applied(9) L in \<open>auto simp: wf_inv_def\<close>)
  moreover have "request_ok (en_policy E) ?r"
    using applied(1,2,9) by (auto simp: wf_inv_def request_ok_def)
  moreover have "ok st'" using apply_keeps[of "wf_store w" "apply_args_of E r"] st' applied(9) by (simp add: wf_inv_def)
  ultimately show ?case using applied(9)
    by (auto simp: wf_inv_def keyed_def chain_update dict_simps)
next
  case (apply_failed r w e st')
  then have "st' = wf_store w" using apply_fails assms(2) by metis
  then show ?case using apply_failed(2) by simp
next
  case (reconciled w r v t)
  then have "ledger (wf_store w) (rq_id r) = None" by (auto simp: wf_inv_def intro: ledger_none)
  then show ?case using reconciled(3) assms(2) by (simp add: applied_ledger)
qed

lemma moves_inv:
  "(wf_move E)\<^sup>*\<^sup>* w w' \<Longrightarrow> en_store E = I \<Longrightarrow> 1 \<le> required_approvals (en_policy E) \<Longrightarrow>
   wf_inv ok ledger E w \<Longrightarrow> wf_inv ok ledger E w'"
  by (induction rule: rtranclp_induct) (auto intro: move_inv)

end

end
