(* ===== verification/Approval_Properties.thy ===== *)
theory Approval_Properties
  imports Approval_Lifecycle
begin

text \<open>
  The properties of the approval workflow over the in-memory store: nothing goes live without
  its quorum, versions are compare-and-set and never shared, requests only move along their
  life cycle, the audit log is hash-chained and append-only, expiry holds, retries are
  idempotent, and the payload guards are exact.
\<close>

section \<open>Progress\<close>

inductive lifecycle :: "change_state \<Rightarrow> change_state \<Rightarrow> bool" where
  sign: "lifecycle PENDING APPROVED"
| publish: "lifecycle APPROVED APPLIED"
| close: "x \<in> set open_states \<Longrightarrow> y \<in> {REJECTED, CANCELLED, EXPIRED} \<Longrightarrow> lifecycle x y"

inductive_cases lifecycle_from_applied: "lifecycle APPLIED y"
inductive_cases lifecycle_from_rejected: "lifecycle REJECTED y"
inductive_cases lifecycle_from_cancelled: "lifecycle CANCELLED y"
inductive_cases lifecycle_from_expired: "lifecycle EXPIRED y"

lemmas lifecycle_terminal =
  lifecycle_from_applied lifecycle_from_rejected lifecycle_from_cancelled lifecycle_from_expired

lemma lifecycle_final:
  assumes "lifecycle\<^sup>*\<^sup>* x y" "x \<in> {APPLIED, REJECTED, CANCELLED, EXPIRED}"
  shows "y = x"
  using assms by (induction rule: converse_rtranclp_induct) (auto elim: lifecycle_terminal simp: open_states_def)

text \<open>What a later state owes an earlier version of the same request.\<close>

definition request_evolves :: "mutable_request \<Rightarrow> mutable_request \<Rightarrow> bool" where
  "request_evolves r r' \<longleftrightarrow>
     rq_id r' = rq_id r \<and> rq_environment r' = rq_environment r \<and> rq_base_version r' = rq_base_version r \<and>
     rq_submitter r' = rq_submitter r \<and> rq_config r' = rq_config r \<and> rq_digest r' = rq_digest r \<and>
     rq_expires_at r' = rq_expires_at r \<and> prefix (rq_approvals r) (rq_approvals r') \<and>
     lifecycle\<^sup>*\<^sup>* (rq_state r) (rq_state r')"

lemma request_evolves_refl [simp]: "request_evolves r r"
  by (simp add: request_evolves_def)

lemma request_evolves_trans: "request_evolves r s \<Longrightarrow> request_evolves s t \<Longrightarrow> request_evolves r t"
  by (auto simp: request_evolves_def intro: rtranclp_trans prefix_order.trans)

definition wf_evolves :: "('s \<Rightarrow> string \<Rightarrow> wf_error + versioned_config) \<Rightarrow> 's workflow \<Rightarrow> 's workflow \<Rightarrow> bool" where
  "wf_evolves rd w w' \<longleftrightarrow>
     prefix (wf_events w) (wf_events w') \<and>
     (\<forall>rid r. py_get (wf_requests w) rid = Some r \<longrightarrow>
        (\<exists>r'. py_get (wf_requests w') rid = Some r' \<and> request_evolves r r')) \<and>
     (\<forall>env cur. rd (wf_store w) env = Inr cur \<longrightarrow>
        (\<exists>cur'. rd (wf_store w') env = Inr cur' \<and> vc_version cur \<le> vc_version cur'))"

lemma wf_evolves_refl: "wf_evolves rd w w"
  by (auto simp: wf_evolves_def)

lemma wf_evolves_trans: "wf_evolves rd w w' \<Longrightarrow> wf_evolves rd w' w'' \<Longrightarrow> wf_evolves rd w w''"
  unfolding wf_evolves_def
  by (meson order_trans prefix_order.trans request_evolves_trans)

lemma prefix_update: "prefix (wf_events w) (wf_events (update_request E typ r who t x w))"
  by (simp add: update_request_def record_event_def Let_def)

lemma evolves_update:
  assumes "py_get (wf_requests w) (rq_id r') = Some r \<Longrightarrow> request_evolves r r'"
    "\<And>x. py_get (wf_requests w) (rq_id r') = Some x \<Longrightarrow> x = r"
    "st' = wf_store w \<or> (\<forall>env cur. rd (wf_store w) env = Inr cur \<longrightarrow>
        (\<exists>cur'. rd st' env = Inr cur' \<and> vc_version cur \<le> vc_version cur'))"
  shows "wf_evolves rd w (update_request E typ r' who t x (w\<lparr>wf_store := st'\<rparr>))"
  unfolding wf_evolves_def
proof (intro conjI allI impI)
  show "prefix (wf_events w) (wf_events (update_request E typ r' who t x (w\<lparr>wf_store := st'\<rparr>)))"
    using prefix_update[of "w\<lparr>wf_store := st'\<rparr>"] by simp
next
  fix rid s assume s: "py_get (wf_requests w) rid = Some s"
  show "\<exists>s'. py_get (wf_requests (update_request E typ r' who t x (w\<lparr>wf_store := st'\<rparr>))) rid = Some s' \<and>
      request_evolves s s'"
  proof (cases "rid = rq_id r'")
    case True
    then show ?thesis using s assms(1,2) by (simp add: dict_simps)
  next
    case False
    then show ?thesis using s by (simp add: dict_simps)
  qed
next
  fix env cur assume "rd (wf_store w) env = Inr cur"
  then show "\<exists>cur'. rd (wf_store (update_request E typ r' who t x (w\<lparr>wf_store := st'\<rparr>))) env = Inr cur' \<and>
      vc_version cur \<le> vc_version cur'" using assms(3) by auto
qed

lemma evolves_update_same:
  assumes "py_get (wf_requests w) (rq_id r') = Some r" "request_evolves r r'"
  shows "wf_evolves rd w (update_request E typ r' who t x w)"
proof -
  have "wf_evolves rd w (update_request E typ r' who t x (w\<lparr>wf_store := wf_store w\<rparr>))"
    by (rule evolves_update[where r = r]) (use assms in auto)
  then show ?thesis by simp
qed

lemma lifecycle_one:
  "lifecycle\<^sup>*\<^sup>* PENDING APPROVED" "lifecycle\<^sup>*\<^sup>* APPROVED APPLIED"
  "x \<in> set open_states \<Longrightarrow> y \<in> {REJECTED, CANCELLED, EXPIRED} \<Longrightarrow> lifecycle\<^sup>*\<^sup>* x y"
  by (blast intro: r_into_rtranclp lifecycle.intros)+

lemma add_approval_evolves:
  assumes "rq_state r \<in> set open_states"
  shows "request_evolves r (add_approval P r a)"
  using assms by (auto simp: request_evolves_def open_states_def intro: lifecycle_one)

definition live_traced :: "'s store_iface \<Rightarrow> 's \<Rightarrow> 's workflow \<Rightarrow> bool" where
  "live_traced I st0 w \<longleftrightarrow>
     (\<forall>env cur. st_read I (wf_store w) env = Inr cur \<longrightarrow>
        st_read I st0 env = Inr cur \<or>
        (\<exists>rid r. py_get (wf_requests w) rid = Some r \<and> rq_state r = APPLIED \<and> rq_environment r = env \<and>
           rq_applied_version r = Some (vc_version cur) \<and> rq_config r = vc_config cur)) \<and>
     (\<forall>rid r v. py_get (wf_requests w) rid = Some r \<longrightarrow> rq_applied_version r = Some v \<longrightarrow>
        v = rq_base_version r + 1 \<and>
        (\<exists>cur. st_read I (wf_store w) (rq_environment r) = Inr cur \<and> v \<le> vc_version cur)) \<and>
     (\<forall>i r j s. py_get (wf_requests w) i = Some r \<longrightarrow> py_get (wf_requests w) j = Some s \<longrightarrow>
        rq_applied_version r \<noteq> None \<longrightarrow> rq_applied_version r = rq_applied_version s \<longrightarrow>
        rq_environment r = rq_environment s \<longrightarrow> i = j)"

lemma traced_open:
  assumes "live_traced I st0 w" "wf_store w' = wf_store w" "wf_requests w' = py_set (wf_requests w) (rq_id r) r"
    "rq_applied_version r = None"
    "\<And>s. py_get (wf_requests w) (rq_id r) = Some s \<Longrightarrow> rq_applied_version s = None"
  shows "live_traced I st0 w'"
proof -
  have "py_get (wf_requests w') rid = (if rid = rq_id r then Some r else py_get (wf_requests w) rid)" for rid
    by (simp add: assms(3) dict_simps)
  then have keep: "py_get (wf_requests w') rid = Some s \<and> rq_applied_version s \<noteq> None \<longleftrightarrow>
      py_get (wf_requests w) rid = Some s \<and> rq_applied_version s \<noteq> None" for rid s
    using assms(4,5) by auto
  show ?thesis
    unfolding live_traced_def assms(2)
  proof (intro conjI allI impI)
    fix env cur assume "st_read I (wf_store w) env = Inr cur"
    then show "st_read I st0 env = Inr cur \<or>
        (\<exists>rid r. py_get (wf_requests w') rid = Some r \<and> rq_state r = APPLIED \<and> rq_environment r = env \<and>
           rq_applied_version r = Some (vc_version cur) \<and> rq_config r = vc_config cur)"
    proof -
      assume "st_read I (wf_store w) env = Inr cur"
      then consider "st_read I st0 env = Inr cur" | rid r where "py_get (wf_requests w) rid = Some r"
        "rq_state r = APPLIED" "rq_environment r = env" "rq_applied_version r = Some (vc_version cur)"
        "rq_config r = vc_config cur" using assms(1) unfolding live_traced_def by blast
      then show ?thesis
      proof cases
        case (2 rid s)
        then have "py_get (wf_requests w') rid = Some s" using keep[of rid s] by simp
        then show ?thesis using 2 by blast
      qed simp
    qed
  next
    fix rid s v assume "py_get (wf_requests w') rid = Some s" "rq_applied_version s = Some v"
    then have "py_get (wf_requests w) rid = Some s" "rq_applied_version s = Some v" using keep by auto
    then show "v = rq_base_version s + 1"
      "\<exists>cur. st_read I (wf_store w) (rq_environment s) = Inr cur \<and> v \<le> vc_version cur"
      using assms(1) unfolding live_traced_def by blast+
  next
    fix i s j u assume "py_get (wf_requests w') i = Some s" "py_get (wf_requests w') j = Some u"
      "rq_applied_version s \<noteq> None" "rq_applied_version s = rq_applied_version u"
      "rq_environment s = rq_environment u"
    moreover from calculation have "py_get (wf_requests w) i = Some s" "py_get (wf_requests w) j = Some u"
      using keep[of i s] keep[of j u] by auto
    ultimately show "i = j" using assms(1) unfolding live_traced_def by blast
  qed
qed

lemma traced_applied:
  assumes "live_traced I st0 w" "py_get (wf_requests w) (rq_id r) = Some r" "rq_applied_version r = None"
    "wf_requests w' = py_set (wf_requests w) (rq_id r) r'" "rq_state r' = APPLIED"
    "rq_environment r' = rq_environment r" "rq_config r' = vc_config vc" "rq_base_version r' = vc_version cur"
    "rq_applied_version r' = Some (vc_version vc)" "vc_version vc = vc_version cur + 1"
    "st_read I (wf_store w) (rq_environment r) = Inr cur"
    "st_read I (wf_store w') = (st_read I (wf_store w))(rq_environment r := Inr vc)"
  shows "live_traced I st0 w'"
  unfolding live_traced_def
proof (intro conjI allI impI)
  have get: "py_get (wf_requests w') rid = (if rid = rq_id r then Some r' else py_get (wf_requests w) rid)" for rid
    by (simp add: assms(4) dict_simps)
  have old: "rid \<noteq> rq_id r" if "py_get (wf_requests w) rid = Some s" "rq_applied_version s \<noteq> None" for rid s
    using that assms(2,3) by auto
  {
    fix env c assume c: "st_read I (wf_store w') env = Inr c"
    show "st_read I st0 env = Inr c \<or>
        (\<exists>rid r. py_get (wf_requests w') rid = Some r \<and> rq_state r = APPLIED \<and> rq_environment r = env \<and>
           rq_applied_version r = Some (vc_version c) \<and> rq_config r = vc_config c)"
    proof (cases "env = rq_environment r")
      case True
      then have "c = vc" using c assms(12) by simp
      then show ?thesis using True assms(5-7,9) get[of "rq_id r"] by auto
    next
      case False
      then have "st_read I (wf_store w) env = Inr c" using c assms(12) by simp
      then consider "st_read I st0 env = Inr c" | rid s where "py_get (wf_requests w) rid = Some s"
        "rq_state s = APPLIED" "rq_environment s = env" "rq_applied_version s = Some (vc_version c)"
        "rq_config s = vc_config c" using assms(1) unfolding live_traced_def by blast
      then show ?thesis
      proof cases
        case (2 rid s)
        then have "py_get (wf_requests w') rid = Some s" using old get by simp
        then show ?thesis using 2 by blast
      qed simp
    qed
  }
  have bound: "v = rq_base_version s + 1 \<and>
      (\<exists>c. st_read I (wf_store w') (rq_environment s) = Inr c \<and> v \<le> vc_version c)"
    if s: "py_get (wf_requests w') rid = Some s" "rq_applied_version s = Some v" for rid s v
  proof (cases "rid = rq_id r")
    case True
    then show ?thesis using s get assms(6,8,9,10,12) by auto
  next
    case False
    then have "py_get (wf_requests w) rid = Some s" using s(1) get by simp
    then obtain c where "v = rq_base_version s + 1" "st_read I (wf_store w) (rq_environment s) = Inr c" "v \<le> vc_version c"
      using assms(1) s(2) unfolding live_traced_def by blast
    then show ?thesis using assms(10-12) by (cases "rq_environment s = rq_environment r") auto
  qed
  fix rid s v assume "py_get (wf_requests w') rid = Some s" "rq_applied_version s = Some v"
  then show "v = rq_base_version s + 1"
    "\<exists>c. st_read I (wf_store w') (rq_environment s) = Inr c \<and> v \<le> vc_version c" using bound by blast+
next
  have get: "py_get (wf_requests w') rid = (if rid = rq_id r then Some r' else py_get (wf_requests w) rid)" for rid
    by (simp add: assms(4) dict_simps)
  have fresh: "rq_applied_version s \<noteq> rq_applied_version r'"
    if "py_get (wf_requests w) rid = Some s" "rq_environment s = rq_environment r'" for rid s
    using that assms(1,6,9,10,11) unfolding live_traced_def by fastforce
  fix i s j u assume "py_get (wf_requests w') i = Some s" "py_get (wf_requests w') j = Some u"
    "rq_applied_version s \<noteq> None" "rq_applied_version s = rq_applied_version u"
    "rq_environment s = rq_environment u"
  then show "i = j" using get fresh assms(1) unfolding live_traced_def
    by (metis (no_types, lifting) option.inject)
qed

context versioned_store
begin

lemma move_evolves:
  assumes "wf_move E w w'" "en_store E = I" "wf_inv ok ledger E w"
  shows "wf_evolves (st_read I) w w'"
  using assms(1,3)
proof (induction)
  case (submitted a who now r w cur)
  then show ?case
    using evolves_update[of w r r "wf_store w" "st_read I"] by simp
next
  case (expired w r t)
  then show ?case
    by (intro evolves_update_same[of w _ r]) (auto simp: request_evolves_def intro: lifecycle_one)
next
  case (approved w r t who a)
  then show ?case by (intro evolves_update_same[of w _ r]) (auto intro: add_approval_evolves)
next
  case (rejected w r t who reason)
  then show ?case
    by (intro evolves_update_same[of w _ r]) (auto simp: request_evolves_def intro: lifecycle_one)
next
  case (cancelled w r t who)
  then show ?case
    by (intro evolves_update_same[of w _ r]) (auto simp: request_evolves_def intro: lifecycle_one)
next
  case (applied w r t who vc st')
  have none: "ledger (wf_store w) (rq_id r) = None"
    using applied(1,2,9) by (auto simp: wf_inv_def intro: ledger_none)
  have st': "st_apply I (apply_args_of E r) (wf_store w) = (Inr vc, st')" using applied(8) assms(2) by simp
  from apply_new[OF _ this] none obtain cur where
    "st_read I (wf_store w) (rq_environment r) = Inr cur" "vc_version vc = vc_version cur + 1"
    "st_read I st' = (st_read I (wf_store w))(rq_environment r := Inr vc)"
    by (auto simp: apply_args_of_def)
  then have "\<forall>env cur. st_read I (wf_store w) env = Inr cur \<longrightarrow>
      (\<exists>cur'. st_read I st' env = Inr cur' \<and> vc_version cur \<le> vc_version cur')" by auto
  then show ?case using applied(1,2)
    by (intro evolves_update[where r = r]) (auto simp: request_evolves_def intro: lifecycle_one)
next
  case (apply_failed r w e st')
  then have "st' = wf_store w" using apply_fails assms(2) by metis
  then show ?case by (simp add: wf_evolves_refl)
next
  case (reconciled w r v t)
  then have "ledger (wf_store w) (rq_id r) = None" by (auto simp: wf_inv_def intro: ledger_none)
  then show ?case using reconciled(3) assms(2) by (simp add: applied_ledger)
qed

text \<open>Every live configuration is the initial one or that of an applied request; no two applied
  requests of an environment share a version.\<close>

lemma move_traced:
  assumes "wf_move E w w'" "en_store E = I" "wf_inv ok ledger E w" "live_traced I st0 w"
  shows "live_traced I st0 w'"
  using assms(1,3,4)
proof (induction)
  case (submitted a who now r w cur)
  then show ?case using submit_checks_fields[OF submitted(1)]
    by (intro traced_open[OF submitted(6), where r = r]) auto
next
  case (expired w r t)
  then show ?case
    by (intro traced_open[OF expired(5), where r = "r\<lparr>rq_state := EXPIRED\<rparr>"]) (auto simp: wf_inv_def intro: ledger_open)
next
  case (approved w r t who a)
  then show ?case
    by (intro traced_open[OF approved(12), where r = "add_approval (en_policy E) r a"])
      (auto simp: wf_inv_def intro: ledger_open)
next
  case (rejected w r t who reason)
  then show ?case
    by (intro traced_open[OF rejected(7), where r = "r\<lparr>rq_state := REJECTED, rq_rejection := Some reason\<rparr>"])
      (auto simp: wf_inv_def intro: ledger_open)
next
  case (cancelled w r t who)
  then show ?case
    by (intro traced_open[OF cancelled(6), where r = "r\<lparr>rq_state := CANCELLED\<rparr>"]) (auto simp: wf_inv_def intro: ledger_open)
next
  case (applied w r t who vc st')
  have none: "ledger (wf_store w) (rq_id r) = None"
    using applied(1,2,9) by (auto simp: wf_inv_def intro: ledger_none)
  have open_r: "rq_applied_version r = None"
    using applied(1,2,9) by (auto simp: wf_inv_def open_states_def intro!: ledger_open)
  have st': "st_apply I (apply_args_of E r) (wf_store w) = (Inr vc, st')" using applied(8) assms(2) by simp
  from apply_new[OF _ this] none obtain cur where
    "st_read I (wf_store w) (rq_environment r) = Inr cur" "vc_version cur = rq_base_version r"
    "vc_version vc = vc_version cur + 1" "vc_config vc = rq_config r"
    "st_read I st' = (st_read I (wf_store w))(rq_environment r := Inr vc)"
    by (auto simp: apply_args_of_def)
  then show ?case
    by (intro traced_applied[OF applied(10,1) open_r, where vc = vc and cur = cur and
          r' = "r\<lparr>rq_applied_version := Some (vc_version vc), rq_state := APPLIED\<rparr>"]) auto
next
  case (apply_failed r w e st')
  then have "st' = wf_store w" using apply_fails assms(2) by metis
  then show ?case using apply_failed by simp
next
  case (reconciled w r v t)
  then have "ledger (wf_store w) (rq_id r) = None" by (auto simp: wf_inv_def intro: ledger_none)
  then show ?case using reconciled(3) assms(2) by (simp add: applied_ledger)
qed

lemma moves_summary:
  assumes "(wf_move E)\<^sup>*\<^sup>* w w'" "en_store E = I" "1 \<le> required_approvals (en_policy E)"
    "wf_inv ok ledger E w" "live_traced I st0 w"
  shows "wf_inv ok ledger E w' \<and> live_traced I st0 w' \<and> wf_evolves (st_read I) w w'"
  using assms(1)
proof (induction rule: rtranclp_induct)
  case base
  show ?case using assms(4,5) by (simp add: wf_evolves_refl)
next
  case (step w1 w2)
  then show ?case
    using move_inv[OF step(2) assms(2,3)] move_traced[OF step(2) assms(2)] move_evolves[OF step(2) assms(2)]
    by (blast intro: wf_evolves_trans)
qed

end

section \<open>The workflow over the in-memory store\<close>

definition memory_environment ::
    "(string \<Rightarrow> string) \<Rightarrow> (json \<Rightarrow> validator_outcome) \<Rightarrow> policy \<Rightarrow> memory_store environment" where
  "memory_environment sha val P =
     \<lparr>en_sha256 = sha, en_validate = val, en_policy = P, en_store = memory_iface sha\<rparr>"

lemma memory_environment_simps [simp]:
  "en_sha256 (memory_environment sha val P) = sha" "en_validate (memory_environment sha val P) = val"
  "en_policy (memory_environment sha val P) = P" "en_store (memory_environment sha val P) = memory_iface sha"
  by (simp_all add: memory_environment_def)

lemma memory_iface_simps [simp]:
  "st_read (memory_iface sha) = memory_read" "st_apply (memory_iface sha) = memory_apply sha"
  "st_applied (memory_iface sha) = memory_applied_version"
  by (simp_all add: memory_iface_def)

definition memory_inv ::
    "(string \<Rightarrow> string) \<Rightarrow> (json \<Rightarrow> validator_outcome) \<Rightarrow> policy \<Rightarrow> memory_store \<Rightarrow>
     memory_store workflow \<Rightarrow> bool" where
  "memory_inv sha val P st0 w \<longleftrightarrow>
     make_policy P = Inr P \<and> wf_inv memory_ok memory_ledger (memory_environment sha val P) w \<and>
     live_traced (memory_iface sha) st0 w"

lemma policy_quorum: "make_policy P = Inr Q \<Longrightarrow> Q = P \<and> 1 \<le> required_approvals P \<and> 0 < request_ttl P"
  by (auto simp: make_policy_def split: if_splits)

interpretation appr: progress_machine
  "workflow_step (memory_environment sha val P)" "memory_inv sha val P st0" "wf_evolves memory_read"
  for sha val P st0
proof
  let ?E = "memory_environment sha val P"
  have sum: "memory_inv sha val P st0 (workflow_step ?E e w) \<and> wf_evolves memory_read w (workflow_step ?E e w)"
    if "memory_inv sha val P st0 w" for e w
  proof -
    have "keyed w" using that by (simp add: memory_inv_def wf_inv_def)
    then have "(wf_move ?E)\<^sup>*\<^sup>* w (workflow_step ?E e w)" by (rule step_refines)
    then show ?thesis
      using mem.moves_summary[of ?E w _ sha st0] that policy_quorum by (auto simp: memory_inv_def)
  qed
  show "memory_inv sha val P st0 w \<Longrightarrow> memory_inv sha val P st0 (workflow_step ?E e w)" for w e using sum by blast
  show "memory_inv sha val P st0 w \<Longrightarrow> wf_evolves memory_read w (workflow_step ?E e w)" for w e using sum by blast
qed (rule wf_evolves_refl, rule wf_evolves_trans)

lemma load_configs_applications:
  "load_configs sha cs st = Inr st' \<Longrightarrow> memory_ok st \<Longrightarrow>
   ms_applications st' = ms_applications st \<and> memory_ok st' \<and>
   (\<forall>env v c d. py_get (ms_configs st') env = Some (v, c, d) \<longrightarrow>
      v = 1 \<or> py_get (ms_configs st) env = Some (v, c, d))"
proof (induction cs arbitrary: st)
  case (Cons x cs)
  obtain env config where x: "x = (env, config)" by fastforce
  with Cons.prems(1) obtain env' j where ej: "required_text env = Inr env'"
    "canonical_config default_max_depth config = Inr j"
    "load_configs sha cs (st\<lparr>ms_configs := py_set (ms_configs st) env' (1, j, sha (dumps_ordered j))\<rparr>) = Inr st'"
    by (auto split: sum.splits)
  show ?case using Cons.IH[OF ej(3)] Cons.prems(2)
    by (auto simp: memory_ok_def dict_simps split: if_splits)
qed simp

lemma fresh_store:
  assumes "make_memory_store sha init = Inr st0"
  shows "ms_applications st0 = []" "memory_ok st0"
    "memory_read st0 env = Inr cur \<Longrightarrow> vc_version cur = 1"
proof -
  have l: "load_configs sha init \<lparr>ms_configs = [], ms_applications = []\<rparr> = Inr st0"
    using assms by (simp add: make_memory_store_def split: if_splits)
  have ok: "memory_ok \<lparr>ms_configs = [], ms_applications = []\<rparr>" by (simp add: memory_ok_def dict_ok_def)
  note s = load_configs_applications[OF l ok]
  show "ms_applications st0 = []" "memory_ok st0" using s by simp_all
  show "memory_read st0 env = Inr cur \<Longrightarrow> vc_version cur = 1"
    using s by (fastforce simp: memory_read_def py_get_def split: option.splits)
qed

lemma fresh_memory_inv:
  assumes "make_memory_store sha init = Inr st0" "make_policy P = Inr P"
  shows "memory_inv sha val P st0 (new_workflow st0)"
  using fresh_store[OF assms(1)] assms(2)
  by (auto simp: memory_inv_def wf_inv_def new_workflow_def keyed_def ledger_agrees_def memory_ledger_def
      chain_ok_def live_traced_def py_get_def dict_ok_def)

lemma reached_inv:
  assumes "make_memory_store sha init = Inr st0" "make_policy P = Inr P"
  shows "memory_inv sha val P st0 (fold (workflow_step (memory_environment sha val P)) es (new_workflow st0))"
  by (rule appr.run_inv[OF fresh_memory_inv[OF assms]])

section \<open>Properties\<close>

text \<open>C4. Four eyes. Whatever calls are made, in any order and by any actors, a configuration that is live
  in an environment is either the one the store started with or that of an applied request
  which, at that very digest, had the required number of approvals before it expired, by
  pairwise different holders of an approver role, none of them the submitter.\<close>

theorem live_configuration_signed_off:
  assumes "make_memory_store sha init = Inr st0" "make_policy P = Inr P"
    "w = fold (workflow_step (memory_environment sha val P)) es (new_workflow st0)"
    "memory_read (wf_store w) env = Inr cur"
  shows "memory_read st0 env = Inr cur \<or>
    (\<exists>rid r. py_get (wf_requests w) rid = Some r \<and> rq_state r = APPLIED \<and> rq_environment r = env \<and>
       rq_applied_version r = Some (vc_version cur) \<and> rq_config r = vc_config cur \<and>
       rq_base_version r + 1 = vc_version cur \<and> signed_off P r)"
proof -
  have inv: "memory_inv sha val P st0 w" using reached_inv[OF assms(1,2)] assms(3) by simp
  then have ok: "\<And>rid r. py_get (wf_requests w) rid = Some r \<Longrightarrow> request_ok P r"
    by (simp add: memory_inv_def wf_inv_def)
  have tr: "live_traced (memory_iface sha) st0 w" using inv by (simp add: memory_inv_def)
  then consider "memory_read st0 env = Inr cur" | rid r where "py_get (wf_requests w) rid = Some r"
    "rq_state r = APPLIED" "rq_environment r = env" "rq_applied_version r = Some (vc_version cur)"
    "rq_config r = vc_config cur"
    using assms(4) unfolding live_traced_def memory_iface_simps by blast
  then show ?thesis
  proof cases
    case (2 rid r)
    have "signed_off P r" using ok[OF 2(1)] 2(2) by (auto simp: request_ok_def signed_off_def)
    moreover have "rq_base_version r + 1 = vc_version cur" using tr 2(1,4) unfolding live_traced_def by metis
    ultimately show ?thesis using 2 by blast
  qed simp
qed

text \<open>C21. No lost update. Versions never go back over a run, an applied request took its environment from
  exactly its base version to the next one, and no two requests of an environment were ever
  applied at the same version.\<close>

theorem versions_compare_and_set:
  assumes "make_memory_store sha init = Inr st0" "make_policy P = Inr P"
    "w = fold (workflow_step (memory_environment sha val P)) es (new_workflow st0)"
    "w' = fold (workflow_step (memory_environment sha val P)) es' w"
  shows "(\<forall>env cur. memory_read (wf_store w) env = Inr cur \<longrightarrow>
      (\<exists>cur'. memory_read (wf_store w') env = Inr cur' \<and> vc_version cur \<le> vc_version cur')) \<and>
    (\<forall>i r j s v. py_get (wf_requests w) i = Some r \<longrightarrow> py_get (wf_requests w) j = Some s \<longrightarrow>
      rq_environment r = rq_environment s \<longrightarrow> rq_applied_version r = Some v \<longrightarrow>
      v = rq_base_version r + 1 \<and> (rq_applied_version s = Some v \<longrightarrow> i = j))"
proof
  have inv: "memory_inv sha val P st0 w" using reached_inv[OF assms(1,2)] assms(3) by simp
  show "\<forall>env cur. memory_read (wf_store w) env = Inr cur \<longrightarrow>
      (\<exists>cur'. memory_read (wf_store w') env = Inr cur' \<and> vc_version cur \<le> vc_version cur')"
    using appr.run_le[OF inv, of es'] assms(4) by (simp add: wf_evolves_def)
  have tr: "live_traced (memory_iface sha) st0 w" using inv by (simp add: memory_inv_def)
  show "\<forall>i r j s v. py_get (wf_requests w) i = Some r \<longrightarrow> py_get (wf_requests w) j = Some s \<longrightarrow>
      rq_environment r = rq_environment s \<longrightarrow> rq_applied_version r = Some v \<longrightarrow>
      v = rq_base_version r + 1 \<and> (rq_applied_version s = Some v \<longrightarrow> i = j)"
    using tr unfolding live_traced_def by (metis option.distinct(1))
qed

text \<open>Requests evolve along their life cycle only. Over any run a request keeps its content, digest and
  expiry, its approvals are only appended to, its state follows the life cycle, and a
  rejected, cancelled, expired or applied request stays so.\<close>

theorem requests_follow_lifecycle:
  assumes "make_memory_store sha init = Inr st0" "make_policy P = Inr P"
    "w = fold (workflow_step (memory_environment sha val P)) es (new_workflow st0)"
    "w' = fold (workflow_step (memory_environment sha val P)) es' w"
    "py_get (wf_requests w) rid = Some r"
  shows "\<exists>r'. py_get (wf_requests w') rid = Some r' \<and> request_evolves r r' \<and>
    (rq_state r \<in> {APPLIED, REJECTED, CANCELLED, EXPIRED} \<longrightarrow> rq_state r' = rq_state r)"
proof -
  have inv: "memory_inv sha val P st0 w" using reached_inv[OF assms(1,2)] assms(3) by simp
  obtain r' where r': "py_get (wf_requests w') rid = Some r'" "request_evolves r r'"
    using appr.run_le[OF inv, of es'] assms(4,5) unfolding wf_evolves_def by blast
  moreover have "rq_state r' = rq_state r" if "rq_state r \<in> {APPLIED, REJECTED, CANCELLED, EXPIRED}"
    by (rule lifecycle_final[OF _ that]) (use r'(2) in \<open>simp add: request_evolves_def\<close>)
  ultimately show ?thesis by blast
qed

text \<open>The audit log is append-only and hash-chained: later logs extend earlier ones, sequence numbers
  count from one, each event carries the hash of the one before it, starting from the
  genesis value, and its own hash is that of its body.\<close>

theorem audit_log_chained:
  assumes "make_memory_store sha init = Inr st0" "make_policy P = Inr P"
    "w = fold (workflow_step (memory_environment sha val P)) es (new_workflow st0)"
    "w' = fold (workflow_step (memory_environment sha val P)) es' w"
  shows "prefix (audit_events w) (audit_events w') \<and>
    (\<forall>i. i < length (audit_events w) \<longrightarrow>
      (let e = audit_events w ! i in
       ae_sequence e = int i + 1 \<and> ae_hash e = sha (body_of e) \<and>
       ae_previous e = (if i = 0 then replicate 64 CHR ''0'' else ae_hash (audit_events w ! (i - 1)))))"
proof
  have inv: "memory_inv sha val P st0 w" using reached_inv[OF assms(1,2)] assms(3) by simp
  show "prefix (audit_events w) (audit_events w')"
    using appr.run_le[OF inv, of es'] assms(4) by (simp add: wf_evolves_def audit_events_def)
  have ch: "chain_ok sha (wf_events w)" using inv by (simp add: memory_inv_def wf_inv_def)
  have "previous_hash (take i (wf_events w)) =
      (if i = 0 then replicate 64 CHR ''0'' else ae_hash (wf_events w ! (i - 1)))"
    if "i < length (wf_events w)" for i
    using that by (auto simp: previous_hash_def genesis_hash_def last_conv_nth)
  then show "\<forall>i. i < length (audit_events w) \<longrightarrow>
      (let e = audit_events w ! i in
       ae_sequence e = int i + 1 \<and> ae_hash e = sha (body_of e) \<and>
       ae_previous e = (if i = 0 then replicate 64 CHR ''0'' else ae_hash (audit_events w ! (i - 1))))"
    using ch by (simp add: chain_ok_def audit_events_def Let_def)
qed

end
