(* ===== verification/Approval_Outcomes.thy ===== *)
theory Approval_Outcomes
  imports Approval_Properties "HOL-Library.Multiset"
begin

text \<open>
  The outcomes of single calls of the approval workflow: when an application succeeds, what
  expiry does, retries of a submission and of a store application, and the payload guards.
\<close>

section \<open>Applying\<close>

lemma memory_apply_fresh:
  assumes "memory_ledger st (ap_request_id a) = None" "sha (dumps_ordered (ap_config a)) = ap_config_digest a"
  shows "(\<exists>vc. fst (memory_apply sha a st) = Inr vc) \<longleftrightarrow>
    (\<exists>cur. memory_read st (ap_environment a) = Inr cur \<and> vc_version cur = ap_expected_version a)"
proof -
  have "py_get (ms_applications st) (ap_request_id a) = None"
    using assms(1) by (simp add: memory_ledger_def)
  then show ?thesis using assms(2)
    by (auto simp: memory_apply_def Let_def split: sum.splits)
qed

lemma commit_result:
  "(\<exists>cr. fst (commit_apply E r who t w) = Inr cr) \<longleftrightarrow>
   (\<exists>vc. fst (st_apply (en_store E) (apply_args_of E r) (wf_store w)) = Inr vc)"
  by (cases "st_apply (en_store E) (apply_args_of E r) (wf_store w)")
    (auto simp: commit_apply_def Let_def split: sum.splits)

definition independent :: "policy \<Rightarrow> actor \<Rightarrow> mutable_request \<Rightarrow> bool" where
  "independent P who r \<longleftrightarrow> \<not> require_independent_applier P \<or>
     (actor_id who \<noteq> rq_submitter r \<and> actor_id who \<notin> approver_id ` set (rq_approvals r))"

text \<open>When an application succeeds. In every reachable state, applying a known request at the digest
  handed in returns exactly if the deployer holds a deployer role and is independent where the
  policy asks for it, and the request is applied already, or is approved, has not expired,
  passes the validator again and its base version is still the live one. The quorum and
  binding checks of the code never fail in a reachable state.\<close>

theorem apply_succeeds_iff:
  assumes "make_memory_store sha init = Inr st0" "make_policy P = Inr P"
    "w = fold (workflow_step (memory_environment sha val P)) es (new_workflow st0)"
    "py_get (wf_requests w) rid = Some r" "rq_digest r \<noteq> []"
  shows "(\<exists>cr. fst (apply_change (memory_environment sha val P) rid who (rq_digest r) (Aware t) w) = Inr cr) \<longleftrightarrow>
    set (roles who) \<inter> set (deployer_roles P) \<noteq> {} \<and> independent P who r \<and>
    (rq_state r = APPLIED \<or>
     rq_state r = APPROVED \<and> t < rq_expires_at r \<and> val (rq_config r) = V_ok \<and>
     (\<exists>cur. memory_read (wf_store w) (rq_environment r) = Inr cur \<and> vc_version cur = rq_base_version r))"
proof -
  let ?E = "memory_environment sha val P"
  let ?res = "fst (apply_change ?E rid who (rq_digest r) (Aware t) w)"
  have inv: "memory_inv sha val P st0 w" using reached_inv[OF assms(1,2)] assms(3) by simp
  then have ok: "request_ok P r" and agr: "ledger_agrees (memory_ledger (wf_store w)) w"
    using assms(4) by (auto simp: memory_inv_def wf_inv_def)
  have el: "eligible_roles who (deployer_roles P) \<noteq> [] \<longleftrightarrow> set (roles who) \<inter> set (deployer_roles P) \<noteq> {}"
    by (simp add: eligible_roles_iff)
  have ind: "\<not> (require_independent_applier P \<and> (actor_id who = rq_submitter r \<or>
      list_ex (\<lambda>a. approver_id a = actor_id who) (rq_approvals r))) \<longleftrightarrow> independent P who r"
    by (auto simp: independent_def list_ex_iff image_iff)
  have dm: "digest_matches r (rq_digest r)" using assms(5) by (simp add: digest_matches_def)
  show ?thesis
  proof (cases "eligible_roles who (deployer_roles P) \<noteq> [] \<and> independent P who r \<and> rq_state r \<noteq> APPLIED")
    case False
    then show ?thesis using assms(4) el ind dm by (auto simp: apply_change_def utc_def Let_def)
  next
    case True
    show ?thesis
    proof (cases "rq_state r = APPROVED \<and> t < rq_expires_at r")
      case False
      then have "\<exists>e. ?res = Inl e" using True assms(4) ind dm
        by (cases "rq_state r")
          (auto simp: apply_change_def utc_def Let_def expire_if_needed_def open_states_def)
      then show ?thesis using False True by auto
    next
      case app: True
      have "required_approvals P \<le> int (length (rq_approvals r))" "\<forall>a\<in>set (rq_approvals r). approved_digest a = rq_digest r"
        using ok app by (auto simp: request_ok_def)
      moreover have "expire_if_needed ?E r t w = (r, w)" using app by (simp add: expire_if_needed_def)
      ultimately have "?res = (case run_validator ?E (rq_config r) of Some e \<Rightarrow> Inl e
          | None \<Rightarrow> fst (commit_apply ?E r who t w))"
        using True app assms(4) ind dm
        by (auto simp: apply_change_def utc_def Let_def list_ex_iff split: option.splits)
      moreover have "run_validator ?E (rq_config r) = None \<longleftrightarrow> val (rq_config r) = V_ok"
        by (simp add: run_validator_def split: validator_outcome.splits)
      moreover have "(\<exists>cr. fst (commit_apply ?E r who t w) = Inr cr) \<longleftrightarrow>
          (\<exists>cur. memory_read (wf_store w) (rq_environment r) = Inr cur \<and> vc_version cur = rq_base_version r)"
      proof -
        have "rq_id r = rid" using inv assms(4) by (auto simp: memory_inv_def wf_inv_def keyed_def)
        moreover have "memory_ledger (wf_store w) rid = None"
          by (rule ledger_none[OF agr assms(4)]) (use True in simp)
        ultimately show ?thesis
          by (simp add: commit_result memory_apply_fresh apply_args_of_def)
      qed
      ultimately show ?thesis using True app el by (auto split: option.splits)
    qed
  qed
qed

text \<open>Expiry. Once its time is up an open request can be neither approved nor applied: whoever calls, with
  whatever digest, the call raises, nothing is written to the store and no approval is added.\<close>

theorem expired_request_is_dead:
  assumes "py_get (wf_requests w) rid = Some r" "rq_id r = rid" "rq_state r \<in> {PENDING, APPROVED}"
    "rq_expires_at r \<le> t"
  shows "\<exists>e e'. fst (apply_change E rid who d (Aware t) w) = Inl e \<and>
    fst (approve E rid who d (Aware t) w) = Inl e' \<and>
    wf_store (snd (apply_change E rid who d (Aware t) w)) = wf_store w \<and>
    (\<exists>r'. py_get (wf_requests (snd (approve E rid who d (Aware t) w))) rid = Some r' \<and>
      rq_approvals r' = rq_approvals r \<and> rq_state r' \<noteq> APPLIED)"
proof -
  let ?r = "r\<lparr>rq_state := EXPIRED\<rparr>"
  have ex: "expire_if_needed E r t w = (?r, update_request E ''CHANGE_EXPIRED'' ?r ''SYSTEM'' t [] w)"
    using assms(3,4) by (auto simp: expire_if_needed_def open_states_def Let_def)
  have a: "\<exists>e. fst (apply_change E rid who d (Aware t) w) = Inl e \<and>
      wf_store (snd (apply_change E rid who d (Aware t) w)) = wf_store w"
    using assms(1,3) by (auto simp: apply_change_def utc_def Let_def ex)
  have b: "\<exists>e. fst (approve E rid who d (Aware t) w) = Inl e \<and>
      (snd (approve E rid who d (Aware t) w) = w \<or>
       snd (approve E rid who d (Aware t) w) = update_request E ''CHANGE_EXPIRED'' ?r ''SYSTEM'' t [] w)"
    using assms(1) by (auto simp: approve_def utc_def Let_def ex)
  then have "\<exists>r'. py_get (wf_requests (snd (approve E rid who d (Aware t) w))) rid = Some r' \<and>
      rq_approvals r' = rq_approvals r \<and> rq_state r' \<noteq> APPLIED"
    using assms(1-3) by (auto simp: dict_simps)
  then show ?thesis using a b by blast
qed

section \<open>Retries\<close>

lemma submit_success:
  assumes "submit_change E a who now w = (Inr cr, w')"
  obtains r old where "submit_checks E a who now = Inr r" "py_get (wf_requests w') (rq_id r) = Some old"
    "rq_digest old = rq_digest r" "rq_submitter old = rq_submitter r"
proof -
  obtain r where r: "submit_checks E a who now = Inr r"
    using assms by (cases "submit_checks E a who now") (simp_all add: submit_change_def)
  show ?thesis
  proof (cases "existing_request w r")
    case None
    then have "w' = update_request E ''CHANGE_SUBMITTED'' r (rq_submitter r) (rq_created_at r) [] w"
      using assms r by (auto simp: submit_change_def submit_commit_def split: sum.splits if_splits)
    then show ?thesis by (intro that[OF r, of r]) (simp_all add: dict_simps)
  next
    case (Some res)
    then obtain old where old: "py_get (wf_requests w) (rq_id r) = Some old"
      by (cases "py_get (wf_requests w) (rq_id r)") (simp_all add: existing_request_def)
    have "rq_digest old = rq_digest r \<and> rq_submitter old = rq_submitter r \<and> w' = w"
      using assms r old by (simp add: submit_change_def existing_request_def split: if_splits)
    then show ?thesis using that[OF r, of old] old by simp
  qed
qed

lemma submit_checks_now:
  "submit_checks E a who (Aware t) = Inr r \<Longrightarrow>
   \<exists>r'. submit_checks E a who (Aware t') = Inr r' \<and> rq_id r' = rq_id r \<and> rq_digest r' = rq_digest r \<and>
     rq_submitter r' = rq_submitter r"
  by (auto simp: submit_checks_def utc_def Let_def split: sum.splits if_splits option.splits)

text \<open>Submission is idempotent. After a successful submission, the identical call made again later,
  whatever has happened in between and even if the live version has moved on, returns the
  request as it now stands and changes nothing.\<close>

theorem submit_retry_idempotent:
  assumes "make_memory_store sha init = Inr st0" "make_policy P = Inr P"
    "w = fold (workflow_step (memory_environment sha val P)) es (new_workflow st0)"
    "make_actor i rs = Inr who"
    "submit_change (memory_environment sha val P) a who (Aware t) w = (Inr cr, w1)"
    "w2 = fold (workflow_step (memory_environment sha val P)) es' w1"
  shows "\<exists>r. py_get (wf_requests w2) (cr_id cr) = Some r \<and>
    submit_change (memory_environment sha val P) a who (Aware t') w2 = (Inr (snapshot r), w2)"
proof -
  let ?E = "memory_environment sha val P"
  obtain r old where r: "submit_checks ?E a who (Aware t) = Inr r" "py_get (wf_requests w1) (rq_id r) = Some old"
    "rq_digest old = rq_digest r" "rq_submitter old = rq_submitter r"
    by (rule submit_success[OF assms(5)])
  have inv: "memory_inv sha val P st0 w" using reached_inv[OF assms(1,2)] assms(3) by simp
  have w1: "w1 = workflow_step ?E (Wf_Event (Call_Submit a) i rs (Aware t)) w" using assms(4,5) by simp
  have inv1: "memory_inv sha val P st0 w1" unfolding w1 by (rule appr.step_inv[OF inv])
  have id: "cr_id cr = rq_id r"
  proof -
    have "snapshot s = cr \<Longrightarrow> rq_id s = cr_id cr" for s by (auto simp: snapshot_def)
    moreover have "\<exists>s. snapshot s = cr \<and> rq_id s = rq_id r"
    proof (cases "existing_request w r")
      case None
      then show ?thesis using assms(5) r(1)
        by (auto simp: submit_change_def submit_commit_def split: sum.splits if_splits)
    next
      case (Some res)
      then show ?thesis using assms(5) r(1) inv
        by (auto simp: submit_change_def existing_request_def memory_inv_def wf_inv_def keyed_def
            split: option.splits if_splits)
    qed
    ultimately show ?thesis by metis
  qed
  obtain r2 where r2: "py_get (wf_requests w2) (rq_id r) = Some r2" "request_evolves old r2"
    using appr.run_le[OF inv1, of es'] assms(6) r(2) unfolding wf_evolves_def by blast
  obtain r' where r': "submit_checks ?E a who (Aware t') = Inr r'" "rq_id r' = rq_id r"
    "rq_digest r' = rq_digest r" "rq_submitter r' = rq_submitter r"
    using submit_checks_now[OF r(1)] by blast
  have "existing_request w2 r' = Some (Inr (snapshot r2))"
    using r2 r' r(3,4) by (simp add: existing_request_def request_evolves_def)
  then have "submit_change ?E a who (Aware t') w2 = (Inr (snapshot r2), w2)"
    using r'(1) by (simp add: submit_change_def)
  then show ?thesis using r2(1) id by auto
qed

lemma memory_version_mono:
  assumes "memory_read st env = Inr cur"
  shows "\<exists>cur'. memory_read (snd (memory_apply sha b st)) env = Inr cur' \<and> vc_version cur \<le> vc_version cur'"
proof (cases "memory_apply sha b st")
  case (Pair res st')
  show ?thesis
  proof (cases "st' = st")
    case True
    then show ?thesis using assms Pair by simp
  next
    case False
    then obtain vc where vc: "res = Inr vc" using memory_apply_fails Pair by (cases res) auto
    have none: "memory_ledger st (ap_request_id b) = None"
      using memory_apply_again[of st b] Pair vc False by (cases "memory_ledger st (ap_request_id b)") auto
    from memory_apply_new[OF this] Pair vc obtain cur' where c:
      "memory_read st (ap_environment b) = Inr cur'" "vc_version cur' = ap_expected_version b"
      "st' = st\<lparr>ms_configs := py_set (ms_configs st) (ap_environment b)
        (ap_expected_version b + 1, ap_config b, ap_config_digest b),
        ms_applications := py_set (ms_applications st) (ap_request_id b)
        (ap_request_digest b, ap_config_digest b, ap_expected_version b + 1)\<rparr>" by blast
    show ?thesis using assms c(1,2) Pair
      by (cases "env = ap_environment b") (auto simp: c(3) memory_read_set)
  qed
qed

definition apply_done :: "apply_args \<Rightarrow> int \<Rightarrow> memory_store \<Rightarrow> bool" where
  "apply_done a v st \<longleftrightarrow>
     py_get (ms_applications st) (ap_request_id a) = Some (ap_request_digest a, ap_config_digest a, v) \<and>
     (\<exists>cur. memory_read st (ap_environment a) = Inr cur \<and> v \<le> vc_version cur)"

lemma apply_done_step: "apply_done a v st \<Longrightarrow> apply_done a v (snd (memory_apply sha b st))"
proof -
  assume d: "apply_done a v st"
  then obtain cur where "memory_read st (ap_environment a) = Inr cur" "v \<le> vc_version cur"
    by (auto simp: apply_done_def)
  then have "\<exists>cur. memory_read (snd (memory_apply sha b st)) (ap_environment a) = Inr cur \<and> v \<le> vc_version cur"
    using memory_version_mono order_trans by blast
  moreover have "py_get (ms_applications (snd (memory_apply sha b st))) (ap_request_id a) =
      Some (ap_request_digest a, ap_config_digest a, v)"
    using d by (auto simp: apply_done_def memory_apply_def Let_def dict_simps split: option.splits sum.splits)
  ultimately show ?thesis by (simp add: apply_done_def)
qed

lemma apply_done_retry:
  assumes "apply_done a v st" "sha (dumps_ordered (ap_config a)) = ap_config_digest a"
  shows "memory_apply sha a st = (Inr \<lparr>vc_environment = ap_environment a, vc_version = v,
    vc_config = ap_config a, vc_digest = ap_config_digest a\<rparr>, st)"
  using assms by (auto simp: apply_done_def memory_apply_def)

text \<open>The store applies once. After a first successful application, the same call made again after any
  other applications returns the version of the first one and leaves the store as it is.\<close>

theorem store_applies_once:
  assumes "memory_ledger st (ap_request_id a) = None" "memory_apply sha a st = (Inr vc, st1)"
    "st2 = fold (\<lambda>b s. snd (memory_apply sha b s)) bs st1"
  shows "memory_apply sha a st2 = (Inr vc, st2) \<and> vc_version vc = ap_expected_version a + 1"
proof -
  obtain cur where c: "memory_read st (ap_environment a) = Inr cur" "vc_version cur = ap_expected_version a"
    "vc = \<lparr>vc_environment = ap_environment a, vc_version = ap_expected_version a + 1,
      vc_config = ap_config a, vc_digest = ap_config_digest a\<rparr>"
    "st1 = st\<lparr>ms_configs := py_set (ms_configs st) (ap_environment a)
        (ap_expected_version a + 1, ap_config a, ap_config_digest a),
      ms_applications := py_set (ms_applications st) (ap_request_id a)
        (ap_request_digest a, ap_config_digest a, ap_expected_version a + 1)\<rparr>"
    by (rule memory_apply_new[OF assms(1,2)])
  have "apply_done a (vc_version vc) st1"
    by (simp add: apply_done_def c(3,4) memory_read_set dict_simps)
  then have "apply_done a (vc_version vc) st2"
    unfolding assms(3) by (induction bs arbitrary: st1) (simp_all add: apply_done_step)
  moreover have "sha (dumps_ordered (ap_config a)) = ap_config_digest a"
    using assms(2) by (simp add: memory_apply_def split: if_splits)
  ultimately have "memory_apply sha a st2 = (Inr \<lparr>vc_environment = ap_environment a, vc_version = vc_version vc,
      vc_config = ap_config a, vc_digest = ap_config_digest a\<rparr>, st2)" by (rule apply_done_retry)
  then show ?thesis by (simp add: c(3))
qed

section \<open>Payloads\<close>

fun all_keys :: "json \<Rightarrow> string set" where
  "all_keys (J_dict kvs) = (\<Union>(k, v)\<in>set kvs. insert (key_text k) (all_keys v))"
| "all_keys (J_list xs) = (\<Union>x\<in>set xs. all_keys x)"
| "all_keys j = {}"

fun json_native :: "json \<Rightarrow> bool" where
  "json_native (J_dict kvs) \<longleftrightarrow> (\<forall>(k, v)\<in>set kvs. k \<noteq> K_other \<and> json_native v)"
| "json_native (J_list xs) \<longleftrightarrow> (\<forall>x\<in>set xs. json_native x)"
| "json_native J_other \<longleftrightarrow> False"
| "json_native j \<longleftrightarrow> True"

text \<open>\<open>nested j n\<close>: containers are nested at most \<open>n\<close> deep.\<close>

fun nested :: "json \<Rightarrow> int \<Rightarrow> bool" where
  "nested (J_dict kvs) n \<longleftrightarrow> 1 \<le> n \<and> (\<forall>(k, v)\<in>set kvs. nested v (n - 1))"
| "nested (J_list xs) n \<longleftrightarrow> 1 \<le> n \<and> (\<forall>x\<in>set xs. nested x (n - 1))"
| "nested j n \<longleftrightarrow> True"

lemma assert_native_None:
  "assert_json_native m d j = None \<longleftrightarrow> json_native j \<and> nested j (m - d + 1)"
proof (induction m d j rule: assert_json_native.induct)
  case (1 m d kvs)
  have "(case k of K_other \<Rightarrow> Some Validation_Error | K_str _ \<Rightarrow> assert_json_native m (d + 1) v) = None \<longleftrightarrow>
      k \<noteq> K_other \<and> json_native v \<and> nested v (m - d)" if "(k, v) \<in> set kvs" "\<not> m < d" for k v
    using 1[OF that(2,1) refl] by (cases k) simp_all
  then have "\<not> m < d \<Longrightarrow> (\<forall>x\<in>set kvs. (case x of (k, v) \<Rightarrow>
        case k of K_other \<Rightarrow> Some Validation_Error | K_str _ \<Rightarrow> assert_json_native m (d + 1) v) = None) \<longleftrightarrow>
      (\<forall>x\<in>set kvs. case x of (k, v) \<Rightarrow> k \<noteq> K_other \<and> json_native v \<and> nested v (m - d))"
    by (intro ball_cong) auto
  then show ?case by (cases "m < d") (auto simp: first_error_None)
next
  case (2 m d xs)
  then show ?case by (auto simp: first_error_None)
qed simp_all

lemma canonical_config_Inr:
  "canonical_config m j = Inr c \<longleftrightarrow>
     (\<exists>kvs. j = J_dict kvs \<and> kvs \<noteq> []) \<and> json_native j \<and> nested j m \<and> \<not> has_nonfinite j \<and> c = sort_keys j"
  using assert_native_None[of m 1 j]
  by (auto simp: canonical_config_def split: json.splits list.splits option.splits if_splits)

lemma find_forbidden_None:
  "find_forbidden_key F p j = None \<longleftrightarrow> (\<forall>k\<in>all_keys j. py_casefold k \<notin> set F)"
  "find_forbidden_pairs F p kvs = None \<longleftrightarrow> (\<forall>k\<in>all_keys (J_dict kvs). py_casefold k \<notin> set F)"
  "find_forbidden_items F p i xs = None \<longleftrightarrow> (\<forall>k\<in>all_keys (J_list xs). py_casefold k \<notin> set F)"
  by (induction F p j and F p kvs and F p i xs
      rule: find_forbidden_key_find_forbidden_pairs_find_forbidden_items.induct)
    (auto simp: Let_def split: option.splits)

text \<open>The payload guards are exact. Canonicalisation accepts exactly the non-empty mappings of
  JSON-native values with string keys, finite numbers and at most the permitted nesting; the
  secret scan objects exactly when some key, at any depth, is a forbidden name up to case.\<close>

theorem payload_guards_exact:
  "(canonical_config m j = Inr c \<longleftrightarrow>
      (\<exists>kvs. j = J_dict kvs \<and> kvs \<noteq> []) \<and> json_native j \<and> nested j m \<and> \<not> has_nonfinite j \<and> c = sort_keys j) \<and>
   (find_forbidden_key F p j \<noteq> None \<longleftrightarrow> (\<exists>k. k \<in> all_keys j \<and> py_casefold k \<in> set F))"
proof (rule conjI, rule canonical_config_Inr)
  show "find_forbidden_key F p j \<noteq> None \<longleftrightarrow> (\<exists>k. k \<in> all_keys j \<and> py_casefold k \<in> set F)"
    unfolding find_forbidden_None(1) by blast
qed

text \<open>One change of key order, at any depth.\<close>

inductive reordered :: "json \<Rightarrow> json \<Rightarrow> bool" where
  here: "mset kvs = mset kvs' \<Longrightarrow> distinct (map fst kvs) \<Longrightarrow> reordered (J_dict kvs) (J_dict kvs')"
| under: "reordered v v' \<Longrightarrow> reordered (J_dict (xs @ (k, v) # ys)) (J_dict (xs @ (k, v') # ys))"
| inside: "reordered v v' \<Longrightarrow> reordered (J_list (xs @ v # ys)) (J_list (xs @ v' # ys))"

lemma sort_pairs_mset:
  assumes "mset kvs = mset kvs'" "distinct (map fst kvs)" "\<forall>(k, v)\<in>set kvs. k \<noteq> K_other"
  shows "sort_key (\<lambda>kv. key_text (fst kv)) (map (\<lambda>(k, v). (k, f v)) kvs) =
    sort_key (\<lambda>kv. key_text (fst kv)) (map (\<lambda>(k, v). (k, f v)) kvs')"
proof (rule sort_key_inj_key_eq)
  show "mset (map (\<lambda>(k, v). (k, f v)) kvs) = mset (sort_key (\<lambda>kv. key_text (fst kv)) (map (\<lambda>(k, v). (k, f v)) kvs'))"
    using assms(1) by simp
  have same: "x = y" if xy: "x \<in> set kvs" "y \<in> set kvs" "key_text (fst x) = key_text (fst y)" for x y
  proof -
    have "fst x = fst y" using xy assms(3) by (cases "fst x"; cases "fst y") (auto simp: case_prod_beta)
    then show ?thesis using xy(1,2) assms(2) by (metis eq_key_imp_eq_value prod.collapse)
  qed
  show "inj_on (\<lambda>kv. key_text (fst kv)) (set (map (\<lambda>(k, v). (k, f v)) kvs))"
  proof (rule inj_onI)
    fix x y assume "x \<in> set (map (\<lambda>(k, v). (k, f v)) kvs)" "y \<in> set (map (\<lambda>(k, v). (k, f v)) kvs)"
      "key_text (fst x) = key_text (fst y)"
    then obtain x' y' where "x' \<in> set kvs" "y' \<in> set kvs" "x = (fst x', f (snd x'))" "y = (fst y', f (snd y'))"
      "key_text (fst x') = key_text (fst y')" by (auto simp: case_prod_beta)
    then show "x = y" using same by metis
  qed
  show "sorted (map (\<lambda>kv. key_text (fst kv)) (sort_key (\<lambda>kv. key_text (fst kv)) (map (\<lambda>(k, v). (k, f v)) kvs')))"
    by simp
qed

lemma reordered_same:
  "reordered j j' \<Longrightarrow> (json_native j \<longleftrightarrow> json_native j') \<and> (\<forall>n. nested j n \<longleftrightarrow> nested j' n) \<and>
     (has_nonfinite j \<longleftrightarrow> has_nonfinite j') \<and> (json_native j \<longrightarrow> sort_keys j = sort_keys j') \<and>
     (\<forall>kvs. j = J_dict kvs \<longrightarrow> (\<exists>kvs'. j' = J_dict kvs' \<and> (kvs \<noteq> [] \<longleftrightarrow> kvs' \<noteq> []))) \<and>
     ((\<exists>kvs. j = J_dict kvs) \<longleftrightarrow> (\<exists>kvs. j' = J_dict kvs))"
proof (induction rule: reordered.induct)
  case (here kvs kvs')
  have s: "set kvs = set kvs'" using here(1) by (rule mset_eq_setD)
  have "kvs \<noteq> [] \<longleftrightarrow> kvs' \<noteq> []" using here(1) by auto
  moreover have "sort_keys (J_dict kvs) = sort_keys (J_dict kvs')" if "json_native (J_dict kvs)"
    using sort_pairs_mset[OF here, of sort_keys] that by auto
  ultimately show ?case using s by (auto simp: list_ex_iff)
next
  case (under v v' xs k ys)
  then show ?case by auto
next
  case (inside v v' xs ys)
  then show ?case by auto
qed

text \<open>The digest binds content, not spelling. Payloads that differ only in the order of keys, at any
  depth, have the same canonical form, and so the same outcome and the same request digest.\<close>

theorem canonical_form_order_free:
  assumes "reordered\<^sup>*\<^sup>* j j'"
  shows "canonical_config m j = canonical_config m j'"
  using assms
proof (induction rule: rtranclp_induct)
  case (step j1 j2)
  have "canonical_config m j1 = canonical_config m j2"
  proof (cases "canonical_config m j1")
    case (Inl e)
    have "\<nexists>c. canonical_config m j2 = Inr c"
    proof
      assume "\<exists>c. canonical_config m j2 = Inr c"
      then have "canonical_config m j1 = Inr (sort_keys j1)"
        using reordered_same[OF step(2)] by (auto simp: canonical_config_Inr)
      then show False using Inl by simp
    qed
    moreover have "canonical_config m x = Inl f \<Longrightarrow> f = Validation_Error" for x f
    proof -
      have "assert_json_native n d y = Some f' \<Longrightarrow> f' = Validation_Error" for n d y f'
        by (induction n d y rule: assert_json_native.induct)
          (auto split: if_splits json_key.splits prod.splits dest!: first_error_SomeD)
      then show "canonical_config m x = Inl f \<Longrightarrow> f = Validation_Error"
        by (auto simp: canonical_config_def simp del: assert_json_native.simps split: json.splits list.splits option.splits if_splits)
    qed
    ultimately show ?thesis using Inl by (cases "canonical_config m j2") auto
  next
    case (Inr c)
    then have "canonical_config m j2 = Inr (sort_keys j2)"
      using reordered_same[OF step(2)] by (auto simp: canonical_config_Inr)
    moreover have "c = sort_keys j1" "json_native j1" using Inr by (auto simp: canonical_config_Inr)
    ultimately show ?thesis using Inr reordered_same[OF step(2)] by (simp del: sort_keys.simps)
  qed
  then show ?case using step(3) by simp
qed simp

end
