(* ===== verification/Approval_Witnesses.thy ===== *)
theory Approval_Witnesses
  imports Approval_Outcomes
begin

text \<open>
  A concrete run of the approval workflow: a limit of 10 in production is raised to 250 by
  alice, signed off by bob and applied by dan; a second request on the same base version goes
  stale. It instantiates the hypotheses of the properties.
\<close>

definition demo_sha :: "string \<Rightarrow> string" where
  "demo_sha s = dec_nat (length s)"

definition demo_limit :: "int \<Rightarrow> json" where
  "demo_limit n = J_dict [(K_str ''limit'', J_int n)]"

definition demo_initial :: "(string \<times> json) list" where
  "demo_initial = [('' prod '', demo_limit 10)]"

definition demo_base :: memory_store where
  "demo_base = \<lparr>ms_configs = [(''prod'', (1, demo_limit 10, ''12''))], ms_applications = []\<rparr>"

definition demo_env :: "memory_store environment" where
  "demo_env = memory_environment demo_sha (\<lambda>j. V_ok) default_policy"

definition demo_submission :: "string \<Rightarrow> int \<Rightarrow> submit_args" where
  "demo_submission rid n = \<lparr>sa_request_id = rid, sa_environment = ''prod'', sa_base_version = 1,
     sa_config = demo_limit n, sa_reason = ''raise'', sa_ticket = ''T1''\<rparr>"

definition demo_digest :: "string \<Rightarrow> int \<Rightarrow> string" where
  "demo_digest rid n = request_digest demo_sha rid ''prod'' 1 ''alice'' ''raise'' ''T1''
     ''risk-config-approval-v1'' (demo_limit n)"

abbreviation maker :: "wf_call \<Rightarrow> int \<Rightarrow> wf_event" where
  "maker c t \<equiv> Wf_Event c ''alice'' [''RISK_CONFIG_REQUESTER''] (Aware t)"

definition demo_events :: "wf_event list" where
  "demo_events =
     [maker (Call_Submit (demo_submission ''r1'' 250)) 1,
      maker (Call_Submit (demo_submission ''r2'' 3000)) 2,
      Wf_Event (Call_Approve ''r1'' (demo_digest ''r1'' 250)) ''bob'' [''RISK_MANAGER''] (Aware 3)]"

definition demo_apply :: wf_event where
  "demo_apply = Wf_Event (Call_Apply ''r1'' (demo_digest ''r1'' 250)) ''dan'' [''RISK_CONFIG_DEPLOYER''] (Aware 4)"

definition demo_signed :: "memory_store workflow" where
  "demo_signed = fold (workflow_step demo_env) demo_events (new_workflow demo_base)"

definition demo_live :: "memory_store workflow" where
  "demo_live = fold (workflow_step demo_env) (demo_events @ [demo_apply]) (new_workflow demo_base)"

lemma demo_base_made: "make_memory_store demo_sha demo_initial = Inr demo_base"
  by code_simp

lemma demo_policy: "make_policy default_policy = Inr default_policy"
  by code_simp

lemma demo_signed_run:
  "demo_signed = fold (workflow_step (memory_environment demo_sha (\<lambda>j. V_ok) default_policy))
     demo_events (new_workflow demo_base)"
  by (simp add: demo_signed_def demo_env_def)

lemma demo_live_run:
  "demo_live = fold (workflow_step (memory_environment demo_sha (\<lambda>j. V_ok) default_policy))
     (demo_events @ [demo_apply]) (new_workflow demo_base)"
  by (simp add: demo_live_def demo_env_def)

lemma demo_live_step:
  "demo_live = fold (workflow_step (memory_environment demo_sha (\<lambda>j. V_ok) default_policy)) [demo_apply] demo_signed"
  by (simp add: demo_live_def demo_signed_def demo_env_def)

lemma demo_live_read:
  "memory_read (wf_store demo_live) ''prod'' =
     Inr \<lparr>vc_environment = ''prod'', vc_version = 2, vc_config = demo_limit 250, vc_digest = ''13''\<rparr>"
  by code_simp

lemma demo_base_read:
  "memory_read demo_base ''prod'' =
     Inr \<lparr>vc_environment = ''prod'', vc_version = 1, vc_config = demo_limit 10, vc_digest = ''12''\<rparr>"
  by code_simp

lemma demo_signed_read:
  "memory_read (wf_store demo_signed) ''prod'' =
     Inr \<lparr>vc_environment = ''prod'', vc_version = 1, vc_config = demo_limit 10, vc_digest = ''12''\<rparr>"
  by code_simp

definition demo_r1 :: mutable_request where
  "demo_r1 = the (py_get (wf_requests demo_signed) ''r1'')"

lemma demo_r1_get: "py_get (wf_requests demo_signed) ''r1'' = Some demo_r1"
  by code_simp

lemma demo_r1_fields:
  "rq_state demo_r1 = APPROVED" "rq_id demo_r1 = ''r1''" "rq_expires_at demo_r1 = 86400000001"
  "rq_environment demo_r1 = ''prod''" "rq_base_version demo_r1 = 1" "rq_digest demo_r1 \<noteq> []"
  by code_simp+

definition demo_deployer :: actor where
  "demo_deployer = \<lparr>actor_id = ''dan'', roles = [''RISK_CONFIG_DEPLOYER'']\<rparr>"

theorem live_configuration_signed_off_witness:
  "\<exists>rid r. py_get (wf_requests demo_live) rid = Some r \<and> rq_config r = demo_limit 250 \<and>
     rq_base_version r = 1 \<and> signed_off default_policy r"
  using live_configuration_signed_off[OF demo_base_made demo_policy demo_live_run demo_live_read] demo_base_read
  by auto

theorem versions_compare_and_set_witness:
  "\<exists>cur'. memory_read (wf_store demo_live) ''prod'' = Inr cur' \<and> 1 \<le> vc_version cur'"
  using versions_compare_and_set[OF demo_base_made demo_policy demo_signed_run demo_live_step] demo_signed_read
  by fastforce

theorem requests_follow_lifecycle_witness:
  "\<exists>r'. py_get (wf_requests demo_live) ''r1'' = Some r' \<and> request_evolves demo_r1 r'"
  using requests_follow_lifecycle[OF demo_base_made demo_policy demo_signed_run demo_live_step demo_r1_get] by blast

theorem audit_log_chained_witness:
  "prefix (audit_events demo_signed) (audit_events demo_live) \<and> ae_sequence (audit_events demo_signed ! 2) = 3"
proof -
  have "2 < length (audit_events demo_signed)" by code_simp
  then show ?thesis
    using audit_log_chained[OF demo_base_made demo_policy demo_signed_run demo_live_step] by (simp add: Let_def)
qed

theorem apply_succeeds_iff_witness:
  "\<exists>cr. fst (apply_change (memory_environment demo_sha (\<lambda>j. V_ok) default_policy) ''r1'' demo_deployer
     (rq_digest demo_r1) (Aware 4) demo_signed) = Inr cr"
proof -
  have "set (roles demo_deployer) \<inter> set (deployer_roles default_policy) \<noteq> {}" by code_simp
  moreover have "independent default_policy demo_deployer demo_r1" by code_simp
  ultimately show ?thesis
    using apply_succeeds_iff[OF demo_base_made demo_policy demo_signed_run demo_r1_get demo_r1_fields(6),
        of demo_deployer 4] demo_signed_read demo_r1_fields by simp
qed

theorem expired_request_is_dead_witness:
  "\<exists>e e'. fst (apply_change demo_env ''r1'' demo_deployer (rq_digest demo_r1) (Aware 86400000001) demo_signed) = Inl e \<and>
    fst (approve demo_env ''r1'' demo_deployer (rq_digest demo_r1) (Aware 86400000001) demo_signed) = Inl e'"
  using expired_request_is_dead[OF demo_r1_get, of 86400000001 demo_env demo_deployer "rq_digest demo_r1"] demo_r1_fields
  by auto

definition demo_maker :: actor where
  "demo_maker = \<lparr>actor_id = ''alice'', roles = [''RISK_CONFIG_REQUESTER'']\<rparr>"

definition demo_submit :: "(wf_error + change_request) \<times> memory_store workflow" where
  "demo_submit = submit_change demo_env (demo_submission ''r3'' 99) demo_maker (Aware 5) demo_live"

lemma demo_stale: "fst (submit_change demo_env (demo_submission ''r3'' 99) demo_maker (Aware 5) demo_live) = Inl Version_Conflict"
  by code_simp

definition demo_first :: "(wf_error + change_request) \<times> memory_store workflow" where
  "demo_first = submit_change demo_env (demo_submission ''r1'' 250) demo_maker (Aware 1) (new_workflow demo_base)"

lemma demo_first_ok: "\<not> isl (fst demo_first)" "cr_id (projr (fst demo_first)) = ''r1''"
  by code_simp+

theorem submit_retry_idempotent_witness:
  "\<exists>r. submit_change demo_env (demo_submission ''r1'' 250) demo_maker (Aware 9)
       (fold (workflow_step demo_env) (tl demo_events @ [demo_apply]) (snd demo_first)) =
     (Inr (snapshot r), fold (workflow_step demo_env) (tl demo_events @ [demo_apply]) (snd demo_first))"
proof -
  have "submit_change (memory_environment demo_sha (\<lambda>j. V_ok) default_policy) (demo_submission ''r1'' 250)
      demo_maker (Aware 1) (new_workflow demo_base) = (Inr (projr (fst demo_first)), snd demo_first)"
    using demo_first_ok(1) by (simp add: demo_first_def demo_env_def sum.expand prod_eq_iff)
  moreover have "make_actor ''alice'' [''RISK_CONFIG_REQUESTER''] = Inr demo_maker" by code_simp
  ultimately show ?thesis
    unfolding demo_env_def
    using submit_retry_idempotent[OF demo_base_made demo_policy, of "new_workflow demo_base" "\<lambda>j. V_ok" "[]"] by fastforce
qed

definition demo_args :: "string \<Rightarrow> int \<Rightarrow> int \<Rightarrow> apply_args" where
  "demo_args rid v n = \<lparr>ap_request_id = rid, ap_environment = ''prod'', ap_expected_version = v,
     ap_config = demo_limit n, ap_request_digest = ''d'', ap_config_digest = demo_sha (dumps_ordered (demo_limit n))\<rparr>"

theorem store_applies_once_witness:
  "memory_apply demo_sha (demo_args ''a'' 1 50) (fold (\<lambda>b s. snd (memory_apply demo_sha b s)) [demo_args ''b'' 2 60]
     (snd (memory_apply demo_sha (demo_args ''a'' 1 50) demo_base))) =
   (Inr (projr (fst (memory_apply demo_sha (demo_args ''a'' 1 50) demo_base))),
    fold (\<lambda>b s. snd (memory_apply demo_sha b s)) [demo_args ''b'' 2 60]
     (snd (memory_apply demo_sha (demo_args ''a'' 1 50) demo_base)))"
proof -
  have "memory_apply demo_sha (demo_args ''a'' 1 50) demo_base =
      (Inr (projr (fst (memory_apply demo_sha (demo_args ''a'' 1 50) demo_base))),
       snd (memory_apply demo_sha (demo_args ''a'' 1 50) demo_base))" by code_simp
  moreover have "memory_ledger demo_base (ap_request_id (demo_args ''a'' 1 50)) = None" by code_simp
  ultimately show ?thesis using store_applies_once[OF _ _ refl] by blast
qed

theorem canonical_form_order_free_witness:
  "canonical_config 32 (J_dict [(K_str ''a'', J_int 1), (K_str ''b'', J_null)]) =
   canonical_config 32 (J_dict [(K_str ''b'', J_null), (K_str ''a'', J_int 1)])"
  by (rule canonical_form_order_free, rule r_into_rtranclp, rule reordered.here) simp_all

end
