(* ===== verification/Self_Match.thy ===== *)
theory Self_Match
  imports Py_Text Complex_Main "HOL-Library.Product_Lexorder"
begin

text \<open>
  Model of \<open>skills/exchange-self-match-prevention-configuration/scripts/
  exchange_self_match_prevention_configuration.py\<close>: encoding of self-match-prevention (SMP)
  instructions for a venue, and the audit that predicts what the venue would do to the firm's
  own resting orders.

  \<^item> The engine only compares and negates prices, so a finite float is its exact rational value;
    NaN and the infinities are \<open>Not_finite\<close>.
  \<^item> \<open>isinstance\<close> checks are discharged by typing; where the code treats a missing value or one
    that is not a string as blank (an SMP id, an instruction) that value is \<open>None\<close>.
  \<^item> The free-text \<open>notes\<close> and \<open>audit_notes\<close> and the log calls are left out.
\<close>

section \<open>Instructions and venue profiles\<close>

datatype smp_instruction = CANCEL_RESTING | CANCEL_AGGRESSIVE | CANCEL_BOTH | DECREMENT_AND_CANCEL

datatype decrement_model = SYMMETRIC | CANCEL_AGGRESSOR_DECREMENT_RESTING | Other_model string

datatype order_side = BUY | SELL

datatype smp_error =
    Unknown_Venue | Unknown_Instruction | Unsupported_Instruction | Blank_Smp_Id
  | Bad_Side | Bad_Quantity | Bad_Price | Blank_Id | Instruction_Required | No_Decrement_Model

definition smp_instructions :: "smp_instruction list" where
  "smp_instructions = [CANCEL_RESTING, CANCEL_AGGRESSIVE, CANCEL_BOTH, DECREMENT_AND_CANCEL]"

fun instruction_text :: "smp_instruction \<Rightarrow> string" where
  "instruction_text CANCEL_RESTING = ''CANCEL_RESTING''"
| "instruction_text CANCEL_AGGRESSIVE = ''CANCEL_AGGRESSIVE''"
| "instruction_text CANCEL_BOTH = ''CANCEL_BOTH''"
| "instruction_text DECREMENT_AND_CANCEL = ''DECREMENT_AND_CANCEL''"

record venue_profile =
  venue :: string
  smp_id_tag :: string
  smp_instruction_tag :: string
  wire_values :: "(smp_instruction, string) py_dict"
  default_instruction :: "smp_instruction option"
  decrement_model :: "decrement_model option"

definition supported_instructions :: "venue_profile \<Rightarrow> smp_instruction list" where
  "supported_instructions p = filter (\<lambda>i. py_get (wire_values p) i \<noteq> None) smp_instructions"

definition CME_ILINK2 :: venue_profile where
  "CME_ILINK2 = \<lparr>venue = ''CME_ILINK2'', smp_id_tag = ''7928'', smp_instruction_tag = ''8000'',
     wire_values = [(CANCEL_RESTING, ''O''), (CANCEL_AGGRESSIVE, ''N'')],
     default_instruction = Some CANCEL_RESTING, decrement_model = None\<rparr>"

definition CME_ILINK3 :: venue_profile where
  "CME_ILINK3 = \<lparr>venue = ''CME_ILINK3'', smp_id_tag = ''2362'', smp_instruction_tag = ''8000'',
     wire_values = [(CANCEL_RESTING, ''O''), (CANCEL_AGGRESSIVE, ''N'')],
     default_instruction = Some CANCEL_RESTING, decrement_model = None\<rparr>"

definition FIX_LATEST :: venue_profile where
  "FIX_LATEST = \<lparr>venue = ''FIX_LATEST'', smp_id_tag = ''2362'', smp_instruction_tag = ''2964'',
     wire_values = [(CANCEL_AGGRESSIVE, ''1''), (CANCEL_RESTING, ''2''), (CANCEL_BOTH, ''3'')],
     default_instruction = None, decrement_model = None\<rparr>"

definition COINBASE_EXCHANGE :: venue_profile where
  "COINBASE_EXCHANGE = \<lparr>venue = ''COINBASE_EXCHANGE'', smp_id_tag = ''profile_id'',
     smp_instruction_tag = ''stp'',
     wire_values = [(DECREMENT_AND_CANCEL, ''dc''), (CANCEL_RESTING, ''co''),
       (CANCEL_AGGRESSIVE, ''cn''), (CANCEL_BOTH, ''cb'')],
     default_instruction = Some DECREMENT_AND_CANCEL,
     decrement_model = Some CANCEL_AGGRESSOR_DECREMENT_RESTING\<rparr>"

definition NASDAQ_INET :: venue_profile where
  "NASDAQ_INET = \<lparr>venue = ''NASDAQ_INET'', smp_id_tag = ''group_id'',
     smp_instruction_tag = ''stp_action'',
     wire_values = [(CANCEL_RESTING, ''1''), (CANCEL_AGGRESSIVE, ''2''), (CANCEL_BOTH, ''3'')],
     default_instruction = None, decrement_model = Some SYMMETRIC\<rparr>"

definition smp_venue_profiles :: "(string, venue_profile) py_dict" where
  "smp_venue_profiles =
     map (\<lambda>p. (venue p, p)) [CME_ILINK2, CME_ILINK3, FIX_LATEST, COINBASE_EXCHANGE, NASDAQ_INET]"

record wire_fields =
  wf_venue :: string
  wf_id_tag :: string
  wf_id_value :: string
  wf_instruction_tag :: string
  wf_instruction_value :: string

section \<open>Orders and reports\<close>

datatype price_arg = Finite rat | Not_finite

record resting_order =
  ro_id :: string
  ro_symbol :: string
  ro_side :: string
  ro_qty :: int
  ro_price :: "price_arg option"
  ro_smp_id :: "string option"
  ro_entry_seq :: "int option"

record order_request =
  or_id :: string
  or_symbol :: string
  or_side :: string
  or_qty :: int
  or_price :: "price_arg option"
  or_smp_id :: "string option"
  or_instruction :: "string option"

record smp_collision =
  co_id :: string
  co_side :: string
  co_price :: rat
  co_qty :: int
  co_cancelled :: int
  co_remaining :: int
  co_aggressor_cancelled :: int

datatype instruction_source = REQUEST | ENGINE_DEFAULT

record audit_report =
  ar_id :: string
  ar_symbol :: string
  ar_smp_id :: string
  ar_instruction :: smp_instruction
  ar_source :: instruction_source
  ar_venue :: string
  ar_has_collision :: bool
  ar_collisions :: "smp_collision list"
  ar_colliding_id :: "string option"
  ar_dispatched :: bool
  ar_dispatched_qty :: int
  ar_resting_cancelled :: bool
  ar_cancelled_ids :: "string list"
  ar_wire :: wire_fields

section \<open>Configuration\<close>

record smp_engine =
  profile :: venue_profile
  default_smp :: "smp_instruction option"
  require_smp_id :: bool

datatype venue_arg = Venue_Profile venue_profile | Venue_Key string | Venue_Other

definition resolve_profile :: "venue_arg \<Rightarrow> smp_error + venue_profile" where
  "resolve_profile v =
     (case v of
        Venue_Profile p \<Rightarrow> Inr p
      | Venue_Key s \<Rightarrow>
          (case py_get smp_venue_profiles (py_upper (py_strip s)) of
             Some p \<Rightarrow> Inr p | None \<Rightarrow> Inl Unknown_Venue)
      | Venue_Other \<Rightarrow> Inl Unknown_Venue)"

definition normalise_instruction :: "string \<Rightarrow> smp_error + smp_instruction" where
  "normalise_instruction s =
     (case find (\<lambda>i. instruction_text i = py_upper (py_strip s)) smp_instructions of
        Some i \<Rightarrow> Inr i | None \<Rightarrow> Inl Unknown_Instruction)"

definition require_supported :: "venue_profile \<Rightarrow> smp_instruction \<Rightarrow> smp_error option" where
  "require_supported p i =
     (if py_get (wire_values p) i = None then Some Unsupported_Instruction else None)"

definition make_smp_engine :: "string option \<Rightarrow> venue_arg \<Rightarrow> bool \<Rightarrow> smp_error + smp_engine" where
  "make_smp_engine dflt v req =
     (case resolve_profile v of
        Inl e \<Rightarrow> Inl e
      | Inr p \<Rightarrow>
          (case dflt of
             None \<Rightarrow> Inr \<lparr>profile = p, default_smp = None, require_smp_id = req\<rparr>
           | Some s \<Rightarrow>
               (case normalise_instruction s of
                  Inl e \<Rightarrow> Inl e
                | Inr i \<Rightarrow>
                    (case require_supported p i of
                       Some e \<Rightarrow> Inl e
                     | None \<Rightarrow> Inr \<lparr>profile = p, default_smp = Some i, require_smp_id = req\<rparr>))))"

section \<open>Input validation\<close>

definition validate_smp_id :: "smp_engine \<Rightarrow> string option \<Rightarrow> smp_error + string" where
  "validate_smp_id g s =
     (let clean = (case s of None \<Rightarrow> '''' | Some x \<Rightarrow> py_strip x)
      in if clean = [] \<and> require_smp_id g then Inl Blank_Smp_Id else Inr clean)"

definition validate_side :: "string \<Rightarrow> smp_error + order_side" where
  "validate_side s =
     (let v = py_upper (py_strip s)
      in if v = ''BUY'' then Inr BUY else if v = ''SELL'' then Inr SELL else Inl Bad_Side)"

definition validate_qty :: "int \<Rightarrow> smp_error + int" where
  "validate_qty q = (if q \<le> 0 then Inl Bad_Quantity else Inr q)"

definition validate_price :: "price_arg option \<Rightarrow> bool \<Rightarrow> smp_error + rat option" where
  "validate_price p allow_market =
     (case p of
        None \<Rightarrow> (if allow_market then Inr None else Inl Bad_Price)
      | Some Not_finite \<Rightarrow> Inl Bad_Price
      | Some (Finite x) \<Rightarrow> (if x \<le> 0 then Inl Bad_Price else Inr (Some x)))"

definition validate_id :: "string \<Rightarrow> smp_error + string" where
  "validate_id s = (if py_strip s = [] then Inl Blank_Id else Inr (py_strip s))"

definition encode_smp_fields :: "smp_engine \<Rightarrow> string option \<Rightarrow> string \<Rightarrow> smp_error + wire_fields" where
  "encode_smp_fields g smp_id instruction =
     (case validate_smp_id g smp_id of Inl e \<Rightarrow> Inl e | Inr clean \<Rightarrow>
      case normalise_instruction instruction of Inl e \<Rightarrow> Inl e | Inr i \<Rightarrow>
      case py_get (wire_values (profile g)) i of
        None \<Rightarrow> Inl Unsupported_Instruction
      | Some wire \<Rightarrow>
          Inr \<lparr>wf_venue = venue (profile g), wf_id_tag = smp_id_tag (profile g), wf_id_value = clean,
               wf_instruction_tag = smp_instruction_tag (profile g), wf_instruction_value = wire\<rparr>)"

section \<open>Collisions\<close>

definition crosses :: "order_side \<Rightarrow> rat option \<Rightarrow> rat \<Rightarrow> bool" where
  "crosses aggressor_side aggressor_price resting_price =
     (case aggressor_price of
        None \<Rightarrow> True
      | Some p \<Rightarrow> (if aggressor_side = BUY then p \<ge> resting_price else p \<le> resting_price))"

fun opposite :: "order_side \<Rightarrow> order_side" where
  "opposite BUY = SELL"
| "opposite SELL = BUY"

text \<open>One turn of the loop: \<open>Inl\<close> raises, \<open>Inr None\<close> continues, \<open>Inr (Some m)\<close> appends.\<close>

type_synonym match_key = "rat \<times> int \<times> int"

definition match_one ::
    "order_side \<Rightarrow> string \<Rightarrow> rat option \<Rightarrow> string \<Rightarrow> nat \<Rightarrow> resting_order \<Rightarrow>
     smp_error + (match_key \<times> resting_order) option" where
  "match_one side symbol price smp_id index r =
     (case validate_id (ro_symbol r) of Inl e \<Rightarrow> Inl e | Inr r_symbol \<Rightarrow>
      case validate_side (ro_side r) of Inl e \<Rightarrow> Inl e | Inr r_side \<Rightarrow>
      case validate_price (ro_price r) False of Inl e \<Rightarrow> Inl e | Inr r_price0 \<Rightarrow>
      case validate_qty (ro_qty r) of Inl e \<Rightarrow> Inl e | Inr _ \<Rightarrow>
      let r_price = the r_price0;
          r_smp = (case ro_smp_id r of Some s \<Rightarrow> py_strip s | None \<Rightarrow> '''')
      in if r_symbol \<noteq> symbol \<or> r_side \<noteq> opposite side then Inr None
         else if r_smp = [] \<or> smp_id = [] \<or> r_smp \<noteq> smp_id then Inr None
         else if \<not> crosses side price r_price then Inr None
         else
           (let price_key = (if side = BUY then r_price else - r_price);
                seq = (case ro_entry_seq r of Some n \<Rightarrow> n | None \<Rightarrow> int index)
            in Inr (Some ((price_key, seq, int index), r))))"

fun match_loop ::
    "(nat \<Rightarrow> resting_order \<Rightarrow> smp_error + (match_key \<times> resting_order) option) \<Rightarrow> nat \<Rightarrow>
     resting_order list \<Rightarrow> smp_error + (match_key \<times> resting_order) list" where
  "match_loop f index [] = Inr []"
| "match_loop f index (r # rs) =
     (case f index r of
        Inl e \<Rightarrow> Inl e
      | Inr m \<Rightarrow>
          (case match_loop f (Suc index) rs of
             Inl e \<Rightarrow> Inl e
           | Inr ms \<Rightarrow> Inr (case m of None \<Rightarrow> ms | Some x \<Rightarrow> x # ms)))"

definition find_collisions ::
    "smp_engine \<Rightarrow> order_request \<Rightarrow> resting_order list \<Rightarrow> smp_error + resting_order list" where
  "find_collisions g req resting =
     (case validate_side (or_side req) of Inl e \<Rightarrow> Inl e | Inr side \<Rightarrow>
      case validate_id (or_symbol req) of Inl e \<Rightarrow> Inl e | Inr symbol \<Rightarrow>
      case validate_price (or_price req) True of Inl e \<Rightarrow> Inl e | Inr price \<Rightarrow>
      case validate_smp_id g (or_smp_id req) of Inl e \<Rightarrow> Inl e | Inr smp_id \<Rightarrow>
      case match_loop (match_one side symbol price smp_id) 0 resting of
        Inl e \<Rightarrow> Inl e
      | Inr matches \<Rightarrow> Inr (map snd (sort_key fst matches)))"

section \<open>The venue's action\<close>

definition price_of :: "resting_order \<Rightarrow> rat" where
  "price_of r = (case ro_price r of Some (Finite x) \<Rightarrow> x | _ \<Rightarrow> 0)"

definition collision_of :: "resting_order \<Rightarrow> int \<Rightarrow> int \<Rightarrow> smp_collision" where
  "collision_of r cancelled aggressor =
     \<lparr>co_id = ro_id r, co_side = py_upper (py_strip (ro_side r)), co_price = price_of r,
      co_qty = ro_qty r, co_cancelled = cancelled, co_remaining = ro_qty r - cancelled,
      co_aggressor_cancelled = aggressor\<rparr>"

text \<open>The symmetric decrement: the aggressor walks the book until it is exhausted.\<close>

fun walk_symmetric :: "int \<Rightarrow> resting_order list \<Rightarrow> smp_collision list \<times> int" where
  "walk_symmetric remaining [] = ([], remaining)"
| "walk_symmetric remaining (r # rs) =
     (if remaining \<le> 0 then ([], remaining)
      else
        (let taken = min remaining (ro_qty r);
             (cs, rest) = walk_symmetric (remaining - taken) rs
         in (collision_of r taken taken # cs, rest)))"

definition apply_instruction ::
    "smp_engine \<Rightarrow> smp_instruction \<Rightarrow> int \<Rightarrow> resting_order list \<Rightarrow> smp_collision list \<times> int" where
  "apply_instruction g instruction order_qty colliding =
     (if instruction = CANCEL_RESTING then
        (map (\<lambda>r. collision_of r (ro_qty r) 0) colliding, order_qty)
      else if instruction \<in> {CANCEL_AGGRESSIVE, CANCEL_BOTH} then
        (let first = hd colliding;
             cancel_resting = (if instruction = CANCEL_BOTH then ro_qty first else 0)
         in ([collision_of first cancel_resting order_qty], 0))
      else if decrement_model (profile g) = Some CANCEL_AGGRESSOR_DECREMENT_RESTING then
        (let first = hd colliding; taken = min order_qty (ro_qty first)
         in ([collision_of first taken order_qty], 0))
      else walk_symmetric order_qty colliding)"

text \<open>The instruction in force: the request's own, else the engine's default.\<close>

definition choose_instruction ::
    "smp_engine \<Rightarrow> order_request \<Rightarrow> smp_error + smp_instruction \<times> instruction_source" where
  "choose_instruction g req =
     (let raw = (case or_instruction req of Some s \<Rightarrow> s | None \<Rightarrow> '''')
      in if py_strip raw \<noteq> [] then
           (case normalise_instruction raw of Inl e \<Rightarrow> Inl e | Inr i \<Rightarrow> Inr (i, REQUEST))
         else case default_smp g of
           Some i \<Rightarrow> Inr (i, ENGINE_DEFAULT)
         | None \<Rightarrow> Inl Instruction_Required)"

definition audit_and_apply_smp ::
    "smp_engine \<Rightarrow> order_request \<Rightarrow> resting_order list \<Rightarrow> smp_error + audit_report" where
  "audit_and_apply_smp g req resting =
     (case validate_id (or_id req) of Inl e \<Rightarrow> Inl e | Inr cl_ord_id \<Rightarrow>
      case validate_id (or_symbol req) of Inl e \<Rightarrow> Inl e | Inr symbol \<Rightarrow>
      case validate_side (or_side req) of Inl e \<Rightarrow> Inl e | Inr _ \<Rightarrow>
      case validate_qty (or_qty req) of Inl e \<Rightarrow> Inl e | Inr order_qty \<Rightarrow>
      case validate_smp_id g (or_smp_id req) of Inl e \<Rightarrow> Inl e | Inr smp_id \<Rightarrow>
      case choose_instruction g req of Inl e \<Rightarrow> Inl e | Inr (instruction, src) \<Rightarrow>
      case require_supported (profile g) instruction of Some e \<Rightarrow> Inl e | None \<Rightarrow>
      if instruction = DECREMENT_AND_CANCEL \<and> decrement_model (profile g) = None
        then Inl No_Decrement_Model else
      case encode_smp_fields g (Some smp_id) (instruction_text instruction) of Inl e \<Rightarrow> Inl e | Inr wire \<Rightarrow>
      case find_collisions g req resting of Inl e \<Rightarrow> Inl e | Inr colliding \<Rightarrow>
      if colliding = [] then
        Inr \<lparr>ar_id = cl_ord_id, ar_symbol = symbol, ar_smp_id = smp_id, ar_instruction = instruction,
             ar_source = src, ar_venue = venue (profile g), ar_has_collision = False,
             ar_collisions = [], ar_colliding_id = None, ar_dispatched = True,
             ar_dispatched_qty = order_qty, ar_resting_cancelled = False, ar_cancelled_ids = [],
             ar_wire = wire\<rparr>
      else
        (let (collisions, dispatched_qty) = apply_instruction g instruction order_qty colliding;
             cancelled_ids = map co_id (filter (\<lambda>c. co_cancelled c > 0) collisions)
         in Inr \<lparr>ar_id = cl_ord_id, ar_symbol = symbol, ar_smp_id = smp_id, ar_instruction = instruction,
                ar_source = src, ar_venue = venue (profile g), ar_has_collision = True,
                ar_collisions = collisions, ar_colliding_id = Some (co_id (hd collisions)),
                ar_dispatched = (dispatched_qty > 0), ar_dispatched_qty = dispatched_qty,
                ar_resting_cancelled = (cancelled_ids \<noteq> []), ar_cancelled_ids = cancelled_ids,
                ar_wire = wire\<rparr>))"

end
