(* ===== verification/Self_Match_Properties.thy ===== *)
theory Self_Match_Properties
  imports Self_Match "HOL-Library.Multiset" "HOL-Library.Sublist"
begin

text \<open>
  The properties of self-match prevention: which resting orders the audit reports and in what
  order, that nothing it dispatches can meet an own order, that quantities are conserved, that
  the wire value is the venue's own, and that the snapshot's order does not matter.
\<close>

section \<open>Validation and the collision predicate\<close>

definition valid_resting :: "resting_order \<Rightarrow> bool" where
  "valid_resting r \<longleftrightarrow> py_strip (ro_symbol r) \<noteq> [] \<and> (\<exists>s. validate_side (ro_side r) = Inr s) \<and>
     (\<exists>x. ro_price r = Some (Finite x) \<and> 0 < x) \<and> 0 < ro_qty r"

definition side_of :: "resting_order \<Rightarrow> order_side" where
  "side_of r = (case validate_side (ro_side r) of Inr s \<Rightarrow> s | Inl _ \<Rightarrow> BUY)"

definition smp_of :: "resting_order \<Rightarrow> string" where
  "smp_of r = (case ro_smp_id r of Some s \<Rightarrow> py_strip s | None \<Rightarrow> '''')"

text \<open>An own order the aggressor would reach: same symbol, other side, same group, in reach.\<close>

definition collides :: "order_side \<Rightarrow> string \<Rightarrow> rat option \<Rightarrow> string \<Rightarrow> resting_order \<Rightarrow> bool" where
  "collides side symbol price smp_id r \<longleftrightarrow>
     py_strip (ro_symbol r) = symbol \<and> side_of r = opposite side \<and>
     smp_of r = smp_id \<and> smp_id \<noteq> [] \<and> crosses side price (price_of r)"

definition price_key :: "order_side \<Rightarrow> resting_order \<Rightarrow> rat" where
  "price_key side r = (if side = BUY then price_of r else - price_of r)"

definition match_key_of :: "order_side \<Rightarrow> nat \<Rightarrow> resting_order \<Rightarrow> match_key" where
  "match_key_of side i r =
     (price_key side r, (case ro_entry_seq r of Some n \<Rightarrow> n | None \<Rightarrow> int i), int i)"

lemma match_one_valid:
  "valid_resting r \<Longrightarrow> match_one side symbol price smp_id i r =
     Inr (if collides side symbol price smp_id r then Some (match_key_of side i r, r) else None)"
  by (auto simp: match_one_def valid_resting_def validate_id_def validate_price_def validate_qty_def
      collides_def side_of_def smp_of_def match_key_of_def price_key_def price_of_def Let_def)

lemma match_one_invalid: "match_one side symbol price smp_id i r = Inr m \<Longrightarrow> valid_resting r"
  by (auto simp: match_one_def valid_resting_def validate_id_def validate_price_def validate_qty_def
      split: sum.splits option.splits price_arg.splits if_splits)

lemma match_loop_Inr:
  "match_loop (match_one side symbol price smp_id) i rs = Inr ms \<longleftrightarrow>
     (\<forall>r\<in>set rs. valid_resting r) \<and>
     ms = map (\<lambda>(j, r). (match_key_of side j r, r))
            (filter (\<lambda>(j, r). collides side symbol price smp_id r) (enumerate i rs))"
proof (induction rs arbitrary: i ms)
  case (Cons r rs)
  show ?case
  proof (cases "valid_resting r")
    case True
    let ?f = "match_one side symbol price smp_id"
    let ?ms = "map (\<lambda>(j, r). (match_key_of side j r, r))
      (filter (\<lambda>(j, r). collides side symbol price smp_id r) (enumerate (Suc i) rs))"
    show ?thesis
    proof (cases "\<forall>r\<in>set rs. valid_resting r")
      case all: True
      then have "match_loop ?f (Suc i) rs = Inr ?ms" using Cons.IH[of "Suc i" ?ms] by simp
      then show ?thesis using True all by (auto simp: match_one_valid)
    next
      case False
      then obtain e where "match_loop ?f (Suc i) rs = Inl e"
        using Cons.IH[of "Suc i"] by (cases "match_loop ?f (Suc i) rs") auto
      then show ?thesis using True False by (auto simp: match_one_valid)
    qed
  next
    case False
    then have "\<nexists>m. match_one side symbol price smp_id i r = Inr m" using match_one_invalid by blast
    then show ?thesis using False by (auto split: sum.splits)
  qed
qed auto

text \<open>What a successful search has established.\<close>

lemma find_collisions_Inr:
  assumes "find_collisions g req resting = Inr cs"
  obtains side symbol price smp_id ms where
    "validate_side (or_side req) = Inr side" "validate_id (or_symbol req) = Inr symbol"
    "validate_price (or_price req) True = Inr price" "validate_smp_id g (or_smp_id req) = Inr smp_id"
    "\<forall>r\<in>set resting. valid_resting r"
    "ms = map (\<lambda>(j, r). (match_key_of side j r, r))
       (filter (\<lambda>(j, r). collides side symbol price smp_id r) (enumerate 0 resting))"
    "cs = map snd (sort_key fst ms)"
  using assms by (auto simp: find_collisions_def match_loop_Inr split: sum.splits)

lemma mset_matches:
  "image_mset snd (mset (map (\<lambda>(j, r). (match_key_of side j r, r)) (filter (\<lambda>(j, r). P r) (enumerate i rs)))) =
   mset (filter P rs)"
  by (induction rs arbitrary: i) auto

lemma sorted_matches:
  assumes "ms = map (\<lambda>(j, r). (match_key_of side j r, r)) (filter (\<lambda>(j, r). P r) (enumerate i rs))"
  shows "sorted_wrt (\<lambda>r r'. price_key side r \<le> price_key side r' \<and>
      (\<forall>a b. price_key side r = price_key side r' \<and> ro_entry_seq r = Some a \<and> ro_entry_seq r' = Some b \<longrightarrow> a \<le> b))
    (map snd (sort_key fst ms))"
proof -
  have "sorted_wrt (\<lambda>x y. fst x \<le> fst y) (sort_key fst ms)"
    using sorted_sort_key[of fst ms] by (simp add: sorted_wrt_map)
  then have "sorted_wrt (\<lambda>x y. price_key side (snd x) \<le> price_key side (snd y) \<and>
      (\<forall>a b. price_key side (snd x) = price_key side (snd y) \<and> ro_entry_seq (snd x) = Some a \<and>
        ro_entry_seq (snd y) = Some b \<longrightarrow> a \<le> b)) (sort_key fst ms)"
  proof (rule sorted_wrt_mono_rel[rotated])
    fix x y assume "x \<in> set (sort_key fst ms)" "y \<in> set (sort_key fst ms)" and le: "fst x \<le> fst y"
    then obtain i j where "fst x = match_key_of side i (snd x)" "fst y = match_key_of side j (snd y)"
      using assms by auto
    then show "price_key side (snd x) \<le> price_key side (snd y) \<and>
      (\<forall>a b. price_key side (snd x) = price_key side (snd y) \<and> ro_entry_seq (snd x) = Some a \<and>
        ro_entry_seq (snd y) = Some b \<longrightarrow> a \<le> b)"
      using le by (auto simp: match_key_of_def less_eq_prod_def)
  qed
  then show ?thesis by (simp add: sorted_wrt_map)
qed

section \<open>The venue's action\<close>

lemma walk_conserves:
  assumes "0 \<le> q" "\<forall>r\<in>set rs. 0 < ro_qty r" "walk_symmetric q rs = (cs, rest)"
  shows "rest + sum_list (map co_aggressor_cancelled cs) = q \<and>
    rest = max 0 (q - sum_list (map ro_qty rs)) \<and>
    (\<forall>c\<in>set cs. 0 < co_cancelled c \<and> 0 \<le> co_remaining c \<and> co_cancelled c + co_remaining c = co_qty c) \<and>
    prefix (map co_id cs) (map ro_id rs) \<and>
    (0 < rest \<longrightarrow> map co_id cs = map ro_id rs \<and> (\<forall>c\<in>set cs. co_remaining c = 0))"
  using assms
proof (induction rs arbitrary: q cs rest)
  case (Cons r rs)
  show ?case
  proof (cases "q \<le> 0")
    case True
    have "0 \<le> sum_list (map ro_qty rs)" using Cons.prems(2) by (intro sum_list_nonneg) auto
    then show ?thesis using True Cons.prems by auto
  next
    case False
    let ?t = "min q (ro_qty r)"
    obtain cs' rest' where rec: "walk_symmetric (q - ?t) rs = (cs', rest')" by fastforce
    have ih: "rest' + sum_list (map co_aggressor_cancelled cs') = q - ?t \<and>
      rest' = max 0 (q - ?t - sum_list (map ro_qty rs)) \<and>
      (\<forall>c\<in>set cs'. 0 < co_cancelled c \<and> 0 \<le> co_remaining c \<and> co_cancelled c + co_remaining c = co_qty c) \<and>
      prefix (map co_id cs') (map ro_id rs) \<and>
      (0 < rest' \<longrightarrow> map co_id cs' = map ro_id rs \<and> (\<forall>c\<in>set cs'. co_remaining c = 0))"
      by (rule Cons.IH[OF _ _ rec]) (use Cons.prems(2) in auto)
    have eq: "cs = collision_of r ?t ?t # cs'" "rest = rest'"
      using Cons.prems(3) False rec by (simp_all add: Let_def)
    have nn: "0 \<le> sum_list (map ro_qty rs)" using Cons.prems(2) by (intro sum_list_nonneg) auto
    have full: "ro_qty r \<le> q" if "0 < rest'" using ih that nn by linarith
    show ?thesis unfolding eq using ih False Cons.prems(2) nn full
      by (auto simp: collision_of_def min_def)
  qed
qed auto

lemma apply_conserves:
  assumes "0 < q" "\<forall>r\<in>set rs. 0 < ro_qty r" "rs \<noteq> []" "apply_instruction g i q rs = (cs, d)"
  shows "d + sum_list (map co_aggressor_cancelled cs) = q \<and> 0 \<le> d \<and>
    (\<forall>c\<in>set cs. 0 \<le> co_cancelled c \<and> 0 \<le> co_remaining c \<and> co_cancelled c + co_remaining c = co_qty c) \<and>
    (0 < d \<longrightarrow> map co_id cs = map ro_id rs \<and> (\<forall>c\<in>set cs. co_remaining c = 0))"
proof (cases "i = DECREMENT_AND_CANCEL \<and> decrement_model (profile g) \<noteq> Some CANCEL_AGGRESSOR_DECREMENT_RESTING")
  case True
  then have "walk_symmetric q rs = (cs, d)" using assms(4) by (simp add: apply_instruction_def)
  from walk_conserves[OF _ assms(2) this] assms(1) show ?thesis by fastforce
next
  case False
  have h: "hd rs \<in> set rs" "0 < ro_qty (hd rs)" using assms(2,3) by simp_all
  show ?thesis
  proof (cases "i = CANCEL_RESTING")
    case True
    then have "cs = map (\<lambda>r. collision_of r (ro_qty r) 0) rs" "d = q" using assms(4)
      by (simp_all add: apply_instruction_def)
    moreover have "sum_list (map co_aggressor_cancelled (map (\<lambda>r. collision_of r (ro_qty r) 0) rs)) = 0"
      by (induction rs) (simp_all add: collision_of_def)
    ultimately show ?thesis using assms(1,2) by (auto simp: collision_of_def)
  next
    case not_resting: False
    obtain t where "cs = [collision_of (hd rs) t q]" "d = 0" "0 \<le> t" "t \<le> ro_qty (hd rs)"
      using assms(1,4) not_resting False h(2)
      by (cases i) (auto simp: apply_instruction_def Let_def)
    then show ?thesis by (auto simp: collision_of_def)
  qed
qed

lemma normalise_texts:
  "normalise_instruction (instruction_text CANCEL_RESTING) = Inr CANCEL_RESTING"
  "normalise_instruction (instruction_text CANCEL_AGGRESSIVE) = Inr CANCEL_AGGRESSIVE"
  "normalise_instruction (instruction_text CANCEL_BOTH) = Inr CANCEL_BOTH"
  "normalise_instruction (instruction_text DECREMENT_AND_CANCEL) = Inr DECREMENT_AND_CANCEL"
  by code_simp+

text \<open>The body of a successful audit.\<close>

lemma audit_Inr:
  assumes "audit_and_apply_smp g req resting = Inr rep"
  obtains cs src wire where
    "find_collisions g req resting = Inr cs" "0 < or_qty req" "validate_smp_id g (or_smp_id req) = Inr (ar_smp_id rep)"
    "choose_instruction g req = Inr (ar_instruction rep, src)" "ar_source rep = src"
    "py_get (wire_values (profile g)) (ar_instruction rep) = Some wire"
    "ar_wire rep = \<lparr>wf_venue = venue (profile g), wf_id_tag = smp_id_tag (profile g), wf_id_value = ar_smp_id rep,
       wf_instruction_tag = smp_instruction_tag (profile g), wf_instruction_value = wire\<rparr>"
    "ar_has_collision rep \<longleftrightarrow> cs \<noteq> []"
    "cs = [] \<Longrightarrow> ar_collisions rep = [] \<and> ar_dispatched_qty rep = or_qty req"
    "cs \<noteq> [] \<Longrightarrow> apply_instruction g (ar_instruction rep) (or_qty req) cs = (ar_collisions rep, ar_dispatched_qty rep)"
    "ar_dispatched rep \<longleftrightarrow> 0 < ar_dispatched_qty rep"
proof -
  obtain cid symbol side qty smp_id i src where v: "validate_id (or_id req) = Inr cid"
    "validate_id (or_symbol req) = Inr symbol" "validate_side (or_side req) = Inr side"
    "validate_qty (or_qty req) = Inr qty" "validate_smp_id g (or_smp_id req) = Inr smp_id"
    "choose_instruction g req = Inr (i, src)" "require_supported (profile g) i = None"
    "\<not> (i = DECREMENT_AND_CANCEL \<and> decrement_model (profile g) = None)"
    using assms unfolding audit_and_apply_smp_def
    by (auto split: sum.splits prod.splits option.splits if_splits)
  have q: "qty = or_qty req" "0 < or_qty req" using v(4) by (auto simp: validate_qty_def split: if_splits)
  obtain wire where wire: "py_get (wire_values (profile g)) i = Some wire"
    using v(7) by (auto simp: require_supported_def split: if_splits)
  have norm: "normalise_instruction (instruction_text i) = Inr i" by (cases i) (simp_all only: normalise_texts)
  have "py_strip smp_id = smp_id" "validate_smp_id g (Some smp_id) = Inr smp_id"
    using v(5) by (auto simp: validate_smp_id_def Let_def split: option.splits if_splits)
  then have enc: "encode_smp_fields g (Some smp_id) (instruction_text i) =
    Inr \<lparr>wf_venue = venue (profile g), wf_id_tag = smp_id_tag (profile g), wf_id_value = smp_id,
       wf_instruction_tag = smp_instruction_tag (profile g), wf_instruction_value = wire\<rparr>"
    by (simp add: encode_smp_fields_def norm wire)
  obtain cs where cs: "find_collisions g req resting = Inr cs"
    using assms v enc unfolding audit_and_apply_smp_def by (auto split: sum.splits)
  obtain co d where ap: "apply_instruction g i (or_qty req) cs = (co, d)" by fastforce
  note body = assms[unfolded audit_and_apply_smp_def v sum.case prod.case option.case enc cs]
  show ?thesis
    by (rule that[OF cs q(2)]) (use body v(6,8) v(5) wire ap q in \<open>auto simp: Let_def split: if_splits\<close>)
qed

lemma audit_outcome:
  assumes "audit_and_apply_smp g req resting = Inr rep"
  shows "\<exists>cs. find_collisions g req resting = Inr cs \<and> 0 < or_qty req \<and>
    (cs = [] \<longrightarrow> ar_collisions rep = [] \<and> ar_dispatched_qty rep = or_qty req) \<and>
    (cs \<noteq> [] \<longrightarrow> apply_instruction g (ar_instruction rep) (or_qty req) cs = (ar_collisions rep, ar_dispatched_qty rep)) \<and>
    (ar_dispatched rep \<longleftrightarrow> 0 < ar_dispatched_qty rep)"
  by (rule audit_Inr[OF assms]) blast

lemma collisions_positive:
  assumes "find_collisions g req resting = Inr cs"
  shows "\<forall>r\<in>set cs. 0 < ro_qty r"
proof -
  have "\<forall>r\<in>set cs. valid_resting r"
    by (rule find_collisions_Inr[OF assms]) (auto simp: in_set_enumerate_eq)
  then show ?thesis by (simp add: valid_resting_def)
qed

section \<open>Properties\<close>

definition better :: "order_side \<Rightarrow> rat \<Rightarrow> rat \<Rightarrow> bool" where
  "better side x y \<longleftrightarrow> (if side = BUY then x < y else y < x)"

lemma price_key_better: "price_key side r \<le> price_key side r' \<longleftrightarrow> \<not> better side (price_of r') (price_of r)"
  by (auto simp: price_key_def better_def)

lemma price_key_eq: "price_key side r = price_key side r' \<longleftrightarrow> price_of r = price_of r'"
  by (auto simp: price_key_def)

text \<open>The audit finds every own order in reach, and nothing else, in match order. A search that returns has
  validated every resting order; its result is the multiset of those on the other side of the
  same symbol, in the same non-blank SMP group and within reach of the price; the best price
  comes first, and within a price the earlier venue sequence.\<close>

theorem collisions_complete_and_ordered:
  assumes "find_collisions g req resting = Inr cs"
  shows "\<exists>side symbol price smp_id.
    validate_side (or_side req) = Inr side \<and> validate_id (or_symbol req) = Inr symbol \<and>
    validate_price (or_price req) True = Inr price \<and> validate_smp_id g (or_smp_id req) = Inr smp_id \<and>
    (\<forall>r. r \<in> set resting \<longrightarrow> valid_resting r) \<and>
    mset cs = mset (filter (collides side symbol price smp_id) resting) \<and>
    sorted_wrt (\<lambda>r r'. \<not> better side (price_of r') (price_of r) \<and>
      (\<forall>a b. price_of r = price_of r' \<and> ro_entry_seq r = Some a \<and> ro_entry_seq r' = Some b \<longrightarrow> a \<le> b)) cs"
proof -
  obtain side symbol price smp_id ms where f:
    "validate_side (or_side req) = Inr side" "validate_id (or_symbol req) = Inr symbol"
    "validate_price (or_price req) True = Inr price" "validate_smp_id g (or_smp_id req) = Inr smp_id"
    "\<forall>r\<in>set resting. valid_resting r"
    "ms = map (\<lambda>(j, r). (match_key_of side j r, r))
       (filter (\<lambda>(j, r). collides side symbol price smp_id r) (enumerate 0 resting))"
    "cs = map snd (sort_key fst ms)"
    by (rule find_collisions_Inr[OF assms])
  have "mset cs = image_mset snd (mset ms)" using f(7) by simp
  then have "mset cs = mset (filter (collides side symbol price smp_id) resting)"
    unfolding f(6) mset_matches .
  moreover have "sorted_wrt (\<lambda>r r'. \<not> better side (price_of r') (price_of r) \<and>
      (\<forall>a b. price_of r = price_of r' \<and> ro_entry_seq r = Some a \<and> ro_entry_seq r' = Some b \<longrightarrow> a \<le> b)) cs"
    using sorted_matches[OF f(6)] unfolding f(7) price_key_better price_key_eq .
  ultimately show ?thesis using f(1-5) by blast
qed

text \<open>C16. Nothing dispatched can meet an own order. If the predicted outcome leaves any quantity of the
  incoming order alive, every own order it could reach is reported and cancelled in full.\<close>

theorem dispatched_order_cannot_self_match:
  assumes "audit_and_apply_smp g req resting = Inr rep" "find_collisions g req resting = Inr cs"
    "ar_dispatched rep"
  shows "map co_id (ar_collisions rep) = map ro_id cs \<and> (\<forall>c. c \<in> set (ar_collisions rep) \<longrightarrow> co_remaining c = 0)"
proof (cases "cs = []")
  case True
  then show ?thesis using audit_outcome[OF assms(1)] assms(2) by simp
next
  case False
  then have "apply_instruction g (ar_instruction rep) (or_qty req) cs = (ar_collisions rep, ar_dispatched_qty rep)"
    "0 < or_qty req" "0 < ar_dispatched_qty rep"
    using audit_outcome[OF assms(1)] assms(2,3) by simp_all
  then show ?thesis using apply_conserves[OF _ collisions_positive[OF assms(2)] False] by blast
qed

text \<open>Quantities are conserved. What survives of the incoming order and what the collisions take from it
  add up to its quantity; for each collision the cancelled and remaining resting quantities
  are non-negative and add up to the order's, and nothing survives beyond the request.\<close>

theorem audit_conserves_quantity:
  assumes "audit_and_apply_smp g req resting = Inr rep"
  shows "ar_dispatched_qty rep + sum_list (map co_aggressor_cancelled (ar_collisions rep)) = or_qty req \<and>
    0 \<le> ar_dispatched_qty rep \<and> (ar_dispatched rep \<longleftrightarrow> 0 < ar_dispatched_qty rep) \<and>
    (\<forall>c. c \<in> set (ar_collisions rep) \<longrightarrow>
      0 \<le> co_cancelled c \<and> 0 \<le> co_remaining c \<and> co_cancelled c + co_remaining c = co_qty c)"
proof -
  obtain cs where a: "find_collisions g req resting = Inr cs" "0 < or_qty req"
    "cs = [] \<longrightarrow> ar_collisions rep = [] \<and> ar_dispatched_qty rep = or_qty req"
    "cs \<noteq> [] \<longrightarrow> apply_instruction g (ar_instruction rep) (or_qty req) cs = (ar_collisions rep, ar_dispatched_qty rep)"
    "ar_dispatched rep \<longleftrightarrow> 0 < ar_dispatched_qty rep"
    using audit_outcome[OF assms] by blast
  show ?thesis
  proof (cases "cs = []")
    case True
    then show ?thesis using a(2,3,5) by simp
  next
    case False
    then show ?thesis using apply_conserves[OF a(2) collisions_positive[OF a(1)] False] a(4,5) by blast
  qed
qed

lemma make_engine_supported:
  "make_smp_engine dflt v b = Inr g \<Longrightarrow> default_smp g = Some i \<Longrightarrow> py_get (wire_values (profile g)) i \<noteq> None"
  by (auto simp: make_smp_engine_def require_supported_def split: sum.splits option.splits if_splits)

text \<open>No silent downgrade. The instruction of a report is the one the request spells, up to case and
  blanks, or the engine's default if it spells none; its wire value is the venue's own for
  that instruction; and the default a constructed engine falls back on is one its venue
  supports.\<close>

theorem wire_value_is_the_venues:
  assumes "make_smp_engine dflt v b = Inr g" "audit_and_apply_smp g req resting = Inr rep"
  shows "py_get (wire_values (profile g)) (ar_instruction rep) = Some (wf_instruction_value (ar_wire rep)) \<and>
    wf_instruction_tag (ar_wire rep) = smp_instruction_tag (profile g) \<and>
    wf_id_tag (ar_wire rep) = smp_id_tag (profile g) \<and>
    (case ar_source rep of
       REQUEST \<Rightarrow> \<exists>s. or_instruction req = Some s \<and> py_upper (py_strip s) = instruction_text (ar_instruction rep)
     | ENGINE_DEFAULT \<Rightarrow> default_smp g = Some (ar_instruction rep)) \<and>
    (\<forall>i. default_smp g = Some i \<longrightarrow> i \<in> set (supported_instructions (profile g)))"
proof -
  obtain cs src wire where a: "choose_instruction g req = Inr (ar_instruction rep, src)" "ar_source rep = src"
    "py_get (wire_values (profile g)) (ar_instruction rep) = Some wire"
    "ar_wire rep = \<lparr>wf_venue = venue (profile g), wf_id_tag = smp_id_tag (profile g), wf_id_value = ar_smp_id rep,
       wf_instruction_tag = smp_instruction_tag (profile g), wf_instruction_value = wire\<rparr>"
    by (rule audit_Inr[OF assms(2)])
  have "case src of
       REQUEST \<Rightarrow> \<exists>s. or_instruction req = Some s \<and> py_upper (py_strip s) = instruction_text (ar_instruction rep)
     | ENGINE_DEFAULT \<Rightarrow> default_smp g = Some (ar_instruction rep)"
    using a(1) by (auto simp: choose_instruction_def Let_def normalise_instruction_def
        split: option.splits if_splits sum.splits dest!: find_SomeD)
  moreover have "i \<in> set smp_instructions" for i by (cases i) (simp_all add: smp_instructions_def)
  ultimately show ?thesis using a make_engine_supported[OF assms(1)]
    by (auto simp: supported_instructions_def)
qed

text \<open>The snapshot's order does not matter. If every resting order carries its venue sequence and no two
  orders of a price share one, the audit of a permuted snapshot is the same report.\<close>

theorem snapshot_order_irrelevant:
  assumes "find_collisions g req resting = Inr cs" "mset resting' = mset resting"
    "\<forall>r\<in>set resting. ro_entry_seq r \<noteq> None"
    "inj_on (\<lambda>r. (price_of r, the (ro_entry_seq r))) (set resting)"
  shows "find_collisions g req resting' = Inr cs \<and>
    audit_and_apply_smp g req resting' = audit_and_apply_smp g req resting"
proof -
  obtain side symbol price smp_id ms where f:
    "validate_side (or_side req) = Inr side" "validate_id (or_symbol req) = Inr symbol"
    "validate_price (or_price req) True = Inr price" "validate_smp_id g (or_smp_id req) = Inr smp_id"
    "\<forall>r\<in>set resting. valid_resting r"
    "ms = map (\<lambda>(j, r). (match_key_of side j r, r))
       (filter (\<lambda>(j, r). collides side symbol price smp_id r) (enumerate 0 resting))"
    "cs = map snd (sort_key fst ms)"
    by (rule find_collisions_Inr[OF assms(1)])
  let ?P = "collides side symbol price smp_id" and ?key = "\<lambda>r. (price_key side r, the (ro_entry_seq r))"
  have set': "set resting' = set resting" using assms(2) by (rule mset_eq_setD)
  have canonical: "map snd (sort_key fst (map (\<lambda>(j, r). (match_key_of side j r, r))
      (filter (\<lambda>(j, r). ?P r) (enumerate 0 rs)))) = sort_key ?key (filter ?P rs)"
    if rs: "set rs = set resting" for rs
  proof -
    let ?ms = "map (\<lambda>(j, r). (match_key_of side j r, r)) (filter (\<lambda>(j, r). ?P r) (enumerate 0 rs))"
    let ?cs = "map snd (sort_key fst ?ms)"
    have "mset ?cs = image_mset snd (mset ?ms)" by simp
    then have m: "mset ?cs = mset (filter ?P rs)" unfolding mset_matches .
    have "sorted_wrt (\<lambda>r r'. ?key r \<le> ?key r') ?cs"
    proof (rule sorted_wrt_mono_rel[OF _ sorted_matches[OF refl]])
      fix r r' assume "r \<in> set ?cs" "r' \<in> set ?cs"
      then have "r \<in> set resting" "r' \<in> set resting" using mset_eq_setD[OF m] rs by auto
      then have "ro_entry_seq r \<noteq> None" "ro_entry_seq r' \<noteq> None" using assms(3) by auto
      then show "price_key side r \<le> price_key side r' \<and>
          (\<forall>a b. price_key side r = price_key side r' \<and> ro_entry_seq r = Some a \<and> ro_entry_seq r' = Some b \<longrightarrow> a \<le> b) \<Longrightarrow>
          ?key r \<le> ?key r'" by (auto simp: less_eq_prod_def)
    qed
    moreover have "inj_on ?key (set (filter ?P rs))"
      using assms(4) rs by (auto simp: inj_on_def price_key_eq)
    moreover have "mset (filter ?P rs) = mset ?cs" using m by (rule sym)
    ultimately have "sort_key ?key (filter ?P rs) = ?cs"
      by (intro sort_key_inj_key_eq) (simp_all only: sorted_map)
    then show ?thesis by simp
  qed
  have "sort_key ?key (filter ?P resting') = sort_key ?key (filter ?P resting)"
  proof (rule sort_key_inj_key_eq)
    show "mset (filter ?P resting') = mset (sort_key ?key (filter ?P resting))" using assms(2) by simp
    show "inj_on ?key (set (filter ?P resting'))"
      using assms(4) set' by (auto simp: inj_on_def price_key_eq)
  qed simp
  then have "find_collisions g req resting' = Inr cs"
    using f canonical[OF set'] canonical[OF refl] set'
    by (simp add: find_collisions_def match_loop_Inr[THEN iffD2, OF conjI, OF _ refl])
  moreover have "audit_and_apply_smp g req resting' = audit_and_apply_smp g req resting"
    unfolding audit_and_apply_smp_def assms(1) calculation by (rule refl)
  ultimately show ?thesis by blast
qed

section \<open>A concrete audit\<close>

definition demo_engine :: smp_engine where
  "demo_engine = \<lparr>profile = COINBASE_EXCHANGE, default_smp = Some CANCEL_RESTING, require_smp_id = True\<rparr>"

definition demo_resting :: "string \<Rightarrow> rat \<Rightarrow> int \<Rightarrow> int \<Rightarrow> resting_order" where
  "demo_resting i x q n = \<lparr>ro_id = i, ro_symbol = ''BTC-USD'', ro_side = ''sell'', ro_qty = q,
     ro_price = Some (Finite x), ro_smp_id = Some ''desk1'', ro_entry_seq = Some n\<rparr>"

definition demo_book :: "resting_order list" where
  "demo_book = [demo_resting ''a'' 101 4 7, demo_resting ''b'' 100 3 9, demo_resting ''c'' 105 2 1]"

definition demo_request :: order_request where
  "demo_request = \<lparr>or_id = ''x'', or_symbol = ''BTC-USD'', or_side = '' Buy'', or_qty = 10,
     or_price = Some (Finite 102), or_smp_id = Some ''desk1 '', or_instruction = None\<rparr>"

definition demo_report :: audit_report where
  "demo_report = projr (audit_and_apply_smp demo_engine demo_request demo_book)"

lemma demo_engine_made: "make_smp_engine (Some ''cancel_resting'') (Venue_Key ''coinbase_exchange'') True = Inr demo_engine"
  by code_simp

lemma demo_search:
  "find_collisions demo_engine demo_request demo_book = Inr [demo_resting ''b'' 100 3 9, demo_resting ''a'' 101 4 7]"
  by code_simp

lemma demo_audit: "audit_and_apply_smp demo_engine demo_request demo_book = Inr demo_report"
  by code_simp

lemma demo_dispatched: "ar_dispatched demo_report"
  by code_simp

theorem collisions_complete_and_ordered_witness:
  "\<exists>side symbol price smp_id.
     mset [demo_resting ''b'' 100 3 9, demo_resting ''a'' 101 4 7] =
       mset (filter (collides side symbol price smp_id) demo_book)"
  using collisions_complete_and_ordered[OF demo_search] by blast

theorem dispatched_order_cannot_self_match_witness:
  "map co_id (ar_collisions demo_report) = [''b'', ''a'']"
  using dispatched_order_cannot_self_match[OF demo_audit demo_search demo_dispatched] by (simp add: demo_resting_def)

theorem audit_conserves_quantity_witness:
  "ar_dispatched_qty demo_report + sum_list (map co_aggressor_cancelled (ar_collisions demo_report)) = 10"
  using audit_conserves_quantity[OF demo_audit] by (simp add: demo_request_def)

theorem wire_value_is_the_venues_witness:
  "py_get (wire_values COINBASE_EXCHANGE) (ar_instruction demo_report) =
     Some (wf_instruction_value (ar_wire demo_report))"
  using wire_value_is_the_venues[OF demo_engine_made demo_audit] by (simp add: demo_engine_def)

theorem snapshot_order_irrelevant_witness:
  "audit_and_apply_smp demo_engine demo_request (rev demo_book) = Inr demo_report"
  using snapshot_order_irrelevant[OF demo_search, of "rev demo_book"] demo_audit
  by (simp add: demo_book_def demo_resting_def price_of_def inj_on_def)

end
