(* ===== verification/Py_Value.thy ===== *)
theory Py_Value
  imports Py_Text Complex_Main
begin

text \<open>
  Dynamically typed Python values, as a broker's JSON answer or an order book entry holds
  them, and the conversions the order router applies to them: \<open>str\<close>, truth, \<open>float\<close> and the
  fixed-point formats. A finite float is the rational it denotes, so its arithmetic is exact
  here; a container carries the text \<open>str\<close> gives for it. A date is a count of days since
  1970, a datetime an instant in microseconds (a naive one read as UTC).
\<close>

section \<open>Values\<close>

datatype number = N_int int | N_float rat | N_nan | N_inf bool

datatype py_value =
    V_none | V_bool bool | V_int int | V_float rat string | V_nan | V_inf bool | V_str string
  | V_list string "py_value list" | V_map string "(string \<times> py_value) list"
  | V_datetime bool int string | V_date int | V_opaque string string

type_synonym py_mapping = "(string \<times> py_value) list"

definition iso_date :: "int \<Rightarrow> string" where
  "iso_date days = (let (y, m, d) = civil_date days in
     pad_left 4 (dec_int y) @ ''-'' @ pad_left 2 (dec_int m) @ ''-'' @ pad_left 2 (dec_int d))"

text \<open>\<open>isoformat(timespec="microseconds")\<close> in UTC.\<close>

definition iso_micros :: "int \<Rightarrow> string" where
  "iso_micros t =
     (let us = t mod 86400000000;
          s = us div 1000000;
          two = (\<lambda>n. pad_left 2 (dec_int n))
      in iso_date (t div 86400000000) @ ''T'' @ two (s div 3600) @ '':'' @ two (s div 60 mod 60) @
         '':'' @ two (s mod 60) @ ''.'' @ pad_left 6 (dec_int (us mod 1000000)) @ ''+00:00'')"

text \<open>\<open>str(v)\<close>.\<close>

fun py_str :: "py_value \<Rightarrow> string" where
  "py_str V_none = ''None''"
| "py_str (V_bool b) = (if b then ''True'' else ''False'')"
| "py_str (V_int n) = dec_int n"
| "py_str (V_float _ r) = r"
| "py_str V_nan = ''nan''"
| "py_str (V_inf pos) = (if pos then ''inf'' else ''-inf'')"
| "py_str (V_str s) = s"
| "py_str (V_list t _) = t"
| "py_str (V_map t _) = t"
| "py_str (V_datetime _ _ t) = t"
| "py_str (V_date d) = iso_date d"
| "py_str (V_opaque _ t) = t"

text \<open>\<open>type(v).__name__\<close>, a tuple counting as a list.\<close>

fun py_type :: "py_value \<Rightarrow> string" where
  "py_type V_none = ''NoneType''"
| "py_type (V_bool _) = ''bool''"
| "py_type (V_int _) = ''int''"
| "py_type (V_float _ _) = ''float''"
| "py_type V_nan = ''float''"
| "py_type (V_inf _) = ''float''"
| "py_type (V_str _) = ''str''"
| "py_type (V_list _ _) = ''list''"
| "py_type (V_map _ _) = ''dict''"
| "py_type (V_datetime _ _ _) = ''datetime''"
| "py_type (V_date _) = ''date''"
| "py_type (V_opaque n _) = n"

fun py_truthy :: "py_value \<Rightarrow> bool" where
  "py_truthy V_none \<longleftrightarrow> False"
| "py_truthy (V_bool b) \<longleftrightarrow> b"
| "py_truthy (V_int n) \<longleftrightarrow> n \<noteq> 0"
| "py_truthy (V_float r _) \<longleftrightarrow> r \<noteq> 0"
| "py_truthy (V_str s) \<longleftrightarrow> s \<noteq> ''''"
| "py_truthy (V_list _ xs) \<longleftrightarrow> xs \<noteq> []"
| "py_truthy (V_map _ kvs) \<longleftrightarrow> kvs \<noteq> []"
| "py_truthy _ \<longleftrightarrow> True"

text \<open>The numeric value behind a number, booleans being integers in Python.\<close>

fun py_number :: "py_value \<Rightarrow> number option" where
  "py_number (V_bool b) = Some (N_int (of_bool b))"
| "py_number (V_int n) = Some (N_int n)"
| "py_number (V_float r _) = Some (N_float r)"
| "py_number V_nan = Some N_nan"
| "py_number (V_inf pos) = Some (N_inf pos)"
| "py_number _ = None"

fun not_positive :: "number \<Rightarrow> bool" where
  "not_positive (N_int n) \<longleftrightarrow> n \<le> 0"
| "not_positive (N_float r) \<longleftrightarrow> r \<le> 0"
| "not_positive N_nan \<longleftrightarrow> False"
| "not_positive (N_inf pos) \<longleftrightarrow> \<not> pos"

fun is_negative :: "number \<Rightarrow> bool" where
  "is_negative (N_int n) \<longleftrightarrow> n < 0"
| "is_negative (N_float r) \<longleftrightarrow> r < 0"
| "is_negative N_nan \<longleftrightarrow> False"
| "is_negative (N_inf pos) \<longleftrightarrow> \<not> pos"

text \<open>The exact value of a finite number.\<close>

fun num_rat :: "number \<Rightarrow> rat" where
  "num_rat (N_int n) = of_int n"
| "num_rat (N_float r) = r"
| "num_rat _ = 0"

section \<open>Integers as doubles, fixed-point text, parsing\<close>

text \<open>\<open>float(n)\<close>: 53 significant bits, ties to even; beyond the range it raises.\<close>

definition double_of_int :: "int \<Rightarrow> int option" where
  "double_of_int n =
     (let e = bit_length \<bar>n\<bar> - 53;
          u = 2 ^ e;
          q = \<bar>n\<bar> div u;
          r = \<bar>n\<bar> mod u;
          q' = (if 2 * r > u \<or> 2 * r = u \<and> odd q then q + 1 else q)
      in if q' * u \<ge> 2 ^ 1024 then None else Some (sgn n * (q' * u)))"

definition round_half_even :: "rat \<Rightarrow> int" where
  "round_half_even r =
     (let n = \<lfloor>r\<rfloor>; f = r - of_int n in
      if f > 1 / 2 \<or> f = 1 / 2 \<and> odd n then n + 1 else n)"

text \<open>\<open>"%.<d>f" % r\<close> of a finite float, and of any float.\<close>

definition format_fixed :: "nat \<Rightarrow> rat \<Rightarrow> string" where
  "format_fixed d r =
     (let s = pad_left (d + 1) (dec_int (round_half_even (\<bar>r\<bar> * 10 ^ d)));
          k = length s - d
      in (if r < 0 then ''-'' else '''') @ take k s @ ''.'' @ drop k s)"

text \<open>\<open>f"{n:03d}"\<close> and its kind.\<close>

definition pad_int :: "nat \<Rightarrow> int \<Rightarrow> string" where
  "pad_int k n = (if n < 0 then ''-'' @ pad_left (k - 1) (dec_int (- n)) else pad_left k (dec_int n))"

definition is_dec :: "char \<Rightarrow> bool" where
  "is_dec c \<longleftrightarrow> (let n = (of_char c :: int) in 48 \<le> n \<and> n \<le> 57)"

lemma is_dec_not_space: "is_dec c \<Longrightarrow> \<not> is_space c"
  by (auto simp: is_dec_def is_space_def Let_def)

lemma digit_char: "0 \<le> n \<Longrightarrow> n < 10 \<Longrightarrow> is_dec (char_of (48 + n)) \<and> (of_char (char_of (48 + n)) :: int) = 48 + n" for n :: int
  by (simp add: is_dec_def)

fun dec_value :: "int \<Rightarrow> string \<Rightarrow> int" where
  "dec_value a [] = a"
| "dec_value a (c # cs) = dec_value (10 * a + (of_char c - 48)) cs"

text \<open>A run of digits, single underscores between digits allowed, and what follows it.\<close>

fun take_digits :: "string \<Rightarrow> string \<times> string" where
  "take_digits [] = ([], [])"
| "take_digits (c # cs) =
     (if is_dec c then
        let (ds, rest) =
          (case cs of
             u # d # cs' \<Rightarrow>
               if u = CHR ''_'' \<and> is_dec d then take_digits (d # cs') else take_digits cs
           | _ \<Rightarrow> take_digits cs)
        in (c # ds, rest)
      else ([], c # cs))"

definition take_sign :: "string \<Rightarrow> bool \<times> string" where
  "take_sign s = (case s of
     c # cs \<Rightarrow> if c = CHR ''-'' then (True, cs) else if c = CHR ''+'' then (False, cs) else (False, s)
   | [] \<Rightarrow> (False, s))"

text \<open>An exponent part: absent is zero, malformed is \<open>None\<close>.\<close>

definition parse_exponent :: "string \<Rightarrow> int option" where
  "parse_exponent s = (case s of
     [] \<Rightarrow> Some 0
   | c # cs \<Rightarrow>
       if c = CHR ''e'' \<or> c = CHR ''E'' then
         let (neg, cs') = take_sign cs; (ds, rest) = take_digits cs' in
         if ds = [] \<or> rest \<noteq> [] then None
         else Some (if neg then - dec_value 0 ds else dec_value 0 ds)
       else None)"

definition parse_decimal :: "string \<Rightarrow> rat option" where
  "parse_decimal s =
     (let (ip, r1) = take_digits s;
          (fp, r2) = (case r1 of
                        c # cs \<Rightarrow> if c = CHR ''.'' then take_digits cs else ([], r1)
                      | [] \<Rightarrow> ([], r1))
      in if ip = [] \<and> fp = [] then None
         else case parse_exponent r2 of
           None \<Rightarrow> None
         | Some e \<Rightarrow>
             (let x = e - int (length fp); m = rat_of_int (dec_value 0 (ip @ fp)) in
              Some (if x \<ge> 0 then m * 10 ^ nat x else m / 10 ^ nat (- x))))"

text \<open>\<open>float(s)\<close> of a string; \<open>None\<close> is \<open>ValueError\<close>.\<close>

definition parse_float :: "string \<Rightarrow> number option" where
  "parse_float s =
     (let (neg, body) = take_sign (py_strip s); low = py_lower body in
      if low = ''inf'' \<or> low = ''infinity'' then Some (N_inf (\<not> neg))
      else if low = ''nan'' then Some N_nan
      else case parse_decimal body of
        None \<Rightarrow> None
      | Some r \<Rightarrow>
          if r \<ge> 2 ^ 1024 - 2 ^ 970 then Some (N_inf (\<not> neg))
          else Some (N_float (if neg then - r else r)))"

text \<open>A comma-separated text without its empty parts.\<close>

fun split_commas :: "string \<Rightarrow> string \<Rightarrow> string list" where
  "split_commas acc [] = (if acc = [] then [] else [rev acc])"
| "split_commas acc (c # cs) =
     (if c = CHR '','' then (if acc = [] then [] else [rev acc]) @ split_commas [] cs
      else split_commas (c # acc) cs)"

lemma value_examples:
  "format_fixed 8 50 = ''50.00000000''"
  "format_fixed 2 (- 1 / 8) = ''-0.12''"
  "double_of_int (2 ^ 53 + 1) = Some (2 ^ 53)"
  "parse_float ''1__2'' = None"
  "split_commas [] '',a,,b'' = [''a'', ''b'']"
  "iso_micros 1709210096000001 = ''2024-02-29T12:34:56.000001+00:00''"
  by code_simp+

end
