(* ===== verification/Order_Classify.thy ===== *)
theory Order_Classify
  imports Py_Value
begin

text \<open>
  Model of the pure half of \<open>skills/order-placement-idempotency/scripts/order_ledger.py\<close>: the
  statuses of an order intent, the derivation of the idempotency key and the conservative
  classification of a broker's answer. SHA-256 is an argument. A message the program formats
  for a person is kept as the data it is formatted from.
\<close>

section \<open>Statuses and errors\<close>

datatype intent_status = PENDING | PLACED | REJECTED | UNKNOWN

definition terminal_statuses :: "intent_status list" where
  "terminal_statuses = [PLACED, REJECTED]"

fun allowed_transitions :: "intent_status \<Rightarrow> intent_status list" where
  "allowed_transitions PENDING = [PENDING, PLACED, REJECTED, UNKNOWN]"
| "allowed_transitions UNKNOWN = [UNKNOWN, PLACED, REJECTED]"
| "allowed_transitions PLACED = [PLACED]"
| "allowed_transitions REJECTED = [REJECTED]"

datatype router_error =
    Value_Error | Type_Error | Overflow_Error | Illegal_State_Transition intent_status intent_status
  | Process_Died

datatype reconcile_outcome = FOUND_PLACED | FOUND_REJECTED | ABSENT | INCONCLUSIVE

section \<open>Key derivation\<close>

definition MIN_KEY_LEN :: int where "MIN_KEY_LEN = 8"
definition MAX_KEY_LEN :: int where "MAX_KEY_LEN = 64"

definition float_of_int :: "int \<Rightarrow> router_error + rat" where
  "float_of_int n = (case double_of_int n of None \<Rightarrow> Inl Overflow_Error | Some m \<Rightarrow> Inr (of_int m))"

text \<open>\<open>"%.<d>f" % float(v)\<close> of a number.\<close>

fun format_number :: "nat \<Rightarrow> number \<Rightarrow> router_error + string" where
  "format_number d (N_int n) =
     (case float_of_int n of Inl e \<Rightarrow> Inl e | Inr r \<Rightarrow> Inr (format_fixed d r))"
| "format_number d (N_float r) = Inr (format_fixed d r)"
| "format_number d N_nan = Inr ''nan''"
| "format_number d (N_inf pos) = Inr (if pos then ''inf'' else ''-inf'')"

definition canonical_number :: "py_value \<Rightarrow> router_error + string" where
  "canonical_number v = (case v of
     V_bool _ \<Rightarrow> Inl Type_Error
   | V_none \<Rightarrow> Inr ''None''
   | _ \<Rightarrow> (case py_number v of Some x \<Rightarrow> format_number 8 x | None \<Rightarrow> Inr (py_str v)))"

definition canonical_timestamp :: "py_value \<Rightarrow> router_error + string" where
  "canonical_timestamp v = (case v of
     V_datetime _ t _ \<Rightarrow> Inr (iso_micros t)
   | V_date d \<Rightarrow> Inr (iso_date d)
   | V_bool _ \<Rightarrow> Inl Type_Error
   | _ \<Rightarrow> (case py_number v of Some x \<Rightarrow> format_number 6 x | None \<Rightarrow> Inr (py_str v)))"

definition make_idempotency_key ::
    "(string \<Rightarrow> string) \<Rightarrow> string \<Rightarrow> string \<Rightarrow> string \<Rightarrow> py_value \<Rightarrow> py_value \<Rightarrow> py_value \<Rightarrow> int \<Rightarrow> int \<Rightarrow>
     router_error + string" where
  "make_idempotency_key sha256 strategy_id symbol side signal_ts qty price sequence max_len =
     (if py_strip strategy_id = '''' then Inl Value_Error
      else if py_strip symbol = '''' then Inl Value_Error
      else if py_strip side = '''' then Inl Value_Error
      else if sequence < 0 then Inl Value_Error
      else if \<not> (MIN_KEY_LEN \<le> max_len \<and> max_len \<le> MAX_KEY_LEN) then Inl Value_Error
      else case canonical_timestamp signal_ts of
        Inl e \<Rightarrow> Inl e
      | Inr ts \<Rightarrow> (case canonical_number qty of
          Inl e \<Rightarrow> Inl e
        | Inr q \<Rightarrow> (case canonical_number price of
            Inl e \<Rightarrow> Inl e
          | Inr p \<Rightarrow>
              (let raw = join '':'' [py_strip strategy_id, py_upper (py_strip symbol),
                 py_upper (py_strip side), ts, q, p, dec_int sequence]
               in Inr (take (nat max_len) (sha256 raw))))))"

section \<open>Classification of a broker response\<close>

definition success_tokens :: "string list" where
  "success_tokens = [''success'', ''ok'', ''placed'', ''accepted'', ''complete'', ''completed'']"

definition reject_tokens :: "string list" where
  "reject_tokens = [''rejected'', ''reject'', ''cancelled'', ''canceled'']"

definition ambiguous_failure_tokens :: "string list" where
  "ambiguous_failure_tokens = [''error'', ''failed'', ''failure'']"

definition refusal_error_types :: "string list" where
  "refusal_error_types = [''inputexception'', ''orderexception'', ''marginexception'',
     ''permissionexception'', ''tokenexception'']"

definition order_id_fields :: "string list" where
  "order_id_fields = [''broker_order_id'', ''order_id'', ''orderId'', ''id'']"

definition reason_fields :: "string list" where
  "reason_fields = [''reason'', ''message'', ''error'', ''errorMessage'', ''emsg'']"

definition error_type_fields :: "string list" where
  "error_type_fields = [''error_type'', ''errorType'', ''exception'']"

definition http_status_fields :: "string list" where
  "http_status_fields = [''status_code'', ''statusCode'', ''http_status'', ''httpStatus'']"

fun is_list :: "py_value \<Rightarrow> bool" where
  "is_list (V_list _ _) \<longleftrightarrow> True"
| "is_list _ \<longleftrightarrow> False"

text \<open>The first of some fields that is neither \<open>None\<close> nor the empty string, as text.\<close>

fun first_id :: "string list \<Rightarrow> py_mapping \<Rightarrow> string list" where
  "first_id [] kvs = []"
| "first_id (f # fs) kvs = (case py_get kvs f of
     None \<Rightarrow> first_id fs kvs
   | Some v \<Rightarrow> if v = V_none \<or> v = V_str '''' then first_id fs kvs else [py_str v])"

text \<open>\<open>list(dict.fromkeys(ids))\<close>: first occurrences, in order.\<close>

definition from_keys :: "string list \<Rightarrow> string list" where
  "from_keys xs = rev (remdups (rev xs))"

lemma py_get_size: "py_get kvs k = Some v \<Longrightarrow> size v < size (V_map t kvs)"
  by (induction kvs) (auto simp: py_get_def split: if_splits)

lemma item_size: "x \<in> set xs \<Longrightarrow> size x < size (V_list t xs)"
  by (induction xs) auto

function (sequential) extract_order_ids :: "py_value \<Rightarrow> string list" where
  "extract_order_ids (V_map t kvs) =
     (let ids = first_id order_id_fields kvs in
      from_keys (case py_get kvs ''data'' of
        None \<Rightarrow> ids
      | Some nested \<Rightarrow>
          if nested \<noteq> V_none \<and> ids = [] \<or> is_list nested then ids @ extract_order_ids nested else ids))"
| "extract_order_ids (V_list t xs) = from_keys (concat (map extract_order_ids xs))"
| "extract_order_ids _ = []"
  by pat_completeness auto
termination by (relation "measure size") (simp_all del: py_value.size add: py_get_size item_size)

text \<open>The first of some fields that is a string with a non-blank character, stripped.\<close>

fun first_text :: "string list \<Rightarrow> py_mapping \<Rightarrow> string option" where
  "first_text [] kvs = None"
| "first_text (f # fs) kvs = (case py_get kvs f of
     Some (V_str s) \<Rightarrow> if py_strip s \<noteq> '''' then Some (py_strip s) else first_text fs kvs
   | _ \<Rightarrow> first_text fs kvs)"

definition extract_reason :: "py_mapping \<Rightarrow> string" where
  "extract_reason kvs = (case first_text reason_fields kvs of
     Some s \<Rightarrow> s | None \<Rightarrow> ''Broker rejected order (no reason supplied)'')"

definition extract_error_type :: "py_mapping \<Rightarrow> string" where
  "extract_error_type kvs = (case first_text error_type_fields kvs of
     Some s \<Rightarrow> py_lower s | None \<Rightarrow> '''')"

text \<open>
  \<open>str.isdigit\<close> also accepts the superscripts one, two and three, on which \<open>int\<close> raises.
\<close>

definition is_digit_char :: "char \<Rightarrow> bool" where
  "is_digit_char c \<longleftrightarrow> is_dec c \<or> (of_char c :: int) \<in> {178, 179, 185}"

fun http_status_loop :: "string list \<Rightarrow> py_mapping \<Rightarrow> router_error + int option" where
  "http_status_loop [] kvs = Inr None"
| "http_status_loop (f # fs) kvs = (case py_get kvs f of
     Some (V_int n) \<Rightarrow> Inr (Some n)
   | Some (V_str s) \<Rightarrow>
       (let d = py_strip s in
        if d \<noteq> '''' \<and> list_all is_digit_char d then
          (if list_all is_dec d then Inr (Some (dec_value 0 d)) else Inl Value_Error)
        else http_status_loop fs kvs)
   | _ \<Rightarrow> http_status_loop fs kvs)"

definition extract_http_status :: "py_mapping \<Rightarrow> router_error + int option" where
  "extract_http_status kvs = http_status_loop http_status_fields kvs"

text \<open>The data behind each message the module formats, the router's included.\<close>

datatype detail =
    Reason string
  | Bad_type string
  | Http_fault int string
  | Unattributed py_value string string
  | Success_without_id
  | Acknowledged
  | Indeterminate py_value
  | Raised string string
  | Unknown_key
  | Book_query_failed string string
  | Not_echoed_no_match
  | Key_not_in_book
  | Terminal_conflict intent_status
  | Ambiguous_book_status string string
  | No_broker_id
  | Matched_in_book
  | Row_missing
  | No_order_book
  | Reclaimed_elsewhere

definition raw_status :: "py_mapping \<Rightarrow> py_value" where
  "raw_status kvs = (case py_get kvs ''status'' of
     Some v \<Rightarrow> v
   | None \<Rightarrow> (case py_get kvs ''stat'' of Some v \<Rightarrow> v | None \<Rightarrow> V_str ''''))"

definition status_token :: "py_value \<Rightarrow> string" where
  "status_token v = py_lower (py_strip (py_str v))"

type_synonym classification = "intent_status \<times> string option \<times> detail"

fun classify_broker_response :: "py_value \<Rightarrow> router_error + classification" where
  "classify_broker_response (V_map t kvs) =
     (let raw = raw_status kvs;
          token = status_token raw;
          order_ids = extract_order_ids (V_map t kvs);
          error_type = extract_error_type kvs;
          reason = extract_reason kvs
      in case extract_http_status kvs of
        Inl e \<Rightarrow> Inl e
      | Inr http_status \<Rightarrow> Inr
          (if token \<in> set reject_tokens then (REJECTED, None, Reason reason)
           else if case http_status of None \<Rightarrow> False | Some n \<Rightarrow> n \<ge> 500
             then (UNKNOWN, None, Http_fault (the http_status) reason)
           else if error_type \<in> set refusal_error_types then (REJECTED, None, Reason reason)
           else if error_type \<noteq> '''' \<or> token \<in> set ambiguous_failure_tokens
             then (UNKNOWN, None, Unattributed raw error_type reason)
           else if token \<in> set success_tokens \<and> order_ids = [] then (UNKNOWN, None, Success_without_id)
           else if order_ids \<noteq> [] then (PLACED, Some (join '','' order_ids), Acknowledged)
           else (UNKNOWN, None, Indeterminate raw)))"
| "classify_broker_response v = Inr (UNKNOWN, None, Bad_type (py_type v))"

end
