(* ===== verification/Order_Ledger.thy ===== *)
theory Order_Ledger
  imports Order_Classify
begin

text \<open>
  Model of the class \<open>OrderLedger\<close> of \<open>skills/order-placement-idempotency/scripts/
  order_ledger.py\<close>. The table \<open>orders\<close> is a dictionary over its primary key, the table
  \<open>released_intents\<close> the list of its rows by id. Every method is one transaction; the time it
  reads is an argument. A method that raises leaves the tables as they were.
\<close>

record order_row =
  or_strategy :: string
  or_symbol :: string
  or_side :: string
  or_quantity :: "number option"
  or_price :: "number option"
  or_status :: intent_status
  or_broker_id :: "string option"
  or_reason :: "detail option"
  or_created :: rat
  or_updated :: rat

record released_intent =
  ri_key :: string
  ri_strategy :: string
  ri_symbol :: string
  ri_side :: string
  ri_quantity :: "number option"
  ri_price :: "number option"
  ri_status :: intent_status
  ri_reason :: "detail option"
  ri_release_reason :: string
  ri_created :: rat
  ri_released :: rat

record ledger =
  orders :: "(string, order_row) py_dict"
  released :: "released_intent list"

definition new_ledger :: ledger where
  "new_ledger = \<lparr>orders = [], released = []\<rparr>"

text \<open>
  Binding a number to a \<open>REAL\<close> column: integers become doubles and must fit 64 bits, a NaN is
  stored as \<open>NULL\<close>.
\<close>

fun bind_real :: "number option \<Rightarrow> router_error + number option" where
  "bind_real (Some (N_int n)) =
     (if - (2 ^ 63) \<le> n \<and> n < 2 ^ 63
      then (case float_of_int n of Inl e \<Rightarrow> Inl e | Inr r \<Rightarrow> Inr (Some (N_float r)))
      else Inl Overflow_Error)"
| "bind_real (Some N_nan) = Inr None"
| "bind_real x = Inr x"

definition record_intent ::
    "rat \<Rightarrow> string \<Rightarrow> string \<Rightarrow> string \<Rightarrow> string \<Rightarrow> number option \<Rightarrow> number option \<Rightarrow> ledger \<Rightarrow>
     router_error + bool \<times> ledger" where
  "record_intent now key strategy_id symbol side quantity price L =
     (if py_strip strategy_id = '''' then Inl Value_Error
      else if py_strip symbol = '''' then Inl Value_Error
      else case bind_real quantity of Inl e \<Rightarrow> Inl e | Inr q \<Rightarrow>
      (case bind_real price of Inl e \<Rightarrow> Inl e | Inr p \<Rightarrow>
        (case py_get (orders L) key of
           Some _ \<Rightarrow> Inr (False, L)
         | None \<Rightarrow>
             Inr (True, L\<lparr>orders := py_set (orders L) key
               \<lparr>or_strategy = strategy_id, or_symbol = symbol, or_side = side,
                or_quantity = q, or_price = p, or_status = PENDING,
                or_broker_id = None, or_reason = None, or_created = now, or_updated = now\<rparr>\<rparr>))))"

text \<open>\<open>COALESCE(new, old)\<close>.\<close>

fun coalesce :: "'a option \<Rightarrow> 'a option \<Rightarrow> 'a option" where
  "coalesce None old = old"
| "coalesce (Some v) old = Some v"

definition update_status ::
    "rat \<Rightarrow> string \<Rightarrow> intent_status \<Rightarrow> string option \<Rightarrow> detail option \<Rightarrow> ledger \<Rightarrow>
     router_error + bool \<times> ledger" where
  "update_status now key new_status broker_order_id rejection_reason L =
     (case py_get (orders L) key of
        None \<Rightarrow> Inr (False, L)
      | Some row \<Rightarrow>
          (let current = or_status row in
           if new_status \<notin> set (allowed_transitions current)
             then Inl (Illegal_State_Transition current new_status)
           else if current \<in> set terminal_statuses then Inr (True, L)
           else Inr (True, L\<lparr>orders := py_set (orders L) key
             (row\<lparr>or_status := new_status,
                  or_broker_id := coalesce broker_order_id (or_broker_id row),
                  or_reason := coalesce rejection_reason (or_reason row),
                  or_updated := now\<rparr>)\<rparr>)))"

text \<open>A status given as text is parsed first.\<close>

definition parse_status :: "string \<Rightarrow> intent_status option" where
  "parse_status s =
     map_of [(''PENDING'', PENDING), (''PLACED'', PLACED), (''REJECTED'', REJECTED), (''UNKNOWN'', UNKNOWN)] s"

definition update_status_text ::
    "rat \<Rightarrow> string \<Rightarrow> string \<Rightarrow> string option \<Rightarrow> detail option \<Rightarrow> ledger \<Rightarrow>
     router_error + bool \<times> ledger" where
  "update_status_text now key status bid reason L =
     (case parse_status status of None \<Rightarrow> Inl Value_Error | Some s \<Rightarrow> update_status now key s bid reason L)"

definition get_order :: "string \<Rightarrow> ledger \<Rightarrow> order_row option" where
  "get_order key L = py_get (orders L) key"

text \<open>Keys still open, oldest first; rows of equal age in the order of their insertion.\<close>

definition unresolved :: "ledger \<Rightarrow> string list" where
  "unresolved L = map fst (sort_key (\<lambda>(k, r). or_created r)
     (filter (\<lambda>(k, r). or_status r \<in> {PENDING, UNKNOWN}) (orders L)))"

definition linked_broker_order_ids :: "ledger \<Rightarrow> string list" where
  "linked_broker_order_ids L = concat (map (\<lambda>(k, r).
     case or_broker_id r of None \<Rightarrow> [] | Some ids \<Rightarrow> split_commas [] ids) (orders L))"

definition release_intent ::
    "rat \<Rightarrow> string \<Rightarrow> string \<Rightarrow> ledger \<Rightarrow> router_error + bool \<times> ledger" where
  "release_intent now key reason L =
     (case py_get (orders L) key of
        None \<Rightarrow> Inr (False, L)
      | Some row \<Rightarrow>
          (let current = or_status row in
           if current \<in> set terminal_statuses
             then Inl (Illegal_State_Transition current PENDING)
           else Inr (True,
             \<lparr>orders = py_del (orders L) key,
              released = released L @
                [\<lparr>ri_key = key, ri_strategy = or_strategy row, ri_symbol = or_symbol row,
                  ri_side = or_side row, ri_quantity = or_quantity row, ri_price = or_price row,
                  ri_status = or_status row, ri_reason = or_reason row, ri_release_reason = reason,
                  ri_created = or_created row, ri_released = now\<rparr>]\<rparr>)))"

definition released_history :: "string option \<Rightarrow> ledger \<Rightarrow> released_intent list" where
  "released_history k L = (case k of
     None \<Rightarrow> released L | Some key \<Rightarrow> filter (\<lambda>r. ri_key r = key) (released L))"

section \<open>What each operation does\<close>

abbreviation row_of :: "ledger \<Rightarrow> string \<Rightarrow> order_row option" where
  "row_of L k \<equiv> py_get (orders L) k"

definition settled :: "order_row \<Rightarrow> bool" where
  "settled r \<longleftrightarrow> or_status r \<in> set terminal_statuses"

lemma settled_iff: "settled r \<longleftrightarrow> or_status r = PLACED \<or> or_status r = REJECTED"
  by (auto simp: settled_def terminal_statuses_def)

lemma allowed_from_open: "s \<in> set (allowed_transitions c) \<Longrightarrow> c \<in> set terminal_statuses \<Longrightarrow> s = c"
  by (cases c) (auto simp: terminal_statuses_def)

text \<open>What a row says of its order, which no later write changes.\<close>

definition same_order :: "order_row \<Rightarrow> order_row \<Rightarrow> bool" where
  "same_order r r' \<longleftrightarrow> or_strategy r' = or_strategy r \<and> or_symbol r' = or_symbol r \<and>
     or_side r' = or_side r \<and> or_quantity r' = or_quantity r \<and> or_price r' = or_price r \<and>
     or_created r' = or_created r"

lemma record_intent_Inr:
  assumes "record_intent now key strat smb side q p L = Inr (b, L')"
  shows "b \<and> row_of L key = None \<and> released L' = released L \<and>
      (\<exists>r q' p'. orders L' = py_set (orders L) key r \<and> or_status r = PENDING \<and> or_strategy r = strat \<and>
        or_symbol r = smb \<and> or_side r = side \<and> bind_real q = Inr q' \<and> bind_real p = Inr p' \<and>
        or_quantity r = q' \<and> or_price r = p' \<and> or_broker_id r = None) \<or>
    \<not> b \<and> row_of L key \<noteq> None \<and> L' = L"
  using assms by (auto simp: record_intent_def split: if_splits sum.splits option.splits)

lemma update_status_Inr:
  assumes "update_status now key s bid rsn L = Inr (b, L')"
  shows "\<not> b \<and> row_of L key = None \<and> L' = L \<or>
    (\<exists>r. b \<and> row_of L key = Some r \<and> settled r \<and> or_status r = s \<and> L' = L) \<or>
    (\<exists>r r'. b \<and> row_of L key = Some r \<and> \<not> settled r \<and> s \<in> set (allowed_transitions (or_status r)) \<and>
       same_order r r' \<and> or_status r' = s \<and> or_broker_id r' = coalesce bid (or_broker_id r) \<and>
       or_reason r' = coalesce rsn (or_reason r) \<and> L' = L\<lparr>orders := py_set (orders L) key r'\<rparr>)"
proof (cases "row_of L key")
  case None
  then show ?thesis using assms by (simp add: update_status_def)
next
  case (Some r)
  let ?r' = "r\<lparr>or_status := s, or_broker_id := coalesce bid (or_broker_id r),
      or_reason := coalesce rsn (or_reason r), or_updated := now\<rparr>"
  have ok: "s \<in> set (allowed_transitions (or_status r))"
    using assms Some by (auto simp: update_status_def Let_def split: if_splits)
  show ?thesis
  proof (cases "settled r")
    case True
    with allowed_from_open[OF ok] assms Some ok show ?thesis
      by (auto simp: update_status_def Let_def settled_def)
  next
    case False
    then have "b \<and> L' = L\<lparr>orders := py_set (orders L) key ?r'\<rparr>"
      using assms Some ok by (simp add: update_status_def Let_def settled_def)
    moreover have "same_order r ?r'" by (simp add: same_order_def)
    ultimately show ?thesis using Some False ok
      by (intro disjI2) (rule exI[of _ r], rule exI[of _ ?r'], simp)
  qed
qed

lemma release_intent_Inr:
  assumes "release_intent now key reason L = Inr (b, L')"
  shows "\<not> b \<and> row_of L key = None \<and> L' = L \<or>
    (\<exists>r a. b \<and> row_of L key = Some r \<and> \<not> settled r \<and> ri_key a = key \<and>
       ri_status a = or_status r \<and> L' = \<lparr>orders = py_del (orders L) key, released = released L @ [a]\<rparr>)"
  using assms
  by (auto simp: release_intent_def Let_def settled_def split: option.splits if_splits)

end
