(* ===== verification/Order_Router.thy ===== *)
theory Order_Router
  imports Order_Ledger
begin

text \<open>
  Model of the class \<open>IdempotentOrderRouter\<close> of \<open>skills/order-placement-idempotency/scripts/
  order_ledger.py\<close>. The broker is not part of the program: its placement call and its order
  book query are the two functions a caller passes in (\<open>endpoints\<close>), which act on a broker
  state of any type and may raise. The world holds the ledger, the broker, the count of clock
  readings made, and two traces that only grow: the calls to the broker, each with the ledger
  row as it stood at that moment, and the alerts. A process may die inside a placement; a
  \<open>stage\<close> says where, and the exception \<open>Process_Died\<close> ends the call there. The lock makes
  each public call one step.
\<close>

section \<open>Values that travel through a call\<close>

datatype reply = Responded py_value | Raised_exception string string

record send_record =
  sr_key :: string
  sr_symbol :: string
  sr_side :: string
  sr_quantity :: "number option"
  sr_price :: "number option"
  sr_strategy :: string
  sr_row :: "order_row option"

datatype alert =
    A_unresolved string detail
  | A_conflict string intent_status intent_status
  | A_startup "string list"

record 'b endpoints =
  send_fn :: "string \<Rightarrow> string \<Rightarrow> string \<Rightarrow> number option \<Rightarrow> number option \<Rightarrow> string \<Rightarrow> 'b \<Rightarrow> reply \<times> 'b"
  book_fn :: "('b \<Rightarrow> ((string \<times> string) + py_mapping list) \<times> 'b) option"

record 'b world =
  wl :: ledger
  wb :: 'b
  ticks :: nat
  sends :: "send_record list"
  alerts :: "alert list"

record router =
  broker_echoes_key :: bool
  fuzzy_window_s :: "rat option"
  response_classifier :: "py_value \<Rightarrow> router_error + classification"
  rt_sha256 :: "string \<Rightarrow> string"
  rt_clock :: "nat \<Rightarrow> rat"

datatype stage = Runs | Dies_before_send | Dies_after_send

datatype order_status =
    S_PLACED | S_ALREADY_PLACED | S_RECONCILED_PLACED | S_REJECTED detail
  | S_ALREADY_REJECTED "detail option" | S_RECONCILED_REJECTED detail
  | S_ABSENT_SAFE_TO_RESEND detail | S_UNRESOLVED detail

type_synonym order_result = "bool \<times> order_status \<times> string option"

record reconcile_result =
  rr_outcome :: reconcile_outcome
  rr_broker_id :: "string option"
  rr_detail :: detail

definition resolved :: "reconcile_result \<Rightarrow> bool" where
  "resolved r \<longleftrightarrow> rr_outcome r \<in> {FOUND_PLACED, FOUND_REJECTED, ABSENT}"

type_synonym ('b, 'a) call = "'b world \<Rightarrow> (router_error + 'a) \<times> 'b world"

text \<open>Sequencing: an exception ends the call, the world as it stands by then.\<close>

definition then_do :: "(router_error + 'a) \<times> 'w \<Rightarrow> ('a \<Rightarrow> 'w \<Rightarrow> (router_error + 'c) \<times> 'w) \<Rightarrow>
    (router_error + 'c) \<times> 'w" where
  "then_do m f = (case m of (Inl e, w) \<Rightarrow> (Inl e, w) | (Inr a, w) \<Rightarrow> f a w)"

definition read_clock :: "router \<Rightarrow> 'b world \<Rightarrow> rat" where
  "read_clock R w = rt_clock R (ticks w)"

definition tick :: "'b world \<Rightarrow> 'b world" where
  "tick w = w\<lparr>ticks := Suc (ticks w)\<rparr>"

definition alert_fn :: "alert \<Rightarrow> 'b world \<Rightarrow> 'b world" where
  "alert_fn a w = w\<lparr>alerts := alerts w @ [a]\<rparr>"

text \<open>A ledger method called at the current time.\<close>

definition on_ledger :: "router \<Rightarrow> (rat \<Rightarrow> ledger \<Rightarrow> router_error + 'a \<times> ledger) \<Rightarrow> ('b, 'a) call" where
  "on_ledger R method w = (case method (read_clock R w) (wl w) of
     Inl e \<Rightarrow> (Inl e, tick w) | Inr (a, L) \<Rightarrow> (Inr a, tick w\<lparr>wl := L\<rparr>))"

section \<open>Matching an intent in the order book\<close>

definition book_timestamp_fields :: "string list" where
  "book_timestamp_fields = [''order_timestamp'', ''timestamp'', ''created_at'', ''transaction_time'', ''submitted_at'']"

definition book_client_key_fields :: "string list" where
  "book_client_key_fields = [''client_order_id'', ''clientOrderId'', ''tag'', ''tags'', ''orderTag'', ''user_remark'']"

definition book_terminal_reject :: "string list" where
  "book_terminal_reject = [''rejected'', ''reject'']"

definition book_ambiguous_status :: "string list" where
  "book_ambiguous_status = [''error'', ''failed'', ''failure'']"

definition client_keys_of :: "py_value option \<Rightarrow> string list" where
  "client_keys_of v = (case v of
     Some (V_str s) \<Rightarrow> if s \<noteq> '''' then [s] else []
   | Some (V_list _ xs) \<Rightarrow> map py_str (filter py_truthy xs)
   | _ \<Rightarrow> [])"

definition client_keys :: "py_mapping \<Rightarrow> string list" where
  "client_keys entry = concat (map (\<lambda>f. client_keys_of (py_get entry f)) book_client_key_fields)"

definition match_by_key :: "string \<Rightarrow> py_mapping list \<Rightarrow> py_mapping option" where
  "match_by_key key book = find (\<lambda>entry. key \<in> set (client_keys entry)) book"

text \<open>\<open>_as_float\<close>: what \<open>float\<close> refuses is a NaN, an integer out of range raises.\<close>

definition as_float :: "py_value option \<Rightarrow> router_error + number" where
  "as_float v = (case v of
     None \<Rightarrow> Inr (N_float 0)
   | Some x \<Rightarrow>
       (if \<not> py_truthy x then Inr (N_float 0)
        else case x of
          V_str s \<Rightarrow> Inr (case parse_float s of Some n \<Rightarrow> n | None \<Rightarrow> N_nan)
        | _ \<Rightarrow> (case py_number x of
            Some (N_int n) \<Rightarrow> (case float_of_int n of Inl e \<Rightarrow> Inl e | Inr r \<Rightarrow> Inr (N_float r))
          | Some y \<Rightarrow> Inr y
          | None \<Rightarrow> Inr N_nan)))"

text \<open>\<open>abs(a - b) <= 1e-6\<close>, which no NaN and no infinity satisfies.\<close>

fun within_tolerance :: "number \<Rightarrow> number \<Rightarrow> bool" where
  "within_tolerance (N_float a) (N_float b) \<longleftrightarrow> \<bar>a - b\<bar> \<le> 1 / 1000000"
| "within_tolerance _ _ \<longleftrightarrow> False"

fun timestamp_loop :: "string list \<Rightarrow> py_mapping \<Rightarrow> router_error + number option" where
  "timestamp_loop [] entry = Inr None"
| "timestamp_loop (f # fs) entry = (case py_get entry f of
     Some (V_int n) \<Rightarrow> (case float_of_int n of Inl e \<Rightarrow> Inl e | Inr r \<Rightarrow> Inr (Some (N_float r)))
   | Some (V_float r _) \<Rightarrow> Inr (Some (N_float r))
   | Some V_nan \<Rightarrow> Inr (Some N_nan)
   | Some (V_inf pos) \<Rightarrow> Inr (Some (N_inf pos))
   | Some (V_datetime _ t _) \<Rightarrow> Inr (Some (N_float (of_int t / 1000000)))
   | _ \<Rightarrow> timestamp_loop fs entry)"

definition entry_timestamp :: "py_mapping \<Rightarrow> router_error + number option" where
  "entry_timestamp entry = timestamp_loop book_timestamp_fields entry"

text \<open>\<open>abs(entry_ts - created_at) > window\<close>, false of a NaN.\<close>

fun outside_window :: "number \<Rightarrow> rat \<Rightarrow> rat \<Rightarrow> bool" where
  "outside_window (N_float t) created window \<longleftrightarrow> \<bar>t - created\<bar> > window"
| "outside_window (N_int t) created window \<longleftrightarrow> \<bar>of_int t - created\<bar> > window"
| "outside_window N_nan created window \<longleftrightarrow> False"
| "outside_window (N_inf _) created window \<longleftrightarrow> True"

definition entry_text :: "py_mapping \<Rightarrow> string \<Rightarrow> string" where
  "entry_text entry f = py_upper (py_strip (case py_get entry f of None \<Rightarrow> '''' | Some v \<Rightarrow> py_str v))"

text \<open>\<open>not abs(_as_float(entry[f]) - float(stored)) <= 1e-6\<close>; \<open>float(None)\<close> raises.\<close>

definition number_agrees :: "py_value option \<Rightarrow> number option \<Rightarrow> router_error + bool" where
  "number_agrees v stored = (case as_float v of
     Inl e \<Rightarrow> Inl e
   | Inr x \<Rightarrow> (case stored of None \<Rightarrow> Inl Type_Error | Some y \<Rightarrow> Inr (within_tolerance x y)))"

definition in_fuzzy_window :: "rat option \<Rightarrow> rat \<Rightarrow> py_mapping \<Rightarrow> router_error + bool" where
  "in_fuzzy_window window created entry = (case window of
     None \<Rightarrow> Inr True
   | Some wnd \<Rightarrow> (case entry_timestamp entry of
       Inl e \<Rightarrow> Inl e
     | Inr None \<Rightarrow> Inr False
     | Inr (Some ts) \<Rightarrow> Inr (\<not> outside_window ts created wnd)))"

text \<open>The body of the loop of \<open>_match_by_attributes\<close>: whether the entry is a candidate.\<close>

definition is_candidate ::
    "rat option \<Rightarrow> string list \<Rightarrow> order_row \<Rightarrow> py_mapping \<Rightarrow> router_error + bool" where
  "is_candidate window claimed intent entry =
     (if entry_text entry ''symbol'' \<noteq> py_upper (py_strip (or_symbol intent)) then Inr False
      else if entry_text entry ''side'' \<noteq> py_upper (py_strip (or_side intent)) then Inr False
      else case number_agrees (py_get entry ''quantity'') (or_quantity intent) of
        Inl e \<Rightarrow> Inl e
      | Inr False \<Rightarrow> Inr False
      | Inr True \<Rightarrow> (case number_agrees (py_get entry ''price'') (or_price intent) of
          Inl e \<Rightarrow> Inl e
        | Inr False \<Rightarrow> Inr False
        | Inr True \<Rightarrow>
            (if list_ex (\<lambda>i. i \<in> set claimed) (extract_order_ids (V_map '''' entry)) then Inr False
             else in_fuzzy_window window (or_created intent) entry)))"

fun candidates_loop :: "(py_mapping \<Rightarrow> router_error + bool) \<Rightarrow> py_mapping list \<Rightarrow> router_error + py_mapping list" where
  "candidates_loop p [] = Inr []"
| "candidates_loop p (e # es) = (case p e of
     Inl x \<Rightarrow> Inl x
   | Inr b \<Rightarrow> (case candidates_loop p es of
       Inl x \<Rightarrow> Inl x
     | Inr cs \<Rightarrow> Inr (if b then e # cs else cs)))"

definition match_by_attributes ::
    "router \<Rightarrow> ledger \<Rightarrow> order_row \<Rightarrow> py_mapping list \<Rightarrow> router_error + py_mapping option" where
  "match_by_attributes R L intent book =
     (case candidates_loop (is_candidate (fuzzy_window_s R) (linked_broker_order_ids L) intent) book of
        Inl e \<Rightarrow> Inl e
      | Inr [c] \<Rightarrow> Inr (Some c)
      | Inr _ \<Rightarrow> Inr None)"

section \<open>Reconciliation\<close>

text \<open>\<open>_safe_update\<close> and \<open>_release_absent\<close>: a refused transition is an alert.\<close>

definition alert_conflict :: "string \<Rightarrow> (router_error + bool) \<times> 'b world \<Rightarrow> (router_error + bool) \<times> 'b world" where
  "alert_conflict key m = (case m of
     (Inl (Illegal_State_Transition a b), w) \<Rightarrow> (Inr False, alert_fn (A_conflict key a b) w)
   | _ \<Rightarrow> m)"

definition safe_update ::
    "router \<Rightarrow> string \<Rightarrow> intent_status \<Rightarrow> string option \<Rightarrow> detail option \<Rightarrow> ('b, bool) call" where
  "safe_update R key s bid rsn w =
     alert_conflict key (on_ledger R (\<lambda>now. update_status now key s bid rsn) w)"

definition release_absent :: "router \<Rightarrow> string \<Rightarrow> ('b, bool) call" where
  "release_absent R key w =
     alert_conflict key (on_ledger R (\<lambda>now. release_intent now key
       ''reconciliation proved absent: client key not present in broker order book'') w)"

definition recon :: "reconcile_outcome \<Rightarrow> string option \<Rightarrow> detail \<Rightarrow> reconcile_result" where
  "recon oc bid d = \<lparr>rr_outcome = oc, rr_broker_id = bid, rr_detail = d\<rparr>"

definition book_status :: "py_mapping \<Rightarrow> string" where
  "book_status entry = (case py_get entry ''status'' of None \<Rightarrow> '''' | Some v \<Rightarrow> status_token v)"

definition book_broker_id :: "py_mapping \<Rightarrow> string option" where
  "book_broker_id entry = (case extract_order_ids (V_map '''' entry) of
     [] \<Rightarrow> None | ids \<Rightarrow> Some (join '','' ids))"

definition apply_match :: "router \<Rightarrow> string \<Rightarrow> py_mapping \<Rightarrow> ('b, reconcile_result) call" where
  "apply_match R key entry w =
     (let st = book_status entry; broker_id = book_broker_id entry; reason = extract_reason entry in
      if st \<in> set book_terminal_reject then
        then_do (safe_update R key REJECTED None (Some (Reason reason)) w) (\<lambda>ok w.
          (Inr (if \<not> ok then recon INCONCLUSIVE broker_id (Terminal_conflict REJECTED)
                else recon FOUND_REJECTED broker_id (Reason reason)), w))
      else if st \<in> set book_ambiguous_status then
        (Inr (recon INCONCLUSIVE broker_id (Ambiguous_book_status st reason)), w)
      else if broker_id = None then (Inr (recon INCONCLUSIVE None No_broker_id), w)
      else
        then_do (safe_update R key PLACED broker_id None w) (\<lambda>ok w.
          (Inr (if \<not> ok then recon INCONCLUSIVE broker_id (Terminal_conflict PLACED)
                else recon FOUND_PLACED broker_id Matched_in_book), w)))"

definition reconcile_order :: "router \<Rightarrow> string \<Rightarrow> ('b \<Rightarrow> ((string \<times> string) + py_mapping list) \<times> 'b) \<Rightarrow>
    ('b, reconcile_result) call" where
  "reconcile_order R key query w =
     (case get_order key (wl w) of
        None \<Rightarrow> (Inr (recon INCONCLUSIVE None Unknown_key), w)
      | Some intent \<Rightarrow>
          (let (answer, b) = query (wb w); w1 = w\<lparr>wb := b\<rparr> in
           case answer of
             Inl (t, m) \<Rightarrow> (Inr (recon INCONCLUSIVE None (Book_query_failed t m)), w1)
           | Inr book \<Rightarrow>
               (case match_by_key key book of
                  Some entry \<Rightarrow> apply_match R key entry w1
                | None \<Rightarrow>
                    (if \<not> broker_echoes_key R then
                       (case match_by_attributes R (wl w1) intent book of
                          Inl e \<Rightarrow> (Inl e, w1)
                        | Inr None \<Rightarrow> (Inr (recon INCONCLUSIVE None Not_echoed_no_match), w1)
                        | Inr (Some entry) \<Rightarrow> apply_match R key entry w1)
                     else
                       then_do (release_absent R key w1) (\<lambda>_ w.
                         (Inr (recon ABSENT None Key_not_in_book), w))))))"

section \<open>Placing an order\<close>

definition broker_call ::
    "'b endpoints \<Rightarrow> string \<Rightarrow> string \<Rightarrow> string \<Rightarrow> number option \<Rightarrow> number option \<Rightarrow> string \<Rightarrow>
     'b world \<Rightarrow> reply \<times> 'b world" where
  "broker_call ep key symbol side quantity price strategy_id w =
     (let (answer, b) = send_fn ep key symbol side quantity price strategy_id (wb w)
      in (answer, w\<lparr>wb := b, sends := sends w @
           [\<lparr>sr_key = key, sr_symbol = symbol, sr_side = side, sr_quantity = quantity,
             sr_price = price, sr_strategy = strategy_id, sr_row = get_order key (wl w)\<rparr>]\<rparr>))"

definition resolve_unknown :: "router \<Rightarrow> 'b endpoints \<Rightarrow> string \<Rightarrow> detail \<Rightarrow> ('b, order_result) call" where
  "resolve_unknown R ep key detail w =
     (case book_fn ep of
        None \<Rightarrow> (Inr (False, S_UNRESOLVED detail, None), alert_fn (A_unresolved key detail) w)
      | Some query \<Rightarrow>
          then_do (reconcile_order R key query w) (\<lambda>r w.
            case rr_outcome r of
              FOUND_PLACED \<Rightarrow> (Inr (True, S_RECONCILED_PLACED, rr_broker_id r), w)
            | FOUND_REJECTED \<Rightarrow> (Inr (False, S_RECONCILED_REJECTED (rr_detail r), None), w)
            | ABSENT \<Rightarrow> (Inr (False, S_ABSENT_SAFE_TO_RESEND (rr_detail r), None), w)
            | INCONCLUSIVE \<Rightarrow> (Inr (False, S_UNRESOLVED (rr_detail r), None),
                alert_fn (A_unresolved key (rr_detail r)) w)))"

definition mark :: "router \<Rightarrow> string \<Rightarrow> intent_status \<Rightarrow> string option \<Rightarrow> detail option \<Rightarrow> ('b, bool) call" where
  "mark R key s bid rsn = on_ledger R (\<lambda>now. update_status now key s bid rsn)"

definition dispatch ::
    "stage \<Rightarrow> router \<Rightarrow> 'b endpoints \<Rightarrow> string \<Rightarrow> string \<Rightarrow> string \<Rightarrow> string \<Rightarrow> number option \<Rightarrow>
     number option \<Rightarrow> ('b, order_result) call" where
  "dispatch stg R ep key strategy_id symbol side quantity price w =
     (if stg = Dies_before_send then (Inl Process_Died, w)
      else
        (let (answer, w1) = broker_call ep key symbol side quantity price strategy_id w in
         if stg = Dies_after_send then (Inl Process_Died, w1)
         else case answer of
           Raised_exception t m \<Rightarrow>
             then_do (mark R key UNKNOWN None (Some (Raised t m)) w1)
               (\<lambda>_. resolve_unknown R ep key (Raised t m))
         | Responded v \<Rightarrow>
             (case response_classifier R v of
                Inl e \<Rightarrow> (Inl e, w1)
              | Inr (s, broker_order_id, detail) \<Rightarrow>
                  (case s of
                     PLACED \<Rightarrow> then_do (mark R key PLACED broker_order_id None w1)
                       (\<lambda>_ w. (Inr (True, S_PLACED, broker_order_id), w))
                   | REJECTED \<Rightarrow> then_do (mark R key REJECTED None (Some detail) w1)
                       (\<lambda>_ w. (Inr (False, S_REJECTED detail, None), w))
                   | _ \<Rightarrow> then_do (mark R key UNKNOWN None (Some detail) w1)
                       (\<lambda>_. resolve_unknown R ep key detail)))))"

definition claim_intent ::
    "router \<Rightarrow> string \<Rightarrow> string \<Rightarrow> string \<Rightarrow> string \<Rightarrow> number option \<Rightarrow> number option \<Rightarrow> ('b, bool) call" where
  "claim_intent R key strategy_id symbol side quantity price =
     on_ledger R (\<lambda>now. record_intent now key strategy_id symbol side quantity price)"

definition handle_existing_intent ::
    "stage \<Rightarrow> router \<Rightarrow> 'b endpoints \<Rightarrow> string \<Rightarrow> ('b, order_result) call" where
  "handle_existing_intent stg R ep key w =
     (case get_order key (wl w) of
        None \<Rightarrow> (Inr (False, S_UNRESOLVED Row_missing, None), w)
      | Some existing \<Rightarrow>
          (if or_status existing = PLACED then
             (Inr (True, S_ALREADY_PLACED, or_broker_id existing), w)
           else if or_status existing = REJECTED then
             (Inr (False, S_ALREADY_REJECTED (or_reason existing), None), w)
           else case book_fn ep of
             None \<Rightarrow> (Inr (False, S_UNRESOLVED No_order_book, None), alert_fn (A_unresolved key No_order_book) w)
           | Some query \<Rightarrow>
               then_do (reconcile_order R key query w) (\<lambda>r w.
                 case rr_outcome r of
                   FOUND_PLACED \<Rightarrow> (Inr (True, S_RECONCILED_PLACED, rr_broker_id r), w)
                 | FOUND_REJECTED \<Rightarrow> (Inr (False, S_RECONCILED_REJECTED (rr_detail r), None), w)
                 | ABSENT \<Rightarrow>
                     then_do (claim_intent R key (or_strategy existing) (or_symbol existing)
                         (or_side existing) (or_quantity existing) (or_price existing) w) (\<lambda>reclaimed w.
                       if \<not> reclaimed then
                         (Inr (False, S_UNRESOLVED Reclaimed_elsewhere, None),
                          alert_fn (A_unresolved key Reclaimed_elsewhere) w)
                       else dispatch stg R ep key (or_strategy existing) (or_symbol existing)
                         (or_side existing) (or_quantity existing) (or_price existing) w)
                 | INCONCLUSIVE \<Rightarrow> (Inr (False, S_UNRESOLVED (rr_detail r), None),
                     alert_fn (A_unresolved key (rr_detail r)) w))))"

record order_args =
  oa_strategy :: string
  oa_symbol :: string
  oa_side :: string
  oa_quantity :: py_value
  oa_price :: py_value
  oa_signal_ts :: py_value
  oa_sequence :: int
  oa_max_key_len :: int

definition order_key :: "router \<Rightarrow> order_args \<Rightarrow> router_error + string" where
  "order_key R a = make_idempotency_key (rt_sha256 R) (oa_strategy a) (oa_symbol a) (oa_side a)
     (oa_signal_ts a) (oa_quantity a) (oa_price a) (oa_sequence a) (oa_max_key_len a)"

definition place_order :: "stage \<Rightarrow> router \<Rightarrow> 'b endpoints \<Rightarrow> order_args \<Rightarrow> ('b, order_result) call" where
  "place_order stg R ep a w =
     (case py_number (oa_quantity a) of None \<Rightarrow> (Inl Type_Error, w) | Some q \<Rightarrow>
      if not_positive q then (Inl Value_Error, w)
      else case py_number (oa_price a) of None \<Rightarrow> (Inl Type_Error, w) | Some p \<Rightarrow>
      if is_negative p then (Inl Value_Error, w)
      else case order_key R a of Inl e \<Rightarrow> (Inl e, w) | Inr key \<Rightarrow>
      then_do (claim_intent R key (oa_strategy a) (oa_symbol a) (oa_side a) (Some q) (Some p) w)
        (\<lambda>claimed w.
          if \<not> claimed then handle_existing_intent stg R ep key w
          else dispatch stg R ep key (oa_strategy a) (oa_symbol a) (oa_side a) (Some q) (Some p) w))"

section \<open>Recovery at startup\<close>

text \<open>The sweep over the open intents; one too young for \<open>stale_after_s\<close> is passed over.\<close>

fun recover_loop ::
    "router \<Rightarrow> ('b \<Rightarrow> ((string \<times> string) + py_mapping list) \<times> 'b) \<Rightarrow> rat \<Rightarrow> rat \<Rightarrow> string list \<Rightarrow>
     (string, reconcile_result) py_dict \<Rightarrow> ('b, (string, reconcile_result) py_dict) call" where
  "recover_loop R query now stale [] results w = (Inr results, w)"
| "recover_loop R query now stale (key # keys) results w =
     (case get_order key (wl w) of
        None \<Rightarrow> recover_loop R query now stale keys results w
      | Some row \<Rightarrow>
          (let created = (if or_created row = 0 then now else or_created row) in
           if now - created < stale then recover_loop R query now stale keys results w
           else then_do (reconcile_order R key query w) (\<lambda>r.
             recover_loop R query now stale keys (py_set results key r))))"

definition recover_unresolved ::
    "router \<Rightarrow> ('b \<Rightarrow> ((string \<times> string) + py_mapping list) \<times> 'b) \<Rightarrow> rat \<Rightarrow>
     ('b, (string, reconcile_result) py_dict) call" where
  "recover_unresolved R query stale_after_s w =
     then_do (recover_loop R query (read_clock R w) stale_after_s (unresolved (wl w)) [] (tick w))
       (\<lambda>results w.
         (let open_keys = map fst (filter (\<lambda>(k, r). \<not> resolved r) results) in
          (Inr results, if open_keys \<noteq> [] then alert_fn (A_startup open_keys) w else w)))"

text \<open>The deprecated shim kept for older callers.\<close>

definition reconcile_unknown :: "router \<Rightarrow> string \<Rightarrow> ('b \<Rightarrow> ((string \<times> string) + py_mapping list) \<times> 'b) \<Rightarrow>
    ('b, string option) call" where
  "reconcile_unknown R key query w =
     then_do (reconcile_order R key query w) (\<lambda>r w.
       (Inr (if rr_outcome r = FOUND_PLACED then rr_broker_id r else None), w))"

definition default_router :: "(string \<Rightarrow> string) \<Rightarrow> (nat \<Rightarrow> rat) \<Rightarrow> router" where
  "default_router sha clock = \<lparr>broker_echoes_key = True, fuzzy_window_s = Some 300,
     response_classifier = classify_broker_response, rt_sha256 = sha, rt_clock = clock\<rparr>"

definition new_world :: "'b \<Rightarrow> 'b world" where
  "new_world b = \<lparr>wl = new_ledger, wb = b, ticks = 0, sends = [], alerts = []\<rparr>"

datatype 'b router_event =
    Place stage "'b endpoints" order_args
  | Recover "'b \<Rightarrow> ((string \<times> string) + py_mapping list) \<times> 'b" rat

fun router_step :: "router \<Rightarrow> 'b router_event \<Rightarrow> 'b world \<Rightarrow> 'b world" where
  "router_step R (Place stg ep a) w = snd (place_order stg R ep a w)"
| "router_step R (Recover query stale) w = snd (recover_unresolved R query stale w)"

end
