(* ===== verification/Order_Moves.thy ===== *)
theory Order_Moves
  imports Order_Router
begin

text \<open>
  The abstract specification of the order router and the proof that the model refines it. A
  \<open>move\<close> is what may happen to the ledger, the broker and the trace of calls: a key nobody
  holds is claimed, claimed and at once sent, an open intent is settled by an allowed
  transition, the book is queried, or a claim the book proves absent is archived and released.
  Placements, recoveries and deaths are sequences of moves (\<open>place_path\<close>, \<open>recover_path\<close>),
  so an invariant of the moves is one of every run.
\<close>

type_synonym 'b sender = "string \<Rightarrow> string \<Rightarrow> string \<Rightarrow> number option \<Rightarrow> number option \<Rightarrow> string \<Rightarrow> 'b \<Rightarrow> reply \<times> 'b"
type_synonym 'b querier = "'b \<Rightarrow> ((string \<times> string) + py_mapping list) \<times> 'b"

text \<open>The trace entry of a call describes the row written ahead of it.\<close>

definition describes :: "send_record \<Rightarrow> order_row \<Rightarrow> bool" where
  "describes s r \<longleftrightarrow> sr_row s = Some r \<and> or_status r = PENDING \<and> sr_symbol s = or_symbol r \<and>
     sr_side s = or_side r \<and> sr_strategy s = or_strategy r \<and>
     bind_real (sr_quantity s) = Inr (or_quantity r) \<and> bind_real (sr_price s) = Inr (or_price r)"

definition proves_absent :: "router \<Rightarrow> 'b querier option \<Rightarrow> string \<Rightarrow> 'b \<Rightarrow> bool" where
  "proves_absent R q k b' \<longleftrightarrow> broker_echoes_key R \<and>
     (\<exists>query b book. q = Some query \<and> query b = (Inr book, b') \<and> (\<forall>e\<in>set book. k \<notin> set (client_keys e)))"

definition pending_row :: "order_row \<Rightarrow> bool" where
  "pending_row r \<longleftrightarrow> or_status r = PENDING \<and> or_broker_id r = None"

inductive intent_move :: "router \<Rightarrow> 'b sender \<Rightarrow> 'b querier option \<Rightarrow> 'b world \<Rightarrow> 'b world \<Rightarrow> bool"
    for R :: router and f :: "'b sender" and q :: "'b querier option" where
  silent: "wl w' = wl w \<Longrightarrow> wb w' = wb w \<Longrightarrow> sends w' = sends w \<Longrightarrow> intent_move R f q w w'"
| query: "q = Some query \<Longrightarrow> wb w' = snd (query (wb w)) \<Longrightarrow> wl w' = wl w \<Longrightarrow> sends w' = sends w \<Longrightarrow>
    intent_move R f q w w'"
| claim: "row_of (wl w) k = None \<Longrightarrow> pending_row r \<Longrightarrow>
    wl w' = (wl w)\<lparr>orders := py_set (orders (wl w)) k r\<rparr> \<Longrightarrow> wb w' = wb w \<Longrightarrow> sends w' = sends w \<Longrightarrow>
    intent_move R f q w w'"
| send: "row_of (wl w) k = None \<Longrightarrow> pending_row r \<Longrightarrow>
    wl w' = (wl w)\<lparr>orders := py_set (orders (wl w)) k r\<rparr> \<Longrightarrow> sr_key s = k \<Longrightarrow> describes s r \<Longrightarrow>
    wb w' = snd (f k (sr_symbol s) (sr_side s) (sr_quantity s) (sr_price s) (sr_strategy s) (wb w)) \<Longrightarrow>
    sends w' = sends w @ [s] \<Longrightarrow> intent_move R f q w w'"
| settle: "row_of (wl w) k = Some r \<Longrightarrow> \<not> settled r \<Longrightarrow> or_status r' \<in> set (allowed_transitions (or_status r)) \<Longrightarrow>
    same_order r r' \<Longrightarrow> wl w' = (wl w)\<lparr>orders := py_set (orders (wl w)) k r'\<rparr> \<Longrightarrow> wb w' = wb w \<Longrightarrow>
    sends w' = sends w \<Longrightarrow> intent_move R f q w w'"
| release: "proves_absent R q k (wb w) \<Longrightarrow> row_of (wl w) k = Some r \<Longrightarrow> \<not> settled r \<Longrightarrow> ri_key a = k \<Longrightarrow>
    wl w' = \<lparr>orders = py_del (orders (wl w)) k, released = released (wl w) @ [a]\<rparr> \<Longrightarrow> wb w' = wb w \<Longrightarrow>
    sends w' = sends w \<Longrightarrow> intent_move R f q w w'"

abbreviation move_path :: "router \<Rightarrow> 'b sender \<Rightarrow> 'b querier option \<Rightarrow> 'b world \<Rightarrow> 'b world \<Rightarrow> bool" where
  "move_path R f q \<equiv> (intent_move R f q)\<^sup>*\<^sup>*"

section \<open>Small facts on the world\<close>

named_theorems world_simps "what the bookkeeping of a call leaves alone"

lemma tick_simps [world_simps]:
  "wl (tick w) = wl w" "wb (tick w) = wb w" "sends (tick w) = sends w" "alerts (tick w) = alerts w"
  by (simp_all add: tick_def)

lemma alert_simps [world_simps]:
  "wl (alert_fn a w) = wl w" "wb (alert_fn a w) = wb w" "sends (alert_fn a w) = sends w"
  by (simp_all add: alert_fn_def)

lemma then_do_simps [simp]:
  "then_do (Inl e, w) g = (Inl e, w)" "then_do (Inr a, w) g = g a w"
  by (simp_all add: then_do_def)

lemma then_do_path:
  assumes "move_path R f q w (snd m)"
    and "\<And>a w1. m = (Inr a, w1) \<Longrightarrow> move_path R f q w1 (snd (g a w1))"
  shows "move_path R f q w (snd (then_do m g))"
proof (cases m)
  case (Pair r w1)
  then show ?thesis using assms by (cases r) (auto intro: rtranclp_trans)
qed

lemma path_silent: "wl w' = wl w \<Longrightarrow> wb w' = wb w \<Longrightarrow> sends w' = sends w \<Longrightarrow> move_path R f q w w'"
  by (intro r_into_rtranclp silent)

lemma path_alert: "move_path R f q w (alert_fn a w)"
  by (rule path_silent) (simp_all add: world_simps)

lemma on_ledger_cases:
  assumes "on_ledger R method w = m"
  obtains e where "method (read_clock R w) (wl w) = Inl e" "m = (Inl e, tick w)"
    | a L where "method (read_clock R w) (wl w) = Inr (a, L)" "m = (Inr a, tick w\<lparr>wl := L\<rparr>)"
  using assms by (auto simp: on_ledger_def split: sum.splits)

section \<open>Each call is a sequence of moves\<close>

lemma mark_path: "move_path R f q w (snd (mark R key s bid rsn w))"
proof -
  obtain m where m: "mark R key s bid rsn w = m" by simp
  from m[unfolded mark_def] have "intent_move R f q w (snd (mark R key s bid rsn w))"
  proof (cases rule: on_ledger_cases)
    case (1 e)
    then show ?thesis using m by (auto simp: world_simps intro: silent)
  next
    case (2 b L)
    from update_status_Inr[OF 2(1)] show ?thesis
    proof (elim disjE exE conjE)
      fix r r'
      assume "row_of (wl w) key = Some r" "\<not> settled r" "s \<in> set (allowed_transitions (or_status r))"
        "same_order r r'" "or_status r' = s" "L = (wl w)\<lparr>orders := py_set (orders (wl w)) key r'\<rparr>"
      then show ?thesis using m 2(2)
        by (intro settle[of w key r r']) (simp_all add: world_simps)
    qed (use m 2(2) in \<open>auto simp: world_simps intro: silent\<close>)
  qed
  then show ?thesis by (rule r_into_rtranclp)
qed

lemma alert_conflict_world:
  "wl (snd (alert_conflict k m)) = wl (snd m)" "wb (snd (alert_conflict k m)) = wb (snd m)"
  "sends (snd (alert_conflict k m)) = sends (snd m)"
  by (cases m; cases "fst m"; auto simp: alert_conflict_def world_simps split: router_error.splits)+

lemma path_conflict: "move_path R f q (snd m) (snd (alert_conflict k m))"
  by (rule path_silent) (rule alert_conflict_world)+

lemma safe_update_path: "move_path R f q w (snd (safe_update R key s bid rsn w))"
  unfolding safe_update_def mark_def[symmetric]
  by (rule rtranclp_trans[OF mark_path path_conflict])

lemma release_absent_path:
  assumes "proves_absent R q key (wb w)"
  shows "move_path R f q w (snd (release_absent R key w))"
proof -
  obtain m where m: "on_ledger R (\<lambda>now. release_intent now key
       ''reconciliation proved absent: client key not present in broker order book'') w = m" by simp
  then have "intent_move R f q w (snd m)"
  proof (cases rule: on_ledger_cases)
    case (1 e)
    then show ?thesis by (auto simp: world_simps intro: silent)
  next
    case (2 b L)
    from release_intent_Inr[OF 2(1)] show ?thesis
    proof (elim disjE exE conjE)
      fix r a
      assume "row_of (wl w) key = Some r" "\<not> settled r" "ri_key a = key"
        "L = \<lparr>orders = py_del (orders (wl w)) key, released = released (wl w) @ [a]\<rparr>"
      then show ?thesis using 2(2) assms by (intro release[of R q key w r a]) (simp_all add: world_simps)
    qed (use 2(2) in \<open>auto simp: world_simps intro: silent\<close>)
  qed
  then show ?thesis unfolding release_absent_def m
    by (rule rtranclp_trans[OF r_into_rtranclp path_conflict])
qed

lemma apply_match_path: "move_path R f q w (snd (apply_match R key entry w))"
  by (auto simp: apply_match_def Let_def intro!: then_do_path[OF safe_update_path])

lemma find_NoneD: "match_by_key key book = None \<Longrightarrow> \<forall>e\<in>set book. key \<notin> set (client_keys e)"
  by (auto simp: match_by_key_def find_None_iff)

lemma reconcile_path: "move_path R f (Some query) w (snd (reconcile_order R key query w))"
proof (cases "get_order key (wl w)")
  case None
  then show ?thesis by (simp add: reconcile_order_def)
next
  case (Some intent)
  obtain answer b where qb: "query (wb w) = (answer, b)" by (cases "query (wb w)")
  let ?w1 = "w\<lparr>wb := b\<rparr>"
  have q: "move_path R f (Some query) w ?w1"
    by (rule r_into_rtranclp, rule query[OF refl]) (simp_all add: qb)
  show ?thesis
  proof (cases answer)
    case (Inl e)
    then show ?thesis using q Some qb by (cases e) (simp add: reconcile_order_def)
  next
    case (Inr book)
    have "move_path R f (Some query) ?w1 (snd (reconcile_order R key query w))"
    proof (cases "match_by_key key book")
      case None
      then have absent: "broker_echoes_key R \<Longrightarrow> proves_absent R (Some query) key (wb ?w1)"
        using find_NoneD[OF None] qb Inr by (auto simp: proves_absent_def)
      show ?thesis using None Some qb Inr
        by (auto simp: reconcile_order_def Let_def intro!: apply_match_path then_do_path[OF release_absent_path] absent
            split: sum.split option.split)
    next
      case (Some entry)
      then show ?thesis using \<open>get_order key (wl w) = Some intent\<close> qb Inr
        by (auto simp: reconcile_order_def intro: apply_match_path)
    qed
    with q show ?thesis by (rule rtranclp_trans)
  qed
qed

lemma resolve_unknown_path: "move_path R f (book_fn ep) w (snd (resolve_unknown R ep key d w))"
  by (auto simp: resolve_unknown_def path_alert
      intro!: then_do_path[OF reconcile_path] split: option.split reconcile_outcome.split)

lemma claim_world:
  assumes "claim_intent R key strat smb side qt p w = (Inr True, w1)"
  obtains r where "row_of (wl w) key = None" "pending_row r" "wl w1 = (wl w)\<lparr>orders := py_set (orders (wl w)) key r\<rparr>"
    "wb w1 = wb w" "sends w1 = sends w" "or_strategy r = strat" "or_symbol r = smb" "or_side r = side"
    "bind_real qt = Inr (or_quantity r)" "bind_real p = Inr (or_price r)"
  using assms unfolding claim_intent_def
proof (cases rule: on_ledger_cases)
  case (2 b L)
  then have L: "record_intent (read_clock R w) key strat smb side qt p (wl w) = Inr (True, L)"
    and w1: "w1 = tick w\<lparr>wl := L\<rparr>" by auto
  show ?thesis using record_intent_Inr[OF L] w1
    by (auto simp: world_simps pending_row_def intro!: that)
qed auto

lemma unclaimed_world:
  assumes "claim_intent R key strat smb side qt p w = (x, w1)" "x \<noteq> Inr True"
  shows "wl w1 = wl w \<and> wb w1 = wb w \<and> sends w1 = sends w"
  using assms(1) unfolding claim_intent_def
proof (cases rule: on_ledger_cases)
  case (2 b L)
  then show ?thesis using record_intent_Inr[OF 2(1)] assms(2) by (auto simp: world_simps)
qed (auto simp: world_simps)

text \<open>From the broker call on, a placement only settles and reconciles.\<close>

lemma dispatch_path:
  assumes "stg \<noteq> Dies_before_send"
  shows "move_path R f (book_fn ep) (snd (broker_call ep key smb side qt p strat w))
      (snd (dispatch stg R ep key strat smb side qt p w))"
proof -
  obtain answer w1 where bc: "broker_call ep key smb side qt p strat w = (answer, w1)"
    by (cases "broker_call ep key smb side qt p strat w")
  have "move_path R f (book_fn ep) w1 (snd (dispatch stg R ep key strat smb side qt p w))"
    using assms bc
    by (auto simp: dispatch_def resolve_unknown_path
        intro!: then_do_path[OF mark_path]
        split: reply.split sum.split intent_status.split)
  then show ?thesis using bc by simp
qed

lemma claim_dispatch_path:
  assumes "claim_intent R key strat smb side qt p w = (Inr True, w1)"
  shows "move_path R (send_fn ep) (book_fn ep) w (snd (dispatch stg R ep key strat smb side qt p w1))"
proof -
  obtain r where r: "row_of (wl w) key = None" "pending_row r" "wl w1 = (wl w)\<lparr>orders := py_set (orders (wl w)) key r\<rparr>"
    "wb w1 = wb w" "sends w1 = sends w" "or_strategy r = strat" "or_symbol r = smb" "or_side r = side"
    "bind_real qt = Inr (or_quantity r)" "bind_real p = Inr (or_price r)"
    using assms by (rule claim_world)
  show ?thesis
  proof (cases "stg = Dies_before_send")
    case True
    then show ?thesis using r by (auto simp: dispatch_def intro!: r_into_rtranclp claim)
  next
    case False
    obtain answer b where sf: "send_fn ep key smb side qt p strat (wb w1) = (answer, b)"
      by (cases "send_fn ep key smb side qt p strat (wb w1)")
    let ?s = "\<lparr>sr_key = key, sr_symbol = smb, sr_side = side, sr_quantity = qt, sr_price = p,
        sr_strategy = strat, sr_row = get_order key (wl w1)\<rparr>"
    have "intent_move R (send_fn ep) (book_fn ep) w (snd (broker_call ep key smb side qt p strat w1))"
      using r sf
      by (intro send[of w key r _ ?s])
        (simp_all add: broker_call_def describes_def pending_row_def get_order_def dict_simps)
    with dispatch_path[OF False] show ?thesis by (blast intro: converse_rtranclp_into_rtranclp)
  qed
qed

lemma handle_existing_path:
  fixes w :: "'b world"
  shows "move_path R (send_fn ep) (book_fn ep) w (snd (handle_existing_intent stg R ep key w))"
proof -
  have claimed: "book_fn ep = q \<Longrightarrow> move_path R (send_fn ep) q v (snd (then_do (claim_intent R key a b c d e v) (\<lambda>ok v.
      if \<not> ok then (Inr (False, S_UNRESOLVED Reclaimed_elsewhere, None),
          alert_fn (A_unresolved key Reclaimed_elsewhere) v)
      else dispatch stg R ep key a b c d e v)))" for a b c d e q and v :: "'b world"
  proof (cases "claim_intent R key a b c d e v")
    case (Pair x v1)
    assume "book_fn ep = q"
    then show ?thesis
    proof (cases "x = Inr True")
      case True
      with Pair \<open>book_fn ep = q\<close> show ?thesis by (auto simp: claim_dispatch_path)
    next
      case False
      with unclaimed_world[OF Pair False] Pair show ?thesis
        by (cases x) (auto simp: world_simps intro!: path_silent)
    qed
  qed
  show ?thesis
    by (auto simp: handle_existing_intent_def path_alert
        intro!: claimed then_do_path[OF reconcile_path] split: option.split reconcile_outcome.split)
qed

lemma place_path: "move_path R (send_fn ep) (book_fn ep) w (snd (place_order stg R ep a w))"
proof -
  have "move_path R (send_fn ep) (book_fn ep) w (snd (then_do (claim_intent R key s m d qt p w) (\<lambda>claimed w.
      if \<not> claimed then handle_existing_intent stg R ep key w else dispatch stg R ep key s m d qt p w)))"
    for key s m d qt p
  proof (cases "claim_intent R key s m d qt p w")
    case (Pair x w1)
    show ?thesis
    proof (cases "x = Inr True")
      case True
      with Pair show ?thesis by (simp add: claim_dispatch_path)
    next
      case False
      have "move_path R (send_fn ep) (book_fn ep) w w1"
        using unclaimed_world[OF Pair False] by (auto intro: path_silent)
      with Pair False show ?thesis
        by (cases x) (auto intro: rtranclp_trans handle_existing_path)
    qed
  qed
  then show ?thesis
    by (auto simp: place_order_def split: option.split sum.split)
qed

lemma recover_loop_path: "move_path R f (Some query) w (snd (recover_loop R query now stale keys results w))"
proof (induction keys arbitrary: results w)
  case (Cons key keys)
  then show ?case by (auto simp: Let_def intro!: then_do_path[OF reconcile_path] split: option.split)
qed simp

lemma recover_path: "move_path R f (Some query) w (snd (recover_unresolved R query stale w))"
proof -
  have "move_path R f (Some query) w (tick w)" by (rule path_silent) (simp_all add: world_simps)
  moreover have "move_path R f (Some query) (tick w) (snd (recover_unresolved R query stale w))"
    unfolding recover_unresolved_def
    by (rule then_do_path[OF recover_loop_path]) (simp add: Let_def path_alert)
  ultimately show ?thesis by (rule rtranclp_trans)
qed

section \<open>From moves to runs\<close>

text \<open>The functions an event hands to the router.\<close>

fun event_sender :: "'b router_event \<Rightarrow> 'b sender" where
  "event_sender (Place stg ep a) = send_fn ep"
| "event_sender (Recover query stale) = (\<lambda>k m d qt p s b. (Raised_exception '''' '''', b))"

fun event_query :: "'b router_event \<Rightarrow> 'b querier option" where
  "event_query (Place stg ep a) = book_fn ep"
| "event_query (Recover query stale) = Some query"

lemma step_path: "move_path R (event_sender ev) (event_query ev) w (router_step R ev w)"
  by (cases ev) (simp_all add: place_path recover_path)

lemma path_keeps:
  assumes "move_path R f q w w'" "J w"
    and "\<And>v v'. intent_move R f q v v' \<Longrightarrow> J v \<Longrightarrow> J v'"
  shows "J w'"
  using assms(1,2) by (induction rule: rtranclp_induct) (auto intro: assms(3))

text \<open>A relation every move respects holds across a path.\<close>

lemma path_related:
  assumes "move_path R f q w w'" "\<And>v. rel v v" "\<And>u v x. rel u v \<Longrightarrow> rel v x \<Longrightarrow> rel u x"
    and "\<And>v v'. intent_move R f q v v' \<Longrightarrow> rel v v'"
  shows "rel w w'"
  using assms(1) by (induction rule: rtranclp_induct) (blast intro: assms(2-4))+

end
