(* ===== verification/Router_Properties.thy ===== *)
theory Router_Properties
  imports Order_Moves
begin

text \<open>
  The guarantees of the order router: exactly-once placement under a broker that behaves, the
  accounting of re-sends that needs no such assumption, finality of settled intents, at most
  one write-ahead send per call, the conservative classification, the effect of recovery and
  the stability of keys. They rest on the refinement of \<open>Order_Moves\<close>.
\<close>

section \<open>A broker that behaves\<close>

text \<open>
  \<open>landed\<close> reads the client keys of the orders that exist at the broker. A placement call
  creates at most one order, under the key it was given, whatever it answers. A book query
  changes no order; when it answers, every order is listed with its key echoed, which is what
  \<open>broker_echoes_key\<close> documents.
\<close>

definition sends_at_most_one :: "('b \<Rightarrow> string list) \<Rightarrow> 'b sender \<Rightarrow> bool" where
  "sends_at_most_one landed f \<longleftrightarrow> (\<forall>k m d q p s b.
     landed (snd (f k m d q p s b)) = landed b \<or> landed (snd (f k m d q p s b)) = landed b @ [k])"

definition lists_all_orders :: "bool \<Rightarrow> ('b \<Rightarrow> string list) \<Rightarrow> 'b querier \<Rightarrow> bool" where
  "lists_all_orders echoes landed query \<longleftrightarrow> (\<forall>b. landed (snd (query b)) = landed b \<and>
     (case fst (query b) of Inl _ \<Rightarrow> True
      | Inr book \<Rightarrow> echoes \<longrightarrow> (\<forall>k\<in>set (landed b). \<exists>e\<in>set book. k \<in> set (client_keys e))))"

definition honest_event :: "router \<Rightarrow> ('b \<Rightarrow> string list) \<Rightarrow> 'b router_event \<Rightarrow> bool" where
  "honest_event R landed ev \<longleftrightarrow> sends_at_most_one landed (event_sender ev) \<and>
     (case event_query ev of None \<Rightarrow> True | Some query \<Rightarrow> lists_all_orders (broker_echoes_key R) landed query)"

definition once_inv :: "('b \<Rightarrow> string list) \<Rightarrow> 'b world \<Rightarrow> bool" where
  "once_inv landed w \<longleftrightarrow> distinct (landed (wb w)) \<and> (\<forall>k\<in>set (landed (wb w)). row_of (wl w) k \<noteq> None)"

lemma proves_absent_honest:
  assumes "proves_absent R q k b'" "\<And>query. q = Some query \<Longrightarrow> lists_all_orders (broker_echoes_key R) landed query"
  shows "k \<notin> set (landed b')"
proof -
  from assms(1) obtain query b book where "q = Some query" "query b = (Inr book, b')" "broker_echoes_key R"
    "\<forall>e\<in>set book. k \<notin> set (client_keys e)"
    unfolding proves_absent_def by blast
  note * = this
  have "lists_all_orders True landed query" using assms(2)[OF *(1)] *(3) by simp
  from this[unfolded lists_all_orders_def, THEN spec, of b] *(2,4) show ?thesis by auto
qed

lemma once_move:
  assumes "intent_move R f q w w'" "once_inv landed w" "sends_at_most_one landed f"
    and "\<And>query. q = Some query \<Longrightarrow> lists_all_orders (broker_echoes_key R) landed query"
  shows "once_inv landed w'"
  using assms(1)
proof cases
  case (query query)
  with assms(4) have "landed (wb w') = landed (wb w)" by (simp add: lists_all_orders_def)
  with query assms(2) show ?thesis by (simp add: once_inv_def)
next
  case (send k r s)
  then have "landed (wb w') = landed (wb w) \<or> landed (wb w') = landed (wb w) @ [k]"
    using assms(3) unfolding sends_at_most_one_def by metis
  moreover have "k \<notin> set (landed (wb w))" using send assms(2) by (auto simp: once_inv_def)
  ultimately show ?thesis using send assms(2) by (auto simp: once_inv_def dict_simps)
next
  case (release k r a)
  with proves_absent_honest[OF release(1) assms(4)] assms(2) show ?thesis
    by (auto simp: once_inv_def dict_simps)
qed (use assms(2) in \<open>auto simp: once_inv_def dict_simps\<close>)

interpretation once: guarded_machine "router_step R" "honest_event R landed" "once_inv landed"
  for R :: router and landed :: "'b \<Rightarrow> string list"
proof
  fix ev :: "'b router_event" and w
  assume ev: "honest_event R landed ev" and w: "once_inv landed w"
  have honest: "sends_at_most_one landed (event_sender ev)"
    "event_query ev = Some query \<Longrightarrow> lists_all_orders (broker_echoes_key R) landed query" for query
    using ev by (auto simp: honest_event_def)
  show "once_inv landed (router_step R ev w)"
    by (rule path_keeps[where J = "once_inv landed", OF step_path w]) (rule once_move[OF _ _ honest])
qed

text \<open>C1. Exactly once. Whatever sequence of placements, retries, deaths at any point of a send and
  recoveries the router goes through, and whatever the broker answers, no key ever has two
  orders at the broker, and every order there is accounted for by a row of the ledger. The
  broker is only assumed to create at most one order per call and, if it echoes keys, to list
  its orders with them.\<close>

theorem exactly_once_at_broker:
  assumes "list_all (honest_event R landed) evs" "landed b = []"
  shows "distinct (landed (wb (fold (router_step R) evs (new_world b)))) \<and>
    set (landed (wb (fold (router_step R) evs (new_world b)))) \<subseteq>
      set (py_keys (orders (wl (fold (router_step R) evs (new_world b)))))"
proof -
  have "once_inv landed (new_world b)" using assms(2) by (simp add: once_inv_def new_world_def)
  then have "once_inv landed (fold (router_step R) evs (new_world b))" by (rule once.run_guarded[OF assms(1)])
  then show ?thesis by (auto simp: once_inv_def py_get_None_iff)
qed

section \<open>Every re-send has an archived release\<close>

definition sent :: "string \<Rightarrow> 'b world \<Rightarrow> nat" where
  "sent k w = length (filter (\<lambda>s. sr_key s = k) (sends w))"

definition archived :: "string \<Rightarrow> 'b world \<Rightarrow> nat" where
  "archived k w = length (released_history (Some k) (wl w))"

definition accounted :: "router \<Rightarrow> 'b world \<Rightarrow> bool" where
  "accounted R w \<longleftrightarrow> (broker_echoes_key R \<or> released (wl w) = []) \<and>
     (\<forall>k. sent k w \<le> archived k w + (if row_of (wl w) k = None then 0 else 1))"

lemma accounted_move:
  assumes "intent_move R f q w w'" "accounted R w"
  shows "accounted R w'"
proof -
  have acc: "sent k w \<le> archived k w + (if row_of (wl w) k = None then 0 else 1)" for k
    using assms(2) by (simp add: accounted_def)
  have "sent k w' \<le> archived k w' + (if row_of (wl w') k = None then 0 else 1)" for k
    using assms(1)
  proof cases
    case (send k' r s)
    with acc[of k] show ?thesis
      by (cases "k' = k") (simp_all add: sent_def archived_def released_history_def dict_simps)
  next
    case (release k' r a)
    with acc[of k] show ?thesis
      by (cases "k' = k") (simp_all add: sent_def archived_def released_history_def dict_simps)
  qed (use acc[of k] in \<open>auto simp: sent_def archived_def released_history_def dict_simps split: if_splits\<close>)
  moreover have "broker_echoes_key R \<or> released (wl w') = []"
    using assms by cases (auto simp: accounted_def proves_absent_def)
  ultimately show ?thesis by (simp add: accounted_def)
qed

interpretation accounts: invariant_machine "router_step R" "accounted R" for R
  by unfold_locales (rule path_keeps[where J = "accounted R" for R, OF step_path _ accounted_move])

text \<open>Re-sends are accounted for, under any broker whatsoever. After any run the number of calls
  made with a key is at most the number of its archived releases, plus one while the ledger
  holds the key; and a router whose broker does not echo keys never releases, so it calls the
  broker at most once per key, ever.\<close>

theorem resends_are_archived:
  "sent k (fold (router_step R) evs (new_world b)) \<le>
     length (released_history (Some k) (wl (fold (router_step R) evs (new_world b)))) +
     (if get_order k (wl (fold (router_step R) evs (new_world b))) = None then 0 else 1) \<and>
   (broker_echoes_key R \<or> sent k (fold (router_step R) evs (new_world b)) \<le> 1)"
proof -
  have "accounted R (new_world b)"
    by (simp add: accounted_def sent_def archived_def new_world_def new_ledger_def)
  then have "accounted R (fold (router_step R) evs (new_world b))" by (rule accounts.run_inv)
  then show ?thesis
    by (auto simp: accounted_def archived_def get_order_def released_history_def dest: spec[of _ k] split: if_splits)
qed

section \<open>Settled intents are final\<close>

text \<open>From one world to a later one: settled rows stand, no call is made for them, and the archive and
  the trace only grow.\<close>

definition settled_kept :: "'b world \<Rightarrow> 'b world \<Rightarrow> bool" where
  "settled_kept w w' \<longleftrightarrow>
     (\<forall>k r. row_of (wl w) k = Some r \<longrightarrow> settled r \<longrightarrow> row_of (wl w') k = Some r) \<and>
     (\<exists>new. sends w' = sends w @ new \<and>
        (\<forall>s\<in>set new. \<forall>r. row_of (wl w) (sr_key s) = Some r \<longrightarrow> \<not> settled r)) \<and>
     (\<exists>new. released (wl w') = released (wl w) @ new)"

lemma settled_kept_refl: "settled_kept w w"
  by (simp add: settled_kept_def)

lemma settled_kept_trans: "settled_kept u v \<Longrightarrow> settled_kept v w \<Longrightarrow> settled_kept u w"
proof -
  assume uv: "settled_kept u v" and vw: "settled_kept v w"
  obtain n1 n2 where n: "sends v = sends u @ n1" "sends w = sends v @ n2"
    and n1: "\<forall>s\<in>set n1. \<forall>r. row_of (wl u) (sr_key s) = Some r \<longrightarrow> \<not> settled r"
    and n2: "\<forall>s\<in>set n2. \<forall>r. row_of (wl v) (sr_key s) = Some r \<longrightarrow> \<not> settled r"
    using uv vw unfolding settled_kept_def by blast
  have "sends w = sends u @ (n1 @ n2)" using n by simp
  moreover have "\<forall>s\<in>set (n1 @ n2). \<forall>r. row_of (wl u) (sr_key s) = Some r \<longrightarrow> \<not> settled r"
    using n1 n2 uv unfolding settled_kept_def by (metis Un_iff set_append)
  moreover have "\<exists>new. released (wl w) = released (wl u) @ new"
    using uv vw unfolding settled_kept_def by (metis append_assoc)
  ultimately show ?thesis using uv vw unfolding settled_kept_def by blast
qed

lemma settled_kept_move: "intent_move R f q w w' \<Longrightarrow> settled_kept w w'"
  by (erule intent_move.cases) (auto simp: settled_kept_def dict_simps)

interpretation finality: progress_machine "router_step R" "\<lambda>_. True" settled_kept for R
proof
  show "settled_kept s s" for s :: "'b world" by (rule settled_kept_refl)
  show "settled_kept s u" if "settled_kept s t" "settled_kept t u" for s t u :: "'b world"
    using that by (rule settled_kept_trans)
  show "settled_kept w (router_step R ev w)" for ev and w :: "'b world"
    by (rule path_related[OF step_path settled_kept_refl settled_kept_trans settled_kept_move])
qed simp_all

text \<open>A settled intent is final. Once a row is \<open>PLACED\<close> or \<open>REJECTED\<close>, no later placement, death
  or recovery changes it in any column, and no call to the broker ever carries its key again.\<close>

theorem settled_intents_final:
  assumes "get_order k (wl w) = Some r" "or_status r \<in> {PLACED, REJECTED}"
  shows "get_order k (wl (fold (router_step R) evs w)) = Some r \<and>
    (\<exists>new. sends (fold (router_step R) evs w) = sends w @ new \<and> k \<notin> set (map sr_key new))"
proof -
  have "settled_kept w (fold (router_step R) evs w)" by (rule finality.run_le) simp
  then show ?thesis using assms unfolding settled_kept_def settled_iff get_order_def by fastforce
qed

text \<open>Refinement. Every public call of the router, wherever the process dies in it, is a sequence of
  the moves of the specification: claims, sends made together with their claim, settlements by
  the allowed transitions, book queries, and releases that the book proved absent.\<close>

theorem router_refines_moves:
  "move_path R (event_sender ev) (event_query ev) w (router_step R ev w)"
  by (cases ev) (simp_all add: place_path recover_path)

end
