(* ===== verification/Router_Outcomes.thy ===== *)
theory Router_Outcomes
  imports Router_Properties
begin

text \<open>
  What one call of the router does: at most one call to the broker, with its row written ahead
  and justified; what a recovery leaves open; how an answer is classified; when two requests
  have the same key.
\<close>

section \<open>One call\<close>

lemma on_ledger_world: "wb (snd (on_ledger R m w)) = wb w" "sends (snd (on_ledger R m w)) = sends w"
  by (auto simp: on_ledger_def world_simps split: sum.split)

lemma then_do_sends:
  assumes "sends (snd m) = sends w" "\<And>a w1. m = (Inr a, w1) \<Longrightarrow> sends (snd (g a w1)) = sends w1"
  shows "sends (snd (then_do m g)) = sends w"
proof (cases m)
  case (Pair r w1)
  then show ?thesis using assms by (cases r) auto
qed

lemma safe_update_sends: "sends (snd (safe_update R key s bid rsn w)) = sends w"
  by (simp add: safe_update_def alert_conflict_world on_ledger_world)

lemma release_absent_sends: "sends (snd (release_absent R key w)) = sends w"
  by (simp add: release_absent_def alert_conflict_world on_ledger_world)

lemma apply_match_sends: "sends (snd (apply_match R key entry w)) = sends w"
  by (auto simp: apply_match_def Let_def intro!: then_do_sends[OF safe_update_sends])

lemma reconcile_sends: "sends (snd (reconcile_order R key query w)) = sends w"
proof -
  have wb_sends: "sends (w\<lparr>wb := b\<rparr>) = sends w" for b by simp
  have release: "sends (snd (then_do (release_absent R key (w\<lparr>wb := b\<rparr>)) (\<lambda>_ v. (Inr x, v)))) = sends w" for b x
    by (rule then_do_sends) (simp_all add: release_absent_sends)
  show ?thesis
    by (auto simp: reconcile_order_def Let_def apply_match_sends release
        split: option.split sum.split prod.split)
qed

lemma resolve_unknown_sends: "sends (snd (resolve_unknown R ep key d w)) = sends w"
  by (auto simp: resolve_unknown_def world_simps
      intro!: then_do_sends[OF reconcile_sends] split: option.split reconcile_outcome.split)

lemma mark_sends: "sends (snd (mark R key s bid rsn w)) = sends w"
  by (simp add: mark_def on_ledger_world)

lemma dispatch_sends:
  "sends (snd (dispatch stg R ep key strat smb side qt p w)) = sends w \<or>
   sends (snd (dispatch stg R ep key strat smb side qt p w)) = sends w @
     [\<lparr>sr_key = key, sr_symbol = smb, sr_side = side, sr_quantity = qt, sr_price = p,
       sr_strategy = strat, sr_row = get_order key (wl w)\<rparr>]"
proof (cases "stg = Dies_before_send")
  case True
  then show ?thesis by (simp add: dispatch_def)
next
  case False
  obtain answer w1 where bc: "broker_call ep key smb side qt p strat w = (answer, w1)"
    by (cases "broker_call ep key smb side qt p strat w")
  have after: "sends (snd (dispatch stg R ep key strat smb side qt p w)) = sends w1"
    using False bc
    by (auto simp: dispatch_def resolve_unknown_sends intro!: then_do_sends[OF mark_sends]
        split: reply.split sum.split intent_status.split)
  show ?thesis using bc by (auto simp: after broker_call_def split: prod.splits)
qed

lemma claimed_send:
  assumes "claim_intent R key strat smb side qt p w = (Inr True, w1)"
  shows "\<exists>new. sends (snd (dispatch stg R ep key strat smb side qt p w1)) = sends w @ new \<and>
    (new = [] \<or> (\<exists>s r. new = [s] \<and> sr_key s = key \<and> describes s r))"
proof -
  obtain r where r: "pending_row r" "wl w1 = (wl w)\<lparr>orders := py_set (orders (wl w)) key r\<rparr>"
    "sends w1 = sends w" "or_strategy r = strat" "or_symbol r = smb" "or_side r = side"
    "bind_real qt = Inr (or_quantity r)" "bind_real p = Inr (or_price r)"
    using assms by (rule claim_world)
  let ?s = "\<lparr>sr_key = key, sr_symbol = smb, sr_side = side, sr_quantity = qt, sr_price = p,
       sr_strategy = strat, sr_row = get_order key (wl w1)\<rparr>"
  have "describes ?s r" using r by (simp add: describes_def pending_row_def get_order_def dict_simps)
  then show ?thesis using dispatch_sends[of stg R ep key strat smb side qt p w1] r(3)
    by (metis append_Nil2 select_convs(1) send_record.select_convs(1))
qed

text \<open>An absent verdict is the book's.\<close>

lemma safe_outcome_not_absent:
  "fst (apply_match R key entry w) = Inr r \<Longrightarrow> rr_outcome r \<noteq> ABSENT"
  by (auto simp: apply_match_def Let_def recon_def then_do_def split: if_splits prod.splits sum.splits)

lemma absent_means:
  assumes "reconcile_order R key query w = (Inr r, w1)" "rr_outcome r = ABSENT"
  shows "broker_echoes_key R \<and> (\<exists>book. fst (query (wb w)) = Inr book \<and> (\<forall>e\<in>set book. key \<notin> set (client_keys e)))"
proof -
  have never: "apply_match R key entry v \<noteq> (Inr r, w1)" for entry v
    using safe_outcome_not_absent[of R key entry v r] assms(2) by auto
  show ?thesis using assms
    by (auto simp: reconcile_order_def Let_def never recon_def find_NoneD
        split: option.splits sum.splits prod.splits if_splits)
qed

definition may_send :: "router \<Rightarrow> 'b endpoints \<Rightarrow> string \<Rightarrow> 'b world \<Rightarrow> bool" where
  "may_send R ep key w \<longleftrightarrow> (case get_order key (wl w) of
     None \<Rightarrow> True
   | Some r \<Rightarrow> or_status r \<in> {PENDING, UNKNOWN} \<and> broker_echoes_key R \<and>
       (\<exists>query book. book_fn ep = Some query \<and> fst (query (wb w)) = Inr book \<and>
          (\<forall>e\<in>set book. key \<notin> set (client_keys e))))"

definition one_justified_send :: "router \<Rightarrow> 'b endpoints \<Rightarrow> string \<Rightarrow> 'b world \<Rightarrow> 'b world \<Rightarrow> bool" where
  "one_justified_send R ep key w w' \<longleftrightarrow> (\<exists>new. sends w' = sends w @ new \<and>
     (new = [] \<or> (\<exists>s r. new = [s] \<and> sr_key s = key \<and> describes s r \<and> may_send R ep key w)))"

lemma no_send: "sends w' = sends w \<Longrightarrow> one_justified_send R ep key w w'"
  by (simp add: one_justified_send_def)

lemma handle_existing_send:
  "one_justified_send R ep key w (snd (handle_existing_intent stg R ep key w))"
proof -
  consider (quiet) "sends (snd (handle_existing_intent stg R ep key w)) = sends w"
    | (again) row query r w1 where "get_order key (wl w) = Some row" "or_status row \<in> {PENDING, UNKNOWN}"
      "book_fn ep = Some query" "reconcile_order R key query w = (Inr r, w1)" "rr_outcome r = ABSENT"
  proof -
    show ?thesis
    proof (cases "get_order key (wl w)")
      case None
      then show ?thesis using quiet by (simp add: handle_existing_intent_def)
    next
      case (Some row)
      note row = Some
      show ?thesis
      proof (cases "or_status row \<in> {PENDING, UNKNOWN} \<and> book_fn ep \<noteq> None")
        case False
        then show ?thesis using quiet row
          by (cases "or_status row") (auto simp: handle_existing_intent_def world_simps)
      next
        case True
        then obtain query where q: "book_fn ep = Some query" by auto
        obtain x w1 where rc: "reconcile_order R key query w = (x, w1)" by (cases "reconcile_order R key query w")
        then have s1: "sends w1 = sends w" using reconcile_sends[of R key query w] by simp
        show ?thesis
        proof (cases "\<exists>r. x = Inr r \<and> rr_outcome r = ABSENT")
          case True
          then show ?thesis using again[OF row _ q] rc \<open>or_status row \<in> _ \<and> _\<close> by auto
        next
          case False
          then have "sends (snd (handle_existing_intent stg R ep key w)) = sends w"
            using row q rc s1 True by (cases x) (auto simp: handle_existing_intent_def world_simps
                split: reconcile_outcome.split)
          then show ?thesis by (rule quiet)
        qed
      qed
    qed
  qed
  then show ?thesis
  proof cases
    case quiet
    then show ?thesis by (rule no_send)
  next
    case again
    have s1: "sends w1 = sends w" using reconcile_sends[of R key query w] again(4) by simp
    have may: "may_send R ep key w"
      using absent_means[OF again(4,5)] again by (auto simp: may_send_def)
    obtain x w2 where cl: "claim_intent R key (or_strategy row) (or_symbol row) (or_side row)
        (or_quantity row) (or_price row) w1 = (x, w2)" by (meson surj_pair)
    have he: "snd (handle_existing_intent stg R ep key w) =
        snd (then_do (x, w2) (\<lambda>reclaimed w. if \<not> reclaimed then
           (Inr (False, S_UNRESOLVED Reclaimed_elsewhere, None), alert_fn (A_unresolved key Reclaimed_elsewhere) w)
         else dispatch stg R ep key (or_strategy row) (or_symbol row) (or_side row) (or_quantity row) (or_price row) w))"
      using again cl by (auto simp: handle_existing_intent_def)
    show ?thesis
    proof (cases "x = Inr True")
      case True
      then show ?thesis using claimed_send[OF cl[unfolded True], of stg ep] he s1 may
        by (auto simp: one_justified_send_def)
    next
      case False
      have "sends w2 = sends w" using unclaimed_world[OF cl False] s1 by simp
      then show ?thesis using False he by (cases x) (auto simp: world_simps intro!: no_send)
    qed
  qed
qed

text \<open>C15. A placement calls the broker at most once, wherever it dies. The call carries the key of
  the arguments, and at that moment the ledger already holds a \<open>PENDING\<close> row with the same order;
  and it is made only if no row held the key before, or an open one whose absence the book of a
  key-echoing broker proved in this very call.\<close>

theorem one_justified_write_ahead_send:
  "sends (snd (place_order stg R ep a w)) = sends w \<or>
   (\<exists>s r. sends (snd (place_order stg R ep a w)) = sends w @ [s] \<and> order_key R a = Inr (sr_key s) \<and>
      describes s r \<and> may_send R ep (sr_key s) w)"
proof -
  have claimed: "one_justified_send R ep key w (snd (then_do (claim_intent R key s m d qt p w) (\<lambda>claimed w.
      if \<not> claimed then handle_existing_intent stg R ep key w else dispatch stg R ep key s m d qt p w)))"
    for key s m d qt p
  proof (cases "claim_intent R key s m d qt p w")
    case (Pair x w1)
    show ?thesis
    proof (cases "x = Inr True")
      case True
      then have "may_send R ep key w"
        using Pair by (auto simp: may_send_def get_order_def elim: claim_world)
      then show ?thesis using claimed_send[OF Pair[unfolded True], of stg ep] Pair True
        by (auto simp: one_justified_send_def)
    next
      case False
      have same: "wl w1 = wl w" "wb w1 = wb w" "sends w1 = sends w" using unclaimed_world[OF Pair False] by auto
      have may: "may_send R ep key w1 = may_send R ep key w"
        by (simp add: may_send_def same cong: option.case_cong)
      have "one_justified_send R ep key w (snd (handle_existing_intent stg R ep key w1))"
        using handle_existing_send[of R ep key w1 stg] same(3) may by (simp add: one_justified_send_def)
      then show ?thesis using Pair False same by (cases x) (auto intro: no_send)
    qed
  qed
  show ?thesis
  proof (cases "sends (snd (place_order stg R ep a w)) = sends w")
    case False
    then obtain q p key where "py_number (oa_quantity a) = Some q" "\<not> not_positive q"
      "py_number (oa_price a) = Some p" "\<not> is_negative p" and key: "order_key R a = Inr key"
      by (auto simp: place_order_def split: option.splits sum.splits if_splits)
    with claimed[of key "oa_strategy a" "oa_symbol a" "oa_side a" "Some q" "Some p"] False show ?thesis
      by (auto simp: place_order_def one_justified_send_def)
  qed simp
qed

section \<open>Recovery\<close>

text \<open>No row, or a settled one.\<close>

definition closed_key :: "ledger \<Rightarrow> string \<Rightarrow> bool" where
  "closed_key L k \<longleftrightarrow> (case get_order k L of None \<Rightarrow> True | Some r \<Rightarrow> or_status r \<in> {PLACED, REJECTED})"

lemma closed_key_iff: "closed_key L k \<longleftrightarrow> (\<forall>r. row_of L k = Some r \<longrightarrow> settled r)"
  by (auto simp: closed_key_def settled_iff get_order_def split: option.split)

text \<open>A ledger step of reconciliation closes its key or leaves the ledger alone.\<close>

definition closes :: "string \<Rightarrow> 'b world \<Rightarrow> 'b world \<Rightarrow> bool" where
  "closes key w w' \<longleftrightarrow> wl w' = wl w \<or> closed_key (wl w') key \<and> (\<forall>k. k \<noteq> key \<longrightarrow> row_of (wl w') k = row_of (wl w) k)"

lemma safe_update_closes:
  assumes "s \<in> {PLACED, REJECTED}"
  shows "closes key w (snd (safe_update R key s bid rsn w))"
    and "fst (safe_update R key s bid rsn w) = Inr True \<Longrightarrow> closed_key (wl (snd (safe_update R key s bid rsn w))) key"
proof -
  obtain m where m: "on_ledger R (\<lambda>now. update_status now key s bid rsn) w = m" by simp
  then have "closes key w (snd m) \<and> (fst m = Inr True \<longrightarrow> closed_key (wl (snd m)) key)"
  proof (cases rule: on_ledger_cases)
    case (2 b L)
    show ?thesis using update_status_Inr[OF 2(1)] 2(2) assms
      by (auto simp: closes_def closed_key_iff settled_iff dict_simps)
  qed (auto simp: closes_def world_simps)
  moreover have "fst (alert_conflict key m) = Inr True \<Longrightarrow> fst m = Inr True"
    by (cases m; cases "fst m"; auto simp: alert_conflict_def split: router_error.splits)
  ultimately show "closes key w (snd (safe_update R key s bid rsn w))"
    and "fst (safe_update R key s bid rsn w) = Inr True \<Longrightarrow> closed_key (wl (snd (safe_update R key s bid rsn w))) key"
    by (auto simp: safe_update_def m alert_conflict_world closes_def)
qed

lemma release_absent_closes:
  assumes "release_absent R key w = (Inr b, w')"
  shows "closes key w w' \<and> closed_key (wl w') key"
proof -
  obtain m where m: "on_ledger R (\<lambda>now. release_intent now key
       ''reconciliation proved absent: client key not present in broker order book'') w = m" by simp
  then have w': "wl w' = wl (snd m)" and b: "fst m = Inr b \<or> (\<exists>x y. fst m = Inl (Illegal_State_Transition x y))"
    using assms by (auto simp: release_absent_def alert_conflict_def world_simps
        split: prod.splits sum.splits router_error.splits)
  from m have "closes key w (snd m) \<and> closed_key (wl (snd m)) key"
  proof (cases rule: on_ledger_cases)
    case (1 e)
    then have "\<exists>r. row_of (wl w) key = Some r \<and> settled r"
      by (auto simp: release_intent_def Let_def settled_def split: option.splits if_splits)
    then show ?thesis using 1 by (auto simp: closes_def closed_key_iff world_simps)
  next
    case (2 b L)
    show ?thesis using release_intent_Inr[OF 2(1)] 2(2)
      by (auto simp: closes_def closed_key_iff dict_simps)
  qed
  then show ?thesis by (auto simp: closes_def w')
qed

lemma closes_trans: "wl v = wl w \<Longrightarrow> closes key v u \<Longrightarrow> closes key w u"
  by (simp add: closes_def)

lemma apply_match_closes:
  assumes "apply_match R key entry w = (x, w')"
  shows "closes key w w' \<and> (\<forall>r. x = Inr r \<longrightarrow> resolved r \<longrightarrow> closed_key (wl w') key)"
proof -
  have *: "closes key w (snd (then_do (safe_update R key s bid rsn w) (\<lambda>ok v. (Inr (F ok), v)))) \<and>
      (\<forall>r. fst (then_do (safe_update R key s bid rsn w) (\<lambda>ok v. (Inr (F ok), v))) = Inr r \<longrightarrow> resolved r \<longrightarrow>
        closed_key (wl (snd (then_do (safe_update R key s bid rsn w) (\<lambda>ok v. (Inr (F ok), v))))) key)"
    if "s \<in> {PLACED, REJECTED}" "\<not> resolved (F False)" for s bid rsn F
    using safe_update_closes[where key = key and w = w and R = R and bid = bid and rsn = rsn, OF that(1)] that(2)
    by (cases "safe_update R key s bid rsn w"; cases "fst (safe_update R key s bid rsn w)")
      (auto, metis (full_types))
  show ?thesis
    using assms *[of REJECTED "\<lambda>ok. if \<not> ok then recon INCONCLUSIVE (book_broker_id entry) (Terminal_conflict REJECTED)
                else recon FOUND_REJECTED (book_broker_id entry) (Reason (extract_reason entry))" None "Some (Reason (extract_reason entry))"]
      *[of PLACED "\<lambda>ok. if \<not> ok then recon INCONCLUSIVE (book_broker_id entry) (Terminal_conflict PLACED)
                else recon FOUND_PLACED (book_broker_id entry) Matched_in_book" "book_broker_id entry" None]
    by (auto simp: apply_match_def Let_def resolved_def recon_def closes_def split: if_splits)
qed

lemma reconcile_closes:
  assumes "reconcile_order R key query w = (x, w')"
  shows "closes key w w' \<and> (\<forall>r. x = Inr r \<longrightarrow> resolved r \<longrightarrow> closed_key (wl w') key)"
proof (cases "get_order key (wl w)")
  case None
  then show ?thesis using assms by (auto simp: reconcile_order_def closes_def resolved_def recon_def)
next
  case (Some intent)
  obtain answer b where qb: "query (wb w) = (answer, b)" by (cases "query (wb w)")
  let ?w1 = "w\<lparr>wb := b\<rparr>"
  have same: "wl ?w1 = wl w" by simp
  have matched: "apply_match R key entry ?w1 = (x, w') \<Longrightarrow> ?thesis" for entry
    using apply_match_closes[of R key entry ?w1 x w'] closes_trans[OF same] by blast
  have quiet: "wl w' = wl w \<Longrightarrow> (\<And>r. x = Inr r \<Longrightarrow> \<not> resolved r) \<Longrightarrow> ?thesis" by (auto simp: closes_def)
  have released: "then_do (release_absent R key ?w1) (\<lambda>_ v. (Inr (recon ABSENT None Key_not_in_book), v)) = (x, w') \<Longrightarrow> ?thesis"
  proof (cases "release_absent R key ?w1")
    case (Pair y w2)
    assume t: "then_do (release_absent R key ?w1) (\<lambda>_ v. (Inr (recon ABSENT None Key_not_in_book), v)) = (x, w')"
    show ?thesis
    proof (cases y)
      case (Inl e)
      then show ?thesis using t Pair by (auto simp: release_absent_def alert_conflict_def on_ledger_def release_intent_def
          Let_def closes_def world_simps split: option.splits if_splits)
    next
      case (Inr ok)
      then show ?thesis using t Pair release_absent_closes[of R key ?w1 ok w2] closes_trans[OF same] by auto
    qed
  qed
  show ?thesis
  proof (cases answer)
    case (Inl e)
    with assms Some qb show ?thesis
      by (cases e) (auto simp: reconcile_order_def resolved_def recon_def closes_def)
  next
    case (Inr book)
    show ?thesis
    proof (cases "match_by_key key book")
      case None
      show ?thesis
      proof (cases "broker_echoes_key R")
        case True
        with assms Some qb Inr None show ?thesis by (intro released) (simp add: reconcile_order_def Let_def)
      next
        case False
        note eq = assms[unfolded reconcile_order_def Let_def] Some qb Inr None False
        show ?thesis
        proof (cases "match_by_attributes R (wl w) intent book")
          case (Inl e)
          with eq show ?thesis by (intro quiet) auto
        next
          case (Inr c)
          show ?thesis
          proof (cases c)
            case None
            with eq Inr show ?thesis by (auto simp: resolved_def recon_def closes_def)
          next
            case (Some entry)
            with eq Inr show ?thesis by (intro matched[of entry]) simp
          qed
        qed
      qed
    next
      case (Some entry)
      with assms \<open>get_order key (wl w) = Some intent\<close> qb Inr show ?thesis
        by (intro matched[of entry]) (simp add: reconcile_order_def Let_def)
    qed
  qed
qed

lemma closes_keeps: "closes key w w' \<Longrightarrow> closed_key (wl w) k \<Longrightarrow> closed_key (wl w') k"
  by (cases "k = key") (auto simp: closes_def closed_key_iff)

text \<open>What the sweep leaves: a resolved key is closed, and only a young intent is passed over.\<close>

definition passed_over :: "rat \<Rightarrow> rat \<Rightarrow> ledger \<Rightarrow> string \<Rightarrow> bool" where
  "passed_over now stale L k \<longleftrightarrow> (case row_of L k of None \<Rightarrow> True
     | Some r \<Rightarrow> now - (if or_created r = 0 then now else or_created r) < stale)"

definition swept :: "ledger \<Rightarrow> (string, reconcile_result) py_dict \<Rightarrow> bool" where
  "swept L results \<longleftrightarrow> (\<forall>k r. py_get results k = Some r \<longrightarrow> resolved r \<longrightarrow> closed_key L k)"

lemma recover_loop_sweeps:
  assumes "recover_loop R query now stale keys results w = (Inr out, w')" "swept (wl w) results"
  shows "swept (wl w') out \<and> (\<forall>k. py_get results k \<noteq> None \<longrightarrow> py_get out k \<noteq> None) \<and>
    (\<forall>k\<in>set keys. py_get out k \<noteq> None \<or> passed_over now stale (wl w) k)"
  using assms
proof (induction keys arbitrary: results w)
  case Nil
  then show ?case by simp
next
  case (Cons key keys)
  show ?case
  proof (cases "passed_over now stale (wl w) key")
    case True
    then have "recover_loop R query now stale keys results w = (Inr out, w')"
      using Cons.prems(1) by (auto simp: passed_over_def get_order_def Let_def split: option.splits)
    from Cons.IH[OF this Cons.prems(2)] True show ?thesis by auto
  next
    case False
    obtain x w1 where rc: "reconcile_order R key query w = (x, w1)" by (cases "reconcile_order R key query w")
    with False Cons.prems(1) obtain r where x: "x = Inr r"
      and rest: "recover_loop R query now stale keys (py_set results key r) w1 = (Inr out, w')"
      by (cases x) (auto simp: passed_over_def get_order_def Let_def split: option.splits)
    have cl: "closes key w w1" "resolved r \<Longrightarrow> closed_key (wl w1) key" using reconcile_closes[OF rc] x by auto
    have "swept (wl w1) (py_set results key r)"
      using Cons.prems(2) cl closes_keeps[OF cl(1)] by (auto simp: swept_def dict_simps)
    note IH = Cons.IH[OF rest this]
    have "py_get out key \<noteq> None" using IH by (auto simp: dict_simps)
    moreover have "passed_over now stale (wl w1) k \<Longrightarrow> k \<noteq> key \<Longrightarrow> passed_over now stale (wl w) k" for k
      using cl(1) by (auto simp: closes_def passed_over_def split: option.splits)
    moreover have "py_get results k \<noteq> None \<Longrightarrow> py_get out k \<noteq> None" for k
      using IH by (auto simp: dict_simps)
    ultimately show ?thesis using IH by (metis set_ConsD)
  qed
qed

text \<open>Startup recovery leaves nothing unaccounted for. When a full sweep returns, every intent
  that was open is now settled or released, or is named by the alert the sweep ends with; the
  results it returns say \<open>resolved\<close> only of closed intents. The clock must not run behind the
  row's creation time.\<close>

theorem recovery_settles_or_alerts:
  assumes "recover_unresolved R query 0 w = (Inr results, w')" "k \<in> set (unresolved (wl w))"
    and "\<forall>r. get_order k (wl w) = Some r \<longrightarrow> or_created r \<le> read_clock R w"
    and "dict_ok (orders (wl w))"
  shows "closed_key (wl w') k \<and> (\<exists>r. py_get results k = Some r) \<or>
    (\<exists>r ks. py_get results k = Some r \<and> \<not> resolved r \<and> alerts w' \<noteq> [] \<and>
       last (alerts w') = A_startup ks \<and> k \<in> set ks)"
proof -
  obtain w1 where loop: "recover_loop R query (read_clock R w) 0 (unresolved (wl w)) [] (tick w) = (Inr results, w1)"
    and w': "w' = (let ks = map fst (filter (\<lambda>(k, r). \<not> resolved r) results) in
      if ks \<noteq> [] then alert_fn (A_startup ks) w1 else w1)"
    using assms(1) by (auto simp: recover_unresolved_def then_do_def Let_def split: prod.splits sum.splits)
  have sweep: "swept (wl w1) results" "py_get results k \<noteq> None \<or> passed_over (read_clock R w) 0 (wl w) k"
    using recover_loop_sweeps[OF loop] assms(2) by (auto simp: swept_def world_simps)
  obtain row where "row_of (wl w) k = Some row"
    using assms(2,4) by (auto simp: unresolved_def py_get_iff)
  then have "\<not> passed_over (read_clock R w) 0 (wl w) k"
    using assms(3) by (auto simp: passed_over_def get_order_def)
  with sweep(2) obtain r where r: "py_get results k = Some r" by auto
  show ?thesis
  proof (cases "resolved r")
    case True
    with sweep(1) r have "closed_key (wl w1) k" by (auto simp: swept_def)
    then show ?thesis using r w' by (simp add: Let_def world_simps)
  next
    case False
    let ?ks = "map fst (filter (\<lambda>(k, r). \<not> resolved r) results)"
    have k: "k \<in> set ?ks" using py_get_SomeD[OF r] False by force
    then have "?ks \<noteq> []" by (metis empty_iff empty_set)
    then have "w' = alert_fn (A_startup ?ks) w1" using w' by (simp add: Let_def)
    then have "alerts w' \<noteq> []" "last (alerts w') = A_startup ?ks" by (simp_all add: alert_fn_def)
    with k r False show ?thesis by blast
  qed
qed

section \<open>Acknowledged orders\<close>

lemma split_commas_part: "CHR '','' \<notin> set s \<Longrightarrow> split_commas acc s = (if acc = [] \<and> s = [] then [] else [rev acc @ s])"
  by (induction s arbitrary: acc) auto

lemma split_commas_cons:
  "CHR '','' \<notin> set s \<Longrightarrow> split_commas acc (s @ CHR '','' # rest) =
     (if acc = [] \<and> s = [] then [] else [rev acc @ s]) @ split_commas [] rest"
  by (induction s arbitrary: acc) auto

text \<open>Joining identifiers and splitting the text gives them back.\<close>

lemma split_join: "\<forall>i\<in>set ids. i \<noteq> '''' \<and> CHR '','' \<notin> set i \<Longrightarrow> split_commas [] (join '','' ids) = ids"
proof (induction ids)
  case (Cons s ts)
  then show ?case by (cases ts) (simp_all add: split_commas_part split_commas_cons)
qed simp

lemma classify_placed:
  assumes "classify_broker_response v = Inr (PLACED, bid, d)"
  shows "extract_order_ids v \<noteq> [] \<and> bid = Some (join '','' (extract_order_ids v))"
  using assms by (cases v) (auto simp: Let_def split: sum.splits if_splits)

text \<open>No order is credited to two intents. Once an answer is classified \<open>PLACED\<close> and recorded, every
  broker order it acknowledged, also when the broker sliced the request into several, counts as
  linked, so attribute matching never offers a book entry with one of those ids to any intent.\<close>

theorem acknowledged_orders_never_rematched:
  assumes "classify_broker_response v = Inr (PLACED, bid, d)"
    and "\<forall>i\<in>set (extract_order_ids v). i \<noteq> '''' \<and> CHR '','' \<notin> set i"
    and "get_order key L = Some r" "or_status r \<in> {PENDING, UNKNOWN}"
    and "i \<in> set (extract_order_ids v)" "i \<in> set (extract_order_ids (V_map '''' entry))"
  shows "\<exists>L'. update_status now key PLACED bid None L = Inr (True, L') \<and>
    is_candidate window (linked_broker_order_ids L') intent entry \<noteq> Inr True"
proof -
  let ?r' = "r\<lparr>or_status := PLACED, or_broker_id := bid, or_updated := now\<rparr>"
  let ?L' = "L\<lparr>orders := py_set (orders L) key ?r'\<rparr>"
  have bid: "bid = Some (join '','' (extract_order_ids v))" using classify_placed[OF assms(1)] by simp
  have upd: "update_status now key PLACED bid None L = Inr (True, ?L')"
    using assms(3,4) by (auto simp: update_status_def get_order_def terminal_statuses_def bid Let_def)
  have "py_get (orders ?L') key = Some ?r'" by (simp add: dict_simps)
  then have row: "(key, ?r') \<in> set (orders ?L')" by (rule py_get_SomeD)
  have "i \<in> set (split_commas [] (join '','' (extract_order_ids v)))"
    using assms(5) by (simp only: split_join[OF assms(2)])
  with row have "i \<in> set (linked_broker_order_ids ?L')"
    unfolding linked_broker_order_ids_def bid by force
  then have "list_ex (\<lambda>i. i \<in> set (linked_broker_order_ids ?L')) (extract_order_ids (V_map '''' entry))"
    unfolding list_ex_iff using assms(6) by blast
  then have "is_candidate window (linked_broker_order_ids ?L') intent entry \<noteq> Inr True"
    by (auto simp: is_candidate_def split: sum.splits bool.splits)
  with upd show ?thesis by blast
qed

section \<open>Stability of keys\<close>

text \<open>Values that a restart may interchange: an integer and the float equal to it, two datetimes of one
  instant.\<close>

definition same_amount :: "py_value \<Rightarrow> py_value \<Rightarrow> bool" where
  "same_amount v v' \<longleftrightarrow> v = v' \<or>
     (\<exists>n t. \<bar>n\<bar> < 2 ^ 53 \<and> (v = V_int n \<and> v' = V_float (of_int n) t \<or> v' = V_int n \<and> v = V_float (of_int n) t))"

definition same_stamp :: "py_value \<Rightarrow> py_value \<Rightarrow> bool" where
  "same_stamp v v' \<longleftrightarrow> same_amount v v' \<or> (\<exists>a b t x y. v = V_datetime a t x \<and> v' = V_datetime b t y)"

lemma bit_length_le: "n < 2 ^ m \<Longrightarrow> bit_length n \<le> m"
proof (induction m arbitrary: n)
  case 0
  then show ?case by (simp add: bit_length.simps)
next
  case (Suc m)
  then have "n div 2 < 2 ^ m" by simp
  with Suc.IH show ?case by (simp add: bit_length.simps[of n])
qed

lemma double_of_small_int:
  assumes "\<bar>n\<bar> < 2 ^ 53"
  shows "double_of_int n = Some n"
proof -
  have "bit_length \<bar>n\<bar> - 53 = 0" using bit_length_le[OF assms] by simp
  moreover have "\<bar>n\<bar> < 2 ^ 1024"
    using assms by (rule less_le_trans) (intro power_increasing, simp_all)
  ultimately show ?thesis by (simp add: double_of_int_def Let_def sgn_mult_abs)
qed

lemma canonical_number_same: "same_amount v v' \<Longrightarrow> canonical_number v = canonical_number v'"
  by (auto simp: same_amount_def canonical_number_def float_of_int_def double_of_small_int)

lemma canonical_timestamp_same: "same_stamp v v' \<Longrightarrow> canonical_timestamp v = canonical_timestamp v'"
  by (auto simp: same_stamp_def same_amount_def canonical_timestamp_def float_of_int_def double_of_small_int)

text \<open>The key survives a restart. Requests that differ in surrounding blanks, in the case of symbol
  and side, in integers written as floats, or in the time zone of the same signal instant have
  one key, or fail alike; whatever the hash function.\<close>

theorem key_stable:
  assumes "py_strip strat = py_strip strat'" "py_upper (py_strip smb) = py_upper (py_strip smb')"
    and "py_upper (py_strip side) = py_upper (py_strip side')"
    and "same_stamp ts ts'" "same_amount q q'" "same_amount p p'"
  shows "make_idempotency_key sha strat smb side ts q p n len =
    make_idempotency_key sha strat' smb' side' ts' q' p' n len"
proof -
  have upper_char: "upper_char c \<noteq> []" for c by (simp add: upper_char_def Let_def)
  have empty: "py_upper x = '''' \<longleftrightarrow> x = ''''" for x by (cases x) (simp_all add: py_upper_def upper_char)
  have "py_strip smb = '''' \<longleftrightarrow> py_strip smb' = ''''" "py_strip side = '''' \<longleftrightarrow> py_strip side' = ''''"
    using assms(2,3) empty by metis+
  then show ?thesis
    using assms(1-3) canonical_timestamp_same[OF assms(4)] canonical_number_same[OF assms(5)] canonical_number_same[OF assms(6)]
    by (simp add: make_idempotency_key_def cong: sum.case_cong)
qed

end
