(* ===== verification/Router_Witnesses.thy ===== *)
theory Router_Witnesses
  imports Router_Outcomes
begin

text \<open>
  The router at work on a small concrete broker: a list of the keys whose orders it holds, a
  placement call that lands the order and then times out, and an order book that echoes keys.
\<close>

definition timeout_send :: "string list sender" where
  "timeout_send k m d q p s b = (Raised_exception ''ReadTimeout'' ''no answer'', b @ [k])"

definition lost_send :: "string list sender" where
  "lost_send k m d q p s b = (Raised_exception ''ConnectionError'' ''refused'', b)"

definition demo_entry :: "string \<Rightarrow> py_mapping" where
  "demo_entry k = [(''tag'', V_str k), (''status'', V_str ''OPEN''), (''order_id'', V_str ''X1'')]"

definition demo_book :: "string list querier" where
  "demo_book b = (Inr (map demo_entry b), b)"

definition demo_ep :: "string list sender \<Rightarrow> string list endpoints" where
  "demo_ep f = \<lparr>send_fn = f, book_fn = Some demo_book\<rparr>"

definition demo_router :: router where
  "demo_router = default_router (\<lambda>s. s) (\<lambda>n. of_nat n + 1)"

definition demo_order :: order_args where
  "demo_order = \<lparr>oa_strategy = ''s1'', oa_symbol = ''infy'', oa_side = ''buy'', oa_quantity = V_int 5,
     oa_price = V_int 0, oa_signal_ts = V_str ''t0'', oa_sequence = 0, oa_max_key_len = 14\<rparr>"

definition demo_run :: "string list router_event list" where
  "demo_run = [Place Runs (demo_ep lost_send) demo_order, Place Dies_after_send (demo_ep timeout_send) demo_order,
     Place Runs (demo_ep timeout_send) demo_order, Recover demo_book 0, Place Runs (demo_ep lost_send) demo_order]"

definition demo_world :: "string list world" where
  "demo_world = fold (router_step demo_router) demo_run (new_world [])"

text \<open>The orders that exist; the broker ignores an empty client key.\<close>

definition demo_landed :: "string list \<Rightarrow> string list" where
  "demo_landed b = filter (\<lambda>k. k \<noteq> '''') b"

lemma honest_sends: "sends_at_most_one demo_landed timeout_send" "sends_at_most_one demo_landed lost_send"
  by (auto simp: sends_at_most_one_def timeout_send_def lost_send_def demo_landed_def)

lemma demo_echo: "k \<noteq> '''' \<Longrightarrow> k \<in> set (client_keys (demo_entry k))"
  by (simp add: client_keys_def demo_entry_def book_client_key_fields_def client_keys_of_def py_get_def)

lemma honest_book: "lists_all_orders e demo_landed demo_book"
  by (auto simp: lists_all_orders_def demo_book_def demo_landed_def intro: demo_echo)

lemma honest_run: "list_all (honest_event demo_router demo_landed) demo_run"
  by (simp add: demo_run_def honest_event_def demo_ep_def honest_sends honest_book)
    (simp add: sends_at_most_one_def)

lemma demo_world_broker: "wb demo_world = [''s1:INFY:BUY:t0'']"
  by code_simp

theorem exactly_once_at_broker_witness:
  "distinct (demo_landed (wb demo_world)) \<and> set [''s1:INFY:BUY:t0''] \<subseteq> set (py_keys (orders (wl demo_world)))"
  using exactly_once_at_broker[OF honest_run, of "[]"]
  by (simp add: demo_world_def[symmetric] demo_world_broker) (simp add: demo_landed_def)

definition demo_row :: order_row where
  "demo_row = the (get_order ''s1:INFY:BUY:t0'' (wl demo_world))"

lemma demo_row_placed: "get_order ''s1:INFY:BUY:t0'' (wl demo_world) = Some demo_row" "or_status demo_row = PLACED"
  by code_simp+

theorem settled_intents_final_witness:
  "get_order ''s1:INFY:BUY:t0'' (wl (fold (router_step demo_router) demo_run demo_world)) = Some demo_row"
  using settled_intents_final[OF demo_row_placed(1), of demo_router demo_run] demo_row_placed(2) by simp

text \<open>A crash after a send that landed, and one after a claim that was never sent.\<close>

definition crashed_world :: "string list world" where
  "crashed_world = fold (router_step demo_router)
     [Place Dies_after_send (demo_ep timeout_send) demo_order,
      Place Dies_before_send (demo_ep timeout_send) (demo_order\<lparr>oa_sequence := 7, oa_max_key_len := 18\<rparr>)] (new_world [])"

definition demo_results :: "(string, reconcile_result) py_dict" where
  "demo_results = projr (fst (recover_unresolved demo_router demo_book 0 crashed_world))"

lemma crashed_facts:
  "unresolved (wl crashed_world) = [''s1:INFY:BUY:t0'', ''s1:INFY:BUY:t0:5.0'']"
  "or_created (the (get_order ''s1:INFY:BUY:t0:5.0'' (wl crashed_world))) \<le> read_clock demo_router crashed_world"
  "dict_ok (orders (wl crashed_world))"
  "fst (recover_unresolved demo_router demo_book 0 crashed_world) = Inr demo_results"
  by code_simp+

theorem recovery_settles_or_alerts_witness:
  "\<exists>r. py_get demo_results ''s1:INFY:BUY:t0:5.0'' = Some r"
proof -
  have "recover_unresolved demo_router demo_book 0 crashed_world =
      (Inr demo_results, snd (recover_unresolved demo_router demo_book 0 crashed_world))"
    using crashed_facts(4) by (simp add: prod_eq_iff)
  moreover have "\<forall>r. get_order ''s1:INFY:BUY:t0:5.0'' (wl crashed_world) = Some r \<longrightarrow>
      or_created r \<le> read_clock demo_router crashed_world"
    using crashed_facts(2) by (metis option.sel)
  moreover have "''s1:INFY:BUY:t0:5.0'' \<in> set (unresolved (wl crashed_world))"
    by (simp add: crashed_facts(1))
  ultimately show ?thesis
    using recovery_settles_or_alerts[of demo_router demo_book crashed_world demo_results _ "''s1:INFY:BUY:t0:5.0''"]
      crashed_facts(3) by blast
qed

text \<open>A sliced placement whose second order shows up in the book.\<close>

definition sliced :: py_value where
  "sliced = V_map '''' [(''status'', V_str ''success''),
     (''data'', V_list '''' [V_map '''' [(''order_id'', V_str ''A1'')], V_map '''' [(''order_id'', V_str ''A2'')]])]"

lemma sliced_facts:
  "classify_broker_response sliced = Inr (PLACED, Some ''A1,A2'', Acknowledged)"
  "extract_order_ids sliced = [''A1'', ''A2'']"
  "extract_order_ids (V_map '''' [(''order_id'', V_str ''A2'')]) = [''A2'']"
  "or_status (the (get_order ''s1:INFY:BUY:t0'' (wl crashed_world))) = PENDING"
  "get_order ''s1:INFY:BUY:t0'' (wl crashed_world) \<noteq> None"
  by code_simp+

theorem acknowledged_orders_never_rematched_witness:
  "\<exists>L'. update_status 9 ''s1:INFY:BUY:t0'' PLACED (Some ''A1,A2'') None (wl crashed_world) = Inr (True, L') \<and>
    is_candidate (Some 300) (linked_broker_order_ids L') demo_row [(''order_id'', V_str ''A2'')] \<noteq> Inr True"
proof -
  obtain r where r: "get_order ''s1:INFY:BUY:t0'' (wl crashed_world) = Some r"
    using sliced_facts(5) by blast
  with sliced_facts(4) have "or_status r \<in> {PENDING, UNKNOWN}" by simp
  from acknowledged_orders_never_rematched[OF sliced_facts(1) _ r this, of "''A2''" "[(''order_id'', V_str ''A2'')]"]
  show ?thesis by (simp only: sliced_facts) simp
qed

theorem key_stable_witness:
  "make_idempotency_key (\<lambda>s. s) '' s1'' ''infy '' ''buy'' (V_datetime False 0 '''') (V_int 5) (V_float 2 ''2.0'') 0 64 =
   make_idempotency_key (\<lambda>s. s) ''s1'' ''INFY'' ''Buy'' (V_datetime True 0 '''') (V_float 5 ''5.0'') (V_int 2) 0 64"
proof (rule key_stable)
  show "py_strip '' s1'' = py_strip ''s1''" "py_upper (py_strip ''infy '') = py_upper (py_strip ''INFY'')"
    "py_upper (py_strip ''buy'') = py_upper (py_strip ''Buy'')"
    by code_simp+
qed (auto simp: same_stamp_def same_amount_def)

end
