(* ===== verification/Fix_Session.thy ===== *)
theory Fix_Session
  imports Py_Value
begin

text \<open>
  Model of \<open>skills/fix-protocol-session-management-across-venues/scripts/
  fix_protocol_session_management_across_venues.py\<close>: the session layer of a FIX connection,
  with logon, logout, sequence numbers in both directions, gaps, resends and liveness. The
  engine does no input or output; it returns the messages to transmit. Its clock is part of
  the configuration, and the state counts the readings made of it. The notes of an audit
  report, text for the log, are left out.
\<close>

section \<open>Constants and messages\<close>

definition MSG_HEARTBEAT :: string where "MSG_HEARTBEAT = ''0''"
definition MSG_TEST_REQUEST :: string where "MSG_TEST_REQUEST = ''1''"
definition MSG_RESEND_REQUEST :: string where "MSG_RESEND_REQUEST = ''2''"
definition MSG_REJECT :: string where "MSG_REJECT = ''3''"
definition MSG_SEQUENCE_RESET :: string where "MSG_SEQUENCE_RESET = ''4''"
definition MSG_LOGOUT :: string where "MSG_LOGOUT = ''5''"
definition MSG_LOGON :: string where "MSG_LOGON = ''A''"

lemmas msg_type_defs = MSG_HEARTBEAT_def MSG_TEST_REQUEST_def MSG_RESEND_REQUEST_def MSG_REJECT_def
  MSG_SEQUENCE_RESET_def MSG_LOGOUT_def MSG_LOGON_def

definition admin_msg_types :: "string list" where
  "admin_msg_types = [MSG_HEARTBEAT, MSG_TEST_REQUEST, MSG_RESEND_REQUEST, MSG_REJECT,
     MSG_SEQUENCE_RESET, MSG_LOGOUT, MSG_LOGON]"

definition TAG_BEGIN_SEQ_NO :: int where "TAG_BEGIN_SEQ_NO = 7"
definition TAG_END_SEQ_NO :: int where "TAG_END_SEQ_NO = 16"
definition TAG_NEW_SEQ_NO :: int where "TAG_NEW_SEQ_NO = 36"
definition TAG_TEXT :: int where "TAG_TEXT = 58"
definition TAG_ENCRYPT_METHOD :: int where "TAG_ENCRYPT_METHOD = 98"
definition TAG_HEART_BT_INT :: int where "TAG_HEART_BT_INT = 108"
definition TAG_TEST_REQ_ID :: int where "TAG_TEST_REQ_ID = 112"
definition TAG_ORIG_SENDING_TIME :: int where "TAG_ORIG_SENDING_TIME = 122"
definition TAG_GAP_FILL_FLAG :: int where "TAG_GAP_FILL_FLAG = 123"
definition TAG_RESET_SEQ_NUM_FLAG :: int where "TAG_RESET_SEQ_NUM_FLAG = 141"

lemmas tag_defs = TAG_BEGIN_SEQ_NO_def TAG_END_SEQ_NO_def TAG_NEW_SEQ_NO_def TAG_TEXT_def TAG_ENCRYPT_METHOD_def
  TAG_HEART_BT_INT_def TAG_TEST_REQ_ID_def TAG_ORIG_SENDING_TIME_def TAG_GAP_FILL_FLAG_def TAG_RESET_SEQ_NUM_FLAG_def

datatype fix_state = DISCONNECTED | LOGON_SENT | LOGGED_IN | RESEND_REQUEST_SENT | LOGOUT_SENT

definition established_states :: "fix_state list" where
  "established_states = [LOGGED_IN, RESEND_REQUEST_SENT]"

datatype audit_status =
  SESSION_ACTIVE | RESEND_REQUEST_ISSUED | SESSION_TERMINATED | MESSAGE_DISCARDED | MESSAGE_REJECTED

definition END_SEQ_NO_INFINITY :: string where "END_SEQ_NO_INFINITY = ''0''"

type_synonym fix_body = "(int, string) py_dict"

record fix_message =
  msg_type :: string
  msg_seq_num :: int
  sender_comp_id :: string
  target_comp_id :: string
  sending_time :: string
  body_fields :: fix_body
  poss_dup_flag :: bool

record fix_config =
  session_id :: string
  our_comp_id :: string
  peer_comp_id :: string
  heartbeat_interval_sec :: int
  auto_resend_on_gap :: bool
  test_request_multiplier :: rat
  disconnect_multiplier :: rat
  resend_buffer_size :: int
  validate_comp_ids :: bool
  fix_clock :: "nat \<Rightarrow> rat"

text \<open>\<open>__post_init__\<close>: \<open>None\<close> is the \<open>ValueError\<close>.\<close>

definition make_fix_config :: "fix_config \<Rightarrow> fix_config option" where
  "make_fix_config C =
     (if heartbeat_interval_sec C < 0 then None
      else if test_request_multiplier C \<le> 1 then None
      else if disconnect_multiplier C \<le> test_request_multiplier C then None
      else if resend_buffer_size C < 1 then None
      else Some C)"

definition truncate_rat :: "rat \<Rightarrow> int" where
  "truncate_rat r = (if r < 0 then - \<lfloor>- r\<rfloor> else \<lfloor>r\<rfloor>)"

definition fix_utc_timestamp :: "rat \<Rightarrow> string" where
  "fix_utc_timestamp epoch =
     (let whole0 = truncate_rat epoch;
          millis0 = round_half_even ((epoch - of_int whole0) * 1000);
          (whole, millis) = (if millis0 \<ge> 1000 then (whole0 + 1, 0) else (whole0, millis0));
          (y, m, d) = civil_date (whole div 86400);
          s = whole mod 86400
      in pad_int 4 y @ pad_int 2 m @ pad_int 2 d @ ''-'' @ pad_int 2 (s div 3600) @ '':'' @
         pad_int 2 (s div 60 mod 60) @ '':'' @ pad_int 2 (s mod 60) @ ''.'' @ pad_int 3 millis)"

text \<open>\<open>int(text)\<close> of a string; \<open>None\<close> is \<open>ValueError\<close>.\<close>

definition parse_int :: "string \<Rightarrow> int option" where
  "parse_int s =
     (let (neg, body) = take_sign (py_strip s); (ds, rest) = take_digits body in
      if ds = [] \<or> rest \<noteq> [] then None
      else Some (if neg then - dec_value 0 ds else dec_value 0 ds))"

definition parse_int_tag :: "fix_body \<Rightarrow> int \<Rightarrow> int option" where
  "parse_int_tag body tag = (case py_get body tag of None \<Rightarrow> None | Some raw \<Rightarrow> parse_int raw)"

text \<open>\<open>str(body.get(tag, "N")).upper() == "Y"\<close>.\<close>

definition flag_set :: "fix_body \<Rightarrow> int \<Rightarrow> bool" where
  "flag_set body tag = (py_upper (case py_get body tag of None \<Rightarrow> ''N'' | Some s \<Rightarrow> s) = ''Y'')"

definition is_gap_fill :: "fix_message \<Rightarrow> bool" where
  "is_gap_fill m = flag_set (body_fields m) TAG_GAP_FILL_FLAG"

definition body_text :: "fix_body \<Rightarrow> int \<Rightarrow> string" where
  "body_text body tag = (case py_get body tag of None \<Rightarrow> '''' | Some s \<Rightarrow> s)"

section \<open>The engine\<close>

record fix_engine =
  session_state :: fix_state
  out_seq_num :: int
  expected_in_seq_num :: int
  last_sent_time :: rat
  last_recv_time :: rat
  sent_messages :: "(int, fix_message) py_dict"
  last_sent_type :: "string option"
  last_recv_type :: "string option"
  outstanding_test_req_id :: "string option"
  test_request_counter :: nat
  clock_reads :: nat

record session_report =
  ar_session_id :: string
  ar_state :: fix_state
  ar_out_seq_num :: int
  ar_expected_in_seq_num :: int
  ar_gap_detected :: bool
  ar_last_sent_type :: "string option"
  ar_last_recv_type :: "string option"
  ar_status :: audit_status
  ar_responses :: "fix_message list"

definition read_time :: "fix_config \<Rightarrow> fix_engine \<Rightarrow> rat \<times> fix_engine" where
  "read_time C e = (fix_clock C (clock_reads e), e\<lparr>clock_reads := Suc (clock_reads e)\<rparr>)"

definition new_engine :: "fix_config \<Rightarrow> fix_engine" where
  "new_engine C = \<lparr>session_state = DISCONNECTED, out_seq_num = 1, expected_in_seq_num = 1,
     last_sent_time = fix_clock C 0, last_recv_time = fix_clock C 0, sent_messages = [],
     last_sent_type = None, last_recv_type = None, outstanding_test_req_id = None,
     test_request_counter = 0, clock_reads = 1\<rparr>"

definition audit ::
    "fix_config \<Rightarrow> audit_status \<Rightarrow> bool \<Rightarrow> string \<Rightarrow> fix_message list \<Rightarrow> fix_engine \<Rightarrow> session_report \<times> fix_engine" where
  "audit C status gap recv_type responses e =
     (\<lparr>ar_session_id = session_id C, ar_state = session_state e, ar_out_seq_num = out_seq_num e,
       ar_expected_in_seq_num = expected_in_seq_num e, ar_gap_detected = gap,
       ar_last_sent_type = last_sent_type e, ar_last_recv_type = Some recv_type,
       ar_status = status, ar_responses = responses\<rparr>, e)"

definition trim_resend_buffer :: "fix_config \<Rightarrow> (int, fix_message) py_dict \<Rightarrow> (int, fix_message) py_dict" where
  "trim_resend_buffer C sent =
     (let excess = int (length sent) - resend_buffer_size C in
      if excess > 0 then fold (\<lambda>seq d. py_del d seq) (take (nat excess) (sort (py_keys sent))) sent
      else sent)"

definition create_outbound_msg ::
    "fix_config \<Rightarrow> string \<Rightarrow> fix_body \<Rightarrow> fix_engine \<Rightarrow> fix_message \<times> fix_engine" where
  "create_outbound_msg C typ body e =
     (let (now, e1) = read_time C e;
          msg = \<lparr>msg_type = typ, msg_seq_num = out_seq_num e, sender_comp_id = our_comp_id C,
                 target_comp_id = peer_comp_id C, sending_time = fix_utc_timestamp now,
                 body_fields = body, poss_dup_flag = False\<rparr>;
          (sent_at, e2) = read_time C e1
      in (msg, e2\<lparr>sent_messages := trim_resend_buffer C (py_set (sent_messages e) (out_seq_num e) msg),
                  out_seq_num := out_seq_num e + 1, last_sent_type := Some typ,
                  last_sent_time := sent_at\<rparr>))"

definition initiate_logon :: "fix_config \<Rightarrow> bool \<Rightarrow> fix_engine \<Rightarrow> fix_message \<times> fix_engine" where
  "initiate_logon C reset_seq_num e =
     (let body = [(TAG_HEART_BT_INT, dec_int (heartbeat_interval_sec C)), (TAG_ENCRYPT_METHOD, ''0'')];
          body' = (if reset_seq_num then py_set body TAG_RESET_SEQ_NUM_FLAG ''Y'' else body);
          e1 = (if reset_seq_num
                then e\<lparr>out_seq_num := 1, expected_in_seq_num := 1, sent_messages := []\<rparr> else e);
          (logon, e2) = create_outbound_msg C MSG_LOGON body' e1
      in (logon, e2\<lparr>session_state := LOGON_SENT\<rparr>))"

definition initiate_logout :: "fix_config \<Rightarrow> string \<Rightarrow> fix_engine \<Rightarrow> fix_message \<times> fix_engine" where
  "initiate_logout C reason e =
     (let (logout, e1) = create_outbound_msg C MSG_LOGOUT [(TAG_TEXT, reason)] e
      in (logout, e1\<lparr>session_state := LOGOUT_SENT\<rparr>))"

section \<open>Liveness\<close>

text \<open>The two halves of \<open>check_liveness\<close>: the idle heartbeat, then the probe.\<close>

definition heartbeat_due :: "fix_config \<Rightarrow> rat \<Rightarrow> fix_engine \<Rightarrow> fix_message list \<times> fix_engine" where
  "heartbeat_due C now e =
     (if now - last_sent_time e \<ge> of_int (heartbeat_interval_sec C)
      then (let (hb, e1) = create_outbound_msg C MSG_HEARTBEAT [] e in ([hb], e1))
      else ([], e))"

definition test_request_due :: "fix_config \<Rightarrow> rat \<Rightarrow> fix_engine \<Rightarrow> fix_message list \<times> fix_engine" where
  "test_request_due C now e =
     (if outstanding_test_req_id e = None \<and>
         now - last_recv_time e \<ge> of_int (heartbeat_interval_sec C) * test_request_multiplier C
      then
        (let n = Suc (test_request_counter e);
             rid = ''TR-'' @ session_id C @ ''-'' @ dec_nat n;
             e1 = e\<lparr>test_request_counter := n, outstanding_test_req_id := Some rid\<rparr>;
             (tr, e2) = create_outbound_msg C MSG_TEST_REQUEST [(TAG_TEST_REQ_ID, rid)] e1
         in ([tr], e2))
      else ([], e))"

definition time_or_clock :: "fix_config \<Rightarrow> rat option \<Rightarrow> fix_engine \<Rightarrow> rat \<times> fix_engine" where
  "time_or_clock C now e = (case now of None \<Rightarrow> read_time C e | Some t \<Rightarrow> (t, e))"

definition check_liveness :: "fix_config \<Rightarrow> rat option \<Rightarrow> fix_engine \<Rightarrow> fix_message list \<times> fix_engine" where
  "check_liveness C now e =
     (if session_state e \<notin> set established_states then ([], e)
      else if heartbeat_interval_sec C \<le> 0 then ([], e)
      else
        (let (t, e1) = time_or_clock C now e;
             (hb, e2) = heartbeat_due C t e1;
             (tr, e3) = test_request_due C t e2
         in (hb @ tr, e3)))"

definition is_timed_out :: "fix_config \<Rightarrow> rat option \<Rightarrow> fix_engine \<Rightarrow> bool \<times> fix_engine" where
  "is_timed_out C now e =
     (if session_state e \<notin> set established_states then (False, e)
      else if heartbeat_interval_sec C \<le> 0 then (False, e)
      else
        (let (t, e1) = time_or_clock C now e
         in (t - last_recv_time e \<ge> of_int (heartbeat_interval_sec C) * disconnect_multiplier C, e1)))"

section \<open>Resend\<close>

definition flush_gap :: "fix_config \<Rightarrow> int option \<Rightarrow> int \<Rightarrow> fix_engine \<Rightarrow> fix_message list \<times> fix_engine" where
  "flush_gap C gap_start next_expected e = (case gap_start of
     None \<Rightarrow> ([], e)
   | Some g \<Rightarrow>
       (let (now, e1) = read_time C e in
        ([\<lparr>msg_type = MSG_SEQUENCE_RESET, msg_seq_num = g, sender_comp_id = our_comp_id C,
           target_comp_id = peer_comp_id C, sending_time = fix_utc_timestamp now,
           body_fields = [(TAG_GAP_FILL_FLAG, ''Y''), (TAG_NEW_SEQ_NO, dec_int next_expected)],
           poss_dup_flag = True\<rparr>], e1)))"

definition replay_of :: "fix_config \<Rightarrow> fix_message \<Rightarrow> fix_engine \<Rightarrow> fix_message \<times> fix_engine" where
  "replay_of C original e =
     (let (now, e1) = read_time C e in
      (original\<lparr>sending_time := fix_utc_timestamp now,
         body_fields := py_set (body_fields original) TAG_ORIG_SENDING_TIME (sending_time original),
         poss_dup_flag := True\<rparr>, e1))"

fun resend_loop ::
    "fix_config \<Rightarrow> int list \<Rightarrow> int \<Rightarrow> int option \<Rightarrow> fix_message list \<Rightarrow> fix_engine \<Rightarrow> fix_message list \<times> fix_engine" where
  "resend_loop C [] end_seq gap_start responses e =
     (let (flushed, e1) = flush_gap C gap_start (end_seq + 1) e in (responses @ flushed, e1))"
| "resend_loop C (seq # seqs) end_seq gap_start responses e =
     (case py_get (sent_messages e) seq of
        None \<Rightarrow> resend_loop C seqs end_seq (Some (case gap_start of None \<Rightarrow> seq | Some g \<Rightarrow> g)) responses e
      | Some original \<Rightarrow>
          (if msg_type original \<in> set admin_msg_types
           then resend_loop C seqs end_seq (Some (case gap_start of None \<Rightarrow> seq | Some g \<Rightarrow> g)) responses e
           else
             (let (flushed, e1) = flush_gap C gap_start seq e;
                  (replay, e2) = replay_of C original e1
              in resend_loop C seqs end_seq None (responses @ flushed @ [replay]) e2)))"

definition build_resend_response :: "fix_config \<Rightarrow> int \<Rightarrow> int \<Rightarrow> fix_engine \<Rightarrow> fix_message list \<times> fix_engine" where
  "build_resend_response C begin_seq_no end_seq_no e =
     (let end_seq = (if end_seq_no \<le> 0 \<or> end_seq_no \<ge> out_seq_num e then out_seq_num e - 1 else end_seq_no) in
      if begin_seq_no < 1 \<or> begin_seq_no > end_seq then ([], e)
      else resend_loop C [begin_seq_no..end_seq] end_seq None [] e)"

section \<open>Inbound messages\<close>

text \<open>A message is created and the session goes to a new state, or stays in its own.\<close>

definition reply_with ::
    "fix_config \<Rightarrow> string \<Rightarrow> fix_body \<Rightarrow> (fix_state \<Rightarrow> fix_state) \<Rightarrow> audit_status \<Rightarrow> bool \<Rightarrow> string \<Rightarrow>
     fix_engine \<Rightarrow> session_report \<times> fix_engine" where
  "reply_with C typ body next_state status gap recv_type e =
     (let (msg, e1) = create_outbound_msg C typ body e
      in audit C status gap recv_type [msg] (e1\<lparr>session_state := next_state (session_state e1)\<rparr>))"

definition resend_request_body :: "int \<Rightarrow> fix_body" where
  "resend_request_body begin_seq = [(TAG_BEGIN_SEQ_NO, dec_int begin_seq), (TAG_END_SEQ_NO, END_SEQ_NO_INFINITY)]"

definition handle_seq_too_low :: "fix_config \<Rightarrow> fix_message \<Rightarrow> fix_engine \<Rightarrow> session_report \<times> fix_engine" where
  "handle_seq_too_low C m e =
     reply_with C MSG_LOGOUT
       [(TAG_TEXT, ''MsgSeqNum too low, expecting '' @ dec_int (expected_in_seq_num e) @
          '' but received '' @ dec_int (msg_seq_num m))]
       (\<lambda>_. LOGOUT_SENT) SESSION_TERMINATED True (msg_type m) e"

definition handle_logon :: "fix_config \<Rightarrow> fix_message \<Rightarrow> fix_engine \<Rightarrow> session_report \<times> fix_engine" where
  "handle_logon C m e0 =
     (let e = (if flag_set (body_fields m) TAG_RESET_SEQ_NUM_FLAG then e0\<lparr>expected_in_seq_num := 1\<rparr> else e0) in
      if msg_seq_num m < expected_in_seq_num e \<and> \<not> poss_dup_flag m then handle_seq_too_low C m e
      else
        (let e1 = e\<lparr>session_state := LOGGED_IN, outstanding_test_req_id := None\<rparr> in
         if msg_seq_num m > expected_in_seq_num e1 then
           (if \<not> auto_resend_on_gap C then audit C SESSION_ACTIVE True MSG_LOGON [] e1
            else reply_with C MSG_RESEND_REQUEST (resend_request_body (expected_in_seq_num e1))
                   (\<lambda>_. RESEND_REQUEST_SENT) RESEND_REQUEST_ISSUED True MSG_LOGON e1)
         else audit C SESSION_ACTIVE False MSG_LOGON [] (e1\<lparr>expected_in_seq_num := msg_seq_num m + 1\<rparr>)))"

definition resynchronised :: "fix_state \<Rightarrow> fix_state" where
  "resynchronised s = (if s = RESEND_REQUEST_SENT then LOGGED_IN else s)"

definition handle_sequence_reset_mode :: "fix_config \<Rightarrow> fix_message \<Rightarrow> fix_engine \<Rightarrow> session_report \<times> fix_engine" where
  "handle_sequence_reset_mode C m e =
     (case parse_int_tag (body_fields m) TAG_NEW_SEQ_NO of
        None \<Rightarrow> audit C MESSAGE_REJECTED False MSG_SEQUENCE_RESET [] e
      | Some new_seq \<Rightarrow>
          (if new_seq \<le> expected_in_seq_num e then
             reply_with C MSG_REJECT
               [(TAG_TEXT, ''NewSeqNo '' @ dec_int new_seq @ '' is not greater than expected '' @
                   dec_int (expected_in_seq_num e))]
               (\<lambda>s. s) MESSAGE_REJECTED False MSG_SEQUENCE_RESET e
           else audit C SESSION_ACTIVE False MSG_SEQUENCE_RESET []
             (e\<lparr>expected_in_seq_num := new_seq, session_state := resynchronised (session_state e)\<rparr>)))"

definition handle_gap :: "fix_config \<Rightarrow> fix_message \<Rightarrow> fix_engine \<Rightarrow> session_report \<times> fix_engine" where
  "handle_gap C m e =
     (if session_state e = RESEND_REQUEST_SENT \<or> \<not> auto_resend_on_gap C then
        audit C (if auto_resend_on_gap C then RESEND_REQUEST_ISSUED else MESSAGE_DISCARDED) True (msg_type m) [] e
      else
        reply_with C MSG_RESEND_REQUEST (resend_request_body (expected_in_seq_num e))
          (\<lambda>_. RESEND_REQUEST_SENT) RESEND_REQUEST_ISSUED True (msg_type m) e)"

definition handle_gap_fill :: "fix_config \<Rightarrow> fix_message \<Rightarrow> fix_engine \<Rightarrow> session_report \<times> fix_engine" where
  "handle_gap_fill C m e =
     (let new_seq = parse_int_tag (body_fields m) TAG_NEW_SEQ_NO in
      if new_seq = None \<or> the new_seq \<le> expected_in_seq_num e then
        reply_with C MSG_REJECT [(TAG_TEXT, ''Invalid NewSeqNo in SequenceReset-GapFill'')]
          (\<lambda>s. s) MESSAGE_REJECTED False MSG_SEQUENCE_RESET e
      else audit C SESSION_ACTIVE False MSG_SEQUENCE_RESET []
        (e\<lparr>expected_in_seq_num := the new_seq, session_state := resynchronised (session_state e)\<rparr>))"

definition handle_resend_request :: "fix_config \<Rightarrow> fix_message \<Rightarrow> fix_engine \<Rightarrow> session_report \<times> fix_engine" where
  "handle_resend_request C m e =
     (case (parse_int_tag (body_fields m) TAG_BEGIN_SEQ_NO, parse_int_tag (body_fields m) TAG_END_SEQ_NO) of
        (Some b, Some n) \<Rightarrow>
          (let (retransmission, e1) = build_resend_response C b n e
           in audit C SESSION_ACTIVE False MSG_RESEND_REQUEST retransmission e1)
      | _ \<Rightarrow> reply_with C MSG_REJECT [(TAG_TEXT, ''Invalid BeginSeqNo/EndSeqNo in ResendRequest'')]
               (\<lambda>s. s) MESSAGE_REJECTED False MSG_RESEND_REQUEST e)"

definition handle_in_sequence :: "fix_config \<Rightarrow> fix_message \<Rightarrow> fix_engine \<Rightarrow> session_report \<times> fix_engine" where
  "handle_in_sequence C m e0 =
     (if msg_type m = MSG_SEQUENCE_RESET then handle_gap_fill C m e0
      else
        (let e = e0\<lparr>expected_in_seq_num := msg_seq_num m + 1\<rparr>; rid = body_text (body_fields m) TAG_TEST_REQ_ID in
         if msg_type m = MSG_TEST_REQUEST then
           reply_with C MSG_HEARTBEAT (if rid \<noteq> '''' then [(TAG_TEST_REQ_ID, rid)] else [])
             (\<lambda>s. s) SESSION_ACTIVE False MSG_TEST_REQUEST e
         else if msg_type m = MSG_HEARTBEAT then
           audit C SESSION_ACTIVE False MSG_HEARTBEAT []
             (if outstanding_test_req_id e = Some rid \<and> rid \<noteq> '''' then e\<lparr>outstanding_test_req_id := None\<rparr> else e)
         else if msg_type m = MSG_RESEND_REQUEST then handle_resend_request C m e
         else if msg_type m = MSG_LOGOUT then
           (if session_state e \<noteq> LOGOUT_SENT
            then reply_with C MSG_LOGOUT [(TAG_TEXT, ''Logout acknowledged'')]
                   (\<lambda>_. DISCONNECTED) SESSION_TERMINATED False MSG_LOGOUT e
            else audit C SESSION_TERMINATED False MSG_LOGOUT [] (e\<lparr>session_state := DISCONNECTED\<rparr>))
         else audit C SESSION_ACTIVE False (msg_type m) [] e))"

definition comp_ids_match :: "fix_config \<Rightarrow> fix_message \<Rightarrow> bool" where
  "comp_ids_match C m \<longleftrightarrow> sender_comp_id m = peer_comp_id C \<and> target_comp_id m = our_comp_id C"

definition note_receipt :: "fix_config \<Rightarrow> fix_message \<Rightarrow> fix_engine \<Rightarrow> fix_engine" where
  "note_receipt C m e =
     (let (now, e1) = read_time C e in e1\<lparr>last_recv_type := Some (msg_type m), last_recv_time := now\<rparr>)"

definition process_locked :: "fix_config \<Rightarrow> fix_message \<Rightarrow> fix_engine \<Rightarrow> session_report \<times> fix_engine" where
  "process_locked C m e0 =
     (if session_state e0 = DISCONNECTED \<and> msg_type m \<noteq> MSG_LOGON then
        audit C SESSION_TERMINATED False (msg_type m) [] e0
      else if validate_comp_ids C \<and> \<not> comp_ids_match C m then
        reply_with C MSG_LOGOUT [(TAG_TEXT, ''CompID mismatch'')] (\<lambda>_. LOGOUT_SENT)
          SESSION_TERMINATED False (msg_type m) e0
      else
        (let e = note_receipt C m e0 in
         if msg_type m = MSG_LOGON then
           (if session_state e \<in> {DISCONNECTED, LOGON_SENT} then handle_logon C m e
            else reply_with C MSG_LOGOUT [(TAG_TEXT, ''Unexpected Logon on established session'')]
                   (\<lambda>_. LOGOUT_SENT) SESSION_TERMINATED False MSG_LOGON e)
         else if msg_type m = MSG_SEQUENCE_RESET \<and> \<not> is_gap_fill m then handle_sequence_reset_mode C m e
         else if poss_dup_flag m \<and> msg_seq_num m < expected_in_seq_num e then
           audit C MESSAGE_DISCARDED False (msg_type m) [] e
         else if msg_seq_num m > expected_in_seq_num e then handle_gap C m e
         else if msg_seq_num m < expected_in_seq_num e then handle_seq_too_low C m e
         else handle_in_sequence C m e))"

definition process_inbound_msg ::
    "fix_config \<Rightarrow> fix_message \<Rightarrow> fix_engine \<Rightarrow> (session_report \<times> fix_message option) \<times> fix_engine" where
  "process_inbound_msg C m e =
     (let (report, e1) = process_locked C m e
      in ((report, case ar_responses report of [] \<Rightarrow> None | r # _ \<Rightarrow> Some r), e1))"

section \<open>Events\<close>

datatype fix_event =
    Logon bool
  | Logout string
  | Send string fix_body
  | Receive fix_message
  | Poll "rat option"
  | Ask_timeout "rat option"

fun fix_step :: "fix_config \<Rightarrow> fix_event \<Rightarrow> fix_engine \<Rightarrow> fix_engine" where
  "fix_step C (Logon reset) e = snd (initiate_logon C reset e)"
| "fix_step C (Logout reason) e = snd (initiate_logout C reason e)"
| "fix_step C (Send typ body) e = snd (create_outbound_msg C typ body e)"
| "fix_step C (Receive m) e = snd (process_inbound_msg C m e)"
| "fix_step C (Poll now) e = snd (check_liveness C now e)"
| "fix_step C (Ask_timeout now) e = snd (is_timed_out C now e)"

end
