(* ===== verification/Fix_Buffer.thy ===== *)
theory Fix_Buffer
  imports Fix_Session
begin

text \<open>
  The outbound side of the FIX engine: the resend buffer is always the window of the most
  recent messages, and the answer to a resend request tiles the requested range, replaying the
  application messages under their numbers and filling the rest. Numbers printed into a body
  parse back (\<open>parse_int_dec\<close>).
\<close>

section \<open>Printing and parsing integers\<close>

lemma take_digits_all: "list_all is_dec s \<Longrightarrow> take_digits s = (s, [])"
proof (induction s)
  case (Cons c cs)
  then show ?case
  proof (cases cs)
    case (Cons u ds)
    have "u \<noteq> CHR ''_''" using Cons.prems Cons by (auto simp: is_dec_def Let_def)
    then show ?thesis using Cons Cons.prems Cons.IH by (cases ds) auto
  qed simp
qed simp

lemma dec_value_snoc: "dec_value a (s @ [c]) = 10 * dec_value a s + (of_char c - 48)"
  by (induction a s rule: dec_value.induct) simp_all

lemma dec_digits_ok: "0 \<le> n \<Longrightarrow> list_all is_dec (dec_digits n) \<and> dec_value 0 (dec_digits n) = n \<and> dec_digits n \<noteq> []"
proof (induction n rule: dec_digits.induct)
  case (1 n)
  show ?case
  proof (cases "n < 10")
    case True
    with 1(2) digit_char[of n] show ?thesis by (simp add: dec_digits.simps)
  next
    case False
    with 1(1)[OF False] 1(2) have "list_all is_dec (dec_digits (n div 10))" "dec_value 0 (dec_digits (n div 10)) = n div 10"
      by auto
    moreover have "is_dec (char_of (48 + n mod 10))" "(of_char (char_of (48 + n mod 10)) :: int) = 48 + n mod 10"
      using digit_char[of "n mod 10"] by auto
    moreover have "dec_digits n = dec_digits (n div 10) @ [char_of (48 + n mod 10)]"
      using False by (simp add: dec_digits.simps)
    ultimately show ?thesis by (simp add: dec_value_snoc)
  qed
qed

lemma digits_solid: "list_all is_dec s \<Longrightarrow> list_all (\<lambda>c. \<not> is_space c) s"
  using is_dec_not_space by (auto simp: list_all_iff)

lemma digits_unsigned: "list_all is_dec s \<Longrightarrow> take_sign s = (False, s)"
  by (cases s) (auto simp: take_sign_def is_dec_def Let_def)

lemma parse_int_dec: "parse_int (dec_int n) = Some n"
proof (cases "n < 0")
  case True
  then have d: "list_all is_dec (dec_digits (- n))" "dec_value 0 (dec_digits (- n)) = - n" "dec_digits (- n) \<noteq> []"
    using dec_digits_ok[of "- n"] by auto
  have "\<not> is_space (CHR ''-'')" by (simp add: is_space_def)
  with d(1) have "py_strip (dec_int n) = dec_int n"
    using True by (intro strip_solid) (simp add: dec_int_def digits_solid)
  then show ?thesis using True d by (simp add: parse_int_def dec_int_def take_sign_def take_digits_all)
next
  case False
  then have d: "list_all is_dec (dec_digits n)" "dec_value 0 (dec_digits n) = n" "dec_digits n \<noteq> []"
    using dec_digits_ok[of n] by auto
  then show ?thesis using False
    by (simp add: parse_int_def dec_int_def strip_solid[OF digits_solid] digits_unsigned take_digits_all)
qed

section \<open>The window of retained messages\<close>

text \<open>An engine whose buffer holds the last messages sent, each under its number, at most as many as
  the buffer may keep.\<close>

definition window_start :: "fix_config \<Rightarrow> int \<Rightarrow> int" where
  "window_start C n = max 1 (n - resend_buffer_size C)"

definition stored_ok :: "fix_config \<Rightarrow> (int, fix_message) py_dict \<Rightarrow> bool" where
  "stored_ok C sent \<longleftrightarrow> (\<forall>k m. py_get sent k = Some m \<longrightarrow> msg_seq_num m = k \<and> \<not> poss_dup_flag m \<and>
     sender_comp_id m = our_comp_id C \<and> target_comp_id m = peer_comp_id C)"

definition window_ok :: "fix_config \<Rightarrow> fix_engine \<Rightarrow> bool" where
  "window_ok C e \<longleftrightarrow> dict_ok (sent_messages e) \<and> 1 \<le> out_seq_num e \<and>
     set (py_keys (sent_messages e)) = {window_start C (out_seq_num e)..<out_seq_num e} \<and>
     stored_ok C (sent_messages e)"

lemma del_all: "py_get (fold (\<lambda>k d. py_del d k) ks d) k' = (if k' \<in> set ks then None else py_get d k')"
  by (induction ks arbitrary: d) (auto simp: dict_simps)

lemma del_all_ok: "dict_ok d \<Longrightarrow> dict_ok (fold (\<lambda>k d. py_del d k) ks d)"
  by (induction ks arbitrary: d) auto

lemma keys_get: "set (py_keys d) = {k. py_get d k \<noteq> None}"
  by (auto simp: py_get_None_iff)

lemma sorted_keys_interval: "dict_ok d \<Longrightarrow> set (py_keys d) = {a..b} \<Longrightarrow> sort (py_keys d) = [a..b]" for a b :: int
  by (rule sorted_distinct_set_unique) (auto simp: dict_ok_def)

lemma take_interval: "0 \<le> n \<Longrightarrow> a + n \<le> b + 1 \<Longrightarrow> set (take (nat n) [a..b]) = {a..<a + n}" for a b n :: int
proof (cases "a + n \<le> b")
  case True
  assume "0 \<le> n"
  then have "[a..b] = [a..a + n - 1] @ [a + n..b]" using True by (intro upto_split1) auto
  then have "take (nat n) [a..b] = [a..a + n - 1]" using \<open>0 \<le> n\<close> by simp
  then show ?thesis by auto
next
  case False
  assume "0 \<le> n" "a + n \<le> b + 1"
  with False have "take (nat n) [a..b] = [a..b]" "b = a + n - 1" by auto
  then show ?thesis by auto
qed

lemma create_window:
  assumes "window_ok C e" "1 \<le> resend_buffer_size C" "create_outbound_msg C ty body e = (m, e')"
  shows "window_ok C e'"
proof -
  let ?n = "out_seq_num e" and ?lo = "window_start C (out_seq_num e)"
  let ?d = "py_set (sent_messages e) ?n m"
  have m: "msg_seq_num m = ?n" "\<not> poss_dup_flag m" "sender_comp_id m = our_comp_id C" "target_comp_id m = peer_comp_id C"
    and e': "sent_messages e' = trim_resend_buffer C ?d" "out_seq_num e' = ?n + 1"
    using assms(3) by (auto simp: create_outbound_msg_def read_time_def Let_def)
  have lo: "?lo \<le> ?n" "1 \<le> ?n" using assms(1,2) by (auto simp: window_start_def window_ok_def)
  have d: "dict_ok ?d" "set (py_keys ?d) = {?lo..?n}" "stored_ok C ?d"
    using assms(1) m lo by (auto simp: window_ok_def py_keys_set stored_ok_def dict_simps)
  have len: "int (length ?d) = ?n + 1 - ?lo"
    using d(1,2) lo distinct_card[of "py_keys ?d"] by (simp add: dict_ok_def)
  have keys: "set (py_keys (trim_resend_buffer C ?d)) = {window_start C (?n + 1)..<?n + 1}"
  proof (cases "int (length ?d) > resend_buffer_size C")
    case True
    let ?x = "int (length ?d) - resend_buffer_size C"
    have x: "0 \<le> ?x" "?lo + ?x \<le> ?n + 1" "?lo + ?x = window_start C (?n + 1)"
      using True len lo assms(2) by (auto simp: window_start_def max_def split: if_splits)
    have "set (take (nat ?x) (sort (py_keys ?d))) = {?lo..<?lo + ?x}"
      using take_interval[OF x(1,2)] sorted_keys_interval[OF d(1,2)] by simp
    moreover have "trim_resend_buffer C ?d = fold (\<lambda>k d. py_del d k) (take (nat ?x) (sort (py_keys ?d))) ?d"
      using True by (simp add: trim_resend_buffer_def Let_def)
    ultimately have "k \<in> set (py_keys (trim_resend_buffer C ?d)) \<longleftrightarrow> k \<in> {?lo..?n} \<and> k \<notin> {?lo..<?lo + ?x}" for k
      unfolding keys_get using d(2)[unfolded keys_get] by (auto simp: del_all)
    then have "k \<in> set (py_keys (trim_resend_buffer C ?d)) \<longleftrightarrow> k \<in> {window_start C (?n + 1)..<?n + 1}" for k
      using x by (simp only: atLeastAtMost_iff atLeastLessThan_iff) linarith
    then show ?thesis by (rule set_eqI)
  next
    case False
    then have "trim_resend_buffer C ?d = ?d" "window_start C (?n + 1) = ?lo"
      using len lo by (auto simp: trim_resend_buffer_def window_start_def)
    then show ?thesis using d(2) by auto
  qed
  have sub: "py_get (trim_resend_buffer C ?d) k = Some v \<Longrightarrow> py_get ?d k = Some v" for k v
    by (auto simp: trim_resend_buffer_def Let_def del_all split: if_splits)
  have "dict_ok (trim_resend_buffer C ?d)" using d(1) by (auto simp: trim_resend_buffer_def Let_def del_all_ok)
  moreover have "stored_ok C (trim_resend_buffer C ?d)" using sub d(3) unfolding stored_ok_def by blast
  ultimately show ?thesis using keys lo by (simp add: window_ok_def e')
qed

lemma window_frame: "sent_messages e' = sent_messages e \<Longrightarrow> out_seq_num e' = out_seq_num e \<Longrightarrow>
    window_ok C e' = window_ok C e"
  by (simp add: window_ok_def)

text \<open>Under a configuration that was accepted, every operation keeps the window.\<close>

definition buffer_inv :: "fix_config \<Rightarrow> fix_engine \<Rightarrow> bool" where
  "buffer_inv C e \<longleftrightarrow> (1 \<le> resend_buffer_size C \<longrightarrow> window_ok C e)"

lemma buffer_frame: "sent_messages e' = sent_messages e \<Longrightarrow> out_seq_num e' = out_seq_num e \<Longrightarrow>
    buffer_inv C e' = buffer_inv C e"
  by (simp add: buffer_inv_def window_ok_def)

lemma buffer_updates [simp]:
  "buffer_inv C (e\<lparr>session_state := s\<rparr>) = buffer_inv C e"
  "buffer_inv C (e\<lparr>expected_in_seq_num := n\<rparr>) = buffer_inv C e"
  "buffer_inv C (e\<lparr>outstanding_test_req_id := t\<rparr>) = buffer_inv C e"
  "buffer_inv C (e\<lparr>test_request_counter := k\<rparr>) = buffer_inv C e"
  "buffer_inv C (e\<lparr>clock_reads := k\<rparr>) = buffer_inv C e"
  "buffer_inv C (e\<lparr>last_recv_time := r\<rparr>) = buffer_inv C e"
  "buffer_inv C (e\<lparr>last_recv_type := y\<rparr>) = buffer_inv C e"
  by (simp_all add: buffer_inv_def window_ok_def)

lemma create_buffer: "buffer_inv C e \<Longrightarrow> buffer_inv C (snd (create_outbound_msg C ty body e))"
  using create_window unfolding buffer_inv_def by (metis prod.collapse)

lemma snd_create: "create_outbound_msg C ty body e = (m, e') \<Longrightarrow> buffer_inv C e \<Longrightarrow> buffer_inv C e'"
  using create_buffer[of C e ty body] by simp

lemma snd_audit [simp]: "snd (audit C st g rt rs e) = e"
  by (simp add: audit_def)

lemma reply_buffer: "buffer_inv C e \<Longrightarrow> buffer_inv C (snd (reply_with C ty body ns st g rt e))"
  by (auto simp: reply_with_def snd_create split: prod.split)

lemma read_time_buffer: "read_time C e = (t, e') \<Longrightarrow> buffer_inv C e' = buffer_inv C e"
  by (auto simp: read_time_def)

text \<open>Answering a resend request only reads the clock.\<close>

lemma flush_gap_engine: "flush_gap C g n e = (ms, e') \<Longrightarrow> \<exists>k. e' = e\<lparr>clock_reads := k\<rparr>"
  by (cases g) (auto simp: flush_gap_def read_time_def intro: exI[of _ "clock_reads e"])

lemma replay_engine: "replay_of C m e = (r, e') \<Longrightarrow> \<exists>k. e' = e\<lparr>clock_reads := k\<rparr>"
  by (auto simp: replay_of_def read_time_def)

lemma resend_loop_engine: "\<exists>k. snd (resend_loop C seqs z g rs e) = e\<lparr>clock_reads := k\<rparr>"
proof (induction C seqs z g rs e rule: resend_loop.induct)
  case (1 C z g rs e)
  then show ?case by (auto split: prod.split dest: flush_gap_engine)
next
  case (2 C seq seqs z g rs e)
  show ?case
  proof (cases "py_get (sent_messages e) seq")
    case None
    with 2(1) show ?thesis by simp
  next
    case (Some m)
    show ?thesis
    proof (cases "msg_type m \<in> set admin_msg_types")
      case True
      with Some 2(2)[OF Some True] show ?thesis by simp
    next
      case False
      obtain f e1 r e2 where fr: "flush_gap C g seq e = (f, e1)" "replay_of C m e1 = (r, e2)" by (meson surj_pair)
      obtain k1 k2 where "e1 = e\<lparr>clock_reads := k1\<rparr>" "e2 = e1\<lparr>clock_reads := k2\<rparr>"
        using flush_gap_engine[OF fr(1)] replay_engine[OF fr(2)] by auto
      with 2(3)[OF Some False fr(1)[symmetric] refl fr(2)[symmetric] refl] Some False fr show ?thesis by simp
    qed
  qed
qed

lemma build_resend_engine: "\<exists>k. snd (build_resend_response C b n e) = e\<lparr>clock_reads := k\<rparr>"
proof -
  have "\<exists>k. e = e\<lparr>clock_reads := k\<rparr>" by (rule exI[of _ "clock_reads e"]) simp
  then show ?thesis by (simp add: build_resend_response_def Let_def resend_loop_engine)
qed

lemma handle_buffer:
  assumes "buffer_inv C e"
  shows "buffer_inv C (snd (handle_in_sequence C m e))" "buffer_inv C (snd (handle_gap C m e))"
    "buffer_inv C (snd (handle_seq_too_low C m e))" "buffer_inv C (snd (handle_sequence_reset_mode C m e))"
    "buffer_inv C (snd (handle_logon C m e))"
proof -
  have resend: "buffer_inv C (snd (handle_resend_request C m f))" if "buffer_inv C f" for f
  proof -
    have "buffer_inv C (snd (build_resend_response C b n f))" for b n
      using build_resend_engine[of C b n f] that by auto
    then show ?thesis
      by (auto simp: handle_resend_request_def reply_buffer that split: option.split prod.split) (metis snd_conv)
  qed
  show "buffer_inv C (snd (handle_in_sequence C m e))"
    using assms by (simp add: handle_in_sequence_def handle_gap_fill_def Let_def reply_buffer resend)
  show "buffer_inv C (snd (handle_gap C m e))" "buffer_inv C (snd (handle_seq_too_low C m e))"
    using assms by (simp_all add: handle_gap_def handle_seq_too_low_def reply_buffer)
  show "buffer_inv C (snd (handle_sequence_reset_mode C m e))"
    using assms by (simp add: handle_sequence_reset_mode_def reply_buffer split: option.split)
  show "buffer_inv C (snd (handle_logon C m e))"
    using assms by (simp add: handle_logon_def handle_seq_too_low_def Let_def reply_buffer)
qed

lemma process_buffer: "buffer_inv C e \<Longrightarrow> buffer_inv C (snd (process_locked C m e))"
proof -
  assume e: "buffer_inv C e"
  then have "buffer_inv C (note_receipt C m e)" by (simp add: note_receipt_def read_time_def)
  with e show ?thesis by (simp add: process_locked_def Let_def handle_buffer reply_buffer)
qed

lemma liveness_buffer:
  assumes "buffer_inv C e"
  shows "buffer_inv C (snd (check_liveness C now e))"
proof -
  have hb: "buffer_inv C (snd (heartbeat_due C t f))" "buffer_inv C (snd (test_request_due C t f))" if "buffer_inv C f" for t f
    using that by (auto simp: heartbeat_due_def test_request_due_def Let_def snd_create split: prod.split)
  have "buffer_inv C (snd (time_or_clock C now e))"
    using assms by (auto simp: time_or_clock_def read_time_def split: option.split)
  with hb assms show ?thesis
    by (auto simp: check_liveness_def Let_def split: prod.split) (metis snd_conv)
qed

lemma step_buffer:
  assumes "buffer_inv C e"
  shows "buffer_inv C (fix_step C ev e)"
proof (cases ev)
  case (Logon r)
  have "buffer_inv C (e\<lparr>out_seq_num := 1, expected_in_seq_num := 1, sent_messages := []\<rparr>)"
    by (auto simp: buffer_inv_def window_ok_def stored_ok_def window_start_def)
  then show ?thesis using Logon assms by (auto simp: initiate_logon_def Let_def snd_create split: prod.split)
next
  case (Logout reason)
  then show ?thesis using assms by (auto simp: initiate_logout_def Let_def snd_create split: prod.split)
next
  case (Send ty body)
  then show ?thesis using assms by (simp add: create_buffer)
next
  case (Receive m)
  then show ?thesis using process_buffer[OF assms, of m] by (auto simp: process_inbound_msg_def Let_def split: prod.split)
next
  case (Poll now)
  then show ?thesis using assms by (simp add: liveness_buffer)
next
  case (Ask_timeout now)
  then show ?thesis using assms
    by (auto simp: is_timed_out_def time_or_clock_def read_time_def Let_def split: option.split)
qed

interpretation fix_buffer: invariant_machine "fix_step C" "buffer_inv C" for C
  by unfold_locales (rule step_buffer)

section \<open>The answer to a resend request\<close>

text \<open>The number a receiver expects after accepting a message.\<close>

definition next_after :: "fix_message \<Rightarrow> int" where
  "next_after m = (if msg_type m = MSG_SEQUENCE_RESET then the (parse_int_tag (body_fields m) TAG_NEW_SEQ_NO)
     else msg_seq_num m + 1)"

definition resend_form :: "fix_config \<Rightarrow> fix_message \<Rightarrow> bool" where
  "resend_form C m \<longleftrightarrow> poss_dup_flag m \<and> sender_comp_id m = our_comp_id C \<and> target_comp_id m = peer_comp_id C \<and>
     (if msg_type m = MSG_SEQUENCE_RESET
      then is_gap_fill m \<and> parse_int_tag (body_fields m) TAG_NEW_SEQ_NO \<noteq> None
      else msg_type m \<notin> set admin_msg_types)"

text \<open>Messages that cover the numbers from \<open>a\<close> up to \<open>z\<close>, each taking up where the last one ended.\<close>

fun tiles :: "fix_config \<Rightarrow> int \<Rightarrow> fix_message list \<Rightarrow> int \<Rightarrow> bool" where
  "tiles C a [] z \<longleftrightarrow> a = z"
| "tiles C a (m # ms) z \<longleftrightarrow> msg_seq_num m = a \<and> a < next_after m \<and> resend_form C m \<and> tiles C (next_after m) ms z"

text \<open>A replay of a message that was sent.\<close>

definition replays :: "fix_message \<Rightarrow> fix_message \<Rightarrow> bool" where
  "replays m r \<longleftrightarrow> msg_type r = msg_type m \<and> msg_seq_num r = msg_seq_num m \<and> poss_dup_flag r \<and>
     body_fields r = py_set (body_fields m) TAG_ORIG_SENDING_TIME (sending_time m)"

lemma tiles_append: "tiles C a xs b \<Longrightarrow> tiles C b ys z \<Longrightarrow> tiles C a (xs @ ys) z"
  by (induction xs arbitrary: a) auto

lemma reset_is_admin: "MSG_SEQUENCE_RESET \<in> set admin_msg_types"
  by (simp add: admin_msg_types_def)

lemma flush_gap_tiles:
  assumes "flush_gap C g n e = (ms, e')" "case g of None \<Rightarrow> a = n | Some x \<Rightarrow> a = x \<and> x < n"
  shows "tiles C a ms n"
proof (cases g)
  case None
  then show ?thesis using assms by (auto simp: flush_gap_def)
next
  case (Some x)
  have yes: "py_upper ''Y'' = ''Y''" by code_simp
  show ?thesis using assms Some
    by (auto simp: flush_gap_def read_time_def next_after_def resend_form_def parse_int_tag_def py_get_def
        tag_defs is_gap_fill_def flag_set_def yes parse_int_dec)
qed

lemma replay_tiles:
  assumes "replay_of C m e = (r, e')" "msg_type m \<notin> set admin_msg_types" "msg_seq_num m = s"
    "sender_comp_id m = our_comp_id C" "target_comp_id m = peer_comp_id C"
  shows "tiles C s [r] (s + 1) \<and> replays m r"
  using assms reset_is_admin
  by (auto simp: replay_of_def read_time_def next_after_def resend_form_def replays_def)

lemma resend_loop_tiles:
  assumes "seqs = [s..z]" "s \<le> z + 1" "case g of None \<Rightarrow> a = s | Some x \<Rightarrow> a = x \<and> x < s"
    and "stored_ok C (sent_messages e)"
  shows "\<exists>new. fst (resend_loop C seqs z g rs e) = rs @ new \<and> tiles C a new (z + 1) \<and>
    (\<forall>k m. s \<le> k \<longrightarrow> k \<le> z \<longrightarrow> py_get (sent_messages e) k = Some m \<longrightarrow> msg_type m \<notin> set admin_msg_types \<longrightarrow>
       (\<exists>r\<in>set new. replays m r))"
  using assms
proof (induction seqs arbitrary: s g rs a e)
  case Nil
  then have "s = z + 1" by (simp add: eq_commute[of "[]"])
  then show ?case using Nil by (auto split: prod.split intro: flush_gap_tiles)
next
  case (Cons q seqs)
  have "s \<le> z" using Cons.prems(1) by (cases "s \<le> z") auto
  then have sz: "s \<le> z" "q = s" "seqs = [s + 1..z]" using Cons.prems(1) upto_rec1[of s z] by auto
  have skip: ?case if r: "resend_loop C (q # seqs) z g rs e = resend_loop C seqs z (Some (case g of None \<Rightarrow> q | Some x \<Rightarrow> x)) rs e"
    and no: "\<And>m. py_get (sent_messages e) s = Some m \<Longrightarrow> msg_type m \<in> set admin_msg_types"
  proof -
    have "case Some (case g of None \<Rightarrow> q | Some x \<Rightarrow> x) of None \<Rightarrow> a = s + 1 | Some x \<Rightarrow> a = x \<and> x < s + 1"
      using Cons.prems(3) sz by (auto split: option.splits)
    from Cons.IH[OF sz(3) _ this Cons.prems(4), of rs] sz(1) obtain new where
      n: "fst (resend_loop C seqs z (Some (case g of None \<Rightarrow> q | Some x \<Rightarrow> x)) rs e) = rs @ new" "tiles C a new (z + 1)"
        "\<forall>k m. s + 1 \<le> k \<longrightarrow> k \<le> z \<longrightarrow> py_get (sent_messages e) k = Some m \<longrightarrow> msg_type m \<notin> set admin_msg_types \<longrightarrow>
           (\<exists>r\<in>set new. replays m r)"
      by auto
    show ?case unfolding r
    proof (intro exI[of _ new] conjI allI impI n(1,2))
      fix k m assume "s \<le> k" "k \<le> z" "py_get (sent_messages e) k = Some m" "msg_type m \<notin> set admin_msg_types"
      moreover have "k = s \<or> s + 1 \<le> k" using \<open>s \<le> k\<close> by linarith
      ultimately show "\<exists>r\<in>set new. replays m r" using n(3) no by blast
    qed
  qed
  show ?case
  proof (cases "py_get (sent_messages e) s")
    case None
    then show ?thesis using sz by (intro skip) auto
  next
    case (Some m)
    show ?thesis
    proof (cases "msg_type m \<in> set admin_msg_types")
      case True
      then show ?thesis using Some sz by (intro skip) auto
    next
      case False
      obtain f e1 r e2 where fr: "flush_gap C g s e = (f, e1)" "replay_of C m e1 = (r, e2)" by (meson surj_pair)
      obtain k1 k2 where ek: "e1 = e\<lparr>clock_reads := k1\<rparr>" "e2 = e1\<lparr>clock_reads := k2\<rparr>"
        using flush_gap_engine[OF fr(1)] replay_engine[OF fr(2)] by auto
      have m: "msg_seq_num m = s" "sender_comp_id m = our_comp_id C" "target_comp_id m = peer_comp_id C"
        using Cons.prems(4) Some by (auto simp: stored_ok_def)
      have t: "tiles C a f s" "tiles C s [r] (s + 1)" "replays m r"
        using flush_gap_tiles[OF fr(1) Cons.prems(3)] replay_tiles[OF fr(2) False m] by auto
      have "stored_ok C (sent_messages e2)" "sent_messages e2 = sent_messages e" using Cons.prems(4) ek by auto
      with Cons.IH[OF sz(3), where g = None and a = "s + 1" and e = e2 and rs = "rs @ f @ [r]"] sz(1) obtain new where
        n: "fst (resend_loop C seqs z None (rs @ f @ [r]) e2) = rs @ f @ [r] @ new" "tiles C (s + 1) new (z + 1)"
          "\<forall>k m. s + 1 \<le> k \<longrightarrow> k \<le> z \<longrightarrow> py_get (sent_messages e) k = Some m \<longrightarrow> msg_type m \<notin> set admin_msg_types \<longrightarrow>
             (\<exists>r\<in>set new. replays m r)"
        by auto
      have "fst (resend_loop C (q # seqs) z g rs e) = rs @ (f @ [r] @ new)"
        using Some False fr sz n(1) by simp
      moreover have "tiles C a (f @ [r] @ new) (z + 1)"
        by (rule tiles_append[OF t(1) tiles_append[OF t(2) n(2)]])
      moreover have "\<exists>r\<in>set (f @ [r] @ new). replays m' r"
        if "s \<le> k" "k \<le> z" "py_get (sent_messages e) k = Some m'" "msg_type m' \<notin> set admin_msg_types" for k m'
      proof -
        have "k = s \<or> s + 1 \<le> k" using that(1) by linarith
        then show ?thesis using that n(3) t(3) Some by auto
      qed
      ultimately show ?thesis by blast
    qed
  qed
qed

end
