(* ===== verification/Fix_Properties.thy ===== *)
theory Fix_Properties
  imports Fix_Buffer
begin

text \<open>
  The guarantees of the FIX session engine, on one engine and on two engines that talk: the
  resend buffer, the answer to a resend request and what it does at the other end, the inbound
  sequence discipline, and when a gap provokes a resend request.
\<close>

section \<open>Outbound\<close>

lemma config_size: "make_fix_config C = Some C' \<Longrightarrow> 1 \<le> resend_buffer_size C"
  by (simp add: make_fix_config_def split: if_splits)

lemma fresh_buffer: "buffer_inv C (new_engine C)"
  by (auto simp: buffer_inv_def window_ok_def new_engine_def stored_ok_def window_start_def)

lemma reached_window:
  assumes "make_fix_config C = Some C'"
  shows "window_ok C (fold (fix_step C) evs (new_engine C))"
  using fix_buffer.run_inv[OF fresh_buffer] config_size[OF assms] by (simp add: buffer_inv_def)

text \<open>The resend buffer is the recent past. At every moment of every session it holds exactly the
  messages with the last numbers consumed, as many as configured or all of them, each stored
  under its own number and as it was first sent.\<close>

theorem resend_buffer_is_recent_window:
  assumes "make_fix_config C = Some C'" "e = fold (fix_step C) evs (new_engine C)"
  shows "set (py_keys (sent_messages e)) = {max 1 (out_seq_num e - resend_buffer_size C)..<out_seq_num e} \<and>
    (\<forall>k m. py_get (sent_messages e) k = Some m \<longrightarrow> msg_seq_num m = k \<and> \<not> poss_dup_flag m)"
  using reached_window[OF assms(1), of evs]
  by (auto simp: window_ok_def assms(2) window_start_def stored_ok_def)

text \<open>The last number a request for \<open>[b, n]\<close> can ask for.\<close>

definition resend_end :: "int \<Rightarrow> fix_engine \<Rightarrow> int" where
  "resend_end n e = (if n \<le> 0 \<or> n \<ge> out_seq_num e then out_seq_num e - 1 else n)"

lemma build_resend_tiles:
  assumes "stored_ok C (sent_messages e)" "1 \<le> b" "b \<le> resend_end n e"
  shows "tiles C b (fst (build_resend_response C b n e)) (resend_end n e + 1) \<and>
    (\<forall>k m. b \<le> k \<longrightarrow> k \<le> resend_end n e \<longrightarrow> py_get (sent_messages e) k = Some m \<longrightarrow>
      msg_type m \<notin> set admin_msg_types \<longrightarrow> (\<exists>r\<in>set (fst (build_resend_response C b n e)). replays m r))"
proof -
  have "build_resend_response C b n e = resend_loop C [b..resend_end n e] (resend_end n e) None [] e"
    using assms(2,3) unfolding build_resend_response_def resend_end_def[symmetric] Let_def by simp
  then show ?thesis
    using resend_loop_tiles[OF refl, where s = b and z = "resend_end n e" and g = None and a = b and C = C and e = e and rs = "[]"] assms by auto
qed

text \<open>A resend request is answered completely. The answer covers the requested numbers without a
  hole or an overlap: every application message still retained is replayed under its original
  number with its original body and sending time, everything else is bridged by gap fills that
  name the next number; and answering consumes no outbound number and changes no message.\<close>

theorem resend_answer_tiles_the_range:
  assumes "make_fix_config C = Some C'" "e = fold (fix_step C) evs (new_engine C)"
    and "1 \<le> b" "b \<le> resend_end n e"
  shows "tiles C b (fst (build_resend_response C b n e)) (resend_end n e + 1) \<and>
    (\<forall>k m. b \<le> k \<longrightarrow> k \<le> resend_end n e \<longrightarrow> py_get (sent_messages e) k = Some m \<longrightarrow>
      msg_type m \<notin> set admin_msg_types \<longrightarrow> (\<exists>r\<in>set (fst (build_resend_response C b n e)). replays m r)) \<and>
    (\<exists>reads. snd (build_resend_response C b n e) = e\<lparr>clock_reads := reads\<rparr>)"
  using build_resend_tiles[of C e b n] build_resend_engine[of C b n e] reached_window[OF assms(1), of evs] assms(2-4)
  by (auto simp: window_ok_def)

section \<open>Two engines\<close>

text \<open>The configurations of the two ends of a session.\<close>

definition mirrored :: "fix_config \<Rightarrow> fix_config \<Rightarrow> bool" where
  "mirrored C D \<longleftrightarrow> our_comp_id D = peer_comp_id C \<and> peer_comp_id D = our_comp_id C"

lemma note_receipt_simps [simp]:
  "session_state (note_receipt C m e) = session_state e"
  "expected_in_seq_num (note_receipt C m e) = expected_in_seq_num e"
  "out_seq_num (note_receipt C m e) = out_seq_num e"
  "outstanding_test_req_id (note_receipt C m e) = outstanding_test_req_id e"
  by (simp_all add: note_receipt_def read_time_def)

lemma audit_simps [simp]:
  "ar_responses (fst (audit C st g rt rs e)) = rs" "ar_status (fst (audit C st g rt rs e)) = st"
  by (simp_all add: audit_def)

lemma admin_cases: "t \<notin> set admin_msg_types \<Longrightarrow> t \<noteq> MSG_HEARTBEAT \<and> t \<noteq> MSG_TEST_REQUEST \<and> t \<noteq> MSG_RESEND_REQUEST \<and>
    t \<noteq> MSG_REJECT \<and> t \<noteq> MSG_SEQUENCE_RESET \<and> t \<noteq> MSG_LOGOUT \<and> t \<noteq> MSG_LOGON"
  by (auto simp: admin_msg_types_def)

lemma msg_types_distinct [simp]: "MSG_SEQUENCE_RESET \<noteq> MSG_LOGON" "MSG_LOGON \<noteq> MSG_SEQUENCE_RESET"
  by (simp_all add: msg_type_defs)

text \<open>One message of an answer at the receiving end.\<close>

lemma receive_resent:
  assumes "mirrored C D" "resend_form C m" "session_state r \<in> set established_states"
    and "expected_in_seq_num r = msg_seq_num m" "msg_seq_num m < next_after m"
  shows "ar_responses (fst (process_locked D m r)) = [] \<and>
    expected_in_seq_num (snd (process_locked D m r)) = next_after m \<and>
    session_state (snd (process_locked D m r)) \<in> set established_states"
proof -
  have ids: "comp_ids_match D m" using assms(1,2) by (auto simp: comp_ids_match_def mirrored_def resend_form_def)
  have up: "session_state r \<noteq> DISCONNECTED" using assms(3) by (auto simp: established_states_def)
  show ?thesis
  proof (cases "msg_type m = MSG_SEQUENCE_RESET")
    case True
    with assms ids up show ?thesis
      by (auto simp: process_locked_def Let_def handle_in_sequence_def handle_gap_fill_def resend_form_def
          next_after_def resynchronised_def established_states_def)
  next
    case False
    then have t: "msg_type m \<notin> set admin_msg_types" using assms(2) by (simp add: resend_form_def)
    show ?thesis using admin_cases[OF t] assms ids up
      by (simp add: process_locked_def Let_def handle_in_sequence_def next_after_def)
  qed
qed

fun receive_all :: "fix_config \<Rightarrow> fix_message list \<Rightarrow> fix_engine \<Rightarrow> fix_message list \<times> fix_engine" where
  "receive_all D [] r = ([], r)"
| "receive_all D (m # ms) r =
     (let (report, r1) = process_locked D m r; (rs, r2) = receive_all D ms r1 in (ar_responses report @ rs, r2))"

lemma receive_tiles:
  assumes "mirrored C D" "tiles C a ms z" "session_state r \<in> set established_states" "expected_in_seq_num r = a"
  shows "fst (receive_all D ms r) = [] \<and> expected_in_seq_num (snd (receive_all D ms r)) = z \<and>
    session_state (snd (receive_all D ms r)) \<in> set established_states"
  using assms(2-4)
proof (induction ms arbitrary: a r)
  case (Cons m ms)
  obtain rep r1 where p: "process_locked D m r = (rep, r1)" by (cases "process_locked D m r")
  with receive_resent[OF assms(1), of m r] Cons.prems
  have "ar_responses rep = []" "expected_in_seq_num r1 = next_after m" "session_state r1 \<in> set established_states"
    by auto
  with Cons.IH[of "next_after m" r1] Cons.prems p show ?case by (auto simp: split: prod.split)
qed auto

text \<open>C5. A gap closes. When one end misses messages from number \<open>b\<close> on and the other answers its open
  resend request, delivering the answer in order brings the receiver to expect exactly the
  sender's next number: nothing is asked for again, nothing is rejected, and the session stays
  up, whatever mix of application and administrative messages was lost or has aged out.\<close>

theorem gap_recovery_resynchronises:
  assumes "make_fix_config C = Some C'" "e = fold (fix_step C) evs (new_engine C)" "mirrored C D"
    and "session_state r = RESEND_REQUEST_SENT" "1 \<le> expected_in_seq_num r" "expected_in_seq_num r < out_seq_num e"
  shows "\<exists>r'. receive_all D (fst (build_resend_response C (expected_in_seq_num r) 0 e)) r = ([], r') \<and>
    expected_in_seq_num r' = out_seq_num e \<and> session_state r' \<in> {LOGGED_IN, RESEND_REQUEST_SENT}"
proof -
  let ?ms = "fst (build_resend_response C (expected_in_seq_num r) 0 e)"
  have "stored_ok C (sent_messages e)" using reached_window[OF assms(1), of evs] by (simp add: window_ok_def assms(2))
  moreover have z: "resend_end 0 e = out_seq_num e - 1" by (simp add: resend_end_def)
  ultimately have "tiles C (expected_in_seq_num r) ?ms (out_seq_num e)"
    using build_resend_tiles[of C e "expected_in_seq_num r" 0] assms(5,6) by simp
  from receive_tiles[OF assms(3) this, of r] assms(4) show ?thesis
    by (cases "receive_all D ?ms r") (auto simp: established_states_def)
qed

section \<open>Inbound\<close>

lemma reply_simps [simp]:
  "expected_in_seq_num (snd (reply_with C ty body ns st g rt e)) = expected_in_seq_num e"
  "session_state (snd (reply_with C ty body ns st g rt e)) = ns (session_state e)"
  "ar_status (fst (reply_with C ty body ns st g rt e)) = st"
  by (simp_all add: reply_with_def create_outbound_msg_def read_time_def audit_def Let_def)

lemma resend_request_simps [simp]:
  "expected_in_seq_num (snd (handle_resend_request C m e)) = expected_in_seq_num e"
  "session_state (snd (handle_resend_request C m e)) = session_state e"
proof -
  have "expected_in_seq_num (snd (build_resend_response C b n e)) = expected_in_seq_num e \<and>
      session_state (snd (build_resend_response C b n e)) = session_state e" for b n
    using build_resend_engine[of C b n e] by auto
  then show "expected_in_seq_num (snd (handle_resend_request C m e)) = expected_in_seq_num e"
    "session_state (snd (handle_resend_request C m e)) = session_state e"
    by (auto simp: handle_resend_request_def split: option.split prod.split) (metis snd_conv)+
qed

text \<open>The events by which the expected number may go back: a logon that asks for a reset, in either
  direction, and a logon flagged as a possible duplicate whose number was already passed.\<close>

definition permits_rewind :: "fix_event \<Rightarrow> fix_engine \<Rightarrow> bool" where
  "permits_rewind ev e \<longleftrightarrow> (case ev of
     Logon reset \<Rightarrow> reset
   | Receive m \<Rightarrow> msg_type m = MSG_LOGON \<and>
       (flag_set (body_fields m) TAG_RESET_SEQ_NUM_FLAG \<or> poss_dup_flag m \<and> msg_seq_num m < expected_in_seq_num e)
   | _ \<Rightarrow> False)"

lemma in_sequence_expected:
  "msg_seq_num m = expected_in_seq_num e \<Longrightarrow> expected_in_seq_num e \<le> expected_in_seq_num (snd (handle_in_sequence C m e))"
  by (auto simp: handle_in_sequence_def handle_gap_fill_def Let_def)

lemma receive_expected:
  assumes "\<not> permits_rewind (Receive m) e"
  shows "expected_in_seq_num e \<le> expected_in_seq_num (snd (process_locked C m e))"
proof -
  let ?e = "note_receipt C m e"
  have "expected_in_seq_num e \<le> expected_in_seq_num (snd (handle_logon C m ?e))" if "msg_type m = MSG_LOGON"
    using assms that by (auto simp: permits_rewind_def handle_logon_def handle_seq_too_low_def Let_def)
  moreover have "expected_in_seq_num e \<le> expected_in_seq_num (snd (handle_sequence_reset_mode C m ?e))"
    by (auto simp: handle_sequence_reset_mode_def split: option.split)
  moreover have "expected_in_seq_num e \<le> expected_in_seq_num (snd (handle_gap C m ?e))"
    "expected_in_seq_num e \<le> expected_in_seq_num (snd (handle_seq_too_low C m ?e))"
    by (simp_all add: handle_gap_def handle_seq_too_low_def)
  moreover have "expected_in_seq_num e \<le> expected_in_seq_num (snd (handle_in_sequence C m ?e))"
    if "msg_seq_num m = expected_in_seq_num e"
    using in_sequence_expected[of m ?e C] that by simp
  ultimately show ?thesis by (auto simp: process_locked_def Let_def)
qed

lemma create_expected: "expected_in_seq_num (snd (create_outbound_msg C ty body e)) = expected_in_seq_num e"
  by (simp add: create_outbound_msg_def read_time_def Let_def)

lemma liveness_expected: "expected_in_seq_num (snd (check_liveness C now e)) = expected_in_seq_num e"
  by (auto simp: check_liveness_def heartbeat_due_def test_request_due_def time_or_clock_def read_time_def
      create_outbound_msg_def Let_def split: option.split)

lemma step_expected: "\<not> permits_rewind ev e \<Longrightarrow> expected_in_seq_num e \<le> expected_in_seq_num (fix_step C ev e)"
proof (cases ev)
  case (Receive m)
  assume "\<not> permits_rewind ev e"
  with receive_expected[of m e C] Receive show ?thesis
    by (auto simp: process_inbound_msg_def Let_def split: prod.split)
qed (auto simp: permits_rewind_def initiate_logon_def initiate_logout_def create_expected liveness_expected
    create_outbound_msg_def is_timed_out_def time_or_clock_def read_time_def Let_def split: option.split)

text \<open>The application messages a session accepts, in order, and the runs in which nothing rewinds.\<close>

definition accepts :: "fix_config \<Rightarrow> fix_message \<Rightarrow> fix_engine \<Rightarrow> bool" where
  "accepts C m e \<longleftrightarrow> msg_type m \<notin> set admin_msg_types \<and> ar_status (fst (process_locked C m e)) = SESSION_ACTIVE"

fun accepted :: "fix_config \<Rightarrow> fix_event list \<Rightarrow> fix_engine \<Rightarrow> int list" where
  "accepted C [] e = []"
| "accepted C (ev # evs) e =
     (case ev of Receive m \<Rightarrow> if accepts C m e then [msg_seq_num m] else [] | _ \<Rightarrow> []) @ accepted C evs (fix_step C ev e)"

fun never_rewinds :: "fix_config \<Rightarrow> fix_event list \<Rightarrow> fix_engine \<Rightarrow> bool" where
  "never_rewinds C [] e \<longleftrightarrow> True"
| "never_rewinds C (ev # evs) e \<longleftrightarrow> \<not> permits_rewind ev e \<and> never_rewinds C evs (fix_step C ev e)"

lemma accepts_in_sequence:
  assumes "accepts C m e"
  shows "msg_seq_num m = expected_in_seq_num e" "expected_in_seq_num (snd (process_locked C m e)) = msg_seq_num m + 1"
proof -
  have t: "msg_type m \<notin> set admin_msg_types" and st: "ar_status (fst (process_locked C m e)) = SESSION_ACTIVE"
    using assms by (auto simp: accepts_def)
  show seq: "msg_seq_num m = expected_in_seq_num e"
    using admin_cases[OF t] st
    by (auto simp: process_locked_def handle_gap_def handle_seq_too_low_def Let_def split: if_splits)
  show "expected_in_seq_num (snd (process_locked C m e)) = msg_seq_num m + 1"
    using admin_cases[OF t] st seq
    by (auto simp: process_locked_def handle_gap_def handle_seq_too_low_def handle_in_sequence_def Let_def split: if_splits)
qed

text \<open>An execution report is applied once. Unless a logon resets the session or a possibly duplicated
  logon is taken, the expected number never goes back, and the application messages accepted
  carry strictly increasing numbers from the expected one on: none is applied twice and none
  out of order.\<close>

theorem accepted_messages_strictly_increase:
  assumes "never_rewinds C evs e"
  shows "expected_in_seq_num e \<le> expected_in_seq_num (fold (fix_step C) evs e) \<and>
    sorted_wrt (<) (accepted C evs e) \<and> (\<forall>n\<in>set (accepted C evs e). expected_in_seq_num e \<le> n)"
  using assms
proof (induction evs arbitrary: e)
  case (Cons ev evs)
  let ?e = "fix_step C ev e"
  have up: "expected_in_seq_num e \<le> expected_in_seq_num ?e" using step_expected[of ev e C] Cons.prems by simp
  have IH: "expected_in_seq_num ?e \<le> expected_in_seq_num (fold (fix_step C) evs ?e)"
    "sorted_wrt (<) (accepted C evs ?e)" "\<forall>n\<in>set (accepted C evs ?e). expected_in_seq_num ?e \<le> n"
    using Cons.IH[of ?e] Cons.prems by auto
  have head: "msg_seq_num m = expected_in_seq_num e \<and> msg_seq_num m < expected_in_seq_num ?e"
    if "ev = Receive m" "accepts C m e" for m
    using accepts_in_sequence[OF that(2)] that(1) by (auto simp: process_inbound_msg_def Let_def split: prod.split)
  show ?case using IH up head by (cases ev) (force split: if_splits)+
qed simp

section \<open>One resend request per recovery\<close>

text \<open>The messages that can end a recovery.\<close>

definition ends_recovery :: "fix_message \<Rightarrow> bool" where
  "ends_recovery m \<longleftrightarrow> msg_type m \<in> {MSG_SEQUENCE_RESET, MSG_LOGON, MSG_LOGOUT}"

lemma recovering_step:
  assumes "session_state e \<in> {RESEND_REQUEST_SENT, LOGOUT_SENT}" "\<not> ends_recovery m"
  shows "session_state (snd (process_locked C m e)) \<in> {RESEND_REQUEST_SENT, LOGOUT_SENT}"
  using assms
  by (auto simp: process_locked_def ends_recovery_def handle_gap_def handle_seq_too_low_def
      handle_in_sequence_def Let_def)

text \<open>No resend storm, and no second request. Once a resend request is out, only a sequence reset, a
  logon or a logout ends the recovery: after any other messages, the replayed ones that close
  the gap included, a message ahead of the expected number is held and provokes nothing.\<close>

theorem one_resend_request_per_recovery:
  assumes "session_state e = RESEND_REQUEST_SENT" "list_all (\<lambda>m. \<not> ends_recovery m) ms"
    and "e' = snd (receive_all C ms e)" "session_state e' \<noteq> LOGOUT_SENT"
    and "comp_ids_match C m" "\<not> ends_recovery m" "expected_in_seq_num e' < msg_seq_num m"
  shows "session_state e' = RESEND_REQUEST_SENT \<and> ar_responses (fst (process_locked C m e')) = [] \<and>
    expected_in_seq_num (snd (process_locked C m e')) = expected_in_seq_num e'"
proof -
  have "list_all (\<lambda>m. \<not> ends_recovery m) ms \<Longrightarrow> session_state e \<in> {RESEND_REQUEST_SENT, LOGOUT_SENT} \<Longrightarrow>
      session_state (snd (receive_all C ms e)) \<in> {RESEND_REQUEST_SENT, LOGOUT_SENT}" for e
  proof (induction ms arbitrary: e)
    case (Cons m ms)
    obtain rep e1 where p: "process_locked C m e = (rep, e1)" by (cases "process_locked C m e")
    have "session_state e1 \<in> {RESEND_REQUEST_SENT, LOGOUT_SENT}"
      using recovering_step[of e m C] Cons.prems p by simp
    from Cons.IH[OF _ this] Cons.prems(1) p show ?case by (auto split: prod.split)
  qed simp
  with assms(1-4) have "session_state e' = RESEND_REQUEST_SENT" by auto
  with assms(5-7) show ?thesis
    by (auto simp: process_locked_def ends_recovery_def handle_gap_def Let_def)
qed

end
