(* ===== verification/Fix_Witnesses.thy ===== *)
theory Fix_Witnesses
  imports Fix_Properties
begin

text \<open>
  Two concrete FIX engines: a client that has sent a logon, orders and a heartbeat with room
  for three messages, and a venue that missed everything after the logon.
\<close>

definition demo_client :: fix_config where
  "demo_client = \<lparr>session_id = ''S'', our_comp_id = ''CLI'', peer_comp_id = ''VEN'', heartbeat_interval_sec = 30,
     auto_resend_on_gap = True, test_request_multiplier = 3 / 2, disconnect_multiplier = 12 / 5,
     resend_buffer_size = 3, validate_comp_ids = True, fix_clock = (\<lambda>n. of_nat n)\<rparr>"

definition demo_venue :: fix_config where
  "demo_venue = demo_client\<lparr>our_comp_id := ''VEN'', peer_comp_id := ''CLI''\<rparr>"

definition client_events :: "fix_event list" where
  "client_events = [Logon False, Send ''D'' [(11, ''o1'')], Send ''D'' [(11, ''o2'')], Send ''0'' [], Send ''D'' [(11, ''o3'')]]"

definition client_engine :: fix_engine where
  "client_engine = fold (fix_step demo_client) client_events (new_engine demo_client)"

lemma demo_client_config: "make_fix_config demo_client = Some demo_client"
  by (simp add: make_fix_config_def demo_client_def)

lemma client_engine_run: "client_engine = fold (fix_step demo_client) client_events (new_engine demo_client)"
  by (simp add: client_engine_def)

lemma client_engine_facts: "out_seq_num client_engine = 6" "2 \<le> resend_end 0 client_engine"
  by code_simp+

theorem resend_buffer_is_recent_window_witness:
  "set (py_keys (sent_messages client_engine)) = {3..<6}"
  using resend_buffer_is_recent_window[OF demo_client_config client_engine_run] client_engine_facts
  by (simp add: demo_client_def)

theorem resend_answer_tiles_the_range_witness:
  "tiles demo_client 2 (fst (build_resend_response demo_client 2 0 client_engine)) (resend_end 0 client_engine + 1)"
  using resend_answer_tiles_the_range[OF demo_client_config client_engine_run _ client_engine_facts(2)] by simp

text \<open>A message of the client as the venue sees it, and the venue after a logon and a gap.\<close>

definition client_message :: "string \<Rightarrow> int \<Rightarrow> fix_message" where
  "client_message ty n = \<lparr>msg_type = ty, msg_seq_num = n, sender_comp_id = ''CLI'', target_comp_id = ''VEN'',
     sending_time = '''', body_fields = [], poss_dup_flag = False\<rparr>"

definition venue_engine :: fix_engine where
  "venue_engine = fold (fix_step demo_venue)
     [Receive (client_message ''A'' 1), Receive (client_message ''D'' 5)] (new_engine demo_venue)"

lemma venue_engine_facts: "session_state venue_engine = RESEND_REQUEST_SENT" "expected_in_seq_num venue_engine = 2"
  by code_simp+

lemma demo_mirrored: "mirrored demo_client demo_venue"
  by (simp add: mirrored_def demo_venue_def demo_client_def)

theorem gap_recovery_resynchronises_witness:
  "\<exists>r'. receive_all demo_venue (fst (build_resend_response demo_client 2 0 client_engine)) venue_engine = ([], r') \<and>
    expected_in_seq_num r' = 6"
  using gap_recovery_resynchronises[OF demo_client_config client_engine_run demo_mirrored, of venue_engine]
    venue_engine_facts client_engine_facts by auto

definition venue_events :: "fix_event list" where
  "venue_events = [Receive (client_message ''A'' 1), Receive (client_message ''D'' 2), Receive (client_message ''D'' 4),
     Receive (client_message ''D'' 3), Receive (client_message ''D'' 4)]"

lemma venue_events_facts: "never_rewinds demo_venue venue_events (new_engine demo_venue)"
  "accepted demo_venue venue_events (new_engine demo_venue) = [2, 3, 4]"
  by code_simp+

theorem accepted_messages_strictly_increase_witness:
  "sorted_wrt (<) [2, 3, 4 :: int] \<and>
    expected_in_seq_num (new_engine demo_venue) \<le> expected_in_seq_num (fold (fix_step demo_venue) venue_events (new_engine demo_venue))"
  using accepted_messages_strictly_increase[OF venue_events_facts(1)] unfolding venue_events_facts(2) by blast

text \<open>The gap of the venue is closed by replayed orders; the next gap is then not asked for.\<close>

definition replayed_orders :: "fix_message list" where
  "replayed_orders = map (\<lambda>n. client_message ''D'' n\<lparr>poss_dup_flag := True\<rparr>) [2, 3, 4, 5]"

lemma stuck_facts:
  "list_all (\<lambda>m. \<not> ends_recovery m) replayed_orders"
  "session_state (snd (receive_all demo_venue replayed_orders venue_engine)) \<noteq> LOGOUT_SENT"
  "expected_in_seq_num (snd (receive_all demo_venue replayed_orders venue_engine)) < msg_seq_num (client_message ''D'' 9)"
  "comp_ids_match demo_venue (client_message ''D'' 9)" "\<not> ends_recovery (client_message ''D'' 9)"
  by code_simp+

theorem one_resend_request_per_recovery_witness:
  "ar_responses (fst (process_locked demo_venue (client_message ''D'' 9)
     (snd (receive_all demo_venue replayed_orders venue_engine)))) = []"
  using one_resend_request_per_recovery[OF venue_engine_facts(1) stuck_facts(1) refl stuck_facts(2,4,5,3)] by blast

end
