(* ===== verification/Kill_Switch.thy ===== *)
theory Kill_Switch
  imports Py_Value
begin

text \<open>
  Model of \<open>skills/execution-algorithm-kill-switch-integration/scripts/
  execution_algorithm_kill_switch_integration.py\<close>: the order-entry lockout and the venue
  cancels of \<open>ExecutionAlgoKillSwitchEngine\<close>. A venue gateway is an interface of the program;
  it is a pair of functions on a state of any type, which may raise, and the reference gateway
  of the module is one of them. Orders are values held by the engine under their identifiers.
  Reasons and errors are kept as the data their messages are formatted from; the audit notes
  and the details of a dispatch, text for the log, are left out.
\<close>

section \<open>Vocabulary\<close>

datatype ks_scope = SCOPE_GLOBAL | SCOPE_STRATEGY | SCOPE_NONE

datatype ks_status =
  NORMAL_OPERATIONS | KILL_SWITCH_ENGAGED | REJECTED_KILL_SWITCH_ACTIVE | REJECTED_RISK_DATA_INVALID | KILL_SWITCH_RESET

datatype trigger_code =
    MAX_LOSS_BREACH | MAX_EXPOSURE_BREACH | RUNAWAY_ORDER_RATE | MANUAL_OVERRIDE
  | KILL_SWITCH_ALREADY_ACTIVE | RISK_DATA_INVALID | RISK_DATA_STALE | Caller_code string

datatype order_state = ORDER_NEW | ORDER_PARTIALLY_FILLED | ORDER_PENDING_CANCEL | ORDER_CANCELLED | ORDER_FILLED | ORDER_REJECTED
  | Other_state string

definition live_order_statuses :: "order_state list" where
  "live_order_statuses = [ORDER_NEW, ORDER_PARTIALLY_FILLED]"

definition terminal_order_statuses :: "order_state list" where
  "terminal_order_statuses = [ORDER_CANCELLED, ORDER_FILLED, ORDER_REJECTED]"

definition cancellable_order_statuses :: "order_state list" where
  "cancellable_order_statuses = live_order_statuses @ [ORDER_PENDING_CANCEL]"

definition known_order_statuses :: "order_state list" where
  "known_order_statuses = cancellable_order_statuses @ terminal_order_statuses"

definition parse_order_state :: "string \<Rightarrow> order_state" where
  "parse_order_state s = (case map_of
     [(''NEW'', ORDER_NEW), (''PARTIALLY_FILLED'', ORDER_PARTIALLY_FILLED), (''PENDING_CANCEL'', ORDER_PENDING_CANCEL),
      (''CANCELLED'', ORDER_CANCELLED), (''FILLED'', ORDER_FILLED), (''REJECTED'', ORDER_REJECTED)] s of
     Some st \<Rightarrow> st | None \<Rightarrow> Other_state s)"

datatype dispatch_status = DISPATCH_ACCEPTED | DISPATCH_REJECTED | DISPATCH_ERROR | DISPATCH_NO_GATEWAY

definition MASS_CANCEL_ALL_ORDERS :: string where "MASS_CANCEL_ALL_ORDERS = ''7''"

datatype ks_error = Kill_Switch_Error | Ks_Overflow | Ks_Attribute

datatype ks_reason =
    Given string
  | Loss_breach number number
  | Exposure_breach number number
  | Rate_breach bool int int
  | Unusable_data ks_error
  | Stale_data rat rat
  | Clock_skew rat rat

section \<open>Validated inputs\<close>

definition require_finite :: "number \<Rightarrow> ks_error option" where
  "require_finite v = (case v of
     N_int n \<Rightarrow> (case double_of_int n of None \<Rightarrow> Some Ks_Overflow | Some _ \<Rightarrow> None)
   | N_float _ \<Rightarrow> None
   | _ \<Rightarrow> Some Kill_Switch_Error)"

definition require_id :: "string \<Rightarrow> ks_error + string" where
  "require_id s = (if py_strip s = '''' then Inl Kill_Switch_Error else Inr (py_strip s))"

record risk_limits =
  max_daily_loss_usd :: number
  max_order_rate_per_sec :: int
  max_net_exposure_usd :: number
  max_snapshot_age_seconds :: "rat option"

definition positive_limit :: "number \<Rightarrow> ks_error option" where
  "positive_limit v = (case require_finite v of
     Some e \<Rightarrow> Some e | None \<Rightarrow> if num_rat v \<le> 0 then Some Kill_Switch_Error else None)"

definition make_limits :: "risk_limits \<Rightarrow> ks_error + risk_limits" where
  "make_limits L =
     (case positive_limit (max_daily_loss_usd L) of Some e \<Rightarrow> Inl e | None \<Rightarrow>
     (case positive_limit (max_net_exposure_usd L) of Some e \<Rightarrow> Inl e | None \<Rightarrow>
      if max_order_rate_per_sec L \<le> 0 then Inl Kill_Switch_Error
      else (case max_snapshot_age_seconds L of
          None \<Rightarrow> Inr L
        | Some age \<Rightarrow> if age \<le> 0 then Inl Kill_Switch_Error else Inr L)))"

record strategy_order =
  so_id :: string
  so_strategy :: string
  so_symbol :: string
  so_side :: string
  so_qty :: int
  so_price :: number
  so_status :: order_state
  so_venue :: string
  so_filled :: int

text \<open>The constructor of an order: every text stripped and non-empty, the side one of two.\<close>

definition make_strategy_order ::
    "string \<Rightarrow> string \<Rightarrow> string \<Rightarrow> string \<Rightarrow> int \<Rightarrow> number \<Rightarrow> string \<Rightarrow> string \<Rightarrow> int \<Rightarrow> ks_error + strategy_order" where
  "make_strategy_order cid strat smb side qty price status venue filled =
     (case require_id cid of Inl e \<Rightarrow> Inl e | Inr cid' \<Rightarrow>
     (case require_id strat of Inl e \<Rightarrow> Inl e | Inr strat' \<Rightarrow>
     (case require_id smb of Inl e \<Rightarrow> Inl e | Inr smb' \<Rightarrow>
     (case require_id venue of Inl e \<Rightarrow> Inl e | Inr venue' \<Rightarrow>
     (case require_id side of Inl e \<Rightarrow> Inl e | Inr side' \<Rightarrow>
      if py_upper side' \<notin> {''BUY'', ''SELL''} then Inl Kill_Switch_Error
      else if qty \<le> 0 then Inl Kill_Switch_Error
      else if \<not> (0 \<le> filled \<and> filled \<le> qty) then Inl Kill_Switch_Error
      else (case require_finite price of Some e \<Rightarrow> Inl e | None \<Rightarrow>
           (case require_id status of Inl e \<Rightarrow> Inl e | Inr status' \<Rightarrow>
            Inr \<lparr>so_id = cid', so_strategy = strat', so_symbol = smb', so_side = py_upper side',
                 so_qty = qty, so_price = price, so_status = parse_order_state (py_upper status'),
                 so_venue = venue', so_filled = filled\<rparr>)))))))"

definition remaining_qty :: "strategy_order \<Rightarrow> int" where
  "remaining_qty o' = so_qty o' - so_filled o'"

definition is_live :: "strategy_order \<Rightarrow> bool" where
  "is_live o' \<longleftrightarrow> so_status o' \<in> set live_order_statuses"

definition is_cancellable :: "strategy_order \<Rightarrow> bool" where
  "is_cancellable o' \<longleftrightarrow> so_status o' \<in> set cancellable_order_statuses"

record new_order_request =
  nr_id :: string
  nr_strategy :: string
  nr_symbol :: string
  nr_side :: string
  nr_qty :: int
  nr_price :: number
  nr_venue :: string

definition make_order_request ::
    "string \<Rightarrow> string \<Rightarrow> string \<Rightarrow> string \<Rightarrow> int \<Rightarrow> number \<Rightarrow> string \<Rightarrow> ks_error + new_order_request" where
  "make_order_request cid strat smb side qty price venue =
     (case require_id cid of Inl e \<Rightarrow> Inl e | Inr cid' \<Rightarrow>
     (case require_id strat of Inl e \<Rightarrow> Inl e | Inr strat' \<Rightarrow>
     (case require_id smb of Inl e \<Rightarrow> Inl e | Inr smb' \<Rightarrow>
     (case require_id venue of Inl e \<Rightarrow> Inl e | Inr venue' \<Rightarrow>
     (case require_id side of Inl e \<Rightarrow> Inl e | Inr side' \<Rightarrow>
      if qty \<le> 0 then Inl Kill_Switch_Error
      else (case require_finite price of Some e \<Rightarrow> Inl e | None \<Rightarrow>
            Inr \<lparr>nr_id = cid', nr_strategy = strat', nr_symbol = smb', nr_side = py_upper side',
                 nr_qty = qty, nr_price = price, nr_venue = venue'\<rparr>))))))"

text \<open>A point in time, aware or naive, in microseconds.\<close>

datatype stamp = Aware_at int | Naive_at int

record risk_snapshot =
  daily_pnl_usd :: number
  net_exposure_usd :: number
  order_rate_per_sec :: "int option"
  as_of :: "stamp option"

definition validate_snapshot :: "risk_snapshot \<Rightarrow> ks_error option" where
  "validate_snapshot S =
     (case require_finite (daily_pnl_usd S) of Some e \<Rightarrow> Some e | None \<Rightarrow>
     (case require_finite (net_exposure_usd S) of Some e \<Rightarrow> Some e | None \<Rightarrow>
      if (case order_rate_per_sec S of None \<Rightarrow> False | Some r \<Rightarrow> r < 0) then Some Kill_Switch_Error
      else (case as_of S of Some (Naive_at _) \<Rightarrow> Some Kill_Switch_Error | _ \<Rightarrow> None)))"

section \<open>Gateways\<close>

record mass_request =
  mr_id :: string
  mr_type :: string
  mr_venue :: string
  mr_time :: int

record mass_outcome =
  mo_accepted :: bool
  mo_response :: "string option"
  mo_reject_reason :: "string option"

datatype mass_reply = Mass_raises string | Mass_outcome mass_outcome | Mass_malformed

text \<open>The engine checks the type of a mass cancel's answer itself. It does not check the answer to an
  order-by-order cancel: \<open>results.get\<close> on one that is no mapping is an \<open>AttributeError\<close>, raised
  outside the \<open>try\<close> that guards the call of the gateway.\<close>

datatype cancel_reply = Cancel_raises string | Cancel_results "(string, bool) py_dict" | Cancel_malformed

record 'g gateway =
  mass_cancel :: "mass_request \<Rightarrow> 'g \<Rightarrow> mass_reply \<times> 'g"
  cancel_orders :: "string list \<Rightarrow> 'g \<Rightarrow> cancel_reply \<times> 'g"

record mass_dispatch =
  md_venue :: string
  md_status :: dispatch_status
  md_req_id :: "string option"
  md_type :: "string option"
  md_in_scope :: nat
  md_reject_reason :: "string option"

text \<open>\<open>InMemoryKillSwitchGateway\<close>: what it was asked to do, with its configured answers.\<close>

record memory_gateway =
  mg_outcome :: mass_outcome
  mg_raises :: "string option"
  mg_unsupported :: "string list"
  mg_requests :: "mass_request list"
  mg_cancelled :: "string list"

definition memory_mass_cancel :: "mass_request \<Rightarrow> memory_gateway \<Rightarrow> mass_reply \<times> memory_gateway" where
  "memory_mass_cancel rq g = (case mg_raises g of
     Some x \<Rightarrow> (Mass_raises x, g)
   | None \<Rightarrow> (Mass_outcome (mg_outcome g), g\<lparr>mg_requests := mg_requests g @ [rq]\<rparr>))"

fun memory_cancel_loop :: "string list \<Rightarrow> (string, bool) py_dict \<Rightarrow> memory_gateway \<Rightarrow> (string, bool) py_dict \<times> memory_gateway" where
  "memory_cancel_loop [] res g = (res, g)"
| "memory_cancel_loop (i # ids) res g =
     (let accepted = (i \<notin> set (mg_unsupported g));
          g' = (if accepted then g\<lparr>mg_cancelled := mg_cancelled g @ [i]\<rparr> else g)
      in memory_cancel_loop ids (py_set res i accepted) g')"

definition memory_cancel_orders :: "string list \<Rightarrow> memory_gateway \<Rightarrow> cancel_reply \<times> memory_gateway" where
  "memory_cancel_orders ids g = (case mg_raises g of
     Some x \<Rightarrow> (Cancel_raises x, g)
   | None \<Rightarrow> (let (res, g') = memory_cancel_loop ids [] g in (Cancel_results res, g')))"

section \<open>The engine\<close>

record kill_report =
  kr_event_id :: string
  kr_timestamp :: string
  kr_active :: bool
  kr_reason :: "ks_reason option"
  kr_code :: "trigger_code option"
  kr_scope :: ks_scope
  kr_target :: "string option"
  kr_cancel_requested :: nat
  kr_tag_530 :: "string option"
  kr_blocked :: bool
  kr_status :: ks_status
  kr_triggered_by :: string
  kr_dispatches :: "mass_dispatch list"
  kr_pending :: "string list"
  kr_uncancelled :: "string list"
  kr_manual :: bool
  kr_repeat :: bool

definition is_fully_dispatched :: "kill_report \<Rightarrow> bool" where
  "is_fully_dispatched r \<longleftrightarrow> kr_uncancelled r = []"

text \<open>What the engine is built with: its limits, its gateways by venue and its clock.\<close>

record 'g ks_setup =
  ks_limits :: risk_limits
  ks_gateways :: "(string, 'g gateway) py_dict"
  ks_clock :: "nat \<Rightarrow> stamp"

record 'g kill_engine =
  global_kill_engaged :: bool
  global_kill_reason :: "ks_reason option"
  global_kill_engaged_at :: "int option"
  strategy_kills :: "(string, ks_reason) py_dict"
  active_orders :: "(string, strategy_order) py_dict"
  manual_intervention_required :: bool
  kill_trail :: "kill_report list"
  event_seq :: nat
  order_entry_times :: "int list"
  ks_reads :: nat
  gateway_state :: 'g

definition new_kill_engine :: "'g \<Rightarrow> 'g kill_engine" where
  "new_kill_engine g = \<lparr>global_kill_engaged = False, global_kill_reason = None, global_kill_engaged_at = None,
     strategy_kills = [], active_orders = [], manual_intervention_required = False, kill_trail = [],
     event_seq = 0, order_entry_times = [], ks_reads = 0, gateway_state = g\<rparr>"

definition pending_cancel_order_ids :: "'g kill_engine \<Rightarrow> string list" where
  "pending_cancel_order_ids e =
     sort (map fst (filter (\<lambda>(k, o'). so_status o' = ORDER_PENDING_CANCEL) (active_orders e)))"

definition is_blocked :: "'g kill_engine \<Rightarrow> string option \<Rightarrow> bool" where
  "is_blocked e strategy_id \<longleftrightarrow> global_kill_engaged e \<or>
     (case strategy_id of None \<Rightarrow> False | Some s \<Rightarrow> s \<noteq> '''' \<and> py_get (strategy_kills e) s \<noteq> None)"

definition register_active_order :: "strategy_order \<Rightarrow> 'g kill_engine \<Rightarrow> (ks_error + unit) \<times> 'g kill_engine" where
  "register_active_order order e =
     (case py_get (active_orders e) (so_id order) of
        Some existing \<Rightarrow>
          (if so_status existing \<notin> set terminal_order_statuses then (Inl Kill_Switch_Error, e)
           else (Inr (), e\<lparr>active_orders := py_set (active_orders e) (so_id order) order\<rparr>))
      | None \<Rightarrow> (Inr (), e\<lparr>active_orders := py_set (active_orders e) (so_id order) order\<rparr>))"

definition apply_execution_report ::
    "string \<Rightarrow> string \<Rightarrow> int option \<Rightarrow> 'g kill_engine \<Rightarrow> (ks_error + strategy_order) \<times> 'g kill_engine" where
  "apply_execution_report cid0 status0 filled e =
     (case require_id cid0 of Inl x \<Rightarrow> (Inl x, e) | Inr cid \<Rightarrow>
     (case require_id status0 of Inl x \<Rightarrow> (Inl x, e) | Inr status1 \<Rightarrow>
      let status = parse_order_state (py_upper status1) in
      if status \<notin> set known_order_statuses then (Inl Kill_Switch_Error, e)
      else (case py_get (active_orders e) cid of
          None \<Rightarrow> (Inl Kill_Switch_Error, e)
        | Some order \<Rightarrow>
            (if (case filled of None \<Rightarrow> False | Some q \<Rightarrow> \<not> (0 \<le> q \<and> q \<le> so_qty order))
             then (Inl Kill_Switch_Error, e)
             else
               (let order' = order\<lparr>so_filled := (case filled of None \<Rightarrow> so_filled order | Some q \<Rightarrow> q),
                                   so_status := status\<rparr>
                in (Inr order', e\<lparr>active_orders := py_set (active_orders e) cid order'\<rparr>))))))"

section \<open>Time and event identifiers\<close>

definition iso_millis :: "int \<Rightarrow> string" where
  "iso_millis t =
     (let us = t mod 86400000000; s = us div 1000000
      in iso_date (t div 86400000000) @ ''T'' @ pad_int 2 (s div 3600) @ '':'' @ pad_int 2 (s div 60 mod 60) @
         '':'' @ pad_int 2 (s mod 60) @ ''.'' @ pad_int 3 (us mod 1000000 div 1000) @ ''+00:00'')"

definition now_of :: "'g ks_setup \<Rightarrow> 'g kill_engine \<Rightarrow> (ks_error + int) \<times> 'g kill_engine" where
  "now_of C e = (case ks_clock C (ks_reads e) of
     Aware_at t \<Rightarrow> (Inr t, e\<lparr>ks_reads := Suc (ks_reads e)\<rparr>)
   | Naive_at _ \<Rightarrow> (Inl Kill_Switch_Error, e\<lparr>ks_reads := Suc (ks_reads e)\<rparr>))"

definition next_event_id :: "int \<Rightarrow> 'g kill_engine \<Rightarrow> string \<times> 'g kill_engine" where
  "next_event_id now e =
     (let n = Suc (event_seq e); (y, m, d) = civil_date (now div 86400000000);
          s = now mod 86400000000 div 1000000
      in (''KS-'' @ pad_int 4 y @ pad_int 2 m @ pad_int 2 d @ ''T'' @ pad_int 2 (s div 3600) @
          pad_int 2 (s div 60 mod 60) @ pad_int 2 (s mod 60) @ ''-'' @ pad_int 6 (int n), e\<lparr>event_seq := n\<rparr>))"

definition record_order_attempt :: "int \<Rightarrow> int list \<Rightarrow> int list" where
  "record_order_attempt now entries =
     (let ts = entries @ [now]; cutoff = now - 1000000 in
      if length ts > 1 \<and> hd ts \<le> cutoff then filter (\<lambda>t. t > cutoff) ts else ts)"

definition observed_order_rate :: "int \<Rightarrow> int list \<Rightarrow> int" where
  "observed_order_rate now entries = int (length (filter (\<lambda>t. t > now - 1000000) entries))"

section \<open>Limits\<close>

definition staleness_reason :: "risk_limits \<Rightarrow> risk_snapshot \<Rightarrow> int \<Rightarrow> ks_reason option" where
  "staleness_reason L S now =
     (case (max_snapshot_age_seconds L, as_of S) of
        (Some max_age, Some (Aware_at t)) \<Rightarrow>
          (let age = of_int (now - t) / 1000000 in
           if age > max_age then Some (Stale_data age max_age)
           else if age < - max_age then Some (Clock_skew (- age) max_age)
           else None)
      | _ \<Rightarrow> None)"

fun negate :: "number \<Rightarrow> number" where
  "negate (N_int n) = N_int (- n)"
| "negate (N_float r) = N_float (- r)"
| "negate N_nan = N_nan"
| "negate (N_inf pos) = N_inf (\<not> pos)"

fun magnitude :: "number \<Rightarrow> number" where
  "magnitude (N_int n) = N_int \<bar>n\<bar>"
| "magnitude (N_float r) = N_float \<bar>r\<bar>"
| "magnitude N_nan = N_nan"
| "magnitude (N_inf _) = N_inf True"

text \<open>Python's \<open>a >= b\<close>, false of a NaN.\<close>

fun at_least :: "number \<Rightarrow> number \<Rightarrow> bool" where
  "at_least N_nan _ \<longleftrightarrow> False"
| "at_least _ N_nan \<longleftrightarrow> False"
| "at_least (N_inf True) _ \<longleftrightarrow> True"
| "at_least (N_inf False) b \<longleftrightarrow> b = N_inf False"
| "at_least _ (N_inf pos) \<longleftrightarrow> \<not> pos"
| "at_least a b \<longleftrightarrow> num_rat a \<ge> num_rat b"

text \<open>\<open>_first_breach\<close>; the clock is read only when the rate must be observed and no time was given.\<close>

definition time_given :: "'g ks_setup \<Rightarrow> int option \<Rightarrow> 'g kill_engine \<Rightarrow> (ks_error + int) \<times> 'g kill_engine" where
  "time_given C now e = (case now of Some t \<Rightarrow> (Inr t, e) | None \<Rightarrow> now_of C e)"

definition rate_breach :: "risk_limits \<Rightarrow> bool \<Rightarrow> int \<Rightarrow> (trigger_code \<times> ks_reason) option" where
  "rate_breach L reported rate =
     (if rate \<ge> max_order_rate_per_sec L
      then Some (RUNAWAY_ORDER_RATE, Rate_breach reported rate (max_order_rate_per_sec L)) else None)"

definition first_breach ::
    "'g ks_setup \<Rightarrow> risk_snapshot \<Rightarrow> int option \<Rightarrow> 'g kill_engine \<Rightarrow>
     (ks_error + (trigger_code \<times> ks_reason) option) \<times> 'g kill_engine" where
  "first_breach C S now e =
     (let L = ks_limits C; loss = negate (daily_pnl_usd S); exposure = magnitude (net_exposure_usd S) in
      if at_least loss (max_daily_loss_usd L)
        then (Inr (Some (MAX_LOSS_BREACH, Loss_breach loss (max_daily_loss_usd L))), e)
      else if at_least exposure (max_net_exposure_usd L)
        then (Inr (Some (MAX_EXPOSURE_BREACH, Exposure_breach exposure (max_net_exposure_usd L))), e)
      else (case order_rate_per_sec S of
          Some rate \<Rightarrow> (Inr (rate_breach L True rate), e)
        | None \<Rightarrow>
            (case time_given C now e of
               (Inl x, e1) \<Rightarrow> (Inl x, e1)
             | (Inr t, e1) \<Rightarrow> (Inr (rate_breach L False (observed_order_rate t (order_entry_times e1))), e1))))"

section \<open>Dispatching cancels\<close>

definition escalate :: "'g kill_engine \<Rightarrow> 'g kill_engine" where
  "escalate e = e\<lparr>manual_intervention_required := True\<rparr>"

text \<open>\<open>order.order_status = PENDING_CANCEL\<close> for the orders with some identifiers.\<close>

definition mark_pending :: "string list \<Rightarrow> 'g kill_engine \<Rightarrow> 'g kill_engine" where
  "mark_pending ids e = e\<lparr>active_orders :=
     map (\<lambda>(k, o'). (k, if k \<in> set ids then o'\<lparr>so_status := ORDER_PENDING_CANCEL\<rparr> else o')) (active_orders e)\<rparr>"

definition venue_orders :: "strategy_order list \<Rightarrow> string \<Rightarrow> strategy_order list" where
  "venue_orders in_scope venue = filter (\<lambda>o'. so_venue o' = venue) in_scope"

definition no_gateway :: "string \<Rightarrow> nat \<Rightarrow> mass_dispatch" where
  "no_gateway venue n = \<lparr>md_venue = venue, md_status = DISPATCH_NO_GATEWAY, md_req_id = None, md_type = None,
     md_in_scope = n, md_reject_reason = None\<rparr>"

definition send_mass_cancel ::
    "'g gateway \<Rightarrow> mass_request \<Rightarrow> nat \<Rightarrow> 'g kill_engine \<Rightarrow> (ks_error + mass_dispatch \<times> bool) \<times> 'g kill_engine" where
  "send_mass_cancel gw rq n e =
     (let (answer, g) = mass_cancel gw rq (gateway_state e);
          e1 = e\<lparr>gateway_state := g\<rparr>;
          report = (\<lambda>st rr. \<lparr>md_venue = mr_venue rq, md_status = st, md_req_id = Some (mr_id rq),
             md_type = Some (mr_type rq), md_in_scope = n, md_reject_reason = rr\<rparr>)
      in case answer of
        Mass_raises _ \<Rightarrow> (Inr (report DISPATCH_ERROR None, False), escalate e1)
      | Mass_malformed \<Rightarrow> (Inl Kill_Switch_Error, escalate e1)
      | Mass_outcome outcome \<Rightarrow>
          (if mo_accepted outcome then (Inr (report DISPATCH_ACCEPTED None, True), e1)
           else (Inr (report DISPATCH_REJECTED (mo_reject_reason outcome), False), escalate e1)))"

fun global_cancel_loop ::
    "'g ks_setup \<Rightarrow> strategy_order list \<Rightarrow> string \<Rightarrow> int \<Rightarrow> string list \<Rightarrow> mass_dispatch list \<Rightarrow> string list \<Rightarrow>
     'g kill_engine \<Rightarrow> (ks_error + mass_dispatch list \<times> string list) \<times> 'g kill_engine" where
  "global_cancel_loop C in_scope event_id now [] ds un e = (Inr (ds, un), e)"
| "global_cancel_loop C in_scope event_id now (venue # venues) ds un e =
     (let os = venue_orders in_scope venue in
      case py_get (ks_gateways C) venue of
        None \<Rightarrow> global_cancel_loop C in_scope event_id now venues (ds @ [no_gateway venue (length os)])
                  (un @ map so_id os) (escalate e)
      | Some gw \<Rightarrow>
          (let rq = \<lparr>mr_id = event_id @ ''-'' @ venue, mr_type = MASS_CANCEL_ALL_ORDERS, mr_venue = venue, mr_time = now\<rparr> in
           case send_mass_cancel gw rq (length os) e of
             (Inl x, e1) \<Rightarrow> (Inl x, e1)
           | (Inr (d, accepted), e1) \<Rightarrow>
               (if accepted
                then global_cancel_loop C in_scope event_id now venues (ds @ [d]) un (mark_pending (map so_id os) e1)
                else global_cancel_loop C in_scope event_id now venues (ds @ [d]) (un @ map so_id os) e1)))"

definition dispatch_global_cancel ::
    "'g ks_setup \<Rightarrow> strategy_order list \<Rightarrow> string \<Rightarrow> int \<Rightarrow> 'g kill_engine \<Rightarrow>
     (ks_error + mass_dispatch list \<times> string list) \<times> 'g kill_engine" where
  "dispatch_global_cancel C in_scope event_id now e =
     (if ks_gateways C = [] then
        (Inr ([no_gateway ''*'' (length in_scope)], map so_id in_scope), escalate e)
      else
        global_cancel_loop C in_scope event_id now
          (sort (remdups (map fst (ks_gateways C) @ map so_venue in_scope))) [] [] e)"

fun order_cancel_loop ::
    "'g ks_setup \<Rightarrow> strategy_order list \<Rightarrow> string \<Rightarrow> string list \<Rightarrow> mass_dispatch list \<Rightarrow> string list \<Rightarrow>
     'g kill_engine \<Rightarrow> (ks_error + mass_dispatch list \<times> string list) \<times> 'g kill_engine" where
  "order_cancel_loop C in_scope event_id [] ds un e = (Inr (ds, un), e)"
| "order_cancel_loop C in_scope event_id (venue # venues) ds un e =
     (let os = venue_orders in_scope venue; ids = map so_id os;
          report = (\<lambda>st. \<lparr>md_venue = venue, md_status = st, md_req_id = Some (event_id @ ''-'' @ venue),
             md_type = None, md_in_scope = length os, md_reject_reason = None\<rparr>) in
      case py_get (ks_gateways C) venue of
        None \<Rightarrow> order_cancel_loop C in_scope event_id venues (ds @ [no_gateway venue (length os)]) (un @ ids) (escalate e)
      | Some gw \<Rightarrow>
          (let (answer, g) = cancel_orders gw ids (gateway_state e); e1 = e\<lparr>gateway_state := g\<rparr> in
           case answer of
             Cancel_raises _ \<Rightarrow>
               order_cancel_loop C in_scope event_id venues (ds @ [report DISPATCH_ERROR]) (un @ ids) (escalate e1)
           | Cancel_malformed \<Rightarrow> (Inl Ks_Attribute, e1)
           | Cancel_results results \<Rightarrow>
               (let ok = (\<lambda>i. py_get results i = Some True);
                    accepted_ids = filter ok ids; refused_ids = filter (\<lambda>i. \<not> ok i) ids;
                    e2 = mark_pending accepted_ids e1;
                    e3 = (if refused_ids \<noteq> [] then escalate e2 else e2)
                in order_cancel_loop C in_scope event_id venues
                     (ds @ [report (if refused_ids = [] then DISPATCH_ACCEPTED else DISPATCH_REJECTED)])
                     (un @ refused_ids) e3)))"

definition dispatch_order_by_order_cancel ::
    "'g ks_setup \<Rightarrow> strategy_order list \<Rightarrow> string \<Rightarrow> 'g kill_engine \<Rightarrow>
     (ks_error + mass_dispatch list \<times> string list) \<times> 'g kill_engine" where
  "dispatch_order_by_order_cancel C in_scope event_id e =
     order_cancel_loop C in_scope event_id (sort (remdups (map so_venue in_scope))) [] [] e"

section \<open>Triggers\<close>

text \<open>A reason given as text must not be blank.\<close>

definition clean_reason :: "ks_reason \<Rightarrow> ks_error + ks_reason" where
  "clean_reason r = (case r of
     Given s \<Rightarrow> (case require_id s of Inl x \<Rightarrow> Inl x | Inr s' \<Rightarrow> Inr (Given s'))
   | _ \<Rightarrow> Inr r)"

definition parse_scope :: "string \<Rightarrow> ks_error + ks_scope" where
  "parse_scope s = (case require_id s of Inl x \<Rightarrow> Inl x | Inr s' \<Rightarrow>
     if py_upper s' = ''GLOBAL'' then Inr SCOPE_GLOBAL
     else if py_upper s' = ''STRATEGY'' then Inr SCOPE_STRATEGY
     else Inl Kill_Switch_Error)"

text \<open>The strategy a scope is about: none for the global scope, a stripped name otherwise.\<close>

definition scope_strategy :: "ks_scope \<Rightarrow> string option \<Rightarrow> ks_error + string option" where
  "scope_strategy scope strategy_id =
     (if scope \<noteq> SCOPE_STRATEGY then Inr strategy_id
      else (case strategy_id of
          None \<Rightarrow> Inl Kill_Switch_Error
        | Some s \<Rightarrow> if py_strip s = '''' then Inl Kill_Switch_Error else Inr (Some (py_strip s))))"

text \<open>Step 1 of a trigger: the latch, and the orders in its scope.\<close>

definition latch :: "ks_scope \<Rightarrow> string option \<Rightarrow> ks_reason \<Rightarrow> int \<Rightarrow> 'g kill_engine \<Rightarrow> bool \<times> 'g kill_engine" where
  "latch scope strategy_id reason now e =
     (if scope = SCOPE_GLOBAL then
        (let repeat = global_kill_engaged e; e1 = e\<lparr>global_kill_engaged := True\<rparr>
         in (repeat, if repeat then e1
             else e1\<lparr>global_kill_reason := Some reason, global_kill_engaged_at := Some now\<rparr>))
      else
        (let s = the strategy_id; repeat = (py_get (strategy_kills e) s \<noteq> None)
         in (repeat, if repeat then e else e\<lparr>strategy_kills := py_set (strategy_kills e) s reason\<rparr>)))"

definition in_scope_orders :: "ks_scope \<Rightarrow> string option \<Rightarrow> 'g kill_engine \<Rightarrow> strategy_order list" where
  "in_scope_orders scope strategy_id e =
     filter (\<lambda>o'. is_cancellable o' \<and> (scope = SCOPE_GLOBAL \<or> Some (so_strategy o') = strategy_id))
       (py_values (active_orders e))"

definition dispatch_cancel ::
    "'g ks_setup \<Rightarrow> ks_scope \<Rightarrow> strategy_order list \<Rightarrow> string \<Rightarrow> int \<Rightarrow> 'g kill_engine \<Rightarrow>
     (ks_error + mass_dispatch list \<times> string list) \<times> 'g kill_engine" where
  "dispatch_cancel C scope in_scope event_id now e =
     (if scope = SCOPE_GLOBAL then dispatch_global_cancel C in_scope event_id now e
      else dispatch_order_by_order_cancel C in_scope event_id e)"

definition engaged_report ::
    "ks_scope \<Rightarrow> ks_reason \<Rightarrow> string option \<Rightarrow> string \<Rightarrow> trigger_code option \<Rightarrow> string \<Rightarrow> int \<Rightarrow> nat \<Rightarrow> bool \<Rightarrow>
     mass_dispatch list \<Rightarrow> string list \<Rightarrow> 'g kill_engine \<Rightarrow> kill_report" where
  "engaged_report scope reason strategy_id triggered_by code event_id now n repeat dispatches uncancelled e =
     \<lparr>kr_event_id = event_id, kr_timestamp = iso_millis now, kr_active = True, kr_reason = Some reason,
      kr_code = Some (case code of
          Some c \<Rightarrow> if c = Caller_code '''' then MANUAL_OVERRIDE else c | None \<Rightarrow> MANUAL_OVERRIDE),
      kr_scope = scope, kr_target = (if scope = SCOPE_STRATEGY then strategy_id else None),
      kr_cancel_requested = n,
      kr_tag_530 = (if scope = SCOPE_GLOBAL then Some MASS_CANCEL_ALL_ORDERS else None),
      kr_blocked = True, kr_status = KILL_SWITCH_ENGAGED, kr_triggered_by = triggered_by,
      kr_dispatches = dispatches, kr_pending = pending_cancel_order_ids e,
      kr_uncancelled = sort uncancelled, kr_manual = manual_intervention_required e, kr_repeat = repeat\<rparr>"

definition trigger_locked ::
    "'g ks_setup \<Rightarrow> ks_scope \<Rightarrow> ks_reason \<Rightarrow> string option \<Rightarrow> string \<Rightarrow> trigger_code option \<Rightarrow> 'g kill_engine \<Rightarrow>
     (ks_error + kill_report) \<times> 'g kill_engine" where
  "trigger_locked C scope reason strategy_id triggered_by code e0 =
     (case now_of C e0 of (Inl x, e1) \<Rightarrow> (Inl x, e1) | (Inr now, e1) \<Rightarrow>
      let (event_id, e2) = next_event_id now e1;
          (repeat, e3) = latch scope strategy_id reason now e2;
          in_scope = in_scope_orders scope strategy_id e3
      in case dispatch_cancel C scope in_scope event_id now e3 of
           (Inl x, e4) \<Rightarrow> (Inl x, e4)
         | (Inr (dispatches, uncancelled), e4) \<Rightarrow>
             (let report = engaged_report scope reason strategy_id triggered_by code event_id now (length in_scope)
                    repeat dispatches uncancelled e4
              in (Inr report, e4\<lparr>kill_trail := kill_trail e4 @ [report]\<rparr>)))"

definition trigger_kill_switch ::
    "'g ks_setup \<Rightarrow> string \<Rightarrow> ks_reason \<Rightarrow> string option \<Rightarrow> string \<Rightarrow> trigger_code option \<Rightarrow> 'g kill_engine \<Rightarrow>
     (ks_error + kill_report) \<times> 'g kill_engine" where
  "trigger_kill_switch C scope0 reason0 strategy0 triggered0 code e =
     (case require_id scope0 of Inl x \<Rightarrow> (Inl x, e) | Inr _ \<Rightarrow>
     (case clean_reason reason0 of Inl x \<Rightarrow> (Inl x, e) | Inr reason \<Rightarrow>
     (case require_id triggered0 of Inl x \<Rightarrow> (Inl x, e) | Inr triggered_by \<Rightarrow>
     (case parse_scope scope0 of Inl x \<Rightarrow> (Inl x, e) | Inr scope \<Rightarrow>
     (case scope_strategy scope strategy0 of Inl x \<Rightarrow> (Inl x, e) | Inr strategy_id \<Rightarrow>
      trigger_locked C scope reason strategy_id triggered_by code e)))))"

section \<open>Reports of decisions\<close>

definition plain_report ::
    "'g ks_setup \<Rightarrow> bool \<Rightarrow> ks_reason option \<Rightarrow> trigger_code option \<Rightarrow> ks_scope \<Rightarrow> string option \<Rightarrow> bool \<Rightarrow> ks_status \<Rightarrow>
     string \<Rightarrow> string list \<Rightarrow> 'g kill_engine \<Rightarrow> (ks_error + kill_report) \<times> 'g kill_engine" where
  "plain_report C active reason code scope target blocked status by pending e =
     (case now_of C e of (Inl x, e1) \<Rightarrow> (Inl x, e1) | (Inr now, e1) \<Rightarrow>
      let (event_id, e2) = next_event_id now e1 in
      (Inr \<lparr>kr_event_id = event_id, kr_timestamp = iso_millis now, kr_active = active, kr_reason = reason,
            kr_code = code, kr_scope = scope, kr_target = target, kr_cancel_requested = 0, kr_tag_530 = None,
            kr_blocked = blocked, kr_status = status, kr_triggered_by = by, kr_dispatches = [],
            kr_pending = pending, kr_uncancelled = [], kr_manual = manual_intervention_required e2,
            kr_repeat = False\<rparr>, e2))"

definition normal_report :: "'g ks_setup \<Rightarrow> string \<Rightarrow> 'g kill_engine \<Rightarrow> (ks_error + kill_report) \<times> 'g kill_engine" where
  "normal_report C by e = plain_report C False None None SCOPE_NONE None False NORMAL_OPERATIONS by [] e"

definition rejection_report ::
    "'g ks_setup \<Rightarrow> ks_reason option \<Rightarrow> trigger_code \<Rightarrow> ks_scope \<Rightarrow> string option \<Rightarrow> ks_status \<Rightarrow> 'g kill_engine \<Rightarrow>
     (ks_error + kill_report) \<times> 'g kill_engine" where
  "rejection_report C reason code scope target status e =
     plain_report C (status = REJECTED_KILL_SWITCH_ACTIVE) reason (Some code) scope target True status
       ''PRE_TRADE_RISK_GATE'' (pending_cancel_order_ids e) e"

definition evaluate_risk_state ::
    "'g ks_setup \<Rightarrow> risk_snapshot \<Rightarrow> string \<Rightarrow> 'g kill_engine \<Rightarrow> (ks_error + kill_report) \<times> 'g kill_engine" where
  "evaluate_risk_state C S by e =
     (case validate_snapshot S of Some x \<Rightarrow> (Inl x, e) | None \<Rightarrow>
      (case first_breach C S None e of
         (Inl x, e1) \<Rightarrow> (Inl x, e1)
       | (Inr None, e1) \<Rightarrow> normal_report C by e1
       | (Inr (Some (code, reason)), e1) \<Rightarrow> trigger_kill_switch C ''GLOBAL'' reason None by (Some code) e1))"

definition audit_and_validate_new_order ::
    "'g ks_setup \<Rightarrow> new_order_request \<Rightarrow> risk_snapshot \<Rightarrow> bool \<Rightarrow> 'g kill_engine \<Rightarrow>
     (ks_error + kill_report) \<times> 'g kill_engine" where
  "audit_and_validate_new_order C req S count_toward_rate e0 =
     (case now_of C e0 of (Inl x, e1) \<Rightarrow> (Inl x, e1) | (Inr now, e1) \<Rightarrow>
      let e = (if count_toward_rate
               then e1\<lparr>order_entry_times := record_order_attempt now (order_entry_times e1)\<rparr> else e1) in
      if global_kill_engaged e then
        rejection_report C (global_kill_reason e) KILL_SWITCH_ALREADY_ACTIVE SCOPE_GLOBAL None REJECTED_KILL_SWITCH_ACTIVE e
      else case py_get (strategy_kills e) (nr_strategy req) of
        Some reason \<Rightarrow>
          rejection_report C (Some reason) KILL_SWITCH_ALREADY_ACTIVE SCOPE_STRATEGY (Some (nr_strategy req))
            REJECTED_KILL_SWITCH_ACTIVE e
      | None \<Rightarrow>
          (case validate_snapshot S of
             Some Kill_Switch_Error \<Rightarrow>
               rejection_report C (Some (Unusable_data Kill_Switch_Error)) RISK_DATA_INVALID SCOPE_NONE None
                 REJECTED_RISK_DATA_INVALID e
           | Some x \<Rightarrow> (Inl x, e)
           | None \<Rightarrow>
               (case staleness_reason (ks_limits C) S now of
                  Some stale \<Rightarrow>
                    rejection_report C (Some stale) RISK_DATA_STALE SCOPE_NONE None REJECTED_RISK_DATA_INVALID e
                | None \<Rightarrow>
                    (case first_breach C S (Some now) e of
                       (Inl x, e2) \<Rightarrow> (Inl x, e2)
                     | (Inr (Some (code, reason)), e2) \<Rightarrow>
                         trigger_kill_switch C ''GLOBAL'' reason None ''PRE_TRADE_RISK_GATE'' (Some code) e2
                     | (Inr None, e2) \<Rightarrow> normal_report C ''PRE_TRADE_RISK_GATE'' e2))))"

section \<open>Reset\<close>

definition rearm :: "ks_scope \<Rightarrow> string option \<Rightarrow> 'g kill_engine \<Rightarrow> 'g kill_engine" where
  "rearm scope strategy_id e =
     (if scope = SCOPE_GLOBAL
      then e\<lparr>global_kill_engaged := False, global_kill_reason := None, global_kill_engaged_at := None,
             manual_intervention_required := False\<rparr>
      else e\<lparr>strategy_kills := py_del (strategy_kills e) (the strategy_id)\<rparr>)"

definition reset_kill_switch ::
    "'g ks_setup \<Rightarrow> string \<Rightarrow> string \<Rightarrow> string \<Rightarrow> string option \<Rightarrow> bool \<Rightarrow> 'g kill_engine \<Rightarrow>
     (ks_error + kill_report) \<times> 'g kill_engine" where
  "reset_kill_switch C scope0 authorized0 reason0 strategy0 acknowledge_unconfirmed e =
     (case require_id scope0 of Inl x \<Rightarrow> (Inl x, e) | Inr _ \<Rightarrow>
     (case require_id authorized0 of Inl x \<Rightarrow> (Inl x, e) | Inr authorized_by \<Rightarrow>
     (case require_id reason0 of Inl x \<Rightarrow> (Inl x, e) | Inr reason \<Rightarrow>
     (case parse_scope scope0 of Inl x \<Rightarrow> (Inl x, e) | Inr scope \<Rightarrow>
     (case scope_strategy scope strategy0 of Inl x \<Rightarrow> (Inl x, e) | Inr strategy_id \<Rightarrow>
      let pending = pending_cancel_order_ids e in
      if (pending \<noteq> [] \<or> manual_intervention_required e) \<and> \<not> acknowledge_unconfirmed then (Inl Kill_Switch_Error, e)
      else
        (let e1 = rearm scope strategy_id e in
         case plain_report C (is_blocked e1 strategy_id) (Some (Given reason)) None scope
                (if scope = SCOPE_STRATEGY then strategy_id else None) (is_blocked e1 strategy_id)
                KILL_SWITCH_RESET authorized_by pending e1 of
           (Inl x, e2) \<Rightarrow> (Inl x, e2)
         | (Inr report, e2) \<Rightarrow> (Inr report, e2\<lparr>kill_trail := kill_trail e2 @ [report]\<rparr>)))))))"

section \<open>Events\<close>

datatype ks_event =
    Register strategy_order
  | Execution_report string string "int option"
  | Trigger string string "string option" string "string option"
  | Evaluate risk_snapshot string
  | Validate new_order_request risk_snapshot bool
  | Reset string string string "string option" bool

fun ks_step :: "'g ks_setup \<Rightarrow> ks_event \<Rightarrow> 'g kill_engine \<Rightarrow> 'g kill_engine" where
  "ks_step C (Register o') e = snd (register_active_order o' e)"
| "ks_step C (Execution_report i s q) e = snd (apply_execution_report i s q e)"
| "ks_step C (Trigger sc r s b c) e = snd (trigger_kill_switch C sc (Given r) s b (map_option Caller_code c) e)"
| "ks_step C (Evaluate S b) e = snd (evaluate_risk_state C S b e)"
| "ks_step C (Validate rq S n) e = snd (audit_and_validate_new_order C rq S n e)"
| "ks_step C (Reset sc b r s a) e = snd (reset_kill_switch C sc b r s a e)"

end
