(* ===== verification/Kill_Dispatch.thy ===== *)
theory Kill_Dispatch
  imports Kill_Switch
begin

text \<open>
  What a trigger can change. A dispatch accounts for every order it was given: each is marked
  for cancel or listed as uncancelled, whichever venues refuse or raise. A dispatch that itself
  raises has called for a human, unless it tripped over an answer that is no mapping. On top of
  it, the effect of a whole trigger on the part of the state that decides about orders.
\<close>

section \<open>What a dispatch may change\<close>

text \<open>
  A dispatch moves some orders to \<open>PENDING_CANCEL\<close>, may call for a human and talks to the
  gateways. Nothing else of the engine changes.
\<close>

definition swept :: "string list \<Rightarrow> bool \<Rightarrow> 'g \<Rightarrow> 'g kill_engine \<Rightarrow> 'g kill_engine" where
  "swept ids m g e = (mark_pending ids e)\<lparr>manual_intervention_required := m, gateway_state := g\<rparr>"

definition pended :: "string list \<Rightarrow> string \<Rightarrow> strategy_order \<Rightarrow> strategy_order" where
  "pended ids k o' = (if k \<in> set ids then o'\<lparr>so_status := ORDER_PENDING_CANCEL\<rparr> else o')"

lemma pended_pended: "pended b k (pended a k o') = pended (a @ b) k o'"
  by (simp add: pended_def)

definition pend_all :: "string list \<Rightarrow> (string, strategy_order) py_dict \<Rightarrow> (string, strategy_order) py_dict" where
  "pend_all ids d = map (\<lambda>(k, o'). (k, pended ids k o')) d"

lemma pend_all_append: "pend_all b (pend_all a d) = pend_all (a @ b) d"
  by (auto simp: pend_all_def pended_pended)

lemma pend_all_Nil: "pend_all [] d = d"
  by (simp add: pend_all_def pended_def case_prod_beta)

lemma mark_pending_alt: "mark_pending ids e = e\<lparr>active_orders := pend_all ids (active_orders e)\<rparr>"
  by (simp add: mark_pending_def pend_all_def pended_def)

lemma mark_pending_append: "mark_pending b (mark_pending a e) = mark_pending (a @ b) e"
  by (simp add: mark_pending_alt pend_all_append)

lemma mark_pending_Nil: "mark_pending [] e = e"
  by (simp add: mark_pending_alt pend_all_Nil)

lemma swept_swept: "swept b m' g' (swept a m g e) = swept (a @ b) m' g' e"
  by (simp add: swept_def mark_pending_alt pend_all_append)

lemma mark_pending_swept: "mark_pending b (swept a m g e) = swept (a @ b) m g e"
  by (simp add: swept_def mark_pending_alt pend_all_append)

lemma escalate_swept: "escalate (swept a m g e) = swept a True g e"
  by (simp add: escalate_def swept_def)

lemma gateway_swept: "(swept a m g e)\<lparr>gateway_state := g'\<rparr> = swept a m g' e"
  by (simp add: swept_def)

lemma swept_refl: "e = swept [] (manual_intervention_required e) (gateway_state e) e"
  by (simp add: swept_def mark_pending_Nil)

lemma swept_sel [simp]:
  "global_kill_engaged (swept a m g e) = global_kill_engaged e"
  "strategy_kills (swept a m g e) = strategy_kills e"
  "manual_intervention_required (swept a m g e) = m"
  "gateway_state (swept a m g e) = g"
  "event_seq (swept a m g e) = event_seq e"
  "ks_reads (swept a m g e) = ks_reads e"
  "kill_trail (swept a m g e) = kill_trail e"
  "order_entry_times (swept a m g e) = order_entry_times e"
  by (simp_all add: swept_def mark_pending_def)

lemma py_get_map_values: "py_get (map (\<lambda>(k, v). (k, f k v)) d) k = map_option (f k) (py_get d k)"
  by (induction d) (auto simp: py_get_def)

lemma swept_orders:
  "active_orders (swept ids m g e) = pend_all ids (active_orders e)"
  by (simp add: swept_def mark_pending_alt)

lemma swept_get: "py_get (active_orders (swept ids m g e)) k = map_option (pended ids k) (py_get (active_orders e) k)"
  by (simp add: swept_orders pend_all_def py_get_map_values)

text \<open>
  The account of a dispatch: every order of the venues visited was accepted for cancel or is
  in the list of the uncancelled, and an order in that list has called for a human.
\<close>

definition swept_all :: "string set \<Rightarrow> string list \<Rightarrow> string list \<Rightarrow> 'g kill_engine \<Rightarrow> 'g kill_engine \<Rightarrow> bool" where
  "swept_all S un un' e e' \<longleftrightarrow> (\<exists>ids m g extra. e' = swept ids m g e \<and> (manual_intervention_required e \<longrightarrow> m) \<and>
     un' = un @ extra \<and> set ids \<union> set extra = S \<and> (extra \<noteq> [] \<longrightarrow> m))"

lemma swept_allI:
  "e' = swept ids m g e \<Longrightarrow> (manual_intervention_required e \<longrightarrow> m) \<Longrightarrow> un' = un @ extra \<Longrightarrow>
   set ids \<union> set extra = S \<Longrightarrow> (extra \<noteq> [] \<longrightarrow> m) \<Longrightarrow> swept_all S un un' e e'"
  by (auto simp: swept_all_def)

lemma swept_all_refl: "swept_all {} un un e e"
  by (rule swept_allI[where ids = "[]" and extra = "[]", OF swept_refl]) auto

lemma swept_all_trans:
  assumes "swept_all S un un' e e'" "swept_all T un' un'' e' e''"
  shows "swept_all (S \<union> T) un un'' e e''"
proof -
  from assms(1) obtain a m g x where 1: "e' = swept a m g e" "manual_intervention_required e \<longrightarrow> m"
    "un' = un @ x" "set a \<union> set x = S" "x \<noteq> [] \<longrightarrow> m" unfolding swept_all_def by blast
  from assms(2) obtain b m' g' y where 2: "e'' = swept b m' g' e'" "manual_intervention_required e' \<longrightarrow> m'"
    "un'' = un' @ y" "set b \<union> set y = T" "y \<noteq> [] \<longrightarrow> m'" unfolding swept_all_def by blast
  show ?thesis
    by (rule swept_allI[where ids = "a @ b" and extra = "x @ y" and m = m' and g = g'])
      (use 1 2 in \<open>auto simp: swept_swept\<close>)
qed

definition venue_ids :: "strategy_order list \<Rightarrow> string list \<Rightarrow> string set" where
  "venue_ids os venues = so_id ` {o' \<in> set os. so_venue o' \<in> set venues}"

lemma venue_ids_simps:
  "venue_ids os [] = {}"
  "venue_ids os (v # vs) = set (map so_id (venue_orders os v)) \<union> venue_ids os vs"
  by (auto simp: venue_ids_def venue_orders_def)

lemma send_mass_cancel_sweeps:
  assumes "send_mass_cancel gw rq n e = (res, e')"
  shows "\<exists>m g. e' = swept [] m g e \<and> (manual_intervention_required e \<longrightarrow> m) \<and>
    (case res of Inl _ \<Rightarrow> m | Inr (d, accepted) \<Rightarrow> accepted \<or> m)"
proof -
  obtain answer g where a: "mass_cancel gw rq (gateway_state e) = (answer, g)" by fastforce
  let ?m = "manual_intervention_required e"
  have e1: "e\<lparr>gateway_state := g\<rparr> = swept [] ?m g e"
    by (simp add: swept_def mark_pending_Nil)
  show ?thesis
  proof (cases answer)
    case (Mass_raises x)
    with assms a have "e' = swept [] True g e" "\<exists>d. res = Inr (d, False)"
      by (auto simp: send_mass_cancel_def e1 Let_def escalate_swept)
    then show ?thesis by auto
  next
    case (Mass_outcome outcome)
    with assms a have "e' = swept [] (?m \<or> \<not> mo_accepted outcome) g e" "\<exists>d. res = Inr (d, mo_accepted outcome)"
      by (auto simp: send_mass_cancel_def e1 Let_def escalate_swept split: if_splits)
    then show ?thesis by auto
  next
    case Mass_malformed
    with assms a have "e' = swept [] True g e" "res = Inl Kill_Switch_Error"
      by (auto simp: send_mass_cancel_def e1 Let_def escalate_swept)
    then show ?thesis by auto
  qed
qed

text \<open>A dispatch that raised has swept the venues before the one that answered nonsense, and has
  called for a human if it was the engine that noticed.\<close>

definition dispatch_effect ::
    "string set \<Rightarrow> string list \<Rightarrow> 'g kill_engine \<Rightarrow> (ks_error + mass_dispatch list \<times> string list) \<Rightarrow> 'g kill_engine \<Rightarrow> bool" where
  "dispatch_effect S un e res e' \<longleftrightarrow> (case res of
     Inr (ds, un') \<Rightarrow> swept_all S un un' e e'
   | Inl x \<Rightarrow> (\<exists>ids m g. e' = swept ids m g e \<and> (manual_intervention_required e \<longrightarrow> m) \<and>
       (x \<noteq> Ks_Attribute \<longrightarrow> m) \<and> set ids \<subseteq> S))"

lemma dispatch_effect_InlI:
  "e' = swept ids m g e \<Longrightarrow> (manual_intervention_required e \<longrightarrow> m) \<Longrightarrow> (x \<noteq> Ks_Attribute \<longrightarrow> m) \<Longrightarrow> set ids \<subseteq> S \<Longrightarrow>
    dispatch_effect S un e (Inl x) e'"
  by (auto simp: dispatch_effect_def)

lemma dispatch_effect_after:
  assumes "swept_all S un un' e e'" "dispatch_effect T un' e' res e''"
  shows "dispatch_effect (S \<union> T) un e res e''"
proof (cases res)
  case (Inl x)
  from assms(1) obtain a m g where a: "e' = swept a m g e" "manual_intervention_required e \<longrightarrow> m" "set a \<subseteq> S"
    unfolding swept_all_def by blast
  from assms(2) Inl obtain ids m' g' where b: "e'' = swept ids m' g' e'" "manual_intervention_required e' \<longrightarrow> m'"
    "x \<noteq> Ks_Attribute \<longrightarrow> m'" "set ids \<subseteq> T"
    unfolding dispatch_effect_def by auto
  have "e'' = swept (a @ ids) m' g' e" by (simp add: a(1) b(1) swept_swept)
  moreover have "manual_intervention_required e \<longrightarrow> m'" using a(1,2) b(2) by simp
  moreover have "set (a @ ids) \<subseteq> S \<union> T" using a(3) b(4) by auto
  ultimately show ?thesis unfolding Inl using b(3) by (intro dispatch_effect_InlI)
next
  case (Inr r)
  with assms show ?thesis by (auto simp: dispatch_effect_def intro: swept_all_trans split: prod.splits)
qed

lemma escalate_sweeps: "swept_all (set ids) un (un @ ids) e (escalate e)"
  by (rule swept_allI[where ids = "[]" and extra = ids and m = True and g = "gateway_state e"])
    (auto simp: escalate_def swept_def mark_pending_Nil)

lemma global_loop_effect:
  "global_cancel_loop C os event_id now vs ds un e = (res, e') \<Longrightarrow> dispatch_effect (venue_ids os vs) un e res e'"
proof (induction vs arbitrary: ds un e)
  case Nil
  then show ?case by (auto simp: dispatch_effect_def venue_ids_simps swept_all_refl)
next
  case (Cons v vs)
  let ?os = "venue_orders os v" let ?ids = "map so_id ?os"
  show ?case
  proof (cases "py_get (ks_gateways C) v")
    case None
    with Cons.prems have "global_cancel_loop C os event_id now vs (ds @ [no_gateway v (length ?os)]) (un @ ?ids) (escalate e) = (res, e')"
      by (simp add: Let_def)
    from dispatch_effect_after[OF escalate_sweeps Cons.IH[OF this]]
    show ?thesis by (simp add: venue_ids_simps)
  next
    case (Some gw)
    define rq where "rq = \<lparr>mr_id = event_id @ ''-'' @ v, mr_type = MASS_CANCEL_ALL_ORDERS, mr_venue = v, mr_time = now\<rparr>"
    obtain sr e1 where s: "send_mass_cancel gw rq (length ?os) e = (sr, e1)" by fastforce
    note s' = s[unfolded rq_def, simplified]
    from send_mass_cancel_sweeps[OF s] obtain m g where sw: "e1 = swept [] m g e" "manual_intervention_required e \<longrightarrow> m"
      "case sr of Inl _ \<Rightarrow> m | Inr (d, accepted) \<Rightarrow> accepted \<or> m" by blast
    show ?thesis
    proof (cases sr)
      case (Inl x)
      with Cons.prems Some s' sw have "res = Inl x" "e' = swept [] True g e" by (simp_all add: Let_def)
      then show ?thesis by (simp add: dispatch_effect_InlI[where ids = "[]" and m = True])
    next
      case (Inr da)
      obtain d accepted where da: "da = (d, accepted)" by fastforce
      show ?thesis
      proof (cases accepted)
        case True
        with Cons.prems Some s' Inr da
        have loop: "global_cancel_loop C os event_id now vs (ds @ [d]) un (mark_pending ?ids e1) = (res, e')"
          by (simp add: Let_def)
        have "swept_all (set ?ids) un un e (mark_pending ?ids e1)"
          by (rule swept_allI[where ids = ?ids and extra = "[]" and m = m and g = g]) (use sw in \<open>auto simp: mark_pending_swept\<close>)
        from dispatch_effect_after[OF this Cons.IH[OF loop]] show ?thesis by (simp add: venue_ids_simps)
      next
        case False
        with Cons.prems Some s' Inr da
        have loop: "global_cancel_loop C os event_id now vs (ds @ [d]) (un @ ?ids) e1 = (res, e')"
          by (simp add: Let_def)
        have "swept_all (set ?ids) un (un @ ?ids) e e1"
          by (rule swept_allI[where ids = "[]" and extra = ?ids and m = m and g = g]) (use sw Inr da False in auto)
        from dispatch_effect_after[OF this Cons.IH[OF loop]] show ?thesis by (simp add: venue_ids_simps)
      qed
    qed
  qed
qed

lemma venue_ids_all: "(\<And>o'. o' \<in> set os \<Longrightarrow> so_venue o' \<in> set vs) \<Longrightarrow> venue_ids os vs = so_id ` set os"
  by (auto simp: venue_ids_def)

lemma dispatch_global_effect:
  assumes "dispatch_global_cancel C os event_id now e = (res, e')"
  shows "dispatch_effect (so_id ` set os) [] e res e'"
proof (cases "ks_gateways C = []")
  case True
  with assms show ?thesis
    using escalate_sweeps[of "map so_id os" "[]" e] by (auto simp: dispatch_global_cancel_def dispatch_effect_def)
next
  case False
  let ?vs = "sort (remdups (map fst (ks_gateways C) @ map so_venue os))"
  have "dispatch_effect (venue_ids os ?vs) [] e res e'"
    by (rule global_loop_effect) (use assms False in \<open>simp add: dispatch_global_cancel_def\<close>)
  then show ?thesis by (subst (asm) venue_ids_all) auto
qed

lemma order_loop_effect:
  "order_cancel_loop C os event_id vs ds un e = (res, e') \<Longrightarrow> dispatch_effect (venue_ids os vs) un e res e'"
proof (induction vs arbitrary: ds un e)
  case Nil
  then show ?case by (auto simp: dispatch_effect_def venue_ids_simps swept_all_refl)
next
  case (Cons v vs)
  let ?os = "venue_orders os v" let ?ids = "map so_id ?os"
  have step: "dispatch_effect (venue_ids os (v # vs)) un e res e'"
    if "swept_all (set ?ids) un un1 e e1" "order_cancel_loop C os event_id vs ds1 un1 e1 = (res, e')" for ds1 un1 e1
    using dispatch_effect_after[OF that(1) Cons.IH[OF that(2)]] by (simp add: venue_ids_simps)
  show ?case
  proof (cases "py_get (ks_gateways C) v")
    case None
    with Cons.prems show ?thesis
      by (intro step[OF escalate_sweeps]) (simp add: Let_def)
  next
    case (Some gw)
    obtain answer g where a: "cancel_orders gw ?ids (gateway_state e) = (answer, g)" by fastforce
    have e1: "e\<lparr>gateway_state := g\<rparr> = swept [] (manual_intervention_required e) g e"
      by (simp add: swept_def mark_pending_Nil)
    show ?thesis
    proof (cases answer)
      case (Cancel_raises x)
      have "swept_all (set ?ids) un (un @ ?ids) e (escalate (e\<lparr>gateway_state := g\<rparr>))"
        by (rule swept_allI[where ids = "[]" and extra = ?ids and m = True and g = g]) (auto simp: e1 escalate_swept)
      then show ?thesis by (rule step) (use Cons.prems Some a Cancel_raises in \<open>simp add: Let_def\<close>)
    next
      case (Cancel_results results)
      let ?ok = "\<lambda>i. py_get results i = Some True"
      let ?ref = "filter (\<lambda>i. \<not> ?ok i) ?ids"
      let ?e2 = "mark_pending (filter ?ok ?ids) (e\<lparr>gateway_state := g\<rparr>)"
      have "swept_all (set ?ids) un (un @ ?ref) e (if ?ref \<noteq> [] then escalate ?e2 else ?e2)"
        by (rule swept_allI[where ids = "filter ?ok ?ids" and extra = ?ref and g = g
              and m = "manual_intervention_required e \<or> ?ref \<noteq> []"])
          (auto simp: e1 escalate_swept mark_pending_swept)
      then show ?thesis by (rule step) (use Cons.prems Some a Cancel_results in \<open>simp add: Let_def\<close>)
    next
      case Cancel_malformed
      with Cons.prems Some a have "res = Inl Ks_Attribute" "e' = swept [] (manual_intervention_required e) g e"
        by (simp_all add: Let_def e1)
      then show ?thesis
        by (simp add: dispatch_effect_InlI[where ids = "[]" and m = "manual_intervention_required e"])
    qed
  qed
qed

lemma dispatch_effect_cancel:
  assumes "dispatch_cancel C scope os event_id now e = (res, e')"
  shows "dispatch_effect (so_id ` set os) [] e res e'"
proof (cases "scope = SCOPE_GLOBAL")
  case True
  with assms show ?thesis by (simp add: dispatch_cancel_def dispatch_global_effect)
next
  case False
  let ?vs = "sort (remdups (map so_venue os))"
  have "order_cancel_loop C os event_id ?vs [] [] e = (res, e')"
    using assms False by (simp add: dispatch_cancel_def dispatch_order_by_order_cancel_def)
  then have "dispatch_effect (venue_ids os ?vs) [] e res e'" by (rule order_loop_effect)
  then show ?thesis by (subst (asm) venue_ids_all) auto
qed

section \<open>The core of the state\<close>

text \<open>What decides about orders; the rest is the clock, the counters and the reports.\<close>

definition ks_core :: "'g kill_engine \<Rightarrow> bool \<times> (string, ks_reason) py_dict \<times> (string, strategy_order) py_dict \<times> bool" where
  "ks_core e = (global_kill_engaged e, strategy_kills e, active_orders e, manual_intervention_required e)"

lemma core_eqD:
  assumes "ks_core e' = ks_core e"
  shows "global_kill_engaged e' = global_kill_engaged e" "strategy_kills e' = strategy_kills e"
    "active_orders e' = active_orders e" "manual_intervention_required e' = manual_intervention_required e"
  using assms by (simp_all add: ks_core_def)

lemma now_of_core: "now_of C e = (r, e') \<Longrightarrow> ks_core e' = ks_core e"
  by (auto simp: now_of_def ks_core_def split: stamp.splits)

lemma next_event_id_core: "next_event_id t e = (i, e') \<Longrightarrow> ks_core e' = ks_core e"
  by (auto simp: next_event_id_def ks_core_def Let_def split: prod.splits)

lemma plain_report_core: "plain_report C a r c sc tg bl st b p e = (res, e') \<Longrightarrow> ks_core e' = ks_core e"
  by (auto simp: plain_report_def Let_def split: prod.splits sum.splits dest!: now_of_core next_event_id_core)

lemma first_breach_core: "first_breach C S now e = (r, e') \<Longrightarrow> ks_core e' = ks_core e"
  by (auto simp: first_breach_def time_given_def Let_def dest: now_of_core
      split: if_splits option.splits sum.splits prod.splits)

lemma attempt_core: "ks_core (if c then e\<lparr>order_entry_times := f e\<rparr> else e) = ks_core e"
  by (simp add: ks_core_def)

definition locked :: "ks_scope \<Rightarrow> string \<Rightarrow> 'g kill_engine \<Rightarrow> bool" where
  "locked scope s e \<longleftrightarrow> (if scope = SCOPE_GLOBAL then global_kill_engaged e else py_get (strategy_kills e) s \<noteq> None)"

definition covers :: "ks_scope \<Rightarrow> string option \<Rightarrow> string \<Rightarrow> bool" where
  "covers scope strategy_id s \<longleftrightarrow> scope = SCOPE_GLOBAL \<or> strategy_id = Some s"

definition in_scope_ids :: "ks_scope \<Rightarrow> string option \<Rightarrow> 'g kill_engine \<Rightarrow> string set" where
  "in_scope_ids scope strategy_id e = so_id ` set (in_scope_orders scope strategy_id e)"

lemma core_cong:
  assumes "ks_core e' = ks_core e"
  shows "locked scope s e' = locked scope s e" "in_scope_ids scope st e' = in_scope_ids scope st e"
    "in_scope_orders scope st e' = in_scope_orders scope st e" "pending_cancel_order_ids e' = pending_cancel_order_ids e"
  using core_eqD[OF assms]
  by (simp_all add: locked_def in_scope_ids_def in_scope_orders_def pending_cancel_order_ids_def)

text \<open>What a trigger does, once its arguments are understood and the clock has answered.\<close>

definition honest_report :: "ks_scope \<Rightarrow> string option \<Rightarrow> 'g kill_engine \<Rightarrow> kill_report \<Rightarrow> bool" where
  "honest_report scope st e' r \<longleftrightarrow> kr_manual r = manual_intervention_required e' \<and>
     kr_pending r = pending_cancel_order_ids e' \<and> kr_blocked r \<and> kr_active r \<and> kr_status r = KILL_SWITCH_ENGAGED \<and>
     kr_scope r = scope \<and> (scope = SCOPE_STRATEGY \<longrightarrow> kr_target r = st)"

definition sweep_effect :: "ks_scope \<Rightarrow> string option \<Rightarrow> 'g kill_engine \<Rightarrow> (ks_error + kill_report) \<Rightarrow> 'g kill_engine \<Rightarrow> bool" where
  "sweep_effect scope st e res e' \<longleftrightarrow> (\<exists>ids. active_orders e' = pend_all ids (active_orders e) \<and>
     set ids \<subseteq> in_scope_ids scope st e \<and> (manual_intervention_required e \<longrightarrow> manual_intervention_required e') \<and>
     (case res of Inl x \<Rightarrow> x \<noteq> Ks_Attribute \<longrightarrow> manual_intervention_required e'
      | Inr r \<Rightarrow> honest_report scope st e' r \<and> in_scope_ids scope st e = set ids \<union> set (kr_uncancelled r) \<and>
          (kr_uncancelled r \<noteq> [] \<longrightarrow> manual_intervention_required e')))"

definition triggered :: "ks_scope \<Rightarrow> string option \<Rightarrow> 'g kill_engine \<Rightarrow> (ks_error + kill_report) \<Rightarrow> 'g kill_engine \<Rightarrow> bool" where
  "triggered scope st e res e' \<longleftrightarrow> sweep_effect scope st e res e' \<and>
     (\<forall>sc s. locked sc s e' \<longleftrightarrow> locked sc s e \<or> ((sc = SCOPE_GLOBAL \<longleftrightarrow> scope = SCOPE_GLOBAL) \<and> covers scope st s))"

lemma latch_effect:
  assumes "latch scope st reason now e = (repeat, e')" "scope = SCOPE_GLOBAL \<or> st \<noteq> None"
  shows "locked sc s e' \<longleftrightarrow> locked sc s e \<or> ((sc = SCOPE_GLOBAL \<longleftrightarrow> scope = SCOPE_GLOBAL) \<and> covers scope st s)"
    "active_orders e' = active_orders e" "manual_intervention_required e' = manual_intervention_required e"
  using assms by (auto simp: latch_def Let_def locked_def covers_def dict_simps split: if_splits)

lemma effect_sweep:
  assumes "dispatch_effect (in_scope_ids scope st e) [] e d e'"
    and "\<And>ds un. d = Inr (ds, un) \<Longrightarrow> \<exists>r. res = Inr r \<and> kr_uncancelled r = sort un \<and> honest_report scope st e' r"
    and "\<And>x. d = Inl x \<Longrightarrow> res = Inl x"
  shows "sweep_effect scope st e res e'"
proof (cases d)
  case (Inl x)
  with assms(1) obtain ids m g where "e' = swept ids m g e" "manual_intervention_required e \<longrightarrow> m" "x \<noteq> Ks_Attribute \<longrightarrow> m"
    "set ids \<subseteq> in_scope_ids scope st e"
    by (auto simp: dispatch_effect_def)
  with assms(3)[OF Inl] show ?thesis by (auto simp: sweep_effect_def swept_orders intro!: exI[of _ ids])
next
  case (Inr p)
  obtain ds un where p: "p = (ds, un)" by fastforce
  with Inr assms(1) obtain ids m g where *: "e' = swept ids m g e" "manual_intervention_required e \<longrightarrow> m"
    "set ids \<union> set un = in_scope_ids scope st e" "un \<noteq> [] \<longrightarrow> m"
    by (auto simp: dispatch_effect_def swept_all_def)
  from assms(2)[of ds un] Inr p obtain r where r: "res = Inr r" "kr_uncancelled r = sort un" "honest_report scope st e' r"
    by blast
  have "sort un \<noteq> [] \<longrightarrow> m" using * by (metis set_empty set_sort)
  with * r show ?thesis unfolding sweep_effect_def by (intro exI[of _ ids]) (auto simp: swept_orders)
qed

lemma engaged_report_sel [simp]:
  "kr_uncancelled (engaged_report scope reason st who code i t n rp ds un e) = sort un"
  "honest_report scope st e (engaged_report scope reason st who code i t n rp ds un e)"
  by (simp_all add: engaged_report_def honest_report_def)

lemma trigger_locked_effect:
  assumes "trigger_locked C scope reason st who code e = (res, e')" "scope = SCOPE_GLOBAL \<or> st \<noteq> None"
  shows "triggered scope st e res e' \<or>
    ks_core e' = ks_core e \<and> res = Inl Kill_Switch_Error \<and> (\<forall>t. ks_clock C (ks_reads e) \<noteq> Aware_at t)"
proof (cases "ks_clock C (ks_reads e)")
  case (Naive_at t)
  with assms show ?thesis by (auto simp: trigger_locked_def now_of_def ks_core_def)
next
  case (Aware_at t)
  obtain e1 where 1: "now_of C e = (Inr t, e1)" using Aware_at by (simp add: now_of_def)
  obtain i e2 where 2: "next_event_id t e1 = (i, e2)" by fastforce
  have c2: "ks_core e2 = ks_core e" using 1 2 by (simp add: now_of_core next_event_id_core)
  obtain rp e3 where 3: "latch scope st reason t e2 = (rp, e3)" by fastforce
  note l3 = latch_effect[OF 3 assms(2)]
  obtain d e4 where 4: "dispatch_cancel C scope (in_scope_orders scope st e3) i t e3 = (d, e4)" by fastforce
  have os: "in_scope_ids scope st e3 = in_scope_ids scope st e"
    using l3 core_eqD[OF c2] by (simp add: in_scope_ids_def in_scope_orders_def)
  have eff: "dispatch_effect (in_scope_ids scope st e3) [] e3 d e4"
    using dispatch_effect_cancel[OF 4] by (simp add: in_scope_ids_def)
  have l4: "locked sc s e' = locked sc s e3" for sc s
    using eff assms(1) 1 2 3 4
    by (auto simp: trigger_locked_def Let_def dispatch_effect_def swept_all_def locked_def split: sum.splits prod.splits)
  have "sweep_effect scope st e3 res e4"
  proof (rule effect_sweep[OF eff])
    fix x
    assume "d = Inl x"
    then show "res = Inl x" using assms(1) by (simp add: trigger_locked_def Let_def 1 2 3 4)
  next
    fix ds un
    assume "d = Inr (ds, un)"
    then show "\<exists>r. res = Inr r \<and> kr_uncancelled r = sort un \<and> honest_report scope st e4 r"
      using assms(1) by (auto simp: trigger_locked_def Let_def 1 2 3 4)
  qed
  moreover have "active_orders e' = active_orders e4" "manual_intervention_required e' = manual_intervention_required e4"
    using assms(1) 1 2 3 4 by (auto simp: trigger_locked_def Let_def split: sum.splits prod.splits)
  ultimately have "sweep_effect scope st e res e'"
    using l3 core_eqD[OF c2]
    by (simp add: sweep_effect_def os honest_report_def pending_cancel_order_ids_def cong: sum.case_cong)
  with l3 l4 core_cong(1)[OF c2] show ?thesis by (simp add: triggered_def)
qed

end
