(* ===== verification/Kill_Moves.thy ===== *)
theory Kill_Moves
  imports Kill_Dispatch
begin

text \<open>
  The engine as a step relation over its core: five moves, and the proof that every event of
  the model is one of them. The invariant of the order book follows by rule induction.
\<close>

section \<open>The moves of the engine\<close>

lemma parse_scope_ok: "parse_scope s = Inr scope \<Longrightarrow> scope = SCOPE_GLOBAL \<or> scope = SCOPE_STRATEGY"
  by (auto simp: parse_scope_def split: sum.splits if_splits)

lemma scope_strategy_ok:
  "parse_scope s = Inr scope \<Longrightarrow> scope_strategy scope st0 = Inr st \<Longrightarrow> scope = SCOPE_GLOBAL \<or> st \<noteq> None"
  by (auto simp: scope_strategy_def dest!: parse_scope_ok split: option.splits if_splits)

lemma trigger_effect:
  assumes "trigger_kill_switch C sc0 r0 st0 b0 code e = (res, e')"
  shows "(\<exists>scope st. parse_scope sc0 = Inr scope \<and> scope_strategy scope st0 = Inr st \<and> triggered scope st e res e') \<or>
    ks_core e' = ks_core e \<and> (\<exists>x. res = Inl x)"
proof (cases "\<exists>x. res = Inl x \<and> e' = e")
  case True
  then show ?thesis by auto
next
  case False
  with assms obtain reason by' scope st where *: "parse_scope sc0 = Inr scope" "scope_strategy scope st0 = Inr st"
    "trigger_locked C scope reason st by' code e = (res, e')"
    by (auto simp: trigger_kill_switch_def split: sum.splits)
  from trigger_locked_effect[OF *(3) scope_strategy_ok[OF *(1,2)]] *(1,2) show ?thesis by blast
qed

lemma triggered_cong:
  assumes "ks_core e1 = ks_core e"
  shows "triggered scope st e1 res e' = triggered scope st e res e'"
  by (simp only: triggered_def sweep_effect_def core_cong[OF assms] core_eqD[OF assms])

lemma global_trigger_effect:
  assumes "trigger_kill_switch C ''GLOBAL'' r0 None b0 code e1 = (res, e')" "ks_core e1 = ks_core e"
  shows "triggered SCOPE_GLOBAL None e res e' \<or> ks_core e' = ks_core e \<and> (\<exists>x. res = Inl x)"
proof -
  have p: "parse_scope ''GLOBAL'' = Inr SCOPE_GLOBAL" "scope_strategy SCOPE_GLOBAL None = Inr None" by code_simp+
  from trigger_effect[OF assms(1)] show ?thesis by (auto simp: p triggered_cong[OF assms(2)] assms(2))
qed

lemma evaluate_effect:
  assumes "evaluate_risk_state C S b e = (res, e')"
  shows "triggered SCOPE_GLOBAL None e res e' \<or> ks_core e' = ks_core e"
  using assms
  by (auto simp: evaluate_risk_state_def normal_report_def split: option.splits prod.splits sum.splits
      dest!: first_breach_core plain_report_core dest: global_trigger_effect)

lemma validate_effect:
  assumes "audit_and_validate_new_order C rq S n e0 = (res, e')"
  shows "triggered SCOPE_GLOBAL None e0 res e' \<or> ks_core e' = ks_core e0"
proof -
  obtain r e1 where 1: "now_of C e0 = (r, e1)" by fastforce
  note c1 = now_of_core[OF 1]
  show ?thesis
  proof (cases r)
    case (Inl x)
    with assms 1 c1 show ?thesis by (auto simp: audit_and_validate_new_order_def)
  next
    case (Inr now)
    define e where "e = (if n then e1\<lparr>order_entry_times := record_order_attempt now (order_entry_times e1)\<rparr> else e1)"
    have c: "ks_core e = ks_core e0" using c1 by (simp add: e_def ks_core_def)
    show ?thesis
      using assms[unfolded audit_and_validate_new_order_def 1 Inr prod.case sum.case Let_def, folded e_def] c
      by (auto simp: rejection_report_def normal_report_def
          dest!: plain_report_core first_breach_core dest: global_trigger_effect
          split: if_splits option.splits ks_error.splits prod.splits sum.splits)
  qed
qed

definition resets :: "ks_scope \<Rightarrow> string \<Rightarrow> ks_event \<Rightarrow> bool" where
  "resets scope s ev \<longleftrightarrow> (case ev of
     Reset sc b r st a \<Rightarrow> parse_scope sc = Inr scope \<and> (scope = SCOPE_STRATEGY \<longrightarrow> map_option py_strip st = Some s)
   | _ \<Rightarrow> False)"

definition acknowledged :: "ks_event \<Rightarrow> bool" where
  "acknowledged ev \<longleftrightarrow> (case ev of Reset sc b r st a \<Rightarrow> a | _ \<Rightarrow> False)"

definition reports_on :: "string \<Rightarrow> ks_event \<Rightarrow> bool" where
  "reports_on k ev \<longleftrightarrow> (case ev of Execution_report i st q \<Rightarrow> py_strip i = k | _ \<Rightarrow> False)"

text \<open>
  Every event is one of five moves of the core: nothing, a sweep, a new order under a free
  identifier, a report on one order, or a re-arming of one scope that is acknowledged or
  has nothing outstanding.
\<close>

inductive kill_move :: "ks_event \<Rightarrow> 'g kill_engine \<Rightarrow> 'g kill_engine \<Rightarrow> bool" where
  idle: "ks_core e' = ks_core e \<Longrightarrow> kill_move ev e e'"
| sweep: "scope = SCOPE_GLOBAL \<or> st \<noteq> None \<Longrightarrow> triggered scope st e res e' \<Longrightarrow> kill_move ev e e'"
| admit: "(case py_get (active_orders e) (so_id o') of None \<Rightarrow> True | Some old \<Rightarrow> so_status old \<in> set terminal_order_statuses) \<Longrightarrow>
    ks_core e' = ks_core (e\<lparr>active_orders := py_set (active_orders e) (so_id o') o'\<rparr>) \<Longrightarrow> kill_move ev e e'"
| report: "reports_on k ev \<Longrightarrow> py_get (active_orders e) k = Some old \<Longrightarrow> so_id o' = so_id old \<Longrightarrow>
    ks_core e' = ks_core (e\<lparr>active_orders := py_set (active_orders e) k o'\<rparr>) \<Longrightarrow> kill_move ev e e'"
| rearming: "scope = SCOPE_GLOBAL \<and> (\<forall>s. resets SCOPE_GLOBAL s ev) \<or> scope = SCOPE_STRATEGY \<and> (\<exists>s. st = Some s \<and> resets SCOPE_STRATEGY s ev) \<Longrightarrow>
    acknowledged ev \<or> pending_cancel_order_ids e = [] \<and> \<not> manual_intervention_required e \<Longrightarrow>
    ks_core e' = ks_core (rearm scope st e) \<Longrightarrow> kill_move ev e e'"

lemma register_move: "kill_move ev e (snd (register_active_order o' e))"
  by (auto simp: register_active_order_def intro: kill_move.idle kill_move.admit[where o' = o'] split: option.splits)

lemma execution_report_move: "kill_move (Execution_report i s q) e (snd (apply_execution_report i s q e))"
proof -
  have idle: "kill_move ev e e" for ev by (simp add: kill_move.idle)
  show ?thesis
    by (auto simp: apply_execution_report_def Let_def reports_on_def require_id_def idle
        intro!: kill_move.report[where k = "py_strip i", OF _ _ _ refl] split: sum.splits option.splits if_splits)
qed

lemma trigger_move: "kill_move ev e (snd (trigger_kill_switch C sc r st b c e))"
proof -
  obtain res e' where t: "trigger_kill_switch C sc r st b c e = (res, e')" by fastforce
  from trigger_effect[OF t] show ?thesis
    by (elim disjE exE conjE) (auto simp: t intro: kill_move.idle kill_move.sweep[OF scope_strategy_ok])
qed

lemma evaluate_move: "kill_move ev e (snd (evaluate_risk_state C S b e))"
proof -
  obtain res e' where t: "evaluate_risk_state C S b e = (res, e')" by fastforce
  from evaluate_effect[OF t] show ?thesis by (auto simp: t intro: kill_move.idle kill_move.sweep)
qed

lemma validate_move: "kill_move ev e (snd (audit_and_validate_new_order C rq S n e))"
proof -
  obtain res e' where t: "audit_and_validate_new_order C rq S n e = (res, e')" by fastforce
  from validate_effect[OF t] show ?thesis by (auto simp: t intro: kill_move.idle kill_move.sweep)
qed

lemma reset_effect:
  assumes "reset_kill_switch C sc0 b0 r0 st0 a e = (res, e')"
  shows "e' = e \<and> (\<exists>x. res = Inl x) \<or> (\<exists>scope st. parse_scope sc0 = Inr scope \<and> scope_strategy scope st0 = Inr st \<and>
    (a \<or> pending_cancel_order_ids e = [] \<and> \<not> manual_intervention_required e) \<and> ks_core e' = ks_core (rearm scope st e))"
proof (cases "e' = e \<and> (\<exists>x. res = Inl x)")
  case False
  with assms obtain scope st reason by' r' e2 where *: "parse_scope sc0 = Inr scope" "scope_strategy scope st0 = Inr st"
    "a \<or> pending_cancel_order_ids e = [] \<and> \<not> manual_intervention_required e"
    "plain_report C (is_blocked (rearm scope st e) st) (Some (Given reason)) None scope
       (if scope = SCOPE_STRATEGY then st else None) (is_blocked (rearm scope st e) st)
       KILL_SWITCH_RESET by' (pending_cancel_order_ids e) (rearm scope st e) = (r', e2)" "ks_core e' = ks_core e2"
    by (auto simp: reset_kill_switch_def Let_def ks_core_def split: sum.splits if_splits prod.splits)
  then show ?thesis by (auto dest: plain_report_core)
qed simp

lemma reset_move: "kill_move (Reset sc b r st a) e (snd (reset_kill_switch C sc b r st a e))"
proof -
  obtain res e' where t: "reset_kill_switch C sc b r st a e = (res, e')" by fastforce
  show ?thesis using reset_effect[OF t]
  proof (elim disjE exE conjE)
    fix scope st'
    assume *: "parse_scope sc = Inr scope" "scope_strategy scope st = Inr st'" "ks_core e' = ks_core (rearm scope st' e)"
    then have "scope = SCOPE_GLOBAL \<and> (\<forall>s. resets SCOPE_GLOBAL s (Reset sc b r st a)) \<or>
      scope = SCOPE_STRATEGY \<and> (\<exists>s. st' = Some s \<and> resets SCOPE_STRATEGY s (Reset sc b r st a))"
      using parse_scope_ok[OF *(1)] by (auto simp: resets_def scope_strategy_def split: option.splits if_splits)
    note mv = kill_move.rearming[OF this _ *(3)]
    have t2: "snd (reset_kill_switch C sc b r st a e) = e'" by (simp add: t)
    show ?thesis if a unfolding t2 by (rule mv) (simp add: acknowledged_def that)
    show ?thesis if "pending_cancel_order_ids e = []" "\<not> manual_intervention_required e"
      unfolding t2 by (rule mv) (simp add: that)
  qed (auto simp: t intro: kill_move.idle)
qed

lemma ks_step_move: "kill_move ev e (ks_step C ev e)"
  by (cases ev) (auto simp: register_move execution_report_move trigger_move evaluate_move validate_move reset_move)

section \<open>The order book\<close>

text \<open>Every order is held once, under its own identifier.\<close>

definition ks_inv :: "'g kill_engine \<Rightarrow> bool" where
  "ks_inv e \<longleftrightarrow> dict_ok (active_orders e) \<and> (\<forall>k o'. py_get (active_orders e) k = Some o' \<longrightarrow> so_id o' = k)"

lemma ks_inv_new: "ks_inv (new_kill_engine g)"
  by (simp add: ks_inv_def new_kill_engine_def dict_ok_def py_get_def)

lemma pended_sel [simp]: "so_id (pended ids k o') = so_id o'"
  by (simp add: pended_def)

lemma pended_pending: "so_status o' = ORDER_PENDING_CANCEL \<Longrightarrow> so_status (pended ids k o') = ORDER_PENDING_CANCEL"
  by (simp add: pended_def)

lemma pend_all_get: "py_get (pend_all ids d) k = map_option (pended ids k) (py_get d k)"
  by (simp add: pend_all_def py_get_map_values)

lemma dict_ok_pend_all: "dict_ok (pend_all ids d) = dict_ok d"
  by (simp add: dict_ok_def pend_all_def comp_def case_prod_beta)

lemma ks_inv_put: "ks_inv e \<Longrightarrow> so_id o' = k \<Longrightarrow> ks_inv (e\<lparr>active_orders := py_set (active_orders e) k o'\<rparr>)"
  by (auto simp: ks_inv_def dict_simps)

lemma ks_inv_cong: "active_orders e' = active_orders e \<Longrightarrow> ks_inv e' = ks_inv e"
  by (simp add: ks_inv_def)

lemma rearm_orders: "active_orders (rearm scope st e) = active_orders e"
  by (simp add: rearm_def)

lemma kill_move_inv: "kill_move ev e e' \<Longrightarrow> ks_inv e \<Longrightarrow> ks_inv e'"
proof (induction rule: kill_move.induct)
  case (idle e' e ev)
  then show ?case using ks_inv_cong[OF core_eqD(3)] by blast
next
  case (sweep scope st e res e' ev)
  then obtain ids where "active_orders e' = pend_all ids (active_orders e)"
    by (auto simp: triggered_def sweep_effect_def)
  with sweep show ?case by (auto simp: ks_inv_def dict_ok_pend_all pend_all_get)
next
  case (admit e o' e' ev)
  then show ?case using ks_inv_cong[OF core_eqD(3)] ks_inv_put by blast
next
  case (report k ev e old o' e')
  then have "so_id o' = k" by (simp add: ks_inv_def)
  with report show ?case using ks_inv_cong[OF core_eqD(3)] ks_inv_put by blast
next
  case (rearming scope ev st e e')
  then show ?case using ks_inv_cong[OF core_eqD(3)] ks_inv_cong[OF rearm_orders] by blast
qed

interpretation kill_book: invariant_machine "ks_step C" ks_inv for C
  by unfold_locales (rule kill_move_inv[OF ks_step_move])

text \<open>The orders of a scope, by identifier.\<close>

lemma in_scope_ids_iff:
  assumes "ks_inv e"
  shows "k \<in> in_scope_ids scope st e \<longleftrightarrow>
    (\<exists>o'. py_get (active_orders e) k = Some o' \<and> is_cancellable o' \<and> covers scope st (so_strategy o'))"
proof -
  have vals: "o' \<in> set (py_values (active_orders e)) \<longleftrightarrow> py_get (active_orders e) (so_id o') = Some o'" for o'
  proof
    assume "o' \<in> set (py_values (active_orders e))"
    then obtain k' where "(k', o') \<in> set (active_orders e)" by auto
    then have "py_get (active_orders e) k' = Some o'" using assms by (simp add: ks_inv_def py_get_iff)
    then show "py_get (active_orders e) (so_id o') = Some o'" using assms by (simp add: ks_inv_def)
  next
    assume "py_get (active_orders e) (so_id o') = Some o'"
    then have "(so_id o', o') \<in> set (active_orders e)" by (rule py_get_SomeD)
    then show "o' \<in> set (py_values (active_orders e))" by force
  qed
  have "in_scope_ids scope st e = so_id ` {o' \<in> set (py_values (active_orders e)). is_cancellable o' \<and> covers scope st (so_strategy o')}"
    by (auto simp: in_scope_ids_def in_scope_orders_def covers_def)
  also have "\<dots> = so_id ` {o'. py_get (active_orders e) (so_id o') = Some o' \<and> is_cancellable o' \<and> covers scope st (so_strategy o')}"
    by (simp only: vals)
  finally have eq: "in_scope_ids scope st e =
      so_id ` {o'. py_get (active_orders e) (so_id o') = Some o' \<and> is_cancellable o' \<and> covers scope st (so_strategy o')}" .
  have id: "so_id o' = k" if "py_get (active_orders e) k = Some o'" for o'
    using assms that by (simp add: ks_inv_def)
  show ?thesis
  proof
    assume "k \<in> in_scope_ids scope st e"
    then show "\<exists>o'. py_get (active_orders e) k = Some o' \<and> is_cancellable o' \<and> covers scope st (so_strategy o')"
      unfolding eq by blast
  next
    assume "\<exists>o'. py_get (active_orders e) k = Some o' \<and> is_cancellable o' \<and> covers scope st (so_strategy o')"
    then obtain o' where *: "py_get (active_orders e) k = Some o'" "is_cancellable o'" "covers scope st (so_strategy o')" by blast
    show "k \<in> in_scope_ids scope st e"
      unfolding eq by (rule image_eqI[of _ _ o']) (use * id[OF *(1)] in simp_all)
  qed
qed

lemma pending_iff:
  assumes "ks_inv e"
  shows "k \<in> set (pending_cancel_order_ids e) \<longleftrightarrow>
    (\<exists>o'. py_get (active_orders e) k = Some o' \<and> so_status o' = ORDER_PENDING_CANCEL)"
proof -
  have "dict_ok (active_orders e)" using assms by (simp add: ks_inv_def)
  then show ?thesis by (auto simp: pending_cancel_order_ids_def py_get_iff image_iff)
qed

lemma trigger_understood:
  assumes "parse_scope scope0 = Inr scope" "scope_strategy scope strategy0 = Inr strategy_id"
    and "clean_reason reason0 = Inr reason" "require_id triggered0 = Inr triggered_by"
    and "ks_clock C (ks_reads e) = Aware_at now"
  obtains res e' where "trigger_kill_switch C scope0 reason0 strategy0 triggered0 code e = (res, e')"
    "triggered scope strategy_id e res e'" "scope \<noteq> SCOPE_NONE" "ks_inv e \<longrightarrow> ks_inv e'"
proof -
  have "\<exists>s. require_id scope0 = Inr s" using assms(1) by (auto simp: parse_scope_def split: sum.splits)
  then have t: "trigger_kill_switch C scope0 reason0 strategy0 triggered0 code e = trigger_locked C scope reason strategy_id triggered_by code e"
    using assms(1-4) by (auto simp: trigger_kill_switch_def)
  obtain res e' where l: "trigger_locked C scope reason strategy_id triggered_by code e = (res, e')" by fastforce
  note sc = scope_strategy_ok[OF assms(1,2)]
  from trigger_locked_effect[OF l sc] assms(5) have tr: "triggered scope strategy_id e res e'" by auto
  have "ks_inv e \<longrightarrow> ks_inv e'" using kill_move_inv[OF kill_move.sweep[OF sc tr]] by blast
  with t l tr parse_scope_ok[OF assms(1)] show ?thesis by (intro that) auto
qed

end
