(* ===== verification/Kill_Properties.thy ===== *)
theory Kill_Properties
  imports Kill_Moves
begin

text \<open>
  The guarantees of the kill switch: the lockout holds from the trigger until a reset of its
  scope whatever the gateways do, an order passes the gate exactly when every limit holds, no
  order in the scope of a trigger is lost between \<open>pending\<close> and \<open>uncancelled\<close>, and order entry
  is not re-armed while a cancel is outstanding unless somebody acknowledges it.
\<close>

section \<open>No order is lost\<close>

lemma trigger_returned:
  assumes "trigger_kill_switch C sc0 r0 st0 b0 code e = (Inr r, e')"
  shows "\<exists>st. triggered (kr_scope r) st e (Inr r) e' \<and> covers (kr_scope r) st = covers (kr_scope r) (kr_target r)"
proof -
  from trigger_effect[OF assms] obtain scope st where *: "parse_scope sc0 = Inr scope" "triggered scope st e (Inr r) e'" by auto
  then have "kr_scope r = scope" "scope = SCOPE_STRATEGY \<longrightarrow> kr_target r = st"
    by (auto simp: triggered_def sweep_effect_def honest_report_def)
  with * parse_scope_ok[OF *(1)] show ?thesis by (auto simp: covers_def fun_eq_iff)
qed

text \<open>When a trigger returns a report, every order of its scope that may still trade is
  waiting for the confirmation of a cancel some venue accepted, or is named among the
  uncancelled with the engine calling for a human. Orders outside the scope are untouched.
\<close>

theorem no_order_lost_by_trigger:
  assumes "e = fold (ks_step C) es (new_kill_engine g)"
    and "trigger_kill_switch C scope reason strategy_id triggered_by code e = (Inr r, e')"
    and "py_get (active_orders e) k = Some o'"
  shows "if is_cancellable o' \<and> covers (kr_scope r) (kr_target r) (so_strategy o')
    then (k \<in> set (kr_pending r) \<and> py_get (active_orders e') k = Some (o'\<lparr>so_status := ORDER_PENDING_CANCEL\<rparr>)) \<or>
         (k \<in> set (kr_uncancelled r) \<and> kr_manual r \<and> manual_intervention_required e')
    else py_get (active_orders e') k = Some o'"
proof -
  have inv: "ks_inv e" using assms(1) by (simp add: kill_book.run_inv ks_inv_new)
  from trigger_returned[OF assms(2)] obtain st where *: "triggered (kr_scope r) st e (Inr r) e'"
    "covers (kr_scope r) st = covers (kr_scope r) (kr_target r)" by blast
  then obtain ids where ids: "active_orders e' = pend_all ids (active_orders e)"
    "in_scope_ids (kr_scope r) st e = set ids \<union> set (kr_uncancelled r)"
    "honest_report (kr_scope r) st e' r" "kr_uncancelled r \<noteq> [] \<longrightarrow> manual_intervention_required e'"
    by (auto simp: triggered_def sweep_effect_def)
  have get: "py_get (active_orders e') k = Some (pended ids k o')" by (simp add: ids(1) pend_all_get assms(3))
  have scope: "k \<in> set ids \<union> set (kr_uncancelled r) \<longleftrightarrow> is_cancellable o' \<and> covers (kr_scope r) (kr_target r) (so_strategy o')"
    by (simp add: ids(2)[symmetric] in_scope_ids_iff[OF inv] assms(3) *(2))
  have "ks_inv e'" using inv by (auto simp: ks_inv_def ids(1) dict_ok_pend_all pend_all_get)
  have pend: "k \<in> set (kr_pending r)" if "k \<in> set ids"
    using that ids(3) get pending_iff[OF \<open>ks_inv e'\<close>, of k] by (simp add: honest_report_def pended_def)
  have man: "k \<in> set (kr_uncancelled r) \<Longrightarrow> kr_manual r \<and> manual_intervention_required e'"
    using ids(3,4) by (auto simp: honest_report_def)
  show ?thesis
  proof (cases "k \<in> set ids")
    case True
    with scope pend get show ?thesis by (simp add: pended_def)
  next
    case False
    with scope man get show ?thesis by (auto simp: pended_def)
  qed
qed

section \<open>The lockout\<close>

lemma kill_move_locked: "kill_move ev e e' \<Longrightarrow> locked scope s e \<Longrightarrow> \<not> resets scope s ev \<Longrightarrow> scope \<noteq> SCOPE_NONE \<Longrightarrow> locked scope s e'"
proof (induction rule: kill_move.induct)
  case (rearming sc ev st e e')
  have "locked scope s (rearm sc st e)"
    using rearming(1)
  proof (elim disjE conjE exE)
    assume "sc = SCOPE_GLOBAL" "\<forall>s. resets SCOPE_GLOBAL s ev"
    with rearming(4,5) show ?thesis by (cases scope) (simp_all add: locked_def rearm_def)
  next
    fix s'
    assume *: "sc = SCOPE_STRATEGY" "st = Some s'" "resets SCOPE_STRATEGY s' ev"
    with rearming(5,6) have "scope = SCOPE_GLOBAL \<or> s' \<noteq> s" by (cases scope) auto
    with * rearming(4) show ?thesis by (auto simp: locked_def rearm_def dict_simps)
  qed
  then show ?case using core_cong(1)[OF rearming(3)] by blast
next
  case (sweep sc st e res e' ev)
  then show ?case by (simp add: triggered_def)
next
  case (idle e' e ev)
  then show ?case by (metis core_cong(1))
qed (auto simp: locked_def ks_core_def)

interpretation lockout: guarded_machine "ks_step C" "\<lambda>ev. \<not> resets scope s ev" "\<lambda>e. scope \<noteq> SCOPE_NONE \<and> locked scope s e"
  for C scope s
  by unfold_locales (blast intro: kill_move_locked[OF ks_step_move])

definition refused :: "ks_status \<Rightarrow> ks_error + kill_report \<Rightarrow> bool" where
  "refused status res \<longleftrightarrow> (case res of Inl _ \<Rightarrow> True | Inr r \<Rightarrow> kr_blocked r \<and> kr_status r = status)"

lemma rejection_refused: "rejection_report C reason code scope target status e = (res, e') \<Longrightarrow> refused status res"
  by (auto simp: rejection_report_def plain_report_def refused_def Let_def split: sum.splits prod.splits)

lemma locked_refuses:
  assumes "scope \<noteq> SCOPE_NONE" "locked scope (nr_strategy rq) e0"
  shows "refused REJECTED_KILL_SWITCH_ACTIVE (fst (audit_and_validate_new_order C rq S n e0))"
proof -
  obtain res e' where a: "audit_and_validate_new_order C rq S n e0 = (res, e')" by fastforce
  obtain r e1 where 1: "now_of C e0 = (r, e1)" by fastforce
  show ?thesis
  proof (cases r)
    case (Inl x)
    with a 1 show ?thesis by (auto simp: audit_and_validate_new_order_def refused_def)
  next
    case (Inr now)
    define e where "e = (if n then e1\<lparr>order_entry_times := record_order_attempt now (order_entry_times e1)\<rparr> else e1)"
    have "ks_core e = ks_core e0" using now_of_core[OF 1] by (simp add: e_def ks_core_def)
    with assms have "global_kill_engaged e \<or> py_get (strategy_kills e) (nr_strategy rq) \<noteq> None"
      by (auto simp: locked_def ks_core_def split: if_splits)
    then show ?thesis
      using a[unfolded audit_and_validate_new_order_def 1 Inr prod.case sum.case Let_def, folded e_def]
      by (auto simp: a dest: rejection_refused split: if_splits option.splits)
  qed
qed

text \<open>C13. From a trigger that is understood until a reset of its scope, no order of the scope is
  approved, whatever happens in between and whatever the gateways do: the lockout is closed
  before the first of them is called, so one that raises or answers nonsense cannot keep it
  open, and no report, order or other trigger opens it again.
\<close>

theorem lockout_from_trigger_until_reset:
  assumes "parse_scope scope0 = Inr scope" "scope_strategy scope strategy0 = Inr strategy_id"
    and "clean_reason reason0 = Inr reason" "require_id triggered0 = Inr triggered_by"
    and "ks_clock C (ks_reads e) = Aware_at now" "covers scope strategy_id (nr_strategy rq)"
    and "list_all (\<lambda>ev. \<not> resets scope (nr_strategy rq) ev) es"
  shows "refused REJECTED_KILL_SWITCH_ACTIVE (fst (audit_and_validate_new_order C rq S n
    (fold (ks_step C) es (snd (trigger_kill_switch C scope0 reason0 strategy0 triggered0 code e)))))"
proof -
  obtain res e' where t: "trigger_kill_switch C scope0 reason0 strategy0 triggered0 code e = (res, e')"
    "triggered scope strategy_id e res e'" "scope \<noteq> SCOPE_NONE"
    by (rule trigger_understood[OF assms(1-5)])
  with assms(6) have "scope \<noteq> SCOPE_NONE \<and> locked scope (nr_strategy rq) e'" by (auto simp: triggered_def)
  then have "scope \<noteq> SCOPE_NONE \<and> locked scope (nr_strategy rq) (fold (ks_step C) es e')"
    by (rule lockout.run_guarded[OF assms(7)])
  then show ?thesis by (auto simp: t(1) intro: locked_refuses)
qed

section \<open>Re-arming\<close>

definition chasing :: "string \<Rightarrow> 'g kill_engine \<Rightarrow> bool" where
  "chasing k e \<longleftrightarrow> ks_inv e \<and> (manual_intervention_required e \<or> k \<in> set (pending_cancel_order_ids e))"

lemma kill_move_chasing:
  "kill_move ev e e' \<Longrightarrow> chasing k e \<Longrightarrow> \<not> acknowledged ev \<Longrightarrow> \<not> reports_on k ev \<Longrightarrow> chasing k e'"
proof (induction rule: kill_move.induct)
  case (idle e' e ev)
  then show ?case using core_eqD[OF idle(1)] by (simp add: chasing_def ks_inv_def pending_cancel_order_ids_def)
next
  case (sweep scope st e res e' ev)
  then obtain ids where ids: "active_orders e' = pend_all ids (active_orders e)"
    "manual_intervention_required e \<longrightarrow> manual_intervention_required e'"
    by (auto simp: triggered_def sweep_effect_def)
  have inv: "ks_inv e" "ks_inv e'" using sweep kill_move_inv[OF kill_move.sweep[OF sweep(1,2)]] by (auto simp: chasing_def)
  have "k \<in> set (pending_cancel_order_ids e) \<longrightarrow> k \<in> set (pending_cancel_order_ids e')"
    by (auto simp: pending_iff[OF inv(1)] pending_iff[OF inv(2)] ids(1) pend_all_get pended_pending)
  with sweep(3) ids inv show ?case by (auto simp: chasing_def)
next
  case (admit e o' e' ev)
  have inv: "ks_inv e" "ks_inv e'" using admit kill_move_inv[OF kill_move.admit[OF admit(1,2)]] by (auto simp: chasing_def)
  have "k \<in> set (pending_cancel_order_ids e) \<longrightarrow> k \<in> set (pending_cancel_order_ids e')"
    using admit(1) by (auto simp: pending_iff[OF inv(1)] pending_iff[OF inv(2)] core_eqD(3)[OF admit(2)] dict_simps
        terminal_order_statuses_def)
  with admit(3) inv core_eqD(4)[OF admit(2)] show ?case by (auto simp: chasing_def)
next
  case (report k' ev e old o' e')
  have inv: "ks_inv e" "ks_inv e'" using report kill_move_inv[OF kill_move.report[OF report(1-4)]] by (auto simp: chasing_def)
  have "k' \<noteq> k" using report by blast
  then have "k \<in> set (pending_cancel_order_ids e) \<longrightarrow> k \<in> set (pending_cancel_order_ids e')"
    by (auto simp: pending_iff[OF inv(1)] pending_iff[OF inv(2)] core_eqD(3)[OF report(4)] dict_simps)
  with report(5) inv core_eqD(4)[OF report(4)] show ?case by (auto simp: chasing_def)
next
  case (rearming scope ev st e e')
  then show ?case by (auto simp: chasing_def)
qed

interpretation chase: guarded_machine "ks_step C" "\<lambda>ev. \<not> acknowledged ev \<and> \<not> reports_on k ev" "chasing k" for C k
  by unfold_locales (blast intro: kill_move_chasing[OF ks_step_move])

lemma triggered_chasing:
  assumes "triggered scope st e res e'" "ks_inv e" "ks_inv e'" "k \<in> in_scope_ids scope st e"
    and "res \<noteq> Inl Ks_Attribute"
  shows "chasing k e'"
proof -
  from assms(1) obtain ids where ids: "active_orders e' = pend_all ids (active_orders e)"
    "case res of Inl x \<Rightarrow> x \<noteq> Ks_Attribute \<longrightarrow> manual_intervention_required e'
      | Inr r \<Rightarrow> in_scope_ids scope st e = set ids \<union> set (kr_uncancelled r) \<and> (kr_uncancelled r \<noteq> [] \<longrightarrow> manual_intervention_required e')"
    unfolding triggered_def sweep_effect_def by (cases res) auto
  obtain o' where "py_get (active_orders e) k = Some o'" using assms(4) by (auto simp: in_scope_ids_iff[OF assms(2)])
  then have "k \<in> set ids \<Longrightarrow> k \<in> set (pending_cancel_order_ids e')"
    by (simp add: pending_iff[OF assms(3)] ids(1) pend_all_get pended_def)
  with ids(2) assms(3-5) show ?thesis by (cases res) (auto simp: chasing_def)
qed

lemma input_errors:
  "require_id s = Inl x \<Longrightarrow> x = Kill_Switch_Error" "parse_scope s = Inl x \<Longrightarrow> x = Kill_Switch_Error"
  "scope_strategy sc st = Inl x \<Longrightarrow> x = Kill_Switch_Error" "clean_reason r = Inl x \<Longrightarrow> x = Kill_Switch_Error"
  "now_of C e = (Inl x, e1) \<Longrightarrow> x = Kill_Switch_Error"
  by (auto simp: require_id_def parse_scope_def scope_strategy_def clean_reason_def now_of_def
      split: if_splits sum.splits option.splits ks_reason.splits stamp.splits)

lemma chasing_refuses_reset:
  assumes "chasing k e"
  shows "fst (reset_kill_switch C scope0 authorized0 reason0 strategy0 False e) = Inl Kill_Switch_Error"
proof -
  have "pending_cancel_order_ids e \<noteq> [] \<or> manual_intervention_required e" using assms by (auto simp: chasing_def)
  then show ?thesis by (auto simp: reset_kill_switch_def Let_def dest: input_errors split: sum.splits)
qed

text \<open>A trigger ends with an \<open>AttributeError\<close> only for a strategy, and only when a gateway's answer to
  an order-by-order cancel was no mapping.\<close>

definition answers_malformed :: "'g ks_setup \<Rightarrow> bool" where
  "answers_malformed C \<longleftrightarrow> (\<exists>v gw ids g. py_get (ks_gateways C) v = Some gw \<and> fst (cancel_orders gw ids g) = Cancel_malformed)"

lemma order_loop_attribute:
  "order_cancel_loop C os event_id vs ds un e = (Inl x, e') \<Longrightarrow> answers_malformed C"
proof (induction vs arbitrary: ds un e)
  case (Cons v vs)
  show ?case
  proof (cases "py_get (ks_gateways C) v")
    case None
    with Cons.prems show ?thesis by (auto simp: Let_def intro: Cons.IH)
  next
    case (Some gw)
    let ?ids = "map so_id (venue_orders os v)"
    obtain answer g where a: "cancel_orders gw ?ids (gateway_state e) = (answer, g)" by fastforce
    show ?thesis
    proof (cases answer)
      case Cancel_malformed
      with a Some have "py_get (ks_gateways C) v = Some gw \<and> fst (cancel_orders gw ?ids (gateway_state e)) = Cancel_malformed" by simp
      then show ?thesis unfolding answers_malformed_def by blast
    qed (use Cons.prems Some a in \<open>auto simp: Let_def intro: Cons.IH\<close>)
  qed
qed simp

lemma send_error: "send_mass_cancel gw rq n e = (Inl x, e1) \<Longrightarrow> x = Kill_Switch_Error"
  by (auto simp: send_mass_cancel_def Let_def split: prod.splits mass_reply.splits if_splits)

lemma global_loop_error:
  "global_cancel_loop C os event_id now vs ds un e = (Inl x, e') \<Longrightarrow> x = Kill_Switch_Error"
proof (induction vs arbitrary: ds un e)
  case (Cons v vs)
  show ?case
  proof (cases "py_get (ks_gateways C) v")
    case None
    with Cons.prems show ?thesis by (auto simp: Let_def intro: Cons.IH)
  next
    case (Some gw)
    define rq where "rq = \<lparr>mr_id = event_id @ ''-'' @ v, mr_type = MASS_CANCEL_ALL_ORDERS, mr_venue = v, mr_time = now\<rparr>"
    obtain r e1 where s: "send_mass_cancel gw rq (length (venue_orders os v)) e = (r, e1)" by fastforce
    note prems = Cons.prems[unfolded global_cancel_loop.simps Let_def Some option.case, folded rq_def, unfolded s prod.case]
    show ?thesis
    proof (cases r)
      case (Inl y)
      with prems send_error[OF s[unfolded Inl]] show ?thesis by simp
    next
      case (Inr da)
      with prems show ?thesis by (cases "snd da") (auto simp: case_prod_beta intro: Cons.IH)
    qed
  qed
qed simp

lemma dispatch_error:
  assumes "dispatch_cancel C scope os event_id now e = (Inl x, e')"
  shows "x = Kill_Switch_Error \<or> scope \<noteq> SCOPE_GLOBAL \<and> answers_malformed C"
proof (cases "scope = SCOPE_GLOBAL")
  case True
  with assms show ?thesis
    by (auto simp: dispatch_cancel_def dispatch_global_cancel_def dest: global_loop_error split: if_splits)
next
  case False
  with assms show ?thesis
    by (auto simp: dispatch_cancel_def dispatch_order_by_order_cancel_def dest: order_loop_attribute)
qed

lemma attribute_error_from_gateway:
  assumes "trigger_kill_switch C scope0 reason0 strategy0 triggered0 code e = (Inl Ks_Attribute, e')"
  shows "parse_scope scope0 = Inr SCOPE_STRATEGY \<and> answers_malformed C"
proof -
  from assms obtain scope reason st by' where *: "parse_scope scope0 = Inr scope"
    "trigger_locked C scope reason st by' code e = (Inl Ks_Attribute, e')"
    by (auto simp: trigger_kill_switch_def dest: input_errors split: sum.splits)
  then obtain os i t e3 e4 where "dispatch_cancel C scope os i t e3 = (Inl Ks_Attribute, e4)"
    by (auto simp: trigger_locked_def Let_def dest: input_errors split: sum.splits prod.splits)
  from dispatch_error[OF this] *(1) parse_scope_ok[OF *(1)] show ?thesis by auto
qed

text \<open>C28. After a trigger, an order of its scope keeps order entry from being re-armed: until an
  execution report on that very order arrives or somebody acknowledges the open cancels, every
  reset, of any scope, is refused. It holds when the trigger returns its report, for an order
  whose cancel a venue accepted, refused or could not be asked for, and when it raises for a mass
  cancel answered with nonsense. The one way out is an order-by-order cancel answered with
  something that is no mapping: the \<open>AttributeError\<close> leaves the trigger before the orders of
  that venue are accounted for (\<open>malformed_answer_forgets_order\<close>), and a trigger ends like that
  in no other case (\<open>attribute_error_from_gateway\<close>). Later triggers may end so too: they take
  nothing back.
\<close>

theorem rearm_needs_report_or_acknowledgement:
  assumes "e = fold (ks_step C) es0 (new_kill_engine g)"
    and "parse_scope scope0 = Inr scope" "scope_strategy scope strategy0 = Inr strategy_id"
    and "clean_reason reason0 = Inr reason" "require_id triggered0 = Inr triggered_by"
    and "ks_clock C (ks_reads e) = Aware_at now"
    and "trigger_kill_switch C scope0 reason0 strategy0 triggered0 code e = (res, e')" "res \<noteq> Inl Ks_Attribute"
    and "py_get (active_orders e) k = Some o'" "is_cancellable o'" "covers scope strategy_id (so_strategy o')"
    and "list_all (\<lambda>ev. \<not> acknowledged ev \<and> \<not> reports_on k ev) es"
  shows "fst (reset_kill_switch C reset_scope authorized why strategy1 False (fold (ks_step C) es e')) = Inl Kill_Switch_Error"
proof -
  have inv: "ks_inv e" using assms(1) by (simp add: kill_book.run_inv ks_inv_new)
  have t: "triggered scope strategy_id e res e'" "ks_inv e \<longrightarrow> ks_inv e'"
    using assms(7) by (auto intro: trigger_understood[OF assms(2-6), of code])
  with inv assms(8-11) have "chasing k e'" by (intro triggered_chasing) (auto simp: in_scope_ids_iff)
  then have "chasing k (fold (ks_step C) es e')" by (rule chase.run_guarded[OF assms(12)])
  then show ?thesis by (rule chasing_refuses_reset)
qed

section \<open>The gate\<close>

text \<open>The limits, said over exact values.\<close>

definition within_limits :: "risk_limits \<Rightarrow> risk_snapshot \<Rightarrow> int \<Rightarrow> bool" where
  "within_limits L S rate \<longleftrightarrow> - num_rat (daily_pnl_usd S) < num_rat (max_daily_loss_usd L) \<and>
     \<bar>num_rat (net_exposure_usd S)\<bar> < num_rat (max_net_exposure_usd L) \<and> rate < max_order_rate_per_sec L"

definition fresh_at :: "risk_limits \<Rightarrow> risk_snapshot \<Rightarrow> int \<Rightarrow> bool" where
  "fresh_at L S now \<longleftrightarrow> (case (max_snapshot_age_seconds L, as_of S) of
     (Some age, Some (Aware_at t)) \<Rightarrow> \<bar>of_int (now - t)\<bar> \<le> age * 1000000
   | _ \<Rightarrow> True)"

definition attempts_in_window :: "'g kill_engine \<Rightarrow> int \<Rightarrow> int" where
  "attempts_in_window e now = int (length (filter (\<lambda>t. now - 1000000 < t) (order_entry_times e)))"

lemma observed_after_attempt:
  "observed_order_rate now (record_order_attempt now ts) = int (length (filter (\<lambda>t. now - 1000000 < t) ts)) + 1"
  by (simp add: observed_order_rate_def record_order_attempt_def Let_def)

lemma staleness_iff: "staleness_reason L S now = None \<longleftrightarrow> fresh_at L S now"
  by (auto simp: staleness_reason_def fresh_at_def Let_def abs_le_iff field_simps split: option.splits stamp.splits)

lemma finite_cases: "require_finite v = None \<Longrightarrow> (\<exists>n. v = N_int n) \<or> (\<exists>r. v = N_float r)"
  by (cases v) (auto simp: require_finite_def)

lemma finite_ops:
  assumes "require_finite v = None"
  shows "num_rat (negate v) = - num_rat v" "num_rat (magnitude v) = \<bar>num_rat v\<bar>"
    "(\<exists>n. negate v = N_int n) \<or> (\<exists>r. negate v = N_float r)" "(\<exists>n. magnitude v = N_int n) \<or> (\<exists>r. magnitude v = N_float r)"
  using finite_cases[OF assms] by auto

lemma at_least_finite:
  "(\<exists>n. a = N_int n) \<or> (\<exists>r. a = N_float r) \<Longrightarrow> require_finite b = None \<Longrightarrow> at_least a b \<longleftrightarrow> num_rat b \<le> num_rat a"
  using finite_cases[of b] by auto

lemma make_limits_ok:
  "make_limits L = Inr L' \<Longrightarrow> L' = L \<and> require_finite (max_daily_loss_usd L) = None \<and> require_finite (max_net_exposure_usd L) = None"
  by (auto simp: make_limits_def positive_limit_def split: option.splits if_splits)

lemma first_breach_exact:
  assumes "make_limits (ks_limits C) = Inr L" "validate_snapshot S = None"
  shows "\<exists>b. first_breach C S (Some now) e = (Inr b, e) \<and>
    (b = None \<longleftrightarrow> within_limits L S (case order_rate_per_sec S of Some r \<Rightarrow> r | None \<Rightarrow> observed_order_rate now (order_entry_times e)))"
proof -
  note L = make_limits_ok[OF assms(1)]
  have S: "require_finite (daily_pnl_usd S) = None" "require_finite (net_exposure_usd S) = None"
    using assms(2) by (auto simp: validate_snapshot_def split: option.splits)
  have l: "at_least (negate (daily_pnl_usd S)) (max_daily_loss_usd L) \<longleftrightarrow> num_rat (max_daily_loss_usd L) \<le> - num_rat (daily_pnl_usd S)"
    using L S by (simp add: at_least_finite finite_ops)
  have x: "at_least (magnitude (net_exposure_usd S)) (max_net_exposure_usd L) \<longleftrightarrow> num_rat (max_net_exposure_usd L) \<le> \<bar>num_rat (net_exposure_usd S)\<bar>"
    using L S by (simp add: at_least_finite finite_ops)
  show ?thesis
    using L l x by (auto simp: first_breach_def time_given_def rate_breach_def within_limits_def Let_def not_le split: option.splits)
qed

lemma triggered_blocks: "triggered scope st e res e' \<Longrightarrow> res = Inr r \<Longrightarrow> kr_blocked r"
  by (auto simp: triggered_def sweep_effect_def honest_report_def)

lemma breach_never_approves:
  assumes "trigger_kill_switch C sc r0 st by' code e = (Inr r, e')"
  shows "kr_blocked r"
  using trigger_effect[OF assms] triggered_blocks by blast

text \<open>The gate is exact: with limits its constructor accepts and a clock that answers, an
  order is approved if and only if neither kill switch is engaged for it, the risk data is
  usable and fresh, and loss, exposure and rate are strictly below their limits; the observed
  rate counts this very attempt.
\<close>

theorem approved_iff_within_limits:
  assumes "make_limits (ks_limits C) = Inr L"
    and "ks_clock C (ks_reads e) = Aware_at now" "ks_clock C (Suc (ks_reads e)) = Aware_at later"
  shows "(\<exists>r. fst (audit_and_validate_new_order C rq S count e) = Inr r \<and> \<not> kr_blocked r) \<longleftrightarrow>
    \<not> global_kill_engaged e \<and> py_get (strategy_kills e) (nr_strategy rq) = None \<and>
    validate_snapshot S = None \<and> fresh_at L S now \<and>
    within_limits L S (case order_rate_per_sec S of Some r \<Rightarrow> r
                       | None \<Rightarrow> attempts_in_window e now + (if count then 1 else 0))"
proof -
  obtain e1 where 1: "now_of C e = (Inr now, e1)" "ks_reads e1 = Suc (ks_reads e)"
    "order_entry_times e1 = order_entry_times e"
    using assms(2) by (simp add: now_of_def)
  define e2 where "e2 = (if count then e1\<lparr>order_entry_times := record_order_attempt now (order_entry_times e1)\<rparr> else e1)"
  have core: "global_kill_engaged e2 = global_kill_engaged e" "strategy_kills e2 = strategy_kills e"
    using core_eqD[OF now_of_core[OF 1(1)]] by (simp_all add: e2_def)
  have rate: "observed_order_rate now (order_entry_times e2) = attempts_in_window e now + (if count then 1 else 0)"
    by (cases count) (simp_all add: e2_def 1 observed_after_attempt attempts_in_window_def, simp add: observed_order_rate_def)
  have rej: "\<nexists>r. fst (rejection_report C reason code scope target status e2) = Inr r \<and> \<not> kr_blocked r" for reason code scope target status
  proof -
    have "refused status (fst (rejection_report C reason code scope target status e2))"
      by (rule rejection_refused[OF surjective_pairing])
    then show ?thesis by (auto simp: refused_def)
  qed
  have norm: "\<exists>r. fst (normal_report C by' e2) = Inr r \<and> \<not> kr_blocked r" for by'
    using assms(3) 1 by (simp add: normal_report_def plain_report_def now_of_def e2_def Let_def case_prod_beta)
  have trig: "\<nexists>r. fst (trigger_kill_switch C sc r0 st by' code e2) = Inr r \<and> \<not> kr_blocked r" for sc r0 st by' code
    using breach_never_approves[of C sc r0 st by' code e2] by (metis surjective_pairing)
  have L: "L = ks_limits C" using make_limits_ok[OF assms(1)] by simp
  note def = audit_and_validate_new_order_def[of C rq S count e, unfolded 1(1) prod.case sum.case Let_def, folded e2_def]
  show ?thesis
  proof (cases "global_kill_engaged e \<or> py_get (strategy_kills e) (nr_strategy rq) \<noteq> None \<or> validate_snapshot S \<noteq> None \<or> \<not> fresh_at L S now")
    case True
    then show ?thesis using rej
      by (auto simp: def core staleness_iff[symmetric] L split: option.splits ks_error.splits)
  next
    case False
    from first_breach_exact[OF assms(1), of S now e2, unfolded rate] False obtain b where
      b: "first_breach C S (Some now) e2 = (Inr b, e2)"
      "b = None \<longleftrightarrow> within_limits L S (case order_rate_per_sec S of Some r \<Rightarrow> r
                       | None \<Rightarrow> attempts_in_window e now + (if count then 1 else 0))" by auto
    have st: "staleness_reason (ks_limits C) S now = None" using False by (simp add: staleness_iff L)
    have "audit_and_validate_new_order C rq S count e = (case b of
        None \<Rightarrow> normal_report C ''PRE_TRADE_RISK_GATE'' e2
      | Some (code, reason) \<Rightarrow> trigger_kill_switch C ''GLOBAL'' reason None ''PRE_TRADE_RISK_GATE'' (Some code) e2)"
      using False by (simp add: def core st b(1) split: option.splits prod.splits)
    with b(2) False norm trig show ?thesis by (cases b) (auto split: prod.splits)
  qed
qed

end
