(* ===== verification/Kill_Witnesses.thy ===== *)
theory Kill_Witnesses
  imports Kill_Properties
begin

text \<open>
  A desk with two venues, one of them behind the module's own in-memory gateway and one with
  no gateway at all, and the guarantees of the kill switch applied to it.
\<close>

definition demo_limits :: risk_limits where
  "demo_limits = \<lparr>max_daily_loss_usd = N_int 1000, max_order_rate_per_sec = 3,
     max_net_exposure_usd = N_float 5000, max_snapshot_age_seconds = Some 5\<rparr>"

definition demo_gateway :: "memory_gateway gateway" where
  "demo_gateway = \<lparr>mass_cancel = memory_mass_cancel, cancel_orders = memory_cancel_orders\<rparr>"

definition demo_memory :: memory_gateway where
  "demo_memory = \<lparr>mg_outcome = \<lparr>mo_accepted = True, mo_response = Some ''7'', mo_reject_reason = None\<rparr>,
     mg_raises = None, mg_unsupported = [], mg_requests = [], mg_cancelled = []\<rparr>"

definition demo_setup :: "memory_gateway ks_setup" where
  "demo_setup = \<lparr>ks_limits = demo_limits, ks_gateways = [(''X'', demo_gateway)],
     ks_clock = (\<lambda>n. Aware_at (1700000000000000 + int n * 1000))\<rparr>"

definition demo_order :: "string \<Rightarrow> string \<Rightarrow> string \<Rightarrow> strategy_order" where
  "demo_order i s v = \<lparr>so_id = i, so_strategy = s, so_symbol = ''EUR'', so_side = ''BUY'', so_qty = 10,
     so_price = N_int 1, so_status = ORDER_NEW, so_venue = v, so_filled = 0\<rparr>"

definition demo_events :: "ks_event list" where
  "demo_events = [Register (demo_order ''A1'' ''alpha'' ''X''), Register (demo_order ''A2'' ''alpha'' ''Y'')]"

definition demo_engine :: "memory_gateway kill_engine" where
  "demo_engine = fold (ks_step demo_setup) demo_events (new_kill_engine demo_memory)"

definition demo_request :: new_order_request where
  "demo_request = \<lparr>nr_id = ''A3'', nr_strategy = ''alpha'', nr_symbol = ''EUR'', nr_side = ''BUY'', nr_qty = 1,
     nr_price = N_int 1, nr_venue = ''X''\<rparr>"

definition demo_risk :: risk_snapshot where
  "demo_risk = \<lparr>daily_pnl_usd = N_int (- 999), net_exposure_usd = N_float (- 4999), order_rate_per_sec = None,
     as_of = Some (Aware_at 1700000000000000)\<rparr>"

abbreviation demo_trigger :: "(ks_error + kill_report) \<times> memory_gateway kill_engine" where
  "demo_trigger \<equiv> trigger_kill_switch demo_setup ''global'' (Given ''loop'') None ''desk'' None demo_engine"

lemma demo_understood:
  "parse_scope ''global'' = Inr SCOPE_GLOBAL" "scope_strategy SCOPE_GLOBAL None = Inr None"
  "clean_reason (Given ''loop'') = Inr (Given ''loop'')" "require_id ''desk'' = Inr ''desk''"
  "ks_clock demo_setup (ks_reads demo_engine) = Aware_at 1700000000000000"
  by code_simp+

lemma demo_orders: "py_get (active_orders demo_engine) ''A1'' = Some (demo_order ''A1'' ''alpha'' ''X'')"
  by code_simp

lemma demo_trigger_returns: "demo_trigger = (Inr (projr (fst demo_trigger)), snd demo_trigger)"
proof -
  have "\<not> isl (fst demo_trigger)" by code_simp
  then show ?thesis by (metis prod.collapse sum.collapse(2))
qed

lemma lockout_from_trigger_until_reset_witness:
  "refused REJECTED_KILL_SWITCH_ACTIVE (fst (audit_and_validate_new_order demo_setup demo_request demo_risk True
     (fold (ks_step demo_setup) [Reset ''STRATEGY'' ''a'' ''b'' (Some ''beta'') True, Evaluate demo_risk ''c''] (snd demo_trigger))))"
  by (rule lockout_from_trigger_until_reset[OF demo_understood]) code_simp+

lemma no_order_lost_by_trigger_witness:
  "''A1'' \<in> set (kr_pending (projr (fst demo_trigger))) \<or> ''A1'' \<in> set (kr_uncancelled (projr (fst demo_trigger)))"
proof -
  have "is_cancellable (demo_order ''A1'' ''alpha'' ''X'')" by code_simp
  moreover have "covers (kr_scope (projr (fst demo_trigger))) (kr_target (projr (fst demo_trigger))) ''alpha''" by code_simp
  ultimately show ?thesis
    using no_order_lost_by_trigger[OF demo_engine_def demo_trigger_returns demo_orders] by (auto simp: demo_order_def)
qed

lemma rearm_needs_report_or_acknowledgement_witness:
  "fst (reset_kill_switch demo_setup ''GLOBAL'' ''desk'' ''back'' None False
    (fold (ks_step demo_setup) [Execution_report ''A2'' ''CANCELLED'' None] (snd demo_trigger))) = Inl Kill_Switch_Error"
  by (rule rearm_needs_report_or_acknowledgement[OF demo_engine_def demo_understood surjective_pairing _ demo_orders]) code_simp+

text \<open>
  The case the guarantee leaves out. A gateway whose answer to an order-by-order cancel is no
  mapping stops the trigger half-way: the lockout is on, but the order is still \<open>NEW\<close>, nobody
  has been called, and the next reset is accepted without an acknowledgement.
\<close>

definition nonsense_setup :: "memory_gateway ks_setup" where
  "nonsense_setup = demo_setup\<lparr>ks_gateways := [(''X'', demo_gateway\<lparr>cancel_orders := \<lambda>ids g. (Cancel_malformed, g)\<rparr>)]\<rparr>"

lemma malformed_answer_forgets_order:
  "let e = ks_step nonsense_setup (Register (demo_order ''A1'' ''alpha'' ''X'')) (new_kill_engine demo_memory);
       (res, e') = trigger_kill_switch nonsense_setup ''STRATEGY'' (Given ''loop'') (Some ''alpha'') ''desk'' None e
   in res = Inl Ks_Attribute \<and> is_blocked e' (Some ''alpha'') \<and>
      py_get (active_orders e') ''A1'' = Some (demo_order ''A1'' ''alpha'' ''X'') \<and> \<not> manual_intervention_required e' \<and>
      \<not> isl (fst (reset_kill_switch nonsense_setup ''STRATEGY'' ''desk'' ''back'' (Some ''alpha'') False e'))"
  by code_simp

lemma approved_iff_within_limits_witness:
  "\<exists>r. fst (audit_and_validate_new_order demo_setup demo_request demo_risk True demo_engine) = Inr r \<and> \<not> kr_blocked r"
proof -
  have "make_limits (ks_limits demo_setup) = Inr demo_limits" by code_simp
  moreover have "ks_clock demo_setup (Suc (ks_reads demo_engine)) = Aware_at 1700000000001000" by code_simp
  ultimately show ?thesis
    by (subst approved_iff_within_limits[OF _ demo_understood(5)]) code_simp+
qed

end
