(* ===== verification/Book_Replay.thy ===== *)
theory Book_Replay
  imports Py_Value
begin

text \<open>
  Model of \<open>skills/historical-order-book-reconstruction-from-message-logs/scripts/
  historical_order_book_reconstruction_from_message_logs.py\<close>: the replay of a market-by-order
  log into the live orders and, kept beside them, the displayed depth of every price level.
  A message is a value; its price is a number, of which a float is the rational it denotes,
  so a product with the scale is exact here up to the overflow of a double. The detail texts
  of violations and the audit notes are left out.
\<close>

section \<open>Vocabulary\<close>

datatype book_side = BUY | SELL | Other_side string

datatype l3_msg_type = MSG_ADD | MSG_CANCEL | MSG_DELETE | MSG_EXECUTE | MSG_REPLACE | Other_msg string

datatype violation_kind = UNKNOWN_ORDER | DUPLICATE_ORDER_ID | OVER_CANCEL | OVER_EXECUTE | TIMESTAMP_REGRESSION

datatype book_error = Value_error | Overflow_error | Integrity_error violation_kind | Key_error

definition parse_side :: "string \<Rightarrow> book_side" where
  "parse_side s = (if s = ''BUY'' then BUY else if s = ''SELL'' then SELL else Other_side s)"

definition parse_msg_type :: "string \<Rightarrow> l3_msg_type" where
  "parse_msg_type s = (case map_of [(''ADD'', MSG_ADD), (''CANCEL'', MSG_CANCEL), (''DELETE'', MSG_DELETE),
     (''EXECUTE'', MSG_EXECUTE), (''REPLACE'', MSG_REPLACE)] s of Some t \<Rightarrow> t | None \<Rightarrow> Other_msg s)"

record integrity_violation =
  iv_kind :: violation_kind
  iv_order :: string
  iv_timestamp :: int

section \<open>Messages and orders\<close>

record l3_message =
  lm_order :: string
  lm_type :: l3_msg_type
  lm_side :: book_side
  lm_price :: number
  lm_qty :: int
  lm_time :: int
  lm_new_order :: "string option"

definition make_l3_message :: "string \<Rightarrow> string \<Rightarrow> string \<Rightarrow> number \<Rightarrow> int \<Rightarrow> int \<Rightarrow> string option \<Rightarrow> l3_message" where
  "make_l3_message i t s p q ts n = \<lparr>lm_order = py_strip i, lm_type = parse_msg_type (py_upper (py_strip t)),
     lm_side = parse_side (py_upper (py_strip s)), lm_price = p, lm_qty = q, lm_time = ts,
     lm_new_order = map_option py_strip n\<rparr>"

definition l3_add :: "string \<Rightarrow> string \<Rightarrow> number \<Rightarrow> int \<Rightarrow> int \<Rightarrow> l3_message" where
  "l3_add i s p q ts = make_l3_message i ''ADD'' s p q ts None"

definition l3_cancel :: "string \<Rightarrow> int \<Rightarrow> int \<Rightarrow> l3_message" where
  "l3_cancel i q ts = make_l3_message i ''CANCEL'' '''' (N_float 0) q ts None"

definition l3_delete :: "string \<Rightarrow> int \<Rightarrow> l3_message" where
  "l3_delete i ts = make_l3_message i ''DELETE'' '''' (N_float 0) 0 ts None"

definition l3_execute :: "string \<Rightarrow> int \<Rightarrow> int \<Rightarrow> l3_message" where
  "l3_execute i q ts = make_l3_message i ''EXECUTE'' '''' (N_float 0) q ts None"

definition l3_replace :: "string \<Rightarrow> string \<Rightarrow> number \<Rightarrow> int \<Rightarrow> int \<Rightarrow> l3_message" where
  "l3_replace i n p q ts = make_l3_message i ''REPLACE'' '''' p q ts (Some n)"

record order_detail =
  od_id :: string
  od_side :: book_side
  od_ticks :: int
  od_qty :: int
  od_scale :: int

definition od_price :: "order_detail \<Rightarrow> rat" where
  "od_price o' = of_int (od_ticks o') / of_int (od_scale o')"

record price_level =
  pl_price :: rat
  pl_qty :: int
  pl_count :: int
  pl_ticks :: int

section \<open>The engine\<close>

record book_config =
  bc_symbol :: string
  bc_scale :: int
  bc_decimals :: nat
  bc_strict :: bool
  bc_max_retained :: int
  bc_max_price :: "number option"

text \<open>The exponent of the largest power of ten not above \<open>n\<close>.\<close>

function ten_exponent :: "int \<Rightarrow> nat" where
  "ten_exponent n = (if n < 10 then 0 else Suc (ten_exponent (n div 10)))"
  by pat_completeness auto
termination by (relation "measure nat") auto

declare ten_exponent.simps [simp del]

definition bad_max_price :: "number option \<Rightarrow> book_error option" where
  "bad_max_price m = (case m of
     None \<Rightarrow> None
   | Some (N_int n) \<Rightarrow> (if double_of_int n = None then Some Overflow_error else if n \<le> 0 then Some Value_error else None)
   | Some (N_float r) \<Rightarrow> if r \<le> 0 then Some Value_error else None
   | Some _ \<Rightarrow> Some Value_error)"

definition make_book :: "string \<Rightarrow> int \<Rightarrow> bool \<Rightarrow> int \<Rightarrow> number option \<Rightarrow> book_error + book_config" where
  "make_book symbol scale strict max_retained max_price =
     (if scale < 1 then Inl Value_error
      else if 10 ^ ten_exponent scale \<noteq> scale then Inl Value_error
      else if max_retained < 0 then Inl Value_error
      else (case bad_max_price max_price of
          Some x \<Rightarrow> Inl x
        | None \<Rightarrow> Inr \<lparr>bc_symbol = symbol, bc_scale = scale, bc_decimals = ten_exponent scale, bc_strict = strict,
                       bc_max_retained = max_retained, bc_max_price = max_price\<rparr>))"

type_synonym depth = "(int, int \<times> int) py_dict"

record book =
  live_orders :: "(string, order_detail) py_dict"
  bid_levels :: depth
  ask_levels :: depth
  messages_processed :: nat
  last_timestamp :: "int option"
  violations :: "integrity_violation list"
  violations_by_kind :: "(violation_kind, nat) py_dict"

definition empty_book :: book where
  "empty_book = \<lparr>live_orders = [], bid_levels = [], ask_levels = [], messages_processed = 0,
     last_timestamp = None, violations = [], violations_by_kind = []\<rparr>"

text \<open>A call that changes the book and may raise; what was changed before the raise stays.\<close>

type_synonym book_result = "(book_error + unit) \<times> book"

definition book_then :: "book_result \<Rightarrow> (book \<Rightarrow> book_result) \<Rightarrow> book_result" where
  "book_then r f = (case r of (Inl x, b) \<Rightarrow> (Inl x, b) | (Inr _, b) \<Rightarrow> f b)"

section \<open>Prices\<close>

definition exceeds :: "number \<Rightarrow> number option \<Rightarrow> bool" where
  "exceeds p m = (case m of None \<Rightarrow> False | Some q \<Rightarrow> num_rat p > num_rat q)"

text \<open>A product at or above this rounds to infinity, and \<open>round\<close> of infinity raises.\<close>

definition double_limit :: rat where
  "double_limit = 2 ^ 1024 - 2 ^ 970"

definition to_ticks :: "book_config \<Rightarrow> number \<Rightarrow> book_error + int" where
  "to_ticks C p = (case p of
     N_int n \<Rightarrow>
       (if double_of_int n = None then Inl Overflow_error
        else if n \<le> 0 \<or> exceeds p (bc_max_price C) then Inl Value_error
        else Inr (n * bc_scale C))
   | N_float r \<Rightarrow>
       (if r \<le> 0 \<or> exceeds p (bc_max_price C) then Inl Value_error
        else let scaled = r * of_int (bc_scale C); ticks = round_half_even scaled in
          if double_of_int (bc_scale C) = None \<or> scaled \<ge> double_limit then Inl Overflow_error
          else if \<bar>scaled - of_int ticks\<bar> > 1 / 1000000 then Inl Value_error
          else Inr ticks)
   | _ \<Rightarrow> Inl Value_error)"

section \<open>Violations\<close>

definition record_violation :: "book_config \<Rightarrow> violation_kind \<Rightarrow> string \<Rightarrow> int \<Rightarrow> book \<Rightarrow> book_result" where
  "record_violation C kind oid ts b =
     (let n = (case py_get (violations_by_kind b) kind of None \<Rightarrow> 0 | Some n \<Rightarrow> n);
          b1 = b\<lparr>violations_by_kind := py_set (violations_by_kind b) kind (n + 1)\<rparr>
      in if bc_strict C then (Inl (Integrity_error kind), b1)
         else if int (length (violations b1)) < bc_max_retained C
         then (Inr (), b1\<lparr>violations := violations b1 @ [\<lparr>iv_kind = kind, iv_order = oid, iv_timestamp = ts\<rparr>]\<rparr>)
         else (Inr (), b1))"

definition violation_count :: "book \<Rightarrow> nat" where
  "violation_count b = sum_list (py_values (violations_by_kind b))"

section \<open>Levels\<close>

definition levels_for :: "book_side \<Rightarrow> book \<Rightarrow> depth" where
  "levels_for s b = (if s = BUY then bid_levels b else ask_levels b)"

definition set_levels :: "book_side \<Rightarrow> depth \<Rightarrow> book \<Rightarrow> book" where
  "set_levels s d b = (if s = BUY then b\<lparr>bid_levels := d\<rparr> else b\<lparr>ask_levels := d\<rparr>)"

definition level_insert :: "book_side \<Rightarrow> int \<Rightarrow> int \<Rightarrow> book \<Rightarrow> book" where
  "level_insert s t q b = (case py_get (levels_for s b) t of
     None \<Rightarrow> set_levels s (py_set (levels_for s b) t (q, 1)) b
   | Some (q0, n0) \<Rightarrow> set_levels s (py_set (levels_for s b) t (q0 + q, n0 + 1)) b)"

definition level_remove_order :: "book_side \<Rightarrow> int \<Rightarrow> int \<Rightarrow> book \<Rightarrow> book_result" where
  "level_remove_order s t q b = (case py_get (levels_for s b) t of
     None \<Rightarrow> (Inl Key_error, b)
   | Some (q0, n0) \<Rightarrow>
       (if n0 - 1 \<le> 0 then (Inr (), set_levels s (py_del (levels_for s b) t) b)
        else (Inr (), set_levels s (py_set (levels_for s b) t (q0 - q, n0 - 1)) b)))"

definition level_reduce_qty :: "book_side \<Rightarrow> int \<Rightarrow> int \<Rightarrow> book \<Rightarrow> book_result" where
  "level_reduce_qty s t delta b = (case py_get (levels_for s b) t of
     None \<Rightarrow> (Inl Key_error, b)
   | Some (q0, n0) \<Rightarrow> (Inr (), set_levels s (py_set (levels_for s b) t (q0 - delta, n0)) b))"

definition insert_order :: "order_detail \<Rightarrow> book \<Rightarrow> book" where
  "insert_order o' b = level_insert (od_side o') (od_ticks o') (od_qty o')
     (b\<lparr>live_orders := py_set (live_orders b) (od_id o') o'\<rparr>)"

definition remove_order :: "order_detail \<Rightarrow> book \<Rightarrow> book_result" where
  "remove_order o' b = (case py_get (live_orders b) (od_id o') of
     None \<Rightarrow> (Inl Key_error, b)
   | Some _ \<Rightarrow> level_remove_order (od_side o') (od_ticks o') (od_qty o')
       (b\<lparr>live_orders := py_del (live_orders b) (od_id o')\<rparr>))"

section \<open>Messages\<close>

definition validate_common :: "l3_message \<Rightarrow> book_error option" where
  "validate_common m =
     (if lm_order m = '''' then Some Value_error
      else if (case lm_type m of Other_msg _ \<Rightarrow> True | _ \<Rightarrow> False) then Some Value_error
      else if lm_time m < 0 then Some Value_error else None)"

definition check_timestamp_order :: "book_config \<Rightarrow> l3_message \<Rightarrow> book \<Rightarrow> book_result" where
  "check_timestamp_order C m b =
     book_then (if (case last_timestamp b of None \<Rightarrow> False | Some t \<Rightarrow> lm_time m < t)
              then record_violation C TIMESTAMP_REGRESSION (lm_order m) (lm_time m) b else (Inr (), b))
       (\<lambda>b1. (Inr (), if (case last_timestamp b1 of None \<Rightarrow> True | Some t \<Rightarrow> lm_time m > t)
                      then b1\<lparr>last_timestamp := Some (lm_time m)\<rparr> else b1))"

definition apply_add :: "book_config \<Rightarrow> l3_message \<Rightarrow> book \<Rightarrow> book_result" where
  "apply_add C m b =
     (if lm_side m \<notin> {BUY, SELL} then (Inl Value_error, b)
      else if lm_qty m \<le> 0 then (Inl Value_error, b)
      else case to_ticks C (lm_price m) of
        Inl x \<Rightarrow> (Inl x, b)
      | Inr ticks \<Rightarrow>
          book_then (case py_get (live_orders b) (lm_order m) of
              None \<Rightarrow> (Inr (), b)
            | Some existing \<Rightarrow>
                book_then (record_violation C DUPLICATE_ORDER_ID (lm_order m) (lm_time m) b) (remove_order existing))
            (\<lambda>b1. (Inr (), insert_order \<lparr>od_id = lm_order m, od_side = lm_side m, od_ticks = ticks,
                              od_qty = lm_qty m, od_scale = bc_scale C\<rparr> b1)))"

definition apply_decrement :: "book_config \<Rightarrow> violation_kind \<Rightarrow> l3_message \<Rightarrow> book \<Rightarrow> book_result" where
  "apply_decrement C over_kind m b =
     (if lm_qty m \<le> 0 then (Inl Value_error, b)
      else case py_get (live_orders b) (lm_order m) of
        None \<Rightarrow> record_violation C UNKNOWN_ORDER (lm_order m) (lm_time m) b
      | Some existing \<Rightarrow>
          (if lm_qty m > od_qty existing then
             book_then (record_violation C over_kind (lm_order m) (lm_time m) b) (remove_order existing)
           else if lm_qty m = od_qty existing then remove_order existing b
           else level_reduce_qty (od_side existing) (od_ticks existing) (lm_qty m)
                  (b\<lparr>live_orders := py_set (live_orders b) (lm_order m) (existing\<lparr>od_qty := od_qty existing - lm_qty m\<rparr>)\<rparr>)))"

definition apply_delete :: "book_config \<Rightarrow> l3_message \<Rightarrow> book \<Rightarrow> book_result" where
  "apply_delete C m b = (case py_get (live_orders b) (lm_order m) of
     None \<Rightarrow> record_violation C UNKNOWN_ORDER (lm_order m) (lm_time m) b
   | Some existing \<Rightarrow> remove_order existing b)"

definition replacement_id :: "l3_message \<Rightarrow> string" where
  "replacement_id m = (case lm_new_order m of None \<Rightarrow> lm_order m | Some n \<Rightarrow> if n = '''' then lm_order m else n)"

definition apply_replace :: "book_config \<Rightarrow> l3_message \<Rightarrow> book \<Rightarrow> book_result" where
  "apply_replace C m b =
     (if lm_qty m \<le> 0 then (Inl Value_error, b)
      else case to_ticks C (lm_price m) of
        Inl x \<Rightarrow> (Inl x, b)
      | Inr ticks \<Rightarrow>
          (case py_get (live_orders b) (lm_order m) of
             None \<Rightarrow> record_violation C UNKNOWN_ORDER (lm_order m) (lm_time m) b
           | Some original \<Rightarrow>
               (let nid = replacement_id m in
                book_then (if nid = lm_order m then (Inr (), b)
                    else (case py_get (live_orders b) nid of
                        None \<Rightarrow> (Inr (), b)
                      | Some other \<Rightarrow>
                          book_then (record_violation C DUPLICATE_ORDER_ID nid (lm_time m) b) (remove_order other)))
                  (\<lambda>b1. book_then (remove_order original b1)
                    (\<lambda>b2. (Inr (), insert_order \<lparr>od_id = nid, od_side = od_side original, od_ticks = ticks,
                                       od_qty = lm_qty m, od_scale = bc_scale C\<rparr> b2))))))"

definition process_l3_message :: "book_config \<Rightarrow> l3_message \<Rightarrow> book \<Rightarrow> book_result" where
  "process_l3_message C m b =
     (case validate_common m of Some x \<Rightarrow> (Inl x, b) | None \<Rightarrow>
      book_then (check_timestamp_order C m b) (\<lambda>b0.
        let b1 = b0\<lparr>messages_processed := messages_processed b0 + 1\<rparr> in
        case lm_type m of
          MSG_ADD \<Rightarrow> apply_add C m b1
        | MSG_CANCEL \<Rightarrow> apply_decrement C OVER_CANCEL m b1
        | MSG_EXECUTE \<Rightarrow> apply_decrement C OVER_EXECUTE m b1
        | MSG_DELETE \<Rightarrow> apply_delete C m b1
        | _ \<Rightarrow> apply_replace C m b1))"

section \<open>Snapshots\<close>

record book_report =
  br_symbol :: string
  br_bid_price :: "rat option"
  br_bid_qty :: int
  br_ask_price :: "rat option"
  br_ask_qty :: int
  br_mid :: "rat option"
  br_spread :: "rat option"
  br_crossed :: bool
  br_locked :: bool
  br_bids :: "price_level list"
  br_asks :: "price_level list"
  br_depth :: nat
  br_orders :: nat
  br_messages :: nat
  br_last_timestamp :: "int option"
  br_violation_count :: nat
  br_by_kind :: "(violation_kind, nat) py_dict"

text \<open>\<open>heapq.nlargest\<close> and \<open>heapq.nsmallest\<close> over the distinct prices of a side.\<close>

definition best_ticks :: "book_side \<Rightarrow> nat \<Rightarrow> depth \<Rightarrow> int list" where
  "best_ticks s n d = take n (if s = BUY then rev (sort (py_keys d)) else sort (py_keys d))"

definition top_levels :: "book_config \<Rightarrow> book_side \<Rightarrow> nat \<Rightarrow> book \<Rightarrow> price_level list" where
  "top_levels C s n b = map (\<lambda>t. (let (q, k) = the (py_get (levels_for s b) t) in
       \<lparr>pl_price = of_int t / of_int (bc_scale C), pl_qty = q, pl_count = k, pl_ticks = t\<rparr>))
     (best_ticks s n (levels_for s b))"

definition round_decimals :: "nat \<Rightarrow> rat \<Rightarrow> rat" where
  "round_decimals d r = of_int (round_half_even (r * 10 ^ d)) / 10 ^ d"

definition l2_snapshot :: "book_config \<Rightarrow> int \<Rightarrow> book \<Rightarrow> book_error + book_report" where
  "l2_snapshot C top_n b =
     (if top_n < 1 then Inl Value_error
      else
        (let bids = top_levels C BUY (nat top_n) b; asks = top_levels C SELL (nat top_n) b;
             scale = of_int (bc_scale C);
             both = (bids \<noteq> [] \<and> asks \<noteq> []);
             bt = pl_ticks (hd bids); sell = pl_ticks (hd asks)
         in Inr \<lparr>br_symbol = bc_symbol C,
              br_bid_price = (if bids = [] then None else Some (pl_price (hd bids))),
              br_bid_qty = (if bids = [] then 0 else pl_qty (hd bids)),
              br_ask_price = (if asks = [] then None else Some (pl_price (hd asks))),
              br_ask_qty = (if asks = [] then 0 else pl_qty (hd asks)),
              br_mid = (if both then Some (round_decimals (bc_decimals C + 1) (of_int (bt + sell) / (2 * scale))) else None),
              br_spread = (if both then Some (round_decimals (bc_decimals C) (of_int (sell - bt) / scale)) else None),
              br_crossed = (both \<and> bt > sell), br_locked = (both \<and> bt = sell),
              br_bids = bids, br_asks = asks, br_depth = nat top_n, br_orders = length (live_orders b),
              br_messages = messages_processed b, br_last_timestamp = last_timestamp b,
              br_violation_count = violation_count b, br_by_kind = violations_by_kind b\<rparr>))"

section \<open>Replaying a log\<close>

text \<open>A log fed message by message, a caller stopping at the first raise.\<close>

fun replay :: "book_config \<Rightarrow> l3_message list \<Rightarrow> book \<Rightarrow> book_result" where
  "replay C [] b = (Inr (), b)"
| "replay C (m # ms) b = book_then (process_l3_message C m b) (replay C ms)"

text \<open>A caller that goes on after a raise.\<close>

definition book_step :: "book_config \<Rightarrow> l3_message \<Rightarrow> book \<Rightarrow> book" where
  "book_step C m b = snd (process_l3_message C m b)"

end
