(* ===== verification/Book_Levels.thy ===== *)
theory Book_Levels
  imports Book_Replay "HOL-Library.Multiset"
begin

text \<open>
  The depth kept beside the orders. Read as a multiset, the live orders determine every level:
  the number of orders at its price and the sum of their quantities. Each of the three level
  operations carries that reading from one multiset to the next, so that the incremental
  depth is at all times the one a rebuild from the orders would give, and the \<open>KeyError\<close> of a
  missing level cannot happen.
\<close>

section \<open>A level as a function of the orders\<close>

definition at_level :: "book_side \<Rightarrow> int \<Rightarrow> order_detail \<Rightarrow> bool" where
  "at_level s t o' \<longleftrightarrow> od_side o' = s \<and> od_ticks o' = t"

definition level_sum :: "order_detail multiset \<Rightarrow> (int \<times> int) option" where
  "level_sum N = (if N = {#} then None else Some (\<Sum>\<^sub># (image_mset od_qty N), int (size N)))"

definition level_of :: "book_side \<Rightarrow> int \<Rightarrow> order_detail multiset \<Rightarrow> (int \<times> int) option" where
  "level_of s t M = level_sum (filter_mset (at_level s t) M)"

lemma level_sum_add:
  "level_sum (add_mset o' N) = Some (case level_sum N of None \<Rightarrow> (od_qty o', 1) | Some (q, n) \<Rightarrow> (q + od_qty o', n + 1))"
  by (simp add: level_sum_def)

lemma level_of_add:
  "level_of s t (add_mset o' M) = (if at_level s t o'
     then Some (case level_of s t M of None \<Rightarrow> (od_qty o', 1) | Some (q, n) \<Rightarrow> (q + od_qty o', n + 1))
     else level_of s t M)"
  by (simp add: level_of_def level_sum_add)

lemma level_of_count: "level_of s t M = Some (q, n) \<Longrightarrow> n \<ge> 1"
  unfolding level_of_def level_sum_def
  by (cases "filter_mset (at_level s t) M") (auto split: if_splits)

lemma level_of_None: "level_of s t M = None \<longleftrightarrow> (\<forall>o'\<in>#M. \<not> at_level s t o')"
  by (auto simp: level_of_def level_sum_def)

lemma level_of_requantify:
  "od_side o2 = od_side o1 \<Longrightarrow> od_ticks o2 = od_ticks o1 \<Longrightarrow>
   level_of s t (add_mset o2 M) = (if at_level s t o1
     then map_option (\<lambda>(q, n). (q - od_qty o1 + od_qty o2, n)) (level_of s t (add_mset o1 M))
     else level_of s t (add_mset o1 M))"
  by (auto simp: level_of_add at_level_def split: option.splits)

section \<open>The three level operations\<close>

definition depth_is :: "order_detail multiset \<Rightarrow> book \<Rightarrow> bool" where
  "depth_is M b \<longleftrightarrow> (\<forall>s\<in>{BUY, SELL}. dict_ok (levels_for s b) \<and> (\<forall>t. py_get (levels_for s b) t = level_of s t M))"

lemma depth_isD:
  "depth_is M b \<Longrightarrow> s \<in> {BUY, SELL} \<Longrightarrow> dict_ok (levels_for s b)"
  "depth_is M b \<Longrightarrow> s \<in> {BUY, SELL} \<Longrightarrow> py_get (levels_for s b) t = level_of s t M"
  by (auto simp: depth_is_def)

lemma levels_for_set: "s \<in> {BUY, SELL} \<Longrightarrow> s' \<in> {BUY, SELL} \<Longrightarrow>
    levels_for s' (set_levels s d b) = (if s' = s then d else levels_for s' b)"
  by (auto simp: levels_for_def set_levels_def)

text \<open>What the level operations leave alone.\<close>

definition book_rest :: "book \<Rightarrow> nat \<times> int option \<times> integrity_violation list \<times> (violation_kind, nat) py_dict" where
  "book_rest b = (messages_processed b, last_timestamp b, violations b, violations_by_kind b)"

lemma set_levels_frame [simp]:
  "live_orders (set_levels s d b) = live_orders b" "book_rest (set_levels s d b) = book_rest b"
  by (simp_all add: set_levels_def book_rest_def)

lemma depth_is_set:
  assumes "depth_is M b" "s \<in> {BUY, SELL}" "dict_ok d"
    and "\<And>t. py_get d t = level_of s t M'" "\<And>s' t. s' \<noteq> s \<Longrightarrow> level_of s' t M' = level_of s' t M"
  shows "depth_is M' (set_levels s d b)"
  unfolding depth_is_def
proof (intro ballI)
  fix s' assume s': "s' \<in> {BUY, SELL}"
  show "dict_ok (levels_for s' (set_levels s d b)) \<and> (\<forall>t. py_get (levels_for s' (set_levels s d b)) t = level_of s' t M')"
    using assms depth_isD[OF assms(1) s'] levels_for_set[OF assms(2) s'] by auto
qed

lemma other_side_level: "od_side o' = s \<Longrightarrow> s' \<noteq> s \<Longrightarrow> level_of s' t (add_mset o' M) = level_of s' t M"
  by (simp add: level_of_add at_level_def)

lemma level_insert_depth:
  assumes "depth_is M b" "od_side o' \<in> {BUY, SELL}"
  shows "depth_is (add_mset o' M) (level_insert (od_side o') (od_ticks o') (od_qty o') b)"
proof -
  let ?s = "od_side o'"
  have get: "py_get (levels_for ?s b) t = level_of ?s t M" for t by (rule depth_isD(2)[OF assms])
  have ok: "dict_ok (levels_for ?s b)" by (rule depth_isD(1)[OF assms])
  show ?thesis
  proof (cases "level_of ?s (od_ticks o') M")
    case None
    have "depth_is (add_mset o' M) (set_levels ?s (py_set (levels_for ?s b) (od_ticks o') (od_qty o', 1)) b)"
      by (rule depth_is_set[OF assms])
        (use None in \<open>auto simp: ok get dict_simps level_of_add at_level_def\<close>)
    then show ?thesis by (simp add: level_insert_def get None)
  next
    case (Some qn)
    obtain q n where qn: "qn = (q, n)" by fastforce
    have "depth_is (add_mset o' M) (set_levels ?s (py_set (levels_for ?s b) (od_ticks o') (q + od_qty o', n + 1)) b)"
      by (rule depth_is_set[OF assms])
        (use Some in \<open>auto simp: ok get dict_simps level_of_add at_level_def qn\<close>)
    then show ?thesis by (simp add: level_insert_def get Some qn)
  qed
qed

lemma level_remove_depth:
  assumes "depth_is (add_mset o' M) b" "od_side o' \<in> {BUY, SELL}"
  obtains b' where "level_remove_order (od_side o') (od_ticks o') (od_qty o') b = (Inr (), b')" "depth_is M b'"
    "live_orders b' = live_orders b" "book_rest b' = book_rest b"
proof -
  let ?s = "od_side o'" let ?t = "od_ticks o'"
  have get: "py_get (levels_for ?s b) t = level_of ?s t (add_mset o' M)" for t by (rule depth_isD(2)[OF assms])
  have ok: "dict_ok (levels_for ?s b)" by (rule depth_isD(1)[OF assms])
  show ?thesis
  proof (cases "level_of ?s ?t M")
    case None
    have "depth_is M (set_levels ?s (py_del (levels_for ?s b) ?t) b)"
      by (rule depth_is_set[OF assms])
        (use None in \<open>auto simp: ok get dict_simps level_of_add at_level_def\<close>)
    from that[OF _ this] show ?thesis by (simp add: level_remove_order_def get None level_of_add at_level_def)
  next
    case (Some qn)
    obtain q n where qn: "qn = (q, n)" by fastforce
    with Some have n: "n \<ge> 1" by (simp add: level_of_count)
    have "depth_is M (set_levels ?s (py_set (levels_for ?s b) ?t (q, n)) b)"
      by (rule depth_is_set[OF assms])
        (use Some in \<open>auto simp: ok get dict_simps level_of_add at_level_def qn\<close>)
    from that[OF _ this] show ?thesis using n by (simp add: level_remove_order_def get Some qn level_of_add at_level_def)
  qed
qed

lemma level_reduce_depth:
  assumes "depth_is (add_mset o' M) b" "od_side o' \<in> {BUY, SELL}"
  obtains b' where "level_reduce_qty (od_side o') (od_ticks o') delta b = (Inr (), b')"
    "depth_is (add_mset (o'\<lparr>od_qty := od_qty o' - delta\<rparr>) M) b'" "live_orders b' = live_orders b" "book_rest b' = book_rest b"
proof -
  let ?s = "od_side o'" let ?t = "od_ticks o'" let ?o2 = "o'\<lparr>od_qty := od_qty o' - delta\<rparr>"
  have get: "py_get (levels_for ?s b) t = level_of ?s t (add_mset o' M)" for t by (rule depth_isD(2)[OF assms])
  have ok: "dict_ok (levels_for ?s b)" by (rule depth_isD(1)[OF assms])
  obtain q n where qn: "level_of ?s ?t (add_mset o' M) = Some (q, n)"
    by (cases "level_of ?s ?t M") (auto simp: level_of_add at_level_def split: prod.splits)
  have "depth_is (add_mset ?o2 M) (set_levels ?s (py_set (levels_for ?s b) ?t (q - delta, n)) b)"
    by (rule depth_is_set[OF assms])
      (use qn in \<open>auto simp: ok get dict_simps level_of_requantify[of ?o2 o'] at_level_def\<close>)
  from that[OF _ this] show ?thesis by (simp add: level_reduce_qty_def get qn)
qed

section \<open>Orders and levels together\<close>

definition order_fine :: "string \<Rightarrow> order_detail \<Rightarrow> bool" where
  "order_fine k o' \<longleftrightarrow> od_id o' = k \<and> od_qty o' > 0 \<and> od_side o' \<in> {BUY, SELL}"

definition values_mset :: "('k, 'v) py_dict \<Rightarrow> 'v multiset" where
  "values_mset d = mset (py_values d)"

definition live_mset :: "book \<Rightarrow> order_detail multiset" where
  "live_mset b = values_mset (live_orders b)"

definition book_ok :: "book \<Rightarrow> bool" where
  "book_ok b \<longleftrightarrow> dict_ok (live_orders b) \<and> (\<forall>k o'. py_get (live_orders b) k = Some o' \<longrightarrow> order_fine k o') \<and>
     depth_is (live_mset b) b"

lemma book_okD:
  assumes "book_ok b"
  shows "dict_ok (live_orders b)" "py_get (live_orders b) k = Some o' \<Longrightarrow> order_fine k o'" "depth_is (live_mset b) b"
  using assms by (simp_all add: book_ok_def)

lemma py_del_absent: "py_get d k = None \<Longrightarrow> py_del d k = d"
  by (auto simp: py_del_def filter_id_conv dest: py_get_NoneD)

lemma mset_py_del:
  "dict_ok d \<Longrightarrow> py_get d k = Some v \<Longrightarrow> values_mset d = add_mset v (values_mset (py_del d k))"
proof (induction d)
  case Nil
  then show ?case by simp
next
  case (Cons p d)
  obtain k' v' where p: "p = (k', v')" by fastforce
  show ?case
  proof (cases "k' = k")
    case True
    with Cons.prems p have "v' = v" "py_get d k = None" by (auto simp: py_get_def dict_ok_def map_of_eq_None_iff)
    then have "py_del (p # d) k = d" using True p py_del_absent[of d k] by (simp add: py_del_def)
    then show ?thesis using p \<open>v' = v\<close> by (simp add: values_mset_def)
  next
    case False
    with Cons p show ?thesis by (auto simp: py_get_def py_del_def dict_ok_def values_mset_def)
  qed
qed

lemma mset_py_set: "dict_ok d \<Longrightarrow> values_mset (py_set d k v) = add_mset v (values_mset (py_del d k))"
proof (induction d)
  case Nil
  then show ?case by (simp add: py_set_def py_del_def values_mset_def)
next
  case (Cons p d)
  obtain k' v' where p: "p = (k', v')" by fastforce
  show ?case
  proof (cases "k' = k")
    case True
    with Cons.prems p have "py_get d k = None" by (auto simp: dict_ok_def py_get_None_iff)
    from py_del_absent[OF this] show ?thesis using True p by (simp add: py_set_def py_del_def values_mset_def)
  next
    case False
    with Cons p show ?thesis by (auto simp: py_set_def py_del_def dict_ok_def values_mset_def)
  qed
qed

lemma depth_is_orders: "depth_is M (b\<lparr>live_orders := d\<rparr>) = depth_is M b"
  by (simp add: depth_is_def levels_for_def)

lemma insert_order_frame [simp]:
  "live_orders (insert_order o' b) = py_set (live_orders b) (od_id o') o'" "book_rest (insert_order o' b) = book_rest b"
  by (simp_all add: insert_order_def level_insert_def book_rest_def set_levels_def split: option.splits)

lemma insert_order_ok:
  assumes "book_ok b" "order_fine k o'" "py_get (live_orders b) k = None"
  shows "book_ok (insert_order o' b)"
proof -
  note b = book_okD[OF assms(1)]
  have m: "live_mset (insert_order o' b) = add_mset o' (live_mset b)"
    using assms(2,3) b(1) by (simp add: live_mset_def mset_py_set py_del_absent order_fine_def)
  have "depth_is (add_mset o' (live_mset b)) (insert_order o' b)"
    using assms(2) b(3) level_insert_depth[of "live_mset b" _ o'] by (simp add: insert_order_def depth_is_orders order_fine_def)
  with m b(1,2) assms(2) show ?thesis by (auto simp: book_ok_def dict_simps order_fine_def split: if_splits)
qed

lemma remove_order_ok:
  assumes "book_ok b" "py_get (live_orders b) k = Some o'"
  obtains b' where "remove_order o' b = (Inr (), b')" "book_ok b'" "live_orders b' = py_del (live_orders b) k" "book_rest b' = book_rest b"
proof -
  note b = book_okD[OF assms(1)]
  have fine: "order_fine k o'" by (rule b(2)[OF assms(2)])
  let ?b1 = "b\<lparr>live_orders := py_del (live_orders b) k\<rparr>"
  have m: "live_mset b = add_mset o' (values_mset (py_del (live_orders b) k))"
    unfolding live_mset_def by (rule mset_py_del[OF b(1) assms(2)])
  have "depth_is (add_mset o' (values_mset (py_del (live_orders b) k))) ?b1"
    using b(3) m by (simp add: depth_is_orders)
  then obtain b' where b': "level_remove_order (od_side o') (od_ticks o') (od_qty o') ?b1 = (Inr (), b')"
    "depth_is (values_mset (py_del (live_orders b) k)) b'" "live_orders b' = live_orders ?b1" "book_rest b' = book_rest ?b1"
    by (rule level_remove_depth) (use fine in \<open>simp add: order_fine_def\<close>)
  show ?thesis
  proof (rule that)
    show "remove_order o' b = (Inr (), b')" using b'(1) fine assms(2) by (simp add: remove_order_def order_fine_def)
    show "book_ok b'" using b'(2,3) b(1,2) by (auto simp: book_ok_def live_mset_def dict_simps split: if_splits)
  qed (use b' in \<open>simp_all add: book_rest_def\<close>)
qed

lemma reduce_order_ok:
  assumes "book_ok b" "py_get (live_orders b) k = Some o'" "0 < delta" "delta < od_qty o'"
  obtains b' where "level_reduce_qty (od_side o') (od_ticks o') delta
      (b\<lparr>live_orders := py_set (live_orders b) k (o'\<lparr>od_qty := od_qty o' - delta\<rparr>)\<rparr>) = (Inr (), b')"
    "book_ok b'" "live_orders b' = py_set (live_orders b) k (o'\<lparr>od_qty := od_qty o' - delta\<rparr>)" "book_rest b' = book_rest b"
proof -
  note b = book_okD[OF assms(1)]
  have fine: "order_fine k o'" by (rule b(2)[OF assms(2)])
  let ?o2 = "o'\<lparr>od_qty := od_qty o' - delta\<rparr>" let ?b1 = "b\<lparr>live_orders := py_set (live_orders b) k ?o2\<rparr>"
  let ?M = "values_mset (py_del (live_orders b) k)"
  have "depth_is (add_mset o' ?M) ?b1"
    using b(3) mset_py_del[OF b(1) assms(2)] by (simp add: depth_is_orders live_mset_def)
  then obtain b' where b': "level_reduce_qty (od_side o') (od_ticks o') delta ?b1 = (Inr (), b')"
    "depth_is (add_mset ?o2 ?M) b'" "live_orders b' = live_orders ?b1" "book_rest b' = book_rest ?b1"
    by (rule level_reduce_depth) (use fine in \<open>simp add: order_fine_def\<close>)
  show ?thesis
  proof (rule that)
    show "book_ok b'"
      using b' b(1,2) fine assms(4)
      by (auto simp: book_ok_def live_mset_def mset_py_set dict_simps order_fine_def split: if_splits)
  qed (use b' in \<open>simp_all add: book_rest_def\<close>)
qed

end
