(* ===== verification/Book_Effects.thy ===== *)
theory Book_Effects
  imports Book_Levels
begin

text \<open>
  The abstract book is a map from identifiers to resting orders, and a message an update of
  it. Every message the engine accepts refines that update, with the depth still the one of
  the orders; a message it raises for leaves the orders as they were.
\<close>

section \<open>The abstract book\<close>

definition resting :: "book_config \<Rightarrow> l3_message \<Rightarrow> string \<Rightarrow> book_side \<Rightarrow> order_detail" where
  "resting C m i s = \<lparr>od_id = i, od_side = s, od_ticks = projr (to_ticks C (lm_price m)), od_qty = lm_qty m,
     od_scale = bc_scale C\<rparr>"

definition l3_spec :: "book_config \<Rightarrow> l3_message \<Rightarrow> (string \<rightharpoonup> order_detail) \<Rightarrow> (string \<rightharpoonup> order_detail)" where
  "l3_spec C m M =
     (let i = lm_order m in
      case lm_type m of
        MSG_ADD \<Rightarrow> M(i \<mapsto> resting C m i (lm_side m))
      | MSG_DELETE \<Rightarrow> M(i := None)
      | MSG_REPLACE \<Rightarrow> (case M i of
            None \<Rightarrow> M
          | Some o' \<Rightarrow> (M(i := None))(replacement_id m \<mapsto> resting C m (replacement_id m) (od_side o')))
      | _ \<Rightarrow> (case M i of
            None \<Rightarrow> M
          | Some o' \<Rightarrow> if lm_qty m < od_qty o' then M(i \<mapsto> o'\<lparr>od_qty := od_qty o' - lm_qty m\<rparr>) else M(i := None)))"

abbreviation orders_of :: "book \<Rightarrow> string \<rightharpoonup> order_detail" where
  "orders_of b \<equiv> py_get (live_orders b)"

lemma orders_set: "py_get (py_set d k v) = (py_get d)(k \<mapsto> v)"
  by (auto simp: dict_simps)

lemma orders_del: "py_get (py_del d k) = (py_get d)(k := None)"
  by (auto simp: dict_simps)

text \<open>The result of a message: the orders moved as specified, or it raised and they did not move.\<close>

definition l3_effect :: "(string \<rightharpoonup> order_detail) \<Rightarrow> book \<Rightarrow> book_result \<Rightarrow> bool" where
  "l3_effect M' b r \<longleftrightarrow> book_ok (snd r) \<and> fst r \<noteq> Inl Key_error \<and>
     orders_of (snd r) = (if isl (fst r) then orders_of b else M')"

lemma l3_effectI:
  "book_ok b' \<Longrightarrow> orders_of b' = M' \<Longrightarrow> l3_effect M' b (Inr (), b')"
  "book_ok b' \<Longrightarrow> orders_of b' = orders_of b \<Longrightarrow> x \<noteq> Key_error \<Longrightarrow> l3_effect M' b (Inl x, b')"
  by (simp_all add: l3_effect_def)

lemma book_then_simps: "book_then (Inl x, b) f = (Inl x, b)" "book_then (Inr u, b) f = f b"
  by (simp_all add: book_then_def)

section \<open>Recording a violation\<close>

definition same_book :: "book \<Rightarrow> book \<Rightarrow> bool" where
  "same_book b b' \<longleftrightarrow> live_orders b' = live_orders b \<and> bid_levels b' = bid_levels b \<and> ask_levels b' = ask_levels b"

lemma same_book_ok: "same_book b b' \<Longrightarrow> book_ok b' = book_ok b"
  by (simp add: same_book_def book_ok_def live_mset_def depth_is_def levels_for_def)

lemma same_book_orders: "same_book b b' \<Longrightarrow> live_orders b' = live_orders b"
  by (simp add: same_book_def)

lemma same_book_upd [simp]:
  "same_book b (b\<lparr>messages_processed := n\<rparr>)" "same_book b (b\<lparr>last_timestamp := t\<rparr>)" "same_book b b"
  by (simp_all add: same_book_def)

lemma record_violation_frame:
  assumes "record_violation C kind i t b = (r, b')"
  shows "same_book b b'" "messages_processed b' = messages_processed b" "last_timestamp b' = last_timestamp b"
    "r = (if bc_strict C then Inl (Integrity_error kind) else Inr ())"
  using assms by (auto simp: record_violation_def Let_def same_book_def split: if_splits)

lemma record_violation_cases:
  obtains b' where "record_violation C kind i t b = (Inl (Integrity_error kind), b')" "bc_strict C" "same_book b b'"
  | b' where "record_violation C kind i t b = (Inr (), b')" "\<not> bc_strict C" "same_book b b'"
    "messages_processed b' = messages_processed b" "last_timestamp b' = last_timestamp b"
proof -
  obtain r b' where e: "record_violation C kind i t b = (r, b')" by fastforce
  note f = record_violation_frame[OF e]
  show thesis
  proof (cases "bc_strict C")
    case True
    with e f show thesis by (intro that(1)[of b']) simp_all
  next
    case False
    with e f show thesis by (intro that(2)[of b']) simp_all
  qed
qed

lemma violation_effect:
  assumes "book_ok b" "M' = orders_of b"
  shows "l3_effect M' b (record_violation C kind i t b)"
  by (rule record_violation_cases[of C kind i t b])
    (use assms in \<open>auto simp: same_book_ok same_book_orders intro!: l3_effectI\<close>)

text \<open>A violation is recorded and then a live order is taken off the book.\<close>

lemma violation_then_remove:
  assumes "book_ok b" "orders_of b k = Some o'"
  obtains b' where "book_then (record_violation C kind i t b) (remove_order o') = (Inl (Integrity_error kind), b')"
    "bc_strict C" "same_book b b'"
  | b' where "book_then (record_violation C kind i t b) (remove_order o') = (Inr (), b')"
    "\<not> bc_strict C" "book_ok b'" "live_orders b' = py_del (live_orders b) k"
proof (rule record_violation_cases[of C kind i t b])
  fix b'
  assume "record_violation C kind i t b = (Inl (Integrity_error kind), b')" "bc_strict C" "same_book b b'"
  then show thesis by (intro that(1)) (auto simp: book_then_simps)
next
  fix b1
  assume *: "record_violation C kind i t b = (Inr (), b1)" "\<not> bc_strict C" "same_book b b1"
  then have "book_ok b1" "orders_of b1 k = Some o'" using assms by (auto simp: same_book_ok same_book_orders)
  then obtain b' where "remove_order o' b1 = (Inr (), b')" "book_ok b'" "live_orders b' = py_del (live_orders b1) k"
    by (rule remove_order_ok)
  with * show thesis by (intro that(2)) (auto simp: book_then_simps same_book_orders)
qed

section \<open>Each message\<close>

lemma add_effect:
  assumes "book_ok b" "lm_type m = MSG_ADD"
  shows "l3_effect (l3_spec C m (orders_of b)) b (apply_add C m b)"
proof (cases "lm_side m \<in> {BUY, SELL} \<and> lm_qty m > 0 \<and> (\<exists>t. to_ticks C (lm_price m) = Inr t)")
  case False
  have "to_ticks C p \<noteq> Inl Key_error" for p
    by (auto simp: to_ticks_def Let_def split: number.splits)
  with False assms(1) show ?thesis
    by (auto simp: apply_add_def intro: l3_effectI split: sum.splits)
next
  case True
  then obtain t where t: "to_ticks C (lm_price m) = Inr t" by blast
  let ?i = "lm_order m" let ?o = "resting C m ?i (lm_side m)"
  have o: "\<lparr>od_id = ?i, od_side = lm_side m, od_ticks = t, od_qty = lm_qty m, od_scale = bc_scale C\<rparr> = ?o"
    by (simp add: resting_def t)
  have fine: "order_fine ?i ?o" using True by (simp add: order_fine_def resting_def)
  have id: "od_id ?o = ?i" by (simp add: resting_def)
  have def: "apply_add C m b = book_then (case orders_of b ?i of None \<Rightarrow> (Inr (), b)
      | Some existing \<Rightarrow> book_then (record_violation C DUPLICATE_ORDER_ID ?i (lm_time m) b) (remove_order existing))
      (\<lambda>b1. (Inr (), insert_order ?o b1))"
    using True t o by (auto simp: apply_add_def)
  have spec: "l3_spec C m (orders_of b) = (orders_of b)(?i \<mapsto> ?o)" by (simp add: l3_spec_def Let_def assms(2))
  show ?thesis
  proof (cases "orders_of b ?i")
    case None
    with insert_order_ok[OF assms(1) fine] show ?thesis
      by (simp add: def book_then_simps spec l3_effectI orders_set id)
  next
    case (Some existing)
    show ?thesis
    proof (rule violation_then_remove[OF assms(1) Some, of C DUPLICATE_ORDER_ID ?i "lm_time m"])
      fix b' assume "book_then (record_violation C DUPLICATE_ORDER_ID ?i (lm_time m) b) (remove_order existing) =
        (Inl (Integrity_error DUPLICATE_ORDER_ID), b')" "same_book b b'"
      then show ?thesis using assms(1) by (simp add: def Some book_then_simps l3_effectI same_book_ok same_book_orders)
    next
      fix b' assume *: "book_then (record_violation C DUPLICATE_ORDER_ID ?i (lm_time m) b) (remove_order existing) = (Inr (), b')"
        "book_ok b'" "live_orders b' = py_del (live_orders b) ?i"
      then have "book_ok (insert_order ?o b')" by (intro insert_order_ok[OF _ fine]) (simp_all add: dict_simps)
      moreover have "apply_add C m b = (Inr (), insert_order ?o b')" by (simp add: def Some * book_then_simps)
      ultimately show ?thesis by (simp add: spec l3_effectI orders_set orders_del id *(3))
    qed
  qed
qed

lemma decrement_effect:
  assumes "book_ok b" "lm_type m = MSG_CANCEL \<or> lm_type m = MSG_EXECUTE"
  shows "l3_effect (l3_spec C m (orders_of b)) b (apply_decrement C kind m b)"
proof -
  let ?i = "lm_order m"
  have spec: "l3_spec C m (orders_of b) = (case orders_of b ?i of None \<Rightarrow> orders_of b
      | Some o' \<Rightarrow> if lm_qty m < od_qty o' then (orders_of b)(?i \<mapsto> o'\<lparr>od_qty := od_qty o' - lm_qty m\<rparr>)
                   else (orders_of b)(?i := None))"
    using assms(2) by (auto simp: l3_spec_def Let_def)
  show ?thesis
  proof (cases "orders_of b ?i")
    case None
    with assms(1) show ?thesis
      by (auto simp: apply_decrement_def spec intro: l3_effectI violation_effect)
  next
    case (Some o')
    consider "lm_qty m \<le> 0" | "0 < lm_qty m" "lm_qty m < od_qty o'" | "0 < lm_qty m" "lm_qty m = od_qty o'"
      | "0 < lm_qty m" "od_qty o' < lm_qty m" by linarith
    then show ?thesis
    proof cases
      case 1
      then show ?thesis using assms(1) by (simp add: apply_decrement_def l3_effectI)
    next
      case 2
      obtain b' where "level_reduce_qty (od_side o') (od_ticks o') (lm_qty m)
          (b\<lparr>live_orders := py_set (live_orders b) ?i (o'\<lparr>od_qty := od_qty o' - lm_qty m\<rparr>)\<rparr>) = (Inr (), b')"
        "book_ok b'" "live_orders b' = py_set (live_orders b) ?i (o'\<lparr>od_qty := od_qty o' - lm_qty m\<rparr>)"
        by (rule reduce_order_ok[OF assms(1) Some 2])
      with 2 Some show ?thesis by (simp add: apply_decrement_def spec l3_effectI orders_set)
    next
      case 3
      obtain b' where "remove_order o' b = (Inr (), b')" "book_ok b'" "live_orders b' = py_del (live_orders b) ?i"
        by (rule remove_order_ok[OF assms(1) Some])
      with 3 Some show ?thesis by (simp add: apply_decrement_def spec l3_effectI orders_del)
    next
      case 4
      show ?thesis
        by (rule violation_then_remove[OF assms(1) Some, of C kind ?i "lm_time m"])
          (use 4 Some assms(1) in \<open>simp_all add: apply_decrement_def spec l3_effectI orders_del same_book_ok same_book_orders\<close>)
    qed
  qed
qed

lemma delete_effect:
  assumes "book_ok b" "lm_type m = MSG_DELETE"
  shows "l3_effect (l3_spec C m (orders_of b)) b (apply_delete C m b)"
proof (cases "orders_of b (lm_order m)")
  case None
  then have "(orders_of b)(lm_order m := None) = orders_of b" by auto
  with None assms show ?thesis by (simp add: apply_delete_def l3_spec_def Let_def violation_effect)
next
  case (Some o')
  obtain b' where "remove_order o' b = (Inr (), b')" "book_ok b'" "live_orders b' = py_del (live_orders b) (lm_order m)"
    by (rule remove_order_ok[OF assms(1) Some])
  with Some assms show ?thesis by (simp add: apply_delete_def l3_spec_def Let_def l3_effectI orders_del)
qed

lemma replace_tail:
  assumes "book_ok b1" "orders_of b1 i = Some original" "n = i \<or> orders_of b1 n = None" "order_fine n o'"
  obtains b' where "book_then (remove_order original b1) (\<lambda>b2. (Inr (), insert_order o' b2)) = (Inr (), b')" "book_ok b'"
    "orders_of b' = (orders_of b1)(i := None, n \<mapsto> o')"
proof -
  obtain b2 where b2: "remove_order original b1 = (Inr (), b2)" "book_ok b2" "live_orders b2 = py_del (live_orders b1) i"
    by (rule remove_order_ok[OF assms(1,2)])
  have "book_ok (insert_order o' b2)"
    by (rule insert_order_ok[OF b2(2) assms(4)]) (use assms(3) in \<open>auto simp: b2(3) dict_simps\<close>)
  with b2 assms(4) show ?thesis
    by (intro that[of "insert_order o' b2"]) (simp_all add: book_then_simps orders_set orders_del order_fine_def)
qed

lemma replace_effect:
  assumes "book_ok b" "lm_type m = MSG_REPLACE"
  shows "l3_effect (l3_spec C m (orders_of b)) b (apply_replace C m b)"
proof (cases "lm_qty m > 0 \<and> (\<exists>t. to_ticks C (lm_price m) = Inr t)")
  case False
  have "to_ticks C p \<noteq> Inl Key_error" for p
    by (auto simp: to_ticks_def Let_def split: number.splits)
  with False assms(1) show ?thesis
    by (auto simp: apply_replace_def intro: l3_effectI split: sum.splits)
next
  case True
  then obtain t where t: "to_ticks C (lm_price m) = Inr t" by blast
  let ?i = "lm_order m" let ?n = "replacement_id m"
  show ?thesis
  proof (cases "orders_of b ?i")
    case None
    with True t assms show ?thesis by (simp add: apply_replace_def l3_spec_def Let_def violation_effect)
  next
    case (Some original)
    let ?o = "resting C m ?n (od_side original)"
    let ?tail = "\<lambda>b1. book_then (remove_order original b1) (\<lambda>b2. (Inr (), insert_order ?o b2))"
    have o: "\<lparr>od_id = ?n, od_side = od_side original, od_ticks = t, od_qty = lm_qty m, od_scale = bc_scale C\<rparr> = ?o"
      by (simp add: resting_def t)
    have fine: "order_fine ?n ?o"
      using True book_okD(2)[OF assms(1) Some] by (simp add: order_fine_def resting_def)
    have spec: "l3_spec C m (orders_of b) = (orders_of b)(?i := None, ?n \<mapsto> ?o)"
      by (simp add: l3_spec_def Let_def assms(2) Some)
    have def: "apply_replace C m b = book_then (if ?n = ?i then (Inr (), b)
        else (case orders_of b ?n of None \<Rightarrow> (Inr (), b)
          | Some other \<Rightarrow> book_then (record_violation C DUPLICATE_ORDER_ID ?n (lm_time m) b) (remove_order other))) ?tail"
      using True by (simp add: apply_replace_def t Some o Let_def)
    show ?thesis
    proof (cases "?n = ?i \<or> orders_of b ?n = None")
      case True
      obtain b' where "?tail b = (Inr (), b')" "book_ok b'" "orders_of b' = (orders_of b)(?i := None, ?n \<mapsto> ?o)"
        by (rule replace_tail[OF assms(1) Some _ fine]) (use True in auto)
      moreover have "apply_replace C m b = ?tail b" using True by (auto simp: def book_then_simps)
      ultimately show ?thesis by (simp add: spec l3_effectI)
    next
      case False
      then obtain other where other: "orders_of b ?n = Some other" and ne: "?n \<noteq> ?i" by auto
      show ?thesis
      proof (rule violation_then_remove[OF assms(1) other, of C DUPLICATE_ORDER_ID ?n "lm_time m"])
        fix b1 assume "book_then (record_violation C DUPLICATE_ORDER_ID ?n (lm_time m) b) (remove_order other) =
          (Inl (Integrity_error DUPLICATE_ORDER_ID), b1)" "same_book b b1"
        then show ?thesis using assms(1) ne other
          by (simp add: def book_then_simps l3_effectI same_book_ok same_book_orders)
      next
        fix b1 assume *: "book_then (record_violation C DUPLICATE_ORDER_ID ?n (lm_time m) b) (remove_order other) = (Inr (), b1)"
          "book_ok b1" "live_orders b1 = py_del (live_orders b) ?n"
        have "orders_of b1 ?i = Some original" "?n = ?i \<or> orders_of b1 ?n = None" using ne Some by (simp_all add: *(3) dict_simps)
        then obtain b' where "?tail b1 = (Inr (), b')" "book_ok b'" "orders_of b' = (orders_of b1)(?i := None, ?n \<mapsto> ?o)"
          by (rule replace_tail[OF *(2) _ _ fine])
        moreover have "apply_replace C m b = ?tail b1" using ne by (simp add: def other * book_then_simps)
        moreover have "(orders_of b1)(?i := None, ?n \<mapsto> ?o) = (orders_of b)(?i := None, ?n \<mapsto> ?o)"
          by (auto simp: *(3) orders_del)
        ultimately show ?thesis by (simp add: spec l3_effectI)
      qed
    qed
  qed
qed

section \<open>The message loop\<close>

lemma timestamp_cases:
  obtains b' where "check_timestamp_order C m b = (Inl (Integrity_error TIMESTAMP_REGRESSION), b')" "same_book b b'" "bc_strict C"
  | b' where "check_timestamp_order C m b = (Inr (), b')" "same_book b b'" "messages_processed b' = messages_processed b"
    "last_timestamp b' = Some (case last_timestamp b of None \<Rightarrow> lm_time m | Some t \<Rightarrow> max t (lm_time m))"
proof (cases "case last_timestamp b of None \<Rightarrow> False | Some t \<Rightarrow> lm_time m < t")
  case False
  let ?b' = "b\<lparr>last_timestamp := Some (case last_timestamp b of None \<Rightarrow> lm_time m | Some t \<Rightarrow> max t (lm_time m))\<rparr>"
  have "check_timestamp_order C m b = (Inr (), ?b')"
    using False by (cases "last_timestamp b") (auto simp: check_timestamp_order_def book_then_simps max_def)
  then show thesis by (rule that(2)) simp_all
next
  case True
  show thesis
  proof (rule record_violation_cases[of C TIMESTAMP_REGRESSION "lm_order m" "lm_time m" b])
    fix b' assume "record_violation C TIMESTAMP_REGRESSION (lm_order m) (lm_time m) b =
      (Inl (Integrity_error TIMESTAMP_REGRESSION), b')" "bc_strict C" "same_book b b'"
    with True show thesis by (intro that(1)) (auto simp: check_timestamp_order_def book_then_simps)
  next
    fix b' assume *: "record_violation C TIMESTAMP_REGRESSION (lm_order m) (lm_time m) b = (Inr (), b')"
      "same_book b b'" "messages_processed b' = messages_processed b" "last_timestamp b' = last_timestamp b"
    from True have "check_timestamp_order C m b = (Inr (), b')"
      by (cases "last_timestamp b") (auto simp: check_timestamp_order_def book_then_simps *)
    from that(2)[OF this *(2,3)] True *(4) show thesis by (auto simp: max_def split: option.splits)
  qed
qed

lemma process_effect:
  assumes "book_ok b"
  shows "l3_effect (l3_spec C m (orders_of b)) b (process_l3_message C m b)"
proof (cases "validate_common m")
  case (Some x)
  then have "x \<noteq> Key_error" by (auto simp: validate_common_def split: if_splits)
  with Some assms show ?thesis by (simp add: process_l3_message_def l3_effectI)
next
  case None
  show ?thesis
  proof (rule timestamp_cases[of C m b])
    fix b' assume "check_timestamp_order C m b = (Inl (Integrity_error TIMESTAMP_REGRESSION), b')" "same_book b b'"
    then show ?thesis using assms None
      by (simp add: process_l3_message_def book_then_simps l3_effectI same_book_ok same_book_orders)
  next
    fix b0 assume *: "check_timestamp_order C m b = (Inr (), b0)" "same_book b b0"
    let ?b1 = "b0\<lparr>messages_processed := messages_processed b0 + 1\<rparr>"
    have ok: "book_ok ?b1" using same_book_ok[OF same_book_upd(1)] assms by (simp add: same_book_ok[OF *(2)])
    have live: "live_orders ?b1 = live_orders b" using *(2) by (simp add: same_book_orders)
    have known: "\<forall>s. lm_type m \<noteq> Other_msg s" using None by (auto simp: validate_common_def split: if_splits)
    have eff: "l3_effect (l3_spec C m (orders_of ?b1)) ?b1 r = l3_effect (l3_spec C m (orders_of b)) b r" for r
      by (simp only: l3_effect_def live)
    show ?thesis
      using add_effect[OF ok] decrement_effect[OF ok] delete_effect[OF ok] replace_effect[OF ok] known
      by (cases "lm_type m") (auto simp: process_l3_message_def None * book_then_simps eff[symmetric])
  qed
qed

section \<open>The abstract machine\<close>

text \<open>
  Which messages the replay raises for, said over the abstract book: the map of the resting
  orders and the largest timestamp seen. With the map updates it makes the abstract machine
  that a replay refines, errors included.
\<close>

subsection \<open>What is refused\<close>

definition malformed :: "l3_message \<Rightarrow> bool" where
  "malformed m \<longleftrightarrow> lm_order m = '''' \<or> lm_time m < 0 \<or> (case lm_type m of Other_msg _ \<Rightarrow> True | _ \<Rightarrow> False)"

definition goes_back :: "int option \<Rightarrow> l3_message \<Rightarrow> bool" where
  "goes_back t m \<longleftrightarrow> (case t of None \<Rightarrow> False | Some t' \<Rightarrow> lm_time m < t')"

definition clock_after :: "int option \<Rightarrow> l3_message \<Rightarrow> int option" where
  "clock_after t m = Some (case t of None \<Rightarrow> lm_time m | Some t' \<Rightarrow> max t' (lm_time m))"

text \<open>A price that is no number of ticks, with the error it is.\<close>

definition price_error :: "book_config \<Rightarrow> l3_message \<Rightarrow> book_error option" where
  "price_error C m = (case to_ticks C (lm_price m) of Inl x \<Rightarrow> Some x | Inr _ \<Rightarrow> None)"

text \<open>An inconsistency: an error of a strict engine, and none of a permissive one.\<close>

definition inconsistent :: "book_config \<Rightarrow> violation_kind \<Rightarrow> bool \<Rightarrow> book_error option" where
  "inconsistent C kind found = (if bc_strict C \<and> found then Some (Integrity_error kind) else None)"

definition or_else :: "'a option \<Rightarrow> 'a option \<Rightarrow> 'a option" where
  "or_else x y = (case x of None \<Rightarrow> y | Some _ \<Rightarrow> x)"

lemma or_else_simps [simp]: "or_else None y = y" "or_else (Some a) y = Some a" "or_else y None = y"
  by (simp_all add: or_else_def split: option.split)

definition reduction_error :: "book_config \<Rightarrow> violation_kind \<Rightarrow> l3_message \<Rightarrow> (string \<rightharpoonup> order_detail) \<Rightarrow> book_error option" where
  "reduction_error C over m M = (if lm_qty m \<le> 0 then Some Value_error else (case M (lm_order m) of
     None \<Rightarrow> inconsistent C UNKNOWN_ORDER True
   | Some o' \<Rightarrow> inconsistent C over (od_qty o' < lm_qty m)))"

definition content_error :: "book_config \<Rightarrow> l3_message \<Rightarrow> (string \<rightharpoonup> order_detail) \<Rightarrow> book_error option" where
  "content_error C m M = (case lm_type m of
     MSG_ADD \<Rightarrow> if lm_side m \<notin> {BUY, SELL} \<or> lm_qty m \<le> 0 then Some Value_error
       else or_else (price_error C m) (inconsistent C DUPLICATE_ORDER_ID (M (lm_order m) \<noteq> None))
   | MSG_CANCEL \<Rightarrow> reduction_error C OVER_CANCEL m M
   | MSG_EXECUTE \<Rightarrow> reduction_error C OVER_EXECUTE m M
   | MSG_DELETE \<Rightarrow> inconsistent C UNKNOWN_ORDER (M (lm_order m) = None)
   | _ \<Rightarrow> if lm_qty m \<le> 0 then Some Value_error
       else or_else (price_error C m) (if M (lm_order m) = None then inconsistent C UNKNOWN_ORDER True
         else inconsistent C DUPLICATE_ORDER_ID (replacement_id m \<noteq> lm_order m \<and> M (replacement_id m) \<noteq> None)))"

definition l3_refused :: "book_config \<Rightarrow> l3_message \<Rightarrow> int option \<Rightarrow> (string \<rightharpoonup> order_detail) \<Rightarrow> book_error option" where
  "l3_refused C m t M = (if malformed m then Some Value_error
     else or_else (inconsistent C TIMESTAMP_REGRESSION (goes_back t m)) (content_error C m M))"

text \<open>The abstract replay.\<close>

fun l3_run :: "book_config \<Rightarrow> l3_message list \<Rightarrow> int option \<Rightarrow> (string \<rightharpoonup> order_detail) \<Rightarrow>
    book_error option \<times> (string \<rightharpoonup> order_detail)" where
  "l3_run C [] t M = (None, M)"
| "l3_run C (m # ms) t M = (case l3_refused C m t M of
     Some x \<Rightarrow> (Some x, M)
   | None \<Rightarrow> l3_run C ms (clock_after t m) (l3_spec C m M))"

subsection \<open>The engine refuses what the abstract book refuses\<close>

definition raised :: "book_result \<Rightarrow> book_error option" where
  "raised r = (case fst r of Inl x \<Rightarrow> Some x | Inr _ \<Rightarrow> None)"

lemma raised_simps [simp]: "raised (Inl x, b) = Some x" "raised (Inr u, b) = None"
  by (simp_all add: raised_def)

lemma raised_violation: "raised (record_violation C kind i t b) = inconsistent C kind True"
  by (simp add: record_violation_def Let_def inconsistent_def)

lemma raised_replaced:
  assumes "book_ok b" "orders_of b k = Some o'"
  shows "raised (book_then (record_violation C kind i t b) (remove_order o')) = inconsistent C kind True"
  by (rule violation_then_remove[OF assms, of C kind i t]) (simp_all add: inconsistent_def)

lemma raised_removed: "book_ok b \<Longrightarrow> orders_of b k = Some o' \<Longrightarrow> raised (remove_order o' b) = None"
  by (rule remove_order_ok) auto

lemma not_found [simp]: "inconsistent C kind False = None"
  by (simp add: inconsistent_def)

text \<open>A step that cannot raise does not decide whether the whole does.\<close>

lemma raised_then: "(\<And>b1. snd r = b1 \<Longrightarrow> raised r = None \<Longrightarrow> raised (f b1) = None) \<Longrightarrow> raised (book_then r f) = raised r"
  by (cases r) (auto simp: book_then_def raised_def split: sum.splits)

lemma raised_add:
  assumes "book_ok b" "lm_type m = MSG_ADD"
  shows "raised (apply_add C m b) = content_error C m (orders_of b)"
proof (cases "lm_side m \<in> {BUY, SELL} \<and> lm_qty m > 0 \<and> (\<exists>t. to_ticks C (lm_price m) = Inr t)")
  case False
  then show ?thesis
    by (auto simp: apply_add_def content_error_def assms(2) price_error_def split: sum.splits)
next
  case True
  then obtain t where t: "to_ticks C (lm_price m) = Inr t" by blast
  show ?thesis
  proof (cases "orders_of b (lm_order m)")
    case None
    with True t show ?thesis
      by (auto simp: apply_add_def content_error_def assms(2) price_error_def book_then_simps)
  next
    case (Some o')
    have "raised (book_then (book_then (record_violation C DUPLICATE_ORDER_ID (lm_order m) (lm_time m) b) (remove_order o'))
        (\<lambda>b1. (Inr (), g b1))) = inconsistent C DUPLICATE_ORDER_ID True" for g
      by (subst raised_then) (simp_all add: raised_replaced[OF assms(1) Some])
    with True t Some show ?thesis
      by (auto simp: apply_add_def content_error_def assms(2) price_error_def)
  qed
qed

lemma raised_reduction:
  assumes "book_ok b"
  shows "raised (apply_decrement C over m b) = reduction_error C over m (orders_of b)"
proof (cases "orders_of b (lm_order m)")
  case None
  then show ?thesis by (simp add: apply_decrement_def reduction_error_def raised_violation)
next
  case (Some o')
  consider "lm_qty m \<le> 0" | "0 < lm_qty m" "lm_qty m < od_qty o'" | "0 < lm_qty m" "lm_qty m = od_qty o'"
    | "0 < lm_qty m" "od_qty o' < lm_qty m" by linarith
  then show ?thesis
  proof cases
    case 2
    obtain b' where "level_reduce_qty (od_side o') (od_ticks o') (lm_qty m)
        (b\<lparr>live_orders := py_set (live_orders b) (lm_order m) (o'\<lparr>od_qty := od_qty o' - lm_qty m\<rparr>)\<rparr>) = (Inr (), b')"
      by (rule reduce_order_ok[OF assms Some 2])
    with 2 Some show ?thesis by (simp add: apply_decrement_def reduction_error_def)
  qed (simp_all add: apply_decrement_def reduction_error_def Some raised_removed[OF assms Some] raised_replaced[OF assms Some])
qed

lemma raised_delete:
  assumes "book_ok b" "lm_type m = MSG_DELETE"
  shows "raised (apply_delete C m b) = content_error C m (orders_of b)"
  using raised_removed[OF assms(1)]
  by (auto simp: apply_delete_def content_error_def assms(2) raised_violation split: option.split)

lemma raised_replace:
  assumes "book_ok b" "lm_type m = MSG_REPLACE"
  shows "raised (apply_replace C m b) = content_error C m (orders_of b)"
proof (cases "lm_qty m > 0 \<and> (\<exists>t. to_ticks C (lm_price m) = Inr t)")
  case False
  then show ?thesis
    by (auto simp: apply_replace_def content_error_def assms(2) price_error_def split: sum.splits)
next
  case True
  then obtain t where t: "to_ticks C (lm_price m) = Inr t" by blast
  let ?i = "lm_order m" let ?n = "replacement_id m"
  show ?thesis
  proof (cases "orders_of b ?i")
    case None
    with True t show ?thesis
      by (simp add: apply_replace_def content_error_def assms(2) price_error_def raised_violation)
  next
    case (Some original)
    have last: "raised (book_then (remove_order original b1) (\<lambda>b2. (Inr (), g b2))) = None"
      if "book_ok b1" "orders_of b1 ?i = Some original" for b1 g
      by (subst raised_then) (simp_all add: raised_removed[OF that])
    note def = apply_replace_def[of C m b] and spec = content_error_def[of C m "orders_of b"]
    show ?thesis
    proof (cases "?n = ?i \<or> orders_of b ?n = None")
      case True
      have "raised (apply_replace C m b) = None"
        using True \<open>0 < lm_qty m \<and> _\<close> t Some last[OF assms(1) Some]
        by (auto simp: def book_then_simps Let_def)
      moreover have "content_error C m (orders_of b) = None"
        using True \<open>0 < lm_qty m \<and> _\<close> t Some by (auto simp: spec assms(2) price_error_def)
      ultimately show ?thesis by simp
    next
      case False
      then obtain other where other: "orders_of b ?n = Some other" and ne: "?n \<noteq> ?i" by auto
      have "raised (apply_replace C m b) = inconsistent C DUPLICATE_ORDER_ID True"
      proof (rule violation_then_remove[OF assms(1) other, of C DUPLICATE_ORDER_ID ?n "lm_time m"])
        fix b1 assume *: "book_then (record_violation C DUPLICATE_ORDER_ID ?n (lm_time m) b) (remove_order other) =
          (Inl (Integrity_error DUPLICATE_ORDER_ID), b1)" "bc_strict C"
        then show ?thesis using \<open>0 < lm_qty m \<and> _\<close> t Some ne other
          by (simp add: def book_then_simps inconsistent_def)
      next
        fix b1 assume *: "book_then (record_violation C DUPLICATE_ORDER_ID ?n (lm_time m) b) (remove_order other) = (Inr (), b1)"
          "\<not> bc_strict C" "book_ok b1" "live_orders b1 = py_del (live_orders b) ?n"
        have "orders_of b1 ?i = Some original" using ne Some by (simp add: *(4) dict_simps)
        from last[OF *(3) this] show ?thesis using \<open>0 < lm_qty m \<and> _\<close> t Some ne other *(1,2)
          by (simp add: def book_then_simps inconsistent_def Let_def)
      qed
      then show ?thesis using \<open>0 < lm_qty m \<and> _\<close> t Some ne other
        by (simp add: spec assms(2) price_error_def)
    qed
  qed
qed

lemma same_orders_error: "live_orders b' = live_orders b \<Longrightarrow> content_error C m (orders_of b') = content_error C m (orders_of b)"
  by simp

lemma validate_malformed: "validate_common m = (if malformed m then Some Value_error else None)"
  by (auto simp: validate_common_def malformed_def)

text \<open>One message: the engine raises exactly what the abstract book refuses, and moves its clock.\<close>

lemma process_raised:
  assumes "book_ok b"
  shows "raised (process_l3_message C m b) = l3_refused C m (last_timestamp b) (orders_of b)"
proof (cases "malformed m")
  case True
  then show ?thesis by (simp add: process_l3_message_def validate_malformed l3_refused_def)
next
  case False
  obtain r b0 where c: "check_timestamp_order C m b = (r, b0)" by fastforce
  have r: "(case r of Inl x \<Rightarrow> Some x | Inr _ \<Rightarrow> None) = inconsistent C TIMESTAMP_REGRESSION (goes_back (last_timestamp b) m)"
    using c record_violation_frame(4)[of C TIMESTAMP_REGRESSION "lm_order m" "lm_time m" b]
    by (auto simp: check_timestamp_order_def goes_back_def inconsistent_def book_then_def split: option.splits sum.splits prod.splits if_splits)
  show ?thesis
  proof (cases r)
    case (Inl x)
    with False c r show ?thesis
      by (simp add: process_l3_message_def validate_malformed l3_refused_def book_then_simps flip: r)
  next
    case (Inr u)
    have same: "same_book b b0" using c Inr by (rule_tac timestamp_cases[of C m b]) auto
    let ?b1 = "b0\<lparr>messages_processed := messages_processed b0 + 1\<rparr>"
    have ok: "book_ok ?b1" using same_book_ok[OF same_book_upd(1)] assms by (simp add: same_book_ok[OF same])
    have live: "orders_of ?b1 = orders_of b" using same by (simp add: same_book_orders)
    note kinds = raised_add[OF ok, of m C] raised_reduction[OF ok, of C _ m] raised_delete[OF ok, of m C] raised_replace[OF ok, of m C]
    have "raised (process_l3_message C m b) = content_error C m (orders_of b)"
      using kinds[unfolded live] False
      by (cases "lm_type m") (auto simp: process_l3_message_def validate_malformed c Inr book_then_simps malformed_def content_error_def)
    with False r Inr show ?thesis by (simp add: l3_refused_def)
  qed
qed

subsection \<open>The clock\<close>

definition keeps_clock :: "book \<Rightarrow> book_result \<Rightarrow> bool" where
  "keeps_clock b r \<longleftrightarrow> last_timestamp (snd r) = last_timestamp b"

lemma keeps_then: "keeps_clock b r \<Longrightarrow> (\<And>b1. last_timestamp b1 = last_timestamp b \<Longrightarrow> keeps_clock b (f b1)) \<Longrightarrow> keeps_clock b (book_then r f)"
  by (cases r) (auto simp: keeps_clock_def book_then_def split: sum.splits)

lemma keeps_violation: "last_timestamp b1 = last_timestamp b \<Longrightarrow> keeps_clock b (record_violation C kind i t b1)"
  by (simp add: keeps_clock_def record_violation_def Let_def)

lemma set_levels_clock [simp]: "last_timestamp (set_levels s d b) = last_timestamp b"
  by (simp add: set_levels_def)

lemma insert_order_clock [simp]: "last_timestamp (insert_order o' b) = last_timestamp b"
  by (simp add: insert_order_def level_insert_def split: option.split)

lemma keeps_remove: "last_timestamp b1 = last_timestamp b \<Longrightarrow> keeps_clock b (remove_order o' b1)"
  by (simp add: keeps_clock_def remove_order_def level_remove_order_def split: option.split)

lemma keeps_reduce: "last_timestamp b1 = last_timestamp b \<Longrightarrow> keeps_clock b (level_reduce_qty s t d b1)"
  by (simp add: keeps_clock_def level_reduce_qty_def split: option.split)

lemma keeps_book: "last_timestamp b1 = last_timestamp b \<Longrightarrow> keeps_clock b (r, b1)"
  by (simp add: keeps_clock_def)

lemmas keeps_intros = keeps_then keeps_violation keeps_remove keeps_reduce keeps_book

lemma keeps_add: "last_timestamp b1 = last_timestamp b \<Longrightarrow> keeps_clock b (apply_add C m b1)"
  unfolding apply_add_def by (auto intro!: keeps_intros split: sum.split option.split)

lemma keeps_decrement: "last_timestamp b1 = last_timestamp b \<Longrightarrow> keeps_clock b (apply_decrement C kind m b1)"
  unfolding apply_decrement_def by (auto intro!: keeps_intros split: option.split)

lemma keeps_delete: "last_timestamp b1 = last_timestamp b \<Longrightarrow> keeps_clock b (apply_delete C m b1)"
  unfolding apply_delete_def by (auto intro!: keeps_intros split: option.split)

lemma keeps_replace: "last_timestamp b1 = last_timestamp b \<Longrightarrow> keeps_clock b (apply_replace C m b1)"
  unfolding apply_replace_def Let_def by (auto intro!: keeps_intros split: sum.split option.split)

lemma process_clock:
  assumes "raised (process_l3_message C m b) = None"
  shows "last_timestamp (snd (process_l3_message C m b)) = clock_after (last_timestamp b) m"
proof (cases "validate_common m")
  case (Some x)
  with assms show ?thesis by (simp add: process_l3_message_def)
next
  case None
  show ?thesis
  proof (rule timestamp_cases[of C m b])
    fix b' assume "check_timestamp_order C m b = (Inl (Integrity_error TIMESTAMP_REGRESSION), b')"
    with None assms show ?thesis by (simp add: process_l3_message_def book_then_simps)
  next
    fix b0 assume *: "check_timestamp_order C m b = (Inr (), b0)"
      "last_timestamp b0 = Some (case last_timestamp b of None \<Rightarrow> lm_time m | Some t \<Rightarrow> max t (lm_time m))"
    let ?b1 = "b0\<lparr>messages_processed := messages_processed b0 + 1\<rparr>"
    have "keeps_clock b0 (process_l3_message C m b)"
      by (cases "lm_type m") (simp_all add: process_l3_message_def None * book_then_simps keeps_add keeps_decrement keeps_delete keeps_replace)
    then show ?thesis by (simp add: keeps_clock_def * clock_after_def)
  qed
qed

subsection \<open>A replay refines the abstract machine\<close>

text \<open>The abstraction of a book: its orders as a map. One message, then a log.\<close>

lemma replay_run:
  assumes "book_ok b"
  shows "(raised (replay C ms b), orders_of (snd (replay C ms b))) = l3_run C ms (last_timestamp b) (orders_of b)"
  using assms
proof (induction ms arbitrary: b)
  case (Cons m ms)
  obtain r b1 where p: "process_l3_message C m b = (r, b1)" by fastforce
  have eff: "book_ok b1" "orders_of b1 = (if isl r then orders_of b else l3_spec C m (orders_of b))"
    using process_effect[OF Cons.prems, of C m] by (simp_all add: l3_effect_def p)
  note refused = process_raised[OF Cons.prems, of C m, unfolded p]
  show ?case
  proof (cases r)
    case (Inl x)
    with refused eff show ?thesis by (simp add: p book_then_simps flip: refused)
  next
    case (Inr u)
    with process_clock[of C m b] have "last_timestamp b1 = clock_after (last_timestamp b) m" by (simp add: p)
    with Inr refused eff Cons.IH[OF eff(1)] show ?thesis by (simp add: p book_then_simps flip: refused)
  qed
qed simp

end
