(* ===== verification/Book_Snapshot.thy ===== *)
theory Book_Snapshot
  imports Book_Effects
begin

text \<open>
  The depth and the snapshots rebuilt from the live orders alone, and the proof that the
  incremental ones agree with them: the reference the optimised replay is measured against.
\<close>

section \<open>The depth is the orders'\<close>

lemma book_ok_empty: "book_ok empty_book"
  by (auto simp: book_ok_def empty_book_def depth_is_def levels_for_def live_mset_def values_mset_def level_of_def
      level_sum_def py_get_def dict_ok_def)

lemma book_step_ok: "book_ok b \<Longrightarrow> book_ok (book_step C m b)"
  using process_effect[of b C m] by (simp add: l3_effect_def book_step_def)

interpretation replayed: invariant_machine "book_step C" book_ok for C
  by unfold_locales (rule book_step_ok)

definition orders_at :: "book_side \<Rightarrow> int \<Rightarrow> book \<Rightarrow> order_detail list" where
  "orders_at s t b = filter (\<lambda>o'. od_side o' = s \<and> od_ticks o' = t) (py_values (live_orders b))"

definition rebuilt_level :: "book_side \<Rightarrow> int \<Rightarrow> book \<Rightarrow> (int \<times> int) option" where
  "rebuilt_level s t b = (if orders_at s t b = [] then None
     else Some (sum_list (map od_qty (orders_at s t b)), int (length (orders_at s t b))))"

lemma level_of_orders: "level_of s t (live_mset b) = rebuilt_level s t b"
proof -
  have f: "filter_mset (at_level s t) (live_mset b) = mset (orders_at s t b)"
    by (simp only: live_mset_def values_mset_def orders_at_def at_level_def[abs_def] mset_filter)
  show ?thesis
    by (auto simp: level_of_def f level_sum_def rebuilt_level_def simp flip: sum_mset_sum_list mset_map)
qed

section \<open>Snapshots\<close>

definition side_ticks :: "book_side \<Rightarrow> book \<Rightarrow> int list" where
  "side_ticks s b = map od_ticks (filter (\<lambda>o'. od_side o' = s) (py_values (live_orders b)))"

text \<open>The depth rebuilt from the orders: their prices, best first, each with its sum and count.\<close>

definition rebuilt_side :: "book_config \<Rightarrow> book_side \<Rightarrow> nat \<Rightarrow> book \<Rightarrow> price_level list" where
  "rebuilt_side C s n b = map (\<lambda>t. \<lparr>pl_price = of_int t / of_int (bc_scale C),
       pl_qty = sum_list (map od_qty (orders_at s t b)), pl_count = int (length (orders_at s t b)), pl_ticks = t\<rparr>)
     (take n (if s = BUY then rev (sort (remdups (side_ticks s b))) else sort (remdups (side_ticks s b))))"

lemma side_ticks_iff: "t \<in> set (side_ticks s b) \<longleftrightarrow> orders_at s t b \<noteq> []"
  by (auto simp: side_ticks_def orders_at_def filter_empty_conv)

lemma level_keys:
  assumes "book_ok b" "s \<in> {BUY, SELL}"
  shows "sort (py_keys (levels_for s b)) = sort (remdups (side_ticks s b))"
proof -
  note d = depth_isD[OF book_okD(3)[OF assms(1)] assms(2)]
  have "t \<in> set (py_keys (levels_for s b)) \<longleftrightarrow> t \<in> set (side_ticks s b)" for t
    using d(2)[of t] py_get_None_iff[of "levels_for s b" t] by (auto simp: level_of_orders rebuilt_level_def side_ticks_iff)
  then have "set (py_keys (levels_for s b)) = set (side_ticks s b)" by blast
  then have "mset (py_keys (levels_for s b)) = mset (remdups (side_ticks s b))"
    using d(1) by (simp add: dict_ok_def set_eq_iff_mset_eq_distinct[symmetric] del: mset_map)
  then show ?thesis by (metis mset_sort properties_for_sort sorted_sort)
qed

lemma top_levels_rebuilt:
  assumes "book_ok b" "s \<in> {BUY, SELL}"
  shows "top_levels C s n b = rebuilt_side C s n b"
proof -
  note d = depth_isD(2)[OF book_okD(3)[OF assms(1)] assms(2)]
  let ?ts = "take n (if s = BUY then rev (sort (remdups (side_ticks s b))) else sort (remdups (side_ticks s b)))"
  have ne: "orders_at s t b \<noteq> []" if "t \<in> set ?ts" for t
    using in_set_takeD[OF that] by (auto simp: side_ticks_iff[symmetric] split: if_splits)
  have ts: "best_ticks s n (levels_for s b) = ?ts" by (simp only: best_ticks_def level_keys[OF assms])
  show ?thesis
    unfolding top_levels_def rebuilt_side_def ts
    by (rule map_cong[OF refl]) (use ne in \<open>simp add: d level_of_orders rebuilt_level_def\<close>)
qed

lemma sort_Nil_iff: "sort xs = [] \<longleftrightarrow> xs = []"
  by (metis set_empty set_sort)

lemma rebuilt_side_empty: "n > 0 \<Longrightarrow> rebuilt_side C s n b = [] \<longleftrightarrow> side_ticks s b = []"
  by (auto simp: rebuilt_side_def sort_Nil_iff)

lemma hd_sort: "xs \<noteq> [] \<Longrightarrow> hd (sort xs) \<in> set xs \<and> (\<forall>y\<in>set xs. hd (sort xs) \<le> y)" for xs :: "int list"
proof -
  assume "xs \<noteq> []"
  then obtain x l where s: "sort xs = x # l" by (metis list.exhaust set_empty set_sort)
  have "sorted (x # l)" "set (x # l) = set xs" by (metis s sorted_sort, metis s set_sort)
  then show ?thesis using s by auto
qed

lemma hd_rev_sort: "xs \<noteq> [] \<Longrightarrow> hd (rev (sort xs)) \<in> set xs \<and> (\<forall>y\<in>set xs. y \<le> hd (rev (sort xs)))" for xs :: "int list"
proof -
  assume "xs \<noteq> []"
  then obtain x l where s: "sort xs = l @ [x]" by (metis rev_exhaust set_empty set_sort)
  have "sorted (l @ [x])" "set (l @ [x]) = set xs" by (metis s sorted_sort, metis s set_sort)
  then show ?thesis using s by (auto simp: sorted_append)
qed

lemma rebuilt_side_best:
  assumes "n > 0" "side_ticks s b \<noteq> []"
  shows "pl_ticks (hd (rebuilt_side C s n b)) \<in> set (side_ticks s b)"
    "y \<in> set (side_ticks s b) \<Longrightarrow> if s = BUY then y \<le> pl_ticks (hd (rebuilt_side C s n b))
      else pl_ticks (hd (rebuilt_side C s n b)) \<le> y"
    "pl_price (hd (rebuilt_side C s n b)) = of_int (pl_ticks (hd (rebuilt_side C s n b))) / of_int (bc_scale C)"
proof -
  let ?l = "if s = BUY then rev (sort (remdups (side_ticks s b))) else sort (remdups (side_ticks s b))"
  have ne: "remdups (side_ticks s b) \<noteq> []" using assms(2) by simp
  then have "?l \<noteq> []" by (cases "s = BUY") (simp_all add: sort_Nil_iff)
  then have h: "pl_ticks (hd (rebuilt_side C s n b)) = hd ?l" "rebuilt_side C s n b \<noteq> []"
    using assms(1) by (simp_all add: rebuilt_side_def hd_map)
  show "pl_ticks (hd (rebuilt_side C s n b)) \<in> set (side_ticks s b)"
    "y \<in> set (side_ticks s b) \<Longrightarrow> if s = BUY then y \<le> pl_ticks (hd (rebuilt_side C s n b))
      else pl_ticks (hd (rebuilt_side C s n b)) \<le> y"
    using hd_sort[OF ne] hd_rev_sort[OF ne] h(1) by (cases "s = BUY"; simp)+
  have "\<forall>p\<in>set (rebuilt_side C s n b). pl_price p = of_int (pl_ticks p) / of_int (bc_scale C)"
    by (auto simp: rebuilt_side_def)
  with h(2) show "pl_price (hd (rebuilt_side C s n b)) = of_int (pl_ticks (hd (rebuilt_side C s n b))) / of_int (bc_scale C)"
    by simp
qed

lemma round_half_even_int [simp]: "round_half_even (of_int k) = k"
  by (simp add: round_half_even_def Let_def)

lemma round_mid: "round_decimals (d + 1) (of_int k / (2 * 10 ^ d)) = of_int k / (2 * 10 ^ d)"
proof -
  have e: "of_int k / (2 * 10 ^ d) * 10 ^ (d + 1) = (of_int (5 * k) :: rat)" by (simp add: field_simps)
  show ?thesis unfolding round_decimals_def e round_half_even_int by (simp add: field_simps)
qed

lemma round_spread: "round_decimals d (of_int k / 10 ^ d) = of_int k / 10 ^ d"
  by (simp add: round_decimals_def)

lemma make_book_scale: "make_book sy sc st mr mp = Inr C \<Longrightarrow> (of_int (bc_scale C) :: rat) = 10 ^ bc_decimals C"
  by (auto simp: make_book_def split: if_splits option.splits simp flip: of_int_power)

end
