(* ===== verification/Book_Clean.thy ===== *)
theory Book_Clean
  imports Book_Snapshot
begin

text \<open>
  Strict and permissive engines side by side. Whatever a step does, either the permissive
  engine records nothing and both do the same, or it records a violation and the strict one
  raises it. On a log a strict engine accepts, the shares of an order are followed message by
  message.
\<close>

section \<open>Counting violations\<close>

abbreviation strictly :: "book_config \<Rightarrow> book_config" where
  "strictly C \<equiv> C\<lparr>bc_strict := True\<rparr>"

abbreviation leniently :: "book_config \<Rightarrow> book_config" where
  "leniently C \<equiv> C\<lparr>bc_strict := False\<rparr>"

lemma sum_py_bump:
  "sum_list (py_values (py_set d k (Suc (case py_get d k of None \<Rightarrow> 0 | Some n \<Rightarrow> n)))) = Suc (sum_list (py_values d))"
  by (induction d) (auto simp: py_set_def py_get_def)

lemma record_violation_count:
  "record_violation C kind i t b = (r, b') \<Longrightarrow> violation_count b' = Suc (violation_count b)"
  by (auto simp: record_violation_def Let_def violation_count_def sum_py_bump split: if_splits)

definition agree :: "book \<Rightarrow> book_result \<Rightarrow> book_result \<Rightarrow> bool" where
  "agree b rs rp \<longleftrightarrow> violation_count b \<le> violation_count (snd rp) \<and>
     (if violation_count (snd rp) = violation_count b then rs = rp else \<exists>k. fst rs = Inl (Integrity_error k))"

lemma agree_refl: "violation_count (snd r) = violation_count b \<Longrightarrow> agree b r r"
  by (simp add: agree_def)

lemma agree_same: "book_rest (snd r) = book_rest b \<Longrightarrow> agree b r r"
  by (simp add: agree_def book_rest_def violation_count_def)

lemma agree_then:
  assumes "agree b rs rp" "\<And>b1. agree b1 (fs b1) (fp b1)"
  shows "agree b (book_then rs fs) (book_then rp fp)"
proof -
  obtain s bs p bp where r: "rs = (s, bs)" "rp = (p, bp)" by fastforce
  show ?thesis
  proof (cases p)
    case (Inl x)
    with assms(1) r show ?thesis by (cases s) (auto simp: agree_def book_then_simps split: if_splits)
  next
    case (Inr u)
    note next' = assms(2)[of bp]
    show ?thesis
    proof (cases "violation_count bp = violation_count b")
      case True
      with assms(1) r Inr have "rs = (Inr u, bp)" "rp = (Inr u, bp)" by (simp_all add: agree_def)
      with next' True show ?thesis by (simp add: agree_def book_then_simps)
    next
      case False
      with assms(1) r obtain k where "s = Inl (Integrity_error k)" "violation_count b < violation_count bp"
        by (auto simp: agree_def)
      with next' r Inr show ?thesis by (auto simp: agree_def book_then_simps)
    qed
  qed
qed

lemma agree_violation:
  "agree b (record_violation (strictly C) kind i t b) (record_violation (leniently C) kind i t b)"
proof -
  obtain rs bs rp bp where r: "record_violation (strictly C) kind i t b = (rs, bs)"
    "record_violation (leniently C) kind i t b = (rp, bp)" by fastforce
  with record_violation_frame(4)[OF r(1)] record_violation_count[OF r(2)] show ?thesis
    by (simp add: agree_def)
qed

text \<open>The operations on the book itself know nothing of either.\<close>

lemma remove_order_rest: "book_rest (snd (remove_order o' b)) = book_rest b"
  by (auto simp: remove_order_def level_remove_order_def set_levels_def book_rest_def Let_def split: option.splits)

lemma level_reduce_rest: "book_rest (snd (level_reduce_qty s t d b)) = book_rest b"
  by (auto simp: level_reduce_qty_def set_levels_def book_rest_def split: option.splits)

lemma agree_book:
  "agree b (remove_order o' b) (remove_order o' b)"
  "agree b (Inr (), insert_order o' b) (Inr (), insert_order o' b)"
  "agree b (x, b) (x, b)"
  by (simp_all add: agree_same remove_order_rest)

lemma agree_reduce:
  "agree b (level_reduce_qty s t d (b\<lparr>live_orders := l\<rparr>)) (level_reduce_qty s t d (b\<lparr>live_orders := l\<rparr>))"
proof -
  have "book_rest (snd (level_reduce_qty s t d (b\<lparr>live_orders := l\<rparr>))) = book_rest b"
    by (simp add: level_reduce_rest) (simp add: book_rest_def)
  then show ?thesis by (rule agree_same)
qed

lemmas agree_intros = agree_then agree_violation agree_book agree_reduce

lemma to_ticks_strict [simp]: "to_ticks (C\<lparr>bc_strict := v\<rparr>) p = to_ticks C p"
  by (cases p) (simp_all add: to_ticks_def)

lemma agree_add: "agree b (apply_add (strictly C) m b) (apply_add (leniently C) m b)"
  by (auto simp: apply_add_def intro!: agree_intros split: sum.split option.split)

lemma agree_decrement: "agree b (apply_decrement (strictly C) kind m b) (apply_decrement (leniently C) kind m b)"
  by (auto simp: apply_decrement_def intro!: agree_intros split: option.split)

lemma agree_delete: "agree b (apply_delete (strictly C) m b) (apply_delete (leniently C) m b)"
  by (auto simp: apply_delete_def intro!: agree_intros split: option.split)

lemma agree_replace: "agree b (apply_replace (strictly C) m b) (apply_replace (leniently C) m b)"
  by (auto simp: apply_replace_def Let_def intro!: agree_intros split: sum.split option.split)

lemma agree_timestamp: "agree b (check_timestamp_order (strictly C) m b) (check_timestamp_order (leniently C) m b)"
proof -
  have "agree b1 (Inr (), if c then b1\<lparr>last_timestamp := t\<rparr> else b1) (Inr (), if c then b1\<lparr>last_timestamp := t\<rparr> else b1)" for b1 c t
    by (rule agree_refl) (simp add: violation_count_def)
  then show ?thesis unfolding check_timestamp_order_def by (auto intro!: agree_then agree_violation agree_book(3))
qed

lemma agree_counted: "agree (b\<lparr>messages_processed := n\<rparr>) rs rp \<Longrightarrow> agree b rs rp"
  by (simp add: agree_def violation_count_def)

lemma agree_process: "agree b (process_l3_message (strictly C) m b) (process_l3_message (leniently C) m b)"
proof (cases "validate_common m")
  case None
  then show ?thesis
    by (auto simp: process_l3_message_def Let_def split: l3_msg_type.split
        intro!: agree_then agree_timestamp
        intro: agree_counted[OF agree_add] agree_counted[OF agree_decrement] agree_counted[OF agree_delete]
          agree_counted[OF agree_replace])
next
  case (Some x)
  then show ?thesis by (simp add: process_l3_message_def agree_book)
qed

lemma agree_replay: "agree b (replay (strictly C) ms b) (replay (leniently C) ms b)"
  by (induction ms arbitrary: b) (auto intro!: agree_then agree_process agree_book(3))

section \<open>The shares of one order\<close>

definition takes :: "string \<Rightarrow> l3_message \<Rightarrow> int" where
  "takes i m = (if lm_order m = i \<and> (lm_type m = MSG_CANCEL \<or> lm_type m = MSG_EXECUTE) then lm_qty m else 0)"

definition ends_or_renames :: "string \<Rightarrow> l3_message \<Rightarrow> bool" where
  "ends_or_renames i m \<longleftrightarrow> lm_type m \<noteq> MSG_CANCEL \<and> lm_type m \<noteq> MSG_EXECUTE \<and> (lm_order m = i \<or> replacement_id m = i)"

lemma strict_decrement:
  assumes "process_l3_message (strictly C) m b = (Inr (), b')" "lm_type m = MSG_CANCEL \<or> lm_type m = MSG_EXECUTE"
  shows "\<exists>o'. orders_of b (lm_order m) = Some o' \<and> 0 < lm_qty m \<and> lm_qty m \<le> od_qty o'"
proof (rule timestamp_cases[of "strictly C" m b])
  fix b0 assume "check_timestamp_order (strictly C) m b = (Inl (Integrity_error TIMESTAMP_REGRESSION), b0)"
  with assms(1) show ?thesis by (auto simp: process_l3_message_def book_then_simps split: option.splits)
next
  fix b0 assume *: "check_timestamp_order (strictly C) m b = (Inr (), b0)" "same_book b b0"
  let ?b1 = "b0\<lparr>messages_processed := Suc (messages_processed b0)\<rparr>"
  from assms * obtain kind where d: "apply_decrement (strictly C) kind m ?b1 = (Inr (), b')"
    by (auto simp: process_l3_message_def book_then_simps Let_def split: option.splits)
  have v: "fst (record_violation (strictly C) k i t b1) = Inl (Integrity_error k)" for k i t b1
    using record_violation_frame(4)[OF surjective_pairing, of "strictly C" k i t b1] by simp
  have vr: "fst (book_then (record_violation (strictly C) k i t b1) f) = Inl (Integrity_error k)" for k i t b1 f
    using v[of k i t b1] by (cases "record_violation (strictly C) k i t b1") (simp add: book_then_simps)
  have live: "orders_of ?b1 = orders_of b" using *(2) by (simp add: same_book_orders)
  show ?thesis
  proof (cases "orders_of b (lm_order m)")
    case None
    with d live v[of UNKNOWN_ORDER "lm_order m" "lm_time m" ?b1] show ?thesis by (auto simp: apply_decrement_def split: if_splits)
  next
    case (Some o')
    with d live vr[of kind "lm_order m" "lm_time m" ?b1 "remove_order o'"] show ?thesis
      by (auto simp: apply_decrement_def split: if_splits)
  qed
qed

lemma strict_step:
  assumes "book_ok b" "process_l3_message (strictly C) m b = (Inr (), b')" "\<not> ends_or_renames i m"
  shows "orders_of b' i = (case orders_of b i of None \<Rightarrow> None
      | Some o' \<Rightarrow> if takes i m = od_qty o' then None else Some (o'\<lparr>od_qty := od_qty o' - takes i m\<rparr>))"
    and "case orders_of b i of None \<Rightarrow> takes i m = 0 | Some o' \<Rightarrow> 0 \<le> takes i m \<and> takes i m \<le> od_qty o'"
    and "book_ok b'"
proof -
  have eff: "book_ok b'" "orders_of b' = l3_spec (strictly C) m (orders_of b)"
    using process_effect[OF assms(1), of "strictly C" m] by (simp_all add: l3_effect_def assms(2))
  show "book_ok b'" by (rule eff(1))
  have pos: "orders_of b i = Some o' \<Longrightarrow> od_qty o' > 0" for o'
    using book_okD(2)[OF assms(1)] by (simp add: order_fine_def)
  have "(orders_of b' i = (case orders_of b i of None \<Rightarrow> None
      | Some o' \<Rightarrow> if takes i m = od_qty o' then None else Some (o'\<lparr>od_qty := od_qty o' - takes i m\<rparr>))) \<and>
    (case orders_of b i of None \<Rightarrow> takes i m = 0 | Some o' \<Rightarrow> 0 \<le> takes i m \<and> takes i m \<le> od_qty o')"
  proof (cases "lm_type m = MSG_CANCEL \<or> lm_type m = MSG_EXECUTE")
    case True
    from strict_decrement[OF assms(2) True] True show ?thesis
      using pos by (auto simp: eff(2) l3_spec_def Let_def takes_def split: option.splits)
  next
    case False
    with assms(3) have "lm_order m \<noteq> i" "replacement_id m \<noteq> i" by (auto simp: ends_or_renames_def)
    with False pos show ?thesis
      by (cases "lm_type m") (auto simp: eff(2) l3_spec_def Let_def takes_def split: option.splits)
  qed
  then show "orders_of b' i = (case orders_of b i of None \<Rightarrow> None
      | Some o' \<Rightarrow> if takes i m = od_qty o' then None else Some (o'\<lparr>od_qty := od_qty o' - takes i m\<rparr>))"
    "case orders_of b i of None \<Rightarrow> takes i m = 0 | Some o' \<Rightarrow> 0 \<le> takes i m \<and> takes i m \<le> od_qty o'" by blast+
qed

lemma strict_replay_cons:
  assumes "replay C (m # ms) b0 = (Inr (), b)"
  obtains b1 where "process_l3_message C m b0 = (Inr (), b1)" "replay C ms b1 = (Inr (), b)"
  using assms by (cases "process_l3_message C m b0") (auto simp: book_then_def split: sum.splits)

lemma strict_gone:
  "replay (strictly C) ms b0 = (Inr (), b) \<Longrightarrow> book_ok b0 \<Longrightarrow> orders_of b0 i = None \<Longrightarrow>
   list_all (\<lambda>m. \<not> ends_or_renames i m) ms \<Longrightarrow> sum_list (map (takes i) ms) = 0 \<and> orders_of b i = None"
proof (induction ms arbitrary: b0)
  case (Cons m ms)
  obtain b1 where b1: "process_l3_message (strictly C) m b0 = (Inr (), b1)" "replay (strictly C) ms b1 = (Inr (), b)"
    by (rule strict_replay_cons[OF Cons.prems(1)])
  have "\<not> ends_or_renames i m" using Cons.prems(4) by simp
  note st = strict_step[OF Cons.prems(2) b1(1) this]
  from Cons.IH[OF b1(2) st(3)] st(1,2) Cons.prems(3,4) show ?case by simp
qed simp

lemma strict_shares:
  "replay (strictly C) ms b0 = (Inr (), b) \<Longrightarrow> book_ok b0 \<Longrightarrow> orders_of b0 i = Some o' \<Longrightarrow>
   list_all (\<lambda>m. \<not> ends_or_renames i m) ms \<Longrightarrow>
   sum_list (map (takes i) ms) \<le> od_qty o' \<and>
   orders_of b i = (if sum_list (map (takes i) ms) = od_qty o' then None
                    else Some (o'\<lparr>od_qty := od_qty o' - sum_list (map (takes i) ms)\<rparr>))"
proof (induction ms arbitrary: b0 o')
  case Nil
  then have "od_qty o' > 0" using book_okD(2)[of b0 i o'] by (simp add: order_fine_def)
  with Nil show ?case by simp
next
  case (Cons m ms)
  obtain b1 where b1: "process_l3_message (strictly C) m b0 = (Inr (), b1)" "replay (strictly C) ms b1 = (Inr (), b)"
    by (rule strict_replay_cons[OF Cons.prems(1)])
  have "\<not> ends_or_renames i m" "list_all (\<lambda>m. \<not> ends_or_renames i m) ms" using Cons.prems(4) by simp_all
  note quiet = this
  note st = strict_step[OF Cons.prems(2) b1(1) quiet(1), simplified Cons.prems(3) option.case]
  show ?case
  proof (cases "takes i m = od_qty o'")
    case True
    with st(1) have "orders_of b1 i = None" by simp
    from strict_gone[OF b1(2) st(3) this quiet(2)] True show ?thesis by simp
  next
    case False
    with st(1) have "orders_of b1 i = Some (o'\<lparr>od_qty := od_qty o' - takes i m\<rparr>)" by simp
    from Cons.IH[OF b1(2) st(3) this quiet(2)] show ?thesis by (auto simp: algebra_simps)
  qed
qed

end
