(* ===== verification/Book_Properties.thy ===== *)
theory Book_Properties
  imports Book_Clean
begin

text \<open>
  The guarantees of the replay: the depth is the orders', a snapshot is what a rebuild from
  the orders would show, a replay is the map updates of its log up to the first refusal, a
  strict engine accepts exactly the logs a permissive one finds nothing wrong with, and on
  such a log the shares of an order add up.
\<close>

section \<open>Depth and snapshots\<close>

text \<open>C8. Whatever is fed to the engine, malformed and inconsistent messages included and whether or not
  it raises for them: on each side and at each price the depth is the sum and the count of the
  live orders there, every live order shows a positive quantity under its own identifier, and
  no message ever fails on a missing level.
\<close>

theorem depth_is_the_orders:
  assumes "b = fold (book_step C) ms empty_book" "s \<in> {BUY, SELL}"
  shows "py_get (levels_for s b) t = rebuilt_level s t b \<and>
    (\<forall>o' \<in> set (py_values (live_orders b)). py_get (live_orders b) (od_id o') = Some o' \<and> od_qty o' > 0 \<and> od_side o' \<in> {BUY, SELL}) \<and>
    fst (process_l3_message C m b) \<noteq> Inl Key_error"
proof -
  have ok: "book_ok b" unfolding assms(1) by (rule replayed.run_inv[OF book_ok_empty])
  have "py_get (levels_for s b) t = rebuilt_level s t b"
    by (simp add: depth_isD(2)[OF book_okD(3)[OF ok] assms(2)] level_of_orders)
  moreover have "py_get (live_orders b) (od_id o') = Some o' \<and> od_qty o' > 0 \<and> od_side o' \<in> {BUY, SELL}"
    if "o' \<in> set (py_values (live_orders b))" for o'
  proof -
    from that obtain k where "(k, o') \<in> set (live_orders b)" by auto
    then have "py_get (live_orders b) k = Some o'" using book_okD(1)[OF ok] by (simp add: py_get_iff)
    with book_okD(2)[OF ok this] show ?thesis by (simp add: order_fine_def)
  qed
  moreover have "fst (process_l3_message C m b) \<noteq> Inl Key_error"
    using process_effect[OF ok] by (simp add: l3_effect_def)
  ultimately show ?thesis by blast
qed

lemma snapshot_fields:
  assumes "l2_snapshot C n b = Inr r"
  shows "n \<ge> 1" "br_bids r = top_levels C BUY (nat n) b" "br_asks r = top_levels C SELL (nat n) b"
    "br_crossed r \<longleftrightarrow> br_bids r \<noteq> [] \<and> br_asks r \<noteq> [] \<and> pl_ticks (hd (br_bids r)) > pl_ticks (hd (br_asks r))"
    "br_locked r \<longleftrightarrow> br_bids r \<noteq> [] \<and> br_asks r \<noteq> [] \<and> pl_ticks (hd (br_bids r)) = pl_ticks (hd (br_asks r))"
    "br_bid_price r = (if br_bids r = [] then None else Some (pl_price (hd (br_bids r))))"
    "br_ask_price r = (if br_asks r = [] then None else Some (pl_price (hd (br_asks r))))"
    "br_mid r = (if br_bids r \<noteq> [] \<and> br_asks r \<noteq> [] then Some (round_decimals (bc_decimals C + 1)
      (of_int (pl_ticks (hd (br_bids r)) + pl_ticks (hd (br_asks r))) / (2 * of_int (bc_scale C)))) else None)"
    "br_spread r = (if br_bids r \<noteq> [] \<and> br_asks r \<noteq> [] then Some (round_decimals (bc_decimals C)
      (of_int (pl_ticks (hd (br_asks r)) - pl_ticks (hd (br_bids r))) / of_int (bc_scale C))) else None)"
  using assms by (auto simp: l2_snapshot_def Let_def split: if_splits)

text \<open>C22. A snapshot shows what a rebuild from the live orders would: on each side the best prices
  with the sums and counts of their orders. The book is called crossed exactly when some live
  buy order is priced above some live sell order, locked when the best two are equal, and mid
  and spread are exact: no digit is lost to the rounding.
\<close>

theorem snapshot_is_rebuild:
  assumes "make_book symbol scale strict max_retained max_price = Inr C"
    and "b = fold (book_step C) ms empty_book" "l2_snapshot C n b = Inr r"
  shows "br_bids r = rebuilt_side C BUY (nat n) b \<and> br_asks r = rebuilt_side C SELL (nat n) b \<and>
    (br_crossed r \<longleftrightarrow> (\<exists>x\<in>set (side_ticks BUY b). \<exists>y\<in>set (side_ticks SELL b). x > y)) \<and>
    (br_locked r \<longleftrightarrow> \<not> br_crossed r \<and> (\<exists>x\<in>set (side_ticks BUY b). x \<in> set (side_ticks SELL b))) \<and>
    (case (br_bid_price r, br_ask_price r) of
       (Some p, Some q) \<Rightarrow> br_mid r = Some ((p + q) / 2) \<and> br_spread r = Some (q - p)
     | _ \<Rightarrow> br_mid r = None \<and> br_spread r = None)"
proof -
  have ok: "book_ok b" unfolding assms(2) by (rule replayed.run_inv[OF book_ok_empty])
  note f = snapshot_fields[OF assms(3)]
  let ?B = "rebuilt_side C BUY (nat n) b" let ?A = "rebuilt_side C SELL (nat n) b"
  have sides: "br_bids r = ?B" "br_asks r = ?A" using f(2,3) by (simp_all add: top_levels_rebuilt[OF ok])
  have n: "nat n > 0" using f(1) by simp
  have e: "?B = [] \<longleftrightarrow> side_ticks BUY b = []" "?A = [] \<longleftrightarrow> side_ticks SELL b = []"
    by (simp_all add: rebuilt_side_empty[OF n])
  note f = f[unfolded sides e]
  show ?thesis
  proof (cases "side_ticks BUY b \<noteq> [] \<and> side_ticks SELL b \<noteq> []")
    case False
    then show ?thesis using sides f by auto
  next
    case True
    note B = rebuilt_side_best[OF n, where s = BUY and b = b and C = C] and A = rebuilt_side_best[OF n, where s = SELL and b = b and C = C]
    define x where "x = pl_ticks (hd ?B)" define y where "y = pl_ticks (hd ?A)"
    note xy = x_def[symmetric] y_def[symmetric]
    have x: "x \<in> set (side_ticks BUY b)" "\<forall>z\<in>set (side_ticks BUY b). z \<le> x"
      and y: "y \<in> set (side_ticks SELL b)" "\<forall>z\<in>set (side_ticks SELL b). y \<le> z"
      using B A True by (auto simp: x_def y_def)
    have crossed: "br_crossed r \<longleftrightarrow> (\<exists>x\<in>set (side_ticks BUY b). \<exists>y\<in>set (side_ticks SELL b). x > y)"
      using f(4) True x y by (fastforce simp: xy)
    have locked: "br_locked r \<longleftrightarrow> \<not> br_crossed r \<and> (\<exists>x\<in>set (side_ticks BUY b). x \<in> set (side_ticks SELL b))"
      using f(4,5) True x y by (fastforce simp: xy)
    have sc: "(of_int (bc_scale C) :: rat) = 10 ^ bc_decimals C" by (rule make_book_scale[OF assms(1)])
    have mid: "br_mid r = Some (of_int (x + y) / (2 * 10 ^ bc_decimals C))"
      using f(8) True by (simp only: xy sc round_mid) simp
    have spread: "br_spread r = Some (of_int (y - x) / 10 ^ bc_decimals C)"
      using f(9) True by (simp only: xy sc round_spread) simp
    have prices: "br_bid_price r = Some (of_int x / 10 ^ bc_decimals C)" "br_ask_price r = Some (of_int y / 10 ^ bc_decimals C)"
      using f(6,7) B(3) A(3) True by (simp_all add: xy sc)
    from sides crossed locked mid spread prices show ?thesis
      by (simp add: add_divide_distrib diff_divide_distrib)
  qed
qed

section \<open>A replay is the updates of its log\<close>

text \<open>C29. From whatever state earlier messages have left, a replay is the run of the abstract book: a map
  of the resting orders and the largest timestamp seen, updated message by message, with no
  price level in it. The engine raises at the message the abstract book refuses, with the same
  error, goes through all the others, and holds exactly the abstract orders at the end; so a
  message it raises for, with others raised for before it or none, leaves the orders alone.
\<close>

theorem replay_refines_map_updates:
  assumes "b = fold (book_step C) before empty_book" "replay C ms b = (res, b')"
  shows "l3_run C ms (last_timestamp b) (orders_of b) = ((case res of Inl x \<Rightarrow> Some x | Inr _ \<Rightarrow> None), orders_of b')"
proof -
  have "book_ok b" unfolding assms(1) by (rule replayed.run_inv[OF book_ok_empty])
  from replay_run[OF this, of C ms] show ?thesis by (simp add: assms(2) raised_def)
qed

section \<open>Strict and permissive engines\<close>

text \<open>A strict engine gets through a log exactly when a permissive one does and has recorded no
  violation, and then both hold the same book: the two modes differ in how they report, not in
  what they find.
\<close>

theorem strict_iff_no_violation:
  "replay (strictly C) ms empty_book = (Inr (), b) \<longleftrightarrow>
   replay (leniently C) ms empty_book = (Inr (), b) \<and> violation_count b = 0"
proof -
  have z: "violation_count empty_book = 0" by (simp add: violation_count_def empty_book_def)
  from agree_replay[of empty_book C ms] show ?thesis by (auto simp: agree_def z split: if_splits)
qed

text \<open>Shares add up. On a log a strict engine accepts, an order shows what it showed at first less
  the shares every cancel and execution since has taken, never less than nothing, and it is off
  the book exactly when they took them all.
\<close>

theorem shares_add_up:
  assumes "replay (strictly C) ms0 empty_book = (Inr (), b0)" "orders_of b0 i = Some o'"
    and "replay (strictly C) ms b0 = (Inr (), b)" "list_all (\<lambda>m. \<not> ends_or_renames i m) ms"
  shows "sum_list (map (takes i) ms) \<le> od_qty o' \<and>
    orders_of b i = (if sum_list (map (takes i) ms) = od_qty o' then None
                     else Some (o'\<lparr>od_qty := od_qty o' - sum_list (map (takes i) ms)\<rparr>))"
proof -
  have "book_ok b0" if "replay D ns b1 = (r, b0)" "book_ok b1" for D ns b1 r
    using that
  proof (induction ns arbitrary: b1)
    case (Cons n ns)
    have "book_ok (snd (process_l3_message D n b1))" using process_effect[OF Cons.prems(2)] by (simp add: l3_effect_def)
    with Cons show ?case by (cases "process_l3_message D n b1") (auto simp: book_then_def split: sum.splits)
  qed simp
  from strict_shares[OF assms(3) this[OF assms(1) book_ok_empty] assms(2,4)] show ?thesis .
qed

end
