(* ===== verification/Book_Witnesses.thy ===== *)
theory Book_Witnesses
  imports Book_Properties
begin

text \<open>A short log: two orders, a partial execution, a replacement and a cancel for an unknown order.\<close>

definition sample_book :: book_config where
  "sample_book = \<lparr>bc_symbol = ''AAPL'', bc_scale = 10000, bc_decimals = 4, bc_strict = False,
     bc_max_retained = 1000, bc_max_price = None\<rparr>"

definition sample_opening :: "l3_message list" where
  "sample_opening = [l3_add ''a'' ''buy'' (N_int 10) 100 1, l3_add ''b'' ''SELL'' (N_int 12) 50 2]"

definition sample_takes :: "l3_message list" where
  "sample_takes = [l3_execute ''a'' 30 3, l3_replace ''b'' ''c'' (N_int 11) 40 4, l3_cancel ''a'' 20 5]"

definition sample_log :: "l3_message list" where
  "sample_log = sample_opening @ sample_takes @ [l3_cancel ''zz'' 1 6]"

lemma sample_config: "make_book ''AAPL'' 10000 False 1000 None = Inr sample_book"
proof -
  have "ten_exponent 10000 = 4" by (simp add: ten_exponent.simps)
  then show ?thesis by (simp add: make_book_def bad_max_price_def sample_book_def)
qed

lemma depth_is_the_orders_witness:
  "py_get (bid_levels (fold (book_step sample_book) sample_log empty_book)) 100000 =
     rebuilt_level BUY 100000 (fold (book_step sample_book) sample_log empty_book)"
proof -
  have "py_get (levels_for BUY (fold (book_step sample_book) sample_log empty_book)) 100000 =
     rebuilt_level BUY 100000 (fold (book_step sample_book) sample_log empty_book)"
    by (rule conjunct1[OF depth_is_the_orders[OF refl]]) simp
  then show ?thesis by (simp only: levels_for_def if_True refl)
qed

lemma snapshot_is_rebuild_witness:
  "\<exists>r. l2_snapshot sample_book 5 (fold (book_step sample_book) sample_log empty_book) = Inr r \<and>
     br_bids r = rebuilt_side sample_book BUY 5 (fold (book_step sample_book) sample_log empty_book)"
proof -
  obtain r where r: "l2_snapshot sample_book 5 (fold (book_step sample_book) sample_log empty_book) = Inr r"
    by (simp add: l2_snapshot_def Let_def)
  have "br_bids r = rebuilt_side sample_book BUY (nat 5) (fold (book_step sample_book) sample_log empty_book)"
    by (rule conjunct1[OF snapshot_is_rebuild[OF sample_config refl r]])
  with r show ?thesis by simp
qed

lemma replay_refines_map_updates_witness:
  "let C = strictly sample_book; b = fold (book_step C) (l3_delete ''zz'' 0 # sample_opening) empty_book;
       ms = sample_takes @ [l3_cancel ''zz'' 1 6, l3_delete ''a'' 7]
   in l3_run C ms (last_timestamp b) (orders_of b) = (Some (Integrity_error UNKNOWN_ORDER), orders_of (snd (replay C ms b)))"
proof -
  let ?C = "strictly sample_book"
  let ?b = "fold (book_step ?C) (l3_delete ''zz'' 0 # sample_opening) empty_book"
  let ?ms = "sample_takes @ [l3_cancel ''zz'' 1 6, l3_delete ''a'' 7]"
  have "replay ?C ?ms ?b = (Inl (Integrity_error UNKNOWN_ORDER), snd (replay ?C ?ms ?b))"
    by (rule prod_eqI) (code_simp, simp)
  from replay_refines_map_updates[OF refl this] show ?thesis by (simp add: Let_def)
qed

lemma shares_add_up_witness:
  "orders_of (snd (replay (strictly sample_book) sample_takes (snd (replay (strictly sample_book) sample_opening empty_book)))) ''a'' =
     Some \<lparr>od_id = ''a'', od_side = BUY, od_ticks = 100000, od_qty = 50, od_scale = 10000\<rparr>"
proof -
  let ?C = "strictly sample_book"
  have 1: "replay ?C sample_opening empty_book = (Inr (), snd (replay ?C sample_opening empty_book))"
    by (rule prod_eqI) (code_simp, simp)
  have 2: "orders_of (snd (replay ?C sample_opening empty_book)) ''a'' =
      Some \<lparr>od_id = ''a'', od_side = BUY, od_ticks = 100000, od_qty = 100, od_scale = 10000\<rparr>" by code_simp
  have 3: "replay ?C sample_takes (snd (replay ?C sample_opening empty_book)) =
      (Inr (), snd (replay ?C sample_takes (snd (replay ?C sample_opening empty_book))))"
    by (rule prod_eqI) (code_simp, simp)
  have 4: "list_all (\<lambda>m. \<not> ends_or_renames ''a'' m) sample_takes" by code_simp
  have 5: "sum_list (map (takes ''a'') sample_takes) = 50" by code_simp
  from shares_add_up[OF 1 2 3 4] show ?thesis by (simp add: 5)
qed

text \<open>
  A price far below a tick is not refused: the residual test allows a millionth of a tick, so
  the order rests at price zero.
\<close>

lemma vanishing_price_accepted: "to_ticks sample_book (N_float (1 / 100000000000)) = Inr 0"
proof -
  have "\<lfloor>1 / 10000000 :: rat\<rfloor> = 0" by (simp add: floor_eq_iff)
  then have "round_half_even (1 / 10000000) = 0" by (simp add: round_half_even_def Let_def)
  moreover have "double_of_int 10000 = Some 10000" by code_simp
  moreover have "\<not> double_limit \<le> 1 / 10000000" by (simp add: double_limit_def)
  ultimately show ?thesis by (simp add: to_ticks_def sample_book_def exceeds_def)
qed

end
