(* ===== verification/Text_Laws.thy ===== *)
theory Text_Laws
  imports Py_Text
begin

text \<open>
  How \<open>str.upper\<close> and \<open>str.strip\<close> work together: case leaves white space alone, upper case is a
  normal form, and so is a stripped upper case text.
\<close>

lemma upper_space: "is_space c \<Longrightarrow> upper_char c = [c]"
  by (auto simp: is_space_def upper_char_def Let_def)

lemma upper_solid: "\<not> is_space c \<Longrightarrow> upper_char c \<noteq> [] \<and> list_all (\<lambda>x. \<not> is_space x) (upper_char c)"
  by (auto simp: upper_char_def Let_def is_space_def)

lemma dropWhile_solid: "list_all (\<lambda>x. \<not> is_space x) u \<Longrightarrow> u \<noteq> [] \<Longrightarrow> dropWhile is_space (u @ v) = u @ v"
  by (cases u) auto

lemma upper_dropWhile: "dropWhile is_space (py_upper s) = py_upper (dropWhile is_space s)"
proof (induction s)
  case (Cons c s)
  show ?case
  proof (cases "is_space c")
    case True
    with Cons show ?thesis by (simp add: py_upper_def upper_space)
  next
    case False
    with upper_solid[OF False] show ?thesis by (simp add: py_upper_def dropWhile_solid)
  qed
qed (simp add: py_upper_def)

lemma upper_dropWhile_end:
  "rev (dropWhile is_space (rev (py_upper s))) = py_upper (rev (dropWhile is_space (rev s)))"
proof (induction s rule: rev_induct)
  case (snoc c s)
  show ?case
  proof (cases "is_space c")
    case True
    with snoc show ?thesis by (simp add: py_upper_def upper_space)
  next
    case False
    with upper_solid[OF False] dropWhile_solid[of "rev (upper_char c)"] show ?thesis
      by (simp add: py_upper_def)
  qed
qed (simp add: py_upper_def)

lemma strip_upper: "py_strip (py_upper s) = py_upper (py_strip s)"
  unfolding py_strip_def upper_dropWhile upper_dropWhile_end ..

lemma upper_char_fixed: "list_all (\<lambda>x. upper_char x = [x]) (upper_char c)"
  by (auto simp: upper_char_def Let_def split: if_splits)

lemma upper_fixed: "list_all (\<lambda>x. upper_char x = [x]) u \<Longrightarrow> py_upper u = u"
  by (induction u) (auto simp: py_upper_def)

lemma upper_upper: "py_upper (py_upper s) = py_upper s"
  by (rule upper_fixed) (use upper_char_fixed in \<open>auto simp: py_upper_def list_all_iff\<close>)

lemma upper_strip_idem: "py_upper (py_strip (py_upper (py_strip s))) = py_upper (py_strip s)"
  by (simp add: strip_upper upper_upper)

end
