(* ===== verification/Security_Ids.thy ===== *)
theory Security_Ids
  imports Py_Value
begin

text \<open>
  Model of \<open>skills/isin-cusip-sedol-cross-reference-service/scripts/
  isin_cusip_sedol_cross_reference_service.py\<close>: the syntax and the check digits of four
  security identifiers, their classification, and the master data indexed by each of them.
  The patterns are predicates on character lists (a stripped text has no line end for \<open>$\<close> to
  stop before). A record carries the identity of its object, which the indexing compares with
  \<open>is\<close>. Audit notes and the texts of problems are left out.
\<close>

section \<open>Vocabulary\<close>

datatype id_type = ISIN | CUSIP | SEDOL | FIGI | TICKER

datatype xref_status = MATCH_FOUND | INVALID_CHECKSUM | IDENTIFIER_NOT_FOUND

definition CLASSIFICATION_PRIORITY :: "id_type list" where
  "CLASSIFICATION_PRIORITY = [ISIN, FIGI, CUSIP, SEDOL]"

definition parse_id_type :: "string \<Rightarrow> id_type option" where
  "parse_id_type s = map_of [(''ISIN'', ISIN), (''CUSIP'', CUSIP), (''SEDOL'', SEDOL), (''FIGI'', FIGI), (''TICKER'', TICKER)] s"

section \<open>Syntax\<close>

definition is_upper :: "char \<Rightarrow> bool" where
  "is_upper c \<longleftrightarrow> (let n = (of_char c :: int) in 65 \<le> n \<and> n \<le> 90)"

definition is_consonant :: "char \<Rightarrow> bool" where
  "is_consonant c \<longleftrightarrow> c \<in> set ''BCDFGHJKLMNPQRSTVWXYZ''"

definition is_alnum :: "char \<Rightarrow> bool" where
  "is_alnum c \<longleftrightarrow> is_upper c \<or> is_dec c"

text \<open>A pattern of fixed length: one class of characters per position.\<close>

definition matches :: "(char \<Rightarrow> bool) list \<Rightarrow> string \<Rightarrow> bool" where
  "matches ps s \<longleftrightarrow> list_all2 (\<lambda>p c. p c) ps s"

definition isin_pattern :: "(char \<Rightarrow> bool) list" where
  "isin_pattern = replicate 2 is_upper @ replicate 9 is_alnum @ [is_dec]"

definition cusip_pattern :: "(char \<Rightarrow> bool) list" where
  "cusip_pattern = replicate 8 (\<lambda>c. is_alnum c \<or> c \<in> set ''*@#'') @ [is_dec]"

definition sedol_pattern :: "(char \<Rightarrow> bool) list" where
  "sedol_pattern = replicate 6 (\<lambda>c. is_consonant c \<or> is_dec c) @ [is_dec]"

definition figi_pattern :: "(char \<Rightarrow> bool) list" where
  "figi_pattern = replicate 2 is_consonant @ [\<lambda>c. c = CHR ''G''] @ replicate 8 (\<lambda>c. is_consonant c \<or> is_dec c) @ [is_dec]"

fun has_syntax :: "id_type \<Rightarrow> string \<Rightarrow> bool" where
  "has_syntax ISIN s \<longleftrightarrow> matches isin_pattern s"
| "has_syntax CUSIP s \<longleftrightarrow> matches cusip_pattern s"
| "has_syntax SEDOL s \<longleftrightarrow> matches sedol_pattern s"
| "has_syntax FIGI s \<longleftrightarrow> take 2 s \<notin> {''BS'', ''BM'', ''GG'', ''GB'', ''VG''} \<and> matches figi_pattern s"
| "has_syntax TICKER s \<longleftrightarrow> False"

section \<open>Check digits\<close>

definition char_value :: "char \<Rightarrow> int" where
  "char_value c = (if is_dec c then of_char c - 48 else of_char c - 55)"

definition cusip_value :: "char \<Rightarrow> int" where
  "cusip_value c = (if c = CHR ''*'' then 36 else if c = CHR ''@'' then 37 else if c = CHR ''#'' then 38 else char_value c)"

definition digit_sum :: "int \<Rightarrow> int" where
  "digit_sum v = v div 10 + v mod 10"

text \<open>The digits of \<open>str(v)\<close> for a value below 100.\<close>

definition expand_value :: "int \<Rightarrow> int list" where
  "expand_value v = (if v < 10 then [v] else [v div 10, v mod 10])"

fun luhn_sum :: "nat \<Rightarrow> int list \<Rightarrow> int" where
  "luhn_sum i [] = 0"
| "luhn_sum i (d # ds) = (if i mod 2 = 1 then digit_sum (d * 2) else d) + luhn_sum (Suc i) ds"

definition clean_id :: "string \<Rightarrow> string" where
  "clean_id s = py_upper (py_strip s)"

definition validate_isin_checksum :: "string \<Rightarrow> bool" where
  "validate_isin_checksum s =
     (let clean = clean_id s in
      if \<not> has_syntax ISIN clean then False
      else luhn_sum 0 (rev (concat (map (\<lambda>c. expand_value (char_value c)) clean))) mod 10 = 0)"

text \<open>Every second value doubled, the digits of each summed.\<close>

fun double_add_double :: "nat \<Rightarrow> int list \<Rightarrow> int" where
  "double_add_double i [] = 0"
| "double_add_double i (v # vs) = digit_sum (if i mod 2 = 1 then v * 2 else v) + double_add_double (Suc i) vs"

text \<open>The digit that brings a total to a multiple of ten.\<close>

definition complement_digit :: "int \<Rightarrow> int" where
  "complement_digit s = (10 - (s mod 10)) mod 10"

definition validate_cusip_checksum :: "string \<Rightarrow> bool" where
  "validate_cusip_checksum s =
     (let clean = clean_id s in
      if \<not> has_syntax CUSIP clean then False
      else complement_digit (double_add_double 0 (map cusip_value (take 8 clean))) = char_value (clean ! 8))"

definition SEDOL_WEIGHTS :: "int list" where
  "SEDOL_WEIGHTS = [1, 3, 1, 7, 3, 9]"

definition validate_sedol_checksum :: "string \<Rightarrow> bool" where
  "validate_sedol_checksum s =
     (let clean = clean_id s in
      if \<not> has_syntax SEDOL clean then False
      else complement_digit (sum_list (map2 (\<lambda>c w. char_value c * w) clean SEDOL_WEIGHTS)) = char_value (clean ! 6))"

definition validate_figi_checksum :: "string \<Rightarrow> bool" where
  "validate_figi_checksum s =
     (let clean = clean_id s in
      if \<not> has_syntax FIGI clean then False
      else complement_digit (double_add_double 0 (map char_value (take 11 clean))) = char_value (clean ! 11))"

text \<open>The validator of each type; a ticker has none.\<close>

fun validator :: "id_type \<Rightarrow> string \<Rightarrow> bool" where
  "validator ISIN s = validate_isin_checksum s"
| "validator FIGI s = validate_figi_checksum s"
| "validator CUSIP s = validate_cusip_checksum s"
| "validator SEDOL s = validate_sedol_checksum s"
| "validator TICKER s = True"

section \<open>The security master\<close>

record security =
  sm_isin :: string
  sm_cusip :: string
  sm_sedol :: string
  sm_figi :: string
  sm_ticker :: string
  sm_name :: string
  sm_country :: string

fun id_field :: "id_type \<Rightarrow> security \<Rightarrow> string" where
  "id_field ISIN r = sm_isin r"
| "id_field CUSIP r = sm_cusip r"
| "id_field SEDOL r = sm_sedol r"
| "id_field FIGI r = sm_figi r"
| "id_field TICKER r = sm_ticker r"

type_synonym entry = "nat \<times> security"

type_synonym indexes = "(id_type, (string, entry) py_dict) py_dict"

datatype master_problem = Empty_ticker nat | Bad_check_digit nat id_type string | Duplicate_identifier nat id_type string

record xref_engine =
  xe_master :: "entry list"
  xe_indexes :: indexes
  xe_problems :: "master_problem list"

definition default_master_records :: "security list" where
  "default_master_records =
     [\<lparr>sm_isin = ''US0378331005'', sm_cusip = ''037833100'', sm_sedol = ''2046251'', sm_figi = ''BBG000B9XRY4'',
       sm_ticker = ''AAPL'', sm_name = ''Apple Inc'', sm_country = ''US''\<rparr>,
      \<lparr>sm_isin = ''US5949181045'', sm_cusip = ''594918104'', sm_sedol = ''2588173'', sm_figi = ''BBG000BPH459'',
       sm_ticker = ''MSFT'', sm_name = ''Microsoft Corp'', sm_country = ''US''\<rparr>,
      \<lparr>sm_isin = ''US30303M1027'', sm_cusip = ''30303M102'', sm_sedol = ''B7TL820'', sm_figi = ''BBG000MM2P62'',
       sm_ticker = ''META'', sm_name = ''Meta Platforms Inc - Class A'', sm_country = ''US''\<rparr>]"

definition empty_indexes :: indexes where
  "empty_indexes = [(ISIN, []), (CUSIP, []), (SEDOL, []), (FIGI, []), (TICKER, [])]"

definition index_of :: "indexes \<Rightarrow> id_type \<Rightarrow> (string, entry) py_dict" where
  "index_of ix t = (case py_get ix t of Some d \<Rightarrow> d | None \<Rightarrow> [])"

text \<open>One field of one record: checked, then indexed unless another object holds its value.\<close>

definition index_field :: "nat \<Rightarrow> entry \<Rightarrow> id_type \<Rightarrow> master_problem list \<times> indexes \<Rightarrow> master_problem list \<times> indexes" where
  "index_field position e t st =
     (let (problems, ix) = st; v = clean_id (id_field t (snd e)) in
      if v = '''' then st
      else
        (let problems1 = (if t \<noteq> TICKER \<and> \<not> validator t v then problems @ [Bad_check_digit position t v] else problems)
         in case py_get (index_of ix t) v of
              Some incumbent \<Rightarrow>
                (if fst incumbent \<noteq> fst e then (problems1 @ [Duplicate_identifier position t v], ix)
                 else (problems1, py_set ix t (py_set (index_of ix t) v e)))
            | None \<Rightarrow> (problems1, py_set ix t (py_set (index_of ix t) v e))))"

definition index_record :: "nat \<Rightarrow> entry \<Rightarrow> master_problem list \<times> indexes \<Rightarrow> master_problem list \<times> indexes" where
  "index_record position e st =
     (let (problems, ix) = st;
          st1 = ((if py_strip (sm_ticker (snd e)) = '''' then problems @ [Empty_ticker position] else problems), ix)
      in fold (index_field position e) [ISIN, CUSIP, SEDOL, FIGI, TICKER] st1)"

fun build_indexes :: "nat \<Rightarrow> entry list \<Rightarrow> master_problem list \<times> indexes \<Rightarrow> master_problem list \<times> indexes" where
  "build_indexes position [] st = st"
| "build_indexes position (e # es) st = build_indexes (Suc position) es (index_record position e st)"

definition make_xref_engine :: "entry list option \<Rightarrow> bool \<Rightarrow> master_problem list + xref_engine" where
  "make_xref_engine records strict_validation =
     (let master = (case records of None \<Rightarrow> enumerate 0 default_master_records | Some es \<Rightarrow> es);
          (problems, ix) = build_indexes 0 master ([], empty_indexes)
      in if problems \<noteq> [] \<and> strict_validation then Inl problems
         else Inr \<lparr>xe_master = master, xe_indexes = ix, xe_problems = problems\<rparr>)"

section \<open>Classification and lookup\<close>

definition strip_separators :: "string \<Rightarrow> string" where
  "strip_separators s = filter (\<lambda>c. \<not> is_space c \<and> c \<noteq> CHR ''-'') s"

definition classify_identifier :: "string \<Rightarrow> id_type list \<times> id_type list" where
  "classify_identifier s =
     (let i = strip_separators (clean_id s);
          syntactic = filter (\<lambda>t. has_syntax t i) CLASSIFICATION_PRIORITY
      in (filter (\<lambda>t. validator t i) syntactic, syntactic))"

record xref_report =
  xr_query :: string
  xr_type :: id_type
  xr_checksum_valid :: bool
  xr_matched :: "entry option"
  xr_status :: xref_status
  xr_applied :: bool
  xr_candidates :: "id_type list"

definition reject_identifier :: "string \<Rightarrow> id_type \<Rightarrow> id_type list \<Rightarrow> xref_report" where
  "reject_identifier i t candidates = \<lparr>xr_query = i, xr_type = t, xr_checksum_valid = False, xr_matched = None,
     xr_status = INVALID_CHECKSUM, xr_applied = True, xr_candidates = candidates\<rparr>"

definition resolve_identifier :: "xref_engine \<Rightarrow> string \<Rightarrow> id_type \<Rightarrow> bool \<Rightarrow> id_type list \<Rightarrow> xref_report" where
  "resolve_identifier E i t applied candidates =
     (let found = py_get (index_of (xe_indexes E) t) i in
      \<lparr>xr_query = i, xr_type = t, xr_checksum_valid = True, xr_matched = found,
       xr_status = (if found \<noteq> None then MATCH_FOUND else IDENTIFIER_NOT_FOUND), xr_applied = applied,
       xr_candidates = candidates\<rparr>)"

text \<open>A blank query or an unknown type is a \<open>ValueError\<close>.\<close>

definition lookup_identifier :: "xref_engine \<Rightarrow> string \<Rightarrow> string option \<Rightarrow> unit + xref_report" where
  "lookup_identifier E query type_name =
     (let raw = clean_id query; compact = strip_separators raw in
      if raw = '''' then Inl ()
      else case type_name of
        Some n \<Rightarrow>
          (case parse_id_type n of
             None \<Rightarrow> Inl ()
           | Some TICKER \<Rightarrow> Inr (resolve_identifier E raw TICKER False [])
           | Some t \<Rightarrow> Inr (if validator t compact then resolve_identifier E compact t True [t]
                           else reject_identifier compact t [t]))
      | None \<Rightarrow>
          (let (validated, syntactic) = classify_identifier compact in
           if validated \<noteq> [] then
             (case find (\<lambda>t. py_get (index_of (xe_indexes E) t) compact \<noteq> None) validated of
                Some t \<Rightarrow> Inr (resolve_identifier E compact t True validated)
              | None \<Rightarrow> Inr (resolve_identifier E compact (hd validated) True validated))
           else if syntactic \<noteq> [] then Inr (reject_identifier compact (hd syntactic) syntactic)
           else Inr (resolve_identifier E raw TICKER False [])))"

end
