(* ===== verification/Check_Digits.thy ===== *)
theory Check_Digits
  imports Text_Laws Security_Ids
begin

text \<open>
  The four check digits as weighted totals. A character of an identifier contributes to a
  total by its place; the identifier is valid when the total is a multiple of ten. For ISIN
  the place is counted in expanded digits from the right.
\<close>

section \<open>Cleaning\<close>

lemma strip_clean: "py_strip (clean_id s) = clean_id s"
  by (simp add: clean_id_def strip_upper)

text \<open>A digit inside a text splits the cleaning in two.\<close>

lemma strip_middle:
  assumes "\<not> is_space c"
  shows "py_strip (xs @ c # ys) = dropWhile is_space xs @ c # rev (dropWhile is_space (rev ys))"
proof -
  have 1: "dropWhile is_space (xs @ c # ys) = dropWhile is_space xs @ c # ys"
    using assms by (induction xs) auto
  have 2: "dropWhile is_space (rev ys @ c # zs) = dropWhile is_space (rev ys) @ c # zs" for zs
    using assms by (induction "rev ys" arbitrary: ys) (auto simp: dropWhile_append)
  show ?thesis unfolding py_strip_def 1 by (simp add: 2)
qed

lemma upper_dec: "is_dec c \<Longrightarrow> upper_char c = [c]"
  by (auto simp: is_dec_def upper_char_def Let_def)

lemma clean_middle:
  obtains A B where "\<And>c. is_dec c \<Longrightarrow> clean_id (xs @ c # ys) = A @ c # B"
proof
  fix c
  assume "is_dec c"
  then show "clean_id (xs @ c # ys) = py_upper (dropWhile is_space xs) @ c # py_upper (rev (dropWhile is_space (rev ys)))"
    by (simp add: clean_id_def strip_middle is_dec_not_space py_upper_def upper_dec)
qed

section \<open>Syntax\<close>

definition id_char :: "char \<Rightarrow> bool" where
  "id_char c \<longleftrightarrow> is_upper c \<or> is_dec c \<or> c \<in> set ''*@#''"

lemma id_char_solid: "id_char c \<Longrightarrow> \<not> is_space c \<and> upper_char c = [c] \<and> c \<noteq> CHR ''-''"
  by (auto simp: id_char_def is_upper_def is_dec_def is_space_def upper_char_def Let_def)

lemma consonant_upper: "is_consonant c \<Longrightarrow> is_upper c"
  by (auto simp: is_consonant_def is_upper_def)

lemma matches_last: "matches (ps @ [p]) (body @ [c]) \<longleftrightarrow> matches ps body \<and> p c"
proof (cases "length ps = length body")
  case True
  then show ?thesis by (simp add: matches_def list_all2_append)
next
  case False
  then show ?thesis by (auto simp: matches_def dest: list_all2_lengthD)
qed

lemma matches_length: "matches ps s \<Longrightarrow> length s = length ps"
  by (auto simp: matches_def dest: list_all2_lengthD)

lemma matches_all: "matches ps s \<Longrightarrow> (\<And>p c. p \<in> set ps \<Longrightarrow> p c \<Longrightarrow> Q c) \<Longrightarrow> list_all Q s"
  unfolding matches_def by (induction rule: list_all2_induct) auto

lemma class_chars:
  "is_upper c \<Longrightarrow> id_char c" "is_dec c \<Longrightarrow> id_char c" "is_alnum c \<Longrightarrow> id_char c" "is_consonant c \<Longrightarrow> id_char c"
  "c \<in> set ''*@#'' \<Longrightarrow> id_char c"
  using consonant_upper[of c] by (auto simp: id_char_def is_alnum_def)

lemma special_chars: "id_char CHR ''*''" "id_char CHR ''@''" "id_char CHR ''#''" "id_char CHR ''G''"
  by code_simp+

lemma syntax_chars: "has_syntax t s \<Longrightarrow> list_all id_char s"
  by (cases t) (auto simp: isin_pattern_def cusip_pattern_def sedol_pattern_def figi_pattern_def
      intro: special_chars dest: class_chars elim!: matches_all)

lemma clean_syntax:
  assumes "has_syntax t s"
  shows "clean_id s = s" "strip_separators s = s"
proof -
  have chars: "list_all id_char s" by (rule syntax_chars[OF assms])
  then have "list_all (\<lambda>c. \<not> is_space c) s" using id_char_solid by (auto simp: list_all_iff)
  then have "py_strip s = s" by (rule strip_solid)
  moreover have "py_upper s = s" using chars by (induction s) (auto simp: py_upper_def dest: id_char_solid)
  ultimately show "clean_id s = s" by (simp add: clean_id_def)
  show "strip_separators s = s" using chars id_char_solid by (auto simp: strip_separators_def list_all_iff filter_id_conv)
qed

definition id_length :: "id_type \<Rightarrow> nat" where
  "id_length t = (case t of ISIN \<Rightarrow> 12 | CUSIP \<Rightarrow> 9 | SEDOL \<Rightarrow> 7 | FIGI \<Rightarrow> 12 | TICKER \<Rightarrow> 0)"

lemma syntax_length: "has_syntax t s \<Longrightarrow> length s = id_length t"
  by (cases t) (auto simp: isin_pattern_def cusip_pattern_def sedol_pattern_def figi_pattern_def id_length_def
      dest!: matches_length)

text \<open>The last place is the check digit's, and any digit may stand there.\<close>

definition body_pattern :: "id_type \<Rightarrow> (char \<Rightarrow> bool) list" where
  "body_pattern t = (case t of
     ISIN \<Rightarrow> replicate 2 is_upper @ replicate 9 is_alnum
   | CUSIP \<Rightarrow> replicate 8 (\<lambda>c. is_alnum c \<or> c \<in> set ''*@#'')
   | SEDOL \<Rightarrow> replicate 6 (\<lambda>c. is_consonant c \<or> is_dec c)
   | FIGI \<Rightarrow> replicate 2 is_consonant @ [\<lambda>c. c = CHR ''G''] @ replicate 8 (\<lambda>c. is_consonant c \<or> is_dec c)
   | TICKER \<Rightarrow> [])"

lemma pattern_body:
  "isin_pattern = body_pattern ISIN @ [is_dec]" "cusip_pattern = body_pattern CUSIP @ [is_dec]"
  "sedol_pattern = body_pattern SEDOL @ [is_dec]" "figi_pattern = body_pattern FIGI @ [is_dec]"
  by (simp_all add: body_pattern_def isin_pattern_def cusip_pattern_def sedol_pattern_def figi_pattern_def)

lemma syntax_last_dec: "has_syntax t (body @ [c]) \<Longrightarrow> is_dec c"
  by (cases t) (auto simp: pattern_body matches_last)

lemma syntax_last_any:
  assumes "has_syntax t (body @ [c])" "is_dec d"
  shows "has_syntax t (body @ [d])"
proof -
  have "length body > 1 \<or> t = TICKER" using syntax_length[OF assms(1)] by (cases t) (simp_all add: id_length_def)
  with assms show ?thesis by (cases t) (auto simp: pattern_body matches_last)
qed

section \<open>Totals by place\<close>

definition doubled :: "int \<Rightarrow> int" where
  "doubled v = digit_sum (v * 2)"

fun contribution :: "id_type \<Rightarrow> nat \<Rightarrow> char \<Rightarrow> int" where
  "contribution CUSIP i c = (if i = 8 then char_value c else digit_sum (if i mod 2 = 1 then cusip_value c * 2 else cusip_value c))"
| "contribution SEDOL i c = char_value c * ([1, 3, 1, 7, 3, 9, 1] ! i)"
| "contribution FIGI i c = (if i = 11 then char_value c else digit_sum (if i mod 2 = 1 then char_value c * 2 else char_value c))"
| "contribution _ i c = 0"

definition place_total :: "id_type \<Rightarrow> string \<Rightarrow> int" where
  "place_total t s = (\<Sum>i<length s. contribution t i (s ! i))"

lemma double_add_double_sum:
  "double_add_double k vs = (\<Sum>i<length vs. digit_sum (if (k + i) mod 2 = 1 then vs ! i * 2 else vs ! i))"
proof (induction vs arbitrary: k)
  case (Cons v vs)
  have "(\<Sum>i<length (v # vs). digit_sum (if (k + i) mod 2 = 1 then (v # vs) ! i * 2 else (v # vs) ! i)) =
      digit_sum (if k mod 2 = 1 then v * 2 else v) +
      (\<Sum>i<length vs. digit_sum (if (Suc k + i) mod 2 = 1 then vs ! i * 2 else vs ! i))"
    unfolding length_Cons sum.lessThan_Suc_shift by (simp cong: if_cong)
  then show ?case using Cons by simp
qed simp

lemma place_total_Suc:
  "length s = Suc n \<Longrightarrow> place_total t s = (\<Sum>i<n. contribution t i (s ! i)) + contribution t n (s ! n)"
  by (simp add: place_total_def)

lemma double_total:
  assumes "n \<le> length s" "\<And>i. i < n \<Longrightarrow> contribution t i (s ! i) = digit_sum (if i mod 2 = 1 then f (s ! i) * 2 else f (s ! i))"
  shows "(\<Sum>i<n. contribution t i (s ! i)) = double_add_double 0 (map f (take n s))"
proof -
  have "length (map f (take n s)) = n" using assms(1) by simp
  then show ?thesis unfolding double_add_double_sum using assms by (auto intro!: sum.cong)
qed

lemma complement_iff:
  assumes "0 \<le> v" "v \<le> 9"
  shows "complement_digit T = v \<longleftrightarrow> (T + v) mod 10 = 0"
proof -
  define r where "r = T mod 10"
  have r: "0 \<le> r" "r \<le> 9" by (simp_all add: r_def)
  have sum: "(T + v) mod 10 = (r + v) mod 10" unfolding r_def by (simp only: mod_add_left_eq)
  have c: "complement_digit T = (if r = 0 then 0 else 10 - r)"
  proof (cases "r = 0")
    case False
    with r have "(10 - r) mod 10 = 10 - r" by (intro mod_pos_pos_trivial) auto
    with False show ?thesis by (simp only: complement_digit_def r_def[symmetric] if_False)
  qed (simp add: complement_digit_def r_def)
  show ?thesis
  proof (cases "r + v < 10")
    case True
    then have "(r + v) mod 10 = r + v" using r assms by (intro mod_pos_pos_trivial) auto
    with True show ?thesis unfolding sum c using r assms by auto
  next
    case False
    have "(r + v) mod 10 = (r + v - 10) mod 10" by (simp only: minus_mod_self2)
    also have "\<dots> = r + v - 10" using False r assms by (intro mod_pos_pos_trivial) auto
    finally have e: "(r + v) mod 10 = r + v - 10" .
    show ?thesis unfolding sum c e using False r assms by auto
  qed
qed

lemma move_mod: "x = y + p - q \<Longrightarrow> x mod 10 = y mod 10 \<Longrightarrow> p mod 10 = q mod 10" for x y p q :: int
  by (simp add: mod_eq_dvd_iff)

lemma dec_char_value: "is_dec c \<Longrightarrow> 0 \<le> char_value c \<and> char_value c \<le> 9"
  by (simp add: char_value_def is_dec_def Let_def)

lemma last_place:
  assumes "has_syntax t s" "id_length t = Suc n"
  shows "length s = Suc n" "is_dec (s ! n)" "s = take n s @ [s ! n]"
proof -
  show l: "length s = Suc n" using syntax_length[OF assms(1)] assms(2) by simp
  then show e: "s = take n s @ [s ! n]" by (simp add: take_Suc_conv_app_nth[symmetric])
  show "is_dec (s ! n)" by (rule syntax_last_dec[of t "take n s"]) (use assms(1) e in simp)
qed

lemma validator_place:
  assumes "t \<in> {CUSIP, SEDOL, FIGI}"
  shows "validator t s \<longleftrightarrow> has_syntax t (clean_id s) \<and> place_total t (clean_id s) mod 10 = 0"
proof (cases "has_syntax t (clean_id s)")
  case False
  with assms show ?thesis
    by (auto simp: validate_cusip_checksum_def validate_sedol_checksum_def validate_figi_checksum_def Let_def)
next
  case True
  let ?s = "clean_id s"
  consider "t = CUSIP" | "t = SEDOL" | "t = FIGI" using assms by auto
  then show ?thesis
  proof cases
    case 1
    note l = last_place[OF True, of 8]
    have "place_total CUSIP ?s = double_add_double 0 (map cusip_value (take 8 ?s)) + char_value (?s ! 8)"
      using l 1 double_total[of 8 ?s CUSIP cusip_value] by (simp add: place_total_Suc id_length_def)
    with True 1 l dec_char_value show ?thesis
      by (simp add: validate_cusip_checksum_def Let_def complement_iff id_length_def)
  next
    case 2
    note l = last_place[OF True, of 6]
    have "length ?s = 7" using l 2 by (simp add: id_length_def)
    then obtain a b c d e f g where s: "?s = [a, b, c, d, e, f, g]"
      by (auto simp: eval_nat_numeral length_Suc_conv)
    have "place_total SEDOL ?s = sum_list (map2 (\<lambda>c w. char_value c * w) ?s SEDOL_WEIGHTS) + char_value (?s ! 6)"
      by (simp add: place_total_def s SEDOL_WEIGHTS_def eval_nat_numeral)
    with True 2 l dec_char_value show ?thesis
      by (simp add: validate_sedol_checksum_def Let_def complement_iff id_length_def)
  next
    case 3
    note l = last_place[OF True, of 11]
    have "place_total FIGI ?s = double_add_double 0 (map char_value (take 11 ?s)) + char_value (?s ! 11)"
      using l 3 double_total[of 11 ?s FIGI char_value] by (simp add: place_total_Suc id_length_def)
    with True 3 l dec_char_value show ?thesis
      by (simp add: validate_figi_checksum_def Let_def complement_iff id_length_def)
  qed
qed

text \<open>One character of a total.\<close>

lemma place_total_middle:
  "place_total t (A @ c # B) = place_total t (A @ d # B) + contribution t (length A) c - contribution t (length A) d"
proof -
  let ?n = "length (A @ c # B)" let ?k = "length A"
  have k: "?k < ?n" by simp
  have split: "place_total t (A @ x # B) = contribution t ?k x + (\<Sum>i\<in>{..<?n} - {?k}. contribution t i ((A @ x # B) ! i))" for x
    unfolding place_total_def using k by (subst sum.remove[of _ ?k]) simp_all
  have "(\<Sum>i\<in>{..<?n} - {?k}. contribution t i ((A @ c # B) ! i)) = (\<Sum>i\<in>{..<?n} - {?k}. contribution t i ((A @ d # B) ! i))"
    by (rule sum.cong) (auto simp: nth_append nth_Cons')
  then show ?thesis by (simp add: split)
qed

section \<open>The Luhn total of an ISIN\<close>

definition isin_digits :: "string \<Rightarrow> int list" where
  "isin_digits s = concat (map (\<lambda>c. expand_value (char_value c)) s)"

lemma luhn_append: "luhn_sum k (xs @ ys) = luhn_sum k xs + luhn_sum (k + length xs) ys"
  by (induction xs arbitrary: k) auto

lemma validator_isin:
  "validator ISIN s \<longleftrightarrow> has_syntax ISIN (clean_id s) \<and> luhn_sum 0 (rev (isin_digits (clean_id s))) mod 10 = 0"
  by (simp add: validate_isin_checksum_def Let_def isin_digits_def)

text \<open>A digit contributes itself or its double, by the parity of the digits to its right.\<close>

definition isin_place :: "string \<Rightarrow> int \<Rightarrow> int" where
  "isin_place B v = (if length (isin_digits B) mod 2 = 1 then doubled v else v)"

lemma isin_middle:
  assumes "is_dec c" "is_dec d"
  shows "luhn_sum 0 (rev (isin_digits (A @ c # B))) =
    luhn_sum 0 (rev (isin_digits (A @ d # B))) + isin_place B (char_value c) - isin_place B (char_value d)"
proof -
  have "luhn_sum 0 (rev (isin_digits (A @ x # B))) = luhn_sum 0 (rev (isin_digits B)) + isin_place B (char_value x) +
      luhn_sum (Suc (length (isin_digits B))) (rev (isin_digits A))" if "is_dec x" for x
    using dec_char_value[OF that]
    by (simp add: isin_digits_def luhn_append expand_value_def isin_place_def doubled_def)
  with assms show ?thesis by simp
qed

section \<open>Digits are told apart\<close>

definition digit_values :: "int list" where
  "digit_values = [0, 1, 2, 3, 4, 5, 6, 7, 8, 9]"

lemma digit_values_iff: "0 \<le> a \<Longrightarrow> a \<le> 9 \<Longrightarrow> a \<in> set digit_values"
  unfolding digit_values_def by (simp, presburger)

lemma doubled_inj:
  assumes "0 \<le> a" "a \<le> 9" "0 \<le> b" "b \<le> 9" "doubled a mod 10 = doubled b mod 10"
  shows "a = b"
proof -
  have "list_all (\<lambda>a. list_all (\<lambda>b. doubled a mod 10 = doubled b mod 10 \<longrightarrow> a = b) digit_values) digit_values" by code_simp
  with digit_values_iff[OF assms(1,2)] digit_values_iff[OF assms(3,4)] assms(5) show ?thesis
    unfolding list_all_iff by blast
qed

lemma weight_inj:
  fixes a b w :: int
  assumes "0 \<le> a" "a \<le> 9" "0 \<le> b" "b \<le> 9" "w \<in> set [1, 3, 7, 9]" "a * w mod 10 = b * w mod 10"
  shows "a = b"
proof -
  have "list_all (\<lambda>w. list_all (\<lambda>a. list_all (\<lambda>b. a * w mod 10 = b * w mod 10 \<longrightarrow> a = b) digit_values) digit_values)
    [1, 3, 7, 9 :: int]" by code_simp
  with digit_values_iff[OF assms(1,2)] digit_values_iff[OF assms(3,4)] assms(5,6) show ?thesis
    unfolding list_all_iff by blast
qed

lemma dec_value_inj: "is_dec c \<Longrightarrow> is_dec d \<Longrightarrow> char_value c = char_value d \<Longrightarrow> c = d"
  by (simp add: char_value_def)

lemma dec_cusip: "is_dec c \<Longrightarrow> cusip_value c = char_value c"
  by (auto simp: cusip_value_def is_dec_def)

lemma small_mod: "0 \<le> a \<Longrightarrow> a \<le> 9 \<Longrightarrow> a mod 10 = (a :: int)"
  by (rule mod_pos_pos_trivial) auto

text \<open>A digit counted once or doubled.\<close>

definition digit_weight :: "bool \<Rightarrow> int \<Rightarrow> int" where
  "digit_weight m v = (if m then doubled v else v)"

lemma digit_weight_inj:
  assumes "is_dec c" "is_dec d" "digit_weight m (char_value c) mod 10 = digit_weight m (char_value d) mod 10"
  shows "c = d"
proof -
  note v = dec_char_value[OF assms(1)] dec_char_value[OF assms(2)]
  have "char_value c = char_value d"
  proof (cases m)
    case True
    then have "doubled (char_value c) mod 10 = doubled (char_value d) mod 10"
      using assms(3) by (simp only: digit_weight_def if_True)
    with v show ?thesis using doubled_inj by blast
  next
    case False
    then have "char_value c mod 10 = char_value d mod 10"
      using assms(3) by (simp only: digit_weight_def if_False)
    with v show ?thesis using small_mod by metis
  qed
  then show ?thesis by (rule dec_value_inj[OF assms(1,2)])
qed

lemma digit_sum_small: "0 \<le> a \<Longrightarrow> a \<le> 9 \<Longrightarrow> digit_sum a = a"
  by (simp add: digit_sum_def)

lemma contribution_weight:
  assumes "t = CUSIP \<or> t = FIGI"
  obtains m where "\<And>x. is_dec x \<Longrightarrow> contribution t i x = digit_weight m (char_value x)"
proof
  fix x
  assume x: "is_dec x"
  note v = dec_char_value[OF x]
  show "contribution t i x = digit_weight (i \<noteq> id_length t - 1 \<and> i mod 2 = 1) (char_value x)"
    using assms
  proof
    assume "t = CUSIP"
    then show ?thesis using v by (cases "i mod 2 = 1") (simp_all add: digit_weight_def doubled_def digit_sum_small dec_cusip[OF x] id_length_def)
  next
    assume "t = FIGI"
    then show ?thesis using v by (cases "i mod 2 = 1") (simp_all add: digit_weight_def doubled_def digit_sum_small id_length_def)
  qed
qed

lemma contribution_inj:
  assumes "t \<in> {CUSIP, SEDOL, FIGI}" "i < id_length t" "is_dec c" "is_dec d"
    and "contribution t i c mod 10 = contribution t i d mod 10"
  shows "c = d"
proof (cases "t = SEDOL")
  case True
  note v = dec_char_value[OF assms(3)] dec_char_value[OF assms(4)]
  let ?ws = "[1, 3, 1, 7, 3, 9, 1] :: int list"
  from True have "i < length ?ws" using assms(2) by (simp add: id_length_def)
  then have "?ws ! i \<in> set ?ws" by (rule nth_mem)
  also have "set ?ws = set [1, 3, 7, 9]" by auto
  finally have w: "?ws ! i \<in> set [1, 3, 7, 9]" .
  have "char_value c * ?ws ! i mod 10 = char_value d * ?ws ! i mod 10"
    using assms(5) unfolding True contribution.simps .
  then have "char_value c = char_value d" using weight_inj[OF _ _ _ _ w] v by blast
  then show ?thesis by (rule dec_value_inj[OF assms(3,4)])
next
  case False
  with assms(1) have "t = CUSIP \<or> t = FIGI" by auto
  then obtain m where "\<And>x. is_dec x \<Longrightarrow> contribution t i x = digit_weight m (char_value x)"
    by (rule contribution_weight[where i = i]) blast
  with assms(3-5) show ?thesis using digit_weight_inj by metis
qed

lemma isin_place_inj:
  "is_dec c \<Longrightarrow> is_dec d \<Longrightarrow> isin_place B (char_value c) mod 10 = isin_place B (char_value d) mod 10 \<Longrightarrow> c = d"
  using digit_weight_inj[where m = "length (isin_digits B) mod 2 = 1"] by (simp add: digit_weight_def isin_place_def)

text \<open>For every type the total moves with a digit by something that tells two digits apart.\<close>

definition id_total :: "id_type \<Rightarrow> string \<Rightarrow> int" where
  "id_total t s = (if t = ISIN then luhn_sum 0 (rev (isin_digits s)) else place_total t s)"

lemma validator_total:
  "t \<noteq> TICKER \<Longrightarrow> validator t s \<longleftrightarrow> has_syntax t (clean_id s) \<and> id_total t (clean_id s) mod 10 = 0"
proof (cases "t = ISIN")
  case True
  then show ?thesis unfolding True id_total_def validator_isin by simp
next
  case False
  assume "t \<noteq> TICKER"
  with False have "t \<in> {CUSIP, SEDOL, FIGI}" by (cases t) auto
  from validator_place[OF this] False show ?thesis by (simp only: id_total_def if_False)
qed

lemma digit_moves_total:
  assumes "t \<noteq> TICKER" "has_syntax t (A @ c # B)" "is_dec c" "is_dec d"
    and same: "id_total t (A @ c # B) mod 10 = id_total t (A @ d # B) mod 10"
  shows "c = d"
proof (cases "t = ISIN")
  case True
  have "id_total t (A @ c # B) = id_total t (A @ d # B) + isin_place B (char_value c) - isin_place B (char_value d)"
    using isin_middle[OF assms(3,4), of A B] True by (simp add: id_total_def)
  then have "isin_place B (char_value c) mod 10 = isin_place B (char_value d) mod 10" by (rule move_mod) (rule same)
  then show ?thesis by (rule isin_place_inj[OF assms(3,4)])
next
  case False
  with assms(1) have t: "t \<in> {CUSIP, SEDOL, FIGI}" by (cases t) auto
  have "id_total t (A @ c # B) = id_total t (A @ d # B) + contribution t (length A) c - contribution t (length A) d"
    using place_total_middle[of t A c B d] False by (simp add: id_total_def)
  then have "contribution t (length A) c mod 10 = contribution t (length A) d mod 10" by (rule move_mod) (rule same)
  moreover have "length A < id_length t" using syntax_length[OF assms(2)] by simp
  ultimately show ?thesis using contribution_inj[OF t _ assms(3,4)] by blast
qed

end
