(* ===== verification/Security_Master.thy ===== *)
theory Security_Master
  imports Check_Digits
begin

text \<open>
  What the indexes of a security master hold after it is built, and when the build finds
  nothing to report.
\<close>

section \<open>Cleaned values\<close>

lemma clean_clean [simp]: "clean_id (clean_id s) = clean_id s"
  using strip_clean[of s] by (simp add: clean_id_def upper_upper)

lemma validator_compact: "t \<noteq> TICKER \<Longrightarrow> validator t (clean_id s) \<Longrightarrow> strip_separators (clean_id s) = clean_id s"
  using clean_syntax(2)[of t "clean_id s"] by (simp add: validator_total)

lemma validator_solid: "t \<noteq> TICKER \<Longrightarrow> validator t s \<Longrightarrow> s \<noteq> ''''"
proof
  assume "t \<noteq> TICKER" "validator t s" "s = ''''"
  then have "has_syntax t ''''" using validator_total[of t s] by (simp add: clean_id_def py_upper_def)
  from syntax_length[OF this] \<open>t \<noteq> TICKER\<close> show False by (cases t) (auto simp: id_length_def)
qed

section \<open>The first record that carries a value\<close>

definition cleaned :: "id_type \<Rightarrow> entry \<Rightarrow> string" where
  "cleaned t e = clean_id (id_field t (snd e))"

definition holder :: "entry list \<Rightarrow> id_type \<Rightarrow> string \<Rightarrow> entry option" where
  "holder es t v = (if v = '''' then None else find (\<lambda>e. cleaned t e = v) es)"

text \<open>An object has one content.\<close>

definition identities_ok :: "entry list \<Rightarrow> bool" where
  "identities_ok es \<longleftrightarrow> list_all (\<lambda>e. list_all (\<lambda>e'. fst e = fst e' \<longrightarrow> e = e') es) es"

lemma identities_okD: "identities_ok es \<Longrightarrow> e \<in> set es \<Longrightarrow> e' \<in> set es \<Longrightarrow> fst e = fst e' \<Longrightarrow> e = e'"
  by (simp add: identities_ok_def list_all_iff)

lemma identities_ok_take: "identities_ok (xs @ ys) \<Longrightarrow> identities_ok xs"
  by (auto simp: identities_ok_def list_all_iff)

lemma find_append_single: "find P (xs @ [x]) = (case find P xs of None \<Rightarrow> (if P x then Some x else None) | Some y \<Rightarrow> Some y)"
  by (induction xs) auto

lemma holder_snoc:
  "holder (es @ [e]) t v = (case holder es t v of None \<Rightarrow> (if v \<noteq> '''' \<and> cleaned t e = v then Some e else None) | Some x \<Rightarrow> Some x)"
  by (simp add: holder_def find_append_single)

lemma holder_SomeD: "holder es t v = Some e \<Longrightarrow> e \<in> set es \<and> cleaned t e = v \<and> v \<noteq> ''''"
  by (auto simp: holder_def dest: find_SomeD split: if_splits)

lemma holder_None_iff: "v \<noteq> '''' \<Longrightarrow> holder es t v = None \<longleftrightarrow> (\<forall>e\<in>set es. cleaned t e \<noteq> v)"
  by (auto simp: holder_def find_None_iff)

section \<open>One field\<close>

definition held :: "indexes \<Rightarrow> id_type \<Rightarrow> string \<Rightarrow> entry option" where
  "held ix t v = py_get (index_of ix t) v"

lemma index_of_set: "index_of (py_set ix t d) t' = (if t' = t then d else index_of ix t')"
  by (simp add: index_of_def py_get_set)

lemma held_set: "held (py_set ix t (py_set (index_of ix t) v e)) t' v' = (if t' = t \<and> v' = v then Some e else held ix t' v')"
  by (simp add: held_def index_of_set py_get_set)

definition free_for :: "entry \<Rightarrow> entry option \<Rightarrow> bool" where
  "free_for e x = (case x of None \<Rightarrow> True | Some y \<Rightarrow> fst y = fst e)"

lemma index_field_eq:
  "index_field p e t st =
    (if cleaned t e = '''' then st
     else (let ps = (if t \<noteq> TICKER \<and> \<not> validator t (cleaned t e) then fst st @ [Bad_check_digit p t (cleaned t e)] else fst st)
       in if free_for e (held (snd st) t (cleaned t e))
             then (ps, py_set (snd st) t (py_set (index_of (snd st) t) (cleaned t e) e))
             else (ps @ [Duplicate_identifier p t (cleaned t e)], snd st)))"
  unfolding index_field_def cleaned_def[symmetric] held_def[symmetric]
  by (auto simp: Let_def free_for_def split: prod.split option.split)

lemma index_field_held:
  "held (snd (index_field p e t st)) t' v' =
    (if t' = t \<and> v' \<noteq> '''' \<and> v' = cleaned t e \<and> free_for e (held (snd st) t v') then Some e else held (snd st) t' v')"
  by (auto simp: index_field_eq held_set Let_def)

lemma index_field_problems:
  "fst (index_field p e t st) = [] \<longleftrightarrow> fst st = [] \<and>
    (cleaned t e \<noteq> '''' \<longrightarrow> (t \<noteq> TICKER \<longrightarrow> validator t (cleaned t e)) \<and> free_for e (held (snd st) t (cleaned t e)))"
  by (auto simp: index_field_eq Let_def)

lemma index_fields_held:
  "distinct ts \<Longrightarrow> held (snd (fold (index_field p e) ts st)) t' v' =
    (if t' \<in> set ts \<and> v' \<noteq> '''' \<and> v' = cleaned t' e \<and> free_for e (held (snd st) t' v') then Some e else held (snd st) t' v')"
  by (induction ts arbitrary: st) (auto simp: index_field_held)

lemma index_fields_problems:
  "distinct ts \<Longrightarrow> fst (fold (index_field p e) ts st) = [] \<longleftrightarrow> fst st = [] \<and>
    (\<forall>t\<in>set ts. cleaned t e \<noteq> '''' \<longrightarrow> (t \<noteq> TICKER \<longrightarrow> validator t (cleaned t e)) \<and> free_for e (held (snd st) t (cleaned t e)))"
  by (induction ts arbitrary: st) (auto simp: index_field_problems index_field_held)

section \<open>One record\<close>

definition all_types :: "id_type list" where
  "all_types = [ISIN, CUSIP, SEDOL, FIGI, TICKER]"

lemma all_types: "distinct all_types" "t \<in> set all_types"
  by (auto simp: all_types_def) (cases t; simp)

definition record_sound :: "entry \<Rightarrow> bool" where
  "record_sound e \<longleftrightarrow> py_strip (sm_ticker (snd e)) \<noteq> '''' \<and>
     list_all (\<lambda>t. cleaned t e \<noteq> '''' \<longrightarrow> t \<noteq> TICKER \<longrightarrow> validator t (cleaned t e)) all_types"

definition clash :: "entry \<Rightarrow> entry \<Rightarrow> bool" where
  "clash e e' \<longleftrightarrow> fst e \<noteq> fst e' \<and> list_ex (\<lambda>t. cleaned t e \<noteq> '''' \<and> cleaned t e = cleaned t e') all_types"

lemma clash_iff: "clash e e' \<longleftrightarrow> fst e \<noteq> fst e' \<and> (\<exists>t. cleaned t e \<noteq> '''' \<and> cleaned t e = cleaned t e')"
  using all_types(2) by (auto simp: clash_def list_ex_iff)

definition clash_free :: "entry list \<Rightarrow> bool" where
  "clash_free es \<longleftrightarrow> list_all (\<lambda>e. list_all (\<lambda>e'. \<not> clash e e') es) es"

lemma clash_sym: "clash e e' \<longleftrightarrow> clash e' e"
  unfolding clash_iff by metis

lemma clash_free_snoc: "clash_free (es @ [e]) \<longleftrightarrow> clash_free es \<and> (\<forall>x\<in>set es. \<not> clash x e)"
  using clash_sym by (auto simp: clash_free_def list_all_iff) (auto simp: clash_iff)

text \<open>The indexes agree with the records read so far.\<close>

definition indexed_as :: "entry list \<Rightarrow> indexes \<Rightarrow> bool" where
  "indexed_as es ix \<longleftrightarrow> (\<forall>t v. held ix t v = holder es t v)"

lemma index_record_fold:
  obtains q where "index_record p e st = fold (index_field p e) all_types (q, snd st)"
    "q = [] \<longleftrightarrow> fst st = [] \<and> py_strip (sm_ticker (snd e)) \<noteq> ''''"
proof
  let ?q = "if py_strip (sm_ticker (snd e)) = '''' then fst st @ [Empty_ticker p] else fst st"
  show "index_record p e st = fold (index_field p e) all_types (?q, snd st)"
    unfolding index_record_def all_types_def Let_def by (cases st) (simp only: prod.case fst_conv snd_conv)
  show "?q = [] \<longleftrightarrow> fst st = [] \<and> py_strip (sm_ticker (snd e)) \<noteq> ''''" by simp
qed

lemma index_record_held:
  assumes "indexed_as es (snd st)" "identities_ok (es @ [e])"
  shows "indexed_as (es @ [e]) (snd (index_record p e st))"
  unfolding indexed_as_def
proof (intro allI)
  fix t v
  have old: "held (snd st) t v = holder es t v" using assms(1) by (simp add: indexed_as_def)
  have new: "held (snd (index_record p e st)) t v =
      (if v \<noteq> '''' \<and> v = cleaned t e \<and> free_for e (held (snd st) t v) then Some e else held (snd st) t v)"
    by (rule index_record_fold[of p e st]) (auto simp: index_fields_held all_types)
  show "held (snd (index_record p e st)) t v = holder (es @ [e]) t v"
  proof (cases "holder es t v")
    case None
    with old new show ?thesis
      by (auto simp: holder_snoc free_for_def)
  next
    case (Some x)
    then have "x \<in> set es" by (auto dest: holder_SomeD)
    then have "fst x = fst e \<Longrightarrow> x = e" using identities_okD[OF assms(2)] by simp
    with Some old new show ?thesis
      by (auto simp: holder_snoc free_for_def)
  qed
qed

lemma free_for_holder:
  assumes "clash_free es"
  shows "(\<forall>t. cleaned t e \<noteq> '''' \<longrightarrow> free_for e (holder es t (cleaned t e))) \<longleftrightarrow> (\<forall>x\<in>set es. \<not> clash x e)"
proof safe
  fix i r
  assume free: "\<forall>t. cleaned t e \<noteq> '''' \<longrightarrow> free_for e (holder es t (cleaned t e))"
    and x: "(i, r) \<in> set es" "clash (i, r) e"
  from x(2) obtain t where t: "cleaned t (i, r) \<noteq> ''''" "cleaned t (i, r) = cleaned t e" "i \<noteq> fst e"
    by (auto simp: clash_iff)
  then have "holder es t (cleaned t e) \<noteq> None" using x(1) holder_None_iff[of "cleaned t e" es t] by auto
  then obtain y where y: "holder es t (cleaned t e) = Some y" by blast
  with free t have "fst y = fst e" by (auto simp: free_for_def)
  with holder_SomeD[OF y] t have "clash y (i, r)" unfolding clash_iff by (intro conjI exI[of _ t]) auto
  with holder_SomeD[OF y] x(1) assms show False by (auto simp: clash_free_def list_all_iff)
next
  fix t
  assume none: "\<forall>x\<in>set es. \<not> clash x e" and solid: "cleaned t e \<noteq> ''''"
  have "fst x = fst e" if "holder es t (cleaned t e) = Some x" for x
    using holder_SomeD[OF that] none solid unfolding clash_iff by metis
  then show "free_for e (holder es t (cleaned t e))"
    by (auto simp: free_for_def split: option.split)
qed

lemma index_record_problems:
  assumes "indexed_as es (snd st)" "clash_free es"
  shows "fst (index_record p e st) = [] \<longleftrightarrow> fst st = [] \<and> record_sound e \<and> (\<forall>x\<in>set es. \<not> clash x e)"
proof -
  have "fst (index_record p e st) = [] \<longleftrightarrow> fst st = [] \<and> py_strip (sm_ticker (snd e)) \<noteq> '''' \<and>
    (\<forall>t\<in>set all_types. cleaned t e \<noteq> '''' \<longrightarrow> (t \<noteq> TICKER \<longrightarrow> validator t (cleaned t e)) \<and> free_for e (held (snd st) t (cleaned t e)))"
    by (rule index_record_fold[of p e st]) (simp add: index_fields_problems all_types(1) conj_assoc)
  also have "\<dots> \<longleftrightarrow> fst st = [] \<and> record_sound e \<and> (\<forall>t. cleaned t e \<noteq> '''' \<longrightarrow> free_for e (holder es t (cleaned t e)))"
    using assms(1) all_types(2) by (auto simp: record_sound_def list_all_iff indexed_as_def)
  finally show ?thesis unfolding free_for_holder[OF assms(2)] .
qed

lemma index_record_keeps_problems: "fst (index_record p e st) = [] \<Longrightarrow> fst st = []"
  by (rule index_record_fold[of p e st]) (simp add: index_fields_problems all_types(1))

section \<open>The whole master\<close>

lemma build_keeps_problems: "fst (build_indexes p es st) = [] \<Longrightarrow> fst st = []"
  by (induction p es st rule: build_indexes.induct) (auto dest: index_record_keeps_problems)

lemma build_held:
  "indexed_as done (snd st) \<Longrightarrow> identities_ok (done @ es) \<Longrightarrow> indexed_as (done @ es) (snd (build_indexes p es st))"
proof (induction es arbitrary: p st "done")
  case (Cons e es)
  have "identities_ok ((done @ [e]) @ es)" using Cons.prems(2) by simp
  then have "indexed_as (done @ [e]) (snd (index_record p e st))"
    using Cons.prems(1) identities_ok_take index_record_held by blast
  from Cons.IH[OF this] Cons.prems(2) show ?case by simp
qed simp

lemma build_problems:
  "indexed_as done (snd st) \<Longrightarrow> identities_ok (done @ es) \<Longrightarrow> clash_free done \<Longrightarrow>
    fst (build_indexes p es st) = [] \<longleftrightarrow> fst st = [] \<and> list_all record_sound es \<and> clash_free (done @ es)"
proof (induction es arbitrary: p st "done")
  case (Cons e es)
  have ids: "identities_ok ((done @ [e]) @ es)" using Cons.prems(2) by simp
  have ix: "indexed_as (done @ [e]) (snd (index_record p e st))"
    using Cons.prems(1) ids identities_ok_take index_record_held by blast
  note problems = index_record_problems[OF Cons.prems(1,3), of p e]
  show ?case
  proof (cases "\<forall>x\<in>set done. \<not> clash x e")
    case True
    with Cons.prems(3) have "clash_free (done @ [e])" by (simp add: clash_free_snoc)
    from Cons.IH[OF ix ids this] problems True show ?thesis by auto
  next
    case False
    then have "\<not> clash_free (done @ e # es)" by (auto simp: clash_free_def list_all_iff)
    moreover have "fst (build_indexes (Suc p) es (index_record p e st)) \<noteq> []"
      using build_keeps_problems problems False by blast
    ultimately show ?thesis by simp
  qed
qed simp

lemma empty_indexed: "indexed_as [] (snd ([], empty_indexes))"
proof -
  have "index_of empty_indexes t = []" for t by (cases t) (simp_all add: index_of_def empty_indexes_def py_get_def)
  then show ?thesis by (simp add: indexed_as_def held_def holder_def)
qed

lemma make_engine_indexed:
  assumes "make_xref_engine (Some es) strict = Inr E" "identities_ok es"
  shows "indexed_as es (xe_indexes E)"
  using build_held[OF empty_indexed, of es 0] assms by (auto simp: make_xref_engine_def Let_def split: prod.splits if_splits)

lemma make_engine_strict:
  assumes "identities_ok es"
  shows "(\<exists>E. make_xref_engine (Some es) True = Inr E) \<longleftrightarrow> list_all record_sound es \<and> clash_free es"
  using build_problems[OF empty_indexed, of es 0] assms
  by (auto simp: make_xref_engine_def Let_def clash_free_def split: prod.splits)

end
