(* ===== verification/Security_Properties.thy ===== *)
theory Security_Properties
  imports Security_Master
begin

text \<open>
  Properties of the security identifiers: what the check digits catch, which digit completes an
  identifier, and what the security master answers.
\<close>

section \<open>Check digits\<close>

definition digit_of :: "int \<Rightarrow> char" where
  "digit_of v = char_of (48 + v)"

lemma digit_of: "0 \<le> v \<Longrightarrow> v \<le> 9 \<Longrightarrow> is_dec (digit_of v) \<and> char_value (digit_of v) = v"
  by (simp add: digit_of_def is_dec_def char_value_def Let_def)

lemma total_last:
  assumes "t \<noteq> TICKER" "has_syntax t (body @ [c])" "is_dec d"
  shows "id_total t (body @ [d]) = id_total t (body @ [c]) - char_value c + char_value d"
proof -
  have c: "is_dec c" by (rule syntax_last_dec[OF assms(2)])
  have len: "length body = id_length t - 1" using syntax_length[OF assms(2)] by simp
  consider "t = ISIN" | "t \<noteq> ISIN" by blast
  then show ?thesis
  proof cases
    case 1
    then show ?thesis using isin_middle[OF c assms(3), of body "[]"] by (simp add: id_total_def isin_place_def isin_digits_def)
  next
    case 2
    have "contribution t (length body) x = char_value x" for x
      using 2 assms(1) len by (cases t) (simp_all add: id_length_def)
    with 2 show ?thesis using place_total_middle[of t body c "[]" d] by (simp add: id_total_def)
  qed
qed

lemma validator_clean: "has_syntax t s \<Longrightarrow> t \<noteq> TICKER \<Longrightarrow> validator t s \<longleftrightarrow> id_total t s mod 10 = 0"
  using validator_total clean_syntax(1) by metis

text \<open>C31. Replacing any digit of a valid ISIN, CUSIP, SEDOL or FIGI by another digit, wherever it
  stands, makes the identifier invalid.\<close>

theorem digit_substitution_detected:
  assumes "t \<noteq> TICKER" "is_dec c" "is_dec d" "c \<noteq> d" "validator t (xs @ c # ys)"
  shows "\<not> validator t (xs @ d # ys)"
proof
  assume bad: "validator t (xs @ d # ys)"
  obtain A B where clean: "\<And>x. is_dec x \<Longrightarrow> clean_id (xs @ x # ys) = A @ x # B"
    by (rule clean_middle[of xs ys]) blast
  have "has_syntax t (A @ c # B) \<and> id_total t (A @ c # B) mod 10 = 0"
    using assms(5) clean[OF assms(2)] validator_total[OF assms(1)] by simp
  moreover have "id_total t (A @ d # B) mod 10 = 0"
    using bad clean[OF assms(3)] validator_total[OF assms(1)] by simp
  ultimately have "c = d" using digit_moves_total[OF assms(1) _ assms(2,3)] by metis
  with assms(4) show False ..
qed

text \<open>Every well-formed body of an identifier is completed by exactly one check digit.\<close>

theorem check_digit_unique:
  assumes "has_syntax t (body @ [c])"
  shows "\<exists>!d. is_dec d \<and> validator t (body @ [d])"
proof -
  have t: "t \<noteq> TICKER" using assms by (cases t) auto
  define T where "T = id_total t (body @ [c]) - char_value c"
  have valid: "validator t (body @ [d]) \<longleftrightarrow> (T + char_value d) mod 10 = 0" if "is_dec d" for d
    using validator_clean[OF syntax_last_any[OF assms that] t] total_last[OF t assms that] by (simp add: T_def)
  have v: "0 \<le> complement_digit T" "complement_digit T \<le> 9"
    using pos_mod_bound[of 10 "10 - T mod 10"] pos_mod_sign[of 10 "10 - T mod 10"]
    unfolding complement_digit_def by linarith+
  let ?d = "digit_of (complement_digit T)"
  show ?thesis
  proof (rule ex1I[of _ ?d])
    show "is_dec ?d \<and> validator t (body @ [?d])"
      using digit_of[OF v] valid[of ?d] complement_iff[OF v, of T] by metis
  next
    fix d
    assume d: "is_dec d \<and> validator t (body @ [d])"
    then have dec: "0 \<le> char_value d" "char_value d \<le> 9" and "(T + char_value d) mod 10 = 0"
      using valid[of d] dec_char_value[of d] by blast+
    then have "complement_digit T = char_value d" by (rule complement_iff[THEN iffD2])
    then show "d = ?d" using d digit_of[OF v] dec_value_inj[of d ?d] by metis
  qed
qed

text \<open>Replacing one character of a valid CUSIP, SEDOL or FIGI by another that is allowed there
  goes unnoticed exactly when both contribute the same last digit to the total.\<close>

theorem substitution_unnoticed_iff:
  assumes "t = CUSIP \<or> t = SEDOL \<or> t = FIGI" "has_syntax t (A @ c # B)" "has_syntax t (A @ d # B)"
    and "validator t (A @ c # B)"
  shows "validator t (A @ d # B) \<longleftrightarrow> contribution t (length A) c mod 10 = contribution t (length A) d mod 10"
proof -
  have t: "t \<noteq> TICKER" "t \<noteq> ISIN" using assms(1) by auto
  have zero: "place_total t (A @ c # B) mod 10 = 0"
    using assms(4) validator_clean[OF assms(2) t(1)] t by (simp add: id_total_def)
  have "validator t (A @ d # B) \<longleftrightarrow> place_total t (A @ d # B) mod 10 = place_total t (A @ c # B) mod 10"
    using validator_clean[OF assms(3) t(1)] t zero by (simp add: id_total_def)
  also have "\<dots> \<longleftrightarrow> contribution t (length A) c mod 10 = contribution t (length A) d mod 10"
    using place_total_middle[of t A c B d] by (auto simp: mod_eq_dvd_iff dvd_diff_commute)
  finally show ?thesis .
qed

lemma undetected_substitutions:
  "validator CUSIP ''037833100'' \<and> validator CUSIP ''037833A00'' \<and> validator SEDOL ''2046251'' \<and> validator SEDOL ''M046251'' \<and>
    validator ISIN ''US0378331005'' \<and> validator ISIN ''UA0378331005''"
  by code_simp

section \<open>The security master\<close>

fun type_name :: "id_type \<Rightarrow> string" where
  "type_name ISIN = ''ISIN''"
| "type_name CUSIP = ''CUSIP''"
| "type_name SEDOL = ''SEDOL''"
| "type_name FIGI = ''FIGI''"
| "type_name TICKER = ''TICKER''"

lemma parse_type_name [simp]: "parse_id_type (type_name t) = Some t"
  by (cases t) (simp_all add: parse_id_type_def)

text \<open>A strict engine accepts a master exactly when every record has a ticker, every identifier
  given passes its own check digit, and no two records share one.\<close>

theorem strict_master_iff_clean:
  assumes "identities_ok es"
  shows "(\<exists>E. make_xref_engine (Some es) True = Inr E) \<longleftrightarrow>
    list_all (\<lambda>(i, r). py_strip (sm_ticker r) \<noteq> '''' \<and>
      (\<forall>t. t \<noteq> TICKER \<longrightarrow> clean_id (id_field t r) \<noteq> '''' \<longrightarrow> validator t (clean_id (id_field t r)))) es \<and>
    list_all (\<lambda>(i, r). list_all (\<lambda>(j, q). i = j \<or>
      (\<forall>t. clean_id (id_field t r) \<noteq> '''' \<longrightarrow> clean_id (id_field t r) \<noteq> clean_id (id_field t q))) es) es"
proof -
  have "record_sound e \<longleftrightarrow> py_strip (sm_ticker (snd e)) \<noteq> '''' \<and>
      (\<forall>t. t \<noteq> TICKER \<longrightarrow> cleaned t e \<noteq> '''' \<longrightarrow> validator t (cleaned t e))" for e
    using all_types(2) by (auto simp: record_sound_def list_all_iff)
  then show ?thesis
    unfolding make_engine_strict[OF assms] clash_free_def
    by (simp add: list_all_iff cleaned_def clash_iff case_prod_beta) blast
qed

lemma lookup_ticker:
  "clean_id q \<noteq> '''' \<Longrightarrow> parse_id_type n = Some TICKER \<Longrightarrow>
    lookup_identifier E q (Some n) = Inr (resolve_identifier E (clean_id q) TICKER False [])"
  by (simp add: lookup_identifier_def Let_def)

lemma lookup_typed:
  "clean_id q \<noteq> '''' \<Longrightarrow> parse_id_type n = Some t \<Longrightarrow> t \<noteq> TICKER \<Longrightarrow>
    lookup_identifier E q (Some n) = Inr (if validator t (strip_separators (clean_id q))
      then resolve_identifier E (strip_separators (clean_id q)) t True [t]
      else reject_identifier (strip_separators (clean_id q)) t [t])"
  by (simp only: lookup_identifier_def Let_def if_False option.case) (cases t; simp)

text \<open>In a master a strict engine accepted, every record is found under each of its own
  identifiers, as given, when asked with the type.\<close>

theorem own_identifiers_resolve:
  assumes "make_xref_engine (Some es) True = Inr E" "identities_ok es" "e \<in> set es"
    and "clean_id (id_field t (snd e)) \<noteq> ''''"
  shows "lookup_identifier E (id_field t (snd e)) (Some (type_name t)) =
    Inr \<lparr>xr_query = clean_id (id_field t (snd e)), xr_type = t, xr_checksum_valid = True, xr_matched = Some e,
      xr_status = MATCH_FOUND, xr_applied = (t \<noteq> TICKER), xr_candidates = (if t = TICKER then [] else [t])\<rparr>"
proof -
  let ?v = "clean_id (id_field t (snd e))"
  have clean: "list_all record_sound es" "clash_free es" using make_engine_strict[OF assms(2)] assms(1) by blast+
  have "holder es t ?v \<noteq> None" using assms(3,4) holder_None_iff[OF assms(4), of es t] by (auto simp: cleaned_def)
  then obtain x where x: "holder es t ?v = Some x" by blast
  note hx = holder_SomeD[OF x]
  have "\<not> clash x e" using hx assms(3) clean(2) by (simp add: clash_free_def list_all_iff)
  then have "fst x = fst e" using hx unfolding clash_iff cleaned_def by metis
  then have "x = e" using identities_okD[OF assms(2)] hx assms(3) by blast
  then have found: "py_get (index_of (xe_indexes E) t) ?v = Some e"
    using make_engine_indexed[OF assms(1,2)] x by (simp add: indexed_as_def held_def)
  have valid: "validator t ?v" if "t \<noteq> TICKER"
    using clean(1) assms(3,4) that all_types(2)[of t] by (auto simp: record_sound_def list_all_iff cleaned_def)
  show ?thesis
  proof (cases "t = TICKER")
    case True
    show ?thesis unfolding lookup_ticker[OF assms(4) parse_type_name[of t, unfolded True], folded True]
      using found True by (simp add: resolve_identifier_def)
  next
    case False
    note ok = valid[OF False] validator_compact[OF False valid[OF False]]
    show ?thesis unfolding lookup_typed[OF assms(4) parse_type_name False] ok(2)
      using found False ok(1) by (simp add: resolve_identifier_def)
  qed
qed

text \<open>What an answer of the lookup is worth.\<close>

definition justified :: "entry list \<Rightarrow> xref_report \<Rightarrow> bool" where
  "justified es rep \<longleftrightarrow>
     (if xr_status rep = INVALID_CHECKSUM
      then xr_matched rep = None \<and> \<not> xr_checksum_valid rep \<and> xr_type rep \<noteq> TICKER \<and> \<not> validator (xr_type rep) (xr_query rep)
      else xr_matched rep = find (\<lambda>e. clean_id (id_field (xr_type rep) (snd e)) = xr_query rep) es \<and>
           (xr_status rep = MATCH_FOUND \<longleftrightarrow> xr_matched rep \<noteq> None) \<and> xr_checksum_valid rep \<and>
           validator (xr_type rep) (xr_query rep) \<and> (xr_applied rep \<longleftrightarrow> xr_type rep \<noteq> TICKER))"

lemma resolve_fields [simp]:
  "xr_query (resolve_identifier E i t a cs) = i" "xr_type (resolve_identifier E i t a cs) = t"
  "xr_checksum_valid (resolve_identifier E i t a cs)" "xr_applied (resolve_identifier E i t a cs) = a"
  "xr_matched (resolve_identifier E i t a cs) = held (xe_indexes E) t i"
  "xr_status (resolve_identifier E i t a cs) = (if held (xe_indexes E) t i \<noteq> None then MATCH_FOUND else IDENTIFIER_NOT_FOUND)"
  "xr_candidates (resolve_identifier E i t a cs) = cs"
  by (simp_all add: resolve_identifier_def held_def Let_def)

lemma resolve_justified:
  assumes "indexed_as es (xe_indexes E)" "i \<noteq> ''''" "validator t i" "a = (t \<noteq> TICKER)"
  shows "justified es (resolve_identifier E i t a cs)"
proof -
  have "held (xe_indexes E) t i = find (\<lambda>e. clean_id (id_field t (snd e)) = i) es"
    using assms(1,2) by (simp add: indexed_as_def holder_def cleaned_def)
  then show ?thesis using assms(3,4) by (simp add: justified_def del: not_None_eq split_paired_Ex)
qed

lemma reject_justified: "t \<noteq> TICKER \<Longrightarrow> \<not> validator t i \<Longrightarrow> justified es (reject_identifier i t cs)"
  by (simp add: justified_def reject_identifier_def)

lemma compact_fixed: "strip_separators (clean_id (strip_separators (clean_id q))) = strip_separators (clean_id q)"
proof -
  let ?c = "strip_separators (clean_id q)"
  have "list_all (\<lambda>c. \<not> is_space c) ?c" by (simp add: strip_separators_def list_all_iff)
  then have "py_strip ?c = ?c" by (rule strip_solid)
  moreover have "py_upper ?c = ?c"
    by (rule upper_fixed) (use upper_char_fixed in \<open>auto simp: strip_separators_def clean_id_def py_upper_def list_all_iff\<close>)
  ultimately show ?thesis by (simp add: clean_id_def strip_separators_def)
qed

text \<open>The compact form of a query, and the types it is shaped like and valid for.\<close>

abbreviation compact_id :: "string \<Rightarrow> string" where
  "compact_id q \<equiv> strip_separators (clean_id q)"

definition shaped_types :: "string \<Rightarrow> id_type list" where
  "shaped_types q = filter (\<lambda>t. has_syntax t (compact_id q)) CLASSIFICATION_PRIORITY"

definition valid_types :: "string \<Rightarrow> id_type list" where
  "valid_types q = filter (\<lambda>t. validator t (compact_id q)) CLASSIFICATION_PRIORITY"

lemma priority_types: "t \<in> set CLASSIFICATION_PRIORITY \<longleftrightarrow> t \<noteq> TICKER"
  by (cases t) (simp_all add: CLASSIFICATION_PRIORITY_def)

lemma set_shaped_types: "t \<in> set (shaped_types q) \<longleftrightarrow> t \<noteq> TICKER \<and> has_syntax t (compact_id q)"
  by (auto simp: shaped_types_def priority_types)

lemma set_valid_types: "t \<in> set (valid_types q) \<longleftrightarrow> t \<noteq> TICKER \<and> validator t (compact_id q)"
  by (auto simp: valid_types_def priority_types)

lemma valid_is_shaped:
  assumes "t \<noteq> TICKER" "validator t (compact_id q)"
  shows "has_syntax t (compact_id q)"
proof -
  let ?c = "compact_id q"
  have "has_syntax t (clean_id ?c)" using assms by (simp add: validator_total)
  then have "strip_separators (clean_id ?c) = clean_id ?c" by (rule clean_syntax(2))
  then have "clean_id ?c = ?c" by (simp add: compact_fixed)
  with \<open>has_syntax t (clean_id ?c)\<close> show ?thesis by simp
qed

lemma classify_compact: "classify_identifier (compact_id q) = (valid_types q, shaped_types q)"
proof -
  have "filter (\<lambda>t. validator t (compact_id q)) (shaped_types q) = valid_types q"
    unfolding shaped_types_def valid_types_def filter_filter
    by (rule filter_cong) (auto simp: priority_types intro: valid_is_shaped)
  then show ?thesis by (simp add: classify_identifier_def compact_fixed shaped_types_def)
qed

lemma no_valid_type: "valid_types q = [] \<Longrightarrow> t \<noteq> TICKER \<Longrightarrow> \<not> validator t (compact_id q)"
  using set_valid_types[of t q] by simp

text \<open>
  An untyped query is taken for a ticker exactly when it is shaped like nothing else, and is
  rejected exactly when it is shaped like something but valid for nothing. The type a record
  resolves decides; the candidates reported are all the types it may have been.
\<close>

definition inferred :: "entry list \<Rightarrow> string \<Rightarrow> xref_report \<Rightarrow> bool" where
  "inferred es q rep \<longleftrightarrow>
     (xr_type rep = TICKER \<longleftrightarrow> (\<forall>t. t \<noteq> TICKER \<longrightarrow> \<not> has_syntax t (compact_id q))) \<and>
     (xr_status rep = INVALID_CHECKSUM \<longleftrightarrow>
       xr_type rep \<noteq> TICKER \<and> (\<forall>t. t \<noteq> TICKER \<longrightarrow> \<not> validator t (compact_id q))) \<and>
     set (xr_candidates rep) =
       {t. t \<noteq> TICKER \<and> (if xr_status rep = INVALID_CHECKSUM then has_syntax t (compact_id q) else validator t (compact_id q))} \<and>
     (case find (\<lambda>t. validator t (compact_id q) \<and> holder es t (compact_id q) \<noteq> None) CLASSIFICATION_PRIORITY of
        Some t \<Rightarrow> xr_type rep = t
      | None \<Rightarrow> xr_type rep \<noteq> TICKER \<longrightarrow> xr_matched rep = None)"

text \<open>The query a report is about is the one that was asked.\<close>

definition asked :: "string \<Rightarrow> xref_report \<Rightarrow> bool" where
  "asked q rep \<longleftrightarrow> xr_query rep = (if xr_type rep = TICKER then clean_id q else compact_id q)"

lemma reject_fields [simp]:
  "xr_query (reject_identifier i t cs) = i" "xr_type (reject_identifier i t cs) = t"
  "xr_matched (reject_identifier i t cs) = None" "xr_status (reject_identifier i t cs) = INVALID_CHECKSUM"
  "xr_candidates (reject_identifier i t cs) = cs"
  by (simp_all add: reject_identifier_def)

lemma find_filter: "find P (filter Q xs) = find (\<lambda>x. Q x \<and> P x) xs"
  by (induction xs) auto

lemma preferred_type:
  "find (\<lambda>t. holder es t (compact_id q) \<noteq> None) (valid_types q) =
   find (\<lambda>t. validator t (compact_id q) \<and> holder es t (compact_id q) \<noteq> None) CLASSIFICATION_PRIORITY"
  by (simp only: valid_types_def find_filter)

text \<open>An answer to an untyped query.\<close>

lemma untyped_justified:
  assumes "indexed_as es (xe_indexes E)" "clean_id q \<noteq> ''''"
  obtains rep where "lookup_identifier E q None = Inr rep" "justified es rep" "asked q rep" "inferred es q rep"
proof -
  let ?c = "compact_id q"
  note look = lookup_identifier_def[of E q None, unfolded Let_def classify_compact prod.case option.case]
  have ix: "held (xe_indexes E) t v = holder es t v" for t v using assms(1) by (simp add: indexed_as_def)
  note look = look[folded held_def, unfolded ix preferred_type]
  let ?found = "find (\<lambda>t. validator t ?c \<and> holder es t ?c \<noteq> None) CLASSIFICATION_PRIORITY"
  show ?thesis
  proof (cases "valid_types q = []")
    case False
    then obtain v where v: "v \<noteq> TICKER" "validator v ?c" using set_valid_types[of "hd (valid_types q)" q] by auto
    define t where "t = (case ?found of Some t \<Rightarrow> t | None \<Rightarrow> hd (valid_types q))"
    have t: "t \<in> set (valid_types q)"
    proof (cases ?found)
      case None
      with False show ?thesis by (simp add: t_def)
    next
      case (Some u)
      from find_SomeD[OF this] Some show ?thesis by (simp add: t_def set_valid_types priority_types)
    qed
    let ?rep = "resolve_identifier E ?c t True (valid_types q)"
    have none: "holder es t ?c = None" if "?found = None"
      using t that unfolding find_None_iff set_valid_types priority_types by blast
    show ?thesis
    proof (rule that)
      show "lookup_identifier E q None = Inr ?rep"
        using False assms(2) by (simp add: look t_def split: option.split)
      show "justified es ?rep"
        using t validator_solid[of t ?c] by (intro resolve_justified[OF assms(1)]) (auto simp: set_valid_types)
      show "asked q ?rep" using t by (simp add: asked_def set_valid_types)
      show "inferred es q ?rep"
      proof (cases ?found)
        case None
        with none t v valid_is_shaped[OF v] show ?thesis
          by (auto simp: inferred_def set_valid_types ix simp del: not_None_eq)
      next
        case (Some u)
        then have "t = u" by (simp add: t_def)
        with Some t v valid_is_shaped[OF v] show ?thesis
          by (auto simp: inferred_def set_valid_types simp del: not_None_eq)
      qed
    qed
  next
    case True
    then have no: "\<And>t. t \<noteq> TICKER \<Longrightarrow> \<not> validator t ?c" by (rule no_valid_type)
    then have found: "?found = None" by (auto simp: find_None_iff priority_types)
    show ?thesis
    proof (cases "shaped_types q = []")
      case False
      define t where "t = hd (shaped_types q)"
      have t: "t \<noteq> TICKER" "has_syntax t ?c" using False set_shaped_types[of t q] by (simp_all add: t_def)
      let ?rep = "reject_identifier ?c t (shaped_types q)"
      show ?thesis
      proof (rule that)
        show "lookup_identifier E q None = Inr ?rep" using False True assms(2) by (simp add: look t_def)
        show "justified es ?rep" by (rule reject_justified[OF t(1) no[OF t(1)]])
        show "asked q ?rep" using t by (simp add: asked_def)
        show "inferred es q ?rep" using t no by (auto simp: inferred_def found set_shaped_types simp del: not_None_eq)
      qed
    next
      case empty: True
      have shapeless: "\<And>t. t \<noteq> TICKER \<Longrightarrow> \<not> has_syntax t ?c" using empty set_shaped_types[of _ q] by fastforce
      let ?rep = "resolve_identifier E (clean_id q) TICKER False []"
      show ?thesis
      proof (rule that)
        show "lookup_identifier E q None = Inr ?rep" using empty True assms(2) by (simp add: look)
        show "justified es ?rep" by (rule resolve_justified[OF assms]) simp_all
        show "asked q ?rep" by (simp add: asked_def)
        show "inferred es q ?rep" using shapeless no by (auto simp: inferred_def found simp del: not_None_eq)
      qed
    qed
  qed
qed

text \<open>An answer to a typed query.\<close>

lemma typed_justified:
  assumes "indexed_as es (xe_indexes E)" "clean_id q \<noteq> ''''" "parse_id_type n = Some t"
  obtains rep where "lookup_identifier E q (Some n) = Inr rep" "justified es rep" "asked q rep" "xr_type rep = t"
    "set (xr_candidates rep) = {t} - {TICKER}"
proof (cases "t = TICKER")
  case True
  show ?thesis
    by (rule that[OF lookup_ticker[OF assms(2) assms(3)[unfolded True]]])
       (use assms(2) True in \<open>auto simp: asked_def intro: resolve_justified[OF assms(1)]\<close>)
next
  case False
  let ?c = "compact_id q"
  note look = lookup_typed[OF assms(2,3) False, of E]
  show ?thesis
  proof (cases "validator t ?c")
    case True
    then have ok: "justified es (resolve_identifier E ?c t True [t])"
      using False validator_solid[OF False True] by (intro resolve_justified[OF assms(1)]) auto
    show ?thesis
      by (rule that[of "resolve_identifier E ?c t True [t]"]) (use False in \<open>auto simp: look True ok asked_def\<close>)
  next
    case invalid: False
    show ?thesis
      by (rule that[of "reject_identifier ?c t [t]"])
         (use False in \<open>auto simp: look invalid reject_justified[OF False invalid] asked_def\<close>)
  qed
qed

text \<open>C26. Every lookup answers, and answers what was asked: a blank query or an unknown type name is
  refused; otherwise the report is about the query itself, cleaned, and for a structured type
  stripped of its separators. The record returned is the first one carrying that identifier in
  the field of that type, the check digit holds for what was resolved and fails for what was
  rejected, and a given type is respected. Without a type, the query is taken for a ticker
  exactly when it is shaped like no structured type and rejected exactly when it is shaped
  like one but valid for none; the first type in the order of priority that it is valid for and that
  some record holds decides, and it stays unmatched only when there is no such type.\<close>

theorem lookup_is_justified:
  assumes "make_xref_engine (Some es) strict = Inr E" "identities_ok es"
  shows "case lookup_identifier E q named of
    Inl _ \<Rightarrow> clean_id q = '''' \<or> (\<exists>n. named = Some n \<and> parse_id_type n = None)
  | Inr rep \<Rightarrow> clean_id q \<noteq> '''' \<and> justified es rep \<and>
      xr_query rep = (if xr_type rep = TICKER then clean_id q else strip_separators (clean_id q)) \<and>
      (case named of
         Some n \<Rightarrow> parse_id_type n = Some (xr_type rep) \<and> set (xr_candidates rep) = {xr_type rep} - {TICKER}
       | None \<Rightarrow> inferred es q rep)"
proof (cases "clean_id q = ''''")
  case True
  then show ?thesis by (simp add: lookup_identifier_def Let_def)
next
  case False
  note ix = make_engine_indexed[OF assms]
  show ?thesis
  proof (cases named)
    case None
    show ?thesis by (rule untyped_justified[OF ix False]) (use None False in \<open>auto simp: asked_def\<close>)
  next
    case (Some n)
    show ?thesis
    proof (cases "parse_id_type n")
      case None
      with Some False show ?thesis by (simp add: lookup_identifier_def Let_def)
    next
      case t: (Some t)
      show ?thesis by (rule typed_justified[OF ix False t]) (use Some t False in \<open>auto simp: asked_def\<close>)
    qed
  qed
qed

end
