(* ===== verification/Security_Witnesses.thy ===== *)
theory Security_Witnesses
  imports Security_Properties
begin

text \<open>
  Instances of the properties of the security identifiers on the bundled master, whose check
  digits are evaluated by the kernel.
\<close>

lemma digit_substitution_detected_witness: "validator CUSIP ''037833100'' \<and> \<not> validator CUSIP ''037833101''"
proof -
  have valid: "validator CUSIP ''037833100''" by code_simp
  have "is_dec CHR ''0''" "is_dec CHR ''1''" by code_simp+
  from digit_substitution_detected[of CUSIP, OF _ this, of "''03783310''" "''''"] valid show ?thesis by simp
qed

lemma check_digit_unique_witness: "\<exists>!d. is_dec d \<and> validator FIGI (''BBG000B9XRY'' @ [d])"
proof -
  have "has_syntax FIGI (''BBG000B9XRY'' @ [CHR ''9''])" by code_simp
  then show ?thesis by (rule check_digit_unique)
qed

lemma substitution_unnoticed_iff_witness: "validator CUSIP ''037833A00'' \<and> \<not> validator CUSIP ''037833B00''"
proof -
  have ok: "has_syntax CUSIP (''037833'' @ CHR ''1'' # ''00'')" "has_syntax CUSIP (''037833'' @ CHR ''A'' # ''00'')"
    "has_syntax CUSIP (''037833'' @ CHR ''B'' # ''00'')" "validator CUSIP (''037833'' @ CHR ''1'' # ''00'')" by code_simp+
  have same: "contribution CUSIP (length ''037833'') CHR ''1'' mod 10 = contribution CUSIP (length ''037833'') CHR ''A'' mod 10"
    and different: "contribution CUSIP (length ''037833'') CHR ''1'' mod 10 \<noteq> contribution CUSIP (length ''037833'') CHR ''B'' mod 10"
    by code_simp+
  have a: "validator CUSIP (''037833'' @ CHR ''A'' # ''00'')"
    by (rule substitution_unnoticed_iff[OF disjI1[OF refl] ok(1,2,4), THEN iffD2]) (rule same)
  have "\<not> validator CUSIP (''037833'' @ CHR ''B'' # ''00'')"
    using substitution_unnoticed_iff[OF disjI1[OF refl] ok(1,3,4)] different by blast
  with a show ?thesis by simp
qed

section \<open>The bundled master\<close>

abbreviation demo :: "entry list" where
  "demo \<equiv> enumerate 0 default_master_records"

lemma demo_identities: "identities_ok demo"
  by code_simp

lemma all_id_types: "(\<forall>t. P t) \<longleftrightarrow> P ISIN \<and> P CUSIP \<and> P SEDOL \<and> P FIGI \<and> P TICKER"
  by (metis id_type.exhaust)

lemma demo_sound: "list_all record_sound demo"
  by code_simp

lemma demo_clash_free: "clash_free demo"
  by code_simp

lemma strict_master_iff_clean_witness: "\<exists>E. make_xref_engine (Some demo) True = Inr E"
  unfolding strict_master_iff_clean[OF demo_identities]
  using demo_sound demo_clash_free all_types(2)
  by (simp add: record_sound_def clash_free_def list_all_iff case_prod_beta cleaned_def clash_iff) blast

lemma demo_engine:
  obtains E where "make_xref_engine (Some demo) True = Inr E"
  using make_engine_strict[OF demo_identities] demo_sound demo_clash_free by blast

definition apple :: entry where
  "apple = hd demo"

lemma own_identifiers_resolve_witness:
  "\<exists>E rep. make_xref_engine (Some demo) True = Inr E \<and> lookup_identifier E ''US0378331005'' (Some ''ISIN'') = Inr rep \<and> xr_status rep = MATCH_FOUND \<and>
    xr_matched rep = Some apple"
proof -
  obtain E where E: "make_xref_engine (Some demo) True = Inr E" by (rule demo_engine)
  have apple: "apple \<in> set demo" by code_simp
  have field: "id_field ISIN (snd apple) = ''US0378331005''" by code_simp
  have "clean_id (id_field ISIN (snd apple)) \<noteq> ''''" by code_simp
  from own_identifiers_resolve[OF E demo_identities apple this] show ?thesis unfolding field by (intro exI[of _ E]) (simp add: E)
qed

lemma lookup_is_justified_witness:
  "\<exists>E rep. lookup_identifier E '' 037833-10-0'' None = Inr rep \<and> xr_query rep = ''037833100'' \<and> xr_type rep = CUSIP \<and>
    xr_matched rep = Some apple \<and> set (xr_candidates rep) = {CUSIP}"
proof -
  let ?q = "'' 037833-10-0''"
  obtain E where E: "make_xref_engine (Some demo) True = Inr E" by (rule demo_engine)
  have c: "strip_separators (clean_id ?q) = ''037833100''" "clean_id ?q \<noteq> ''''" by code_simp+
  have f: "find (\<lambda>t. validator t ''037833100'' \<and> holder demo t ''037833100'' \<noteq> None) CLASSIFICATION_PRIORITY = Some CUSIP"
    by code_simp
  have h: "find (\<lambda>e. clean_id (id_field CUSIP (snd e)) = ''037833100'') demo = Some apple" by code_simp
  have v: "t \<noteq> TICKER \<and> validator t ''037833100'' \<longleftrightarrow> t = CUSIP" for t by (cases t; simp; code_simp)
  from lookup_is_justified[OF E demo_identities, of ?q None] c(2)
  obtain rep where r: "lookup_identifier E ?q None = Inr rep" "justified demo rep" "inferred demo ?q rep"
    "xr_query rep = (if xr_type rep = TICKER then clean_id ?q else ''037833100'')"
    by (auto simp: c(1) split: sum.splits)
  from r(3) have i: "xr_type rep = CUSIP" "xr_status rep \<noteq> INVALID_CHECKSUM" "set (xr_candidates rep) = {CUSIP}"
    using v unfolding inferred_def c(1) f by auto
  with r h show ?thesis by (intro exI[of _ E] exI[of _ rep]) (simp add: justified_def)
qed

end
