(* ===== verification/Quest_Limits.thy ===== *)
theory Quest_Limits
  imports Py_Value
begin

text \<open>
  Model of the rate limits of \<open>skills/questrade-api-rate-limit-and-account-types/scripts/
  questrade_client.py\<close>: the token bucket, the sliding window, the budget of several windows
  consumed all or nothing, and the limiter that keeps one budget per category of endpoint.
  Every reading of the monotonic clock is an argument or comes from the outside world, whose
  functions are a parameter; seconds are exact rationals. Log messages are left out, the locks
  too, since each operation holds one throughout.
\<close>

section \<open>Errors, the outside world\<close>

datatype quest_error =
    Api_Error "int option" "int option" | Auth_Error "int option"
  | Rate_Limit_Local | Rate_Limit_Server "number option" | Account_Restriction
  | Value_Err | Type_Err | Overflow_Err | Attribute_Err | Raised string

text \<open>\<open>float(v)\<close>.\<close>

definition py_float :: "py_value \<Rightarrow> quest_error + number" where
  "py_float v = (case v of
     V_str s \<Rightarrow> (case parse_float s of Some n \<Rightarrow> Inr n | None \<Rightarrow> Inl Value_Err)
   | _ \<Rightarrow> (case py_number v of
       None \<Rightarrow> Inl Type_Err
     | Some (N_int n) \<Rightarrow> (case double_of_int n of None \<Rightarrow> Inl Overflow_Err | Some m \<Rightarrow> Inr (N_float (of_int m)))
     | Some x \<Rightarrow> Inr x))"

text \<open>What the client is given: clocks, a sleep, a transport, and perhaps a way to persist.\<close>

record http_request =
  hr_method :: string
  hr_url :: string
  hr_headers :: "(string \<times> string) list"
  hr_body :: "(string \<times> string) list option"

record session_token =
  st_access :: string
  st_refresh :: string
  st_server :: string
  st_type :: string
  st_expires_at :: number
  st_expires_in :: number
  st_deadline :: number

record 'w quest_env =
  monotonic :: "'w \<Rightarrow> rat \<times> 'w"
  wall_clock :: "'w \<Rightarrow> rat \<times> 'w"
  sleep_fn :: "rat \<Rightarrow> 'w \<Rightarrow> 'w"
  http_fn :: "http_request \<Rightarrow> 'w \<Rightarrow> (string + py_value) \<times> 'w"
  token_persist_fn :: "(session_token \<Rightarrow> 'w \<Rightarrow> bool \<times> 'w) option"

section \<open>Token bucket\<close>

record token_bucket =
  tb_capacity :: int
  tb_fill_rate :: rat
  tb_tokens :: rat
  tb_last_update :: rat

definition make_token_bucket :: "int \<Rightarrow> rat \<Rightarrow> rat \<Rightarrow> quest_error + token_bucket" where
  "make_token_bucket capacity fill_rate now =
     (if capacity < 1 then Inl Value_Err
      else if fill_rate \<le> 0 then Inl Value_Err
      else Inr \<lparr>tb_capacity = capacity, tb_fill_rate = fill_rate, tb_tokens = of_int capacity, tb_last_update = now\<rparr>)"

definition tb_refill :: "rat \<Rightarrow> token_bucket \<Rightarrow> token_bucket" where
  "tb_refill now b =
     (let elapsed = max 0 (now - tb_last_update b) in
      b\<lparr>tb_last_update := now, tb_tokens := min (of_int (tb_capacity b)) (tb_tokens b + elapsed * tb_fill_rate b)\<rparr>)"

definition tb_available :: "rat \<Rightarrow> token_bucket \<Rightarrow> rat \<times> token_bucket" where
  "tb_available now b = (let b1 = tb_refill now b in (tb_tokens b1, b1))"

definition tb_acquire :: "rat \<Rightarrow> rat \<Rightarrow> token_bucket \<Rightarrow> bool \<times> token_bucket" where
  "tb_acquire tokens now b =
     (let b1 = tb_refill now b in
      if tb_tokens b1 \<ge> tokens then (True, b1\<lparr>tb_tokens := tb_tokens b1 - tokens\<rparr>) else (False, b1))"

text \<open>\<open>None\<close> is infinity.\<close>

definition tb_time_until_available :: "rat \<Rightarrow> rat \<Rightarrow> token_bucket \<Rightarrow> rat option \<times> token_bucket" where
  "tb_time_until_available tokens now b =
     (if tokens > of_int (tb_capacity b) then (None, b)
      else
        (let b1 = tb_refill now b in
         if tb_tokens b1 \<ge> tokens then (Some 0, b1) else (Some ((tokens - tb_tokens b1) / tb_fill_rate b1), b1)))"

definition tb_resync :: "rat \<Rightarrow> rat \<Rightarrow> token_bucket \<Rightarrow> token_bucket" where
  "tb_resync remaining now b = (let b1 = tb_refill now b in b1\<lparr>tb_tokens := min (tb_tokens b1) (max 0 remaining)\<rparr>)"

section \<open>Sliding window\<close>

record rate_window =
  rw_capacity :: int
  rw_period :: rat

definition make_rate_window :: "int \<Rightarrow> rat \<Rightarrow> quest_error + rate_window" where
  "make_rate_window capacity period =
     (if capacity < 1 then Inl Value_Err
      else if period \<le> 0 then Inl Value_Err
      else Inr \<lparr>rw_capacity = capacity, rw_period = period\<rparr>)"

record sliding_window =
  sw_capacity :: int
  sw_period :: rat
  sw_log :: "rat list"

definition make_sliding_window :: "int \<Rightarrow> rat \<Rightarrow> quest_error + sliding_window" where
  "make_sliding_window capacity period =
     (if capacity < 1 then Inl Value_Err
      else if period \<le> 0 then Inl Value_Err
      else Inr \<lparr>sw_capacity = capacity, sw_period = period, sw_log = []\<rparr>)"

definition sw_expire :: "rat \<Rightarrow> sliding_window \<Rightarrow> sliding_window" where
  "sw_expire now b = b\<lparr>sw_log := dropWhile (\<lambda>t. t \<le> now - sw_period b) (sw_log b)\<rparr>"

definition sw_used :: "rat \<Rightarrow> sliding_window \<Rightarrow> nat \<times> sliding_window" where
  "sw_used now b = (let b1 = sw_expire now b in (length (sw_log b1), b1))"

definition sw_acquire :: "rat \<Rightarrow> sliding_window \<Rightarrow> bool \<times> sliding_window" where
  "sw_acquire now b =
     (let b1 = sw_expire now b in
      if int (length (sw_log b1)) \<ge> sw_capacity b1 then (False, b1)
      else (True, b1\<lparr>sw_log := sw_log b1 @ [now]\<rparr>))"

definition sw_time_until_available :: "rat \<Rightarrow> sliding_window \<Rightarrow> rat \<times> sliding_window" where
  "sw_time_until_available now b =
     (let b1 = sw_expire now b in
      if int (length (sw_log b1)) < sw_capacity b1 then (0, b1)
      else (max 0 (hd (sw_log b1) + sw_period b1 - now), b1))"

text \<open>\<open>int(f)\<close> of a float cuts towards zero; of a NaN it is a \<open>ValueError\<close>, of an infinity an \<open>OverflowError\<close>.\<close>

definition int_of_float :: "number \<Rightarrow> quest_error + int" where
  "int_of_float x = (case x of
     N_nan \<Rightarrow> Inl Value_Err | N_inf _ \<Rightarrow> Inl Overflow_Err
   | _ \<Rightarrow> Inr (if num_rat x < 0 then \<lceil>num_rat x\<rceil> else \<lfloor>num_rat x\<rfloor>))"

text \<open>The clock is read only once the value is understood; the error carries no change.\<close>

definition sw_resync :: "number \<Rightarrow> ('w \<Rightarrow> rat \<times> 'w) \<Rightarrow> sliding_window \<Rightarrow> 'w \<Rightarrow> (quest_error + unit) \<times> sliding_window \<times> 'w" where
  "sw_resync remaining clock b w =
     (case int_of_float remaining of
        Inl Overflow_Err \<Rightarrow> (Inl Overflow_Err, b, w)
      | Inl _ \<Rightarrow> (Inr (), b, w)
      | Inr n \<Rightarrow>
          (let allowed = max 0 (min (sw_capacity b) n);
               (now, w1) = clock w;
               b1 = sw_expire now b;
               target_used = sw_capacity b - allowed
           in (Inr (), b1\<lparr>sw_log := sw_log b1 @ replicate (nat target_used - length (sw_log b1)) now\<rparr>, w1)))"

section \<open>Several windows, all or nothing\<close>

record multi_budget =
  mb_windows :: "rate_window list"
  mb_buckets :: "sliding_window list"

definition bucket_of :: "rate_window \<Rightarrow> sliding_window" where
  "bucket_of r = \<lparr>sw_capacity = rw_capacity r, sw_period = rw_period r, sw_log = []\<rparr>"

definition make_multi_budget :: "rate_window list \<Rightarrow> quest_error + multi_budget" where
  "make_multi_budget windows =
     (if windows = [] then Inl Value_Err
      else Inr \<lparr>mb_windows = windows, mb_buckets = map bucket_of windows\<rparr>)"

text \<open>\<open>any(b.time_until_available() > 0.0 for b in buckets)\<close> stops at the first that has to wait.\<close>

fun any_wait :: "('w \<Rightarrow> rat \<times> 'w) \<Rightarrow> sliding_window list \<Rightarrow> 'w \<Rightarrow> bool \<times> sliding_window list \<times> 'w" where
  "any_wait clock [] w = (False, [], w)"
| "any_wait clock (b # bs) w =
     (let (now, w1) = clock w; (wait, b1) = sw_time_until_available now b in
      if wait > 0 then (True, b1 # bs, w1)
      else let (r, bs1, w2) = any_wait clock bs w1 in (r, b1 # bs1, w2))"

fun acquire_each :: "('w \<Rightarrow> rat \<times> 'w) \<Rightarrow> sliding_window list \<Rightarrow> 'w \<Rightarrow> sliding_window list \<times> 'w" where
  "acquire_each clock [] w = ([], w)"
| "acquire_each clock (b # bs) w =
     (let (now, w1) = clock w; (bs1, w2) = acquire_each clock bs w1 in (snd (sw_acquire now b) # bs1, w2))"

fun waits_each :: "('w \<Rightarrow> rat \<times> 'w) \<Rightarrow> sliding_window list \<Rightarrow> 'w \<Rightarrow> rat list \<times> sliding_window list \<times> 'w" where
  "waits_each clock [] w = ([], [], w)"
| "waits_each clock (b # bs) w =
     (let (now, w1) = clock w; (wait, b1) = sw_time_until_available now b;
          (ws, bs1, w2) = waits_each clock bs w1
      in (wait # ws, b1 # bs1, w2))"

fun used_each :: "('w \<Rightarrow> rat \<times> 'w) \<Rightarrow> sliding_window list \<Rightarrow> 'w \<Rightarrow> nat list \<times> sliding_window list \<times> 'w" where
  "used_each clock [] w = ([], [], w)"
| "used_each clock (b # bs) w =
     (let (now, w1) = clock w; (n, b1) = sw_used now b; (ns, bs1, w2) = used_each clock bs w1
      in (n # ns, b1 # bs1, w2))"

definition mb_acquire :: "('w \<Rightarrow> rat \<times> 'w) \<Rightarrow> multi_budget \<Rightarrow> 'w \<Rightarrow> bool \<times> multi_budget \<times> 'w" where
  "mb_acquire clock m w =
     (let (blocked, bs, w1) = any_wait clock (mb_buckets m) w in
      if blocked then (False, m\<lparr>mb_buckets := bs\<rparr>, w1)
      else let (bs1, w2) = acquire_each clock bs w1 in (True, m\<lparr>mb_buckets := bs1\<rparr>, w2))"

definition mb_time_until_available :: "('w \<Rightarrow> rat \<times> 'w) \<Rightarrow> multi_budget \<Rightarrow> 'w \<Rightarrow> rat \<times> multi_budget \<times> 'w" where
  "mb_time_until_available clock m w =
     (let (ws, bs, w1) = waits_each clock (mb_buckets m) w in (foldl max (hd ws) (tl ws), m\<lparr>mb_buckets := bs\<rparr>, w1))"

text \<open>The first window with the largest wait.\<close>

definition worst_window :: "rate_window list \<Rightarrow> rat list \<Rightarrow> rate_window option" where
  "worst_window windows ws =
     (let worst = foldl max (hd ws) (tl ws) in
      if worst \<le> 0 then None else map_option fst (find (\<lambda>p. snd p = worst) (zip windows ws)))"

definition mb_binding_window :: "('w \<Rightarrow> rat \<times> 'w) \<Rightarrow> multi_budget \<Rightarrow> 'w \<Rightarrow> rate_window option \<times> multi_budget \<times> 'w" where
  "mb_binding_window clock m w =
     (let (ws, bs, w1) = waits_each clock (mb_buckets m) w in (worst_window (mb_windows m) ws, m\<lparr>mb_buckets := bs\<rparr>, w1))"

definition mb_usage :: "('w \<Rightarrow> rat \<times> 'w) \<Rightarrow> multi_budget \<Rightarrow> 'w \<Rightarrow> nat list \<times> multi_budget \<times> 'w" where
  "mb_usage clock m w = (let (ns, bs, w1) = used_each clock (mb_buckets m) w in (ns, m\<lparr>mb_buckets := bs\<rparr>, w1))"

text \<open>\<open>min(range(n), key=period)\<close>: the first of the shortest windows.\<close>

fun shortest_from :: "nat \<Rightarrow> nat \<Rightarrow> rat \<Rightarrow> rate_window list \<Rightarrow> nat" where
  "shortest_from i best p [] = best"
| "shortest_from i best p (r # rs) =
     (if rw_period r < p then shortest_from (Suc i) i (rw_period r) rs else shortest_from (Suc i) best p rs)"

definition shortest_window :: "rate_window list \<Rightarrow> nat" where
  "shortest_window rs = (case rs of [] \<Rightarrow> 0 | r # rs' \<Rightarrow> shortest_from 1 0 (rw_period r) rs')"

definition float_above :: "number \<Rightarrow> int \<Rightarrow> bool" where
  "float_above x n = (case x of N_nan \<Rightarrow> False | N_inf pos \<Rightarrow> pos | _ \<Rightarrow> num_rat x > of_int n)"

definition mb_resync :: "number \<Rightarrow> ('w \<Rightarrow> rat \<times> 'w) \<Rightarrow> multi_budget \<Rightarrow> 'w \<Rightarrow> (quest_error + unit) \<times> multi_budget \<times> 'w" where
  "mb_resync remaining clock m w =
     (if mb_buckets m = [] then (Inr (), m, w)
      else
        (let index = shortest_window (mb_windows m) in
         if float_above remaining (rw_capacity (mb_windows m ! index)) then (Inr (), m, w)
         else
           (let (r, b, w1) = sw_resync remaining clock (mb_buckets m ! index) w in
            (r, m\<lparr>mb_buckets := (mb_buckets m)[index := b]\<rparr>, w1))))"

section \<open>Categories of endpoints\<close>

datatype rate_category = ACCOUNT | MARKET_DATA

definition DOCUMENTED_WINDOWS :: "(rate_category, rate_window list) py_dict" where
  "DOCUMENTED_WINDOWS =
     [(ACCOUNT, [\<lparr>rw_capacity = 30, rw_period = 1\<rparr>, \<lparr>rw_capacity = 30000, rw_period = 3600\<rparr>]),
      (MARKET_DATA, [\<lparr>rw_capacity = 20, rw_period = 1\<rparr>, \<lparr>rw_capacity = 15000, rw_period = 3600\<rparr>])]"

definition documented_endpoints :: "(string, rate_category) py_dict" where
  "documented_endpoints =
     [(''time'', ACCOUNT), (''accounts'', ACCOUNT), (''accounts/{id}/positions'', ACCOUNT),
      (''accounts/{id}/balances'', ACCOUNT), (''accounts/{id}/executions'', ACCOUNT),
      (''accounts/{id}/orders'', ACCOUNT), (''markets'', MARKET_DATA), (''markets/quotes/{id}'', MARKET_DATA),
      (''markets/candles/{id}'', MARKET_DATA), (''symbols/{id}'', MARKET_DATA), (''symbols/{id}/options'', MARKET_DATA)]"

definition path_literals :: "string list" where
  "path_literals = [''time'', ''accounts'', ''markets'', ''symbols'', ''positions'', ''balances'', ''executions'',
     ''orders'', ''quotes'', ''candles'', ''options'', ''strategies'', ''search'', ''activities'']"

fun split_slashes :: "string \<Rightarrow> string \<Rightarrow> string list" where
  "split_slashes acc [] = [rev acc]"
| "split_slashes acc (c # cs) = (if c = CHR ''/'' then rev acc # split_slashes [] cs else split_slashes (c # acc) cs)"

definition lstrip_slashes :: "string \<Rightarrow> string" where
  "lstrip_slashes s = dropWhile (\<lambda>c. c = CHR ''/'') s"

definition rstrip_slashes :: "string \<Rightarrow> string" where
  "rstrip_slashes s = rev (lstrip_slashes (rev s))"

definition normalize_endpoint :: "string \<Rightarrow> string" where
  "normalize_endpoint path =
     (let segments = filter (\<lambda>s. s \<noteq> '''') (split_slashes [] (rstrip_slashes (lstrip_slashes path)));
          rest = (if segments \<noteq> [] \<and> py_lower (hd segments) = ''v1'' then tl segments else segments)
      in join ''/'' (map (\<lambda>s. if py_lower s \<in> set path_literals then s else ''{id}'') rest))"

definition categorize_endpoint :: "string \<Rightarrow> rate_category" where
  "categorize_endpoint path =
     (case py_get documented_endpoints (normalize_endpoint path) of Some c \<Rightarrow> c | None \<Rightarrow> MARKET_DATA)"

section \<open>The limiter\<close>

type_synonym quest_limiter = "(rate_category, multi_budget) py_dict"

fun make_budgets :: "(rate_category \<times> rate_window list) list \<Rightarrow> quest_error + quest_limiter" where
  "make_budgets [] = Inr []"
| "make_budgets ((c, ws) # rest) =
     (case make_multi_budget ws of
        Inl e \<Rightarrow> Inl e
      | Inr m \<Rightarrow> (case make_budgets rest of Inl e \<Rightarrow> Inl e | Inr d \<Rightarrow> Inr ((c, m) # d)))"

definition make_limiter :: "(rate_category, rate_window list) py_dict option \<Rightarrow> quest_error + quest_limiter" where
  "make_limiter windows =
     (let source = (case windows of None \<Rightarrow> DOCUMENTED_WINDOWS | Some d \<Rightarrow> d) in
      if py_get source ACCOUNT = None \<or> py_get source MARKET_DATA = None then Inl Value_Err
      else make_budgets source)"

definition budget_of :: "quest_limiter \<Rightarrow> rate_category \<Rightarrow> multi_budget" where
  "budget_of L c = the (py_get L c)"

definition limiter_acquire :: "('w \<Rightarrow> rat \<times> 'w) \<Rightarrow> rate_category \<Rightarrow> quest_limiter \<Rightarrow> 'w \<Rightarrow> bool \<times> quest_limiter \<times> 'w" where
  "limiter_acquire clock c L w = (let (r, m, w1) = mb_acquire clock (budget_of L c) w in (r, py_set L c m, w1))"

definition limiter_wait :: "('w \<Rightarrow> rat \<times> 'w) \<Rightarrow> rate_category \<Rightarrow> quest_limiter \<Rightarrow> 'w \<Rightarrow> rat \<times> quest_limiter \<times> 'w" where
  "limiter_wait clock c L w = (let (r, m, w1) = mb_time_until_available clock (budget_of L c) w in (r, py_set L c m, w1))"

text \<open>A response's headers: \<open>headers or {}\<close>, names lowered, the last of equal names kept.\<close>

definition lowered :: "(string \<times> py_value) list \<Rightarrow> (string, py_value) py_dict" where
  "lowered kvs = fold (\<lambda>(k, v) d. py_set d (py_lower k) v) kvs []"

definition header_value :: "py_value \<Rightarrow> string \<Rightarrow> quest_error + py_value option" where
  "header_value headers name =
     (if \<not> py_truthy headers then Inr None
      else case headers of
        V_map _ kvs \<Rightarrow> Inr (case py_get (lowered kvs) name of Some V_none \<Rightarrow> None | x \<Rightarrow> x)
      | _ \<Rightarrow> Inl Attribute_Err)"

text \<open>What \<open>float\<close> refuses is ignored; an integer beyond the floats is not caught.\<close>

definition header_number :: "py_value \<Rightarrow> string \<Rightarrow> quest_error + number option" where
  "header_number headers name =
     (case header_value headers name of
        Inl e \<Rightarrow> Inl e
      | Inr None \<Rightarrow> Inr None
      | Inr (Some raw) \<Rightarrow>
          (case py_float raw of
             Inr x \<Rightarrow> Inr (Some x) | Inl Overflow_Err \<Rightarrow> Inl Overflow_Err | Inl _ \<Rightarrow> Inr None))"

definition apply_headers :: "('w \<Rightarrow> rat \<times> 'w) \<Rightarrow> rate_category \<Rightarrow> py_value \<Rightarrow> quest_limiter \<Rightarrow> 'w \<Rightarrow> (quest_error + unit) \<times> quest_limiter \<times> 'w" where
  "apply_headers clock c headers L w =
     (case header_number headers ''x-ratelimit-remaining'' of
        Inl e \<Rightarrow> (Inl e, L, w)
      | Inr None \<Rightarrow> (Inr (), L, w)
      | Inr (Some remaining) \<Rightarrow>
          (let (r, m, w1) = mb_resync remaining clock (budget_of L c) w in (r, py_set L c m, w1)))"

definition parse_rate_limit_reset :: "py_value \<Rightarrow> quest_error + number option" where
  "parse_rate_limit_reset headers = header_number headers ''x-ratelimit-reset''"

end
