(* ===== verification/Quest_Windows.thy ===== *)
theory Quest_Windows
  imports Quest_Limits "HOL-Library.Multiset"
begin

text \<open>
  The sliding windows under a clock that never goes back. A window is sound for a list of
  grants when no stretch of its period holds more of them than its capacity, and what it
  remembers accounts for all grants of the current stretch. Every operation keeps this.
\<close>

section \<open>A clock that never goes back\<close>

text \<open>A time of the outside world that every reading lies between.\<close>

definition steady :: "('w \<Rightarrow> rat \<times> 'w) \<Rightarrow> ('w \<Rightarrow> rat) \<Rightarrow> bool" where
  "steady clock tm \<longleftrightarrow> (\<forall>w. tm w \<le> fst (clock w) \<and> fst (clock w) \<le> tm (snd (clock w)))"

lemma steadyD: "steady clock tm \<Longrightarrow> clock w = (t, w') \<Longrightarrow> tm w \<le> t \<and> t \<le> tm w'"
  unfolding steady_def by (metis fst_conv snd_conv)

section \<open>One window\<close>

definition stretch_count :: "rat list \<Rightarrow> rat \<Rightarrow> rat \<Rightarrow> nat" where
  "stretch_count G period s = length (filter (\<lambda>g. s - period < g \<and> g \<le> s) G)"

definition recent :: "rat \<Rightarrow> rat list \<Rightarrow> rat multiset" where
  "recent h G = filter_mset (\<lambda>g. h < g) (mset G)"

definition window_ok :: "rat \<Rightarrow> sliding_window \<Rightarrow> rat list \<Rightarrow> bool" where
  "window_ok t b G \<longleftrightarrow> sorted (sw_log b) \<and> (\<forall>x\<in>set (sw_log b). x \<le> t) \<and> int (length (sw_log b)) \<le> sw_capacity b \<and>
     1 \<le> sw_capacity b \<and> 0 < sw_period b \<and> (\<forall>g\<in>set G. g \<le> t) \<and>
     (\<forall>s. int (stretch_count G (sw_period b) s) \<le> sw_capacity b) \<and>
     recent (t - sw_period b) G \<subseteq># mset (sw_log b)"

lemma window_okD:
  assumes "window_ok t b G"
  shows "sorted (sw_log b)" "x \<in> set (sw_log b) \<Longrightarrow> x \<le> t" "int (length (sw_log b)) \<le> sw_capacity b"
    "1 \<le> sw_capacity b" "0 < sw_period b" "g \<in> set G \<Longrightarrow> g \<le> t"
    "int (stretch_count G (sw_period b) s) \<le> sw_capacity b" "recent (t - sw_period b) G \<subseteq># mset (sw_log b)"
  using assms by (auto simp: window_ok_def)

lemma recent_mono: "h \<le> h' \<Longrightarrow> recent h' G \<subseteq># recent h G"
  unfolding recent_def by (rule filter_mset_mono_strong) auto

lemma window_ok_later: "window_ok t b G \<Longrightarrow> t \<le> t' \<Longrightarrow> window_ok t' b G"
  using recent_mono[of "t - sw_period b" "t' - sw_period b" G]
  by (force simp: window_ok_def intro: subset_mset.order_trans)

lemma fresh_window_ok: "1 \<le> sw_capacity b \<Longrightarrow> 0 < sw_period b \<Longrightarrow> sw_log b = [] \<Longrightarrow> window_ok t b []"
  by (simp add: window_ok_def stretch_count_def recent_def)

lemma sw_expire_sel [simp]:
  "sw_capacity (sw_expire now b) = sw_capacity b" "sw_period (sw_expire now b) = sw_period b"
  by (simp_all add: sw_expire_def)

lemma expire_log: "sorted (sw_log b) \<Longrightarrow> sw_log (sw_expire now b) = filter (\<lambda>t. now - sw_period b < t) (sw_log b)"
proof -
  have "sorted xs \<Longrightarrow> dropWhile (\<lambda>t. t \<le> h) xs = filter (\<lambda>t. h < t) xs" for h :: rat and xs
  proof (induction xs)
    case (Cons x xs)
    show ?case
    proof (cases "x \<le> h")
      case False
      then have "\<forall>y\<in>set (x # xs). h < y" using Cons.prems by auto
      then have "filter (\<lambda>t. h < t) (x # xs) = x # xs" by (subst filter_id_conv) blast
      with False show ?thesis by (simp only: dropWhile.simps if_False)
    qed (use Cons in simp)
  qed simp
  then show "sorted (sw_log b) \<Longrightarrow> sw_log (sw_expire now b) = filter (\<lambda>t. now - sw_period b < t) (sw_log b)"
    by (simp add: sw_expire_def)
qed

lemma expire_suffix: "\<exists>k. sw_log (sw_expire now b) = drop k (sw_log b)"
  by (simp add: sw_expire_def) (metis dropWhile_eq_drop)

lemma expire_shorter: "length (sw_log (sw_expire now b)) \<le> length (sw_log b)"
  by (simp add: sw_expire_def length_dropWhile_le)

lemma expire_ok:
  assumes "window_ok t b G" "t \<le> now"
  shows "window_ok now (sw_expire now b) G"
proof -
  note w = window_okD[OF assms(1)]
  note log = expire_log[OF w(1), of now]
  have "recent (now - sw_period b) G = filter_mset (\<lambda>g. now - sw_period b < g) (recent (t - sw_period b) G)"
    using assms(2) unfolding recent_def filter_filter_mset by (rule_tac filter_mset_cong) auto
  also have "\<dots> \<subseteq># filter_mset (\<lambda>g. now - sw_period b < g) (mset (sw_log b))"
    by (rule multiset_filter_mono) (rule w(8))
  finally have "recent (now - sw_period b) G \<subseteq># mset (sw_log (sw_expire now b))" by (simp add: log)
  moreover have "sorted (sw_log (sw_expire now b))" unfolding log by (rule sorted_wrt_filter) (rule w(1))
  moreover have "\<forall>x\<in>set (sw_log (sw_expire now b)). x \<le> now" using w(2) assms(2) by (fastforce simp: log)
  moreover have "\<forall>g\<in>set G. g \<le> now" using w(6) assms(2) by fastforce
  ultimately show ?thesis
    using w expire_shorter[of now b] by (simp add: window_ok_def)
qed

definition room :: "sliding_window \<Rightarrow> bool" where
  "room b \<longleftrightarrow> int (length (sw_log b)) < sw_capacity b"

definition charge :: "rat \<Rightarrow> sliding_window \<Rightarrow> sliding_window" where
  "charge now b = b\<lparr>sw_log := sw_log b @ [now]\<rparr>"

lemma stretch_count_mset: "stretch_count G p s = size (filter_mset (\<lambda>g. s - p < g \<and> g \<le> s) (mset G))"
  unfolding stretch_count_def mset_filter[symmetric] size_mset ..

lemma stretch_count_snoc:
  "stretch_count (G @ [g]) p s = stretch_count G p s + (if s - p < g \<and> g \<le> s then 1 else 0)"
  by (simp add: stretch_count_def)

lemma charge_ok:
  assumes "window_ok now b G" "room b"
  shows "window_ok now (charge now b) (G @ [now])"
proof -
  note w = window_okD[OF assms(1)]
  have "int (stretch_count (G @ [now]) (sw_period b) s) \<le> sw_capacity b" for s
  proof (cases "s - sw_period b < now \<and> now \<le> s")
    case True
    have "stretch_count G (sw_period b) s \<le> size (recent (now - sw_period b) G)"
    proof -
      have "filter_mset (\<lambda>g. s - sw_period b < g \<and> g \<le> s) (mset G) \<subseteq># recent (now - sw_period b) G"
        unfolding recent_def by (rule filter_mset_mono_strong) (use True in auto)
      from size_mset_mono[OF this] show ?thesis unfolding stretch_count_mset .
    qed
    also have "\<dots> \<le> length (sw_log b)" using size_mset_mono[OF w(8)] by simp
    finally show ?thesis using True assms(2) by (simp add: stretch_count_snoc room_def)
  qed (use w(7)[of s] in \<open>auto simp: stretch_count_snoc\<close>)
  moreover have "recent (now - sw_period b) (G @ [now]) \<subseteq># mset (sw_log b @ [now])"
    using w(5,8) by (simp add: recent_def)
  moreover have "sorted (sw_log b @ [now])" using w(1,2) by (simp add: sorted_append)
  ultimately show ?thesis using w assms(2) by (auto simp: window_ok_def charge_def room_def)
qed

text \<open>Synthetic charges fill the window without being grants.\<close>

lemma fill_ok:
  assumes "window_ok now b G" "int (length (sw_log b) + n) \<le> sw_capacity b"
  shows "window_ok now (b\<lparr>sw_log := sw_log b @ replicate n now\<rparr>) G"
proof -
  note w = window_okD[OF assms(1)]
  have "sorted (sw_log b @ replicate n now)" using w(1,2) by (simp add: sorted_append)
  moreover have "recent (now - sw_period b) G \<subseteq># mset (sw_log b @ replicate n now)"
    using w(8) by (simp add: subset_mset.add_increasing2)
  ultimately show ?thesis using w assms(2) by (auto simp: window_ok_def)
qed

section \<open>The operations of a window\<close>

lemma acquire_alt:
  "sw_acquire now b = (let b1 = sw_expire now b in if room b1 then (True, charge now b1) else (False, b1))"
  by (auto simp: sw_acquire_def room_def charge_def Let_def)

lemma room_expire: "room b \<Longrightarrow> room (sw_expire now b)"
  using expire_shorter[of now b] by (simp add: room_def)

lemma wait_snd: "snd (sw_time_until_available now b) = sw_expire now b"
  by (simp add: sw_time_until_available_def Let_def)

lemma wait_nonneg: "0 \<le> fst (sw_time_until_available now b)"
  by (simp add: sw_time_until_available_def Let_def)

text \<open>A window reports no wait exactly when it has room.\<close>

lemma wait_room:
  assumes "1 \<le> sw_capacity b"
  shows "fst (sw_time_until_available now b) > 0 \<longleftrightarrow> \<not> room (sw_expire now b)"
proof (cases "room (sw_expire now b)")
  case False
  then have "sw_log (sw_expire now b) \<noteq> []" using assms by (auto simp: room_def)
  then have "\<not> hd (sw_log (sw_expire now b)) \<le> now - sw_period b"
    using hd_dropWhile[of "\<lambda>t. t \<le> now - sw_period b" "sw_log b"] by (simp add: sw_expire_def)
  with False show ?thesis by (simp add: sw_time_until_available_def Let_def room_def)
qed (simp add: sw_time_until_available_def Let_def room_def)

text \<open>A window is ready from some time on when it has room or its oldest charge lapses by then.\<close>

definition ready_by :: "rat \<Rightarrow> sliding_window \<Rightarrow> bool" where
  "ready_by t b \<longleftrightarrow> room b \<or> hd (sw_log b) + sw_period b \<le> t"

lemma ready_later: "ready_by t b \<Longrightarrow> t \<le> t' \<Longrightarrow> ready_by t' b"
  by (auto simp: ready_by_def)

lemma ready_room:
  assumes "ready_by t b" "t \<le> now" "window_ok u b G"
  shows "room (sw_expire now b)"
proof (cases "room b")
  case False
  note w = window_okD[OF assms(3)]
  from False w(4) obtain x xs where log: "sw_log b = x # xs" by (cases "sw_log b") (auto simp: room_def)
  with False assms(1,2) have "x \<le> now - sw_period b" by (simp add: ready_by_def)
  then have "length (sw_log (sw_expire now b)) \<le> length xs"
    using log length_dropWhile_le[of _ xs] by (simp add: sw_expire_def)
  with w(3) log show ?thesis by (simp add: room_def)
qed (rule room_expire)

lemma wait_ready:
  assumes "window_ok u b G"
  shows "ready_by (now + fst (sw_time_until_available now b)) (sw_expire now b)"
  by (auto simp: ready_by_def room_def sw_time_until_available_def Let_def)

lemma resync_ok:
  assumes "sw_resync x clock b w = (r, b', w')" "steady clock tm" "window_ok (tm w) b G"
  shows "window_ok (tm w') b' G \<and> tm w \<le> tm w'"
proof (cases "int_of_float x")
  case (Inl e)
  with assms show ?thesis by (cases e) (auto simp: sw_resync_def)
next
  case (Inr n)
  obtain now w1 where c: "clock w = (now, w1)" by fastforce
  note s = steadyD[OF assms(2) c]
  define b1 where "b1 = sw_expire now b"
  define k where "k = nat (sw_capacity b - max 0 (min (sw_capacity b) n)) - length (sw_log b1)"
  have b': "b' = b1\<lparr>sw_log := sw_log b1 @ replicate k now\<rparr>" "w' = w1"
    using assms(1) Inr c by (auto simp: sw_resync_def Let_def b1_def k_def)
  have ok: "window_ok now b1 G" unfolding b1_def by (rule expire_ok[OF assms(3)]) (use s in simp)
  have "int (length (sw_log b1) + k) \<le> sw_capacity b1"
    using window_okD(3,4)[OF ok] by (auto simp: k_def b1_def)
  from fill_ok[OF ok this] show ?thesis using s b' by (auto intro: window_ok_later)
qed

end
