(* ===== verification/Quest_Client.thy ===== *)
theory Quest_Client
  imports Quest_Limits
begin

text \<open>
  Model of the client of \<open>questrade_client.py\<close>: the rotation of the refresh token, the
  dispatch of a request under a budget, the registry of accounts and the eligibility of an
  order side. The transport, the clocks, the sleep and the persistence are functions of the
  environment acting on an outside world. Messages are left out: an error keeps its class and its
  codes, a verdict keeps which rule gave it.
\<close>

section \<open>Accounts\<close>

datatype account_type =
    CASH | MARGIN | TFSA | RRSP | FHSA | SRRSP | LRRSP | LIRA | LIF | RIF | SRIF | LRIF | RRIF | PRIF
  | RESP | FRESP | UNKNOWN_TYPE

datatype account_status = ACTIVE | SUSPENDED_CLOSED | SUSPENDED_VIEW_ONLY | LIQUIDATE_ONLY | CLOSED_STATUS | UNKNOWN_STATUS

definition account_type_values :: "(string \<times> account_type) list" where
  "account_type_values =
     [(''Cash'', CASH), (''Margin'', MARGIN), (''TFSA'', TFSA), (''RRSP'', RRSP), (''FHSA'', FHSA),
      (''SRRSP'', SRRSP), (''LRRSP'', LRRSP), (''LIRA'', LIRA), (''LIF'', LIF), (''RIF'', RIF),
      (''SRIF'', SRIF), (''LRIF'', LRIF), (''RRIF'', RRIF), (''PRIF'', PRIF), (''RESP'', RESP),
      (''FRESP'', FRESP), (''__unknown__'', UNKNOWN_TYPE)]"

definition account_type_from_api :: "py_value \<Rightarrow> bool \<Rightarrow> quest_error + account_type" where
  "account_type_from_api raw strict =
     (case map_of account_type_values (py_str raw) of
        Some t \<Rightarrow> Inr t
      | None \<Rightarrow> (if strict then Inl (Api_Error None None) else Inr UNKNOWN_TYPE))"

definition account_status_values :: "(string \<times> account_status) list" where
  "account_status_values =
     [(''Active'', ACTIVE), (''Suspended (Closed)'', SUSPENDED_CLOSED),
      (''Suspended (View Only)'', SUSPENDED_VIEW_ONLY), (''Liquidate Only'', LIQUIDATE_ONLY),
      (''Closed'', CLOSED_STATUS), (''__unknown__'', UNKNOWN_STATUS)]"

definition account_status_from_api :: "py_value \<Rightarrow> account_status" where
  "account_status_from_api raw =
     (case map_of account_status_values (py_str raw) of Some s \<Rightarrow> s | None \<Rightarrow> UNKNOWN_STATUS)"

definition registered_account_types :: "account_type list" where
  "registered_account_types =
     [TFSA, RRSP, FHSA, SRRSP, LRRSP, LIRA, LIF, RIF, SRIF, LRIF, RRIF, PRIF, RESP, FRESP]"

definition margin_capable_account_types :: "account_type list" where
  "margin_capable_account_types = [MARGIN]"

definition ORDER_SIDES :: "string list" where
  "ORDER_SIDES = [''Buy'', ''Sell'', ''Short'', ''Cov'', ''BTO'', ''STC'', ''STO'', ''BTC'']"

definition BORROW_REQUIRING_SIDES :: "string list" where
  "BORROW_REQUIRING_SIDES = [''Short'', ''Cov'']"

definition OPTION_WRITING_SIDES :: "string list" where
  "OPTION_WRITING_SIDES = [''STO'']"

definition POSITION_REDUCING_SIDES :: "string list" where
  "POSITION_REDUCING_SIDES = [''Sell'', ''Cov'', ''STC'', ''BTC'']"

record quest_account =
  qa_number :: string
  qa_type :: account_type
  qa_primary :: bool
  qa_status :: account_status
  qa_billing :: bool
  qa_client_type :: string

definition is_registered :: "quest_account \<Rightarrow> bool" where
  "is_registered a \<longleftrightarrow> qa_type a \<in> set registered_account_types"

definition can_borrow :: "quest_account \<Rightarrow> bool" where
  "can_borrow a \<longleftrightarrow> qa_type a \<in> set margin_capable_account_types"

section \<open>The client\<close>

record quest_config =
  practice :: bool
  strict_account_types :: bool
  token_request_method :: string
  expiry_skew_sec :: rat
  max_wait_sec :: rat

record quest_client =
  rate_limiter :: quest_limiter
  auth_token :: "session_token option"
  accounts :: "(string, quest_account) py_dict"

definition make_client ::
  "bool \<Rightarrow> quest_limiter option \<Rightarrow> bool \<Rightarrow> string \<Rightarrow> rat \<Rightarrow> rat \<Rightarrow> quest_error + quest_config \<times> quest_client" where
  "make_client is_practice limiter strict method skew max_wait =
     (if skew < 0 then Inl Value_Err
      else if max_wait < 0 then Inl Value_Err
      else if py_upper method \<notin> {''GET'', ''POST''} then Inl Value_Err
      else
        (case (case limiter of Some L \<Rightarrow> Inr L | None \<Rightarrow> make_limiter None) of
           Inl e \<Rightarrow> Inl e
         | Inr L \<Rightarrow> Inr (\<lparr>practice = is_practice, strict_account_types = strict, token_request_method = py_upper method,
               expiry_skew_sec = skew, max_wait_sec = max_wait\<rparr>,
             \<lparr>rate_limiter = L, auth_token = None, accounts = []\<rparr>)))"

definition login_host :: "quest_config \<Rightarrow> string" where
  "login_host C = (if practice C then ''https://practicelogin.questrade.com'' else ''https://login.questrade.com'')"

section \<open>Transport\<close>

text \<open>An answer of two or three parts with an integer status; the rest is refused.\<close>

definition unpack :: "py_value \<Rightarrow> quest_error + int \<times> py_value \<times> py_value" where
  "unpack result = (case result of
     V_list _ [V_int status, data] \<Rightarrow> Inr (status, data, V_none)
   | V_list _ [V_int status, data, headers] \<Rightarrow> Inr (status, data, headers)
   | _ \<Rightarrow> Inl (Api_Error None None))"

text \<open>\<open>int(v)\<close>; \<open>None\<close> is what \<open>except (TypeError, ValueError)\<close> catches.\<close>

definition parse_int_text :: "string \<Rightarrow> int option" where
  "parse_int_text s =
     (let (neg, body) = take_sign (py_strip s); (ds, rest) = take_digits body in
      if ds = [] \<or> rest \<noteq> [] then None else Some (if neg then - dec_value 0 ds else dec_value 0 ds))"

definition py_int :: "py_value \<Rightarrow> quest_error + int option" where
  "py_int v = (case v of
     V_str s \<Rightarrow> Inr (parse_int_text s)
   | _ \<Rightarrow> (case py_number v of
       None \<Rightarrow> Inr None
     | Some (N_int n) \<Rightarrow> Inr (Some n)
     | Some x \<Rightarrow> (case int_of_float x of Inr n \<Rightarrow> Inr (Some n) | Inl Overflow_Err \<Rightarrow> Inl Overflow_Err | Inl _ \<Rightarrow> Inr None)))"

definition raise_for_embedded_error :: "py_value \<Rightarrow> int \<Rightarrow> quest_error option" where
  "raise_for_embedded_error data status = (case data of
     V_map _ kvs \<Rightarrow>
       (case (py_get kvs ''code'', py_get kvs ''message'') of
          (Some code, Some _) \<Rightarrow>
            (case py_int code of Inl e \<Rightarrow> Some e | Inr n \<Rightarrow> Some (Api_Error (Some status) n))
        | _ \<Rightarrow> None)
   | _ \<Rightarrow> None)"

text \<open>
  Waiting for the budget of a category. One round tries, measures the wait, and gives up or
  sleeps; the loop goes round until one of the others happens, and its value is \<open>None\<close> when it
  never does.
\<close>

datatype await_round = Granted | Refused | Slept

definition await_once ::
  "'w quest_env \<Rightarrow> rate_category \<Rightarrow> rat \<Rightarrow> quest_limiter \<Rightarrow> 'w \<Rightarrow> await_round \<times> quest_limiter \<times> 'w" where
  "await_once E c deadline L w =
     (let (granted, L1, w1) = limiter_acquire (monotonic E) c L w in
      if granted then (Granted, L1, w1)
      else
        (let (wait, L2, w2) = limiter_wait (monotonic E) c L1 w1;
             (now, w3) = monotonic E w2;
             remaining = deadline - now
         in if wait > remaining \<or> remaining \<le> 0 then
              (let (_, m, w4) = mb_binding_window (monotonic E) (budget_of L2 c) w3
               in (Refused, py_set L2 c m, w4))
            else (Slept, L2, sleep_fn E (max 0 (min wait remaining)) w3)))"

partial_function (option) await_loop ::
  "'w quest_env \<Rightarrow> rate_category \<Rightarrow> rat \<Rightarrow> quest_limiter \<Rightarrow> 'w \<Rightarrow> (bool \<times> quest_limiter \<times> 'w) option" where
  "await_loop E c deadline L w =
     (case await_once E c deadline L w of
        (r, L1, w1) \<Rightarrow>
          if r = Granted then Some (True, L1, w1)
          else if r = Refused then Some (False, L1, w1)
          else await_loop E c deadline L1 w1)"

definition await_budget ::
  "'w quest_env \<Rightarrow> quest_config \<Rightarrow> rate_category \<Rightarrow> quest_limiter \<Rightarrow> 'w \<Rightarrow> (bool \<times> quest_limiter \<times> 'w) option" where
  "await_budget E C c L w = (let (now, w1) = monotonic E w in await_loop E c (now + max_wait_sec C) L w1)"

section \<open>The session\<close>

fun num_add :: "rat \<Rightarrow> number \<Rightarrow> number" where
  "num_add a (N_int n) = N_float (a + of_int n)"
| "num_add a (N_float r) = N_float (a + r)"
| "num_add a x = x"

text \<open>\<open>deadline - now <= skew\<close>.\<close>

definition within_skew :: "number \<Rightarrow> rat \<Rightarrow> rat \<Rightarrow> bool" where
  "within_skew deadline now skew = (case deadline of
     N_nan \<Rightarrow> False | N_inf pos \<Rightarrow> \<not> pos | _ \<Rightarrow> num_rat deadline - now \<le> skew)"

text \<open>Without a session no clock is read and the remaining time is zero.\<close>

definition is_token_expired :: "'w quest_env \<Rightarrow> rat \<Rightarrow> quest_client \<Rightarrow> 'w \<Rightarrow> bool \<times> 'w" where
  "is_token_expired E skew q w =
     (case auth_token q of
        None \<Rightarrow> (0 \<le> skew, w)
      | Some t \<Rightarrow> (let (now, w1) = monotonic E w in (within_skew (st_deadline t) now skew, w1)))"

definition require_token :: "'w quest_env \<Rightarrow> quest_config \<Rightarrow> quest_client \<Rightarrow> 'w \<Rightarrow> (quest_error + session_token) \<times> 'w" where
  "require_token E C q w =
     (case auth_token q of
        None \<Rightarrow> (Inl (Auth_Error None), w)
      | Some t \<Rightarrow>
          (let (expired, w1) = is_token_expired E (expiry_skew_sec C) q w in
           (if expired then Inl (Auth_Error None) else Inr t, w1)))"

definition quest_request ::
  "'w quest_env \<Rightarrow> quest_config \<Rightarrow> string \<Rightarrow> string \<Rightarrow> rate_category option \<Rightarrow> quest_client \<Rightarrow> 'w \<Rightarrow>
     ((quest_error + py_value) \<times> quest_client \<times> 'w) option" where
  "quest_request E C http_method path category q w =
     (case require_token E C q w of
        (Inl e, w1) \<Rightarrow> Some (Inl e, q, w1)
      | (Inr token, w1) \<Rightarrow>
          (let c = (case category of Some c \<Rightarrow> c | None \<Rightarrow> categorize_endpoint path) in
           case await_budget E C c (rate_limiter q) w1 of
             None \<Rightarrow> None
           | Some (False, L, w2) \<Rightarrow> Some (Inl Rate_Limit_Local, q\<lparr>rate_limiter := L\<rparr>, w2)
           | Some (True, L, w2) \<Rightarrow>
               (let (answer, w3) = http_fn E \<lparr>hr_method = http_method, hr_url = st_server token @ lstrip_slashes path,
                      hr_headers = [(''Authorization'', st_type token @ '' '' @ st_access token)], hr_body = None\<rparr> w2;
                    q1 = q\<lparr>rate_limiter := L\<rparr>
                in case answer of
                     Inl x \<Rightarrow> Some (Inl (Raised x), q1, w3)
                   | Inr result \<Rightarrow>
                       (case unpack result of
                          Inl e \<Rightarrow> Some (Inl e, q1, w3)
                        | Inr (status, data, headers) \<Rightarrow>
                            (case apply_headers (monotonic E) c headers L w3 of
                               (Inl e, L1, w4) \<Rightarrow> Some (Inl e, q\<lparr>rate_limiter := L1\<rparr>, w4)
                             | (Inr _, L1, w4) \<Rightarrow>
                                 (let q2 = q\<lparr>rate_limiter := L1\<rparr> in
                                  if status = 429 then
                                    (case parse_rate_limit_reset headers of
                                       Inl e \<Rightarrow> Some (Inl e, q2, w4)
                                     | Inr reset \<Rightarrow> Some (Inl (Rate_Limit_Server reset), q2, w4))
                                  else if status = 401 \<or> status = 403 then Some (Inl (Auth_Error (Some status)), q2, w4)
                                  else if status \<noteq> 200 then Some (Inl (Api_Error (Some status) None), q2, w4)
                                  else
                                    (case raise_for_embedded_error data status of
                                       Some e \<Rightarrow> Some (Inl e, q2, w4)
                                     | None \<Rightarrow> Some (Inr data, q2, w4))))))))"

section \<open>Rotating the refresh token\<close>

text \<open>\<open>quote(token, safe="")\<close>: the UTF-8 bytes of every character that is not unreserved.\<close>

definition unreserved :: "char \<Rightarrow> bool" where
  "unreserved c \<longleftrightarrow> (let n = (of_char c :: int) in
     48 \<le> n \<and> n \<le> 57 \<or> 65 \<le> n \<and> n \<le> 90 \<or> 97 \<le> n \<and> n \<le> 122) \<or> c \<in> set ''_.-~''"

definition upper_hex :: "int \<Rightarrow> char" where
  "upper_hex n = (if n < 10 then char_of (48 + n) else char_of (55 + n))"

definition percent_byte :: "int \<Rightarrow> string" where
  "percent_byte n = [CHR ''%'', upper_hex (n div 16), upper_hex (n mod 16)]"

definition quote_char :: "char \<Rightarrow> string" where
  "quote_char c =
     (let n = (of_char c :: int) in
      if unreserved c then [c]
      else if n < 128 then percent_byte n
      else percent_byte (192 + n div 64) @ percent_byte (128 + n mod 64))"

definition url_quote :: "string \<Rightarrow> string" where
  "url_quote s = concat (map quote_char s)"

definition token_request :: "quest_config \<Rightarrow> string \<Rightarrow> http_request" where
  "token_request C token =
     (let endpoint = login_host C @ ''/oauth2/token'' in
      if token_request_method C = ''POST'' then
        \<lparr>hr_method = ''POST'', hr_url = endpoint,
         hr_headers = [(''Content-Type'', ''application/x-www-form-urlencoded'')],
         hr_body = Some [(''grant_type'', ''refresh_token''), (''refresh_token'', token)]\<rparr>
      else
        \<lparr>hr_method = token_request_method C,
         hr_url = endpoint @ ''?grant_type=refresh_token&refresh_token='' @ url_quote token,
         hr_headers = [], hr_body = None\<rparr>)"

definition normalize_api_server :: "py_value \<Rightarrow> quest_error + string" where
  "normalize_api_server raw = (case raw of
     V_str s \<Rightarrow>
       (let server = py_strip s in
        if server = '''' then Inl (Auth_Error None)
        else if take 8 (py_lower server) \<noteq> ''https://'' then Inl (Auth_Error None)
        else
          (let s1 = rstrip_slashes server;
               n = length s1;
               s2 = (if n \<ge> 3 \<and> drop (n - 3) (py_lower s1) = ''/v1'' then take (n - 3) s1 else s1)
           in Inr (s2 @ ''/'')))
   | _ \<Rightarrow> Inl (Auth_Error None))"

definition field_of :: "py_mapping \<Rightarrow> string \<Rightarrow> py_value" where
  "field_of kvs k = (case py_get kvs k of Some v \<Rightarrow> v | None \<Rightarrow> V_none)"

text \<open>What an answer of the token endpoint says, before any clock is read.\<close>

definition token_fields :: "int \<Rightarrow> py_value \<Rightarrow> quest_error + py_mapping \<times> number \<times> string" where
  "token_fields status data = (case data of
     V_map _ kvs \<Rightarrow>
       (if status \<noteq> 200 then Inl (Auth_Error (Some status))
        else if list_ex (\<lambda>k. \<not> py_truthy (field_of kvs k)) [''access_token'', ''refresh_token'', ''api_server'', ''expires_in'']
        then Inl (Auth_Error None)
        else
          (case py_float (field_of kvs ''expires_in'') of
             Inl Overflow_Err \<Rightarrow> Inl Overflow_Err
           | Inl _ \<Rightarrow> Inl (Auth_Error None)
           | Inr expires_in \<Rightarrow>
               (if not_positive expires_in then Inl (Auth_Error None)
                else (case normalize_api_server (field_of kvs ''api_server'') of
                        Inl e \<Rightarrow> Inl e | Inr server \<Rightarrow> Inr (kvs, expires_in, server)))))
   | _ \<Rightarrow> Inl (Auth_Error (Some status)))"

definition new_session :: "'w quest_env \<Rightarrow> py_mapping \<Rightarrow> number \<Rightarrow> string \<Rightarrow> 'w \<Rightarrow> session_token \<times> 'w" where
  "new_session E kvs expires_in server w =
     (let (wall, w1) = wall_clock E w; (now, w2) = monotonic E w1;
          kind = field_of kvs ''token_type''
      in (\<lparr>st_access = py_str (field_of kvs ''access_token''), st_refresh = py_str (field_of kvs ''refresh_token''),
           st_server = server, st_type = (if py_truthy kind then py_str kind else ''Bearer''),
           st_expires_at = num_add wall expires_in, st_expires_in = expires_in, st_deadline = num_add now expires_in\<rparr>, w2))"

text \<open>The new session is persisted before it replaces the old one.\<close>

definition refresh_access_token ::
  "'w quest_env \<Rightarrow> quest_config \<Rightarrow> string \<Rightarrow> quest_client \<Rightarrow> 'w \<Rightarrow> (quest_error + session_token) \<times> quest_client \<times> 'w" where
  "refresh_access_token E C refresh_token q w =
     (let token = py_strip refresh_token in
      if token = '''' then (Inl (Auth_Error None), q, w)
      else
        (case http_fn E (token_request C token) w of
           (Inl x, w1) \<Rightarrow> (Inl (Raised x), q, w1)
         | (Inr result, w1) \<Rightarrow>
             (case unpack result of
                Inl e \<Rightarrow> (Inl e, q, w1)
              | Inr (status, data, _) \<Rightarrow>
                  (case token_fields status data of
                     Inl e \<Rightarrow> (Inl e, q, w1)
                   | Inr (kvs, expires_in, server) \<Rightarrow>
                       (let (session, w2) = new_session E kvs expires_in server w1 in
                        case token_persist_fn E of
                          None \<Rightarrow> (Inr session, q\<lparr>auth_token := Some session\<rparr>, w2)
                        | Some persist \<Rightarrow>
                            (let (ok, w3) = persist session w2 in
                             if \<not> ok then (Inl (Auth_Error None), q, w3)
                             else (Inr session, q\<lparr>auth_token := Some session\<rparr>, w3)))))))"

definition ensure_authenticated ::
  "'w quest_env \<Rightarrow> quest_config \<Rightarrow> quest_client \<Rightarrow> 'w \<Rightarrow> (quest_error + session_token) \<times> quest_client \<times> 'w" where
  "ensure_authenticated E C q w =
     (case auth_token q of
        None \<Rightarrow> (Inl (Auth_Error None), q, w)
      | Some t \<Rightarrow>
          (let (expired, w1) = is_token_expired E (expiry_skew_sec C) q w in
           if expired then refresh_access_token E C (st_refresh t) q w1 else (Inr t, q, w1)))"

section \<open>The registry of accounts\<close>

text \<open>What a \<open>for\<close> loop takes from a value.\<close>

definition py_iterate :: "py_value \<Rightarrow> quest_error + py_value list" where
  "py_iterate v = (case v of
     V_list _ xs \<Rightarrow> Inr xs
   | V_str s \<Rightarrow> Inr (map (\<lambda>c. V_str [c]) s)
   | V_map _ kvs \<Rightarrow> Inr (map (\<lambda>p. V_str (fst p)) kvs)
   | _ \<Rightarrow> Inl Type_Err)"

definition read_account :: "quest_config \<Rightarrow> py_value \<Rightarrow> quest_error + quest_account" where
  "read_account C raw = (case raw of
     V_map _ kvs \<Rightarrow>
       (if \<not> py_truthy (field_of kvs ''number'') then Inl (Api_Error None None)
        else
          (case account_type_from_api (field_of kvs ''type'') (strict_account_types C) of
             Inl e \<Rightarrow> Inl e
           | Inr t \<Rightarrow>
               Inr \<lparr>qa_number = py_str (field_of kvs ''number''), qa_type = t,
                    qa_primary = py_truthy (field_of kvs ''isPrimary''),
                    qa_status = account_status_from_api (field_of kvs ''status''),
                    qa_billing = py_truthy (field_of kvs ''isBilling''),
                    qa_client_type = (case py_get kvs ''clientAccountType'' of None \<Rightarrow> '''' | Some v \<Rightarrow> py_str v)\<rparr>))
   | _ \<Rightarrow> Inl (Api_Error None None))"

fun read_accounts :: "quest_config \<Rightarrow> py_value list \<Rightarrow> quest_error + quest_account list" where
  "read_accounts C [] = Inr []"
| "read_accounts C (raw # rest) =
     (case read_account C raw of
        Inl e \<Rightarrow> Inl e
      | Inr a \<Rightarrow> (case read_accounts C rest of Inl e \<Rightarrow> Inl e | Inr xs \<Rightarrow> Inr (a # xs)))"

definition registry_of :: "quest_account list \<Rightarrow> (string, quest_account) py_dict" where
  "registry_of xs = fold (\<lambda>a d. py_set d (qa_number a) a) xs []"

definition fetch_accounts ::
  "'w quest_env \<Rightarrow> quest_config \<Rightarrow> quest_client \<Rightarrow> 'w \<Rightarrow> ((quest_error + quest_account list) \<times> quest_client \<times> 'w) option" where
  "fetch_accounts E C q w =
     (case quest_request E C ''GET'' ''v1/accounts'' (Some ACCOUNT) q w of
        None \<Rightarrow> None
      | Some (Inl e, q1, w1) \<Rightarrow> Some (Inl e, q1, w1)
      | Some (Inr data, q1, w1) \<Rightarrow>
          (case data of
             V_map _ kvs \<Rightarrow>
               (case (case py_get kvs ''accounts'' of None \<Rightarrow> Inr [] | Some v \<Rightarrow> py_iterate v) of
                  Inl e \<Rightarrow> Some (Inl e, q1, w1)
                | Inr raws \<Rightarrow>
                    (case read_accounts C raws of
                       Inl e \<Rightarrow> Some (Inl e, q1, w1)
                     | Inr xs \<Rightarrow> Some (Inr xs, q1\<lparr>accounts := registry_of xs\<rparr>, w1)))
           | _ \<Rightarrow> Some (Inl (Api_Error None None), q1, w1)))"

definition get_account :: "quest_client \<Rightarrow> string \<Rightarrow> quest_error + quest_account" where
  "get_account q number = (case py_get (accounts q) number of Some a \<Rightarrow> Inr a | None \<Rightarrow> Inl (Api_Error None None))"

section \<open>Eligibility\<close>

datatype verdict = ALLOWED | DENIED | REVIEW_REQUIRED

datatype verdict_reason =
    Only_reducing_sides | Status_not_active | Type_not_recognised | Registered_plan_may_not_borrow
  | No_margin_facility | Broker_approval_unknown | Permitted

record eligibility =
  el_verdict :: verdict
  el_reason :: verdict_reason
  el_account :: string
  el_type :: account_type
  el_side :: string

definition order_eligible :: "eligibility \<Rightarrow> bool" where
  "order_eligible r \<longleftrightarrow> el_verdict r = ALLOWED"

definition order_verdict :: "quest_account \<Rightarrow> string \<Rightarrow> verdict \<times> verdict_reason" where
  "order_verdict a side =
     (if qa_status a = LIQUIDATE_ONLY \<and> side \<notin> set POSITION_REDUCING_SIDES then (DENIED, Only_reducing_sides)
      else if qa_status a \<noteq> LIQUIDATE_ONLY \<and> qa_status a \<noteq> ACTIVE then (DENIED, Status_not_active)
      else if side \<in> set BORROW_REQUIRING_SIDES \<and> \<not> can_borrow a then
        (DENIED, if qa_type a = UNKNOWN_TYPE then Type_not_recognised
                 else if is_registered a then Registered_plan_may_not_borrow else No_margin_facility)
      else if side \<in> set OPTION_WRITING_SIDES \<and> qa_type a \<noteq> MARGIN then (REVIEW_REQUIRED, Broker_approval_unknown)
      else (ALLOWED, Permitted))"

definition check_order_eligibility :: "quest_client \<Rightarrow> string \<Rightarrow> string \<Rightarrow> quest_error + eligibility" where
  "check_order_eligibility q number side =
     (if side \<notin> set ORDER_SIDES then Inl Value_Err
      else
        (case get_account q number of
           Inl e \<Rightarrow> Inl e
         | Inr a \<Rightarrow>
             (let (v, reason) = order_verdict a side in
              Inr \<lparr>el_verdict = v, el_reason = reason, el_account = qa_number a, el_type = qa_type a, el_side = side\<rparr>)))"

definition validate_order_for_account :: "quest_client \<Rightarrow> string \<Rightarrow> string \<Rightarrow> quest_error + bool" where
  "validate_order_for_account q number side =
     (case check_order_eligibility q number side of Inl e \<Rightarrow> Inl e | Inr r \<Rightarrow> Inr (order_eligible r))"

definition assert_order_allowed :: "quest_client \<Rightarrow> string \<Rightarrow> string \<Rightarrow> quest_error + eligibility" where
  "assert_order_allowed q number side =
     (case check_order_eligibility q number side of
        Inl e \<Rightarrow> Inl e
      | Inr r \<Rightarrow> (if order_eligible r then Inr r else Inl Account_Restriction))"

end
