(* ===== verification/Quest_Budget.thy ===== *)
theory Quest_Budget
  imports Quest_Windows Quest_Client
begin

text \<open>
  Budgets of several windows, the limiter and the wait for a budget, under a clock that never
  goes back: what they keep, and why a wait that sleeps once is granted.
\<close>

section \<open>All windows of a budget\<close>

definition windows_ok :: "rat \<Rightarrow> sliding_window list \<Rightarrow> rat list list \<Rightarrow> bool" where
  "windows_ok t bs Gs \<longleftrightarrow> list_all2 (window_ok t) bs Gs"

lemma windows_ok_simps [simp]:
  "windows_ok t [] Gs \<longleftrightarrow> Gs = []" "windows_ok t (b # bs) (G # Gs) \<longleftrightarrow> window_ok t b G \<and> windows_ok t bs Gs"
  "windows_ok t (b # bs) [] \<longleftrightarrow> False"
  by (simp_all add: windows_ok_def)

lemma windows_ok_later: "windows_ok t bs Gs \<Longrightarrow> t \<le> t' \<Longrightarrow> windows_ok t' bs Gs"
  unfolding windows_ok_def by (auto elim!: list_all2_mono intro: window_ok_later)

lemma windows_okE:
  assumes "windows_ok t (b # bs) Gs"
  obtains G Gs' where "Gs = G # Gs'" "window_ok t b G" "windows_ok t bs Gs'"
  using assms by (cases Gs) auto

text \<open>The grants after every window has been charged once.\<close>

definition charged :: "rat list list \<Rightarrow> sliding_window list \<Rightarrow> rat list list" where
  "charged Gs bs = map2 (\<lambda>G b. G @ [last (sw_log b)]) Gs bs"

lemma any_wait_effect:
  assumes "any_wait clock bs w = (r, bs', w')" "steady clock tm" "windows_ok (tm w) bs Gs"
  shows "windows_ok (tm w') bs' Gs \<and> tm w \<le> tm w' \<and> (\<not> r \<longrightarrow> list_all room bs') \<and>
    (list_all (ready_by (tm w)) bs \<longrightarrow> \<not> r)"
  using assms
proof (induction bs arbitrary: w r bs' w' Gs)
  case (Cons b bs)
  obtain G Gs' where Gs: "Gs = G # Gs'" "window_ok (tm w) b G" "windows_ok (tm w) bs Gs'"
    using Cons.prems(3) by (rule windows_okE)
  obtain now w1 where c: "clock w = (now, w1)" by fastforce
  note s = steadyD[OF Cons.prems(2) c]
  define b1 where "b1 = sw_expire now b"
  have ok1: "window_ok now b1 G" unfolding b1_def by (rule expire_ok[OF Gs(2)]) (use s in simp)
  have blocked: "fst (sw_time_until_available now b) > 0 \<longleftrightarrow> \<not> room b1"
    unfolding b1_def by (rule wait_room[OF window_okD(4)[OF Gs(2)]])
  have ready: "ready_by (tm w) b \<Longrightarrow> room b1"
    unfolding b1_def using ready_room[OF _ _ Gs(2)] s by blast
  show ?case
  proof (cases "room b1")
    case False
    with Cons.prems(1) c blocked wait_snd[of now b] have eqs: "r" "bs' = b1 # bs" "w' = w1"
      by (auto simp: b1_def split: prod.splits if_splits)
    have "windows_ok (tm w1) (b1 # bs) Gs"
      using Gs ok1 s by (auto intro: window_ok_later windows_ok_later)
    with eqs s ready False show ?thesis by auto
  next
    case True
    obtain r2 bs2 w2 where rec: "any_wait clock bs w1 = (r2, bs2, w2)" by (metis prod_cases3)
    have eqs: "r = r2" "bs' = b1 # bs2" "w' = w2"
      using Cons.prems(1) c blocked wait_snd[of now b] rec True by (auto simp: b1_def split: prod.splits if_splits)
    have "windows_ok (tm w1) bs Gs'" using Gs(3) s by (auto intro: windows_ok_later)
    note IH = Cons.IH[OF rec Cons.prems(2) this]
    have "window_ok (tm w2) b1 G" using window_ok_later[OF ok1] s IH by auto
    moreover have "list_all (ready_by (tm w)) bs \<Longrightarrow> list_all (ready_by (tm w1)) bs"
      using s by (auto simp: list_all_iff intro: ready_later)
    ultimately show ?thesis using IH eqs Gs(1) s True by auto
  qed
qed simp

lemma acquire_each_effect:
  assumes "acquire_each clock bs w = (bs', w')" "steady clock tm" "windows_ok (tm w) bs Gs" "list_all room bs"
  shows "windows_ok (tm w') bs' (charged Gs bs') \<and> tm w \<le> tm w'"
  using assms
proof (induction bs arbitrary: w bs' w' Gs)
  case (Cons b bs)
  obtain G Gs' where Gs: "Gs = G # Gs'" "window_ok (tm w) b G" "windows_ok (tm w) bs Gs'"
    using Cons.prems(3) by (rule windows_okE)
  obtain now w1 where c: "clock w = (now, w1)" by fastforce
  note s = steadyD[OF Cons.prems(2) c]
  obtain bs2 w2 where rec: "acquire_each clock bs w1 = (bs2, w2)" by fastforce
  define b1 where "b1 = sw_expire now b"
  have ok1: "window_ok now b1 G" unfolding b1_def by (rule expire_ok[OF Gs(2)]) (use s in simp)
  have room1: "room b1" unfolding b1_def using Cons.prems(4) by (auto intro: room_expire)
  have eqs: "bs' = charge now b1 # bs2" "w' = w2"
    using Cons.prems(1) c rec room1 by (auto simp: acquire_alt b1_def Let_def split: prod.splits)
  have "windows_ok (tm w1) bs Gs'" using Gs(3) s by (auto intro: windows_ok_later)
  with Cons.IH[OF rec Cons.prems(2)] Cons.prems(4)
  have IH: "windows_ok (tm w2) bs2 (charged Gs' bs2)" "tm w1 \<le> tm w2" by auto
  have "window_ok (tm w2) (charge now b1) (G @ [now])"
    using window_ok_later[OF charge_ok[OF ok1 room1]] s IH(2) by auto
  with IH eqs Gs(1) s show ?case by (auto simp: charged_def charge_def)
qed (simp add: charged_def windows_ok_def)

lemma waits_each_effect:
  assumes "waits_each clock bs w = (ws, bs', w')" "steady clock tm" "windows_ok (tm w) bs Gs"
  shows "windows_ok (tm w') bs' Gs \<and> tm w \<le> tm w' \<and> list_all2 (\<lambda>v b. 0 \<le> v \<and> ready_by (tm w' + v) b) ws bs'"
  using assms
proof (induction bs arbitrary: w ws bs' w' Gs)
  case (Cons b bs)
  obtain G Gs' where Gs: "Gs = G # Gs'" "window_ok (tm w) b G" "windows_ok (tm w) bs Gs'"
    using Cons.prems(3) by (rule windows_okE)
  obtain now w1 where c: "clock w = (now, w1)" by fastforce
  note s = steadyD[OF Cons.prems(2) c]
  obtain ws2 bs2 w2 where rec: "waits_each clock bs w1 = (ws2, bs2, w2)" by (metis prod_cases3)
  define v where "v = fst (sw_time_until_available now b)"
  define b1 where "b1 = sw_expire now b"
  have eqs: "ws = v # ws2" "bs' = b1 # bs2" "w' = w2"
    using Cons.prems(1) c rec wait_snd[of now b] by (auto simp: v_def b1_def split: prod.splits)
  have ok1: "window_ok now b1 G" unfolding b1_def by (rule expire_ok[OF Gs(2)]) (use s in simp)
  have "windows_ok (tm w1) bs Gs'" using Gs(3) s by (auto intro: windows_ok_later)
  note IH = Cons.IH[OF rec Cons.prems(2) this]
  have "window_ok (tm w2) b1 G" using window_ok_later[OF ok1] s IH by auto
  moreover have "0 \<le> v" unfolding v_def by (rule wait_nonneg)
  moreover have "ready_by (tm w2 + v) b1"
    using ready_later[OF wait_ready[OF Gs(2), of now]] s IH by (auto simp: v_def b1_def)
  ultimately show ?case using IH eqs Gs(1) s by auto
qed simp

lemma used_each_effect:
  assumes "used_each clock bs w = (ns, bs', w')" "steady clock tm" "windows_ok (tm w) bs Gs"
  shows "windows_ok (tm w') bs' Gs \<and> tm w \<le> tm w'"
  using assms
proof (induction bs arbitrary: w ns bs' w' Gs)
  case (Cons b bs)
  obtain G Gs' where Gs: "Gs = G # Gs'" "window_ok (tm w) b G" "windows_ok (tm w) bs Gs'"
    using Cons.prems(3) by (rule windows_okE)
  obtain now w1 where c: "clock w = (now, w1)" by fastforce
  note s = steadyD[OF Cons.prems(2) c]
  obtain ns2 bs2 w2 where rec: "used_each clock bs w1 = (ns2, bs2, w2)" by (metis prod_cases3)
  have eqs: "bs' = sw_expire now b # bs2" "w' = w2"
    using Cons.prems(1) c rec by (auto simp: sw_used_def Let_def split: prod.splits)
  have "windows_ok (tm w1) bs Gs'" using Gs(3) s by (auto intro: windows_ok_later)
  note IH = Cons.IH[OF rec Cons.prems(2) this]
  have "window_ok now (sw_expire now b) G" by (rule expire_ok[OF Gs(2)]) (use s in simp)
  then have "window_ok (tm w2) (sw_expire now b) G" using s IH by (auto intro: window_ok_later)
  then show ?case using IH eqs Gs(1) s by auto
qed simp

section \<open>A budget\<close>

definition budget_ok :: "rat \<Rightarrow> multi_budget \<Rightarrow> rat list list \<Rightarrow> bool" where
  "budget_ok t m Gs \<longleftrightarrow> mb_buckets m \<noteq> [] \<and> length (mb_windows m) = length (mb_buckets m) \<and> windows_ok t (mb_buckets m) Gs"

lemma budget_ok_later: "budget_ok t m Gs \<Longrightarrow> t \<le> t' \<Longrightarrow> budget_ok t' m Gs"
  by (auto simp: budget_ok_def intro: windows_ok_later)

lemma windows_ok_length: "windows_ok t bs Gs \<Longrightarrow> length bs = length Gs"
  by (auto simp: windows_ok_def dest: list_all2_lengthD)

lemma budget_ok_put:
  "budget_ok t m Gs \<Longrightarrow> windows_ok t' bs Gs' \<Longrightarrow> length Gs' = length Gs \<Longrightarrow> budget_ok t' (m\<lparr>mb_buckets := bs\<rparr>) Gs'"
  unfolding budget_ok_def by (auto dest!: windows_ok_length)

lemma length_charged: "length Gs = length bs \<Longrightarrow> length (charged Gs bs) = length Gs"
  by (simp add: charged_def)

text \<open>A budget whose windows are all ready grants.\<close>

definition budget_ready :: "rat \<Rightarrow> multi_budget \<Rightarrow> bool" where
  "budget_ready t m \<longleftrightarrow> list_all (ready_by t) (mb_buckets m)"

lemma acquire_each_length: "acquire_each clock bs w = (bs', w') \<Longrightarrow> length bs' = length bs"
  by (induction bs arbitrary: w bs' w') (auto split: prod.splits)

lemma mb_acquire_effect:
  assumes "mb_acquire clock m w = (r, m', w')" "steady clock tm" "budget_ok (tm w) m Gs"
  shows "budget_ok (tm w') m' (if r then charged Gs (mb_buckets m') else Gs) \<and> tm w \<le> tm w' \<and> (budget_ready (tm w) m \<longrightarrow> r)"
proof -
  obtain r1 bs w1 where any: "any_wait clock (mb_buckets m) w = (r1, bs, w1)" by (metis prod_cases3)
  have ok: "windows_ok (tm w) (mb_buckets m) Gs" using assms(3) by (simp add: budget_ok_def)
  note a = any_wait_effect[OF any assms(2) ok]
  show ?thesis
  proof (cases r1)
    case True
    with assms(1) any have "r = False" "m' = m\<lparr>mb_buckets := bs\<rparr>" "w' = w1" by (auto simp: mb_acquire_def)
    with a True budget_ok_put[OF assms(3), of "tm w1" bs Gs] show ?thesis by (auto simp: budget_ready_def)
  next
    case False
    obtain bs2 w2 where acq: "acquire_each clock bs w1 = (bs2, w2)" by fastforce
    with assms(1) any False have eqs: "r = True" "m' = m\<lparr>mb_buckets := bs2\<rparr>" "w' = w2" by (auto simp: mb_acquire_def)
    have e: "windows_ok (tm w2) bs2 (charged Gs bs2) \<and> tm w1 \<le> tm w2"
      using acquire_each_effect[OF acq assms(2)] a False by blast
    have "length Gs = length bs2" using windows_ok_length a acquire_each_length[OF acq] by metis
    then show ?thesis using e eqs a budget_ok_put[OF assms(3), of "tm w2" bs2 "charged Gs bs2"] length_charged by auto
  qed
qed

lemma foldl_max_ge: "x \<in> insert a (set xs) \<Longrightarrow> x \<le> foldl max a xs" for a :: rat
proof (induction xs arbitrary: a x)
  case (Cons y ys)
  show ?case
  proof (cases "x \<in> set ys")
    case False
    with Cons.prems have "x \<le> max a y" by auto
    also have "max a y \<le> foldl max (max a y) ys" by (rule Cons.IH) simp
    finally show ?thesis by simp
  qed (use Cons.IH[of x "max a y"] in simp)
qed simp

lemma mb_wait_effect:
  assumes "mb_time_until_available clock m w = (v, m', w')" "steady clock tm" "budget_ok (tm w) m Gs"
  shows "budget_ok (tm w') m' Gs \<and> tm w \<le> tm w' \<and> 0 \<le> v \<and> budget_ready (tm w' + v) m'"
proof -
  obtain ws bs w1 where each: "waits_each clock (mb_buckets m) w = (ws, bs, w1)" by (metis prod_cases3)
  have ok: "windows_ok (tm w) (mb_buckets m) Gs" "mb_buckets m \<noteq> []" using assms(3) by (simp_all add: budget_ok_def)
  note e = waits_each_effect[OF each assms(2) ok(1)]
  have eqs: "v = foldl max (hd ws) (tl ws)" "m' = m\<lparr>mb_buckets := bs\<rparr>" "w' = w1"
    using assms(1) each by (auto simp: mb_time_until_available_def)
  have len: "length ws = length bs" using e by (auto dest: list_all2_lengthD)
  have "length bs = length Gs" "length (mb_buckets m) = length Gs" using windows_ok_length ok(1) e by blast+
  with ok(2) len have "ws \<noteq> []" by auto
  then have max: "x \<le> v" if "x \<in> set ws" for x using foldl_max_ge[of x "hd ws" "tl ws"] that eqs(1) by (cases ws) auto
  have "0 \<le> hd ws" using e \<open>ws \<noteq> []\<close> by (cases ws; cases bs) auto
  then have "0 \<le> v" using max[of "hd ws"] \<open>ws \<noteq> []\<close> by auto
  moreover have "budget_ready (tm w1 + v) m'"
    unfolding budget_ready_def list_all_iff
  proof
    fix b
    assume "b \<in> set (mb_buckets m')"
    then obtain k where k: "k < length bs" "b = bs ! k" by (auto simp: eqs in_set_conv_nth)
    then have "ready_by (tm w1 + ws ! k) b" using e eqs(3) by (auto dest: list_all2_nthD2)
    moreover have "ws ! k \<le> v" using max k len by simp
    ultimately show "ready_by (tm w1 + v) b" by (auto elim: ready_later)
  qed
  ultimately show ?thesis using e eqs budget_ok_put[OF assms(3), of "tm w1" bs Gs] by auto
qed

lemma mb_binding_effect:
  assumes "mb_binding_window clock m w = (r, m', w')" "steady clock tm" "budget_ok (tm w) m Gs"
  shows "budget_ok (tm w') m' Gs \<and> tm w \<le> tm w'"
proof -
  obtain ws bs w1 where each: "waits_each clock (mb_buckets m) w = (ws, bs, w1)" by (metis prod_cases3)
  have ok: "windows_ok (tm w) (mb_buckets m) Gs" using assms(3) by (simp add: budget_ok_def)
  have "m' = m\<lparr>mb_buckets := bs\<rparr>" "w' = w1" using assms(1) each by (auto simp: mb_binding_window_def)
  with waits_each_effect[OF each assms(2) ok] budget_ok_put[OF assms(3), of "tm w1" bs Gs] show ?thesis by auto
qed

lemma mb_usage_effect:
  assumes "mb_usage clock m w = (ns, m', w')" "steady clock tm" "budget_ok (tm w) m Gs"
  shows "budget_ok (tm w') m' Gs \<and> tm w \<le> tm w'"
proof -
  obtain ns1 bs w1 where each: "used_each clock (mb_buckets m) w = (ns1, bs, w1)" by (metis prod_cases3)
  have ok: "windows_ok (tm w) (mb_buckets m) Gs" using assms(3) by (simp add: budget_ok_def)
  have "m' = m\<lparr>mb_buckets := bs\<rparr>" "w' = w1" using assms(1) each by (auto simp: mb_usage_def)
  with used_each_effect[OF each assms(2) ok] budget_ok_put[OF assms(3), of "tm w1" bs Gs] show ?thesis by auto
qed

lemma shortest_from_bound: "best < n \<Longrightarrow> i + length rs \<le> n \<Longrightarrow> shortest_from i best p rs < n"
  by (induction rs arbitrary: i best p) auto

lemma shortest_window_bound: "rs \<noteq> [] \<Longrightarrow> shortest_window rs < length rs"
  by (cases rs) (auto simp: shortest_window_def intro!: shortest_from_bound)

lemma windows_ok_update:
  "windows_ok t bs Gs \<Longrightarrow> i < length bs \<Longrightarrow> window_ok t b (Gs ! i) \<Longrightarrow> windows_ok t (bs[i := b]) Gs"
  by (auto simp: windows_ok_def list_all2_conv_all_nth nth_list_update)

lemma mb_resync_effect:
  assumes "mb_resync x clock m w = (r, m', w')" "steady clock tm" "budget_ok (tm w) m Gs"
  shows "budget_ok (tm w') m' Gs \<and> tm w \<le> tm w'"
proof -
  define i where "i = shortest_window (mb_windows m)"
  have i: "i < length (mb_buckets m)"
    using assms(3) shortest_window_bound[of "mb_windows m"] unfolding budget_ok_def i_def by force
  have ok: "windows_ok (tm w) (mb_buckets m) Gs" "mb_buckets m \<noteq> []" using assms(3) by (simp_all add: budget_ok_def)
  show ?thesis
  proof (cases "float_above x (rw_capacity (mb_windows m ! i))")
    case True
    with assms ok(2) show ?thesis by (auto simp: mb_resync_def Let_def i_def)
  next
    case False
    obtain r1 b w1 where sync: "sw_resync x clock (mb_buckets m ! i) w = (r1, b, w1)" by (metis prod_cases3)
    have eqs: "m' = m\<lparr>mb_buckets := (mb_buckets m)[i := b]\<rparr>" "w' = w1"
      using assms(1) False sync ok(2) by (auto simp: mb_resync_def Let_def i_def)
    have "window_ok (tm w) (mb_buckets m ! i) (Gs ! i)"
      using ok(1) i by (simp add: windows_ok_def list_all2_conv_all_nth)
    from resync_ok[OF sync assms(2) this]
    have "window_ok (tm w1) b (Gs ! i)" "tm w \<le> tm w1" by auto
    then show ?thesis
      using windows_ok_update[OF windows_ok_later[OF ok(1)] i] budget_ok_put[OF assms(3), of "tm w1" _ Gs] eqs by auto
  qed
qed

end
