(* ===== verification/Quest_Await.thy ===== *)
theory Quest_Await
  imports Quest_Budget
begin

text \<open>
  The limiter and the wait for a budget in a world whose time never goes back and whose sleep
  lasts at least as long as asked: a refused round gives up, and the round after a sleep is
  granted.
\<close>

section \<open>A world whose time moves on\<close>

definition steady_world :: "'w quest_env \<Rightarrow> ('w \<Rightarrow> rat) \<Rightarrow> bool" where
  "steady_world E tm \<longleftrightarrow> steady (monotonic E) tm \<and>
     (\<forall>w. tm w \<le> tm (snd (wall_clock E w))) \<and>
     (\<forall>w d. 0 \<le> d \<longrightarrow> tm w + d \<le> tm (sleep_fn E d w)) \<and>
     (\<forall>r w. tm w \<le> tm (snd (http_fn E r w))) \<and>
     (case token_persist_fn E of None \<Rightarrow> True | Some p \<Rightarrow> \<forall>t w. tm w \<le> tm (snd (p t w)))"

lemma steady_worldD:
  assumes "steady_world E tm"
  shows "steady (monotonic E) tm" "tm w \<le> tm (snd (wall_clock E w))" "0 \<le> d \<Longrightarrow> tm w + d \<le> tm (sleep_fn E d w)"
    "tm w \<le> tm (snd (http_fn E r w))" "token_persist_fn E = Some p \<Longrightarrow> tm w \<le> tm (snd (p t w))"
  using assms by (auto simp: steady_world_def)

section \<open>The limiter\<close>

definition limiter_ok :: "rat \<Rightarrow> quest_limiter \<Rightarrow> (rate_category \<Rightarrow> rat list list) \<Rightarrow> bool" where
  "limiter_ok t L G \<longleftrightarrow> (\<forall>c. \<exists>m. py_get L c = Some m \<and> budget_ok t m (G c))"

lemma limiter_okD: "limiter_ok t L G \<Longrightarrow> budget_ok t (budget_of L c) (G c)"
  unfolding limiter_ok_def budget_of_def by (metis option.sel)

lemma limiter_ok_later: "limiter_ok t L G \<Longrightarrow> t \<le> t' \<Longrightarrow> limiter_ok t' L G"
  unfolding limiter_ok_def by (meson budget_ok_later)

lemma limiter_ok_put:
  "limiter_ok t L G \<Longrightarrow> t \<le> t' \<Longrightarrow> budget_ok t' m Gs \<Longrightarrow> limiter_ok t' (py_set L c m) (G(c := Gs))"
  unfolding limiter_ok_def by (auto simp: py_get_set) (meson budget_ok_later)+

lemma limiter_ok_keep:
  "limiter_ok t L G \<Longrightarrow> t \<le> t' \<Longrightarrow> budget_ok t' m (G c) \<Longrightarrow> limiter_ok t' (py_set L c m) G"
  using limiter_ok_put[of t L G t' m "G c" c] by simp

lemma budget_of_put [simp]: "budget_of (py_set L c m) c = m"
  by (simp add: budget_of_def py_get_set)

text \<open>The grants after a category has been charged.\<close>

definition grant :: "rate_category \<Rightarrow> quest_limiter \<Rightarrow> (rate_category \<Rightarrow> rat list list) \<Rightarrow> (rate_category \<Rightarrow> rat list list)" where
  "grant c L G = G(c := charged (G c) (mb_buckets (budget_of L c)))"

lemma limiter_acquire_effect:
  assumes "limiter_acquire (monotonic E) c L w = (r, L', w')" "steady_world E tm" "limiter_ok (tm w) L G"
  shows "limiter_ok (tm w') L' (if r then grant c L' G else G) \<and> tm w \<le> tm w' \<and> (budget_ready (tm w) (budget_of L c) \<longrightarrow> r)"
proof -
  obtain r1 m w1 where acq: "mb_acquire (monotonic E) (budget_of L c) w = (r1, m, w1)" by (metis prod_cases3)
  have eqs: "r = r1" "L' = py_set L c m" "w' = w1" using assms(1) acq by (auto simp: limiter_acquire_def)
  note e = mb_acquire_effect[OF acq steady_worldD(1)[OF assms(2)] limiter_okD[OF assms(3)]]
  then show ?thesis
    using limiter_ok_put[OF assms(3), of "tm w1" m _ c] limiter_ok_keep[OF assms(3), of "tm w1" m c]
    by (auto simp: eqs grant_def)
qed

lemma limiter_wait_effect:
  assumes "limiter_wait (monotonic E) c L w = (v, L', w')" "steady_world E tm" "limiter_ok (tm w) L G"
  shows "limiter_ok (tm w') L' G \<and> tm w \<le> tm w' \<and> 0 \<le> v \<and> budget_ready (tm w' + v) (budget_of L' c)"
proof -
  obtain v1 m w1 where wait: "mb_time_until_available (monotonic E) (budget_of L c) w = (v1, m, w1)" by (metis prod_cases3)
  have eqs: "v = v1" "L' = py_set L c m" "w' = w1" using assms(1) wait by (auto simp: limiter_wait_def)
  from mb_wait_effect[OF wait steady_worldD(1)[OF assms(2)] limiter_okD[OF assms(3)]]
  show ?thesis using limiter_ok_keep[OF assms(3), of "tm w1" m c] by (auto simp: eqs)
qed

lemma apply_headers_effect:
  assumes "apply_headers (monotonic E) c hs L w = (r, L', w')" "steady_world E tm" "limiter_ok (tm w) L G"
  shows "limiter_ok (tm w') L' G \<and> tm w \<le> tm w'"
proof (cases "header_number hs ''x-ratelimit-remaining''")
  case (Inl e)
  with assms show ?thesis by (auto simp: apply_headers_def)
next
  case (Inr x)
  show ?thesis
  proof (cases x)
    case None
    with Inr assms show ?thesis by (auto simp: apply_headers_def)
  next
    case (Some v)
    obtain r1 m w1 where sync: "mb_resync v (monotonic E) (budget_of L c) w = (r1, m, w1)" by (metis prod_cases3)
    have eqs: "L' = py_set L c m" "w' = w1" using assms(1) Inr Some sync by (auto simp: apply_headers_def)
    from mb_resync_effect[OF sync steady_worldD(1)[OF assms(2)] limiter_okD[OF assms(3)]]
    show ?thesis using limiter_ok_keep[OF assms(3), of "tm w1" m c] by (auto simp: eqs)
  qed
qed

section \<open>A round of waiting\<close>

lemma await_once_effect:
  assumes "await_once E c deadline L w = (r, L', w')" "steady_world E tm" "limiter_ok (tm w) L G"
  shows "limiter_ok (tm w') L' (if r = Granted then grant c L' G else G) \<and> tm w \<le> tm w' \<and>
    (r = Slept \<longrightarrow> budget_ready (tm w') (budget_of L' c)) \<and> (budget_ready (tm w) (budget_of L c) \<longrightarrow> r = Granted)"
proof -
  obtain g L1 w1 where acq: "limiter_acquire (monotonic E) c L w = (g, L1, w1)" by (metis prod_cases3)
  note a = limiter_acquire_effect[OF acq assms(2,3)]
  show ?thesis
  proof (cases g)
    case True
    with assms(1) acq have "r = Granted" "L' = L1" "w' = w1" by (auto simp: await_once_def)
    with a True show ?thesis by auto
  next
    case False
    obtain v L2 w2 where wait: "limiter_wait (monotonic E) c L1 w1 = (v, L2, w2)" by (metis prod_cases3)
    have "limiter_ok (tm w1) L1 G" using a False by simp
    note b = limiter_wait_effect[OF wait assms(2) this]
    obtain now w3 where clk: "monotonic E w2 = (now, w3)" by fastforce
    note s = steadyD[OF steady_worldD(1)[OF assms(2)] clk]
    show ?thesis
    proof (cases "v > deadline - now \<or> deadline - now \<le> 0")
      case True
      obtain x m w4 where bind: "mb_binding_window (monotonic E) (budget_of L2 c) w3 = (x, m, w4)" by (metis prod_cases3)
      have eqs: "r = Refused" "L' = py_set L2 c m" "w' = w4"
        using assms(1) acq False wait clk True bind by (auto simp: await_once_def Let_def)
      have "limiter_ok (tm w3) L2 G" using b s by (auto intro: limiter_ok_later)
      then have "budget_ok (tm w4) m (G c) \<and> tm w3 \<le> tm w4"
        using mb_binding_effect[OF bind steady_worldD(1)[OF assms(2)]] limiter_okD by blast
      with \<open>limiter_ok (tm w3) L2 G\<close> show ?thesis
        using limiter_ok_keep[of "tm w3" L2 G "tm w4" m c] a b s False by (auto simp: eqs)
    next
      case go: False
      then have "max 0 (min v (deadline - now)) = v" using b by auto
      then have eqs: "r = Slept" "L' = L2" "w' = sleep_fn E v w3"
        using assms(1) acq False wait clk go by (auto simp: await_once_def Let_def)
      have "tm w3 + v \<le> tm (sleep_fn E v w3)" using steady_worldD(3)[OF assms(2)] b by blast
      then have later: "tm w2 \<le> tm w'" "tm w2 + v \<le> tm w'" using b s eqs by auto
      have "budget_ready (tm w') (budget_of L2 c)"
        using b later(2) unfolding budget_ready_def list_all_iff by (blast intro: ready_later)
      then show ?thesis using a b s later False eqs by (auto intro: limiter_ok_later)
    qed
  qed
qed

text \<open>The loop ends in its first round, or sleeps and is granted in the second.\<close>

lemma await_loop_two_rounds:
  assumes "steady_world E tm" "limiter_ok (tm w) L G"
  obtains L1 w1 where "await_once E c deadline L w = (Granted, L1, w1)" "await_loop E c deadline L w = Some (True, L1, w1)"
  | L1 w1 where "await_once E c deadline L w = (Refused, L1, w1)" "await_loop E c deadline L w = Some (False, L1, w1)"
  | L1 w1 L2 w2 where "await_once E c deadline L w = (Slept, L1, w1)" "await_once E c deadline L1 w1 = (Granted, L2, w2)"
      "await_loop E c deadline L w = Some (True, L2, w2)"
proof -
  obtain r L1 w1 where once: "await_once E c deadline L w = (r, L1, w1)" by (metis prod_cases3)
  note e = await_once_effect[OF once assms]
  show thesis
  proof (cases r)
    case Slept
    obtain r2 L2 w2 where again: "await_once E c deadline L1 w1 = (r2, L2, w2)" by (metis prod_cases3)
    have "r2 = Granted" using await_once_effect[OF again assms(1)] e Slept by auto
    with once again Slept that(3) show thesis by (simp add: await_loop.simps)
  qed (use once that in \<open>simp_all add: await_loop.simps\<close>)
qed

lemma await_budget_effect:
  assumes "steady_world E tm" "limiter_ok (tm w) L G"
  obtains r L' w' where "await_budget E C c L w = Some (r, L', w')"
    "limiter_ok (tm w') L' (if r then grant c L' G else G)" "tm w \<le> tm w'"
proof -
  obtain now w0 where clk: "monotonic E w = (now, w0)" by fastforce
  note s = steadyD[OF steady_worldD(1)[OF assms(1)] clk]
  have ok: "limiter_ok (tm w0) L G" by (rule limiter_ok_later[OF assms(2)]) (use s in simp)
  note start = await_budget_def[of E C c L w, unfolded clk Let_def prod.case]
  show thesis
  proof (rule await_loop_two_rounds[OF assms(1) ok, of c "now + max_wait_sec C"])
    fix L1 w1
    assume "await_once E c (now + max_wait_sec C) L w0 = (Granted, L1, w1)"
      "await_loop E c (now + max_wait_sec C) L w0 = Some (True, L1, w1)"
    with await_once_effect[OF this(1) assms(1) ok] s start show thesis by (intro that[of True L1 w1]) auto
  next
    fix L1 w1
    assume "await_once E c (now + max_wait_sec C) L w0 = (Refused, L1, w1)"
      "await_loop E c (now + max_wait_sec C) L w0 = Some (False, L1, w1)"
    with await_once_effect[OF this(1) assms(1) ok] s start show thesis by (intro that[of False L1 w1]) auto
  next
    fix L1 w1 L2 w2
    assume two: "await_once E c (now + max_wait_sec C) L w0 = (Slept, L1, w1)"
      "await_once E c (now + max_wait_sec C) L1 w1 = (Granted, L2, w2)"
      "await_loop E c (now + max_wait_sec C) L w0 = Some (True, L2, w2)"
    note e1 = await_once_effect[OF two(1) assms(1) ok]
    have ok1: "limiter_ok (tm w1) L1 G" using e1 by simp
    from await_once_effect[OF two(2) assms(1) ok1] e1 s start two(3) show thesis by (intro that[of True L2 w2]) auto
  qed
qed

end
