(* ===== verification/Quest_Calls.thy ===== *)
theory Quest_Calls
  imports Quest_Await
begin

text \<open>
  Calls of an application on the client, with the grants they use up kept beside: the shape of
  the budgets never changes, and every call keeps the windows sound.
\<close>

section \<open>The shape of a budget\<close>

definition window_shape :: "sliding_window \<Rightarrow> int \<times> rat" where
  "window_shape b = (sw_capacity b, sw_period b)"

lemma window_shape_ops [simp]:
  "window_shape (sw_expire now b) = window_shape b"
  "window_shape (snd (sw_acquire now b)) = window_shape b"
  "window_shape (snd (sw_time_until_available now b)) = window_shape b"
  by (simp_all add: window_shape_def acquire_alt charge_def Let_def wait_snd)

lemma wait_shapeD: "sw_time_until_available now b = (v, b1) \<Longrightarrow> window_shape b1 = window_shape b"
  using window_shape_ops(3)[of now b] by simp

lemma any_wait_shape: "any_wait clock bs w = (r, bs', w') \<Longrightarrow> map window_shape bs' = map window_shape bs"
proof (induction bs arbitrary: w r bs' w')
  case (Cons b bs)
  obtain now w1 where c: "clock w = (now, w1)" by fastforce
  obtain r2 bs2 w2 where rec: "any_wait clock bs w1 = (r2, bs2, w2)" by (metis prod_cases3)
  from Cons.prems c rec Cons.IH[OF rec] show ?case by (auto split: prod.splits if_splits dest: wait_shapeD)
qed simp

lemma acquire_each_shape: "acquire_each clock bs w = (bs', w') \<Longrightarrow> map window_shape bs' = map window_shape bs"
  by (induction bs arbitrary: w bs' w') (auto split: prod.splits)

lemma waits_each_shape: "waits_each clock bs w = (ws, bs', w') \<Longrightarrow> map window_shape bs' = map window_shape bs"
proof (induction bs arbitrary: w ws bs' w')
  case (Cons b bs)
  obtain now w1 where c: "clock w = (now, w1)" by fastforce
  obtain r2 bs2 w2 where rec: "waits_each clock bs w1 = (r2, bs2, w2)" by (metis prod_cases3)
  from Cons.prems c rec Cons.IH[OF rec] show ?case by (auto split: prod.splits dest: wait_shapeD)
qed simp

definition budget_shape :: "multi_budget \<Rightarrow> (int \<times> rat) list" where
  "budget_shape m = map window_shape (mb_buckets m)"

lemma mb_acquire_shape: "mb_acquire clock m w = (r, m', w') \<Longrightarrow> budget_shape m' = budget_shape m"
  by (auto simp: mb_acquire_def budget_shape_def dest!: any_wait_shape acquire_each_shape split: prod.splits if_splits)

lemma mb_wait_shape: "mb_time_until_available clock m w = (r, m', w') \<Longrightarrow> budget_shape m' = budget_shape m"
  by (auto simp: mb_time_until_available_def budget_shape_def dest: waits_each_shape split: prod.splits)

lemma mb_binding_shape: "mb_binding_window clock m w = (r, m', w') \<Longrightarrow> budget_shape m' = budget_shape m"
  by (auto simp: mb_binding_window_def budget_shape_def dest: waits_each_shape split: prod.splits)

lemma sw_resync_shape: "sw_resync x clock b w = (r, b', w') \<Longrightarrow> window_shape b' = window_shape b"
  by (auto simp: sw_resync_def Let_def window_shape_def split: sum.splits quest_error.splits prod.splits)

lemma map_update_same: "f b = f (bs ! i) \<Longrightarrow> map f (bs[i := b]) = map f bs"
  by (metis list_update_id map_update)

lemma mb_resync_shape: "mb_resync x clock m w = (r, m', w') \<Longrightarrow> budget_shape m' = budget_shape m"
  by (auto simp: mb_resync_def Let_def budget_shape_def dest!: sw_resync_shape split: prod.splits if_splits
      intro!: map_update_same)

definition same_shape :: "quest_limiter \<Rightarrow> quest_limiter \<Rightarrow> bool" where
  "same_shape L L' \<longleftrightarrow> (\<forall>c. budget_shape (budget_of L' c) = budget_shape (budget_of L c))"

lemma same_shape_refl [simp]: "same_shape L L"
  by (simp add: same_shape_def)

lemma same_shape_trans: "same_shape L L1 \<Longrightarrow> same_shape L1 L2 \<Longrightarrow> same_shape L L2"
  by (simp add: same_shape_def)

lemma same_shape_put: "budget_shape m = budget_shape (budget_of L c) \<Longrightarrow> same_shape L (py_set L c m)"
  by (simp add: same_shape_def budget_of_def py_get_set)

lemma limiter_acquire_shape: "limiter_acquire clock c L w = (r, L', w') \<Longrightarrow> same_shape L L'"
  by (auto simp: limiter_acquire_def split: prod.splits intro: same_shape_put dest: mb_acquire_shape)

lemma limiter_wait_shape: "limiter_wait clock c L w = (r, L', w') \<Longrightarrow> same_shape L L'"
  by (auto simp: limiter_wait_def split: prod.splits intro: same_shape_put dest: mb_wait_shape)

lemma apply_headers_shape: "apply_headers clock c hs L w = (r, L', w') \<Longrightarrow> same_shape L L'"
  by (auto simp: apply_headers_def split: sum.splits option.splits prod.splits intro: same_shape_put dest: mb_resync_shape)

lemma await_once_shape:
  assumes "await_once E c deadline L w = (r, L', w')"
  shows "same_shape L L'"
proof -
  obtain g L1 w1 where acq: "limiter_acquire (monotonic E) c L w = (g, L1, w1)" by (metis prod_cases3)
  obtain v L2 w2 where wait: "limiter_wait (monotonic E) c L1 w1 = (v, L2, w2)" by (metis prod_cases3)
  obtain now w3 where clk: "monotonic E w2 = (now, w3)" by fastforce
  obtain x m w4 where bind: "mb_binding_window (monotonic E) (budget_of L2 c) w3 = (x, m, w4)" by (metis prod_cases3)
  have "L' = L1 \<or> L' = L2 \<or> L' = py_set L2 c m"
    using assms acq wait clk bind by (auto simp: await_once_def Let_def split: if_splits)
  moreover have "same_shape L L1" "same_shape L1 L2" "same_shape L2 (py_set L2 c m)"
    using limiter_acquire_shape[OF acq] limiter_wait_shape[OF wait] mb_binding_shape[OF bind]
    by (auto intro: same_shape_put)
  ultimately show ?thesis by (auto intro: same_shape_trans)
qed

lemma await_loop_shape:
  assumes "await_loop E c deadline L w = Some y"
  shows "same_shape L (fst (snd y))"
  using assms
proof (rule await_loop.raw_induct[where P = "\<lambda>E c deadline L w y. same_shape L (fst (snd y))", rotated])
  fix loop :: "'a quest_env \<Rightarrow> rate_category \<Rightarrow> rat \<Rightarrow> quest_limiter \<Rightarrow> 'a \<Rightarrow> (bool \<times> quest_limiter \<times> 'a) option"
  fix E :: "'a quest_env" and c deadline L w y
  assume IH: "\<And>c deadline L w b y. loop c deadline L w b = Some y \<Longrightarrow> same_shape w (fst (snd y))"
    and run: "(case await_once E c deadline L w of (r, L1, w1) \<Rightarrow>
      if r = Granted then Some (True, L1, w1) else if r = Refused then Some (False, L1, w1)
      else loop E c deadline L1 w1) = Some y"
  obtain r L1 w1 where once: "await_once E c deadline L w = (r, L1, w1)" by (metis prod_cases3)
  note first = await_once_shape[OF once]
  show "same_shape L (fst (snd y))"
  proof (cases r)
    case Slept
    then have "loop E c deadline L1 w1 = Some y" using run once by simp
    from same_shape_trans[OF first IH[OF this]] show ?thesis .
  qed (use run once first in auto)
qed

lemma await_budget_shape: "await_budget E C c L w = Some (r, L', w') \<Longrightarrow> same_shape L L'"
  by (auto simp: await_budget_def Let_def split: prod.splits dest: await_loop_shape)

section \<open>A request\<close>

text \<open>The part of a request before anything is sent: the session, the category and the charged limiter.\<close>

definition dispatch_of ::
  "'w quest_env \<Rightarrow> quest_config \<Rightarrow> string \<Rightarrow> rate_category option \<Rightarrow> quest_client \<Rightarrow> 'w \<Rightarrow>
     (session_token \<times> rate_category \<times> quest_limiter \<times> 'w) option" where
  "dispatch_of E C path category q w =
     (case require_token E C q w of
        (Inl e, w1) \<Rightarrow> None
      | (Inr token, w1) \<Rightarrow>
          (let c = (case category of Some c \<Rightarrow> c | None \<Rightarrow> categorize_endpoint path) in
           case await_budget E C c (rate_limiter q) w1 of
             Some (True, L, w2) \<Rightarrow> Some (token, c, L, w2) | _ \<Rightarrow> None))"

lemma require_token_steady:
  assumes "require_token E C q w = (r, w')" "steady_world E tm"
  shows "tm w \<le> tm w'"
proof (cases "auth_token q")
  case (Some t)
  obtain now w1 where clk: "monotonic E w = (now, w1)" by fastforce
  with assms(1) Some have "w' = w1" by (auto simp: require_token_def is_token_expired_def)
  with steadyD[OF steady_worldD(1)[OF assms(2)] clk] show ?thesis by simp
qed (use assms in \<open>auto simp: require_token_def\<close>)

text \<open>What is sent, and how the answer is read.\<close>

definition bearer_request :: "session_token \<Rightarrow> string \<Rightarrow> string \<Rightarrow> http_request" where
  "bearer_request token http_method path = \<lparr>hr_method = http_method, hr_url = st_server token @ lstrip_slashes path,
     hr_headers = [(''Authorization'', st_type token @ '' '' @ st_access token)], hr_body = None\<rparr>"

definition read_answer ::
  "'w quest_env \<Rightarrow> rate_category \<Rightarrow> quest_limiter \<Rightarrow> string + py_value \<Rightarrow> 'w \<Rightarrow> (quest_error + py_value) \<times> quest_limiter \<times> 'w" where
  "read_answer E c L answer w = (case answer of
     Inl x \<Rightarrow> (Inl (Raised x), L, w)
   | Inr result \<Rightarrow>
       (case unpack result of
          Inl e \<Rightarrow> (Inl e, L, w)
        | Inr (status, data, headers) \<Rightarrow>
            (case apply_headers (monotonic E) c headers L w of
               (Inl e, L1, w1) \<Rightarrow> (Inl e, L1, w1)
             | (Inr _, L1, w1) \<Rightarrow>
                 (if status = 429 then
                    (case parse_rate_limit_reset headers of
                       Inl e \<Rightarrow> Inl e | Inr reset \<Rightarrow> Inl (Rate_Limit_Server reset), L1, w1)
                  else if status = 401 \<or> status = 403 then (Inl (Auth_Error (Some status)), L1, w1)
                  else if status \<noteq> 200 then (Inl (Api_Error (Some status) None), L1, w1)
                  else (case raise_for_embedded_error data status of
                          Some e \<Rightarrow> Inl e | None \<Rightarrow> Inr data, L1, w1)))))"

lemma request_dispatched:
  assumes "dispatch_of E C path cat q w = Some (token, c, L, w2)"
  shows "quest_request E C http_method path cat q w =
    (let (answer, w3) = http_fn E (bearer_request token http_method path) w2;
         (r, L1, w4) = read_answer E c L answer w3
     in Some (r, q\<lparr>rate_limiter := L1\<rparr>, w4))"
proof -
  obtain w1 where req: "require_token E C q w = (Inr token, w1)"
    and c: "c = (case cat of Some c \<Rightarrow> c | None \<Rightarrow> categorize_endpoint path)"
    and aw: "await_budget E C c (rate_limiter q) w1 = Some (True, L, w2)"
    using assms by (auto simp: dispatch_of_def Let_def split: prod.splits sum.splits option.splits bool.splits)
  obtain answer w3 where http: "http_fn E (bearer_request token http_method path) w2 = (answer, w3)" by fastforce
  note start = quest_request_def[of E C http_method path cat q w, unfolded req prod.case sum.case Let_def c[symmetric] aw option.case bool.case]
  show ?thesis
    unfolding start bearer_request_def[symmetric] http prod.case Let_def read_answer_def
    by (simp split: sum.split prod.split option.split)
qed

lemma request_undispatched:
  assumes "dispatch_of E C path cat q w = None" "quest_request E C http_method path cat q w = Some (r, q', w')"
  shows "(r = Inl (Auth_Error None) \<or> r = Inl Rate_Limit_Local) \<and> (\<exists>L. q' = q\<lparr>rate_limiter := L\<rparr> \<and> same_shape (rate_limiter q) L)"
proof -
  obtain t w1 where req: "require_token E C q w = (t, w1)" by fastforce
  show ?thesis
  proof (cases t)
    case (Inl e)
    then have "e = Auth_Error None"
      using req by (auto simp: require_token_def split: option.splits prod.splits if_splits)
    moreover have "r = Inl e" "q' = q" using assms(2) req Inl by (simp_all add: quest_request_def)
    ultimately show ?thesis by (intro conjI exI[of _ "rate_limiter q"]) simp_all
  next
    case (Inr token)
    define c where "c = (case cat of Some c \<Rightarrow> c | None \<Rightarrow> categorize_endpoint path)"
    obtain L w2 where aw: "await_budget E C c (rate_limiter q) w1 = Some (False, L, w2)"
      using assms req Inr unfolding dispatch_of_def quest_request_def Let_def c_def[symmetric]
      by (cases "await_budget E C c (rate_limiter q) w1") (auto split: bool.splits)
    then have "r = Inl Rate_Limit_Local" "q' = q\<lparr>rate_limiter := L\<rparr>"
      using assms(2) req Inr unfolding quest_request_def Let_def c_def[symmetric] by simp_all
    then show ?thesis using await_budget_shape[OF aw] by auto
  qed
qed

lemma read_answer_shape: "read_answer E c L answer w = (r, L', w') \<Longrightarrow> same_shape L L'"
  by (auto simp: read_answer_def dest!: apply_headers_shape split: sum.splits prod.splits if_splits)

lemma read_answer_effect:
  assumes "read_answer E c L answer w = (r, L', w')" "steady_world E tm" "limiter_ok (tm w) L G"
  shows "limiter_ok (tm w') L' G \<and> tm w \<le> tm w'"
proof (cases answer)
  case (Inl x)
  with assms show ?thesis by (simp add: read_answer_def)
next
  case (Inr result)
  show ?thesis
  proof (cases "unpack result")
    case (Inl e)
    with assms Inr show ?thesis by (simp add: read_answer_def)
  next
    case answer: (Inr p)
    obtain status data headers where p: "p = (status, data, headers)" by (metis prod_cases3)
    obtain x L1 w1 where ah: "apply_headers (monotonic E) c headers L w = (x, L1, w1)" by (metis prod_cases3)
    have "L' = L1" "w' = w1"
      using assms(1) Inr answer p ah by (auto simp: read_answer_def split: sum.splits if_splits)
    with apply_headers_effect[OF ah assms(2,3)] show ?thesis by simp
  qed
qed

end
