(* ===== verification/Quest_Properties.thy ===== *)
theory Quest_Properties
  imports Quest_Calls
begin

text \<open>
  Properties of the Questrade client: the request rates, the dispatch of a request, the
  rotation of the session, the token bucket and the eligibility of orders.
\<close>

section \<open>The calls of an application\<close>

datatype 'w quest_call =
    Ask string string "rate_category option" | Fetch_accounts | Refresh_token string | Ensure_session
  | Meanwhile "'w \<Rightarrow> 'w"

text \<open>\<open>Meanwhile\<close> is what happens outside between two calls; time does not go back there.\<close>

definition call_ok :: "('w \<Rightarrow> rat) \<Rightarrow> 'w quest_call \<Rightarrow> bool" where
  "call_ok tm k \<longleftrightarrow> (case k of Meanwhile f \<Rightarrow> (\<forall>w. tm w \<le> tm (f w)) | _ \<Rightarrow> True)"

text \<open>The grants a call that sends a request uses up.\<close>

definition grants_of ::
  "'w quest_env \<Rightarrow> quest_config \<Rightarrow> string \<Rightarrow> rate_category option \<Rightarrow> quest_client \<Rightarrow> 'w \<Rightarrow>
     (rate_category \<Rightarrow> rat list list) \<Rightarrow> (rate_category \<Rightarrow> rat list list)" where
  "grants_of E C path cat q w G =
     (case dispatch_of E C path cat q w of None \<Rightarrow> G | Some (_, c, L, _) \<Rightarrow> grant c L G)"

fun client_step ::
  "'w quest_env \<Rightarrow> quest_config \<Rightarrow> 'w quest_call \<Rightarrow> quest_client \<times> 'w \<times> (rate_category \<Rightarrow> rat list list) \<Rightarrow>
     (quest_client \<times> 'w \<times> (rate_category \<Rightarrow> rat list list)) option" where
  "client_step E C (Ask m path cat) (q, w, G) =
     (case quest_request E C m path cat q w of None \<Rightarrow> None | Some (_, q1, w1) \<Rightarrow> Some (q1, w1, grants_of E C path cat q w G))"
| "client_step E C Fetch_accounts (q, w, G) =
     (case fetch_accounts E C q w of
        None \<Rightarrow> None | Some (_, q1, w1) \<Rightarrow> Some (q1, w1, grants_of E C ''v1/accounts'' (Some ACCOUNT) q w G))"
| "client_step E C (Refresh_token t) (q, w, G) = (case refresh_access_token E C t q w of (_, q1, w1) \<Rightarrow> Some (q1, w1, G))"
| "client_step E C Ensure_session (q, w, G) = (case ensure_authenticated E C q w of (_, q1, w1) \<Rightarrow> Some (q1, w1, G))"
| "client_step E C (Meanwhile f) (q, w, G) = Some (q, f w, G)"

fun client_run ::
  "'w quest_env \<Rightarrow> quest_config \<Rightarrow> 'w quest_call list \<Rightarrow> quest_client \<times> 'w \<times> (rate_category \<Rightarrow> rat list list) \<Rightarrow>
     (quest_client \<times> 'w \<times> (rate_category \<Rightarrow> rat list list)) option" where
  "client_run E C [] s = Some s"
| "client_run E C (k # ks) s = (case client_step E C k s of None \<Rightarrow> None | Some s1 \<Rightarrow> client_run E C ks s1)"

definition client_ok :: "rat \<Rightarrow> quest_limiter \<Rightarrow> quest_client \<Rightarrow> (rate_category \<Rightarrow> rat list list) \<Rightarrow> bool" where
  "client_ok t L0 q G \<longleftrightarrow> limiter_ok t (rate_limiter q) G \<and> same_shape L0 (rate_limiter q)"

lemma request_ok:
  assumes "steady_world E tm" "client_ok (tm w) L0 q G"
  obtains r q' w' where "quest_request E C m path cat q w = Some (r, q', w')"
    "client_ok (tm w') L0 q' (grants_of E C path cat q w G)"
proof -
  have ok: "limiter_ok (tm w) (rate_limiter q) G" "same_shape L0 (rate_limiter q)" using assms(2) by (simp_all add: client_ok_def)
  obtain t w1 where req: "require_token E C q w = (t, w1)" by fastforce
  have le1: "tm w \<le> tm w1" by (rule require_token_steady[OF req assms(1)])
  show thesis
  proof (cases t)
    case (Inl e)
    have "client_ok (tm w1) L0 q G" using limiter_ok_later[OF ok(1) le1] ok(2) by (simp add: client_ok_def)
    then show thesis using that[of "Inl e" q w1] req Inl by (simp add: quest_request_def grants_of_def dispatch_of_def)
  next
    case (Inr token)
    define c where "c = (case cat of Some c \<Rightarrow> c | None \<Rightarrow> categorize_endpoint path)"
    obtain g L w2 where aw: "await_budget E C c (rate_limiter q) w1 = Some (g, L, w2)"
      "limiter_ok (tm w2) L (if g then grant c L G else G)" "tm w1 \<le> tm w2"
      by (rule await_budget_effect[OF assms(1) limiter_ok_later[OF ok(1) le1], of C c])
    have shape: "same_shape L0 L" by (rule same_shape_trans[OF ok(2) await_budget_shape[OF aw(1)]])
    show thesis
    proof (cases g)
      case False
      have "dispatch_of E C path cat q w = None"
        unfolding dispatch_of_def req Inr prod.case sum.case Let_def c_def[symmetric] aw(1) using False by simp
      moreover have "quest_request E C m path cat q w = Some (Inl Rate_Limit_Local, q\<lparr>rate_limiter := L\<rparr>, w2)"
        unfolding quest_request_def req Inr prod.case sum.case Let_def c_def[symmetric] aw(1) using False by simp
      ultimately show thesis using that aw(2) shape False by (simp add: grants_of_def client_ok_def)
    next
      case True
      have d: "dispatch_of E C path cat q w = Some (token, c, L, w2)"
        unfolding dispatch_of_def req Inr prod.case sum.case Let_def c_def[symmetric] aw(1) using True by simp
      obtain answer w3 where http: "http_fn E (bearer_request token m path) w2 = (answer, w3)" by fastforce
      obtain r L1 w4 where ra: "read_answer E c L answer w3 = (r, L1, w4)" by (metis prod_cases3)
      have "tm w2 \<le> tm w3" using steady_worldD(4)[OF assms(1), of w2 "bearer_request token m path"] http by simp
      then have "limiter_ok (tm w3) L (grant c L G)" using aw(2) True limiter_ok_later by auto
      from read_answer_effect[OF ra assms(1) this] same_shape_trans[OF shape read_answer_shape[OF ra]]
      show thesis using that[of r "q\<lparr>rate_limiter := L1\<rparr>" w4] request_dispatched[OF d, of m] http ra d
        by (simp add: grants_of_def client_ok_def)
    qed
  qed
qed

lemma new_session_steady: "new_session E kvs x s w = (t, w') \<Longrightarrow> steady_world E tm \<Longrightarrow> tm w \<le> tm w'"
  using steady_worldD(2)[of E tm w] steadyD[OF steady_worldD(1), of E tm]
  by (auto simp: new_session_def Let_def split: prod.splits) (metis order_trans snd_conv)

lemma refresh_effect:
  assumes "refresh_access_token E C t q w = (r, q', w')" "steady_world E tm"
  shows "rate_limiter q' = rate_limiter q \<and> tm w \<le> tm w'"
proof (cases "py_strip t = ''''")
  case False
  obtain answer w1 where http: "http_fn E (token_request C (py_strip t)) w = (answer, w1)" by fastforce
  have le1: "tm w \<le> tm w1" using steady_worldD(4)[OF assms(2), of w "token_request C (py_strip t)"] http by simp
  show ?thesis
  proof (cases "\<exists>result status data hs kvs x s. answer = Inr result \<and> unpack result = Inr (status, data, hs) \<and>
      token_fields status data = Inr (kvs, x, s)")
    case True
    then obtain result status data hs kvs x s where parts: "answer = Inr result" "unpack result = Inr (status, data, hs)"
      "token_fields status data = Inr (kvs, x, s)" by blast
    obtain session w2 where ses: "new_session E kvs x s w1 = (session, w2)" by fastforce
    have le2: "tm w1 \<le> tm w2" by (rule new_session_steady[OF ses assms(2)])
    note start = assms(1)[unfolded refresh_access_token_def Let_def http prod.case parts sum.case ses]
    show ?thesis
    proof (cases "token_persist_fn E")
      case (Some p)
      obtain ok w3 where p: "p session w2 = (ok, w3)" by fastforce
      have "tm w2 \<le> tm w3" using steady_worldD(5)[OF assms(2) Some, of w2 session] p by simp
      with start False Some p le1 le2 show ?thesis by (auto split: if_splits)
    qed (use start False le1 le2 in auto)
  next
    case none: False
    with assms(1) False http have "q' = q" "w' = w1"
      by (auto simp: refresh_access_token_def Let_def split: sum.splits prod.splits)
    with le1 show ?thesis by simp
  qed
qed (use assms in \<open>simp add: refresh_access_token_def\<close>)

lemma ensure_effect:
  assumes "ensure_authenticated E C q w = (r, q', w')" "steady_world E tm"
  shows "rate_limiter q' = rate_limiter q \<and> tm w \<le> tm w'"
proof (cases "auth_token q")
  case (Some t)
  obtain now w1 where clk: "monotonic E w = (now, w1)" by fastforce
  note s = steadyD[OF steady_worldD(1)[OF assms(2)] clk]
  show ?thesis
  proof (cases "within_skew (st_deadline t) now (expiry_skew_sec C)")
    case True
    with assms(1) Some clk have "refresh_access_token E C (st_refresh t) q w1 = (r, q', w')"
      by (simp add: ensure_authenticated_def is_token_expired_def)
    from refresh_effect[OF this assms(2)] s show ?thesis by auto
  qed (use assms(1) Some clk s in \<open>auto simp: ensure_authenticated_def is_token_expired_def\<close>)
qed (use assms in \<open>simp add: ensure_authenticated_def\<close>)

lemma client_step_ok:
  assumes "steady_world E tm" "call_ok tm k" "client_ok (tm w) L0 q G"
  obtains q' w' G' where "client_step E C k (q, w, G) = Some (q', w', G')" "client_ok (tm w') L0 q' G'"
proof (cases k)
  case (Ask m path cat)
  show thesis by (rule request_ok[OF assms(1,3), of C m path cat]) (use that Ask in simp)
next
  case Fetch_accounts
  show thesis
  proof (rule request_ok[OF assms(1,3), of C "''GET''" "''v1/accounts''" "Some ACCOUNT"])
    fix r q1 w1
    assume req: "quest_request E C ''GET'' ''v1/accounts'' (Some ACCOUNT) q w = Some (r, q1, w1)"
      and ok: "client_ok (tm w1) L0 q1 (grants_of E C ''v1/accounts'' (Some ACCOUNT) q w G)"
    have "\<exists>r2 q2. fetch_accounts E C q w = Some (r2, q2, w1) \<and> rate_limiter q2 = rate_limiter q1"
      unfolding fetch_accounts_def req by (auto split: sum.split py_value.split option.split)
    then show thesis using that ok Fetch_accounts by (auto simp: client_ok_def)
  qed
next
  case (Refresh_token t)
  obtain r q1 w1 where ref: "refresh_access_token E C t q w = (r, q1, w1)" by (metis prod_cases3)
  from refresh_effect[OF ref assms(1)] show thesis
    using that[of q1 w1 G] assms(3) ref Refresh_token by (auto simp: client_ok_def intro: limiter_ok_later)
next
  case Ensure_session
  obtain r q1 w1 where ens: "ensure_authenticated E C q w = (r, q1, w1)" by (metis prod_cases3)
  from ensure_effect[OF ens assms(1)] show thesis
    using that[of q1 w1 G] assms(3) ens Ensure_session by (auto simp: client_ok_def intro: limiter_ok_later)
next
  case (Meanwhile f)
  then have "tm w \<le> tm (f w)" using assms(2) by (simp add: call_ok_def)
  then show thesis using that[of q "f w" G] assms(3) Meanwhile by (auto simp: client_ok_def intro: limiter_ok_later)
qed

lemma client_run_ok:
  assumes "steady_world E tm"
  shows "list_all (call_ok tm) ks \<Longrightarrow> client_ok (tm w) L0 q G \<Longrightarrow>
    \<exists>q' w' G'. client_run E C ks (q, w, G) = Some (q', w', G') \<and> client_ok (tm w') L0 q' G'"
proof (induction ks arbitrary: q w G)
  case (Cons k ks)
  obtain q1 w1 G1 where "client_step E C k (q, w, G) = Some (q1, w1, G1)" "client_ok (tm w1) L0 q1 G1"
    by (rule client_step_ok[OF assms, of k w L0 q G C]) (use Cons.prems in auto)
  with Cons.IH[of w1 q1 G1] Cons.prems(1) show ?case by auto
qed simp

section \<open>A fresh limiter\<close>

definition source_windows :: "(rate_category, rate_window list) py_dict option \<Rightarrow> (rate_category, rate_window list) py_dict" where
  "source_windows windows = (case windows of None \<Rightarrow> DOCUMENTED_WINDOWS | Some d \<Rightarrow> d)"

definition windows_valid :: "(rate_category, rate_window list) py_dict \<Rightarrow> bool" where
  "windows_valid d \<longleftrightarrow> list_all (\<lambda>(c, ws). list_all (\<lambda>r. 1 \<le> rw_capacity r \<and> 0 < rw_period r) ws) d"

definition no_grants :: "(rate_category, rate_window list) py_dict \<Rightarrow> rate_category \<Rightarrow> rat list list" where
  "no_grants d c = map (\<lambda>_. []) (the (py_get d c))"

lemma make_budgets_get:
  "make_budgets d = Inr L \<Longrightarrow> py_get d c = Some ws \<Longrightarrow>
    ws \<noteq> [] \<and> py_get L c = Some \<lparr>mb_windows = ws, mb_buckets = map bucket_of ws\<rparr>"
  by (induction d arbitrary: L rule: make_budgets.induct)
     (auto simp: py_get_def make_multi_budget_def split: sum.splits if_splits)

lemma fresh_windows_ok:
  "list_all (\<lambda>r. 1 \<le> rw_capacity r \<and> 0 < rw_period r) ws \<Longrightarrow> windows_ok t (map bucket_of ws) (map (\<lambda>_. []) ws)"
  by (induction ws) (auto simp: bucket_of_def intro: fresh_window_ok)

lemma fresh_limiter:
  assumes "make_limiter windows = Inr L" "windows_valid (source_windows windows)" "py_get (source_windows windows) c = Some ws"
  shows "budget_ok t (budget_of L c) (no_grants (source_windows windows) c)"
    "budget_shape (budget_of L c) = map (\<lambda>r. (rw_capacity r, rw_period r)) ws" "py_get L c = Some (budget_of L c)"
proof -
  have made: "make_budgets (source_windows windows) = Inr L"
    using assms(1) by (auto simp: make_limiter_def source_windows_def Let_def split: if_splits)
  note g = make_budgets_get[OF made assms(3)]
  have "list_all (\<lambda>r. 1 \<le> rw_capacity r \<and> 0 < rw_period r) ws"
    using assms(2) py_get_SomeD[OF assms(3)] by (auto simp: windows_valid_def list_all_iff)
  from fresh_windows_ok[OF this, of t] g
  show "budget_ok t (budget_of L c) (no_grants (source_windows windows) c)"
    using assms(3) by (simp add: budget_ok_def budget_of_def no_grants_def)
  show "budget_shape (budget_of L c) = map (\<lambda>r. (rw_capacity r, rw_period r)) ws"
    using g by (simp add: budget_of_def budget_shape_def window_shape_def bucket_of_def)
  show "py_get L c = Some (budget_of L c)" using g by (simp add: budget_of_def)
qed

lemma fresh_limiter_ok:
  assumes "make_limiter windows = Inr L" "windows_valid (source_windows windows)"
  shows "limiter_ok t L (no_grants (source_windows windows))"
  unfolding limiter_ok_def
proof
  fix c
  have "py_get (source_windows windows) c \<noteq> None"
    using assms(1) by (cases c) (auto simp: make_limiter_def source_windows_def Let_def split: if_splits)
  then obtain ws where "py_get (source_windows windows) c = Some ws" by auto
  from fresh_limiter[OF assms this] show "\<exists>m. py_get L c = Some m \<and> budget_ok t m (no_grants (source_windows windows) c)"
    by blast
qed

text \<open>C6. However an application uses the client, with any pauses between its calls, every call
  ends, and in no stretch of a window's period are more requests of its category charged and
  sent than the window allows; with the documented figures that is 30 a second and 30,000 an
  hour for accounts, 20 and 15,000 for market data.\<close>

theorem request_rate_capped:
  assumes "steady_world E tm" "make_limiter windows = Inr (rate_limiter q)" "windows_valid (source_windows windows)"
    and "list_all (call_ok tm) calls"
  shows "\<exists>q' w' G. client_run E C calls (q, w, no_grants (source_windows windows)) = Some (q', w', G) \<and>
    (\<forall>c ws i s. py_get (source_windows windows) c = Some ws \<longrightarrow> i < length ws \<longrightarrow>
      int (stretch_count (G c ! i) (rw_period (ws ! i)) s) \<le> rw_capacity (ws ! i))"
proof -
  have "client_ok (tm w) (rate_limiter q) q (no_grants (source_windows windows))"
    using fresh_limiter_ok[OF assms(2,3)] by (simp add: client_ok_def)
  from client_run_ok[OF assms(1,4) this] obtain q' w' G where
    run: "client_run E C calls (q, w, no_grants (source_windows windows)) = Some (q', w', G)"
    and ok: "client_ok (tm w') (rate_limiter q) q' G" by blast
  have "int (stretch_count (G c ! i) (rw_period (ws ! i)) s) \<le> rw_capacity (ws ! i)"
    if ws: "py_get (source_windows windows) c = Some ws" and i: "i < length ws" for c ws i s
  proof -
    let ?bs = "mb_buckets (budget_of (rate_limiter q') c)"
    have shape: "map window_shape ?bs = map (\<lambda>r. (rw_capacity r, rw_period r)) ws"
      using ok fresh_limiter(2)[OF assms(2,3) ws] by (simp add: client_ok_def same_shape_def budget_shape_def)
    then have len: "i < length ?bs" using i by (metis length_map)
    then have "window_shape (?bs ! i) = (rw_capacity (ws ! i), rw_period (ws ! i))"
      using arg_cong[OF shape, of "\<lambda>xs. xs ! i"] i by simp
    moreover have "window_ok (tm w') (?bs ! i) (G c ! i)"
      using limiter_okD[of "tm w'" "rate_limiter q'" G c] ok len
      by (auto simp: client_ok_def budget_ok_def windows_ok_def dest: list_all2_nthD)
    ultimately show ?thesis using window_okD(7)[where s = s] unfolding window_shape_def by (metis prod.inject)
  qed
  with run show ?thesis by blast
qed

text \<open>C33. After any such use of the client, a wait for a budget ends: the first round grants or refuses, or
  it sleeps and the round after the sleep grants.\<close>

theorem await_ends_in_two_rounds:
  assumes "steady_world E tm" "make_limiter windows = Inr (rate_limiter q)" "windows_valid (source_windows windows)"
    and "list_all (call_ok tm) calls"
    and "client_run E C calls (q, w, no_grants (source_windows windows)) = Some (q', w', G)"
  shows "\<exists>r L1 w1. await_once E c deadline (rate_limiter q') w' = (r, L1, w1) \<and>
    (r = Slept \<longrightarrow> fst (await_once E c deadline L1 w1) = Granted) \<and>
    (\<exists>granted L2 w2. await_budget E C c (rate_limiter q') w' = Some (granted, L2, w2))"
proof -
  have "client_ok (tm w) (rate_limiter q) q (no_grants (source_windows windows))"
    using fresh_limiter_ok[OF assms(2,3)] by (simp add: client_ok_def)
  from client_run_ok[OF assms(1,4) this, of C] assms(5) have ok: "limiter_ok (tm w') (rate_limiter q') G"
    by (auto simp: client_ok_def)
  obtain r L1 w1 where once: "await_once E c deadline (rate_limiter q') w' = (r, L1, w1)" by (metis prod_cases3)
  have "r = Slept \<longrightarrow> fst (await_once E c deadline L1 w1) = Granted"
    by (rule await_loop_two_rounds[OF assms(1) ok, of c deadline]) (use once in auto)
  moreover have "\<exists>granted L2 w2. await_budget E C c (rate_limiter q') w' = Some (granted, L2, w2)"
    by (rule await_budget_effect[OF assms(1) ok, of C c]) blast
  ultimately show ?thesis using once by blast
qed

section \<open>All windows or none\<close>

text \<open>Some of the oldest charges are gone, each at least a period old at one of the times \<open>T\<close>.\<close>

definition lapsed :: "rat set \<Rightarrow> sliding_window \<Rightarrow> sliding_window \<Rightarrow> bool" where
  "lapsed T b b' \<longleftrightarrow> window_shape b' = window_shape b \<and>
     (\<exists>k. sw_log b' = drop k (sw_log b) \<and> (\<forall>x\<in>set (take k (sw_log b)). \<exists>t\<in>T. x \<le> t - sw_period b))"

text \<open>The same, and then one charge at one of the times.\<close>

definition lapsed_and_charged :: "rat set \<Rightarrow> sliding_window \<Rightarrow> sliding_window \<Rightarrow> bool" where
  "lapsed_and_charged T b b' \<longleftrightarrow> (\<exists>b1. \<exists>now\<in>T. lapsed T b b1 \<and> window_shape b' = window_shape b1 \<and> sw_log b' = sw_log b1 @ [now])"

definition readings :: "('w \<Rightarrow> rat \<times> 'w) \<Rightarrow> rat set" where
  "readings clock = range (\<lambda>w. fst (clock w))"

lemma reading: "clock w = (now, w1) \<Longrightarrow> now \<in> readings clock"
  by (metis fst_conv rangeI readings_def)

lemma lapsed_refl [simp]: "lapsed T b b"
  by (auto simp: lapsed_def intro: exI[of _ 0])

lemma lapsed_expire: "now \<in> T \<Longrightarrow> lapsed T b (sw_expire now b)"
proof -
  assume "now \<in> T"
  let ?P = "\<lambda>t. t \<le> now - sw_period b"
  let ?k = "length (takeWhile ?P (sw_log b))"
  have "sw_log (sw_expire now b) = drop ?k (sw_log b)" by (simp add: sw_expire_def dropWhile_eq_drop)
  moreover have "\<forall>x\<in>set (take ?k (sw_log b)). \<exists>t\<in>T. x \<le> t - sw_period b"
    using \<open>now \<in> T\<close> by (auto simp: takeWhile_eq_take[symmetric] dest: set_takeWhileD)
  ultimately show ?thesis unfolding lapsed_def by (auto simp: window_shape_def sw_expire_def)
qed

lemma lapsed_lapsed: "lapsed T a b \<Longrightarrow> lapsed T b c \<Longrightarrow> lapsed T a c"
proof -
  assume ab: "lapsed T a b" and bc: "lapsed T b c"
  then have shape: "window_shape c = window_shape a" "sw_period b = sw_period a"
    by (auto simp: lapsed_def window_shape_def)
  from ab obtain j where j: "sw_log b = drop j (sw_log a)" "\<forall>x\<in>set (take j (sw_log a)). \<exists>t\<in>T. x \<le> t - sw_period a"
    by (auto simp: lapsed_def)
  from bc obtain k where k: "sw_log c = drop k (sw_log b)" "\<forall>x\<in>set (take k (sw_log b)). \<exists>t\<in>T. x \<le> t - sw_period a"
    by (auto simp: lapsed_def shape)
  have "sw_log c = drop (j + k) (sw_log a)" by (simp add: k(1) j(1) add.commute)
  moreover have "\<forall>x\<in>set (take (j + k) (sw_log a)). \<exists>t\<in>T. x \<le> t - sw_period a"
    using j k(2) by (auto simp: take_add)
  ultimately show "lapsed T a c" using shape(1) unfolding lapsed_def by blast
qed

lemma lapsed_trans: "lapsed T a b \<Longrightarrow> lapsed_and_charged T b c \<Longrightarrow> lapsed_and_charged T a c"
  unfolding lapsed_and_charged_def using lapsed_lapsed by blast

lemma any_wait_lapses:
  "any_wait clock bs w = (r, bs', w') \<Longrightarrow> list_all (\<lambda>b. 1 \<le> sw_capacity b) bs \<Longrightarrow>
    list_all2 (lapsed (readings clock)) bs bs' \<and> (if r then list_ex (\<lambda>b. \<not> room b) bs' else list_all room bs')"
proof (induction bs arbitrary: w r bs' w')
  case (Cons b bs)
  obtain now w1 where c: "clock w = (now, w1)" by fastforce
  then have now: "now \<in> readings clock" by (rule reading)
  obtain v b1 where wt: "sw_time_until_available now b = (v, b1)" by fastforce
  have b1: "b1 = sw_expire now b" using wait_snd[of now b] wt by simp
  have v: "v > 0 \<longleftrightarrow> \<not> room b1" using wait_room[of b now] Cons.prems(2) wt by (simp add: b1)
  show ?case
  proof (cases "v > 0")
    case True
    with Cons.prems(1) c wt v show ?thesis by (auto simp: b1 lapsed_expire now list.rel_refl)
  next
    case False
    obtain r2 bs2 w2 where rec: "any_wait clock bs w1 = (r2, bs2, w2)" by (metis prod_cases3)
    with Cons.prems(1) c wt False have "r = r2" "bs' = b1 # bs2" by auto
    with Cons.IH[OF rec] Cons.prems(2) v False show ?thesis by (auto simp: b1 lapsed_expire now)
  qed
qed simp

lemma acquire_each_charges:
  "acquire_each clock bs w = (bs', w') \<Longrightarrow> list_all room bs \<Longrightarrow> list_all2 (lapsed_and_charged (readings clock)) bs bs'"
proof (induction bs arbitrary: w bs' w')
  case (Cons b bs)
  obtain now w1 where c: "clock w = (now, w1)" by fastforce
  then have now: "now \<in> readings clock" by (rule reading)
  obtain bs2 w2 where rec: "acquire_each clock bs w1 = (bs2, w2)" by fastforce
  have "snd (sw_acquire now b) = charge now (sw_expire now b)"
    using Cons.prems(2) room_expire by (simp add: acquire_alt Let_def)
  moreover have "lapsed_and_charged (readings clock) b (charge now (sw_expire now b))"
    using now lapsed_expire[OF now, of b]
    by (auto simp: lapsed_and_charged_def charge_def window_shape_def)
  ultimately show ?case using Cons.prems c rec Cons.IH[OF rec] by auto
qed simp

lemma lapsed_list_trans:
  "list_all2 (lapsed T) as bs \<Longrightarrow> list_all2 (lapsed_and_charged T) bs cs \<Longrightarrow> list_all2 (lapsed_and_charged T) as cs"
  by (rule list_all2_trans[of "lapsed T" "lapsed_and_charged T" "lapsed_and_charged T"]) (auto intro: lapsed_trans)

text \<open>C30. Whatever the clock does, a budget either charges every window exactly once, or charges none
  and then some window is full; besides, only charges lapse that are a period old by some reading of
  the clock, oldest first.\<close>

theorem budget_all_or_nothing:
  assumes "list_all (\<lambda>b. 1 \<le> sw_capacity b) (mb_buckets m)" "mb_acquire clock m w = (granted, m', w')"
  shows "if granted then list_all2 (lapsed_and_charged (readings clock)) (mb_buckets m) (mb_buckets m')
    else list_all2 (lapsed (readings clock)) (mb_buckets m) (mb_buckets m') \<and>
      list_ex (\<lambda>b. int (length (sw_log b)) \<ge> sw_capacity b) (mb_buckets m')"
proof -
  obtain r bs w1 where any: "any_wait clock (mb_buckets m) w = (r, bs, w1)" by (metis prod_cases3)
  note a = any_wait_lapses[OF any assms(1)]
  show ?thesis
  proof (cases r)
    case True
    with a have "list_ex (\<lambda>b. int (length (sw_log b)) \<ge> sw_capacity b) bs" by (simp add: room_def linorder_not_less)
    with assms(2) any a True show ?thesis by (auto simp: mb_acquire_def)
  next
    case False
    obtain bs2 w2 where acq: "acquire_each clock bs w1 = (bs2, w2)" by fastforce
    with a False have "list_all2 (lapsed_and_charged (readings clock)) (mb_buckets m) bs2"
      using lapsed_list_trans acquire_each_charges[OF acq] by auto
    with assms(2) any acq False show ?thesis by (auto simp: mb_acquire_def)
  qed
qed

section \<open>What a request sends\<close>

lemma http_fn_frame:
  "monotonic (E\<lparr>http_fn := h\<rparr>) = monotonic E" "wall_clock (E\<lparr>http_fn := h\<rparr>) = wall_clock E"
  "sleep_fn (E\<lparr>http_fn := h\<rparr>) = sleep_fn E"
  by simp_all

lemma await_once_http: "await_once (E\<lparr>http_fn := h\<rparr>) = await_once E"
  by (intro ext) (simp only: await_once_def http_fn_frame)

lemma await_loop_http:
  assumes "await_loop E c deadline L w = Some y"
  shows "await_loop (E\<lparr>http_fn := h\<rparr>) c deadline L w = Some y"
  using assms
proof (rule await_loop.raw_induct[where P = "\<lambda>E c deadline L w y. await_loop (E\<lparr>http_fn := h\<rparr>) c deadline L w = Some y", rotated])
  fix loop :: "'a quest_env \<Rightarrow> rate_category \<Rightarrow> rat \<Rightarrow> quest_limiter \<Rightarrow> 'a \<Rightarrow> (bool \<times> quest_limiter \<times> 'a) option"
  fix E :: "'a quest_env" and c deadline L w y
  assume IH: "\<And>c deadline L w b y. loop c deadline L w b = Some y \<Longrightarrow> await_loop (c\<lparr>http_fn := h\<rparr>) deadline L w b = Some y"
    and run: "(case await_once E c deadline L w of (r, L1, w1) \<Rightarrow>
      if r = Granted then Some (True, L1, w1) else if r = Refused then Some (False, L1, w1)
      else loop E c deadline L1 w1) = Some y"
  obtain r L1 w1 where once: "await_once E c deadline L w = (r, L1, w1)" by (metis prod_cases3)
  show "await_loop (E\<lparr>http_fn := h\<rparr>) c deadline L w = Some y"
  proof (cases r)
    case Slept
    then have "loop E c deadline L1 w1 = Some y" using run once by simp
    from IH[OF this] Slept once show ?thesis by (subst await_loop.simps) (simp add: await_once_http)
  qed (use run once in \<open>subst await_loop.simps, simp add: await_once_http\<close>)+
qed

lemma await_budget_http: "await_budget E C c L w = Some y \<Longrightarrow> await_budget (E\<lparr>http_fn := h\<rparr>) C c L w = Some y"
  by (auto simp: await_budget_def Let_def split: prod.splits intro: await_loop_http)

lemma require_token_http: "require_token (E\<lparr>http_fn := h\<rparr>) C q w = require_token E C q w"
  unfolding require_token_def by (auto simp: is_token_expired_def split: option.split prod.split)

lemma undispatched_transport:
  assumes "dispatch_of E C path cat q w = None" "quest_request E C http_method path cat q w = Some y"
  shows "quest_request (E\<lparr>http_fn := h\<rparr>) C http_method path cat q w = Some y"
proof -
  obtain t w1 where req: "require_token E C q w = (t, w1)" by fastforce
  note req' = require_token_http[where E = E and h = h and C = C and q = q and w = w, unfolded req]
  show ?thesis
  proof (cases t)
    case (Inl e)
    with assms(2) req req' show ?thesis by (simp add: quest_request_def)
  next
    case (Inr token)
    define c where "c = (case cat of Some c \<Rightarrow> c | None \<Rightarrow> categorize_endpoint path)"
    obtain L w2 where aw: "await_budget E C c (rate_limiter q) w1 = Some (False, L, w2)"
      using assms req Inr unfolding dispatch_of_def quest_request_def Let_def c_def[symmetric]
      by (cases "await_budget E C c (rate_limiter q) w1") (auto split: bool.splits)
    show ?thesis
      using assms(2) unfolding quest_request_def req req' Inr prod.case sum.case Let_def c_def[symmetric] aw await_budget_http[OF aw]
      by simp
  qed
qed

lemma dispatched_session:
  assumes "dispatch_of E C path cat q w = Some (token, c, L, w2)"
  shows "auth_token q = Some token \<and> \<not> within_skew (st_deadline token) (fst (monotonic E w)) (expiry_skew_sec C)"
  using assms
  by (auto simp: dispatch_of_def Let_def require_token_def is_token_expired_def
      split: prod.splits sum.splits option.splits if_splits bool.splits)

lemma answer_data:
  "read_answer E c L answer w = (Inr data, L', w') \<Longrightarrow>
    \<exists>result hs. answer = Inr result \<and> unpack result = Inr (200, data, hs) \<and> raise_for_embedded_error data 200 = None"
  by (auto simp: read_answer_def split: sum.splits prod.splits if_splits option.splits)

text \<open>C25. A request that is not dispatched ends in an authentication error or the local rate limit and
  would have done the same with any other transport; one that is dispatched carries the current
  session, which had more than the safety margin left, and returns data only from an answer of
  status 200 without an error in its body.\<close>

theorem request_outcome:
  assumes "quest_request E C http_method path cat q w = Some (r, q', w')"
  shows "case dispatch_of E C path cat q w of
    None \<Rightarrow> (r = Inl (Auth_Error None) \<or> r = Inl Rate_Limit_Local) \<and>
      (\<forall>h. quest_request (E\<lparr>http_fn := h\<rparr>) C http_method path cat q w = Some (r, q', w'))
  | Some (token, c, L, w2) \<Rightarrow> auth_token q = Some token \<and>
      \<not> within_skew (st_deadline token) (fst (monotonic E w)) (expiry_skew_sec C) \<and>
      (\<forall>data. r = Inr data \<longrightarrow> (\<exists>result hs. fst (http_fn E (bearer_request token http_method path) w2) = Inr result \<and>
        unpack result = Inr (200, data, hs) \<and> raise_for_embedded_error data 200 = None))"
proof (cases "dispatch_of E C path cat q w")
  case None
  with request_undispatched[OF None assms] undispatched_transport[OF None assms] show ?thesis by auto
next
  case (Some p)
  obtain token c L w2 where d: "dispatch_of E C path cat q w = Some (token, c, L, w2)" using Some by (cases p) auto
  obtain answer w3 where http: "http_fn E (bearer_request token http_method path) w2 = (answer, w3)" by fastforce
  obtain r1 L1 w4 where ra: "read_answer E c L answer w3 = (r1, L1, w4)" by (metis prod_cases3)
  have "r1 = r" using request_dispatched[OF d, of http_method] assms http ra by simp
  then have "\<exists>result hs. answer = Inr result \<and> unpack result = Inr (200, data, hs) \<and> raise_for_embedded_error data 200 = None"
    if "r = Inr data" for data using answer_data[of E c L answer w3 data] ra that by simp
  with dispatched_session[OF d] d http show ?thesis by simp
qed

section \<open>Rotating the session\<close>

text \<open>C38. A refresh that succeeds has handed exactly the session it returns to the persistence, which
  accepted it, before that session replaced the old one; a refresh that fails leaves the client as
  it was.\<close>

theorem rotation_persisted_first:
  assumes "refresh_access_token E C t q w = (r, q', w')"
  shows "case r of
    Inl e \<Rightarrow> q' = q
  | Inr session \<Rightarrow> q' = q\<lparr>auth_token := Some session\<rparr> \<and> \<not> not_positive (st_expires_in session) \<and>
      (case token_persist_fn E of None \<Rightarrow> True | Some p \<Rightarrow> \<exists>w1. p session w1 = (True, w'))"
proof (cases "\<exists>result status data hs kvs x s w1. py_strip t \<noteq> '''' \<and> http_fn E (token_request C (py_strip t)) w = (Inr result, w1) \<and>
    unpack result = Inr (status, data, hs) \<and> token_fields status data = Inr (kvs, x, s)")
  case True
  then obtain result status data hs kvs x s w1 where parts: "py_strip t \<noteq> ''''"
    "http_fn E (token_request C (py_strip t)) w = (Inr result, w1)" "unpack result = Inr (status, data, hs)"
    "token_fields status data = Inr (kvs, x, s)" by blast
  obtain session w2 where ses: "new_session E kvs x s w1 = (session, w2)" by fastforce
  have "st_expires_in session = x" using ses by (auto simp: new_session_def Let_def split: prod.splits)
  moreover have "\<not> not_positive x"
    using parts(4) by (auto simp: token_fields_def Let_def split: py_value.splits if_splits sum.splits quest_error.splits)
  moreover note assms[unfolded refresh_access_token_def Let_def parts(2-4) prod.case sum.case ses]
  ultimately show ?thesis using parts(1) by (auto split: option.splits prod.splits if_splits)
next
  case False
  with assms have "q' = q \<and> (\<exists>e. r = Inl e)"
    by (auto simp: refresh_access_token_def Let_def split: if_splits prod.splits sum.splits)
  then show ?thesis by auto
qed

text \<open>A lifetime that is not a number passes the guard, and the session never counts as expired.\<close>

lemma nan_session_never_expires:
  "\<not> not_positive N_nan" "\<not> within_skew (num_add now N_nan) later skew"
  by (simp_all add: within_skew_def)

section \<open>Eligibility\<close>

text \<open>An order passes exactly for a documented side and a registered account that is active, or
  liquidating and the side only reduces positions, with short sides and option writing in margin
  accounts only; the three forms of the check agree.\<close>

theorem order_allowed_iff:
  "(validate_order_for_account q number side = Inr True \<longleftrightarrow> side \<in> set ORDER_SIDES \<and>
    (\<exists>a. py_get (accounts q) number = Some a \<and>
      (qa_status a = ACTIVE \<or> qa_status a = LIQUIDATE_ONLY \<and> side \<in> set POSITION_REDUCING_SIDES) \<and>
      (side \<in> {''Short'', ''Cov'', ''STO''} \<longrightarrow> qa_type a = MARGIN))) \<and>
   (validate_order_for_account q number side = Inr True \<longleftrightarrow> (\<exists>el. assert_order_allowed q number side = Inr el))"
proof
  have check: "validate_order_for_account q number side = Inr True \<longleftrightarrow> side \<in> set ORDER_SIDES \<and>
    (\<exists>a. py_get (accounts q) number = Some a \<and> fst (order_verdict a side) = ALLOWED)"
    by (auto simp: validate_order_for_account_def check_order_eligibility_def get_account_def order_eligible_def
        split: option.split prod.split)
  have "fst (order_verdict a side) = ALLOWED \<longleftrightarrow>
      (qa_status a = ACTIVE \<or> qa_status a = LIQUIDATE_ONLY \<and> side \<in> set POSITION_REDUCING_SIDES) \<and>
      (side \<in> {''Short'', ''Cov'', ''STO''} \<longrightarrow> qa_type a = MARGIN)" for a
    by (auto simp: order_verdict_def can_borrow_def margin_capable_account_types_def BORROW_REQUIRING_SIDES_def
        OPTION_WRITING_SIDES_def)
  with check show "validate_order_for_account q number side = Inr True \<longleftrightarrow> side \<in> set ORDER_SIDES \<and>
    (\<exists>a. py_get (accounts q) number = Some a \<and>
      (qa_status a = ACTIVE \<or> qa_status a = LIQUIDATE_ONLY \<and> side \<in> set POSITION_REDUCING_SIDES) \<and>
      (side \<in> {''Short'', ''Cov'', ''STO''} \<longrightarrow> qa_type a = MARGIN))" by blast
  show "validate_order_for_account q number side = Inr True \<longleftrightarrow> (\<exists>el. assert_order_allowed q number side = Inr el)"
    by (auto simp: validate_order_for_account_def assert_order_allowed_def split: sum.split)
qed

end
