(* ===== verification/Quest_Tokens.thy ===== *)
theory Quest_Tokens
  imports Quest_Client
begin

text \<open>
  The token bucket over a stretch of time, and the quoting of the refresh token against a
  decoder of percent-encoded UTF-8.
\<close>

section \<open>Token bucket\<close>

datatype bucket_op = T_available rat | T_acquire rat rat | T_wait rat rat | T_resync rat rat

fun bucket_time :: "bucket_op \<Rightarrow> rat" where
  "bucket_time (T_available now) = now"
| "bucket_time (T_acquire _ now) = now"
| "bucket_time (T_wait _ now) = now"
| "bucket_time (T_resync _ now) = now"

fun bucket_amount :: "bucket_op \<Rightarrow> rat" where
  "bucket_amount (T_acquire n _) = n"
| "bucket_amount _ = 0"

text \<open>The tokens granted so far, and the bucket.\<close>

fun bucket_step :: "bucket_op \<Rightarrow> rat \<times> token_bucket \<Rightarrow> rat \<times> token_bucket" where
  "bucket_step (T_available now) (g, b) = (g, snd (tb_available now b))"
| "bucket_step (T_acquire n now) (g, b) = (case tb_acquire n now b of (granted, b1) \<Rightarrow> (if granted then g + n else g, b1))"
| "bucket_step (T_wait n now) (g, b) = (g, snd (tb_time_until_available n now b))"
| "bucket_step (T_resync n now) (g, b) = (g, tb_resync n now b)"

definition bucket_ok :: "rat \<Rightarrow> rat \<Rightarrow> token_bucket \<Rightarrow> bool" where
  "bucket_ok start g b \<longleftrightarrow> 0 < tb_fill_rate b \<and> start \<le> tb_last_update b \<and>
     g + tb_tokens b \<le> of_int (tb_capacity b) + tb_fill_rate b * (tb_last_update b - start)"

lemma refill_sel [simp]:
  "tb_capacity (tb_refill now b) = tb_capacity b" "tb_fill_rate (tb_refill now b) = tb_fill_rate b"
  "tb_last_update (tb_refill now b) = now"
  by (simp_all add: tb_refill_def Let_def)

lemma refill_ok:
  assumes "bucket_ok start g b" "tb_last_update b \<le> now"
  shows "bucket_ok start g (tb_refill now b)"
proof -
  have "max 0 (now - tb_last_update b) = now - tb_last_update b" using assms(2) by simp
  then have "tb_tokens (tb_refill now b) \<le> tb_tokens b + (now - tb_last_update b) * tb_fill_rate b"
    by (simp add: tb_refill_def)
  with assms show ?thesis by (auto simp: bucket_ok_def algebra_simps)
qed

lemma bucket_ok_fewer:
  "bucket_ok start g b \<Longrightarrow> g' + x \<le> g + tb_tokens b \<Longrightarrow> bucket_ok start g' (b\<lparr>tb_tokens := x\<rparr>)"
  by (auto simp: bucket_ok_def)

lemma bucket_step_ok:
  assumes "bucket_ok start g b" "tb_last_update b \<le> bucket_time k" "0 \<le> bucket_amount k"
    and "bucket_step k (g, b) = (g', b')"
  shows "bucket_ok start g' b' \<and> tb_last_update b' \<le> bucket_time k \<and>
    tb_capacity b' = tb_capacity b \<and> tb_fill_rate b' = tb_fill_rate b \<and> g \<le> g'"
proof (cases k)
  case (T_available now)
  with assms refill_ok[OF assms(1), of now] show ?thesis by (auto simp: tb_available_def Let_def)
next
  case (T_acquire n now)
  have ok: "bucket_ok start g (tb_refill now b)" using refill_ok[OF assms(1), of now] assms(2) T_acquire by simp
  show ?thesis
  proof (cases "tb_tokens (tb_refill now b) \<ge> n")
    case True
    with assms(4) T_acquire have "g' = g + n" "b' = (tb_refill now b)\<lparr>tb_tokens := tb_tokens (tb_refill now b) - n\<rparr>"
      by (auto simp: tb_acquire_def Let_def)
    with bucket_ok_fewer[OF ok, of "g + n" "tb_tokens (tb_refill now b) - n"] assms(3) T_acquire show ?thesis by simp
  qed (use assms(4) T_acquire ok in \<open>auto simp: tb_acquire_def Let_def\<close>)
next
  case (T_wait n now)
  with assms refill_ok[OF assms(1), of now] show ?thesis
    by (auto simp: tb_time_until_available_def Let_def split: if_splits)
next
  case (T_resync n now)
  have ok: "bucket_ok start g (tb_refill now b)" using refill_ok[OF assms(1), of now] assms(2) T_resync by simp
  have "b' = (tb_refill now b)\<lparr>tb_tokens := min (tb_tokens (tb_refill now b)) (max 0 n)\<rparr>" "g' = g"
    using assms(4) T_resync by (auto simp: tb_resync_def Let_def)
  then show ?thesis
    using bucket_ok_fewer[OF ok, of g "min (tb_tokens (tb_refill now b)) (max 0 n)"] T_resync by simp
qed

text \<open>Every bucket starts with no more than its capacity and never holds a negative amount.\<close>

lemma bucket_tokens_nonneg:
  assumes "0 \<le> tb_tokens b" "0 < tb_fill_rate b" "0 \<le> tb_capacity b" "bucket_step k (g, b) = (g', b')"
  shows "0 \<le> tb_tokens b'"
proof -
  have r: "0 \<le> tb_tokens (tb_refill now b)" for now
    using assms(1-3) by (simp add: tb_refill_def Let_def)
  show ?thesis
    using assms(4) r assms(1) by (cases k) (auto simp: tb_available_def tb_acquire_def tb_time_until_available_def tb_resync_def
      Let_def split: if_splits)
qed

lemma bucket_run_ok:
  "bucket_ok start g b \<Longrightarrow> 0 \<le> tb_tokens b \<Longrightarrow> 0 \<le> tb_capacity b \<Longrightarrow> sorted (tb_last_update b # map bucket_time ks) \<Longrightarrow>
    list_all (\<lambda>k. 0 \<le> bucket_amount k) ks \<Longrightarrow> fold bucket_step ks (g, b) = (g', b') \<Longrightarrow>
    bucket_ok start g' b' \<and> 0 \<le> tb_tokens b' \<and> tb_last_update b' \<le> last (tb_last_update b # map bucket_time ks) \<and>
    tb_capacity b' = tb_capacity b \<and> tb_fill_rate b' = tb_fill_rate b"
proof (induction ks arbitrary: g b)
  case (Cons k ks)
  obtain g1 b1 where step: "bucket_step k (g, b) = (g1, b1)" by fastforce
  have s: "bucket_ok start g1 b1 \<and> tb_last_update b1 \<le> bucket_time k \<and> tb_capacity b1 = tb_capacity b \<and>
      tb_fill_rate b1 = tb_fill_rate b \<and> g \<le> g1"
    by (rule bucket_step_ok[OF Cons.prems(1) _ _ step]) (use Cons.prems(4,5) in auto)
  have n: "0 \<le> tb_tokens b1"
    by (rule bucket_tokens_nonneg[OF Cons.prems(2) _ Cons.prems(3) step]) (use Cons.prems(1) in \<open>simp add: bucket_ok_def\<close>)
  have "sorted (tb_last_update b1 # map bucket_time ks)" using Cons.prems(4) s by fastforce
  from Cons.IH[OF _ n _ this] s Cons.prems(3,5,6) step
  have IH: "bucket_ok start g' b' \<and> 0 \<le> tb_tokens b' \<and> tb_last_update b' \<le> last (tb_last_update b1 # map bucket_time ks) \<and>
      tb_capacity b' = tb_capacity b \<and> tb_fill_rate b' = tb_fill_rate b" by auto
  with s show ?case by (cases ks) auto
qed auto

text \<open>Over any sequence of operations on a token bucket at times that do not go back, the tokens granted
  come to no more than its capacity plus what refilled in between; they can come to twice the capacity
  by the time one capacity has refilled.\<close>

theorem token_bucket_bound:
  assumes "make_token_bucket capacity fill_rate start = Inr b" "sorted (start # map bucket_time ks)"
    and "list_all (\<lambda>k. 0 \<le> bucket_amount k) ks"
  shows "fst (fold bucket_step ks (0, b)) \<le> of_int capacity + fill_rate * (last (start # map bucket_time ks) - start) \<and>
    fst (fold bucket_step [T_acquire (of_int capacity) start, T_acquire (of_int capacity) (start + of_int capacity / fill_rate)] (0, b))
      = 2 * of_int capacity"
proof
  have b: "b = \<lparr>tb_capacity = capacity, tb_fill_rate = fill_rate, tb_tokens = of_int capacity, tb_last_update = start\<rparr>"
    "1 \<le> capacity" "0 < fill_rate" using assms(1) by (auto simp: make_token_bucket_def split: if_splits)
  obtain g' b' where run: "fold bucket_step ks (0, b) = (g', b')" by fastforce
  have ok: "bucket_ok start 0 b" using b by (simp add: bucket_ok_def)
  have "bucket_ok start g' b' \<and> 0 \<le> tb_tokens b' \<and> tb_last_update b' \<le> last (tb_last_update b # map bucket_time ks) \<and>
    tb_capacity b' = tb_capacity b \<and> tb_fill_rate b' = tb_fill_rate b"
    by (rule bucket_run_ok[OF ok _ _ _ assms(3) run]) (use assms(2) b in auto)
  then have e: "g' + tb_tokens b' \<le> of_int capacity + fill_rate * (tb_last_update b' - start)" "0 \<le> tb_tokens b'"
    "tb_last_update b' \<le> last (start # map bucket_time ks)" by (auto simp: b(1) bucket_ok_def)
  have "fill_rate * (tb_last_update b' - start) \<le> fill_rate * (last (start # map bucket_time ks) - start)"
    using e(3) b(3) by (intro mult_left_mono) auto
  with e run show "fst (fold bucket_step ks (0, b)) \<le> of_int capacity + fill_rate * (last (start # map bucket_time ks) - start)"
    by auto
  have 1: "bucket_step (T_acquire (of_int capacity) start) (0, b) = (of_int capacity, b\<lparr>tb_tokens := 0\<rparr>)"
    by (simp add: b(1) tb_acquire_def tb_refill_def Let_def)
  have "0 \<le> rat_of_int capacity / fill_rate" using b by (intro divide_nonneg_pos) auto
  then have 2: "fst (bucket_step (T_acquire (of_int capacity) (start + of_int capacity / fill_rate)) (of_int capacity, b\<lparr>tb_tokens := 0\<rparr>))
    = 2 * of_int capacity" using b(3) by (simp add: b(1) tb_acquire_def tb_refill_def Let_def)
  show "fst (fold bucket_step [T_acquire (of_int capacity) start, T_acquire (of_int capacity) (start + of_int capacity / fill_rate)] (0, b))
      = 2 * of_int capacity" using 1 2 by simp
qed

section \<open>Quoting the refresh token\<close>

definition hex_value :: "char \<Rightarrow> int" where
  "hex_value c = (let n = of_char c in if n < 65 then n - 48 else n - 55)"

fun unquote_bytes :: "string \<Rightarrow> int list" where
  "unquote_bytes [] = []"
| "unquote_bytes [c] = [of_char c]"
| "unquote_bytes [c, d] = [of_char c, of_char d]"
| "unquote_bytes (c # d # e # cs) =
     (if c = CHR ''%'' then (16 * hex_value d + hex_value e) # unquote_bytes cs
      else of_char c # unquote_bytes (d # e # cs))"

fun utf8_decode :: "int list \<Rightarrow> string" where
  "utf8_decode [] = []"
| "utf8_decode [b] = [char_of b]"
| "utf8_decode (b # d # bs) =
     (if b < 128 then char_of b # utf8_decode (d # bs) else char_of ((b - 192) * 64 + (d - 128)) # utf8_decode bs)"

definition utf8_bytes :: "char \<Rightarrow> int list" where
  "utf8_bytes c = (let n = of_char c in if n < 128 then [n] else [192 + n div 64, 128 + n mod 64])"

lemma char_range: "0 \<le> (of_char c :: int)" "(of_char c :: int) < 256"
proof -
  have e: "(of_char c :: int) = int (of_char c)" by (rule of_nat_of_char[symmetric])
  show "0 \<le> (of_char c :: int)" unfolding e by simp
  have "(of_char c :: nat) < 256" by (rule nat_of_char_less_256)
  then show "(of_char c :: int) < 256" unfolding e by simp
qed

lemma unquote_plain: "c \<noteq> CHR ''%'' \<Longrightarrow> unquote_bytes (c # cs) = of_char c # unquote_bytes cs"
  by (cases cs rule: unquote_bytes.cases) auto

lemma hex_round: "0 \<le> n \<Longrightarrow> n < 16 \<Longrightarrow> hex_value (upper_hex n) = n"
  by (simp add: hex_value_def upper_hex_def Let_def)

lemma unquote_percent: "0 \<le> n \<Longrightarrow> n < 256 \<Longrightarrow> unquote_bytes (percent_byte n @ cs) = n # unquote_bytes cs"
  by (simp add: percent_byte_def hex_round)

lemma unquote_char: "unquote_bytes (quote_char c @ cs) = utf8_bytes c @ unquote_bytes cs"
proof (cases "unreserved c")
  case True
  then have "c \<noteq> CHR ''%''" "(of_char c :: int) < 128" by (auto simp: unreserved_def Let_def)
  with True show ?thesis by (simp add: quote_char_def utf8_bytes_def Let_def unquote_plain)
next
  case False
  note r = char_range[of c]
  have "(of_char c :: int) div 64 < 4" using r by simp
  moreover have "0 \<le> (of_char c :: int) div 64" using r by simp
  ultimately show ?thesis using False r
    by (simp add: quote_char_def utf8_bytes_def Let_def unquote_percent)
qed

lemma utf8_char: "utf8_decode (utf8_bytes c @ bs) = c # utf8_decode bs"
proof (cases "(of_char c :: int) < 128")
  case True
  then show ?thesis by (cases bs) (simp_all add: utf8_bytes_def Let_def)
next
  case False
  have "(of_char c :: int) div 64 * 64 + of_char c mod 64 = of_char c" by simp
  moreover have "\<not> 192 + (of_char c :: int) div 64 < 128" using char_range[of c] by simp
  ultimately show ?thesis using False by (simp add: utf8_bytes_def Let_def del: div_mult_mod_eq)
qed

lemma upper_hex_plain: "0 \<le> n \<Longrightarrow> n < 16 \<Longrightarrow> unreserved (upper_hex n)"
  by (auto simp: upper_hex_def unreserved_def Let_def)

lemma percent_plain: "0 \<le> n \<Longrightarrow> n < 256 \<Longrightarrow> list_all (\<lambda>c. unreserved c \<or> c = CHR ''%'') (percent_byte n)"
  by (simp add: percent_byte_def upper_hex_plain)

text \<open>A quoted refresh token consists of unreserved characters and percent signs, and decodes to the
  token it was made from, so it reaches the server unchanged.\<close>

theorem quoted_token_round_trip:
  "utf8_decode (unquote_bytes (url_quote s)) = s \<and> list_all (\<lambda>c. unreserved c \<or> c = CHR ''%'') (url_quote s)"
proof (induction s)
  case (Cons c s)
  have "list_all (\<lambda>c. unreserved c \<or> c = CHR ''%'') (quote_char c)"
    using char_range[of c] percent_plain by (simp add: quote_char_def Let_def)
  with Cons show ?case by (simp add: url_quote_def unquote_char utf8_char)
qed (simp add: url_quote_def)

section \<open>A header that is not ignored\<close>

text \<open>An infinite negative remainder gets past both guards and raises.\<close>

lemma negative_infinity_raises:
  "header_number (V_map [] [(''X-RateLimit-Remaining'', V_str ''-inf'')]) ''x-ratelimit-remaining'' = Inr (Some (N_inf False))"
  "fst (sw_resync (N_inf False) clock b w) = Inl Overflow_Err" "\<not> float_above (N_inf False) n"
  by code_simp (simp_all add: sw_resync_def int_of_float_def float_above_def)

end
