(* ===== verification/Quest_Witnesses.thy ===== *)
theory Quest_Witnesses
  imports Quest_Properties Quest_Tokens
begin

text \<open>
  Instances of the properties of the Questrade client in a small world whose state is the time:
  a clock that reads it, a sleep that adds to it and a server that answers after a tenth of a second.
\<close>

definition demo_answer :: py_value where
  "demo_answer = V_list '''' [V_int 200, V_map '''' [(''time'', V_str ''now'')]]"

definition demo_env :: "rat quest_env" where
  "demo_env = \<lparr>monotonic = (\<lambda>w. (w, w)), wall_clock = (\<lambda>w. (w, w)), sleep_fn = (\<lambda>d w. w + d),
     http_fn = (\<lambda>r w. (Inr demo_answer, w + 1 / 10)), token_persist_fn = Some (\<lambda>t w. (True, w))\<rparr>"

definition demo_config :: quest_config where
  "demo_config = \<lparr>practice = False, strict_account_types = False, token_request_method = ''GET'',
     expiry_skew_sec = 60, max_wait_sec = 5\<rparr>"

definition demo_session :: session_token where
  "demo_session = \<lparr>st_access = ''a'', st_refresh = ''r'', st_server = ''https://api01.iq.questrade.com/'', st_type = ''Bearer'',
     st_expires_at = N_float 1800, st_expires_in = N_float 1800, st_deadline = N_float 1800\<rparr>"

definition demo_limiter :: quest_limiter where
  "demo_limiter = (case make_limiter None of Inr L \<Rightarrow> L)"

definition demo_account :: quest_account where
  "demo_account = \<lparr>qa_number = ''1'', qa_type = TFSA, qa_primary = True, qa_status = ACTIVE, qa_billing = True, qa_client_type = ''''\<rparr>"

definition demo_client :: quest_client where
  "demo_client = \<lparr>rate_limiter = demo_limiter, auth_token = Some demo_session, accounts = [(''1'', demo_account)]\<rparr>"

lemma demo_steady: "steady_world demo_env (\<lambda>w. w)"
  by (simp add: steady_world_def steady_def demo_env_def)

lemma demo_limiter_made: "make_limiter None = Inr demo_limiter"
  by (simp add: demo_limiter_def make_limiter_def DOCUMENTED_WINDOWS_def py_get_def make_multi_budget_def)

lemma documented_valid: "windows_valid DOCUMENTED_WINDOWS"
  by (simp add: windows_valid_def DOCUMENTED_WINDOWS_def)

lemma request_rate_capped_witness:
  "\<exists>q' w' G. client_run demo_env demo_config [Ask ''GET'' ''v1/time'' None, Meanwhile (\<lambda>w. w + 1), Fetch_accounts]
      (demo_client, 0, no_grants DOCUMENTED_WINDOWS) = Some (q', w', G) \<and>
    int (stretch_count (G ACCOUNT ! 1) 3600 10) \<le> 30000"
proof -
  have source: "source_windows None = DOCUMENTED_WINDOWS" by (simp add: source_windows_def)
  have calls: "list_all (call_ok (\<lambda>w. w)) [Ask ''GET'' ''v1/time'' None, Meanwhile (\<lambda>w. w + 1), Fetch_accounts]"
    by (simp add: call_ok_def)
  have made: "make_limiter None = Inr (rate_limiter demo_client)" by (simp add: demo_client_def demo_limiter_made)
  have account: "py_get DOCUMENTED_WINDOWS ACCOUNT = Some [\<lparr>rw_capacity = 30, rw_period = 1\<rparr>, \<lparr>rw_capacity = 30000, rw_period = 3600\<rparr>]"
    by (simp add: DOCUMENTED_WINDOWS_def py_get_def)
  from request_rate_capped[OF demo_steady made _ calls, of demo_config 0, unfolded source, OF documented_valid]
  obtain q' w' G where run: "client_run demo_env demo_config [Ask ''GET'' ''v1/time'' None, Meanwhile (\<lambda>w. w + 1), Fetch_accounts]
      (demo_client, 0, no_grants DOCUMENTED_WINDOWS) = Some (q', w', G)"
    and cap: "\<And>c ws i s. py_get DOCUMENTED_WINDOWS c = Some ws \<Longrightarrow> i < length ws \<Longrightarrow>
      int (stretch_count (G c ! i) (rw_period (ws ! i)) s) \<le> rw_capacity (ws ! i)" by blast
  from cap[OF account, of 1 10] run show ?thesis by auto
qed

lemma await_ends_in_two_rounds_witness:
  "\<exists>granted L2 w2. await_budget demo_env demo_config MARKET_DATA demo_limiter 0 = Some (granted, L2, w2)"
proof -
  have source: "source_windows None = DOCUMENTED_WINDOWS" by (simp add: source_windows_def)
  have made: "make_limiter None = Inr (rate_limiter demo_client)" by (simp add: demo_client_def demo_limiter_made)
  have limiter: "rate_limiter demo_client = demo_limiter" by (simp add: demo_client_def)
  have none: "list_all (call_ok (\<lambda>w. w)) []" "client_run demo_env demo_config [] (demo_client, 0, no_grants DOCUMENTED_WINDOWS) =
      Some (demo_client, 0, no_grants DOCUMENTED_WINDOWS)" by simp_all
  from await_ends_in_two_rounds[OF demo_steady made _ none(1), unfolded source, OF documented_valid none(2), of MARKET_DATA 5]
  show ?thesis unfolding limiter by blast
qed

definition demo_budget :: multi_budget where
  "demo_budget = \<lparr>mb_windows = [], mb_buckets = [\<lparr>sw_capacity = 2, sw_period = 1, sw_log = [0]\<rparr>, \<lparr>sw_capacity = 3, sw_period = 60, sw_log = [0]\<rparr>]\<rparr>"

lemma budget_all_or_nothing_witness:
  "fst (mb_acquire (monotonic demo_env) demo_budget 1) \<and>
    list_all2 (lapsed_and_charged (readings (monotonic demo_env))) (mb_buckets demo_budget) (mb_buckets (fst (snd (mb_acquire (monotonic demo_env) demo_budget 1))))"
proof -
  obtain m' w' where acq: "mb_acquire (monotonic demo_env) demo_budget 1 = (True, m', w')"
    by (simp add: mb_acquire_def demo_budget_def demo_env_def sw_time_until_available_def sw_expire_def Let_def)
  have "list_all (\<lambda>b. 1 \<le> sw_capacity b) (mb_buckets demo_budget)" by (simp add: demo_budget_def)
  from budget_all_or_nothing[OF this acq] acq show ?thesis by simp
qed

lemma demo_limiter_of_client: "rate_limiter demo_client = demo_limiter"
  by (simp add: demo_client_def)

lemma demo_dispatch:
  obtains L where "dispatch_of demo_env demo_config ''v1/time'' None demo_client 0 = Some (demo_session, ACCOUNT, L, 0)"
proof -
  have c: "categorize_endpoint ''v1/time'' = ACCOUNT" by code_simp
  have req: "require_token demo_env demo_config demo_client 0 = (Inr demo_session, 0)"
    by (simp add: require_token_def is_token_expired_def demo_client_def demo_env_def within_skew_def demo_session_def demo_config_def)
  have budget: "budget_of demo_limiter ACCOUNT =
      \<lparr>mb_windows = [\<lparr>rw_capacity = 30, rw_period = 1\<rparr>, \<lparr>rw_capacity = 30000, rw_period = 3600\<rparr>],
       mb_buckets = [\<lparr>sw_capacity = 30, sw_period = 1, sw_log = []\<rparr>, \<lparr>sw_capacity = 30000, sw_period = 3600, sw_log = []\<rparr>]\<rparr>"
    using fresh_limiter(3) demo_limiter_made
    by (simp add: demo_limiter_def make_limiter_def DOCUMENTED_WINDOWS_def py_get_def make_multi_budget_def budget_of_def bucket_of_def)
  obtain L where "await_once demo_env ACCOUNT d demo_limiter 0 = (Granted, L, 0)" for d
    by (simp add: await_once_def limiter_acquire_def budget mb_acquire_def demo_env_def sw_time_until_available_def
        sw_expire_def Let_def)
  then have "await_budget demo_env demo_config ACCOUNT demo_limiter 0 = Some (True, L, 0)"
    by (simp add: await_budget_def Let_def await_loop.simps) (simp add: demo_env_def)
  then have "dispatch_of demo_env demo_config ''v1/time'' None demo_client 0 = Some (demo_session, ACCOUNT, L, 0)"
    by (simp add: dispatch_of_def req c demo_limiter_of_client)
  then show thesis by (rule that)
qed

lemma request_outcome_witness:
  "\<exists>data q' w'. quest_request demo_env demo_config ''GET'' ''v1/time'' None demo_client 0 = Some (Inr data, q', w') \<and>
    auth_token demo_client = Some demo_session \<and> raise_for_embedded_error data 200 = None"
proof -
  obtain L where d: "dispatch_of demo_env demo_config ''v1/time'' None demo_client 0 = Some (demo_session, ACCOUNT, L, 0)"
    by (rule demo_dispatch)
  have "\<exists>data q' w'. quest_request demo_env demo_config ''GET'' ''v1/time'' None demo_client 0 = Some (Inr data, q', w')"
    unfolding request_dispatched[OF d]
    by (simp add: demo_env_def demo_answer_def read_answer_def unpack_def apply_headers_def header_number_def header_value_def
        raise_for_embedded_error_def py_get_def) (rule exI[of _ "1 / 10"], simp)
  then obtain data q' w' where run: "quest_request demo_env demo_config ''GET'' ''v1/time'' None demo_client 0 = Some (Inr data, q', w')"
    by blast
  from request_outcome[OF run] d run show ?thesis by auto
qed

definition demo_refresh_env :: "rat quest_env" where
  "demo_refresh_env = demo_env\<lparr>http_fn := (\<lambda>r w. (Inr (V_list '''' [V_int 200, V_map '''' [(''access_token'', V_str ''a2''),
     (''refresh_token'', V_str ''r2''), (''api_server'', V_str ''https://api01.iq.questrade.com/v1''), (''expires_in'', V_int 1800)]]), w))\<rparr>"

lemma rotation_persisted_first_witness:
  "\<exists>session q' w'. refresh_access_token demo_refresh_env demo_config ''r'' demo_client 0 = (Inr session, q', w') \<and>
    auth_token q' = Some session"
proof -
  have fields: "token_fields 200 (V_map '''' [(''access_token'', V_str ''a2''), (''refresh_token'', V_str ''r2''),
      (''api_server'', V_str ''https://api01.iq.questrade.com/v1''), (''expires_in'', V_int 1800)]) =
    Inr ([(''access_token'', V_str ''a2''), (''refresh_token'', V_str ''r2''),
      (''api_server'', V_str ''https://api01.iq.questrade.com/v1''), (''expires_in'', V_int 1800)], N_float 1800, ''https://api01.iq.questrade.com/'')"
    by code_simp
  have strip: "py_strip ''r'' = ''r''" by code_simp
  have "\<exists>session q' w'. refresh_access_token demo_refresh_env demo_config ''r'' demo_client 0 = (Inr session, q', w')"
    by (simp add: refresh_access_token_def strip Let_def demo_refresh_env_def unpack_def fields demo_env_def split: prod.split)
  then obtain session q' w' where run: "refresh_access_token demo_refresh_env demo_config ''r'' demo_client 0 = (Inr session, q', w')"
    by blast
  from rotation_persisted_first[OF run] run show ?thesis by auto
qed

lemma order_allowed_iff_witness:
  "validate_order_for_account demo_client ''1'' ''Buy'' = Inr True \<and> validate_order_for_account demo_client ''1'' ''Short'' \<noteq> Inr True"
  using order_allowed_iff[of demo_client "''1''" "''Buy''"] order_allowed_iff[of demo_client "''1''" "''Short''"]
  by (auto simp: demo_client_def demo_account_def ORDER_SIDES_def py_get_def)

lemma token_bucket_bound_witness:
  "fst (fold bucket_step [T_acquire 3 1, T_resync 1 2, T_acquire 2 4] (0, \<lparr>tb_capacity = 3, tb_fill_rate = 1 / 2, tb_tokens = 3, tb_last_update = 0\<rparr>))
    \<le> of_int 3 + 1 / 2 * (4 - 0)"
proof -
  have made: "make_token_bucket 3 (1 / 2) 0 = Inr \<lparr>tb_capacity = 3, tb_fill_rate = 1 / 2, tb_tokens = 3, tb_last_update = 0\<rparr>"
    by (simp add: make_token_bucket_def)
  from token_bucket_bound[OF made, of "[T_acquire 3 1, T_resync 1 2, T_acquire 2 4]"] show ?thesis by simp
qed

end
