(* ===== verification/Py_Regex.thy ===== *)
theory Py_Regex
  imports Py_Value
begin

text \<open>
  The part of \<open>re\<close> that the patterns of the library need: literals without regard to case,
  runs of white space, options, alternatives, word boundaries and negative lookbehind, matched
  by backtracking from every position of a text (\<open>Pattern.search\<close>). A pattern is its syntax tree.
\<close>

datatype rx_class = R_char char | R_space

datatype rx =
    R_class rx_class | R_spaces nat | R_option "rx list" | R_either "rx list" "rx list"
  | R_boundary | R_not_behind "rx_class list"

definition class_matches :: "rx_class \<Rightarrow> char \<Rightarrow> bool" where
  "class_matches k x = (case k of R_char c \<Rightarrow> lower_char x = lower_char c | R_space \<Rightarrow> is_space x)"

definition word_char :: "char \<Rightarrow> bool" where
  "word_char c \<longleftrightarrow> (let n = (of_char c :: int) in
     48 \<le> n \<and> n \<le> 57 \<or> 65 \<le> n \<and> n \<le> 90 \<or> n = 95 \<or> 97 \<le> n \<and> n \<le> 122 \<or>
     n \<in> {170, 178, 179, 181, 185, 186, 188, 189, 190} \<or> 192 \<le> n \<and> n \<noteq> 215 \<and> n \<noteq> 247)"

text \<open>A position in a text: what is before it, last character first, and what follows.\<close>

type_synonym rx_position = "string \<times> string"

definition at_boundary :: "rx_position \<Rightarrow> bool" where
  "at_boundary p \<longleftrightarrow>
     ((case fst p of [] \<Rightarrow> False | c # _ \<Rightarrow> word_char c) \<noteq> (case snd p of [] \<Rightarrow> False | c # _ \<Rightarrow> word_char c))"

definition behind :: "rx_class list \<Rightarrow> rx_position \<Rightarrow> bool" where
  "behind ks p \<longleftrightarrow> length ks \<le> length (fst p) \<and> list_all2 class_matches (rev ks) (take (length ks) (fst p))"

text \<open>White space from a position on: all positions reached after at least \<open>n\<close> characters of it.\<close>

fun eat_spaces :: "nat \<Rightarrow> string \<Rightarrow> string \<Rightarrow> rx_position list" where
  "eat_spaces n l [] = (if n = 0 then [(l, [])] else [])"
| "eat_spaces n l (c # cs) =
     (if is_space c then eat_spaces (n - 1) (c # l) cs else []) @ (if n = 0 then [(l, c # cs)] else [])"

fun rx_item :: "rx \<Rightarrow> rx_position \<Rightarrow> rx_position list"
  and rx_sequence :: "rx list \<Rightarrow> rx_position \<Rightarrow> rx_position list" where
  "rx_item (R_class k) p =
     (case snd p of [] \<Rightarrow> [] | c # cs \<Rightarrow> if class_matches k c then [(c # fst p, cs)] else [])"
| "rx_item (R_spaces n) p = eat_spaces n (fst p) (snd p)"
| "rx_item (R_option rs) p = rx_sequence rs p @ [p]"
| "rx_item (R_either rs qs) p = rx_sequence rs p @ rx_sequence qs p"
| "rx_item R_boundary p = (if at_boundary p then [p] else [])"
| "rx_item (R_not_behind ks) p = (if behind ks p then [] else [p])"
| "rx_sequence [] p = [p]"
| "rx_sequence (r # rs) p = concat (map (rx_sequence rs) (rx_item r p))"

fun search_from :: "rx list \<Rightarrow> string \<Rightarrow> string \<Rightarrow> bool" where
  "search_from rs l [] \<longleftrightarrow> rx_sequence rs (l, []) \<noteq> []"
| "search_from rs l (c # cs) \<longleftrightarrow> rx_sequence rs (l, c # cs) \<noteq> [] \<or> search_from rs (c # l) cs"

definition rx_search :: "rx list \<Rightarrow> string \<Rightarrow> bool" where
  "rx_search rs s \<longleftrightarrow> search_from rs [] s"

definition text_rx :: "string \<Rightarrow> rx list" where
  "text_rx s = map (\<lambda>c. R_class (R_char c)) s"

end
