(* ===== verification/Cancel_Manager.thy ===== *)
theory Cancel_Manager
  imports Py_Regex
begin

text \<open>
  Model of \<open>skills/broker-api-idempotent-cancel-requests/scripts/cancel_manager.py\<close>: the
  dispatcher of order cancels, de-duplicated on a cancel id, with retries, the classification
  of the broker's answer and the bounded cache. The transport, the sleep, the clock, the jitter
  and the parser of HTTP dates are functions of the environment. Messages are left out; times
  are exact rationals.
\<close>

section \<open>Vocabulary\<close>

datatype cancel_status =
    CANCELLED | PENDING_CANCEL | FILLED_BEFORE_CANCEL | ALREADY_CANCELLED | ORDER_UNKNOWN | REJECTED_CANCEL | UNKNOWN

definition cancel_terminal :: "cancel_status \<Rightarrow> bool" where
  "cancel_terminal s \<longleftrightarrow> s \<in> {CANCELLED, FILLED_BEFORE_CANCEL, ALREADY_CANCELLED}"

definition cancel_cacheable :: "cancel_status \<Rightarrow> bool" where
  "cancel_cacheable s \<longleftrightarrow> cancel_terminal s \<or> s \<in> {PENDING_CANCEL, REJECTED_CANCEL}"

record cancel_result =
  cr_cancel_id :: string
  cr_order :: string
  cr_status :: cancel_status
  cr_replay :: bool
  cr_http :: "int option"
  cr_attempts :: nat
  cr_retry_after :: "number option"
  cr_detail :: string

definition requires_reconciliation :: "cancel_result \<Rightarrow> bool" where
  "requires_reconciliation r \<longleftrightarrow> \<not> cancel_terminal (cr_status r)"

section \<open>The default patterns\<close>

definition filled_patterns :: "rx list list" where
  "filled_patterns =
     [text_rx ''too late to cancel'',
      text_rx ''already'' @ [R_spaces 1, R_option (text_rx ''been'' @ [R_spaces 1]),
        R_either (text_rx ''filled'') [R_either (text_rx ''executed'') (text_rx ''traded'')]],
      [R_not_behind (map R_char ''not'' @ [R_space]), R_not_behind (map R_char ''partially'' @ [R_space]), R_boundary]
        @ text_rx ''filled'' @ [R_boundary],
      [R_boundary] @ text_rx ''executed'' @ [R_boundary],
      text_rx ''order'' @ [R_spaces 1] @ text_rx ''is'' @ [R_spaces 1] @ text_rx ''complete'']"

definition cancelled_word :: "rx list" where
  "cancelled_word = text_rx ''cancel'' @ [R_option (text_rx ''l'')] @ text_rx ''ed''"

definition already_cancelled_patterns :: "rx list list" where
  "already_cancelled_patterns =
     [text_rx ''already'' @ [R_spaces 1, R_option (text_rx ''been'' @ [R_spaces 1]), R_either cancelled_word (text_rx ''canceled'')],
      text_rx ''order'' @ [R_spaces 1, R_either (text_rx ''is'') (text_rx ''was''), R_spaces 1] @ cancelled_word,
      cancelled_word @ [R_spaces 1] @ text_rx ''order'',
      text_rx ''pending'' @ [R_spaces 1] @ text_rx ''cancel'']"

definition unknown_order_patterns :: "rx list list" where
  "unknown_order_patterns =
     [text_rx ''unknown'' @ [R_spaces 1] @ text_rx ''order'',
      text_rx ''order'' @ [R_spaces 1] @ text_rx ''does'' @ [R_spaces 1] @ text_rx ''not'' @ [R_spaces 1] @ text_rx ''exist'',
      text_rx ''no'' @ [R_spaces 1] @ text_rx ''such'' @ [R_spaces 1] @ text_rx ''order'',
      text_rx ''not'' @ [R_spaces 1] @ text_rx ''found'',
      text_rx ''invalid'' @ [R_spaces 1] @ text_rx ''order'' @ [R_spaces 0, R_option (text_rx ''id'')]]"

definition default_detail_keys :: "string list" where
  "default_detail_keys = [''detail'', ''error'', ''message'', ''msg'', ''error_description'', ''reason'', ''status_message'']"

section \<open>Configuration and environment\<close>

record cancel_config =
  max_cache_size :: int
  max_retries :: int
  base_backoff_ms :: int
  max_backoff_ms :: int
  jitter_ratio :: rat
  treat_ack_as_cancelled :: bool
  filled_rx :: "rx list list"
  already_cancelled_rx :: "rx list list"
  unknown_order_rx :: "rx list list"
  detail_keys :: "string list"
  instance_token :: string

datatype cancel_error = Cancel_Value_Error | Cancel_Overflow

definition make_cancel_config ::
  "int \<Rightarrow> int \<Rightarrow> int \<Rightarrow> int \<Rightarrow> rat \<Rightarrow> bool \<Rightarrow> rat \<Rightarrow> rx list list \<Rightarrow> rx list list \<Rightarrow> rx list list \<Rightarrow> string list \<Rightarrow> string \<Rightarrow>
     cancel_error + cancel_config" where
  "make_cancel_config cache retries base cap jitter ack wait filled already unknown keys token =
     (if cache < 1 then Inl Cancel_Value_Error
      else if retries < 0 then Inl Cancel_Value_Error
      else if base \<le> 0 then Inl Cancel_Value_Error
      else if cap < base then Inl Cancel_Value_Error
      else if \<not> (0 \<le> jitter \<and> jitter < 1) then Inl Cancel_Value_Error
      else if wait \<le> 0 then Inl Cancel_Value_Error
      else Inr \<lparr>max_cache_size = cache, max_retries = retries, base_backoff_ms = base, max_backoff_ms = cap,
        jitter_ratio = jitter, treat_ack_as_cancelled = ack, filled_rx = filled, already_cancelled_rx = already,
        unknown_order_rx = unknown, detail_keys = keys, instance_token = token\<rparr>)"

text \<open>What the transport did: raised, returned something that is no pair, or a status and a payload.\<close>

datatype transport_answer = Transport_raised | Not_a_pair | Answer_pair py_value py_value

record 'w cancel_env =
  http_cancel_fn :: "string \<Rightarrow> string \<Rightarrow> 'w \<Rightarrow> transport_answer \<times> 'w"
  cancel_sleep :: "rat \<Rightarrow> 'w \<Rightarrow> 'w"
  cancel_time :: "'w \<Rightarrow> rat \<times> 'w"
  jitter_draw :: "rat \<Rightarrow> 'w \<Rightarrow> rat \<times> 'w"
  parse_http_date :: "string \<Rightarrow> rat option"

section \<open>Reading an answer\<close>

text \<open>An unusable answer is a transport error.\<close>

definition normalise_response :: "transport_answer \<Rightarrow> (int \<times> py_mapping) option" where
  "normalise_response a = (case a of
     Answer_pair (V_int status) V_none \<Rightarrow> Some (status, [])
   | Answer_pair (V_int status) (V_map _ kvs) \<Rightarrow> Some (status, kvs)
   | _ \<Rightarrow> None)"

text \<open>\<open>max(0.0, x)\<close>: a NaN is not above zero.\<close>

definition floor_zero :: "number \<Rightarrow> number" where
  "floor_zero x = (case x of
     N_nan \<Rightarrow> N_float 0 | N_inf pos \<Rightarrow> (if pos then N_inf True else N_float 0)
   | _ \<Rightarrow> N_float (max 0 (num_rat x)))"

text \<open>A number of seconds or a date; an integer beyond the floats raises.\<close>

definition parse_retry_after :: "'w cancel_env \<Rightarrow> py_mapping \<Rightarrow> rat \<Rightarrow> cancel_error + number option" where
  "parse_retry_after E payload now =
     (case (case py_get payload ''retry_after'' of Some v \<Rightarrow> v
            | None \<Rightarrow> (case py_get payload ''Retry-After'' of Some v \<Rightarrow> v | None \<Rightarrow> V_none)) of
        V_int n \<Rightarrow> (case double_of_int n of None \<Rightarrow> Inl Cancel_Overflow | Some m \<Rightarrow> Inr (Some (floor_zero (N_float (of_int m)))))
      | V_float r _ \<Rightarrow> Inr (Some (floor_zero (N_float r)))
      | V_nan \<Rightarrow> Inr (Some (floor_zero N_nan))
      | V_inf pos \<Rightarrow> Inr (Some (floor_zero (N_inf pos)))
      | V_str s \<Rightarrow>
          (let text = py_strip s in
           if text = '''' then Inr None
           else case parse_float text of
             Some x \<Rightarrow> Inr (Some (floor_zero x))
           | None \<Rightarrow> Inr (map_option (\<lambda>t. N_float (max 0 (t - now))) (parse_http_date E text)))
      | _ \<Rightarrow> Inr None)"

definition cancel_retryable :: "int option \<Rightarrow> bool" where
  "cancel_retryable status = (case status of None \<Rightarrow> True | Some n \<Rightarrow> n \<ge> 500 \<or> n \<in> {408, 418, 429})"

fun first_detail :: "string list \<Rightarrow> py_mapping \<Rightarrow> string" where
  "first_detail [] payload = ''''"
| "first_detail (k # ks) payload =
     (case py_get payload k of
        None \<Rightarrow> first_detail ks payload
      | Some V_none \<Rightarrow> first_detail ks payload
      | Some v \<Rightarrow> (let text = py_strip (py_str v) in if text \<noteq> '''' then py_lower text else first_detail ks payload))"

definition any_match :: "rx list list \<Rightarrow> string \<Rightarrow> bool" where
  "any_match rs s \<longleftrightarrow> list_ex (\<lambda>r. rx_search r s) rs"

definition classify_cancel :: "cancel_config \<Rightarrow> int option \<Rightarrow> string \<Rightarrow> bool \<Rightarrow> cancel_status" where
  "classify_cancel C http_status detail transport_error =
     (if transport_error then UNKNOWN
      else case http_status of
        None \<Rightarrow> UNKNOWN
      | Some n \<Rightarrow>
          (if 200 \<le> n \<and> n < 300 then (if treat_ack_as_cancelled C then CANCELLED else PENDING_CANCEL)
           else if cancel_retryable (Some n) then UNKNOWN
           else if any_match (filled_rx C) detail then FILLED_BEFORE_CANCEL
           else if any_match (already_cancelled_rx C) detail then ALREADY_CANCELLED
           else if n = 404 \<or> any_match (unknown_order_rx C) detail then ORDER_UNKNOWN
           else REJECTED_CANCEL))"

section \<open>Backing off\<close>

text \<open>\<open>None\<close> abandons the loop.\<close>

definition backoff_seconds :: "'w cancel_env \<Rightarrow> cancel_config \<Rightarrow> nat \<Rightarrow> number option \<Rightarrow> 'w \<Rightarrow> rat option \<times> 'w" where
  "backoff_seconds E C attempt retry_after w =
     (case retry_after of
        Some (N_inf _) \<Rightarrow> (None, w)
      | Some x \<Rightarrow> (if num_rat x * 1000 > of_int (max_backoff_ms C) then (None, w) else (Some (num_rat x), w))
      | None \<Rightarrow>
          (let delay_ms = min (of_int (base_backoff_ms C) * 2 ^ min attempt 32) (of_int (max_backoff_ms C)) in
           if jitter_ratio C \<noteq> 0
           then (let (u, w1) = jitter_draw E (jitter_ratio C) w in (Some (delay_ms * (1 - u) / 1000), w1))
           else (Some (delay_ms / 1000), w)))"

section \<open>One attempt, and the loop\<close>

text \<open>What an attempt ends with: the last observation, and whether the loop goes on.\<close>

record observation =
  ob_http :: "int option"
  ob_payload :: py_mapping
  ob_failed :: bool
  ob_retry_after :: "number option"
  ob_attempts :: nat

datatype attempt_end = Ended observation | Again | Attempt_raised cancel_error

definition cancel_attempt ::
  "'w cancel_env \<Rightarrow> cancel_config \<Rightarrow> string \<Rightarrow> string \<Rightarrow> nat \<Rightarrow> 'w \<Rightarrow> attempt_end \<times> 'w" where
  "cancel_attempt E C order cid attempt w =
     (let (answer, w1) = http_cancel_fn E order cid w;
          (seen, w2) =
            (case normalise_response answer of
               None \<Rightarrow> (Inr \<lparr>ob_http = None, ob_payload = [], ob_failed = True, ob_retry_after = None, ob_attempts = Suc attempt\<rparr>, w1)
             | Some (status, payload) \<Rightarrow>
                 (let (now, w2) = cancel_time E w1 in
                  case parse_retry_after E payload now of
                    Inl e \<Rightarrow> (Inl e, w2)
                  | Inr ra \<Rightarrow> (Inr \<lparr>ob_http = Some status, ob_payload = payload, ob_failed = False, ob_retry_after = ra, ob_attempts = Suc attempt\<rparr>, w2)))
      in case seen of
           Inl e \<Rightarrow> (Attempt_raised e, w2)
         | Inr ob \<Rightarrow>
             (if \<not> cancel_retryable (ob_http ob) \<or> int attempt \<ge> max_retries C then (Ended ob, w2)
              else
                (case backoff_seconds E C attempt (ob_retry_after ob) w2 of
                   (None, w3) \<Rightarrow> (Ended ob, w3)
                 | (Some delay, w3) \<Rightarrow> (Again, cancel_sleep E delay w3))))"

definition result_of :: "cancel_config \<Rightarrow> string \<Rightarrow> string \<Rightarrow> observation \<Rightarrow> cancel_result" where
  "result_of C order cid ob =
     (let detail = first_detail (detail_keys C) (ob_payload ob) in
      \<lparr>cr_cancel_id = cid, cr_order = order, cr_status = classify_cancel C (ob_http ob) detail (ob_failed ob), cr_replay = False,
       cr_http = ob_http ob, cr_attempts = ob_attempts ob, cr_retry_after = ob_retry_after ob, cr_detail = detail\<rparr>)"

text \<open>The loop over \<open>range(max_retries + 1)\<close>; the last attempt always ends it.\<close>

fun attempts_from ::
  "nat \<Rightarrow> 'w cancel_env \<Rightarrow> cancel_config \<Rightarrow> string \<Rightarrow> string \<Rightarrow> nat \<Rightarrow> 'w \<Rightarrow> (cancel_error + observation) option \<times> 'w" where
  "attempts_from 0 E C order cid attempt w = (None, w)"
| "attempts_from (Suc n) E C order cid attempt w =
     (case cancel_attempt E C order cid attempt w of
        (Ended ob, w1) \<Rightarrow> (Some (Inr ob), w1)
      | (Attempt_raised e, w1) \<Rightarrow> (Some (Inl e), w1)
      | (Again, w1) \<Rightarrow> attempts_from n E C order cid (Suc attempt) w1)"

definition dispatch_with_retries ::
  "'w cancel_env \<Rightarrow> cancel_config \<Rightarrow> string \<Rightarrow> string \<Rightarrow> 'w \<Rightarrow> (cancel_error + cancel_result) option \<times> 'w" where
  "dispatch_with_retries E C order cid w =
     (case attempts_from (nat (max_retries C + 1)) E C order cid 0 w of
        (Some (Inr ob), w1) \<Rightarrow> (Some (Inr (result_of C order cid ob)), w1)
      | (Some (Inl e), w1) \<Rightarrow> (Some (Inl e), w1)
      | (None, w1) \<Rightarrow> (None, w1))"

section \<open>Shared state\<close>

text \<open>The cache in insertion order, the event of each dispatch in flight, and the events set so far.\<close>

record cancel_state =
  cancel_history :: "(string, cancel_result) py_dict"
  in_flight :: "(string, nat) py_dict"
  set_events :: "nat list"
  next_event :: nat
  seq_counter :: int

definition fresh_cancel_state :: cancel_state where
  "fresh_cancel_state = \<lparr>cancel_history = [], in_flight = [], set_events = [], next_event = 0, seq_counter = 0\<rparr>"

definition generate_client_cancel_id :: "'w cancel_env \<Rightarrow> cancel_config \<Rightarrow> string \<Rightarrow> cancel_state \<Rightarrow> 'w \<Rightarrow> string \<times> cancel_state \<times> 'w" where
  "generate_client_cancel_id E C order st w =
     (let n = seq_counter st + 1; (now, w1) = cancel_time E w in
      (''CANCEL_'' @ order @ ''_'' @ instance_token C @ ''_'' @ dec_int n @ ''_'' @ dec_int \<lfloor>now * 1000\<rfloor>,
       st\<lparr>seq_counter := n\<rparr>, w1))"

definition get_cached_result :: "cancel_state \<Rightarrow> string \<Rightarrow> cancel_result option" where
  "get_cached_result st cid = py_get (cancel_history st) cid"

text \<open>The oldest entries go while the cache is over capacity.\<close>

definition cache_result :: "cancel_config \<Rightarrow> string \<Rightarrow> cancel_result \<Rightarrow> cancel_state \<Rightarrow> cancel_state" where
  "cache_result C cid r st =
     (if \<not> cancel_cacheable (cr_status r) then st
      else (let d = py_set (cancel_history st) cid r in
            st\<lparr>cancel_history := drop (length d - nat (max_cache_size C)) d\<rparr>))"

definition as_replay :: "cancel_result \<Rightarrow> cancel_result" where
  "as_replay r = r\<lparr>cr_replay := True\<rparr>"

definition unsettled :: "string \<Rightarrow> cancel_result" where
  "unsettled cid = \<lparr>cr_cancel_id = cid, cr_order = '''', cr_status = UNKNOWN, cr_replay = True, cr_http = None, cr_attempts = 0,
     cr_retry_after = None, cr_detail = ''''\<rparr>"

datatype cancel_claim = Claimed | Replayed cancel_result | Must_wait nat

text \<open>Check and claim, under one lock.\<close>

definition claim_cancel :: "string \<Rightarrow> cancel_state \<Rightarrow> cancel_claim \<times> cancel_state" where
  "claim_cancel cid st =
     (case py_get (cancel_history st) cid of
        Some r \<Rightarrow> (Replayed (as_replay r), st)
      | None \<Rightarrow>
          (case py_get (in_flight st) cid of
             Some e \<Rightarrow> (Must_wait e, st)
           | None \<Rightarrow> (Claimed, st\<lparr>in_flight := py_set (in_flight st) cid (next_event st), next_event := Suc (next_event st)\<rparr>)))"

definition reread_cancel :: "string \<Rightarrow> cancel_state \<Rightarrow> cancel_result" where
  "reread_cancel cid st = (case py_get (cancel_history st) cid of Some r \<Rightarrow> as_replay r | None \<Rightarrow> unsettled cid)"

text \<open>The \<open>finally\<close> clause: the claim is given up and whoever waits is woken.\<close>

definition release_cancel :: "string \<Rightarrow> cancel_state \<Rightarrow> cancel_state" where
  "release_cancel cid st =
     (case py_get (in_flight st) cid of
        None \<Rightarrow> st
      | Some e \<Rightarrow> st\<lparr>in_flight := py_del (in_flight st) cid, set_events := e # set_events st\<rparr>)"

definition cancel_arguments_ok :: "string \<Rightarrow> string option \<Rightarrow> bool" where
  "cancel_arguments_ok order cid = (py_strip order \<noteq> '''' \<and> (case cid of None \<Rightarrow> True | Some c \<Rightarrow> py_strip c \<noteq> ''''))"

text \<open>
  One call of \<open>cancel_order_idempotent\<close> while no other thread is in it. A wait can then only
  time out.
\<close>

definition cancel_order_idempotent ::
  "'w cancel_env \<Rightarrow> cancel_config \<Rightarrow> string \<Rightarrow> string option \<Rightarrow> cancel_state \<Rightarrow> 'w \<Rightarrow>
     (cancel_error + cancel_result) option \<times> cancel_state \<times> 'w" where
  "cancel_order_idempotent E C order cid st w =
     (if \<not> cancel_arguments_ok order cid then (Some (Inl Cancel_Value_Error), st, w)
      else
        (let (c, st1, w1) = (case cid of Some c \<Rightarrow> (c, st, w) | None \<Rightarrow> generate_client_cancel_id E C order st w) in
         case claim_cancel c st1 of
           (Replayed r, st2) \<Rightarrow> (Some (Inr r), st2, w1)
         | (Must_wait e, st2) \<Rightarrow> (Some (Inr (unsettled c)), st2, w1)
         | (Claimed, st2) \<Rightarrow>
             (case dispatch_with_retries E C order c w1 of
                (Some (Inr r), w2) \<Rightarrow> (Some (Inr r), release_cancel c (cache_result C c r st2), w2)
              | (x, w2) \<Rightarrow> (x, release_cancel c st2, w2))))"

end
