(* ===== verification/Cancel_Threads.thy ===== *)
theory Cancel_Threads
  imports Cancel_Manager
begin

text \<open>
  Threads inside \<open>cancel_order_idempotent\<close>. A thread moves through the critical sections and the
  transport calls of one cancel; a schedule says which thread moves next, and whether a waiting
  one gives up. Minting an id, which only touches the counter, is one move with the claim.
\<close>

section \<open>A thread\<close>

datatype cancel_thread =
    T_call string "string option" | T_attempt string string nat | T_store string cancel_result
  | T_release string "cancel_error + cancel_result" | T_wait string nat | T_reread string
  | T_done "cancel_error + cancel_result"

definition enter_call ::
  "'w cancel_env \<Rightarrow> cancel_config \<Rightarrow> string \<Rightarrow> string option \<Rightarrow> cancel_state \<Rightarrow> 'w \<Rightarrow> cancel_thread \<times> cancel_state \<times> 'w" where
  "enter_call E C order cid st w =
     (if \<not> cancel_arguments_ok order cid then (T_done (Inl Cancel_Value_Error), st, w)
      else
        (let (c, st1, w1) = (case cid of Some c \<Rightarrow> (c, st, w) | None \<Rightarrow> generate_client_cancel_id E C order st w) in
         case claim_cancel c st1 of
           (Replayed r, st2) \<Rightarrow> (T_done (Inr r), st2, w1)
         | (Must_wait e, st2) \<Rightarrow> (T_wait c e, st2, w1)
         | (Claimed, st2) \<Rightarrow> (T_attempt order c 0, st2, w1)))"

definition after_attempt :: "cancel_config \<Rightarrow> string \<Rightarrow> string \<Rightarrow> nat \<Rightarrow> attempt_end \<Rightarrow> cancel_thread" where
  "after_attempt C order cid n a = (case a of
     Ended ob \<Rightarrow> T_store cid (result_of C order cid ob)
   | Again \<Rightarrow> T_attempt order cid (Suc n)
   | Attempt_raised e \<Rightarrow> T_release cid (Inl e))"

text \<open>One move: the thread after it, the shared state, the world, and the cancel id sent, if any.\<close>

fun thread_step ::
  "'w cancel_env \<Rightarrow> cancel_config \<Rightarrow> bool \<Rightarrow> cancel_thread \<Rightarrow> cancel_state \<Rightarrow> 'w \<Rightarrow> cancel_thread \<times> cancel_state \<times> 'w \<times> string list" where
  "thread_step E C give_up (T_call order cid) st w =
     (case enter_call E C order cid st w of (t, st1, w1) \<Rightarrow> (t, st1, w1, []))"
| "thread_step E C give_up (T_attempt order cid n) st w =
     (case cancel_attempt E C order cid n w of (a, w1) \<Rightarrow> (after_attempt C order cid n a, st, w1, [cid]))"
| "thread_step E C give_up (T_store cid r) st w = (T_release cid (Inr r), cache_result C cid r st, w, [])"
| "thread_step E C give_up (T_release cid x) st w = (T_done x, release_cancel cid st, w, [])"
| "thread_step E C give_up (T_wait cid e) st w =
     (if e \<in> set (set_events st) then (T_reread cid, st, w, [])
      else if give_up then (T_done (Inr (unsettled cid)), st, w, [])
      else (T_wait cid e, st, w, []))"
| "thread_step E C give_up (T_reread cid) st w = (T_done (Inr (reread_cancel cid st)), st, w, [])"
| "thread_step E C give_up (T_done x) st w = (T_done x, st, w, [])"

section \<open>All threads\<close>

record 'w cancel_machine =
  cm_state :: cancel_state
  cm_world :: 'w
  cm_threads :: "cancel_thread list"
  cm_sent :: "string list"

definition machine_step :: "'w cancel_env \<Rightarrow> cancel_config \<Rightarrow> nat \<times> bool \<Rightarrow> 'w cancel_machine \<Rightarrow> 'w cancel_machine" where
  "machine_step E C k m =
     (if fst k < length (cm_threads m)
      then (case thread_step E C (snd k) (cm_threads m ! fst k) (cm_state m) (cm_world m) of
              (t, st, w, sent) \<Rightarrow>
                \<lparr>cm_state = st, cm_world = w, cm_threads = (cm_threads m)[fst k := t], cm_sent = cm_sent m @ sent\<rparr>)
      else m)"

definition start_machine :: "(string \<times> string option) list \<Rightarrow> 'w \<Rightarrow> 'w cancel_machine" where
  "start_machine calls w =
     \<lparr>cm_state = fresh_cancel_state, cm_world = w, cm_threads = map (\<lambda>(order, cid). T_call order cid) calls, cm_sent = []\<rparr>"

section \<open>The invariant\<close>

text \<open>The cancel id whose dispatch a thread holds.\<close>

fun holds :: "cancel_thread \<Rightarrow> string option" where
  "holds (T_attempt _ cid _) = Some cid"
| "holds (T_store cid _) = Some cid"
| "holds (T_release cid _) = Some cid"
| "holds _ = None"

text \<open>What a thread may rely on.\<close>

fun thread_ok :: "cancel_config \<Rightarrow> cancel_state \<Rightarrow> cancel_thread \<Rightarrow> bool" where
  "thread_ok C st (T_attempt _ cid n) \<longleftrightarrow> py_get (cancel_history st) cid = None \<and> int n \<le> max_retries C"
| "thread_ok C st (T_store cid r) \<longleftrightarrow> py_get (cancel_history st) cid = None \<and> cr_cancel_id r = cid \<and> \<not> cr_replay r"
| "thread_ok C st (T_wait cid e) \<longleftrightarrow> e \<in> set (set_events st) \<or> py_get (in_flight st) cid = Some e"
| "thread_ok C st _ \<longleftrightarrow> True"

definition shared_ok :: "cancel_config \<Rightarrow> cancel_state \<Rightarrow> bool" where
  "shared_ok C st \<longleftrightarrow> dict_ok (cancel_history st) \<and> dict_ok (in_flight st) \<and>
     int (length (cancel_history st)) \<le> max_cache_size C \<and>
     (\<forall>c r. py_get (cancel_history st) c = Some r \<longrightarrow> cr_cancel_id r = c \<and> cancel_cacheable (cr_status r) \<and> \<not> cr_replay r) \<and>
     (\<forall>c e. py_get (in_flight st) c = Some e \<longrightarrow> e < next_event st \<and> e \<notin> set (set_events st)) \<and>
     (\<forall>e\<in>set (set_events st). e < next_event st) \<and>
     (\<forall>c c' e. py_get (in_flight st) c = Some e \<longrightarrow> py_get (in_flight st) c' = Some e \<longrightarrow> c = c')"

definition claims_ok :: "cancel_state \<Rightarrow> cancel_thread list \<Rightarrow> bool" where
  "claims_ok st ts \<longleftrightarrow>
     (\<forall>c. py_get (in_flight st) c \<noteq> None \<longleftrightarrow> (\<exists>i<length ts. holds (ts ! i) = Some c)) \<and>
     (\<forall>i<length ts. \<forall>j<length ts. \<forall>c. holds (ts ! i) = Some c \<longrightarrow> holds (ts ! j) = Some c \<longrightarrow> i = j)"

definition cancel_inv :: "cancel_config \<Rightarrow> 'w cancel_machine \<Rightarrow> bool" where
  "cancel_inv C m \<longleftrightarrow> shared_ok C (cm_state m) \<and> claims_ok (cm_state m) (cm_threads m) \<and>
     list_all (thread_ok C (cm_state m)) (cm_threads m)"

section \<open>Moves keep the invariant\<close>

lemma dict_ok_drop: "dict_ok d \<Longrightarrow> dict_ok (drop n d)"
  by (simp add: dict_ok_def drop_map[symmetric])

lemma py_get_drop: "dict_ok d \<Longrightarrow> py_get (drop n d) k = Some v \<Longrightarrow> py_get d k = Some v"
  using dict_ok_drop[of d n] by (simp add: py_get_iff) (meson in_set_dropD)

lemma cache_result_history:
  assumes "dict_ok (cancel_history st)" "py_get (cancel_history (cache_result C c r st)) k = Some v"
  shows "py_get (cancel_history st) k = Some v \<or> k = c \<and> v = r \<and> cancel_cacheable (cr_status r)"
proof (cases "cancel_cacheable (cr_status r)")
  case True
  let ?d = "py_set (cancel_history st) c r"
  have "py_get (drop (length ?d - nat (max_cache_size C)) ?d) k = Some v"
    using assms(2) True by (simp add: cache_result_def Let_def)
  then have "py_get ?d k = Some v" by (rule py_get_drop[OF dict_ok_set[OF assms(1)]])
  with True show ?thesis by (auto simp: py_get_set split: if_splits)
qed (use assms(2) in \<open>simp add: cache_result_def\<close>)

lemma cache_result_frame [simp]:
  "in_flight (cache_result C c r st) = in_flight st" "set_events (cache_result C c r st) = set_events st"
  "next_event (cache_result C c r st) = next_event st"
  by (simp_all add: cache_result_def Let_def)

lemma cache_result_ok:
  assumes "shared_ok C st" "1 \<le> max_cache_size C" "cr_cancel_id r = c" "\<not> cr_replay r"
  shows "shared_ok C (cache_result C c r st)"
proof -
  have d: "dict_ok (cancel_history st)" using assms(1) by (simp add: shared_ok_def)
  let ?d = "py_set (cancel_history st) c r"
  have "dict_ok (cancel_history (cache_result C c r st))"
    using d dict_ok_drop[OF dict_ok_set[OF d]] by (simp add: cache_result_def Let_def)
  moreover have "int (length (cancel_history (cache_result C c r st))) \<le> max_cache_size C"
    using assms(1,2) by (auto simp: cache_result_def Let_def shared_ok_def)
  moreover have "cr_cancel_id v = k \<and> cancel_cacheable (cr_status v) \<and> \<not> cr_replay v"
    if "py_get (cancel_history (cache_result C c r st)) k = Some v" for k v
    using cache_result_history[OF d that] assms(1,3,4) by (auto simp: shared_ok_def)
  ultimately show ?thesis using assms(1) by (auto simp: shared_ok_def)
qed

lemma release_held:
  assumes "py_get (in_flight st) c = Some e"
  shows "release_cancel c st = st\<lparr>in_flight := py_del (in_flight st) c, set_events := e # set_events st\<rparr>"
  using assms by (simp add: release_cancel_def)

lemma release_ok: "shared_ok C st \<Longrightarrow> py_get (in_flight st) c = Some e \<Longrightarrow> shared_ok C (release_cancel c st)"
  unfolding release_held shared_ok_def
  by (simp add: py_get_del) metis

text \<open>What a move of one thread does for itself and for the others.\<close>

definition good_move :: "cancel_config \<Rightarrow> cancel_thread \<Rightarrow> cancel_state \<Rightarrow> cancel_thread \<Rightarrow> cancel_state \<Rightarrow> bool" where
  "good_move C t st t' st' \<longleftrightarrow> shared_ok C st' \<and> thread_ok C st' t' \<and>
     (\<forall>c. py_get (in_flight st') c \<noteq> None \<longleftrightarrow>
        (if holds t' = Some c then True else if holds t = Some c then False else py_get (in_flight st) c \<noteq> None)) \<and>
     (\<forall>c. holds t' = Some c \<longrightarrow> holds t = Some c \<or> py_get (in_flight st) c = None) \<and>
     (\<forall>u. thread_ok C st u \<longrightarrow> (\<forall>c. holds t = Some c \<longrightarrow> holds u \<noteq> Some c) \<longrightarrow> thread_ok C st' u)"

lemma good_moveI:
  assumes "shared_ok C st'" "thread_ok C st' t'"
    and "\<And>c. py_get (in_flight st') c \<noteq> None \<longleftrightarrow>
        (if holds t' = Some c then True else if holds t = Some c then False else py_get (in_flight st) c \<noteq> None)"
    and "\<And>c. holds t' = Some c \<Longrightarrow> holds t = Some c \<or> py_get (in_flight st) c = None"
    and "\<And>u. thread_ok C st u \<Longrightarrow> (\<And>c. holds t = Some c \<Longrightarrow> holds u \<noteq> Some c) \<Longrightarrow> thread_ok C st' u"
  shows "good_move C t st t' st'"
  using assms unfolding good_move_def by blast

text \<open>Moves that leave the shared maps alone.\<close>

definition same_maps :: "cancel_state \<Rightarrow> cancel_state \<Rightarrow> bool" where
  "same_maps st st' \<longleftrightarrow> cancel_history st' = cancel_history st \<and> in_flight st' = in_flight st \<and>
     set_events st' = set_events st \<and> next_event st' = next_event st"

lemma same_maps_ok: "same_maps st st' \<Longrightarrow> shared_ok C st' = shared_ok C st" "same_maps st st' \<Longrightarrow> thread_ok C st' u = thread_ok C st u"
  by (simp_all add: same_maps_def shared_ok_def) (cases u; simp add: same_maps_def)

lemma quiet_move:
  assumes "same_maps st st'" "shared_ok C st" "thread_ok C st t'" "holds t' = holds t"
    and "\<And>c. holds t = Some c \<Longrightarrow> py_get (in_flight st) c \<noteq> None"
  shows "good_move C t st t' st'"
  by (rule good_moveI) (use assms same_maps_ok[OF assms(1)] in \<open>auto simp: same_maps_def\<close>)

lemma generate_same_maps: "generate_client_cancel_id E C order st w = (c, st', w') \<Longrightarrow> same_maps st st'"
  by (auto simp: generate_client_cancel_id_def Let_def same_maps_def split: prod.splits)

lemma claim_move:
  assumes "shared_ok C st" "claim_cancel c st = (Claimed, st')" "0 \<le> max_retries C" "holds t = None"
  shows "good_move C t st (T_attempt order c 0) st'"
proof -
  have none: "py_get (cancel_history st) c = None" "py_get (in_flight st) c = None"
    and st': "st' = st\<lparr>in_flight := py_set (in_flight st) c (next_event st), next_event := Suc (next_event st)\<rparr>"
    using assms(2) by (auto simp: claim_cancel_def split: option.splits)
  have "shared_ok C st'"
    using assms(1) unfolding shared_ok_def st'
    by (auto simp: py_get_set less_Suc_eq)
  then show ?thesis
  proof (rule good_moveI)
    fix u
    assume "thread_ok C st u"
    then show "thread_ok C st' u" using none by (cases u) (auto simp: st' py_get_set)
  qed (use none assms(3,4) in \<open>auto simp: st' py_get_set\<close>)
qed

lemma enter_move:
  assumes "shared_ok C st" "enter_call E C order cid st w = (t', st', w')" "0 \<le> max_retries C"
  shows "good_move C (T_call order cid) st t' st'"
proof (cases "cancel_arguments_ok order cid")
  case False
  with assms show ?thesis by (intro quiet_move) (auto simp: enter_call_def same_maps_def)
next
  case True
  obtain c st1 w1 where mint: "(case cid of Some c \<Rightarrow> (c, st, w) | None \<Rightarrow> generate_client_cancel_id E C order st w) = (c, st1, w1)"
    by (metis prod_cases3)
  have same: "same_maps st st1"
    using mint generate_same_maps[of E C order st w c st1 w1] by (cases cid) (auto simp: same_maps_def)
  obtain k st2 where cl: "claim_cancel c st1 = (k, st2)" by fastforce
  have t': "(t', st', w') = (case k of Replayed r \<Rightarrow> (T_done (Inr r), st2, w1) | Must_wait e \<Rightarrow> (T_wait c e, st2, w1)
      | Claimed \<Rightarrow> (T_attempt order c 0, st2, w1))"
    using assms(2) True mint cl by (auto simp: enter_call_def split: cancel_claim.splits)
  show ?thesis
  proof (cases k)
    case Claimed
    have ok1: "shared_ok C st1" using same_maps_ok(1)[OF same] assms(1) by blast
    have "good_move C (T_call order cid) st1 (T_attempt order c 0) st2"
      by (rule claim_move[OF ok1 _ assms(3)]) (use cl Claimed in simp_all)
    then show ?thesis
      using t' Claimed same same_maps_ok(2)[OF same] by (auto simp: good_move_def same_maps_def)
  next
    case (Replayed r)
    then have "st2 = st1" using cl by (auto simp: claim_cancel_def split: option.splits)
    with t' Replayed same assms(1) show ?thesis by (intro quiet_move) auto
  next
    case (Must_wait e)
    then have "st2 = st1" "py_get (in_flight st1) c = Some e" using cl by (auto simp: claim_cancel_def split: option.splits)
    with t' Must_wait same assms(1) show ?thesis by (intro quiet_move) (auto simp: same_maps_def)
  qed
qed

lemma attempt_goes_on:
  "cancel_attempt E C order cid n w = (Again, w') \<Longrightarrow> int n < max_retries C"
  by (auto simp: cancel_attempt_def Let_def split: option.splits prod.splits sum.splits if_splits)

lemma attempt_move:
  assumes "shared_ok C st" "thread_ok C st (T_attempt order cid n)" "py_get (in_flight st) cid \<noteq> None"
    and "cancel_attempt E C order cid n w = (a, w')"
  shows "good_move C (T_attempt order cid n) st (after_attempt C order cid n a) st"
proof (rule quiet_move[OF _ assms(1)])
  show "thread_ok C st (after_attempt C order cid n a)"
    using assms(2,4) attempt_goes_on[of E C order cid n w w'] by (cases a) (auto simp: after_attempt_def result_of_def Let_def)
  show "holds (after_attempt C order cid n a) = holds (T_attempt order cid n)" by (cases a) (simp_all add: after_attempt_def)
qed (use assms(3) in \<open>auto simp: same_maps_def\<close>)

lemma store_move:
  assumes "shared_ok C st" "thread_ok C st (T_store cid r)" "py_get (in_flight st) cid \<noteq> None" "1 \<le> max_cache_size C"
  shows "good_move C (T_store cid r) st (T_release cid (Inr r)) (cache_result C cid r st)"
proof (rule good_moveI)
  show "shared_ok C (cache_result C cid r st)" by (rule cache_result_ok) (use assms in auto)
  fix u
  assume u: "thread_ok C st u" "\<And>c. holds (T_store cid r) = Some c \<Longrightarrow> holds u \<noteq> Some c"
  have d: "dict_ok (cancel_history st)" using assms(1) by (simp add: shared_ok_def)
  have gone: "py_get (cancel_history (cache_result C cid r st)) k = None" if "py_get (cancel_history st) k = None" "k \<noteq> cid" for k
    using cache_result_history[OF d, of C cid r k] that by (cases "py_get (cancel_history (cache_result C cid r st)) k") auto
  show "thread_ok C (cache_result C cid r st) u" using u gone by (cases u) auto
qed (use assms(3) in auto)

lemma release_move:
  assumes "shared_ok C st" "py_get (in_flight st) cid \<noteq> None"
  shows "good_move C (T_release cid x) st (T_done x) (release_cancel cid st)"
proof -
  obtain e where e: "py_get (in_flight st) cid = Some e" using assms(2) by blast
  show ?thesis
  proof (rule good_moveI)
    show "shared_ok C (release_cancel cid st)" by (rule release_ok[OF assms(1) e])
    fix u
    assume "thread_ok C st u"
    then show "thread_ok C (release_cancel cid st) u" using e by (cases u) (auto simp: release_held[OF e] py_get_del)
  qed (auto simp: release_held[OF e] py_get_del)
qed

lemma thread_step_good:
  assumes "shared_ok C st" "thread_ok C st t" "\<And>c. holds t = Some c \<Longrightarrow> py_get (in_flight st) c \<noteq> None"
    and "thread_step E C g t st w = (t', st', w', s)" "0 \<le> max_retries C" "1 \<le> max_cache_size C"
  shows "good_move C t st t' st'"
proof (cases t)
  case (T_call order cid)
  with assms(4) have "enter_call E C order cid st w = (t', st', w')" by (auto split: prod.splits)
  from enter_move[OF assms(1) this assms(5)] T_call show ?thesis by simp
next
  case (T_attempt order cid n)
  obtain a w1 where att: "cancel_attempt E C order cid n w = (a, w1)" by fastforce
  with assms(4) T_attempt have "t' = after_attempt C order cid n a" "st' = st" by auto
  with attempt_move[OF assms(1) _ _ att] assms(2,3) T_attempt show ?thesis by auto
next
  case (T_store cid r)
  with assms(4) store_move[OF assms(1) _ _ assms(6), of cid r] assms(2,3) show ?thesis by auto
next
  case (T_release cid x)
  with assms(4) release_move[OF assms(1), of cid x] assms(3) show ?thesis by auto
next
  case (T_wait cid e)
  with assms(1,2,4) show ?thesis by (intro quiet_move) (auto simp: same_maps_def split: if_splits)
next
  case (T_reread cid)
  with assms(1,4) show ?thesis by (intro quiet_move) (auto simp: same_maps_def)
next
  case (T_done x)
  with assms(1,4) show ?thesis by (intro quiet_move) (auto simp: same_maps_def)
qed

lemma claims_move:
  assumes "claims_ok st ts" "good_move C (ts ! i) st t' st'" "i < length ts"
  shows "claims_ok st' (ts[i := t'])"
proof -
  have dom: "py_get (in_flight st') c \<noteq> None \<longleftrightarrow>
      (if holds t' = Some c then True else if holds (ts ! i) = Some c then False else py_get (in_flight st) c \<noteq> None)" for c
    using assms(2) by (simp add: good_move_def)
  have new: "holds t' = Some c \<Longrightarrow> holds (ts ! i) = Some c \<or> py_get (in_flight st) c = None" for c
    using assms(2) by (simp add: good_move_def)
  have held: "py_get (in_flight st) c \<noteq> None \<longleftrightarrow> (\<exists>k<length ts. holds (ts ! k) = Some c)" for c
    using assms(1) by (simp add: claims_ok_def)
  have once: "k < length ts \<Longrightarrow> j < length ts \<Longrightarrow> holds (ts ! k) = Some c \<Longrightarrow> holds (ts ! j) = Some c \<Longrightarrow> k = j" for k j c
    using assms(1) by (simp add: claims_ok_def)
  have at: "k < length ts \<Longrightarrow> ts[i := t'] ! k = (if k = i then t' else ts ! k)" for k
    using assms(3) by (simp add: nth_list_update)
  have 1: "py_get (in_flight st') c \<noteq> None \<longleftrightarrow> (\<exists>k<length ts. holds (ts[i := t'] ! k) = Some c)" for c
  proof (cases "holds t' = Some c")
    case True
    then have "holds (ts[i := t'] ! i) = Some c" using assms(3) by simp
    with True dom[of c] assms(3) show ?thesis by auto
  next
    case False
    show ?thesis
    proof (cases "holds (ts ! i) = Some c")
      case True
      have "\<not> (\<exists>k<length ts. holds (ts[i := t'] ! k) = Some c)" using True False once[OF _ assms(3)] at by metis
      with dom[of c] True False show ?thesis by auto
    next
      case other: False
      have "(\<exists>k<length ts. holds (ts[i := t'] ! k) = Some c) \<longleftrightarrow> (\<exists>k<length ts. holds (ts ! k) = Some c)"
        using other False at by metis
      with dom[of c] held[of c] other False show ?thesis by simp
    qed
  qed
  have 2: "k = j" if kj: "k < length ts" "j < length ts" "holds (ts[i := t'] ! k) = Some c" "holds (ts[i := t'] ! j) = Some c" for k j c
  proof -
    have clash: "x = i" if "x < length ts" "x \<noteq> i \<Longrightarrow> holds (ts ! x) = Some c" "holds t' = Some c" for x
    proof (rule ccontr)
      assume "x \<noteq> i"
      with that have x: "holds (ts ! x) = Some c" by simp
      with held[of c] that(1) have "py_get (in_flight st) c \<noteq> None" by blast
      with new[OF that(3)] have "holds (ts ! i) = Some c" by simp
      with once[OF that(1) assms(3) x] \<open>x \<noteq> i\<close> show False by blast
    qed
    show ?thesis
    proof (cases "holds t' = Some c")
      case True
      with clash[of k] clash[of j] kj at show ?thesis by metis
    next
      case False
      with kj at have "k \<noteq> i" "j \<noteq> i" by metis+
      with once[OF kj(1,2)] kj(3,4) at[OF kj(1)] at[OF kj(2)] show ?thesis by simp
    qed
  qed
  show ?thesis unfolding claims_ok_def length_list_update using 1 2 by blast
qed

lemma machine_step_inv:
  assumes "cancel_inv C m" "0 \<le> max_retries C" "1 \<le> max_cache_size C"
  shows "cancel_inv C (machine_step E C k m)"
proof (cases "fst k < length (cm_threads m)")
  case True
  let ?i = "fst k" and ?ts = "cm_threads m" and ?st = "cm_state m"
  obtain t' st' w' s where step: "thread_step E C (snd k) (?ts ! ?i) ?st (cm_world m) = (t', st', w', s)" by (metis prod_cases4)
  have inv: "shared_ok C ?st" "claims_ok ?st ?ts" "list_all (thread_ok C ?st) ?ts" using assms(1) by (simp_all add: cancel_inv_def)
  have own: "holds (?ts ! ?i) = Some c \<Longrightarrow> py_get (in_flight ?st) c \<noteq> None" for c
    using inv(2) True unfolding claims_ok_def by blast
  have "thread_ok C ?st (?ts ! ?i)" using inv(3) True by (simp add: list_all_length)
  from thread_step_good[OF inv(1) this own step assms(2,3)]
  have good: "good_move C (?ts ! ?i) ?st t' st'" by blast
  have "thread_ok C st' (?ts[?i := t'] ! j)" if j: "j < length ?ts" for j
  proof (cases "j = ?i")
    case True
    with good j show ?thesis by (simp add: good_move_def)
  next
    case False
    have "holds (?ts ! ?i) = Some c \<Longrightarrow> holds (?ts ! j) \<noteq> Some c" for c
      using inv(2) True j False unfolding claims_ok_def by blast
    moreover have "thread_ok C ?st (?ts ! j)" using inv(3) j by (simp add: list_all_length)
    ultimately show ?thesis using good False by (auto simp: good_move_def)
  qed
  then have "list_all (thread_ok C st') (?ts[?i := t'])" by (simp add: list_all_length)
  moreover have "shared_ok C st'" using good by (simp add: good_move_def)
  ultimately show ?thesis
    using claims_move[OF inv(2) good True] True step by (simp add: machine_step_def cancel_inv_def)
qed (use assms(1) in \<open>simp add: machine_step_def\<close>)

lemma start_inv: "0 \<le> max_cache_size C \<Longrightarrow> cancel_inv C (start_machine calls w)"
  by (auto simp: cancel_inv_def start_machine_def shared_ok_def claims_ok_def fresh_cancel_state_def list_all_iff case_prod_beta)

text \<open>The configuration a constructor accepts.\<close>

definition cancel_config_ok :: "cancel_config \<Rightarrow> bool" where
  "cancel_config_ok C \<longleftrightarrow> 1 \<le> max_cache_size C \<and> 0 \<le> max_retries C \<and> 0 < base_backoff_ms C \<and>
     base_backoff_ms C \<le> max_backoff_ms C \<and> 0 \<le> jitter_ratio C \<and> jitter_ratio C < 1"

lemma make_config_ok: "make_cancel_config a b c d e f g h i j k l = Inr C \<Longrightarrow> cancel_config_ok C"
  by (auto simp: make_cancel_config_def cancel_config_ok_def split: if_splits)

interpretation cancels: invariant_machine "machine_step E C" "\<lambda>m. cancel_config_ok C \<and> cancel_inv C m" for E C
  by unfold_locales (auto simp: cancel_config_ok_def intro: machine_step_inv)

lemma cancel_reached_inv:
  "cancel_config_ok C \<Longrightarrow> cancel_inv C (fold (machine_step E C) ks (start_machine calls w))"
  using cancels.run_inv[of C "start_machine calls w" E ks] start_inv[of C calls w] by (auto simp: cancel_config_ok_def)

end
