(* ===== verification/Cancel_Properties.thy ===== *)
theory Cancel_Properties
  imports Cancel_Threads
begin

text \<open>
  Properties of the cancel dispatcher: the exclusion between threads, the life of a cached
  answer, what a dispatch may conclude and how long it may wait, and what a second call does.
\<close>

section \<open>Threads\<close>

text \<open>C7. However threads that cancel are scheduled, no cancel id is ever dispatched by two of them at
  once, nothing is sent for an id that has a cached answer, and a waiting thread is either woken
  already or the thread it waits for still holds the id.\<close>

theorem one_dispatch_in_flight:
  assumes "cancel_config_ok C" "m = fold (machine_step E C) ks (start_machine calls w)"
  shows "(\<forall>i<length (cm_threads m). \<forall>j<length (cm_threads m). \<forall>c. holds (cm_threads m ! i) = Some c \<longrightarrow>
      holds (cm_threads m ! j) = Some c \<longrightarrow> i = j) \<and>
    (\<forall>order c n. T_attempt order c n \<in> set (cm_threads m) \<longrightarrow> get_cached_result (cm_state m) c = None) \<and>
    (\<forall>c e. T_wait c e \<in> set (cm_threads m) \<longrightarrow> e \<in> set (set_events (cm_state m)) \<or>
      (\<exists>j<length (cm_threads m). holds (cm_threads m ! j) = Some c))"
proof -
  have inv: "cancel_inv C m" unfolding assms(2) by (rule cancel_reached_inv[OF assms(1)])
  then have cl: "claims_ok (cm_state m) (cm_threads m)" and th: "list_all (thread_ok C (cm_state m)) (cm_threads m)"
    by (simp_all add: cancel_inv_def)
  have "e \<in> set (set_events (cm_state m)) \<or> (\<exists>j<length (cm_threads m). holds (cm_threads m ! j) = Some c)"
    if "T_wait c e \<in> set (cm_threads m)" for c e
  proof -
    have "thread_ok C (cm_state m) (T_wait c e)" using th that by (auto simp: list_all_iff)
    moreover have "py_get (in_flight (cm_state m)) c = Some e \<Longrightarrow> \<exists>j<length (cm_threads m). holds (cm_threads m ! j) = Some c"
      using cl unfolding claims_ok_def by (metis option.distinct(1))
    ultimately show ?thesis by auto
  qed
  moreover have "get_cached_result (cm_state m) c = None" if "T_attempt order c n \<in> set (cm_threads m)" for order c n
    using th that by (auto simp: list_all_iff get_cached_result_def)
  moreover have "\<forall>i<length (cm_threads m). \<forall>j<length (cm_threads m). \<forall>c. holds (cm_threads m ! i) = Some c \<longrightarrow>
      holds (cm_threads m ! j) = Some c \<longrightarrow> i = j" using cl by (simp add: claims_ok_def)
  ultimately show ?thesis by blast
qed

lemma py_set_new: "py_get d k = None \<Longrightarrow> py_set d k v = d @ [(k, v)]"
  by (induction d) (auto simp: py_get_def py_set_def split: if_splits)

lemma evicted_oldest:
  assumes "dict_ok d" "int (length d) \<le> n" "1 \<le> n" "py_get d c = Some r" "py_get d k = None"
  shows "py_get (drop (length (py_set d k v) - nat n) (py_set d k v)) c = Some r \<or>
    int (length d) = n \<and> fst (hd d) = c"
proof -
  let ?d = "py_set d k v"
  have ok: "dict_ok ?d" by (rule dict_ok_set[OF assms(1)])
  have len: "length ?d = Suc (length d)" using assms(5) by (simp add: length_py_set)
  have at: "?d = d @ [(k, v)]" by (rule py_set_new[OF assms(5)])
  show ?thesis
  proof (cases "int (length d) = n")
    case True
    then have "length ?d - nat n = 1" using len by (auto simp flip: True)
    then have drop: "drop (length ?d - nat n) ?d = tl ?d" by (simp add: drop_Suc)
    from True assms(3) obtain p d' where d: "d = p # d'" by (cases d) auto
    show ?thesis
    proof (cases "fst p = c")
      case False
      then have "py_get d' c = Some r" using assms(4) d by (cases p) (simp add: py_get_def)
      then have "py_get (d' @ [(k, v)]) c = Some r" by (simp add: py_get_def)
      moreover have "tl ?d = d' @ [(k, v)]" unfolding at using d by simp
      ultimately show ?thesis unfolding drop by simp
    qed (use True d in simp)
  next
    case False
    then have "length ?d - nat n = 0" using len assms(2) by simp
    moreover have "py_get ?d c = Some r" using assms(4,5) by (auto simp: py_get_set)
    ultimately show ?thesis by simp
  qed
qed

text \<open>C14. Once an answer is cached for a cancel id, a caller with that id is given it, and no move of any
  thread sends that id again or changes the answer; only the caching of another id may evict it,
  and then only when the cache is full and it is the oldest.\<close>

theorem answered_cancel_not_resent:
  assumes "cancel_config_ok C" "m = fold (machine_step E C) ks (start_machine calls w)"
    and "get_cached_result (cm_state m) c = Some r"
  shows "claim_cancel c (cm_state m) = (Replayed (as_replay r), cm_state m) \<and>
    filter ((=) c) (cm_sent (machine_step E C k m)) = filter ((=) c) (cm_sent m) \<and>
    (get_cached_result (cm_state (machine_step E C k m)) c = Some r \<or>
      int (length (cancel_history (cm_state m))) = max_cache_size C \<and> fst (hd (cancel_history (cm_state m))) = c)"
proof -
  let ?st = "cm_state m"
  have inv: "shared_ok C ?st" "claims_ok ?st (cm_threads m)" "list_all (thread_ok C ?st) (cm_threads m)"
    using cancel_reached_inv[OF assms(1), of E ks calls w] assms(2) by (simp_all add: cancel_inv_def)
  have c: "py_get (cancel_history ?st) c = Some r" using assms(3) by (simp add: get_cached_result_def)
  have claim: "claim_cancel c ?st = (Replayed (as_replay r), ?st)" using c by (simp add: claim_cancel_def)
  show ?thesis
  proof (cases "fst k < length (cm_threads m)")
    case True
    let ?t = "cm_threads m ! fst k"
    obtain t' st' w' s where step: "thread_step E C (snd k) ?t ?st (cm_world m) = (t', st', w', s)" by (metis prod_cases4)
    have ok: "thread_ok C ?st ?t" using inv(3) True by (simp add: list_all_length)
    have sent: "cm_sent (machine_step E C k m) = cm_sent m @ s" "cm_state (machine_step E C k m) = st'"
      using True step by (simp_all add: machine_step_def)
    have "filter ((=) c) s = []"
      using step ok c by (cases ?t) (auto split: prod.splits if_splits)
    moreover have "py_get (cancel_history st') c = Some r \<or> int (length (cancel_history ?st)) = max_cache_size C \<and> fst (hd (cancel_history ?st)) = c"
    proof (cases "\<exists>cid x. ?t = T_store cid x \<and> cancel_cacheable (cr_status x)")
      case True
      then obtain cid x where t: "?t = T_store cid x" "cancel_cacheable (cr_status x)" by blast
      have none: "py_get (cancel_history ?st) cid = None" using ok t by simp
      have "st' = cache_result C cid x ?st" using step t by simp
      with evicted_oldest[OF _ _ _ c none, of "max_cache_size C" x] inv(1) assms(1) t(2) show ?thesis
        by (simp add: cache_result_def Let_def shared_ok_def cancel_config_ok_def)
    next
      case False
      have "cancel_history st' = cancel_history ?st"
      proof (cases ?t)
        case (T_call order cid)
        with step have enter: "enter_call E C order cid ?st (cm_world m) = (t', st', w')" by (auto split: prod.splits)
        then show ?thesis
          by (auto simp: enter_call_def claim_cancel_def generate_client_cancel_id_def Let_def
              split: if_splits option.splits prod.splits)
      qed (use step False in \<open>auto simp: cache_result_def release_cancel_def split: prod.splits if_splits option.splits\<close>)
      with c show ?thesis by simp
    qed
    ultimately show ?thesis using claim sent by (simp add: get_cached_result_def)
  qed (use claim assms(3) in \<open>simp add: machine_step_def\<close>)
qed

text \<open>C37. However threads are scheduled, the cache stays within its capacity, holds each answer under its own
  cancel id, and holds no replay and no indeterminate answer.\<close>

theorem cache_well_formed:
  assumes "make_cancel_config cache retries base cap jitter ack wait filled already unknown keys token = Inr C"
    and "m = fold (machine_step E C) ks (start_machine calls w)"
  shows "dict_ok (cancel_history (cm_state m)) \<and> int (length (cancel_history (cm_state m))) \<le> cache \<and>
    (\<forall>c r. get_cached_result (cm_state m) c = Some r \<longrightarrow>
      cr_cancel_id r = c \<and> \<not> cr_replay r \<and> cr_status r \<notin> {UNKNOWN, ORDER_UNKNOWN})"
proof -
  have "cancel_inv C m" unfolding assms(2) by (rule cancel_reached_inv[OF make_config_ok[OF assms(1)]])
  moreover have "max_cache_size C = cache" using assms(1) by (auto simp: make_cancel_config_def split: if_splits)
  ultimately show ?thesis
    by (simp add: cancel_inv_def shared_ok_def get_cached_result_def cancel_cacheable_def cancel_terminal_def)
       (metis cancel_status.distinct)
qed

section \<open>One call alone\<close>

definition alone :: "cancel_state \<Rightarrow> 'w \<Rightarrow> cancel_thread \<Rightarrow> string list \<Rightarrow> 'w cancel_machine" where
  "alone st w t sent = \<lparr>cm_state = st, cm_world = w, cm_threads = [t], cm_sent = sent\<rparr>"

lemma alone_step:
  "thread_step E C b t st w = (t', st', w', s) \<Longrightarrow> machine_step E C (0, b) (alone st w t sent) = alone st' w' t' (sent @ s)"
  by (simp add: alone_def machine_step_def)

definition after_attempts :: "cancel_config \<Rightarrow> string \<Rightarrow> string \<Rightarrow> cancel_error + observation \<Rightarrow> cancel_thread" where
  "after_attempts C order cid y = (case y of Inr ob \<Rightarrow> T_store cid (result_of C order cid ob) | Inl e \<Rightarrow> T_release cid (Inl e))"

lemma attempts_run:
  "attempts_from k E C order cid n w = (Some y, w') \<Longrightarrow>
   \<exists>ks s. fold (machine_step E C) ks (alone st w (T_attempt order cid n) sent) = alone st w' (after_attempts C order cid y) s"
proof (induction k arbitrary: n w sent)
  case (Suc k)
  obtain a w1 where att: "cancel_attempt E C order cid n w = (a, w1)" by fastforce
  then have step: "machine_step E C (0, True) (alone st w (T_attempt order cid n) sent) =
      alone st w1 (after_attempt C order cid n a) (sent @ [cid])" by (intro alone_step) simp
  show ?case
  proof (cases a)
    case Again
    with Suc.prems att have "attempts_from k E C order cid (Suc n) w1 = (Some y, w')" by simp
    from Suc.IH[OF this, of "sent @ [cid]"] obtain ks s where "fold (machine_step E C) ks
      (alone st w1 (T_attempt order cid (Suc n)) (sent @ [cid])) = alone st w' (after_attempts C order cid y) s" by blast
    with step Again show ?thesis by (intro exI[of _ "(0, True) # ks"] exI[of _ s]) (simp add: after_attempt_def)
  qed (use Suc.prems att step in \<open>auto intro!: exI[of _ "[(0, True)]"] simp: after_attempt_def after_attempts_def\<close>)
qed simp

text \<open>A call running alone is the machine with one thread: some moves of it end with the answer, the shared
  state and the world that the call returns.\<close>

theorem call_is_one_thread:
  assumes "cancel_order_idempotent E C order cid st w = (Some x, st', w')" "shared_ok C st"
  shows "\<exists>ks sent. fold (machine_step E C) ks \<lparr>cm_state = st, cm_world = w, cm_threads = [T_call order cid], cm_sent = []\<rparr> =
     \<lparr>cm_state = st', cm_world = w', cm_threads = [T_done x], cm_sent = sent\<rparr>"
proof (cases "\<exists>c st2 w1. enter_call E C order cid st w = (T_attempt order c 0, st2, w1)")
  case True
  then obtain c st2 w1 where enter: "enter_call E C order cid st w = (T_attempt order c 0, st2, w1)" by blast
  obtain y w2 where dis: "attempts_from (nat (max_retries C + 1)) E C order c 0 w1 = (y, w2)" by fastforce
  have call: "cancel_order_idempotent E C order cid st w =
    (case dispatch_with_retries E C order c w1 of
       (Some (Inr r), w2) \<Rightarrow> (Some (Inr r), release_cancel c (cache_result C c r st2), w2)
     | (x, w2) \<Rightarrow> (x, release_cancel c st2, w2))"
    using enter by (auto simp: enter_call_def cancel_order_idempotent_def split: if_splits option.splits prod.splits cancel_claim.splits)
  with assms(1) dis obtain z where z: "y = Some z" by (cases y) (auto simp: dispatch_with_retries_def)
  from attempts_run[OF dis[unfolded z], of st2 "[]"] obtain ks s where
    run: "fold (machine_step E C) ks (alone st2 w1 (T_attempt order c 0) []) = alone st2 w2 (after_attempts C order c z) s" by blast
  have first: "machine_step E C (0, True) (alone st w (T_call order cid) []) = alone st2 w1 (T_attempt order c 0) []"
    using alone_step[of E C True "T_call order cid" st w] enter by simp
  have last: "fold (machine_step E C) [(0, True), (0, True)] (alone st2 w2 (after_attempts C order c z) s) = alone st' w' (T_done x) s"
    using assms(1) call dis z by (cases z) (auto simp: alone_def machine_step_def after_attempts_def dispatch_with_retries_def)
  have "fold (machine_step E C) ((0, True) # ks @ [(0, True), (0, True)]) (alone st w (T_call order cid) []) = alone st' w' (T_done x) s"
    using first run last by (simp only: fold_append fold_Cons comp_apply)
  then show ?thesis unfolding alone_def by blast
next
  case False
  have "\<exists>ks. fold (machine_step E C) ks (alone st w (T_call order cid) []) = alone st' w' (T_done x) []"
  proof (cases "\<exists>c e st2 w1. enter_call E C order cid st w = (T_wait c e, st2, w1)")
    case True
    then obtain c e st2 w1 where enter: "enter_call E C order cid st w = (T_wait c e, st2, w1)" by blast
    have held: "same_maps st st2" "py_get (in_flight st2) c = Some e"
      using enter by (auto simp: enter_call_def claim_cancel_def same_maps_def generate_client_cancel_id_def Let_def
          split: if_splits option.splits prod.splits)
    have "x = Inr (unsettled c)" "st' = st2" "w' = w1"
      using enter assms(1) by (auto simp: enter_call_def cancel_order_idempotent_def split: if_splits option.splits prod.splits cancel_claim.splits)
    moreover have "e \<notin> set (set_events st2)"
    proof -
      have "shared_ok C st2" using same_maps_ok(1)[OF held(1)] assms(2) by blast
      with held(2) show ?thesis by (simp add: shared_ok_def)
    qed
    ultimately show ?thesis
      by (intro exI[of _ "[(0, True), (0, True)]"]) (simp add: alone_def machine_step_def enter)
  next
    case none: False
    show ?thesis
      by (rule exI[of _ "[(0, True)]"])
        (use assms(1) False none in \<open>auto simp: alone_def machine_step_def enter_call_def cancel_order_idempotent_def
          split: if_splits option.splits prod.splits cancel_claim.splits\<close>)
  qed
  then show ?thesis unfolding alone_def by blast
qed

section \<open>One dispatch\<close>

text \<open>A log of the broker's answers, which only a request extends.\<close>

definition answer_log :: "'w cancel_env \<Rightarrow> ('w \<Rightarrow> transport_answer list) \<Rightarrow> bool" where
  "answer_log E heard \<longleftrightarrow> (\<forall>o' c w. heard (snd (http_cancel_fn E o' c w)) = heard w @ [fst (http_cancel_fn E o' c w)]) \<and>
     (\<forall>d w. heard (cancel_sleep E d w) = heard w) \<and> (\<forall>w. heard (snd (cancel_time E w)) = heard w) \<and>
     (\<forall>j w. heard (snd (jitter_draw E j w)) = heard w)"

lemma answer_logD:
  assumes "answer_log E heard"
  shows "heard (cancel_sleep E d w) = heard w" "http_cancel_fn E o' c w = (a, w') \<Longrightarrow> heard w' = heard w @ [a]"
    "cancel_time E w = (t, w') \<Longrightarrow> heard w' = heard w" "jitter_draw E j w = (u, w') \<Longrightarrow> heard w' = heard w"
  using assms unfolding answer_log_def by (metis fst_conv snd_conv)+

text \<open>What an observation keeps of the answer it was made from.\<close>

definition observed :: "observation \<Rightarrow> transport_answer \<Rightarrow> bool" where
  "observed ob a \<longleftrightarrow> (case normalise_response a of
     None \<Rightarrow> ob_failed ob \<and> ob_http ob = None
   | Some (status, payload) \<Rightarrow> \<not> ob_failed ob \<and> ob_http ob = Some status \<and> ob_payload ob = payload)"

lemma attempt_heard:
  assumes "cancel_attempt E C order cid n w = (e, w')" "answer_log E heard"
  shows "\<exists>a. heard w' = heard w @ [a] \<and> (\<forall>ob. e = Ended ob \<longrightarrow> ob_attempts ob = Suc n \<and> observed ob a)"
proof -
  obtain a w1 where http: "http_cancel_fn E order cid w = (a, w1)" by fastforce
  note log = answer_logD[OF assms(2)]
  have quiet: "heard w3 = heard w2" if "backoff_seconds E C n ra w2 = (d, w3)" for ra d w2 w3
    using that by (auto simp: backoff_seconds_def Let_def log(4) split: option.splits number.splits if_splits prod.splits)
  show ?thesis
    using assms(1) http log(2)[OF http]
    by (intro exI[of _ a]) (auto simp: cancel_attempt_def observed_def Let_def log(1) quiet
        split: option.splits prod.splits sum.splits if_splits dest: log(3))
qed

lemma attempts_from_spec:
  assumes "0 \<le> max_retries C" "answer_log E heard"
  shows "int (k + n) = max_retries C + 1 \<Longrightarrow> 0 < k \<Longrightarrow>
    \<exists>x w' as. attempts_from k E C order cid n w = (Some x, w') \<and> heard w' = heard w @ as \<and> as \<noteq> [] \<and>
      int (n + length as) \<le> max_retries C + 1 \<and>
      (\<forall>ob. x = Inr ob \<longrightarrow> ob_attempts ob = n + length as \<and> observed ob (last as))"
proof (induction k arbitrary: n w)
  case (Suc k)
  obtain e w1 where att: "cancel_attempt E C order cid n w = (e, w1)" by fastforce
  obtain a where a: "heard w1 = heard w @ [a]" "\<And>ob. e = Ended ob \<Longrightarrow> ob_attempts ob = Suc n \<and> observed ob a"
    using attempt_heard[OF att assms(2)] by blast
  show ?case
  proof (cases e)
    case (Ended ob)
    with a att Suc.prems show ?thesis by (intro exI[of _ "Inr ob"] exI[of _ w1] exI[of _ "[a]"]) simp
  next
    case Again
    with attempt_goes_on[of E C order cid n w w1] att have "int n < max_retries C" by simp
    with Suc.IH[of "Suc n" w1] Suc.prems obtain x w' as where
      "attempts_from k E C order cid (Suc n) w1 = (Some x, w')" "heard w' = heard w1 @ as" "as \<noteq> []"
      "int (Suc n + length as) \<le> max_retries C + 1" "\<forall>ob. x = Inr ob \<longrightarrow> ob_attempts ob = Suc n + length as \<and> observed ob (last as)"
      by auto
    with att Again a(1) show ?thesis by (intro exI[of _ x] exI[of _ w'] exI[of _ "a # as"]) simp
  next
    case (Attempt_raised err)
    with a att Suc.prems show ?thesis by (intro exI[of _ "Inl err"] exI[of _ w1] exI[of _ "[a]"]) simp
  qed
qed simp

definition said_dead :: "cancel_config \<Rightarrow> int \<Rightarrow> py_mapping \<Rightarrow> bool" where
  "said_dead C status payload \<longleftrightarrow>
     200 \<le> status \<and> status < 300 \<and> treat_ack_as_cancelled C \<or>
     \<not> (200 \<le> status \<and> status < 300) \<and> \<not> cancel_retryable (Some status) \<and>
     (any_match (filled_rx C) (first_detail (detail_keys C) payload) \<or>
      any_match (already_cancelled_rx C) (first_detail (detail_keys C) payload))"

lemma terminal_said_dead:
  assumes "observed ob a" "cancel_terminal (cr_status (result_of C order cid ob))"
  shows "\<exists>status payload. normalise_response a = Some (status, payload) \<and> said_dead C status payload"
  using assms by (auto simp: observed_def said_dead_def result_of_def classify_cancel_def cancel_terminal_def Let_def
      split: option.splits if_splits)

text \<open>C20. A dispatch always ends, after at most one request more than the retries, and reports how many it
  sent; it calls an order dead only if the last answer it got was a success of a broker trusted to
  cancel synchronously, or a definite refusal whose text matches a pattern for filled or cancelled
  orders.\<close>

theorem dead_only_if_broker_said_so:
  assumes "cancel_config_ok C" "answer_log E heard"
  shows "\<exists>x w' answers. dispatch_with_retries E C order cid w = (Some x, w') \<and> heard w' = heard w @ answers \<and>
    1 \<le> length answers \<and> int (length answers) \<le> max_retries C + 1 \<and>
    (\<forall>r. x = Inr r \<longrightarrow> cr_attempts r = length answers \<and>
      (cancel_terminal (cr_status r) \<longrightarrow>
        (\<exists>status payload. normalise_response (last answers) = Some (status, payload) \<and> said_dead C status payload)))"
proof -
  have k: "0 \<le> max_retries C" using assms(1) by (simp add: cancel_config_ok_def)
  then have fuel: "int (nat (max_retries C + 1) + 0) = max_retries C + 1" "0 < nat (max_retries C + 1)" by simp_all
  obtain y w' as where run: "attempts_from (nat (max_retries C + 1)) E C order cid 0 w = (Some y, w')"
    "heard w' = heard w @ as" "as \<noteq> []" "int (length as) \<le> max_retries C + 1"
    and y: "\<And>ob. y = Inr ob \<Longrightarrow> ob_attempts ob = length as \<and> observed ob (last as)"
    using attempts_from_spec[OF k assms(2) fuel, of order cid w] by auto
  have some: "1 \<le> length as" using run(3) by (cases as) simp_all
  show ?thesis
  proof (cases y)
    case (Inl e)
    with run some show ?thesis
      by (intro exI[of _ "Inl e"] exI[of _ w'] exI[of _ as]) (simp add: dispatch_with_retries_def)
  next
    case (Inr ob)
    with run(1) have "dispatch_with_retries E C order cid w = (Some (Inr (result_of C order cid ob)), w')"
      by (simp add: dispatch_with_retries_def)
    moreover have "cr_attempts (result_of C order cid ob) = length as" using y[OF Inr] by (simp add: result_of_def Let_def)
    ultimately show ?thesis using run some terminal_said_dead[of ob "last as" C order cid] y[OF Inr]
      by (intro exI[of _ "Inr (result_of C order cid ob)"] exI[of _ w'] exI[of _ as]) simp
  qed
qed

text \<open>A meter of the time slept, which only the sleep moves.\<close>

definition sleep_meter :: "'w cancel_env \<Rightarrow> ('w \<Rightarrow> rat) \<Rightarrow> bool" where
  "sleep_meter E slept \<longleftrightarrow> (\<forall>d w. slept (cancel_sleep E d w) = slept w + d) \<and>
     (\<forall>o' c w. slept (snd (http_cancel_fn E o' c w)) = slept w) \<and> (\<forall>w. slept (snd (cancel_time E w)) = slept w) \<and>
     (\<forall>j w. slept (snd (jitter_draw E j w)) = slept w \<and>
        (0 \<le> j \<longrightarrow> 0 \<le> fst (jitter_draw E j w) \<and> fst (jitter_draw E j w) \<le> j))"

lemma sleep_meterD:
  assumes "sleep_meter E slept"
  shows "slept (cancel_sleep E d w) = slept w + d" "http_cancel_fn E o' c w = (a, w') \<Longrightarrow> slept w' = slept w"
    "cancel_time E w = (t, w') \<Longrightarrow> slept w' = slept w"
    "jitter_draw E j w = (u, w') \<Longrightarrow> 0 \<le> j \<Longrightarrow> slept w' = slept w \<and> 0 \<le> u \<and> u \<le> j"
  using assms unfolding sleep_meter_def by (metis fst_conv snd_conv)+

lemma retry_after_nonneg:
  assumes "parse_retry_after E payload now = Inr (Some x)"
  shows "(\<exists>r. x = N_float r \<and> 0 \<le> r) \<or> (\<exists>b. x = N_inf b)"
proof -
  have f: "(\<exists>r. floor_zero y = N_float r \<and> 0 \<le> r) \<or> (\<exists>b. floor_zero y = N_inf b)" for y
    by (cases y) (auto simp: floor_zero_def)
  from assms have "(\<exists>y. x = floor_zero y) \<or> (\<exists>t. x = N_float (max 0 (t - now)))"
    unfolding parse_retry_after_def Let_def
    by (auto split: py_value.split_asm option.split_asm if_split_asm)
  with f show ?thesis by auto
qed

lemma backoff_bounds:
  assumes "backoff_seconds E C n ra w = (Some d, w')" "cancel_config_ok C" "sleep_meter E slept"
    and "\<And>x. ra = Some x \<Longrightarrow> (\<exists>r. x = N_float r \<and> 0 \<le> r) \<or> (\<exists>b. x = N_inf b)"
  shows "0 \<le> d \<and> d \<le> of_int (max_backoff_ms C) / 1000 \<and> slept w' = slept w"
proof (cases ra)
  case (Some x)
  with assms(1) assms(4)[OF Some] show ?thesis by (auto simp: backoff_seconds_def split: if_splits)
next
  case None
  define delay :: rat where "delay = min (of_int (base_backoff_ms C) * 2 ^ min n 32) (of_int (max_backoff_ms C))"
  have c: "0 < base_backoff_ms C" "base_backoff_ms C \<le> max_backoff_ms C" "0 \<le> jitter_ratio C" "jitter_ratio C < 1"
    using assms(2) by (simp_all add: cancel_config_ok_def)
  then have delay: "0 \<le> delay" "delay \<le> of_int (max_backoff_ms C)" by (auto simp: delay_def)
  show ?thesis
  proof (cases "jitter_ratio C = 0")
    case True
    with assms(1) None have "d = delay / 1000" "w' = w" by (auto simp: backoff_seconds_def delay_def Let_def)
    with delay show ?thesis by (simp add: divide_right_mono)
  next
    case False
    obtain u w1 where j: "jitter_draw E (jitter_ratio C) w = (u, w1)" by fastforce
    note u = sleep_meterD(4)[OF assms(3) j c(3)]
    have d: "d = delay * (1 - u) / 1000" "w' = w1" using assms(1) None False j by (auto simp: backoff_seconds_def delay_def Let_def)
    have "0 \<le> 1 - u" "1 - u \<le> 1" using u c by linarith+
    then have "0 \<le> delay * (1 - u)" "delay * (1 - u) \<le> delay" using delay by (auto intro: mult_nonneg_nonneg mult_left_le)
    with d delay u show ?thesis by (auto simp: divide_right_mono)
  qed
qed

lemma attempt_meter:
  assumes "cancel_attempt E C order cid n w = (a, w')" "cancel_config_ok C" "sleep_meter E slept"
  shows "slept w \<le> slept w' \<and> slept w' \<le> slept w + (if a = Again then of_int (max_backoff_ms C) / 1000 else 0)"
proof -
  obtain answer w1 where http: "http_cancel_fn E order cid w = (answer, w1)" by fastforce
  note s1 = sleep_meterD(2)[OF assms(3) http]
  have tail: "slept w1 \<le> slept w' \<and> slept w' \<le> slept w1 + (if a = Again then of_int (max_backoff_ms C) / 1000 else 0)"
    if ends: "(if \<not> cancel_retryable (ob_http ob) \<or> int n \<ge> max_retries C then (Ended ob, w2)
        else (case backoff_seconds E C n (ob_retry_after ob) w2 of
          (None, w3) \<Rightarrow> (Ended ob, w3) | (Some delay, w3) \<Rightarrow> (Again, cancel_sleep E delay w3))) = (a, w')"
      and same: "slept w2 = slept w1"
      and ra: "\<And>x. ob_retry_after ob = Some x \<Longrightarrow> (\<exists>r. x = N_float r \<and> 0 \<le> r) \<or> (\<exists>b. x = N_inf b)" for ob w2
  proof (cases "\<not> cancel_retryable (ob_http ob) \<or> int n \<ge> max_retries C")
    case False
    obtain d w3 where b: "backoff_seconds E C n (ob_retry_after ob) w2 = (d, w3)" by fastforce
    show ?thesis
    proof (cases d)
      case None
      have "slept w3 = slept w2"
        using b None by (auto simp: backoff_seconds_def Let_def split: option.splits number.splits if_splits prod.splits)
      with ends False b None same show ?thesis by auto
    next
      case (Some delay)
      with backoff_bounds[OF b[unfolded Some] assms(2,3) ra] ends False b same sleep_meterD(1)[OF assms(3)] show ?thesis by auto
    qed
  qed (use ends same in auto)
  show ?thesis
  proof (cases "normalise_response answer")
    case None
    have t: "slept w1 \<le> slept w' \<and> slept w' \<le> slept w1 + (if a = Again then of_int (max_backoff_ms C) / 1000 else 0)"
      by (rule tail[of "\<lparr>ob_http = None, ob_payload = [], ob_failed = True, ob_retry_after = None, ob_attempts = Suc n\<rparr>" w1])
         (use assms(1) http None in \<open>auto simp: cancel_attempt_def\<close>)
    with s1 show ?thesis by simp
  next
    case (Some p)
    obtain status payload where p: "p = (status, payload)" by fastforce
    obtain now w2 where time: "cancel_time E w1 = (now, w2)" by fastforce
    note s2 = sleep_meterD(3)[OF assms(3) time]
    show ?thesis
    proof (cases "parse_retry_after E payload now")
      case (Inl e)
      with assms(1) http Some p time s1 s2 show ?thesis by (auto simp: cancel_attempt_def)
    next
      case (Inr ra)
      have t: "slept w1 \<le> slept w' \<and> slept w' \<le> slept w1 + (if a = Again then of_int (max_backoff_ms C) / 1000 else 0)"
        by (rule tail[of "\<lparr>ob_http = Some status, ob_payload = payload, ob_failed = False, ob_retry_after = ra, ob_attempts = Suc n\<rparr>" w2])
           (use assms(1) http Some p time s2 Inr retry_after_nonneg[of E payload now] in \<open>auto simp: cancel_attempt_def\<close>)
      with s1 show ?thesis by simp
    qed
  qed
qed

lemma attempts_meter:
  assumes "cancel_config_ok C" "sleep_meter E slept"
  shows "attempts_from k E C order cid n w = (y, w') \<Longrightarrow> int (k + n) = max_retries C + 1 \<Longrightarrow> 0 < k \<Longrightarrow>
    slept w \<le> slept w' \<and> slept w' \<le> slept w + (of_nat k - 1) * (of_int (max_backoff_ms C) / 1000)"
proof (induction k arbitrary: n w)
  case (Suc k)
  obtain a w1 where att: "cancel_attempt E C order cid n w = (a, w1)" by fastforce
  note m = attempt_meter[OF att assms]
  have b: "0 \<le> (of_int (max_backoff_ms C) / 1000 :: rat)" using assms(1) by (simp add: cancel_config_ok_def)
  show ?case
  proof (cases "a = Again")
    case True
    with attempt_goes_on[of E C order cid n w w1] att have "int n < max_retries C" by simp
    with Suc.prems(2) have "0 < k" by linarith
    moreover have "attempts_from k E C order cid (Suc n) w1 = (y, w')" using Suc.prems(1) att True by simp
    ultimately have "slept w1 \<le> slept w' \<and> slept w' \<le> slept w1 + (of_nat k - 1) * (of_int (max_backoff_ms C) / 1000)"
      using Suc.IH[of "Suc n" w1] Suc.prems(2) by simp
    moreover have "(of_nat (Suc k) - 1 :: rat) * (of_int (max_backoff_ms C) / 1000) =
      (of_nat k - 1) * (of_int (max_backoff_ms C) / 1000) + of_int (max_backoff_ms C) / 1000" by (simp add: field_simps)
    ultimately show ?thesis using m True unfolding if_P[OF True] by linarith
  next
    case False
    with Suc.prems(1) att have "w' = w1" by (cases a) auto
    moreover have "0 \<le> of_nat k * (of_int (max_backoff_ms C) / 1000 :: rat)" using b by (intro mult_nonneg_nonneg) auto
    ultimately show ?thesis using m False by auto
  qed
qed simp

text \<open>A dispatch never sleeps for longer than its retries times the largest backoff, whatever the
  broker asks for.\<close>

theorem cancel_wait_bounded:
  assumes "cancel_config_ok C" "sleep_meter E slept" "dispatch_with_retries E C order cid w = (x, w')"
  shows "slept w \<le> slept w' \<and> slept w' \<le> slept w + of_int (max_retries C) * of_int (max_backoff_ms C) / 1000"
proof -
  obtain y w1 where run: "attempts_from (nat (max_retries C + 1)) E C order cid 0 w = (y, w1)" by fastforce
  have "w' = w1" using assms(3) run by (auto simp: dispatch_with_retries_def split: option.splits sum.splits)
  have k: "int (nat (max_retries C + 1) + 0) = max_retries C + 1" "0 < nat (max_retries C + 1)"
    using assms(1) by (simp_all add: cancel_config_ok_def)
  have "of_nat (nat (max_retries C + 1)) - 1 = (of_int (max_retries C) :: rat)"
    using assms(1) by (simp add: cancel_config_ok_def)
  with attempts_meter[OF assms(1,2) run k] \<open>w' = w1\<close> show ?thesis by simp
qed

section \<open>Calling again\<close>

lemma cached_last:
  assumes "py_get d c = None" "1 \<le> n"
  shows "py_get (drop (length (py_set d c r) - nat n) (py_set d c r)) c = Some r"
proof -
  have at: "py_set d c r = d @ [(c, r)]" by (rule py_set_new[OF assms(1)])
  have "length (py_set d c r) - nat n \<le> length d" using assms(2) at by simp
  then have "drop (length (py_set d c r) - nat n) (py_set d c r) = drop (length (py_set d c r) - nat n) d @ [(c, r)]"
    unfolding at by simp
  moreover have "py_get (drop k d) c = None" for k
    using assms(1) by (auto simp: py_get_None_iff dest: in_set_dropD)
  ultimately show ?thesis by (simp add: py_get_def map_add_def)
qed

text \<open>C35. After a call that returned, a second call with the same id replays the answer without touching the
  outside world if the broker gave one that may be cached; if the outcome was indeterminate nothing
  was cached, and the second call dispatches anew.\<close>

theorem second_call_exact:
  assumes "cancel_config_ok C" "shared_ok C st" "py_get (in_flight st) c = None"
    and "cancel_order_idempotent E C order (Some c) st w = (Some (Inr r), st', w')" "py_strip order2 \<noteq> ''''"
  shows "if cancel_cacheable (cr_status r)
    then cancel_order_idempotent E C order2 (Some c) st' w2 = (Some (Inr (as_replay r)), st', w2)
    else cancel_history st' = cancel_history st \<and>
      fst (cancel_order_idempotent E C order2 (Some c) st' w2) = fst (dispatch_with_retries E C order2 c w2)"
proof -
  have args: "cancel_arguments_ok order (Some c)" using assms(4) by (auto simp: cancel_order_idempotent_def split: if_splits)
  then have args2: "cancel_arguments_ok order2 (Some c)" using assms(5) by (simp add: cancel_arguments_ok_def)
  show ?thesis
  proof (cases "py_get (cancel_history st) c")
    case (Some r0)
    with args assms(4) have e: "r = as_replay r0" "st' = st" by (auto simp: cancel_order_idempotent_def claim_cancel_def)
    moreover have "cancel_cacheable (cr_status r0)" using assms(2) Some by (simp add: shared_ok_def)
    ultimately show ?thesis
      using args2 Some by (simp add: cancel_order_idempotent_def claim_cancel_def as_replay_def)
  next
    case None
    define st2 where "st2 = st\<lparr>in_flight := py_set (in_flight st) c (next_event st), next_event := Suc (next_event st)\<rparr>"
    have claim: "claim_cancel c st = (Claimed, st2)" using None assms(3) by (simp add: claim_cancel_def st2_def)
    obtain x w1 where dis: "dispatch_with_retries E C order c w = (x, w1)" by fastforce
    have x: "x = Some (Inr r)" "st' = release_cancel c (cache_result C c r st2)"
      using assms(4) args claim dis by (auto simp: cancel_order_idempotent_def split: option.splits sum.splits)
    have fl: "py_get (in_flight st') c = None"
      by (simp add: x(2) release_cancel_def st2_def py_get_set py_get_del)
    have hist: "cancel_history st' = cancel_history (cache_result C c r st2)" by (simp add: x(2) release_cancel_def split: option.split)
    show ?thesis
    proof (cases "cancel_cacheable (cr_status r)")
      case True
      have "py_get (cancel_history st') c = Some r"
        using cached_last[OF None, of "max_cache_size C" r] assms(1) True unfolding hist
        by (simp add: cache_result_def Let_def st2_def cancel_config_ok_def)
      then show ?thesis using True args2 by (simp add: cancel_order_idempotent_def claim_cancel_def)
    next
      case False
      then have h: "cancel_history st' = cancel_history st" using hist by (simp add: cache_result_def st2_def)
      have "fst (cancel_order_idempotent E C order2 (Some c) st' w2) = fst (dispatch_with_retries E C order2 c w2)"
        using args2 fl h None
        by (auto simp: cancel_order_idempotent_def claim_cancel_def split: prod.split option.split sum.split)
      with False h show ?thesis by simp
    qed
  qed
qed

section \<open>What the default patterns misread\<close>

definition default_cancel_config :: cancel_config where
  "default_cancel_config = \<lparr>max_cache_size = 10000, max_retries = 3, base_backoff_ms = 100, max_backoff_ms = 5000,
     jitter_ratio = 1 / 5, treat_ack_as_cancelled = False, filled_rx = filled_patterns,
     already_cancelled_rx = already_cancelled_patterns, unknown_order_rx = unknown_order_patterns,
     detail_keys = default_detail_keys, instance_token = ''a1b2c3d4''\<rparr>"

lemma unfilled_order_read_as_filled:
  "classify_cancel default_cancel_config (Some 400) ''order has not been filled'' False = FILLED_BEFORE_CANCEL \<and>
   classify_cancel default_cancel_config (Some 400) ''order not executed yet'' False = FILLED_BEFORE_CANCEL \<and>
   classify_cancel default_cancel_config (Some 400) ''order was not filled'' False = REJECTED_CANCEL"
  by code_simp

text \<open>A delay beyond the floats is raised to the caller.\<close>

lemma huge_delay_raises: "parse_retry_after E [(''retry_after'', V_int (2 ^ 1025))] now = Inl Cancel_Overflow"
proof -
  have "double_of_int (2 ^ 1025) = None" by code_simp
  then show ?thesis by (simp add: parse_retry_after_def py_get_def)
qed

end
