(* ===== verification/Cancel_Witnesses.thy ===== *)
theory Cancel_Witnesses
  imports Cancel_Properties
begin

text \<open>
  Instances of the properties of the cancel dispatcher in a small world that counts the time
  slept and the requests sent: the broker is overloaded once, then acknowledges.
\<close>

definition demo_broker :: "(rat \<times> nat) cancel_env" where
  "demo_broker = \<lparr>http_cancel_fn = (\<lambda>order cid w.
       (Answer_pair (V_int (if snd w = 0 then 503 else 200)) V_none, (fst w, Suc (snd w)))),
     cancel_sleep = (\<lambda>d w. (fst w + d, snd w)), cancel_time = (\<lambda>w. (1000, w)), jitter_draw = (\<lambda>j w. (0, w)),
     parse_http_date = (\<lambda>s. None)\<rparr>"

definition demo_cancel_config :: cancel_config where
  "demo_cancel_config = default_cancel_config\<lparr>treat_ack_as_cancelled := True\<rparr>"

lemma demo_config_ok: "cancel_config_ok demo_cancel_config"
  by (simp add: cancel_config_ok_def demo_cancel_config_def default_cancel_config_def)

lemma demo_meter: "sleep_meter demo_broker fst"
  by (simp add: sleep_meter_def demo_broker_def)

lemmas demo_eval = demo_broker_def demo_cancel_config_def default_cancel_config_def cancel_attempt_def normalise_response_def
  parse_retry_after_def py_get_def cancel_retryable_def backoff_seconds_def result_of_def classify_cancel_def Let_def

definition demo_result :: "nat \<Rightarrow> cancel_result" where
  "demo_result n = \<lparr>cr_cancel_id = ''c'', cr_order = ''o'', cr_status = CANCELLED, cr_replay = False, cr_http = Some 200,
     cr_attempts = n, cr_retry_after = None, cr_detail = ''''\<rparr>"

lemma demo_first: "cancel_attempt demo_broker demo_cancel_config ''o'' ''c'' 0 (0, 0) = (Again, (1 / 10, 1))"
  by (simp add: demo_eval)

lemma demo_second: "cancel_attempt demo_broker demo_cancel_config ''o'' ''c'' n (s, Suc k) =
    (Ended \<lparr>ob_http = Some 200, ob_payload = [], ob_failed = False, ob_retry_after = None, ob_attempts = Suc n\<rparr>, (s, Suc (Suc k)))"
  by (simp add: demo_eval)

lemma demo_shown: "result_of demo_cancel_config ''o'' ''c''
    \<lparr>ob_http = Some 200, ob_payload = [], ob_failed = False, ob_retry_after = None, ob_attempts = n\<rparr> = demo_result n"
  by (simp add: demo_eval demo_result_def default_detail_keys_def)

lemma demo_cancel_dispatch:
  "dispatch_with_retries demo_broker demo_cancel_config ''o'' ''c'' (0, 0) = (Some (Inr (demo_result 2)), (1 / 10, 2))"
proof -
  have "nat (max_retries demo_cancel_config + 1) = Suc (Suc 2)" by (simp add: demo_cancel_config_def default_cancel_config_def)
  then show ?thesis
    using demo_second[of 1 "1 / 10" 0] demo_shown[of 2]
    by (simp add: dispatch_with_retries_def demo_first numeral_2_eq_2)
qed

definition demo_machine :: "(nat \<times> bool) list \<Rightarrow> (rat \<times> nat) cancel_machine" where
  "demo_machine ks = fold (machine_step demo_broker demo_cancel_config) ks
     (start_machine [(''o'', Some ''c''), (''o'', Some ''c'')] (0, 1))"

lemma demo_arguments: "cancel_arguments_ok ''o'' (Some ''c'')"
  by code_simp

lemmas demo_run = demo_machine_def start_machine_def machine_step_def enter_call_def demo_arguments claim_cancel_def
  fresh_cancel_state_def py_get_def py_set_def

lemma demo_claimed: "cm_threads (demo_machine [(0, False), (1, False)]) = [T_attempt ''o'' ''c'' 0, T_wait ''c'' 0]"
  by (simp add: demo_run)

lemma demo_cached: "get_cached_result (cm_state (demo_machine [(0, False), (1, False), (0, False), (0, False)])) ''c'' = Some (demo_result 1)"
  using demo_second[of 0 0 0] demo_shown[of 1]
  by (simp add: demo_run after_attempt_def cache_result_def get_cached_result_def cancel_cacheable_def cancel_terminal_def
      demo_cancel_config_def[THEN arg_cong[of _ _ max_cache_size]] default_cancel_config_def demo_result_def)

lemma one_dispatch_in_flight_witness:
  "holds (cm_threads (demo_machine [(0, False), (1, False)]) ! 0) = Some ''c'' \<and>
   holds (cm_threads (demo_machine [(0, False), (1, False)]) ! 1) \<noteq> Some ''c'' \<and>
   get_cached_result (cm_state (demo_machine [(0, False), (1, False)])) ''c'' = None"
  using one_dispatch_in_flight[OF demo_config_ok demo_machine_def, of "[(0, False), (1, False)]"]
  unfolding demo_claimed by (auto simp: demo_claimed)

lemma answered_cancel_not_resent_witness:
  "filter ((=) ''c'') (cm_sent (machine_step demo_broker demo_cancel_config (1, False)
      (demo_machine [(0, False), (1, False), (0, False), (0, False)]))) =
    filter ((=) ''c'') (cm_sent (demo_machine [(0, False), (1, False), (0, False), (0, False)]))"
  using answered_cancel_not_resent[OF demo_config_ok demo_machine_def demo_cached, of "(1, False)"] by blast

lemma cache_well_formed_witness:
  "make_cancel_config 10000 3 100 5000 (1 / 5) True 30 filled_patterns already_cancelled_patterns unknown_order_patterns
      default_detail_keys ''a1b2c3d4'' = Inr demo_cancel_config \<and>
   int (length (cancel_history (cm_state (demo_machine [(0, False), (1, False), (0, False), (0, False)])))) \<le> 10000"
proof -
  have made: "make_cancel_config 10000 3 100 5000 (1 / 5) True 30 filled_patterns already_cancelled_patterns unknown_order_patterns
      default_detail_keys ''a1b2c3d4'' = Inr demo_cancel_config"
    by (simp add: make_cancel_config_def demo_cancel_config_def default_cancel_config_def)
  from cache_well_formed[OF made demo_machine_def] made show ?thesis by simp
qed

definition demo_heard :: "rat \<times> nat \<Rightarrow> transport_answer list" where
  "demo_heard w = map (\<lambda>k. Answer_pair (V_int (if k = 0 then 503 else 200)) V_none) [0..<snd w]"

lemma demo_log_of_answers: "answer_log demo_broker demo_heard"
  by (simp add: answer_log_def demo_broker_def demo_heard_def)

lemma dead_only_if_broker_said_so_witness:
  "cancel_terminal (cr_status (demo_result 2)) \<and>
   (\<exists>answers status payload. demo_heard (1 / 10, 2) = demo_heard (0, 0) @ answers \<and> length answers = 2 \<and>
      normalise_response (last answers) = Some (status, payload) \<and> said_dead demo_cancel_config status payload)"
proof -
  have dead: "cancel_terminal (cr_status (demo_result 2))" "cr_attempts (demo_result 2) = 2"
    by (simp_all add: demo_result_def cancel_terminal_def)
  from dead_only_if_broker_said_so[OF demo_config_ok demo_log_of_answers, of "''o''" "''c''" "(0, 0)"] dead show ?thesis
    unfolding demo_cancel_dispatch by fastforce
qed

lemma cancel_wait_bounded_witness:
  "fst (snd (dispatch_with_retries demo_broker demo_cancel_config ''o'' ''c'' (0, 0))) \<le> 15"
  using cancel_wait_bounded[OF demo_config_ok demo_meter demo_cancel_dispatch] unfolding demo_cancel_dispatch
  by (simp add: demo_cancel_config_def default_cancel_config_def)

lemma demo_order:
  "\<exists>st'. cancel_order_idempotent demo_broker demo_cancel_config ''o'' (Some ''c'') fresh_cancel_state (0, 0) =
    (Some (Inr (demo_result 2)), st', (1 / 10, 2))"
  by (simp add: cancel_order_idempotent_def demo_arguments claim_cancel_def fresh_cancel_state_def py_get_def demo_cancel_dispatch)

lemma demo_fresh: "shared_ok demo_cancel_config fresh_cancel_state"
  by (simp add: shared_ok_def fresh_cancel_state_def py_get_def demo_cancel_config_def default_cancel_config_def)

lemma call_is_one_thread_witness:
  "\<exists>ks st' sent. fold (machine_step demo_broker demo_cancel_config) ks
      \<lparr>cm_state = fresh_cancel_state, cm_world = (0, 0), cm_threads = [T_call ''o'' (Some ''c'')], cm_sent = []\<rparr> =
    \<lparr>cm_state = st', cm_world = (1 / 10, 2), cm_threads = [T_done (Inr (demo_result 2))], cm_sent = sent\<rparr>"
proof -
  obtain st' where run: "cancel_order_idempotent demo_broker demo_cancel_config ''o'' (Some ''c'') fresh_cancel_state (0, 0) =
    (Some (Inr (demo_result 2)), st', (1 / 10, 2))" using demo_order by blast
  from call_is_one_thread[OF run demo_fresh] show ?thesis by blast
qed

lemma second_call_exact_witness:
  "\<exists>st'. cancel_order_idempotent demo_broker demo_cancel_config ''o'' (Some ''c'') st' (0, 0) =
    (Some (Inr (as_replay (demo_result 2))), st', (0, 0))"
proof -
  obtain st' where run: "cancel_order_idempotent demo_broker demo_cancel_config ''o'' (Some ''c'') fresh_cancel_state (0, 0) =
    (Some (Inr (demo_result 2)), st', (1 / 10, 2))" using demo_order by blast
  have "py_get (in_flight fresh_cancel_state) ''c'' = None" by (simp add: fresh_cancel_state_def py_get_def)
  moreover have "py_strip ''o'' \<noteq> ''''" using demo_arguments by (simp add: cancel_arguments_ok_def)
  moreover have "cancel_cacheable (cr_status (demo_result 2))"
    by (simp add: demo_result_def cancel_cacheable_def cancel_terminal_def)
  ultimately show ?thesis using second_call_exact[OF demo_config_ok demo_fresh _ run, of "''o''" "(0, 0)"] by auto
qed

end
