(* ===== verification/Py_Decimal.thy ===== *)
theory Py_Decimal
  imports Py_Value
begin

text \<open>
  The part of \<open>decimal\<close> the library computes with: finite decimals as a coefficient and an
  exponent, read from texts exactly, added, subtracted, multiplied and divided in the default
  context of 28 significant digits with ties to even. Signed zeros and the limits of the
  exponent are left out.
\<close>

section \<open>Decimals and their rounding\<close>

datatype dec = Dec (dec_coeff: int) (dec_exp: int)

definition ten_power :: "int \<Rightarrow> rat" where
  "ten_power e = (if e \<ge> 0 then 10 ^ nat e else 1 / 10 ^ nat (- e))"

definition dec_rat :: "dec \<Rightarrow> rat" where
  "dec_rat d = of_int (dec_coeff d) * ten_power (dec_exp d)"

function digit_count :: "int \<Rightarrow> nat" where
  "digit_count n = (if n < 10 then 1 else Suc (digit_count (n div 10)))"
  by pat_completeness auto
termination by (relation "measure nat") auto

declare digit_count.simps [simp del]

definition half_even_div :: "int \<Rightarrow> int \<Rightarrow> int" where
  "half_even_div a u =
     (let q = a div u; r = a mod u in if 2 * r > u \<or> 2 * r = u \<and> odd q then q + 1 else q)"

text \<open>\<open>_fix\<close>: at most 28 digits.\<close>

definition dec_fix :: "dec \<Rightarrow> dec" where
  "dec_fix d =
     (let c = \<bar>dec_coeff d\<bar>; n = digit_count c in
      if n \<le> 28 then d
      else (let q = half_even_div c (10 ^ (n - 28)); e = dec_exp d + int (n - 28) in
            if q = 10 ^ 28 then Dec (sgn (dec_coeff d) * 10 ^ 27) (e + 1) else Dec (sgn (dec_coeff d) * q) e))"

section \<open>Operations\<close>

definition shifted_coeff :: "dec \<Rightarrow> int \<Rightarrow> int" where
  "shifted_coeff d e = dec_coeff d * 10 ^ nat (dec_exp d - e)"

definition dec_add :: "dec \<Rightarrow> dec \<Rightarrow> dec" where
  "dec_add a b = (let e = min (dec_exp a) (dec_exp b) in dec_fix (Dec (shifted_coeff a e + shifted_coeff b e) e))"

definition dec_neg :: "dec \<Rightarrow> dec" where
  "dec_neg a = Dec (- dec_coeff a) (dec_exp a)"

definition dec_sub :: "dec \<Rightarrow> dec \<Rightarrow> dec" where
  "dec_sub a b = dec_add a (dec_neg b)"

definition dec_mul :: "dec \<Rightarrow> dec \<Rightarrow> dec" where
  "dec_mul a b = dec_fix (Dec (dec_coeff a * dec_coeff b) (dec_exp a + dec_exp b))"

text \<open>Trailing zeros go while the exponent is below the ideal one.\<close>

fun strip_zeros :: "nat \<Rightarrow> dec \<Rightarrow> dec" where
  "strip_zeros 0 d = d"
| "strip_zeros (Suc n) d =
     (if dec_coeff d mod 10 = 0 then strip_zeros n (Dec (dec_coeff d div 10) (dec_exp d + 1)) else d)"

text \<open>
  Division by a nonzero decimal: a quotient with a digit to spare, made odd in the last place
  when it is inexact, then rounded.
\<close>

definition dec_div :: "dec \<Rightarrow> dec \<Rightarrow> dec" where
  "dec_div a b =
     (let ca = \<bar>dec_coeff a\<bar>; cb = \<bar>dec_coeff b\<bar>; ideal = dec_exp a - dec_exp b; s = sgn (dec_coeff a) * sgn (dec_coeff b);
          shift = int (digit_count cb) - int (digit_count ca) + 29;
          n = (if shift \<ge> 0 then ca * 10 ^ nat shift else ca); m = (if shift \<ge> 0 then cb else cb * 10 ^ nat (- shift));
          q = n div m
      in if ca = 0 then Dec 0 ideal
         else if n mod m \<noteq> 0 then dec_fix (Dec (s * (if q mod 5 = 0 then q + 1 else q)) (ideal - shift))
         else dec_fix (strip_zeros (nat shift) (Dec (s * q) (ideal - shift))))"

definition dec_of_int :: "int \<Rightarrow> dec" where
  "dec_of_int n = Dec n 0"

text \<open>\<open>int(d)\<close>: towards zero.\<close>

definition dec_truncate :: "dec \<Rightarrow> int" where
  "dec_truncate d =
     (if dec_exp d \<ge> 0 then dec_coeff d * 10 ^ nat (dec_exp d)
      else sgn (dec_coeff d) * (\<bar>dec_coeff d\<bar> div 10 ^ nat (- dec_exp d)))"

definition dec_le :: "dec \<Rightarrow> dec \<Rightarrow> bool" where
  "dec_le a b \<longleftrightarrow> dec_rat a \<le> dec_rat b"

definition dec_less :: "dec \<Rightarrow> dec \<Rightarrow> bool" where
  "dec_less a b \<longleftrightarrow> dec_rat a < dec_rat b"

section \<open>Reading\<close>

datatype decimal_text = Not_decimal | Not_finite | Finite_decimal dec

definition nan_text :: "string \<Rightarrow> bool" where
  "nan_text s \<longleftrightarrow> (take 3 s = ''nan'' \<and> list_all is_dec (drop 3 s)) \<or> (take 4 s = ''snan'' \<and> list_all is_dec (drop 4 s))"

definition dec_exponent :: "string \<Rightarrow> int option" where
  "dec_exponent s = (case s of
     [] \<Rightarrow> Some 0
   | c # cs \<Rightarrow>
       (if c = CHR ''e'' then
          (let (neg, ds) = take_sign cs in
           if ds = [] \<or> \<not> list_all is_dec ds then None else Some (if neg then - dec_value 0 ds else dec_value 0 ds))
        else None))"

text \<open>\<open>Decimal(s)\<close>; underscores are ignored wherever they stand.\<close>

definition dec_of_text :: "string \<Rightarrow> decimal_text" where
  "dec_of_text s =
     (let (neg, body) = take_sign (filter (\<lambda>c. c \<noteq> CHR ''_'') (py_strip s));
          low = py_lower body; ip = takeWhile is_dec low; r1 = dropWhile is_dec low;
          (fp, r2) = (case r1 of c # cs \<Rightarrow> if c = CHR ''.'' then (takeWhile is_dec cs, dropWhile is_dec cs) else ([], r1)
                      | [] \<Rightarrow> ([], r1))
      in if low = ''inf'' \<or> low = ''infinity'' \<or> nan_text low then Not_finite
         else if ip = [] \<and> fp = [] then Not_decimal
         else case dec_exponent r2 of
           None \<Rightarrow> Not_decimal
         | Some e \<Rightarrow> (let c = dec_value 0 (ip @ fp) in Finite_decimal (Dec (if neg then - c else c) (e - int (length fp)))))"

text \<open>What a caller may pass as a number: a \<open>Decimal\<close>, or any other value.\<close>

datatype numeric = Num_decimal dec | Num_special | Num_value py_value

datatype input_error = Bad_type | Bad_value

lemma decimal_examples:
  "dec_of_text '' 1_0.50e2 '' = Finite_decimal (Dec 1050 0)"
  "dec_of_text ''-.5'' = Finite_decimal (Dec (- 5) (- 1))"
  "dec_of_text ''sNaN12'' = Not_finite" "dec_of_text ''1e'' = Not_decimal"
  "dec_div (dec_of_int 1) (dec_of_int 3) = Dec 3333333333333333333333333333 (- 28)"
  "dec_div (dec_of_int 20) (dec_of_int 3) = Dec 6666666666666666666666666667 (- 27)"
  "dec_div (Dec 2001 (- 2)) (dec_of_int 2) = Dec 10005 (- 3)"
  "dec_div (dec_of_int 10) (dec_of_int 5) = Dec 2 0"
  by code_simp+

end
