(* ===== verification/Decimal_Laws.thy ===== *)
theory Decimal_Laws
  imports Py_Decimal
begin

text \<open>
  What the decimal arithmetic keeps: the size of a rounding error, the integers it leaves
  exact, and the floor of a quotient of integers within the precision.
\<close>

section \<open>Digits and rounding\<close>

lemma digit_count_bounds: "1 \<le> n \<Longrightarrow> 10 ^ (digit_count n - 1) \<le> n \<and> n < 10 ^ digit_count n"
proof (induction n rule: digit_count.induct)
  case (1 n)
  show ?case
  proof (cases "n < 10")
    case False
    define k where "k = digit_count (n div 10)"
    have k: "10 ^ (k - 1) \<le> n div 10" "n div 10 < 10 ^ k" using 1 False by (auto simp: k_def)
    have "k \<ge> 1" unfolding k_def by (subst digit_count.simps) auto
    then have "(10 :: int) ^ k = 10 * 10 ^ (k - 1)" by (metis Suc_diff_1 less_eq_Suc_le One_nat_def power_Suc)
    moreover have "digit_count n = Suc k" unfolding k_def using False by (subst digit_count.simps) simp
    ultimately show ?thesis using k by auto
  qed (use 1 in \<open>simp add: digit_count.simps[of n]\<close>)
qed

lemma digit_count_pos: "1 \<le> digit_count n"
  by (subst digit_count.simps) auto

lemma digit_count_less: "n < 10 ^ k \<Longrightarrow> 1 \<le> k \<Longrightarrow> digit_count n \<le> k"
proof (cases "1 \<le> n")
  case True
  assume "n < 10 ^ k"
  with digit_count_bounds[OF True] have "(10 :: int) ^ (digit_count n - 1) < 10 ^ k" by linarith
  then have "digit_count n - 1 < k" by (simp add: power_less_imp_less_exp)
  then show ?thesis by simp
next
  case False
  assume "1 \<le> k"
  with False show ?thesis by (simp add: digit_count.simps[of n])
qed

lemma half_even_div_error: "0 < u \<Longrightarrow> 2 * \<bar>half_even_div a u * u - a\<bar> \<le> u"
proof -
  assume u: "0 < u"
  have a: "a = u * (a div u) + a mod u" by simp
  have r: "0 \<le> a mod u" "a mod u < u" using u by simp_all
  have "(a div u + 1) * u - a = u - a mod u" "(a div u) * u - a = - (a mod u)" using a by (simp_all add: algebra_simps)
  with r show ?thesis by (auto simp: half_even_div_def Let_def)
qed

lemma half_even_div_exact: "0 < u \<Longrightarrow> u dvd a \<Longrightarrow> half_even_div a u * u = a"
  by (auto simp: half_even_div_def Let_def)

lemma half_even_div_nonneg: "0 \<le> a \<Longrightarrow> 0 < u \<Longrightarrow> 0 \<le> half_even_div a u"
  by (simp add: half_even_div_def Let_def pos_imp_zdiv_nonneg_iff)

section \<open>Powers of ten\<close>

lemma ten_power_pos: "0 < ten_power e"
  by (simp add: ten_power_def)

lemma ten_power_add: "ten_power (e + int k) = ten_power e * 10 ^ k"
proof (cases "0 \<le> e")
  case True
  then show ?thesis by (simp add: ten_power_def nat_add_distrib power_add)
next
  case neg: False
  show ?thesis
  proof (cases "0 \<le> e + int k")
    case True
    with neg have "k = nat (- e) + nat (e + int k)" by simp
    then have "(10 :: rat) ^ k = 10 ^ nat (- e) * 10 ^ nat (e + int k)" by (metis power_add)
    with True neg show ?thesis by (simp add: ten_power_def)
  next
    case False
    with neg have "nat (- e) = nat (- (e + int k)) + k" by simp
    then have "(10 :: rat) ^ nat (- e) = 10 ^ nat (- (e + int k)) * 10 ^ k" by (metis power_add)
    with False neg show ?thesis by (simp add: ten_power_def)
  qed
qed

lemma ten_power_0 [simp]: "ten_power 0 = 1"
  by (simp add: ten_power_def)

lemma shifted_value: "e \<le> dec_exp d \<Longrightarrow> of_int (shifted_coeff d e) * ten_power e = dec_rat d"
  using ten_power_add[of e "nat (dec_exp d - e)"] by (simp add: shifted_coeff_def dec_rat_def)

lemma dec_rat_int [simp]: "dec_rat (dec_of_int n) = of_int n"
  by (simp add: dec_rat_def dec_of_int_def)

section \<open>Fixing\<close>

lemma dec_fix_small: "digit_count \<bar>dec_coeff d\<bar> \<le> 28 \<Longrightarrow> dec_fix d = d"
  by (simp add: dec_fix_def)

text \<open>A long coefficient is replaced by the rounded one, whatever the carry.\<close>

lemma dec_fix_long:
  assumes "28 < digit_count \<bar>dec_coeff d\<bar>"
  shows "dec_rat (dec_fix d) = of_int (sgn (dec_coeff d) *
      (half_even_div \<bar>dec_coeff d\<bar> (10 ^ (digit_count \<bar>dec_coeff d\<bar> - 28)) * 10 ^ (digit_count \<bar>dec_coeff d\<bar> - 28))) * ten_power (dec_exp d)"
proof -
  define n where "n = digit_count \<bar>dec_coeff d\<bar>"
  define q where "q = half_even_div \<bar>dec_coeff d\<bar> (10 ^ (n - 28))"
  define e where "e = dec_exp d + int (n - 28)"
  have "ten_power (e + 1) = ten_power e * 10" using ten_power_add[of e 1] by simp
  moreover have "dec_fix d = (if q = 10 ^ 28 then Dec (sgn (dec_coeff d) * 10 ^ 27) (e + 1) else Dec (sgn (dec_coeff d) * q) e)"
    using assms unfolding dec_fix_def Let_def e_def q_def n_def by auto
  ultimately have "dec_rat (dec_fix d) = of_int (sgn (dec_coeff d) * q) * ten_power e"
    by (simp add: dec_rat_def)
  also have "ten_power e = ten_power (dec_exp d) * 10 ^ (n - 28)" unfolding e_def by (rule ten_power_add)
  finally show ?thesis by (simp add: n_def q_def)
qed

lemma sgn_abs_diff: "\<bar>sgn c * x - c\<bar> = (if c = 0 then 0 else \<bar>x - \<bar>c\<bar>\<bar>)" for c x :: int
  by (auto simp: sgn_if)

lemma dec_fix_error: "2 * 10 ^ 27 * \<bar>dec_rat (dec_fix d) - dec_rat d\<bar> \<le> \<bar>dec_rat d\<bar>"
proof (cases "digit_count \<bar>dec_coeff d\<bar> \<le> 28")
  case True
  then show ?thesis by (simp add: dec_fix_small)
next
  case False
  define c where "c = dec_coeff d"
  define n where "n = digit_count \<bar>c\<bar>"
  define u :: int where "u = 10 ^ (n - 28)"
  define q where "q = half_even_div \<bar>c\<bar> u * u"
  have n: "28 < n" using False by (simp add: n_def c_def)
  have c: "1 \<le> \<bar>c\<bar>"
  proof (rule ccontr)
    assume "\<not> 1 \<le> \<bar>c\<bar>"
    then have "n = 1" by (simp add: n_def digit_count.simps)
    with n show False by simp
  qed
  have "n - 1 = (n - 28) + 27" using n by simp
  then have "(10 :: int) ^ (n - 1) = u * 10 ^ 27" unfolding u_def by (metis power_add)
  then have lo: "u * 10 ^ 27 \<le> \<bar>c\<bar>" using digit_count_bounds[OF c] by (simp add: n_def)
  have "2 * \<bar>q - \<bar>c\<bar>\<bar> \<le> u" unfolding q_def by (rule half_even_div_error) (simp add: u_def)
  then have "2 * 10 ^ 27 * \<bar>sgn c * q - c\<bar> \<le> \<bar>c\<bar>" using lo unfolding sgn_abs_diff by (auto split: if_splits)
  then have "of_int (2 * 10 ^ 27 * \<bar>sgn c * q - c\<bar>) \<le> (of_int \<bar>c\<bar> :: rat)" by (simp only: of_int_le_iff)
  then have int: "2 * 10 ^ 27 * \<bar>of_int (sgn c * q) - of_int c\<bar> \<le> \<bar>of_int c :: rat\<bar>" by simp
  have "dec_rat (dec_fix d) = of_int (sgn c * q) * ten_power (dec_exp d)"
    using dec_fix_long[of d] False by (simp add: q_def u_def n_def c_def)
  then have "dec_rat (dec_fix d) - dec_rat d = (of_int (sgn c * q) - of_int c) * ten_power (dec_exp d)"
    by (simp add: dec_rat_def c_def algebra_simps)
  moreover have "\<bar>dec_rat d\<bar> = \<bar>of_int c\<bar> * ten_power (dec_exp d)"
    using ten_power_pos[of "dec_exp d"] by (simp add: dec_rat_def c_def abs_mult)
  ultimately show ?thesis
    using mult_right_mono[OF int, of "ten_power (dec_exp d)"] ten_power_pos[of "dec_exp d"]
    by (simp add: abs_mult mult.assoc)
qed

lemma dec_fix_nonneg: "0 \<le> dec_rat d \<Longrightarrow> 0 \<le> dec_rat (dec_fix d)"
  using dec_fix_error[of d] by (cases "dec_rat d = 0") (auto simp: abs_if split: if_splits)

lemma dec_fix_nonpos: "dec_rat d \<le> 0 \<Longrightarrow> dec_rat (dec_fix d) \<le> 0"
  using dec_fix_error[of d] by (cases "dec_rat d = 0") (auto simp: abs_if split: if_splits)

text \<open>Integers of at most 28 digits are exact, however they are represented.\<close>

lemma dec_fix_int:
  assumes "dec_rat d = of_int k" "\<bar>k\<bar> < 10 ^ 28"
  shows "dec_rat (dec_fix d) = of_int k"
proof (cases "digit_count \<bar>dec_coeff d\<bar> \<le> 28")
  case False
  define c where "c = dec_coeff d"
  define n where "n = digit_count \<bar>c\<bar>"
  have n: "28 < n" using False by (simp add: n_def c_def)
  have c: "1 \<le> \<bar>c\<bar>"
  proof (rule ccontr)
    assume "\<not> 1 \<le> \<bar>c\<bar>"
    then have "n = 1" by (simp add: n_def digit_count.simps)
    with n show False by simp
  qed
  have long: "10 ^ (n - 1) \<le> \<bar>c\<bar>" using digit_count_bounds[OF c] by (simp add: n_def)
  have neg: "dec_exp d < 0"
  proof (rule ccontr)
    assume "\<not> dec_exp d < 0"
    then have "k = c * 10 ^ nat (dec_exp d)"
      using assms(1) unfolding dec_rat_def ten_power_def c_def[symmetric] by (simp flip: of_int_power of_int_mult) (metis of_int_eq_iff of_int_mult of_int_power of_int_numeral)
    then have "\<bar>c\<bar> \<le> \<bar>k\<bar>" by (simp add: abs_mult mult_le_cancel_left1)
    moreover have "(10 :: int) ^ 28 \<le> 10 ^ (n - 1)" using n by (intro power_increasing) auto
    ultimately show False using long assms(2) by linarith
  qed
  define z where "z = nat (- dec_exp d)"
  have "of_int c = (of_int (k * 10 ^ z) :: rat)"
    using assms(1) neg by (simp add: dec_rat_def ten_power_def c_def z_def field_simps)
  then have cz: "c = k * 10 ^ z" by (simp only: of_int_eq_iff)
  have "n - 28 \<le> z"
  proof (rule ccontr)
    assume "\<not> n - 28 \<le> z"
    then have "28 + z \<le> n - 1" using n by simp
    then have "(10 :: int) ^ 28 * 10 ^ z \<le> 10 ^ (n - 1)" unfolding power_add[symmetric] by (intro power_increasing) auto
    moreover have "\<bar>c\<bar> < 10 ^ 28 * 10 ^ z" using assms(2) unfolding cz abs_mult by simp
    ultimately show False using long by linarith
  qed
  then have "(10 :: int) ^ (n - 28) dvd \<bar>c\<bar>" unfolding cz by (simp add: dvd_mult le_imp_power_dvd)
  then have "half_even_div \<bar>c\<bar> (10 ^ (n - 28)) * 10 ^ (n - 28) = \<bar>c\<bar>" by (intro half_even_div_exact) auto
  then have "dec_rat (dec_fix d) = of_int (sgn c * \<bar>c\<bar>) * ten_power (dec_exp d)"
    using dec_fix_long[of d] False by (simp add: c_def n_def)
  also have "sgn c * \<bar>c\<bar> = c" by (simp add: sgn_mult_abs)
  finally show ?thesis using assms(1) by (simp add: dec_rat_def c_def)
qed (use assms in \<open>simp add: dec_fix_small\<close>)

section \<open>Operations\<close>

lemma dec_neg_value [simp]: "dec_rat (dec_neg a) = - dec_rat a"
  by (simp add: dec_neg_def dec_rat_def)

lemma dec_add_value: "\<exists>d. dec_add a b = dec_fix d \<and> dec_rat d = dec_rat a + dec_rat b"
proof -
  let ?e = "min (dec_exp a) (dec_exp b)"
  have "dec_rat (Dec (shifted_coeff a ?e + shifted_coeff b ?e) ?e) = dec_rat a + dec_rat b"
    using shifted_value[of ?e a] shifted_value[of ?e b] by (simp add: dec_rat_def[of "Dec _ _"] algebra_simps)
  then show ?thesis unfolding dec_add_def Let_def by blast
qed

lemma dec_add_nonneg: "0 \<le> dec_rat a + dec_rat b \<Longrightarrow> 0 \<le> dec_rat (dec_add a b)"
  using dec_add_value[of a b] dec_fix_nonneg by metis

lemma dec_add_nonpos: "dec_rat a + dec_rat b \<le> 0 \<Longrightarrow> dec_rat (dec_add a b) \<le> 0"
  using dec_add_value[of a b] dec_fix_nonpos by metis

lemma dec_truncate_floor:
  assumes "0 \<le> dec_coeff d"
  shows "dec_truncate d = \<lfloor>dec_rat d\<rfloor>"
proof (cases "0 \<le> dec_exp d")
  case True
  then have "dec_rat d = of_int (dec_truncate d)" by (simp add: dec_truncate_def dec_rat_def ten_power_def)
  then show ?thesis by simp
next
  case False
  have "\<lfloor>dec_rat d\<rfloor> = dec_coeff d div 10 ^ nat (- dec_exp d)"
    using False floor_divide_of_int_eq[of "dec_coeff d" "10 ^ nat (- dec_exp d)", where 'a = rat]
    by (simp add: dec_rat_def ten_power_def)
  with False assms show ?thesis by (cases "dec_coeff d = 0") (simp_all add: dec_truncate_def sgn_if)
qed

lemma strip_zeros_value: "dec_rat (strip_zeros n d) = dec_rat d"
proof (induction n arbitrary: d)
  case (Suc n)
  show ?case
  proof (cases "dec_coeff d mod 10 = 0")
    case True
    then have "dec_coeff d = dec_coeff d div 10 * 10" using div_mult_mod_eq[of "dec_coeff d" 10] by simp
    then have "dec_rat (Dec (dec_coeff d div 10) (dec_exp d + 1)) = dec_rat d"
      using ten_power_add[of "dec_exp d" 1] by (simp add: dec_rat_def)
    with Suc True show ?thesis by simp
  qed simp
qed simp

text \<open>
  A quotient of integers is within \<open>10\<^sup>-\<^sup>2\<^sup>7\<close> of the exact one, relatively, and exact where
  that is an integer within the precision.
\<close>

lemma dec_div_value:
  assumes "1 \<le> N" "N < 10 ^ 26" "1 \<le> t"
  shows "\<exists>d. dec_div (dec_of_int N) (dec_of_int t) = dec_fix d \<and> 10 ^ 28 * \<bar>dec_rat d - of_int N / of_int t\<bar> \<le> of_int N / of_int t \<and>
    (t dvd N \<longrightarrow> dec_rat d = of_int N / of_int t)"
proof -
  define s where "s = nat (int (digit_count t) - int (digit_count N) + 29)"
  have "digit_count N \<le> 26" using assms(2) by (intro digit_count_less) auto
  then have s: "int (digit_count t) - int (digit_count N) + 29 = int s" by (simp add: s_def)
  define n where "n = N * 10 ^ s"
  define q where "q = n div t"
  define c where "c = (if n mod t \<noteq> 0 \<and> q mod 5 = 0 then q + 1 else q)"
  have shape: "dec_div (dec_of_int N) (dec_of_int t) =
      (if n mod t \<noteq> 0 then dec_fix (Dec c (- int s)) else dec_fix (strip_zeros s (Dec c (- int s))))"
    using assms unfolding dec_div_def dec_of_int_def Let_def dec.sel abs_of_pos[of N, OF order.strict_trans2[OF zero_less_one assms(1)]]
      abs_of_pos[of t, OF order.strict_trans2[OF zero_less_one assms(3)]] s
    by (simp add: c_def q_def n_def)
  define y :: rat where "y = of_int n / of_int t"
  have y: "y = of_int N / of_int t * 10 ^ s" by (simp add: y_def n_def)
  have qy: "of_int q \<le> y" "y < of_int q + 1"
    unfolding q_def y_def floor_divide_of_int_eq[symmetric, where 'a = rat] by linarith+
  have near: "\<bar>of_int c - y\<bar> \<le> 1" using qy by (auto simp: c_def)
  have exact: "of_int c = y" if "n mod t = 0"
  proof -
    from that have "n = q * t" unfolding q_def using div_mult_mod_eq[of n t] by simp
    then show ?thesis using that assms(3) by (simp add: c_def y_def)
  qed
  have large: "10 ^ 28 \<le> y"
  proof -
    have "10 ^ (digit_count N - 1) \<le> N" "t < 10 ^ digit_count t" using digit_count_bounds assms by auto
    moreover have "digit_count N - 1 + s = digit_count t + 28" using s digit_count_pos[of N] by linarith
    moreover have "10 ^ (digit_count N - 1) * 10 ^ s \<le> n"
      unfolding n_def using \<open>10 ^ (digit_count N - 1) \<le> N\<close> by (intro mult_right_mono) simp_all
    ultimately have "10 ^ 28 * t \<le> n"
      using power_add[of "10 :: int" "digit_count N - 1" s] power_add[of "10 :: int" "digit_count t" 28] by simp
    then have "of_int (10 ^ 28 * t) \<le> (of_int n :: rat)" by (simp only: of_int_le_iff)
    then show ?thesis unfolding y_def using assms(3) by (simp add: field_simps)
  qed
  have err: "10 ^ 28 * \<bar>of_int c - y\<bar> \<le> y" using order.trans[OF mult_left_mono[OF near, of "10 ^ 28"]] large by simp
  have tp: "ten_power (- int s) * 10 ^ s = 1" using ten_power_add[of "- int s" s] by simp
  have val: "dec_rat (Dec c (- int s)) = of_int c / 10 ^ s" "of_int N / of_int t = y / 10 ^ s"
    using tp by (simp_all add: dec_rat_def y field_simps)
  have bound: "10 ^ 28 * \<bar>dec_rat (Dec c (- int s)) - of_int N / of_int t\<bar> \<le> of_int N / of_int t"
    unfolding val using divide_right_mono[OF err, of "10 ^ s"] by (simp add: diff_divide_distrib[symmetric])
  show ?thesis
  proof (cases "n mod t = 0")
    case True
    then show ?thesis using shape bound exact[OF True] val by (intro exI[of _ "strip_zeros s (Dec c (- int s))"]) (simp add: strip_zeros_value)
  next
    case False
    then have "\<not> t dvd N" by (auto simp: n_def)
    with False show ?thesis using shape bound by (intro exI[of _ "Dec c (- int s)"]) simp
  qed
qed

text \<open>\<open>int\<close> of the quotient is the floor of the exact one.\<close>

lemma dec_div_floor:
  assumes "0 \<le> N" "1 \<le> t" "t < 10 ^ 13" "N < t * 10 ^ 13"
  shows "\<lfloor>dec_rat (dec_div (dec_of_int N) (dec_of_int t))\<rfloor> = N div t \<and> 0 \<le> dec_rat (dec_div (dec_of_int N) (dec_of_int t))"
proof (cases "N = 0")
  case True
  then show ?thesis by (simp add: dec_div_def dec_of_int_def dec_rat_def)
next
  case False
  have N: "1 \<le> N" "N < 10 ^ 26" using False assms by simp_all
  define x :: rat where "x = of_int N / of_int t"
  obtain d where d: "dec_div (dec_of_int N) (dec_of_int t) = dec_fix d" "10 ^ 28 * \<bar>dec_rat d - x\<bar> \<le> x" "t dvd N \<longrightarrow> dec_rat d = x"
    using dec_div_value[OF N assms(2)] unfolding x_def by blast
  define r where "r = dec_rat (dec_fix d)"
  have x0: "0 < x" using N assms(2) by (simp add: x_def)
  have "\<bar>dec_rat d - x\<bar> \<le> 10 ^ 28 * \<bar>dec_rat d - x\<bar>" by simp
  then have "0 \<le> dec_rat d" using d(2) by linarith
  then have r0: "0 \<le> r" unfolding r_def by (rule dec_fix_nonneg)
  have fl: "\<lfloor>x\<rfloor> = N div t" unfolding x_def by (rule floor_divide_of_int_eq)
  have "\<lfloor>r\<rfloor> = N div t"
  proof (cases "t dvd N")
    case True
    then obtain k where k: "N = t * k" by blast
    then have "x = of_int k" "N div t = k" using assms(2) by (simp_all add: x_def)
    moreover have "\<bar>k\<bar> < 10 ^ 28"
    proof -
      have "0 < t * k" using k N(1) by linarith
      then have "0 < k" using assms(2) by (simp add: zero_less_mult_iff)
      moreover have "k \<le> t * k" using \<open>0 < k\<close> assms(2) by (simp add: mult_le_cancel_right1)
      moreover have "(10 :: int) ^ 26 < 10 ^ 28" by simp
      ultimately show ?thesis using N(2) unfolding k abs_of_pos[OF \<open>0 < k\<close>] by (metis order.strict_trans order.strict_trans1)
    qed
    ultimately show ?thesis using d(3) True dec_fix_int[of d k] by (simp add: r_def)
  next
    case no: False
    have close: "10 ^ 27 * \<bar>r - x\<bar> \<le> x"
    proof -
      define K :: rat where "K = 10 ^ 27"
      have "2 * (K * \<bar>r - dec_rat d\<bar>) \<le> \<bar>dec_rat d\<bar>" using dec_fix_error[of d] by (simp add: r_def K_def)
      moreover have "10 * (K * \<bar>dec_rat d - x\<bar>) \<le> x" using d(2) by (simp add: K_def)
      moreover have "\<bar>dec_rat d - x\<bar> \<le> K * \<bar>dec_rat d - x\<bar>" by (simp add: K_def)
      moreover have "K * \<bar>r - x\<bar> \<le> K * \<bar>dec_rat d - x\<bar> + K * \<bar>r - dec_rat d\<bar>"
        unfolding distrib_left[symmetric] by (rule mult_left_mono) (auto simp: K_def)
      ultimately show ?thesis unfolding K_def[symmetric] using x0 by linarith
    qed
    define m where "m = N mod t"
    have m: "1 \<le> m" "m \<le> t - 1" using no assms(2) pos_mod_bound[of t N] pos_mod_sign[of t N] unfolding m_def dvd_eq_mod_eq_0 by linarith+
    have "N = N div t * t + m" by (simp add: m_def)
    then have "(of_int N :: rat) = of_int (N div t) * of_int t + of_int m" by (metis of_int_add of_int_mult)
    then have xm: "x = of_int (N div t) + of_int m / of_int t" using assms(2) by (simp add: x_def field_simps)
    have "(of_int t :: rat) < of_int (10 ^ 13)" using assms(3) by (simp only: of_int_less_iff)
    then have t: "(1 :: rat) \<le> of_int t" "(of_int t :: rat) < 10 ^ 13" using assms(2) by simp_all
    have x13: "x < 10 ^ 13"
    proof -
      have "(of_int N :: rat) < of_int (t * 10 ^ 13)" using assms(4) by (simp only: of_int_less_iff)
      then show ?thesis using t by (simp add: x_def field_simps)
    qed
    have "(1 :: rat) / 10 ^ 13 < 1 / of_int t" using t by (simp add: frac_less2)
    moreover have "\<bar>r - x\<bar> < 1 / 10 ^ 13" using close x13 by (simp add: field_simps)
    ultimately have small: "\<bar>r - x\<bar> < 1 / of_int t" by simp
    have "1 / of_int t \<le> (of_int m / of_int t :: rat)" "of_int m / of_int t \<le> (1 - 1 / of_int t :: rat)"
    proof -
      have "(of_int m :: rat) \<le> of_int (t - 1)" using m(2) by (simp only: of_int_le_iff)
      then have "(1 :: rat) \<le> of_int m" "of_int m \<le> (of_int t - 1 :: rat)" using m(1) by simp_all
      then show "1 / of_int t \<le> (of_int m / of_int t :: rat)" "of_int m / of_int t \<le> (1 - 1 / of_int t :: rat)"
        using t by (simp_all add: field_simps)
    qed
    with small xm show ?thesis by (intro floor_unique) linarith+
  qed
  with r0 d(1) show ?thesis by (simp add: r_def)
qed

end
