(* ===== verification/Netting.thy ===== *)
theory Netting
  imports Decimal_Laws "HOL-Library.Product_Lexorder" "HOL-Library.List_Lexorder" "HOL-Library.Char_ord"
begin

text \<open>
  Model of \<open>skills/multi-order-netting-before-routing/scripts/multi_order_netting_before_routing.py\<close>:
  the engine that crosses opposing internal orders at the mid of a quote, shares the matched
  quantity among them, and sizes one residual order. Messages and audit notes are left out; a
  reading of the clock is a parameter.
\<close>

section \<open>Inputs\<close>

definition to_decimal :: "numeric \<Rightarrow> input_error + dec" where
  "to_decimal v = (case v of
     Num_decimal d \<Rightarrow> Inr d
   | Num_special \<Rightarrow> Inl Bad_value
   | Num_value (V_bool _) \<Rightarrow> Inl Bad_type
   | Num_value (V_int n) \<Rightarrow> Inr (dec_of_int n)
   | Num_value (V_str s) \<Rightarrow> (case dec_of_text s of Finite_decimal d \<Rightarrow> Inr d | _ \<Rightarrow> Inl Bad_value)
   | Num_value (V_float _ t) \<Rightarrow> (case dec_of_text t of Finite_decimal d \<Rightarrow> Inr d | _ \<Rightarrow> Inl Bad_value)
   | Num_value V_nan \<Rightarrow> Inl Bad_value
   | Num_value (V_inf _) \<Rightarrow> Inl Bad_value
   | Num_value _ \<Rightarrow> Inl Bad_type)"

definition positive_decimal :: "numeric \<Rightarrow> input_error + dec" where
  "positive_decimal v = (case to_decimal v of Inl e \<Rightarrow> Inl e | Inr d \<Rightarrow> if dec_rat d \<le> 0 then Inl Bad_value else Inr d)"

definition non_negative_decimal :: "numeric \<Rightarrow> input_error + dec" where
  "non_negative_decimal v = (case to_decimal v of Inl e \<Rightarrow> Inl e | Inr d \<Rightarrow> if dec_rat d < 0 then Inl Bad_value else Inr d)"

definition positive_int :: "py_value \<Rightarrow> input_error + int" where
  "positive_int v = (case v of V_int n \<Rightarrow> if n \<le> 0 then Inl Bad_value else Inr n | _ \<Rightarrow> Inl Bad_type)"

datatype net_side = BUY | SELL

datatype allocation_policy = PRO_RATA | TIME_PRIORITY

record raw_order =
  rw_id :: string
  rw_strategy :: string
  rw_symbol :: string
  rw_side :: py_value
  rw_quantity :: py_value
  rw_limit :: "numeric option"
  rw_owner :: "string option"

record net_order =
  no_id :: string
  no_strategy :: string
  no_symbol :: string
  no_side :: net_side
  no_quantity :: int
  no_limit :: "dec option"
  no_owner :: "string option"

record market_quote =
  mq_symbol :: string
  mq_bid :: numeric
  mq_ask :: numeric
  mq_fee :: numeric
  mq_as_of :: "numeric option"
  mq_retained :: "numeric option"

record net_config =
  nc_policy :: allocation_policy
  nc_max_age :: "rat option"

definition make_net_config :: "string \<Rightarrow> numeric option \<Rightarrow> input_error + net_config" where
  "make_net_config policy age =
     (case (if policy = ''PRO_RATA'' then Some PRO_RATA else if policy = ''TIME_PRIORITY'' then Some TIME_PRIORITY else None) of
        None \<Rightarrow> Inl Bad_value
      | Some p \<Rightarrow>
          (case age of
             None \<Rightarrow> Inr \<lparr>nc_policy = p, nc_max_age = None\<rparr>
           | Some v \<Rightarrow>
               (case to_decimal v of
                  Inl e \<Rightarrow> Inl e
                | Inr d \<Rightarrow> if dec_rat d \<le> 0 then Inl Bad_value else Inr \<lparr>nc_policy = p, nc_max_age = Some (dec_rat d)\<rparr>)))"

section \<open>Validation\<close>

definition read_side :: "py_value \<Rightarrow> net_side option" where
  "read_side v = (case v of
     V_str s \<Rightarrow> (if py_upper (py_strip s) = ''BUY'' then Some BUY else if py_upper (py_strip s) = ''SELL'' then Some SELL else None)
   | _ \<Rightarrow> None)"

definition validate_order :: "string \<Rightarrow> string list \<Rightarrow> raw_order \<Rightarrow> input_error + net_order" where
  "validate_order symbol seen r =
     (if rw_symbol r \<noteq> symbol then Inl Bad_value
      else case read_side (rw_side r) of
        None \<Rightarrow> Inl Bad_value
      | Some side \<Rightarrow>
          (if rw_id r \<in> set seen then Inl Bad_value
           else case positive_int (rw_quantity r) of
             Inl e \<Rightarrow> Inl e
           | Inr quantity \<Rightarrow>
               (case (case rw_limit r of None \<Rightarrow> Inr None | Some v \<Rightarrow> (case positive_decimal v of Inl e \<Rightarrow> Inl e | Inr d \<Rightarrow> Inr (Some d))) of
                  Inl e \<Rightarrow> Inl e
                | Inr limit \<Rightarrow>
                    Inr \<lparr>no_id = rw_id r, no_strategy = rw_strategy r, no_symbol = rw_symbol r, no_side = side,
                      no_quantity = quantity, no_limit = limit, no_owner = rw_owner r\<rparr>)))"

fun validate_from :: "string \<Rightarrow> string list \<Rightarrow> raw_order list \<Rightarrow> input_error + net_order list" where
  "validate_from symbol seen [] = Inr []"
| "validate_from symbol seen (r # rs) =
     (case validate_order symbol seen r of
        Inl e \<Rightarrow> Inl e
      | Inr x \<Rightarrow> (case validate_from symbol (rw_id r # seen) rs of Inl e \<Rightarrow> Inl e | Inr xs \<Rightarrow> Inr (x # xs)))"

definition validate_orders :: "string \<Rightarrow> raw_order list \<Rightarrow> input_error + net_order list" where
  "validate_orders symbol rs = validate_from symbol [] rs"

definition quote_age_seconds :: "market_quote \<Rightarrow> numeric option \<Rightarrow> rat \<Rightarrow> input_error + rat option" where
  "quote_age_seconds Q now clock =
     (case mq_as_of Q of
        None \<Rightarrow> Inr None
      | Some v \<Rightarrow>
          (case to_decimal v of
             Inl e \<Rightarrow> Inl e
           | Inr as_of \<Rightarrow>
               (case (case now of None \<Rightarrow> Inr clock | Some n \<Rightarrow> (case to_decimal n of Inl e \<Rightarrow> Inl e | Inr d \<Rightarrow> Inr (dec_rat d))) of
                  Inl e \<Rightarrow> Inl e
                | Inr reference \<Rightarrow> Inr (Some (max 0 (reference - dec_rat as_of))))))"

section \<open>Partition and allocation\<close>

datatype exclusion = LIMIT_NOT_MARKETABLE | QUOTE_STALE | QUOTE_CROSSED

record excluded_order =
  eo_id :: string
  eo_strategy :: string
  eo_side :: net_side
  eo_quantity :: int
  eo_reason :: exclusion

definition exclude_order :: "exclusion \<Rightarrow> net_order \<Rightarrow> excluded_order" where
  "exclude_order reason x =
     \<lparr>eo_id = no_id x, eo_strategy = no_strategy x, eo_side = no_side x, eo_quantity = no_quantity x, eo_reason = reason\<rparr>"

definition crossable :: "dec \<Rightarrow> net_order \<Rightarrow> bool" where
  "crossable mid x = (case no_limit x of
     None \<Rightarrow> True
   | Some limit \<Rightarrow> if no_side x = BUY then dec_le mid limit else dec_le limit mid)"

definition partition_by_limit :: "net_order list \<Rightarrow> dec \<Rightarrow> net_order list \<times> excluded_order list" where
  "partition_by_limit xs mid =
     (filter (crossable mid) xs, map (exclude_order LIMIT_NOT_MARKETABLE) (filter (\<lambda>x. \<not> crossable mid x) xs))"

type_synonym allocation = "(string, int) py_dict"

definition total_quantity :: "net_order list \<Rightarrow> int" where
  "total_quantity xs = sum_list (map no_quantity xs)"

definition allocated :: "allocation \<Rightarrow> net_order \<Rightarrow> int" where
  "allocated d x = (case py_get d (no_id x) of None \<Rightarrow> 0 | Some n \<Rightarrow> n)"

fun time_priority :: "net_order list \<Rightarrow> int \<Rightarrow> allocation \<Rightarrow> allocation" where
  "time_priority [] remaining d = d"
| "time_priority (x # xs) remaining d =
     (let take_qty = min (no_quantity x) remaining in time_priority xs (remaining - take_qty) (py_set d (no_id x) take_qty))"

definition exact_share :: "net_order list \<Rightarrow> int \<Rightarrow> net_order \<Rightarrow> dec" where
  "exact_share xs matched x =
     dec_div (dec_mul (dec_of_int matched) (dec_of_int (no_quantity x))) (dec_of_int (total_quantity xs))"

definition base_share :: "net_order list \<Rightarrow> int \<Rightarrow> net_order \<Rightarrow> int" where
  "base_share xs matched x = dec_truncate (exact_share xs matched x)"

definition share_remainder :: "net_order list \<Rightarrow> int \<Rightarrow> net_order \<Rightarrow> dec" where
  "share_remainder xs matched x = dec_sub (exact_share xs matched x) (dec_of_int (base_share xs matched x))"

text \<open>\<open>xs[:k]\<close>; a negative bound counts from the end.\<close>

definition py_prefix :: "int \<Rightarrow> 'a list \<Rightarrow> 'a list" where
  "py_prefix k xs = (if k \<ge> 0 then take (nat k) xs else take (length xs - nat (- k)) xs)"

definition give_one :: "allocation \<Rightarrow> string \<Rightarrow> allocation" where
  "give_one d i = (case py_get d i of None \<Rightarrow> d | Some n \<Rightarrow> py_set d i (n + 1))"

definition pro_rata :: "net_order list \<Rightarrow> int \<Rightarrow> allocation" where
  "pro_rata xs matched =
     (let d = foldl (\<lambda>d x. py_set d (no_id x) (base_share xs matched x)) [] xs;
          assigned = sum_list (map (base_share xs matched) xs);
          remainders = map (\<lambda>x. (dec_rat (share_remainder xs matched x), no_id x)) xs;
          ranked = sort_key (\<lambda>p. (- fst p, snd p)) remainders
      in foldl give_one d (map snd (py_prefix (matched - assigned) ranked)))"

definition allocate :: "net_config \<Rightarrow> net_order list \<Rightarrow> int \<Rightarrow> allocation" where
  "allocate C xs matched =
     (if matched \<le> 0 \<or> xs = [] then foldl (\<lambda>d x. py_set d (no_id x) 0) [] xs
      else if nc_policy C = TIME_PRIORITY then time_priority xs matched []
      else pro_rata xs matched)"

section \<open>Fills, ownership, residual\<close>

record internal_fill =
  if_id :: string
  if_strategy :: string
  if_symbol :: string
  if_side :: net_side
  if_quantity :: int
  if_price :: dec
  if_owner :: "string option"

definition build_fills :: "string \<Rightarrow> net_order list \<Rightarrow> allocation \<Rightarrow> dec \<Rightarrow> internal_fill list" where
  "build_fills symbol xs d mid =
     map (\<lambda>x. \<lparr>if_id = no_id x, if_strategy = no_strategy x, if_symbol = symbol, if_side = no_side x,
         if_quantity = allocated d x, if_price = mid, if_owner = no_owner x\<rparr>)
       (filter (\<lambda>x. allocated d x > 0) xs)"

datatype cross_type = NO_CROSS | BOOK_TRANSFER | REPORTABLE_CROSS | UNCLASSIFIED

definition classify_cross :: "net_order list \<Rightarrow> allocation \<Rightarrow> net_order list \<Rightarrow> allocation \<Rightarrow> cross_type" where
  "classify_cross buys db sells ds =
     (let participants = filter (\<lambda>x. allocated db x > 0) buys @ filter (\<lambda>x. allocated ds x > 0) sells;
          owners = remdups (map no_owner participants)
      in if participants = [] then NO_CROSS
         else if None \<in> set owners then UNCLASSIFIED
         else if length owners = 1 then BOOK_TRANSFER else REPORTABLE_CROSS)"

definition residual_contributors :: "net_order list \<Rightarrow> allocation \<Rightarrow> net_order list" where
  "residual_contributors xs d = filter (\<lambda>x. no_quantity x - allocated d x > 0) xs"

definition spans_multiple_owners :: "net_order list \<Rightarrow> allocation \<Rightarrow> bool" where
  "spans_multiple_owners xs d \<longleftrightarrow> length (remdups (map no_owner (residual_contributors xs d))) > 1"

record external_order =
  xo_symbol :: string
  xo_side :: net_side
  xo_quantity :: int
  xo_limit :: "dec option"
  xo_contributors :: "string list"

text \<open>An order without a limit is a \<open>MARKET\<close> order, one with a limit a \<open>LIMIT\<close> order.\<close>

definition tightest :: "net_side \<Rightarrow> dec list \<Rightarrow> dec option" where
  "tightest side ls = (case ls of
     [] \<Rightarrow> None
   | l # ls' \<Rightarrow> Some (foldl (\<lambda>m x. if (if side = BUY then dec_less x m else dec_less m x) then x else m) l ls'))"

definition build_residual_order :: "string \<Rightarrow> net_side \<Rightarrow> int \<Rightarrow> net_order list \<Rightarrow> allocation \<Rightarrow> external_order" where
  "build_residual_order symbol side residual xs d =
     (let contributors = residual_contributors xs d in
      \<lparr>xo_symbol = symbol, xo_side = side, xo_quantity = residual,
       xo_limit = tightest side (List.map_filter no_limit contributors), xo_contributors = map no_id contributors\<rparr>)"

section \<open>The report\<close>

datatype net_warning =
    QUOTE_AGE_UNVERIFIED | QUOTE_LOCKED | SUB_PENNY_MATCH | OWNERSHIP_UNCLASSIFIED | COST_UNMODELLED
  | RESIDUAL_MARKET_ORDER | LIMIT_ORDER_EXCLUDED | BUNCHED_RESIDUAL

datatype net_status = NETTING_SUCCESS | NO_INTERNAL_CROSS | SKIPPED_STALE_QUOTE | SKIPPED_CROSSED_QUOTE

record netting_report =
  nr_symbol :: string
  nr_total_buy :: int
  nr_total_sell :: int
  nr_eligible_buy :: int
  nr_eligible_sell :: int
  nr_matched :: int
  nr_price :: "dec option"
  nr_spread :: "dec option"
  nr_external_quantity :: int
  nr_external :: "external_order option"
  nr_fills :: "internal_fill list"
  nr_excluded :: "excluded_order list"
  nr_cross :: cross_type
  nr_requires_report :: bool
  nr_gross_fee :: dec
  nr_retained :: dec
  nr_net_fee :: dec
  nr_spread_savings :: dec
  nr_total_savings :: dec
  nr_status :: net_status
  nr_warnings :: "net_warning list"

definition compute_savings ::
  "market_quote \<Rightarrow> int \<Rightarrow> dec \<Rightarrow> dec \<Rightarrow> bool \<Rightarrow> net_warning list \<Rightarrow> input_error + (dec \<times> dec \<times> dec \<times> dec) \<times> net_warning list" where
  "compute_savings Q matched fee spread reportable ws =
     (let quantity = dec_of_int matched; gross = dec_mul (dec_mul (dec_of_int 2) quantity) fee; spread_savings = dec_mul quantity spread in
      case mq_retained Q of
        Some v \<Rightarrow>
          (case non_negative_decimal v of
             Inl e \<Rightarrow> Inl e
           | Inr per_share \<Rightarrow>
               (let retained = (if reportable then dec_mul quantity per_share else dec_of_int 0) in
                Inr ((gross, retained, dec_sub gross retained, spread_savings), ws)))
      | None \<Rightarrow>
          Inr ((gross, dec_of_int 0, dec_sub gross (dec_of_int 0), spread_savings),
            if reportable \<and> matched > 0 then ws @ [COST_UNMODELLED] else ws))"

definition side_orders :: "net_side \<Rightarrow> net_order list \<Rightarrow> net_order list" where
  "side_orders s xs = filter (\<lambda>x. no_side x = s) xs"

definition skipped_report :: "string \<Rightarrow> net_order list \<Rightarrow> net_status \<Rightarrow> exclusion \<Rightarrow> net_warning list \<Rightarrow> netting_report" where
  "skipped_report symbol xs status reason ws =
     \<lparr>nr_symbol = symbol, nr_total_buy = total_quantity (side_orders BUY xs), nr_total_sell = total_quantity (side_orders SELL xs),
      nr_eligible_buy = 0, nr_eligible_sell = 0, nr_matched = 0, nr_price = None, nr_spread = None, nr_external_quantity = 0,
      nr_external = None, nr_fills = [], nr_excluded = map (exclude_order reason) xs, nr_cross = NO_CROSS, nr_requires_report = False,
      nr_gross_fee = dec_of_int 0, nr_retained = dec_of_int 0, nr_net_fee = dec_of_int 0, nr_spread_savings = dec_of_int 0,
      nr_total_savings = dec_of_int 0, nr_status = status, nr_warnings = ws\<rparr>"

text \<open>The crossing proper, once the quote is accepted.\<close>

definition cross_orders ::
  "net_config \<Rightarrow> market_quote \<Rightarrow> dec \<Rightarrow> dec \<Rightarrow> dec \<Rightarrow> net_order list \<Rightarrow> net_warning list \<Rightarrow> input_error + netting_report" where
  "cross_orders C Q bid ask fee xs ws0 =
     (let mid = dec_div (dec_add bid ask) (dec_of_int 2);
          spread = dec_sub ask bid;
          ws1 = ws0 @ (if dec_rat spread = 0 then [QUOTE_LOCKED] else []) @ (if dec_exp mid < - 2 then [SUB_PENNY_MATCH] else []);
          buys = side_orders BUY xs; sells = side_orders SELL xs;
          (ebuys, xbuys) = partition_by_limit buys mid;
          (esells, xsells) = partition_by_limit sells mid;
          excluded = xbuys @ xsells;
          ws2 = ws1 @ (if excluded \<noteq> [] then [LIMIT_ORDER_EXCLUDED] else []);
          qb = total_quantity ebuys; qs = total_quantity esells; matched = min qb qs;
          db = allocate C ebuys matched; ds = allocate C esells matched;
          fills = build_fills (mq_symbol Q) ebuys db mid @ build_fills (mq_symbol Q) esells ds mid;
          cross = classify_cross ebuys db esells ds;
          ws3 = ws2 @ (if cross = UNCLASSIFIED then [OWNERSHIP_UNCLASSIFIED] else []);
          reportable = (cross = REPORTABLE_CROSS \<or> cross = UNCLASSIFIED);
          residual =
            (if qb - matched > 0 then Some (BUY, qb - matched, ebuys, db)
             else if qs - matched > 0 then Some (SELL, qs - matched, esells, ds) else None);
          external = (case residual of None \<Rightarrow> None | Some (s, q, src, d) \<Rightarrow> Some (build_residual_order (mq_symbol Q) s q src d));
          ws4 = ws3 @ (case (external, residual) of
             (Some x, Some (s, q, src, d)) \<Rightarrow>
               (if xo_limit x = None then [RESIDUAL_MARKET_ORDER] else []) @ (if spans_multiple_owners src d then [BUNCHED_RESIDUAL] else [])
           | _ \<Rightarrow> [])
      in case compute_savings Q matched fee spread reportable ws4 of
           Inl e \<Rightarrow> Inl e
         | Inr ((gross, retained, net_fee, spread_savings), ws5) \<Rightarrow>
             Inr \<lparr>nr_symbol = mq_symbol Q, nr_total_buy = total_quantity buys, nr_total_sell = total_quantity sells,
               nr_eligible_buy = qb, nr_eligible_sell = qs, nr_matched = matched, nr_price = Some mid, nr_spread = Some spread,
               nr_external_quantity = (case residual of None \<Rightarrow> 0 | Some (s, q, src, d) \<Rightarrow> q), nr_external = external,
               nr_fills = fills, nr_excluded = excluded, nr_cross = cross, nr_requires_report = reportable,
               nr_gross_fee = gross, nr_retained = retained, nr_net_fee = net_fee, nr_spread_savings = spread_savings,
               nr_total_savings = dec_add net_fee spread_savings,
               nr_status = (if matched > 0 then NETTING_SUCCESS else NO_INTERNAL_CROSS), nr_warnings = ws5\<rparr>)"

definition net_and_route_orders ::
  "net_config \<Rightarrow> market_quote \<Rightarrow> raw_order list \<Rightarrow> numeric option \<Rightarrow> rat \<Rightarrow> input_error + netting_report" where
  "net_and_route_orders C Q rs now clock =
     (if rs = [] then Inl Bad_value
      else case positive_decimal (mq_bid Q) of Inl e \<Rightarrow> Inl e | Inr bid \<Rightarrow>
       (case positive_decimal (mq_ask Q) of Inl e \<Rightarrow> Inl e | Inr ask \<Rightarrow>
         (case non_negative_decimal (mq_fee Q) of Inl e \<Rightarrow> Inl e | Inr fee \<Rightarrow>
           (case validate_orders (mq_symbol Q) rs of Inl e \<Rightarrow> Inl e | Inr xs \<Rightarrow>
             (case quote_age_seconds Q now clock of Inl e \<Rightarrow> Inl e | Inr age \<Rightarrow>
               (let ws = (if age = None then [QUOTE_AGE_UNVERIFIED] else []) in
                if (case (age, nc_max_age C) of (Some a, Some m) \<Rightarrow> a > m | _ \<Rightarrow> False)
                then Inr (skipped_report (mq_symbol Q) xs SKIPPED_STALE_QUOTE QUOTE_STALE ws)
                else if dec_less ask bid
                then Inr (skipped_report (mq_symbol Q) xs SKIPPED_CROSSED_QUOTE QUOTE_CROSSED ws)
                else cross_orders C Q bid ask fee xs ws))))))"

end
