(* ===== verification/Netting_Shares.thy ===== *)
theory Netting_Shares
  imports Netting "HOL-Library.Multiset"
begin

text \<open>
  The allocation of a matched quantity: both policies hand out exactly that quantity and never
  more to an order than it asked for. Pro rata rests on the quotients of \<open>decimal\<close> having the
  right floor, which holds for quantities below ten trillion.
\<close>

section \<open>Dictionaries written in a loop\<close>

lemma foldl_put_other: "i \<notin> set (map k xs) \<Longrightarrow> py_get (foldl (\<lambda>d x. py_set d (k x) (f x)) d xs) i = py_get d i"
  by (induction xs arbitrary: d) (auto simp: py_get_set)

lemma foldl_put: "distinct (map k xs) \<Longrightarrow> x \<in> set xs \<Longrightarrow> py_get (foldl (\<lambda>d x. py_set d (k x) (f x)) d xs) (k x) = Some (f x)"
proof (induction xs arbitrary: d)
  case (Cons y xs)
  show ?case
  proof (cases "x = y")
    case True
    with Cons.prems have "k x \<notin> set (map k xs)" by simp
    with True show ?thesis using foldl_put_other[of "k x" k xs f "py_set d (k y) (f y)"] by (simp add: py_get_set)
  next
    case False
    with Cons show ?thesis by simp
  qed
qed simp

lemma foldl_give_one:
  "distinct is \<Longrightarrow> py_get (foldl give_one d is) i = map_option (\<lambda>n. n + of_bool (i \<in> set is)) (py_get d i)"
proof (induction "is" arbitrary: d)
  case (Cons j js)
  have "py_get (give_one d j) i = map_option (\<lambda>n. n + of_bool (i = j)) (py_get d i)"
    by (cases "py_get d i"; cases "py_get d j") (auto simp: give_one_def py_get_set)
  with Cons show ?case by (auto simp: option.map_comp comp_def)
qed (simp add: option.map_id[unfolded id_def])

section \<open>Pro rata\<close>

text \<open>Orders as validation leaves them: distinct ids, positive quantities.\<close>

definition orders_ok :: "net_order list \<Rightarrow> bool" where
  "orders_ok xs \<longleftrightarrow> distinct (map no_id xs) \<and> list_all (\<lambda>x. 1 \<le> no_quantity x) xs"

lemma orders_ok_filter: "orders_ok xs \<Longrightarrow> orders_ok (filter P xs)"
  by (auto simp: orders_ok_def list_all_iff distinct_map intro: inj_on_subset)

lemma total_nonneg: "orders_ok xs \<Longrightarrow> 0 \<le> total_quantity xs"
  by (induction xs) (auto simp: orders_ok_def total_quantity_def)

lemma quantity_le_total: "orders_ok xs \<Longrightarrow> x \<in> set xs \<Longrightarrow> 1 \<le> no_quantity x \<and> no_quantity x \<le> total_quantity xs"
proof (induction xs)
  case (Cons y ys)
  have "0 \<le> total_quantity ys" using Cons.prems(1) by (intro total_nonneg) (simp add: orders_ok_def)
  with Cons show ?case by (auto simp: orders_ok_def total_quantity_def)
qed simp

lemma base_share_floor:
  assumes "orders_ok xs" "x \<in> set xs" "0 \<le> matched" "matched \<le> total_quantity xs" "total_quantity xs < 10 ^ 13"
  shows "base_share xs matched x = matched * no_quantity x div total_quantity xs"
proof -
  let ?q = "no_quantity x" and ?t = "total_quantity xs"
  have q: "1 \<le> ?q" "?q \<le> ?t" using quantity_le_total[OF assms(1,2)] by simp_all
  have small: "matched * ?q < ?t * 10 ^ 13"
  proof -
    have "matched * ?q \<le> ?t * ?q" using assms(4) q by (intro mult_right_mono) auto
    also have "\<dots> < ?t * 10 ^ 13" using q assms(5) by (intro mult_strict_left_mono) linarith+
    finally show ?thesis .
  qed
  moreover have "?t * 10 ^ 13 < 10 ^ 13 * 10 ^ 13" using assms(5) by simp
  ultimately have "matched * ?q < 10 ^ 28" by simp
  then have "digit_count \<bar>matched * ?q\<bar> \<le> 28" using assms(3) q by (intro digit_count_less) auto
  then have "dec_mul (dec_of_int matched) (dec_of_int ?q) = dec_of_int (matched * ?q)"
    by (simp add: dec_mul_def dec_of_int_def dec_fix_small)
  moreover have "0 \<le> matched * ?q" "1 \<le> ?t" using assms(3) q by auto
  note floor = dec_div_floor[OF this assms(5) small]
  moreover have "0 \<le> dec_coeff (dec_div (dec_of_int (matched * ?q)) (dec_of_int ?t))"
    using conjunct2[OF floor] ten_power_pos[of "dec_exp (dec_div (dec_of_int (matched * ?q)) (dec_of_int ?t))"]
    by (simp add: dec_rat_def zero_le_mult_iff)
  ultimately show ?thesis by (simp add: base_share_def exact_share_def dec_truncate_floor)
qed

text \<open>What the floors leave over is less than one unit per order.\<close>

lemma leftover_bounds:
  assumes "list_all (\<lambda>x. 0 \<le> f x) xs" "t = sum_list (map f xs)" "0 < t"
  shows "0 \<le> m - (\<Sum>x\<leftarrow>xs. m * f x div t) \<and> m - (\<Sum>x\<leftarrow>xs. m * f x div t) \<le> int (length xs)"
proof -
  have sum: "(\<Sum>x\<leftarrow>xs. m * f x div t) * t + (\<Sum>x\<leftarrow>xs. m * f x mod t) = m * (\<Sum>x\<leftarrow>xs. f x)" for m t
    by (induction xs) (simp_all add: algebra_simps)
  have mods: "0 \<le> (\<Sum>x\<leftarrow>xs. m * f x mod t) \<and> (\<Sum>x\<leftarrow>xs. m * f x mod t) \<le> int (length xs) * t"
  proof (induction xs)
    case (Cons x xs)
    have "0 \<le> m * f x mod t" "m * f x mod t < t" using assms(3) by simp_all
    with Cons show ?case by (simp add: algebra_simps)
  qed simp
  have "(m - (\<Sum>x\<leftarrow>xs. m * f x div t)) * t = (\<Sum>x\<leftarrow>xs. m * f x mod t)" using sum[of m t] assms(2) by (simp add: algebra_simps)
  with mods have "0 \<le> (m - (\<Sum>x\<leftarrow>xs. m * f x div t)) * t" "(m - (\<Sum>x\<leftarrow>xs. m * f x div t)) * t \<le> int (length xs) * t" by simp_all
  with assms(3) show ?thesis by (simp add: zero_le_mult_iff)
qed

lemma count_chosen: "distinct is \<Longrightarrow> distinct js \<Longrightarrow> set js \<subseteq> set is \<Longrightarrow> (\<Sum>i\<leftarrow>is. of_bool (i \<in> set js)) = int (length js)"
  by (simp add: sum_list_distinct_conv_sum_set distinct_card Int_absorb1 flip: sum.inter_restrict)

lemma pro_rata_shares:
  assumes "orders_ok xs" "0 < matched" "matched \<le> total_quantity xs" "total_quantity xs < 10 ^ 13"
  shows "\<exists>js. distinct js \<and> set js \<subseteq> set (map no_id xs) \<and>
    int (length js) = matched - (\<Sum>x\<leftarrow>xs. matched * no_quantity x div total_quantity xs) \<and>
    (\<forall>x\<in>set xs. allocated (pro_rata xs matched) x = matched * no_quantity x div total_quantity xs + of_bool (no_id x \<in> set js))"
proof -
  let ?t = "total_quantity xs"
  have t: "0 < ?t" using assms(2,3) by linarith
  have bases: "map (base_share xs matched) xs = map (\<lambda>x. matched * no_quantity x div ?t) xs"
    using base_share_floor[OF assms(1) _ _ assms(3,4)] assms(2) by auto
  define ranked where "ranked = sort_key (\<lambda>p. (- fst p, snd p)) (map (\<lambda>x. (dec_rat (share_remainder xs matched x), no_id x)) xs)"
  define k where "k = matched - (\<Sum>x\<leftarrow>xs. matched * no_quantity x div ?t)"
  define js where "js = map snd (py_prefix k ranked)"
  have k: "0 \<le> k" "k \<le> int (length xs)"
    using leftover_bounds[of no_quantity xs ?t matched] assms(1) t
    by (auto simp: k_def total_quantity_def orders_ok_def list_all_iff dest: order.trans[OF zero_le_one])
  have prefix: "js = take (nat k) (map snd ranked)" using k(1) by (simp add: js_def py_prefix_def take_map)
  have ids0: "mset (map snd ranked) = mset (map no_id xs)" by (simp add: ranked_def multiset.map_comp comp_def)
  have ids: "distinct (map snd ranked)" "set (map snd ranked) = set (map no_id xs)"
    using assms(1) mset_eq_imp_distinct_iff[OF ids0] mset_eq_setD[OF ids0] by (simp_all add: orders_ok_def)
  have "distinct js" "set js \<subseteq> set (map no_id xs)"
    unfolding prefix using ids set_take_subset[of "nat k" "map snd ranked"] by (auto intro: distinct_take)
  moreover have "int (length js) = k" using k by (simp add: prefix ranked_def)
  moreover have "allocated (pro_rata xs matched) x = matched * no_quantity x div ?t + of_bool (no_id x \<in> set js)" if x: "x \<in> set xs" for x
  proof -
    have pr: "pro_rata xs matched = foldl give_one (foldl (\<lambda>d x. py_set d (no_id x) (base_share xs matched x)) [] xs) js"
      unfolding pro_rata_def Let_def js_def k_def ranked_def bases ..
    have "base_share xs matched x = matched * no_quantity x div ?t"
      by (rule base_share_floor[OF assms(1) x _ assms(3,4)]) (use assms(2) in simp)
    moreover have "py_get (foldl (\<lambda>d x. py_set d (no_id x) (base_share xs matched x)) [] xs) (no_id x) = Some (base_share xs matched x)"
      using assms(1) x by (intro foldl_put) (auto simp: orders_ok_def)
    ultimately show ?thesis using foldl_give_one[OF \<open>distinct js\<close>] by (simp add: allocated_def pr)
  qed
  ultimately show ?thesis unfolding k_def by blast
qed

lemma pro_rata_ok:
  assumes "orders_ok xs" "0 < matched" "matched \<le> total_quantity xs" "total_quantity xs < 10 ^ 13"
  shows "(\<Sum>x\<leftarrow>xs. allocated (pro_rata xs matched) x) = matched \<and>
    (\<forall>x\<in>set xs. 0 \<le> allocated (pro_rata xs matched) x \<and> allocated (pro_rata xs matched) x \<le> no_quantity x)"
proof -
  let ?t = "total_quantity xs"
  obtain js where js: "distinct js" "set js \<subseteq> set (map no_id xs)"
    and len: "int (length js) = matched - (\<Sum>x\<leftarrow>xs. matched * no_quantity x div ?t)"
    and share: "\<And>x. x \<in> set xs \<Longrightarrow> allocated (pro_rata xs matched) x = matched * no_quantity x div ?t + of_bool (no_id x \<in> set js)"
    using pro_rata_shares[OF assms] by blast
  have t: "0 < ?t" using assms(2,3) by linarith
  have "(\<Sum>x\<leftarrow>xs. allocated (pro_rata xs matched) x) = (\<Sum>x\<leftarrow>xs. matched * no_quantity x div ?t + of_bool (no_id x \<in> set js))"
    using share by (intro arg_cong[of _ _ sum_list]) auto
  also have "\<dots> = (\<Sum>x\<leftarrow>xs. matched * no_quantity x div ?t) + (\<Sum>i\<leftarrow>map no_id xs. of_bool (i \<in> set js))"
    by (simp add: sum_list_addf comp_def)
  also have "(\<Sum>i\<leftarrow>map no_id xs. of_bool (i \<in> set js)) = int (length js)"
    using assms(1) by (intro count_chosen js) (simp add: orders_ok_def)
  finally have sum: "(\<Sum>x\<leftarrow>xs. allocated (pro_rata xs matched) x) = matched" using len by simp
  have "0 \<le> allocated (pro_rata xs matched) x \<and> allocated (pro_rata xs matched) x \<le> no_quantity x" if x: "x \<in> set xs" for x
  proof (cases "matched = ?t")
    case True
    then have exact: "matched * no_quantity y div ?t = no_quantity y" for y using t by simp
    have "(\<Sum>x\<leftarrow>xs. matched * no_quantity x div ?t) = matched" unfolding exact using True by (simp add: total_quantity_def)
    then have "js = []" using len by simp
    then have "allocated (pro_rata xs matched) x = no_quantity x" unfolding share[OF x] exact by simp
    with quantity_le_total[OF assms(1) x] show ?thesis by simp
  next
    case False
    have q: "1 \<le> no_quantity x" using quantity_le_total[OF assms(1) x] by simp
    have "matched * no_quantity x < no_quantity x * ?t" using False assms(3) q by simp
    moreover have "matched * no_quantity x div ?t * ?t \<le> matched * no_quantity x"
      using t div_mult_mod_eq[of "matched * no_quantity x" ?t] pos_mod_sign[OF t, of "matched * no_quantity x"] by linarith
    ultimately have "matched * no_quantity x div ?t * ?t < no_quantity x * ?t" by linarith
    then have "matched * no_quantity x div ?t < no_quantity x" using t by (simp add: mult_less_cancel_right)
    moreover have "0 \<le> matched * no_quantity x div ?t" using assms(2) q t by (simp add: pos_imp_zdiv_nonneg_iff)
    ultimately show ?thesis using share[OF x] by (simp add: of_bool_def)
  qed
  with sum show ?thesis by blast
qed

section \<open>Time priority\<close>

lemma time_priority_other: "i \<notin> set (map no_id xs) \<Longrightarrow> py_get (time_priority xs m d) i = py_get d i"
  by (induction xs arbitrary: m d) (auto simp: Let_def py_get_set)

lemma time_priority_ok:
  "orders_ok xs \<Longrightarrow> 0 \<le> m \<Longrightarrow> m \<le> total_quantity xs \<Longrightarrow>
    (\<Sum>x\<leftarrow>xs. allocated (time_priority xs m d) x) = m \<and>
    (\<forall>x\<in>set xs. 0 \<le> allocated (time_priority xs m d) x \<and> allocated (time_priority xs m d) x \<le> no_quantity x)"
proof (induction xs arbitrary: m d)
  case (Cons x xs)
  let ?q = "min (no_quantity x) m" and ?d = "py_set d (no_id x) (min (no_quantity x) m)"
  have ok: "orders_ok xs" "no_id x \<notin> set (map no_id xs)" "1 \<le> no_quantity x" using Cons.prems(1) by (auto simp: orders_ok_def)
  have "0 \<le> total_quantity xs" by (rule total_nonneg[OF ok(1)])
  then have "m - ?q \<le> total_quantity xs" "0 \<le> m - ?q" using Cons.prems(3) by (auto simp: total_quantity_def)
  note IH = Cons.IH[OF ok(1) this(2,1), of ?d]
  have here: "allocated (time_priority xs (m - ?q) ?d) x = ?q"
    using time_priority_other[OF ok(2)] by (simp add: allocated_def py_get_set)
  have "0 \<le> ?q" "?q \<le> no_quantity x" using Cons.prems(2) ok(3) by auto
  with IH here show ?case by (simp add: Let_def)
qed (simp add: total_quantity_def)

section \<open>Both\<close>

lemma allocate_ok:
  assumes "orders_ok xs" "0 \<le> matched" "matched \<le> total_quantity xs" "total_quantity xs < 10 ^ 13"
  shows "(\<Sum>x\<leftarrow>xs. allocated (allocate C xs matched) x) = matched"
    and "\<And>x. x \<in> set xs \<Longrightarrow> 0 \<le> allocated (allocate C xs matched) x \<and> allocated (allocate C xs matched) x \<le> no_quantity x"
proof -
  have zero: "allocated (foldl (\<lambda>d x. py_set d (no_id x) 0) [] xs) x = 0" if "x \<in> set xs" for x
    using foldl_put[of no_id xs x "\<lambda>_. 0 :: int" "[]"] assms(1) that by (simp add: allocated_def orders_ok_def)
  have "(\<Sum>x\<leftarrow>xs. allocated (allocate C xs matched) x) = matched \<and>
      (\<forall>x\<in>set xs. 0 \<le> allocated (allocate C xs matched) x \<and> allocated (allocate C xs matched) x \<le> no_quantity x)"
  proof (cases "matched \<le> 0 \<or> xs = []")
    case True
    then have "matched = 0" "allocate C xs matched = foldl (\<lambda>d x. py_set d (no_id x) 0) [] xs"
      using assms(2,3) by (auto simp: total_quantity_def allocate_def)
    moreover have "sum_list (map (allocated (foldl (\<lambda>d x. py_set d (no_id x) 0) [] xs)) xs) = sum_list (map (\<lambda>_. 0) xs)"
      using zero by (intro arg_cong[of _ _ sum_list] map_cong) auto
    moreover have "0 \<le> no_quantity x" if "x \<in> set xs" for x using quantity_le_total[OF assms(1) that] by simp
    ultimately show ?thesis using zero by simp
  next
    case False
    then show ?thesis
      using pro_rata_ok[OF assms(1) _ assms(3,4)] time_priority_ok[OF assms(1-3)] by (auto simp: allocate_def)
  qed
  then show "(\<Sum>x\<leftarrow>xs. allocated (allocate C xs matched) x) = matched"
    and "\<And>x. x \<in> set xs \<Longrightarrow> 0 \<le> allocated (allocate C xs matched) x \<and> allocated (allocate C xs matched) x \<le> no_quantity x" by auto
qed

end
