(* ===== verification/Netting_Properties.thy ===== *)
theory Netting_Properties
  imports Netting_Shares
begin

text \<open>
  Properties of a netting report: where every share went, the limits it honours, when the
  cross has to be reported, and how close an allocation is to the exact share.
\<close>

section \<open>Accepted batches\<close>

lemma validate_orderD:
  assumes "validate_order symbol seen r = Inr x"
  shows "no_id x = rw_id r" "rw_id r \<notin> set seen" "1 \<le> no_quantity x"
  using assms by (auto simp: validate_order_def positive_int_def split: if_splits option.splits sum.splits py_value.splits)

lemma validate_from_ok:
  "validate_from symbol seen rs = Inr xs \<Longrightarrow>
    map no_id xs = map rw_id rs \<and> orders_ok xs \<and> set (map no_id xs) \<inter> set seen = {}"
proof (induction rs arbitrary: seen xs)
  case (Cons r rs)
  obtain x xs' where x: "validate_order symbol seen r = Inr x" "validate_from symbol (rw_id r # seen) rs = Inr xs'" "xs = x # xs'"
    using Cons.prems by (auto split: sum.splits)
  note IH = Cons.IH[OF x(2)]
  then have "no_id ` set xs' = rw_id ` set rs" by (metis list.set_map)
  with IH validate_orderD[OF x(1)] x(3) show ?case by (auto simp: orders_ok_def)
qed (simp add: orders_ok_def)

lemma validated: "validate_orders symbol rs = Inr xs \<Longrightarrow> map no_id xs = map rw_id rs \<and> orders_ok xs"
  using validate_from_ok by (simp add: validate_orders_def)

text \<open>The orders of a side that may cross at a price.\<close>

definition eligible_orders :: "net_side \<Rightarrow> dec \<Rightarrow> net_order list \<Rightarrow> net_order list" where
  "eligible_orders s mid xs = filter (crossable mid) (side_orders s xs)"

lemma eligible_ok: "orders_ok xs \<Longrightarrow> orders_ok (eligible_orders s mid xs)"
  by (simp add: eligible_orders_def side_orders_def orders_ok_filter)

lemma eligible_side: "x \<in> set (eligible_orders s mid xs) \<Longrightarrow> x \<in> set xs \<and> no_side x = s \<and> crossable mid x"
  by (simp add: eligible_orders_def side_orders_def)

text \<open>What a report says once orders were crossed.\<close>

definition crossed_report :: "net_config \<Rightarrow> string \<Rightarrow> net_order list \<Rightarrow> dec \<Rightarrow> netting_report \<Rightarrow> bool" where
  "crossed_report C symbol xs mid r \<longleftrightarrow>
     (let eb = eligible_orders BUY mid xs; es = eligible_orders SELL mid xs; m = min (total_quantity eb) (total_quantity es);
          db = allocate C eb m; ds = allocate C es m in
      nr_total_buy r = total_quantity (side_orders BUY xs) \<and> nr_total_sell r = total_quantity (side_orders SELL xs) \<and>
      nr_matched r = m \<and> nr_fills r = build_fills symbol eb db mid @ build_fills symbol es ds mid \<and>
      nr_excluded r = map (exclude_order LIMIT_NOT_MARKETABLE) (filter (\<lambda>x. \<not> crossable mid x) (side_orders BUY xs) @
        filter (\<lambda>x. \<not> crossable mid x) (side_orders SELL xs)) \<and>
      nr_cross r = classify_cross eb db es ds \<and>
      nr_requires_report r = (nr_cross r \<in> {REPORTABLE_CROSS, UNCLASSIFIED}) \<and>
      nr_external r =
        (if total_quantity eb - m > 0 then Some (build_residual_order symbol BUY (total_quantity eb - m) eb db)
         else if total_quantity es - m > 0 then Some (build_residual_order symbol SELL (total_quantity es - m) es ds) else None))"

lemma cross_orders_report:
  assumes "cross_orders C Q bid ask fee xs ws = Inr r"
  shows "crossed_report C (mq_symbol Q) xs (dec_div (dec_add bid ask) (dec_of_int 2)) r"
proof -
  define mid where "mid = dec_div (dec_add bid ask) (dec_of_int 2)"
  define eb where "eb = eligible_orders BUY mid xs"
  define es where "es = eligible_orders SELL mid xs"
  define m where "m = min (total_quantity eb) (total_quantity es)"
  define db where "db = allocate C eb m"
  define ds where "ds = allocate C es m"
  note defs = mid_def[symmetric] eb_def[unfolded eligible_orders_def, symmetric] es_def[unfolded eligible_orders_def, symmetric]
    m_def[symmetric] db_def[symmetric] ds_def[symmetric]
  note run = assms[unfolded cross_orders_def Let_def partition_by_limit_def prod.case, unfolded defs]
  show ?thesis
    using run unfolding crossed_report_def Let_def mid_def[symmetric] eb_def[symmetric] es_def[symmetric] m_def[symmetric] db_def[symmetric] ds_def[symmetric]
    by (auto split: sum.split_asm)
qed

text \<open>A report hands every order back, or crosses.\<close>

lemma report_cases:
  assumes "net_and_route_orders C Q rs now clock = Inr r"
  obtains xs where "validate_orders (mq_symbol Q) rs = Inr xs" "orders_ok xs"
    and "(\<exists>status reason ws. r = skipped_report (mq_symbol Q) xs status reason ws) \<or> (\<exists>mid. crossed_report C (mq_symbol Q) xs mid r)"
proof -
  obtain xs where xs: "validate_orders (mq_symbol Q) rs = Inr xs"
    using assms unfolding net_and_route_orders_def Let_def
    by (cases "validate_orders (mq_symbol Q) rs") (auto split: if_splits sum.splits)
  have "(\<exists>status reason ws. r = skipped_report (mq_symbol Q) xs status reason ws) \<or>
      (\<exists>bid ask fee ws. cross_orders C Q bid ask fee xs ws = Inr r)"
    using assms xs unfolding net_and_route_orders_def Let_def by (auto split: if_splits sum.splits)
  with cross_orders_report validated[OF xs] that[OF xs] show ?thesis by blast
qed

section \<open>Where every share went\<close>

definition side_total :: "net_side \<Rightarrow> netting_report \<Rightarrow> int" where
  "side_total s r = (case s of BUY \<Rightarrow> nr_total_buy r | SELL \<Rightarrow> nr_total_sell r)"

definition side_filled :: "net_side \<Rightarrow> netting_report \<Rightarrow> int" where
  "side_filled s r = (\<Sum>f\<leftarrow>filter (\<lambda>f. if_side f = s) (nr_fills r). if_quantity f)"

definition side_excluded :: "net_side \<Rightarrow> netting_report \<Rightarrow> int" where
  "side_excluded s r = (\<Sum>e\<leftarrow>filter (\<lambda>e. eo_side e = s) (nr_excluded r). eo_quantity e)"

definition side_routed :: "net_side \<Rightarrow> netting_report \<Rightarrow> int" where
  "side_routed s r = (case nr_external r of Some x \<Rightarrow> if xo_side x = s then xo_quantity x else 0 | None \<Rightarrow> 0)"

lemma total_filter: "total_quantity (filter P xs) + total_quantity (filter (\<lambda>x. \<not> P x) xs) = total_quantity xs"
  by (induction xs) (auto simp: total_quantity_def)

lemma fills_total:
  assumes "\<And>x. x \<in> set xs \<Longrightarrow> 0 \<le> allocated d x \<and> no_side x = s"
  shows "(\<Sum>f\<leftarrow>filter (\<lambda>f. if_side f = s') (build_fills symbol xs d mid). if_quantity f) =
    (if s' = s then (\<Sum>x\<leftarrow>xs. allocated d x) else 0)"
  using assms
proof (induction xs)
  case (Cons x xs)
  then have "0 \<le> allocated d x" "no_side x = s" by simp_all
  moreover from this have "allocated d x = 0 \<or> 0 < allocated d x" by linarith
  ultimately show ?case using Cons by (auto simp: build_fills_def)
qed (simp add: build_fills_def)

lemma excluded_total: "(\<Sum>e\<leftarrow>filter (\<lambda>e. eo_side e = s) (map (exclude_order reason) xs). eo_quantity e) = total_quantity (side_orders s xs)"
  by (induction xs) (auto simp: exclude_order_def side_orders_def total_quantity_def)

lemma side_orders_filter: "side_orders s (filter P (side_orders s' xs)) = (if s = s' then filter P (side_orders s' xs) else [])"
  by (induction xs) (auto simp: side_orders_def)

lemma side_orders_append: "side_orders s (xs @ ys) = side_orders s xs @ side_orders s ys"
  by (simp add: side_orders_def)

lemma crossed_side:
  assumes "crossed_report C symbol xs mid r" "orders_ok xs" "nr_total_buy r < 10 ^ 13" "nr_total_sell r < 10 ^ 13"
  shows "side_filled s r = nr_matched r \<and>
    side_excluded s r = total_quantity (filter (\<lambda>x. \<not> crossable mid x) (side_orders s xs)) \<and>
    side_routed s r = total_quantity (eligible_orders s mid xs) - nr_matched r \<and> side_total s r = total_quantity (side_orders s xs)"
proof -
  define E where "E s = eligible_orders s mid xs" for s
  define m where "m = min (total_quantity (E BUY)) (total_quantity (E SELL))"
  define d where "d s = allocate C (E s) m" for s
  have r: "nr_total_buy r = total_quantity (side_orders BUY xs)" "nr_total_sell r = total_quantity (side_orders SELL xs)"
    "nr_matched r = m" "nr_fills r = build_fills symbol (E BUY) (d BUY) mid @ build_fills symbol (E SELL) (d SELL) mid"
    "nr_excluded r = map (exclude_order LIMIT_NOT_MARKETABLE) (filter (\<lambda>x. \<not> crossable mid x) (side_orders BUY xs) @
        filter (\<lambda>x. \<not> crossable mid x) (side_orders SELL xs))"
    "nr_external r =
        (if total_quantity (E BUY) - m > 0 then Some (build_residual_order symbol BUY (total_quantity (E BUY) - m) (E BUY) (d BUY))
         else if total_quantity (E SELL) - m > 0 then Some (build_residual_order symbol SELL (total_quantity (E SELL) - m) (E SELL) (d SELL)) else None)"
    using assms(1) by (simp_all add: crossed_report_def Let_def E_def m_def d_def)
  have E: "orders_ok (E s)" "0 \<le> total_quantity (E s)" for s unfolding E_def using eligible_ok[OF assms(2)] total_nonneg by blast+
  have le: "total_quantity (E s) \<le> total_quantity (side_orders s xs)" for s
    using total_filter[of "crossable mid" "side_orders s xs"] total_nonneg[OF orders_ok_filter, of "side_orders s xs" "\<lambda>x. \<not> crossable mid x"]
      orders_ok_filter[OF assms(2), of "\<lambda>x. no_side x = s"] by (simp add: E_def eligible_orders_def side_orders_def)
  have small: "total_quantity (E s) < 10 ^ 13" for s
    using le[of s] assms(3,4) r(1,2) by (cases s) auto
  have m: "0 \<le> m" "m \<le> total_quantity (E s)" for s using E(2) by (cases s; simp add: m_def)+
  have alloc: "(\<Sum>x\<leftarrow>E t. allocated (d t) x) = m \<and> (\<forall>x\<in>set (E t). 0 \<le> allocated (d t) x)" for t
    unfolding d_def using allocate_ok[OF E(1)[of t] m(1) m(2)[of t] small[of t], where C = C] by auto
  have fills: "(\<Sum>f\<leftarrow>filter (\<lambda>f. if_side f = s) (build_fills symbol (E s') (d s') mid). if_quantity f) = (if s = s' then m else 0)" for s s'
    using fills_total[of "E s'" "d s'" s' s symbol mid] alloc[of s'] eligible_side[of _ s' mid xs] by (auto simp: E_def)
  have "side_filled s r = m" using fills by (cases s) (simp_all add: side_filled_def r)
  moreover have "side_excluded s r = total_quantity (filter (\<lambda>x. \<not> crossable mid x) (side_orders s xs))"
    unfolding side_excluded_def r(5) excluded_total
    by (cases s) (simp_all add: side_orders_append side_orders_filter)
  moreover have "side_routed s r = total_quantity (E s) - m"
    using m(2)[of BUY] m(2)[of SELL] unfolding side_routed_def r(6) by (cases s) (auto simp: build_residual_order_def Let_def m_def)
  ultimately show ?thesis using r by (cases s) (simp_all add: side_total_def E_def)
qed

text \<open>C10. Netting loses and invents nothing: on each side the internal fills come to exactly the matched
  quantity, and the quantity submitted is what was filled, handed back or routed outside.\<close>

theorem netting_conserves_quantity:
  assumes "net_and_route_orders C Q rs now clock = Inr r" "nr_total_buy r < 10 ^ 13" "nr_total_sell r < 10 ^ 13"
  shows "side_filled s r = nr_matched r \<and> side_total s r = side_filled s r + side_excluded s r + side_routed s r"
proof -
  obtain xs where xs: "orders_ok xs"
    "(\<exists>status reason ws. r = skipped_report (mq_symbol Q) xs status reason ws) \<or> (\<exists>mid. crossed_report C (mq_symbol Q) xs mid r)"
    using report_cases[OF assms(1)] by metis
  from xs(2) show ?thesis
  proof (elim disjE exE)
    fix mid
    assume "crossed_report C (mq_symbol Q) xs mid r"
    note side = crossed_side[OF this xs(1) assms(2,3)]
    with side[of s] total_filter[of "crossable mid" "side_orders s xs"] show ?thesis by (simp add: eligible_orders_def)
  next
    fix status reason ws
    assume "r = skipped_report (mq_symbol Q) xs status reason ws"
    then show ?thesis
      by (cases s) (simp_all add: side_filled_def side_total_def side_excluded_def side_routed_def skipped_report_def excluded_total)
  qed
qed

section \<open>Limits\<close>

lemma tightest_best:
  "\<exists>m. tightest side (l # ls) = Some m \<and> (\<forall>x\<in>set (l # ls). if side = BUY then dec_rat m \<le> dec_rat x else dec_rat x \<le> dec_rat m)"
proof -
  let ?step = "\<lambda>m x. if (if side = BUY then dec_less x m else dec_less m x) then x else m"
  have main: "\<forall>x\<in>insert m (set ls). if side = BUY then dec_rat (foldl ?step m ls) \<le> dec_rat x else dec_rat x \<le> dec_rat (foldl ?step m ls)" for m
  proof (induction ls arbitrary: m)
    case (Cons y ys)
    have "foldl ?step m (y # ys) = foldl ?step (?step m y) ys" by simp
    with Cons[of "?step m y"] show ?case by (auto simp: dec_less_def split: if_splits)
  qed simp
  show ?thesis unfolding tightest_def list.case by (rule exI[of _ "foldl ?step l ls"]) (use main[of l] in simp)
qed

lemma residual_limit:
  assumes "x \<in> set (residual_contributors xs d)" "no_limit x = Some l"
  shows "\<exists>b. xo_limit (build_residual_order symbol s q xs d) = Some b \<and> (if s = BUY then dec_rat b \<le> dec_rat l else dec_rat l \<le> dec_rat b)"
proof -
  let ?ls = "List.map_filter no_limit (residual_contributors xs d)"
  have "l \<in> set ?ls" using assms by (force simp: List.map_filter_def)
  then obtain l0 ls where ls: "?ls = l0 # ls" "l \<in> set (l0 # ls)" by (cases ?ls) auto
  with tightest_best[of s l0 ls] show ?thesis by (auto simp: build_residual_order_def Let_def)
qed

text \<open>C18. No order is taken through its limit: every internal fill is at a price its order accepts, and the
  residual order carries a limit at least as strict as that of every order it stands for.\<close>

theorem limits_honoured:
  assumes "net_and_route_orders C Q rs now clock = Inr r" "validate_orders (mq_symbol Q) rs = Inr xs"
  shows "(\<forall>f\<in>set (nr_fills r). \<exists>x\<in>set xs. no_id x = if_id f \<and> no_side x = if_side f \<and>
      (\<forall>l. no_limit x = Some l \<longrightarrow> (if if_side f = BUY then dec_rat (if_price f) \<le> dec_rat l else dec_rat l \<le> dec_rat (if_price f)))) \<and>
    (\<forall>q. nr_external r = Some q \<longrightarrow> (\<forall>x\<in>set xs. no_id x \<in> set (xo_contributors q) \<longrightarrow> no_side x = xo_side q \<and>
      (\<forall>l. no_limit x = Some l \<longrightarrow> (\<exists>b. xo_limit q = Some b \<and> (if xo_side q = BUY then dec_rat b \<le> dec_rat l else dec_rat l \<le> dec_rat b)))))"
proof -
  have ok: "orders_ok xs" and rep: "(\<exists>status reason ws. r = skipped_report (mq_symbol Q) xs status reason ws) \<or>
      (\<exists>mid. crossed_report C (mq_symbol Q) xs mid r)"
    using report_cases[OF assms(1)] assms(2) by auto
  from rep show ?thesis
  proof (elim disjE exE)
    fix status reason ws
    assume "r = skipped_report (mq_symbol Q) xs status reason ws"
    then show ?thesis by (simp add: skipped_report_def)
  next
    fix mid
    assume cr: "crossed_report C (mq_symbol Q) xs mid r"
    have fills: "\<forall>f\<in>set (nr_fills r). \<exists>x\<in>set xs. no_id x = if_id f \<and> no_side x = if_side f \<and> if_price f = mid \<and> crossable mid x"
      using cr eligible_side[of _ _ mid xs] by (fastforce simp: crossed_report_def Let_def build_fills_def)
    have same: "x = y" if "x \<in> set xs" "y \<in> set xs" "no_id x = no_id y" for x y
      using ok that by (auto simp: orders_ok_def distinct_map inj_on_def)
    have ext: "no_side x = xo_side q \<and> (\<forall>l. no_limit x = Some l \<longrightarrow>
        (\<exists>b. xo_limit q = Some b \<and> (if xo_side q = BUY then dec_rat b \<le> dec_rat l else dec_rat l \<le> dec_rat b)))"
      if q: "nr_external r = Some q" and x: "x \<in> set xs" "no_id x \<in> set (xo_contributors q)" for q x
    proof -
      obtain s n d where qs: "q = build_residual_order (mq_symbol Q) s n (eligible_orders s mid xs) d"
        using cr q by (auto simp: crossed_report_def Let_def split: if_splits)
      then obtain y where y: "y \<in> set (residual_contributors (eligible_orders s mid xs) d)" "no_id y = no_id x"
        using x(2) by (auto simp: build_residual_order_def Let_def)
      then have ys: "y \<in> set xs" "no_side y = s" using eligible_side[of y s mid xs] by (auto simp: residual_contributors_def)
      then have "x = y" using same[OF x(1)] y(2) by simp
      then show ?thesis using residual_limit[OF y(1)] ys qs by (auto simp: build_residual_order_def Let_def)
    qed
    show ?thesis using fills ext by (fastforce simp: crossable_def dec_le_def split: option.splits if_splits)
  qed
qed

section \<open>Reporting\<close>

lemma fills_owners: "map if_owner (build_fills symbol xs d mid) = map no_owner (filter (\<lambda>x. allocated d x > 0) xs)"
  by (simp add: build_fills_def comp_def)

text \<open>A cross has to be reported exactly when something was filled and not all fills belong to one known
  beneficial owner.\<close>

theorem reported_unless_one_owner:
  assumes "net_and_route_orders C Q rs now clock = Inr r"
  shows "nr_requires_report r \<longleftrightarrow> nr_fills r \<noteq> [] \<and> (\<nexists>w. \<forall>f\<in>set (nr_fills r). if_owner f = Some w)"
proof -
  obtain xs where "(\<exists>status reason ws. r = skipped_report (mq_symbol Q) xs status reason ws) \<or> (\<exists>mid. crossed_report C (mq_symbol Q) xs mid r)"
    using report_cases[OF assms] by metis
  then show ?thesis
  proof (elim disjE exE)
    fix mid
    assume cr: "crossed_report C (mq_symbol Q) xs mid r"
    define owners where "owners = map if_owner (nr_fills r)"
    obtain eb db es ds where fills: "nr_fills r = build_fills (mq_symbol Q) eb db mid @ build_fills (mq_symbol Q) es ds mid"
      and cross: "nr_cross r = classify_cross eb db es ds" "nr_requires_report r = (nr_cross r \<in> {REPORTABLE_CROSS, UNCLASSIFIED})"
      using cr unfolding crossed_report_def Let_def by blast
    have "owners = map no_owner (filter (\<lambda>x. allocated db x > 0) eb @ filter (\<lambda>x. allocated ds x > 0) es)"
      by (simp add: owners_def fills fills_owners)
    then have "nr_cross r = (if owners = [] then NO_CROSS else if None \<in> set owners then UNCLASSIFIED
        else if length (remdups owners) = 1 then BOOK_TRANSFER else REPORTABLE_CROSS)"
      unfolding cross(1) classify_cross_def Let_def by simp
    with cross(2) have req: "nr_requires_report r \<longleftrightarrow> owners \<noteq> [] \<and> (None \<in> set owners \<or> length (remdups owners) \<noteq> 1)" by simp
    have "length (remdups owners) = 1 \<longleftrightarrow> (\<exists>w. set owners = {w})"
      by (metis One_nat_def card_1_singleton_iff length_remdups_card_conv)
    moreover have "(\<forall>v\<in>set owners. v = w) \<longleftrightarrow> set owners = {w}" if "owners \<noteq> []" for w
      using that by (cases owners) auto
    moreover have "(\<exists>w. set owners = {Some w}) \<longleftrightarrow> None \<notin> set owners \<and> (\<exists>w. set owners = {w})"
    proof
      assume "None \<notin> set owners \<and> (\<exists>w. set owners = {w})"
      then obtain w where "set owners = {w}" "None \<noteq> w" by (elim conjE exE) simp
      then show "\<exists>w. set owners = {Some w}" by (cases w) auto
    qed auto
    ultimately have "nr_requires_report r \<longleftrightarrow> owners \<noteq> [] \<and> (\<nexists>w. \<forall>v\<in>set owners. v = Some w)"
      using req by metis
    then show ?thesis by (simp add: owners_def)
  qed (simp add: skipped_report_def)
qed

section \<open>Shares\<close>

text \<open>C32. Pro rata gives every order the whole part of its exact share or one more, never more than it asked
  for, and the matched quantity in all, on sides of less than \<open>10 ^ 13\<close> shares, whose products fit the
  28 digits of the decimal context.\<close>

theorem pro_rata_within_one:
  assumes "orders_ok xs" "0 < matched" "matched \<le> total_quantity xs" "total_quantity xs < 10 ^ 13" "nc_policy C = PRO_RATA"
  shows "(\<Sum>x\<leftarrow>xs. allocated (allocate C xs matched) x) = matched \<and>
    (\<forall>x\<in>set xs. allocated (allocate C xs matched) x \<le> no_quantity x \<and>
      allocated (allocate C xs matched) x \<in>
        {matched * no_quantity x div total_quantity xs, matched * no_quantity x div total_quantity xs + 1})"
proof -
  have "allocate C xs matched = pro_rata xs matched" using assms(2,3,5) by (auto simp: allocate_def total_quantity_def)
  with pro_rata_shares[OF assms(1-4)] pro_rata_ok[OF assms(1-4)] show ?thesis by (auto simp: of_bool_def)
qed

end
