(* ===== verification/Netting_Witnesses.thy ===== *)
theory Netting_Witnesses
  imports Netting_Properties
begin

text \<open>Instances of the netting properties in a batch of four orders, and the order ties are broken in.\<close>

definition raw :: "string \<Rightarrow> string \<Rightarrow> int \<Rightarrow> numeric option \<Rightarrow> raw_order" where
  "raw i side q limit = \<lparr>rw_id = i, rw_strategy = ''s'', rw_symbol = ''XYZ'', rw_side = V_str side, rw_quantity = V_int q,
     rw_limit = limit, rw_owner = Some ''fund''\<rparr>"

definition demo_batch :: "raw_order list" where
  "demo_batch = [raw ''a'' ''buy'' 100 None, raw ''b'' ''BUY'' 50 (Some (Num_value (V_str ''10.00''))),
     raw ''c'' ''SELL'' 60 None, raw ''d'' '' sell'' 30 (Some (Num_value (V_int 10)))]"

definition demo_quote :: market_quote where
  "demo_quote = \<lparr>mq_symbol = ''XYZ'', mq_bid = Num_value (V_str ''10.00''), mq_ask = Num_decimal (Dec 1002 (- 2)),
     mq_fee = Num_value (V_str ''0.003''), mq_as_of = None, mq_retained = None\<rparr>"

definition demo_net_config :: net_config where
  "demo_net_config = \<lparr>nc_policy = PRO_RATA, nc_max_age = Some 1\<rparr>"

definition net :: "string \<Rightarrow> net_side \<Rightarrow> int \<Rightarrow> dec option \<Rightarrow> net_order" where
  "net i side q limit = \<lparr>no_id = i, no_strategy = ''s'', no_symbol = ''XYZ'', no_side = side, no_quantity = q,
     no_limit = limit, no_owner = Some ''fund''\<rparr>"

definition demo_orders :: "net_order list" where
  "demo_orders = [net ''a'' BUY 100 None, net ''b'' BUY 50 (Some (Dec 1000 (- 2))), net ''c'' SELL 60 None, net ''d'' SELL 30 (Some (Dec 10 0))]"

lemma demo_texts:
  "read_side (V_str ''buy'') = Some BUY" "read_side (V_str ''BUY'') = Some BUY" "read_side (V_str ''SELL'') = Some SELL"
  "read_side (V_str '' sell'') = Some SELL" "dec_of_text ''10.00'' = Finite_decimal (Dec 1000 (- 2))"
  "dec_of_text ''0.003'' = Finite_decimal (Dec 3 (- 3))" "dec_div (dec_add (Dec 1000 (- 2)) (Dec 1002 (- 2))) (dec_of_int 2) = Dec 1001 (- 2)"
  by code_simp+

lemmas decimal_eval = positive_decimal_def non_negative_decimal_def to_decimal_def dec_rat_def ten_power_def dec_of_int_def

lemma demo_validated: "validate_orders (mq_symbol demo_quote) demo_batch = Inr demo_orders"
  by (simp add: validate_orders_def demo_quote_def demo_batch_def raw_def demo_orders_def net_def validate_order_def
      demo_texts positive_int_def decimal_eval)

lemma demo_crossed: "\<exists>r. net_and_route_orders demo_net_config demo_quote demo_batch None 0 = Inr r \<and>
  crossed_report demo_net_config ''XYZ'' demo_orders (Dec 1001 (- 2)) r"
proof -
  have quote: "positive_decimal (mq_bid demo_quote) = Inr (Dec 1000 (- 2))" "positive_decimal (mq_ask demo_quote) = Inr (Dec 1002 (- 2))"
    "non_negative_decimal (mq_fee demo_quote) = Inr (Dec 3 (- 3))" "quote_age_seconds demo_quote None 0 = Inr None"
    by (simp_all add: demo_quote_def decimal_eval demo_texts quote_age_seconds_def)
  have "net_and_route_orders demo_net_config demo_quote demo_batch None 0 =
    cross_orders demo_net_config demo_quote (Dec 1000 (- 2)) (Dec 1002 (- 2)) (Dec 3 (- 3)) demo_orders [QUOTE_AGE_UNVERIFIED]"
    unfolding net_and_route_orders_def quote demo_validated sum.case
    by (simp add: demo_batch_def dec_less_def dec_rat_def ten_power_def)
  moreover have "\<exists>r. cross_orders demo_net_config demo_quote bid ask fee xs ws = Inr r" for bid ask fee xs ws
    unfolding cross_orders_def compute_savings_def Let_def by (simp add: demo_quote_def split: prod.split)
  ultimately obtain r where r: "net_and_route_orders demo_net_config demo_quote demo_batch None 0 = Inr r"
    "cross_orders demo_net_config demo_quote (Dec 1000 (- 2)) (Dec 1002 (- 2)) (Dec 3 (- 3)) demo_orders [QUOTE_AGE_UNVERIFIED] = Inr r" by metis
  with cross_orders_report[OF r(2)] show ?thesis by (simp add: demo_texts demo_quote_def)
qed

lemma demo_eligible:
  "eligible_orders BUY (Dec 1001 (- 2)) demo_orders = [net ''a'' BUY 100 None]"
  "eligible_orders SELL (Dec 1001 (- 2)) demo_orders = [net ''c'' SELL 60 None, net ''d'' SELL 30 (Some (Dec 10 0))]"
  by (simp_all add: eligible_orders_def side_orders_def demo_orders_def net_def crossable_def dec_le_def dec_rat_def ten_power_def)

lemma demo_totals:
  assumes "crossed_report demo_net_config ''XYZ'' demo_orders (Dec 1001 (- 2)) r"
  shows "nr_total_buy r = 150" "nr_total_sell r = 90" "nr_matched r = 90"
  using assms unfolding crossed_report_def Let_def demo_eligible
  by (simp_all add: side_orders_def demo_orders_def net_def total_quantity_def)

lemma netting_conserves_quantity_witness:
  "\<exists>r. net_and_route_orders demo_net_config demo_quote demo_batch None 0 = Inr r \<and>
    side_filled BUY r = 90 \<and> side_filled SELL r = 90 \<and> side_excluded BUY r + side_routed BUY r = 60"
proof -
  obtain r where r: "net_and_route_orders demo_net_config demo_quote demo_batch None 0 = Inr r"
    "crossed_report demo_net_config ''XYZ'' demo_orders (Dec 1001 (- 2)) r" using demo_crossed by blast
  note totals = demo_totals[OF r(2)]
  have "nr_total_buy r < 10 ^ 13" "nr_total_sell r < 10 ^ 13" by (simp_all add: totals)
  note conserved = netting_conserves_quantity[OF r(1) this]
  from conserved[of BUY] conserved[of SELL] totals r(1) show ?thesis by (auto simp: side_total_def)
qed

lemma limits_honoured_witness:
  "\<exists>r x. net_and_route_orders demo_net_config demo_quote demo_batch None 0 = Inr r \<and>
    x \<in> set demo_orders \<and> no_id x = if_id (hd (nr_fills r)) \<and> no_side x = BUY"
proof -
  obtain r where r: "net_and_route_orders demo_net_config demo_quote demo_batch None 0 = Inr r"
    "crossed_report demo_net_config ''XYZ'' demo_orders (Dec 1001 (- 2)) r" using demo_crossed by blast
  note limits = limits_honoured[OF r(1) demo_validated]
  have ok: "orders_ok [net ''a'' BUY 100 None]" by (simp add: orders_ok_def net_def)
  have "allocated (allocate demo_net_config [net ''a'' BUY 100 None] 90) (net ''a'' BUY 100 None) = 90"
    using allocate_ok(1)[OF ok, of 90 demo_net_config] by (simp add: total_quantity_def net_def)
  then have "nr_fills r \<noteq> [] \<and> if_side (hd (nr_fills r)) = BUY"
    using r(2) unfolding crossed_report_def Let_def demo_eligible build_fills_def
    by (simp add: total_quantity_def net_def)
  with limits r(1) show ?thesis by (metis hd_in_set)
qed

lemma reported_unless_one_owner_witness:
  "\<exists>r. net_and_route_orders demo_net_config demo_quote demo_batch None 0 = Inr r \<and> \<not> nr_requires_report r"
proof -
  obtain r where r: "net_and_route_orders demo_net_config demo_quote demo_batch None 0 = Inr r"
    "crossed_report demo_net_config ''XYZ'' demo_orders (Dec 1001 (- 2)) r" using demo_crossed by blast
  have "\<forall>f\<in>set (nr_fills r). if_owner f = Some ''fund''"
    using r(2) unfolding crossed_report_def Let_def demo_eligible by (auto simp: build_fills_def net_def)
  with reported_unless_one_owner[OF r(1)] r(1) show ?thesis by blast
qed

lemma pro_rata_within_one_witness:
  "allocated (allocate demo_net_config [net ''a'' BUY 2 None, net ''b'' BUY 1 None] 2) (net ''a'' BUY 2 None) \<in> {1, 2}"
  using pro_rata_within_one[of "[net ''a'' BUY 2 None, net ''b'' BUY 1 None]" 2 demo_net_config]
  by (simp add: orders_ok_def net_def total_quantity_def demo_net_config_def)

text \<open>
  Three orders whose exact shares all end in a third: the odd unit does not go to the first id, as
  the code's comment has it, but to the order with the fewest digits before the point.
\<close>

lemma tie_not_broken_by_id:
  "map (allocated (pro_rata [net ''a'' BUY 31 None, net ''b'' BUY 4 None, net ''c'' BUY 1 None] 12))
     [net ''a'' BUY 31 None, net ''b'' BUY 4 None, net ''c'' BUY 1 None] = [10, 1, 1]"
proof -
  let ?xs = "[net ''a'' BUY 31 None, net ''b'' BUY 4 None, net ''c'' BUY 1 None]"
  have share: "exact_share ?xs 12 (net ''a'' BUY 31 None) = Dec 1033333333333333333333333333 (- 26)"
    "exact_share ?xs 12 (net ''b'' BUY 4 None) = Dec 1333333333333333333333333333 (- 27)"
    "exact_share ?xs 12 (net ''c'' BUY 1 None) = Dec 3333333333333333333333333333 (- 28)"
    by code_simp+
  have base: "base_share ?xs 12 (net ''a'' BUY 31 None) = 10" "base_share ?xs 12 (net ''b'' BUY 4 None) = 1"
    "base_share ?xs 12 (net ''c'' BUY 1 None) = 0" unfolding base_share_def share by code_simp+
  have rest: "share_remainder ?xs 12 (net ''a'' BUY 31 None) = Dec 33333333333333333333333333 (- 26)"
    "share_remainder ?xs 12 (net ''b'' BUY 4 None) = Dec 333333333333333333333333333 (- 27)"
    "share_remainder ?xs 12 (net ''c'' BUY 1 None) = Dec 3333333333333333333333333333 (- 28)"
    unfolding share_remainder_def share base by code_simp+
  have sorted: "sort_key (\<lambda>p. (- fst p, snd p)) [(a, ''a''), (b, ''b''), (c, ''c'')] = [(c, ''c''), (b, ''b''), (a, ''a'')]"
    if "a < b" "b < c" for a b c :: rat using that by (simp add: less_eq_prod_def)
  define r where "r i = dec_rat (share_remainder ?xs 12 i)" for i
  have "r (net ''a'' BUY 31 None) < r (net ''b'' BUY 4 None)" "r (net ''b'' BUY 4 None) < r (net ''c'' BUY 1 None)"
    unfolding r_def rest by (simp_all add: dec_rat_def ten_power_def)
  note ranked = sorted[OF this]
  have "pro_rata ?xs 12 = [(''a'', 10), (''b'', 1), (''c'', 1)]"
    unfolding pro_rata_def Let_def list.map foldl_Cons foldl_Nil base r_def[symmetric]
    using ranked by (simp add: net_def py_prefix_def give_one_def py_get_def py_set_def)
  then show ?thesis by (simp add: allocated_def net_def py_get_def)
qed

end
