(* ===== verification/Failover_Circuit.thy ===== *)
theory Failover_Circuit
  imports Py_Prelude Complex_Main
begin

text \<open>
  The circuit breaker of
  \<open>skills/broker-failover-secondary-account-routing/scripts/failover_router.py\<close>: the state its
  lock guards and the sections that run under the lock, each one atomic step. A reading of the
  monotonic clock is an argument; times are exact rationals.
\<close>

section \<open>State\<close>

datatype breaker_state = CLOSED | OPEN | HALF_OPEN

record circuit =
  circuit_state :: breaker_state
  primary_failures :: int
  last_failure :: rat
  backoff_until :: rat
  generation :: nat
  half_open_probes :: int
  half_open_successes :: int
  manually_opened :: bool

record breaker_config =
  max_consecutive_failures :: int
  recovery_timeout :: rat
  half_open_max_probes :: int
  successes_to_close :: int

definition breaker_config_ok :: "breaker_config \<Rightarrow> bool" where
  "breaker_config_ok C \<longleftrightarrow> \<not> max_consecutive_failures C < 1 \<and> \<not> recovery_timeout C < 0 \<and>
     \<not> half_open_max_probes C < 1 \<and> \<not> successes_to_close C < 1"

definition new_circuit :: circuit where
  "new_circuit = \<lparr>circuit_state = CLOSED, primary_failures = 0, last_failure = 0, backoff_until = 0, generation = 0,
     half_open_probes = 0, half_open_successes = 0, manually_opened = False\<rparr>"

section \<open>Sections\<close>

definition probe_due :: "breaker_config \<Rightarrow> rat \<Rightarrow> circuit \<Rightarrow> bool" where
  "probe_due C now c \<longleftrightarrow> circuit_state c = OPEN \<and> \<not> manually_opened c \<and> now - last_failure c > recovery_timeout C"

definition snapshot_state :: "breaker_config \<Rightarrow> rat \<Rightarrow> circuit \<Rightarrow> circuit" where
  "snapshot_state C now c =
     (if probe_due C now c then c\<lparr>circuit_state := HALF_OPEN, half_open_probes := 0, half_open_successes := 0\<rparr> else c)"

definition acquire_probe_permit :: "breaker_config \<Rightarrow> circuit \<Rightarrow> bool \<times> circuit" where
  "acquire_probe_permit C c =
     (if circuit_state c \<noteq> HALF_OPEN then (False, c)
      else if half_open_probes c \<ge> half_open_max_probes C then (False, c)
      else (True, c\<lparr>half_open_probes := half_open_probes c + 1\<rparr>))"

definition release_probe_permit :: "circuit \<Rightarrow> circuit" where
  "release_probe_permit c = (if half_open_probes c > 0 then c\<lparr>half_open_probes := half_open_probes c - 1\<rparr> else c)"

definition close_circuit :: "circuit \<Rightarrow> circuit" where
  "close_circuit c = c\<lparr>circuit_state := CLOSED, primary_failures := 0, half_open_successes := 0, backoff_until := 0\<rparr>"

definition record_primary_success :: "breaker_config \<Rightarrow> nat \<Rightarrow> bool \<Rightarrow> circuit \<Rightarrow> circuit" where
  "record_primary_success C gen was_probe c =
     (if gen \<noteq> generation c then c
      else if circuit_state c = HALF_OPEN \<and> was_probe then
        (let n = half_open_successes c + 1 in
         if n < successes_to_close C then c\<lparr>half_open_successes := n\<rparr> else close_circuit (c\<lparr>half_open_successes := n\<rparr>))
      else if circuit_state c = OPEN then c
      else close_circuit c)"

definition trip :: "circuit \<Rightarrow> circuit" where
  "trip c = c\<lparr>circuit_state := OPEN, generation := generation c + 1, half_open_probes := 0, half_open_successes := 0\<rparr>"

definition record_primary_failure :: "breaker_config \<Rightarrow> nat \<Rightarrow> rat option \<Rightarrow> rat \<Rightarrow> circuit \<Rightarrow> circuit" where
  "record_primary_failure C gen retry_after now c =
     (let c1 = c\<lparr>last_failure := now\<rparr>;
          c2 = (case retry_after of
                  Some s \<Rightarrow> (if s > 0 then c1\<lparr>backoff_until := max (backoff_until c1) (now + s)\<rparr> else c1)
                | None \<Rightarrow> c1)
      in if gen \<noteq> generation c2 then c2
         else (let c3 = c2\<lparr>primary_failures := primary_failures c2 + 1\<rparr> in
               if circuit_state c3 = HALF_OPEN then trip c3
               else if primary_failures c3 \<ge> max_consecutive_failures C then trip c3
               else c3))"

definition manual_reset :: "circuit \<Rightarrow> circuit" where
  "manual_reset c = c\<lparr>circuit_state := CLOSED, primary_failures := 0, half_open_probes := 0, half_open_successes := 0,
     last_failure := 0, backoff_until := 0, manually_opened := False, generation := generation c + 1\<rparr>"

definition manual_open :: "rat \<Rightarrow> circuit \<Rightarrow> circuit" where
  "manual_open now c = trip (c\<lparr>manually_opened := True, last_failure := now\<rparr>)"

datatype broker_health = HEALTHY | DEGRADED | DOWN

definition primary_health :: "circuit \<Rightarrow> broker_health" where
  "primary_health c =
     (if circuit_state c = OPEN then DOWN
      else if circuit_state c = HALF_OPEN \<or> primary_failures c > 0 then DEGRADED else HEALTHY)"

definition seconds_until_probe :: "breaker_config \<Rightarrow> rat \<Rightarrow> circuit \<Rightarrow> rat option" where
  "seconds_until_probe C now c =
     (if circuit_state c = OPEN \<and> \<not> manually_opened c then Some (max 0 (recovery_timeout C - (now - last_failure c))) else None)"

section \<open>Any order of sections\<close>

text \<open>
  Threads interleave between sections, never inside one. What they do to the circuit is a
  sequence of sections, whoever runs them.
\<close>

datatype circuit_event =
    Snapshot rat | Acquire | Release | Success nat bool | Failure nat "rat option" rat | Force_open rat | Reset

fun circuit_step :: "breaker_config \<Rightarrow> circuit_event \<Rightarrow> circuit \<Rightarrow> circuit" where
  "circuit_step C (Snapshot now) c = snapshot_state C now c"
| "circuit_step C Acquire c = snd (acquire_probe_permit C c)"
| "circuit_step C Release c = release_probe_permit c"
| "circuit_step C (Success gen probe) c = record_primary_success C gen probe c"
| "circuit_step C (Failure gen ra now) c = record_primary_failure C gen ra now c"
| "circuit_step C (Force_open now) c = manual_open now c"
| "circuit_step C Reset c = manual_reset c"

definition circuit_inv :: "breaker_config \<Rightarrow> circuit \<Rightarrow> bool" where
  "circuit_inv C c \<longleftrightarrow>
     (manually_opened c \<longrightarrow> circuit_state c = OPEN) \<and>
     (circuit_state c = CLOSED \<longrightarrow> primary_failures c < max_consecutive_failures C) \<and>
     0 \<le> primary_failures c \<and>
     0 \<le> half_open_probes c \<and> half_open_probes c \<le> half_open_max_probes C \<and>
     0 \<le> half_open_successes c \<and> half_open_successes c < successes_to_close C \<and>
     (circuit_state c = OPEN \<longrightarrow> half_open_probes c = 0 \<and> half_open_successes c = 0)"

lemmas section_defs = snapshot_state_def probe_due_def acquire_probe_permit_def release_probe_permit_def
  record_primary_success_def close_circuit_def record_primary_failure_def trip_def manual_open_def manual_reset_def

lemma circuit_step_inv: "breaker_config_ok C \<Longrightarrow> circuit_inv C c \<Longrightarrow> circuit_inv C (circuit_step C e c)"
  by (cases e) (auto simp: breaker_config_ok_def circuit_inv_def section_defs Let_def split: option.split)

lemma new_circuit_inv: "breaker_config_ok C \<Longrightarrow> circuit_inv C new_circuit"
  by (simp add: breaker_config_ok_def circuit_inv_def new_circuit_def)

interpretation circuits: invariant_machine "circuit_step C" "\<lambda>c. breaker_config_ok C \<and> circuit_inv C c" for C
  by unfold_locales (auto intro: circuit_step_inv)

text \<open>A generation never comes back, so an outcome of an earlier one is recognised for good.\<close>

interpretation generations: progress_machine "circuit_step C" "\<lambda>_. True" "\<lambda>c c'. generation c \<le> generation c'" for C
proof unfold_locales
  fix s e
  show "generation s \<le> generation (circuit_step C e s)"
    by (cases e) (auto simp: section_defs Let_def split: option.split)
qed auto

section \<open>What the sections guarantee\<close>

text \<open>Whatever sections threads run, in whatever order: a manually opened circuit is open, a closed one is
  below its failure threshold, an open one counts no probe, and neither the probes counted nor the
  successes exceed their limits.\<close>

theorem circuit_always_consistent:
  assumes "breaker_config_ok C"
  shows "circuit_inv C (fold (circuit_step C) es new_circuit)"
  using circuits.run_inv[of C new_circuit es] new_circuit_inv[OF assms] assms by blast

lemma manual_step: "manually_opened c \<and> circuit_state c = OPEN \<Longrightarrow> e \<noteq> Reset \<Longrightarrow>
    manually_opened (circuit_step C e c) \<and> circuit_state (circuit_step C e c) = OPEN"
  by (cases e) (auto simp: section_defs Let_def split: option.split)

interpretation held_open: guarded_machine "circuit_step C" "\<lambda>e. e \<noteq> Reset" "\<lambda>c. manually_opened c \<and> circuit_state c = OPEN" for C
  by unfold_locales (rule manual_step)

lemma manual_open_holds:
  assumes "Reset \<notin> set es"
  shows "circuit_state (fold (circuit_step C) es (manual_open now c)) = OPEN \<and> manually_opened (fold (circuit_step C) es (manual_open now c))"
  using held_open.run_guarded[of es "manual_open now c" C] assms by (auto simp: list_all_iff manual_open_def trip_def)

text \<open>An automatic circuit closes again only by a success: a section that turns an open or half-open
  circuit closed is a reset, or records a success of the current generation while half-open, and
  then it was no probe or completes the successes asked for.\<close>

theorem closes_only_on_success:
  assumes "circuit_state c \<noteq> CLOSED" "circuit_state (circuit_step C e c) = CLOSED"
  shows "e = Reset \<or> (\<exists>probe. e = Success (generation c) probe \<and> circuit_state c = HALF_OPEN \<and>
    (probe \<longrightarrow> half_open_successes c + 1 \<ge> successes_to_close C))"
  using assms by (cases e; cases "circuit_state c") (auto simp: section_defs Let_def split: option.splits if_splits)

text \<open>
  One permit, two probes in flight: the permit of a probe that outlived a trip is given back to
  the next half-open round.
\<close>

definition probes_in_flight :: "breaker_config \<Rightarrow> circuit_event list \<Rightarrow> circuit \<Rightarrow> int" where
  "probes_in_flight C es c =
     snd (fold (\<lambda>e (c, n). (circuit_step C e c,
         case e of Acquire \<Rightarrow> if fst (acquire_probe_permit C c) then n + 1 else n | Release \<Rightarrow> n - 1 | _ \<Rightarrow> n)) es (c, 0))"

lemma probes_exceed_permits:
  "probes_in_flight \<lparr>max_consecutive_failures = 1, recovery_timeout = 60, half_open_max_probes = 1, successes_to_close = 1\<rparr>
     [Failure 0 None 0, Snapshot 61, Acquire, Failure 1 None 62, Snapshot 123, Acquire, Release, Acquire] new_circuit = 2"
  by (simp add: probes_in_flight_def section_defs Let_def new_circuit_def)

text \<open>A success that is no probe closes a half-open circuit at once, however many successes are asked for.\<close>

lemma non_probe_success_closes:
  "circuit_state c = HALF_OPEN \<Longrightarrow> circuit_state (record_primary_success C (generation c) False c) = CLOSED"
  by (simp add: record_primary_success_def close_circuit_def)

end
