(* ===== verification/Failover_Router.thy ===== *)
theory Failover_Router
  imports Failover_Circuit Decimal_Laws Text_Laws
begin

text \<open>
  The router of \<open>failover_router.py\<close> around its circuit: orders, the classification of a
  broker's failure, symbol maps, the cached positions of both accounts, and the submission of an
  order with its failover. The brokers, the resolver of doubtful orders and the monotonic clock
  are functions of the environment; a delay a broker asks for is none or a finite number.
\<close>

section \<open>Orders\<close>

datatype order_action = FBUY | FSELL

datatype position_effect = OPEN_EFFECT | REDUCE_EFFECT

record failover_order =
  or_symbol :: string
  or_action :: order_action
  or_quantity :: dec
  or_client_id :: string
  or_type :: string
  or_limit :: "dec option"
  or_effect :: position_effect

definition order_decimal :: "numeric \<Rightarrow> input_error + dec" where
  "order_decimal v = (case v of
     Num_decimal d \<Rightarrow> Inr d
   | Num_special \<Rightarrow> Inl Bad_value
   | Num_value (V_bool _) \<Rightarrow> Inl Bad_value
   | Num_value (V_int n) \<Rightarrow> Inr (dec_of_int n)
   | Num_value (V_str s) \<Rightarrow> (case dec_of_text s of Finite_decimal d \<Rightarrow> Inr d | _ \<Rightarrow> Inl Bad_value)
   | Num_value (V_float _ t) \<Rightarrow> (case dec_of_text t of Finite_decimal d \<Rightarrow> Inr d | _ \<Rightarrow> Inl Bad_value)
   | Num_value V_nan \<Rightarrow> Inl Bad_value
   | Num_value (V_inf _) \<Rightarrow> Inl Bad_value
   | Num_value _ \<Rightarrow> Inl Bad_type)"

definition clean_symbol :: "string \<Rightarrow> string" where
  "clean_symbol s = py_upper (py_strip s)"

definition positive_order_decimal :: "numeric \<Rightarrow> input_error + dec" where
  "positive_order_decimal v = (case order_decimal v of Inl e \<Rightarrow> Inl e | Inr d \<Rightarrow> if dec_rat d \<le> 0 then Inl Bad_value else Inr d)"

definition read_action :: "string \<Rightarrow> order_action option" where
  "read_action s = (if clean_symbol s = ''BUY'' then Some FBUY else if clean_symbol s = ''SELL'' then Some FSELL else None)"

definition make_failover_order ::
  "py_value \<Rightarrow> py_value \<Rightarrow> numeric \<Rightarrow> py_value \<Rightarrow> py_value \<Rightarrow> numeric option \<Rightarrow> position_effect \<Rightarrow> input_error + failover_order" where
  "make_failover_order symbol action quantity client_id order_type limit effect =
     (if clean_symbol (py_str symbol) = '''' then Inl Bad_value
      else case read_action (py_str action) of
        None \<Rightarrow> Inl Bad_value
      | Some a \<Rightarrow>
          (if py_strip (py_str client_id) = '''' then Inl Bad_value
           else if clean_symbol (py_str order_type) = '''' then Inl Bad_value
           else case positive_order_decimal quantity of
             Inl e \<Rightarrow> Inl e
           | Inr q \<Rightarrow>
               (case (case limit of None \<Rightarrow> Inr None | Some v \<Rightarrow> (case positive_order_decimal v of Inl e \<Rightarrow> Inl e | Inr d \<Rightarrow> Inr (Some d))) of
                  Inl e \<Rightarrow> Inl e
                | Inr price \<Rightarrow>
                    Inr \<lparr>or_symbol = clean_symbol (py_str symbol), or_action = a, or_quantity = q,
                      or_client_id = py_strip (py_str client_id), or_type = clean_symbol (py_str order_type),
                      or_limit = price, or_effect = effect\<rparr>)))"

text \<open>Unary minus rounds to the context.\<close>

definition dec_minus :: "dec \<Rightarrow> dec" where
  "dec_minus d = dec_fix (dec_neg d)"

definition signed_quantity :: "failover_order \<Rightarrow> dec" where
  "signed_quantity o' = (if or_action o' = FBUY then or_quantity o' else dec_minus (or_quantity o'))"

section \<open>Brokers and their failures\<close>

datatype leg = Primary | Secondary

datatype failure_class = AMBIGUOUS | UNAVAILABLE | RATE_LIMITED | REJECTED

datatype broker_exception = Broker_error failure_class "rat option" | Connection_refused | Other_exception

datatype 'r broker_reply = Accepted 'r | Raised broker_exception

datatype 'r resolver_reply = Found 'r | Not_found | Resolver_raised

record ('w, 'r) failover_env =
  place_order :: "leg \<Rightarrow> failover_order \<Rightarrow> 'w \<Rightarrow> 'r broker_reply \<times> 'w"
  monotonic_time :: "'w \<Rightarrow> rat \<times> 'w"
  order_status_resolver :: "(leg \<Rightarrow> string \<Rightarrow> 'w \<Rightarrow> 'r resolver_reply \<times> 'w) option"

definition classify_exception :: "broker_exception \<Rightarrow> failure_class" where
  "classify_exception e = (case e of Broker_error k _ \<Rightarrow> k | Connection_refused \<Rightarrow> UNAVAILABLE | Other_exception \<Rightarrow> AMBIGUOUS)"

definition retry_after_of :: "broker_exception \<Rightarrow> rat option" where
  "retry_after_of e = (case e of Broker_error _ (Some s) \<Rightarrow> if s > 0 then Some s else None | _ \<Rightarrow> None)"

section \<open>The router\<close>

record failover_config =
  fc_breaker :: breaker_config
  fc_primary_name :: string
  fc_secondary_name :: string
  fc_strict :: bool

record counters =
  routed_primary :: nat
  routed_secondary :: nat
  ambiguous_outcomes :: nat
  terminal_rejections :: nat
  failovers :: nat

record failover =
  fr_circuit :: circuit
  fr_symbols :: "(string, string \<times> string) py_dict"
  fr_primary_book :: "(string, dec) py_dict"
  fr_secondary_book :: "(string, dec) py_dict"
  fr_counters :: counters

definition make_failover :: "failover_config \<Rightarrow> input_error + failover" where
  "make_failover C =
     (if fc_primary_name C = fc_secondary_name C then Inl Bad_value
      else if \<not> breaker_config_ok (fc_breaker C) then Inl Bad_value
      else Inr \<lparr>fr_circuit = new_circuit, fr_symbols = [], fr_primary_book = [], fr_secondary_book = [],
        fr_counters = \<lparr>routed_primary = 0, routed_secondary = 0, ambiguous_outcomes = 0, terminal_rejections = 0, failovers = 0\<rparr>\<rparr>)"

definition register_symbol_map :: "string \<Rightarrow> string \<Rightarrow> string \<Rightarrow> failover \<Rightarrow> (input_error + unit) \<times> failover" where
  "register_symbol_map canonical primary secondary f =
     (if clean_symbol canonical = '''' then (Inl Bad_value, f)
      else if py_strip primary = '''' \<or> py_strip secondary = '''' then (Inl Bad_value, f)
      else (Inr (), f\<lparr>fr_symbols := py_set (fr_symbols f) (clean_symbol canonical) (py_strip primary, py_strip secondary)\<rparr>))"

text \<open>\<open>None\<close> is the symbol mapping error.\<close>

definition get_broker_symbol :: "failover_config \<Rightarrow> failover \<Rightarrow> string \<Rightarrow> leg \<Rightarrow> string option" where
  "get_broker_symbol C f symbol l =
     (case py_get (fr_symbols f) symbol of
        None \<Rightarrow> (if fc_strict C then None else Some symbol)
      | Some (p, s) \<Rightarrow> Some (case l of Primary \<Rightarrow> p | Secondary \<Rightarrow> s))"

definition book_of :: "leg \<Rightarrow> failover \<Rightarrow> (string, dec) py_dict" where
  "book_of l f = (case l of Primary \<Rightarrow> fr_primary_book f | Secondary \<Rightarrow> fr_secondary_book f)"

definition put_position :: "leg \<Rightarrow> string \<Rightarrow> dec \<Rightarrow> failover \<Rightarrow> failover" where
  "put_position l symbol q f = (case l of
     Primary \<Rightarrow> f\<lparr>fr_primary_book := py_set (fr_primary_book f) symbol q\<rparr>
   | Secondary \<Rightarrow> f\<lparr>fr_secondary_book := py_set (fr_secondary_book f) symbol q\<rparr>)"

definition known_broker :: "failover_config \<Rightarrow> string \<Rightarrow> leg option" where
  "known_broker C name =
     (if name = fc_primary_name C then Some Primary else if name = fc_secondary_name C then Some Secondary else None)"

definition set_position :: "failover_config \<Rightarrow> string \<Rightarrow> py_value \<Rightarrow> numeric \<Rightarrow> failover \<Rightarrow> (input_error + unit) \<times> failover" where
  "set_position C name symbol quantity f =
     (case known_broker C name of
        None \<Rightarrow> (Inl Bad_value, f)
      | Some l \<Rightarrow>
          (if clean_symbol (py_str symbol) = '''' then (Inl Bad_value, f)
           else case order_decimal quantity of
             Inl e \<Rightarrow> (Inl e, f)
           | Inr q \<Rightarrow> (Inr (), put_position l (clean_symbol (py_str symbol)) q f)))"

definition position_at :: "leg \<Rightarrow> string \<Rightarrow> failover \<Rightarrow> dec" where
  "position_at l symbol f = (case py_get (book_of l f) symbol of Some q \<Rightarrow> q | None \<Rightarrow> dec_of_int 0)"

definition get_position :: "failover_config \<Rightarrow> string \<Rightarrow> py_value \<Rightarrow> failover \<Rightarrow> input_error + dec" where
  "get_position C name symbol f =
     (case known_broker C name of None \<Rightarrow> Inl Bad_value | Some l \<Rightarrow> Inr (position_at l (clean_symbol (py_str symbol)) f))"

definition can_reduce_at :: "leg \<Rightarrow> failover_order \<Rightarrow> failover \<Rightarrow> bool" where
  "can_reduce_at l o' f =
     (let position = position_at l (clean_symbol (or_symbol o')) f in
      if or_action o' = FSELL then dec_le (or_quantity o') position else dec_le position (dec_minus (or_quantity o')))"

definition apply_fill :: "leg \<Rightarrow> failover_order \<Rightarrow> failover \<Rightarrow> failover" where
  "apply_fill l o' f = put_position l (or_symbol o') (dec_add (position_at l (or_symbol o') f) (signed_quantity o')) f"

definition on_circuit :: "(circuit \<Rightarrow> circuit) \<Rightarrow> failover \<Rightarrow> failover" where
  "on_circuit g f = f\<lparr>fr_circuit := g (fr_circuit f)\<rparr>"

definition count_routed :: "leg \<Rightarrow> failover \<Rightarrow> failover" where
  "count_routed l f = (case l of
     Primary \<Rightarrow> f\<lparr>fr_counters := (fr_counters f)\<lparr>routed_primary := routed_primary (fr_counters f) + 1\<rparr>\<rparr>
   | Secondary \<Rightarrow> f\<lparr>fr_counters := (fr_counters f)\<lparr>routed_secondary := routed_secondary (fr_counters f) + 1\<rparr>\<rparr>)"

definition count_ambiguous :: "failover \<Rightarrow> failover" where
  "count_ambiguous f = f\<lparr>fr_counters := (fr_counters f)\<lparr>ambiguous_outcomes := ambiguous_outcomes (fr_counters f) + 1\<rparr>\<rparr>"

definition count_rejected :: "failover \<Rightarrow> failover" where
  "count_rejected f = f\<lparr>fr_counters := (fr_counters f)\<lparr>terminal_rejections := terminal_rejections (fr_counters f) + 1\<rparr>\<rparr>"

definition count_failover :: "failover \<Rightarrow> failover" where
  "count_failover f = f\<lparr>fr_counters := (fr_counters f)\<lparr>failovers := failovers (fr_counters f) + 1\<rparr>\<rparr>"

section \<open>Routing\<close>

text \<open>The order a broker is sent passes validation again, which cleans the mapped symbol.\<close>

datatype 'r routed = Placed 'r | No_symbol | Failed broker_exception

definition route_to_broker ::
  "('w, 'r) failover_env \<Rightarrow> failover_config \<Rightarrow> leg \<Rightarrow> failover_order \<Rightarrow> failover \<Rightarrow> 'w \<Rightarrow> 'r routed \<times> 'w" where
  "route_to_broker E C l o' f w =
     (case get_broker_symbol C f (or_symbol o') l of
        None \<Rightarrow> (No_symbol, w)
      | Some s \<Rightarrow>
          (case place_order E l (o'\<lparr>or_symbol := clean_symbol s\<rparr>) w of
             (Accepted r, w1) \<Rightarrow> (Placed r, w1)
           | (Raised e, w1) \<Rightarrow> (Failed e, w1)))"

datatype 'r outcome =
    Filled 'r | Ambiguous_state leg | All_unavailable | Affinity_error | Rejected broker_exception | Symbol_error

definition try_resolve :: "('w, 'r) failover_env \<Rightarrow> leg \<Rightarrow> failover_order \<Rightarrow> 'w \<Rightarrow> 'r option \<times> 'w" where
  "try_resolve E l o' w =
     (case order_status_resolver E of
        None \<Rightarrow> (None, w)
      | Some resolve \<Rightarrow> (case resolve l (or_client_id o') w of (Found r, w1) \<Rightarrow> (Some r, w1) | (_, w1) \<Rightarrow> (None, w1)))"

definition record_failure ::
  "('w, 'r) failover_env \<Rightarrow> failover_config \<Rightarrow> nat \<Rightarrow> broker_exception \<Rightarrow> failover \<Rightarrow> 'w \<Rightarrow> failover \<times> 'w" where
  "record_failure E C gen e f w =
     (let (now, w1) = monotonic_time E w in
      (on_circuit (record_primary_failure (fc_breaker C) gen (retry_after_of e) now) f, w1))"

text \<open>\<open>None\<close> makes the order eligible for failover.\<close>

definition handle_primary_exception ::
  "('w, 'r) failover_env \<Rightarrow> failover_config \<Rightarrow> broker_exception \<Rightarrow> failover_order \<Rightarrow> nat \<Rightarrow> failover \<Rightarrow> 'w \<Rightarrow>
     'r outcome option \<times> failover \<times> 'w" where
  "handle_primary_exception E C e o' gen f w =
     (if classify_exception e = REJECTED then (Some (Rejected e), count_rejected f, w)
      else
        (let (f1, w1) = record_failure E C gen e f w in
         if classify_exception e = AMBIGUOUS then
           (let f2 = count_ambiguous f1 in
            case try_resolve E Primary o' w1 of
              (Some r, w2) \<Rightarrow> (Some (Filled r), count_routed Primary (apply_fill Primary o' f2), w2)
            | (None, w2) \<Rightarrow> (Some (Ambiguous_state Primary), f2, w2))
         else (None, f1, w1)))"

text \<open>A missing symbol at the secondary is classified like any other exception: ambiguous.\<close>

definition route_failover ::
  "('w, 'r) failover_env \<Rightarrow> failover_config \<Rightarrow> failover_order \<Rightarrow> bool \<Rightarrow> failover \<Rightarrow> 'w \<Rightarrow> 'r outcome \<times> failover \<times> 'w" where
  "route_failover E C o' primary_failed f w =
     (let f1 = (if primary_failed then count_failover f else f) in
      case route_to_broker E C Secondary o' f1 w of
        (Placed r, w1) \<Rightarrow> (Filled r, apply_fill Secondary o' (count_routed Secondary f1), w1)
      | (No_symbol, w1) \<Rightarrow> (Ambiguous_state Secondary, count_ambiguous f1, w1)
      | (Failed e, w1) \<Rightarrow>
          (if classify_exception e = AMBIGUOUS then (Ambiguous_state Secondary, count_ambiguous f1, w1)
           else if classify_exception e = REJECTED then (Rejected e, count_rejected f1, w1)
           else (All_unavailable, f1, w1)))"

fun submit_reduce_at ::
  "('w, 'r) failover_env \<Rightarrow> failover_config \<Rightarrow> leg list \<Rightarrow> failover_order \<Rightarrow> failover \<Rightarrow> 'w \<Rightarrow> 'r outcome \<times> failover \<times> 'w" where
  "submit_reduce_at E C [] o' f w = (Affinity_error, f, w)"
| "submit_reduce_at E C (l # ls) o' f w =
     (if \<not> can_reduce_at l o' f then submit_reduce_at E C ls o' f w
      else case route_to_broker E C l o' f w of
        (No_symbol, w1) \<Rightarrow> (Symbol_error, f, w1)
      | (Placed r, w1) \<Rightarrow>
          (let f1 = (if l = Primary
                     then on_circuit (record_primary_success (fc_breaker C) (generation (fr_circuit f)) False) f else f)
           in (Filled r, apply_fill l o' (count_routed l f1), w1))
      | (Failed e, w1) \<Rightarrow>
          (let k = classify_exception e;
               (f1, w2) = (if l = Primary \<and> k \<noteq> REJECTED then record_failure E C (generation (fr_circuit f)) e f w1 else (f, w1))
           in if k = AMBIGUOUS then (Ambiguous_state l, count_ambiguous f1, w2)
              else if k = REJECTED then (Rejected e, count_rejected f1, w2)
              else (Affinity_error, f1, w2)))"

definition submit_reduce_order ::
  "('w, 'r) failover_env \<Rightarrow> failover_config \<Rightarrow> failover_order \<Rightarrow> failover \<Rightarrow> 'w \<Rightarrow> 'r outcome \<times> failover \<times> 'w" where
  "submit_reduce_order E C o' f w = submit_reduce_at E C [Primary, Secondary] o' f w"

text \<open>The clock is read only when an automatic open circuit may be due for a probe.\<close>

definition read_snapshot :: "('w, 'r) failover_env \<Rightarrow> failover_config \<Rightarrow> failover \<Rightarrow> 'w \<Rightarrow> failover \<times> 'w" where
  "read_snapshot E C f w =
     (if circuit_state (fr_circuit f) = OPEN \<and> \<not> manually_opened (fr_circuit f)
      then (let (now, w1) = monotonic_time E w in (on_circuit (snapshot_state (fc_breaker C) now) f, w1))
      else (f, w))"

definition admit_primary ::
  "('w, 'r) failover_env \<Rightarrow> failover_config \<Rightarrow> failover \<Rightarrow> 'w \<Rightarrow> (bool \<times> bool) \<times> failover \<times> 'w" where
  "admit_primary E C f w =
     (let (probe, c1) = (if circuit_state (fr_circuit f) = HALF_OPEN then acquire_probe_permit (fc_breaker C) (fr_circuit f)
                         else (False, fr_circuit f));
          f1 = f\<lparr>fr_circuit := c1\<rparr>;
          eligible = (circuit_state (fr_circuit f) = CLOSED \<or> probe)
      in if \<not> eligible then ((False, False), f1, w)
         else (let (now, w1) = monotonic_time E w in
               if now < backoff_until (fr_circuit f1)
               then ((False, False), (if probe then on_circuit release_probe_permit f1 else f1), w1)
               else ((True, probe), f1, w1)))"

definition submit_order ::
  "('w, 'r) failover_env \<Rightarrow> failover_config \<Rightarrow> failover_order \<Rightarrow> failover \<Rightarrow> 'w \<Rightarrow> 'r outcome \<times> failover \<times> 'w" where
  "submit_order E C o' f w =
     (if or_effect o' = REDUCE_EFFECT then submit_reduce_order E C o' f w
      else
        (let (f0, w0) = read_snapshot E C f w;
             gen = generation (fr_circuit f0);
             ((eligible, probe), f1, w1) = admit_primary E C f0 w0;
             finally = (if probe then on_circuit release_probe_permit else id)
         in if \<not> eligible then route_failover E C o' False f1 w1
            else case route_to_broker E C Primary o' f1 w1 of
              (No_symbol, w2) \<Rightarrow> (Symbol_error, finally f1, w2)
            | (Placed r, w2) \<Rightarrow>
                (Filled r, finally (apply_fill Primary o' (count_routed Primary
                   (on_circuit (record_primary_success (fc_breaker C) gen probe) f1))), w2)
            | (Failed e, w2) \<Rightarrow>
                (case handle_primary_exception E C e o' gen f1 w2 of
                   (Some x, f2, w3) \<Rightarrow> (x, finally f2, w3)
                 | (None, f2, w3) \<Rightarrow> route_failover E C o' True (finally f2) w3)))"

section \<open>Operators and telemetry\<close>

definition operator_reset :: "failover \<Rightarrow> failover" where
  "operator_reset f = on_circuit manual_reset f"

definition operator_open :: "('w, 'r) failover_env \<Rightarrow> failover \<Rightarrow> 'w \<Rightarrow> failover \<times> 'w" where
  "operator_open E f w = (let (now, w1) = monotonic_time E w in (on_circuit (manual_open now) f, w1))"

record router_stats =
  rs_state :: breaker_state
  rs_failures :: int
  rs_successes :: int
  rs_until_probe :: "rat option"
  rs_health :: broker_health
  rs_counters :: counters
  rs_probes :: int

definition stats_of :: "failover_config \<Rightarrow> rat \<Rightarrow> failover \<Rightarrow> router_stats" where
  "stats_of C now f =
     (let c = fr_circuit f in
      \<lparr>rs_state = circuit_state c, rs_failures = primary_failures c, rs_successes = half_open_successes c,
       rs_until_probe = seconds_until_probe (fc_breaker C) now c, rs_health = primary_health c,
       rs_counters = fr_counters f, rs_probes = half_open_probes c\<rparr>)"

end
