(* ===== verification/Failover_Properties.thy ===== *)
theory Failover_Properties
  imports Failover_Router
begin

text \<open>
  Properties of the failover router: what a submission sends where, what it concludes, which
  account a reducing order reaches, and how the circuit recovers.
\<close>

section \<open>Submissions and the circuit\<close>

text \<open>What a call does to the circuit is a sequence of its sections, none of them an operator's.\<close>

definition operator_event :: "circuit_event \<Rightarrow> bool" where
  "operator_event e = (case e of Force_open _ \<Rightarrow> True | Reset \<Rightarrow> True | _ \<Rightarrow> False)"

definition by_sections :: "failover_config \<Rightarrow> failover \<Rightarrow> failover \<Rightarrow> bool" where
  "by_sections C f f' \<longleftrightarrow>
     (\<exists>es. list_all (\<lambda>e. \<not> operator_event e) es \<and> fr_circuit f' = fold (circuit_step (fc_breaker C)) es (fr_circuit f))"

lemma by_sections_same: "fr_circuit f' = fr_circuit f \<Longrightarrow> by_sections C f f'"
  unfolding by_sections_def by (rule exI[of _ "[]"]) simp

lemma by_sections_step:
  "fr_circuit f' = circuit_step (fc_breaker C) e (fr_circuit f) \<Longrightarrow> \<not> operator_event e \<Longrightarrow> by_sections C f f'"
  unfolding by_sections_def by (rule exI[of _ "[e]"]) simp

lemma by_sections_trans: "by_sections C f f1 \<Longrightarrow> by_sections C f1 f2 \<Longrightarrow> by_sections C f f2"
  unfolding by_sections_def
proof (elim exE conjE)
  fix es1 es2
  assume "list_all (\<lambda>e. \<not> operator_event e) es1" "fr_circuit f1 = fold (circuit_step (fc_breaker C)) es1 (fr_circuit f)"
    "list_all (\<lambda>e. \<not> operator_event e) es2" "fr_circuit f2 = fold (circuit_step (fc_breaker C)) es2 (fr_circuit f1)"
  then show "\<exists>es. list_all (\<lambda>e. \<not> operator_event e) es \<and> fr_circuit f2 = fold (circuit_step (fc_breaker C)) es (fr_circuit f)"
    by (intro exI[of _ "es1 @ es2"]) simp
qed

lemma bookkeeping_circuit [simp]:
  "fr_circuit (count_routed l f) = fr_circuit f" "fr_circuit (count_ambiguous f) = fr_circuit f"
  "fr_circuit (count_rejected f) = fr_circuit f" "fr_circuit (count_failover f) = fr_circuit f"
  "fr_circuit (apply_fill l o' f) = fr_circuit f" "fr_circuit (on_circuit g f) = g (fr_circuit f)"
  by (cases l; simp add: count_routed_def count_ambiguous_def count_rejected_def count_failover_def apply_fill_def put_position_def on_circuit_def)+

lemma record_failure_sections: "record_failure E C gen e f w = (f', w') \<Longrightarrow> by_sections C f f'"
  by (auto simp: record_failure_def Let_def operator_event_def split: prod.splits
      intro!: by_sections_step[of _ _ "Failure gen (retry_after_of e) _"])

lemma snapshot_sections: "read_snapshot E C f w = (f', w') \<Longrightarrow> by_sections C f f'"
proof (cases "circuit_state (fr_circuit f) = OPEN \<and> \<not> manually_opened (fr_circuit f)")
  case True
  assume "read_snapshot E C f w = (f', w')"
  with True have "fr_circuit f' = circuit_step (fc_breaker C) (Snapshot (fst (monotonic_time E w))) (fr_circuit f)"
    by (auto simp: read_snapshot_def split: prod.splits)
  then show ?thesis by (rule by_sections_step) (simp add: operator_event_def)
qed (auto simp: read_snapshot_def intro: by_sections_same)

lemma admit_sections: "admit_primary E C f w = (a, f', w') \<Longrightarrow> by_sections C f f'"
proof -
  assume admit: "admit_primary E C f w = (a, f', w')"
  obtain p c where acq: "acquire_probe_permit (fc_breaker C) (fr_circuit f) = (p, c)" by fastforce
  obtain now w1 where time: "monotonic_time E w = (now, w1)" by fastforce
  have "fr_circuit f' \<in> {fr_circuit f, c, release_probe_permit c}"
    using admit acq time by (auto simp: admit_primary_def Let_def on_circuit_def split: if_splits)
  then consider "fr_circuit f' = fold (circuit_step (fc_breaker C)) [] (fr_circuit f)"
    | "fr_circuit f' = fold (circuit_step (fc_breaker C)) [Acquire] (fr_circuit f)"
    | "fr_circuit f' = fold (circuit_step (fc_breaker C)) [Acquire, Release] (fr_circuit f)"
    using acq by auto
  then show ?thesis unfolding by_sections_def by cases (rule exI, rule conjI[rotated], assumption, simp add: operator_event_def)+
qed

lemma release_sections: "by_sections C f ((if p then on_circuit release_probe_permit else id) f)"
  by (cases p) (simp_all add: operator_event_def by_sections_same by_sections_step[of _ C Release f])

lemma failover_sections: "route_failover E C o' p f w = (x, f', w') \<Longrightarrow> by_sections C f f'"
  by (intro by_sections_same) (auto simp: route_failover_def Let_def split: prod.splits routed.splits if_splits)

lemma handle_sections: "handle_primary_exception E C e o' gen f w = (x, f', w') \<Longrightarrow> by_sections C f f'"
proof -
  assume handle: "handle_primary_exception E C e o' gen f w = (x, f', w')"
  obtain f1 w1 where rec: "record_failure E C gen e f w = (f1, w1)" by fastforce
  have "fr_circuit f' \<in> {fr_circuit f, fr_circuit f1}"
    using handle rec by (auto simp: handle_primary_exception_def Let_def split: if_splits prod.splits option.splits)
  then show ?thesis using record_failure_sections[OF rec] by_sections_same[of f' f C] unfolding by_sections_def by auto
qed

lemma success_sections: "by_sections C f (on_circuit (record_primary_success (fc_breaker C) gen probe) f)"
  by (rule by_sections_step[of _ _ "Success gen probe"]) (simp_all add: operator_event_def)

lemma by_sections_circuit: "by_sections C f f1 \<Longrightarrow> fr_circuit f2 = fr_circuit f1 \<Longrightarrow> by_sections C f f2"
  by (simp add: by_sections_def)

lemma reduce_sections: "submit_reduce_at E C ls o' f w = (x, f', w') \<Longrightarrow> by_sections C f f'"
proof (induction ls)
  case (Cons l ls)
  show ?case
  proof (cases "can_reduce_at l o' f")
    case True
    obtain a w1 where route: "route_to_broker E C l o' f w = (a, w1)" by fastforce
    show ?thesis
    proof (cases a)
      case (Placed r)
      with Cons.prems True route show ?thesis
        using by_sections_circuit[OF success_sections] by (auto simp: Let_def split: if_splits intro: by_sections_same)
    next
      case (Failed e)
      obtain f1 w2 where rec: "(if l = Primary \<and> classify_exception e \<noteq> REJECTED then record_failure E C (generation (fr_circuit f)) e f w1 else (f, w1)) = (f1, w2)"
        by fastforce
      then have "by_sections C f f1" using record_failure_sections by (auto split: if_splits intro: by_sections_same)
      with Cons.prems True route Failed rec show ?thesis
        by (auto simp: Let_def split: if_splits intro: by_sections_circuit)
    qed (use Cons.prems True route in \<open>auto intro: by_sections_same\<close>)
  qed (use Cons in simp)
qed (auto intro: by_sections_same)

lemma submit_reduce: "or_effect o' = REDUCE_EFFECT \<Longrightarrow> submit_order E C o' f w = submit_reduce_at E C [Primary, Secondary] o' f w"
  by (simp only: submit_order_def submit_reduce_order_def simp_thms if_True)

lemma submit_sections:
  assumes "submit_order E C o' f w = (x, f', w')"
  shows "by_sections C f f'"
proof (cases "or_effect o' = REDUCE_EFFECT")
  case True
  with assms have "submit_reduce_at E C [Primary, Secondary] o' f w = (x, f', w')"
    by (simp only: submit_reduce)
  then show ?thesis by (rule reduce_sections)
next
  case False
  obtain f0 w0 where snap: "read_snapshot E C f w = (f0, w0)" by fastforce
  obtain el p f1 w1 where admit: "admit_primary E C f0 w0 = ((el, p), f1, w1)" by (metis prod.exhaust)
  have upto: "by_sections C f f1" by (rule by_sections_trans[OF snapshot_sections[OF snap] admit_sections[OF admit]])
  note run = assms[unfolded submit_order_def Let_def if_not_P[OF False] snap admit prod.case]
  show ?thesis
  proof (cases el)
    case False
    with run have "route_failover E C o' False f1 w1 = (x, f', w')" by simp
    from by_sections_trans[OF upto failover_sections[OF this]] show ?thesis .
  next
    case True
    obtain a w2 where route: "route_to_broker E C Primary o' f1 w1 = (a, w2)" by fastforce
    show ?thesis
    proof (cases a)
      case No_symbol
      with run True route release_sections[of C f1 p] upto show ?thesis by (auto intro: by_sections_trans)
    next
      case (Placed r)
      have "by_sections C f1 (apply_fill Primary o' (count_routed Primary (on_circuit (record_primary_success (fc_breaker C) (generation (fr_circuit f0)) p) f1)))"
        by (rule by_sections_circuit[OF success_sections]) simp
      from by_sections_trans[OF by_sections_trans[OF upto this] release_sections[of C _ p]] run True route Placed
      show ?thesis by (auto split: if_splits)
    next
      case (Failed e)
      obtain y f2 w3 where handle: "handle_primary_exception E C e o' (generation (fr_circuit f0)) f1 w2 = (y, f2, w3)" by (metis prod_cases3)
      have "by_sections C f ((if p then on_circuit release_probe_permit else id) f2)"
        by (rule by_sections_trans[OF by_sections_trans[OF upto handle_sections[OF handle]] release_sections])
      note upto2 = this
      show ?thesis
      proof (cases y)
        case None
        with run True route Failed handle
        have "route_failover E C o' True ((if p then on_circuit release_probe_permit else id) f2) w3 = (x, f', w')" by simp
        from by_sections_trans[OF upto2 failover_sections[OF this]] show ?thesis .
      qed (use run True route Failed handle upto2 in simp)
    qed
  qed
qed

section \<open>What is sent\<close>

text \<open>A log of the orders sent, which only \<open>place_order\<close> extends.\<close>

type_synonym 'r send = "leg \<times> failover_order \<times> 'r broker_reply"

definition send_log :: "('w, 'r) failover_env \<Rightarrow> ('w \<Rightarrow> 'r send list) \<Rightarrow> bool" where
  "send_log E sent \<longleftrightarrow>
     (\<forall>l o' w r w1. place_order E l o' w = (r, w1) \<longrightarrow> sent w1 = sent w @ [(l, o', r)]) \<and>
     (\<forall>w t w1. monotonic_time E w = (t, w1) \<longrightarrow> sent w1 = sent w) \<and>
     (\<forall>resolve l c w a w1. order_status_resolver E = Some resolve \<longrightarrow> resolve l c w = (a, w1) \<longrightarrow> sent w1 = sent w)"

definition certain_refusal :: "'r broker_reply \<Rightarrow> bool" where
  "certain_refusal r \<longleftrightarrow> (\<exists>e. r = Raised e \<and> classify_exception e \<in> {UNAVAILABLE, RATE_LIMITED})"

definition in_doubt :: "'r broker_reply \<Rightarrow> bool" where
  "in_doubt r \<longleftrightarrow> (\<exists>e. r = Raised e \<and> classify_exception e = AMBIGUOUS)"

text \<open>What was sent for an order, and how that explains the outcome.\<close>

definition explains :: "failover_order \<Rightarrow> 'r send list \<Rightarrow> 'r outcome \<Rightarrow> bool" where
  "explains o' tr x \<longleftrightarrow>
     list_all (\<lambda>(l, q, r). q\<lparr>or_symbol := or_symbol o'\<rparr> = o') tr \<and>
     (case x of
        Filled v \<Rightarrow> tr \<noteq> [] \<and> (case last tr of (l, q, r) \<Rightarrow> r = Accepted v \<or> in_doubt r \<and> l = Primary)
      | Ambiguous_state l \<Rightarrow> tr = [] \<or> (case last tr of (l', q, r) \<Rightarrow> l' = l \<and> in_doubt r)
      | Rejected e \<Rightarrow> tr \<noteq> [] \<and> (case last tr of (l, q, r) \<Rightarrow> r = Raised e \<and> classify_exception e = REJECTED)
      | All_unavailable \<Rightarrow> tr \<noteq> [] \<and> (case last tr of (l, q, r) \<Rightarrow> certain_refusal r)
      | _ \<Rightarrow> tr = [] \<or> (case last tr of (l, q, r) \<Rightarrow> certain_refusal r))"

lemma send_logD:
  assumes "send_log E sent"
  shows "place_order E l o' w = (r, w1) \<Longrightarrow> sent w1 = sent w @ [(l, o', r)]" "monotonic_time E w = (t, w1) \<Longrightarrow> sent w1 = sent w"
    "order_status_resolver E = Some resolve \<Longrightarrow> resolve l c w = (a, w1) \<Longrightarrow> sent w1 = sent w"
  using assms unfolding send_log_def by blast+

lemma route_sends:
  assumes "route_to_broker E C l o' f w = (a, w')" "send_log E sent"
  shows "(a = No_symbol \<and> sent w' = sent w) \<or>
    (\<exists>q r. sent w' = sent w @ [(l, q, r)] \<and> q\<lparr>or_symbol := or_symbol o'\<rparr> = o' \<and>
      a = (case r of Accepted v \<Rightarrow> Placed v | Raised e \<Rightarrow> Failed e))"
proof (cases "get_broker_symbol C f (or_symbol o') l")
  case (Some s)
  obtain r w1 where place: "place_order E l (o'\<lparr>or_symbol := clean_symbol s\<rparr>) w = (r, w1)" by fastforce
  with assms(1) Some have "a = (case r of Accepted v \<Rightarrow> Placed v | Raised e \<Rightarrow> Failed e)" "w' = w1"
    by (auto simp: route_to_broker_def split: broker_reply.splits)
  with send_logD(1)[OF assms(2) place] show ?thesis by auto
qed (use assms(1) in \<open>simp add: route_to_broker_def\<close>)

lemma record_failure_sends: "record_failure E C gen e f w = (f', w') \<Longrightarrow> send_log E sent \<Longrightarrow> sent w' = sent w"
  by (auto simp: record_failure_def split: prod.splits dest: send_logD(2))

lemma failover_sends:
  assumes "route_failover E C o' p f w = (x, f', w')" "send_log E sent"
  shows "\<exists>tr. sent w' = sent w @ tr \<and> length tr \<le> 1 \<and> list_all (\<lambda>t. fst t = Secondary) tr \<and> explains o' tr x \<and>
    (tr = [] \<longrightarrow> get_broker_symbol C f (or_symbol o') Secondary = None)"
proof -
  define f1 where "f1 = (if p then count_failover f else f)"
  obtain a w1 where route: "route_to_broker E C Secondary o' f1 w = (a, w1)" by fastforce
  have run: "x = (case a of Placed r \<Rightarrow> Filled r | No_symbol \<Rightarrow> Ambiguous_state Secondary
      | Failed e \<Rightarrow> if classify_exception e = AMBIGUOUS then Ambiguous_state Secondary
          else if classify_exception e = REJECTED then Rejected e else All_unavailable)" "w' = w1"
    using assms(1) route by (auto simp: route_failover_def Let_def f1_def split: routed.splits if_splits)
  from route_sends[OF route assms(2)] show ?thesis
  proof (elim disjE exE conjE)
    fix q r
    assume s: "sent w1 = sent w @ [(Secondary, q, r)]" "q\<lparr>or_symbol := or_symbol o'\<rparr> = o'" "a = (case r of Accepted v \<Rightarrow> Placed v | Raised e \<Rightarrow> Failed e)"
    show ?thesis
      by (rule exI[of _ "[(Secondary, q, r)]"], cases r)
        (use s run in \<open>auto simp: explains_def in_doubt_def certain_refusal_def failure_class.exhaust split: failure_class.splits, metis failure_class.exhaust\<close>)
  next
    assume none: "a = No_symbol" "sent w1 = sent w"
    then have "get_broker_symbol C f (or_symbol o') Secondary = None"
      using route by (auto simp: route_to_broker_def get_broker_symbol_def f1_def count_failover_def split: option.splits prod.splits broker_reply.splits if_splits)
    with none run show ?thesis by (intro exI[of _ "[]"]) (simp add: explains_def)
  qed
qed

lemma handle_sends:
  assumes "handle_primary_exception E C e o' gen f w = (y, f', w')" "send_log E sent" "q\<lparr>or_symbol := or_symbol o'\<rparr> = o'"
  shows "sent w' = sent w \<and>
    (case y of None \<Rightarrow> classify_exception e \<in> {UNAVAILABLE, RATE_LIMITED} | Some x \<Rightarrow> explains o' [(Primary, q, Raised e)] x)"
proof -
  obtain f1 w1 where rec: "record_failure E C gen e f w = (f1, w1)" by fastforce
  obtain a w2 where res: "try_resolve E Primary o' w1 = (a, w2)" by fastforce
  have same: "sent w1 = sent w" "sent w2 = sent w1"
    using record_failure_sends[OF rec assms(2)] res send_logD(3)[OF assms(2)]
    by (auto simp: try_resolve_def split: option.splits prod.splits resolver_reply.splits)
  show ?thesis
    using assms(1,3) rec res same
    by (cases "classify_exception e")
       (auto simp: handle_primary_exception_def Let_def explains_def in_doubt_def split: option.splits)
qed

lemma admit_sends: "admit_primary E C f w = (a, f', w') \<Longrightarrow> send_log E sent \<Longrightarrow> sent w' = sent w"
  by (auto simp: admit_primary_def Let_def split: if_splits prod.splits dest: send_logD(2))

lemma snapshot_sends: "read_snapshot E C f w = (f', w') \<Longrightarrow> send_log E sent \<Longrightarrow> sent w' = sent w"
  by (auto simp: read_snapshot_def Let_def split: if_splits prod.splits dest: send_logD(2))

lemma symbols_kept:
  "fr_symbols (on_circuit g f) = fr_symbols f" "fr_symbols (count_ambiguous f) = fr_symbols f" "fr_symbols (count_rejected f) = fr_symbols f"
  "fr_symbols (count_routed l f) = fr_symbols f" "fr_symbols (count_failover f) = fr_symbols f" "fr_symbols (apply_fill l o' f) = fr_symbols f"
  by (cases l; simp add: count_routed_def count_ambiguous_def count_rejected_def count_failover_def apply_fill_def put_position_def on_circuit_def)+

lemma handle_symbols: "handle_primary_exception E C e o' gen f w = (y, f', w') \<Longrightarrow> fr_symbols f' = fr_symbols f"
  by (auto simp: handle_primary_exception_def record_failure_def Let_def symbols_kept split: if_splits prod.splits option.splits)

text \<open>A send log that grew from \<open>w\<close> to \<open>w'\<close> by at most one order per account, the second after a refusal.\<close>

definition sent_safely :: "('w \<Rightarrow> (leg \<times> failover_order \<times> 'r broker_reply) list) \<Rightarrow> failover_order \<Rightarrow> 'r outcome \<Rightarrow> 'w \<Rightarrow> 'w \<Rightarrow> bool" where
  "sent_safely sent o' x w w' \<longleftrightarrow> (\<exists>tr. sent w' = sent w @ tr \<and> length tr \<le> 2 \<and> explains o' tr x \<and>
     (length tr = 2 \<longrightarrow> fst (tr ! 0) = Primary \<and> fst (tr ! 1) = Secondary \<and> certain_refusal (snd (snd (tr ! 0)))))"

lemma sent_safelyI:
  assumes "sent w' = sent w @ tr" "length tr \<le> 1" "explains o' tr x"
  shows "sent_safely sent o' x w w'"
  using assms unfolding sent_safely_def by (intro exI[of _ tr]) simp

lemma failed_primary_sends:
  assumes "send_log E sent" "route_to_broker E C Primary o' f w = (Failed e, w1)"
    and "sent w1 = sent w @ [(Primary, q, Raised e)]" "q\<lparr>or_symbol := or_symbol o'\<rparr> = o'"
    and "(case handle_primary_exception E C e o' gen f w1 of (Some y, f2, w2) \<Rightarrow> (y, fin f2, w2)
      | (None, f2, w2) \<Rightarrow> route_failover E C o' True (fin f2) w2) = (x, f', w')" "\<And>f. fr_symbols (fin f) = fr_symbols f"
  shows "sent_safely sent o' x w w'"
proof -
  obtain y f2 w2 where handle: "handle_primary_exception E C e o' gen f w1 = (y, f2, w2)" by (metis prod_cases3)
  note h = handle_sends[OF handle assms(1,4)]
  show ?thesis
  proof (cases y)
    case None
    with assms(5) handle have "route_failover E C o' True (fin f2) w2 = (x, f', w')" by simp
    from failover_sends[OF this assms(1)] obtain tr where tr: "sent w' = sent w2 @ tr" "length tr \<le> 1"
      "list_all (\<lambda>t. fst t = Secondary) tr" "explains o' tr x"
      "tr = [] \<longrightarrow> get_broker_symbol C (fin f2) (or_symbol o') Secondary = None" by blast
    have refusal: "certain_refusal (Raised e)" using h None by (simp add: certain_refusal_def)
    have "get_broker_symbol C f (or_symbol o') Primary \<noteq> None" using assms(2) by (auto simp: route_to_broker_def split: option.splits)
    then have "tr \<noteq> []" using tr(5) handle_symbols[OF handle] assms(6)
      by (auto simp: get_broker_symbol_def split: if_splits option.splits)
    then have "explains o' ((Primary, q, Raised e) # tr) x"
      using tr(4) assms(4) refusal by (cases tr) (auto simp: explains_def split: outcome.splits)
    with tr h assms(3) refusal show ?thesis
      unfolding sent_safely_def by (intro exI[of _ "(Primary, q, Raised e) # tr"]) (cases tr; auto)
  next
    case (Some z)
    with assms(5) handle have "x = z" "w' = w2" by simp_all
    with h Some assms(3) show ?thesis by (intro sent_safelyI[of _ _ _ "[(Primary, q, Raised e)]"]) auto
  qed
qed

text \<open>C3. An opening order is sent at most twice, and to the secondary after the primary only when the primary
  certainly did not take it; after a doubtful answer nothing more is sent. The outcome is what the
  last answer says, a doubt at the primary being the only one a resolver may clear.\<close>

theorem doubtful_order_never_resent:
  assumes "send_log E sent" "or_effect o' = OPEN_EFFECT" "submit_order E C o' f w = (x, f', w')"
  shows "\<exists>tr. sent w' = sent w @ tr \<and> length tr \<le> 2 \<and> explains o' tr x \<and>
    (length tr = 2 \<longrightarrow> fst (tr ! 0) = Primary \<and> fst (tr ! 1) = Secondary \<and> certain_refusal (snd (snd (tr ! 0))))"
proof -
  obtain f0 w0 where snap: "read_snapshot E C f w = (f0, w0)" by fastforce
  obtain el p f1 w1 where admit: "admit_primary E C f0 w0 = ((el, p), f1, w1)" by (metis prod.exhaust)
  define fin where "fin = (if p then on_circuit release_probe_permit else id)"
  have symbols: "fr_symbols (fin g) = fr_symbols g" for g by (simp add: fin_def symbols_kept)
  have same: "sent w1 = sent w" using snapshot_sends[OF snap assms(1)] admit_sends[OF admit assms(1)] by simp
  have open_effect: "or_effect o' \<noteq> REDUCE_EFFECT" using assms(2) by simp
  note run = assms(3)[unfolded submit_order_def Let_def if_not_P[OF open_effect] snap admit prod.case, folded fin_def]
  have "sent_safely sent o' x w1 w'"
  proof (cases el)
    case False
    with run have "route_failover E C o' False f1 w1 = (x, f', w')" by simp
    from failover_sends[OF this assms(1)] show ?thesis by (auto intro: sent_safelyI)
  next
    case True
    obtain a w2 where route: "route_to_broker E C Primary o' f1 w1 = (a, w2)" by fastforce
    from route_sends[OF route assms(1)] consider "a = No_symbol" "sent w2 = sent w1"
      | q v where "sent w2 = sent w1 @ [(Primary, q, Accepted v)]" "q\<lparr>or_symbol := or_symbol o'\<rparr> = o'" "a = Placed v"
      | q e where "sent w2 = sent w1 @ [(Primary, q, Raised e)]" "q\<lparr>or_symbol := or_symbol o'\<rparr> = o'" "a = Failed e"
      by (fastforce split: broker_reply.splits)
    then show ?thesis
    proof cases
      case 1
      with run True route show ?thesis by (intro sent_safelyI[of _ _ _ "[]"]) (simp_all add: explains_def)
    next
      case 2
      with run True route have "x = Filled v" "w' = w2" by auto
      with 2 show ?thesis by (intro sent_safelyI[of _ _ _ "[(Primary, q, Accepted v)]"]) (simp_all add: explains_def)
    next
      case 3
      with run True route have "(case handle_primary_exception E C e o' (generation (fr_circuit f0)) f1 w2 of
        (Some y, f2, w3) \<Rightarrow> (y, fin f2, w3) | (None, f2, w3) \<Rightarrow> route_failover E C o' True (fin f2) w3) = (x, f', w')" by simp
      from failed_primary_sends[OF assms(1) route[unfolded 3(3)] 3(1,2) this symbols] show ?thesis .
    qed
  qed
  then show ?thesis using same by (simp add: sent_safely_def)
qed

text \<open>C27. Once an operator has opened the circuit, and whatever calls in other threads do to it short of a reset,
  an opening order reaches the secondary only, and the circuit is still open afterwards.\<close>

theorem manual_open_keeps_primary_out:
  assumes "send_log E sent" "or_effect o' = OPEN_EFFECT" "Reset \<notin> set es"
    and "fr_circuit f = fold (circuit_step (fc_breaker C)) es (manual_open now c)" "submit_order E C o' f w = (x, f', w')"
  shows "\<exists>tr. sent w' = sent w @ tr \<and> list_all (\<lambda>t. fst t = Secondary) tr \<and>
    circuit_state (fr_circuit f') = OPEN \<and> manually_opened (fr_circuit f')"
proof -
  have held: "circuit_state (fr_circuit f) = OPEN" "manually_opened (fr_circuit f)"
    unfolding assms(4) using manual_open_holds[OF assms(3)] by blast+
  have "read_snapshot E C f w = (f, w)" using held by (simp add: read_snapshot_def)
  moreover have "admit_primary E C f w = ((False, False), f, w)" using held by (simp add: admit_primary_def)
  ultimately have "route_failover E C o' False f w = (x, f', w')" using assms(2,5) by (simp add: submit_order_def)
  from failover_sends[OF this assms(1)] obtain tr where tr: "sent w' = sent w @ tr" "list_all (\<lambda>t. fst t = Secondary) tr" by blast
  obtain es' where es': "list_all (\<lambda>e. \<not> operator_event e) es'" "fr_circuit f' = fold (circuit_step (fc_breaker C)) es' (fr_circuit f)"
    using submit_sections[OF assms(5)] unfolding by_sections_def by blast
  have "list_all (\<lambda>e. e \<noteq> Reset) es'" using es'(1) by (auto simp: list_all_iff operator_event_def split: circuit_event.splits)
  with held_open.run_guarded[of es' "fr_circuit f" "fc_breaker C"] held es'(2) tr show ?thesis by auto
qed

section \<open>Reducing orders\<close>

text \<open>A position on the side of zero that an order of an action reduces.\<close>

definition reducible :: "order_action \<Rightarrow> dec \<Rightarrow> bool" where
  "reducible a q \<longleftrightarrow> (if a = FSELL then 0 \<le> dec_rat q else dec_rat q \<le> 0)"

lemma position_fill: "position_at k (or_symbol o') (apply_fill l o' f) =
    (if k = l then dec_add (position_at l (or_symbol o') f) (signed_quantity o') else position_at k (or_symbol o') f)"
  by (cases k; cases l) (simp_all add: position_at_def apply_fill_def put_position_def book_of_def py_get_set)

lemma fill_reduces:
  assumes "can_reduce_at l o' f" "clean_symbol (or_symbol o') = or_symbol o'" "digit_count \<bar>dec_coeff (or_quantity o')\<bar> \<le> 28"
    and "0 < dec_rat (or_quantity o')"
  shows "reducible (or_action o') (position_at l (or_symbol o') f) \<and> reducible (or_action o') (position_at l (or_symbol o') (apply_fill l o' f))"
proof -
  have minus: "dec_rat (dec_minus (or_quantity o')) = - dec_rat (or_quantity o')"
    using assms(3) by (simp add: dec_minus_def dec_neg_def dec_fix_small dec_rat_def)
  note new = position_fill[of l o' l f]
  show ?thesis
  proof (cases "or_action o'")
    case FSELL
    with assms(1,2,4) minus new show ?thesis
      by (auto simp: can_reduce_at_def dec_le_def reducible_def signed_quantity_def intro!: dec_add_nonneg)
  next
    case FBUY
    with assms(1,2,4) minus new show ?thesis
      by (auto simp: can_reduce_at_def dec_le_def reducible_def signed_quantity_def intro!: dec_add_nonpos)
  qed
qed

lemma position_same:
  "position_at l s (on_circuit g f) = position_at l s f" "position_at l s (count_ambiguous f) = position_at l s f"
  "position_at l s (count_rejected f) = position_at l s f" "position_at l s (count_routed l' f) = position_at l s f"
  by (cases l; cases l'; simp add: position_at_def book_of_def on_circuit_def count_ambiguous_def count_rejected_def count_routed_def)+

lemma position_fill_cong: "(\<And>l. position_at l (or_symbol o') f1 = position_at l (or_symbol o') f) \<Longrightarrow>
    position_at k (or_symbol o') (apply_fill l o' f1) = position_at k (or_symbol o') (apply_fill l o' f)"
  by (simp add: position_fill)

lemma record_failure_position: "record_failure E C gen e f w = (f', w') \<Longrightarrow> position_at l s f' = position_at l s f"
  by (auto simp: record_failure_def position_same split: prod.splits)

lemma reduce_sends:
  assumes "send_log E sent"
  shows "submit_reduce_at E C ls o' f w = (x, f', w') \<Longrightarrow>
    \<exists>tr. sent w' = sent w @ tr \<and> length tr \<le> 1 \<and> list_all (\<lambda>(l, q, r). can_reduce_at l o' f \<and> q\<lparr>or_symbol := or_symbol o'\<rparr> = o') tr \<and>
      (if \<exists>r. x = Filled r
       then \<exists>l. can_reduce_at l o' f \<and> map fst tr = [l] \<and> (\<forall>k. position_at k (or_symbol o') f' = position_at k (or_symbol o') (apply_fill l o' f))
       else \<forall>k. position_at k (or_symbol o') f' = position_at k (or_symbol o') f)"
proof (induction ls)
  case (Cons l ls)
  show ?case
  proof (cases "can_reduce_at l o' f")
    case True
    obtain a w1 where route: "route_to_broker E C l o' f w = (a, w1)" by fastforce
    from route_sends[OF route assms] show ?thesis
    proof (elim disjE exE conjE)
      assume "a = No_symbol" "sent w1 = sent w"
      with Cons.prems True route show ?thesis by (intro exI[of _ "[]"]) auto
    next
      fix q r
      assume s: "sent w1 = sent w @ [(l, q, r)]" "q\<lparr>or_symbol := or_symbol o'\<rparr> = o'" "a = (case r of Accepted v \<Rightarrow> Placed v | Raised e \<Rightarrow> Failed e)"
      show ?thesis
      proof (cases r)
        case (Accepted v)
        define f1 where "f1 = (if l = Primary then on_circuit (record_primary_success (fc_breaker C) (generation (fr_circuit f)) False) f else f)"
        have "x = Filled v" "f' = apply_fill l o' (count_routed l f1)" "w' = w1"
          using Cons.prems True route s Accepted by (auto simp: Let_def f1_def)
        moreover have "position_at k (or_symbol o') (apply_fill l o' (count_routed l f1)) = position_at k (or_symbol o') (apply_fill l o' f)" for k
          by (rule position_fill_cong) (simp add: position_same f1_def)
        ultimately show ?thesis using s True by (intro exI[of _ "[(l, q, r)]"]) auto
      next
        case (Raised e)
        obtain f1 w2 where rec: "(if l = Primary \<and> classify_exception e \<noteq> REJECTED then record_failure E C (generation (fr_circuit f)) e f w1 else (f, w1)) = (f1, w2)"
          by fastforce
        then have "sent w2 = sent w1" "\<And>k. position_at k (or_symbol o') f1 = position_at k (or_symbol o') f"
          using record_failure_sends[OF _ assms] record_failure_position by (auto split: if_splits)
        moreover have "(\<nexists>v. x = Filled v) \<and> f' \<in> {count_ambiguous f1, count_rejected f1, f1} \<and> w' = w2"
          using Cons.prems True route s Raised rec by (auto simp: Let_def split: if_splits)
        ultimately show ?thesis using s True by (intro exI[of _ "[(l, q, r)]"]) (auto simp: position_same)
      qed
    qed
  qed (use Cons in simp)
qed auto

text \<open>C17. A reducing order is sent at most once, to an account whose position it reduces; filling it never turns
  that position to the other side of zero, and no other position of the symbol changes.\<close>

theorem reduce_stays_with_position:
  assumes "send_log E sent" "make_failover_order sy ac qu cid ty lm REDUCE_EFFECT = Inr o'"
    and "digit_count \<bar>dec_coeff (or_quantity o')\<bar> \<le> 28" "submit_order E C o' f w = (x, f', w')"
  shows "\<exists>tr. sent w' = sent w @ tr \<and> length tr \<le> 1 \<and> list_all (\<lambda>(l, q, r). can_reduce_at l o' f) tr \<and>
    (\<forall>k. position_at k (or_symbol o') f' = position_at k (or_symbol o') f \<or>
      map fst tr = [k] \<and> reducible (or_action o') (position_at k (or_symbol o') f) \<and> reducible (or_action o') (position_at k (or_symbol o') f'))"
proof -
  have made: "or_effect o' = REDUCE_EFFECT" "clean_symbol (or_symbol o') = or_symbol o'" "0 < dec_rat (or_quantity o')"
    using assms(2) by (auto simp: make_failover_order_def positive_order_decimal_def clean_symbol_def upper_strip_idem split: if_splits option.splits sum.splits)
  have run: "submit_reduce_at E C [Primary, Secondary] o' f w = (x, f', w')" using assms(4) by (simp only: submit_reduce[OF made(1)])
  from reduce_sends[OF assms(1) run] obtain tr where tr: "sent w' = sent w @ tr" "length tr \<le> 1" "list_all (\<lambda>(l, q, r). can_reduce_at l o' f \<and> q\<lparr>or_symbol := or_symbol o'\<rparr> = o') tr"
    and pos: "if \<exists>r. x = Filled r
       then \<exists>l. can_reduce_at l o' f \<and> map fst tr = [l] \<and> (\<forall>k. position_at k (or_symbol o') f' = position_at k (or_symbol o') (apply_fill l o' f))
       else \<forall>k. position_at k (or_symbol o') f' = position_at k (or_symbol o') f" by blast
  have "\<forall>k. position_at k (or_symbol o') f' = position_at k (or_symbol o') f \<or>
      map fst tr = [k] \<and> reducible (or_action o') (position_at k (or_symbol o') f) \<and> reducible (or_action o') (position_at k (or_symbol o') f')"
    using pos fill_reduces[OF _ made(2) assms(3) made(3)] position_fill[of _ o' _ f] by (metis (no_types, lifting))
  with tr show ?thesis by (auto simp: list_all_iff)
qed

section \<open>Recovery\<close>

text \<open>A primary that accepts every order again, and a clock past a given time.\<close>

definition primary_back :: "('w, 'r) failover_env \<Rightarrow> rat \<Rightarrow> bool" where
  "primary_back E t \<longleftrightarrow> (\<forall>o' w. \<exists>r w1. place_order E Primary o' w = (Accepted r, w1)) \<and> (\<forall>w. t < fst (monotonic_time E w))"

fun submit_all :: "('w, 'r) failover_env \<Rightarrow> failover_config \<Rightarrow> failover_order list \<Rightarrow> failover \<Rightarrow> 'w \<Rightarrow> failover \<times> 'w" where
  "submit_all E C [] f w = (f, w)"
| "submit_all E C (q # qs) f w = (case submit_order E C q f w of (x, f1, w1) \<Rightarrow> submit_all E C qs f1 w1)"

text \<open>The next opening order will be a probe, with \<open>n\<close> successes so far.\<close>

definition about_to_probe :: "failover_config \<Rightarrow> rat \<Rightarrow> int \<Rightarrow> failover \<Rightarrow> bool" where
  "about_to_probe C t n f \<longleftrightarrow>
     (let c = fr_circuit f in
      backoff_until c \<le> t \<and> \<not> manually_opened c \<and>
      (circuit_state c = OPEN \<and> last_failure c + recovery_timeout (fc_breaker C) \<le> t \<and> n = 0 \<or>
       circuit_state c = HALF_OPEN \<and> half_open_probes c = 0 \<and> half_open_successes c = n))"

lemma probe_succeeds:
  assumes "breaker_config_ok (fc_breaker C)" "\<not> fc_strict C" "primary_back E t" "about_to_probe C t n f" "or_effect q = OPEN_EFFECT"
    and "submit_order E C q f w = (x, f', w')"
  shows "(\<exists>r. x = Filled r) \<and>
    (if n + 1 < successes_to_close (fc_breaker C) then about_to_probe C t (n + 1) f'
     else circuit_state (fr_circuit f') = CLOSED \<and> primary_failures (fr_circuit f') = 0)"
proof -
  obtain f0 w0 where snap: "read_snapshot E C f w = (f0, w0)" by fastforce
  have late: "t < fst (monotonic_time E v)" for v using assms(3) by (simp add: primary_back_def)
  have half: "circuit_state (fr_circuit f0) = HALF_OPEN" "half_open_probes (fr_circuit f0) = 0" "half_open_successes (fr_circuit f0) = n"
    "backoff_until (fr_circuit f0) \<le> t" "\<not> manually_opened (fr_circuit f0)"
    using snap assms(4) late[of w]
    by (auto simp: read_snapshot_def about_to_probe_def Let_def snapshot_state_def probe_due_def split: if_splits prod.splits)
  define c where "c = (fr_circuit f0)\<lparr>half_open_probes := 1\<rparr>"
  have "acquire_probe_permit (fc_breaker C) (fr_circuit f0) = (True, c)"
    using half assms(1) by (simp add: acquire_probe_permit_def breaker_config_ok_def c_def)
  moreover obtain now w1 where time: "monotonic_time E w0 = (now, w1)" by fastforce
  moreover have "\<not> now < backoff_until c" using half(4) late[of w0] time by (simp add: c_def)
  ultimately have admit: "admit_primary E C f0 w0 = ((True, True), f0\<lparr>fr_circuit := c\<rparr>, w1)"
    using half(1) by (simp add: admit_primary_def)
  obtain r w2 where route: "route_to_broker E C Primary q (f0\<lparr>fr_circuit := c\<rparr>) w1 = (Placed r, w2)"
  proof -
    have "get_broker_symbol C (f0\<lparr>fr_circuit := c\<rparr>) (or_symbol q) Primary \<noteq> None"
      using assms(2) by (auto simp: get_broker_symbol_def split: option.split)
    then obtain s where "get_broker_symbol C (f0\<lparr>fr_circuit := c\<rparr>) (or_symbol q) Primary = Some s" by blast
    moreover obtain r w2 where "place_order E Primary (q\<lparr>or_symbol := clean_symbol s\<rparr>) w1 = (Accepted r, w2)"
      using assms(3) unfolding primary_back_def by blast
    ultimately show ?thesis using that by (simp add: route_to_broker_def)
  qed
  have open_effect: "or_effect q \<noteq> REDUCE_EFFECT" using assms(5) by simp
  note run = assms(6)[unfolded submit_order_def Let_def if_not_P[OF open_effect] snap admit prod.case]
  have "x = Filled r" "fr_circuit f' = release_probe_permit (record_primary_success (fc_breaker C) (generation (fr_circuit f0)) True c)"
    using run route by auto
  then show ?thesis
    using half by (auto simp: c_def record_primary_success_def release_probe_permit_def close_circuit_def about_to_probe_def Let_def)
qed

text \<open>C36. Once the primary works again and the recovery time has passed, an automatically opened circuit is
  closed after as many opening orders as the successes asked for. The symbol map is not strict, the
  default: a strict router does not send an order whose symbol it cannot map, and such an order
  is no success.\<close>

theorem circuit_recovers:
  assumes "breaker_config_ok (fc_breaker C)" "\<not> fc_strict C" "primary_back E t"
    and "circuit_state (fr_circuit f) = OPEN" "\<not> manually_opened (fr_circuit f)"
    and "last_failure (fr_circuit f) + recovery_timeout (fc_breaker C) \<le> t" "backoff_until (fr_circuit f) \<le> t"
    and "list_all (\<lambda>q. or_effect q = OPEN_EFFECT) qs" "int (length qs) = successes_to_close (fc_breaker C)"
  shows "primary_health (fr_circuit (fst (submit_all E C qs f w))) = HEALTHY"
proof -
  have "about_to_probe C t n f \<Longrightarrow> list_all (\<lambda>q. or_effect q = OPEN_EFFECT) qs \<Longrightarrow> qs \<noteq> [] \<Longrightarrow>
      n + int (length qs) = successes_to_close (fc_breaker C) \<Longrightarrow>
      primary_health (fr_circuit (fst (submit_all E C qs f w))) = HEALTHY" for n
  proof (induction qs arbitrary: n f w)
    case (Cons q qs)
    obtain x f1 w1 where run: "submit_order E C q f w = (x, f1, w1)" by (metis prod_cases3)
    note step = probe_succeeds[OF assms(1-3) Cons.prems(1) _ run]
    show ?case
    proof (cases "qs = []")
      case True
      with step Cons.prems(2,4) run show ?thesis by (simp add: primary_health_def)
    next
      case False
      then have "0 < int (length qs)" by simp
      then have "n + 1 < successes_to_close (fc_breaker C)" using Cons.prems(4) unfolding length_Cons of_nat_Suc by linarith
      with step Cons.prems(2) have "about_to_probe C t (n + 1) f1" by (simp split: if_splits)
      with Cons.IH[of "n + 1" f1 w1] Cons.prems(2,4) False run show ?thesis by simp
    qed
  qed simp
  moreover have "about_to_probe C t 0 f" using assms(4-7) by (simp add: about_to_probe_def)
  moreover have "qs \<noteq> []" using assms(1,9) by (auto simp: breaker_config_ok_def)
  ultimately show ?thesis using assms(8,9) by simp
qed

section \<open>What the documentation says otherwise\<close>

text \<open>
  With the circuit open, a symbol missing from a strict map is reported as an order that may be
  live at the secondary, although nothing was sent.
\<close>

lemma missing_symbol_in_doubt:
  assumes "fc_strict C" "py_get (fr_symbols f) (or_symbol o') = None" "or_effect o' = OPEN_EFFECT"
    and "circuit_state (fr_circuit f) = OPEN" "manually_opened (fr_circuit f)"
  shows "submit_order E C o' f w = (Ambiguous_state Secondary, count_ambiguous f, w)"
  using assms
  by (simp add: submit_order_def read_snapshot_def admit_primary_def route_failover_def route_to_broker_def get_broker_symbol_def)

end
