(* ===== verification/Failover_Witnesses.thy ===== *)
theory Failover_Witnesses
  imports Failover_Properties
begin

text \<open>
  Instances of the failover properties in a world that holds the time and the log of what was
  sent: the primary refuses connections before noon and works afterwards.
\<close>

definition demo_brokers :: "(rat \<times> string send list, string) failover_env" where
  "demo_brokers = \<lparr>place_order = (\<lambda>l q w.
       (let r = (if l = Primary \<and> fst w < 43200 then Raised Connection_refused else Accepted ''filled'') in (r, (fst w, snd w @ [(l, q, r)])))),
     monotonic_time = (\<lambda>w. (fst w, w)), order_status_resolver = None\<rparr>"

definition demo_failover_config :: failover_config where
  "demo_failover_config = \<lparr>fc_breaker = \<lparr>max_consecutive_failures = 3, recovery_timeout = 60, half_open_max_probes = 1, successes_to_close = 2\<rparr>,
     fc_primary_name = ''first'', fc_secondary_name = ''second'', fc_strict = False\<rparr>"

definition demo_router_state :: failover where
  "demo_router_state = \<lparr>fr_circuit = new_circuit, fr_symbols = [], fr_primary_book = [(''XYZ'', Dec 5 0)], fr_secondary_book = [],
     fr_counters = \<lparr>routed_primary = 0, routed_secondary = 0, ambiguous_outcomes = 0, terminal_rejections = 0, failovers = 0\<rparr>\<rparr>"

definition demo_opening :: failover_order where
  "demo_opening = \<lparr>or_symbol = ''XYZ'', or_action = FBUY, or_quantity = Dec 10 0, or_client_id = ''o1'', or_type = ''MARKET'',
     or_limit = None, or_effect = OPEN_EFFECT\<rparr>"

definition demo_closing :: failover_order where
  "demo_closing = demo_opening\<lparr>or_action := FSELL, or_quantity := Dec 5 0, or_effect := REDUCE_EFFECT\<rparr>"

lemma demo_log: "send_log demo_brokers snd"
  by (simp add: send_log_def demo_brokers_def Let_def)

lemma demo_symbol: "clean_symbol ''XYZ'' = ''XYZ''"
  by code_simp

lemma demo_breaker_ok: "breaker_config_ok (fc_breaker demo_failover_config)"
  by (simp add: breaker_config_ok_def demo_failover_config_def)

lemma circuit_always_consistent_witness:
  "circuit_inv (fc_breaker demo_failover_config)
    (fold (circuit_step (fc_breaker demo_failover_config)) [Failure 0 None 1, Snapshot 70, Acquire, Release] new_circuit)"
  by (rule circuit_always_consistent[OF demo_breaker_ok])

lemma closes_only_on_success_witness:
  "\<exists>probe. Success 0 False = Success (generation (new_circuit\<lparr>circuit_state := HALF_OPEN\<rparr>)) probe"
proof -
  have "circuit_state (circuit_step (fc_breaker demo_failover_config) (Success 0 False) (new_circuit\<lparr>circuit_state := HALF_OPEN\<rparr>)) = CLOSED"
    by (simp add: record_primary_success_def close_circuit_def new_circuit_def)
  from closes_only_on_success[OF _ this] show ?thesis by auto
qed

lemmas demo_submit = submit_order_def read_snapshot_def admit_primary_def route_to_broker_def get_broker_symbol_def
  handle_primary_exception_def record_failure_def classify_exception_def route_failover_def Let_def symbols_kept

lemma demo_refused_then_secondary:
  "\<exists>f' w'. submit_order demo_brokers demo_failover_config demo_opening demo_router_state (10, []) = (Filled ''filled'', f', w') \<and> length (snd w') = 2"
  by (simp add: demo_submit demo_brokers_def demo_failover_config_def demo_opening_def demo_router_state_def new_circuit_def py_get_def)

lemma doubtful_order_never_resent_witness:
  "\<exists>x f' w'. submit_order demo_brokers demo_failover_config demo_opening demo_router_state (10, []) = (x, f', w') \<and>
    certain_refusal (snd (snd (snd w' ! 0)))"
proof -
  obtain f' w' where run: "submit_order demo_brokers demo_failover_config demo_opening demo_router_state (10, []) = (Filled ''filled'', f', w')"
    "length (snd w') = 2" using demo_refused_then_secondary by blast
  have "or_effect demo_opening = OPEN_EFFECT" by (simp add: demo_opening_def)
  from doubtful_order_never_resent[OF demo_log this run(1)] run show ?thesis by auto
qed

lemma manual_open_keeps_primary_out_witness:
  "\<exists>x f' w'. submit_order demo_brokers demo_failover_config demo_opening
      (demo_router_state\<lparr>fr_circuit := fold (circuit_step (fc_breaker demo_failover_config)) [Snapshot 1000] (manual_open 5 new_circuit)\<rparr>) (50000, []) = (x, f', w') \<and>
    list_all (\<lambda>t. fst t = Secondary) (snd w')"
proof -
  let ?f = "demo_router_state\<lparr>fr_circuit := fold (circuit_step (fc_breaker demo_failover_config)) [Snapshot 1000] (manual_open 5 new_circuit)\<rparr>"
  obtain x f' w' where run: "submit_order demo_brokers demo_failover_config demo_opening ?f (50000, []) = (x, f', w')" by (metis prod_cases3)
  have "or_effect demo_opening = OPEN_EFFECT" "Reset \<notin> set [Snapshot 1000]"
    "fr_circuit ?f = fold (circuit_step (fc_breaker demo_failover_config)) [Snapshot 1000] (manual_open 5 new_circuit)"
    by (simp_all add: demo_opening_def)
  from manual_open_keeps_primary_out[OF demo_log this run] run show ?thesis by auto
qed

lemma demo_closing_made:
  "make_failover_order (V_str ''xyz'') (V_str ''sell'') (Num_decimal (Dec 5 0)) (V_str ''o1'') (V_str ''market'') None REDUCE_EFFECT = Inr demo_closing"
proof -
  have "clean_symbol ''xyz'' = ''XYZ''" "clean_symbol ''sell'' = ''SELL''" "clean_symbol ''market'' = ''MARKET''" "py_strip ''o1'' = ''o1''"
    by code_simp+
  then show ?thesis
    by (simp add: make_failover_order_def read_action_def positive_order_decimal_def order_decimal_def dec_rat_def demo_closing_def demo_opening_def)
qed

lemma reduce_stays_with_position_witness:
  "\<exists>x f' w'. submit_order demo_brokers demo_failover_config demo_closing demo_router_state (50000, []) = (x, f', w') \<and>
    list_all (\<lambda>(l, q, r). can_reduce_at l demo_closing demo_router_state) (snd w')"
proof -
  obtain x f' w' where run: "submit_order demo_brokers demo_failover_config demo_closing demo_router_state (50000, []) = (x, f', w')" by (metis prod_cases3)
  have "digit_count \<bar>dec_coeff (or_quantity demo_closing)\<bar> \<le> 28" by (simp add: demo_closing_def digit_count.simps)
  from reduce_stays_with_position[OF demo_log demo_closing_made this run] run show ?thesis by auto
qed

text \<open>A primary back at work, on a clock that only ever shows the afternoon.\<close>

definition afternoon :: "(unit, string) failover_env" where
  "afternoon = \<lparr>place_order = (\<lambda>l q w. (Accepted ''filled'', ())), monotonic_time = (\<lambda>w. (50000, w)), order_status_resolver = None\<rparr>"

lemma circuit_recovers_witness:
  "primary_health (fr_circuit (fst (submit_all afternoon demo_failover_config [demo_opening, demo_opening]
      (demo_router_state\<lparr>fr_circuit := trip new_circuit\<rparr>) ()))) = HEALTHY"
proof (rule circuit_recovers[OF demo_breaker_ok, where t = 49000])
  show "primary_back afternoon 49000" by (simp add: primary_back_def afternoon_def)
qed (simp_all add: demo_failover_config_def demo_opening_def trip_def new_circuit_def)

end
