(* ===== verification/Depth_Reconciler.thy ===== *)
theory Depth_Reconciler
  imports Py_Value
begin

text \<open>
  Model of \<open>skills/market-data-snapshot-plus-delta-reconciliation/scripts/order_book_reconciler.py\<close>:
  a local level 2 book kept from a venue's snapshots and deltas. Prices and quantities are numbers
  that are equal as Python compares them, so the integer 1 and the float 1.0 are one price level;
  a float is the rational it denotes. Messages are left out.
\<close>

section \<open>Levels and deltas\<close>

datatype depth_error = Depth_value_error | Depth_overflow | Order_book_error

datatype raw_level = Malformed_level | Raw_level py_value py_value

type_synonym depth_level = "rat \<times> rat"

text \<open>\<open>math.isfinite\<close> converts an integer to a float, which a huge one does not survive.\<close>

definition is_finite :: "py_value \<Rightarrow> depth_error + bool" where
  "is_finite v = (case v of
     V_int n \<Rightarrow> (if double_of_int n = None then Inl Depth_overflow else Inr True)
   | V_float _ _ \<Rightarrow> Inr True
   | _ \<Rightarrow> Inr False)"

definition is_bool :: "py_value \<Rightarrow> bool" where
  "is_bool v = (case v of V_bool _ \<Rightarrow> True | _ \<Rightarrow> False)"

definition is_number :: "py_value \<Rightarrow> bool" where
  "is_number v = (case v of V_bool _ \<Rightarrow> True | V_int _ \<Rightarrow> True | V_float _ _ \<Rightarrow> True | V_nan \<Rightarrow> True | V_inf _ \<Rightarrow> True | _ \<Rightarrow> False)"

definition value_of :: "py_value \<Rightarrow> rat" where
  "value_of v = (case py_number v of None \<Rightarrow> 0 | Some x \<Rightarrow> num_rat x)"

definition validate_level :: "raw_level \<Rightarrow> depth_error + depth_level" where
  "validate_level l = (case l of
     Malformed_level \<Rightarrow> Inl Depth_value_error
   | Raw_level price qty \<Rightarrow>
       (if is_bool price \<or> is_bool qty then Inl Depth_value_error
        else if \<not> is_number price \<or> \<not> is_number qty then Inl Depth_value_error
        else case is_finite price of
          Inl e \<Rightarrow> Inl e
        | Inr False \<Rightarrow> Inl Depth_value_error
        | Inr True \<Rightarrow>
            (case is_finite qty of
               Inl e \<Rightarrow> Inl e
             | Inr False \<Rightarrow> Inl Depth_value_error
             | Inr True \<Rightarrow>
                 (if value_of price \<le> 0 then Inl Depth_value_error
                  else if value_of qty < 0 then Inl Depth_value_error
                  else Inr (value_of price, value_of qty)))))"

fun validate_levels :: "raw_level list \<Rightarrow> depth_error + depth_level list" where
  "validate_levels [] = Inr []"
| "validate_levels (l # ls) =
     (case validate_level l of
        Inl e \<Rightarrow> Inl e
      | Inr x \<Rightarrow> (case validate_levels ls of Inl e \<Rightarrow> Inl e | Inr xs \<Rightarrow> Inr (x # xs)))"

record delta_update =
  first_update_id :: int
  final_update_id :: int
  delta_bids :: "depth_level list"
  delta_asks :: "depth_level list"

definition make_delta_update :: "int \<Rightarrow> int \<Rightarrow> raw_level list \<Rightarrow> raw_level list \<Rightarrow> depth_error + delta_update" where
  "make_delta_update first final bids asks =
     (if first < 0 \<or> final < 0 then Inl Depth_value_error
      else if first > final then Inl Depth_value_error
      else case validate_levels bids of
        Inl e \<Rightarrow> Inl e
      | Inr bs \<Rightarrow>
          (case validate_levels asks of
             Inl e \<Rightarrow> Inl e
           | Inr as \<Rightarrow> Inr \<lparr>first_update_id = first, final_update_id = final, delta_bids = bs, delta_asks = as\<rparr>))"

section \<open>The reconciler\<close>

datatype depth_state = UNINITIALIZED | SYNCHRONIZED | CORRUPT

type_synonym depth_side = "(rat, rat) py_dict"

record depth_book =
  book_bids :: depth_side
  book_asks :: depth_side
  book_sequence :: int
  depth_status :: depth_state
  delta_buffer :: "delta_update list"

definition make_reconciler :: "int \<Rightarrow> depth_error + depth_book" where
  "make_reconciler max_buffer_size =
     (if max_buffer_size \<le> 0 then Inl Depth_value_error
      else Inr \<lparr>book_bids = [], book_asks = [], book_sequence = -1, depth_status = UNINITIALIZED, delta_buffer = []\<rparr>)"

text \<open>Empties the book and marks it corrupt; the caller then raises.\<close>

definition mark_corrupt :: "bool \<Rightarrow> delta_update option \<Rightarrow> depth_book \<Rightarrow> depth_book" where
  "mark_corrupt clear_buffer requeue b =
     b\<lparr>depth_status := CORRUPT, book_bids := [], book_asks := [], book_sequence := -1,
       delta_buffer := (if clear_buffer then [] else delta_buffer b) @ (case requeue of None \<Rightarrow> [] | Some d \<Rightarrow> [d])\<rparr>"

definition set_level :: "depth_side \<Rightarrow> depth_level \<Rightarrow> depth_side" where
  "set_level d l = (if snd l = 0 then py_del d (fst l) else py_set d (fst l) (snd l))"

definition apply_delta_payload :: "delta_update \<Rightarrow> depth_book \<Rightarrow> depth_book" where
  "apply_delta_payload d b =
     b\<lparr>book_bids := foldl set_level (book_bids b) (delta_bids d), book_asks := foldl set_level (book_asks b) (delta_asks d),
       book_sequence := final_update_id d\<rparr>"

text \<open>The two entry points call each other once at most: a delta is queued or followed by the state.\<close>

definition queue_delta :: "int \<Rightarrow> delta_update \<Rightarrow> depth_book \<Rightarrow> (depth_error + unit) \<times> depth_book" where
  "queue_delta max_buffer_size d b =
     (if int (length (delta_buffer b)) \<ge> max_buffer_size then (Inl Order_book_error, b\<lparr>depth_status := CORRUPT\<rparr>)
      else (Inr (), b\<lparr>delta_buffer := delta_buffer b @ [d]\<rparr>))"

definition follow_delta :: "delta_update \<Rightarrow> depth_book \<Rightarrow> (depth_error + unit) \<times> depth_book" where
  "follow_delta d b =
     (if first_update_id d > book_sequence b + 1 then (Inl Order_book_error, mark_corrupt True (Some d) b)
      else if final_update_id d \<le> book_sequence b then (Inr (), b)
      else (Inr (), apply_delta_payload d b))"

definition buffer_delta :: "int \<Rightarrow> delta_update \<Rightarrow> depth_book \<Rightarrow> (depth_error + unit) \<times> depth_book" where
  "buffer_delta max_buffer_size d b =
     (if depth_status b = SYNCHRONIZED then follow_delta d b else queue_delta max_buffer_size d b)"

definition process_delta :: "int \<Rightarrow> delta_update \<Rightarrow> depth_book \<Rightarrow> (depth_error + unit) \<times> depth_book" where
  "process_delta max_buffer_size d b =
     (if depth_status b \<noteq> SYNCHRONIZED then queue_delta max_buffer_size d b else follow_delta d b)"

text \<open>A snapshot lists only levels that hold something.\<close>

definition snapshot_side :: "depth_level list \<Rightarrow> depth_side" where
  "snapshot_side ls = foldl (\<lambda>d (p, q). if q > 0 then py_set d p q else d) [] ls"

fun replay_buffered :: "delta_update list \<Rightarrow> depth_book \<Rightarrow> (depth_error + unit) \<times> depth_book" where
  "replay_buffered [] b = (Inr (), b)"
| "replay_buffered (d # ds) b =
     (if first_update_id d > book_sequence b + 1 then (Inl Order_book_error, mark_corrupt True None b)
      else if final_update_id d \<le> book_sequence b then replay_buffered ds b
      else replay_buffered ds (apply_delta_payload d b))"

definition snapshot_id :: "py_value \<Rightarrow> int option" where
  "snapshot_id v = (case v of V_int n \<Rightarrow> if n < 0 then None else Some n | _ \<Rightarrow> None)"

definition install_snapshot :: "int \<Rightarrow> depth_level list \<Rightarrow> depth_level list \<Rightarrow> depth_book \<Rightarrow> (depth_error + unit) \<times> depth_book" where
  "install_snapshot n bids asks b =
     (let b1 = b\<lparr>book_bids := snapshot_side bids, book_asks := snapshot_side asks, book_sequence := n\<rparr>;
          fresh = filter (\<lambda>d. final_update_id d > n) (delta_buffer b);
          replayed =
            (case fresh of
               [] \<Rightarrow> (Inr (), b1)
             | d # _ \<Rightarrow>
                 (if \<not> (first_update_id d \<le> n + 1 \<and> n + 1 \<le> final_update_id d)
                  then (Inl Order_book_error, mark_corrupt False None b1)
                  else replay_buffered fresh b1))
      in case replayed of
           (Inl e, b2) \<Rightarrow> (Inl e, b2)
         | (Inr _, b2) \<Rightarrow> (Inr (), b2\<lparr>delta_buffer := [], depth_status := SYNCHRONIZED\<rparr>))"

definition apply_snapshot :: "py_value \<Rightarrow> raw_level list \<Rightarrow> raw_level list \<Rightarrow> depth_book \<Rightarrow> (depth_error + unit) \<times> depth_book" where
  "apply_snapshot last_update_id bids asks b =
     (case snapshot_id last_update_id of
        None \<Rightarrow> (Inl Depth_value_error, b)
      | Some n \<Rightarrow>
          (case validate_levels bids of
             Inl e \<Rightarrow> (Inl e, b)
           | Inr bs \<Rightarrow> (case validate_levels asks of Inl e \<Rightarrow> (Inl e, b) | Inr as \<Rightarrow> install_snapshot n bs as b)))"

section \<open>Reading the book\<close>

definition is_crossed :: "depth_book \<Rightarrow> bool" where
  "is_crossed b \<longleftrightarrow> book_bids b \<noteq> [] \<and> book_asks b \<noteq> [] \<and>
     Max (set (py_keys (book_bids b))) \<ge> Min (set (py_keys (book_asks b)))"

definition level_at :: "depth_side \<Rightarrow> rat \<Rightarrow> depth_level" where
  "level_at d p = (p, case py_get d p of Some q \<Rightarrow> q | None \<Rightarrow> 0)"

definition get_top_of_book :: "depth_book \<Rightarrow> (depth_level \<times> depth_level) option" where
  "get_top_of_book b =
     (if depth_status b \<noteq> SYNCHRONIZED \<or> book_bids b = [] \<or> book_asks b = [] then None
      else Some (level_at (book_bids b) (Max (set (py_keys (book_bids b)))), level_at (book_asks b) (Min (set (py_keys (book_asks b))))))"

section \<open>The reconciler as a machine\<close>

datatype depth_event =
    Buffer_delta delta_update | Process_delta delta_update | Apply_snapshot py_value "raw_level list" "raw_level list"

fun depth_step :: "int \<Rightarrow> depth_event \<Rightarrow> depth_book \<Rightarrow> depth_book" where
  "depth_step N (Buffer_delta d) b = snd (buffer_delta N d b)"
| "depth_step N (Process_delta d) b = snd (process_delta N d b)"
| "depth_step N (Apply_snapshot n bids asks) b = snd (apply_snapshot n bids asks b)"

end
