(* ===== verification/Depth_Properties.thy ===== *)
theory Depth_Properties
  imports Depth_Reconciler
begin

text \<open>
  What the reconciler promises of a venue whose book has a version per update id: a synchronised
  local book is the venue's book at its sequence number, any other local book is empty, and a
  snapshot that meets the buffered deltas synchronises.
\<close>

section \<open>The venue\<close>

datatype quote_side = Bid | Ask

text \<open>The quantity the venue holds on a side at a price after an update id; none is 0.\<close>

type_synonym venue = "int \<Rightarrow> quote_side \<Rightarrow> rat \<Rightarrow> rat"

definition levels_on :: "quote_side \<Rightarrow> delta_update \<Rightarrow> depth_level list" where
  "levels_on s d = (case s of Bid \<Rightarrow> delta_bids d | Ask \<Rightarrow> delta_asks d)"

definition side_on :: "quote_side \<Rightarrow> depth_book \<Rightarrow> depth_side" where
  "side_on s b = (case s of Bid \<Rightarrow> book_bids b | Ask \<Rightarrow> book_asks b)"

text \<open>
  A delta of the venue: each price it lists holds at its final id the quantity it lists last, and
  a price it does not list has not changed since just before its first id.
\<close>

definition genuine_delta :: "venue \<Rightarrow> delta_update \<Rightarrow> bool" where
  "genuine_delta V d \<longleftrightarrow> first_update_id d \<le> final_update_id d \<and>
     (\<forall>s p. case map_of (rev (levels_on s d)) p of
        Some q \<Rightarrow> V (final_update_id d) s p = q
      | None \<Rightarrow> (\<forall>n. first_update_id d - 1 \<le> n \<longrightarrow> n \<le> final_update_id d \<longrightarrow> V n s p = V (final_update_id d) s p))"

text \<open>A snapshot of the venue lists each price once, and all that hold anything.\<close>

definition genuine_side :: "(rat \<Rightarrow> rat) \<Rightarrow> depth_level list \<Rightarrow> bool" where
  "genuine_side f ls \<longleftrightarrow> distinct (map fst ls) \<and> (\<forall>p. f p = (case map_of ls p of Some q \<Rightarrow> q | None \<Rightarrow> 0))"

definition genuine_event :: "venue \<Rightarrow> depth_event \<Rightarrow> bool" where
  "genuine_event V e = (case e of
     Buffer_delta d \<Rightarrow> genuine_delta V d
   | Process_delta d \<Rightarrow> genuine_delta V d
   | Apply_snapshot v bids asks \<Rightarrow>
       (case (snapshot_id v, validate_levels bids, validate_levels asks) of
          (Some n, Inr bs, Inr as) \<Rightarrow> genuine_side (V n Bid) bs \<and> genuine_side (V n Ask) as
        | _ \<Rightarrow> True))"

section \<open>One side\<close>

text \<open>A side shows a function of the price when its entries are exactly the nonzero values.\<close>

definition shows_side :: "depth_side \<Rightarrow> (rat \<Rightarrow> rat) \<Rightarrow> bool" where
  "shows_side d f \<longleftrightarrow> (\<forall>p. py_get d p = (if f p = 0 then None else Some (f p)))"

lemma py_get_set_level: "py_get (set_level d l) p =
    (if p = fst l then (if snd l = 0 then None else Some (snd l)) else py_get d p)"
  by (simp add: set_level_def dict_simps)

lemma set_levels_get: "py_get (foldl set_level d ls) p =
    (case map_of (rev ls) p of Some q \<Rightarrow> if q = 0 then None else Some q | None \<Rightarrow> py_get d p)"
proof (induction ls rule: rev_induct)
  case (snoc l ls)
  then show ?case by (cases l) (simp add: py_get_set_level)
qed simp

lemma genuine_deltaD:
  assumes "genuine_delta V d"
  shows "map_of (rev (levels_on s d)) p = Some q \<Longrightarrow> V (final_update_id d) s p = q"
    "map_of (rev (levels_on s d)) p = None \<Longrightarrow> first_update_id d - 1 \<le> n \<Longrightarrow> n \<le> final_update_id d \<Longrightarrow>
      V n s p = V (final_update_id d) s p"
proof -
  note listed = conjunct2[OF assms[unfolded genuine_delta_def], rule_format, of s p]
  show "V (final_update_id d) s p = q" if "map_of (rev (levels_on s d)) p = Some q"
    using listed unfolding that option.case .
  show "V n s p = V (final_update_id d) s p"
    if none: "map_of (rev (levels_on s d)) p = None" and n: "first_update_id d - 1 \<le> n" "n \<le> final_update_id d"
    using listed unfolding none option.case by (elim allE[of _ n] impE) (fact n)+
qed

lemma delta_shows:
  assumes "genuine_delta V d" "shows_side (side_on s b) (V n s)" "first_update_id d \<le> n + 1" "n \<le> final_update_id d"
  shows "shows_side (foldl set_level (side_on s b) (levels_on s d)) (V (final_update_id d) s)"
  unfolding shows_side_def
proof
  fix p
  show "py_get (foldl set_level (side_on s b) (levels_on s d)) p =
      (if V (final_update_id d) s p = 0 then None else Some (V (final_update_id d) s p))"
  proof (cases "map_of (rev (levels_on s d)) p")
    case None
    with assms(3,4) have "V n s p = V (final_update_id d) s p" by (intro genuine_deltaD(2)[OF assms(1)]) simp_all
    with None assms(2) show ?thesis by (simp add: set_levels_get shows_side_def)
  next
    case (Some q)
    with genuine_deltaD(1)[OF assms(1) Some] show ?thesis by (simp add: set_levels_get)
  qed
qed

lemma snapshot_fold_get:
  fixes ls :: "depth_level list"
  assumes "distinct (map fst ls)" "\<forall>l\<in>set ls. 0 \<le> snd l"
  shows "py_get (foldl (\<lambda>d (p, q). if q > 0 then py_set d p q else d) d ls) p =
    (case map_of ls p of Some q \<Rightarrow> if q = 0 then py_get d p else Some q | None \<Rightarrow> py_get d p)"
  using assms
proof (induction ls arbitrary: d)
  case (Cons l ls)
  obtain k q where l: "l = (k, q)" by fastforce
  have "map_of ls k = None" using Cons.prems l by (auto simp: map_of_eq_None_iff image_iff)
  moreover have "0 \<le> q" using Cons.prems(2) l by simp
  moreover have "py_get (foldl (\<lambda>d (p, q). if q > 0 then py_set d p q else d) (if q > 0 then py_set d k q else d) ls) p =
      (case map_of ls p of Some r \<Rightarrow> if r = 0 then py_get (if q > 0 then py_set d k q else d) p else Some r
       | None \<Rightarrow> py_get (if q > 0 then py_set d k q else d) p)"
    by (rule Cons.IH) (use Cons.prems in simp_all)
  ultimately show ?case using l by (cases "p = k"; cases "map_of ls p"; cases "q = 0") (simp_all add: dict_simps)
qed simp

lemma snapshot_shows:
  assumes "genuine_side f ls" "\<forall>l\<in>set ls. 0 \<le> snd l"
  shows "shows_side (snapshot_side ls) f"
  using assms snapshot_fold_get[OF _ assms(2), of "[]"]
  by (auto simp: shows_side_def genuine_side_def snapshot_side_def py_get_def split: option.splits)

lemma validated_level: "validate_level l = Inr x \<Longrightarrow> 0 < fst x \<and> 0 \<le> snd x"
  by (auto simp: validate_level_def split: raw_level.splits if_splits sum.splits bool.splits)

lemma validated_levels: "validate_levels ls = Inr xs \<Longrightarrow> \<forall>x\<in>set xs. 0 < fst x \<and> 0 \<le> snd x"
proof (induction ls arbitrary: xs)
  case (Cons l ls)
  then obtain x ys where "validate_level l = Inr x" "validate_levels ls = Inr ys" "xs = x # ys" by (auto split: sum.splits)
  with validated_level[of l x] Cons.IH[of ys] show ?case by simp
qed simp

section \<open>The invariant\<close>

definition mirrors :: "venue \<Rightarrow> depth_book \<Rightarrow> bool" where
  "mirrors V b \<longleftrightarrow> (\<forall>s. shows_side (side_on s b) (V (book_sequence b) s))"

definition depth_inv :: "venue \<Rightarrow> depth_book \<Rightarrow> bool" where
  "depth_inv V b \<longleftrightarrow> (\<forall>d\<in>set (delta_buffer b). genuine_delta V d) \<and>
     (if depth_status b = SYNCHRONIZED then mirrors V b \<and> delta_buffer b = []
      else book_bids b = [] \<and> book_asks b = [] \<and> book_sequence b = -1)"

lemma apply_mirrors:
  assumes "mirrors V b" "genuine_delta V d" "first_update_id d \<le> book_sequence b + 1" "book_sequence b \<le> final_update_id d"
  shows "mirrors V (apply_delta_payload d b)"
  unfolding mirrors_def
proof
  fix s
  have "shows_side (side_on s b) (V (book_sequence b) s)" using assms(1) by (simp add: mirrors_def)
  from delta_shows[OF assms(2) this assms(3,4)]
  show "shows_side (side_on s (apply_delta_payload d b)) (V (book_sequence (apply_delta_payload d b)) s)"
    by (cases s) (simp_all add: apply_delta_payload_def side_on_def levels_on_def)
qed

lemma corrupt_inv: "\<forall>d\<in>set (delta_buffer b). genuine_delta V d \<Longrightarrow> (\<And>d. r = Some d \<Longrightarrow> genuine_delta V d) \<Longrightarrow>
    depth_inv V (mark_corrupt c r b)"
  by (auto simp: depth_inv_def mark_corrupt_def split: option.splits)

lemma queue_inv: "depth_inv V b \<Longrightarrow> genuine_delta V d \<Longrightarrow> depth_status b \<noteq> SYNCHRONIZED \<Longrightarrow> depth_inv V (snd (queue_delta N d b))"
  by (auto simp: depth_inv_def queue_delta_def split: if_splits)

lemma follow_inv:
  assumes "depth_inv V b" "genuine_delta V d" "depth_status b = SYNCHRONIZED"
  shows "depth_inv V (snd (follow_delta d b))"
  using assms corrupt_inv[of b V "Some d" True] apply_mirrors[of V b d]
  by (auto simp: depth_inv_def follow_delta_def apply_delta_payload_def)

lemma replay_inv:
  assumes "replay_buffered ds b = (x, b')" "mirrors V b" "\<forall>d\<in>set ds. genuine_delta V d"
  shows "case x of Inl _ \<Rightarrow> b' = mark_corrupt True None b' \<and> delta_buffer b' = []
    | Inr _ \<Rightarrow> mirrors V b' \<and> delta_buffer b' = delta_buffer b"
  using assms
proof (induction ds arbitrary: b)
  case (Cons d ds)
  show ?case
  proof (cases "first_update_id d > book_sequence b + 1 \<or> final_update_id d \<le> book_sequence b")
    case True
    with Cons.prems Cons.IH[of b] show ?thesis by (auto simp: mark_corrupt_def split: if_splits)
  next
    case False
    with Cons.prems have "replay_buffered ds (apply_delta_payload d b) = (x, b')" "mirrors V (apply_delta_payload d b)"
      using apply_mirrors[of V b d] by simp_all
    from Cons.IH[OF this] Cons.prems(3) show ?thesis by (simp add: apply_delta_payload_def split: sum.splits)
  qed
qed auto

lemma install_inv:
  assumes "depth_inv V b" "genuine_side (V n Bid) bids" "genuine_side (V n Ask) asks"
    "\<forall>l\<in>set bids. 0 \<le> snd l" "\<forall>l\<in>set asks. 0 \<le> snd l"
  shows "depth_inv V (snd (install_snapshot n bids asks b))"
proof -
  define b1 where "b1 = b\<lparr>book_bids := snapshot_side bids, book_asks := snapshot_side asks, book_sequence := n\<rparr>"
  define fresh where "fresh = filter (\<lambda>d. final_update_id d > n) (delta_buffer b)"
  have genuine: "\<forall>d\<in>set (delta_buffer b). genuine_delta V d" using assms(1) by (simp add: depth_inv_def)
  have m: "mirrors V b1" unfolding mirrors_def
  proof
    fix s show "shows_side (side_on s b1) (V (book_sequence b1) s)"
      using snapshot_shows[OF assms(2,4)] snapshot_shows[OF assms(3,5)] by (cases s) (simp_all add: b1_def side_on_def)
  qed
  obtain x b2 where rep: "replay_buffered fresh b1 = (x, b2)" by fastforce
  have r: "case x of Inl _ \<Rightarrow> b2 = mark_corrupt True None b2 \<and> delta_buffer b2 = [] | Inr _ \<Rightarrow> mirrors V b2 \<and> delta_buffer b2 = delta_buffer b1"
    by (rule replay_inv[OF rep m]) (use genuine in \<open>auto simp: fresh_def\<close>)
  have early: "depth_inv V (mark_corrupt False None b1)" by (rule corrupt_inv) (use genuine in \<open>simp_all add: b1_def\<close>)
  have ended: "depth_inv V b2" if "x = Inl e" for e
    using r that corrupt_inv[of b2 V None True] by simp
  have synced: "depth_inv V (c\<lparr>delta_buffer := [], depth_status := SYNCHRONIZED\<rparr>)" if "mirrors V c" for c
    using that by (simp add: depth_inv_def mirrors_def side_on_def split: quote_side.splits)
  show ?thesis
  proof (cases fresh)
    case Nil
    then show ?thesis using synced[OF m] by (simp add: install_snapshot_def Let_def fresh_def b1_def)
  next
    case (Cons d ds)
    have "snd (install_snapshot n bids asks b) =
      (if \<not> (first_update_id d \<le> n + 1 \<and> n + 1 \<le> final_update_id d) then mark_corrupt False None b1
       else case x of Inl e \<Rightarrow> b2 | Inr _ \<Rightarrow> b2\<lparr>delta_buffer := [], depth_status := SYNCHRONIZED\<rparr>)"
      unfolding install_snapshot_def Let_def b1_def[symmetric] fresh_def[symmetric]
      using Cons rep by (auto split: sum.splits)
    with early ended synced r show ?thesis by (auto split: sum.splits)
  qed
qed

lemma depth_step_inv: "genuine_event V e \<Longrightarrow> depth_inv V b \<Longrightarrow> depth_inv V (depth_step N e b)"
proof (cases e)
  case (Apply_snapshot v bids asks)
  assume g: "genuine_event V e" and i: "depth_inv V b"
  consider "depth_step N e b = b"
    | n bs as where "snapshot_id v = Some n" "validate_levels bids = Inr bs" "validate_levels asks = Inr as"
    using Apply_snapshot
    by (cases "snapshot_id v"; cases "validate_levels bids"; cases "validate_levels asks") (simp_all add: apply_snapshot_def)
  then show ?thesis
  proof cases
    case 2
    with g Apply_snapshot have "genuine_side (V n Bid) bs" "genuine_side (V n Ask) as" by (simp_all add: genuine_event_def)
    from install_inv[OF i this] validated_levels[OF 2(2)] validated_levels[OF 2(3)] show ?thesis
      using 2 Apply_snapshot by (simp add: apply_snapshot_def)
  qed (use i in simp)
qed (auto simp: genuine_event_def buffer_delta_def process_delta_def intro: queue_inv follow_inv)

interpretation depth: guarded_machine "depth_step N" "genuine_event V" "depth_inv V" for N V
  by unfold_locales (rule depth_step_inv)

lemma fresh_inv: "make_reconciler N = Inr b \<Longrightarrow> depth_inv V b"
  by (auto simp: make_reconciler_def depth_inv_def split: if_splits)

section \<open>What is shown\<close>

lemma shown_level:
  assumes "shows_side d f" "p \<in> set (py_keys d)"
  shows "f p \<noteq> 0 \<and> level_at d p = (p, f p)"
proof -
  have "py_get d p \<noteq> None" using assms(2) by (simp add: py_get_None_iff)
  then show ?thesis using assms(1) unfolding shows_side_def level_at_def by (auto split: if_splits)
qed

lemma unlisted: "shows_side d f \<Longrightarrow> r \<notin> set (py_keys d) \<Longrightarrow> f r = 0"
  unfolding shows_side_def by (metis option.distinct(1) py_get_None_iff)

lemma best_levels:
  assumes "shows_side d f" "d \<noteq> []"
  shows "level_at d (Max (set (py_keys d))) = (p, q) \<Longrightarrow> q = f p \<and> q \<noteq> 0 \<and> (\<forall>r>p. f r = 0)"
    "level_at d (Min (set (py_keys d))) = (p, q) \<Longrightarrow> q = f p \<and> q \<noteq> 0 \<and> (\<forall>r<p. f r = 0)"
proof -
  have d: "finite (set (py_keys d))" "set (py_keys d) \<noteq> {}" using assms(2) by simp_all
  show "q = f p \<and> q \<noteq> 0 \<and> (\<forall>r>p. f r = 0)" if "level_at d (Max (set (py_keys d))) = (p, q)"
    using that shown_level[OF assms(1) Max_in[OF d]] unlisted[OF assms(1)] Max_ge[OF d(1)] by fastforce
  show "q = f p \<and> q \<noteq> 0 \<and> (\<forall>r<p. f r = 0)" if "level_at d (Min (set (py_keys d))) = (p, q)"
    using that shown_level[OF assms(1) Min_in[OF d]] unlisted[OF assms(1)] Min_le[OF d(1)] by fastforce
qed

text \<open>C9. The book shown is the venue's. Whatever deltas and snapshots of a venue reach a reconciler, early,
  late, twice or not at all: a synchronised book holds exactly the venue's levels as of its sequence
  number, the top of book it answers is the venue's best bid and best ask, and a book that is not
  synchronised is empty and answers none.\<close>

theorem book_shown_is_venue:
  assumes "make_reconciler N = Inr b0" "\<forall>e\<in>set es. genuine_event V e" "fold (depth_step N) es b0 = b"
  shows "(if depth_status b = SYNCHRONIZED then mirrors V b
      else book_bids b = [] \<and> book_asks b = [] \<and> get_top_of_book b = None) \<and>
    (case get_top_of_book b of None \<Rightarrow> True | Some ((bid, qty), (ask, qty')) \<Rightarrow>
      qty = V (book_sequence b) Bid bid \<and> qty \<noteq> 0 \<and> (\<forall>r>bid. V (book_sequence b) Bid r = 0) \<and>
      qty' = V (book_sequence b) Ask ask \<and> qty' \<noteq> 0 \<and> (\<forall>r<ask. V (book_sequence b) Ask r = 0))"
proof -
  have i: "depth_inv V b" unfolding assms(3)[symmetric]
    by (rule depth.run_guarded) (use assms(2) fresh_inv[OF assms(1)] in \<open>simp_all add: list_all_iff\<close>)
  then have shown: "(if depth_status b = SYNCHRONIZED then mirrors V b
      else book_bids b = [] \<and> book_asks b = [] \<and> get_top_of_book b = None)"
    by (auto simp: depth_inv_def get_top_of_book_def)
  show ?thesis
  proof (cases "get_top_of_book b")
    case None
    with shown show ?thesis by simp
  next
    case (Some t)
    obtain bid qty ask qty' where t: "t = ((bid, qty), (ask, qty'))" by (metis prod.exhaust)
    have top: "depth_status b = SYNCHRONIZED" "book_bids b \<noteq> []" "book_asks b \<noteq> []"
      "level_at (book_bids b) (Max (set (py_keys (book_bids b)))) = (bid, qty)"
      "level_at (book_asks b) (Min (set (py_keys (book_asks b)))) = (ask, qty')"
      using Some t by (auto simp: get_top_of_book_def split: if_splits)
    have "mirrors V b" using shown top(1) by simp
    then have sides: "shows_side (book_bids b) (V (book_sequence b) Bid)" "shows_side (book_asks b) (V (book_sequence b) Ask)"
      unfolding mirrors_def by (metis (full_types) quote_side.simps(3) side_on_def, metis (full_types) quote_side.simps(4) side_on_def)
    from best_levels(1)[OF sides(1) top(2,4)] best_levels(2)[OF sides(2) top(3,5)] show ?thesis
      using shown Some t by simp
  qed
qed

section \<open>Synchronising\<close>

text \<open>One delta follows another when it starts no later than the update after it and brings a newer one.\<close>

definition follows :: "delta_update \<Rightarrow> delta_update \<Rightarrow> bool" where
  "follows d e \<longleftrightarrow> first_update_id e \<le> final_update_id d + 1 \<and> final_update_id d < final_update_id e"

lemma chain_increases: "successively follows (d # ds) \<Longrightarrow> e \<in> set ds \<Longrightarrow> final_update_id d < final_update_id e"
proof (induction ds arbitrary: d)
  case (Cons a ds)
  then have "final_update_id d < final_update_id a" "successively follows (a # ds)" by (simp_all add: follows_def)
  with Cons.IH[of a] Cons.prems(2) show ?case by fastforce
qed simp

lemma stale_prefix: "successively follows ds \<Longrightarrow>
    \<exists>stale. ds = stale @ filter (\<lambda>d. n < final_update_id d) ds \<and> (\<forall>d\<in>set stale. final_update_id d \<le> n)"
proof (induction ds)
  case (Cons d ds)
  show ?case
  proof (cases "n < final_update_id d")
    case True
    then have "filter (\<lambda>d. n < final_update_id d) (d # ds) = d # ds"
      using chain_increases[OF Cons.prems] by (fastforce simp: filter_id_conv)
    then show ?thesis by (intro exI[of _ "[]"]) simp
  next
    case False
    have "successively follows ds" using Cons.prems by (cases ds) simp_all
    then obtain stale where "ds = stale @ filter (\<lambda>d. n < final_update_id d) ds" "\<forall>d\<in>set stale. final_update_id d \<le> n"
      using Cons.IH by blast
    with False show ?thesis by (intro exI[of _ "d # stale"]) simp
  qed
qed simp

lemma replay_chain:
  assumes "successively follows (d # ds)" "first_update_id d \<le> book_sequence b + 1" "book_sequence b < final_update_id d"
  shows "\<exists>b'. replay_buffered (d # ds) b = (Inr (), b') \<and> book_sequence b' = final_update_id (last (d # ds))"
  using assms
proof (induction ds arbitrary: d b)
  case (Cons e ds)
  then have "successively follows (e # ds)" "first_update_id e \<le> final_update_id d + 1" "final_update_id d < final_update_id e"
    by (simp_all add: follows_def)
  with Cons.IH[of e "apply_delta_payload d b"] Cons.prems(2,3) show ?case
    by (simp add: apply_delta_payload_def)
qed (simp add: apply_delta_payload_def)

lemma fresh_head:
  assumes "successively follows ds" "filter (\<lambda>d. n < final_update_id d) ds = d # fresh" "\<forall>d\<in>set ds. first_update_id d \<le> final_update_id d"
  shows "first_update_id d \<le> n + 1 \<longleftrightarrow> first_update_id (hd ds) \<le> n + 1"
proof -
  obtain stale where st: "ds = stale @ d # fresh" "\<forall>d\<in>set stale. final_update_id d \<le> n"
    using stale_prefix[OF assms(1), of n] assms(2) by metis
  show ?thesis
  proof (cases stale rule: rev_cases)
    case (snoc xs x)
    have "follows x d" using assms(1) st(1) snoc by (simp add: successively_append_iff)
    moreover have "final_update_id x \<le> n" using st(2) snoc by simp
    moreover have "hd ds \<in> set stale" using st(1) snoc by (cases xs) auto
    ultimately show ?thesis using st(2) assms(3) st(1) by (force simp: follows_def)
  qed (simp add: st(1))
qed

lemma stale_max: "\<forall>d\<in>set ds. final_update_id d \<le> n \<Longrightarrow> fold max (map final_update_id ds) n = n"
  by (induction ds) (simp_all add: max_def)

lemma chain_max: "successively follows (d # ds) \<Longrightarrow> n \<le> final_update_id d \<Longrightarrow>
    fold max (map final_update_id (d # ds)) n = final_update_id (last (d # ds))"
proof (induction ds arbitrary: d n)
  case (Cons e ds)
  then show ?case using Cons.IH[of e "final_update_id d"] by (simp add: follows_def max_def)
qed simp

text \<open>C23. Which snapshots synchronise. When the deltas queued follow one another, a well-formed snapshot is
  accepted exactly if nothing is queued or it is at most one update older than the first queued
  delta; the book is then synchronised at the newest update of the snapshot and the queue. A
  snapshot that is refused leaves the queue for the next one.\<close>

theorem snapshot_accepted_iff:
  assumes "successively follows (delta_buffer b)" "\<forall>d\<in>set (delta_buffer b). first_update_id d \<le> final_update_id d"
    and "snapshot_id v = Some n" "validate_levels bids = Inr bs" "validate_levels asks = Inr as"
    and "apply_snapshot v bids asks b = (x, b')"
  shows "if delta_buffer b = [] \<or> first_update_id (hd (delta_buffer b)) \<le> n + 1
    then x = Inr () \<and> depth_status b' = SYNCHRONIZED \<and> delta_buffer b' = [] \<and>
      book_sequence b' = fold max (map final_update_id (delta_buffer b)) n
    else x = Inl Order_book_error \<and> depth_status b' = CORRUPT \<and> delta_buffer b' = delta_buffer b"
proof -
  define b1 where "b1 = b\<lparr>book_bids := snapshot_side bs, book_asks := snapshot_side as, book_sequence := n\<rparr>"
  define fresh where "fresh = filter (\<lambda>d. n < final_update_id d) (delta_buffer b)"
  have run: "install_snapshot n bs as b = (x, b')" using assms(3-6) by (simp add: apply_snapshot_def)
  obtain stale where st: "delta_buffer b = stale @ fresh" "\<forall>d\<in>set stale. final_update_id d \<le> n"
    using stale_prefix[OF assms(1), of n] unfolding fresh_def by blast
  show ?thesis
  proof (cases fresh)
    case Nil
    with st have "fold max (map final_update_id (delta_buffer b)) n = n" by (simp add: stale_max)
    moreover have "delta_buffer b = [] \<or> first_update_id (hd (delta_buffer b)) \<le> n + 1"
      using st Nil assms(2) by (cases "delta_buffer b") force+
    moreover have "x = Inr ()" "b' = b1\<lparr>delta_buffer := [], depth_status := SYNCHRONIZED\<rparr>"
      using run Nil by (simp_all add: install_snapshot_def Let_def fresh_def b1_def)
    ultimately show ?thesis by (simp add: b1_def)
  next
    case (Cons d ds)
    have chain: "successively follows (d # ds)" using assms(1) st(1) Cons by (simp add: successively_append_iff)
    have newer: "n < final_update_id d" using Cons fresh_def by (metis filter_eq_ConsD)
    have start: "first_update_id d \<le> n + 1 \<longleftrightarrow> first_update_id (hd (delta_buffer b)) \<le> n + 1"
      using fresh_head[OF assms(1) _ assms(2), of n d ds] Cons unfolding fresh_def by simp
    have some: "delta_buffer b \<noteq> []" using st(1) Cons by simp
    show ?thesis
    proof (cases "first_update_id d \<le> n + 1")
      case True
      obtain b2 where b2: "replay_buffered fresh b1 = (Inr (), b2)" "book_sequence b2 = final_update_id (last fresh)"
        using replay_chain[OF chain, of b1] True newer Cons by (auto simp: b1_def)
      have "fold max (map final_update_id (delta_buffer b)) n = final_update_id (last fresh)"
        using st Cons stale_max[OF st(2)] chain_max[OF chain, of n] newer by simp
      moreover have "x = Inr ()" "b' = b2\<lparr>delta_buffer := [], depth_status := SYNCHRONIZED\<rparr>"
        using run b2(1) Cons True newer unfolding install_snapshot_def Let_def fresh_def[symmetric] b1_def[symmetric] by simp_all
      ultimately show ?thesis using b2(2) start True by simp
    next
      case False
      have "x = Inl Order_book_error" "b' = mark_corrupt False None b1"
        using run Cons False unfolding install_snapshot_def Let_def fresh_def[symmetric] b1_def[symmetric] by simp_all
      with False start some show ?thesis by (simp add: mark_corrupt_def b1_def)
    qed
  qed
qed

end
