(* ===== verification/Depth_Witnesses.thy ===== *)
theory Depth_Witnesses
  imports Depth_Properties
begin

text \<open>
  Instances of the reconciler's properties: a venue whose best bid grows from 1 to 3 at update 5,
  a delta of updates 5 and 6 that comes before the snapshot of update 4.
\<close>

definition demo_venue :: venue where
  "demo_venue n s p = (case s of Bid \<Rightarrow> (if p = 100 then (if n < 5 then 1 else 3) else 0) | Ask \<Rightarrow> (if p = 101 then 2 else 0))"

definition demo_delta :: delta_update where
  "demo_delta = \<lparr>first_update_id = 5, final_update_id = 6, delta_bids = [(100, 3)], delta_asks = []\<rparr>"

definition demo_snapshot :: depth_event where
  "demo_snapshot = Apply_snapshot (V_int 4) [Raw_level (V_int 100) (V_int 1)] [Raw_level (V_int 101) (V_int 2)]"

definition demo_empty :: depth_book where
  "demo_empty = \<lparr>book_bids = [], book_asks = [], book_sequence = -1, depth_status = UNINITIALIZED, delta_buffer = []\<rparr>"

lemma demo_level: "validate_level (Raw_level (V_int 100) (V_int 1)) = Inr (100, 1)"
    "validate_level (Raw_level (V_int 101) (V_int 2)) = Inr (101, 2)"
  by code_simp+

lemma demo_levels: "validate_levels [Raw_level (V_int 100) (V_int 1)] = Inr [(100, 1)]"
    "validate_levels [Raw_level (V_int 101) (V_int 2)] = Inr [(101, 2)]"
  by (simp_all add: demo_level)

lemma demo_genuine_delta: "genuine_delta demo_venue demo_delta"
  by (auto simp: genuine_delta_def demo_venue_def demo_delta_def levels_on_def split: quote_side.splits)

lemma demo_genuine: "\<forall>e\<in>set [Buffer_delta demo_delta, demo_snapshot]. genuine_event demo_venue e"
  using demo_genuine_delta
  by (auto simp: genuine_event_def demo_snapshot_def demo_level snapshot_id_def genuine_side_def demo_venue_def)

lemmas demo_depth = buffer_delta_def queue_delta_def apply_snapshot_def install_snapshot_def snapshot_side_def snapshot_id_def
  demo_level demo_empty_def apply_delta_payload_def set_level_def py_set_def py_get_def

lemma demo_synchronised: "fold (depth_step 10) [Buffer_delta demo_delta, demo_snapshot] demo_empty =
    \<lparr>book_bids = [(100, 3)], book_asks = [(101, 2)], book_sequence = 6, depth_status = SYNCHRONIZED, delta_buffer = []\<rparr>"
  by (simp add: demo_depth demo_snapshot_def demo_delta_def)

lemma demo_reconciler: "make_reconciler 10 = Inr demo_empty"
  by (simp add: make_reconciler_def demo_empty_def)

lemma book_shown_is_venue_witness:
  "get_top_of_book (fold (depth_step 10) [Buffer_delta demo_delta, demo_snapshot] demo_empty) = Some ((100, 3), (101, 2)) \<and>
    demo_venue 6 Bid 100 = 3 \<and> demo_venue 6 Ask 101 = 2"
  using book_shown_is_venue[OF demo_reconciler demo_genuine demo_synchronised]
  unfolding demo_synchronised by (simp add: get_top_of_book_def level_at_def py_get_def)

lemma snapshot_accepted_iff_witness:
  "\<exists>b'. apply_snapshot (V_int 4) [Raw_level (V_int 100) (V_int 1)] [Raw_level (V_int 101) (V_int 2)]
      (demo_empty\<lparr>delta_buffer := [demo_delta]\<rparr>) = (Inr (), b') \<and> depth_status b' = SYNCHRONIZED \<and> book_sequence b' = 6"
proof -
  define b where "b = demo_empty\<lparr>delta_buffer := [demo_delta]\<rparr>"
  have queue: "successively follows (delta_buffer b)" "\<forall>d\<in>set (delta_buffer b). first_update_id d \<le> final_update_id d"
    by (simp_all add: b_def demo_delta_def)
  have n: "snapshot_id (V_int 4) = Some 4" by (simp add: snapshot_id_def)
  obtain x b' where run: "apply_snapshot (V_int 4) [Raw_level (V_int 100) (V_int 1)] [Raw_level (V_int 101) (V_int 2)] b = (x, b')" by fastforce
  from snapshot_accepted_iff[OF queue n demo_levels run] run show ?thesis
    unfolding b_def by (intro exI[of _ b']) (simp add: demo_delta_def)
qed

end
