(* ===== verification/Day_Trades.thy ===== *)
theory Day_Trades
  imports Py_Value
begin

text \<open>
  Model of \<open>skills/pattern-day-trader-rule-compliance-us/scripts/pdt_tracker.py\<close>: fills matched
  into same-day round trips, their count over a window of business days, the gate before the next
  day trade, and the intraday margin functions. A date is a count of days since 1970-01-01, of
  which the module uses no more than order, weekday and succession; a float, literals included, is
  the number it is written as. The time zone database is a parameter: the offset of the market's
  zone at an instant. Messages are left out.
\<close>

section \<open>Dates and timestamps\<close>

text \<open>Wall-clock microseconds, and of an aware one its offset from UTC and the identity of its zone.\<close>

record timestamp =
  ts_wall :: int
  ts_zone :: "(nat \<times> int) option"

datatype date_arg = Date_arg int | Datetime_arg timestamp | Not_a_date

datatype pdt_error = Pdt_input_error | Pdt_type_error | Pdt_overflow

definition day_of :: "int \<Rightarrow> int" where
  "day_of micros = micros div 86400000000"

text \<open>\<open>a < b\<close> of datetimes: two of one zone, or two naive ones, compare by the wall clock.\<close>

definition earlier_than :: "timestamp \<Rightarrow> timestamp \<Rightarrow> pdt_error + bool" where
  "earlier_than a b =
     (case (ts_zone a, ts_zone b) of
        (None, None) \<Rightarrow> Inr (ts_wall a < ts_wall b)
      | (Some (z, o1), Some (z', o2)) \<Rightarrow>
          Inr (if z = z' then ts_wall a < ts_wall b else ts_wall a - o1 < ts_wall b - o2)
      | _ \<Rightarrow> Inl Pdt_type_error)"

definition coerce_date :: "date_arg \<Rightarrow> pdt_error + int" where
  "coerce_date v = (case v of Date_arg d \<Rightarrow> Inr d | Datetime_arg t \<Rightarrow> Inr (day_of (ts_wall t)) | Not_a_date \<Rightarrow> Inl Pdt_input_error)"

text \<open>\<open>date.weekday()\<close>: Monday is 0, and day 0 was a Thursday.\<close>

definition weekday :: "int \<Rightarrow> int" where
  "weekday d = (d + 3) mod 7"

definition is_business_day :: "int list \<Rightarrow> int \<Rightarrow> bool" where
  "is_business_day holidays d \<longleftrightarrow> weekday d < 5 \<and> d \<notin> set holidays"

section \<open>Numbers\<close>

definition float_or_error :: "py_value \<Rightarrow> pdt_error + number" where
  "float_or_error v = (case v of
     V_str s \<Rightarrow> (case parse_float s of Some x \<Rightarrow> Inr x | None \<Rightarrow> Inl Pdt_input_error)
   | _ \<Rightarrow> (case py_number v of
       None \<Rightarrow> Inl Pdt_input_error
     | Some (N_int n) \<Rightarrow> (case double_of_int n of None \<Rightarrow> Inl Pdt_overflow | Some m \<Rightarrow> Inr (N_float (of_int m)))
     | Some x \<Rightarrow> Inr x))"

definition validate_amount :: "py_value \<Rightarrow> pdt_error + rat" where
  "validate_amount v = (case float_or_error v of
     Inl e \<Rightarrow> Inl e
   | Inr (N_float r) \<Rightarrow> Inr r
   | Inr _ \<Rightarrow> Inl Pdt_input_error)"

definition validate_quantity :: "py_value \<Rightarrow> pdt_error + rat" where
  "validate_quantity v = (case validate_amount v of
     Inl e \<Rightarrow> Inl e
   | Inr r \<Rightarrow> if r \<le> 0 then Inl Pdt_input_error else Inr r)"

definition QUANTITY_EPSILON :: rat where
  "QUANTITY_EPSILON = 1 / 1000000000"

datatype trade_side = SIDE_BUY | SIDE_SELL

definition buy_sides :: "string list" where
  "buy_sides = [''BUY'', ''B'', ''BUY_TO_OPEN'', ''BUY_TO_CLOSE'', ''BUY_TO_COVER'', ''BTO'', ''BTC'']"

definition sell_sides :: "string list" where
  "sell_sides = [''SELL'', ''S'', ''SELL_SHORT'', ''SELL_TO_OPEN'', ''SELL_TO_CLOSE'', ''STO'', ''STC'', ''SS'']"

definition side_token :: "string \<Rightarrow> string" where
  "side_token s = map (\<lambda>c. if c = CHR ''-'' \<or> c = CHR '' '' then CHR ''_'' else c) (py_upper (py_strip s))"

definition normalise_side :: "py_value \<Rightarrow> pdt_error + trade_side" where
  "normalise_side v = (case v of
     V_str s \<Rightarrow>
       (if py_strip s = '''' then Inl Pdt_input_error
        else if side_token s \<in> set buy_sides then Inr SIDE_BUY
        else if side_token s \<in> set sell_sides then Inr SIDE_SELL
        else Inl Pdt_input_error)
   | _ \<Rightarrow> Inl Pdt_input_error)"

section \<open>Policy\<close>

record day_trade_policy =
  dp_name :: string
  dp_source :: string
  dp_threshold :: number
  dp_max_trades :: int
  dp_window :: int
  dp_de_minimis :: bool
  dp_fraction :: rat
  dp_confirmed :: "bool option"

definition policy_ok :: "day_trade_policy \<Rightarrow> bool" where
  "policy_ok P \<longleftrightarrow>
     (case dp_threshold P of N_nan \<Rightarrow> False | N_inf _ \<Rightarrow> False | x \<Rightarrow> \<not> is_negative x) \<and>
     \<not> dp_max_trades P < 1 \<and> \<not> dp_window P < 1 \<and> 0 \<le> dp_fraction P \<and> dp_fraction P \<le> 1"

definition LEGACY_FINRA_PDT_POLICY :: day_trade_policy where
  "LEGACY_FINRA_PDT_POLICY = \<lparr>dp_name = ''legacy-finra-4210-f8B'',
     dp_source = ''FINRA Rule 4210(f)(8)(B) as in force until 2026-06-04; deleted by SR-FINRA-2025-017 (SEC Release 34-105226, 2026-04-14)'',
     dp_threshold = N_float 25000, dp_max_trades = 4, dp_window = 5, dp_de_minimis = False, dp_fraction = 6 / 100, dp_confirmed = None\<rparr>"

section \<open>The engine\<close>

record open_lot =
  ol_side :: trade_side
  ol_quantity :: rat
  ol_time :: timestamp
  ol_date :: int

record trade_execution =
  te_symbol :: string
  te_side :: trade_side
  te_quantity :: rat
  te_time :: timestamp
  te_date :: int

record day_trade =
  dt_symbol :: string
  dt_open :: timestamp
  dt_close :: timestamp
  dt_date :: int
  dt_quantity :: rat

text \<open>The zone gives the offset of the market at an instant.\<close>

record pdt_config =
  pc_policy :: day_trade_policy
  pc_holidays :: "int list"
  pc_zone :: "int \<Rightarrow> int"
  pc_naive_is_local :: bool

record pdt_engine =
  open_positions :: "(string, open_lot list) py_dict"
  day_trade_history :: "day_trade list"
  execution_history :: "trade_execution list"
  designated :: bool

definition new_pdt_engine :: pdt_engine where
  "new_pdt_engine = \<lparr>open_positions = [], day_trade_history = [], execution_history = [], designated = False\<rparr>"

text \<open>Every holiday a date, the overrides applied and the policy they give checked again.\<close>

fun coerce_dates :: "date_arg list \<Rightarrow> pdt_error + int list" where
  "coerce_dates [] = Inr []"
| "coerce_dates (v # vs) =
     (case coerce_date v of Inl e \<Rightarrow> Inl e | Inr d \<Rightarrow> (case coerce_dates vs of Inl e \<Rightarrow> Inl e | Inr ds \<Rightarrow> Inr (d # ds)))"

definition override_policy :: "py_value option \<Rightarrow> int option \<Rightarrow> day_trade_policy \<Rightarrow> pdt_error + day_trade_policy" where
  "override_policy threshold window P =
     (case (case threshold of None \<Rightarrow> Inr P | Some v \<Rightarrow>
         (case validate_amount v of Inl e \<Rightarrow> Inl e | Inr r \<Rightarrow> Inr (P\<lparr>dp_threshold := N_float r\<rparr>))) of
        Inl e \<Rightarrow> Inl e
      | Inr P1 \<Rightarrow>
          (let P2 = (case window of None \<Rightarrow> P1 | Some n \<Rightarrow> P1\<lparr>dp_window := n\<rparr>) in
           if (threshold \<noteq> None \<or> window \<noteq> None) \<and> \<not> policy_ok P2 then Inl Pdt_input_error else Inr P2))"

definition make_pdt_config ::
  "py_value option \<Rightarrow> int option \<Rightarrow> day_trade_policy \<Rightarrow> date_arg list \<Rightarrow> (int \<Rightarrow> int) option \<Rightarrow> bool \<Rightarrow> pdt_error + pdt_config" where
  "make_pdt_config threshold window P holidays zone naive =
     (case override_policy threshold window P of
        Inl e \<Rightarrow> Inl e
      | Inr P1 \<Rightarrow>
          (case zone of
             None \<Rightarrow> Inl Pdt_input_error
           | Some z \<Rightarrow>
               (case coerce_dates holidays of
                  Inl e \<Rightarrow> Inl e
                | Inr hs \<Rightarrow> Inr \<lparr>pc_policy = P1, pc_holidays = hs, pc_zone = z, pc_naive_is_local = naive\<rparr>)))"

definition market_date :: "pdt_config \<Rightarrow> timestamp option \<Rightarrow> pdt_error + int" where
  "market_date C t = (case t of
     None \<Rightarrow> Inl Pdt_input_error
   | Some ts \<Rightarrow>
       (case ts_zone ts of
          None \<Rightarrow> (if pc_naive_is_local C then Inr (day_of (ts_wall ts)) else Inl Pdt_input_error)
        | Some (_, offset) \<Rightarrow> (let instant = ts_wall ts - offset in Inr (day_of (instant + pc_zone C instant)))))"

section \<open>The window of business days\<close>

text \<open>The first business day at most \<open>k\<close> days back.\<close>

fun settle_back :: "int list \<Rightarrow> nat \<Rightarrow> int \<Rightarrow> int option" where
  "settle_back hs 0 d = (if is_business_day hs d then Some d else None)"
| "settle_back hs (Suc k) d = (if is_business_day hs d then Some d else settle_back hs k (d - 1))"

partial_function (option) collect_days :: "int list \<Rightarrow> int \<Rightarrow> int list \<Rightarrow> int \<Rightarrow> int list option" where
  "collect_days hs n dates cursor =
     (if int (length dates) < n
      then collect_days hs n (if is_business_day hs cursor then dates @ [cursor] else dates) (cursor - 1)
      else Some dates)"

text \<open>The outer option is the loop's return.\<close>

definition window_dates :: "pdt_config \<Rightarrow> int \<Rightarrow> (pdt_error + int list) option" where
  "window_dates C as_of =
     (case settle_back (pc_holidays C) 30 as_of of
        None \<Rightarrow> Some (Inl Pdt_input_error)
      | Some d \<Rightarrow> map_option Inr (collect_days (pc_holidays C) (dp_window (pc_policy C)) [] d))"

fun walk_days :: "int list \<Rightarrow> int \<Rightarrow> nat \<Rightarrow> int \<Rightarrow> int \<Rightarrow> int" where
  "walk_days hs step 0 cursor count = count"
| "walk_days hs step (Suc k) cursor count =
     walk_days hs step k (cursor + step) (if is_business_day hs (cursor + step) then count + step else count)"

definition business_days_between :: "int list \<Rightarrow> int \<Rightarrow> int \<Rightarrow> int" where
  "business_days_between hs start end' =
     (if end' = start then 0
      else walk_days hs (if end' > start then 1 else -1) (nat \<bar>end' - start\<bar>) start 0)"

definition rolling_count :: "pdt_config \<Rightarrow> int \<Rightarrow> pdt_engine \<Rightarrow> (pdt_error + int) option" where
  "rolling_count C as_of e =
     (case window_dates C as_of of
        None \<Rightarrow> None
      | Some (Inl err) \<Rightarrow> Some (Inl err)
      | Some (Inr ds) \<Rightarrow> Some (Inr (int (length (filter (\<lambda>r. dt_date r \<in> set ds) (day_trade_history e))))))"

definition total_trades :: "pdt_config \<Rightarrow> int \<Rightarrow> pdt_engine \<Rightarrow> (pdt_error + int) option" where
  "total_trades C as_of e =
     (case window_dates C as_of of
        None \<Rightarrow> None
      | Some (Inl err) \<Rightarrow> Some (Inl err)
      | Some (Inr ds) \<Rightarrow> Some (Inr (int (length (filter (\<lambda>x. te_date x \<in> set ds) (execution_history e))))))"

section \<open>Recording a fill\<close>

record matching =
  m_remaining :: rat
  m_closed :: rat
  m_earliest :: "timestamp option"

definition note_open :: "bool \<Rightarrow> timestamp \<Rightarrow> timestamp option \<Rightarrow> pdt_error + timestamp option" where
  "note_open same_day t earliest =
     (if \<not> same_day then Inr earliest
      else case earliest of
        None \<Rightarrow> Inr (Some t)
      | Some t0 \<Rightarrow> (case earlier_than t t0 of Inl e \<Rightarrow> Inl e | Inr b \<Rightarrow> Inr (if b then Some t else Some t0)))"

text \<open>One pass over the lots; they are changed in place, also before an error.\<close>

fun match_pass :: "bool \<Rightarrow> trade_side \<Rightarrow> int \<Rightarrow> open_lot list \<Rightarrow> matching \<Rightarrow> (pdt_error + matching) \<times> open_lot list" where
  "match_pass same_day side day [] m = (Inr m, [])"
| "match_pass same_day side day (l # ls) m =
     (if m_remaining m \<le> QUANTITY_EPSILON then (Inr m, l # ls)
      else if ol_side l = side \<or> ol_quantity l \<le> QUANTITY_EPSILON \<or> (ol_date l = day) \<noteq> same_day
      then (let (r, ls') = match_pass same_day side day ls m in (r, l # ls'))
      else
        (let matched = min (m_remaining m) (ol_quantity l) in
         case note_open same_day (ol_time l) (m_earliest m) of
           Inl e \<Rightarrow> (Inl e, l # ls)
         | Inr t \<Rightarrow>
             (let (r, ls') = match_pass same_day side day ls
                \<lparr>m_remaining = m_remaining m - matched, m_closed = (if same_day then m_closed m + matched else m_closed m), m_earliest = t\<rparr>
              in (r, l\<lparr>ol_quantity := ol_quantity l - matched\<rparr> # ls'))))"

definition match_lots :: "trade_side \<Rightarrow> int \<Rightarrow> rat \<Rightarrow> open_lot list \<Rightarrow> (pdt_error + matching) \<times> open_lot list" where
  "match_lots side day qty lots =
     (let m0 = \<lparr>m_remaining = qty, m_closed = 0, m_earliest = None\<rparr> in
      if m_remaining m0 \<le> QUANTITY_EPSILON then (Inr m0, lots)
      else case match_pass True side day lots m0 of
        (Inl e, lots1) \<Rightarrow> (Inl e, lots1)
      | (Inr m1, lots1) \<Rightarrow>
          (if m_remaining m1 \<le> QUANTITY_EPSILON then (Inr m1, lots1) else match_pass False side day lots1 m1))"

definition lots_after :: "trade_side \<Rightarrow> timestamp \<Rightarrow> int \<Rightarrow> rat \<Rightarrow> open_lot list \<Rightarrow> open_lot list" where
  "lots_after side t day remaining lots =
     filter (\<lambda>l. ol_quantity l > QUANTITY_EPSILON) lots @
     (if remaining > QUANTITY_EPSILON then [\<lparr>ol_side = side, ol_quantity = remaining, ol_time = t, ol_date = day\<rparr>] else [])"

text \<open>The count that follows a day trade may fail, the trade already recorded.\<close>

definition note_day_trade :: "pdt_config \<Rightarrow> day_trade \<Rightarrow> pdt_engine \<Rightarrow> ((pdt_error + day_trade option) \<times> pdt_engine) option" where
  "note_day_trade C r e =
     (let e1 = e\<lparr>day_trade_history := day_trade_history e @ [r]\<rparr> in
      case rolling_count C (dt_date r) e1 of
        None \<Rightarrow> None
      | Some (Inl err) \<Rightarrow> Some (Inl err, e1)
      | Some (Inr n) \<Rightarrow> Some (Inr (Some r), if n \<ge> dp_max_trades (pc_policy C) then e1\<lparr>designated := True\<rparr> else e1))"

definition record_fill ::
  "pdt_config \<Rightarrow> string \<Rightarrow> trade_side \<Rightarrow> rat \<Rightarrow> timestamp \<Rightarrow> int \<Rightarrow> pdt_engine \<Rightarrow> ((pdt_error + day_trade option) \<times> pdt_engine) option" where
  "record_fill C symb side qty t day e =
     (let e1 = e\<lparr>execution_history := execution_history e @
            [\<lparr>te_symbol = symb, te_side = side, te_quantity = qty, te_time = t, te_date = day\<rparr>]\<rparr>;
          lots = (case py_get (open_positions e1) symb of None \<Rightarrow> [] | Some ls \<Rightarrow> ls)
      in case match_lots side day qty lots of
           (Inl err, lots1) \<Rightarrow> Some (Inl err, e1\<lparr>open_positions := py_set (open_positions e1) symb lots1\<rparr>)
         | (Inr m, lots1) \<Rightarrow>
             (let e2 = e1\<lparr>open_positions := py_set (open_positions e1) symb (lots_after side t day (m_remaining m) lots1)\<rparr> in
              if m_closed m \<le> QUANTITY_EPSILON then Some (Inr None, e2)
              else note_day_trade C \<lparr>dt_symbol = symb, dt_open = (case m_earliest m of Some t0 \<Rightarrow> t0 | None \<Rightarrow> t),
                     dt_close = t, dt_date = day, dt_quantity = m_closed m\<rparr> e2))"

definition record_execution ::
  "pdt_config \<Rightarrow> py_value \<Rightarrow> py_value \<Rightarrow> py_value \<Rightarrow> timestamp option \<Rightarrow> pdt_engine \<Rightarrow> ((pdt_error + day_trade option) \<times> pdt_engine) option" where
  "record_execution C symbol side quantity t e =
     (case symbol of
        V_str s \<Rightarrow>
          (if py_strip s = '''' then Some (Inl Pdt_input_error, e)
           else case normalise_side side of
             Inl err \<Rightarrow> Some (Inl err, e)
           | Inr sd \<Rightarrow>
               (case validate_quantity quantity of
                  Inl err \<Rightarrow> Some (Inl err, e)
                | Inr qty \<Rightarrow>
                    (case (market_date C t, t) of
                       (Inl err, _) \<Rightarrow> Some (Inl err, e)
                     | (Inr day, Some ts) \<Rightarrow> record_fill C (py_upper (py_strip s)) sd qty ts day e
                     | (Inr day, None) \<Rightarrow> Some (Inl Pdt_input_error, e))))
      | _ \<Rightarrow> Some (Inl Pdt_input_error, e))"

definition set_broker_designation :: "py_value \<Rightarrow> pdt_engine \<Rightarrow> pdt_engine" where
  "set_broker_designation v e = e\<lparr>designated := py_truthy v\<rparr>"

section \<open>The gate\<close>

definition PDT_RULE_DELETED_EFFECTIVE :: int where
  "PDT_RULE_DELETED_EFFECTIVE = 20608"

definition PDT_PHASE_IN_END :: int where
  "PDT_PHASE_IN_END = 21111"

datatype gate_reason = Broker_migrated | Equity_sufficient | De_minimis_share | Designated_veto | Count_veto | Within_limit

datatype gate_warning = No_holiday_calendar | Later_records | Policy_unconfirmed | Phase_in_over

record gate_decision =
  gd_blocked :: bool
  gd_reason :: gate_reason
  gd_as_of :: int
  gd_count :: int
  gd_equity :: rat
  gd_policy :: day_trade_policy
  gd_designated :: bool
  gd_total :: int
  gd_ratio :: "rat option"
  gd_warnings :: "gate_warning list"

definition gate_warnings :: "pdt_config \<Rightarrow> int \<Rightarrow> pdt_engine \<Rightarrow> gate_warning list" where
  "gate_warnings C as_of e =
     (if pc_holidays C = [] then [No_holiday_calendar] else []) @
     (if list_ex (\<lambda>r. dt_date r > as_of) (day_trade_history e) then [Later_records] else []) @
     (if dp_confirmed (pc_policy C) = None \<and> as_of \<ge> PDT_RULE_DELETED_EFFECTIVE then [Policy_unconfirmed] else []) @
     (if as_of > PDT_PHASE_IN_END \<and> dp_confirmed (pc_policy C) = Some True then [Phase_in_over] else [])"

definition gate_verdict :: "day_trade_policy \<Rightarrow> rat \<Rightarrow> int \<Rightarrow> int \<Rightarrow> bool \<Rightarrow> bool \<times> gate_reason" where
  "gate_verdict P equity count trades is_designated =
     (if dp_confirmed P = Some False then (False, Broker_migrated)
      else if equity \<ge> num_rat (dp_threshold P) then (False, Equity_sufficient)
      else if dp_de_minimis P \<and> trades > 0 \<and> of_int (count + 1) / of_int (trades + 1) \<le> dp_fraction P then (False, De_minimis_share)
      else if is_designated then (True, Designated_veto)
      else if count + 1 \<ge> dp_max_trades P then (True, Count_veto)
      else (False, Within_limit))"

definition evaluate_day_trade_gate :: "pdt_config \<Rightarrow> py_value \<Rightarrow> date_arg \<Rightarrow> pdt_engine \<Rightarrow> (pdt_error + gate_decision) option" where
  "evaluate_day_trade_gate C current_equity as_of_date e =
     (case validate_amount current_equity of
        Inl err \<Rightarrow> Some (Inl err)
      | Inr equity \<Rightarrow>
          (case coerce_date as_of_date of
             Inl err \<Rightarrow> Some (Inl err)
           | Inr as_of \<Rightarrow>
               (case (rolling_count C as_of e, total_trades C as_of e) of
                  (Some (Inl err), _) \<Rightarrow> Some (Inl err)
                | (Some (Inr count), Some (Inl err)) \<Rightarrow> Some (Inl err)
                | (Some (Inr count), Some (Inr trades)) \<Rightarrow>
                    (let (blocked, reason) = gate_verdict (pc_policy C) equity count trades (designated e) in
                     Some (Inr \<lparr>gd_blocked = blocked, gd_reason = reason, gd_as_of = as_of, gd_count = count, gd_equity = equity,
                       gd_policy = pc_policy C, gd_designated = designated e, gd_total = trades,
                       gd_ratio = (if trades \<noteq> 0 then Some (of_int count / of_int trades) else None),
                       gd_warnings = gate_warnings C as_of e\<rparr>))
                | _ \<Rightarrow> None)))"

definition would_breach_pdt :: "pdt_config \<Rightarrow> py_value \<Rightarrow> date_arg \<Rightarrow> pdt_engine \<Rightarrow> (pdt_error + bool \<times> gate_reason) option" where
  "would_breach_pdt C equity as_of e =
     (case evaluate_day_trade_gate C equity as_of e of
        None \<Rightarrow> None
      | Some (Inl err) \<Rightarrow> Some (Inl err)
      | Some (Inr d) \<Rightarrow> Some (Inr (gd_blocked d, gd_reason d)))"

definition reconcile_broker_count :: "pdt_config \<Rightarrow> py_value \<Rightarrow> date_arg \<Rightarrow> pdt_engine \<Rightarrow> (pdt_error + bool) option" where
  "reconcile_broker_count C broker_count as_of e =
     (case coerce_date as_of of
        Inl err \<Rightarrow> Some (Inl err)
      | Inr d \<Rightarrow>
          (case rolling_count C d e of
             None \<Rightarrow> None
           | Some (Inl err) \<Rightarrow> Some (Inl err)
           | Some (Inr n) \<Rightarrow>
               (case broker_count of
                  V_none \<Rightarrow> Some (Inr False)
                | V_int k \<Rightarrow> (if k < 0 then Some (Inl Pdt_input_error) else Some (Inr (n = k)))
                | _ \<Rightarrow> Some (Inl Pdt_input_error))))"

section \<open>Intraday margin\<close>

text \<open>Amounts are floats a caller computed; an infinite or undefined level is none.\<close>

record margin_snapshot =
  im_level :: "rat option"
  im_reducing :: bool

fun worst_level :: "rat \<Rightarrow> margin_snapshot list \<Rightarrow> pdt_error + rat" where
  "worst_level worst [] = Inr \<bar>worst\<bar>"
| "worst_level worst (s # ss) =
     (if \<not> im_reducing s then worst_level worst ss
      else case im_level s of
        None \<Rightarrow> Inl Pdt_input_error
      | Some level \<Rightarrow> worst_level (if level < worst then level else worst) ss)"

definition intraday_margin_deficit :: "margin_snapshot list \<Rightarrow> pdt_error + rat" where
  "intraday_margin_deficit ss = worst_level 0 ss"

definition is_de_minimis_deficit :: "py_value \<Rightarrow> py_value \<Rightarrow> pdt_error + bool" where
  "is_de_minimis_deficit deficit equity =
     (case validate_amount deficit of
        Inl e \<Rightarrow> Inl e
      | Inr d \<Rightarrow>
          (case validate_amount equity of
             Inl e \<Rightarrow> Inl e
           | Inr q \<Rightarrow> Inr (d \<le> 0 \<or> d \<le> min (5 / 100 * q) 1000)))"

text \<open>Each round goes one day on; the 366th finds no way out but the error.\<close>

fun add_business_days :: "int list \<Rightarrow> nat \<Rightarrow> int \<Rightarrow> int \<Rightarrow> pdt_error + int" where
  "add_business_days hs 0 cursor missing = (if missing \<le> 0 then Inr cursor else Inl Pdt_input_error)"
| "add_business_days hs (Suc k) cursor missing =
     (if missing \<le> 0 then Inr cursor
      else add_business_days hs k (cursor + 1) (if is_business_day hs (cursor + 1) then missing - 1 else missing))"

definition deficit_freeze_deadline :: "date_arg \<Rightarrow> date_arg list \<Rightarrow> pdt_error + int \<times> int" where
  "deficit_freeze_deadline deficit_date holidays =
     (case coerce_date deficit_date of
        Inl e \<Rightarrow> Inl e
      | Inr d \<Rightarrow>
          (case coerce_dates holidays of
             Inl e \<Rightarrow> Inl e
           | Inr hs \<Rightarrow>
               (case add_business_days hs 365 d 5 of
                  Inl e \<Rightarrow> Inl e
                | Inr prompt \<Rightarrow> (case add_business_days hs 365 d 15 of Inl e \<Rightarrow> Inl e | Inr expiry \<Rightarrow> Inr (prompt, expiry)))))"

section \<open>The compatibility wrapper\<close>

definition record_day_trade :: "date_arg \<Rightarrow> pdt_engine \<Rightarrow> (pdt_error + unit) \<times> pdt_engine" where
  "record_day_trade v e =
     (case coerce_date v of
        Inl err \<Rightarrow> (Inl err, e)
      | Inr d \<Rightarrow>
          (Inr (), e\<lparr>day_trade_history := day_trade_history e @
             [\<lparr>dt_symbol = ''UNKNOWN'', dt_open = \<lparr>ts_wall = d * 86400000000 + 34200000000, ts_zone = None\<rparr>,
               dt_close = \<lparr>ts_wall = d * 86400000000 + 54000000000, ts_zone = None\<rparr>, dt_date = d, dt_quantity = 0\<rparr>]\<rparr>))"

text \<open>Without a date it asks about today in the market's zone, the clock being read at an instant.\<close>

definition would_breach :: "pdt_config \<Rightarrow> py_value \<Rightarrow> date_arg option \<Rightarrow> int \<Rightarrow> pdt_engine \<Rightarrow> (pdt_error + bool) option" where
  "would_breach C equity as_of now e =
     (case would_breach_pdt C equity (case as_of of Some d \<Rightarrow> d | None \<Rightarrow> Date_arg (day_of (now + pc_zone C now))) e of
        None \<Rightarrow> None
      | Some (Inl err) \<Rightarrow> Some (Inl err)
      | Some (Inr (blocked, _)) \<Rightarrow> Some (Inr blocked))"

end
