(* ===== verification/Day_Windows.thy ===== *)
theory Day_Windows
  imports Day_Trades
begin

text \<open>
  The calendar of the day trade tracker: its loops end, the window holds the last business days,
  and it agrees with the count of business days between two dates.
\<close>

section \<open>Counting business days\<close>

definition business_after :: "int list \<Rightarrow> int \<Rightarrow> int \<Rightarrow> int set" where
  "business_after hs a b = {d. a < d \<and> d \<le> b \<and> is_business_day hs d}"

lemma finite_business [simp, intro]: "finite (business_after hs a b)"
  by (rule finite_subset[of _ "{a<..b}"]) (auto simp: business_after_def)

lemma business_after_none [simp]: "b \<le> a \<Longrightarrow> business_after hs a b = {}"
  by (auto simp: business_after_def)

lemma business_after_step: "a < b \<Longrightarrow> business_after hs a b = (if is_business_day hs b then {b} else {}) \<union> business_after hs a (b - 1)"
  by (auto simp: business_after_def order_le_less)

lemma business_after_first: "business_after hs a (a + 1) = (if is_business_day hs (a + 1) then {a + 1} else {})"
  by (simp add: business_after_step)

lemma business_after_split: "a \<le> b \<Longrightarrow> b \<le> c \<Longrightarrow> business_after hs a c = business_after hs a b \<union> business_after hs b c"
  by (auto simp: business_after_def)

lemma card_business_split:
  assumes "a \<le> b" "b \<le> c"
  shows "card (business_after hs a c) = card (business_after hs a b) + card (business_after hs b c)"
  unfolding business_after_split[OF assms]
  by (rule card_Un_disjoint) (auto, auto simp: business_after_def)

text \<open>Beyond the holidays every weekday is a business day, so there is always an earlier one.\<close>

lemma some_weekday: "\<exists>j\<in>{0..6}. weekday (d - j) < 5"
proof -
  have "weekday (d - j) = (weekday d - j) mod 7" for j by (simp add: weekday_def mod_diff_left_eq add.commute diff_add_eq)
  moreover have "0 \<le> weekday d" "weekday d < 7" by (simp_all add: weekday_def)
  ultimately show ?thesis
    by (cases "weekday d < 5") (force intro: bexI[of _ 0], force intro: bexI[of _ "weekday d - 4"])
qed

lemma before_all: "\<exists>low\<le>c. \<forall>h\<in>set hs. low < (h :: int)"
proof (induction hs)
  case (Cons h hs)
  then obtain low where "low \<le> c" "\<forall>h\<in>set hs. low < h" by blast
  then show ?case by (intro exI[of _ "min low (h - 1)"]) auto
qed auto

lemma earlier_business_day: "\<exists>s\<le>c. is_business_day hs s"
proof -
  obtain low where low: "low \<le> c" "\<forall>h\<in>set hs. low < h" using before_all by blast
  obtain j where "j \<in> {0..6}" "weekday (low - j) < 5" using some_weekday by blast
  with low show ?thesis by (intro exI[of _ "low - j"]) (force simp: is_business_day_def)
qed

section \<open>The loops\<close>

lemma settle_back_Some: "settle_back hs k d = Some s \<Longrightarrow> s \<le> d \<and> is_business_day hs s \<and> business_after hs s d = {}"
proof (induction k arbitrary: d)
  case (Suc k)
  show ?case
  proof (cases "is_business_day hs d")
    case False
    with Suc.prems have "settle_back hs k (d - 1) = Some s" by simp
    from Suc.IH[OF this] False show ?thesis using business_after_step[of s d hs] by auto
  qed (use Suc.prems in \<open>auto simp: business_after_def\<close>)
qed (auto simp: business_after_def split: if_splits)

lemma settle_back_None: "settle_back hs k d = None \<longleftrightarrow> (\<forall>x. d - int k \<le> x \<longrightarrow> x \<le> d \<longrightarrow> \<not> is_business_day hs x)"
proof (induction k arbitrary: d)
  case (Suc k)
  have "(\<forall>x. d - int (Suc k) \<le> x \<longrightarrow> x \<le> d \<longrightarrow> P x) \<longleftrightarrow> P d \<and> (\<forall>x. d - 1 - int k \<le> x \<longrightarrow> x \<le> d - 1 \<longrightarrow> P x)" for P
  proof (intro iffI conjI allI impI)
    fix x assume "P d \<and> (\<forall>x. d - 1 - int k \<le> x \<longrightarrow> x \<le> d - 1 \<longrightarrow> P x)" "d - int (Suc k) \<le> x" "x \<le> d"
    then show "P x" by (cases "x = d") auto
  qed auto
  with Suc.IH[of "d - 1"] show ?case by simp
qed auto

text \<open>What the collecting loop adds to the dates it has.\<close>

definition collects :: "int list \<Rightarrow> int \<Rightarrow> int list \<Rightarrow> int \<Rightarrow> bool" where
  "collects hs n dates c \<longleftrightarrow> (\<exists>more e. collect_days hs n dates c = Some (dates @ more) \<and> e \<le> c \<and>
     set more = business_after hs e c \<and> distinct more \<and> int (length dates + length more) = n)"

lemma collects_skip:
  assumes "int (length dates) < n" "\<not> is_business_day hs c" "collects hs n dates (c - 1)"
  shows "collects hs n dates c"
proof -
  obtain more e where m: "collect_days hs n dates (c - 1) = Some (dates @ more)" "e \<le> c - 1"
    "set more = business_after hs e (c - 1)" "distinct more" "int (length dates + length more) = n"
    using assms(3) by (auto simp: collects_def)
  have "collect_days hs n dates c = Some (dates @ more)" using assms(1,2) m(1) by (subst collect_days.simps) simp
  moreover have "business_after hs e c = business_after hs e (c - 1)" using business_after_step[of e c hs] assms(2) m(2) by simp
  ultimately show ?thesis using m unfolding collects_def by (intro exI[of _ more] exI[of _ e]) simp
qed

lemma collects_take:
  assumes "int (length dates) < n" "is_business_day hs c" "collects hs n (dates @ [c]) (c - 1)"
  shows "collects hs n dates c"
proof -
  obtain more e where m: "collect_days hs n (dates @ [c]) (c - 1) = Some ((dates @ [c]) @ more)" "e \<le> c - 1"
    "set more = business_after hs e (c - 1)" "distinct more" "int (length (dates @ [c]) + length more) = n"
    using assms(3) unfolding collects_def by blast
  have "collect_days hs n dates c = Some (dates @ c # more)" using assms(1,2) m(1) by (subst collect_days.simps) simp
  moreover have "business_after hs e c = insert c (set more)" using business_after_step[of e c hs] assms(2) m(2,3) by simp
  moreover have "c \<notin> set more" unfolding m(3) by (simp add: business_after_def)
  ultimately show ?thesis using m unfolding collects_def by (intro exI[of _ "c # more"] exI[of _ e]) simp
qed

lemma collect_days_ends: "int (length dates) \<le> n \<Longrightarrow> collects hs n dates c"
proof (induction "nat (n - int (length dates))" arbitrary: dates c)
  case (0 dates c)
  then have "collect_days hs n dates c = Some (dates @ [])" by (subst collect_days.simps) simp
  moreover have "int (length dates) = n" using 0 by simp
  ultimately show ?case unfolding collects_def by (intro exI[of _ "[]"] exI[of _ c]) simp
next
  case (Suc k dates c)
  have short: "int (length dates) < n" using Suc.hyps(2) by simp
  have next_date: "collects hs n (dates @ [b]) b'" for b b'
    by (rule Suc.hyps(1)) (use Suc.hyps(2) in simp_all)
  obtain s where s: "s \<le> c" "is_business_day hs s" using earlier_business_day by blast
  have "collects hs n dates b" if "s \<le> b" for b
    using that
  proof (induction "nat (b - s)" arbitrary: b)
    case 0
    with s(2) have "is_business_day hs b" by simp
    from collects_take[OF short this next_date] show ?case .
  next
    case (Suc j)
    show ?case
    proof (cases "is_business_day hs b")
      case True
      from collects_take[OF short this next_date] show ?thesis .
    next
      case False
      have "collects hs n dates (b - 1)" using Suc.hyps Suc.prems by (intro Suc.hyps(1)) simp_all
      with collects_skip[OF short False] show ?thesis by simp
    qed
  qed
  with s(1) show ?case by simp
qed

lemma collected_days:
  assumes "0 \<le> n" "collect_days hs n [] c = Some ds"
  shows "d \<in> set ds \<longleftrightarrow> is_business_day hs d \<and> d \<le> c \<and> int (card (business_after hs d c)) < n"
proof -
  obtain e where e: "e \<le> c" "set ds = business_after hs e c" "int (card (business_after hs e c)) = n"
  proof -
    from collect_days_ends[of "[]" n hs c] assms(1) obtain more e where m: "collect_days hs n [] c = Some more" "e \<le> c"
      "set more = business_after hs e c" "distinct more" "int (length more) = n" by (auto simp: collects_def)
    then have "int (card (business_after hs e c)) = n" using distinct_card[OF m(4)] by simp
    with m assms(2) that show ?thesis by simp
  qed
  show ?thesis
  proof (cases "e < d \<and> d \<le> c \<and> is_business_day hs d")
    case True
    have "business_after hs d c \<subset> business_after hs e c" using True by (auto simp: business_after_def)
    from psubset_card_mono[OF finite_business this] e(3) have "int (card (business_after hs d c)) < n" by simp
    with True e(2) show ?thesis by (simp add: business_after_def)
  next
    case False
    have "n \<le> int (card (business_after hs d c))" if "d \<le> e"
    proof -
      have "business_after hs e c \<subseteq> business_after hs d c" using that by (auto simp: business_after_def)
      from card_mono[OF finite_business this] e(3) show ?thesis by simp
    qed
    moreover have "d \<notin> set ds" using False unfolding e(2) business_after_def by blast
    ultimately show ?thesis using False by (metis linorder_not_less)
  qed
qed

lemma walk_forward: "walk_days hs 1 k c n = n + int (card (business_after hs c (c + int k)))"
proof (induction k arbitrary: c n)
  case (Suc k)
  have "card (business_after hs c (c + int (Suc k))) = card (business_after hs c (c + 1)) + card (business_after hs (c + 1) (c + 1 + int k))"
    using card_business_split[of c "c + 1" "c + int (Suc k)" hs] by (simp add: algebra_simps)
  with Suc.IH show ?case by (simp add: business_after_first)
qed simp

lemma business_days_forward: "a \<le> b \<Longrightarrow> business_days_between hs a b = int (card (business_after hs a b))"
  by (auto simp: business_days_between_def walk_forward)

section \<open>The window\<close>

lemma window_dates_spec:
  assumes "0 \<le> dp_window (pc_policy C)"
  shows "if \<exists>x. as_of - 30 \<le> x \<and> x \<le> as_of \<and> is_business_day (pc_holidays C) x
    then \<exists>ds. window_dates C as_of = Some (Inr ds) \<and> (\<forall>d. d \<in> set ds \<longleftrightarrow> is_business_day (pc_holidays C) d \<and> d \<le> as_of \<and>
      business_days_between (pc_holidays C) d as_of < dp_window (pc_policy C))
    else window_dates C as_of = Some (Inl Pdt_input_error)"
proof (cases "settle_back (pc_holidays C) 30 as_of")
  case None
  then show ?thesis using settle_back_None[of "pc_holidays C" 30 as_of] by (auto simp: window_dates_def)
next
  case (Some s)
  let ?hs = "pc_holidays C" and ?n = "dp_window (pc_policy C)"
  have found: "\<exists>x. as_of - 30 \<le> x \<and> x \<le> as_of \<and> is_business_day ?hs x"
    using settle_back_None[of ?hs 30 as_of] Some by auto
  note s = settle_back_Some[OF Some]
  obtain ds where ds: "collect_days ?hs ?n [] s = Some ds" using collect_days_ends[of "[]" ?n ?hs s] assms by (auto simp: collects_def)
  have "d \<in> set ds \<longleftrightarrow> is_business_day ?hs d \<and> d \<le> as_of \<and> business_days_between ?hs d as_of < ?n" for d
  proof (cases "d \<le> s")
    case True
    then have "card (business_after ?hs d as_of) = card (business_after ?hs d s)" using card_business_split[of d s as_of ?hs] s by simp
    with True s show ?thesis by (simp add: collected_days[OF assms ds] business_days_forward)
  next
    case False
    with s have "\<not> (d \<le> as_of \<and> is_business_day ?hs d)" by (auto simp: business_after_def)
    with False show ?thesis by (simp add: collected_days[OF assms ds])
  qed
  then show ?thesis using found Some ds by (auto simp: window_dates_def)
qed

end
