(* ===== verification/Day_Properties.thy ===== *)
theory Day_Properties
  imports Day_Windows
begin

text \<open>
  What the day trade tracker promises: positions follow the fills, a day trade is recorded exactly
  when a fill closes quantity opened the same day, the window counts the last business days, and
  an account that obeys the gate is never designated.
\<close>

section \<open>One pass over the lots\<close>

definition signed :: "trade_side \<Rightarrow> rat \<Rightarrow> rat" where
  "signed s q = (if s = SIDE_BUY then q else - q)"

definition net_position :: "open_lot list \<Rightarrow> rat" where
  "net_position ls = sum_list (map (\<lambda>l. signed (ol_side l) (ol_quantity l)) ls)"

text \<open>The quantity a fill on a side may close: of the same day, or of earlier ones.\<close>

definition closable :: "bool \<Rightarrow> trade_side \<Rightarrow> int \<Rightarrow> open_lot \<Rightarrow> bool" where
  "closable same_day side day l \<longleftrightarrow> ol_side l \<noteq> side \<and> (ol_date l = day) = same_day"

definition open_against :: "bool \<Rightarrow> trade_side \<Rightarrow> int \<Rightarrow> open_lot list \<Rightarrow> rat" where
  "open_against same_day side day ls = sum_list (map ol_quantity (filter (closable same_day side day) ls))"

text \<open>Between passes a lot is used up or still counts; what is left below the tolerance is dust.\<close>

definition clean_lots :: "open_lot list \<Rightarrow> bool" where
  "clean_lots ls \<longleftrightarrow> (\<forall>l\<in>set ls. ol_quantity l = 0 \<or> QUANTITY_EPSILON < ol_quantity l)"

definition dust :: "open_lot list \<Rightarrow> rat" where
  "dust ls = sum_list (map ol_quantity (filter (\<lambda>l. ol_quantity l \<le> QUANTITY_EPSILON) ls))"

lemma epsilon_pos [simp]: "0 < QUANTITY_EPSILON" "0 \<le> QUANTITY_EPSILON" "\<not> QUANTITY_EPSILON < 0"
  by (simp_all add: QUANTITY_EPSILON_def)

lemma clean_Cons: "clean_lots (l # ls) \<longleftrightarrow> (ol_quantity l = 0 \<or> QUANTITY_EPSILON < ol_quantity l) \<and> clean_lots ls"
  by (simp add: clean_lots_def)

lemma clean_lotsD: "clean_lots ls \<Longrightarrow> l \<in> set ls \<Longrightarrow> 0 \<le> ol_quantity l \<and> (ol_quantity l \<le> QUANTITY_EPSILON \<longrightarrow> ol_quantity l = 0)"
  using epsilon_pos(1) unfolding clean_lots_def by (metis dual_order.strict_trans less_imp_le linorder_not_less order_refl)

lemma open_against_nonneg: "clean_lots ls \<Longrightarrow> 0 \<le> open_against sd side day ls"
  unfolding open_against_def by (rule sum_list_nonneg) (auto dest: clean_lotsD)

lemma clean_dust: "clean_lots ls \<Longrightarrow> dust ls = 0"
  by (induction ls) (auto simp: clean_Cons dust_def not_le)

lemma sums_Cons:
  "net_position (l # ls) = signed (ol_side l) (ol_quantity l) + net_position ls"
  "open_against sd side day (l # ls) = (if closable sd side day l then ol_quantity l else 0) + open_against sd side day ls"
  "dust (l # ls) = (if ol_quantity l \<le> QUANTITY_EPSILON then ol_quantity l else 0) + dust ls"
  by (simp_all add: net_position_def open_against_def dust_def)

text \<open>A lot only ever loses quantity.\<close>

definition shrinks :: "open_lot \<Rightarrow> open_lot \<Rightarrow> bool" where
  "shrinks l l' \<longleftrightarrow> ol_side l' = ol_side l \<and> ol_time l' = ol_time l \<and> ol_date l' = ol_date l \<and> ol_quantity l' \<le> ol_quantity l"

lemma shrinks_same [simp]: "shrinks l l" "list_all2 shrinks ls ls"
  by (simp_all add: shrinks_def list.rel_refl)

lemma shrunk_lots:
  assumes "list_all2 shrinks ls ls'" "l' \<in> set ls'"
  shows "\<exists>l\<in>set ls. shrinks l l'"
  using assms by (induction rule: list_all2_induct) auto

text \<open>What a pass does to the lots \<open>ls\<close> and the matching \<open>m\<close>.\<close>

definition pass_ok :: "bool \<Rightarrow> trade_side \<Rightarrow> int \<Rightarrow> open_lot list \<Rightarrow> matching \<Rightarrow> matching \<Rightarrow> open_lot list \<Rightarrow> bool" where
  "pass_ok sd side day ls m m' ls' \<longleftrightarrow>
     0 \<le> m_remaining m' \<and> m_remaining m' \<le> m_remaining m \<and>
     m_closed m' = m_closed m + (if sd then m_remaining m - m_remaining m' else 0) \<and>
     m_remaining m - m_remaining m' \<le> open_against sd side day ls \<and>
     net_position ls' = net_position ls + signed side (m_remaining m - m_remaining m') \<and>
     list_all2 shrinks ls ls' \<and>
     (\<forall>l\<in>set ls'. 0 \<le> ol_quantity l) \<and> (\<forall>l\<in>set ls'. ol_quantity l \<le> QUANTITY_EPSILON \<longrightarrow> ol_quantity l = 0 \<or> ol_side l \<noteq> side) \<and>
     (if QUANTITY_EPSILON < m_remaining m'
      then clean_lots ls' \<and> m_remaining m - m_remaining m' = open_against sd side day ls \<and>
        (\<forall>l\<in>set ls'. closable sd side day l \<longrightarrow> ol_quantity l = 0)
      else dust ls' \<le> (if m_remaining m' = 0 then QUANTITY_EPSILON else 0))"

lemma pass_stops:
  assumes "clean_lots ls" "0 \<le> m_remaining m" "m_remaining m \<le> QUANTITY_EPSILON \<or> ls = []"
  shows "pass_ok sd side day ls m m ls"
proof -
  have q: "0 \<le> ol_quantity l \<and> (ol_quantity l \<le> QUANTITY_EPSILON \<longrightarrow> ol_quantity l = 0)" if "l \<in> set ls" for l
    using clean_lotsD[OF assms(1) that] by blast
  have "0 \<le> open_against sd side day ls" by (rule open_against_nonneg[OF assms(1)])
  moreover have "ls = [] \<Longrightarrow> open_against sd side day ls = 0" by (simp add: open_against_def)
  ultimately show ?thesis using assms q clean_dust[OF assms(1)] by (auto simp: pass_ok_def signed_def)
qed

lemma pass_skips:
  assumes "pass_ok sd side day ls m m' ls'" "ol_side l = side \<or> ol_quantity l \<le> QUANTITY_EPSILON \<or> (ol_date l = day) \<noteq> sd"
    and "ol_quantity l = 0 \<or> QUANTITY_EPSILON < ol_quantity l"
  shows "pass_ok sd side day (l # ls) m m' (l # ls')"
proof -
  have "\<not> closable sd side day l \<or> ol_quantity l = 0" using assms(2,3) by (auto simp: closable_def)
  moreover have "0 \<le> ol_quantity l" using assms(3) epsilon_pos(1) by linarith
  ultimately show ?thesis using assms(1,3) unfolding pass_ok_def by (auto simp: sums_Cons clean_Cons)
qed

lemma pass_takes_all:
  assumes "pass_ok sd side day ls \<lparr>m_remaining = m_remaining m - ol_quantity l,
      m_closed = (if sd then m_closed m + ol_quantity l else m_closed m), m_earliest = t\<rparr> m' ls'"
    and "closable sd side day l" "0 < ol_quantity l" "ol_quantity l \<le> m_remaining m"
  shows "pass_ok sd side day (l # ls) m m' (l\<lparr>ol_quantity := 0\<rparr> # ls')"
proof -
  have "signed (ol_side l) (ol_quantity l) = - signed side (ol_quantity l)"
    using assms(2) by (cases side; cases "ol_side l") (simp_all add: closable_def signed_def)
  moreover have "signed side (a - b) = signed side a - signed side b" for a b by (simp add: signed_def)
  moreover have "closable sd side day (l\<lparr>ol_quantity := 0\<rparr>)" "signed s 0 = 0" for s using assms(2) by (simp_all add: closable_def signed_def)
  ultimately show ?thesis using assms unfolding pass_ok_def by (auto simp: sums_Cons clean_Cons shrinks_def)
qed

lemma pass_takes_part:
  assumes "clean_lots ls" "closable sd side day l" "QUANTITY_EPSILON < m_remaining m" "m_remaining m < ol_quantity l"
  shows "pass_ok sd side day (l # ls) m
    \<lparr>m_remaining = 0, m_closed = (if sd then m_closed m + m_remaining m else m_closed m), m_earliest = t\<rparr>
    (l\<lparr>ol_quantity := ol_quantity l - m_remaining m\<rparr> # ls)"
proof -
  have q: "0 \<le> ol_quantity x \<and> (ol_quantity x \<le> QUANTITY_EPSILON \<longrightarrow> ol_quantity x = 0)" if "x \<in> set ls" for x
    using clean_lotsD[OF assms(1) that] by blast
  have "0 \<le> open_against sd side day ls" by (rule open_against_nonneg[OF assms(1)])
  moreover have "signed (ol_side l) (ol_quantity l - m_remaining m) = signed (ol_side l) (ol_quantity l) + signed side (m_remaining m)"
    using assms(2) by (cases side; cases "ol_side l") (simp_all add: closable_def signed_def)
  moreover have "ol_side l \<noteq> side" using assms(2) by (simp add: closable_def)
  moreover note less_imp_le[OF less_trans[OF epsilon_pos(1) assms(3)]]
  ultimately show ?thesis
    using assms(2-4) q clean_dust[OF assms(1)] epsilon_pos(1)
    unfolding pass_ok_def by (auto simp: sums_Cons shrinks_def less_imp_le[OF less_trans[OF epsilon_pos(1) assms(3)]])
qed

lemma match_pass_ok:
  assumes "match_pass sd side day ls m = (Inr m', ls')" "clean_lots ls" "0 \<le> m_remaining m"
  shows "pass_ok sd side day ls m m' ls'"
  using assms
proof (induction ls arbitrary: m ls')
  case Nil
  then show ?case using pass_stops[of "[]" m sd side day] by auto
next
  case (Cons l ls)
  consider "m_remaining m \<le> QUANTITY_EPSILON"
    | "QUANTITY_EPSILON < m_remaining m" "ol_side l = side \<or> ol_quantity l \<le> QUANTITY_EPSILON \<or> (ol_date l = day) \<noteq> sd"
    | "QUANTITY_EPSILON < m_remaining m" "closable sd side day l" "QUANTITY_EPSILON < ol_quantity l"
    by (force simp: closable_def not_le)
  then show ?case
  proof cases
    case 1
    with Cons.prems pass_stops[OF Cons.prems(2,3)] show ?thesis by auto
  next
    case 2
    then obtain ls1 where "match_pass sd side day ls m = (Inr m', ls1)" "ls' = l # ls1"
      using Cons.prems(1) by (auto simp: Let_def not_le split: prod.splits)
    with Cons.IH[OF this(1)] pass_skips[OF _ 2(2), of ls m m' ls1] Cons.prems(2,3) show ?thesis by (simp add: clean_Cons)
  next
    case 3
    define matched where "matched = min (m_remaining m) (ol_quantity l)"
    let ?m = "\<lambda>t. \<lparr>m_remaining = m_remaining m - matched, m_closed = (if sd then m_closed m + matched else m_closed m), m_earliest = t\<rparr>"
    have skip: "\<not> (ol_side l = side \<or> ol_quantity l \<le> QUANTITY_EPSILON \<or> (ol_date l = day) \<noteq> sd)"
      using 3 by (auto simp: closable_def)
    obtain t ls1 where rest: "match_pass sd side day ls (?m t) = (Inr m', ls1)" "ls' = l\<lparr>ol_quantity := ol_quantity l - matched\<rparr> # ls1"
      using Cons.prems(1) 3(1) skip unfolding match_pass.simps Let_def matched_def[symmetric]
      by (auto simp: not_le split: prod.splits sum.splits if_splits)
    have clean: "clean_lots ls" using Cons.prems(2) by (simp add: clean_Cons)
    show ?thesis
    proof (cases "ol_quantity l \<le> m_remaining m")
      case True
      then have m: "matched = ol_quantity l" by (simp add: matched_def)
      have "0 \<le> m_remaining (?m t)" using True m by simp
      from Cons.IH[OF rest(1) clean this] True m rest(2) 3(2,3) show ?thesis
        using pass_takes_all[of sd side day ls m l t m' ls1] epsilon_pos(1) by (auto dest: less_trans)
    next
      case False
      then have m: "matched = m_remaining m" by (simp add: matched_def)
      have "m' = ?m t" "ls1 = ls" using rest(1) m by (cases ls; auto)+
      with m rest(2) False pass_takes_part[OF clean 3(2,1), of t] show ?thesis by (cases sd) simp_all
    qed
  qed
qed

section \<open>Both passes\<close>

definition matched_ok :: "trade_side \<Rightarrow> int \<Rightarrow> rat \<Rightarrow> open_lot list \<Rightarrow> matching \<Rightarrow> open_lot list \<Rightarrow> bool" where
  "matched_ok side day qty ls m ls' \<longleftrightarrow>
     0 \<le> m_remaining m \<and> m_remaining m \<le> qty \<and> net_position ls' = net_position ls + signed side (qty - m_remaining m) \<and>
     list_all2 shrinks ls ls' \<and> (\<forall>l\<in>set ls'. 0 \<le> ol_quantity l) \<and>
     (\<forall>l\<in>set ls'. ol_quantity l \<le> QUANTITY_EPSILON \<longrightarrow> ol_quantity l = 0 \<or> ol_side l \<noteq> side) \<and>
     (QUANTITY_EPSILON < m_remaining m \<longrightarrow> (\<forall>l\<in>set ls'. ol_side l \<noteq> side \<longrightarrow> ol_quantity l = 0)) \<and>
     dust ls' \<le> (if m_remaining m = 0 then QUANTITY_EPSILON else 0) \<and>
     m_closed m \<le> min qty (open_against True side day ls) \<and>
     min qty (open_against True side day ls) - QUANTITY_EPSILON \<le> m_closed m \<and>
     (m_closed m \<le> QUANTITY_EPSILON \<longrightarrow> open_against True side day ls = 0 \<or> qty \<le> 2 * QUANTITY_EPSILON)"

definition live_lots :: "open_lot list \<Rightarrow> bool" where
  "live_lots ls \<longleftrightarrow> (\<forall>l\<in>set ls. QUANTITY_EPSILON < ol_quantity l)"

lemma live_clean: "live_lots ls \<Longrightarrow> clean_lots ls"
  by (simp add: live_lots_def clean_lots_def)

lemma open_live: "live_lots ls \<Longrightarrow> open_against sd side day ls = 0 \<or> QUANTITY_EPSILON < open_against sd side day ls"
proof (induction ls)
  case (Cons l ls)
  then have "live_lots ls" "QUANTITY_EPSILON < ol_quantity l" by (simp_all add: live_lots_def)
  with Cons.IH open_against_nonneg[OF live_clean, of ls sd side day] show ?case by (auto simp: sums_Cons)
qed (simp add: open_against_def)

lemma one_pass_matched:
  assumes "pass_ok True side day ls \<lparr>m_remaining = qty, m_closed = 0, m_earliest = None\<rparr> m ls'" "m_remaining m \<le> QUANTITY_EPSILON"
  shows "matched_ok side day qty ls m ls'"
  using assms unfolding pass_ok_def matched_ok_def by auto

lemma two_passes_matched:
  assumes "pass_ok True side day ls \<lparr>m_remaining = qty, m_closed = 0, m_earliest = None\<rparr> m1 ls1" "QUANTITY_EPSILON < m_remaining m1"
    and "pass_ok False side day ls1 m1 m ls'" "live_lots ls"
  shows "matched_ok side day qty ls m ls'"
proof -
  note p1 = assms(1)[unfolded pass_ok_def] and p2 = assms(3)[unfolded pass_ok_def]
  have closed: "m_closed m = open_against True side day ls" using p1 p2 assms(2) by simp
  have shrunk: "list_all2 shrinks ls ls'"
    by (rule list_all2_trans[of shrinks shrinks shrinks ls ls1 ls']) (use p1 p2 in \<open>auto simp: shrinks_def\<close>)
  have used: "ol_quantity l = 0" if l: "QUANTITY_EPSILON < m_remaining m" "l \<in> set ls'" "ol_side l \<noteq> side" for l
  proof (cases "ol_date l = day")
    case True
    obtain l1 where l1: "l1 \<in> set ls1" "shrinks l1 l" using shrunk_lots[of ls1 ls' l] p2 l(2) by blast
    have "closable True side day l1" using l1(2) True l(3) by (simp add: shrinks_def closable_def)
    with p1 assms(2) l1(1) have "ol_quantity l1 = 0" by simp
    with l1(2) p2 l(2) show ?thesis by (force simp: shrinks_def)
  next
    case False
    with p2 l show ?thesis by (simp add: closable_def)
  qed
  have "dust ls' \<le> (if m_remaining m = 0 then QUANTITY_EPSILON else 0)"
    using p2 clean_dust[of ls'] by (cases "QUANTITY_EPSILON < m_remaining m") auto
  moreover have "open_against True side day ls \<le> qty" using p1 assms(2) epsilon_pos(1) by (simp, linarith)
  moreover have "net_position ls' = net_position ls + signed side (qty - m_remaining m)"
    using p1 p2 by (simp add: signed_def split: if_splits)
  ultimately show ?thesis
    using p1 p2 closed shrunk used open_live[OF assms(4), of True side day] unfolding matched_ok_def by auto
qed

lemma match_lots_ok:
  assumes "match_lots side day qty ls = (Inr m, ls')" "live_lots ls" "0 < qty"
  shows "matched_ok side day qty ls m ls'"
proof -
  define m0 where "m0 = \<lparr>m_remaining = qty, m_closed = 0, m_earliest = None\<rparr>"
  have clean: "clean_lots ls" by (rule live_clean[OF assms(2)])
  have m0: "0 \<le> m_remaining m0" using assms(3) by (simp add: m0_def)
  show ?thesis
  proof (cases "qty \<le> QUANTITY_EPSILON")
    case True
    then have "m = m0" "ls' = ls" using assms(1) by (simp_all add: match_lots_def m0_def)
    with one_pass_matched[OF pass_stops[OF clean m0, of True side day, unfolded m0_def]] True show ?thesis by (simp add: m0_def)
  next
    case False
    then obtain m1 ls1 where first: "match_pass True side day ls m0 = (Inr m1, ls1)"
      and rest: "if m_remaining m1 \<le> QUANTITY_EPSILON then m = m1 \<and> ls' = ls1 else match_pass False side day ls1 m1 = (Inr m, ls')"
      using assms(1) by (auto simp: match_lots_def m0_def split: prod.splits sum.splits if_splits)
    note p1 = match_pass_ok[OF first clean m0]
    show ?thesis
    proof (cases "m_remaining m1 \<le> QUANTITY_EPSILON")
      case True
      with rest one_pass_matched[OF p1[unfolded m0_def]] show ?thesis by simp
    next
      case False
      then have "match_pass False side day ls1 m1 = (Inr m, ls')" "clean_lots ls1" "0 \<le> m_remaining m1"
        using rest p1 by (simp_all add: pass_ok_def)
      from two_passes_matched[OF p1[unfolded m0_def] _ match_pass_ok[OF this] assms(2)] False show ?thesis by simp
    qed
  qed
qed

section \<open>The lots kept after a fill\<close>

definition one_sided :: "open_lot list \<Rightarrow> bool" where
  "one_sided ls \<longleftrightarrow> (\<forall>l\<in>set ls. \<forall>l'\<in>set ls. ol_side l = ol_side l')"

lemma net_dust:
  assumes "\<forall>l\<in>set ls. ol_quantity l \<le> QUANTITY_EPSILON \<longrightarrow> ol_quantity l = 0 \<or> ol_side l \<noteq> side"
  shows "net_position (filter (\<lambda>l. QUANTITY_EPSILON < ol_quantity l) ls) = net_position ls + signed side (dust ls)"
  using assms
proof (induction ls)
  case (Cons l ls)
  then have IH: "net_position (filter (\<lambda>l. QUANTITY_EPSILON < ol_quantity l) ls) = net_position ls + signed side (dust ls)" by simp
  have "signed (ol_side l) (ol_quantity l) = - signed side (ol_quantity l)" if "ol_quantity l \<le> QUANTITY_EPSILON"
    using Cons.prems that by (cases side; cases "ol_side l") (auto simp: signed_def)
  with IH show ?case by (auto simp: sums_Cons signed_def not_le)
qed (simp add: net_position_def dust_def signed_def)

lemma net_append: "net_position (xs @ ys) = net_position xs + net_position ys"
  by (simp add: net_position_def)

lemma lots_after_live: "live_lots (lots_after side t day r ls)"
  by (auto simp: live_lots_def lots_after_def)

lemma lots_after_net:
  assumes "matched_ok side day qty ls m ls'"
  shows "\<bar>net_position (lots_after side t day (m_remaining m) ls') - (net_position ls + signed side qty)\<bar> \<le> QUANTITY_EPSILON"
proof -
  note k = assms[unfolded matched_ok_def]
  have d: "0 \<le> dust ls'" using k unfolding dust_def by (intro sum_list_nonneg) auto
  define kept where "kept = (if QUANTITY_EPSILON < m_remaining m then m_remaining m else 0)"
  have "net_position (lots_after side t day (m_remaining m) ls') = net_position ls' + signed side (dust ls') + signed side kept"
    using net_dust[of ls' side] k by (simp add: lots_after_def net_append kept_def net_position_def signed_def)
  moreover have "net_position ls' = net_position ls + signed side (qty - m_remaining m)" using k by blast
  ultimately have "net_position (lots_after side t day (m_remaining m) ls') - (net_position ls + signed side qty) =
      signed side (dust ls' + kept - m_remaining m)" by (simp add: signed_def)
  moreover have "\<bar>signed side x\<bar> = \<bar>x\<bar>" for x by (simp add: signed_def)
  moreover have "\<bar>dust ls' + kept - m_remaining m\<bar> \<le> QUANTITY_EPSILON"
    using k d by (auto simp: kept_def split: if_splits)
  ultimately show ?thesis by simp
qed

lemma lots_after_one_sided:
  assumes "matched_ok side day qty ls m ls'" "one_sided ls"
  shows "one_sided (lots_after side t day (m_remaining m) ls')"
proof -
  note k = assms(1)[unfolded matched_ok_def]
  have shrunk: "list_all2 shrinks ls ls'" using k by blast
  have old: "ol_side l = ol_side l'" if l: "l \<in> set ls'" and l': "l' \<in> set ls'" for l l'
  proof -
    obtain x where x: "x \<in> set ls" "shrinks x l" using shrunk_lots[OF shrunk l] by blast
    obtain y where y: "y \<in> set ls" "shrinks y l'" using shrunk_lots[OF shrunk l'] by blast
    have "ol_side x = ol_side y" using assms(2) x(1) y(1) unfolding one_sided_def by blast
    with x(2) y(2) show ?thesis by (simp add: shrinks_def)
  qed
  have new: "ol_side l = side" if "QUANTITY_EPSILON < m_remaining m" "l \<in> set ls'" "QUANTITY_EPSILON < ol_quantity l" for l
    using k that by auto
  have kept: "l \<in> set ls' \<and> QUANTITY_EPSILON < ol_quantity l \<or> QUANTITY_EPSILON < m_remaining m \<and> ol_side l = side"
    if "l \<in> set (lots_after side t day (m_remaining m) ls')" for l
    using that by (auto simp: lots_after_def split: if_splits)
  show ?thesis unfolding one_sided_def
  proof (intro ballI)
    fix l l' assume "l \<in> set (lots_after side t day (m_remaining m) ls')" "l' \<in> set (lots_after side t day (m_remaining m) ls')"
    from kept[OF this(1)] kept[OF this(2)] old[of l l'] new[of l] new[of l'] show "ol_side l = ol_side l'" by presburger
  qed
qed

section \<open>The engine\<close>

definition position_of :: "pdt_engine \<Rightarrow> string \<Rightarrow> open_lot list" where
  "position_of e s = (case py_get (open_positions e) s of None \<Rightarrow> [] | Some ls \<Rightarrow> ls)"

definition fills_of :: "pdt_engine \<Rightarrow> string \<Rightarrow> trade_execution list" where
  "fills_of e s = filter (\<lambda>x. te_symbol x = s) (execution_history e)"

definition booked :: "pdt_engine \<Rightarrow> string \<Rightarrow> rat" where
  "booked e s = sum_list (map (\<lambda>x. signed (te_side x) (te_quantity x)) (fills_of e s))"

definition naive_time :: "timestamp \<Rightarrow> bool" where
  "naive_time t \<longleftrightarrow> ts_zone t = None"

definition positions_inv :: "bool \<Rightarrow> pdt_engine \<Rightarrow> bool" where
  "positions_inv naive e \<longleftrightarrow> (\<forall>s. live_lots (position_of e s) \<and> one_sided (position_of e s) \<and>
     (\<forall>l\<in>set (position_of e s). naive_time (ol_time l) = naive) \<and>
     \<bar>net_position (position_of e s) - booked e s\<bar> \<le> QUANTITY_EPSILON * of_nat (length (fills_of e s)))"

lemma earlier_total: "naive_time t = naive_time u \<Longrightarrow> \<exists>b. earlier_than t u = Inr b"
  by (cases "ts_zone t"; cases "ts_zone u") (auto simp: earlier_than_def naive_time_def split: prod.splits)

lemma note_open_total:
  assumes "naive_time t = naive" "\<forall>u. earliest = Some u \<longrightarrow> naive_time u = naive"
  shows "\<exists>r. note_open sd t earliest = Inr r \<and> (\<forall>u. r = Some u \<longrightarrow> naive_time u = naive)"
proof (cases earliest)
  case (Some u)
  with assms obtain b where "earlier_than t u = Inr b" using earlier_total[of t u] by auto
  with Some assms show ?thesis by (auto simp: note_open_def)
qed (use assms in \<open>auto simp: note_open_def\<close>)

lemma match_pass_total:
  assumes "\<forall>l\<in>set ls. naive_time (ol_time l) = naive" "\<forall>t. m_earliest m = Some t \<longrightarrow> naive_time t = naive"
  shows "\<exists>m' ls'. match_pass sd side day ls m = (Inr m', ls') \<and> (\<forall>t. m_earliest m' = Some t \<longrightarrow> naive_time t = naive)"
  using assms
proof (induction ls arbitrary: m)
  case (Cons l ls)
  have l: "naive_time (ol_time l) = naive" and ls: "\<forall>l\<in>set ls. naive_time (ol_time l) = naive" using Cons.prems(1) by simp_all
  obtain t where t: "note_open sd (ol_time l) (m_earliest m) = Inr t" "\<forall>u. t = Some u \<longrightarrow> naive_time u = naive"
    using note_open_total[OF l Cons.prems(2), of sd] by blast
  show ?case
    using Cons.IH[OF ls, of m] Cons.prems(2) t
      Cons.IH[OF ls, of "\<lparr>m_remaining = m_remaining m - min (m_remaining m) (ol_quantity l),
        m_closed = (if sd then m_closed m + min (m_remaining m) (ol_quantity l) else m_closed m), m_earliest = t\<rparr>"]
    by (auto simp: Let_def split: prod.splits)
qed simp

lemma match_lots_total:
  assumes "\<forall>l\<in>set ls. naive_time (ol_time l) = naive" "live_lots ls" 
  shows "\<exists>m ls'. match_lots side day qty ls = (Inr m, ls')"
proof (cases "qty \<le> QUANTITY_EPSILON")
  case False
  define m0 where "m0 = \<lparr>m_remaining = qty, m_closed = 0, m_earliest = None\<rparr>"
  obtain m1 ls1 where p: "match_pass True side day ls m0 = (Inr m1, ls1)" "\<forall>t. m_earliest m1 = Some t \<longrightarrow> naive_time t = naive"
    using match_pass_total[OF assms(1), of m0 True side day] by (auto simp: m0_def)
  have "pass_ok True side day ls m0 m1 ls1"
    by (rule match_pass_ok[OF p(1) live_clean[OF assms(2)]]) (use less_trans[OF epsilon_pos(1), of qty] False in \<open>simp add: m0_def\<close>)
  then have "list_all2 shrinks ls ls1" by (simp add: pass_ok_def)
  then have "\<forall>l\<in>set ls1. naive_time (ol_time l) = naive" using shrunk_lots assms(1) by (fastforce simp: shrinks_def)
  from match_pass_total[OF this p(2), of False side day] p(1) False show ?thesis
    by (auto simp: match_lots_def m0_def split: if_splits)
qed (simp add: match_lots_def)

lemma note_day_trade_frame:
  "note_day_trade C r e = Some (x, e') \<Longrightarrow> open_positions e' = open_positions e \<and> execution_history e' = execution_history e \<and>
    day_trade_history e' = day_trade_history e @ [r] \<and> (\<forall>y. x = Inr y \<longrightarrow> y = Some r)"
  by (auto simp: note_day_trade_def Let_def split: option.splits sum.splits if_splits)

text \<open>A fill recorded among lots of one kind of timestamp.\<close>

lemma record_fill_effect:
  assumes "positions_inv naive e" "0 < qty" "record_fill C s side qty t day e = Some (x, e')"
  shows "\<exists>m ls'. matched_ok side day qty (position_of e s) m ls' \<and>
    open_positions e' = py_set (open_positions e) s (lots_after side t day (m_remaining m) ls') \<and>
    execution_history e' = execution_history e @ [\<lparr>te_symbol = s, te_side = side, te_quantity = qty, te_time = t, te_date = day\<rparr>] \<and>
    (\<forall>r. x = Inr r \<longrightarrow> (case r of None \<Rightarrow> m_closed m \<le> QUANTITY_EPSILON
      | Some d \<Rightarrow> QUANTITY_EPSILON < m_closed m \<and> dt_quantity d = m_closed m \<and> dt_symbol d = s \<and> dt_date d = day \<and> dt_close d = t \<and>
          day_trade_history e' = day_trade_history e @ [d]))"
proof -
  have inv: "live_lots (position_of e s)" "\<forall>l\<in>set (position_of e s). naive_time (ol_time l) = naive"
    using assms(1) by (simp_all add: positions_inv_def)
  obtain m ls' where m: "match_lots side day qty (position_of e s) = (Inr m, ls')" using match_lots_total[OF inv(2,1)] by blast
  define e2 where "e2 = e\<lparr>execution_history := execution_history e @
      [\<lparr>te_symbol = s, te_side = side, te_quantity = qty, te_time = t, te_date = day\<rparr>],
    open_positions := py_set (open_positions e) s (lots_after side t day (m_remaining m) ls')\<rparr>"
  define d where "d = \<lparr>dt_symbol = s, dt_open = (case m_earliest m of Some t0 \<Rightarrow> t0 | None \<Rightarrow> t), dt_close = t, dt_date = day, dt_quantity = m_closed m\<rparr>"
  have run: "(if m_closed m \<le> QUANTITY_EPSILON then Some (Inr None, e2) else note_day_trade C d e2) = Some (x, e')"
    using assms(3) m by (cases "m_closed m \<le> QUANTITY_EPSILON") (simp_all add: record_fill_def Let_def position_of_def e2_def d_def)
  have "matched_ok side day qty (position_of e s) m ls'" by (rule match_lots_ok[OF m inv(1) assms(2)])
  moreover have "open_positions e' = open_positions e2" "execution_history e' = execution_history e2"
    using run note_day_trade_frame[of C d e2 x e'] by (auto split: if_splits)
  moreover have "\<forall>r. x = Inr r \<longrightarrow> (case r of None \<Rightarrow> m_closed m \<le> QUANTITY_EPSILON
      | Some d \<Rightarrow> QUANTITY_EPSILON < m_closed m \<and> dt_quantity d = m_closed m \<and> dt_symbol d = s \<and> dt_date d = day \<and> dt_close d = t \<and>
          day_trade_history e' = day_trade_history e @ [d])"
    using run note_day_trade_frame[of C d e2 x e'] by (auto simp: d_def e2_def split: if_splits)
  ultimately show ?thesis unfolding e2_def by (intro exI[of _ m] exI[of _ ls']) simp
qed

lemma record_fill_positions:
  assumes "positions_inv naive e" "naive_time t = naive" "0 < qty" "record_fill C s side qty t day e = Some (x, e')"
  shows "positions_inv naive e'"
  unfolding positions_inv_def
proof
  fix s'
  obtain m ls' where m: "matched_ok side day qty (position_of e s) m ls'"
    and e': "open_positions e' = py_set (open_positions e) s (lots_after side t day (m_remaining m) ls')"
      "execution_history e' = execution_history e @ [\<lparr>te_symbol = s, te_side = side, te_quantity = qty, te_time = t, te_date = day\<rparr>]"
    using record_fill_effect[OF assms(1,3,4)] by blast
  let ?holds = "\<lambda>e. live_lots (position_of e s') \<and> one_sided (position_of e s') \<and>
     (\<forall>l\<in>set (position_of e s'). naive_time (ol_time l) = naive) \<and>
     \<bar>net_position (position_of e s') - booked e s'\<bar> \<le> QUANTITY_EPSILON * of_nat (length (fills_of e s'))"
  have old: "?holds e" using assms(1) by (simp add: positions_inv_def)
  show "?holds e'"
  proof (cases "s' = s")
    case True
    have pos: "position_of e' s' = lots_after side t day (m_remaining m) ls'" by (simp add: position_of_def e'(1) dict_simps True)
    have books: "booked e' s' = booked e s' + signed side qty" "length (fills_of e' s') = Suc (length (fills_of e s'))"
      by (simp_all add: booked_def fills_of_def e'(2) True)
    have shrunk: "list_all2 shrinks (position_of e s) ls'" using m by (simp add: matched_ok_def)
    have "naive_time (ol_time l) = naive" if "l \<in> set ls'" for l
      using shrunk_lots[OF shrunk that] old True by (auto simp: shrinks_def)
    then have times: "\<forall>l\<in>set (position_of e' s'). naive_time (ol_time l) = naive"
      using assms(2) unfolding pos lots_after_def by auto
    have "\<bar>net_position (position_of e' s') - booked e' s'\<bar> \<le> QUANTITY_EPSILON * of_nat (length (fills_of e s')) + QUANTITY_EPSILON"
      using lots_after_net[OF m, of t] old True unfolding pos books(1) by (simp, linarith)
    then show ?thesis
      using times lots_after_live lots_after_one_sided[OF m] old True unfolding books(2) pos by (simp add: algebra_simps)
  next
    case False
    then have "position_of e' s' = position_of e s'" "fills_of e' s' = fills_of e s'"
      by (simp_all add: position_of_def fills_of_def e' dict_simps)
    with old show ?thesis by (simp add: booked_def)
  qed
qed

section \<open>Runs\<close>

datatype pdt_event = Fill py_value py_value py_value "timestamp option" | Broker_designates py_value | Old_day_trade date_arg

definition pdt_step :: "pdt_config \<Rightarrow> pdt_event \<Rightarrow> pdt_engine \<Rightarrow> pdt_engine" where
  "pdt_step C ev e = (case ev of
     Fill symbol side quantity t \<Rightarrow> (case record_execution C symbol side quantity t e of Some (_, e') \<Rightarrow> e' | None \<Rightarrow> e)
   | Broker_designates v \<Rightarrow> set_broker_designation v e
   | Old_day_trade d \<Rightarrow> snd (record_day_trade d e))"

text \<open>All timestamps naive, or all aware.\<close>

definition one_kind :: "bool \<Rightarrow> pdt_event \<Rightarrow> bool" where
  "one_kind naive ev = (case ev of Fill _ _ _ (Some t) \<Rightarrow> naive_time t = naive | _ \<Rightarrow> True)"

lemma validated_quantity: "validate_quantity v = Inr q \<Longrightarrow> 0 < q"
  by (auto simp: validate_quantity_def split: sum.splits if_splits)

lemma record_execution_cases:
  assumes "record_execution C symbol side quantity t e = Some (x, e')"
  obtains "e' = e" "\<exists>err. x = Inl err"
    | sy sd q day ts where "symbol = V_str sy" "normalise_side side = Inr sd" "validate_quantity quantity = Inr q" "t = Some ts"
      "market_date C t = Inr day" "record_fill C (py_upper (py_strip sy)) sd q ts day e = Some (x, e')"
  using assms by (auto simp: record_execution_def split: py_value.splits sum.splits if_splits option.splits)

lemma positions_step:
  assumes "one_kind naive ev" "positions_inv naive e"
  shows "positions_inv naive (pdt_step C ev e)"
proof (cases ev)
  case (Fill symbol side quantity t)
  show ?thesis
  proof (cases "record_execution C symbol side quantity t e")
    case (Some xe)
    obtain x e' where xe: "xe = (x, e')" by fastforce
    show ?thesis using Some[unfolded xe]
    proof (cases rule: record_execution_cases)
      case (2 sy sd q day ts)
      have "naive_time ts = naive" using assms(1) Fill 2(4) by (simp add: one_kind_def)
      from record_fill_positions[OF assms(2) this validated_quantity[OF 2(3)] 2(6)] show ?thesis
        using Fill Some xe by (simp add: pdt_step_def)
    qed (use Fill Some xe assms(2) in \<open>simp add: pdt_step_def\<close>)
  qed (use Fill assms(2) in \<open>simp add: pdt_step_def\<close>)
qed (use assms(2) in \<open>auto simp: pdt_step_def positions_inv_def set_broker_designation_def record_day_trade_def position_of_def booked_def fills_of_def
  split: sum.splits\<close>)

interpretation day_positions: guarded_machine "pdt_step C" "one_kind naive" "positions_inv naive" for C naive
  by unfold_locales (rule positions_step)

lemma new_positions: "positions_inv naive new_pdt_engine"
  by (simp add: positions_inv_def new_pdt_engine_def position_of_def booked_def fills_of_def live_lots_def one_sided_def
      net_position_def py_get_def)

end
