(* ===== verification/Day_Rules.thy ===== *)
theory Day_Rules
  imports Day_Properties
begin

text \<open>
  The properties of the day trade tracker, over runs of fills, designations by the broker and day
  trades entered by hand.
\<close>

section \<open>Positions and day trades\<close>

text \<open>C24. Positions follow the fills. As long as timestamps are all naive or all aware, the open lots of every
  symbol are on one side, none is below the tolerance, and their net differs from the sum of the
  fills recorded for the symbol by at most the tolerance per fill.\<close>

theorem positions_follow_fills:
  assumes "\<forall>ev\<in>set evs. one_kind naive ev" "fold (pdt_step C) evs new_pdt_engine = e"
  shows "one_sided (position_of e s) \<and> live_lots (position_of e s) \<and>
    \<bar>net_position (position_of e s) - booked e s\<bar> \<le> QUANTITY_EPSILON * of_nat (length (fills_of e s))"
  using day_positions.run_guarded[of naive evs new_pdt_engine C] new_positions assms
  by (simp add: list_all_iff positions_inv_def)

text \<open>C19. A fill is a day trade exactly when it closes quantity opened the same market day. A recorded fill returns
  no day trade only if no quantity opened that day stands against it (or the fill is within twice
  the tolerance); the day trade it returns is on that day, is the last of the history, and its
  quantity is what the fill and that day's opposite quantity have in common, up to the tolerance.\<close>

theorem day_trade_iff_same_day:
  assumes "\<forall>ev\<in>set evs. one_kind naive ev" "fold (pdt_step C) evs new_pdt_engine = e"
    and "record_execution C (V_str sy) side quantity (Some t) e = Some (Inr r, e')"
    and "normalise_side side = Inr sd" "validate_quantity quantity = Inr qty" "market_date C (Some t) = Inr day"
    and "open_against True sd day (position_of e (py_upper (py_strip sy))) = against"
  shows "case r of
      None \<Rightarrow> against = 0 \<or> qty \<le> 2 * QUANTITY_EPSILON
    | Some d \<Rightarrow> QUANTITY_EPSILON < dt_quantity d \<and> dt_quantity d \<le> min qty against \<and>
        min qty against - QUANTITY_EPSILON \<le> dt_quantity d \<and> dt_symbol d = py_upper (py_strip sy) \<and> dt_date d = day \<and>
        dt_close d = t \<and> day_trade_history e' = day_trade_history e @ [d]"
proof -
  have inv: "positions_inv naive e"
    using day_positions.run_guarded[of naive evs new_pdt_engine C] new_positions assms(1,2) by (simp add: list_all_iff)
  have fill: "record_fill C (py_upper (py_strip sy)) sd qty t day e = Some (Inr r, e')"
    using assms(3) by (cases rule: record_execution_cases) (use assms(4-6) in auto)
  obtain m ls' where m: "matched_ok sd day qty (position_of e (py_upper (py_strip sy))) m ls'"
    and r: "case r of None \<Rightarrow> m_closed m \<le> QUANTITY_EPSILON
      | Some d \<Rightarrow> QUANTITY_EPSILON < m_closed m \<and> dt_quantity d = m_closed m \<and> dt_symbol d = py_upper (py_strip sy) \<and>
          dt_date d = day \<and> dt_close d = t \<and> day_trade_history e' = day_trade_history e @ [d]"
    using record_fill_effect[OF inv validated_quantity[OF assms(5)] fill] by blast
  from m r assms(7) show ?thesis by (cases r) (simp_all add: matched_ok_def)
qed

section \<open>The window\<close>

text \<open>C34. The rolling count ends with an answer: the day trades on business days up to the date with fewer
  business days after them than the window has, provided a business day lies within 30 days, and
  the error about the calendar otherwise.\<close>

theorem counted_in_window:
  assumes "policy_ok (pc_policy C)"
  shows "rolling_count C as_of e =
    (if \<exists>x\<in>{as_of - 30..as_of}. is_business_day (pc_holidays C) x
     then Some (Inr (int (length (filter (\<lambda>r. is_business_day (pc_holidays C) (dt_date r) \<and> dt_date r \<le> as_of \<and>
       business_days_between (pc_holidays C) (dt_date r) as_of < dp_window (pc_policy C)) (day_trade_history e)))))
     else Some (Inl Pdt_input_error))"
proof -
  have n: "0 \<le> dp_window (pc_policy C)" using assms by (simp add: policy_ok_def)
  have near: "(\<exists>x\<in>{as_of - 30..as_of}. is_business_day (pc_holidays C) x) \<longleftrightarrow>
      (\<exists>x. as_of - 30 \<le> x \<and> x \<le> as_of \<and> is_business_day (pc_holidays C) x)" by auto
  show ?thesis
  proof (cases "\<exists>x. as_of - 30 \<le> x \<and> x \<le> as_of \<and> is_business_day (pc_holidays C) x")
    case True
    obtain ds where ds: "window_dates C as_of = Some (Inr ds)" "\<And>d. d \<in> set ds \<longleftrightarrow> is_business_day (pc_holidays C) d \<and> d \<le> as_of \<and>
        business_days_between (pc_holidays C) d as_of < dp_window (pc_policy C)"
      using window_dates_spec[OF n, of as_of] unfolding if_P[OF True] by blast
    then show ?thesis unfolding near if_P[OF True] by (simp add: rolling_count_def)
  next
    case False
    then have "window_dates C as_of = Some (Inl Pdt_input_error)"
      using window_dates_spec[OF n, of as_of] unfolding if_not_P[OF False] by blast
    then show ?thesis unfolding near if_not_P[OF False] by (simp add: rolling_count_def)
  qed
qed

section \<open>The gate\<close>

text \<open>An account that asks the gate about the day of every fill and sends the fill only when allowed.\<close>

record gated_fill =
  gf_equity :: py_value
  gf_symbol :: py_value
  gf_side :: py_value
  gf_quantity :: py_value
  gf_time :: "timestamp option"

definition gated_step :: "pdt_config \<Rightarrow> gated_fill \<Rightarrow> pdt_engine \<Rightarrow> pdt_engine" where
  "gated_step C g e =
     (case market_date C (gf_time g) of
        Inl _ \<Rightarrow> e
      | Inr day \<Rightarrow>
          (case evaluate_day_trade_gate C (gf_equity g) (Date_arg day) e of
             Some (Inr d) \<Rightarrow> (if gd_blocked d then e else pdt_step C (Fill (gf_symbol g) (gf_side g) (gf_quantity g) (gf_time g)) e)
           | _ \<Rightarrow> e))"

definition short_of_equity :: "pdt_config \<Rightarrow> gated_fill \<Rightarrow> bool" where
  "short_of_equity C g \<longleftrightarrow> (case validate_amount (gf_equity g) of Inl _ \<Rightarrow> True | Inr q \<Rightarrow> q < num_rat (dp_threshold (pc_policy C)))"

lemma rolling_count_one_more:
  assumes "rolling_count C d e = Some (Inr n)" "day_trade_history e' = day_trade_history e @ [r]" "rolling_count C d e' = Some (Inr n')"
  shows "n' \<le> n + 1"
  using assms by (auto simp: rolling_count_def split: option.splits sum.splits)

lemma note_day_trade_designates:
  assumes "note_day_trade C r e = Some (x, e')" "\<not> designated e"
    and "rolling_count C (dt_date r) e = Some (Inr n)" "n + 1 < dp_max_trades (pc_policy C)"
  shows "\<not> designated e'"
proof -
  define e1 where "e1 = e\<lparr>day_trade_history := day_trade_history e @ [r]\<rparr>"
  have "n' \<le> n + 1" if "rolling_count C (dt_date r) e1 = Some (Inr n')" for n'
    by (rule rolling_count_one_more[OF assms(3) _ that]) (simp add: e1_def)
  moreover have "\<not> designated e1" using assms(2) by (simp add: e1_def)
  ultimately show ?thesis using assms(1,4) unfolding note_day_trade_def Let_def e1_def[symmetric]
    by (force split: option.splits sum.splits if_splits)
qed

lemma record_fill_designates:
  assumes "record_fill C s side qty t day e = Some (x, e')" "\<not> designated e"
    and "rolling_count C day e = Some (Inr n)" "n + 1 < dp_max_trades (pc_policy C)"
  shows "\<not> designated e'"
proof -
  consider "designated e' = designated e"
    | r e2 where "note_day_trade C r e2 = Some (x, e')" "dt_date r = day" "designated e2 = designated e" "day_trade_history e2 = day_trade_history e"
    using assms(1) by (fastforce simp: record_fill_def Let_def split: prod.splits sum.splits if_splits)
  then show ?thesis
  proof cases
    case (2 r e2)
    have "rolling_count C (dt_date r) e2 = Some (Inr n)" using assms(3) 2(2) unfolding rolling_count_def 2(4) by simp
    with note_day_trade_designates[OF 2(1) _ this assms(4)] assms(2) 2(3) show ?thesis by simp
  qed (use assms(2) in simp)
qed

lemma gated_step_keeps:
  assumes "dp_confirmed (pc_policy C) \<noteq> Some False" "\<not> dp_de_minimis (pc_policy C)" "short_of_equity C g" "\<not> designated e"
  shows "\<not> designated (gated_step C g e)"
proof (cases "\<exists>day d. market_date C (gf_time g) = Inr day \<and> evaluate_day_trade_gate C (gf_equity g) (Date_arg day) e = Some (Inr d) \<and> \<not> gd_blocked d")
  case True
  then obtain day d where day: "market_date C (gf_time g) = Inr day"
    and gate: "evaluate_day_trade_gate C (gf_equity g) (Date_arg day) e = Some (Inr d)" "\<not> gd_blocked d" by blast
  obtain q n k why where n: "validate_amount (gf_equity g) = Inr q" "rolling_count C day e = Some (Inr n)"
    "gate_verdict (pc_policy C) q n k (designated e) = (False, why)"
    using gate by (auto simp: evaluate_day_trade_gate_def coerce_date_def split: sum.splits option.splits prod.splits)
  have "n + 1 < dp_max_trades (pc_policy C)"
    using n(3) assms n(1) by (auto simp: gate_verdict_def short_of_equity_def split: if_splits)
  note count = this
  have "\<not> designated (pdt_step C (Fill (gf_symbol g) (gf_side g) (gf_quantity g) (gf_time g)) e)"
  proof (cases "record_execution C (gf_symbol g) (gf_side g) (gf_quantity g) (gf_time g) e")
    case (Some xe)
    obtain x e' where xe: "xe = (x, e')" by fastforce
    show ?thesis using Some[unfolded xe]
    proof (cases rule: record_execution_cases)
      case (2 sy sd q' day' ts)
      with day have "day' = day" by simp
      with record_fill_designates[OF 2(6) assms(4), of n] n(2) count show ?thesis using Some xe by (simp add: pdt_step_def)
    qed (use Some xe assms(4) in \<open>simp add: pdt_step_def\<close>)
  qed (use assms(4) in \<open>simp add: pdt_step_def\<close>)
  with day gate show ?thesis by (simp add: gated_step_def)
next
  case False
  with assms(4) show ?thesis by (auto simp: gated_step_def split: sum.splits option.splits)
qed

interpretation gated: guarded_machine "gated_step C" "short_of_equity C"
    "\<lambda>e. dp_confirmed (pc_policy C) \<noteq> Some False \<and> \<not> dp_de_minimis (pc_policy C) \<longrightarrow> \<not> designated e" for C
  by unfold_locales (use gated_step_keeps in blast)

text \<open>C11. The gate prevents a designation. Under a policy the broker has not withdrawn and without the de minimis
  exemption, an account below the equity threshold that asks the gate before every fill and obeys
  it is never designated a pattern day trader, whatever the dates of its fills.\<close>

theorem gate_prevents_designation:
  assumes "dp_confirmed (pc_policy C) \<noteq> Some False" "\<not> dp_de_minimis (pc_policy C)" "\<forall>g\<in>set gs. short_of_equity C g"
  shows "\<not> designated (fold (gated_step C) gs new_pdt_engine)"
  using gated.run_guarded[of C gs new_pdt_engine] assms by (simp add: list_all_iff new_pdt_engine_def)

section \<open>Deadlines of a deficit\<close>

lemma add_business_days_spec:
  "0 \<le> n \<Longrightarrow>
    (if n \<le> int (card (business_after hs c (c + int k)))
     then \<exists>r. add_business_days hs k c n = Inr r \<and> c \<le> r \<and> int (card (business_after hs c r)) = n \<and> (0 < n \<longrightarrow> is_business_day hs r)
     else add_business_days hs k c n = Inl Pdt_input_error)"
proof (induction k arbitrary: c n)
  case (Suc k)
  have split: "int (card (business_after hs c r)) = (if is_business_day hs (c + 1) then 1 else 0) + int (card (business_after hs (c + 1) r))"
    if "c + 1 \<le> r" for r
    using card_business_split[of c "c + 1" r hs] that by (simp add: business_after_first)
  show ?case
  proof (cases "n = 0")
    case False
    define n1 where "n1 = (if is_business_day hs (c + 1) then n - 1 else n)"
    have run: "add_business_days hs (Suc k) c n = add_business_days hs k (c + 1) n1" using False Suc.prems by (simp add: n1_def)
    have n1: "0 \<le> n1" using False Suc.prems by (simp add: n1_def)
    have fits: "n \<le> int (card (business_after hs c (c + int (Suc k)))) \<longleftrightarrow> n1 \<le> int (card (business_after hs (c + 1) (c + 1 + int k)))"
      using split[of "c + int (Suc k)"] by (simp add: n1_def algebra_simps)
    show ?thesis
    proof (cases "n1 \<le> int (card (business_after hs (c + 1) (c + 1 + int k)))")
      case True
      obtain r where r: "add_business_days hs k (c + 1) n1 = Inr r" "c + 1 \<le> r" "int (card (business_after hs (c + 1) r)) = n1"
        "0 < n1 \<longrightarrow> is_business_day hs r"
        using Suc.IH[OF n1, of "c + 1"] unfolding if_P[OF True] by blast
      have "is_business_day hs r"
      proof (cases "0 < n1")
        case False
        with n1 \<open>n \<noteq> 0\<close> Suc.prems have first: "is_business_day hs (c + 1)" by (simp add: n1_def split: if_splits)
        have "add_business_days hs k (c + 1) n1 = Inr (c + 1)" using False n1 by (cases k) simp_all
        with r(1) first show ?thesis by simp
      qed (use r(4) in simp)
      with r split[OF r(2)] True fits run show ?thesis by (intro if_P[THEN iffD2]) (auto simp: n1_def)
    next
      case False
      with Suc.IH[OF n1, of "c + 1"] fits run show ?thesis by simp
    qed
  qed simp
qed auto

text \<open>C5. The deadlines of a deficit are the fifth and the fifteenth business day after it, as the engine counts
  business days; a calendar without fifteen business days in the year after it is refused.\<close>

theorem deadlines_are_business_days:
  "case deficit_freeze_deadline (Date_arg d) (map Date_arg hs) of
     Inl err \<Rightarrow> err = Pdt_input_error \<and> business_days_between hs d (d + 365) < 15
   | Inr (prompt, expiry) \<Rightarrow> is_business_day hs prompt \<and> business_days_between hs d prompt = 5 \<and>
       is_business_day hs expiry \<and> business_days_between hs d expiry = 15 \<and> d < prompt \<and> prompt < expiry"
proof -
  have hs: "coerce_dates (map Date_arg hs) = Inr hs" by (induction hs) (simp_all add: coerce_date_def)
  have year: "business_days_between hs d (d + 365) = int (card (business_after hs d (d + int 365)))" by (simp add: business_days_forward)
  have run: "deficit_freeze_deadline (Date_arg d) (map Date_arg hs) =
      (case add_business_days hs 365 d 5 of Inl e \<Rightarrow> Inl e
       | Inr prompt \<Rightarrow> (case add_business_days hs 365 d 15 of Inl e \<Rightarrow> Inl e | Inr expiry \<Rightarrow> Inr (prompt, expiry)))"
    by (simp add: deficit_freeze_deadline_def coerce_date_def hs)
  note five = add_business_days_spec[of 5 hs d 365] and fifteen = add_business_days_spec[of 15 hs d 365]
  show ?thesis
  proof (cases "15 \<le> int (card (business_after hs d (d + int 365)))")
    case True
    then have "5 \<le> int (card (business_after hs d (d + int 365)))" by linarith
    with five obtain p where p: "add_business_days hs 365 d 5 = Inr p" "d \<le> p" "int (card (business_after hs d p)) = 5" "is_business_day hs p"
      by auto
    from fifteen True obtain x where x: "add_business_days hs 365 d 15 = Inr x" "d \<le> x" "int (card (business_after hs d x)) = 15"
      "is_business_day hs x" by auto
    have "d < p" using p(2,3) by (cases "d = p") simp_all
    moreover have "p < x"
    proof (rule ccontr)
      assume "\<not> p < x"
      then have "card (business_after hs d x) \<le> card (business_after hs d p)"
        by (intro card_mono finite_business) (auto simp: business_after_def)
      with p(3) x(3) show False by simp
    qed
    ultimately show ?thesis using p x by (simp add: run business_days_forward)
  next
    case False
    then have "add_business_days hs 365 d 15 = Inl Pdt_input_error" using fifteen by simp
    with False five show ?thesis unfolding run year by (auto split: if_splits)
  qed
qed

end
