(* ===== verification/Day_Witnesses.thy ===== *)
theory Day_Witnesses
  imports Day_Rules
begin

text \<open>
  Instances of the day trade properties: on Monday 1970-01-05, day 4, an account with little equity
  buys ten shares and sells four of them.
\<close>

declare collect_days.simps [code]

definition demo_pdt :: pdt_config where
  "demo_pdt = \<lparr>pc_policy = LEGACY_FINRA_PDT_POLICY, pc_holidays = [], pc_zone = (\<lambda>_. 0), pc_naive_is_local = True\<rparr>"

definition at_time :: "int \<Rightarrow> timestamp" where
  "at_time s = \<lparr>ts_wall = 4 * 86400000000 + s * 1000000, ts_zone = None\<rparr>"

definition demo_buy :: pdt_event where
  "demo_buy = Fill (V_str ''aapl'') (V_str ''buy'') (V_int 10) (Some (at_time 36000))"

definition demo_lot :: open_lot where
  "demo_lot = \<lparr>ol_side = SIDE_BUY, ol_quantity = 10, ol_time = at_time 36000, ol_date = 4\<rparr>"

definition bought :: pdt_engine where
  "bought = \<lparr>open_positions = [(''AAPL'', [demo_lot])], day_trade_history = [],
     execution_history = [\<lparr>te_symbol = ''AAPL'', te_side = SIDE_BUY, te_quantity = 10, te_time = at_time 36000, te_date = 4\<rparr>],
     designated = False\<rparr>"

lemma demo_inputs: "py_upper (py_strip ''aapl'') = ''AAPL''" "py_strip ''aapl'' \<noteq> ''''"
    "normalise_side (V_str ''buy'') = Inr SIDE_BUY" "normalise_side (V_str ''sell'') = Inr SIDE_SELL"
    "double_of_int 10 = Some 10" "double_of_int 4 = Some 4" "double_of_int 1000 = Some 1000"
  by code_simp+

lemma demo_quantities: "validate_quantity (V_int 10) = Inr 10" "validate_quantity (V_int 4) = Inr 4" "validate_amount (V_int 1000) = Inr 1000"
  by (simp_all add: validate_quantity_def validate_amount_def float_or_error_def demo_inputs)

lemma demo_day: "market_date demo_pdt (Some (at_time 36000)) = Inr 4" "market_date demo_pdt (Some (at_time 36060)) = Inr 4"
  by (simp_all add: market_date_def at_time_def demo_pdt_def day_of_def)

lemma demo_window: "window_dates demo_pdt 4 = Some (Inr [4, 1, 0, -1, -2])"
  by code_simp

lemma demo_bought: "fold (pdt_step demo_pdt) [demo_buy] new_pdt_engine = bought"
  by (simp add: demo_buy_def pdt_step_def record_execution_def demo_inputs demo_quantities demo_day record_fill_def new_pdt_engine_def
      Let_def py_get_def match_lots_def lots_after_def QUANTITY_EPSILON_def py_set_def bought_def demo_lot_def)

lemma positions_follow_fills_witness:
  "net_position (position_of bought ''AAPL'') = 10 \<and> booked bought ''AAPL'' = 10 \<and> one_sided (position_of bought ''AAPL'')"
proof -
  have kind: "\<forall>ev\<in>set [demo_buy]. one_kind True ev" by (simp add: demo_buy_def one_kind_def naive_time_def at_time_def)
  from positions_follow_fills[OF kind demo_bought, of "''AAPL''"] show ?thesis
    by (simp add: net_position_def position_of_def booked_def fills_of_def bought_def py_get_def signed_def demo_lot_def)
qed

definition sold :: day_trade where
  "sold = \<lparr>dt_symbol = ''AAPL'', dt_open = at_time 36000, dt_close = at_time 36060, dt_date = 4, dt_quantity = 4\<rparr>"

definition after_sale :: pdt_engine where
  "after_sale = \<lparr>open_positions = [(''AAPL'', [demo_lot\<lparr>ol_quantity := 6\<rparr>])], day_trade_history = [sold],
     execution_history = execution_history bought @
       [\<lparr>te_symbol = ''AAPL'', te_side = SIDE_SELL, te_quantity = 4, te_time = at_time 36060, te_date = 4\<rparr>],
     designated = False\<rparr>"

lemma demo_match: "match_lots SIDE_SELL 4 4 [demo_lot] =
    (Inr \<lparr>m_remaining = 0, m_closed = 4, m_earliest = Some (at_time 36000)\<rparr>, [demo_lot\<lparr>ol_quantity := 6\<rparr>])"
  by (simp add: match_lots_def demo_lot_def QUANTITY_EPSILON_def note_open_def Let_def)

lemma demo_sale: "record_execution demo_pdt (V_str ''aapl'') (V_str ''sell'') (V_int 4) (Some (at_time 36060)) bought = Some (Inr (Some sold), after_sale)"
proof -
  have run: "record_execution demo_pdt (V_str ''aapl'') (V_str ''sell'') (V_int 4) (Some (at_time 36060)) bought =
    record_fill demo_pdt ''AAPL'' SIDE_SELL 4 (at_time 36060) 4 bought"
    by (simp add: record_execution_def demo_inputs demo_quantities demo_day)
  have "dp_max_trades (pc_policy demo_pdt) = 4" by (simp add: demo_pdt_def LEGACY_FINRA_PDT_POLICY_def)
  moreover have "ol_quantity demo_lot = 10" by (simp add: demo_lot_def)
  ultimately show ?thesis unfolding run
    by (simp add: record_fill_def Let_def lots_after_def QUANTITY_EPSILON_def note_day_trade_def rolling_count_def demo_window
        sold_def after_sale_def py_get_def py_set_def bought_def demo_match)
qed

lemma day_trade_iff_same_day_witness:
  "dt_quantity sold \<le> min 4 10 \<and> 4 - QUANTITY_EPSILON \<le> dt_quantity sold \<and> day_trade_history after_sale = [sold]"
proof -
  have kind: "\<forall>ev\<in>set [demo_buy]. one_kind True ev" by (simp add: demo_buy_def one_kind_def naive_time_def at_time_def)
  have "open_against True SIDE_SELL 4 (position_of bought (py_upper (py_strip ''aapl''))) = 10"
    by (simp add: demo_inputs open_against_def closable_def position_of_def bought_def py_get_def demo_lot_def)
  from day_trade_iff_same_day[OF kind demo_bought demo_sale demo_inputs(4) demo_quantities(2) demo_day(2) this] show ?thesis
    by (simp add: bought_def)
qed

lemma counted_in_window_witness: "rolling_count demo_pdt 4 after_sale = Some (Inr 1)"
proof -
  have ok: "policy_ok (pc_policy demo_pdt)" by (simp add: policy_ok_def demo_pdt_def LEGACY_FINRA_PDT_POLICY_def)
  have "is_business_day [] 4" by (simp add: is_business_day_def weekday_def)
  then show ?thesis unfolding counted_in_window[OF ok]
    by (auto simp: demo_pdt_def after_sale_def sold_def business_days_between_def LEGACY_FINRA_PDT_POLICY_def)
qed

definition demo_gated :: "gated_fill list" where
  "demo_gated = [\<lparr>gf_equity = V_int 1000, gf_symbol = V_str ''aapl'', gf_side = V_str ''buy'', gf_quantity = V_int 10, gf_time = Some (at_time 36000)\<rparr>,
     \<lparr>gf_equity = V_int 1000, gf_symbol = V_str ''aapl'', gf_side = V_str ''sell'', gf_quantity = V_int 4, gf_time = Some (at_time 36060)\<rparr>]"

lemma gate_prevents_designation_witness: "\<not> designated (fold (gated_step demo_pdt) demo_gated new_pdt_engine)"
  by (rule gate_prevents_designation)
    (simp_all add: demo_pdt_def LEGACY_FINRA_PDT_POLICY_def demo_gated_def short_of_equity_def demo_quantities)

text \<open>Mixing naive and aware timestamps stops a fill half booked: the first lot is used up, the fill is not.\<close>

definition mixed_lots :: "open_lot list" where
  "mixed_lots = [demo_lot, demo_lot\<lparr>ol_time := \<lparr>ts_wall = 4 * 86400000000, ts_zone = Some (0, 0)\<rparr>\<rparr>]"

lemma mixed_times_half_booked:
  "match_lots SIDE_SELL 4 20 mixed_lots = (Inl Pdt_type_error, [demo_lot\<lparr>ol_quantity := 0\<rparr>, mixed_lots ! 1])"
  by (simp add: match_lots_def mixed_lots_def demo_lot_def QUANTITY_EPSILON_def note_open_def earlier_than_def at_time_def Let_def)

end
