(* ===== verification/Spec2Isabelle.thy ===== *)
theory Spec2Isabelle
  imports Gap_Properties Shamir_Bytes Approval_Witnesses Self_Match_Properties Router_Witnesses Fix_Witnesses Kill_Witnesses Book_Witnesses Security_Witnesses Quest_Witnesses
    Cancel_Witnesses Netting_Witnesses Failover_Witnesses Depth_Witnesses Day_Witnesses
begin

text \<open>
  Verification of the trading-skills library.

  \<^bold>\<open>The program.\<close> The repository is a library of independent skills. Each skill is one Python
  module under \<open>src/skills/<skill>/scripts/\<close> that a trading system imports; the modules share no
  code and call no other skill. The development takes fifteen of them, those whose state machines,
  arithmetic or concurrency decide whether money is safe, and models each one completely: its data,
  every operation that changes state, its error paths. Together they follow an order through a
  trading system: feeds are checked for gaps (\<open>Gap_*\<close>), books kept from snapshots and deltas
  (\<open>Depth_*\<close>) or rebuilt from logs (\<open>Book_*\<close>);
  instruments are resolved (\<open>Security_*\<close>); limits change under dual control (\<open>Approval_*\<close>) with keys
  backed up in shares (\<open>Shamir_*\<close>); orders are netted (\<open>Netting*\<close>), kept from trading with themselves
  (\<open>Self_Match*\<close>), placed exactly once (\<open>Order_*\<close>, \<open>Router_*\<close>), failed over between accounts
  (\<open>Failover_*\<close>), cancelled (\<open>Cancel_*\<close>), counted as day trades (\<open>Day_*\<close>), carried by a FIX session (\<open>Fix_*\<close>) or a rate-limited client
  (\<open>Quest_*\<close>), and stopped by a kill switch (\<open>Kill_*\<close>). Where several modules solve the same problem
  (two ways to forbid a second send, three machines under a lock) they are instances of the same
  locales of the prelude.

  \<^bold>\<open>The Python layer.\<close>
  \<^item> \<open>Py_Prelude\<close>: dictionaries in insertion order (\<open>py_get\<close>, \<open>py_set\<close>, \<open>py_del\<close>), with their contract as
    locale \<open>dict_store\<close> and its interpretation \<open>dict\<close>; the locales every stateful component rests on:
    \<open>invariant_machine\<close> (each event keeps an invariant, so every run does), \<open>guarded_machine\<close> (events a
    guard admits keep it) and \<open>progress_machine\<close> (runs only move forward in a preorder); lists, options
    and sums.
  \<^item> \<open>Py_Text\<close>, \<open>Text_Laws\<close>, \<open>Py_Value\<close>, \<open>Py_Regex\<close>: \<open>str\<close> methods on lists of characters, JSON text, dates,
    the values a caller may pass (\<open>py_value\<close>), number parsing and formatting, regular expressions by
    derivatives with look-behind.
  \<^item> \<open>Py_Decimal\<close>, \<open>Decimal_Laws\<close>: \<open>decimal\<close> as coefficient and exponent with the default context, 28 digits
    and rounding half to even; each operation's error bound, and when a quotient has the right floor.

  \<^bold>\<open>Feed sequence gap detector\<close> (\<open>sequence-number-gap-detection-for-feeds/scripts/gap_detector.py\<close>).
  \<open>Gap_Detector\<close> models \<open>FeedSequenceGapDetector\<close>: \<open>stream_state\<close> is \<open>_StreamState\<close>, \<open>ingest_frame\<close>,
  \<open>observe_heartbeat\<close>, \<open>reconcile_missing_frames\<close> and \<open>resynchronize\<close> are the methods of those names.
  \<open>Gap_Continuity\<close> proves the invariant of a stream (expected number, buffer, missing ranges) for each.
  \<open>Gap_Properties\<close>: frames are delivered in order without gaps; on a point feed exactly once; trading is
  authorised only on a continuous stream; missing ranges are exact. The loops recurse on the buffer.

  \<^bold>\<open>Shamir secret sharing\<close> (\<open>shamir-secret-sharing-for-key-backup/scripts/...\<close>). \<open>Shamir\<close> models the engine
  (\<open>split_secret\<close>, \<open>reconstruct_secret\<close>, \<open>verify_shares_consistent\<close>, the primality test); \<open>Prime_Field\<close> holds
  inverses, polynomials with few roots and Fermat's theorem; \<open>Shamir_Lagrange\<close> the interpolation,
  \<open>Shamir_Properties\<close> that any threshold of shares gives back the secret and what fewer disclose,
  \<open>Shamir_Bytes\<close> the bytes interface over 8-bit words. The generator is a function of the draw's number;
  redrawing is bounded by fuel and shown to return when the generator yields a usable value.

  \<^bold>\<open>Risk configuration approval\<close> (\<open>risk-control-configuration-change-approval-workflow/scripts/...\<close>).
  \<open>Risk_Approval\<close> models \<open>RiskConfigApprovalWorkflow\<close> over any store, and the in-memory store. Locale
  \<open>versioned_store\<close> in \<open>Approval_Lifecycle\<close> is the storage protocol; its laws are proved of the in-memory
  store by interpretation \<open>mem\<close>, and each workflow call refines an abstract lifecycle step.
  \<open>Approval_Properties\<close>: a live configuration was signed off by a quorum of others, versions move by
  compare and set, the audit log is a hash chain. \<open>Approval_Outcomes\<close>: applying exactly when allowed,
  retries, canonical payloads. SHA-256 and the domain validator are parameters.

  \<^bold>\<open>Self-match prevention\<close> (\<open>exchange-self-match-prevention-configuration/scripts/...\<close>). \<open>Self_Match\<close> models
  profiles, encoding, collision search and the action of the venue; \<open>Self_Match_Properties\<close>: what is
  left on the book after the action cannot match its own firm's orders.

  \<^bold>\<open>Order intent ledger and idempotent router\<close> (\<open>order-placement-idempotency/scripts/order_ledger.py\<close>).
  \<open>Order_Classify\<close> (keys, classification of an answer), \<open>Order_Ledger\<close> (the SQLite table as a keyed table
  with atomic methods), \<open>Order_Router\<close> (placing, reconciling, recovery, with a death of the process inside
  any send). \<open>Order_Moves\<close> breaks each call into moves of an abstract ledger. \<open>Router_Properties\<close>,
  \<open>Router_Outcomes\<close>: at most one live order per intent at an honest broker; one justified send per call,
  written ahead; settled intents stay settled; recovery settles or alerts.

  \<^bold>\<open>FIX session engine\<close> (\<open>fix-protocol-session-management-across-venues/scripts/...\<close>). \<open>Fix_Session\<close> is
  \<open>FixSessionEngine\<close>, one definition per message handler; \<open>Fix_Buffer\<close> the retained messages and the answer
  to a resend request; \<open>Fix_Properties\<close>: two engines that lost messages come back in step, accepted
  numbers strictly increase, one resend request per recovery.

  \<^bold>\<open>Kill switch\<close> (\<open>execution-algorithm-kill-switch-integration/scripts/...\<close>). \<open>Kill_Switch\<close> is the engine with
  gateways as parameters, whose answers may be results, exceptions or nonsense; \<open>Kill_Dispatch\<close> and
  \<open>Kill_Moves\<close> say what a dispatch may change;
  \<open>Kill_Properties\<close>: no order passes between a trigger and the reset, and re-arming takes a report on
  each pending cancel or an acknowledgement, unless a gateway answered an order-by-order cancel with
  something that is no mapping, which \<open>malformed_answer_forgets_order\<close> runs.

  \<^bold>\<open>Order book reconstruction\<close> (\<open>historical-order-book-reconstruction-from-message-logs/scripts/...\<close>).
  \<open>Book_Replay\<close> is the replay in both modes; \<open>Book_Levels\<close> the incremental levels as a function of the
  live orders; \<open>Book_Effects\<close> the abstract book each message updates, which messages it
  refuses and with what error; \<open>Book_Snapshot\<close>, \<open>Book_Clean\<close>, \<open>Book_Properties\<close>: depth and snapshots are
  those of the live orders, a replay is the run of the abstract book, raises included, a strict
  engine accepts exactly the logs without violations.

  \<^bold>\<open>Security identifiers\<close> (\<open>isin-cusip-sedol-cross-reference-service/scripts/...\<close>). \<open>Security_Ids\<close> is the
  service, \<open>Check_Digits\<close> the arithmetic of check digits, \<open>Security_Master\<close> the indexes;
  \<open>Security_Properties\<close>: a wrong digit is noticed, each record is found by its own identifiers, each
  answer is about the query asked, under the type given or inferred, and justified by a record.

  \<^bold>\<open>Questrade client\<close> (\<open>questrade-api-rate-limit-and-account-types/scripts/questrade_client.py\<close>).
  \<open>Quest_Limits\<close> (token bucket, sliding windows, budgets), \<open>Quest_Client\<close> (requests, rotation of tokens,
  accounts, eligibility). \<open>Quest_Windows\<close>, \<open>Quest_Budget\<close>, \<open>Quest_Await\<close>, \<open>Quest_Calls\<close>: charges never exceed
  a window under a clock that does not go back. The waiting loop \<open>await_loop\<close> is a
  \<open>partial_function (option)\<close>, as nothing bounds it in the code; \<open>await_ends_in_two_rounds\<close> shows two
  rounds suffice when sleeping takes as long as asked. \<open>Quest_Properties\<close>, \<open>Quest_Tokens\<close>: the rate any
  sequence of calls sends, what a request sends, rotations persisted before use.

  \<^bold>\<open>Cancel manager\<close> (\<open>broker-api-idempotent-cancel-requests/scripts/cancel_manager.py\<close>). \<open>Cancel_Manager\<close> is
  \<open>IdempotentCancelManager\<close>; its retry loop takes one step per attempt and the number of attempts is its
  fuel, \<open>max_retries + 1\<close>, as in the source. \<open>Cancel_Threads\<close> splits a call at the lock and at the broker and
  lets threads interleave; \<open>Cancel_Properties\<close>: one dispatch in flight per id, answers replayed, an order
  called dead only when the broker said so, bounded waiting, a well-formed cache, and the call as
  written is the machine with one thread.

  \<^bold>\<open>Order netting\<close> (\<open>multi-order-netting-before-routing/scripts/...\<close>). \<open>Netting\<close> is \<open>MultiOrderNettingEngine\<close>:
  \<open>net_and_route_orders\<close> validates, checks the quote, and \<open>cross_orders\<close> is its crossing half.
  \<open>Netting_Shares\<close>: both allocation policies hand out exactly the matched quantity. The batch is assumed
  below \<open>10 ^ 13\<close> shares a side, so that products fit the 28 digits and the quotient's floor is right.
  \<open>Netting_Properties\<close>: every share submitted is filled, handed back or routed; no fill and no residual
  crosses a limit; pro rata is within one share of exact; a cross is reported unless one known owner
  holds both sides.

  \<^bold>\<open>Broker failover router\<close> (\<open>broker-failover-secondary-account-routing/scripts/failover_router.py\<close>).
  \<open>Failover_Circuit\<close> holds what \<open>BrokerFailoverRouter\<close> keeps under its lock, each locked section one step
  (\<open>_snapshot_state\<close>, \<open>_acquire_probe_permit\<close>, \<open>_record_primary_success\<close>, ...), and runs of sections by any
  threads, through the interpretations \<open>circuits\<close>, \<open>generations\<close> and \<open>held_open\<close>. \<open>Failover_Router\<close> is a
  submission: \<open>submit_order\<close>, \<open>_submit_reduce_order\<close>, \<open>_handle_primary_exception\<close>, \<open>_route_failover\<close>, symbol maps
  and cached positions. \<open>Failover_Properties\<close>: a doubtful order is not sent again, a reducing order stays
  with its position, a manual opening holds, the circuit closes again.

  \<^bold>\<open>Depth reconciler\<close> (\<open>market-data-snapshot-plus-delta-reconciliation/scripts/order_book_reconciler.py\<close>).
  \<open>Depth_Reconciler\<close> is \<open>OrderBookReconciler\<close>: \<open>buffer_delta\<close> and \<open>process_delta\<close> call each other once at most, so
  each queues or follows by the state; \<open>install_snapshot\<close> is the part of \<open>apply_snapshot\<close> after its checks.
  \<open>Depth_Properties\<close> states the venue as a book per update id and what makes a delta or a snapshot its
  own; over interpretation \<open>depth\<close> a synchronised book is the venue's, and a snapshot synchronises
  exactly when it reaches the queued deltas.

  \<^bold>\<open>Day trade tracker\<close> (\<open>pattern-day-trader-rule-compliance-us/scripts/pdt_tracker.py\<close>). \<open>Day_Trades\<close> is
  \<open>PDTComplianceEngine\<close> with the functions on intraday margin beside it: \<open>match_pass\<close> is one pass of
  \<open>record_execution\<close> over the open lots, \<open>collect_days\<close> the loop of \<open>_window_dates\<close>, which nothing in the
  code bounds and \<open>Day_Windows\<close> shows to end. \<open>Day_Properties\<close> follows lots and positions through both
  passes and, over interpretation \<open>day_positions\<close>, through runs; \<open>Day_Rules\<close>: positions follow the fills,
  what makes a fill a day trade, what the window counts, that obeying the gate prevents a designation,
  and the deadlines of a deficit.

  \<^bold>\<open>Conventions.\<close> A record is the state of an object, a method returns the new state; exceptions are
  values of a sum or option type; code that holds a lock is one step (\<open>submit_change\<close>, two locked sections with a read of the store
  between them, is one step too). Code outside the repository is a
  parameter: SHA-256, random generators, brokers and gateways, order-status resolvers, clocks, sleep,
  HTTP transport, persistence of tokens, the parser of HTTP dates, validators of configurations. A
  theorem that needs something of a parameter says so as a hypothesis and its witness instantiates it.
  Witnesses stand in the \<open>*_Witnesses\<close> theories (in the properties' theory for the first components).

  \<^bold>\<open>Idealisations.\<close> A float is the rational it denotes, and arithmetic on times and prices that are floats
  is exact; integers are unbounded as in Python; characters are Latin-1; two records of the security
  master are the same when they are the same object, kept as an identity; a caller's opaque value
  cannot be iterated; decimals have no signed zeros and no limits on the exponent; a broker's
  \<open>Retry-After\<close> is none or finite. Log messages and the prose of audit notes are left out.

  \<^bold>\<open>Not modelled.\<close> The other skill modules: most compute statistics over floats or data frames, wrap a
  vendor's API, or list compliance checks, and none is called by the modules above; candidates for
  the next components are \<open>api_migrator.py\<close>, \<open>us_reg_nms_order_protection_rule_compliance.py\<close> and
  \<open>nyse_arca_integrated_feed_handling.py\<close>. The tooling under \<open>tools\<close> is file-system and subprocess glue,
  \<open>site\<close> is a web front end, \<open>examples\<close> and \<open>tests\<close> drive the skills. Of the modelled modules only test
  doubles (\<open>MockBrokerAdapter\<close>) and text for people are left out.
\<close>

end
